(* ===== verification/CC_Prelude.thy ===== *)
theory CC_Prelude
  imports Main "HOL-Library.Word"
begin

text \<open>
  Vocabulary shared by every component: the machine integers of the code, byte strings, the
  block memory in which C pointers live, and the few functions of the C library the code
  relies on (\<open>memchr\<close>, \<open>memcmp\<close>, \<open>memcpy\<close>, \<open>strlen\<close>, \<open>atoi\<close>), each with the lemmas the
  component proofs use.  Collections of hints: \<open>mem_simps\<close> (reading after writing) and
  \<open>bound_simps\<close> (\<open>unat\<close> of word operations whose result fits).
\<close>

unbundle bit_operations_syntax

named_theorems mem_simps
named_theorems bound_simps

section \<open>Machine integers\<close>

type_synonym u8 = "8 word"
type_synonym u16 = "16 word"
type_synonym u32 = "32 word"
type_synonym u64 = "64 word"

text \<open>The test \<open>x & mask\<close> used as a C condition.\<close>

definition has_flag :: "'a::len word \<Rightarrow> 'a word \<Rightarrow> bool" where
  "has_flag x f \<longleftrightarrow> x AND f \<noteq> 0"

definition set_flag :: "'a::len word \<Rightarrow> 'a word \<Rightarrow> 'a word" where
  "set_flag x f = x OR f"

definition clear_flag :: "'a::len word \<Rightarrow> 'a word \<Rightarrow> 'a word" where
  "clear_flag x f = x AND NOT f"

lemma has_set_flag [simp]: "f \<noteq> 0 \<Longrightarrow> has_flag (set_flag x f) f"
proof -
  have "(x OR f) AND f = f" by (rule bit_word_eqI) (auto simp: bit_simps)
  then show "f \<noteq> 0 \<Longrightarrow> has_flag (set_flag x f) f"
    by (simp add: has_flag_def set_flag_def)
qed

lemma not_has_clear_flag [simp]: "\<not> has_flag (clear_flag x f) f"
proof -
  have "(x AND NOT f) AND f = 0" by (rule bit_word_eqI) (auto simp: bit_simps)
  then show ?thesis by (simp add: has_flag_def clear_flag_def)
qed

lemma has_flag_set_other: "g AND f = 0 \<Longrightarrow> has_flag (set_flag x f) g = has_flag x g"
proof -
  assume d: "g AND f = 0"
  have "(x OR f) AND g = (x AND g) OR (f AND g)"
    by (rule bit_word_eqI) (auto simp: bit_simps)
  also have "f AND g = 0" using d by (simp add: and.commute)
  finally show ?thesis by (simp add: has_flag_def set_flag_def)
qed

lemma has_flag_clear_other: "g AND f = 0 \<Longrightarrow> has_flag (clear_flag x f) g = has_flag x g"
proof -
  assume d: "g AND f = 0"
  have "(x AND NOT f) AND g = x AND (g AND NOT f)"
    by (rule bit_word_eqI) (auto simp: bit_simps)
  also have "g AND NOT f = g"
  proof (rule bit_word_eqI)
    fix n
    from d have "\<not> (bit g n \<and> bit f n)" by (metis bit_and_iff bit_0_eq bot_apply bot_bool_def)
    then show "n < LENGTH('a) \<Longrightarrow> bit (g AND NOT f) n = bit g n" by (auto simp: bit_simps)
  qed
  finally show ?thesis by (simp add: has_flag_def clear_flag_def)
qed

lemma unat_add_small [bound_simps]:
  "unat (a::'a::len word) + unat b < 2 ^ LENGTH('a) \<Longrightarrow> unat (a + b) = unat a + unat b"
  by (simp add: unat_word_ariths)

lemma unat_of_nat_small [bound_simps]:
  "n < 2 ^ LENGTH('a) \<Longrightarrow> unat (of_nat n :: 'a::len word) = n"
  by (simp add: unat_of_nat take_bit_nat_eq_self)

lemma unat_sub_le [bound_simps]:
  "b \<le> a \<Longrightarrow> unat (a - b) = unat (a::'a::len word) - unat b"
  by (simp add: unat_sub)

lemma unat_ucast_small [bound_simps]:
  "unat (x::'a::len word) < 2 ^ LENGTH('b) \<Longrightarrow> unat (ucast x :: 'b::len word) = unat x"
  by (simp add: unsigned_ucast_eq take_bit_nat_eq_self)

lemma unat_min: "unat (if b < a then b else a) = min (unat a) (unat b)"
  by (simp add: word_less_nat_alt min_def)

lemma unat16_bound [simp]: "unat (x::u16) < 65536"
  using unsigned_less [of x] by simp

lemma unat32_bound [simp]: "unat (x::u32) < 4294967296"
  using unsigned_less [of x] by simp

lemma unat8_bound [simp]: "unat (x::u8) < 256"
  using unsigned_less [of x] by simp

lemma unat_ucast_16_32 [simp]: "unat (ucast (x::u16) :: u32) = unat x"
  by (rule unat_ucast_small, rule order_less_trans [OF unat16_bound]) simp

section \<open>Byte strings\<close>

text \<open>The bytes of a C string literal, without its terminating NUL.\<close>

definition str :: "string \<Rightarrow> u8 list" where
  "str s = map of_char s"

lemma length_str [simp]: "length (str s) = length s"
  by (simp add: str_def)

definition char_byte :: "char \<Rightarrow> u8" where
  "char_byte c = of_char c"

text \<open>Writing bytes into a buffer and reading bytes of it; \<open>None\<close> beyond its end.\<close>

definition poke :: "nat \<Rightarrow> u8 list \<Rightarrow> u8 list \<Rightarrow> u8 list option" where
  "poke i xs buf =
     (if i + length xs \<le> length buf then Some (take i buf @ xs @ drop (i + length xs) buf) else None)"

definition peek :: "nat \<Rightarrow> nat \<Rightarrow> u8 list \<Rightarrow> u8 list option" where
  "peek i n buf = (if i + n \<le> length buf then Some (take n (drop i buf)) else None)"

text \<open>\<open>strlen\<close> of the bytes that follow a pointer: the index of the first NUL.\<close>

fun strlen :: "u8 list \<Rightarrow> nat" where
  "strlen [] = 0"
| "strlen (x # xs) = (if x = 0 then 0 else Suc (strlen xs))"

lemma strlen_le [simp]: "strlen xs \<le> length xs"
  by (induction xs) auto

lemma strlen_append_nul: "0 \<notin> set xs \<Longrightarrow> strlen (xs @ 0 # ys) = length xs"
  by (induction xs) auto

lemma strlen_nth: "strlen xs < length xs \<Longrightarrow> xs ! strlen xs = 0"
  by (induction xs) auto

lemma strlen_before: "i < strlen xs \<Longrightarrow> xs ! i \<noteq> 0"
  by (induction xs arbitrary: i) (auto simp: nth_Cons split: if_splits nat.splits)

section \<open>The C library on byte strings\<close>

text \<open>
  \<open>memchr\<close> over the bytes searched: the offset of the first byte equal to \<open>c\<close>.
  \<open>memcmp\<close> over two strings of the same length: only the sign of the C result is specified,
  so the model returns \<open>-1\<close>, \<open>0\<close> or \<open>1\<close>.
\<close>

fun memchr :: "u8 \<Rightarrow> u8 list \<Rightarrow> nat option" where
  "memchr c [] = None"
| "memchr c (x # xs) = (if x = c then Some 0 else map_option Suc (memchr c xs))"

fun memcmp :: "u8 list \<Rightarrow> u8 list \<Rightarrow> int" where
  "memcmp [] ys = 0"
| "memcmp xs [] = 0"
| "memcmp (x # xs) (y # ys) = (if x = y then memcmp xs ys else if x < y then -1 else 1)"

lemma memchr_None: "memchr c xs = None \<longleftrightarrow> c \<notin> set xs"
  by (induction xs) auto

lemma memchr_SomeD:
  "memchr c xs = Some i \<Longrightarrow> i < length xs \<and> xs ! i = c \<and> (\<forall>j<i. xs ! j \<noteq> c)"
proof (induction xs arbitrary: i)
  case Nil
  then show ?case by simp
next
  case (Cons x xs)
  show ?case
  proof (cases "x = c")
    case True
    with Cons.prems show ?thesis by auto
  next
    case False
    with Cons.prems obtain k where k: "memchr c xs = Some k" "i = Suc k" by auto
    from Cons.IH [OF k(1)] False k(2) show ?thesis
      by (auto simp: nth_Cons split: nat.splits)
  qed
qed

lemma memcmp_refl [simp]: "memcmp xs xs = 0"
  by (induction xs) auto

lemma memcmp_eq_0: "length xs = length ys \<Longrightarrow> memcmp xs ys = 0 \<longleftrightarrow> xs = ys"
  by (induction xs ys rule: memcmp.induct) auto

lemma memcmp_Nil2 [simp]: "memcmp xs [] = 0"
  by (cases xs) auto

lemma memcmp_swap: "memcmp ys xs = - memcmp xs ys"
  by (induction xs ys rule: memcmp.induct) auto

text \<open>
  \<open>atoi\<close> on the bytes that follow the pointer: white space, an optional sign, digits up to the
  first byte that is not one.  The value is the mathematical integer; outside the range of
  \<open>int\<close> the C function is undefined.
\<close>

definition is_digit :: "u8 \<Rightarrow> bool" where
  "is_digit c \<longleftrightarrow> 48 \<le> c \<and> c \<le> 57"

definition is_space :: "u8 \<Rightarrow> bool" where
  "is_space c \<longleftrightarrow> c = 32 \<or> (9 \<le> c \<and> c \<le> 13)"

fun digits_value :: "nat \<Rightarrow> u8 list \<Rightarrow> nat" where
  "digits_value acc [] = acc"
| "digits_value acc (c # cs) =
     (if is_digit c then digits_value (acc * 10 + (unat c - 48)) cs else acc)"

definition atoi :: "u8 list \<Rightarrow> int" where
  "atoi xs =
     (case dropWhile is_space xs of
        [] \<Rightarrow> 0
      | c # cs \<Rightarrow> (if c = 45 then - int (digits_value 0 cs)
                  else if c = 43 then int (digits_value 0 cs)
                  else int (digits_value 0 (c # cs))))"

lemma digits_value_append:
  "list_all is_digit xs \<Longrightarrow> digits_value acc (xs @ ys) = digits_value (digits_value acc xs) ys"
  by (induction xs arbitrary: acc) auto

lemma digits_value_stop: "\<not> is_digit c \<Longrightarrow> digits_value acc (c # ys) = acc"
  by simp

section \<open>Codes of the host API\<close>

definition SL_EAGAIN :: int where "SL_EAGAIN = -11"
definition SL_POOL_IS_EMPTY :: int where "SL_POOL_IS_EMPTY = -2000"

section \<open>Block memory\<close>

text \<open>
  A C object is a block; a pointer is a block and an offset in it, or NULL.  Offsets past the
  end of an object are representable, so that an access out of bounds is visible in the model
  as one at such an offset.
\<close>

datatype 'b ptr = Null | Ptr 'b nat

type_synonym 'b mem = "'b \<Rightarrow> nat \<Rightarrow> u8"

fun ptr_add :: "'b ptr \<Rightarrow> nat \<Rightarrow> 'b ptr" where
  "ptr_add Null n = Null"
| "ptr_add (Ptr b i) n = Ptr b (i + n)"

definition mem_read :: "'b mem \<Rightarrow> 'b \<Rightarrow> nat \<Rightarrow> nat \<Rightarrow> u8 list" where
  "mem_read m b i n = map (m b) [i..<i + n]"

definition mem_write :: "'b mem \<Rightarrow> 'b \<Rightarrow> nat \<Rightarrow> u8 list \<Rightarrow> 'b mem" where
  "mem_write m b i xs =
     m(b := (\<lambda>j. if i \<le> j \<and> j < i + length xs then xs ! (j - i) else m b j))"

definition mem_set1 :: "'b mem \<Rightarrow> 'b \<Rightarrow> nat \<Rightarrow> u8 \<Rightarrow> 'b mem" where
  "mem_set1 m b i v = m(b := (m b)(i := v))"

text \<open>\<open>memcpy(dst, src, n)\<close> between distinct ranges and \<open>memset(dst, v, n)\<close>.\<close>

definition memcpy :: "'b mem \<Rightarrow> 'b \<Rightarrow> nat \<Rightarrow> 'b \<Rightarrow> nat \<Rightarrow> nat \<Rightarrow> 'b mem" where
  "memcpy m d i s j n = mem_write m d i (mem_read m s j n)"

definition memset :: "'b mem \<Rightarrow> 'b \<Rightarrow> nat \<Rightarrow> u8 \<Rightarrow> nat \<Rightarrow> 'b mem" where
  "memset m b i v n = mem_write m b i (replicate n v)"

text \<open>A memory whose every block holds the given bytes and then NULs, for concrete runs.\<close>

definition mem_of :: "u8 list \<Rightarrow> 'b mem" where
  "mem_of xs = (\<lambda>b i. if i < length xs then xs ! i else 0)"

lemma length_mem_read [simp, mem_simps]: "length (mem_read m b i n) = n"
  by (simp add: mem_read_def)

lemma nth_mem_read [mem_simps]: "k < n \<Longrightarrow> mem_read m b i n ! k = m b (i + k)"
  by (simp add: mem_read_def)

lemma mem_write_same [mem_simps]:
  "mem_write m b i xs b j = (if i \<le> j \<and> j < i + length xs then xs ! (j - i) else m b j)"
  by (simp add: mem_write_def)

lemma mem_write_other [mem_simps]: "b' \<noteq> b \<Longrightarrow> mem_write m b i xs b' = m b'"
  by (simp add: mem_write_def)

lemma mem_set1_apply [mem_simps]:
  "mem_set1 m b i v b' j = (if b' = b \<and> j = i then v else m b' j)"
  by (simp add: mem_set1_def)

lemma mem_read_write [mem_simps]: "mem_read (mem_write m b i xs) b i (length xs) = xs"
  by (rule nth_equalityI) (auto simp: mem_simps)

lemma mem_read_write_other [mem_simps]:
  "b' \<noteq> b \<Longrightarrow> mem_read (mem_write m b i xs) b' j n = mem_read m b' j n"
  by (simp add: mem_read_def mem_simps)

lemma mem_read_cong:
  "(\<And>k. i \<le> k \<Longrightarrow> k < i + n \<Longrightarrow> m b k = m' b k) \<Longrightarrow> mem_read m b i n = mem_read m' b i n"
  by (auto simp: mem_read_def)

lemma mem_read_write_before [mem_simps]:
  "j + n \<le> i \<Longrightarrow> mem_read (mem_write m b i xs) b j n = mem_read m b j n"
  by (rule mem_read_cong) (auto simp: mem_simps)

lemma mem_read_append: "mem_read m b i (n + k) = mem_read m b i n @ mem_read m b (i + n) k"
  using upt_add_eq_append [of i "i + n" k] by (simp add: mem_read_def add.assoc)

lemma mem_read_write_append [mem_simps]:
  "mem_read (mem_write m b (i + n) xs) b i (n + length xs) = mem_read m b i n @ xs"
  by (simp add: mem_read_append mem_simps)

lemma mem_read_0 [simp, mem_simps]: "mem_read m b i 0 = []"
  by (simp add: mem_read_def)

lemma mem_write_Nil [simp, mem_simps]: "mem_write m b i [] = m"
  by (intro ext) (auto simp: mem_write_def)

lemma mem_read_eq_Nil [simp, mem_simps]: "mem_read m b i n = [] \<longleftrightarrow> n = 0"
  by (metis length_0_conv length_mem_read)

lemma drop_mem_read: "drop k (mem_read m b i n) = mem_read m b (i + k) (n - k)"
proof (cases "k \<le> n")
  case True
  then show ?thesis by (auto simp: mem_read_def drop_map)
next
  case False
  then show ?thesis by simp
qed

lemma take_mem_read: "k \<le> n \<Longrightarrow> take k (mem_read m b i n) = mem_read m b i k"
  by (simp add: mem_read_def take_map)

section \<open>Occurrences of a token in a byte string\<close>

definition occurs_at :: "u8 list \<Rightarrow> u8 list \<Rightarrow> nat \<Rightarrow> bool" where
  "occurs_at tok xs i \<longleftrightarrow> i + length tok \<le> length xs \<and> take (length tok) (drop i xs) = tok"

definition first_occurrence :: "u8 list \<Rightarrow> u8 list \<Rightarrow> nat \<Rightarrow> bool" where
  "first_occurrence tok xs i \<longleftrightarrow> occurs_at tok xs i \<and> (\<forall>j<i. \<not> occurs_at tok xs j)"

lemma first_occurrence_unique:
  "first_occurrence tok xs i \<Longrightarrow> first_occurrence tok xs j \<Longrightarrow> i = j"
  by (metis first_occurrence_def linorder_neqE_nat)

lemma occurs_at_hd: "occurs_at (c # cs) xs i \<Longrightarrow> xs ! i = c"
proof -
  assume "occurs_at (c # cs) xs i"
  then have "i < length xs" and "take (Suc (length cs)) (drop i xs) = c # cs"
    by (auto simp: occurs_at_def)
  then show "xs ! i = c" by (simp add: Cons_nth_drop_Suc [symmetric])
qed

lemma occurs_at_mem_read:
  "i + length tok \<le> n \<Longrightarrow>
   occurs_at tok (mem_read m b off n) i \<longleftrightarrow> mem_read m b (off + i) (length tok) = tok"
  by (simp add: occurs_at_def drop_mem_read take_mem_read)

end
