(* ===== verification/Radix.thy ===== *)
theory Radix
  imports CC_Prelude
begin

text \<open>
  The reference for every routine that prints a number: the digits of a number in a base, most
  significant first (\<open>radix\<close>), a fixed count of its low digits (\<open>radix_pad\<close>), and the value a
  digit list denotes (\<open>radix_value\<close>).
\<close>

text \<open>The reference: the digits of a number in a base, most significant first.\<close>

function radix :: "nat \<Rightarrow> nat \<Rightarrow> nat list" where
  "radix r u = (if r < 2 \<or> u = 0 then [] else radix r (u div r) @ [u mod r])"
  by pat_completeness auto
termination
  by (relation "measure snd") (auto intro: div_less_dividend)

declare radix.simps [simp del]

lemma radix_0 [simp]: "radix r 0 = []"
  by (simp add: radix.simps)

lemma radix_step: "2 \<le> r \<Longrightarrow> 0 < u \<Longrightarrow> radix r u = radix r (u div r) @ [u mod r]"
  by (subst radix.simps) auto

lemma radix_eq_Nil: "2 \<le> r \<Longrightarrow> radix r u = [] \<longleftrightarrow> u = 0"
  by (cases "u = 0") (auto simp: radix_step [of r u])

fun radix_value :: "nat \<Rightarrow> nat \<Rightarrow> nat list \<Rightarrow> nat" where
  "radix_value r acc [] = acc"
| "radix_value r acc (d # ds) = radix_value r (acc * r + d) ds"

lemma radix_value_snoc: "radix_value r acc (ds @ [d]) = radix_value r acc ds * r + d"
  by (induction ds arbitrary: acc) auto

lemma radix_value_radix: "2 \<le> r \<Longrightarrow> radix_value r 0 (radix r u) = u"
proof (induction r u rule: radix.induct)
  case (1 r u)
  then show ?case
    by (cases "u = 0") (auto simp: radix_step [of r u] radix_value_snoc)
qed

lemma radix_digits: "2 \<le> r \<Longrightarrow> \<forall>d\<in>set (radix r u). d < r"
proof (induction r u rule: radix.induct)
  case (1 r u)
  then show ?case by (cases "u = 0") (auto simp: radix_step [of r u])
qed

lemma length_radix_le: "2 \<le> r \<Longrightarrow> u < r ^ n \<Longrightarrow> length (radix r u) \<le> n"
proof (induction n arbitrary: u)
  case 0
  then show ?case by simp
next
  case (Suc n)
  show ?case
  proof (cases "u = 0")
    case False
    have "u div r < r ^ n"
      using Suc.prems by (simp add: less_mult_imp_div_less mult.commute)
    then show ?thesis using Suc False by (simp add: radix_step [of r u])
  qed simp
qed

text \<open>The \<open>n\<close> least significant digits of a number, padded with zeros on the left.\<close>

fun radix_pad :: "nat \<Rightarrow> nat \<Rightarrow> nat \<Rightarrow> nat list" where
  "radix_pad r 0 u = []"
| "radix_pad r (Suc n) u = radix_pad r n (u div r) @ [u mod r]"

lemma length_radix_pad [simp]: "length (radix_pad r n u) = n"
  by (induction r n u rule: radix_pad.induct) auto

lemma radix_pad_value: "0 < r \<Longrightarrow> radix_value r 0 (radix_pad r n u) = u mod r ^ n"
proof (induction r n u rule: radix_pad.induct)
  case (2 r n u)
  then show ?case
    by (simp add: radix_value_snoc mod_mult2_eq mult.commute)
qed simp

lemma radix_pad_radix: "2 \<le> r \<Longrightarrow> radix_pad r (length (radix r u)) u = radix r u"
proof (induction r u rule: radix.induct)
  case (1 r u)
  then show ?case by (cases "u = 0") (auto simp: radix_step [of r u])
qed

end
