(* ===== verification/Http_String.thy ===== *)
theory Http_String
  imports Radix
begin

text \<open>
  \<open>netapps/http/server/HttpString.c\<close>: the blobs the HTTP server passes around (a 16-bit length
  and a pointer), their comparison, the two token searches of the header parser, and the
  conversions between numbers and text.  A search is a loop over the offset \<open>pch - pData\<close>;
  \<open>HttpString_nextToken\<close> lowers the case of the blob in place before it searches.
\<close>

section \<open>Blobs\<close>

record 'b http_blob =
  uLength :: u16
  pData :: "'b ptr"

definition nullBlob :: "'b http_blob" where
  "nullBlob = \<lparr>uLength = 0, pData = Null\<rparr>"

definition blob_bytes :: "'b mem \<Rightarrow> 'b http_blob \<Rightarrow> u8 list" where
  "blob_bytes m blob =
     (case pData blob of Null \<Rightarrow> [] | Ptr b off \<Rightarrow> mem_read m b off (unat (uLength blob)))"

text \<open>\<open>pData += n; uLength -= n\<close>, the second in 16-bit arithmetic.\<close>

definition blob_skip :: "'b http_blob \<Rightarrow> nat \<Rightarrow> 'b http_blob" where
  "blob_skip blob n =
     blob\<lparr>pData := ptr_add (pData blob) n, uLength := uLength blob - of_nat n\<rparr>"

section \<open>Comparison\<close>

definition HttpString_strcmp :: "u8 list \<Rightarrow> u8 list \<Rightarrow> int" where
  "HttpString_strcmp first second =
     (let mn = (if length first > length second then length second else length first);
          res = memcmp (take mn first) (take mn second)
      in if res \<noteq> 0 then res
         else if length first > length second then 1
         else if length first < length second then -1
         else 0)"

section \<open>Token search\<close>

definition lower_byte :: "u8 \<Rightarrow> u8" where
  "lower_byte c = (if 65 \<le> c \<and> c \<le> 90 then c + 32 else c)"

text \<open>The loop of \<open>ToLower\<close> runs \<open>i\<close> from 0 to \<open>len\<close> inclusive.\<close>

definition ToLower :: "'b mem \<Rightarrow> 'b \<Rightarrow> nat \<Rightarrow> nat \<Rightarrow> 'b mem" where
  "ToLower m b off len =
     fold (\<lambda>i m. mem_set1 m b (off + i) (lower_byte (m b (off + i)))) [0..<Suc len] m"

text \<open>
  The search loop shared by \<open>HttpString_nextToken\<close> and \<open>HttpString_nextDelimiter\<close>: \<open>k\<close> is
  \<open>pch - blob.pData\<close>, and an empty token starts with its terminating NUL.
\<close>

function HttpString_scan ::
  "'b mem \<Rightarrow> u8 list \<Rightarrow> 'b \<Rightarrow> nat \<Rightarrow> nat \<Rightarrow> nat \<Rightarrow> nat option" where
  "HttpString_scan m tok b off len k =
     (if k < len then
        (let nMaxCount = int len - int k - int (length tok) + 1 in
         if nMaxCount < 1 then None
         else (case memchr (case tok of [] \<Rightarrow> 0 | c # cs \<Rightarrow> c)
                           (mem_read m b (off + k) (nat nMaxCount)) of
                 None \<Rightarrow> None
               | Some d \<Rightarrow>
                   if HttpString_strcmp tok (mem_read m b (off + (k + d)) (length tok)) = 0
                   then Some (k + d)
                   else HttpString_scan m tok b off len (Suc (k + d))))
      else None)"
  by pat_completeness auto
termination
  by (relation "measure (\<lambda>(m, tok, b, off, len, k). len - k)") auto

declare HttpString_scan.simps [simp del]

definition scan_ptr :: "'b \<Rightarrow> nat \<Rightarrow> nat option \<Rightarrow> 'b ptr" where
  "scan_ptr b off r = (case r of None \<Rightarrow> Null | Some i \<Rightarrow> Ptr b (off + i))"

text \<open>
  A search of a NULL blob is undefined in the code; the model finds nothing, and the callers
  are shown not to make such a call.
\<close>

definition HttpString_nextToken ::
  "'b mem \<Rightarrow> u8 list \<Rightarrow> 'b http_blob \<Rightarrow> 'b ptr \<times> 'b mem" where
  "HttpString_nextToken m tok blob =
     (case pData blob of
        Null \<Rightarrow> (Null, m)
      | Ptr b off \<Rightarrow>
          (let len = unat (uLength blob);
               m' = ToLower m b off len
           in (scan_ptr b off (HttpString_scan m' tok b off len 0), m')))"

definition HttpString_nextDelimiter :: "'b mem \<Rightarrow> u8 list \<Rightarrow> 'b http_blob \<Rightarrow> 'b ptr" where
  "HttpString_nextDelimiter m tok blob =
     (case pData blob of
        Null \<Rightarrow> Null
      | Ptr b off \<Rightarrow> scan_ptr b off (HttpString_scan m tok b off (unat (uLength blob)) 0))"

section \<open>Numbers and text\<close>

definition digits :: "u8 list" where
  "digits = str ''0123456789''"

definition hexDigits :: "u8 list" where
  "hexDigits = str ''0123456789abcdef''"

text \<open>
  \<open>atoi\<close> ignores the blob's length: it reads from \<open>pData\<close> on, here up to \<open>size\<close>, the number of
  bytes of the object after the pointer.
\<close>

definition HttpString_atou :: "'b mem \<Rightarrow> ('b \<Rightarrow> nat) \<Rightarrow> 'b http_blob \<Rightarrow> u32" where
  "HttpString_atou m bsize blob =
     (case pData blob of
        Null \<Rightarrow> 0
      | Ptr b off \<Rightarrow> word_of_int (atoi (mem_read m b off (bsize b - off))))"

fun utoa_count :: "nat \<Rightarrow> nat" where
  "utoa_count u = (if u > 0 then Suc (utoa_count (u div 10)) else 0)"

declare utoa_count.simps [simp del]

fun utoa_fmt :: "'b mem \<Rightarrow> 'b \<Rightarrow> nat \<Rightarrow> nat \<Rightarrow> 'b mem" where
  "utoa_fmt m b p u =
     (if u > 0 then utoa_fmt (mem_set1 m b (p - 1) (digits ! (u mod 10))) b (p - 1) (u div 10)
      else m)"

declare utoa_fmt.simps [simp del]

definition HttpString_utoa ::
  "'b mem \<Rightarrow> u32 \<Rightarrow> 'b http_blob \<Rightarrow> 'b http_blob \<times> 'b mem" where
  "HttpString_utoa m uNum blob =
     (case pData blob of
        Null \<Rightarrow> (blob, m)
      | Ptr b off \<Rightarrow>
          if uNum = 0 then (blob\<lparr>uLength := 1\<rparr>, mem_set1 m b off 48)
          else (let n = utoa_count (unat uNum)
                in (blob\<lparr>uLength := of_nat n\<rparr>, utoa_fmt m b (off + n) (unat uNum))))"

fun htoa_count :: "nat \<Rightarrow> nat" where
  "htoa_count u = (if u > 0 then Suc (htoa_count (u div 16)) else 0)"

declare htoa_count.simps [simp del]

text \<open>The formatting loop runs while \<open>ptr > pData\<close>; \<open>n\<close> is \<open>ptr - pData\<close>.\<close>

fun htoa_fmt :: "'b mem \<Rightarrow> 'b \<Rightarrow> nat \<Rightarrow> nat \<Rightarrow> nat \<Rightarrow> 'b mem" where
  "htoa_fmt m b off 0 u = m"
| "htoa_fmt m b off (Suc n) u =
     htoa_fmt (mem_set1 m b (off + n) (hexDigits ! (u mod 16))) b off n (u div 16)"

definition HttpString_htoa ::
  "'b mem \<Rightarrow> u32 \<Rightarrow> 'b http_blob \<Rightarrow> bool \<Rightarrow> 'b http_blob \<times> 'b mem" where
  "HttpString_htoa m uNum blob bPadZero =
     (case pData blob of
        Null \<Rightarrow> (blob, m)
      | Ptr b off \<Rightarrow>
          if \<not> bPadZero \<and> uNum = 0 then (blob\<lparr>uLength := 1\<rparr>, mem_set1 m b off 48)
          else (let blob' = (if bPadZero then blob
                             else blob\<lparr>uLength := of_nat (htoa_count (unat uNum))\<rparr>)
                in (blob', htoa_fmt m b off (unat (uLength blob')) (unat uNum))))"

section \<open>Facts about comparison and search\<close>

lemma strcmp_eq_0: "HttpString_strcmp xs ys = 0 \<longleftrightarrow> xs = ys"
proof
  assume z: "HttpString_strcmp xs ys = 0"
  then have "length xs = length ys"
    by (auto simp: HttpString_strcmp_def Let_def split: if_splits)
  with z show "xs = ys"
    by (auto simp: HttpString_strcmp_def Let_def memcmp_eq_0 split: if_splits)
qed (simp add: HttpString_strcmp_def)

lemma strcmp_antisym: "HttpString_strcmp ys xs = - HttpString_strcmp xs ys"
  by (auto simp: HttpString_strcmp_def Let_def memcmp_swap [of "take _ xs"])

lemma lower_fold_apply:
  "fold (\<lambda>i m. mem_set1 m b (off + i) (lower_byte (m b (off + i)))) [0..<n] m b' j =
     (if b' = b \<and> off \<le> j \<and> j < off + n then lower_byte (m b j) else m b' j)"
  by (induction n arbitrary: j) (auto simp: mem_simps)

lemma ToLower_apply [mem_simps]:
  "ToLower m b off len b' j =
     (if b' = b \<and> off \<le> j \<and> j \<le> off + len then lower_byte (m b j) else m b' j)"
  unfolding ToLower_def lower_fold_apply by auto

lemma ToLower_other [mem_simps]: "b' \<noteq> b \<Longrightarrow> ToLower m b off len b' = m b'"
  by (rule ext) (simp add: mem_simps)

lemma mem_read_ToLower: "mem_read (ToLower m b off len) b off len = map lower_byte (mem_read m b off len)"
  by (rule nth_equalityI) (auto simp: mem_simps)

lemma lower_byte_idem [simp]: "lower_byte (lower_byte c) = lower_byte c"
  unfolding lower_byte_def by (auto simp: word_le_nat_alt unat_word_ariths)

definition no_occurrence_before :: "u8 list \<Rightarrow> u8 list \<Rightarrow> nat \<Rightarrow> bool" where
  "no_occurrence_before tok xs k \<longleftrightarrow> (\<forall>j<k. \<not> occurs_at tok xs j)"

definition search_result :: "u8 list \<Rightarrow> u8 list \<Rightarrow> nat option \<Rightarrow> bool" where
  "search_result tok xs r \<longleftrightarrow>
     (case r of Some i \<Rightarrow> first_occurrence tok xs i | None \<Rightarrow> (\<forall>i. \<not> occurs_at tok xs i))"

lemma no_occurrence_skip:
  assumes tok: "tok = c # cs"
    and xs: "xs = mem_read m b off len"
    and before: "no_occurrence_before tok xs k"
    and skip: "\<forall>j<d. m b (off + (k + j)) \<noteq> c"
    and fits: "k + d < len"
  shows "no_occurrence_before tok xs (k + d)"
  unfolding no_occurrence_before_def
proof (intro allI impI)
  fix j assume j: "j < k + d"
  show "\<not> occurs_at tok xs j"
  proof (cases "j < k")
    case True
    with before show ?thesis by (simp add: no_occurrence_before_def)
  next
    case False
    with j have "j - k < d" by simp
    with skip have "m b (off + (k + (j - k))) \<noteq> c" by blast
    with False have "m b (off + j) \<noteq> c" by simp
    moreover have "xs ! j = m b (off + j)" using j fits xs by (simp add: mem_simps)
    ultimately show ?thesis using tok occurs_at_hd [of c cs xs j] by auto
  qed
qed

lemma HttpString_scan_spec:
  assumes "tok = c # cs" and "xs = mem_read m b off len" and "no_occurrence_before tok xs k"
  shows "search_result tok xs (HttpString_scan m tok b off len k)"
  using assms
proof (induction m tok b off len k rule: HttpString_scan.induct)
  case (1 m tok b off len k)
  define N where "N = int len - int k - int (length tok) + 1"
  define ys where "ys = mem_read m b (off + k) (nat N)"
  have unf: "HttpString_scan m tok b off len k =
    (if k < len then
       if N < 1 then None
       else (case memchr c ys of
               None \<Rightarrow> None
             | Some d \<Rightarrow>
                 if HttpString_strcmp tok (mem_read m b (off + (k + d)) (length tok)) = 0
                 then Some (k + d)
                 else HttpString_scan m tok b off len (Suc (k + d)))
     else None)"
    unfolding HttpString_scan.simps [of m tok b off len k] N_def ys_def Let_def
    by (simp add: "1.prems"(1))
  have fits: "j + length tok \<le> len" if "occurs_at tok xs j" for j
    using that "1.prems"(2) by (simp add: occurs_at_def)
  have tok_pos: "0 < length tok" using "1.prems"(1) by simp
  have early: "k \<le> j" if "occurs_at tok xs j" for j
    using that "1.prems"(3) by (auto simp: no_occurrence_before_def not_less [symmetric])
  show ?case
  proof (cases "k < len \<and> \<not> N < 1")
    case False
    have "\<not> occurs_at tok xs j" for j
    proof
      assume occ: "occurs_at tok xs j"
      from False fits [OF occ] early [OF occ] tok_pos show False unfolding N_def by arith
    qed
    with False show ?thesis by (auto simp: search_result_def unf)
  next
    case True
    show ?thesis
    proof (cases "memchr c ys")
      case None
      then have absent: "c \<notin> set ys" by (simp add: memchr_None)
      have "\<not> occurs_at tok xs j" for j
      proof
        assume occ: "occurs_at tok xs j"
        have "j < len" and jN: "j - k < nat N"
          using fits [OF occ] early [OF occ] tok_pos unfolding N_def by arith+
        then have "j - k < length ys" and "ys ! (j - k) = xs ! j"
          using early [OF occ] "1.prems"(2) by (auto simp: mem_simps ys_def)
        with absent occurs_at_hd [of c cs xs j] occ "1.prems"(1) show False
          by (metis nth_mem)
      qed
      with None True show ?thesis by (simp add: search_result_def unf)
    next
      case (Some d)
      from memchr_SomeD [OF Some] have d: "d < nat N" "\<forall>j<d. ys ! j \<noteq> c"
        by (auto simp: ys_def)
      from d have skip: "\<forall>j<d. m b (off + (k + j)) \<noteq> c"
        by (simp add: mem_simps ys_def add.assoc)
      from d(1) have fit: "k + d + length tok \<le> len" by (simp add: N_def)
      with tok_pos have lt: "k + d < len" by linarith
      have before: "no_occurrence_before tok xs (k + d)"
        by (rule no_occurrence_skip [OF "1.prems"(1,2,3) skip lt])
      have here: "occurs_at tok xs (k + d) \<longleftrightarrow> mem_read m b (off + (k + d)) (length tok) = tok"
        unfolding "1.prems"(2) using fit by (rule occurs_at_mem_read)
      show ?thesis
      proof (cases "HttpString_strcmp tok (mem_read m b (off + (k + d)) (length tok)) = 0")
        case eq: True
        then have "occurs_at tok xs (k + d)" using here by (simp add: strcmp_eq_0)
        with before have "first_occurrence tok xs (k + d)"
          by (simp add: first_occurrence_def no_occurrence_before_def)
        with eq Some True show ?thesis by (simp add: search_result_def unf)
      next
        case neq: False
        then have "\<not> occurs_at tok xs (k + d)" using here by (auto simp: strcmp_eq_0)
        with before have next_before: "no_occurrence_before tok xs (Suc (k + d))"
          by (auto simp: no_occurrence_before_def less_Suc_eq)
        have "search_result tok xs (HttpString_scan m tok b off len (Suc (k + d)))"
          using True Some neq
          by (intro "1.IH" [OF _ N_def _ _ _ "1.prems"(1,2) next_before])
            (auto simp: ys_def "1.prems"(1))
        with neq Some True show ?thesis by (simp add: unf)
      qed
    qed
  qed
qed

lemma HttpString_scan_correct:
  assumes "tok \<noteq> []"
  shows "search_result tok (mem_read m b off len) (HttpString_scan m tok b off len 0)"
proof -
  from assms obtain c cs where "tok = c # cs" by (cases tok) auto
  then show ?thesis
    by (rule HttpString_scan_spec) (auto simp: no_occurrence_before_def)
qed

section \<open>Facts about numbers\<close>

lemma utoa_count_radix: "utoa_count u = length (radix 10 u)"
proof (induction u rule: utoa_count.induct)
  case (1 u)
  then show ?case by (cases "u = 0") (simp_all add: utoa_count.simps [of u] utoa_count.simps [of 0] radix_step [of _ u])
qed

lemma htoa_count_radix: "htoa_count u = length (radix 16 u)"
proof (induction u rule: htoa_count.induct)
  case (1 u)
  then show ?case by (cases "u = 0") (simp_all add: htoa_count.simps [of u] htoa_count.simps [of 0] radix_step [of _ u])
qed

definition digit_bytes :: "nat list \<Rightarrow> u8 list" where
  "digit_bytes ds = map (\<lambda>d. digits ! d) ds"

definition hex_bytes :: "nat list \<Rightarrow> u8 list" where
  "hex_bytes ds = map (\<lambda>d. hexDigits ! d) ds"

lemma mem_read_1: "mem_read m b i (Suc 0) = [m b i]"
  by (simp add: mem_read_def)

lemma utoa_fmt_frame:
  "length (radix 10 u) \<le> p \<Longrightarrow> b' \<noteq> b \<or> j < p - length (radix 10 u) \<or> p \<le> j \<Longrightarrow>
   utoa_fmt m b p u b' j = m b' j"
proof (induction u arbitrary: m p rule: utoa_count.induct)
  case (1 u)
  show ?case
  proof (cases "u = 0")
    case True
    then show ?thesis by (simp add: utoa_fmt.simps)
  next
    case False
    then have "utoa_fmt m b p u = utoa_fmt (mem_set1 m b (p - 1) (digits ! (u mod 10))) b (p - 1) (u div 10)"
      by (subst utoa_fmt.simps) simp
    moreover have "radix 10 u = radix 10 (u div 10) @ [u mod 10]" using False by (simp add: radix_step [of _ u])
    ultimately show ?thesis
      using "1.prems" False by (subst \<open>utoa_fmt m b p u = _\<close>, subst "1.IH") (auto simp: mem_simps)
  qed
qed

lemma utoa_fmt_digits:
  "length (radix 10 u) \<le> p \<Longrightarrow>
   mem_read (utoa_fmt m b p u) b (p - length (radix 10 u)) (length (radix 10 u)) = digit_bytes (radix 10 u)"
proof (induction u arbitrary: m p rule: utoa_count.induct)
  case (1 u)
  show ?case
  proof (cases "u = 0")
    case True
    then show ?thesis by (simp add: digit_bytes_def)
  next
    case False
    let ?m = "mem_set1 m b (p - 1) (digits ! (u mod 10))" and ?ds = "radix 10 (u div 10)"
    have rx: "radix 10 u = ?ds @ [u mod 10]" using False by (simp add: radix_step [of _ u])
    have step: "utoa_fmt m b p u = utoa_fmt ?m b (p - 1) (u div 10)"
      using False by (subst utoa_fmt.simps) simp
    have le: "length ?ds \<le> p - 1" using "1.prems" rx by simp
    have pos: "p - length (radix 10 u) + length ?ds = p - 1" using "1.prems" rx by simp
    have at: "p - length (radix 10 u) = p - 1 - length ?ds" using rx by simp
    have ih: "mem_read (utoa_fmt ?m b (p - 1) (u div 10)) b (p - length (radix 10 u)) (length ?ds)
      = digit_bytes ?ds"
      unfolding at by (rule "1.IH") (use False le in simp_all)
    have last: "mem_read (utoa_fmt ?m b (p - 1) (u div 10)) b (p - 1) 1 = [digits ! (u mod 10)]"
      using le by (simp add: utoa_fmt_frame mem_read_1 mem_set1_apply)
    have "mem_read (utoa_fmt ?m b (p - 1) (u div 10)) b (p - length (radix 10 u)) (length ?ds + 1)
      = digit_bytes ?ds @ [digits ! (u mod 10)]"
      unfolding mem_read_append pos ih last ..
    then show ?thesis by (simp add: step rx digit_bytes_def)
  qed
qed

lemma htoa_fmt_frame:
  "b' \<noteq> b \<or> j < off \<or> off + n \<le> j \<Longrightarrow> htoa_fmt m b off n u b' j = m b' j"
  by (induction n arbitrary: m u) (auto simp: mem_simps)

lemma htoa_fmt_digits:
  "mem_read (htoa_fmt m b off n u) b off n = hex_bytes (radix_pad 16 n u)"
proof (induction n arbitrary: m u)
  case 0
  then show ?case by (simp add: hex_bytes_def)
next
  case (Suc n)
  have "mem_read (htoa_fmt m b off (Suc n) u) b off (n + 1)
      = hex_bytes (radix_pad 16 n (u div 16)) @ [hexDigits ! (u mod 16)]"
    unfolding mem_read_append htoa_fmt.simps Suc.IH
    by (simp add: mem_read_1 htoa_fmt_frame mem_set1_apply)
  then show ?case by (simp add: hex_bytes_def)
qed

lemma nth_digits: "d < 10 \<Longrightarrow> digits ! d = of_nat (48 + d)"
proof -
  have "\<forall>d<10. digits ! d = of_nat (48 + d)" by code_simp
  then show "d < 10 \<Longrightarrow> digits ! d = of_nat (48 + d)" by blast
qed

lemma unat_digit: "d < 10 \<Longrightarrow> unat (digits ! d) = 48 + d"
  unfolding nth_digits by (rule unat_of_nat_small) simp

lemma is_digit_digits: "d < 10 \<Longrightarrow> is_digit (digits ! d)"
  by (simp add: is_digit_def word_le_nat_alt unat_digit)

lemma digits_value_bytes:
  "\<forall>d\<in>set ds. d < 10 \<Longrightarrow> digits_value acc (digit_bytes ds) = radix_value 10 acc ds"
  by (induction ds arbitrary: acc) (auto simp: digit_bytes_def unat_digit is_digit_digits)

lemma list_all_digit_bytes: "\<forall>d\<in>set ds. d < 10 \<Longrightarrow> list_all is_digit (digit_bytes ds)"
  by (auto simp: digit_bytes_def list_all_iff is_digit_digits)

text \<open>\<open>atoi\<close> reads a number back from its digits, up to the first byte that is no digit.\<close>

lemma is_digit_not_space: "is_digit c \<Longrightarrow> \<not> is_space c \<and> c \<noteq> 45 \<and> c \<noteq> 43"
  by (auto simp: is_digit_def is_space_def word_le_nat_alt)

lemma atoi_digit_bytes:
  assumes "ds \<noteq> []" and "\<forall>d\<in>set ds. d < 10" and "rest = [] \<or> \<not> is_digit (hd rest)"
  shows "atoi (digit_bytes ds @ rest) = int (radix_value 10 0 ds)"
proof -
  obtain c cs where c: "digit_bytes ds = c # cs"
    using assms(1) by (cases ds) (auto simp: digit_bytes_def)
  have dig: "list_all is_digit (c # cs)" using list_all_digit_bytes [OF assms(2)] c by simp
  then have "dropWhile is_space (digit_bytes ds @ rest) = c # cs @ rest" and "c \<noteq> 45" and "c \<noteq> 43"
    using c is_digit_not_space [of c] by auto
  then have "atoi (digit_bytes ds @ rest) = int (digits_value 0 ((c # cs) @ rest))"
    by (simp add: atoi_def)
  also have "\<dots> = int (digits_value (digits_value 0 (digit_bytes ds)) rest)"
    unfolding c digits_value_append [OF dig] ..
  also have "\<dots> = int (digits_value 0 (digit_bytes ds))"
    using assms(3) by (cases rest) auto
  finally show ?thesis using assms(2) by (simp add: digits_value_bytes)
qed

section \<open>Properties\<close>

text \<open>\<open>HttpString_nextDelimiter\<close> returns a pointer to the first occurrence of the token in
  the blob, and NULL exactly when the token does not occur in it.\<close>

theorem HttpString_nextDelimiter_first:
  assumes "tok \<noteq> []" and "pData blob = Ptr b off"
  shows "case HttpString_nextDelimiter m tok blob of
           Null \<Rightarrow> \<forall>i. \<not> occurs_at tok (blob_bytes m blob) i
         | Ptr b' p \<Rightarrow> b' = b \<and> off \<le> p \<and> first_occurrence tok (blob_bytes m blob) (p - off)"
  using HttpString_scan_correct [OF assms(1), of m b off "unat (uLength blob)"] assms(2)
  by (auto simp: HttpString_nextDelimiter_def blob_bytes_def scan_ptr_def search_result_def
      split: option.splits)

theorem HttpString_nextDelimiter_first_witness:
  "case HttpString_nextDelimiter (mem_of (str ''get /'')) (str ''t '') \<lparr>uLength = 5, pData = Ptr () 0\<rparr> of
     Null \<Rightarrow> \<forall>i. \<not> occurs_at (str ''t '') (blob_bytes (mem_of (str ''get /'')) \<lparr>uLength = 5, pData = Ptr () 0\<rparr>) i
   | Ptr b' p \<Rightarrow> b' = () \<and> 0 \<le> p \<and>
       first_occurrence (str ''t '') (blob_bytes (mem_of (str ''get /'')) \<lparr>uLength = 5, pData = Ptr () 0\<rparr>) (p - 0)"
  by (rule HttpString_nextDelimiter_first) (simp_all add: str_def)

lemma nextToken_correct:
  assumes "tok \<noteq> []" and "pData blob = Ptr b off"
    and "HttpString_nextToken m tok blob = (r, m')"
  shows "blob_bytes m' blob = map lower_byte (blob_bytes m blob)"
    and "case r of
           Null \<Rightarrow> \<forall>i. \<not> occurs_at tok (blob_bytes m' blob) i
         | Ptr b' p \<Rightarrow> b' = b \<and> off \<le> p \<and> first_occurrence tok (blob_bytes m' blob) (p - off)"
    and "\<forall>b' j. b' \<noteq> b \<or> j < off \<or> off + unat (uLength blob) < j \<longrightarrow> m' b' j = m b' j"
proof -
  have m': "m' = ToLower m b off (unat (uLength blob))"
    and r: "r = scan_ptr b off (HttpString_scan m' tok b off (unat (uLength blob)) 0)"
    using assms(2,3) by (auto simp: HttpString_nextToken_def Let_def)
  show "blob_bytes m' blob = map lower_byte (blob_bytes m blob)"
    by (simp add: blob_bytes_def assms(2) m' mem_read_ToLower)
  show "case r of
           Null \<Rightarrow> \<forall>i. \<not> occurs_at tok (blob_bytes m' blob) i
         | Ptr b' p \<Rightarrow> b' = b \<and> off \<le> p \<and> first_occurrence tok (blob_bytes m' blob) (p - off)"
    using HttpString_scan_correct [OF assms(1), of m' b off "unat (uLength blob)"]
    by (auto simp: r blob_bytes_def assms(2) scan_ptr_def search_result_def split: option.splits)
  show "\<forall>b' j. b' \<noteq> b \<or> j < off \<or> off + unat (uLength blob) < j \<longrightarrow> m' b' j = m b' j"
    by (auto simp: m' mem_simps)
qed

text \<open>\<open>HttpString_nextToken\<close> finds the first occurrence of the token in the blob read in lower
  case, NULL exactly when there is none, leaves the blob in lower case, and changes no byte
  outside the range from \<open>pData\<close> to \<open>pData + uLength\<close>.\<close>

theorem HttpString_nextToken_first:
  assumes "tok \<noteq> []" and "pData blob = Ptr b off"
    and "HttpString_nextToken m tok blob = (r, m')"
  shows "(blob_bytes m' blob = map lower_byte (blob_bytes m blob)) \<and>
    (case r of
           Null \<Rightarrow> \<forall>i. \<not> occurs_at tok (blob_bytes m' blob) i
         | Ptr b' p \<Rightarrow> b' = b \<and> off \<le> p \<and> first_occurrence tok (blob_bytes m' blob) (p - off)) \<and>
    (\<forall>b' j. b' \<noteq> b \<or> j < off \<or> off + unat (uLength blob) < j \<longrightarrow> m' b' j = m b' j)"
  by (intro conjI nextToken_correct [OF assms])

theorem HttpString_nextToken_first_witness:
  "blob_bytes (snd (HttpString_nextToken (mem_of (str ''GET /'')) (str ''get'') \<lparr>uLength = 5, pData = Ptr () 0\<rparr>))
     \<lparr>uLength = 5, pData = Ptr () 0\<rparr>
   = map lower_byte (blob_bytes (mem_of (str ''GET /'')) \<lparr>uLength = 5, pData = Ptr () 0\<rparr>)"
  by (rule HttpString_nextToken_first [of "str ''get''" _ "()" 0, OF _ _ surjective_pairing, THEN conjunct1])
    (simp_all add: str_def)

text \<open>\<open>ToLower\<close> also rewrites the byte just after the \<open>len\<close> bytes it is given: its loop runs
  to \<open>i <= len\<close>, so a blob that ends where its buffer ends is written out of bounds.\<close>

theorem ToLower_past_end:
  "65 \<le> m b (off + len) \<and> m b (off + len) \<le> 90 \<longrightarrow>
     ToLower m b off len b (off + len) = m b (off + len) + 32 \<and>
     ToLower m b off len b (off + len) \<noteq> m b (off + len)"
  by (simp add: mem_simps lower_byte_def)

theorem ToLower_past_end_witness:
  "ToLower (mem_of (str ''ABCD'')) () 0 3 () (0 + 3) = mem_of (str ''ABCD'') () (0 + 3) + 32"
  using ToLower_past_end [of "mem_of (str ''ABCD'')" "()" 0 3]
  by (simp add: mem_of_def str_def)

lemma HttpString_utoa_bytes:
  assumes "pData blob = Ptr b off" and "HttpString_utoa m n blob = (blob', m')"
  obtains ds where "ds \<noteq> []" "\<forall>d\<in>set ds. d < 10" "radix_value 10 0 ds = unat n" "length ds \<le> 10"
    "pData blob' = Ptr b off" "unat (uLength blob') = length ds"
    "mem_read m' b off (length ds) = digit_bytes ds"
    "\<And>b' j. b' \<noteq> b \<or> j < off \<or> off + length ds \<le> j \<Longrightarrow> m' b' j = m b' j"
proof (cases "n = 0")
  case True
  with assms have "blob' = blob\<lparr>uLength := 1\<rparr>" "m' = mem_set1 m b off 48"
    by (auto simp: HttpString_utoa_def)
  moreover have "digit_bytes [0] = [48]" by (simp add: digit_bytes_def nth_digits)
  ultimately show ?thesis
    using assms(1) True by (intro that [of "[0]"]) (auto simp: mem_read_1 mem_simps)
next
  case False
  let ?ds = "radix 10 (unat n)"
  have le: "length ?ds \<le> 10"
    by (rule length_radix_le) (simp_all add: order_less_trans [OF unat32_bound])
  have ne: "?ds \<noteq> []" using False by (simp add: radix_step [of 10 "unat n"] unat_gt_0)
  have b': "blob' = blob\<lparr>uLength := of_nat (length ?ds)\<rparr>"
    and m': "m' = utoa_fmt m b (off + length ?ds) (unat n)"
    using assms False by (auto simp: HttpString_utoa_def utoa_count_radix Let_def)
  have len: "unat (uLength blob') = length ?ds"
    using le by (simp add: b' unat_of_nat_small)
  show ?thesis
  proof (rule that [OF ne])
    show "\<forall>d\<in>set ?ds. d < 10" by (rule radix_digits) simp
    show "radix_value 10 0 ?ds = unat n" by (rule radix_value_radix) simp
    show "mem_read m' b off (length ?ds) = digit_bytes ?ds"
      using utoa_fmt_digits [of "unat n" "off + length ?ds" m b] by (simp add: m')
    show "m' b' j = m b' j" if "b' \<noteq> b \<or> j < off \<or> off + length ?ds \<le> j" for b' j
      unfolding m' by (rule utoa_fmt_frame) (use that in auto)
  qed (use assms le len b' in auto)
qed

lemma utoa_atou:
  assumes "pData blob = Ptr b off" and "HttpString_utoa m n blob = (blob', m')"
    and "unat n < 2 ^ 31" and "off + unat (uLength blob') < bsize b"
    and "\<not> is_digit (m b (off + unat (uLength blob')))"
  shows "HttpString_atou m' bsize blob' = n"
    and "unat (uLength blob') \<le> 10"
    and "\<forall>b' j. b' \<noteq> b \<or> j < off \<or> off + unat (uLength blob') \<le> j \<longrightarrow> m' b' j = m b' j"
proof -
  obtain ds where ds: "ds \<noteq> []" "\<forall>d\<in>set ds. d < 10" "radix_value 10 0 ds = unat n" "length ds \<le> 10"
    "pData blob' = Ptr b off" "unat (uLength blob') = length ds"
    "mem_read m' b off (length ds) = digit_bytes ds"
    and frame: "\<And>b' j. b' \<noteq> b \<or> j < off \<or> off + length ds \<le> j \<Longrightarrow> m' b' j = m b' j"
    by (rule HttpString_utoa_bytes [OF assms(1,2)]) blast
  let ?k = "bsize b - off - length ds"
  have "mem_read m' b off (length ds + ?k) = digit_bytes ds @ mem_read m' b (off + length ds) ?k"
    by (simp add: mem_read_append ds(7))
  moreover have "length ds + ?k = bsize b - off" using assms(4) ds(6) by simp
  moreover have "0 < ?k" using assms(4) ds(6) by simp
  then have "hd (mem_read m' b (off + length ds) ?k) = m b (off + length ds)"
    by (simp add: mem_read_def hd_map frame)
  ultimately have "atoi (mem_read m' b off (bsize b - off)) = int (unat n)"
    using atoi_digit_bytes [OF ds(1,2)] assms(5) ds(3,6) by metis
  then show "HttpString_atou m' bsize blob' = n"
    by (simp add: HttpString_atou_def ds(5))
  show "unat (uLength blob') \<le> 10" using ds(4,6) by simp
  show "\<forall>b' j. b' \<noteq> b \<or> j < off \<or> off + unat (uLength blob') \<le> j \<longrightarrow> m' b' j = m b' j"
    using frame ds(6) by auto
qed

text \<open>Formatting an unsigned number with \<open>HttpString_utoa\<close> and reading the text back with
  \<open>HttpString_atou\<close> gives the number (in the range of \<open>int\<close>, outside of which \<open>atoi\<close> is
  undefined), when the text is followed by a byte that is no digit; the text is at most ten
  bytes long, and no byte before it or after it is changed.\<close>

theorem HttpString_utoa_atou:
  assumes "pData blob = Ptr b off" and "HttpString_utoa m n blob = (blob', m')"
    and "unat n < 2 ^ 31" and "off + unat (uLength blob') < bsize b"
    and "\<not> is_digit (m b (off + unat (uLength blob')))"
  shows "(HttpString_atou m' bsize blob' = n) \<and>
    (unat (uLength blob') \<le> 10) \<and>
    (\<forall>b' j. b' \<noteq> b \<or> j < off \<or> off + unat (uLength blob') \<le> j \<longrightarrow> m' b' j = m b' j)"
  using utoa_atou [where blob = blob and b = b and off = off and m = m and n = n and
      blob' = blob' and m' = m' and bsize = bsize] assms
  by blast

theorem HttpString_utoa_atou_witness:
  "HttpString_atou (snd (HttpString_utoa (mem_of [] :: unit mem) 203 \<lparr>uLength = 0, pData = Ptr () 4\<rparr>)) (\<lambda>_. 16)
     (fst (HttpString_utoa (mem_of [] :: unit mem) 203 \<lparr>uLength = 0, pData = Ptr () 4\<rparr>)) = 203"
proof -
  let ?m = "mem_of [] :: unit mem" and ?b = "\<lparr>uLength = 0, pData = Ptr () 4\<rparr>"
  obtain bl m' where e: "HttpString_utoa ?m 203 ?b = (bl, m')" by (rule prod.exhaust)
  have "utoa_count 203 = 3" by (simp add: utoa_count.simps)
  with e have len: "uLength bl = 3" by (auto simp: HttpString_utoa_def)
  have "HttpString_atou m' (\<lambda>_. 16) bl = 203"
    by (rule HttpString_utoa_atou [where b = "()" and off = 4, OF _ e, THEN conjunct1]) (simp_all add: len mem_of_def is_digit_def)
  then show ?thesis by (simp add: e)
qed

lemma htoa_correct:
  assumes "pData blob = Ptr b off" and "HttpString_htoa m n blob pad = (blob', m')"
  shows "pad \<longrightarrow> blob' = blob \<and> blob_bytes m' blob' = hex_bytes (radix_pad 16 (unat (uLength blob)) (unat n))"
    and "\<not> pad \<longrightarrow> blob_bytes m' blob' = hex_bytes (if n = 0 then [0] else radix 16 (unat n))"
    and "\<forall>b' j. b' \<noteq> b \<or> j < off \<or> off + unat (uLength blob') \<le> j \<longrightarrow> m' b' j = m b' j"
proof -
  have le: "length (radix 16 (unat n)) \<le> 8"
    by (rule length_radix_le) (use unat32_bound [of n] in simp_all)
  then have len: "unat (of_nat (length (radix 16 (unat n))) :: u16) = length (radix 16 (unat n))"
    by (simp add: unat_of_nat_small)
  have hex0: "hex_bytes [0] = [48]" by (simp add: hex_bytes_def hexDigits_def str_def)
  show "pad \<longrightarrow> blob' = blob \<and> blob_bytes m' blob' = hex_bytes (radix_pad 16 (unat (uLength blob)) (unat n))"
    using assms by (auto simp: HttpString_htoa_def blob_bytes_def htoa_fmt_digits Let_def)
  show "\<not> pad \<longrightarrow> blob_bytes m' blob' = hex_bytes (if n = 0 then [0] else radix 16 (unat n))"
    using assms len
    by (auto simp: HttpString_htoa_def blob_bytes_def htoa_fmt_digits htoa_count_radix Let_def
        radix_pad_radix hex0 mem_read_1 mem_simps split: if_splits)
  show "\<forall>b' j. b' \<noteq> b \<or> j < off \<or> off + unat (uLength blob') \<le> j \<longrightarrow> m' b' j = m b' j"
    using assms by (auto simp: HttpString_htoa_def Let_def mem_simps htoa_fmt_frame split: if_splits)
qed

text \<open>\<open>HttpString_htoa\<close> writes the hexadecimal digits of the number, lower case, most
  significant first: exactly as many as the number needs without padding, the low
  \<open>uLength\<close> digits of it with padding; no byte outside the text is changed.\<close>

theorem HttpString_htoa_digits:
  assumes "pData blob = Ptr b off" and "HttpString_htoa m n blob pad = (blob', m')"
  shows "(pad \<longrightarrow> blob' = blob \<and> blob_bytes m' blob' = hex_bytes (radix_pad 16 (unat (uLength blob)) (unat n))) \<and>
    (\<not> pad \<longrightarrow> blob_bytes m' blob' = hex_bytes (if n = 0 then [0] else radix 16 (unat n))) \<and>
    (\<forall>b' j. b' \<noteq> b \<or> j < off \<or> off + unat (uLength blob') \<le> j \<longrightarrow> m' b' j = m b' j)"
  by (intro conjI htoa_correct [OF assms])

theorem HttpString_htoa_digits_witness:
  "blob_bytes (snd (HttpString_htoa (mem_of [] :: unit mem) 190 \<lparr>uLength = 6, pData = Ptr () 0\<rparr> True))
     (fst (HttpString_htoa (mem_of [] :: unit mem) 190 \<lparr>uLength = 6, pData = Ptr () 0\<rparr> True))
   = str ''0000be''"
proof -
  let ?m = "mem_of [] :: unit mem" and ?b = "\<lparr>uLength = 6, pData = Ptr () 0\<rparr>"
  obtain bl m' where e: "HttpString_htoa ?m 190 ?b True = (bl, m')" by (rule prod.exhaust)
  have "True \<longrightarrow> bl = ?b \<and> blob_bytes m' bl = hex_bytes (radix_pad 16 (unat (uLength ?b)) (unat (190::u32)))"
    by (rule HttpString_htoa_digits [OF _ e, THEN conjunct1]) simp
  moreover have "hex_bytes (radix_pad 16 6 190) = str ''0000be''" by code_simp
  ultimately show ?thesis by (auto simp: e)
qed

end
