(* ===== verification/Str_Lib.thy ===== *)
theory Str_Lib
  imports Http_String
begin

text \<open>
  \<open>netapps/http/server/strlib.c\<close>: \<open>itoa\<close>, \<open>strrev\<close>, \<open>WordToBytes\<close>, \<open>String_utoa\<close> and
  \<open>iptostring\<close>.  A string is the list of the bytes before its NUL; a routine that writes through
  an output pointer returns the bytes it writes there.
\<close>

section \<open>strrev\<close>

text \<open>The loop swaps \<open>*p1\<close> and \<open>*p2\<close> by three exclusive ors and moves the pointers inwards.\<close>

function strrev_loop :: "u8 list \<Rightarrow> nat \<Rightarrow> nat \<Rightarrow> u8 list" where
  "strrev_loop s p1 p2 =
     (if p2 > p1 then
        (let s1 = s[p1 := s ! p1 XOR s ! p2];
             s2 = s1[p2 := s1 ! p2 XOR s1 ! p1];
             s3 = s2[p1 := s2 ! p1 XOR s2 ! p2]
         in strrev_loop s3 (p1 + 1) (p2 - 1))
      else s)"
  by pat_completeness auto
termination
  by (relation "measure (\<lambda>(s, p1, p2). p2 - p1)") auto

declare strrev_loop.simps [simp del]

definition strrev :: "u8 list \<Rightarrow> u8 list" where
  "strrev s = (if s = [] then s else strrev_loop s 0 (length s - 1))"

section \<open>itoa\<close>

definition itoa_digits :: "u8 list" where
  "itoa_digits = str ''0123456789abcdefghijklmnopqrstuvwxyz''"

text \<open>\<open>do s[i++] = digits[n % b]; while ((n /= b) > 0)\<close>: the digits, least significant first.\<close>

function itoa_loop :: "nat \<Rightarrow> nat \<Rightarrow> u8 list" where
  "itoa_loop n b =
     itoa_digits ! (n mod b) # (if n div b > 0 \<and> 2 \<le> b then itoa_loop (n div b) b else [])"
  by pat_completeness auto
termination
  by (relation "measure fst") (auto intro!: div_less_dividend gr0I)

declare itoa_loop.simps [simp del]

text \<open>
  \<open>n = -n\<close> overflows for the least \<open>int\<close>, and a base outside 2..36 does not end the loop or
  leaves the digit table: there the code is undefined and the model returns \<open>None\<close>.
\<close>

definition itoa :: "int \<Rightarrow> int \<Rightarrow> u8 list option" where
  "itoa n b =
     (if n \<le> - (2 ^ 31) \<or> 2 ^ 31 \<le> n \<or> b < 2 \<or> 36 < b then None
      else (let sign = n;
                n' = (if sign < 0 then - n else n);
                s = itoa_loop (nat n') (nat b);
                s' = (if sign < 0 then s @ [45] else s)
            in Some (strrev s')))"

section \<open>WordToBytes, String_utoa, iptostring\<close>

definition WordToBytes :: "'b mem \<Rightarrow> 'b \<Rightarrow> nat \<Rightarrow> 'b \<Rightarrow> nat \<Rightarrow> nat \<Rightarrow> 'b mem" where
  "WordToBytes m d i s j NumBytes =
     fold (\<lambda>k m. mem_set1 m d (i + k) (m s (j + k))) [0..<NumBytes] m"

text \<open>
  Both loops of \<open>String_utoa\<close> run while \<open>uTemp > 0\<close>, so a negative number prints nothing; the
  result is the text, whose length the code returns.
\<close>

fun String_utoa_digits :: "nat \<Rightarrow> u8 list" where
  "String_utoa_digits u = (if u > 0 then String_utoa_digits (u div 10) @ [digits ! (u mod 10)] else [])"

declare String_utoa_digits.simps [simp del]

definition String_utoa :: "int \<Rightarrow> u8 list" where
  "String_utoa uNum = (if uNum = 0 then [48] else String_utoa_digits (nat uNum))"

text \<open>
  The four bytes of the address are printed from the last to the first, each followed by a dot;
  the returned length leaves out the last dot, which stays in the buffer.
\<close>

definition iptostring :: "u8 list \<Rightarrow> u8 list \<times> int" where
  "iptostring ip =
     (let out = concat (map (\<lambda>i. String_utoa (uint (ip ! i)) @ [46]) [3, 2, 1, 0])
      in (out, int (length out) - 1))"

section \<open>Facts\<close>

lemma xor_swap:
  "y XOR (x XOR y) = (x::u8)" "(x XOR y) XOR x = (y::u8)"
  by (rule bit_word_eqI; auto simp: bit_simps)+

lemma strrev_step:
  assumes "p1 < p2" and "p2 < length s"
  shows "strrev_loop s p1 p2 = strrev_loop (s[p1 := s ! p2, p2 := s ! p1]) (p1 + 1) (p2 - 1)"
  using assms
  by (subst strrev_loop.simps) (simp add: Let_def xor_swap list_update_swap [of p2 p1])

lemma length_strrev_loop: "p2 < length s \<Longrightarrow> length (strrev_loop s p1 p2) = length s"
proof (induction "p2 - p1" arbitrary: s p1 p2 rule: less_induct)
  case less
  show ?case
  proof (cases "p1 < p2")
    case True
    with less show ?thesis by (simp add: strrev_step)
  qed (simp add: strrev_loop.simps)
qed

lemma nth_strrev_loop:
  "p2 < length s \<Longrightarrow> i < length s \<Longrightarrow>
   strrev_loop s p1 p2 ! i = (if p1 \<le> i \<and> i \<le> p2 then s ! (p1 + p2 - i) else s ! i)"
proof (induction "p2 - p1" arbitrary: s p1 p2 rule: less_induct)
  case less
  show ?case
  proof (cases "p1 < p2")
    case True
    with less.prems have "strrev_loop s p1 p2 ! i =
        (if p1 + 1 \<le> i \<and> i \<le> p2 - 1 then s[p1 := s ! p2, p2 := s ! p1] ! (p1 + p2 - i)
         else s[p1 := s ! p2, p2 := s ! p1] ! i)"
      using less.hyps [of "p2 - 1" "p1 + 1" "s[p1 := s ! p2, p2 := s ! p1]"]
      by (simp add: strrev_step)
    with True less.prems show ?thesis by (auto simp: nth_list_update)
  next
    case False
    then have "strrev_loop s p1 p2 = s" by (simp add: strrev_loop.simps)
    moreover have "p1 \<le> i \<and> i \<le> p2 \<Longrightarrow> p1 + p2 - i = i" using False by arith
    ultimately show ?thesis by auto
  qed
qed

lemma strrev_rev: "strrev s = rev s"
proof (cases "s = []")
  case False
  then have "strrev s = strrev_loop s 0 (length s - 1)" by (simp add: strrev_def)
  also have "\<dots> = rev s"
    by (rule nth_equalityI)
      (use False in \<open>auto simp: length_strrev_loop nth_strrev_loop rev_nth\<close>)
  finally show ?thesis .
qed (simp add: strrev_def)

definition itoa_text :: "nat \<Rightarrow> nat \<Rightarrow> u8 list" where
  "itoa_text b n = map (\<lambda>d. itoa_digits ! d) (if n = 0 then [0] else radix b n)"

lemma itoa_loop_radix: "2 \<le> b \<Longrightarrow> rev (itoa_loop n b) = itoa_text b n"
proof (induction n b rule: itoa_loop.induct)
  case (1 n b)
  show ?case
  proof (cases "n div b > 0")
    case True
    with 1 have "rev (itoa_loop (n div b) b) = itoa_text b (n div b)" by simp
    moreover from True have "0 < n" by (cases n) auto
    ultimately show ?thesis
      using True "1.prems" by (simp add: itoa_loop.simps [of n] itoa_text_def radix_step [of b n])
  next
    case False
    then show ?thesis
      using "1.prems" by (cases "n = 0") (auto simp: itoa_loop.simps [of n] itoa_loop.simps [of 0] itoa_text_def radix_step [of b n])
  qed
qed

lemma String_utoa_digits_radix: "String_utoa_digits u = digit_bytes (radix 10 u)"
proof (induction u rule: String_utoa_digits.induct)
  case (1 u)
  then show ?case
    by (cases "u = 0")
      (simp_all add: String_utoa_digits.simps [of u] String_utoa_digits.simps [of 0] radix_step [of _ u] digit_bytes_def)
qed

lemma WordToBytes_fold:
  "d \<noteq> s \<Longrightarrow> fold (\<lambda>k m. mem_set1 m d (i + k) (m s (j + k))) [0..<n] m =
     memcpy m d i s j n"
proof (induction n)
  case 0
  then show ?case by (simp add: memcpy_def)
next
  case (Suc n)
  then have "fold (\<lambda>k m. mem_set1 m d (i + k) (m s (j + k))) [0..<Suc n] m
    = mem_set1 (memcpy m d i s j n) d (i + n) (memcpy m d i s j n s (j + n))"
    by simp
  also have "memcpy m d i s j n s (j + n) = m s (j + n)"
    using Suc.prems by (simp add: memcpy_def mem_simps)
  finally have "fold (\<lambda>k m. mem_set1 m d (i + k) (m s (j + k))) [0..<Suc n] m
    = mem_set1 (memcpy m d i s j n) d (i + n) (m s (j + n))" .
  also have "\<dots> = memcpy m d i s j (Suc n)"
  proof (intro ext)
    fix b k
    have "mem_read m s j (Suc n) = mem_read m s j n @ [m s (j + n)]"
      using mem_read_append [of m s j n 1] by (simp add: mem_read_1)
    then show "mem_set1 (memcpy m d i s j n) d (i + n) (m s (j + n)) b k = memcpy m d i s j (Suc n) b k"
      by (cases "b = d") (auto simp: memcpy_def mem_simps nth_append)
  qed
  finally show ?case .
qed

section \<open>Properties\<close>

text \<open>\<open>strrev\<close>, the in-place exchange of bytes by three exclusive ors, reverses every
  string.\<close>

theorem strrev_reverses: "strrev s = rev s"
  by (rule strrev_rev)

lemma itoa_prints:
  assumes "\<bar>n\<bar> < 2 ^ 31" and "2 \<le> b" and "b \<le> 36"
  shows "itoa n b = Some ((if n < 0 then [45] else []) @ itoa_text (nat b) (nat \<bar>n\<bar>))"
    and "radix_value (nat b) 0 (radix (nat b) (nat \<bar>n\<bar>)) = nat \<bar>n\<bar>"
proof -
  have range: "\<not> (n \<le> - (2 ^ 31) \<or> 2 ^ 31 \<le> n \<or> b < 2 \<or> 36 < b)" using assms by auto
  have "rev (itoa_loop (nat \<bar>n\<bar>) (nat b)) = itoa_text (nat b) (nat \<bar>n\<bar>)"
    using assms(2) by (intro itoa_loop_radix) simp
  then show "itoa n b = Some ((if n < 0 then [45] else []) @ itoa_text (nat b) (nat \<bar>n\<bar>))"
    using range by (cases "n < 0") (simp_all add: itoa_def strrev_rev Let_def)
  show "radix_value (nat b) 0 (radix (nat b) (nat \<bar>n\<bar>)) = nat \<bar>n\<bar>"
    using assms(2) by (intro radix_value_radix) simp
qed

text \<open>\<open>itoa\<close> prints, for every \<open>int\<close> but the least and every base from 2 to 36, a minus sign
  for a negative number and the digits of its absolute value in the base, most significant
  first, without leading zeros; the digits denote the absolute value.\<close>

theorem itoa_correct:
  assumes "\<bar>n\<bar> < 2 ^ 31" and "2 \<le> b" and "b \<le> 36"
  shows "(itoa n b = Some ((if n < 0 then [45] else []) @ itoa_text (nat b) (nat \<bar>n\<bar>))) \<and>
    (radix_value (nat b) 0 (radix (nat b) (nat \<bar>n\<bar>)) = nat \<bar>n\<bar>)"
  by (intro conjI itoa_prints [OF assms])

theorem itoa_correct_witness:
  "itoa (-255) 16 = Some (str ''-ff'')"
proof -
  have "itoa (-255) 16 = Some ((if (-255::int) < 0 then [45] else []) @ itoa_text (nat 16) (nat \<bar>-255\<bar>))"
    by (rule itoa_correct [THEN conjunct1]) simp_all
  moreover have "45 # itoa_text 16 255 = str ''-ff''" by code_simp
  ultimately show ?thesis by simp
qed

lemma iptostring_prints:
  assumes "length ip = 4"
  shows "fst (iptostring ip) =
           String_utoa (uint (ip ! 3)) @ 46 # String_utoa (uint (ip ! 2)) @ 46 #
           String_utoa (uint (ip ! 1)) @ 46 # String_utoa (uint (ip ! 0)) @ [46]"
    and "snd (iptostring ip) = int (length (fst (iptostring ip))) - 1"
    and "\<forall>i<4. atoi (String_utoa (uint (ip ! i))) = uint (ip ! i)"
    and "snd (iptostring ip) \<le> 15"
proof -
  have bytes: "String_utoa (uint x) = digit_bytes (if x = 0 then [0] else radix 10 (unat x))" for x :: u8
    by (auto simp: String_utoa_def String_utoa_digits_radix digit_bytes_def nth_digits uint_0_iff)
  have small: "length (String_utoa (uint x)) \<le> 3" for x :: u8
  proof -
    have "length (radix 10 (unat x)) \<le> 3"
      by (rule length_radix_le) (simp_all add: order_less_trans [OF unat8_bound])
    then show ?thesis by (simp add: bytes digit_bytes_def)
  qed
  show out: "fst (iptostring ip) =
           String_utoa (uint (ip ! 3)) @ 46 # String_utoa (uint (ip ! 2)) @ 46 #
           String_utoa (uint (ip ! 1)) @ 46 # String_utoa (uint (ip ! 0)) @ [46]"
    by (simp add: iptostring_def Let_def)
  show "snd (iptostring ip) = int (length (fst (iptostring ip))) - 1"
    by (simp add: iptostring_def Let_def)
  then show "snd (iptostring ip) \<le> 15"
    using small [of "ip ! 0"] small [of "ip ! 1"] small [of "ip ! 2"] small [of "ip ! 3"]
    by (simp add: out)
  have "atoi (String_utoa (uint x)) = uint x" for x :: u8
  proof -
    let ?ds = "if x = 0 then [0] else radix 10 (unat x)"
    have "?ds \<noteq> []" "\<forall>d\<in>set ?ds. d < 10" "radix_value 10 0 ?ds = unat x"
      using radix_digits [of 10 "unat x"] radix_value_radix [of 10 "unat x"]
      by (cases "x = 0"; simp add: radix_eq_Nil unat_eq_zero)+
    then show ?thesis using atoi_digit_bytes [of ?ds "[]"] by (simp add: bytes)
  qed
  then show "\<forall>i<4. atoi (String_utoa (uint (ip ! i))) = uint (ip ! i)" by blast
qed

text \<open>\<open>iptostring\<close> writes the dotted decimal form of the address, high byte first, followed
  by one more dot that the returned length leaves out; the text before it is at most 15
  bytes.\<close>

theorem iptostring_correct:
  assumes "length ip = 4"
  shows "(fst (iptostring ip) =
           String_utoa (uint (ip ! 3)) @ 46 # String_utoa (uint (ip ! 2)) @ 46 #
           String_utoa (uint (ip ! 1)) @ 46 # String_utoa (uint (ip ! 0)) @ [46]) \<and>
    (snd (iptostring ip) = int (length (fst (iptostring ip))) - 1) \<and>
    (\<forall>i<4. atoi (String_utoa (uint (ip ! i))) = uint (ip ! i)) \<and>
    (snd (iptostring ip) \<le> 15)"
  by (intro conjI iptostring_prints [OF assms])

theorem iptostring_correct_witness:
  "fst (iptostring [1, 0, 168, 192]) = str ''192.168.0.1.''"
proof -
  have "String_utoa_digits 192 = str ''192''" "String_utoa_digits 168 = str ''168''"
    "String_utoa_digits 1 = str ''1''"
    by (simp_all add: String_utoa_digits.simps digits_def str_def)
  then show ?thesis
    using iptostring_correct [of "[1, 0, 168, 192]"] by (simp add: String_utoa_def str_def)
qed

end
