(* ===== verification/Http_State.thy ===== *)
theory Http_State
  imports Http_String "HOL-Library.Monad_Syntax"
begin

text \<open>
  The data of the HTTP server: the connection and server records of
  \<open>netapps/http/server/HttpCore.c\<close>, the request record and flags of \<open>HttpRequest.h\<close>, the
  limits of \<open>HttpCore.h\<close> and the strings of \<open>HttpHeaders.h\<close>.  The buffers live in the block
  memory, so that a blob is a pointer into one of them, as in the code.  The SimpleLink host
  API the server calls is a record of functions over an abstract world.
\<close>

lemma bind_pair_SomeE:
  assumes "Option.bind m (\<lambda>(x, y). f x y) = Some z"
  obtains x y where "m = Some (x, y)" "f x y = Some z"
  using assms by (cases m) auto

section \<open>Blocks, connections, server state\<close>

text \<open>
  Every array is a block of its own.  A write past the end of an array stays in the bytes of its block
  behind the end, where the lemmas about overruns find it; in C it goes to the fields that follow the
  array in \<open>g_state\<close>, which the model does not show.
\<close>

datatype http_block =
    PacketRecv | PacketSend | HeaderStart nat | WsKey | MaskKey | FileName | Heap nat | Lit "u8 list"

datatype HttpConnectionState =
    Inactive | RequestMethod | RequestHeaders | DropCurrentHeader | RequestData | Processing
  | ResponseData | ResponseComplete | WebSocketRequest | WebSocketResponse
  | WebSocketDataRecv | WebSocketDataSend

datatype HttpHandler = None_handler | HttpStatic | HttpDynamic

type_synonym hblob = "http_block http_blob"

record HttpRequest =
  uFlags :: u16
  req_uConnection :: u16
  requestContent :: hblob

record HttpConnectionData =
  connectionState :: HttpConnectionState
  dataSocket :: int
  request :: HttpRequest
  handler :: HttpHandler
  uContentLeft :: u32
  timeout :: u32
  uSavedBufferSize :: u16
  HttpAuth :: u8

text \<open>An entry of the table of dynamic resources; its callback answers with a C string.\<close>

record 'w Resource =
  rest_method :: u8
  ResourceString :: "u8 list option"
  pCbfunc :: "'w \<Rightarrow> u8 list \<times> 'w"

text \<open>The globals of \<open>WebSockHandler.c\<close>, and the statics of the handshake.\<close>

record WsGlobals =
  GlobRecvBuf :: "http_block ptr"
  GlobPayloadLen :: int
  GlobRecvLen :: int
  RecvMore :: bool
  Mask :: u8
  Ping :: bool
  Close :: bool
  Origin :: bool
  WS_ORIGIN_NAME :: "http_block ptr"

text \<open>
  \<open>g_state\<close> and the globals of the server's modules: the file handle of \<open>HttpStatic.c\<close>, the
  resource table of \<open>HttpDynamic.c\<close>, the WebSocket globals; \<open>heap_next\<close> numbers the blocks
  \<open>malloc\<close> has handed out and \<open>heap_size\<close> records their sizes.
\<close>

record 'w HttpGlobalState =
  hmem :: "http_block mem"
  listenSocket :: int
  uOpenConnections :: u16
  connections :: "nat \<Rightarrow> HttpConnectionData"
  packetRecvSize :: int
  packetSendSize :: u16
  glFileHandle :: int
  g_RestContent :: "nat \<Rightarrow> 'w Resource"
  g_NumResource :: nat
  ws :: WsGlobals
  heap_next :: nat
  heap_size :: "nat \<Rightarrow> nat"
  world :: 'w

section \<open>Constants\<close>

definition HTTP_CORE_MAX_CONNECTIONS :: nat where "HTTP_CORE_MAX_CONNECTIONS = 10"
definition HTTP_CORE_MAX_PACKET_SIZE_RECEIVED :: nat where "HTTP_CORE_MAX_PACKET_SIZE_RECEIVED = 1000"
definition HTTP_CORE_MAX_PACKET_SIZE_SEND :: nat where "HTTP_CORE_MAX_PACKET_SIZE_SEND = 1000"
definition HTTP_CORE_MAX_HEADER_LINE_LENGTH :: nat where "HTTP_CORE_MAX_HEADER_LINE_LENGTH = 320"
definition WS_KEY_LENGTH :: nat where "WS_KEY_LENGTH = 24"

lemmas http_limits [simp] =
  HTTP_CORE_MAX_CONNECTIONS_def HTTP_CORE_MAX_PACKET_SIZE_RECEIVED_def
  HTTP_CORE_MAX_PACKET_SIZE_SEND_def HTTP_CORE_MAX_HEADER_LINE_LENGTH_def WS_KEY_LENGTH_def

definition HTTP_REQUEST_FLAG_CLOSE :: u16 where "HTTP_REQUEST_FLAG_CLOSE = 1"
definition HTTP_REQUEST_FLAG_ACCEPT_GZIP :: u16 where "HTTP_REQUEST_FLAG_ACCEPT_GZIP = 2"
definition HTTP_REQUEST_FLAG_METHOD_POST :: u16 where "HTTP_REQUEST_FLAG_METHOD_POST = 4"
definition HTTP_REQUEST_FLAG_AUTHENTICATED :: u16 where "HTTP_REQUEST_FLAG_AUTHENTICATED = 8"
definition HTTP_REQUEST_1_1 :: u16 where "HTTP_REQUEST_1_1 = 16"
definition HTTP_REQUEST_CONTENT_IGNORED :: u16 where "HTTP_REQUEST_CONTENT_IGNORED = 32"
definition WS_REQUEST_BROWSER :: u16 where "WS_REQUEST_BROWSER = 64"

lemmas http_flags =
  HTTP_REQUEST_FLAG_CLOSE_def HTTP_REQUEST_FLAG_ACCEPT_GZIP_def HTTP_REQUEST_FLAG_METHOD_POST_def
  HTTP_REQUEST_FLAG_AUTHENTICATED_def HTTP_REQUEST_1_1_def HTTP_REQUEST_CONTENT_IGNORED_def
  WS_REQUEST_BROWSER_def

definition HTTP_HEADER_DELIMITER :: "u8 list" where "HTTP_HEADER_DELIMITER = [13, 10]"
definition HTTP_METHOD_GET :: "u8 list" where "HTTP_METHOD_GET = str ''get''"
definition HTTP_METHOD_POST :: "u8 list" where "HTTP_METHOD_POST = str ''post''"
definition HTTP_VERSION_1P1 :: "u8 list" where "HTTP_VERSION_1P1 = str ''http/1.1''"
definition HTTP_VERSION_1P0 :: "u8 list" where "HTTP_VERSION_1P0 = str ''http/1.0''"
definition HTTP_CONTENT_TYPE :: "u8 list" where "HTTP_CONTENT_TYPE = str ''content-type''"
definition HTTP_CONTENT_LENGTH :: "u8 list" where "HTTP_CONTENT_LENGTH = str ''content-length''"
definition HTTP_ACCEPT_ENCODING :: "u8 list" where "HTTP_ACCEPT_ENCODING = str ''accept-encoding''"
definition HTTP_AUTHORIZATION :: "u8 list" where "HTTP_AUTHORIZATION = str ''authorization''"
definition HTTP_CONNECTION_CLOSE :: "u8 list" where "HTTP_CONNECTION_CLOSE = str ''connection''"
definition HTTP_GZIP :: "u8 list" where "HTTP_GZIP = str ''gzip''"
definition HTTP_CLOSE :: "u8 list" where "HTTP_CLOSE = str ''close''"
definition HTTP_LOCATION :: "u8 list" where "HTTP_LOCATION = str ''location''"
definition HTTP_CONTENT_ENCODING :: "u8 list" where "HTTP_CONTENT_ENCODING = str ''content-encoding''"
definition WS_UPGRADE :: "u8 list" where "WS_UPGRADE = str ''upgrade''"
definition WS_WEBSOCKET :: "u8 list" where "WS_WEBSOCKET = str ''websocket''"

lemmas http_strings =
  HTTP_HEADER_DELIMITER_def HTTP_METHOD_GET_def HTTP_METHOD_POST_def HTTP_VERSION_1P1_def
  HTTP_VERSION_1P0_def HTTP_CONTENT_TYPE_def HTTP_CONTENT_LENGTH_def HTTP_ACCEPT_ENCODING_def
  HTTP_AUTHORIZATION_def HTTP_CONNECTION_CLOSE_def HTTP_GZIP_def HTTP_CLOSE_def
  HTTP_LOCATION_def HTTP_CONTENT_ENCODING_def WS_UPGRADE_def WS_WEBSOCKET_def

definition SL_INEXE :: int where "SL_INEXE = -8"
definition SL_ENSOCK :: int where "SL_ENSOCK = -10"

section \<open>The host API\<close>

datatype sockopt =
    SO_Nonblocking bool | SO_RcvTimeo nat nat | SO_PrivateKeyFile | SO_CertificateFile

record 'w sl_ops =
  sl_Socket :: "bool \<Rightarrow> 'w \<Rightarrow> int \<times> 'w"
  sl_SetSockOpt :: "int \<Rightarrow> sockopt \<Rightarrow> 'w \<Rightarrow> int \<times> 'w"
  sl_Bind :: "int \<Rightarrow> nat \<Rightarrow> 'w \<Rightarrow> int \<times> 'w"
  sl_Listen :: "int \<Rightarrow> nat \<Rightarrow> 'w \<Rightarrow> int \<times> 'w"
  sl_Accept :: "int \<Rightarrow> 'w \<Rightarrow> int \<times> 'w"
  sl_Recv :: "int \<Rightarrow> nat \<Rightarrow> 'w \<Rightarrow> int \<times> u8 list \<times> 'w"
  sl_Send :: "int \<Rightarrow> u8 list \<Rightarrow> 'w \<Rightarrow> int \<times> 'w"
  sl_Close :: "int \<Rightarrow> 'w \<Rightarrow> int \<times> 'w"
  sl_FsOpen :: "u8 list \<Rightarrow> 'w \<Rightarrow> int \<times> int \<times> 'w"
  sl_FsGetInfo :: "u8 list \<Rightarrow> 'w \<Rightarrow> u32 \<times> 'w"
  sl_FsRead :: "int \<Rightarrow> nat \<Rightarrow> nat \<Rightarrow> 'w \<Rightarrow> int \<times> u8 list \<times> 'w"
  sl_FsClose :: "int \<Rightarrow> 'w \<Rightarrow> int \<times> 'w"
  sha_process :: "u8 list \<Rightarrow> 'w \<Rightarrow> u8 list \<times> 'w"
  ws_handshake_event :: "nat \<Rightarrow> 'w \<Rightarrow> 'w"
  ws_recv_event :: "nat \<Rightarrow> u8 list \<Rightarrow> 'w \<Rightarrow> 'w"
  ws_close_event :: "'w \<Rightarrow> 'w"

text \<open>A host on which every operation does nothing, to instantiate the parameter in witnesses.\<close>

definition null_ops :: "'w sl_ops" where
  "null_ops = \<lparr>sl_Socket = (\<lambda>_ w. (0, w)), sl_SetSockOpt = (\<lambda>_ _ w. (0, w)),
     sl_Bind = (\<lambda>_ _ w. (0, w)), sl_Listen = (\<lambda>_ _ w. (0, w)), sl_Accept = (\<lambda>_ w. (-1, w)),
     sl_Recv = (\<lambda>_ _ w. (-1, [], w)), sl_Send = (\<lambda>_ buf w. (int (length buf), w)),
     sl_Close = (\<lambda>_ w. (0, w)), sl_FsOpen = (\<lambda>_ w. (-1, 0, w)), sl_FsGetInfo = (\<lambda>_ w. (0, w)),
     sl_FsRead = (\<lambda>_ _ _ w. (-1, [], w)), sl_FsClose = (\<lambda>_ w. (0, w)),
     sha_process = (\<lambda>_ w. (replicate 20 0, w)), ws_handshake_event = (\<lambda>_ w. w),
     ws_recv_event = (\<lambda>_ _ w. w), ws_close_event = (\<lambda>w. w)\<rparr>"

text \<open>The zero-initialised globals of the program, with its string constants in memory.\<close>

definition boot_mem :: "http_block mem" where
  "boot_mem = (\<lambda>b i. case b of Lit bs \<Rightarrow> if i < length bs then bs ! i else 0 | _ \<Rightarrow> 0)"

definition boot_state :: "'w \<Rightarrow> 'w HttpGlobalState" where
  "boot_state w =
     \<lparr>hmem = boot_mem, listenSocket = 0, uOpenConnections = 0,
      connections = (\<lambda>_. \<lparr>connectionState = Inactive, dataSocket = 0,
        request = \<lparr>uFlags = 0, req_uConnection = 0, requestContent = \<lparr>uLength = 0, pData = Null\<rparr>\<rparr>,
        handler = None_handler, uContentLeft = 0, timeout = 0, uSavedBufferSize = 0, HttpAuth = 0\<rparr>),
      packetRecvSize = 0, packetSendSize = 0, glFileHandle = 0,
      g_RestContent = (\<lambda>_. \<lparr>rest_method = 0, ResourceString = None, pCbfunc = (\<lambda>v. ([], v))\<rparr>),
      g_NumResource = 0,
      ws = \<lparr>GlobRecvBuf = Null, GlobPayloadLen = 0, GlobRecvLen = 0, RecvMore = False, Mask = 0,
            Ping = False, Close = False, Origin = False, WS_ORIGIN_NAME = Null\<rparr>,
      heap_next = 0, heap_size = (\<lambda>_. 0), world = w\<rparr>"

section \<open>Access to connections and to memory through pointers\<close>

definition conn_upd ::
  "nat \<Rightarrow> (HttpConnectionData \<Rightarrow> HttpConnectionData) \<Rightarrow> 'w HttpGlobalState \<Rightarrow> 'w HttpGlobalState" where
  "conn_upd u f g = g\<lparr>connections := (connections g)(u := f (connections g u))\<rparr>"

definition set_conn_state ::
  "nat \<Rightarrow> HttpConnectionState \<Rightarrow> 'w HttpGlobalState \<Rightarrow> 'w HttpGlobalState" where
  "set_conn_state u st = conn_upd u (\<lambda>c. c\<lparr>connectionState := st\<rparr>)"

definition req_upd ::
  "nat \<Rightarrow> (HttpRequest \<Rightarrow> HttpRequest) \<Rightarrow> 'w HttpGlobalState \<Rightarrow> 'w HttpGlobalState" where
  "req_upd u f = conn_upd u (\<lambda>c. c\<lparr>request := f (request c)\<rparr>)"

definition set_req_flag :: "nat \<Rightarrow> u16 \<Rightarrow> 'w HttpGlobalState \<Rightarrow> 'w HttpGlobalState" where
  "set_req_flag u f = req_upd u (\<lambda>r. r\<lparr>uFlags := set_flag (uFlags r) f\<rparr>)"

definition clear_req_flag :: "nat \<Rightarrow> u16 \<Rightarrow> 'w HttpGlobalState \<Rightarrow> 'w HttpGlobalState" where
  "clear_req_flag u f = req_upd u (\<lambda>r. r\<lparr>uFlags := clear_flag (uFlags r) f\<rparr>)"

definition req_has :: "'w HttpGlobalState \<Rightarrow> nat \<Rightarrow> u16 \<Rightarrow> bool" where
  "req_has g u f = has_flag (uFlags (request (connections g u))) f"

definition conn_state :: "'w HttpGlobalState \<Rightarrow> nat \<Rightarrow> HttpConnectionState" where
  "conn_state g u = connectionState (connections g u)"

text \<open>\<open>nextToken\<close> on a line of the server: the blob is lowered in the server's memory.\<close>

definition next_token :: "u8 list \<Rightarrow> hblob \<Rightarrow> 'w HttpGlobalState \<Rightarrow> http_block ptr \<times> 'w HttpGlobalState" where
  "next_token tok blob g =
     (let (r, m') = HttpString_nextToken (hmem g) tok blob in (r, g\<lparr>hmem := m'\<rparr>))"

definition ptr_byte :: "'b mem \<Rightarrow> 'b ptr \<Rightarrow> u8" where
  "ptr_byte m p = (case p of Null \<Rightarrow> 0 | Ptr b i \<Rightarrow> m b i)"

definition memcpy_from :: "'b mem \<Rightarrow> 'b \<Rightarrow> nat \<Rightarrow> 'b ptr \<Rightarrow> nat \<Rightarrow> 'b mem" where
  "memcpy_from m d i src n = (case src of Null \<Rightarrow> m | Ptr s j \<Rightarrow> memcpy m d i s j n)"

text \<open>\<open>location - pData\<close> cast to 16 bits; the code uses it only when the search succeeded.\<close>

definition ptr_diff16 :: "'b ptr \<Rightarrow> 'b ptr \<Rightarrow> u16" where
  "ptr_diff16 p q =
     (case (p, q) of (Ptr _ i, Ptr _ j) \<Rightarrow> of_int (int i - int j) | _ \<Rightarrow> 0)"

lemma conn_upd_same [simp]: "connections (conn_upd u f g) u = f (connections g u)"
  by (simp add: conn_upd_def)

lemma conn_upd_other [simp]: "v \<noteq> u \<Longrightarrow> connections (conn_upd u f g) v = connections g v"
  by (simp add: conn_upd_def)

lemma conn_upd_frame [simp]:
  "hmem (conn_upd u f g) = hmem g" "listenSocket (conn_upd u f g) = listenSocket g"
  "uOpenConnections (conn_upd u f g) = uOpenConnections g"
  "packetRecvSize (conn_upd u f g) = packetRecvSize g"
  "packetSendSize (conn_upd u f g) = packetSendSize g" "world (conn_upd u f g) = world g"
  "glFileHandle (conn_upd u f g) = glFileHandle g" "g_RestContent (conn_upd u f g) = g_RestContent g"
  "g_NumResource (conn_upd u f g) = g_NumResource g" "ws (conn_upd u f g) = ws g"
  "heap_next (conn_upd u f g) = heap_next g" "heap_size (conn_upd u f g) = heap_size g"
  by (simp_all add: conn_upd_def)

lemmas conn_defs = set_conn_state_def req_upd_def set_req_flag_def clear_req_flag_def
  req_has_def conn_state_def

lemma next_token_frame:
  "next_token tok blob g = (r, g') \<Longrightarrow> g' = g\<lparr>hmem := hmem g'\<rparr>"
  by (auto simp: next_token_def Let_def split: prod.splits)

end
