(* ===== verification/Http_Socket.thy ===== *)
theory Http_Socket
  imports Http_State
begin

text \<open>
  \<open>netapps/http/server/HttpSocket.c\<close>: opening, accepting and closing the TCP sockets of the
  server, and sending a buffer.  Each function threads the world of the host API; delays have
  no effect on it.
\<close>

section \<open>Closing\<close>

text \<open>The \<open>do ... while (ittr < 3)\<close> loop of the two close functions, \<open>n\<close> tries left.\<close>

fun close_tries :: "'w sl_ops \<Rightarrow> int \<Rightarrow> nat \<Rightarrow> 'w \<Rightarrow> int \<times> 'w" where
  "close_tries ops sd 0 w = (-1, w)"
| "close_tries ops sd (Suc n) w =
     (let (r, w') = sl_Close ops sd w
      in if r \<ge> 0 then (0, w') else close_tries ops sd n w')"

definition CloseTCPServerSocket :: "'w sl_ops \<Rightarrow> int \<Rightarrow> 'w \<Rightarrow> int \<times> 'w" where
  "CloseTCPServerSocket ops iSockDesc w =
     (if iSockDesc < 0 then (0, w) else close_tries ops iSockDesc 3 w)"

definition CloseTCPClientSocket :: "'w sl_ops \<Rightarrow> int \<Rightarrow> 'w \<Rightarrow> int \<times> 'w" where
  "CloseTCPClientSocket ops iSockDesc w =
     (if iSockDesc < 0 then (0, w) else close_tries ops iSockDesc 3 w)"

section \<open>Opening\<close>

text \<open>A failed step closes the socket and returns \<open>-1\<close>.\<close>

definition close_and_fail :: "'w sl_ops \<Rightarrow> int \<Rightarrow> 'w \<Rightarrow> int \<times> 'w" where
  "close_and_fail ops sd w = (let (_, w') = CloseTCPServerSocket ops sd w in (-1, w'))"

definition OpenTCPServerSocket :: "'w sl_ops \<Rightarrow> nat \<Rightarrow> 'w \<Rightarrow> int \<times> 'w" where
  "OpenTCPServerSocket ops uiPortNum w =
     (let (sd, w1) = sl_Socket ops (uiPortNum = 443) w in
      if sd < 0 then (-1, w1)
      else let (r2, w2) = sl_SetSockOpt ops sd (SO_Nonblocking True) w1 in
      if r2 < 0 then close_and_fail ops sd w2
      else let (r3, w3) = (if uiPortNum = 443 then sl_SetSockOpt ops sd SO_PrivateKeyFile w2 else (0, w2)) in
      if r3 < 0 then close_and_fail ops sd w3
      else let (r4, w4) = (if uiPortNum = 443 then sl_SetSockOpt ops sd SO_CertificateFile w3 else (0, w3)) in
      if r4 < 0 then close_and_fail ops sd w4
      else let (r5, w5) = sl_Bind ops sd uiPortNum w4 in
      if r5 \<noteq> 0 then close_and_fail ops sd w5
      else (sd, w5))"

text \<open>
  \<open>while (connectRetries++ < 3)\<close>, \<open>n\<close> rounds left; \<open>sd\<close> is the descriptor of the last round.
\<close>

fun create_server_tries :: "'w sl_ops \<Rightarrow> nat \<Rightarrow> nat \<Rightarrow> int \<Rightarrow> 'w \<Rightarrow> int \<times> 'w" where
  "create_server_tries ops port 0 sd w = (sd, w)"
| "create_server_tries ops port (Suc n) sd w =
     (let (sd', w1) = OpenTCPServerSocket ops port w in
      if sd' < 0 then create_server_tries ops port n sd' w1
      else let (r, w2) = sl_Listen ops sd' HTTP_CORE_MAX_CONNECTIONS w1 in
      if r \<noteq> 0 then
        let (_, w3) = CloseTCPServerSocket ops sd' w2 in create_server_tries ops port n (-1) w3
      else (sd', w2))"

definition CreateTCPServerSocket :: "'w sl_ops \<Rightarrow> nat \<Rightarrow> 'w \<Rightarrow> int \<times> 'w" where
  "CreateTCPServerSocket ops uiPortNum w = create_server_tries ops uiPortNum 3 (-1) w"

definition CreateTCPClientSocket :: "'w sl_ops \<Rightarrow> int \<Rightarrow> 'w \<Rightarrow> int \<times> 'w" where
  "CreateTCPClientSocket ops iSockDesc w =
     (let (sock, w1) = sl_Accept ops iSockDesc w in
      if sock \<ge> 0 then
        let (r2, w2) = sl_SetSockOpt ops sock (SO_Nonblocking False) w1 in
        if r2 < 0 then (let (_, w3) = CloseTCPClientSocket ops sock w2 in (-1, w3))
        else let (r3, w3) = sl_SetSockOpt ops sock (SO_RcvTimeo 1 0) w2 in
        if r3 < 0 then (let (_, w4) = CloseTCPClientSocket ops sock w3 in (-1, w4))
        else (sock, w3)
      else (sock, w1))"

section \<open>Sending\<close>

text \<open>
  The loop repeats as long as \<open>send\<close> answers \<open>SL_EAGAIN\<close>, for ever if it always does: \<open>None\<close> is
  a call that does not return.  A short send is reported as \<open>-1\<close>.
\<close>

partial_function (option) ClientSocketSend ::
  "'w sl_ops \<Rightarrow> int \<Rightarrow> u8 list \<Rightarrow> 'w \<Rightarrow> (int \<times> 'w) option" where
  "ClientSocketSend ops sd buffer w =
     (let (send_len, w') = sl_Send ops sd buffer w in
      if send_len > 0 then
        Some (if int (length buffer) \<noteq> send_len then -1 else send_len, w')
      else if send_len \<noteq> SL_EAGAIN then Some (-1, w')
      else ClientSocketSend ops sd buffer w')"

section \<open>Facts\<close>

text \<open>What the host API documents of \<open>send\<close>: it accepts a prefix of the buffer or fails.\<close>

definition send_contract :: "'w sl_ops \<Rightarrow> ('w \<Rightarrow> (int \<times> u8) list) \<Rightarrow> bool" where
  "send_contract ops sent \<longleftrightarrow>
     (\<forall>sd buf w r w'. sl_Send ops sd buf w = (r, w') \<longrightarrow>
        (if 0 < r then r \<le> int (length buf) \<and> sent w' = sent w @ map (Pair sd) (take (nat r) buf)
         else sent w' = sent w))"

lemma ClientSocketSend_result:
  assumes "ClientSocketSend ops sd buf w = Some (r, w')"
  shows "r = -1 \<or> r = int (length buf) \<and> 0 < r"
proof -
  define res where "res = (r, w')"
  have "fst res = -1 \<or> fst res = int (length buf) \<and> 0 < fst res"
  proof (rule ClientSocketSend.raw_induct [where P = "\<lambda>ops sd buf w res. fst res = -1 \<or> fst res = int (length buf) \<and> 0 < fst res", OF _ assms [folded res_def]])
    fix f :: "'a sl_ops \<Rightarrow> int \<Rightarrow> u8 list \<Rightarrow> 'a \<Rightarrow> (int \<times> 'a) option" and ops sd buf w and res :: "int \<times> 'a"
    assume IH: "\<And>ops sd buf w res. f ops sd buf w = Some res \<Longrightarrow>
        fst res = -1 \<or> fst res = int (length buf) \<and> 0 < fst res"
      and eq: "(let (send_len, w') = sl_Send ops sd buf w in
        if send_len > 0 then Some (if int (length buf) \<noteq> send_len then -1 else send_len, w')
        else if send_len \<noteq> SL_EAGAIN then Some (-1, w') else f ops sd buf w') = Some res"
    obtain n w1 where s: "sl_Send ops sd buf w = (n, w1)" by (rule prod.exhaust)
    show "fst res = -1 \<or> fst res = int (length buf) \<and> 0 < fst res"
    proof (cases "0 < n")
      case True
      with eq s have "res = (if int (length buf) \<noteq> n then -1 else n, w1)" by simp
      with True show ?thesis by auto
    next
      case False
      with eq s IH [of ops sd buf w1 res] show ?thesis by (auto split: if_splits)
    qed
  qed
  then show ?thesis by (simp add: res_def)
qed

lemma ClientSocketSend_sent:
  assumes "ClientSocketSend ops sd buf w = Some (r, w')" and "send_contract ops sent" and "0 < r"
  shows "sent w' = sent w @ map (Pair sd) buf"
proof -
  define res where "res = (r, w')"
  have "send_contract ops sent \<longrightarrow> 0 < fst res \<longrightarrow> sent (snd res) = sent w @ map (Pair sd) buf"
  proof (rule ClientSocketSend.raw_induct [where P = "\<lambda>ops sd buf w res. send_contract ops sent \<longrightarrow> 0 < fst res \<longrightarrow> sent (snd res) = sent w @ map (Pair sd) buf", OF _ assms(1) [folded res_def]])
    fix f :: "'a sl_ops \<Rightarrow> int \<Rightarrow> u8 list \<Rightarrow> 'a \<Rightarrow> (int \<times> 'a) option" and ops sd buf w and res :: "int \<times> 'a"
    assume IH: "\<And>ops sd buf w res. f ops sd buf w = Some res \<Longrightarrow>
        send_contract ops sent \<longrightarrow> 0 < fst res \<longrightarrow> sent (snd res) = sent w @ map (Pair sd) buf"
      and eq: "(let (send_len, w') = sl_Send ops sd buf w in
        if send_len > 0 then Some (if int (length buf) \<noteq> send_len then -1 else send_len, w')
        else if send_len \<noteq> SL_EAGAIN then Some (-1, w') else f ops sd buf w') = Some res"
    show "send_contract ops sent \<longrightarrow> 0 < fst res \<longrightarrow> sent (snd res) = sent w @ map (Pair sd) buf"
    proof (intro impI)
      assume sc: "send_contract ops sent" and pos: "0 < fst res"
      obtain n w1 where s: "sl_Send ops sd buf w = (n, w1)" by (rule prod.exhaust)
      show "sent (snd res) = sent w @ map (Pair sd) buf"
      proof (cases "0 < n")
        case True
        with eq s pos have "n = int (length buf)" and "res = (n, w1)" by (auto split: if_splits)
        with sc s True show ?thesis unfolding send_contract_def by fastforce
      next
        case False
        with sc s have "sent w1 = sent w" unfolding send_contract_def by fastforce
        with False eq s pos IH [of ops sd buf w1 res] sc show ?thesis by (auto split: if_splits)
      qed
    qed
  qed
  with assms(2,3) show ?thesis by (simp add: res_def)
qed

lemma close_tries_result: "fst (close_tries ops sd n w) \<in> {0, -1}"
  by (induction n arbitrary: w) (auto simp: Let_def split: prod.splits)

text \<open>
  What the host API documents of its sockets, over the set of open descriptors of a world: a
  new descriptor is fresh and open, closing closes, nothing else changes the set.
\<close>

definition socket_contract :: "'w sl_ops \<Rightarrow> ('w \<Rightarrow> int set) \<Rightarrow> bool" where
  "socket_contract ops opened \<longleftrightarrow>
     (\<forall>b w. let (r, w') = sl_Socket ops b w in
        if 0 \<le> r then r \<notin> opened w \<and> opened w' = insert r (opened w) else opened w' = opened w) \<and>
     (\<forall>sd w. 0 \<le> fst (sl_Close ops sd w) \<and> opened (snd (sl_Close ops sd w)) = opened w - {sd}) \<and>
     (\<forall>sd opt w. opened (snd (sl_SetSockOpt ops sd opt w)) = opened w) \<and>
     (\<forall>sd p w. opened (snd (sl_Bind ops sd p w)) = opened w) \<and>
     (\<forall>sd n w. opened (snd (sl_Listen ops sd n w)) = opened w)"

lemma socket_contractD:
  assumes "socket_contract ops opened"
  shows "sl_Socket ops b w = (r, w') \<Longrightarrow> 0 \<le> r \<Longrightarrow> r \<notin> opened w \<and> opened w' = insert r (opened w)"
    and "sl_Socket ops b w = (r, w') \<Longrightarrow> r < 0 \<Longrightarrow> opened w' = opened w"
    and "sl_Close ops sd w = (r, w') \<Longrightarrow> 0 \<le> r \<and> opened w' = opened w - {sd}"
    and "sl_SetSockOpt ops sd opt w = (r, w') \<Longrightarrow> opened w' = opened w"
    and "sl_Bind ops sd p w = (r, w') \<Longrightarrow> opened w' = opened w"
    and "sl_Listen ops sd n w = (r, w') \<Longrightarrow> opened w' = opened w"
proof -
  show "sl_Socket ops b w = (r, w') \<Longrightarrow> 0 \<le> r \<Longrightarrow> r \<notin> opened w \<and> opened w' = insert r (opened w)"
    using assms unfolding socket_contract_def Let_def by (metis (mono_tags, lifting) case_prod_conv)
  show "sl_Socket ops b w = (r, w') \<Longrightarrow> r < 0 \<Longrightarrow> opened w' = opened w"
    using assms unfolding socket_contract_def Let_def
    by (metis (mono_tags, lifting) case_prod_conv linorder_not_le)
  show "sl_Close ops sd w = (r, w') \<Longrightarrow> 0 \<le> r \<and> opened w' = opened w - {sd}"
    using assms unfolding socket_contract_def by (metis fst_conv snd_conv)
  show "sl_SetSockOpt ops sd opt w = (r, w') \<Longrightarrow> opened w' = opened w"
    using assms unfolding socket_contract_def by (metis snd_conv)
  show "sl_Bind ops sd p w = (r, w') \<Longrightarrow> opened w' = opened w"
    using assms unfolding socket_contract_def by (metis snd_conv)
  show "sl_Listen ops sd n w = (r, w') \<Longrightarrow> opened w' = opened w"
    using assms unfolding socket_contract_def by (metis snd_conv)
qed

lemma CloseTCPServerSocket_closes:
  assumes "socket_contract ops opened" and "0 \<le> sd" and "CloseTCPServerSocket ops sd w = (r, w')"
  shows "opened w' = opened w - {sd}"
  using assms socket_contractD(3) [OF assms(1)]
  by (auto simp: CloseTCPServerSocket_def numeral_3_eq_3 Let_def split: prod.splits if_splits)

lemma close_and_fail_closes:
  assumes "socket_contract ops opened" and "0 \<le> sd" and "close_and_fail ops sd w = (r, w')"
  shows "r = -1 \<and> opened w' = opened w - {sd}"
proof -
  obtain x w1 where c: "CloseTCPServerSocket ops sd w = (x, w1)" by (rule prod.exhaust)
  with CloseTCPServerSocket_closes [OF assms(1,2) c] assms(3) show ?thesis
    by (simp add: close_and_fail_def)
qed

definition opens_or_restores :: "('w \<Rightarrow> int set) \<Rightarrow> 'w \<Rightarrow> int \<times> 'w \<Rightarrow> bool" where
  "opens_or_restores opened w res \<longleftrightarrow>
     (if 0 \<le> fst res then fst res \<notin> opened w \<and> opened (snd res) = insert (fst res) (opened w)
      else opened (snd res) = opened w)"

lemma close_and_fail_restores:
  assumes "socket_contract ops opened" and "0 \<le> sd" and "opened w' = insert sd (opened w)"
    and "sd \<notin> opened w"
  shows "opens_or_restores opened w (close_and_fail ops sd w')"
proof -
  obtain x w1 where c: "close_and_fail ops sd w' = (x, w1)" by (rule prod.exhaust)
  from close_and_fail_closes [OF assms(1,2) c] assms(3,4) show ?thesis
    by (simp add: c opens_or_restores_def)
qed

lemma OpenTCPServerSocket_opens:
  assumes sc: "socket_contract ops opened"
  shows "opens_or_restores opened w (OpenTCPServerSocket ops port w)"
proof -
  note D = socket_contractD [OF sc]
  obtain sd w1 where 1: "sl_Socket ops (port = 443) w = (sd, w1)" by (rule prod.exhaust)
  show ?thesis
  proof (cases "sd < 0")
    case True
    with 1 D(2) [OF 1] show ?thesis by (simp add: OpenTCPServerSocket_def opens_or_restores_def)
  next
    case False
    then have o1: "sd \<notin> opened w" "opened w1 = insert sd (opened w)" "0 \<le> sd"
      using D(1) [OF 1] by auto
    obtain r2 w2 where 2: "sl_SetSockOpt ops sd (SO_Nonblocking True) w1 = (r2, w2)" by (rule prod.exhaust)
    obtain r3 w3 where 3: "(if port = 443 then sl_SetSockOpt ops sd SO_PrivateKeyFile w2 else (0, w2)) = (r3, w3)"
      by (rule prod.exhaust)
    obtain r4 w4 where 4: "(if port = 443 then sl_SetSockOpt ops sd SO_CertificateFile w3 else (0, w3)) = (r4, w4)"
      by (rule prod.exhaust)
    obtain r5 w5 where 5: "sl_Bind ops sd port w4 = (r5, w5)" by (rule prod.exhaust)
    have o2: "opened w2 = opened w1" using D(4) [OF 2] .
    have o3: "opened w3 = opened w1" using 3 D(4) o2 by (auto split: if_splits)
    have o4: "opened w4 = opened w1" using 4 D(4) o3 by (auto split: if_splits)
    have o5: "opened w5 = opened w1" using D(5) [OF 5] o4 by simp
    have body: "OpenTCPServerSocket ops port w =
       (if r2 < 0 then close_and_fail ops sd w2 else if r3 < 0 then close_and_fail ops sd w3
        else if r4 < 0 then close_and_fail ops sd w4 else if r5 \<noteq> 0 then close_and_fail ops sd w5
        else (sd, w5))"
      unfolding OpenTCPServerSocket_def 1 prod.case using False
      by (simp only: if_False Let_def 2 3 4 5 prod.case)
    show ?thesis
      unfolding body
      using close_and_fail_restores [OF sc o1(3) _ o1(1)] o1 o2 o3 o4 o5
      by (auto simp: opens_or_restores_def)
  qed
qed

lemma create_server_tries_opens:
  assumes "socket_contract ops opened"
  shows "sd < 0 \<Longrightarrow> opens_or_restores opened w (create_server_tries ops port n sd w)"
proof (induction n arbitrary: sd w)
  case 0
  then show ?case by (simp add: opens_or_restores_def)
next
  case (Suc n)
  obtain sd' w1 where 1: "OpenTCPServerSocket ops port w = (sd', w1)" by (rule prod.exhaust)
  have o1: "opens_or_restores opened w (sd', w1)" using OpenTCPServerSocket_opens [OF assms, of w port] 1 by simp
  show ?case
  proof (cases "sd' < 0")
    case True
    then show ?thesis using Suc.IH [OF True, of w1] o1 1 by (simp add: opens_or_restores_def split: if_splits)
  next
    case False
    obtain r w2 where 2: "sl_Listen ops sd' HTTP_CORE_MAX_CONNECTIONS w1 = (r, w2)" by (rule prod.exhaust)
    obtain x w3 where 3: "CloseTCPServerSocket ops sd' w2 = (x, w3)" by (rule prod.exhaust)
    have o2: "opened w2 = opened w1" using socket_contractD(6) [OF assms 2] .
    have "opened w3 = opened w"
      using CloseTCPServerSocket_closes [OF assms _ 3] False o1 o2 by (simp add: opens_or_restores_def)
    then have "opens_or_restores opened w (create_server_tries ops port n (- 1) w3)"
      using Suc.IH [of "-1" w3] by (simp add: opens_or_restores_def split: if_splits)
    then show ?thesis using False 1 2 3 o1 o2
      by (auto simp: opens_or_restores_def simp del: http_limits)
  qed
qed

text \<open>Only finitely many \<open>SL_EAGAIN\<close> answers can follow a world.\<close>

definition send_progress :: "'w sl_ops \<Rightarrow> ('w \<Rightarrow> nat) \<Rightarrow> bool" where
  "send_progress ops rank \<longleftrightarrow>
     (\<forall>sd buf v v'. sl_Send ops sd buf v = (SL_EAGAIN, v') \<longrightarrow> rank v' < rank v)"

lemma ClientSocketSend_returns_aux:
  assumes "send_progress ops rank"
  shows "\<exists>r w'. ClientSocketSend ops sd buf w = Some (r, w')"
proof (induction "rank w" arbitrary: w rule: less_induct)
  case less
  obtain n v where e: "sl_Send ops sd buf w = (n, v)" by (rule prod.exhaust)
  show ?case
  proof (cases "n = SL_EAGAIN")
    case True
    with e assms have "rank v < rank w" by (auto simp: send_progress_def)
    from less [OF this] show ?thesis
      by (subst ClientSocketSend.simps) (simp add: e True SL_EAGAIN_def)
  next
    case False
    then show ?thesis by (subst ClientSocketSend.simps) (simp add: e)
  qed
qed

section \<open>Properties\<close>

text \<open>\<open>ClientSocketSend\<close> is all or nothing: whenever it returns, it either reports \<open>-1\<close> or
  the whole length, and in the second case exactly the buffer was handed to the socket, in
  order (under the documented contract of \<open>send\<close>).\<close>

theorem ClientSocketSend_all_or_error:
  assumes "ClientSocketSend ops sd buf w = Some (r, w')" and "send_contract ops sent"
  shows "(r = -1 \<or> r = int (length buf) \<and> 0 < r) \<and>
         (0 < r \<longrightarrow> sent w' = sent w @ map (Pair sd) buf)"
  using ClientSocketSend_result [OF assms(1)] ClientSocketSend_sent [OF assms] by blast

definition log_ops :: "(int \<times> u8) list sl_ops" where
  "log_ops = null_ops\<lparr>sl_Send := (\<lambda>sd buf w. (int (length buf), w @ map (Pair sd) buf))\<rparr>"

lemma log_ops_contract: "send_contract log_ops id"
  by (auto simp: send_contract_def log_ops_def null_ops_def null_ops_def)

theorem ClientSocketSend_all_or_error_witness:
  "id [(4, 71), (4, 72)] = id [] @ map (Pair (4::int)) [71, 72::u8]"
proof -
  have "ClientSocketSend log_ops 4 [71, 72] [] = Some (2, [(4, 71), (4, 72)])"
    by (subst ClientSocketSend.simps) (simp add: log_ops_def null_ops_def)
  from ClientSocketSend_all_or_error [OF this log_ops_contract] show ?thesis by simp
qed

text \<open>\<open>ClientSocketSend\<close> returns as soon as the socket stops answering \<open>SL_EAGAIN\<close>: if
  only finitely many such answers can follow a world (a rank decreases with each), the loop ends
  with a result, whatever the buffer.\<close>

theorem ClientSocketSend_returns:
  assumes "send_progress ops rank"
  shows "\<exists>r w'. ClientSocketSend ops sd buf w = Some (r, w')"
  using assms by (rule ClientSocketSend_returns_aux)

definition busy_ops :: "nat sl_ops" where
  "busy_ops = null_ops\<lparr>sl_Send := (\<lambda>_ buf w. if w = 0 then (int (length buf), 0) else (-11, w - 1))\<rparr>"

theorem ClientSocketSend_returns_witness:
  "\<exists>r w'. ClientSocketSend busy_ops 4 [71, 72] 3 = Some (r, w')"
  by (rule ClientSocketSend_returns [where rank = id])
    (auto simp: send_progress_def busy_ops_def null_ops_def SL_EAGAIN_def split: if_splits)

text \<open>\<open>CreateTCPServerSocket\<close> leaks no descriptor: when it succeeds, exactly the fresh
  descriptor it returns is open in addition; when it fails, after up to three attempts, the
  set of open descriptors is what it was (under the documented contract of the socket API).\<close>

theorem CreateTCPServerSocket_no_leak:
  assumes "socket_contract ops opened" and "CreateTCPServerSocket ops port w = (r, w')"
  shows "if 0 \<le> r then r \<notin> opened w \<and> opened w' = insert r (opened w) else opened w' = opened w"
  using create_server_tries_opens [OF assms(1), of "-1" w port 3] assms(2)
  by (simp add: CreateTCPServerSocket_def opens_or_restores_def split: if_splits)

definition refusing_ops :: "int set sl_ops" where
  "refusing_ops = null_ops\<lparr>sl_Socket := (\<lambda>_ w. if 0 \<in> w then (-1, w) else (0, insert 0 w)),
     sl_Listen := (\<lambda>_ _ w. (-1, w)), sl_Close := (\<lambda>sd w. (0, w - {sd}))\<rparr>"

theorem CreateTCPServerSocket_no_leak_witness:
  "id (snd (CreateTCPServerSocket refusing_ops 80 {7})) = id {7}"
proof -
  have sc: "socket_contract refusing_ops id"
    by (auto simp: socket_contract_def refusing_ops_def null_ops_def Let_def)
  have run: "CreateTCPServerSocket refusing_ops 80 {7} = (-1, {7})"
    by (simp add: CreateTCPServerSocket_def numeral_3_eq_3 refusing_ops_def null_ops_def OpenTCPServerSocket_def
        CloseTCPServerSocket_def Let_def)
  from CreateTCPServerSocket_no_leak [OF sc run] show ?thesis by (simp add: run)
qed

end
