(* ===== verification/Http_Line.thy ===== *)
theory Http_Line
  imports Http_Socket
begin

text \<open>
  The parts of \<open>netapps/http/server/HttpCore.c\<close> that manage a connection's buffers:
  \<open>HttpCore_ResetConnection\<close>, \<open>HttpCore_InitWebServer\<close>, \<open>HttpCore_CloseConnection\<close>,
  \<open>HttpCore_GetNextLine\<close> and \<open>HttpCore_HandleRequestData\<close>.  The reference for the line reader is
  \<open>split_crlf\<close>, which cuts a byte stream at its first delimiter.
\<close>

section \<open>Connection life cycle\<close>

definition HttpCore_ResetConnection :: "nat \<Rightarrow> 'w HttpGlobalState \<Rightarrow> 'w HttpGlobalState" where
  "HttpCore_ResetConnection u =
     conn_upd u (\<lambda>c. c\<lparr>uContentLeft := 0, uSavedBufferSize := 0, handler := None_handler,
       request := (request c)\<lparr>requestContent := \<lparr>uLength = 0, pData = Null\<rparr>, uFlags := 0\<rparr>\<rparr>)"

definition init_connection :: "nat \<Rightarrow> 'w HttpGlobalState \<Rightarrow> 'w HttpGlobalState" where
  "init_connection u g =
     HttpCore_ResetConnection u
       (conn_upd u (\<lambda>c. c\<lparr>connectionState := Inactive, dataSocket := -1,
          request := (request c)\<lparr>req_uConnection := of_nat u\<rparr>, HttpAuth := 0\<rparr>) g)"

definition HttpCore_InitWebServer :: "'w HttpGlobalState \<Rightarrow> 'w HttpGlobalState" where
  "HttpCore_InitWebServer g =
     fold init_connection [0..<HTTP_CORE_MAX_CONNECTIONS]
       (g\<lparr>packetRecvSize := 0, packetSendSize := 0, uOpenConnections := 0, listenSocket := -1\<rparr>)"

definition HttpCore_CloseConnection :: "'w sl_ops \<Rightarrow> nat \<Rightarrow> 'w HttpGlobalState \<Rightarrow> 'w HttpGlobalState" where
  "HttpCore_CloseConnection ops u g =
     (let (r, w') = CloseTCPClientSocket ops (dataSocket (connections g u)) (world g);
          g0 = g\<lparr>world := w'\<rparr>
      in if r \<ge> 0 then
           (let g1 = conn_upd u (\<lambda>c. c\<lparr>connectionState := Inactive, dataSocket := -1, HttpAuth := 0,
                                       timeout := 0\<rparr>) g0;
                g2 = HttpCore_ResetConnection u g1;
                g3 = (if uOpenConnections g2 > 0
                      then g2\<lparr>uOpenConnections := uOpenConnections g2 - 1\<rparr> else g2)
            in g3\<lparr>packetRecvSize := 0, packetSendSize := 0\<rparr>)
         else g0)"

section \<open>The line reader\<close>

text \<open>
  The result is the return value, the new current location, the line (\<open>None\<close> where the code
  leaves \<open>pLine\<close> unset) and the new state.
\<close>

definition HttpCore_GetNextLine ::
  "nat \<Rightarrow> hblob \<Rightarrow> 'w HttpGlobalState \<Rightarrow> int \<times> hblob \<times> hblob option \<times> 'w HttpGlobalState" where
  "HttpCore_GetNextLine u cur g =
     (let c = connections g u;
          m = hmem g;
          saved = unat (uSavedBufferSize c);
          nextLocation = HttpString_nextDelimiter m HTTP_HEADER_DELIMITER cur;
          len = ptr_diff16 nextLocation (pData cur);
          dlen = length HTTP_HEADER_DELIMITER
      in
      if saved > 0 then
        if m (HeaderStart u) (saved - 1) = 13 \<and> ptr_byte m (pData cur) = 10 then
          (1, blob_skip cur 1,
           Some \<lparr>uLength = uSavedBufferSize c - 1, pData = Ptr (HeaderStart u) 0\<rparr>,
           conn_upd u (\<lambda>c. c\<lparr>uSavedBufferSize := 0\<rparr>)
             (g\<lparr>hmem := mem_set1 m (HeaderStart u) (saved + 1) (ptr_byte m (pData cur))\<rparr>))
        else if nextLocation = Null then
          if saved + unat (uLength cur) < HTTP_CORE_MAX_HEADER_LINE_LENGTH then
            (0, cur, None,
             conn_upd u (\<lambda>c. c\<lparr>uSavedBufferSize := uSavedBufferSize c + uLength cur\<rparr>)
               (g\<lparr>hmem := memcpy_from m (HeaderStart u) saved (pData cur) (unat (uLength cur))\<rparr>))
          else if connectionState c = RequestMethod then (-1, cur, None, g)
          else (0, cur, None,
                conn_upd u (\<lambda>c. c\<lparr>uSavedBufferSize := 0, connectionState := DropCurrentHeader\<rparr>) g)
        else if saved + unat len < HTTP_CORE_MAX_HEADER_LINE_LENGTH then
          (1, blob_skip cur (unat len + dlen),
           Some \<lparr>uLength = uSavedBufferSize c + len, pData = Ptr (HeaderStart u) 0\<rparr>,
           conn_upd u (\<lambda>c. c\<lparr>uSavedBufferSize := 0\<rparr>)
             (g\<lparr>hmem := memcpy_from m (HeaderStart u) saved (pData cur) (unat len)\<rparr>))
        else if connectionState c = RequestMethod then (-1, cur, None, g)
        else (1, blob_skip cur (unat len + dlen), Some nullBlob, g)
      else if nextLocation = Null then
        if unat (uLength cur) < HTTP_CORE_MAX_HEADER_LINE_LENGTH then
          (0, cur, None,
           conn_upd u (\<lambda>c. c\<lparr>uSavedBufferSize := uLength cur\<rparr>)
             (g\<lparr>hmem := memcpy_from m (HeaderStart u) 0 (pData cur) (unat (uLength cur))\<rparr>))
        else if connectionState c = RequestMethod then (-1, cur, None, g)
        else (0, cur, None,
              conn_upd u (\<lambda>c. c\<lparr>uSavedBufferSize := 0, connectionState := DropCurrentHeader\<rparr>) g)
      else if unat len < HTTP_CORE_MAX_HEADER_LINE_LENGTH then
        (1, blob_skip cur (unat len + dlen), Some \<lparr>uLength = len, pData = pData cur\<rparr>, g)
      else if connectionState c = RequestMethod then (-1, cur, None, g)
      else (1, blob_skip cur (unat len + dlen), Some nullBlob,
            conn_upd u (\<lambda>c. c\<lparr>connectionState := DropCurrentHeader\<rparr>) g))"

section \<open>Request content\<close>

definition HttpCore_HandleRequestData ::
  "nat \<Rightarrow> hblob \<Rightarrow> 'w HttpGlobalState \<Rightarrow> int \<times> hblob \<times> 'w HttpGlobalState" where
  "HttpCore_HandleRequestData u blob g =
     (let c = connections g u in
      if uContentLeft c = 0 then (1, blob, set_conn_state u Processing g)
      else
        let n = (if uContentLeft c > ucast (uLength blob) then ucast (uLength blob) else uContentLeft c) in
        if n = 0 then (0, blob, g)
        else if has_flag (uFlags (request c)) HTTP_REQUEST_CONTENT_IGNORED then
          (1, blob_skip blob (unat n),
           conn_upd u (\<lambda>c. c\<lparr>uContentLeft := uContentLeft c - n\<rparr>) g)
        else
          (1, blob_skip blob (unat n),
           conn_upd u (\<lambda>c. c\<lparr>uContentLeft := uContentLeft c - n,
               request := (request c)\<lparr>requestContent := (requestContent (request c))
                 \<lparr>uLength := uLength (requestContent (request c)) + ucast n\<rparr>\<rparr>\<rparr>)
             (g\<lparr>hmem := memcpy_from (hmem g) (HeaderStart u)
                  (unat (uLength (requestContent (request c)))) (pData blob) (unat n)\<rparr>)))"

section \<open>The reference line splitter\<close>

fun split_crlf :: "u8 list \<Rightarrow> (u8 list \<times> u8 list) option" where
  "split_crlf (x # y # zs) =
     (if x = 13 \<and> y = 10 then Some ([], zs)
      else map_option (apfst (Cons x)) (split_crlf (y # zs)))"
| "split_crlf [] = None"
| "split_crlf [x] = None"

lemma occurs_at_Cons: "occurs_at tok (x # xs) (Suc i) \<longleftrightarrow> occurs_at tok xs i"
  by (simp add: occurs_at_def)

lemma occurs_crlf_0: "occurs_at HTTP_HEADER_DELIMITER (x # y # zs) 0 \<longleftrightarrow> x = 13 \<and> y = 10"
  by (auto simp: occurs_at_def HTTP_HEADER_DELIMITER_def)

lemma occurs_crlf_short: "length xs < 2 \<Longrightarrow> \<not> occurs_at HTTP_HEADER_DELIMITER xs i"
  by (auto simp: occurs_at_def HTTP_HEADER_DELIMITER_def)

lemma split_crlf_None:
  "split_crlf xs = None \<longleftrightarrow> (\<forall>i. \<not> occurs_at HTTP_HEADER_DELIMITER xs i)"
proof (induction xs rule: split_crlf.induct)
  case (1 x y zs)
  have "(\<forall>i. \<not> occurs_at HTTP_HEADER_DELIMITER (x # y # zs) i) \<longleftrightarrow>
    \<not> (x = 13 \<and> y = 10) \<and> (\<forall>i. \<not> occurs_at HTTP_HEADER_DELIMITER (y # zs) i)"
    by (metis occurs_at_Cons occurs_crlf_0 old.nat.exhaust)
  with 1 show ?case by auto
qed (simp_all add: occurs_crlf_short)

lemma split_crlf_Some:
  "split_crlf xs = Some (l, r) \<Longrightarrow>
     xs = l @ 13 # 10 # r \<and> first_occurrence HTTP_HEADER_DELIMITER xs (length l)"
proof (induction xs arbitrary: l rule: split_crlf.induct)
  case (1 x y zs)
  show ?case
  proof (cases "x = 13 \<and> y = 10")
    case True
    with "1.prems" show ?thesis by (auto simp: first_occurrence_def occurs_crlf_0)
  next
    case False
    with "1.prems" obtain l' where l': "split_crlf (y # zs) = Some (l', r)" "l = x # l'"
      by (auto simp: map_option_case apfst_def split: option.splits)
    from "1.IH" [OF False l'(1)] have "y # zs = l' @ 13 # 10 # r"
      and f: "first_occurrence HTTP_HEADER_DELIMITER (y # zs) (length l')" by auto
    moreover have "\<not> occurs_at HTTP_HEADER_DELIMITER (x # y # zs) j" if "j < Suc (length l')" for j
      using that f False by (cases j) (auto simp: occurs_at_Cons occurs_crlf_0 first_occurrence_def)
    ultimately show ?thesis using l'(2) f
      by (simp add: first_occurrence_def occurs_at_Cons)
  qed
qed simp_all

lemma split_crlf_append:
  "split_crlf pend = None \<Longrightarrow>
   split_crlf (pend @ pkt) =
     (if pend \<noteq> [] \<and> last pend = 13 \<and> pkt \<noteq> [] \<and> hd pkt = 10 then Some (butlast pend, tl pkt)
      else map_option (apfst ((@) pend)) (split_crlf pkt))"
proof (induction pend rule: split_crlf.induct)
  case (1 x y zs)
  then show ?case
    by (auto simp: option.map_comp comp_def apfst_compose split: if_splits)
next
  case 2
  have "apfst ((@) []) = (\<lambda>p. p :: u8 list \<times> u8 list)" by (auto simp: fun_eq_iff)
  then show ?case by (simp add: option.map_ident)
next
  case (3 v)
  have "((@) [v]) = (#) v" by (simp add: fun_eq_iff)
  then show ?case by (cases pkt) auto
qed

text \<open>What \<open>HttpString_nextDelimiter\<close> finds is where \<open>split_crlf\<close> cuts.\<close>

lemma nextDelimiter_split:
  assumes "pData cur = Ptr b off"
  shows "HttpString_nextDelimiter m HTTP_HEADER_DELIMITER cur =
     (case split_crlf (blob_bytes m cur) of None \<Rightarrow> Null | Some (l, r) \<Rightarrow> Ptr b (off + length l))"
proof -
  have ne: "HTTP_HEADER_DELIMITER \<noteq> []" by (simp add: HTTP_HEADER_DELIMITER_def)
  let ?r = "HttpString_scan m HTTP_HEADER_DELIMITER b off (unat (uLength cur)) 0"
  have bytes: "blob_bytes m cur = mem_read m b off (unat (uLength cur))"
    by (simp add: blob_bytes_def assms)
  have res: "search_result HTTP_HEADER_DELIMITER (blob_bytes m cur) ?r"
    using HttpString_scan_correct [OF ne] by (simp add: bytes)
  show ?thesis
  proof (cases "split_crlf (blob_bytes m cur)")
    case None
    with res have "?r = None"
      by (auto simp: search_result_def split_crlf_None first_occurrence_def split: option.splits)
    with None show ?thesis by (simp add: HttpString_nextDelimiter_def assms scan_ptr_def)
  next
    case (Some p)
    obtain l r where p: "p = (l, r)" by (rule prod.exhaust)
    with Some have "first_occurrence HTTP_HEADER_DELIMITER (blob_bytes m cur) (length l)"
      using split_crlf_Some by blast
    with res have "?r = Some (length l)"
      by (auto simp: search_result_def first_occurrence_def split: option.splits)
        (metis linorder_neqE_nat)
    with Some p show ?thesis by (simp add: HttpString_nextDelimiter_def assms scan_ptr_def)
  qed
qed

lemma ptr_diff16_add: "unat (ptr_diff16 (Ptr b (off + n)) (Ptr b off)) = n mod 65536"
  by (simp add: ptr_diff16_def unat_of_nat)

lemma length_blob_bytes: "pData cur = Ptr b off \<Longrightarrow> length (blob_bytes m cur) = unat (uLength cur)"
  by (simp add: blob_bytes_def)

lemma blob_cut:
  assumes c: "pData cur = Ptr b off" and s: "split_crlf (blob_bytes m cur) = Some (l, r)"
  shows "unat (uLength cur) = length l + 2 + length r" "mem_read m b off (length l) = l"
    "blob_bytes m (blob_skip cur (length l + 2)) = r"
proof -
  have e: "mem_read m b off (unat (uLength cur)) = l @ 13 # 10 # r"
    using split_crlf_Some [OF s] by (simp add: blob_bytes_def c)
  have "length (mem_read m b off (unat (uLength cur))) = length l + 2 + length r"
    unfolding e by simp
  then show n: "unat (uLength cur) = length l + 2 + length r" by simp
  show "mem_read m b off (length l) = l"
    using arg_cong [OF e, of "take (length l)"] n by (simp add: take_mem_read)
  have k: "unat (of_nat (length l + 2) :: u16) = length l + 2"
    using n unat16_bound [of "uLength cur"] by (intro unat_of_nat_small) simp
  have "unat (uLength cur - of_nat (length l + 2)) = unat (uLength cur) - (length l + 2)"
    using n k by (subst unat_sub_le) (simp_all add: word_le_nat_alt del: of_nat_add)
  then have "unat (uLength (blob_skip cur (length l + 2))) = length r"
    using n by (simp add: blob_skip_def)
  moreover have "mem_read m b (off + (length l + 2)) (length r) = r"
    using arg_cong [OF e, of "drop (length l + 2)"] n by (simp add: drop_mem_read)
  ultimately show "blob_bytes m (blob_skip cur (length l + 2)) = r"
    by (simp add: blob_bytes_def blob_skip_def c)
qed

text \<open>The bytes of the line received so far, kept in the connection's buffer.\<close>

definition pending :: "nat \<Rightarrow> 'w HttpGlobalState \<Rightarrow> u8 list" where
  "pending u g = mem_read (hmem g) (HeaderStart u) 0 (unat (uSavedBufferSize (connections g u)))"

lemma length_pending: "length (pending u g) = unat (uSavedBufferSize (connections g u))"
  by (simp add: pending_def)

lemma pending_Nil: "pending u g = [] \<longleftrightarrow> uSavedBufferSize (connections g u) = 0"
  using length_pending [of u g] by (auto simp: unat_eq_0)

lemma last_pending:
  "pending u g \<noteq> [] \<Longrightarrow>
   last (pending u g) = hmem g (HeaderStart u) (unat (uSavedBufferSize (connections g u)) - 1)"
  by (cases "unat (uSavedBufferSize (connections g u))")
    (auto simp: last_conv_nth pending_def nth_mem_read unat_eq_0)

lemma hd_blob_bytes:
  "pData cur = Ptr b off \<Longrightarrow> uLength cur \<noteq> 0 \<Longrightarrow> hd (blob_bytes m cur) = m b off"
  by (auto simp: hd_conv_nth blob_bytes_def nth_mem_read unat_gt_0 unat_eq_0)

lemma blob_bytes_frame:
  "(\<And>b' i. pData bl = Ptr b' i \<Longrightarrow> m' b' = m b') \<Longrightarrow> blob_bytes m' bl = blob_bytes m bl"
  by (cases "pData bl") (auto simp: blob_bytes_def mem_read_def)

section \<open>The line reader against the reference\<close>

lemma pending_append:
  assumes "unat (uSavedBufferSize (connections g u)) + n < 320" "b \<noteq> HeaderStart u"
  shows "mem_read (memcpy_from (hmem g) (HeaderStart u)
      (unat (uSavedBufferSize (connections g u))) (Ptr b off) n) (HeaderStart u) 0 (unat (uSavedBufferSize (connections g u)) + n) =
    pending u g @ mem_read (hmem g) b off n"
  using mem_read_write_append [of "hmem g" "HeaderStart u" 0 _ "mem_read (hmem g) b off n"]
  by (simp add: memcpy_from_def memcpy_def pending_def)

lemma memcpy_from_other: "b' \<noteq> d \<Longrightarrow> memcpy_from m d i src n b' = m b'"
  by (cases src) (auto simp: memcpy_from_def memcpy_def mem_simps)

lemma unat_saved_add:
  "unat (x::u16) + unat y < 320 \<Longrightarrow> unat (x + y) = unat x + unat y"
  by (rule unat_add_small) simp

lemma ptr_diff16_len:
  "n < 65536 \<Longrightarrow> unat (ptr_diff16 (Ptr b (off + n)) (Ptr b off)) = n"
  by (simp add: ptr_diff16_add)

lemma GetNextLine_no_delimiter:
  assumes "pData cur = Ptr b off" "b \<noteq> HeaderStart u" "uLength cur \<noteq> 0"
    "split_crlf (pending u g) = None"
    "split_crlf (pending u g @ blob_bytes (hmem g) cur) = None"
    "length (pending u g @ blob_bytes (hmem g) cur) < HTTP_CORE_MAX_HEADER_LINE_LENGTH"
  shows "\<exists>g'. HttpCore_GetNextLine u cur g = (0, cur, None, g') \<and>
    pending u g' = pending u g @ blob_bytes (hmem g) cur"
proof -
  let ?s = "uSavedBufferSize (connections g u)"
  have none: "split_crlf (blob_bytes (hmem g) cur) = None"
    and nosplit: "\<not> (pending u g \<noteq> [] \<and> last (pending u g) = 13 \<and> hmem g b off = 10)"
    using assms(3,5) hd_blob_bytes [OF assms(1,3), of "hmem g"]
    by (auto simp: split_crlf_append [OF assms(4)] blob_bytes_def assms(1) unat_eq_0 split: if_splits)
  have nxt: "HttpString_nextDelimiter (hmem g) HTTP_HEADER_DELIMITER cur = Null"
    by (simp add: nextDelimiter_split [OF assms(1)] none)
  have len: "unat ?s + unat (uLength cur) < 320"
    using assms(6) by (simp add: length_pending length_blob_bytes [OF assms(1)])
  show ?thesis
  proof (cases "?s = 0")
    case True
    then have p0: "pending u g = []" by (simp add: pending_Nil)
    show ?thesis
      using True len pending_append [of g u "unat (uLength cur)" b off] assms(2) p0
      by (simp add: HttpCore_GetNextLine_def Let_def nxt assms(1) pending_def blob_bytes_def)
  next
    case False
    then have pos: "0 < unat ?s" by (simp add: unat_gt_0)
    show ?thesis
      using False pos len pending_append [of g u "unat (uLength cur)" b off] assms(2) nosplit
        last_pending [of u g] pending_Nil [of u g]
      by (simp add: HttpCore_GetNextLine_def Let_def nxt assms(1) pending_def blob_bytes_def ptr_byte_def
          unat_saved_add)
  qed
qed

lemma GetNextLine_delimiter:
  assumes "pData cur = Ptr b off" "b \<noteq> HeaderStart u" "uLength cur \<noteq> 0"
    "split_crlf (pending u g) = None"
    "split_crlf (pending u g @ blob_bytes (hmem g) cur) = Some (l, rest)"
    "length l < HTTP_CORE_MAX_HEADER_LINE_LENGTH"
  shows "\<exists>cur' line g'. HttpCore_GetNextLine u cur g = (1, cur', Some line, g') \<and>
    blob_bytes (hmem g') line = l \<and> blob_bytes (hmem g') cur' = rest \<and> pending u g' = []"
proof (cases "pending u g \<noteq> [] \<and> last (pending u g) = 13 \<and> hmem g b off = 10")
  case True
  let ?s = "uSavedBufferSize (connections g u)"
  have nz: "?s \<noteq> 0" and pos: "0 < unat ?s" using True by (auto simp: pending_Nil unat_gt_0)
  have hd: "blob_bytes (hmem g) cur \<noteq> []" "hd (blob_bytes (hmem g) cur) = 10"
    using True assms(3) hd_blob_bytes [OF assms(1,3), of "hmem g"]
    by (auto simp: blob_bytes_def assms(1) unat_eq_0)
  have lr: "l = butlast (pending u g)" "rest = tl (blob_bytes (hmem g) cur)"
    using assms(5) True hd by (auto simp: split_crlf_append [OF assms(4)])
  have n1: "unat (?s - 1) = unat ?s - 1"
    using nz by (simp add: unat_minus_one)
  have n2: "unat (uLength cur - 1) = unat (uLength cur) - 1"
    using assms(3) by (simp add: unat_minus_one)
  have eq: "HttpCore_GetNextLine u cur g =
    (1, blob_skip cur 1, Some \<lparr>uLength = ?s - 1, pData = Ptr (HeaderStart u) 0\<rparr>,
     conn_upd u (\<lambda>c. c\<lparr>uSavedBufferSize := 0\<rparr>)
       (g\<lparr>hmem := mem_set1 (hmem g) (HeaderStart u) (unat ?s + 1) (hmem g b off)\<rparr>))"
    using True pos last_pending [of u g]
    by (simp add: HttpCore_GetNextLine_def Let_def assms(1) ptr_byte_def)
  have "butlast (pending u g) = mem_read (hmem g) (HeaderStart u) 0 (unat ?s - 1)"
    by (simp add: pending_def butlast_conv_take take_mem_read)
  also have "\<dots> = mem_read (mem_set1 (hmem g) (HeaderStart u) (unat ?s + 1) (hmem g b off))
      (HeaderStart u) 0 (unat ?s - 1)"
    by (rule mem_read_cong) (auto simp: mem_simps)
  finally show ?thesis
    using assms(2) drop_mem_read [of 1 "hmem g" b off "unat (uLength cur)"]
    by (simp add: eq lr blob_bytes_def assms(1) blob_skip_def n1 n2 drop_Suc pending_Nil)
      (simp add: mem_read_def mem_set1_def)
next
  case False
  let ?s = "uSavedBufferSize (connections g u)"
  obtain l0 where l0: "split_crlf (blob_bytes (hmem g) cur) = Some (l0, rest)" "l = pending u g @ l0"
    using assms(5) False hd_blob_bytes [OF assms(1,3), of "hmem g"]
    by (auto simp: split_crlf_append [OF assms(4)] split: if_splits)
  note cut = blob_cut [OF assms(1) l0(1)]
  have nxt: "HttpString_nextDelimiter (hmem g) HTTP_HEADER_DELIMITER cur = Ptr b (off + length l0)"
    by (simp add: nextDelimiter_split [OF assms(1)] l0)
  have len: "unat ?s + length l0 < 320"
    using assms(6) by (simp add: length_pending l0)
  have d: "unat (ptr_diff16 (Ptr b (off + length l0)) (Ptr b off)) = length l0"
    using len by (simp add: ptr_diff16_len)
  have d2: "length HTTP_HEADER_DELIMITER = 2" by (simp add: HTTP_HEADER_DELIMITER_def)
  show ?thesis
  proof (cases "?s = 0")
    case True
    then have "pending u g = []" by (simp add: pending_Nil)
    then show ?thesis
      using True len cut(2,3)
      by (simp add: HttpCore_GetNextLine_def Let_def nxt assms(1) d d2 l0(2))
        (simp add: blob_bytes_def d)
  next
    case False': False
    then have pos: "0 < unat ?s" by (simp add: unat_gt_0)
    let ?m = "memcpy_from (hmem g) (HeaderStart u) (unat ?s) (Ptr b off) (length l0)"
    let ?c = "blob_skip cur (length l0 + 2)"
    have "\<not> (last (pending u g) = 13 \<and> hmem g b off = 10)"
      using False False' pending_Nil [of u g] by simp
    then have eq: "HttpCore_GetNextLine u cur g =
      (1, ?c, Some \<lparr>uLength = ?s + ptr_diff16 (Ptr b (off + length l0)) (Ptr b off),
                     pData = Ptr (HeaderStart u) 0\<rparr>,
       conn_upd u (\<lambda>c. c\<lparr>uSavedBufferSize := 0\<rparr>) (g\<lparr>hmem := ?m\<rparr>))"
      using False' pos len last_pending [of u g] pending_Nil [of u g]
      by (auto simp: HttpCore_GetNextLine_def Let_def nxt assms(1) d d2 ptr_byte_def)
    have "blob_bytes ?m ?c = blob_bytes (hmem g) ?c"
      using assms(2) by (intro blob_bytes_frame memcpy_from_other) (simp add: blob_skip_def assms(1))
    moreover have "mem_read ?m (HeaderStart u) 0 (unat ?s + length l0) = l"
      using pending_append [of g u "length l0" b off] len assms(2) l0(2) cut(2)
      by simp
    ultimately show ?thesis
      using cut(3) len by (simp add: eq pending_Nil blob_bytes_def [of ?m "\<lparr>uLength = _, pData = _\<rparr>"]
          unat_saved_add d)
  qed
qed

definition sample_connection :: "HttpConnectionState \<Rightarrow> u16 \<Rightarrow> HttpConnectionData" where
  "sample_connection st saved =
     \<lparr>connectionState = st, dataSocket = 5,
      request = \<lparr>uFlags = 0, req_uConnection = 0, requestContent = \<lparr>uLength = 0, pData = Null\<rparr>\<rparr>,
      handler = None_handler, uContentLeft = 0, timeout = 0, uSavedBufferSize = saved, HttpAuth = 0\<rparr>"

definition sample_state :: "HttpConnectionState \<Rightarrow> u16 \<Rightarrow> u8 list \<Rightarrow> u8 list \<Rightarrow> unit HttpGlobalState" where
  "sample_state st saved line pkt =
     (boot_state ())\<lparr>hmem := (mem_of [])(HeaderStart 0 := mem_of line (), PacketRecv := mem_of pkt ()),
       listenSocket := 1, uOpenConnections := 1, connections := (\<lambda>_. sample_connection st saved),
       packetRecvSize := int (length pkt)\<rparr>"

text \<open>A line that cannot fit the header buffer never reaches the parser: while the method line
  is expected the call fails, so that the connection is closed; afterwards a line whose end is
  not in the packet is dropped, and the rest of it will be skipped.\<close>

theorem HttpCore_GetNextLine_too_long:
  assumes "pData cur = Ptr b off" "uLength cur \<noteq> 0" "split_crlf (pending u g) = None"
    "split_crlf (pending u g @ blob_bytes (hmem g) cur) = None"
    "HTTP_CORE_MAX_HEADER_LINE_LENGTH \<le> length (pending u g) + unat (uLength cur)"
  shows "HttpCore_GetNextLine u cur g =
    (if conn_state g u = RequestMethod then (-1, cur, None, g)
     else (0, cur, None, conn_upd u (\<lambda>c. c\<lparr>uSavedBufferSize := 0, connectionState := DropCurrentHeader\<rparr>) g))"
proof -
  let ?s = "uSavedBufferSize (connections g u)"
  have none: "split_crlf (blob_bytes (hmem g) cur) = None"
    and nosplit: "\<not> (pending u g \<noteq> [] \<and> last (pending u g) = 13 \<and> hmem g b off = 10)"
    using assms(2,4) hd_blob_bytes [OF assms(1,2), of "hmem g"]
    by (auto simp: split_crlf_append [OF assms(3)] blob_bytes_def assms(1) unat_eq_0 split: if_splits)
  have nxt: "HttpString_nextDelimiter (hmem g) HTTP_HEADER_DELIMITER cur = Null"
    by (simp add: nextDelimiter_split [OF assms(1)] none)
  have len: "\<not> unat ?s + unat (uLength cur) < 320"
    using assms(5) by (simp add: length_pending)
  show ?thesis
  proof (cases "?s = 0")
    case True
    then show ?thesis
      using len by (simp add: HttpCore_GetNextLine_def Let_def nxt assms(1) conn_state_def)
  next
    case False
    then show ?thesis
      using len nosplit last_pending [of u g] pending_Nil [of u g]
      by (auto simp: HttpCore_GetNextLine_def Let_def nxt assms(1) conn_state_def ptr_byte_def unat_gt_0)
  qed
qed

lemma GetNextLine_long_line:
  assumes "pData cur = Ptr b off" "uLength cur \<noteq> 0" "split_crlf (pending u g) = None"
    "length (pending u g) < HTTP_CORE_MAX_HEADER_LINE_LENGTH"
    "split_crlf (pending u g @ blob_bytes (hmem g) cur) = Some (l, rest)"
    "HTTP_CORE_MAX_HEADER_LINE_LENGTH \<le> length l"
  shows "if conn_state g u = RequestMethod then HttpCore_GetNextLine u cur g = (-1, cur, None, g)
    else \<exists>cur' g'. HttpCore_GetNextLine u cur g = (1, cur', Some nullBlob, g') \<and> blob_bytes (hmem g') cur' = rest"
proof -
  let ?s = "uSavedBufferSize (connections g u)"
  have ns: "\<not> (pending u g \<noteq> [] \<and> last (pending u g) = 13 \<and> hmem g b off = 10)"
  proof
    assume a: "pending u g \<noteq> [] \<and> last (pending u g) = 13 \<and> hmem g b off = 10"
    have "blob_bytes (hmem g) cur \<noteq> []"
      using assms(2) by (auto simp: blob_bytes_def assms(1) unat_eq_0)
    then have "l = butlast (pending u g)"
      using a assms(5) hd_blob_bytes [OF assms(1,2), of "hmem g"]
      by (simp add: split_crlf_append [OF assms(3)])
    then have "length l \<le> length (pending u g)" by simp
    with assms(4,6) show False by simp
  qed
  obtain l0 where l0: "split_crlf (blob_bytes (hmem g) cur) = Some (l0, rest)" "l = pending u g @ l0"
    using assms(5) ns hd_blob_bytes [OF assms(1,2), of "hmem g"]
    by (auto simp: split_crlf_append [OF assms(3)] split: if_splits)
  note cut = blob_cut [OF assms(1) l0(1)]
  have l0b: "length l0 < 65536" using cut(1) unat16_bound [of "uLength cur"] by simp
  have nxt: "HttpString_nextDelimiter (hmem g) HTTP_HEADER_DELIMITER cur = Ptr b (off + length l0)"
    by (simp add: nextDelimiter_split [OF assms(1)] l0)
  have d: "unat (ptr_diff16 (Ptr b (off + length l0)) (Ptr b off)) = length l0"
    using l0b by (simp add: ptr_diff16_len)
  have d2: "length HTTP_HEADER_DELIMITER = 2" by (simp add: HTTP_HEADER_DELIMITER_def)
  have len: "\<not> unat ?s + length l0 < 320"
    using assms(6) by (simp add: l0(2) length_pending)
  show ?thesis
  proof (cases "?s = 0")
    case True
    have "blob_bytes (hmem (set_conn_state u DropCurrentHeader g)) (blob_skip cur (length l0 + 2)) = rest"
      using cut(3) by (simp add: set_conn_state_def conn_upd_def)
    with True len show ?thesis
      by (auto simp: HttpCore_GetNextLine_def Let_def nxt assms(1) d d2 ptr_byte_def conn_state_def set_conn_state_def)
  next
    case False
    then have "pending u g \<noteq> []" by (simp add: pending_Nil)
    with False ns len last_pending [OF this] cut(3) show ?thesis
      by (auto simp: HttpCore_GetNextLine_def Let_def nxt assms(1) d d2 ptr_byte_def conn_state_def unat_gt_0)
  qed
qed

text \<open>C21. The line reader refines the reference splitter, for packets of any length and however the
  stream is cut into packets.  Let the input be the bytes kept from earlier packets (fewer than the
  320 bytes of the header buffer, with no delimiter among them) followed by the current packet.  A
  first line of fewer than 320 bytes is returned, with the rest of the packet left to read and nothing
  kept, also when the packet boundary separates the two bytes of the delimiter.  A longer one fails
  the call while the method line is expected and is reported as an empty
  line afterwards, the rest left to read (what was kept of it then stays: HttpCore_GetNextLine_stale_prefix).  Without a delimiter
  the call keeps all the bytes and asks for more if they are fewer than 320; else it fails while the
  method line is expected and drops the line afterwards. (For a delimiter split behind 319 kept bytes the
  line is right, but the code also writes one byte past the header buffer: HttpCore_GetNextLine_overrun.)\<close>

theorem HttpCore_GetNextLine_refines:
  assumes "pData cur = Ptr b off" "b \<noteq> HeaderStart u" "uLength cur \<noteq> 0"
    "split_crlf (pending u g) = None" "length (pending u g) < HTTP_CORE_MAX_HEADER_LINE_LENGTH"
  shows "case split_crlf (pending u g @ blob_bytes (hmem g) cur) of
      None \<Rightarrow>
        if length (pending u g @ blob_bytes (hmem g) cur) < HTTP_CORE_MAX_HEADER_LINE_LENGTH
        then \<exists>g'. HttpCore_GetNextLine u cur g = (0, cur, None, g') \<and>
          pending u g' = pending u g @ blob_bytes (hmem g) cur
        else if conn_state g u = RequestMethod then HttpCore_GetNextLine u cur g = (-1, cur, None, g)
        else \<exists>g'. HttpCore_GetNextLine u cur g = (0, cur, None, g') \<and> pending u g' = [] \<and>
          conn_state g' u = DropCurrentHeader
    | Some (l, rest) \<Rightarrow>
        if length l < HTTP_CORE_MAX_HEADER_LINE_LENGTH
        then \<exists>cur' line g'. HttpCore_GetNextLine u cur g = (1, cur', Some line, g') \<and>
          blob_bytes (hmem g') line = l \<and> blob_bytes (hmem g') cur' = rest \<and> pending u g' = []
        else if conn_state g u = RequestMethod then HttpCore_GetNextLine u cur g = (-1, cur, None, g)
        else \<exists>cur' g'. HttpCore_GetNextLine u cur g = (1, cur', Some nullBlob, g') \<and>
          blob_bytes (hmem g') cur' = rest"
proof (cases "split_crlf (pending u g @ blob_bytes (hmem g) cur)")
  case None
  show ?thesis
  proof (cases "length (pending u g @ blob_bytes (hmem g) cur) < HTTP_CORE_MAX_HEADER_LINE_LENGTH")
    case True
    with GetNextLine_no_delimiter [OF assms(1-4) None True] show ?thesis by (simp add: None)
  next
    case False
    then have "HTTP_CORE_MAX_HEADER_LINE_LENGTH \<le> length (pending u g) + unat (uLength cur)"
      by (simp add: length_blob_bytes [OF assms(1)])
    from HttpCore_GetNextLine_too_long [OF assms(1,3,4) None this] False show ?thesis
      by (simp add: None pending_Nil conn_state_def conn_upd_def del: http_limits)
  qed
next
  case (Some p)
  obtain l rest where p: "p = (l, rest)" by (rule prod.exhaust)
  with Some have s: "split_crlf (pending u g @ blob_bytes (hmem g) cur) = Some (l, rest)" by simp
  show ?thesis
  proof (cases "length l < HTTP_CORE_MAX_HEADER_LINE_LENGTH")
    case True
    with GetNextLine_delimiter [OF assms(1-4) s True] show ?thesis by (simp add: s del: http_limits)
  next
    case False
    then have "HTTP_CORE_MAX_HEADER_LINE_LENGTH \<le> length l" by simp
    from GetNextLine_long_line [OF assms(1,3-5) s this] False show ?thesis
      by (simp add: s del: http_limits)
  qed
qed

theorem HttpCore_GetNextLine_refines_witness:
  "\<exists>cur' line g'.
     HttpCore_GetNextLine 0 \<lparr>uLength = 3, pData = Ptr PacketRecv 0\<rparr>
       (sample_state RequestHeaders 2 [65, 13] [10, 66, 67]) = (1, cur', Some line, g') \<and>
     blob_bytes (hmem g') line = [65] \<and> blob_bytes (hmem g') cur' = [66, 67] \<and> pending 0 g' = []"
  using HttpCore_GetNextLine_refines
    [of "\<lparr>uLength = 3, pData = Ptr PacketRecv 0\<rparr>" PacketRecv 0 0
        "sample_state RequestHeaders 2 [65, 13] [10, 66, 67]"]
  by (simp add: pending_def blob_bytes_def sample_state_def boot_state_def sample_connection_def mem_of_def
      mem_read_def upt_rec)

theorem HttpCore_GetNextLine_too_long_witness:
  "fst (HttpCore_GetNextLine 0 \<lparr>uLength = 400, pData = Ptr PacketRecv 0\<rparr>
     (sample_state RequestMethod 0 [] [])) = -1"
proof -
  let ?g = "sample_state RequestMethod 0 [] []"
  let ?c = "\<lparr>uLength = 400, pData = Ptr PacketRecv 0\<rparr>"
  have p: "pending 0 ?g = []" by (simp add: pending_def sample_state_def boot_state_def sample_connection_def)
  have z: "blob_bytes (hmem ?g) ?c = replicate 400 0"
    by (simp add: blob_bytes_def sample_state_def boot_state_def mem_read_def mem_of_def map_replicate_const)
  have "split_crlf (replicate n 0) = None" for n
  proof (induction n)
    case (Suc n)
    then show ?case by (cases n) auto
  qed simp
  with p z HttpCore_GetNextLine_too_long [of ?c PacketRecv 0 0 ?g] show ?thesis
    by (simp add: conn_state_def sample_state_def boot_state_def sample_connection_def)
qed

text \<open>A line too long for the buffer whose end arrives in a later packet is not dropped cleanly:
  the call reports an empty line but leaves the saved bytes in place, so that they are prepended
  to the line that follows it.\<close>

theorem HttpCore_GetNextLine_stale_prefix:
  assumes "pData cur = Ptr b off" "uLength cur \<noteq> 0" "split_crlf (pending u g) = None"
    "pending u g \<noteq> []" "conn_state g u \<noteq> RequestMethod"
    "split_crlf (pending u g @ blob_bytes (hmem g) cur) = Some (l, rest)"
    "HTTP_CORE_MAX_HEADER_LINE_LENGTH \<le> length l" "length (pending u g) \<le> HTTP_CORE_MAX_HEADER_LINE_LENGTH"
  shows "\<exists>cur'. HttpCore_GetNextLine u cur g = (1, cur', Some nullBlob, g) \<and>
    blob_bytes (hmem g) cur' = rest"
proof -
  let ?s = "uSavedBufferSize (connections g u)"
  have pos: "0 < unat ?s" and nz: "?s \<noteq> 0" using assms(4) by (auto simp: pending_Nil unat_gt_0)
  have ns: "\<not> (last (pending u g) = 13 \<and> hmem g b off = 10)"
  proof
    assume a: "last (pending u g) = 13 \<and> hmem g b off = 10"
    have "blob_bytes (hmem g) cur \<noteq> []"
      using assms(2) by (auto simp: blob_bytes_def assms(1) unat_eq_0)
    then have "l = butlast (pending u g)"
      using a assms(4,6) hd_blob_bytes [OF assms(1,2), of "hmem g"]
      by (simp add: split_crlf_append [OF assms(3)])
    then have "length l = length (pending u g) - 1" by simp
    with assms(4,7,8) show False by simp
  qed
  obtain l0 where l0: "split_crlf (blob_bytes (hmem g) cur) = Some (l0, rest)" "l = pending u g @ l0"
    using assms(6) ns hd_blob_bytes [OF assms(1,2), of "hmem g"]
    by (auto simp: split_crlf_append [OF assms(3)] split: if_splits)
  note cut = blob_cut [OF assms(1) l0(1)]
  have l0b: "length l0 < 65536" using cut(1) unat16_bound [of "uLength cur"] by simp
  have nxt: "HttpString_nextDelimiter (hmem g) HTTP_HEADER_DELIMITER cur = Ptr b (off + length l0)"
    by (simp add: nextDelimiter_split [OF assms(1)] l0)
  have d: "unat (ptr_diff16 (Ptr b (off + length l0)) (Ptr b off)) = length l0"
    using l0b by (simp add: ptr_diff16_len)
  have d2: "length HTTP_HEADER_DELIMITER = 2" by (simp add: HTTP_HEADER_DELIMITER_def)
  have len: "\<not> unat ?s + length l0 < 320"
    using assms(7) by (simp add: l0(2) length_pending)
  have "HttpCore_GetNextLine u cur g = (1, blob_skip cur (length l0 + 2), Some nullBlob, g)"
    using pos len ns last_pending [OF assms(4)] assms(5)
    by (auto simp: HttpCore_GetNextLine_def Let_def nxt assms(1) d d2 ptr_byte_def conn_state_def)
  with cut(3) show ?thesis by blast
qed

lemma split_crlf_plain: "x \<noteq> 13 \<Longrightarrow> split_crlf (replicate n x @ 13 # 10 # r) = Some (replicate n x, r)"
proof (induction n)
  case (Suc n)
  then show ?case by (cases n) auto
qed simp

lemma split_crlf_replicate: "x \<noteq> 13 \<Longrightarrow> split_crlf (replicate n x) = None"
proof (induction n)
  case (Suc n)
  then show ?case by (cases n) auto
qed simp

lemma mem_read_mem_of: "mem_read (\<lambda>b. if b = c then mem_of xs () else f b) c 0 (length xs) = xs"
  by (rule nth_equalityI) (auto simp: nth_mem_read mem_of_def)

theorem HttpCore_GetNextLine_stale_prefix_witness:
  "\<exists>cur'. HttpCore_GetNextLine 0 \<lparr>uLength = 4, pData = Ptr PacketRecv 0\<rparr>
       (sample_state RequestHeaders 319 (replicate 319 65) [65, 13, 10, 66]) =
       (1, cur', Some nullBlob, sample_state RequestHeaders 319 (replicate 319 65) [65, 13, 10, 66]) \<and>
     blob_bytes (hmem (sample_state RequestHeaders 319 (replicate 319 65) [65, 13, 10, 66])) cur' = [66]"
proof (rule HttpCore_GetNextLine_stale_prefix)
  let ?g = "sample_state RequestHeaders 319 (replicate 319 65) [65, 13, 10, 66]"
  let ?c = "\<lparr>uLength = 4, pData = Ptr PacketRecv 0\<rparr>"
  show "pData ?c = Ptr PacketRecv 0" by simp
  have p: "pending 0 ?g = replicate 319 65"
    by (rule nth_equalityI)
      (auto simp: pending_def sample_state_def boot_state_def sample_connection_def nth_mem_read mem_of_def)
  have b: "blob_bytes (hmem ?g) ?c = [65, 13, 10, 66]"
    by (simp add: blob_bytes_def sample_state_def boot_state_def mem_read_def mem_of_def upt_rec)
  show "split_crlf (pending 0 ?g) = None" by (simp only: p) (rule split_crlf_replicate, simp)
  show "pending 0 ?g \<noteq> []" by (simp add: p)
  have "replicate 320 (65::u8) = replicate 319 65 @ replicate 1 65"
    by (subst replicate_add [symmetric]) simp
  then have "replicate 319 65 @ [65, 13, 10, 66] = replicate 320 (65::u8) @ 13 # 10 # [66]"
    by simp
  then show "split_crlf (pending 0 ?g @ blob_bytes (hmem ?g) ?c) = Some (replicate 320 65, [66])"
    by (simp only: p b) (rule split_crlf_plain, simp)
  show "length (pending 0 ?g) \<le> HTTP_CORE_MAX_HEADER_LINE_LENGTH" by (simp add: p)
qed (simp_all add: conn_state_def sample_state_def boot_state_def sample_connection_def)

text \<open>Bounds of the line reader: it writes to the connection's own header buffer only, below
  its 320 bytes except for one possible byte at offset 320, and the number of bytes it keeps
  always stays below the size of the buffer.\<close>

theorem HttpCore_GetNextLine_bounds:
  assumes "unat (uSavedBufferSize (connections g u)) < HTTP_CORE_MAX_HEADER_LINE_LENGTH"
    "HttpCore_GetNextLine u cur g = (r, cur', line, g')"
  shows "unat (uSavedBufferSize (connections g' u)) < HTTP_CORE_MAX_HEADER_LINE_LENGTH \<and>
    (b \<noteq> HeaderStart u \<longrightarrow> hmem g' b i = hmem g b i) \<and>
    (HTTP_CORE_MAX_HEADER_LINE_LENGTH < i \<longrightarrow> hmem g' b i = hmem g b i) \<and>
    (hmem g' b HTTP_CORE_MAX_HEADER_LINE_LENGTH \<noteq> hmem g b HTTP_CORE_MAX_HEADER_LINE_LENGTH \<longrightarrow>
       unat (uSavedBufferSize (connections g u)) = HTTP_CORE_MAX_HEADER_LINE_LENGTH - 1)"
proof -
  have cp: "(b \<noteq> HeaderStart u \<longrightarrow> memcpy_from (hmem g) (HeaderStart u) s p n b i = hmem g b i) \<and>
    (320 \<le> i \<longrightarrow> memcpy_from (hmem g) (HeaderStart u) s p n b i = hmem g b i)"
    if "s + n < 320" for s n p and i :: nat
    using that by (cases p) (auto simp: memcpy_from_def memcpy_def mem_write_def)
  show ?thesis
    using assms cp [where i = i] cp [where i = 320]
    by (auto simp: HttpCore_GetNextLine_def Let_def unat_saved_add mem_set1_apply unat_gt_0
        split: if_splits)
qed

text \<open>The byte past the end is reached: when the buffer holds 319 bytes that end in a carriage
  return and the packet starts with a line feed, the code stores it at offset 320 of a 320-byte
  array.\<close>

theorem HttpCore_GetNextLine_overrun:
  assumes "length (pending u g) = HTTP_CORE_MAX_HEADER_LINE_LENGTH - 1" "last (pending u g) = 13"
    "pData cur = Ptr b off" "hmem g b off = 10"
  shows "hmem (snd (snd (snd (HttpCore_GetNextLine u cur g)))) (HeaderStart u)
    HTTP_CORE_MAX_HEADER_LINE_LENGTH = 10"
proof -
  have "pending u g \<noteq> []" using assms(1) by (auto simp del: length_0_conv)
  from last_pending [OF this] show ?thesis
    using assms by (simp add: HttpCore_GetNextLine_def Let_def ptr_byte_def length_pending mem_set1_apply)
qed

theorem HttpCore_GetNextLine_bounds_witness:
  "unat (uSavedBufferSize (connections (snd (snd (snd
     (HttpCore_GetNextLine 0 \<lparr>uLength = 1, pData = Ptr PacketRecv 0\<rparr>
        (sample_state RequestHeaders 2 [65, 66] [67]))))) 0)) < 320"
proof -
  let ?g = "sample_state RequestHeaders 2 [65, 66] [67]"
  let ?c = "\<lparr>uLength = 1, pData = Ptr PacketRecv 0\<rparr>"
  obtain r cur' line g' where e: "HttpCore_GetNextLine 0 ?c ?g = (r, cur', line, g')"
    by (metis prod_cases4)
  have "unat (uSavedBufferSize (connections ?g 0)) < HTTP_CORE_MAX_HEADER_LINE_LENGTH"
    by (simp add: sample_state_def boot_state_def sample_connection_def)
  from HttpCore_GetNextLine_bounds [OF this e, of PacketRecv 0] show ?thesis by (simp add: e)
qed

theorem HttpCore_GetNextLine_overrun_witness:
  "hmem (snd (snd (snd (HttpCore_GetNextLine 0 \<lparr>uLength = 1, pData = Ptr PacketRecv 0\<rparr>
     (sample_state RequestHeaders 319 (replicate 319 13) [10]))))) (HeaderStart 0) 320 = 10"
proof -
  let ?g = "sample_state RequestHeaders 319 (replicate 319 13) [10]"
  have p: "pending 0 ?g = replicate 319 13"
    by (rule nth_equalityI)
      (auto simp: pending_def sample_state_def boot_state_def sample_connection_def nth_mem_read mem_of_def)
  have "last (replicate 319 (13::u8)) = 13" by simp
  with p HttpCore_GetNextLine_overrun
    [of 0 ?g "\<lparr>uLength = 1, pData = Ptr PacketRecv 0\<rparr>" PacketRecv 0]
  show ?thesis by (simp add: sample_state_def boot_state_def mem_of_def)
qed

section \<open>Request content against the header buffer\<close>

text \<open>
  What the header parser establishes before content is read: content that is not to be ignored
  fits the header buffer together with what is already there.
\<close>

definition content_fits :: "nat \<Rightarrow> 'w HttpGlobalState \<Rightarrow> bool" where
  "content_fits u g \<longleftrightarrow>
     req_has g u HTTP_REQUEST_CONTENT_IGNORED \<or>
     unat (uContentLeft (connections g u)) + unat (uLength (requestContent (request (connections g u))))
       \<le> HTTP_CORE_MAX_HEADER_LINE_LENGTH"

definition received_content :: "nat \<Rightarrow> 'w HttpGlobalState \<Rightarrow> u8 list" where
  "received_content u g = mem_read (hmem g) (HeaderStart u) 0
     (unat (uLength (requestContent (request (connections g u)))))"

text \<open>Request content is accumulated in order: a call takes as many bytes of the packet as the
  request still expects, appends them to the content already in the header buffer, leaves the
  rest of the packet, and reduces what is expected by as much; nothing is written outside the
  320 bytes of the buffer.\<close>

theorem HttpCore_HandleRequestData_appends:
  assumes "content_fits u g" "\<not> req_has g u HTTP_REQUEST_CONTENT_IGNORED"
    "pData blob = Ptr b off" "b \<noteq> HeaderStart u" "uLength blob \<noteq> 0"
    "uContentLeft (connections g u) \<noteq> 0"
    "n = min (unat (uContentLeft (connections g u))) (unat (uLength blob))"
    "HttpCore_HandleRequestData u blob g = (r, blob', g')"
  shows "r = 1 \<and> received_content u g' = received_content u g @ take n (blob_bytes (hmem g) blob) \<and>
    blob_bytes (hmem g') blob' = drop n (blob_bytes (hmem g) blob) \<and>
    unat (uContentLeft (connections g' u)) = unat (uContentLeft (connections g u)) - n \<and>
    content_fits u g' \<and>
    (c \<noteq> HeaderStart u \<or> HTTP_CORE_MAX_HEADER_LINE_LENGTH \<le> i \<longrightarrow> hmem g' c i = hmem g c i)"
proof -
  let ?c = "connections g u" and ?rc = "requestContent (request (connections g u))"
  let ?n = "if uContentLeft ?c > ucast (uLength blob) then ucast (uLength blob) else uContentLeft ?c"
  have n: "unat ?n = n" using assms(7) by (auto simp: word_less_nat_alt)
  have fit: "unat (uContentLeft ?c) + unat (uLength ?rc) \<le> 320"
    using assms(1,2) by (simp add: content_fits_def)
  have nle: "n \<le> unat (uContentLeft ?c)" "n \<le> unat (uLength blob)" "n \<noteq> 0"
    using assms(5-7) by (auto simp: min_def unat_eq_0 unat_gt_0)
  have n16: "unat (ucast ?n :: u16) = n" using fit nle n by (subst unat_ucast_small) auto
  have nz: "?n \<noteq> 0"
  proof
    assume "?n = 0"
    with n have "unat (0::u32) = n" by (simp only:)
    with nle(3) show False by simp
  qed
  let ?m = "memcpy_from (hmem g) (HeaderStart u) (unat (uLength ?rc)) (Ptr b off) n"
  let ?g' = "conn_upd u (\<lambda>c. c\<lparr>uContentLeft := uContentLeft c - ?n,
       request := (request c)\<lparr>requestContent := (requestContent (request c))
         \<lparr>uLength := uLength (requestContent (request c)) + ucast ?n\<rparr>\<rparr>\<rparr>) (g\<lparr>hmem := ?m\<rparr>)"
  have "HttpCore_HandleRequestData u blob g = (1, blob_skip blob n, ?g')"
    using assms(2,3,6) nz n
    by (simp add: HttpCore_HandleRequestData_def Let_def req_has_def del: word_neq_0_conv split del: if_split)
  with assms(8) have e: "r = 1" "blob' = blob_skip blob n" "g' = ?g'" by auto
  have left: "unat (uContentLeft ?c - ?n) = unat (uContentLeft ?c) - n"
    using n nle(1) by (subst unat_sub_le) (auto simp: word_le_nat_alt split del: if_split)
  have len: "unat (uLength ?rc + ucast ?n) = unat (uLength ?rc) + n"
    using n16 fit nle(1) by (subst unat_add_small) (auto split del: if_split)
  have skip: "unat (uLength blob - of_nat n) = unat (uLength blob) - n"
  proof -
    have "unat (of_nat n :: u16) = n"
      using order_le_less_trans [OF nle(2) unat16_bound] by (intro unat_of_nat_small) simp
    with nle(2) show ?thesis by (simp add: unat_sub_le word_le_nat_alt)
  qed
  have cont: "received_content u g' = received_content u g @ take n (blob_bytes (hmem g) blob)"
    using mem_read_write_append [of "hmem g" "HeaderStart u" 0 "unat (uLength ?rc)" "mem_read (hmem g) b off n"]
      nle(2) by (simp add: e(3) received_content_def len memcpy_from_def memcpy_def blob_bytes_def assms(3)
        take_mem_read split del: if_split)
  have blk: "mem_read ?m b = mem_read (hmem g) b"
    using assms(4) by (intro ext) (simp add: mem_read_def memcpy_from_other)
  have rest: "blob_bytes (hmem g') blob' = drop n (blob_bytes (hmem g) blob)"
    by (simp add: e blob_bytes_def blob_skip_def assms(3) skip drop_mem_read blk)
  have frame: "c \<noteq> HeaderStart u \<or> 320 \<le> i \<Longrightarrow> hmem g' c i = hmem g c i"
    using fit nle(1) by (auto simp: e(3) memcpy_from_def memcpy_def mem_write_def)
  have fits: "content_fits u g'"
    using fit nle(1) by (simp add: content_fits_def e(3) left len split del: if_split)
  have left': "unat (uContentLeft (connections g' u)) = unat (uContentLeft ?c) - n"
    by (simp add: e(3) left split del: if_split)
  show ?thesis
    using e(1) cont rest left' fits frame by simp
qed

theorem HttpCore_HandleRequestData_appends_witness:
  "received_content 0 (snd (snd (HttpCore_HandleRequestData 0 \<lparr>uLength = 3, pData = Ptr PacketRecv 0\<rparr>
     (conn_upd 0 (\<lambda>c. c\<lparr>uContentLeft := 2\<rparr>) (sample_state RequestData 0 [] [7, 8, 9]))))) = [7, 8]"
proof -
  let ?g = "conn_upd 0 (\<lambda>c. c\<lparr>uContentLeft := 2\<rparr>) (sample_state RequestData 0 [] [7, 8, 9])"
  let ?b = "\<lparr>uLength = 3, pData = Ptr PacketRecv 0\<rparr>"
  obtain r blob' g' where e: "HttpCore_HandleRequestData 0 ?b ?g = (r, blob', g')"
    by (metis prod_cases3)
  have "content_fits 0 ?g" "\<not> req_has ?g 0 HTTP_REQUEST_CONTENT_IGNORED"
    by (simp_all add: content_fits_def req_has_def has_flag_def sample_state_def boot_state_def sample_connection_def)
  moreover have "pData ?b = Ptr PacketRecv 0" "PacketRecv \<noteq> HeaderStart 0" "uLength ?b \<noteq> 0"
    "uContentLeft (connections ?g 0) \<noteq> 0"
    "2 = min (unat (uContentLeft (connections ?g 0))) (unat (uLength ?b))"
    by simp_all
  ultimately have "received_content 0 g' = received_content 0 ?g @ take 2 (blob_bytes (hmem ?g) ?b)"
    using HttpCore_HandleRequestData_appends e by blast
  also have "received_content 0 ?g = []"
    by (simp add: received_content_def sample_state_def boot_state_def sample_connection_def)
  also have "blob_bytes (hmem ?g) ?b = [7, 8, 9]"
    by (simp add: blob_bytes_def mem_read_def sample_state_def boot_state_def mem_of_def upt_rec)
  finally show ?thesis by (simp add: e)
qed

text \<open>The bound between the content expected, the content held and the buffer is an invariant of
  the content reader, whatever the packet and whether or not the content is ignored.\<close>

theorem HttpCore_HandleRequestData_invariant:
  assumes "content_fits u g" "HttpCore_HandleRequestData u blob g = (r, blob', g')"
  shows "content_fits u g' \<and> (req_has g' u HTTP_REQUEST_CONTENT_IGNORED = req_has g u HTTP_REQUEST_CONTENT_IGNORED)
    \<and> uLength (requestContent (request (connections g' u))) \<ge> uLength (requestContent (request (connections g u)))"
proof -
  let ?c = "connections g u" and ?rc = "requestContent (request (connections g u))"
  let ?n = "if uContentLeft ?c > ucast (uLength blob) then ucast (uLength blob) else uContentLeft ?c"
  have n: "unat ?n \<le> unat (uContentLeft ?c)" by (simp add: unat_min)
  then have n': "?n \<le> uContentLeft ?c" by (simp only: word_le_nat_alt)
  show ?thesis
  proof (cases "uContentLeft ?c = 0 \<or> ?n = 0 \<or> req_has g u HTTP_REQUEST_CONTENT_IGNORED")
    case True
    with assms show ?thesis
      by (auto simp: HttpCore_HandleRequestData_def Let_def content_fits_def conn_defs split: if_splits)
  next
    case False
    with assms(1) have fit: "unat (uContentLeft ?c) + unat (uLength ?rc) \<le> 320"
      by (simp add: content_fits_def)
    have n16: "unat (ucast ?n :: u16) = unat ?n" using n fit by (intro unat_ucast_small) simp
    have len: "unat (uLength ?rc + ucast ?n) = unat (uLength ?rc) + unat ?n"
      using n fit n16 by (subst unat_add_small) (auto split del: if_split)
    have left: "unat (uContentLeft ?c - ?n) = unat (uContentLeft ?c) - unat ?n"
      using n' by (rule unat_sub_le)
    obtain m where "g' = conn_upd u (\<lambda>c. c\<lparr>uContentLeft := uContentLeft c - ?n,
       request := (request c)\<lparr>requestContent := (requestContent (request c))
         \<lparr>uLength := uLength (requestContent (request c)) + ucast ?n\<rparr>\<rparr>\<rparr>) (g\<lparr>hmem := m\<rparr>)"
      using assms(2) False
      by (auto simp: HttpCore_HandleRequestData_def Let_def req_has_def split del: if_split)
    with n fit len left show ?thesis
      by (simp add: content_fits_def req_has_def word_le_nat_alt split del: if_split)
  qed
qed

theorem HttpCore_HandleRequestData_invariant_witness:
  "content_fits 0 (snd (snd (HttpCore_HandleRequestData 0 \<lparr>uLength = 3, pData = Ptr PacketRecv 0\<rparr>
     (conn_upd 0 (\<lambda>c. c\<lparr>uContentLeft := 320\<rparr>) (sample_state RequestData 0 [] [7, 8, 9])))))"
proof -
  let ?g = "conn_upd 0 (\<lambda>c. c\<lparr>uContentLeft := 320\<rparr>) (sample_state RequestData 0 [] [7, 8, 9])"
  let ?b = "\<lparr>uLength = 3, pData = Ptr PacketRecv 0\<rparr>"
  obtain r blob' g' where e: "HttpCore_HandleRequestData 0 ?b ?g = (r, blob', g')"
    by (metis prod_cases3)
  have "content_fits 0 ?g" by (simp add: content_fits_def sample_state_def boot_state_def sample_connection_def)
  from HttpCore_HandleRequestData_invariant [OF this e] show ?thesis by (simp add: e)
qed

end
