(* ===== verification/Http_Response.thy ===== *)
theory Http_Response
  imports Http_Line
begin

text \<open>
  The response side of \<open>netapps/http/server/HttpCore.c\<close>: the packet sender
  \<open>HttpCore_SendPacket\<close>, the routines that build a response in the packet-send buffer
  (\<open>HttpResponse_Add...\<close>), \<open>HttpStatusString\<close>, \<open>HttpResponse_Headers\<close>, \<open>HttpResponse_Content\<close> and
  the canned responses.  \<open>HttpAssert\<close> of a false condition never returns: such a call is \<open>None\<close>,
  as is a send loop that does not end.  A routine that copies from a pointer takes the bytes it
  copies.  Authentication is off, as in \<open>HttpConfig.h\<close>.
\<close>

section \<open>Constants\<close>

definition HTTP_STATUS_OK :: u16 where "HTTP_STATUS_OK = 200"
definition HTTP_STATUS_REDIRECT_PERMANENT :: u16 where "HTTP_STATUS_REDIRECT_PERMANENT = 301"
definition HTTP_STATUS_REDIRECT_TEMPORARY :: u16 where "HTTP_STATUS_REDIRECT_TEMPORARY = 302"
definition HTTP_STATUS_ERROR_UNAUTHORIZED :: u16 where "HTTP_STATUS_ERROR_UNAUTHORIZED = 401"
definition HTTP_STATUS_ERROR_NOT_FOUND :: u16 where "HTTP_STATUS_ERROR_NOT_FOUND = 404"
definition HTTP_STATUS_ERROR_NOT_ACCEPTED :: u16 where "HTTP_STATUS_ERROR_NOT_ACCEPTED = 406"
definition HTTP_STATUS_ERROR_INTERNAL :: u16 where "HTTP_STATUS_ERROR_INTERNAL = 500"
definition HTTP_RESPONSE_FLAG_COMPRESSED :: u16 where "HTTP_RESPONSE_FLAG_COMPRESSED = 1"

lemmas http_statuses [simp] =
  HTTP_STATUS_OK_def HTTP_STATUS_REDIRECT_PERMANENT_def HTTP_STATUS_REDIRECT_TEMPORARY_def
  HTTP_STATUS_ERROR_UNAUTHORIZED_def HTTP_STATUS_ERROR_NOT_FOUND_def
  HTTP_STATUS_ERROR_NOT_ACCEPTED_def HTTP_STATUS_ERROR_INTERNAL_def

text \<open>\<open>HttpBlobSetConst\<close>: a blob over a constant string; \<open>lits_ok\<close> says the constants are in memory.\<close>

definition lit_blob :: "u8 list \<Rightarrow> hblob" where
  "lit_blob bs = \<lparr>uLength = of_nat (length bs), pData = Ptr (Lit bs) 0\<rparr>"

definition lits_ok :: "http_block mem \<Rightarrow> bool" where
  "lits_ok m \<longleftrightarrow> (\<forall>bs i. i < length bs \<longrightarrow> m (Lit bs) i = bs ! i)"

definition HttpAssert :: "bool \<Rightarrow> unit option" where
  "HttpAssert b = (if b then Some () else None)"

section \<open>Sending a packet\<close>

definition send_chunk ::
  "'w sl_ops \<Rightarrow> nat \<Rightarrow> hblob \<Rightarrow> nat \<Rightarrow> 'w HttpGlobalState \<Rightarrow> (int \<times> 'w HttpGlobalState) option" where
  "send_chunk ops u buffer n g =
     (let g1 = (if pData buffer \<noteq> Ptr PacketSend 0
                then g\<lparr>hmem := memcpy_from (hmem g) PacketSend 0 (pData buffer) n\<rparr> else g)
      in do {
        (sent, w') \<leftarrow> ClientSocketSend ops (dataSocket (connections g1 u))
                        (mem_read (hmem g1) PacketSend 0 n) (world g1);
        Some (sent, g1\<lparr>world := w'\<rparr>)
      })"

partial_function (option) HttpCore_SendPacket ::
  "'w sl_ops \<Rightarrow> nat \<Rightarrow> hblob \<Rightarrow> 'w HttpGlobalState \<Rightarrow> (int \<times> 'w HttpGlobalState) option" where
  "HttpCore_SendPacket ops u buffer g =
     (if unat (uLength buffer) > 0 then
        if unat (uLength buffer) > HTTP_CORE_MAX_PACKET_SIZE_SEND then do {
          HttpAssert (pData buffer \<noteq> Ptr PacketSend 0);
          (sent, g1) \<leftarrow> send_chunk ops u buffer HTTP_CORE_MAX_PACKET_SIZE_SEND g;
          if sent \<le> 0 then Some (0, g1)
          else HttpCore_SendPacket ops u (blob_skip buffer (nat sent)) g1
        }
        else do {
          (sent, g1) \<leftarrow> send_chunk ops u buffer (unat (uLength buffer)) g;
          if sent \<le> 0 then Some (0, g1)
          else HttpCore_SendPacket ops u (blob_skip buffer (nat sent)) g1
        }
      else Some (1, g))"

section \<open>Building a response in the packet-send buffer\<close>

definition HttpResponse_AddCharToResponseHeaders :: "u8 \<Rightarrow> 'w HttpGlobalState \<Rightarrow> 'w HttpGlobalState" where
  "HttpResponse_AddCharToResponseHeaders ch g =
     g\<lparr>hmem := mem_set1 (hmem g) PacketSend (unat (packetSendSize g)) ch,
       packetSendSize := packetSendSize g + 1\<rparr>"

definition HttpResponse_AddNumberToResponseHeaders :: "u32 \<Rightarrow> 'w HttpGlobalState \<Rightarrow> 'w HttpGlobalState" where
  "HttpResponse_AddNumberToResponseHeaders num g =
     (let (resource, m') = HttpString_utoa (hmem g) num
            \<lparr>uLength = 0, pData = Ptr PacketSend (unat (packetSendSize g))\<rparr>
      in g\<lparr>hmem := m', packetSendSize := packetSendSize g + uLength resource\<rparr>)"

definition HttpResponse_AddStringToResponseHeaders :: "u8 list \<Rightarrow> 'w HttpGlobalState \<Rightarrow> 'w HttpGlobalState" where
  "HttpResponse_AddStringToResponseHeaders s g =
     g\<lparr>hmem := mem_write (hmem g) PacketSend (unat (packetSendSize g)) s,
       packetSendSize := packetSendSize g + of_nat (length s)\<rparr>"

definition HttpResponse_AddHeaderLine :: "u8 list \<Rightarrow> u8 list \<Rightarrow> 'w HttpGlobalState \<Rightarrow> 'w HttpGlobalState" where
  "HttpResponse_AddHeaderLine name value g =
     (let g1 = HttpResponse_AddStringToResponseHeaders name g;
          g2 = HttpResponse_AddCharToResponseHeaders 58 g1;
          g3 = HttpResponse_AddCharToResponseHeaders 32 g2;
          g4 = HttpResponse_AddStringToResponseHeaders value g3
      in HttpResponse_AddStringToResponseHeaders HTTP_HEADER_DELIMITER g4)"

definition HttpResponse_AddHeaderLineNumValue :: "u8 list \<Rightarrow> u32 \<Rightarrow> 'w HttpGlobalState \<Rightarrow> 'w HttpGlobalState" where
  "HttpResponse_AddHeaderLineNumValue name value g =
     (let g1 = HttpResponse_AddStringToResponseHeaders name g;
          g2 = HttpResponse_AddCharToResponseHeaders 58 g1;
          g3 = HttpResponse_AddCharToResponseHeaders 32 g2;
          g4 = HttpResponse_AddNumberToResponseHeaders value g3
      in HttpResponse_AddStringToResponseHeaders HTTP_HEADER_DELIMITER g4)"

definition HttpStatusString :: "u16 \<Rightarrow> u8 list option" where
  "HttpStatusString st =
     (if st = HTTP_STATUS_OK then Some (str ''ok'')
      else if st = HTTP_STATUS_REDIRECT_PERMANENT then Some (str ''moved permanently'')
      else if st = HTTP_STATUS_REDIRECT_TEMPORARY then Some (str ''moved temporarily'')
      else if st = HTTP_STATUS_ERROR_UNAUTHORIZED then Some (str ''unauthorized'')
      else if st = HTTP_STATUS_ERROR_NOT_FOUND then Some (str ''not found'')
      else if st = HTTP_STATUS_ERROR_NOT_ACCEPTED then Some (str ''not accepted'')
      else if st = HTTP_STATUS_ERROR_INTERNAL then Some (str ''internal server error'')
      else None)"

definition HttpResponse_Headers ::
  "'w sl_ops \<Rightarrow> nat \<Rightarrow> u16 \<Rightarrow> u16 \<Rightarrow> u32 \<Rightarrow> hblob \<Rightarrow> hblob \<Rightarrow> 'w HttpGlobalState
     \<Rightarrow> (int \<times> 'w HttpGlobalState) option" where
  "HttpResponse_Headers ops u uHttpStatus flags uContentLength contentType location g = do {
     HttpAssert (packetSendSize g = 0);
     HttpAssert (conn_state g u = Processing);
     status \<leftarrow> HttpStatusString uHttpStatus;
     let g1 = HttpResponse_AddStringToResponseHeaders
                (if req_has g u HTTP_REQUEST_1_1 then HTTP_VERSION_1P1 else HTTP_VERSION_1P0) g;
         g2 = HttpResponse_AddCharToResponseHeaders 32 g1;
         g3 = HttpResponse_AddNumberToResponseHeaders (ucast uHttpStatus) g2;
         g4 = HttpResponse_AddCharToResponseHeaders 32 g3;
         g5 = HttpResponse_AddStringToResponseHeaders status g4;
         g6 = HttpResponse_AddStringToResponseHeaders HTTP_HEADER_DELIMITER g5;
         g7 = (if pData contentType \<noteq> Null \<and> uLength contentType > 0
               then HttpResponse_AddHeaderLine HTTP_CONTENT_TYPE (blob_bytes (hmem g6) contentType) g6
               else g6);
         g8 = (if uContentLength > 0
               then HttpResponse_AddHeaderLineNumValue HTTP_CONTENT_LENGTH uContentLength g7 else g7);
         g9 = conn_upd u (\<lambda>c. c\<lparr>uContentLeft := uContentLength\<rparr>) g8;
         g10 = (if has_flag flags HTTP_RESPONSE_FLAG_COMPRESSED
                then HttpResponse_AddHeaderLine HTTP_CONTENT_ENCODING HTTP_GZIP g9 else g9);
         g11 = (if pData location \<noteq> Null \<and> uLength location > 0
                then HttpResponse_AddHeaderLine HTTP_LOCATION (blob_bytes (hmem g10) location) g10
                else g10);
         g12 = HttpResponse_AddStringToResponseHeaders HTTP_HEADER_DELIMITER g11
     in do {
       (r, g13) \<leftarrow> HttpCore_SendPacket ops u \<lparr>uLength = packetSendSize g12, pData = Ptr PacketSend 0\<rparr> g12;
       if r = 0 then Some (0, g13)
       else Some (1, set_conn_state u (if uContentLength > 0 then ResponseData else ResponseComplete)
                       (g13\<lparr>packetSendSize := 0\<rparr>))
     }
   }"

definition HttpResponse_GetPacketSendBuffer :: "'w HttpGlobalState \<Rightarrow> hblob" where
  "HttpResponse_GetPacketSendBuffer g = \<lparr>uLength = packetSendSize g, pData = Ptr PacketSend 0\<rparr>"

definition HttpResponse_Content ::
  "'w sl_ops \<Rightarrow> nat \<Rightarrow> hblob \<Rightarrow> 'w HttpGlobalState \<Rightarrow> (int \<times> 'w HttpGlobalState) option" where
  "HttpResponse_Content ops u content g = do {
     HttpAssert (conn_state g u = ResponseData);
     HttpAssert (uContentLeft (connections g u) \<ge> ucast (uLength content));
     (r, g1) \<leftarrow> HttpCore_SendPacket ops u content g;
     if r = 0 then Some (0, g1)
     else let g2 = conn_upd u (\<lambda>c. c\<lparr>uContentLeft := uContentLeft c - ucast (uLength content)\<rparr>) g1
          in Some (1, if uContentLeft (connections g2 u) = 0
                      then set_conn_state u ResponseComplete g2 else g2)
   }"

definition HttpResponse_CannedRedirect ::
  "'w sl_ops \<Rightarrow> nat \<Rightarrow> hblob \<Rightarrow> u16 \<Rightarrow> 'w HttpGlobalState \<Rightarrow> (int \<times> 'w HttpGlobalState) option" where
  "HttpResponse_CannedRedirect ops u location bPermanent g =
     (let st = (if bPermanent = 1 then HTTP_STATUS_REDIRECT_PERMANENT else HTTP_STATUS_REDIRECT_TEMPORARY)
      in do {
        status \<leftarrow> HttpStatusString st;
        (r, g1) \<leftarrow> HttpResponse_Headers ops u st 0 0 nullBlob location g;
        Some (if r = 0 then 0 else 1, g1)
      })"

definition HttpResponse_CannedError ::
  "'w sl_ops \<Rightarrow> nat \<Rightarrow> u16 \<Rightarrow> 'w HttpGlobalState \<Rightarrow> (int \<times> 'w HttpGlobalState) option" where
  "HttpResponse_CannedError ops u uHttpStatus g = do {
     s \<leftarrow> HttpStatusString uHttpStatus;
     let status = lit_blob s in do {
       (r, g1) \<leftarrow> HttpResponse_Headers ops u uHttpStatus 0 (ucast (uLength status)) nullBlob nullBlob g;
       if r = 0 then Some (0, g1)
       else do {
         (r2, g2) \<leftarrow> HttpResponse_Content ops u status g1;
         Some (if r2 = 0 then 0 else 1, g2)
       }
     }
   }"

definition WS_SendPacket ::
  "'w sl_ops \<Rightarrow> nat \<Rightarrow> 'w HttpGlobalState \<Rightarrow> (int \<times> 'w HttpGlobalState) option" where
  "WS_SendPacket ops u g = do {
     (retval, g1) \<leftarrow> HttpCore_SendPacket ops u \<lparr>uLength = packetSendSize g, pData = Ptr PacketSend 0\<rparr> g;
     Some (retval, set_conn_state u WebSocketDataRecv (g1\<lparr>packetSendSize := 0\<rparr>))
   }"

section \<open>The send loop\<close>

lemma mem_read_block: "m b = m' b \<Longrightarrow> mem_read m b = mem_read m' b"
  by (intro ext) (simp add: mem_read_def)

text \<open>The states agree on everything but the memory and the world.\<close>

definition same_rest :: "'w HttpGlobalState \<Rightarrow> 'w HttpGlobalState \<Rightarrow> bool" where
  "same_rest g g' \<longleftrightarrow> connections g' = connections g \<and> listenSocket g' = listenSocket g \<and>
     uOpenConnections g' = uOpenConnections g \<and> packetRecvSize g' = packetRecvSize g \<and>
     packetSendSize g' = packetSendSize g \<and> glFileHandle g' = glFileHandle g \<and>
     g_RestContent g' = g_RestContent g \<and> g_NumResource g' = g_NumResource g \<and> ws g' = ws g \<and>
     heap_next g' = heap_next g \<and> heap_size g' = heap_size g"

lemma same_rest_trans: "same_rest g g1 \<Longrightarrow> same_rest g1 g2 \<Longrightarrow> same_rest g g2"
  by (simp add: same_rest_def)

lemma send_chunk_result:
  assumes "send_chunk ops u buffer n g = Some (s, g1)" "pData buffer = Ptr b off"
    "b \<noteq> PacketSend \<or> off = 0"
  shows "s = -1 \<or> s = int n \<and> 0 < s"
    and "send_contract ops sent \<Longrightarrow> 0 < s \<Longrightarrow>
      sent (world g1) = sent (world g) @ map (Pair (dataSocket (connections g u))) (mem_read (hmem g) b off n)"
    and "c \<noteq> PacketSend \<Longrightarrow> hmem g1 c = hmem g c"
    and "same_rest g g1"
proof -
  let ?m = "if pData buffer \<noteq> Ptr PacketSend 0 then memcpy_from (hmem g) PacketSend 0 (pData buffer) n
            else hmem g"
  have src: "mem_read ?m PacketSend 0 n = mem_read (hmem g) b off n"
    using assms(2,3) mem_read_write [of "hmem g" PacketSend 0 "mem_read (hmem g) b off n"]
    by (auto simp: memcpy_from_def memcpy_def)
  obtain w' where c: "ClientSocketSend ops (dataSocket (connections g u)) (mem_read (hmem g) b off n) (world g) = Some (s, w')"
    and g1: "g1 = g\<lparr>hmem := ?m, world := w'\<rparr>"
    using assms(1) src
    by (auto simp: send_chunk_def Let_def split: if_splits Option.bind_splits)
  show "s = -1 \<or> s = int n \<and> 0 < s" using ClientSocketSend_result [OF c] by simp
  show "0 < s \<Longrightarrow> sent (world g1) = sent (world g) @
      map (Pair (dataSocket (connections g u))) (mem_read (hmem g) b off n)" if "send_contract ops sent"
    using ClientSocketSend_sent [OF c that] by (simp add: g1)
  show "c \<noteq> PacketSend \<Longrightarrow> hmem g1 c = hmem g c" by (simp add: g1 memcpy_from_other)
  show "same_rest g g1" by (simp add: g1 same_rest_def)
qed

text \<open>
  One iteration: a chunk of \<open>chunk_len\<close> bytes is sent, then the loop goes on with the rest.
\<close>

definition chunk_len :: "hblob \<Rightarrow> nat" where
  "chunk_len buffer = min (unat (uLength buffer)) HTTP_CORE_MAX_PACKET_SIZE_SEND"

lemma SendPacket_step:
  assumes "uLength buffer \<noteq> 0"
    "unat (uLength buffer) \<le> HTTP_CORE_MAX_PACKET_SIZE_SEND \<or> pData buffer \<noteq> Ptr PacketSend 0"
  shows "HttpCore_SendPacket ops u buffer g = do {
     (s, g1) \<leftarrow> send_chunk ops u buffer (chunk_len buffer) g;
     if s \<le> 0 then Some (0, g1) else HttpCore_SendPacket ops u (blob_skip buffer (nat s)) g1 }"
  using assms
  by (subst HttpCore_SendPacket.simps) (auto simp: chunk_len_def HttpAssert_def unat_gt_0)

lemma SendPacket_end: "uLength buffer = 0 \<Longrightarrow> HttpCore_SendPacket ops u buffer g = Some (1, g)"
  by (subst HttpCore_SendPacket.simps) simp

lemma blob_skip_len:
  "n \<le> unat (uLength buffer) \<Longrightarrow> unat (uLength (blob_skip buffer n)) = unat (uLength buffer) - n"
proof -
  assume le: "n \<le> unat (uLength buffer)"
  have "unat (of_nat n :: u16) = n"
    using order_le_less_trans [OF le unat16_bound] by (intro unat_of_nat_small) simp
  with le show ?thesis by (simp add: blob_skip_def unat_sub_le word_le_nat_alt)
qed

text \<open>Where a buffer handed to \<open>HttpCore_SendPacket\<close> may lie.\<close>

definition sendable :: "hblob \<Rightarrow> http_block \<Rightarrow> nat \<Rightarrow> bool" where
  "sendable buffer b off \<longleftrightarrow> pData buffer = Ptr b off \<and>
     (b \<noteq> PacketSend \<or> off = 0 \<and> unat (uLength buffer) \<le> HTTP_CORE_MAX_PACKET_SIZE_SEND \<or>
      uLength buffer = 0)"

lemma sendable_skip:
  "sendable buffer b off \<Longrightarrow> n = chunk_len buffer \<Longrightarrow>
   sendable (blob_skip buffer n) b (off + n) \<and>
   unat (uLength (blob_skip buffer n)) = unat (uLength buffer) - n"
  using blob_skip_len [of n buffer]
  by (auto simp: sendable_def chunk_len_def blob_skip_def unat_eq_0)

lemma SendPacket_result:
  assumes "sendable buffer b off" "HttpCore_SendPacket ops u buffer g = Some (r, g')"
  shows "(r = 0 \<or> r = 1) \<and>
    (send_contract ops sent \<longrightarrow> r = 1 \<longrightarrow> sent (world g') = sent (world g) @
       map (Pair (dataSocket (connections g u))) (blob_bytes (hmem g) buffer)) \<and>
    (\<forall>c. c \<noteq> PacketSend \<longrightarrow> hmem g' c = hmem g c) \<and> same_rest g g'"
  using assms
proof (induction "unat (uLength buffer)" arbitrary: buffer off g rule: less_induct)
  case less
  let ?n = "chunk_len buffer"
  show ?case
  proof (cases "uLength buffer = 0")
    case True
    with less.prems show ?thesis by (auto simp: SendPacket_end sendable_def blob_bytes_def same_rest_def)
  next
    case False
    with less.prems(1) have p: "pData buffer = Ptr b off" "b \<noteq> PacketSend \<or> off = 0"
      and pre: "unat (uLength buffer) \<le> HTTP_CORE_MAX_PACKET_SIZE_SEND \<or> pData buffer \<noteq> Ptr PacketSend 0"
      by (auto simp: sendable_def)
    obtain s g1 where c: "send_chunk ops u buffer ?n g = Some (s, g1)"
      and k: "(if s \<le> 0 then Some (0, g1) else HttpCore_SendPacket ops u (blob_skip buffer (nat s)) g1)
              = Some (r, g')"
      by (rule bind_pair_SomeE [OF less.prems(2) [unfolded SendPacket_step [OF False pre]]])
    note res = send_chunk_result [OF c p]
    show ?thesis
    proof (cases "0 < s")
      case False
      with k res(3,4) show ?thesis by auto
    next
      case True
      with res(1) have s: "nat s = ?n" "0 < ?n" by auto
      let ?b = "blob_skip buffer ?n"
      have sk: "sendable ?b b (off + ?n)" "unat (uLength ?b) = unat (uLength buffer) - ?n"
        using sendable_skip [OF less.prems(1) refl] by auto
      have lt: "unat (uLength ?b) < unat (uLength buffer)"
        using sk(2) s(2) False by (simp add: unat_gt_0)
      have k': "HttpCore_SendPacket ops u ?b g1 = Some (r, g')" using k True s by simp
      note IH = less.hyps [OF lt sk(1) k']
      have le: "?n \<le> unat (uLength buffer)" by (simp add: chunk_len_def)
      have eq: "blob_bytes (hmem g1) ?b = drop ?n (blob_bytes (hmem g) buffer)"
      proof (cases "b = PacketSend")
        case True
        with less.prems(1) have "?n = unat (uLength buffer)"
          by (auto simp: sendable_def chunk_len_def)
        with sk(2) show ?thesis by (simp add: blob_bytes_def blob_skip_def p(1))
      next
        case False
        with res(3) [of b] have "mem_read (hmem g1) b = mem_read (hmem g) b"
          by (intro mem_read_block) simp
        with sk(2) show ?thesis by (simp add: blob_bytes_def blob_skip_def p(1) drop_mem_read)
      qed
      have tk: "mem_read (hmem g) b off ?n = take ?n (blob_bytes (hmem g) buffer)"
        using le by (simp add: blob_bytes_def p(1) take_mem_read)
      have conn: "connections g1 = connections g" using res(4) by (simp add: same_rest_def)
      have "sent (world g') = sent (world g) @
         map (Pair (dataSocket (connections g u))) (blob_bytes (hmem g) buffer)"
        if "send_contract ops sent" "r = 1"
        using IH res(2) [OF that(1) True] that
        by (simp add: tk eq conn map_append [symmetric] del: map_append)
      moreover have "hmem g' c = hmem g c" if "c \<noteq> PacketSend" for c
        using IH res(3) that by simp
      moreover have "same_rest g g'" using IH res(4) same_rest_trans by blast
      ultimately show ?thesis using IH by blast
    qed
  qed
qed

lemma SendPacket_returns_aux:
  assumes "sendable buffer b off"
    "send_progress ops rank"
  shows "\<exists>r g'. HttpCore_SendPacket ops u buffer g = Some (r, g')"
proof -
  have ret: "\<exists>r w'. ClientSocketSend ops sd buf w = Some (r, w')" for sd buf w
    using assms(2) by (rule ClientSocketSend_returns_aux)
  show ?thesis
  using assms(1)
proof (induction "unat (uLength buffer)" arbitrary: buffer off g rule: less_induct)
  case less
  show ?case
  proof (cases "uLength buffer = 0")
    case True
    then show ?thesis by (simp add: SendPacket_end)
  next
    case False
    with less.prems have p: "pData buffer = Ptr b off" "b \<noteq> PacketSend \<or> off = 0"
      and pre: "unat (uLength buffer) \<le> HTTP_CORE_MAX_PACKET_SIZE_SEND \<or> pData buffer \<noteq> Ptr PacketSend 0"
      by (auto simp: sendable_def)
    let ?n = "chunk_len buffer"
    let ?g1 = "if pData buffer \<noteq> Ptr PacketSend 0
      then g\<lparr>hmem := memcpy_from (hmem g) PacketSend 0 (pData buffer) ?n\<rparr> else g"
    obtain s w' where "ClientSocketSend ops (dataSocket (connections ?g1 u))
        (mem_read (hmem ?g1) PacketSend 0 ?n) (world ?g1) = Some (s, w')"
      using ret by blast
    then have "send_chunk ops u buffer ?n g = Some (s, ?g1\<lparr>world := w'\<rparr>)"
      by (simp add: send_chunk_def Let_def split del: if_split)
    then obtain s g1 where c: "send_chunk ops u buffer ?n g = Some (s, g1)" by blast
    note st = SendPacket_step [OF False pre, of ops u g]
    show ?thesis
    proof (cases "0 < s")
      case False
      then show ?thesis by (simp add: st c)
    next
      case True
      with send_chunk_result(1) [OF c p] have s: "nat s = ?n" "0 < ?n" by auto
      have sk: "sendable (blob_skip buffer ?n) b (off + ?n)"
        "unat (uLength (blob_skip buffer ?n)) = unat (uLength buffer) - ?n"
        using sendable_skip [OF less.prems refl] by auto
      have "unat (uLength (blob_skip buffer ?n)) < unat (uLength buffer)"
        using sk(2) s(2) False by (simp add: unat_gt_0)
      from less.hyps [OF this sk(1), of g1] True s show ?thesis by (simp add: st c)
    qed
  qed
qed
qed

text \<open>A socket that takes every buffer whole; over one, the packet sender reports success.\<close>

definition send_accepts :: "'w sl_ops \<Rightarrow> bool" where
  "send_accepts ops \<longleftrightarrow> (\<forall>sd buf w. buf \<noteq> [] \<longrightarrow> fst (sl_Send ops sd buf w) = int (length buf))"

lemma send_chunk_accepts:
  assumes "send_accepts ops" "0 < n" "send_chunk ops u buffer n g = Some (s, g1)"
  shows "s = int n"
proof -
  have "ClientSocketSend ops sd buf w = Some (int (length buf), snd (sl_Send ops sd buf w))" if "buf \<noteq> []" for sd buf w
    using assms(1) that by (subst ClientSocketSend.simps) (simp add: send_accepts_def split_def Let_def)
  moreover have "mem_read m PacketSend 0 n \<noteq> []" for m :: "http_block mem"
    using assms(2) by (metis length_mem_read less_numeral_extra(3) list.size(3))
  ultimately show ?thesis using assms(3) by (auto simp: send_chunk_def Let_def split: if_splits)
qed

lemma SendPacket_accepts:
  assumes "send_accepts ops" "sendable buffer b off" "HttpCore_SendPacket ops u buffer g = Some (r, g')"
  shows "r = 1"
  using assms(2,3)
proof (induction "unat (uLength buffer)" arbitrary: buffer off g rule: less_induct)
  case less
  let ?n = "chunk_len buffer"
  show ?case
  proof (cases "uLength buffer = 0")
    case True
    with less.prems show ?thesis by (simp add: SendPacket_end)
  next
    case False
    with less.prems(1)
    have pre: "unat (uLength buffer) \<le> HTTP_CORE_MAX_PACKET_SIZE_SEND \<or> pData buffer \<noteq> Ptr PacketSend 0"
      by (auto simp: sendable_def)
    have n: "0 < ?n" using False by (simp add: chunk_len_def unat_gt_0)
    obtain s g1 where c: "send_chunk ops u buffer ?n g = Some (s, g1)"
      and k: "(if s \<le> 0 then Some (0, g1) else HttpCore_SendPacket ops u (blob_skip buffer (nat s)) g1)
              = Some (r, g')"
      by (rule bind_pair_SomeE [OF less.prems(2) [unfolded SendPacket_step [OF False pre]]])
    have k': "HttpCore_SendPacket ops u (blob_skip buffer ?n) g1 = Some (r, g')"
      using k n send_chunk_accepts [OF assms(1) n c] by simp
    have sk: "sendable (blob_skip buffer ?n) b (off + ?n)"
      "unat (uLength (blob_skip buffer ?n)) = unat (uLength buffer) - ?n"
      using sendable_skip [OF less.prems(1) refl] by auto
    have "unat (uLength (blob_skip buffer ?n)) < unat (uLength buffer)"
      using sk(2) n False by (simp add: unat_gt_0)
    from less.hyps [OF this sk(1) k'] show ?thesis .
  qed
qed

section \<open>The packet-send buffer as a byte string\<close>

text \<open>The decimal representation \<open>HttpString_utoa\<close> writes.\<close>

definition decimal :: "nat \<Rightarrow> u8 list" where
  "decimal n = digit_bytes (if n = 0 then [0] else radix 10 n)"

lemma length_decimal: "n < 10 ^ k \<Longrightarrow> 0 < k \<Longrightarrow> length (decimal n) \<le> k"
  by (auto simp: decimal_def digit_bytes_def length_radix_le)

lemma length_decimal_32: "length (decimal (unat (n::u32))) \<le> 10"
  by (rule length_decimal) (simp_all add: order_less_trans [OF unat32_bound])

lemma utoa_decimal:
  assumes "pData blob = Ptr b off"
  shows "HttpString_utoa m n blob =
    (blob\<lparr>uLength := of_nat (length (decimal (unat n)))\<rparr>, mem_write m b off (decimal (unat n)))"
proof (cases "n = 0")
  case True
  have "decimal 0 = [48]" by (simp add: decimal_def digit_bytes_def nth_digits)
  then show ?thesis
    using True assms by (auto simp: HttpString_utoa_def fun_eq_iff mem_set1_apply mem_write_def)
next
  case False
  let ?ds = "radix 10 (unat n)"
  have d: "decimal (unat n) = digit_bytes ?ds" using False by (simp add: decimal_def unat_eq_0)
  have "utoa_fmt m b (off + length ?ds) (unat n) c j = mem_write m b off (digit_bytes ?ds) c j" for c j
  proof (cases "c = b \<and> off \<le> j \<and> j < off + length ?ds")
    case True
    have "mem_read (utoa_fmt m b (off + length ?ds) (unat n)) b off (length ?ds) = digit_bytes ?ds"
      using utoa_fmt_digits [of "unat n" "off + length ?ds" m b] by simp
    then have "mem_read (utoa_fmt m b (off + length ?ds) (unat n)) b off (length ?ds) ! (j - off)
      = digit_bytes ?ds ! (j - off)" by simp
    with True show ?thesis by (auto simp: nth_mem_read mem_write_def digit_bytes_def)
  next
    case False
    have "utoa_fmt m b (off + length ?ds) (unat n) c j = m c j"
      by (rule utoa_fmt_frame) (use False in auto)
    with False show ?thesis by (auto simp: mem_write_def digit_bytes_def)
  qed
  then have "utoa_fmt m b (off + length ?ds) (unat n) = mem_write m b off (digit_bytes ?ds)"
    by (intro ext)
  then show ?thesis
    using False assms by (simp add: HttpString_utoa_def Let_def utoa_count_radix d digit_bytes_def)
qed

text \<open>Every routine that builds the response appends a byte string.\<close>

abbreviation add_bytes :: "u8 list \<Rightarrow> 'w HttpGlobalState \<Rightarrow> 'w HttpGlobalState" where
  "add_bytes \<equiv> HttpResponse_AddStringToResponseHeaders"

lemma mem_write_append:
  "mem_write (mem_write m b i xs) b (i + length xs) ys = mem_write m b i (xs @ ys)"
  by (auto simp: mem_write_def fun_eq_iff nth_append)

lemma add_bytes_Nil: "add_bytes [] g = g"
  by (simp add: HttpResponse_AddStringToResponseHeaders_def)

lemma add_bytes_add_bytes:
  assumes "unat (packetSendSize g) + length xs < 65536"
  shows "add_bytes ys (add_bytes xs g) = add_bytes (xs @ ys) g"
proof -
  have "unat (of_nat (length xs) :: u16) = length xs"
    using assms by (intro unat_of_nat_small) simp
  then have "unat (packetSendSize g + of_nat (length xs)) = unat (packetSendSize g) + length xs"
    using assms by (subst unat_add_small) auto
  then show ?thesis
    by (simp add: HttpResponse_AddStringToResponseHeaders_def mem_write_append add.assoc)
qed

lemma add_char_bytes: "HttpResponse_AddCharToResponseHeaders ch g = add_bytes [ch] g"
  by (auto simp: HttpResponse_AddCharToResponseHeaders_def HttpResponse_AddStringToResponseHeaders_def
      mem_set1_def mem_write_def fun_eq_iff)

lemma add_number_bytes: "HttpResponse_AddNumberToResponseHeaders n g = add_bytes (decimal (unat n)) g"
  by (simp add: HttpResponse_AddNumberToResponseHeaders_def utoa_decimal
      HttpResponse_AddStringToResponseHeaders_def)

lemma add_bytes_frame [simp]:
  "connections (add_bytes xs g) = connections g" "world (add_bytes xs g) = world g"
  "listenSocket (add_bytes xs g) = listenSocket g" "uOpenConnections (add_bytes xs g) = uOpenConnections g"
  "packetRecvSize (add_bytes xs g) = packetRecvSize g"
  by (simp_all add: HttpResponse_AddStringToResponseHeaders_def)

lemma add_bytes_other [simp]: "c \<noteq> PacketSend \<Longrightarrow> hmem (add_bytes xs g) c = hmem g c"
  by (simp add: HttpResponse_AddStringToResponseHeaders_def mem_write_other)

lemma add_bytes_size: "packetSendSize (add_bytes xs g) = packetSendSize g + of_nat (length xs)"
  by (simp add: HttpResponse_AddStringToResponseHeaders_def)

section \<open>The text of a response\<close>

definition header_line :: "u8 list \<Rightarrow> u8 list \<Rightarrow> u8 list" where
  "header_line name value = name @ [58, 32] @ value @ HTTP_HEADER_DELIMITER"

definition status_line :: "bool \<Rightarrow> u16 \<Rightarrow> u8 list \<Rightarrow> u8 list" where
  "status_line v11 st reason =
     (if v11 then HTTP_VERSION_1P1 else HTTP_VERSION_1P0) @ [32] @ decimal (unat st) @ [32] @ reason
       @ HTTP_HEADER_DELIMITER"

definition opt_line :: "u8 list \<Rightarrow> u8 list \<Rightarrow> u8 list" where
  "opt_line name value = (if value = [] then [] else header_line name value)"

definition response_text :: "bool \<Rightarrow> u16 \<Rightarrow> u8 list \<Rightarrow> u8 list \<Rightarrow> u32 \<Rightarrow> bool \<Rightarrow> u8 list \<Rightarrow> u8 list" where
  "response_text v11 st reason ctype clen gzip loc =
     status_line v11 st reason @ opt_line HTTP_CONTENT_TYPE ctype
       @ (if clen > 0 then header_line HTTP_CONTENT_LENGTH (decimal (unat clen)) else [])
       @ (if gzip then header_line HTTP_CONTENT_ENCODING HTTP_GZIP else [])
       @ opt_line HTTP_LOCATION loc @ HTTP_HEADER_DELIMITER"

lemma add_header_line:
  "unat (packetSendSize g) + length (header_line name value) < 65536 \<Longrightarrow>
   HttpResponse_AddHeaderLine name value g = add_bytes (header_line name value) g"
  by (simp add: HttpResponse_AddHeaderLine_def Let_def add_char_bytes add_bytes_add_bytes header_line_def)

lemma add_header_line_num:
  "unat (packetSendSize g) + length (header_line name (decimal (unat n))) < 65536 \<Longrightarrow>
   HttpResponse_AddHeaderLineNumValue name n g = add_bytes (header_line name (decimal (unat n))) g"
  by (simp add: HttpResponse_AddHeaderLineNumValue_def Let_def add_char_bytes add_number_bytes
      add_bytes_add_bytes header_line_def)

lemma add_bytes_size_small:
  "packetSendSize g = 0 \<Longrightarrow> length xs < 65536 \<Longrightarrow> unat (packetSendSize (add_bytes xs g)) = length xs"
  by (simp add: add_bytes_size unat_of_nat_small)

lemma add_bytes_conn_upd: "conn_upd u f (add_bytes xs g) = add_bytes xs (conn_upd u f g)"
  by (simp add: conn_upd_def HttpResponse_AddStringToResponseHeaders_def)

lemma blob_bytes_eq_Nil: "blob_bytes m bl = [] \<longleftrightarrow> pData bl = Null \<or> uLength bl = 0"
  by (cases "pData bl") (auto simp: blob_bytes_def unat_eq_0)

text \<open>A blob whose bytes are not in the packet-send buffer.\<close>

definition outside_send :: "hblob \<Rightarrow> bool" where
  "outside_send bl \<longleftrightarrow> (\<forall>i. pData bl \<noteq> Ptr PacketSend i)"

lemma blob_bytes_add_bytes [simp]:
  "outside_send bl \<Longrightarrow> blob_bytes (hmem (add_bytes xs g)) bl = blob_bytes (hmem g) bl"
  by (rule blob_bytes_frame) (auto simp: outside_send_def)

lemma Headers_builds:
  assumes "packetSendSize g = 0" "conn_state g u = Processing" "HttpStatusString st = Some reason"
    "outside_send ct" "outside_send loc"
    "text = response_text (req_has g u HTTP_REQUEST_1_1) st reason (blob_bytes (hmem g) ct) clen
       (has_flag flags HTTP_RESPONSE_FLAG_COMPRESSED) (blob_bytes (hmem g) loc)"
    "length text < 65536"
  shows "HttpResponse_Headers ops u st flags clen ct loc g = do {
     (r, g1) \<leftarrow> HttpCore_SendPacket ops u \<lparr>uLength = of_nat (length text), pData = Ptr PacketSend 0\<rparr>
                 (add_bytes text (conn_upd u (\<lambda>c. c\<lparr>uContentLeft := clen\<rparr>) g));
     if r = 0 then Some (0, g1)
     else Some (1, set_conn_state u (if clen > 0 then ResponseData else ResponseComplete)
                     (g1\<lparr>packetSendSize := 0\<rparr>)) }"
proof -
  let ?p1 = "status_line (req_has g u HTTP_REQUEST_1_1) st reason"
  let ?p2 = "opt_line HTTP_CONTENT_TYPE (blob_bytes (hmem g) ct)"
  let ?p3 = "if clen > 0 then header_line HTTP_CONTENT_LENGTH (decimal (unat clen)) else []"
  let ?p4 = "if has_flag flags HTTP_RESPONSE_FLAG_COMPRESSED then header_line HTTP_CONTENT_ENCODING HTTP_GZIP else []"
  let ?p5 = "opt_line HTTP_LOCATION (blob_bytes (hmem g) loc)"
  let ?gu = "conn_upd u (\<lambda>c. c\<lparr>uContentLeft := clen\<rparr>) g"
  have len: "length ?p1 + length ?p2 + length ?p3 + length ?p4 + length ?p5 + 2 < 65536"
    using assms(6,7) by (simp add: response_text_def HTTP_HEADER_DELIMITER_def add.assoc split del: if_split)
  have gu0: "packetSendSize ?gu = 0" by (simp add: assms(1))
  have s1: "add_bytes HTTP_HEADER_DELIMITER (add_bytes reason (HttpResponse_AddCharToResponseHeaders 32
      (HttpResponse_AddNumberToResponseHeaders (ucast st) (HttpResponse_AddCharToResponseHeaders 32
      (add_bytes (if req_has g u HTTP_REQUEST_1_1 then HTTP_VERSION_1P1 else HTTP_VERSION_1P0) g)))))
    = add_bytes ?p1 g"
    using len assms(1)
    by (simp add: add_char_bytes add_number_bytes add_bytes_add_bytes status_line_def split del: if_split)
  have s2: "(if pData ct \<noteq> Null \<and> uLength ct > 0
      then HttpResponse_AddHeaderLine HTTP_CONTENT_TYPE (blob_bytes (hmem (add_bytes ?p1 g)) ct) (add_bytes ?p1 g)
      else add_bytes ?p1 g) = add_bytes (?p1 @ ?p2) g"
    using len assms(1,4) blob_bytes_eq_Nil [of "hmem g" ct]
    by (auto simp: opt_line_def add_header_line add_bytes_size_small add_bytes_add_bytes word_gt_0)
  have s3: "(if clen > 0 then HttpResponse_AddHeaderLineNumValue HTTP_CONTENT_LENGTH clen (add_bytes (?p1 @ ?p2) g)
      else add_bytes (?p1 @ ?p2) g) = add_bytes (?p1 @ ?p2 @ ?p3) g"
    using len assms(1)
    by (cases "clen > 0") (simp_all add: add_header_line_num add_bytes_size_small add_bytes_add_bytes)
  have s4: "(if has_flag flags HTTP_RESPONSE_FLAG_COMPRESSED
      then HttpResponse_AddHeaderLine HTTP_CONTENT_ENCODING HTTP_GZIP (add_bytes (?p1 @ ?p2 @ ?p3) ?gu)
      else add_bytes (?p1 @ ?p2 @ ?p3) ?gu) = add_bytes (?p1 @ ?p2 @ ?p3 @ ?p4) ?gu"
    using len gu0
    by (cases "has_flag flags HTTP_RESPONSE_FLAG_COMPRESSED")
      (simp_all add: add_header_line add_bytes_size_small add_bytes_add_bytes split del: if_split)
  have s5: "(if pData loc \<noteq> Null \<and> uLength loc > 0
      then HttpResponse_AddHeaderLine HTTP_LOCATION
             (blob_bytes (hmem (add_bytes (?p1 @ ?p2 @ ?p3 @ ?p4) ?gu)) loc) (add_bytes (?p1 @ ?p2 @ ?p3 @ ?p4) ?gu)
      else add_bytes (?p1 @ ?p2 @ ?p3 @ ?p4) ?gu) = add_bytes (?p1 @ ?p2 @ ?p3 @ ?p4 @ ?p5) ?gu"
  proof (cases "blob_bytes (hmem g) loc = []")
    case True
    then show ?thesis using blob_bytes_eq_Nil [of "hmem g" loc] by (auto simp: opt_line_def)
  next
    case False
    then have "pData loc \<noteq> Null \<and> uLength loc > 0"
      using blob_bytes_eq_Nil [of "hmem g" loc] by (auto simp: word_gt_0)
    with False show ?thesis
      using len gu0 assms(5)
      by (simp add: opt_line_def add_header_line add_bytes_size_small add_bytes_add_bytes split del: if_split)
  qed
  have s6: "add_bytes HTTP_HEADER_DELIMITER (add_bytes (?p1 @ ?p2 @ ?p3 @ ?p4 @ ?p5) ?gu) = add_bytes text ?gu"
    using len gu0
    by (simp add: add_bytes_add_bytes assms(6) response_text_def split del: if_split)
  have s7: "packetSendSize (add_bytes text ?gu) = of_nat (length text)"
    by (simp add: add_bytes_size assms(1))
  show ?thesis
    unfolding HttpResponse_Headers_def assms(1-3) HttpAssert_def Let_def s1
    by (simp only: s1 s2 s3 add_bytes_conn_upd s4 s5 s6 s7 option.simps bind.simps refl if_True simp_thms)
qed

lemma blob_of_add_bytes:
  assumes "packetSendSize g = 0" "length text < 65536"
  shows "blob_bytes (hmem (add_bytes text g)) \<lparr>uLength = of_nat (length text), pData = Ptr PacketSend 0\<rparr> = text"
proof -
  have "unat (of_nat (length text) :: u16) = length text"
    using assms(2) by (intro unat_of_nat_small) simp
  then show ?thesis
    by (simp add: blob_bytes_def HttpResponse_AddStringToResponseHeaders_def assms(1) mem_read_write)
qed

lemma Headers_result:
  assumes "send_contract ops sent" "packetSendSize g = 0" "conn_state g u = Processing"
    "HttpStatusString st = Some reason" "outside_send ct" "outside_send loc"
    "text = response_text (req_has g u HTTP_REQUEST_1_1) st reason (blob_bytes (hmem g) ct) clen
       (has_flag flags HTTP_RESPONSE_FLAG_COMPRESSED) (blob_bytes (hmem g) loc)"
    "length text \<le> HTTP_CORE_MAX_PACKET_SIZE_SEND"
    "HttpResponse_Headers ops u st flags clen ct loc g = Some (r, g')"
  shows "(r = 0 \<or> r = 1 \<and>
      sent (world g') = sent (world g) @ map (Pair (dataSocket (connections g u))) text \<and>
      packetSendSize g' = 0 \<and>
      conn_state g' u = (if clen > 0 then ResponseData else ResponseComplete)) \<and>
    (r = 0 \<longrightarrow> packetSendSize g' = of_nat (length text) \<and> conn_state g' u = Processing) \<and>
    (send_accepts ops \<longrightarrow> r = 1) \<and>
    uContentLeft (connections g' u) = clen \<and> dataSocket (connections g' u) = dataSocket (connections g u) \<and>
    request (connections g' u) = request (connections g u) \<and>
    (\<forall>v. v \<noteq> u \<longrightarrow> connections g' v = connections g v) \<and> (\<forall>c. c \<noteq> PacketSend \<longrightarrow> hmem g' c = hmem g c)"
proof -
  let ?gu = "conn_upd u (\<lambda>c. c\<lparr>uContentLeft := clen\<rparr>) g"
  let ?b = "\<lparr>uLength = of_nat (length text), pData = Ptr PacketSend 0\<rparr>"
  have len: "length text < 65536" using assms(8) by simp
  obtain r1 g1 where s: "HttpCore_SendPacket ops u ?b (add_bytes text ?gu) = Some (r1, g1)"
    and k: "(if r1 = 0 then Some (0, g1)
      else Some (1, set_conn_state u (if clen > 0 then ResponseData else ResponseComplete)
                      (g1\<lparr>packetSendSize := 0\<rparr>))) = Some (r, g')"
    by (rule bind_pair_SomeE [OF assms(9) [unfolded Headers_builds [OF assms(2-7) len]]])
  have sz: "unat (of_nat (length text) :: u16) = length text"
    using len by (intro unat_of_nat_small) simp
  have sb: "sendable ?b PacketSend 0" using assms(8) sz by (simp add: sendable_def)
  have acc: "r1 = 1" if "send_accepts ops" using that sb s by (rule SendPacket_accepts)
  from SendPacket_result [OF sb s, of sent]
  have r1: "r1 = 0 \<or> r1 = 1" and rest: "same_rest (add_bytes text ?gu) g1"
    and mem: "\<forall>c. c \<noteq> PacketSend \<longrightarrow> hmem g1 c = hmem g c"
    and out: "r1 = 1 \<Longrightarrow> sent (world g1) = sent (world g) @ map (Pair (dataSocket (connections g u))) text"
    using assms(1,2) blob_of_add_bytes [of ?gu "text"] len by (auto simp: conn_upd_def)
  from rest have c: "connections g1 = connections ?gu" by (simp add: same_rest_def)
  show ?thesis
  proof (cases "r1 = 0")
    case True
    with k have "r = 0" "g' = g1" by auto
    moreover have "\<not> send_accepts ops" using True acc by auto
    moreover have "packetSendSize g1 = of_nat (length text)"
      using rest assms(2) by (simp add: same_rest_def add_bytes_size)
    moreover have "conn_state g1 u = Processing" using assms(3) by (simp add: c conn_defs)
    ultimately show ?thesis using mem by (simp add: c)
  next
    case False
    with r1 have "r1 = 1" by simp
    with k mem out show ?thesis by (auto simp: c conn_defs split del: if_split)
  qed
qed

lemma Headers_returns:
  assumes "packetSendSize g = 0" "conn_state g u = Processing" "HttpStatusString st = Some reason"
    "outside_send ct" "outside_send loc"
    "text = response_text (req_has g u HTTP_REQUEST_1_1) st reason (blob_bytes (hmem g) ct) clen
       (has_flag flags HTTP_RESPONSE_FLAG_COMPRESSED) (blob_bytes (hmem g) loc)"
    "length text \<le> HTTP_CORE_MAX_PACKET_SIZE_SEND"
    "send_progress ops rank"
  shows "\<exists>r g'. HttpResponse_Headers ops u st flags clen ct loc g = Some (r, g')"
proof -
  have len: "length text < 65536" using assms(7) by simp
  have "unat (of_nat (length text) :: u16) = length text"
    using len by (intro unat_of_nat_small) simp
  then have "sendable \<lparr>uLength = of_nat (length text), pData = Ptr PacketSend 0\<rparr> PacketSend 0"
    using assms(7) by (simp add: sendable_def)
  from SendPacket_returns_aux [OF this assms(8)]
  obtain r1 g1 where "HttpCore_SendPacket ops u \<lparr>uLength = of_nat (length text), pData = Ptr PacketSend 0\<rparr>
      (add_bytes text (conn_upd u (\<lambda>c. c\<lparr>uContentLeft := clen\<rparr>) g)) = Some (r1, g1)"
    by blast
  then show ?thesis unfolding Headers_builds [OF assms(1-6) len] by auto
qed

lemma Content_result:
  assumes "send_contract ops sent" "sendable content b off" "uContentLeft (connections g u) \<noteq> 0"
    "HttpResponse_Content ops u content g = Some (r, g')"
  shows "conn_state g u = ResponseData \<and> ucast (uLength content) \<le> uContentLeft (connections g u) \<and>
    (r = 0 \<or> r = 1 \<and>
      sent (world g') = sent (world g) @ map (Pair (dataSocket (connections g u))) (blob_bytes (hmem g) content) \<and>
      uContentLeft (connections g' u) = uContentLeft (connections g u) - ucast (uLength content) \<and>
      conn_state g' u = (if uContentLeft (connections g' u) = 0 then ResponseComplete else ResponseData)) \<and>
    (send_accepts ops \<longrightarrow> r = 1) \<and>
    dataSocket (connections g' u) = dataSocket (connections g u) \<and>
    packetSendSize g' = packetSendSize g \<and> glFileHandle g' = glFileHandle g \<and> heap_next g' = heap_next g \<and>
    (\<forall>v. v \<noteq> u \<longrightarrow> connections g' v = connections g v) \<and> (\<forall>c. c \<noteq> PacketSend \<longrightarrow> hmem g' c = hmem g c)"
proof -
  have st: "conn_state g u = ResponseData" and le: "ucast (uLength content) \<le> uContentLeft (connections g u)"
    using assms(4) by (auto simp: HttpResponse_Content_def HttpAssert_def split: if_splits)
  from assms(4) st le obtain r1 g1 where sp: "HttpCore_SendPacket ops u content g = Some (r1, g1)"
    and k: "(if r1 = 0 then Some (0, g1)
          else let g2 = conn_upd u (\<lambda>c. c\<lparr>uContentLeft := uContentLeft c - ucast (uLength content)\<rparr>) g1
            in Some (1, if uContentLeft (connections g2 u) = 0
                      then set_conn_state u ResponseComplete g2 else g2)) = Some (r, g')"
    by (auto simp: HttpResponse_Content_def HttpAssert_def elim!: bind_pair_SomeE)
  note spr = SendPacket_result [OF assms(2) sp, of sent]
  have acc: "r1 = 1" if "send_accepts ops" using that assms(2) sp by (rule SendPacket_accepts)
  show ?thesis
  proof (cases "r1 = 0")
    case True
    with k have "r = 0" "g' = g1" by auto
    with spr st le acc True show ?thesis by (auto simp: same_rest_def)
  next
    case False
    with spr have "r1 = 1" by simp
    with spr assms(1,3) k st le show ?thesis
      by (auto simp: same_rest_def conn_defs Let_def split: if_splits)
  qed
qed

lemma Content_returns:
  assumes "send_progress ops rank" "sendable cont b off" "conn_state g u = ResponseData"
    "ucast (uLength cont) \<le> uContentLeft (connections g u)"
  shows "\<exists>r g'. HttpResponse_Content ops u cont g = Some (r, g')"
proof -
  obtain r1 g1 where "HttpCore_SendPacket ops u cont g = Some (r1, g1)"
    using SendPacket_returns_aux [OF assms(2,1)] by blast
  with assms(3,4) show ?thesis by (simp add: HttpResponse_Content_def HttpAssert_def Let_def)
qed

lemma canned_facts:
  assumes "HttpStatusString st = Some reason"
  shows "unat (of_nat (length reason) :: u16) = length reason"
    and "ucast (uLength (lit_blob reason)) = (of_nat (length reason) :: u32)"
    and "(of_nat (length reason) :: u32) > 0"
    and "length (response_text v st reason [] (of_nat (length reason)) False []) \<le> HTTP_CORE_MAX_PACKET_SIZE_SEND"
proof -
  let ?sb = "lit_blob reason"
  have lr: "0 < length reason" "length reason \<le> 21"
    using assms by (auto simp: HttpStatusString_def str_def split: if_splits)
  have sz16: "unat (of_nat (length reason) :: u16) = length reason"
    using lr by (intro unat_of_nat_small) simp
  have sz32: "unat (of_nat (length reason) :: u32) = length reason"
    using lr by (intro unat_of_nat_small) simp
  have clen: "ucast (uLength ?sb) = (of_nat (length reason) :: u32)"
    by (rule word_unat_eq_iff [THEN iffD2]) (simp add: lit_blob_def sz16 sz32)
  let ?t = "response_text v st reason [] (of_nat (length reason)) False []"
  have "length (decimal (unat st)) \<le> 5"
    by (rule length_decimal) (simp_all add: order_less_trans [OF unat16_bound])
  then have t: "length ?t \<le> HTTP_CORE_MAX_PACKET_SIZE_SEND"
    using lr length_decimal_32 [of "of_nat (length reason)"]
    by (cases "(of_nat (length reason) :: u32) > 0")
      (simp_all add: response_text_def status_line_def opt_line_def header_line_def http_strings)
  have "(of_nat (length reason) :: u32) > 0" using lr sz32 by (metis unat_gt_0 word_gt_0)
  with sz16 clen t show
    "unat (of_nat (length reason) :: u16) = length reason"
    "ucast (uLength (lit_blob reason)) = (of_nat (length reason) :: u32)"
    "(of_nat (length reason) :: u32) > 0"
    "length ?t \<le> HTTP_CORE_MAX_PACKET_SIZE_SEND" by simp_all
qed

lemma lit_blob_bytes:
  assumes "lits_ok (hmem g)" "\<forall>c. c \<noteq> PacketSend \<longrightarrow> hmem g1 c = hmem g c"
    "unat (of_nat (length bs) :: u16) = length bs"
  shows "blob_bytes (hmem g1) (lit_blob bs) = bs"
  using assms by (auto simp: blob_bytes_def lit_blob_def lits_ok_def nth_mem_read intro!: nth_equalityI)

lemma sendable_lit: "sendable (lit_blob bs) (Lit bs) 0"
  by (simp add: sendable_def lit_blob_def)

lemma nullBlob_facts: "blob_bytes m nullBlob = []" "outside_send nullBlob"
  by (simp_all add: blob_bytes_def nullBlob_def outside_send_def)

lemma CannedError_step:
  assumes "HttpStatusString st = Some reason"
  shows "HttpResponse_CannedError ops u st g = do {
     (r, g1) \<leftarrow> HttpResponse_Headers ops u st 0 (of_nat (length reason)) nullBlob nullBlob g;
     if r = 0 then Some (0, g1) else do {
       (r2, g2) \<leftarrow> HttpResponse_Content ops u (lit_blob reason) g1;
       Some (if r2 = 0 then 0 else 1, g2) } }"
  by (simp add: HttpResponse_CannedError_def assms Let_def canned_facts(2) [OF assms])

section \<open>Properties\<close>

text \<open>The packet sender delivers the buffer: whatever its length, the loop cuts it into chunks
  of at most 1000 bytes and, when it reports success, has handed exactly the bytes of the buffer
  to the socket, in order; no memory but the packet-send buffer changes.\<close>

theorem HttpCore_SendPacket_delivers:
  assumes "send_contract ops sent" "sendable buffer b off"
    "HttpCore_SendPacket ops u buffer g = Some (r, g')"
  shows "(r = 0 \<or> r = 1 \<and> sent (world g') = sent (world g) @
      map (Pair (dataSocket (connections g u))) (blob_bytes (hmem g) buffer)) \<and>
    connections g' = connections g \<and> packetSendSize g' = packetSendSize g \<and>
    (c = PacketSend \<or> hmem g' c = hmem g c)"
  using SendPacket_result [OF assms(2,3), of sent] assms(1) by (auto simp: same_rest_def)

text \<open>The packet sender ends: if only finitely many \<open>SL_EAGAIN\<close> answers can follow a world, it
  returns a result for every buffer that is not a packet-send buffer beyond its size.\<close>

theorem HttpCore_SendPacket_returns:
  assumes "sendable buffer b off"
    "send_progress ops rank"
  shows "\<exists>r g'. HttpCore_SendPacket ops u buffer g = Some (r, g')"
  using assms by (rule SendPacket_returns_aux)

text \<open>C22. A response header on the wire: from an empty send buffer and for every known status, content
  type, content length, compression flag and location whose text fits the packet-send buffer, a call
  that succeeds has sent the status line and the header lines of the reference text, each once, in
  order, ended by an empty line; the connection then waits for the content if there is any and is
  complete otherwise, and the send buffer is empty again.  The call succeeds over a socket that takes
  every buffer whole; after a failed send the text stays in the send buffer and the connection stays
  in the processing state.\<close>

theorem HttpResponse_Headers_sends:
  assumes "send_contract ops sent" "packetSendSize g = 0" "conn_state g u = Processing"
    "HttpStatusString st = Some reason" "outside_send ct" "outside_send loc"
    "text = response_text (req_has g u HTTP_REQUEST_1_1) st reason (blob_bytes (hmem g) ct) clen
       (has_flag flags HTTP_RESPONSE_FLAG_COMPRESSED) (blob_bytes (hmem g) loc)"
    "length text \<le> HTTP_CORE_MAX_PACKET_SIZE_SEND"
    "HttpResponse_Headers ops u st flags clen ct loc g = Some (r, g')"
  shows "(r = 0 \<or> r = 1 \<and>
      sent (world g') = sent (world g) @ map (Pair (dataSocket (connections g u))) text \<and>
      packetSendSize g' = 0 \<and>
      conn_state g' u = (if clen > 0 then ResponseData else ResponseComplete)) \<and>
    (r = 0 \<longrightarrow> packetSendSize g' = of_nat (length text) \<and> conn_state g' u = Processing) \<and>
    (send_accepts ops \<longrightarrow> r = 1) \<and> uContentLeft (connections g' u) = clen"
  using Headers_result [OF assms] by blast

text \<open>A response header that does not fit the packet-send buffer is not sent in pieces: the
  bytes are written past the 1000 bytes of the buffer, and the server then stops for ever in the
  assertion of the packet sender.\<close>

theorem HttpResponse_Headers_too_long:
  assumes "packetSendSize g = 0" "conn_state g u = Processing"
    "HttpStatusString st = Some reason" "outside_send ct" "outside_send loc"
    "text = response_text (req_has g u HTTP_REQUEST_1_1) st reason (blob_bytes (hmem g) ct) clen
       (has_flag flags HTTP_RESPONSE_FLAG_COMPRESSED) (blob_bytes (hmem g) loc)"
    "HTTP_CORE_MAX_PACKET_SIZE_SEND < length text" "length text < 65536"
  shows "HttpResponse_Headers ops u st flags clen ct loc g = None"
proof -
  have sz: "unat (of_nat (length text) :: u16) = length text"
    using assms(8) by (intro unat_of_nat_small) simp
  show ?thesis
    unfolding Headers_builds [OF assms(1-6,8)]
    using assms(7) by (subst HttpCore_SendPacket.simps) (auto simp: sz HttpAssert_def)
qed

text \<open>A canned error response: for each error status whose reason the server knows, when the
  call succeeds the bytes sent are the header text with the length of the reason as content
  length, followed by the reason as the content, and the transaction is complete.\<close>

theorem HttpResponse_CannedError_sends:
  assumes "send_contract ops sent" "packetSendSize g = 0" "conn_state g u = Processing"
    "HttpStatusString st = Some reason" "lits_ok (hmem g)"
    "HttpResponse_CannedError ops u st g = Some (r, g')"
  shows "(r = 0 \<or> r = 1 \<and> sent (world g') = sent (world g) @ map (Pair (dataSocket (connections g u)))
      (response_text (req_has g u HTTP_REQUEST_1_1) st reason [] (of_nat (length reason)) False [] @ reason) \<and>
    packetSendSize g' = 0 \<and> conn_state g' u = ResponseComplete) \<and> (send_accepts ops \<longrightarrow> r = 1)"
proof -
  let ?sb = "lit_blob reason"
  let ?t = "response_text (req_has g u HTTP_REQUEST_1_1) st reason [] (of_nat (length reason)) False []"
  note cf = canned_facts [OF assms(4)]
  obtain r1 g1 where h: "HttpResponse_Headers ops u st 0 (of_nat (length reason)) nullBlob nullBlob g = Some (r1, g1)"
    and k: "(if r1 = 0 then Some (0, g1) else do {
          (r2, g2) \<leftarrow> HttpResponse_Content ops u ?sb g1;
          Some (if r2 = 0 then 0 else 1, g2) }) = Some (r, g')"
    by (rule bind_pair_SomeE [OF assms(6) [unfolded CannedError_step [OF assms(4)]]])
  have "?t = response_text (req_has g u HTTP_REQUEST_1_1) st reason (blob_bytes (hmem g) nullBlob)
      (of_nat (length reason)) (has_flag 0 HTTP_RESPONSE_FLAG_COMPRESSED) (blob_bytes (hmem g) nullBlob)"
    by (simp add: nullBlob_facts has_flag_def)
  note res = Headers_result [OF assms(1-4) nullBlob_facts(2) nullBlob_facts(2) this cf(4) h]
  show ?thesis
  proof (cases "r1 = 0")
    case True
    with k res show ?thesis by auto
  next
    case False
    with k obtain r2 g2 where c: "HttpResponse_Content ops u ?sb g1 = Some (r2, g2)"
      and r: "r = (if r2 = 0 then 0 else 1)" "g' = g2"
      by (auto elim!: bind_pair_SomeE)
    from res False cf(3) have st1: "conn_state g1 u = ResponseData" and s1: "packetSendSize g1 = 0" by auto
    have left: "uContentLeft (connections g1 u) = of_nat (length reason)" using res by simp
    then have nz: "uContentLeft (connections g1 u) \<noteq> 0" using cf(3) by (simp add: word_gt_0)
    have body: "blob_bytes (hmem g1) ?sb = reason"
      using lit_blob_bytes [OF assms(5) _ cf(1)] res by blast
    from Content_result [OF assms(1) sendable_lit nz c] show ?thesis
      using res False r body s1 cf(2) left by auto
  qed
qed

lemma CannedError_returns:
  assumes "send_contract ops sent" "send_progress ops rank" "packetSendSize g = 0"
    "conn_state g u = Processing" "HttpStatusString st = Some reason"
  shows "\<exists>r g'. HttpResponse_CannedError ops u st g = Some (r, g')"
proof -
  note cf = canned_facts [OF assms(5)]
  let ?t = "response_text (req_has g u HTTP_REQUEST_1_1) st reason [] (of_nat (length reason)) False []"
  have t: "?t = response_text (req_has g u HTTP_REQUEST_1_1) st reason (blob_bytes (hmem g) nullBlob)
      (of_nat (length reason)) (has_flag 0 HTTP_RESPONSE_FLAG_COMPRESSED) (blob_bytes (hmem g) nullBlob)"
    by (simp add: nullBlob_facts has_flag_def)
  obtain r1 g1 where h: "HttpResponse_Headers ops u st 0 (of_nat (length reason)) nullBlob nullBlob g = Some (r1, g1)"
    using Headers_returns [OF assms(3-5) nullBlob_facts(2) nullBlob_facts(2) t cf(4) assms(2)] by blast
  note res = Headers_result [OF assms(1,3-5) nullBlob_facts(2) nullBlob_facts(2) t cf(4) h]
  show ?thesis
  proof (cases "r1 = 0")
    case True
    then show ?thesis by (simp add: CannedError_step [OF assms(5)] h)
  next
    case False
    with res cf(3) have "conn_state g1 u = ResponseData" by auto
    moreover obtain r3 g3 where "HttpCore_SendPacket ops u (lit_blob reason) g1 = Some (r3, g3)"
      using SendPacket_returns_aux [OF sendable_lit assms(2)] by blast
    ultimately show ?thesis
      using False res by (simp add: CannedError_step [OF assms(5)] h HttpResponse_Content_def HttpAssert_def
          cf(2) Let_def)
  qed
qed

section \<open>Witnesses\<close>

definition ready_state :: "(int \<times> u8) list HttpGlobalState" where
  "ready_state =
     (boot_state [])\<lparr>listenSocket := 1, uOpenConnections := 1,
       connections := (\<lambda>_. sample_connection Processing 0)\<rparr>"

lemmas ready_state_simps = ready_state_def boot_state_def boot_mem_def

lemma log_ops_answers: "send_progress log_ops (\<lambda>_. 0)"
  by (simp add: send_progress_def log_ops_def null_ops_def SL_EAGAIN_def)

lemma log_ops_accepts: "send_accepts log_ops"
  by (simp add: send_accepts_def log_ops_def null_ops_def)

lemma log_ops_returns:
  "sendable buffer b off \<Longrightarrow> \<exists>r g'. HttpCore_SendPacket log_ops u buffer g = Some (r, g')"
  using log_ops_answers by (rule SendPacket_returns_aux [rotated])

theorem HttpCore_SendPacket_delivers_witness:
  "\<exists>r g'. HttpCore_SendPacket log_ops 0 (lit_blob [72, 105]) ready_state = Some (r, g') \<and>
     (r = 0 \<or> r = 1 \<and> world g' = [(5, 72), (5, 105)])"
proof -
  have s: "sendable (lit_blob [72, 105]) (Lit [72, 105]) 0" by (simp add: sendable_def lit_blob_def)
  obtain r g' where e: "HttpCore_SendPacket log_ops 0 (lit_blob [72, 105]) ready_state = Some (r, g')"
    using log_ops_returns [OF s] by blast
  have "blob_bytes (hmem ready_state) (lit_blob [72, 105]) = [72, 105]"
    by (simp add: blob_bytes_def lit_blob_def ready_state_simps mem_read_def upt_rec)
  with HttpCore_SendPacket_delivers [OF log_ops_contract s e, of PacketSend] e show ?thesis
    by (simp add: ready_state_simps sample_connection_def)
qed

theorem HttpCore_SendPacket_returns_witness:
  "\<exists>r g'. HttpCore_SendPacket log_ops 0 \<lparr>uLength = 3000, pData = Ptr PacketRecv 0\<rparr> ready_state = Some (r, g')"
  by (rule HttpCore_SendPacket_returns [where b = PacketRecv and off = 0 and rank = "\<lambda>_. 0"])
    (simp_all add: sendable_def log_ops_answers)

lemma response_text_200:
  "response_text False 200 (str ''ok'') [] 0 False [] = str ''http/1.0 200 ok'' @ [13, 10, 13, 10]"
  by (simp add: response_text_def status_line_def opt_line_def http_strings decimal_def digit_bytes_def
      digits_def radix.simps str_def)

theorem HttpResponse_Headers_sends_witness:
  "\<exists>g'. HttpResponse_Headers log_ops 0 200 0 0 nullBlob nullBlob ready_state = Some (1, g') \<and>
     map snd (world g') = str ''http/1.0 200 ok'' @ [13, 10, 13, 10]"
proof -
  let ?t = "response_text (req_has ready_state 0 HTTP_REQUEST_1_1) 200 (str ''ok'')
    (blob_bytes (hmem ready_state) nullBlob) 0 (has_flag 0 HTTP_RESPONSE_FLAG_COMPRESSED)
    (blob_bytes (hmem ready_state) nullBlob)"
  have t: "?t = str ''http/1.0 200 ok'' @ [13, 10, 13, 10]"
    using response_text_200
    by (simp add: ready_state_simps sample_connection_def req_has_def has_flag_def blob_bytes_def nullBlob_def)
  have pre: "packetSendSize ready_state = 0" "conn_state ready_state 0 = Processing"
    "HttpStatusString 200 = Some (str ''ok'')" "outside_send nullBlob"
    by (simp_all add: ready_state_simps sample_connection_def conn_state_def HttpStatusString_def
        outside_send_def nullBlob_def)
  have len: "length ?t \<le> HTTP_CORE_MAX_PACKET_SIZE_SEND" by (simp add: t)
  from Headers_returns [OF pre pre(4) refl len log_ops_answers]
  obtain r g' where e:
    "HttpResponse_Headers log_ops 0 200 0 0 nullBlob nullBlob ready_state = Some (r, g')" by blast
  from HttpResponse_Headers_sends [OF log_ops_contract pre pre(4) refl len e]
  have "r = 1 \<and> world g' = world ready_state @ map (Pair (dataSocket (connections ready_state 0))) ?t"
    using log_ops_accepts by auto
  moreover have "world ready_state = []" by (simp add: ready_state_simps)
  ultimately have "r = 1 \<and> map snd (world g') = ?t" by (auto simp: comp_def)
  with e show ?thesis unfolding t by blast
qed

theorem HttpResponse_CannedError_sends_witness:
  "\<exists>g'. HttpResponse_CannedError log_ops 0 404 ready_state = Some (1, g') \<and>
     map snd (world g') =
        str ''http/1.0 404 not found'' @ [13, 10] @ str ''content-length: 9'' @ [13, 10, 13, 10] @
        str ''not found''"
proof -
  have pre: "packetSendSize ready_state = 0" "conn_state ready_state 0 = Processing"
    "HttpStatusString 404 = Some (str ''not found'')" "lits_ok (hmem ready_state)"
    by (simp_all add: ready_state_simps sample_connection_def conn_state_def HttpStatusString_def lits_ok_def)
  obtain r g' where e: "HttpResponse_CannedError log_ops 0 404 ready_state = Some (r, g')"
    using CannedError_returns [OF log_ops_contract log_ops_answers pre(1-3)] by blast
  have t: "response_text (req_has ready_state 0 HTTP_REQUEST_1_1) 404 (str ''not found'') []
      (of_nat (length (str ''not found''))) False [] =
    str ''http/1.0 404 not found'' @ [13, 10] @ str ''content-length: 9'' @ [13, 10, 13, 10]"
    by (simp add: ready_state_simps sample_connection_def req_has_def has_flag_def response_text_def
        status_line_def opt_line_def header_line_def http_strings decimal_def digit_bytes_def
        digits_def radix.simps str_def)
  have "world ready_state = []" by (simp add: ready_state_simps)
  with HttpResponse_CannedError_sends [OF log_ops_contract pre e]
  have "r = 1 \<and> map snd (world g') = str ''http/1.0 404 not found'' @ [13, 10] @
      str ''content-length: 9'' @ [13, 10, 13, 10] @ str ''not found''"
    using log_ops_accepts unfolding t by (auto simp: comp_def)
  with e show ?thesis by blast
qed

theorem HttpResponse_Headers_too_long_witness:
  "HttpResponse_Headers log_ops 0 302 0 0 nullBlob \<lparr>uLength = 1000, pData = Ptr PacketRecv 0\<rparr> ready_state = None"
proof -
  let ?loc = "\<lparr>uLength = 1000, pData = Ptr PacketRecv 0\<rparr>"
  have pre: "packetSendSize ready_state = 0" "conn_state ready_state 0 = Processing"
    "HttpStatusString 302 = Some (str ''moved temporarily'')" "outside_send nullBlob" "outside_send ?loc"
    by (simp_all add: ready_state_simps sample_connection_def conn_state_def HttpStatusString_def
        outside_send_def nullBlob_def)
  have l: "length (blob_bytes (hmem ready_state) ?loc) = 1000" by (simp add: blob_bytes_def)
  then have ne: "blob_bytes (hmem ready_state) ?loc \<noteq> []" by auto
  have d: "length (decimal (unat (302::u16))) \<le> 5" by (rule length_decimal) simp_all
  show ?thesis
    by (rule HttpResponse_Headers_too_long [OF pre refl])
      (use l ne d in \<open>simp_all add: response_text_def opt_line_def header_line_def status_line_def
         nullBlob_facts http_strings has_flag_def\<close>)
qed

end
