(* ===== verification/Http_Content.thy ===== *)
theory Http_Content
  imports Http_Response
begin

text \<open>
  The content handlers of the HTTP server: static files (\<open>HttpStatic.c\<close>) and dynamic resources
  (\<open>HttpDynamic.c\<close>).  The file system is part of the host API; a dynamic resource answers with
  a constant C string.  \<open>None\<close> is a call that does not return or uses a string that is not there.
\<close>

section \<open>C strings and the heap\<close>

text \<open>The C string at the start of a block, of at most \<open>n\<close> bytes.\<close>

definition cstring :: "'b mem \<Rightarrow> 'b \<Rightarrow> nat \<Rightarrow> u8 list" where
  "cstring m b n = takeWhile (\<lambda>c. c \<noteq> 0) (mem_read m b 0 n)"

text \<open>\<open>malloc\<close> hands out a block no pointer refers to yet; running out of memory is not modelled.\<close>

definition malloc :: "nat \<Rightarrow> 'w HttpGlobalState \<Rightarrow> http_block \<times> 'w HttpGlobalState" where
  "malloc n g = (Heap (heap_next g),
     g\<lparr>heap_next := heap_next g + 1, heap_size := (heap_size g)(heap_next g := n)\<rparr>)"

section \<open>Static content\<close>

definition FILE_NAME_SIZE_MAX :: nat where "FILE_NAME_SIZE_MAX = 40"

text \<open>The longest string \<open>strncat\<close> can leave in \<open>g_cFileName\<close>: the prefix and 65535 bytes of URL.\<close>

definition file_name :: "'w HttpGlobalState \<Rightarrow> u8 list" where
  "file_name g = cstring (hmem g) FileName 65540"

definition HttpStatic_InitRequest ::
  "'w sl_ops \<Rightarrow> nat \<Rightarrow> hblob \<Rightarrow> 'w HttpGlobalState \<Rightarrow> int \<times> 'w HttpGlobalState" where
  "HttpStatic_InitRequest ops u resource g =
     (let m0 = memset (hmem g) FileName 0 0 FILE_NAME_SIZE_MAX;
          m1 = (if uLength resource = 1 \<and> ptr_byte m0 (pData resource) = 47
                then mem_write m0 FileName 0 (str ''www/main.html'' @ [0])
                else mem_write (mem_write m0 FileName 0 (str ''www'' @ [0])) FileName 3
                       (takeWhile (\<lambda>c. c \<noteq> 0) (blob_bytes m0 resource) @ [0]));
          g1 = g\<lparr>hmem := m1\<rparr>;
          (r, h, w') = sl_FsOpen ops (file_name g1) (world g1);
          g2 = g1\<lparr>glFileHandle := h, world := w'\<rparr>
      in (if r < 0 then 0 else 1, g2))"

text \<open>The loop over the file; \<open>left\<close> is \<open>TotalLength\<close>.\<close>

partial_function (option) static_loop ::
  "'w sl_ops \<Rightarrow> nat \<Rightarrow> bool \<Rightarrow> u32 \<Rightarrow> nat \<Rightarrow> 'w HttpGlobalState \<Rightarrow> (int \<times> 'w HttpGlobalState) option" where
  "static_loop ops u headerFlag left offset g =
     (if left > 0 then
        let len = (if left < 1000 then ucast left else 1000) :: u16;
            (b, g1) = malloc (unat len) g;
            cont = \<lparr>uLength = len, pData = Ptr b 0\<rparr>;
            (r, bytes, w') = sl_FsRead ops (glFileHandle g1) offset (unat len) (world g1);
            g2 = g1\<lparr>hmem := mem_write (hmem g1) b 0 bytes, world := w'\<rparr>
        in if r < 0 then do {
             (e, g3) \<leftarrow> HttpResponse_CannedError ops u HTTP_STATUS_ERROR_NOT_ACCEPTED g2;
             Some (if e = 0 then 0 else 1, g3)
           }
           else do {
             (h, g3) \<leftarrow> (if headerFlag then Some (1, g2)
                        else HttpResponse_Headers ops u HTTP_STATUS_OK 0 left nullBlob nullBlob g2);
             if h = 0 then Some (0, g3)
             else do {
               (c, g4) \<leftarrow> HttpResponse_Content ops u cont g3;
               if c = 0 then Some (0, g4)
               else static_loop ops u True (left - ucast len) (offset + unat len) g4
             }
           }
      else
        let (_, w') = sl_FsClose ops (glFileHandle g) (world g) in Some (1, g\<lparr>world := w'\<rparr>))"

definition HttpStatic_ProcessRequest ::
  "'w sl_ops \<Rightarrow> HttpRequest \<Rightarrow> 'w HttpGlobalState \<Rightarrow> (int \<times> 'w HttpGlobalState) option" where
  "HttpStatic_ProcessRequest ops req g =
     (let u = unat (req_uConnection req) in
      if has_flag (uFlags req) HTTP_REQUEST_FLAG_METHOD_POST then do {
        (e, g1) \<leftarrow> HttpResponse_CannedError ops u HTTP_STATUS_ERROR_INTERNAL g;
        Some (if e = 0 then 0 else 1, g1)
      }
      else
        let (len, w') = sl_FsGetInfo ops (file_name g) (world g)
        in static_loop ops u False len 0 (g\<lparr>world := w'\<rparr>))"

section \<open>Dynamic content\<close>

definition MAX_RESOURCE :: nat where "MAX_RESOURCE = 10"
definition POST :: u8 where "POST = 0"
definition GET :: u8 where "GET = 1"

definition SetResources ::
  "u8 \<Rightarrow> u8 list \<Rightarrow> ('w \<Rightarrow> u8 list \<times> 'w) \<Rightarrow> 'w HttpGlobalState \<Rightarrow> int \<times> 'w HttpGlobalState" where
  "SetResources method pBuf cb g =
     (if g_NumResource g \<le> MAX_RESOURCE then
        (1, g\<lparr>g_RestContent := (g_RestContent g)(g_NumResource g :=
                \<lparr>rest_method = method, ResourceString = Some pBuf, pCbfunc = cb\<rparr>),
              g_NumResource := g_NumResource g + 1\<rparr>)
      else (0, g))"

text \<open>The search from index \<open>k\<close>; the token length is a 16-bit parameter of \<open>nextToken\<close>.\<close>

function dynamic_search :: "hblob \<Rightarrow> nat \<Rightarrow> 'w HttpGlobalState \<Rightarrow> (nat \<times> 'w HttpGlobalState) option" where
  "dynamic_search resource k g =
     (if k < MAX_RESOURCE then
        case ResourceString (g_RestContent g k) of
          None \<Rightarrow> None
        | Some s \<Rightarrow>
            let (found, g1) = next_token (take (length s mod 65536) s) resource g in
            if found \<noteq> Null then Some (k, g1) else dynamic_search resource (Suc k) g1
      else Some (k, g))"
  by pat_completeness auto
termination
  by (relation "measure (\<lambda>(r, k, g). MAX_RESOURCE - k)") auto

declare dynamic_search.simps [simp del]

definition HttpDynamic_InitRequest ::
  "nat \<Rightarrow> hblob \<Rightarrow> u8 \<Rightarrow> 'w HttpGlobalState \<Rightarrow> (int \<times> 'w HttpGlobalState) option" where
  "HttpDynamic_InitRequest u resource method g = do {
     (k, g1) \<leftarrow> dynamic_search resource 0 g;
     let g2 = g1\<lparr>g_NumResource := k\<rparr> in
     Some (if k = MAX_RESOURCE then 0
           else if rest_method (g_RestContent g2 k) \<noteq> method then 0 else 1, g2)
   }"

definition HttpDynamic_ProcessRequest ::
  "'w sl_ops \<Rightarrow> HttpRequest \<Rightarrow> 'w HttpGlobalState \<Rightarrow> (int \<times> 'w HttpGlobalState) option" where
  "HttpDynamic_ProcessRequest ops req g =
     (let u = unat (req_uConnection req);
          (body, w') = pCbfunc (g_RestContent g (g_NumResource g)) (world g);
          contentBody = lit_blob body
      in do {
        (h, g1) \<leftarrow> HttpResponse_Headers ops u HTTP_STATUS_OK 0 (ucast (uLength contentBody))
                    nullBlob nullBlob (g\<lparr>world := w'\<rparr>);
        if h = 0 then Some (0, g1)
        else if uLength contentBody \<noteq> 0 then do {
          (c, g2) \<leftarrow> HttpResponse_Content ops u contentBody g1;
          Some (if c = 0 then 0 else 1, g2)
        }
        else Some (1, g1)
      })"

section \<open>Serving a file\<close>

text \<open>What the file system documents of an open file: a read returns the number of bytes read and the
  bytes, or a negative error code; it sends nothing.  \<open>reads_succeed\<close> is a file system on which no
  read of the file fails.\<close>

definition file_contract :: "'w sl_ops \<Rightarrow> ('w \<Rightarrow> (int \<times> u8) list) \<Rightarrow> int \<Rightarrow> u8 list \<Rightarrow> bool" where
  "file_contract ops sent h file \<longleftrightarrow>
     (\<forall>off n w r bytes w'. sl_FsRead ops h off n w = (r, bytes, w') \<longrightarrow> sent w' = sent w \<and>
        (r < 0 \<or> r = int (min n (length file - off)) \<and> bytes = take n (drop off file))) \<and>
     (\<forall>w. sent (snd (sl_FsClose ops h w)) = sent w)"

definition reads_succeed :: "'w sl_ops \<Rightarrow> int \<Rightarrow> bool" where
  "reads_succeed ops h \<longleftrightarrow> (\<forall>off n w. 0 \<le> fst (sl_FsRead ops h off n w))"

definition piece :: "u32 \<Rightarrow> u16" where
  "piece left = (if left < 1000 then ucast left else 1000)"

lemma unat_piece: "unat (piece left) = min (unat left) 1000"
proof (cases "left < 1000")
  case True
  then have "unat left < 1000" by (simp add: word_less_nat_alt)
  moreover from this have "unat (ucast left :: u16) = unat left" by (intro unat_ucast_small) simp
  ultimately show ?thesis using True by (simp add: piece_def)
next
  case False
  then show ?thesis by (simp add: piece_def word_less_nat_alt)
qed

lemma unat_minus_piece: "unat (left - ucast (piece left)) = unat left - min (unat left) 1000"
  by (subst unat_sub_le) (auto simp: word_le_nat_alt unat_piece)

text \<open>One round of the loop, once the file can be read.\<close>

definition read_state :: "int \<Rightarrow> nat \<Rightarrow> u8 list \<Rightarrow> 'w \<Rightarrow> 'w HttpGlobalState \<Rightarrow> 'w HttpGlobalState" where
  "read_state n len bytes w' g = (let g1 = snd (malloc len g) in
     g1\<lparr>hmem := mem_write (hmem g1) (Heap (heap_next g)) 0 bytes, world := w'\<rparr>)"

lemma read_state_simps [simp]:
  "connections (read_state n len bytes w' g) = connections g"
  "packetSendSize (read_state n len bytes w' g) = packetSendSize g"
  "glFileHandle (read_state n len bytes w' g) = glFileHandle g"
  "world (read_state n len bytes w' g) = w'"
  "b \<noteq> Heap (heap_next g) \<Longrightarrow> hmem (read_state n len bytes w' g) b = hmem g b"
  "hmem (read_state n len bytes w' g) (Heap (heap_next g)) = mem_write (hmem g) (Heap (heap_next g)) 0 bytes (Heap (heap_next g))"
  by (simp_all add: read_state_def malloc_def Let_def mem_write_other)

lemma static_loop_step:
  assumes "left > 0" "sl_FsRead ops (glFileHandle g) offset (unat (piece left)) (world g) = (r, bytes, w')" "0 \<le> r"
  shows "static_loop ops u headerFlag left offset g =
    (let g2 = read_state r (unat (piece left)) bytes w' g in do {
       (h, g3) \<leftarrow> (if headerFlag then Some (1, g2)
                        else HttpResponse_Headers ops u HTTP_STATUS_OK 0 left nullBlob nullBlob g2);
       if h = 0 then Some (0, g3)
       else do {
         (c, g4) \<leftarrow> HttpResponse_Content ops u
                     \<lparr>uLength = piece left, pData = Ptr (Heap (heap_next g)) 0\<rparr> g3;
         if c = 0 then Some (0, g4)
         else static_loop ops u True (left - ucast (piece left)) (offset + unat (piece left)) g4
       }
     })"
  using assms
  by (subst static_loop.simps)
    (simp add: piece_def [symmetric] read_state_def malloc_def Let_def linorder_not_less
      del: http_statuses)

lemma static_loop_end:
  "static_loop ops u headerFlag 0 offset g =
     Some (1, g\<lparr>world := snd (sl_FsClose ops (glFileHandle g) (world g))\<rparr>)"
  by (subst static_loop.simps) (simp add: Let_def split_beta)

text \<open>One round when the file cannot be read: the client gets the canned error.\<close>

lemma static_loop_error:
  assumes "left > 0" "sl_FsRead ops (glFileHandle g) offset (unat (piece left)) (world g) = (r, bytes, w')" "r < 0"
  shows "static_loop ops u headerFlag left offset g = do {
     (e, g3) \<leftarrow> HttpResponse_CannedError ops u HTTP_STATUS_ERROR_NOT_ACCEPTED
                 (read_state r (unat (piece left)) bytes w' g);
     Some (if e = 0 then 0 else 1, g3) }"
  using assms
  by (subst static_loop.simps)
    (simp add: piece_def [symmetric] read_state_def malloc_def Let_def del: http_statuses)

text \<open>A read error after the headers were sent stops the server: the canned error it tries to
  send asserts that the connection is still in the \<open>Processing\<close> state, and the assertion never
  returns.\<close>

theorem HttpStatic_read_error_hangs:
  assumes "conn_state g u = ResponseData" "left > 0"
    "fst (sl_FsRead ops (glFileHandle g) offset (unat (piece left)) (world g)) < 0"
  shows "static_loop ops u True left offset g = None"
proof -
  obtain r bytes w' where rd: "sl_FsRead ops (glFileHandle g) offset (unat (piece left)) (world g) = (r, bytes, w')"
    by (metis prod_cases3)
  have "HttpResponse_CannedError ops u HTTP_STATUS_ERROR_NOT_ACCEPTED
      (read_state r (unat (piece left)) bytes w' g) = None"
    using assms(1)
    by (simp add: HttpResponse_CannedError_def HttpStatusString_def HttpResponse_Headers_def HttpAssert_def
        conn_state_def Let_def)
  with static_loop_error [OF assms(2) rd] rd assms(3) show ?thesis by simp
qed

lemma read_piece:
  assumes "file_contract ops sent h file" "glFileHandle g = h" "unat left = length file - offset"
    "0 \<le> fst (sl_FsRead ops (glFileHandle g) offset (unat (piece left)) (world g))"
  obtains w' g2 where "sl_FsRead ops (glFileHandle g) offset (unat (piece left)) (world g) =
      (int (unat (piece left)), take (unat (piece left)) (drop offset file), w')"
    "sent w' = sent (world g)"
    "g2 = read_state (int (unat (piece left))) (unat (piece left)) (take (unat (piece left)) (drop offset file)) w' g"
    "blob_bytes (hmem g2) \<lparr>uLength = piece left, pData = Ptr (Heap (heap_next g)) 0\<rparr> =
       take (unat (piece left)) (drop offset file)"
proof -
  let ?n = "unat (piece left)"
  have n: "min ?n (length file - offset) = ?n" using unat_piece [of left] assms(3) by simp
  obtain r bytes w' where e: "sl_FsRead ops (glFileHandle g) offset ?n (world g) = (r, bytes, w')"
    by (metis prod_cases3)
  then have rd: "sl_FsRead ops (glFileHandle g) offset ?n (world g) =
      (int (min ?n (length file - offset)), take ?n (drop offset file), w')" "sent w' = sent (world g)"
    using assms(1,2,4) unfolding file_contract_def by fastforce+
  let ?g2 = "read_state (int ?n) ?n (take ?n (drop offset file)) w' g"
  have "length (take ?n (drop offset file)) = ?n" using n by simp
  then have "blob_bytes (hmem ?g2) \<lparr>uLength = piece left, pData = Ptr (Heap (heap_next g)) 0\<rparr> =
      take ?n (drop offset file)"
    using mem_read_write [of "hmem g" "Heap (heap_next g)" 0 "take ?n (drop offset file)"]
    by (simp add: blob_bytes_def mem_read_def)
  with rd n show ?thesis by (intro that [of w' ?g2]) simp_all
qed

text \<open>The rest of a round and the rounds that follow it, from a state in which the piece is in memory.\<close>

lemma static_tail:
  assumes "send_contract ops sent" "file_contract ops sent h file"
    "glFileHandle g = h" "uContentLeft (connections g u) = left" "left > 0"
    "unat left = length file - offset" "k \<noteq> PacketSend"
    "blob_bytes (hmem g) \<lparr>uLength = piece left, pData = Ptr k 0\<rparr> = take (unat (piece left)) (drop offset file)"
    "do { (c, g4) \<leftarrow> HttpResponse_Content ops u \<lparr>uLength = piece left, pData = Ptr k 0\<rparr> g;
          if c = 0 then Some (0, g4)
          else static_loop ops u True (left - ucast (piece left)) (offset + unat (piece left)) g4 } = Some (r, g')"
  shows "(r = 0 \<or> r = 1 \<and>
    sent (world g') = sent (world g) @ map (Pair (dataSocket (connections g u))) (drop offset file) \<and>
    conn_state g' u = ResponseComplete \<and> packetSendSize g' = packetSendSize g) \<and> (send_accepts ops \<longrightarrow> r = 1)"
  using assms(3-)
proof (induction "unat left" arbitrary: left offset g k rule: less_induct)
  case less
  let ?n = "unat (piece left)" and ?d = "dataSocket (connections g u)" and ?l = "left - ucast (piece left)"
  let ?c = "\<lparr>uLength = piece left, pData = Ptr k 0\<rparr>"
  have nz: "0 < unat left" using less.prems(3) by (simp add: unat_gt_0 word_gt_0)
  have n: "?n = min (unat left) 1000" by (rule unat_piece)
  obtain c g4 where ct: "HttpResponse_Content ops u ?c g = Some (c, g4)"
    and k: "(if c = 0 then Some (0, g4) else static_loop ops u True ?l (offset + ?n) g4) = Some (r, g')"
    by (rule bind_pair_SomeE [OF less.prems(7)])
  have sd: "sendable ?c k 0" using less.prems(5) by (simp add: sendable_def)
  have "uContentLeft (connections g u) \<noteq> 0" using less.prems(2,3) by (simp add: word_gt_0)
  note res = Content_result [OF assms(1) sd this ct, unfolded less.prems(6)]
  show ?case
  proof (cases "c = 0")
    case True
    with k res show ?thesis by auto
  next
    case False
    with res have out: "sent (world g4) = sent (world g) @ map (Pair ?d) (take ?n (drop offset file))"
      and left': "uContentLeft (connections g4 u) = ?l"
      and st: "conn_state g4 u = (if ?l = 0 then ResponseComplete else ResponseData)"
      using less.prems(2) by auto
    have l': "unat ?l = unat left - ?n" using unat_minus_piece n by simp
    have hd4: "glFileHandle g4 = h" "dataSocket (connections g4 u) = ?d" "packetSendSize g4 = packetSendSize g"
      using res less.prems(1) by auto
    have k': "static_loop ops u True ?l (offset + ?n) g4 = Some (r, g')" using k False by simp
    show ?thesis
    proof (cases "?l = 0")
      case True
      then have "unat left = ?n" using l' n by simp
      then have all: "take ?n (drop offset file) = drop offset file" using less.prems(4) by simp
      have "r = 1" "g' = g4\<lparr>world := snd (sl_FsClose ops (glFileHandle g4) (world g4))\<rparr>"
        using k' True by (auto simp: static_loop_end)
      with all out st True hd4 assms(2) show ?thesis
        by (simp add: conn_state_def file_contract_def)
    next
      case more: False
      then have pos: "?l > 0" by (simp add: word_gt_0)
      have lt: "unat ?l < unat left" using l' n nz by simp
      have off: "unat ?l = length file - (offset + ?n)" using l' less.prems(4) by simp
      have "conn_state g4 u = ResponseData" using st more by simp
      with k' HttpStatic_read_error_hangs [OF _ pos]
      have ok: "0 \<le> fst (sl_FsRead ops (glFileHandle g4) (offset + ?n) (unat (piece ?l)) (world g4))"
        by (metis linorder_not_less option.distinct(1))
      obtain w' g2 where rd: "sl_FsRead ops (glFileHandle g4) (offset + ?n) (unat (piece ?l)) (world g4) =
          (int (unat (piece ?l)), take (unat (piece ?l)) (drop (offset + ?n) file), w')"
        and sw: "sent w' = sent (world g4)"
        and g2: "g2 = read_state (int (unat (piece ?l))) (unat (piece ?l))
          (take (unat (piece ?l)) (drop (offset + ?n) file)) w' g4"
        and b2: "blob_bytes (hmem g2) \<lparr>uLength = piece ?l, pData = Ptr (Heap (heap_next g4)) 0\<rparr> =
          take (unat (piece ?l)) (drop (offset + ?n) file)"
        by (rule read_piece [OF assms(2) hd4(1) off ok])
      have body: "do { (c, g5) \<leftarrow> HttpResponse_Content ops u
               \<lparr>uLength = piece ?l, pData = Ptr (Heap (heap_next g4)) 0\<rparr> g2;
             if c = 0 then Some (0, g5)
             else static_loop ops u True (?l - ucast (piece ?l)) (offset + ?n + unat (piece ?l)) g5 } = Some (r, g')"
        using k' static_loop_step [OF pos rd, of u True] by (simp add: Let_def g2)
      have "glFileHandle g2 = h" "uContentLeft (connections g2 u) = ?l" "world g2 = w'"
        "dataSocket (connections g2 u) = ?d" "packetSendSize g2 = packetSendSize g"
        using hd4 left' by (simp_all add: g2)
      with less.hyps [OF lt _ _ pos off _ b2 body] sw
      have IH: "(r = 0 \<or> r = 1 \<and>
          sent (world g') = sent (world g4) @ map (Pair ?d) (drop (offset + ?n) file) \<and>
          conn_state g' u = ResponseComplete \<and> packetSendSize g' = packetSendSize g) \<and>
          (send_accepts ops \<longrightarrow> r = 1)" by simp
      have "take ?n (drop offset file) @ drop (offset + ?n) file = drop offset file"
        by (metis add.commute append_take_drop_id drop_drop)
      then have "map (Pair ?d) (take ?n (drop offset file)) @ map (Pair ?d) (drop (offset + ?n) file)
          = map (Pair ?d) (drop offset file)"
        by (metis map_append)
      with IH out show ?thesis by auto
    qed
  qed
qed

lemma static_tail_returns:
  assumes "send_contract ops sent" "send_progress ops rank" "file_contract ops sent h file" "reads_succeed ops h"
    "glFileHandle g = h" "uContentLeft (connections g u) = left" "left > 0"
    "unat left = length file - offset" "k \<noteq> PacketSend" "conn_state g u = ResponseData"
  shows "\<exists>r g'. do { (c, g4) \<leftarrow> HttpResponse_Content ops u \<lparr>uLength = piece left, pData = Ptr k 0\<rparr> g;
          if c = 0 then Some (0, g4)
          else static_loop ops u True (left - ucast (piece left)) (offset + unat (piece left)) g4 } = Some (r, g')"
  using assms(5-)
proof (induction "unat left" arbitrary: left offset g k rule: less_induct)
  case less
  let ?n = "unat (piece left)" and ?l = "left - ucast (piece left)"
  let ?c = "\<lparr>uLength = piece left, pData = Ptr k 0\<rparr>"
  have nz: "0 < unat left" using less.prems(3) by (simp add: unat_gt_0 word_gt_0)
  have n: "?n = min (unat left) 1000" by (rule unat_piece)
  have sd: "sendable ?c k 0" using less.prems(5) by (simp add: sendable_def)
  have "ucast (uLength ?c) \<le> uContentLeft (connections g u)"
    using n less.prems(2) by (simp add: word_le_nat_alt)
  from Content_returns [OF assms(2) sd less.prems(6) this]
  obtain c g4 where ct: "HttpResponse_Content ops u ?c g = Some (c, g4)" by blast
  have "uContentLeft (connections g u) \<noteq> 0" using less.prems(2,3) by (simp add: word_gt_0)
  note res = Content_result [OF assms(1) sd this ct]
  show ?case
  proof (cases "c = 0 \<or> ?l = 0")
    case True
    then show ?thesis by (auto simp: ct static_loop_end)
  next
    case False
    then have pos: "?l > 0" by (simp add: word_gt_0)
    have l': "unat ?l = unat left - ?n" using unat_minus_piece n by simp
    have lt: "unat ?l < unat left" using l' n nz by simp
    have off: "unat ?l = length file - (offset + ?n)" using l' less.prems(4) by simp
    have hd4: "glFileHandle g4 = h" "uContentLeft (connections g4 u) = ?l" "conn_state g4 u = ResponseData"
      using res False less.prems(1,2) by auto
    obtain w' g2 where rd: "sl_FsRead ops (glFileHandle g4) (offset + ?n) (unat (piece ?l)) (world g4) =
        (int (unat (piece ?l)), take (unat (piece ?l)) (drop (offset + ?n) file), w')"
      and g2: "g2 = read_state (int (unat (piece ?l))) (unat (piece ?l))
        (take (unat (piece ?l)) (drop (offset + ?n) file)) w' g4"
      by (rule read_piece [OF assms(3) hd4(1) off])
        (use assms(4) hd4(1) in \<open>simp add: reads_succeed_def\<close>)
    have "glFileHandle g2 = h" "uContentLeft (connections g2 u) = ?l" "conn_state g2 u = ResponseData"
      using hd4 by (simp_all add: g2 conn_state_def)
    from less.hyps [OF lt this(1,2) pos off _ this(3), of "Heap (heap_next g4)"]
      static_loop_step [OF pos rd, of u True] False
    show ?thesis by (simp add: ct Let_def g2)
  qed
qed

lemma ok_text_fits:
  "length (response_text v 200 (str ''ok'') [] clen False []) \<le> HTTP_CORE_MAX_PACKET_SIZE_SEND"
proof -
  have "length (decimal (unat (200::u16))) \<le> 5" by (rule length_decimal) simp_all
  then show ?thesis
    using length_decimal_32 [of clen]
    by (cases "clen > 0")
      (simp_all add: response_text_def status_line_def opt_line_def header_line_def http_strings)
qed

lemma status_ok: "HttpStatusString HTTP_STATUS_OK = Some (str ''ok'')"
  by (simp add: HttpStatusString_def)

text \<open>The headers of a plain response with status 200, as both content handlers send them.\<close>

lemma ok_headers:
  assumes "send_contract ops sent" "packetSendSize g = 0" "conn_state g u = Processing"
    "HttpResponse_Headers ops u HTTP_STATUS_OK 0 clen nullBlob nullBlob g = Some (r, g')"
  shows "(r = 0 \<or> r = 1 \<and>
      sent (world g') = sent (world g) @ map (Pair (dataSocket (connections g u)))
        (response_text (req_has g u HTTP_REQUEST_1_1) 200 (str ''ok'') [] clen False []) \<and>
      packetSendSize g' = 0 \<and>
      conn_state g' u = (if clen > 0 then ResponseData else ResponseComplete)) \<and>
    (r = 0 \<longrightarrow> packetSendSize g' = of_nat (length (response_text (req_has g u HTTP_REQUEST_1_1) 200 (str ''ok'') [] clen False [])) \<and>
      conn_state g' u = Processing) \<and>
    (send_accepts ops \<longrightarrow> r = 1) \<and>
    uContentLeft (connections g' u) = clen \<and> dataSocket (connections g' u) = dataSocket (connections g u) \<and>
    request (connections g' u) = request (connections g u) \<and>
    (\<forall>v. v \<noteq> u \<longrightarrow> connections g' v = connections g v) \<and> (\<forall>c. c \<noteq> PacketSend \<longrightarrow> hmem g' c = hmem g c)"
  by (rule Headers_result [OF assms(1-3) status_ok nullBlob_facts(2) nullBlob_facts(2) _ ok_text_fits assms(4)])
    (simp add: nullBlob_facts has_flag_def)

lemma SendPacket_handle:
  assumes "sendable buffer b off" "HttpCore_SendPacket ops u buffer g = Some (r, g')"
  shows "glFileHandle g' = glFileHandle g"
  using SendPacket_result [OF assms] by (simp add: same_rest_def)

lemma add_bytes_handle [simp]: "glFileHandle (add_bytes xs g) = glFileHandle g"
  by (simp add: HttpResponse_AddStringToResponseHeaders_def)

lemma ok_headers_handle:
  assumes "packetSendSize g = 0" "conn_state g u = Processing"
    "HttpResponse_Headers ops u HTTP_STATUS_OK 0 clen nullBlob nullBlob g = Some (r, g')"
  shows "glFileHandle g' = glFileHandle g"
proof -
  let ?t = "response_text (req_has g u HTTP_REQUEST_1_1) HTTP_STATUS_OK (str ''ok'') [] clen False []"
  have t: "?t = response_text (req_has g u HTTP_REQUEST_1_1) HTTP_STATUS_OK (str ''ok'')
      (blob_bytes (hmem g) nullBlob) clen (has_flag 0 HTTP_RESPONSE_FLAG_COMPRESSED) (blob_bytes (hmem g) nullBlob)"
    by (simp add: nullBlob_facts has_flag_def)
  have le: "length ?t \<le> 1000" using ok_text_fits by simp
  then have len: "length ?t < 65536" by simp
  have "unat (of_nat (length ?t) :: u16) = length ?t" using len by (intro unat_of_nat_small) simp
  then have sd: "sendable \<lparr>uLength = of_nat (length ?t), pData = Ptr PacketSend 0\<rparr> PacketSend 0"
    using le by (simp add: sendable_def)
  obtain r1 g1 where s: "HttpCore_SendPacket ops u \<lparr>uLength = of_nat (length ?t), pData = Ptr PacketSend 0\<rparr>
      (add_bytes ?t (conn_upd u (\<lambda>c. c\<lparr>uContentLeft := clen\<rparr>) g)) = Some (r1, g1)"
    and k: "(if r1 = 0 then Some (0, g1) else Some (1, set_conn_state u
        (if clen > 0 then ResponseData else ResponseComplete) (g1\<lparr>packetSendSize := 0\<rparr>))) = Some (r, g')"
    by (rule bind_pair_SomeE [OF assms(3) [unfolded Headers_builds
          [OF assms(1,2) status_ok nullBlob_facts(2) nullBlob_facts(2) t len]]])
  from SendPacket_handle [OF sd s] k show ?thesis
    by (auto simp: set_conn_state_def split: if_splits)
qed

text \<open>C23. A static file is served whole: for a GET request whose file is open and not empty, a call
  that succeeds has sent the header text with the file's length followed by the bytes of the file, in
  order and once each, whatever the number of 1000-byte pieces; only if the first read of the file
  failed it has sent the canned error 406 instead.  Either way the transaction is complete.
  The call succeeds over a socket that takes every buffer whole.  (Under the
  documented contracts of \<open>send\<close> and of the file system, whose reads may fail; a read that fails
  after the headers were sent stops the server, \<open>HttpStatic_read_error_hangs\<close>.)\<close>

theorem HttpStatic_ProcessRequest_serves_file:
  assumes "send_contract ops sent" "file_contract ops sent (glFileHandle g) file"
    "\<not> has_flag (uFlags req) HTTP_REQUEST_FLAG_METHOD_POST" "u = unat (req_uConnection req)"
    "packetSendSize g = 0" "conn_state g u = Processing"
    "sl_FsGetInfo ops (file_name g) (world g) = (of_nat (length file), w')" "sent w' = sent (world g)"
    "file \<noteq> []" "length file < 2 ^ 32" "lits_ok (hmem g)"
    "HttpStatic_ProcessRequest ops req g = Some (r, g')"
  shows "(r = 0 \<or> r = 1 \<and> sent (world g') = sent (world g) @ map (Pair (dataSocket (connections g u)))
      (if 0 \<le> fst (sl_FsRead ops (glFileHandle g) 0 (min (length file) 1000) w')
       then response_text (req_has g u HTTP_REQUEST_1_1) 200 (str ''ok'') [] (of_nat (length file)) False [] @ file
       else response_text (req_has g u HTTP_REQUEST_1_1) 406 (str ''not accepted'') []
              (of_nat (length (str ''not accepted''))) False [] @ str ''not accepted'') \<and>
    conn_state g' u = ResponseComplete) \<and> (send_accepts ops \<longrightarrow> r = 1)"
proof -
  let ?left = "of_nat (length file) :: u32" and ?g = "g\<lparr>world := w'\<rparr>" and ?d = "dataSocket (connections g u)"
  let ?n = "unat (piece ?left)"
  have left: "unat ?left = length file" using assms(10) by (intro unat_of_nat_small) simp
  then have pos: "?left > 0" using assms(9) by (metis length_greater_0_conv unat_gt_0 word_gt_0)
  have off: "unat ?left = length file - 0" using left by simp
  have run: "static_loop ops u False ?left 0 ?g = Some (r, g')"
    using assms(3,4,7,12) by (simp add: HttpStatic_ProcessRequest_def Let_def)
  have h0: "glFileHandle ?g = glFileHandle g" by simp
  have pn: "?n = min (length file) 1000" using left by (simp add: unat_piece)
  show ?thesis
  proof (cases "0 \<le> fst (sl_FsRead ops (glFileHandle g) 0 ?n w')")
    case False
    obtain e bytes v where rd: "sl_FsRead ops (glFileHandle ?g) 0 ?n (world ?g) = (e, bytes, v)"
      by (metis prod_cases3)
    with False have neg: "e < 0" by simp
    let ?g2 = "read_state e ?n bytes v ?g"
    obtain c g3 where ce: "HttpResponse_CannedError ops u HTTP_STATUS_ERROR_NOT_ACCEPTED ?g2 = Some (c, g3)"
      and rc: "r = (if c = 0 then 0 else 1)" "g' = g3"
      using run static_loop_error [OF pos rd neg, of u False]
      by (auto elim!: bind_pair_SomeE simp del: http_statuses)
    have pre: "packetSendSize ?g2 = 0" "conn_state ?g2 u = Processing"
      "HttpStatusString HTTP_STATUS_ERROR_NOT_ACCEPTED = Some (str ''not accepted'')" "lits_ok (hmem ?g2)"
      using assms(5,6,11) by (simp_all add: conn_state_def HttpStatusString_def lits_ok_def)
    have "sent v = sent (world g)" using assms(2,8) rd by (auto simp: file_contract_def)
    with HttpResponse_CannedError_sends [OF assms(1) pre ce] False rc show ?thesis
      by (auto simp: pn req_has_def)
  next
    case True
    then have ok0: "0 \<le> fst (sl_FsRead ops (glFileHandle ?g) 0 ?n (world ?g))" by simp
    obtain v g2 where rd: "sl_FsRead ops (glFileHandle ?g) 0 ?n (world ?g) = (int ?n, take ?n (drop 0 file), v)"
      and sv: "sent v = sent (world ?g)"
      and g2: "g2 = read_state (int ?n) ?n (take ?n (drop 0 file)) v ?g"
      and b2: "blob_bytes (hmem g2) \<lparr>uLength = piece ?left, pData = Ptr (Heap (heap_next ?g)) 0\<rparr> = take ?n (drop 0 file)"
      by (rule read_piece [OF assms(2) h0 off ok0])
    let ?c = "\<lparr>uLength = piece ?left, pData = Ptr (Heap (heap_next ?g)) 0\<rparr>"
    obtain hh g3 where h: "HttpResponse_Headers ops u HTTP_STATUS_OK 0 ?left nullBlob nullBlob g2 = Some (hh, g3)"
      and k: "(if hh = 0 then Some (0, g3) else do {
           (c, g4) \<leftarrow> HttpResponse_Content ops u ?c g3;
           if c = 0 then Some (0, g4)
           else static_loop ops u True (?left - ucast (piece ?left)) (0 + ?n) g4 }) = Some (r, g')"
      by (rule bind_pair_SomeE [where m = "HttpResponse_Headers ops u HTTP_STATUS_OK 0 ?left nullBlob nullBlob g2"
            and z = "(r, g')"])
        (use run static_loop_step [OF pos rd, of u False] in \<open>simp add: g2 Let_def del: http_statuses\<close>)
    have pre: "packetSendSize g2 = 0" "conn_state g2 u = Processing"
      using assms(5,6) by (simp_all add: g2 conn_state_def)
    note res = ok_headers [OF assms(1) pre h]
    show ?thesis
    proof (cases "hh = 0")
      case True
      with k res show ?thesis by auto
    next
      case False
      let ?t = "response_text (req_has g u HTTP_REQUEST_1_1) 200 (str ''ok'') [] ?left False []"
      have out: "sent (world g3) = sent (world g) @ map (Pair ?d) ?t"
        and l3: "uContentLeft (connections g3 u) = ?left" and d3: "dataSocket (connections g3 u) = ?d"
        using res False sv assms(8) by (auto simp: g2 req_has_def)
      have b3: "blob_bytes (hmem g3) ?c = take ?n (drop 0 file)"
        using res b2 by (subst blob_bytes_frame [of _ _ "hmem g2"]) auto
      have h3: "glFileHandle g3 = glFileHandle g" using ok_headers_handle [OF pre h] by (simp add: g2)
      from k False have k': "do {
           (c, g4) \<leftarrow> HttpResponse_Content ops u ?c g3;
           if c = 0 then Some (0, g4)
           else static_loop ops u True (?left - ucast (piece ?left)) (0 + ?n) g4 } = Some (r, g')" by simp
      from static_tail [OF assms(1,2) h3 l3 pos off _ b3 k'] out d3 True
      show ?thesis by (auto simp: pn)
    qed
  qed
qed

lemma static_request_returns:
  assumes "send_contract ops sent" "send_progress ops rank" "file_contract ops sent (glFileHandle g) file"
    "reads_succeed ops (glFileHandle g)"
    "\<not> has_flag (uFlags req) HTTP_REQUEST_FLAG_METHOD_POST" "u = unat (req_uConnection req)"
    "packetSendSize g = 0" "conn_state g u = Processing"
    "sl_FsGetInfo ops (file_name g) (world g) = (of_nat (length file), w')"
    "file \<noteq> []" "length file < 2 ^ 32"
  shows "\<exists>r g'. HttpStatic_ProcessRequest ops req g = Some (r, g')"
proof -
  let ?left = "of_nat (length file) :: u32" and ?g = "g\<lparr>world := w'\<rparr>"
  let ?n = "unat (piece ?left)"
  have left: "unat ?left = length file" using assms(11) by (intro unat_of_nat_small) simp
  then have pos: "?left > 0" using assms(10) by (metis length_greater_0_conv unat_gt_0 word_gt_0)
  have off: "unat ?left = length file - 0" using left by simp
  have h0: "glFileHandle ?g = glFileHandle g" by simp
  obtain v g2 where rd: "sl_FsRead ops (glFileHandle ?g) 0 ?n (world ?g) = (int ?n, take ?n (drop 0 file), v)"
    and g2: "g2 = read_state (int ?n) ?n (take ?n (drop 0 file)) v ?g"
    by (rule read_piece [OF assms(3) h0 off]) (use assms(4) in \<open>simp add: reads_succeed_def\<close>)
  have pre: "packetSendSize g2 = 0" "conn_state g2 u = Processing"
    using assms(7,8) by (simp_all add: g2 conn_state_def)
  have t: "response_text (req_has g2 u HTTP_REQUEST_1_1) HTTP_STATUS_OK (str ''ok'') [] ?left False [] =
    response_text (req_has g2 u HTTP_REQUEST_1_1) HTTP_STATUS_OK (str ''ok'')
      (blob_bytes (hmem g2) nullBlob) ?left (has_flag 0 HTTP_RESPONSE_FLAG_COMPRESSED) (blob_bytes (hmem g2) nullBlob)"
    by (simp add: nullBlob_facts has_flag_def)
  have le: "length (response_text (req_has g2 u HTTP_REQUEST_1_1) HTTP_STATUS_OK (str ''ok'') [] ?left False [])
      \<le> HTTP_CORE_MAX_PACKET_SIZE_SEND" using ok_text_fits by simp
  from Headers_returns [OF pre status_ok nullBlob_facts(2) nullBlob_facts(2) t le assms(2)]
  obtain hh g3 where h: "HttpResponse_Headers ops u HTTP_STATUS_OK 0 ?left nullBlob nullBlob g2 = Some (hh, g3)"
    by blast
  note res = ok_headers [OF assms(1) pre h]
  have eq: "HttpStatic_ProcessRequest ops req g = (if hh = 0 then Some (0, g3) else do {
         (c, g4) \<leftarrow> HttpResponse_Content ops u \<lparr>uLength = piece ?left, pData = Ptr (Heap (heap_next ?g)) 0\<rparr> g3;
         if c = 0 then Some (0, g4)
         else static_loop ops u True (?left - ucast (piece ?left)) (0 + ?n) g4 })"
    using static_loop_step [OF pos rd, of u False] assms(5,6,9) h
    by (simp add: HttpStatic_ProcessRequest_def g2 Let_def del: http_statuses)
  show ?thesis
  proof (cases "hh = 0")
    case True
    then show ?thesis by (simp add: eq)
  next
    case False
    then have st: "conn_state g3 u = ResponseData" and l3: "uContentLeft (connections g3 u) = ?left"
      using res pos by auto
    have h3: "glFileHandle g3 = glFileHandle g" using ok_headers_handle [OF pre h] by (simp add: g2)
    from static_tail_returns [OF assms(1-4) h3 l3 pos off _ st, of "Heap (heap_next ?g)"] False
    show ?thesis by (simp add: eq)
  qed
qed

text \<open>Serving a static file ends: under the same contracts, if only finitely many \<open>SL_EAGAIN\<close>
  answers can follow a world and no read fails, the call returns for every file that is not empty.\<close>

theorem HttpStatic_ProcessRequest_returns:
  assumes "send_contract ops sent" "send_progress ops rank" "file_contract ops sent (glFileHandle g) file"
    "reads_succeed ops (glFileHandle g)"
    "\<not> has_flag (uFlags req) HTTP_REQUEST_FLAG_METHOD_POST" "u = unat (req_uConnection req)"
    "packetSendSize g = 0" "conn_state g u = Processing"
    "sl_FsGetInfo ops (file_name g) (world g) = (of_nat (length file), w')"
    "file \<noteq> []" "length file < 2 ^ 32"
  shows "\<exists>r g'. HttpStatic_ProcessRequest ops req g = Some (r, g')"
  using assms by (rule static_request_returns)

text \<open>An empty file is never answered: the call succeeds without sending anything and leaves the
  connection in the \<open>Processing\<close> state it found it in.\<close>

theorem HttpStatic_empty_file_unanswered:
  assumes "sl_FsGetInfo ops (file_name g) (world g) = (0, w')"
    "\<not> has_flag (uFlags req) HTTP_REQUEST_FLAG_METHOD_POST"
  shows "HttpStatic_ProcessRequest ops req g =
    Some (1, g\<lparr>world := snd (sl_FsClose ops (glFileHandle g) w')\<rparr>)"
  using assms by (simp add: HttpStatic_ProcessRequest_def static_loop_end)

text \<open>A resource string longer than 36 bytes overruns the 40-byte file name: the byte that goes
  to offset 40 is a byte of the URL or the terminating NUL, written whatever was there.\<close>

theorem HttpStatic_InitRequest_overrun:
  assumes "\<not> (uLength resource = 1 \<and> ptr_byte (memset (hmem g) FileName 0 0 FILE_NAME_SIZE_MAX) (pData resource) = 47)"
    "pData resource = Ptr b off" "b \<noteq> FileName" "0 \<notin> set (blob_bytes (hmem g) resource)"
    "38 \<le> length (blob_bytes (hmem g) resource)"
    "HttpStatic_InitRequest ops u resource g = (r, g')"
  shows "hmem g' FileName FILE_NAME_SIZE_MAX = blob_bytes (hmem g) resource ! 37"
proof -
  let ?m = "memset (hmem g) FileName 0 0 FILE_NAME_SIZE_MAX" and ?bs = "blob_bytes (hmem g) resource"
  have bs: "blob_bytes ?m resource = ?bs"
    by (rule blob_bytes_frame) (use assms(2,3) in \<open>auto simp: memset_def mem_write_other\<close>)
  have tw: "takeWhile (\<lambda>c. c \<noteq> 0) ?bs = ?bs"
    using assms(4) by (auto simp: takeWhile_eq_all_conv)
  have "hmem g' = mem_write (mem_write ?m FileName 0 (str ''www'' @ [0])) FileName 3 (?bs @ [0])"
    using assms(1,6) by (auto simp: HttpStatic_InitRequest_def Let_def bs tw split: prod.splits)
  then show ?thesis using assms(5) by (simp add: mem_write_same FILE_NAME_SIZE_MAX_def nth_append)
qed

section \<open>Dynamic resources\<close>

text \<open>Nothing the search does changes the table, the connections or the sockets.\<close>

lemma next_token_simps:
  assumes "next_token tok blob g = (r, g')"
  shows "g_RestContent g' = g_RestContent g" "connections g' = connections g" "world g' = world g"
    "packetSendSize g' = packetSendSize g"
  using next_token_frame [OF assms] by (metis HttpGlobalState.ext_inject HttpGlobalState.surjective HttpGlobalState.update_convs(1))+

text \<open>Which resources a URL names: the string occurs in the URL in lower case.\<close>

definition names :: "u8 list \<Rightarrow> u8 list \<Rightarrow> bool" where
  "names tok url \<longleftrightarrow> (\<exists>i. occurs_at tok (map lower_byte url) i)"

lemma next_token_names:
  assumes "pData blob = Ptr b off" "tok \<noteq> []" "next_token tok blob g = (r, g')"
  shows "(r \<noteq> Null \<longleftrightarrow> names tok (blob_bytes (hmem g) blob)) \<and>
    map lower_byte (blob_bytes (hmem g') blob) = map lower_byte (blob_bytes (hmem g) blob)"
proof -
  obtain m' where e: "HttpString_nextToken (hmem g) tok blob = (r, m')" and g': "g' = g\<lparr>hmem := m'\<rparr>"
    using assms(3) by (auto simp: next_token_def split: prod.splits)
  have low: "blob_bytes m' blob = map lower_byte (blob_bytes (hmem g) blob)"
    and f: "case r of Null \<Rightarrow> \<forall>i. \<not> occurs_at tok (blob_bytes m' blob) i
         | Ptr b' p \<Rightarrow> b' = b \<and> off \<le> p \<and> first_occurrence tok (blob_bytes m' blob) (p - off)"
    using nextToken_correct [OF assms(2,1) e] by auto
  have "map lower_byte (blob_bytes m' blob) = map lower_byte (blob_bytes (hmem g) blob)"
    by (simp add: low comp_def lower_byte_idem)
  with f low show ?thesis
    by (auto simp: g' names_def first_occurrence_def split: ptr.splits)
qed

definition registered :: "'w HttpGlobalState \<Rightarrow> nat \<Rightarrow> u8 list \<Rightarrow> bool" where
  "registered g j s \<longleftrightarrow> ResourceString (g_RestContent g j) = Some s \<and> s \<noteq> [] \<and> length s < 65536"

lemma dynamic_search_spec:
  assumes "pData resource = Ptr b off" "\<forall>j<MAX_RESOURCE. registered g j (S j)"
    "map lower_byte (blob_bytes (hmem g) resource) = map lower_byte url" "k \<le> MAX_RESOURCE"
  shows "\<exists>k' g'. dynamic_search resource k g = Some (k', g') \<and> g_RestContent g' = g_RestContent g \<and>
    connections g' = connections g \<and> world g' = world g \<and>
    k \<le> k' \<and> k' \<le> MAX_RESOURCE \<and> (k' < MAX_RESOURCE \<longrightarrow> names (S k') url) \<and>
    (\<forall>j. k \<le> j \<and> j < k' \<longrightarrow> \<not> names (S j) url)"
  using assms
proof (induction "MAX_RESOURCE - k" arbitrary: k g)
  case 0
  then show ?case by (subst dynamic_search.simps) auto
next
  case (Suc d)
  then have lt: "k < MAX_RESOURCE" by simp
  with Suc.prems(2) have r: "ResourceString (g_RestContent g k) = Some (S k)" "S k \<noteq> []" "length (S k) < 65536"
    by (auto simp: registered_def)
  obtain p g1 where nt: "next_token (S k) resource g = (p, g1)" by (rule prod.exhaust)
  note sp = next_token_names [OF Suc.prems(1) r(2) nt] and fr = next_token_simps [OF nt]
  have same: "names (S k) (blob_bytes (hmem g) resource) = names (S k) url"
    using Suc.prems(3) by (simp add: names_def)
  have step: "dynamic_search resource k g =
      (if p \<noteq> Null then Some (k, g1) else dynamic_search resource (Suc k) g1)"
    using lt r nt by (subst dynamic_search.simps) simp
  show ?case
  proof (cases "p = Null")
    case False
    with sp same lt fr show ?thesis by (auto simp: step)
  next
    case True
    have "\<exists>k' g'. dynamic_search resource (Suc k) g1 = Some (k', g') \<and> g_RestContent g' = g_RestContent g1 \<and>
      connections g' = connections g1 \<and> world g' = world g1 \<and>
      Suc k \<le> k' \<and> k' \<le> MAX_RESOURCE \<and> (k' < MAX_RESOURCE \<longrightarrow> names (S k') url) \<and>
      (\<forall>j. Suc k \<le> j \<and> j < k' \<longrightarrow> \<not> names (S j) url)"
      by (rule Suc.hyps(1)) (use Suc.hyps(2) Suc.prems sp fr lt in \<open>auto simp: registered_def\<close>)
    then obtain k' g' where k': "dynamic_search resource (Suc k) g1 = Some (k', g')"
      "g_RestContent g' = g_RestContent g1" "connections g' = connections g1" "world g' = world g1"
      "Suc k \<le> k'" "k' \<le> MAX_RESOURCE" "k' < MAX_RESOURCE \<longrightarrow> names (S k') url"
      and lo: "\<forall>j. Suc k \<le> j \<and> j < k' \<longrightarrow> \<not> names (S j) url" by blast
    have "\<not> names (S k) url" using True sp same by simp
    then have "\<forall>j. k \<le> j \<and> j < k' \<longrightarrow> \<not> names (S j) url"
      using lo by (metis Suc_leI le_neq_implies_less)
    with k' True fr show ?thesis by (auto simp: step)
  qed
qed

text \<open>Dispatch of a dynamic request: when all ten resources are registered the search always
  ends; it selects the first resource whose name occurs in the URL (read in lower case), and the
  handler accepts the request exactly when there is one and its method is the method of the
  request.\<close>

theorem HttpDynamic_InitRequest_dispatch:
  assumes "pData resource = Ptr b off" "\<forall>j<MAX_RESOURCE. registered g j (S j)"
  shows "\<exists>r g'. HttpDynamic_InitRequest u resource method g = Some (r, g') \<and>
    g_NumResource g' \<le> MAX_RESOURCE \<and>
    (g_NumResource g' < MAX_RESOURCE \<longrightarrow> names (S (g_NumResource g')) (blob_bytes (hmem g) resource)) \<and>
    (\<forall>j<g_NumResource g'. \<not> names (S j) (blob_bytes (hmem g) resource)) \<and>
    (r \<noteq> 0 \<longleftrightarrow> g_NumResource g' < MAX_RESOURCE \<and>
               rest_method (g_RestContent g (g_NumResource g')) = method) \<and>
    g_RestContent g' = g_RestContent g \<and> connections g' = connections g \<and> world g' = world g"
proof -
  obtain k g1 where d: "dynamic_search resource 0 g = Some (k, g1)" "g_RestContent g1 = g_RestContent g"
    "connections g1 = connections g" "world g1 = world g" "k \<le> MAX_RESOURCE"
    "k < MAX_RESOURCE \<longrightarrow> names (S k) (blob_bytes (hmem g) resource)"
    "\<forall>j<k. \<not> names (S j) (blob_bytes (hmem g) resource)"
    using dynamic_search_spec [OF assms refl, of 0] by auto
  then show ?thesis by (auto simp: HttpDynamic_InitRequest_def Let_def)
qed

text \<open>The number of resources and the search index share one variable: after a request that
  names no resource, the next registration reports success and writes the entry after the last
  one of the table.\<close>

theorem SetResources_after_miss_overruns:
  assumes "pData resource = Ptr b off" "\<forall>j<MAX_RESOURCE. registered g j (S j)"
    "\<forall>j<MAX_RESOURCE. \<not> names (S j) (blob_bytes (hmem g) resource)"
    "HttpDynamic_InitRequest u resource method g = Some (r, g1)"
  shows "\<exists>g2. SetResources me name cb g1 = (1, g2) \<and>
    ResourceString (g_RestContent g2 MAX_RESOURCE) = Some name"
proof -
  obtain k g0 where d: "dynamic_search resource 0 g = Some (k, g0)" "k \<le> MAX_RESOURCE"
    "k < MAX_RESOURCE \<longrightarrow> names (S k) (blob_bytes (hmem g) resource)"
    using dynamic_search_spec [OF assms(1,2) refl, of 0] by auto
  with assms(3) have "k = MAX_RESOURCE" by (metis le_neq_implies_less)
  with d(1) assms(4) have "g_NumResource g1 = MAX_RESOURCE"
    by (auto simp: HttpDynamic_InitRequest_def Let_def)
  then show ?thesis by (simp add: SetResources_def)
qed

text \<open>A dynamic resource is answered with the string its callback returns: when the call
  succeeds the bytes sent are the header text with the string's length, followed by the string,
  and the transaction is complete.\<close>

theorem HttpDynamic_ProcessRequest_answers:
  assumes "send_contract ops sent" "u = unat (req_uConnection req)" "packetSendSize g = 0"
    "conn_state g u = Processing" "lits_ok (hmem g)"
    "pCbfunc (g_RestContent g (g_NumResource g)) (world g) = (body, w')" "sent w' = sent (world g)"
    "length body < 65536"
    "HttpDynamic_ProcessRequest ops req g = Some (r, g')"
  shows "r = 0 \<or> r = 1 \<and> sent (world g') = sent (world g) @ map (Pair (dataSocket (connections g u)))
      (response_text (req_has g u HTTP_REQUEST_1_1) 200 (str ''ok'') [] (of_nat (length body)) False [] @ body) \<and>
    conn_state g' u = ResponseComplete"
proof -
  let ?cb = "lit_blob body" and ?g = "g\<lparr>world := w'\<rparr>" and ?d = "dataSocket (connections g u)"
  let ?t = "response_text (req_has g u HTTP_REQUEST_1_1) 200 (str ''ok'') [] (of_nat (length body)) False []"
  have sz16: "unat (of_nat (length body) :: u16) = length body"
    using assms(8) by (intro unat_of_nat_small) simp
  have sz32: "unat (of_nat (length body) :: u32) = length body"
    using assms(8) by (intro unat_of_nat_small) simp
  have clen: "ucast (uLength ?cb) = (of_nat (length body) :: u32)"
    by (rule word_unat_eq_iff [THEN iffD2]) (simp add: lit_blob_def sz16 sz32)
  have z: "uLength ?cb = 0 \<longleftrightarrow> body = []"
    using sz16 by (simp add: lit_blob_def unat_eq_0 [symmetric])
  obtain h g1 where hd: "HttpResponse_Headers ops u HTTP_STATUS_OK 0 (of_nat (length body)) nullBlob nullBlob ?g = Some (h, g1)"
    and k: "(if h = 0 then Some (0, g1) else if uLength ?cb \<noteq> 0 then do {
          (c, g2) \<leftarrow> HttpResponse_Content ops u ?cb g1; Some (if c = 0 then 0 else 1, g2) }
        else Some (1, g1)) = Some (r, g')"
    using assms(9) unfolding HttpDynamic_ProcessRequest_def assms(2) [symmetric] assms(6) Let_def
    by (auto simp: clen elim!: bind_pair_SomeE simp del: http_statuses)
  have pre: "packetSendSize ?g = 0" "conn_state ?g u = Processing" using assms(3,4) by (simp_all add: conn_state_def)
  note res = ok_headers [OF assms(1) pre hd]
  show ?thesis
  proof (cases "h = 0 \<or> body = []")
    case True
    with k z res assms(7) show ?thesis by (auto simp: req_has_def split: if_splits)
  next
    case False
    then have pos: "(of_nat (length body) :: u32) > 0"
      using sz32 by (simp add: word_gt_0 unat_eq_0 [symmetric])
    from k False z obtain c where ct: "HttpResponse_Content ops u ?cb g1 = Some (c, g')"
      and r: "r = (if c = 0 then 0 else 1)" by (auto elim!: bind_pair_SomeE)
    have left: "uContentLeft (connections g1 u) = of_nat (length body)" using res by simp
    then have nz: "uContentLeft (connections g1 u) \<noteq> 0" using pos by (simp add: word_gt_0)
    have "lits_ok (hmem ?g)" using assms(5) by simp
    then have b: "blob_bytes (hmem g1) ?cb = body"
      using lit_blob_bytes [OF _ _ sz16] res by blast
    from Content_result [OF assms(1) sendable_lit nz ct] res False r b clen left assms(7) show ?thesis
      by (auto simp: req_has_def)
  qed
qed

section \<open>Witnesses\<close>

definition file_ops :: "u8 list \<Rightarrow> (int \<times> u8) list sl_ops" where
  "file_ops file = log_ops\<lparr>sl_FsGetInfo := (\<lambda>_ w. (of_nat (length file), w)),
     sl_FsRead := (\<lambda>_ off n w. (int (min n (length file - off)), take n (drop off file), w))\<rparr>"

lemma file_ops_contracts:
  "send_contract (file_ops f) id" "send_progress (file_ops f) (\<lambda>_. 0)" "file_contract (file_ops f) id h f" "reads_succeed (file_ops f) h"
  by (auto simp: reads_succeed_def send_contract_def send_progress_def file_contract_def file_ops_def log_ops_def null_ops_def
      SL_EAGAIN_def)

lemma file_ops_accepts: "send_accepts (file_ops f)"
  using log_ops_accepts by (simp add: send_accepts_def file_ops_def)

lemma ready_state_facts:
  "packetSendSize ready_state = 0" "conn_state ready_state 0 = Processing" "lits_ok (hmem ready_state)"
  "world ready_state = []" "glFileHandle ready_state = 0" "uFlags (request (connections ready_state 0)) = 0"
  "dataSocket (connections ready_state 0) = 5" "req_uConnection (request (connections ready_state 0)) = 0"
  by (simp_all add: ready_state_simps sample_connection_def conn_state_def lits_ok_def)

lemma file_ops_run:
  shows "sl_FsGetInfo (file_ops f) (file_name g) (world g) = (of_nat (length f), world g)"
  by (simp add: file_ops_def)

theorem HttpStatic_ProcessRequest_returns_witness:
  "\<exists>r g'. HttpStatic_ProcessRequest (file_ops [72, 105]) (request (connections ready_state 0)) ready_state
     = Some (r, g')"
  by (rule HttpStatic_ProcessRequest_returns [OF file_ops_contracts _ _ ready_state_facts(1,2) file_ops_run])
    (simp_all add: ready_state_facts has_flag_def)

theorem HttpStatic_ProcessRequest_serves_file_witness:
  "\<exists>g'. HttpStatic_ProcessRequest (file_ops [72, 105]) (request (connections ready_state 0)) ready_state
       = Some (1, g') \<and>
     world g' = map (Pair 5) (response_text (req_has ready_state 0 HTTP_REQUEST_1_1) 200
        (str ''ok'') [] 2 False [] @ [72, 105]) \<and> conn_state g' 0 = ResponseComplete"
proof -
  let ?req = "request (connections ready_state 0)" and ?f = "[72, 105] :: u8 list"
  have nf: "\<not> has_flag (uFlags ?req) HTTP_REQUEST_FLAG_METHOD_POST" "0 = unat (req_uConnection ?req)"
    "?f \<noteq> []" "length ?f < 2 ^ 32" by (simp_all add: ready_state_facts has_flag_def)
  obtain r g' where e: "HttpStatic_ProcessRequest (file_ops ?f) ?req ready_state = Some (r, g')"
    using static_request_returns [OF file_ops_contracts nf(1,2) ready_state_facts(1,2) file_ops_run nf(3,4)]
    by blast
  from HttpStatic_ProcessRequest_serves_file [OF file_ops_contracts(1,3) nf(1,2) ready_state_facts(1,2)
      file_ops_run refl nf(3,4) ready_state_facts(3) e] e
  show ?thesis using file_ops_accepts [of ?f]
    by (simp add: ready_state_facts) (auto simp: file_ops_def)
qed

theorem HttpStatic_empty_file_unanswered_witness:
  "HttpStatic_ProcessRequest (file_ops []) (request (connections ready_state 0)) ready_state =
     Some (1, ready_state\<lparr>world := []\<rparr>)"
  using HttpStatic_empty_file_unanswered [of "file_ops []" ready_state "[]" "request (connections ready_state 0)"]
  by (simp add: file_ops_run ready_state_facts has_flag_def)
    (simp add: file_ops_def log_ops_def null_ops_def)

theorem HttpStatic_read_error_hangs_witness:
  "static_loop null_ops 0 True 5 0 (set_conn_state 0 ResponseData ready_state) = None"
  by (rule HttpStatic_read_error_hangs) (simp_all add: conn_defs null_ops_def)

theorem HttpStatic_InitRequest_overrun_witness:
  "hmem (snd (HttpStatic_InitRequest null_ops 0 \<lparr>uLength = 38, pData = Ptr PacketRecv 0\<rparr>
     (ready_state\<lparr>hmem := (\<lambda>_ _. 65)\<rparr>))) FileName FILE_NAME_SIZE_MAX = 65"
proof -
  let ?g = "ready_state\<lparr>hmem := (\<lambda>_ _. 65)\<rparr>" and ?b = "\<lparr>uLength = 38, pData = Ptr PacketRecv 0\<rparr>"
  obtain r g' where e: "HttpStatic_InitRequest null_ops 0 ?b ?g = (r, g')" by (rule prod.exhaust)
  have "blob_bytes (hmem ?g) ?b = replicate 38 65"
    by (simp add: blob_bytes_def mem_read_def map_replicate_const)
  then show ?thesis
    using HttpStatic_InitRequest_overrun [of ?b ?g PacketRecv 0, OF _ _ _ _ _ e] by (simp add: e)
qed

text \<open>A table whose ten entries are registered.\<close>

definition full_table :: "(int \<times> u8) list HttpGlobalState" where
  "full_table = ready_state\<lparr>g_RestContent :=
     (\<lambda>j. \<lparr>rest_method = GET, ResourceString = Some (str ''led''), pCbfunc = (\<lambda>w. (str ''on'', w))\<rparr>)\<rparr>"

lemma full_table_registered: "\<forall>j<MAX_RESOURCE. registered full_table j (str ''led'')"
  by (simp add: registered_def full_table_def) (simp add: str_def)

theorem HttpDynamic_InitRequest_dispatch_witness:
  "\<exists>r g'. HttpDynamic_InitRequest 0 (lit_blob (str ''/led'')) GET full_table = Some (r, g') \<and>
     g_NumResource g' \<le> MAX_RESOURCE \<and> g_RestContent g' = g_RestContent full_table"
  using HttpDynamic_InitRequest_dispatch [OF _ full_table_registered, of "lit_blob (str ''/led'')" "Lit (str ''/led'')" 0 0 GET]
  by (auto simp: lit_blob_def)

theorem SetResources_after_miss_overruns_witness:
  "\<exists>r g1 g2. HttpDynamic_InitRequest 0 (nullBlob\<lparr>pData := Ptr PacketRecv 0\<rparr>) GET full_table = Some (r, g1) \<and>
     SetResources GET (str ''x'') (\<lambda>w. ([], w)) g1 = (1, g2) \<and>
     ResourceString (g_RestContent g2 MAX_RESOURCE) = Some (str ''x'')"
proof -
  let ?b = "nullBlob\<lparr>pData := Ptr PacketRecv 0\<rparr> :: hblob"
  have p: "pData ?b = Ptr PacketRecv 0" by simp
  have no: "\<forall>j<MAX_RESOURCE. \<not> names (str ''led'') (blob_bytes (hmem full_table) ?b)"
    by (simp add: names_def blob_bytes_def nullBlob_def occurs_at_def)
  obtain k g0 where "dynamic_search ?b 0 full_table = Some (k, g0)"
    using dynamic_search_spec [OF p full_table_registered refl, of 0] by auto
  then obtain r g1 where e: "HttpDynamic_InitRequest 0 ?b GET full_table = Some (r, g1)"
    by (simp add: HttpDynamic_InitRequest_def Let_def)
  from SetResources_after_miss_overruns [OF p full_table_registered no e, of GET "str ''x''" "\<lambda>w. ([], w)"] e
  show ?thesis by blast
qed

theorem HttpDynamic_ProcessRequest_answers_witness:
  "\<exists>r g'. HttpDynamic_ProcessRequest log_ops (request (connections full_table 0)) full_table = Some (r, g') \<and>
     (r = 0 \<or> r = 1 \<and> world g' = map (Pair 5) (response_text (req_has full_table 0 HTTP_REQUEST_1_1) 200
        (str ''ok'') [] 2 False [] @ str ''on''))"
proof -
  let ?req = "request (connections full_table 0)" and ?body = "str ''on''"
  have f: "0 = unat (req_uConnection ?req)" "packetSendSize full_table = 0" "conn_state full_table 0 = Processing"
    "lits_ok (hmem full_table)" "world full_table = []" "dataSocket (connections full_table 0) = 5"
    using ready_state_facts by (simp_all add: full_table_def conn_state_def)
  have cb: "pCbfunc (g_RestContent full_table (g_NumResource full_table)) (world full_table) = (?body, [])"
    using f(5) by (simp add: full_table_def)
  have len: "length ?body = 2" by simp
  let ?t = "response_text (req_has full_table 0 HTTP_REQUEST_1_1) HTTP_STATUS_OK (str ''ok'') [] 2 False []"
  have t: "?t = response_text (req_has full_table 0 HTTP_REQUEST_1_1) HTTP_STATUS_OK (str ''ok'')
      (blob_bytes (hmem full_table) nullBlob) 2 (has_flag 0 HTTP_RESPONSE_FLAG_COMPRESSED)
      (blob_bytes (hmem full_table) nullBlob)"
    by (simp add: nullBlob_facts has_flag_def)
  have le: "length ?t \<le> HTTP_CORE_MAX_PACKET_SIZE_SEND" using ok_text_fits by simp
  obtain h g1 where hd: "HttpResponse_Headers log_ops 0 HTTP_STATUS_OK 0 2 nullBlob nullBlob full_table = Some (h, g1)"
    using Headers_returns [OF f(2,3) status_ok nullBlob_facts(2) nullBlob_facts(2) t le log_ops_answers] by blast
  note res = ok_headers [OF log_ops_contract f(2,3) hd]
  have upd: "full_table\<lparr>world := []\<rparr> = full_table" using f(5) by simp
  have "\<exists>r g'. HttpDynamic_ProcessRequest log_ops ?req full_table = Some (r, g')"
  proof (cases "h = 0")
    case True
    then show ?thesis
      unfolding HttpDynamic_ProcessRequest_def f(1) [symmetric] cb Let_def using hd upd
      by (simp add: lit_blob_def del: http_statuses)
  next
    case False
    with res have "conn_state g1 0 = ResponseData"
      "ucast (uLength (lit_blob ?body)) \<le> uContentLeft (connections g1 0)"
      by (auto simp: lit_blob_def)
    from Content_returns [OF log_ops_answers sendable_lit this]
    obtain c g2 where "HttpResponse_Content log_ops 0 (lit_blob ?body) g1 = Some (c, g2)" by blast
    with False show ?thesis
      unfolding HttpDynamic_ProcessRequest_def f(1) [symmetric] cb Let_def using hd upd
      by (simp add: lit_blob_def del: http_statuses)
  qed
  then obtain r g' where e: "HttpDynamic_ProcessRequest log_ops ?req full_table = Some (r, g')" by blast
  from HttpDynamic_ProcessRequest_answers [OF log_ops_contract f(1-4) cb _ _ e] e show ?thesis
    by (auto simp: f(5,6))
qed

end
