(* ===== verification/Http_Request.thy ===== *)
theory Http_Request
  imports Http_Content
begin

text \<open>
  The request parser of \<open>netapps/http/server/HttpCore.c\<close>: \<open>HttpCore_HandleMethodLine\<close> and
  \<open>HttpCore_HandleHeaderLine\<close>.  \<open>parse_method\<close>, \<open>parse_version\<close> and \<open>select_handler\<close> are the three
  parts of the method-line handler, in the order of the code.
\<close>

section \<open>The method line\<close>

text \<open>The sizes of the objects, as far as the code declares them; \<open>atoi\<close> reads up to their end.\<close>

fun block_size :: "'w HttpGlobalState \<Rightarrow> http_block \<Rightarrow> nat" where
  "block_size g PacketRecv = HTTP_CORE_MAX_PACKET_SIZE_RECEIVED"
| "block_size g PacketSend = HTTP_CORE_MAX_PACKET_SIZE_SEND"
| "block_size g (HeaderStart u) = HTTP_CORE_MAX_HEADER_LINE_LENGTH"
| "block_size g WsKey = WS_KEY_LENGTH"
| "block_size g MaskKey = 4"
| "block_size g FileName = FILE_NAME_SIZE_MAX"
| "block_size g (Heap k) = heap_size g k"
| "block_size g (Lit bs) = length bs + 1"

text \<open>
  The method: its location, its length and the method code, or \<open>None\<close> for an unsupported
  method.
\<close>

definition parse_method ::
  "nat \<Rightarrow> hblob \<Rightarrow> 'w HttpGlobalState \<Rightarrow> (http_block ptr \<times> nat \<times> u8) option \<times> 'w HttpGlobalState" where
  "parse_method u line g =
     (let (loc1, g1) = next_token HTTP_METHOD_GET line g;
          (loc, len, method, g2) =
            (if loc1 = Null then
               let (l, g1') = next_token HTTP_METHOD_POST line g1
               in (l, length HTTP_METHOD_POST, POST, set_req_flag u HTTP_REQUEST_FLAG_METHOD_POST g1')
             else (loc1, length HTTP_METHOD_GET, GET,
                   clear_req_flag u HTTP_REQUEST_FLAG_METHOD_POST
                     (req_upd u (\<lambda>r. r\<lparr>requestContent := (requestContent r)\<lparr>uLength := 0\<rparr>\<rparr>) g1)))
      in if loc \<noteq> pData line then
           let (l, g3) = next_token HTTP_METHOD_POST line g2;
               g4 = set_req_flag u HTTP_REQUEST_FLAG_METHOD_POST g3
           in if l = Null \<or> l \<noteq> pData line then (None, g4)
              else (Some (l, length HTTP_METHOD_POST, method), g4)
         else (Some (loc, len, method), g2))"

definition parse_version ::
  "nat \<Rightarrow> hblob \<Rightarrow> 'w HttpGlobalState \<Rightarrow> http_block ptr option \<times> 'w HttpGlobalState" where
  "parse_version u line g =
     (let (v, g1) = next_token HTTP_VERSION_1P1 line g in
      if v \<noteq> Null then (Some v, set_req_flag u HTTP_REQUEST_1_1 g1)
      else let (v0, g2) = next_token HTTP_VERSION_1P0 line g1 in
        if v0 \<noteq> Null then (Some v0, clear_req_flag u HTTP_REQUEST_1_1 g2) else (None, g2))"

definition select_handler ::
  "'w sl_ops \<Rightarrow> nat \<Rightarrow> hblob \<Rightarrow> u8 \<Rightarrow> 'w HttpGlobalState \<Rightarrow> 'w HttpGlobalState option" where
  "select_handler ops u resource method g =
     (let (s, g1) = HttpStatic_InitRequest ops u resource g in
      if s \<noteq> 0 then Some (conn_upd u (\<lambda>c. c\<lparr>handler := HttpStatic, connectionState := RequestHeaders\<rparr>) g1)
      else do {
        (d, g2) \<leftarrow> HttpDynamic_InitRequest u resource method g1;
        Some (conn_upd u (\<lambda>c. c\<lparr>handler := (if d \<noteq> 0 then HttpDynamic else None_handler),
                                connectionState := RequestHeaders\<rparr>) g2)
      })"

definition HttpCore_HandleMethodLine ::
  "'w sl_ops \<Rightarrow> nat \<Rightarrow> hblob \<Rightarrow> 'w HttpGlobalState \<Rightarrow> (int \<times> 'w HttpGlobalState) option" where
  "HttpCore_HandleMethodLine ops u line g =
     (let (pm, g1) = parse_method u line g in
      case pm of None \<Rightarrow> Some (0, g1)
      | Some (methodLocation, uMethodLength, method) \<Rightarrow>
          let (pv, g2) = parse_version u line g1 in
          case pv of None \<Rightarrow> Some (0, g2)
          | Some versionLocation \<Rightarrow>
              let start = ptr_add methodLocation (uMethodLength + 1);
                  resource = \<lparr>uLength = ptr_diff16 versionLocation start - 1, pData = start\<rparr>
              in do {
                g3 \<leftarrow> select_handler ops u resource method g2;
                Some (1, g3)
              })"

section \<open>Header lines\<close>

text \<open>\<open>HttpString_nextToken(tok, line) == line.pData\<close>.\<close>

definition line_starts :: "u8 list \<Rightarrow> hblob \<Rightarrow> 'w HttpGlobalState \<Rightarrow> bool \<times> 'w HttpGlobalState" where
  "line_starts tok line g = (let (r, g1) = next_token tok line g in (r = pData line, g1))"

definition set_or_clear :: "nat \<Rightarrow> u16 \<Rightarrow> bool \<Rightarrow> 'w HttpGlobalState \<Rightarrow> 'w HttpGlobalState" where
  "set_or_clear u f b g = (if b then set_req_flag u f g else clear_req_flag u f g)"

definition HttpCore_HandleHeaderLine ::
  "nat \<Rightarrow> hblob \<Rightarrow> 'w HttpGlobalState \<Rightarrow> int \<times> 'w HttpGlobalState" where
  "HttpCore_HandleHeaderLine u line g =
     (if pData line = Null then (1, g)
      else if uLength line = 0 then (1, set_conn_state u RequestData g)
      else
        let (up, g1) = line_starts WS_UPGRADE line g in
        if up then
          let (found, g2) = next_token WS_WEBSOCKET (blob_skip line (length WS_UPGRADE + 1)) g1
          in if found \<noteq> Null then (1, set_conn_state u WebSocketRequest g2) else (0, g2)
        else let (ae, g2) = line_starts HTTP_ACCEPT_ENCODING line g1 in
        if ae then
          let (found, g3) = next_token HTTP_GZIP (blob_skip line (length HTTP_ACCEPT_ENCODING + 2)) g2
          in (1, set_or_clear u HTTP_REQUEST_FLAG_ACCEPT_GZIP (found \<noteq> Null) g3)
        else let (cl, g3) = line_starts HTTP_CONTENT_LENGTH line g2 in
        if cl then
          let len = HttpString_atou (hmem g3) (block_size g3) (blob_skip line (length HTTP_CONTENT_LENGTH + 2));
              g4 = conn_upd u (\<lambda>c. c\<lparr>uContentLeft := len\<rparr>) g3;
              g5 = (if uContentLeft (connections g4 u) > of_nat HTTP_CORE_MAX_HEADER_LINE_LENGTH
                    then set_req_flag u HTTP_REQUEST_CONTENT_IGNORED g4 else g4)
          in (1, req_upd u (\<lambda>r. r\<lparr>requestContent := \<lparr>uLength = 0, pData = Ptr (HeaderStart u) 0\<rparr>\<rparr>) g5)
        else let (co, g4) = line_starts HTTP_CONNECTION_CLOSE line g3 in
        if co then
          let (found, g5) = next_token HTTP_CLOSE (blob_skip line (length HTTP_CONNECTION_CLOSE + 2)) g4
          in (1, set_or_clear u HTTP_REQUEST_FLAG_CLOSE (found \<noteq> Null) g5)
        else let (au, g5) = line_starts HTTP_AUTHORIZATION line g4 in (1, g5))"

section \<open>Facts about tokens and flags\<close>

definition low :: "hblob \<Rightarrow> 'w HttpGlobalState \<Rightarrow> u8 list" where
  "low line g = map lower_byte (blob_bytes (hmem g) line)"

definition starts :: "u8 list \<Rightarrow> u8 list \<Rightarrow> bool" where
  "starts tok xs \<longleftrightarrow> take (length tok) xs = tok"

definition has_token :: "u8 list \<Rightarrow> u8 list \<Rightarrow> bool" where
  "has_token tok xs \<longleftrightarrow> (\<exists>i. occurs_at tok xs i)"

lemma occurs_at_0: "occurs_at tok xs 0 \<longleftrightarrow> starts tok xs"
  by (auto simp: occurs_at_def starts_def) (metis length_take min.bounded_iff order_refl)

lemma next_token_search:
  assumes "pData line = Ptr b off" "tok \<noteq> []" "next_token tok line g = (r, g')"
  shows "(r = pData line \<longleftrightarrow> starts tok (low line g)) \<and> (r \<noteq> Null \<longleftrightarrow> has_token tok (low line g)) \<and>
    (r = Null \<or> (\<exists>i. r = Ptr b (off + i) \<and> first_occurrence tok (low line g) i)) \<and>
    low line g' = low line g \<and> connections g' = connections g"
proof -
  obtain m' where e: "HttpString_nextToken (hmem g) tok line = (r, m')" and g': "g' = g\<lparr>hmem := m'\<rparr>"
    using assms(3) by (auto simp: next_token_def split: prod.splits)
  have lo: "blob_bytes m' line = map lower_byte (blob_bytes (hmem g) line)"
    and f: "case r of Null \<Rightarrow> \<forall>i. \<not> occurs_at tok (blob_bytes m' line) i
         | Ptr b' p \<Rightarrow> b' = b \<and> off \<le> p \<and> first_occurrence tok (blob_bytes m' line) (p - off)"
    using nextToken_correct [OF assms(2,1) e] by auto
  have l': "low line g' = low line g"
    by (simp add: low_def g' lo comp_def lower_byte_idem)
  have c: "connections g' = connections g" by (simp add: g')
  show ?thesis
  proof (cases r)
    case Null
    with f lo have "\<forall>i. \<not> occurs_at tok (low line g) i" by (simp add: low_def)
    with Null l' c assms(1) show ?thesis by (auto simp: has_token_def occurs_at_0 [symmetric])
  next
    case (Ptr b' p)
    with f lo have p: "b' = b" "off \<le> p" "first_occurrence tok (low line g) (p - off)"
      by (simp_all add: low_def)
    have "p = off \<longleftrightarrow> occurs_at tok (low line g) 0"
      using p by (auto simp: first_occurrence_def) (metis diff_is_0_eq le_antisym neq0_conv)
    with Ptr p l' c assms(1) show ?thesis
      by (auto simp: has_token_def occurs_at_0 [symmetric] first_occurrence_def intro!: exI [of _ "p - off"])
  qed
qed

lemma low_conn_upd [simp]:
  "low line (conn_upd u f g) = low line g" "low line (set_req_flag u fl g) = low line g"
  "low line (clear_req_flag u fl g) = low line g" "low line (req_upd u fr g) = low line g"
  by (simp_all add: low_def conn_defs)

lemma req_has_simps [simp]:
  "f \<noteq> 0 \<Longrightarrow> req_has (set_req_flag u f g) u f"
  "\<not> req_has (clear_req_flag u f g) u f"
  "h AND f = 0 \<Longrightarrow> req_has (set_req_flag u f g) u h = req_has g u h"
  "h AND f = 0 \<Longrightarrow> req_has (clear_req_flag u f g) u h = req_has g u h"
  "req_has (conn_upd u (\<lambda>c. c\<lparr>handler := ha, connectionState := st\<rparr>) g) u h = req_has g u h"
  "req_has (req_upd u (\<lambda>r. r\<lparr>requestContent := cont r\<rparr>) g) u h = req_has g u h"
  by (simp_all add: conn_defs has_flag_set_other has_flag_clear_other)

lemma req_has_connections: "connections g' = connections g \<Longrightarrow> req_has g' u f = req_has g u f"
  by (simp add: req_has_def)

lemma method_tokens: "HTTP_METHOD_GET \<noteq> []" "HTTP_METHOD_POST \<noteq> []" "HTTP_VERSION_1P1 \<noteq> []" "HTTP_VERSION_1P0 \<noteq> []"
  by (simp_all add: http_strings str_def)

lemma not_both_methods: "starts HTTP_METHOD_GET xs \<Longrightarrow> \<not> starts HTTP_METHOD_POST xs"
  by (cases xs) (auto simp: starts_def http_strings str_def)

lemma starts_has: "starts tok xs \<Longrightarrow> has_token tok xs"
  by (auto simp: has_token_def occurs_at_0 [symmetric])

lemma parse_method_spec:
  assumes "pData line = Ptr b off" "parse_method u line g = (pm, g')"
  shows "low line g' = low line g \<and>
    pm = (if starts HTTP_METHOD_GET (low line g) then Some (pData line, 3, GET)
          else if starts HTTP_METHOD_POST (low line g)
          then Some (pData line, 4, if has_token HTTP_METHOD_GET (low line g) then GET else POST)
          else None) \<and>
    (pm \<noteq> None \<longrightarrow> (req_has g' u HTTP_REQUEST_FLAG_METHOD_POST \<longleftrightarrow> starts HTTP_METHOD_POST (low line g)))"
proof -
  obtain r1 g1 where n1: "next_token HTTP_METHOD_GET line g = (r1, g1)" by (rule prod.exhaust)
  note s1 = next_token_search [OF assms(1) method_tokens(1) n1]
  have fl_nz: "HTTP_REQUEST_FLAG_METHOD_POST \<noteq> 0" by (simp add: http_flags)
  have length_post: "length HTTP_METHOD_POST = 4" by (simp add: http_strings)
  show ?thesis
  proof (cases "starts HTTP_METHOD_GET (low line g)")
    case True
    let ?g2 = "clear_req_flag u HTTP_REQUEST_FLAG_METHOD_POST
        (req_upd u (\<lambda>r. r\<lparr>requestContent := (requestContent r)\<lparr>uLength := 0\<rparr>\<rparr>) g1)"
    have "pm = Some (r1, 3, GET)" "g' = ?g2"
      using assms True s1 n1 starts_has [OF True]
      by (auto simp: parse_method_def Let_def http_strings split: if_splits)
    then show ?thesis using True s1 not_both_methods [OF True] by simp
  next
    case False
    then have r1: "r1 \<noteq> pData line" using s1 by simp
    show ?thesis
    proof (cases "r1 = Null")
      case True
      obtain l g2 where n2: "next_token HTTP_METHOD_POST line g1 = (l, g2)" by (rule prod.exhaust)
      note s2 = next_token_search [OF assms(1) method_tokens(2) n2]
      let ?g2 = "set_req_flag u HTTP_REQUEST_FLAG_METHOD_POST g2"
      obtain l3 g3 where n3: "next_token HTTP_METHOD_POST line ?g2 = (l3, g3)" by (rule prod.exhaust)
      note s3 = next_token_search [OF assms(1) method_tokens(2) n3]
      let ?g3 = "set_req_flag u HTTP_REQUEST_FLAG_METHOD_POST g3"
      have "(pm, g') = (if l = pData line then (Some (l, 4, POST), ?g2)
          else if l3 = Null \<or> l3 \<noteq> pData line then (None, ?g3) else (Some (l3, 4, POST), ?g3))"
        using assms(2) n1 n2 n3 True
        by (cases "l = pData line") (auto simp: parse_method_def Let_def length_post)
      then show ?thesis
        using False True s1 s2 s3 by (auto simp: fl_nz split: if_splits)
    next
      case rn: False
      let ?g2 = "clear_req_flag u HTTP_REQUEST_FLAG_METHOD_POST
          (req_upd u (\<lambda>r. r\<lparr>requestContent := (requestContent r)\<lparr>uLength := 0\<rparr>\<rparr>) g1)"
      obtain l3 g3 where n3: "next_token HTTP_METHOD_POST line ?g2 = (l3, g3)" by (rule prod.exhaust)
      note s3 = next_token_search [OF assms(1) method_tokens(2) n3]
      let ?g3 = "set_req_flag u HTTP_REQUEST_FLAG_METHOD_POST g3"
      have "(pm, g') = (if l3 = Null \<or> l3 \<noteq> pData line then (None, ?g3) else (Some (l3, 4, GET), ?g3))"
        using assms(2) n1 n3 rn r1
        by (auto simp: parse_method_def Let_def length_post)
      then show ?thesis
        using False rn s1 s3 assms(1) by (auto simp: fl_nz split: if_splits)
    qed
  qed
qed

lemma flag_facts [simp]:
  "HTTP_REQUEST_FLAG_METHOD_POST AND HTTP_REQUEST_1_1 = 0" "HTTP_REQUEST_1_1 \<noteq> 0"
  "HTTP_REQUEST_CONTENT_IGNORED AND HTTP_REQUEST_FLAG_ACCEPT_GZIP = 0"
  "HTTP_REQUEST_CONTENT_IGNORED AND HTTP_REQUEST_FLAG_CLOSE = 0"
  "HTTP_REQUEST_CONTENT_IGNORED \<noteq> 0"
  by (simp_all add: http_flags)

lemma parse_version_spec:
  assumes "pData line = Ptr b off" "parse_version u line g = (pv, g')"
  shows "low line g' = low line g \<and>
    (pv \<noteq> None \<longleftrightarrow> has_token HTTP_VERSION_1P1 (low line g) \<or> has_token HTTP_VERSION_1P0 (low line g)) \<and>
    (pv \<noteq> None \<longrightarrow> (req_has g' u HTTP_REQUEST_1_1 \<longleftrightarrow> has_token HTTP_VERSION_1P1 (low line g))) \<and>
    req_has g' u HTTP_REQUEST_FLAG_METHOD_POST = req_has g u HTTP_REQUEST_FLAG_METHOD_POST"
proof -
  obtain v1 g1 where n1: "next_token HTTP_VERSION_1P1 line g = (v1, g1)" by (rule prod.exhaust)
  obtain v0 g2 where n2: "next_token HTTP_VERSION_1P0 line g1 = (v0, g2)" by (rule prod.exhaust)
  note s1 = next_token_search [OF assms(1) method_tokens(3) n1]
    and s2 = next_token_search [OF assms(1) method_tokens(4) n2]
  have "(pv, g') = (if v1 \<noteq> Null then (Some v1, set_req_flag u HTTP_REQUEST_1_1 g1)
      else if v0 \<noteq> Null then (Some v0, clear_req_flag u HTTP_REQUEST_1_1 g2) else (None, g2))"
    using assms(2) n1 n2 by (auto simp: parse_version_def Let_def)
  moreover have "req_has g1 u f = req_has g u f" "req_has g2 u f = req_has g u f" for f
    using s1 s2 by (simp_all add: req_has_def)
  ultimately show ?thesis
    using s1 s2 by (cases "v1 = Null"; cases "v0 = Null") simp_all
qed

lemma dynamic_search_connections:
  "dynamic_search resource k g = Some (k', g') \<Longrightarrow> connections g' = connections g"
proof (induction resource k g rule: dynamic_search.induct)
  case (1 resource k g)
  show ?case
  proof (cases "k < MAX_RESOURCE")
    case False
    with "1.prems" show ?thesis by (simp add: dynamic_search.simps)
  next
    case True
    with "1.prems" obtain s where s: "ResourceString (g_RestContent g k) = Some s"
      by (auto simp: dynamic_search.simps [of resource k] split: option.splits)
    obtain p g1 where nt: "next_token (take (length s mod 65536) s) resource g = (p, g1)" by (rule prod.exhaust)
    have c: "connections g1 = connections g" using next_token_simps(2) [OF nt] .
    have e: "(if p \<noteq> Null then Some (k, g1) else dynamic_search resource (Suc k) g1) = Some (k', g')"
      using "1.prems" True s nt by (simp add: dynamic_search.simps [of resource k] Let_def)
    show ?thesis
    proof (cases "p = Null")
      case True': True
      with e have d: "dynamic_search resource (Suc k) g1 = Some (k', g')" by simp
      have "connections g' = connections g1"
        by (rule "1.IH" [OF True s refl]) (use nt True' d in \<open>auto simp: nt [symmetric]\<close>)
      with c show ?thesis by simp
    next
      case False
      with e c show ?thesis by simp
    qed
  qed
qed

lemma select_handler_spec:
  assumes "select_handler ops u resource method g = Some g'"
  shows "\<exists>h. connections g' = connections (conn_upd u (\<lambda>c. c\<lparr>handler := h, connectionState := RequestHeaders\<rparr>) g)"
proof -
  obtain r g1 where st: "HttpStatic_InitRequest ops u resource g = (r, g1)" by (rule prod.exhaust)
  have c1: "connections g1 = connections g"
    using st by (auto simp: HttpStatic_InitRequest_def Let_def split: prod.splits)
  show ?thesis
  proof (cases "r = 0")
    case False
    with assms st c1 show ?thesis by (auto simp: select_handler_def conn_upd_def)
  next
    case True
    with assms st obtain d g2 where d: "HttpDynamic_InitRequest u resource method g1 = Some (d, g2)"
      and g': "g' = conn_upd u (\<lambda>c. c\<lparr>handler := (if d \<noteq> 0 then HttpDynamic else None_handler),
                                connectionState := RequestHeaders\<rparr>) g2"
      by (auto simp: select_handler_def elim!: bind_pair_SomeE)
    from d have "connections g2 = connections g1"
      by (auto simp: HttpDynamic_InitRequest_def Let_def dynamic_search_connections elim!: bind_pair_SomeE)
    with g' c1 show ?thesis by (auto simp: conn_upd_def)
  qed
qed

section \<open>Properties of the method line\<close>

text \<open>The method line is accepted exactly when it starts with GET or POST, in any case, and
  contains HTTP/1.1 or HTTP/1.0; an accepted line moves the connection to the header lines, with
  the method flag and the version flag of the request set as the line says.\<close>

theorem HttpCore_HandleMethodLine_accepts:
  assumes "pData line = Ptr b off" "HttpCore_HandleMethodLine ops u line g = Some (r, g')"
  shows "(r \<noteq> 0 \<longleftrightarrow>
      (starts HTTP_METHOD_GET (low line g) \<or> starts HTTP_METHOD_POST (low line g)) \<and>
      (has_token HTTP_VERSION_1P1 (low line g) \<or> has_token HTTP_VERSION_1P0 (low line g))) \<and>
    (r = 0 \<or> conn_state g' u = RequestHeaders \<and>
      (req_has g' u HTTP_REQUEST_FLAG_METHOD_POST \<longleftrightarrow> starts HTTP_METHOD_POST (low line g)) \<and>
      (req_has g' u HTTP_REQUEST_1_1 \<longleftrightarrow> has_token HTTP_VERSION_1P1 (low line g)))"
proof -
  obtain pm g1 where m: "parse_method u line g = (pm, g1)" by (rule prod.exhaust)
  obtain pv g2 where v: "parse_version u line g1 = (pv, g2)" by (rule prod.exhaust)
  note ms = parse_method_spec [OF assms(1) m] and vs = parse_version_spec [OF assms(1) v]
  show ?thesis
  proof (cases "pm = None \<or> pv = None")
    case True
    then have "r = 0" using assms(2) m v by (auto simp: HttpCore_HandleMethodLine_def split: option.splits)
    with True ms vs show ?thesis by (auto split: if_splits)
  next
    case False
    then obtain l n me vl where p: "pm = Some (l, n, me)" "pv = Some vl"
      by (auto simp: split_paired_all)
    then obtain resource g3 where "select_handler ops u resource me g2 = Some g3" "r = 1" "g' = g3"
      using assms(2) m v by (auto simp: HttpCore_HandleMethodLine_def Let_def split: option.splits bind_splits)
    with select_handler_spec obtain h where
      c: "connections g' = connections (conn_upd u (\<lambda>c. c\<lparr>handler := h, connectionState := RequestHeaders\<rparr>) g2)"
      by blast
    with False ms vs \<open>r = 1\<close> show ?thesis
      by (auto simp: conn_state_def req_has_connections [OF c] split: if_splits)
  qed
qed

text \<open>The method handed to the dynamic handler is not always the method of the request: for a
  POST line that contains the letters of GET anywhere (in the URL, say) the flag says POST but
  the method code is GET.\<close>

theorem parse_method_post_taken_for_get:
  assumes "pData line = Ptr b off" "starts HTTP_METHOD_POST (low line g)"
    "has_token HTTP_METHOD_GET (low line g)"
  shows "fst (parse_method u line g) = Some (pData line, 4, GET) \<and>
    req_has (snd (parse_method u line g)) u HTTP_REQUEST_FLAG_METHOD_POST"
proof -
  obtain pm g1 where m: "parse_method u line g = (pm, g1)" by (rule prod.exhaust)
  have "\<not> starts HTTP_METHOD_GET (low line g)" using not_both_methods assms(2) by blast
  with parse_method_spec [OF assms(1) m] assms(2,3) show ?thesis by (auto simp: m)
qed

section \<open>Header lines\<close>

lemma line_starts_spec:
  assumes "pData line = Ptr b off" "tok \<noteq> []" "line_starts tok line g = (r, g')"
  shows "r = starts tok (low line g) \<and> low line g' = low line g"
  using assms next_token_search [OF assms(1,2)] by (auto simp: line_starts_def split: prod.splits)

lemma line_starts_connections: "line_starts tok line g = (r, g') \<Longrightarrow> connections g' = connections g"
  by (auto simp: line_starts_def next_token_simps(2) split: prod.splits)

lemma content_fits_cong:
  "connections g' u = connections g u \<Longrightarrow> content_fits u g' = content_fits u g"
  by (simp add: content_fits_def req_has_def)

lemma content_fits_flags [simp]:
  "HTTP_REQUEST_CONTENT_IGNORED AND f = 0 \<Longrightarrow> content_fits u (set_or_clear u f b g) = content_fits u g"
  "content_fits u (set_conn_state u st g) = content_fits u g"
  by (simp_all add: content_fits_def set_or_clear_def conn_defs has_flag_set_other has_flag_clear_other)

text \<open>C25. Every header line keeps the bound between the content still expected, the content held and
  the header buffer: a content length beyond the 320 bytes of the buffer always sets the flag that
  makes the server ignore the content.\<close>

theorem HttpCore_HandleHeaderLine_content_fits:
  assumes "content_fits u g" "HttpCore_HandleHeaderLine u line g = (r, g')"
  shows "content_fits u g'"
proof (cases "pData line = Null \<or> uLength line = 0")
  case True
  with assms show ?thesis
    by (cases "pData line = Null") (auto simp: HttpCore_HandleHeaderLine_def simp del: Let_def)
next
  case False
  obtain up g1 where 1: "line_starts WS_UPGRADE line g = (up, g1)" by (rule prod.exhaust)
  obtain ae g2 where 2: "line_starts HTTP_ACCEPT_ENCODING line g1 = (ae, g2)" by (rule prod.exhaust)
  obtain cl g3 where 3: "line_starts HTTP_CONTENT_LENGTH line g2 = (cl, g3)" by (rule prod.exhaust)
  obtain co g4 where 4: "line_starts HTTP_CONNECTION_CLOSE line g3 = (co, g4)" by (rule prod.exhaust)
  obtain au g5 where 5: "line_starts HTTP_AUTHORIZATION line g4 = (au, g5)" by (rule prod.exhaust)
  note conns = line_starts_connections [OF 1] line_starts_connections [OF 2] line_starts_connections [OF 3]
    line_starts_connections [OF 4] line_starts_connections [OF 5]
  have fits: "content_fits u g1" "content_fits u g2" "content_fits u g3" "content_fits u g4" "content_fits u g5"
    using assms(1) conns by (simp_all add: content_fits_def req_has_def)
  have tok: "content_fits u h'" if "next_token t l h = (x, h')" "content_fits u h" for t l h x h'
    using next_token_simps(2) [OF that(1)] that(2) by (simp add: content_fits_def req_has_def)
  note eq = assms(2) [unfolded HttpCore_HandleHeaderLine_def Let_def 1 2 3 4 5 split_conv]
  consider "up" | "\<not> up" "ae" | "\<not> up" "\<not> ae" "cl" | "\<not> up" "\<not> ae" "\<not> cl" by blast
  then show ?thesis
  proof cases
    case 1
    with eq False fits tok show ?thesis by (auto split: prod.splits if_splits)
  next
    case 2
    with eq False fits tok show ?thesis by (auto split: prod.splits)
  next
    case 3
    let ?len = "HttpString_atou (hmem g3) (block_size g3) (blob_skip line (length HTTP_CONTENT_LENGTH + 2))"
    let ?g4 = "conn_upd u (\<lambda>c. c\<lparr>uContentLeft := ?len\<rparr>) g3"
    have "g' = req_upd u (\<lambda>r. r\<lparr>requestContent := \<lparr>uLength = 0, pData = Ptr (HeaderStart u) 0\<rparr>\<rparr>)
        (if uContentLeft (connections ?g4 u) > of_nat HTTP_CORE_MAX_HEADER_LINE_LENGTH
         then set_req_flag u HTTP_REQUEST_CONTENT_IGNORED ?g4 else ?g4)"
      using eq False 3 by simp
    then show ?thesis
      by (auto simp: content_fits_def conn_defs word_less_nat_alt)
  next
    case 4
    with eq False fits tok show ?thesis by (auto split: prod.splits if_splits)
  qed
qed

text \<open>What token searches do to memory: some bytes are replaced by their lower-case form.\<close>

definition lowered :: "http_block mem \<Rightarrow> http_block mem \<Rightarrow> bool" where
  "lowered m m' \<longleftrightarrow> (\<forall>b i. m' b i = m b i \<or> m' b i = lower_byte (m b i))"

lemma lowered_trans: "lowered m m1 \<Longrightarrow> lowered m1 m2 \<Longrightarrow> lowered m m2"
  unfolding lowered_def by (metis lower_byte_idem)

lemma line_starts_lowered:
  assumes "line_starts tok line g = (r, g')"
  shows "lowered (hmem g) (hmem g') \<and> heap_size g' = heap_size g"
proof -
  obtain m' where e: "HttpString_nextToken (hmem g) tok line = (fst (next_token tok line g), m')"
    and g': "g' = g\<lparr>hmem := m'\<rparr>"
    using assms by (auto simp: line_starts_def next_token_def Let_def split: prod.splits)
  have "lowered (hmem g) m'"
  proof (cases "pData line")
    case Null
    with e show ?thesis by (simp add: HttpString_nextToken_def lowered_def)
  next
    case (Ptr b off)
    with e have "m' = ToLower (hmem g) b off (unat (uLength line))"
      by (simp add: HttpString_nextToken_def Let_def)
    then show ?thesis by (auto simp: lowered_def ToLower_apply ToLower_other)
  qed
  then show ?thesis by (simp add: g')
qed

lemma lower_digit: "is_digit c \<Longrightarrow> lower_byte c = c"
  by (auto simp: is_digit_def lower_byte_def word_le_nat_alt)

lemma lower_not_digit: "\<not> is_digit c \<Longrightarrow> \<not> is_digit (lower_byte c)"
  by (auto simp: is_digit_def lower_byte_def word_le_nat_alt unat_word_ariths)

lemma lowered_digits:
  assumes "lowered m m'" "mem_read m b i (length ds) = digit_bytes ds" "\<forall>d\<in>set ds. d < 10"
  shows "mem_read m' b i (length ds) = digit_bytes ds"
proof (rule nth_equalityI)
  show "length (mem_read m' b i (length ds)) = length (digit_bytes ds)" by (simp add: digit_bytes_def)
  fix k assume "k < length (mem_read m' b i (length ds))"
  then have k: "k < length ds" by simp
  have mk: "m b (i + k) = digit_bytes ds ! k"
    using arg_cong [OF assms(2), of "\<lambda>xs. xs ! k"] k by (simp add: nth_mem_read)
  have "digit_bytes ds ! k \<in> set (digit_bytes ds)" using k by (intro nth_mem) (simp add: digit_bytes_def)
  then have "is_digit (m b (i + k))"
    using list_all_digit_bytes [OF assms(3)] mk by (auto simp: list_all_iff)
  then have "m' b (i + k) = m b (i + k)" using assms(1) lower_digit unfolding lowered_def by metis
  with mk k show "mem_read m' b i (length ds) ! k = digit_bytes ds ! k" by (simp add: nth_mem_read)
qed

lemma starts_first: "starts (c # cs) xs \<Longrightarrow> starts (d # ds) xs \<Longrightarrow> c = d"
  by (cases xs) (auto simp: starts_def)

lemma content_length_other:
  "starts HTTP_CONTENT_LENGTH xs \<Longrightarrow> \<not> starts WS_UPGRADE xs \<and> \<not> starts HTTP_ACCEPT_ENCODING xs"
  by (auto simp: http_strings str_def dest: starts_first)

text \<open>A content-length header is read as the number it shows: for a line that starts with
  \<open>content-length\<close> in any case and shows a decimal number after two more bytes, the content
  still expected becomes that number, the content received is reset to the start of the header
  buffer, and the content is ignored if the number exceeds the buffer.\<close>

theorem HttpCore_HandleHeaderLine_content_length:
  assumes "pData line = Ptr b off" "uLength line \<noteq> 0" "starts HTTP_CONTENT_LENGTH (low line g)"
    "mem_read (hmem g) b (off + 16) (length ds) = digit_bytes ds" "ds \<noteq> []" "\<forall>d\<in>set ds. d < 10"
    "radix_value 10 0 ds = n" "n < 2 ^ 32"
    "off + 16 + length ds < block_size g b" "\<not> is_digit (hmem g b (off + 16 + length ds))"
    "HttpCore_HandleHeaderLine u line g = (r, g')"
  shows "r = 1 \<and> unat (uContentLeft (connections g' u)) = n \<and>
    requestContent (request (connections g' u)) = \<lparr>uLength = 0, pData = Ptr (HeaderStart u) 0\<rparr> \<and>
    (req_has g' u HTTP_REQUEST_CONTENT_IGNORED \<longleftrightarrow>
       req_has g u HTTP_REQUEST_CONTENT_IGNORED \<or> HTTP_CORE_MAX_HEADER_LINE_LENGTH < n)"
proof -
  obtain up g1 where 1: "line_starts WS_UPGRADE line g = (up, g1)" by (rule prod.exhaust)
  obtain ae g2 where 2: "line_starts HTTP_ACCEPT_ENCODING line g1 = (ae, g2)" by (rule prod.exhaust)
  obtain cl g3 where 3: "line_starts HTTP_CONTENT_LENGTH line g2 = (cl, g3)" by (rule prod.exhaust)
  have ne: "WS_UPGRADE \<noteq> []" "HTTP_ACCEPT_ENCODING \<noteq> []" "HTTP_CONTENT_LENGTH \<noteq> []"
    by (simp_all add: http_strings str_def)
  note l1 = line_starts_spec [OF assms(1) ne(1) 1] and l2 = line_starts_spec [OF assms(1) ne(2) 2]
    and l3 = line_starts_spec [OF assms(1) ne(3) 3]
  have case_cl: "\<not> up" "\<not> ae" "cl" using l1 l2 l3 assms(3) content_length_other by auto
  note w1 = line_starts_lowered [OF 1] and w2 = line_starts_lowered [OF 2] and w3 = line_starts_lowered [OF 3]
  have lo: "lowered (hmem g) (hmem g3)" using w1 w2 w3 lowered_trans by blast
  have sz: "block_size g3 b = block_size g b" using w1 w2 w3 by (cases b) simp_all
  have conn: "connections g3 = connections g"
    using line_starts_connections [OF 1] line_starts_connections [OF 2] line_starts_connections [OF 3] by simp
  let ?k = "block_size g b - (off + 16) - length ds"
  have k: "0 < ?k" "length ds + ?k = block_size g b - (off + 16)" using assms(9) by auto
  have "mem_read (hmem g3) b (off + 16) (length ds + ?k) =
      digit_bytes ds @ mem_read (hmem g3) b (off + 16 + length ds) ?k"
    unfolding mem_read_append by (simp add: lowered_digits [OF lo assms(4,6)])
  then have "mem_read (hmem g3) b (off + 16) (block_size g b - (off + 16)) =
      digit_bytes ds @ mem_read (hmem g3) b (off + 16 + length ds) ?k"
    by (simp only: k(2))
  moreover have "\<not> is_digit (hd (mem_read (hmem g3) b (off + 16 + length ds) ?k))"
  proof -
    have "hd (mem_read (hmem g3) b (off + 16 + length ds) ?k) = hmem g3 b (off + 16 + length ds)"
      using k(1) by (simp add: mem_read_def hd_map)
    with lo assms(10) lower_not_digit show ?thesis unfolding lowered_def by metis
  qed
  ultimately have at: "atoi (mem_read (hmem g3) b (off + 16) (block_size g b - (off + 16))) = int n"
    using atoi_digit_bytes [OF assms(5,6)] assms(7) by metis
  let ?line = "blob_skip line (length HTTP_CONTENT_LENGTH + 2)"
  have p: "pData ?line = Ptr b (off + 16)" by (simp add: blob_skip_def assms(1) http_strings)
  have len: "HttpString_atou (hmem g3) (block_size g3) ?line = of_nat n"
    unfolding HttpString_atou_def p by (simp add: sz at)
  have un: "unat (of_nat n :: u32) = n" using assms(8) by (intro unat_of_nat_small) simp
  let ?g4 = "conn_upd u (\<lambda>c. c\<lparr>uContentLeft := of_nat n\<rparr>) g3"
  have "r = 1 \<and> g' = req_upd u (\<lambda>r. r\<lparr>requestContent := \<lparr>uLength = 0, pData = Ptr (HeaderStart u) 0\<rparr>\<rparr>)
      (if (of_nat n :: u32) > of_nat HTTP_CORE_MAX_HEADER_LINE_LENGTH
       then set_req_flag u HTTP_REQUEST_CONTENT_IGNORED ?g4 else ?g4)"
    using assms(11) assms(1,2) case_cl
    by (simp add: HttpCore_HandleHeaderLine_def 1 2 3 len Let_def split: if_splits
        del: http_limits add_2_eq_Suc' add_2_eq_Suc)
  moreover have "(of_nat n :: u32) > of_nat HTTP_CORE_MAX_HEADER_LINE_LENGTH \<longleftrightarrow>
      HTTP_CORE_MAX_HEADER_LINE_LENGTH < n"
    by (simp add: word_less_nat_alt un)
  ultimately show ?thesis
    using un conn by (auto simp: conn_defs has_flag_set_other)
qed

text \<open>A header line that consists of the word \<open>connection\<close> alone is shorter than what the code
  skips: the length of the rest wraps around, and the search for \<open>close\<close> puts in lower case
  memory far beyond the line (here, any byte up to 65535 bytes after it).\<close>

theorem HttpCore_HandleHeaderLine_wraps:
  assumes "pData line = Ptr b off" "uLength line = 10" "low line g = HTTP_CONNECTION_CLOSE"
    "12 \<le> i" "i \<le> 65546" "HttpCore_HandleHeaderLine u line g = (r, g')"
  shows "hmem g' b (off + i) = lower_byte (hmem g b (off + i))"
proof -
  have ne: "WS_UPGRADE \<noteq> []" "HTTP_ACCEPT_ENCODING \<noteq> []" "HTTP_CONTENT_LENGTH \<noteq> []" "HTTP_CONNECTION_CLOSE \<noteq> []"
    by (simp_all add: http_strings str_def)
  obtain up g1 where 1: "line_starts WS_UPGRADE line g = (up, g1)" by (rule prod.exhaust)
  obtain ae g2 where 2: "line_starts HTTP_ACCEPT_ENCODING line g1 = (ae, g2)" by (rule prod.exhaust)
  obtain cl g3 where 3: "line_starts HTTP_CONTENT_LENGTH line g2 = (cl, g3)" by (rule prod.exhaust)
  obtain co g4 where 4: "line_starts HTTP_CONNECTION_CLOSE line g3 = (co, g4)" by (rule prod.exhaust)
  note l1 = line_starts_spec [OF assms(1) ne(1) 1] and l2 = line_starts_spec [OF assms(1) ne(2) 2]
    and l3 = line_starts_spec [OF assms(1) ne(3) 3] and l4 = line_starts_spec [OF assms(1) ne(4) 4]
  have "\<not> up \<and> \<not> ae \<and> \<not> cl \<and> co"
    using l1 l2 l3 l4 assms(3) by (auto simp: starts_def http_strings str_def)
  then have b: "\<not> up" "\<not> ae" "\<not> cl" "co" by auto
  have lo: "lowered (hmem g) (hmem g4)"
    using line_starts_lowered [OF 1] line_starts_lowered [OF 2] line_starts_lowered [OF 3]
      line_starts_lowered [OF 4] lowered_trans by blast
  let ?line = "blob_skip line (length HTTP_CONNECTION_CLOSE + 2)"
  obtain found g5 where 5: "next_token HTTP_CLOSE ?line g4 = (found, g5)" by (rule prod.exhaust)
  have "g' = set_or_clear u HTTP_REQUEST_FLAG_CLOSE (found \<noteq> Null) g5"
    using assms(1,2,6) b
    by (simp add: HttpCore_HandleHeaderLine_def 1 2 3 4 5 del: add_2_eq_Suc' add_2_eq_Suc)
  then have m: "hmem g' = hmem g5" by (simp add: set_or_clear_def conn_defs)
  have p: "pData ?line = Ptr b (off + 12)" "uLength ?line = 65534"
    by (simp_all add: blob_skip_def assms(1,2) http_strings)
  have "hmem g5 = ToLower (hmem g4) b (off + 12) 65534"
    using 5 p by (auto simp: next_token_def HttpString_nextToken_def Let_def)
  moreover have "ToLower (hmem g4) b (off + 12) 65534 b (off + i) = lower_byte (hmem g4 b (off + i))"
    using assms(4,5) by (simp add: ToLower_apply)
  moreover have "lower_byte (hmem g4 b (off + i)) = lower_byte (hmem g b (off + i))"
    using lo lower_byte_idem unfolding lowered_def by metis
  ultimately show ?thesis by (simp add: m)
qed

section \<open>Witnesses\<close>

definition line_state :: "u8 list \<Rightarrow> (int \<times> u8) list HttpGlobalState" where
  "line_state bs = full_table\<lparr>hmem := boot_mem(PacketRecv := mem_of bs ())\<rparr>"

definition line_blob :: "u8 list \<Rightarrow> hblob" where
  "line_blob bs = \<lparr>uLength = of_nat (length bs), pData = Ptr PacketRecv 0\<rparr>"

lemma line_bytes: "length bs < 65536 \<Longrightarrow> blob_bytes (hmem (line_state bs)) (line_blob bs) = bs"
proof -
  assume "length bs < 65536"
  then have "unat (of_nat (length bs) :: u16) = length bs" by (intro unat_of_nat_small) simp
  then show ?thesis
    by (simp add: blob_bytes_def line_blob_def line_state_def) (auto simp: nth_mem_read mem_of_def intro!: nth_equalityI)
qed

lemma line_low: "length bs < 65536 \<Longrightarrow> low (line_blob bs) (line_state bs) = map lower_byte bs"
  by (simp add: low_def line_bytes)

theorem parse_method_post_taken_for_get_witness:
  "fst (parse_method 0 (line_blob (str ''POST /widget.htm'')) (line_state (str ''POST /widget.htm''))) =
     Some (Ptr PacketRecv 0, 4, GET)"
proof -
  let ?l = "str ''POST /widget.htm''"
  have low: "low (line_blob ?l) (line_state ?l) = str ''post /widget.htm''"
    by (simp add: line_low) (simp add: str_def lower_byte_def)
  have "occurs_at HTTP_METHOD_GET (str ''post /widget.htm'') 9"
    by (simp add: occurs_at_def http_strings) (simp add: str_def)
  then have h: "has_token HTTP_METHOD_GET (low (line_blob ?l) (line_state ?l))"
    by (auto simp: low has_token_def)
  have s: "starts HTTP_METHOD_POST (low (line_blob ?l) (line_state ?l))"
    unfolding low by (simp add: starts_def http_strings str_def)
  from parse_method_post_taken_for_get [OF _ s h, of PacketRecv 0 0] show ?thesis
    by (simp add: line_blob_def)
qed

theorem HttpCore_HandleMethodLine_accepts_witness:
  "fst (the (HttpCore_HandleMethodLine null_ops 0 (line_blob (str ''PUT / HTTP/1.1'')) (line_state (str ''PUT / HTTP/1.1'')))) = 0"
proof -
  let ?l = "str ''PUT / HTTP/1.1''"
  have low: "low (line_blob ?l) (line_state ?l) = str ''put / http/1.1''"
    by (simp add: line_low) (simp add: str_def lower_byte_def)
  have p: "pData (line_blob ?l) = Ptr PacketRecv 0" by (simp add: line_blob_def)
  have no: "\<not> starts HTTP_METHOD_GET (low (line_blob ?l) (line_state ?l))"
    "\<not> starts HTTP_METHOD_POST (low (line_blob ?l) (line_state ?l))"
    unfolding low by (simp_all add: starts_def http_strings str_def)
  obtain pm g1 where m: "parse_method 0 (line_blob ?l) (line_state ?l) = (pm, g1)" by (rule prod.exhaust)
  have "pm = None" using parse_method_spec [OF p m] no by simp
  then have e: "HttpCore_HandleMethodLine null_ops 0 (line_blob ?l) (line_state ?l) = Some (0, g1)"
    by (simp add: HttpCore_HandleMethodLine_def m)
  from HttpCore_HandleMethodLine_accepts [OF p e] no show ?thesis by (simp add: e)
qed

theorem HttpCore_HandleHeaderLine_content_fits_witness:
  "content_fits 0 (snd (HttpCore_HandleHeaderLine 0 (line_blob (str ''content-length: 400''))
     (line_state (str ''content-length: 400''))))"
proof -
  let ?l = "str ''content-length: 400''"
  obtain r g' where e: "HttpCore_HandleHeaderLine 0 (line_blob ?l) (line_state ?l) = (r, g')" by (rule prod.exhaust)
  have "content_fits 0 (line_state ?l)"
    by (simp add: content_fits_def line_state_def full_table_def ready_state_simps sample_connection_def)
  from HttpCore_HandleHeaderLine_content_fits [OF this e] show ?thesis by (simp add: e)
qed

theorem HttpCore_HandleHeaderLine_content_length_witness:
  "unat (uContentLeft (connections (snd (HttpCore_HandleHeaderLine 0 (line_blob (str ''Content-Length: 27''))
     (line_state (str ''Content-Length: 27'')))) 0)) = 27"
proof -
  let ?l = "str ''Content-Length: 27''"
  let ?g = "line_state ?l"
  obtain r g' where e: "HttpCore_HandleHeaderLine 0 (line_blob ?l) ?g = (r, g')" by (rule prod.exhaust)
  have low: "low (line_blob ?l) ?g = str ''content-length: 27''"
    by (simp add: line_low) (simp add: str_def lower_byte_def)
  have st: "starts HTTP_CONTENT_LENGTH (low (line_blob ?l) ?g)"
    unfolding low by (simp add: starts_def http_strings str_def)
  have p: "pData (line_blob ?l) = Ptr PacketRecv 0" "uLength (line_blob ?l) \<noteq> 0"
    by (simp_all add: line_blob_def)
  have dig: "mem_read (hmem ?g) PacketRecv (0 + 16) (length [2, 7::nat]) = digit_bytes [2, 7]"
    by (simp add: line_state_def mem_read_def mem_of_def str_def digit_bytes_def nth_digits upt_rec)
  have fol: "\<not> is_digit (hmem ?g PacketRecv (0 + 16 + length [2, 7::nat]))"
    by (simp add: line_state_def mem_of_def is_digit_def)
  have dl: "\<forall>d\<in>set [2, 7::nat]. d < 10" "radix_value 10 0 [2, 7] = 27" by simp_all
  from HttpCore_HandleHeaderLine_content_length [OF p st dig _ dl _ _ fol e] show ?thesis by (simp add: e)
qed

theorem HttpCore_HandleHeaderLine_wraps_witness:
  "hmem (snd (HttpCore_HandleHeaderLine 0 (line_blob (str ''Connection''))
     (line_state (str ''Connection'')\<lparr>hmem := (\<lambda>_ i. if i < 10 then str ''connection'' ! i else 65)\<rparr>)))
     PacketRecv 500 = 97"
proof -
  let ?l = "str ''Connection''"
  let ?g = "line_state ?l\<lparr>hmem := (\<lambda>_ i. if i < 10 then str ''connection'' ! i else 65)\<rparr>"
  obtain r g' where e: "HttpCore_HandleHeaderLine 0 (line_blob ?l) ?g = (r, g')" by (rule prod.exhaust)
  have "blob_bytes (hmem ?g) (line_blob ?l) = str ''connection''"
    by (simp add: blob_bytes_def line_blob_def mem_read_def) (simp add: str_def upt_rec)
  then have low: "low (line_blob ?l) ?g = HTTP_CONNECTION_CLOSE"
    by (simp add: low_def http_strings str_def lower_byte_def)
  have "hmem g' PacketRecv (0 + 500) = lower_byte (hmem ?g PacketRecv (0 + 500))"
    by (rule HttpCore_HandleHeaderLine_wraps [OF _ _ low _ _ e]) (simp_all add: line_blob_def)
  then show ?thesis by (simp add: e lower_byte_def)
qed

end
