(* ===== verification/Base64.thy ===== *)
theory Base64
  imports CC_Prelude
begin

text \<open>
  The Base64 encoder \<open>ConvertToBase64\<close>, present three times in the tree:
  \<open>netapps/http/server/base64.c\<close>, \<open>netapps/xmpp/client/base64.c\<close> and
  \<open>netapps/smtp/client/base64.c\<close> (the last two also reject NULL arguments).  The input is the
  \<open>iLen\<close> bytes at \<open>pccInStr\<close>, the output the bytes written at \<open>pcOutStr\<close>, the terminating NUL
  included.  A \<open>char\<close> is unsigned, as it is for the ARM compilers of the code.
\<close>

definition g_ccB64Tbl :: "u8 list" where
  "g_ccB64Tbl = str ''ABCDEFGHIJKLMNOPQRSTUVWXYZabcdefghijklmnopqrstuvwxyz0123456789+/''"

definition b64_char :: "u8 \<Rightarrow> u8" where
  "b64_char i = g_ccB64Tbl ! unat i"

text \<open>
  The loop consumes three bytes a round; the code after it handles the one or two bytes left.
\<close>

fun b64_body :: "u8 list \<Rightarrow> u8 list" where
  "b64_body (c0 # c1 # c2 # rest) =
     b64_char (drop_bit 2 c0)
     # b64_char (push_bit 4 (c0 AND 0x03) OR drop_bit 4 c1)
     # b64_char (push_bit 2 (c1 AND 0x0F) OR drop_bit 6 c2)
     # b64_char (c2 AND 0x3F)
     # b64_body rest"
| "b64_body [c0, c1] =
     [b64_char (drop_bit 2 c0),
      b64_char (push_bit 4 (c0 AND 0x03) OR drop_bit 4 c1),
      b64_char (push_bit 2 (c1 AND 0x0F)),
      61]"
| "b64_body [c0] =
     [b64_char (drop_bit 2 c0),
      b64_char (push_bit 4 (c0 AND 0x03)),
      61, 61]"
| "b64_body [] = []"

definition ConvertToBase64 :: "u8 list \<Rightarrow> u8 list" where
  "ConvertToBase64 xs = b64_body xs @ [0]"

text \<open>
  The encoders of the XMPP and SMTP clients return \<open>-1\<close>, and write nothing, when either
  pointer is NULL.
\<close>

definition ConvertToBase64_xmpp :: "bool \<Rightarrow> u8 list option \<Rightarrow> int \<times> u8 list" where
  "ConvertToBase64_xmpp out_null inp =
     (case inp of
        None \<Rightarrow> (-1, [])
      | Some xs \<Rightarrow> if out_null then (-1, []) else (0, b64_body xs @ [0]))"

definition ConvertToBase64_smtp :: "bool \<Rightarrow> u8 list option \<Rightarrow> int \<times> u8 list" where
  "ConvertToBase64_smtp out_null inp =
     (case inp of
        None \<Rightarrow> (-1, [])
      | Some xs \<Rightarrow> if out_null then (-1, []) else (0, b64_body xs @ [0]))"

section \<open>The interface of an encoding\<close>

text \<open>
  What the protocols that carry encoded text rely on: a decoder that recovers the input, hence
  an encoder that never maps two inputs to the same text.
\<close>

locale text_encoding =
  fixes enc :: "'a \<Rightarrow> u8 list"
    and dec :: "u8 list \<Rightarrow> 'a option"
  assumes dec_enc: "dec (enc x) = Some x"
    and enc_no_nul: "0 \<notin> set (enc x)"
begin

lemma enc_inj: "enc x = enc y \<Longrightarrow> x = y"
  by (metis dec_enc option.inject)

lemma enc_cstring: "strlen (enc x @ [0]) = length (enc x)"
  by (rule strlen_append_nul) (rule enc_no_nul)

lemma dec_cstring: "dec (take (strlen (enc x @ [0])) (enc x @ [0])) = Some x"
  by (simp add: enc_cstring dec_enc)

end

section \<open>A reference decoder (RFC 4648)\<close>

definition b64_index :: "u8 \<Rightarrow> u8 option" where
  "b64_index c = map_option of_nat (memchr c g_ccB64Tbl)"

definition sextets3 :: "u8 \<Rightarrow> u8 \<Rightarrow> u8 \<Rightarrow> u8 \<Rightarrow> u8 list" where
  "sextets3 i j k l =
     [push_bit 2 i OR drop_bit 4 j,
      push_bit 4 j OR drop_bit 2 k,
      push_bit 6 k OR l]"

fun b64_decode :: "u8 list \<Rightarrow> u8 list option" where
  "b64_decode [] = Some []"
| "b64_decode (a # b # c # d # rest) =
     (case (b64_index a, b64_index b, b64_index c, b64_index d) of
        (Some i, Some j, Some k, Some l) \<Rightarrow> map_option (\<lambda>ys. sextets3 i j k l @ ys) (b64_decode rest)
      | (Some i, Some j, Some k, None) \<Rightarrow>
          if d = 61 \<and> rest = [] then Some (take 2 (sextets3 i j k 0)) else None
      | (Some i, Some j, None, None) \<Rightarrow>
          if c = 61 \<and> d = 61 \<and> rest = [] then Some (take 1 (sextets3 i j 0 0)) else None
      | _ \<Rightarrow> None)"
| "b64_decode _ = None"

lemma b64_index_char_all: "\<forall>i\<in>set [0..<64]. memchr (g_ccB64Tbl ! i) g_ccB64Tbl = Some i"
  by code_simp

lemma b64_index_char [simp]: "unat i < 64 \<Longrightarrow> b64_index (b64_char i) = Some i"
  using b64_index_char_all by (simp add: b64_index_def b64_char_def)

lemma b64_index_pad [simp]: "b64_index 61 = None"
proof -
  have "memchr 61 g_ccB64Tbl = None" by code_simp
  then show ?thesis by (simp add: b64_index_def)
qed

lemma length_tbl [simp]: "length g_ccB64Tbl = 64"
  by (simp add: g_ccB64Tbl_def)

lemma tbl_no_nul: "0 \<notin> set g_ccB64Tbl"
proof -
  have "list_all (\<lambda>c. c \<noteq> 0) g_ccB64Tbl" by code_simp
  then show ?thesis by (auto simp: list_all_iff)
qed

lemma b64_char_in_tbl: "unat i < 64 \<Longrightarrow> b64_char i \<in> set g_ccB64Tbl"
  by (simp add: b64_char_def)

section \<open>Sextets\<close>

lemma unat_lt64I:
  assumes "\<And>n. 6 \<le> n \<Longrightarrow> \<not> bit (w::u8) n"
  shows "unat w < 64"
proof -
  have "w = take_bit 6 w"
    by (rule bit_word_eqI) (use assms not_le in \<open>auto simp: bit_simps\<close>)
  then have "unat w = take_bit 6 (unat w)" by (metis unsigned_take_bit_eq)
  also have "\<dots> < 2 ^ 6" by (rule take_bit_nat_less_exp)
  finally show ?thesis by simp
qed

lemma mask2: "(3::u8) = mask 2" by (simp add: mask_eq_exp_minus_1)
lemma mask4: "(15::u8) = mask 4" by (simp add: mask_eq_exp_minus_1)
lemma mask6: "(63::u8) = mask 6" by (simp add: mask_eq_exp_minus_1)

lemma Suc_Suc_minus2: "\<not> n < 2 \<Longrightarrow> Suc (Suc (n - 2)) = n"
  by arith

lemma sextet_bounds:
  "unat (drop_bit 2 (c::u8)) < 64"
  "unat (push_bit 4 (c AND 3) OR drop_bit 4 (d::u8)) < 64"
  "unat (push_bit 2 (c AND 15) OR drop_bit 6 (d::u8)) < 64"
  "unat (c AND 63) < 64"
  unfolding mask2 mask4 mask6 by (rule unat_lt64I; auto simp: bit_simps dest: bit_imp_le_length)+

lemma sextet_bounds_last:
  "unat (push_bit 4 ((c::u8) AND 3)) < 64"
  "unat (push_bit 2 ((c::u8) AND 15)) < 64"
  using sextet_bounds(2,3) [of c 0] by simp_all

lemma byte1: "push_bit 2 (drop_bit 2 a) OR drop_bit 4 (push_bit 4 (a AND 3) OR drop_bit 4 b) = (a::u8)"
  unfolding mask2
  by (rule bit_word_eqI)
    (case_tac "n < 2"; case_tac "n < 4"; case_tac "n < 6"; auto simp: bit_simps Suc_Suc_minus2)

lemma byte2:
  "push_bit 4 (push_bit 4 (a AND 3) OR drop_bit 4 b) OR drop_bit 2 (push_bit 2 (b AND 15) OR drop_bit 6 c) = (b::u8)"
  unfolding mask2 mask4
  by (rule bit_word_eqI)
    (case_tac "n < 2"; case_tac "n < 4"; case_tac "n < 6"; auto simp: bit_simps Suc_Suc_minus2)

lemma byte3: "push_bit 6 (push_bit 2 (b AND 15) OR drop_bit 6 c) OR (c AND 63) = (c::u8)"
  unfolding mask4 mask6 by (rule bit_word_eqI) (auto simp: bit_simps)

lemma byte1_last: "push_bit 2 (drop_bit 2 a) OR drop_bit 4 (push_bit 4 (a AND 3)) = (a::u8)"
  using byte1 [of a 0] by (simp del: push_bit_and push_bit_or drop_bit_and drop_bit_or)

lemma byte2_last:
  "push_bit 4 (push_bit 4 (a AND 3) OR drop_bit 4 b) OR drop_bit 2 (push_bit 2 (b AND 15)) = (b::u8)"
  using byte2 [of a b 0] by (simp del: push_bit_and push_bit_or drop_bit_and drop_bit_or)

lemmas bytes_of_sextets = byte1 byte2 byte3 byte1_last byte2_last

lemma b64_decode_body: "b64_decode (b64_body xs) = Some xs"
  by (induction xs rule: b64_body.induct)
    (simp_all add: sextet_bounds sextet_bounds_last sextets3_def bytes_of_sextets
      del: push_bit_and push_bit_or drop_bit_and drop_bit_or)

lemma b64_body_alphabet: "set (b64_body xs) \<subseteq> set g_ccB64Tbl \<union> {61}"
  by (induction xs rule: b64_body.induct)
    (simp_all add: b64_char_in_tbl sextet_bounds sextet_bounds_last del: push_bit_and)

lemma b64_body_no_nul: "0 \<notin> set (b64_body xs)"
  using b64_body_alphabet [of xs] tbl_no_nul by auto

lemma length_b64_body: "length (b64_body xs) = 4 * ((length xs + 2) div 3)"
proof (induction xs rule: b64_body.induct)
  case (1 c0 c1 c2 rest)
  moreover have "(5 + length rest) div 3 = Suc ((2 + length rest) div 3)" by arith
  ultimately show ?case by simp
qed simp_all

interpretation b64: text_encoding b64_body b64_decode
  by unfold_locales (rule b64_decode_body b64_body_no_nul)+

section \<open>Properties\<close>

text \<open>Decoding what \<open>ConvertToBase64\<close> writes, up to its terminating NUL, gives the input
  bytes back: the encoder is a faithful Base64 encoder on every input, whatever its length
  modulo three, and two inputs never have the same encoding.\<close>

theorem ConvertToBase64_roundtrip:
  "b64_decode (take (strlen (ConvertToBase64 xs)) (ConvertToBase64 xs)) = Some xs"
  unfolding ConvertToBase64_def by (rule b64.dec_cstring)

text \<open>\<open>ConvertToBase64\<close> writes exactly \<open>4 * ceil (iLen / 3) + 1\<close> bytes, the last of them
  the only NUL, so the output is a C string of that length over the Base64 alphabet and \<open>=\<close>.\<close>

theorem ConvertToBase64_length:
  "length (ConvertToBase64 xs) = 4 * ((length xs + 2) div 3) + 1 \<and>
   strlen (ConvertToBase64 xs) = 4 * ((length xs + 2) div 3) \<and>
   set (butlast (ConvertToBase64 xs)) \<subseteq> set g_ccB64Tbl \<union> {61}"
  using b64_body_alphabet [of xs]
  by (simp add: ConvertToBase64_def length_b64_body b64.enc_cstring)

text \<open>The encoders of the XMPP and SMTP clients agree with the one of the HTTP server on
  every non-NULL input, and fail with \<open>-1\<close> and no output exactly when a pointer is NULL.\<close>

theorem ConvertToBase64_clients_agree:
  "ConvertToBase64_xmpp out_null inp = ConvertToBase64_smtp out_null inp \<and>
   (fst (ConvertToBase64_xmpp out_null inp) = -1 \<longleftrightarrow> out_null \<or> inp = None) \<and>
   ConvertToBase64_xmpp False (Some xs) = (0, ConvertToBase64 xs) \<and>
   ConvertToBase64_xmpp True (Some xs) = (-1, [])"
  by (auto simp: ConvertToBase64_xmpp_def ConvertToBase64_smtp_def ConvertToBase64_def split: option.splits)

end
