(* ===== verification/Web_Sock.thy ===== *)
theory Web_Sock
  imports Http_Request Base64
begin

text \<open>
  The WebSocket layer: framing (\<open>WebSockHandler.c\<close>) and the opening handshake
  (\<open>WSCore_HandshakeRequest\<close>, \<open>WSCore_HandshakeResponse\<close>, \<open>WS_HandshakeHash\<close> of \<open>HttpCore.c\<close>).
  The SHA-1 engine of the chip and the application's event handlers are parameters.  \<open>None\<close> is a
  call that does not return, or that reads a C string where there is none.
\<close>

section \<open>Strings and C strings\<close>

definition WS_HOST :: "u8 list" where "WS_HOST = str ''host''"
definition WS_CONNECTION :: "u8 list" where "WS_CONNECTION = str ''connection''"
definition WS_VERSION_REQUEST :: "u8 list" where "WS_VERSION_REQUEST = str ''sec-websocket-version''"
definition WS_KEY_REQUEST :: "u8 list" where "WS_KEY_REQUEST = str ''sec-websocket-key''"
definition WS_ORIGIN :: "u8 list" where "WS_ORIGIN = str ''origin''"
definition WS_CACHE_CONTROL :: "u8 list" where "WS_CACHE_CONTROL = str ''cache-control''"
definition WS_PRAGMA :: "u8 list" where "WS_PRAGMA = str ''pragma''"
definition WS_EXTENSION :: "u8 list" where "WS_EXTENSION = str ''sec-websocket-extensions''"
definition WS_MAGIC_STRING :: "u8 list" where
  "WS_MAGIC_STRING = str ''258EAFA5-E914-47DA-95CA-C5AB0DC85B11''"
definition WS_VERSION :: "u8 list" where "WS_VERSION = str ''13''"
definition WS_ACCEPT :: "u8 list" where "WS_ACCEPT = str ''Sec-websocket-accept''"

definition WS_CONTINUATION :: u8 where "WS_CONTINUATION = 0"
definition WS_BINARY :: u8 where "WS_BINARY = 2"
definition WS_CLOSE :: u8 where "WS_CLOSE = 8"
definition WS_PING :: u8 where "WS_PING = 9"
definition FRAGMENT_LENGTH :: nat where "FRAGMENT_LENGTH = HTTP_CORE_MAX_PACKET_SIZE_SEND"

lemmas ws_codes [simp] =
  WS_CONTINUATION_def WS_BINARY_def WS_CLOSE_def WS_PING_def FRAGMENT_LENGTH_def

text \<open>The C string at a pointer, if a NUL follows within \<open>n\<close> bytes.\<close>

definition c_string :: "'b mem \<Rightarrow> 'b ptr \<Rightarrow> nat \<Rightarrow> u8 list option" where
  "c_string m p n =
     (case p of
        Null \<Rightarrow> None
      | Ptr b i \<Rightarrow> let xs = mem_read m b i n in
          if 0 \<in> set xs then Some (takeWhile (\<lambda>c. c \<noteq> 0) xs) else None)"

definition string_at :: "'w HttpGlobalState \<Rightarrow> http_block ptr \<Rightarrow> u8 list option" where
  "string_at g p =
     (case p of Null \<Rightarrow> None | Ptr b i \<Rightarrow> c_string (hmem g) p (block_size g b - i))"

definition ws_upd :: "(WsGlobals \<Rightarrow> WsGlobals) \<Rightarrow> 'w HttpGlobalState \<Rightarrow> 'w HttpGlobalState" where
  "ws_upd f g = g\<lparr>ws := f (ws g)\<rparr>"

section \<open>Receiving frames\<close>

text \<open>\<open>Payloadlength\<close>: \<open>iter\<close> bytes, most significant first, in 64-bit arithmetic.\<close>

fun payload_loop :: "'b mem \<Rightarrow> 'b http_blob \<Rightarrow> nat \<Rightarrow> u64 \<Rightarrow> u64 \<times> 'b http_blob" where
  "payload_loop m blob 0 result = (result, blob)"
| "payload_loop m blob (Suc iter) result =
     (let r1 = ucast (ptr_byte m (pData blob)) OR result;
          r2 = (if iter \<noteq> 0 then push_bit 8 r1 else r1)
      in payload_loop m (blob_skip blob 1) iter r2)"

definition Payloadlength :: "'b mem \<Rightarrow> 'b http_blob \<Rightarrow> nat \<Rightarrow> u64 \<times> 'b http_blob" where
  "Payloadlength m blob iter = payload_loop m blob iter 0"

text \<open>
  Unmasking in place: the loop counts \<open>lengthLeft\<close> down and stops at zero, so it does not end
  when it starts at zero.
\<close>

partial_function (option) unmask_loop ::
  "http_block mem \<Rightarrow> http_block ptr \<Rightarrow> nat \<Rightarrow> int \<Rightarrow> http_block mem option" where
  "unmask_loop m p maskIndex lengthLeft =
     (case p of
        Null \<Rightarrow> None
      | Ptr b i \<Rightarrow>
          let m' = mem_set1 m b i (m b i XOR m MaskKey maskIndex);
              left' = lengthLeft - 1
          in if left' = 0 then Some m'
             else unmask_loop m' (Ptr b (i + 1)) (if maskIndex + 1 = 4 then 0 else maskIndex + 1) left')"

definition status_text :: "u32 \<Rightarrow> u8 list option" where
  "status_text st =
     (if st = 1000 then Some (str ''ok'')
      else if st = 1001 then Some (str ''server down'')
      else if st = 1003 then Some (str ''datatype not supported'')
      else if st = 1007 then Some (str ''data not interpreted'')
      else if st = 1009 then Some (str ''data too large'')
      else if st = 1002 then Some (str ''protocol error'')
      else if st = 1011 then Some (str ''unexpected event server'')
      else None)"

definition WSStatusString ::
  "u32 \<Rightarrow> hblob \<Rightarrow> 'w HttpGlobalState \<Rightarrow> (hblob \<times> 'w HttpGlobalState) option" where
  "WSStatusString st status g =
     (let (status', m) = HttpString_utoa (hmem g) st status in do {
        txt \<leftarrow> status_text st;
        Some (status', g\<lparr>hmem :=
          (case ptr_add (pData status') (unat (uLength status')) of
             Null \<Rightarrow> m | Ptr b i \<Rightarrow> mem_write m b i txt)\<rparr>)
      })"

section \<open>Sending frames\<close>

text \<open>The bytes of a frame before its payload, and the payload length they announce.\<close>

definition frame_payload_len :: "u16 \<Rightarrow> u16" where
  "frame_payload_len usTotal =
     (if usTotal \<le> 125 then usTotal
      else let l = (if usTotal < of_nat FRAGMENT_LENGTH then usTotal else of_nat FRAGMENT_LENGTH)
           in if l \<ge> of_nat (FRAGMENT_LENGTH - 4) then of_nat (FRAGMENT_LENGTH - 4) else l)"

definition add_frame_header :: "u16 \<Rightarrow> u8 \<Rightarrow> 'w HttpGlobalState \<Rightarrow> 'w HttpGlobalState" where
  "add_frame_header usTotal opcode g =
     (let g1 = HttpResponse_AddCharToResponseHeaders
                 ((if usTotal < of_nat FRAGMENT_LENGTH then 0x80 else 0) OR opcode) g;
          g2 = HttpResponse_AddCharToResponseHeaders (if usTotal \<le> 125 then ucast usTotal else 126) g1
      in if usTotal \<le> 125 then g2
         else let l = frame_payload_len usTotal;
                  g3 = HttpResponse_AddCharToResponseHeaders (ucast (drop_bit 8 l)) g2
              in HttpResponse_AddCharToResponseHeaders (ucast l) g3)"

definition ptr_bytes :: "'b mem \<Rightarrow> 'b ptr \<Rightarrow> nat \<Rightarrow> u8 list" where
  "ptr_bytes m p n = (case p of Null \<Rightarrow> [] | Ptr b i \<Rightarrow> mem_read m b i n)"

partial_function (option) send_frames ::
  "'w sl_ops \<Rightarrow> nat \<Rightarrow> http_block ptr \<Rightarrow> u16 \<Rightarrow> u8 \<Rightarrow> 'w HttpGlobalState \<Rightarrow> (int \<times> 'w HttpGlobalState) option" where
  "send_frames ops u p usTotal opcode g =
     (let g1 = add_frame_header usTotal opcode g;
          l = frame_payload_len usTotal;
          g2 = HttpResponse_AddStringToResponseHeaders (ptr_bytes (hmem g1) p (unat l)) g1
      in do {
        (r, g3) \<leftarrow> WS_SendPacket ops u g2;
        if r = 0 then Some (0, g3)
        else if opcode = WS_CLOSE then
          Some (1, HttpCore_CloseConnection ops u (g3\<lparr>world := ws_close_event ops (world g3)\<rparr>))
        else if usTotal - l > 0 then send_frames ops u (ptr_add p (unat l)) (usTotal - l) WS_CONTINUATION g3
        else Some (1, g3)
      })"

definition WSCore_DataSend ::
  "'w sl_ops \<Rightarrow> nat \<Rightarrow> hblob \<Rightarrow> u8 \<Rightarrow> 'w HttpGlobalState \<Rightarrow> (int \<times> 'w HttpGlobalState) option" where
  "WSCore_DataSend ops u payload opcode g = do {
     usTotal \<leftarrow> (if opcode \<noteq> WS_BINARY
              then map_option (\<lambda>s. of_nat (length s)) (string_at g (pData payload))
              else Some (uLength payload));
     send_frames ops u (pData payload) usTotal opcode g
   }"

text \<open>
  The second half of \<open>WSCore_DataRecv\<close>, once the whole payload is in the buffer: unmask, terminate
  the string, answer a ping, hand the payload to the application.  The terminator goes one byte behind
  the block of the payload's size that was allocated for it: C leaves that write, and the reading of the
  string up to that byte, undefined; here the byte is a private one of the block and both are let happen.
\<close>

definition deliver_payload ::
  "'w sl_ops \<Rightarrow> nat \<Rightarrow> 'w HttpGlobalState \<Rightarrow> (int \<times> 'w HttpGlobalState) option" where
  "deliver_payload ops u g = do {
     let g1 = ws_upd (\<lambda>s. s\<lparr>RecvMore := False\<rparr>) g;
     m \<leftarrow> (if Mask (ws g1) \<noteq> 0
          then unmask_loop (hmem g1) (GlobRecvBuf (ws g1)) 0 (GlobPayloadLen (ws g1))
          else Some (hmem g1));
     let m2 = (case ptr_add (GlobRecvBuf (ws g1)) (nat (GlobPayloadLen (ws g1))) of
                 Null \<Rightarrow> m | Ptr b i \<Rightarrow> mem_set1 m b i 0);
     let g2 = g1\<lparr>hmem := m2\<rparr>;
     let payload = \<lparr>uLength = of_int (GlobPayloadLen (ws g2)), pData = GlobRecvBuf (ws g2)\<rparr>;
     (r, g3) \<leftarrow> (if Ping (ws g2) then WSCore_DataSend ops u payload 0x0A g2 else Some (1, g2));
     s \<leftarrow> c_string (hmem g3) (GlobRecvBuf (ws g3)) (nat (GlobPayloadLen (ws g3)) + 1);
     Some (1, g3\<lparr>world := ws_recv_event ops u s (world g3)\<rparr>)
   }"

text \<open>The length field: 7 bits, or the 2 or 8 bytes that follow, tested one after the other.\<close>

definition parse_len :: "'b mem \<Rightarrow> 'b http_blob \<Rightarrow> u8 \<Rightarrow> u64 \<times> 'b http_blob" where
  "parse_len m blob b1 =
     (let len0 = ucast (b1 AND 0x7F) :: u64;
          (len1, blob3) = (if len0 = 0x7E then Payloadlength m blob 2 else (len0, blob))
      in if len1 = 0x7F then Payloadlength m blob3 8 else (len1, blob3))"

text \<open>The buffer of a new message, the masking key, and the part of the payload in this packet.\<close>

definition start_message ::
  "u8 \<Rightarrow> u64 \<Rightarrow> hblob \<Rightarrow> 'w HttpGlobalState \<Rightarrow> nat \<times> 'w HttpGlobalState" where
  "start_message msk len blob g =
     (let n = unat (ucast len :: u32);
          (buf, g2) = malloc n g;
          g3 = ws_upd (\<lambda>s. s\<lparr>Mask := msk, GlobRecvBuf := Ptr buf 0, GlobPayloadLen := sint len\<rparr>)
                 (g2\<lparr>hmem := memset (hmem g2) buf 0 0 n\<rparr>);
          (g4, blob5) = (if msk \<noteq> 0
            then (g3\<lparr>hmem := memcpy_from (hmem g3) MaskKey 0 (pData blob) 4\<rparr>, blob_skip blob 4)
            else (g3, blob));
          recvLength = unat (uLength blob5)
      in (recvLength, g4\<lparr>hmem := memcpy_from (hmem g4) buf 0 (pData blob5) recvLength\<rparr>))"

definition WSCore_DataRecv ::
  "'w sl_ops \<Rightarrow> nat \<Rightarrow> hblob \<Rightarrow> 'w HttpGlobalState \<Rightarrow> (int \<times> 'w HttpGlobalState) option" where
  "WSCore_DataRecv ops u blob g =
     (if \<not> RecvMore (ws g) then
        let b0 = ptr_byte (hmem g) (pData blob);
            blob1 = blob_skip blob 1;
            opcode = b0 AND 0x0F
        in if opcode = WS_CLOSE then do {
             (st, g1) \<leftarrow> WSStatusString 1000 blob1 (ws_upd (\<lambda>s. s\<lparr>Close := True\<rparr>) g);
             (r, g2) \<leftarrow> WSCore_DataSend ops u st opcode g1;
             Some (1, g2)
           }
           else
             let g1 = (if opcode = WS_PING then ws_upd (\<lambda>s. s\<lparr>Ping := True\<rparr>) g else g);
                 b1 = ptr_byte (hmem g1) (pData blob1);
                 blob2 = blob_skip blob1 1;
                 (len, blob4) = parse_len (hmem g1) blob2 b1;
                 (recvLength, g5) = start_message (b1 AND 0x80) len blob4 g1
             in if sint len > int recvLength
                then Some (1, ws_upd (\<lambda>s. s\<lparr>GlobRecvLen := int recvLength, RecvMore := True\<rparr>) g5)
                else deliver_payload ops u g5
      else
        let recvLength = unat (uLength blob);
            m = (case ptr_add (GlobRecvBuf (ws g)) (nat (GlobRecvLen (ws g))) of
                   Null \<Rightarrow> hmem g | Ptr b i \<Rightarrow> memcpy_from (hmem g) b i (pData blob) recvLength);
            g1 = ws_upd (\<lambda>s. s\<lparr>GlobRecvLen := GlobRecvLen s + int recvLength\<rparr>) (g\<lparr>hmem := m\<rparr>)
        in if GlobRecvLen (ws g1) < GlobPayloadLen (ws g1) then Some (1, g1)
           else deliver_payload ops u g1)"

section \<open>Masking and lengths\<close>

definition be_value :: "u8 list \<Rightarrow> nat" where
  "be_value bs = foldl (\<lambda>a b. a * 256 + unat b) 0 bs"

lemma unat_or_byte: "unat (r::u64) * 256 < 2 ^ 64 \<Longrightarrow>
   unat (ucast (b::u8) OR push_bit 8 r) = unat r * 256 + unat b"
proof -
  assume a: "unat r * 256 < 2 ^ 64"
  have disj: "ucast b AND push_bit 8 r = (0::u64)"
    by (rule bit_word_eqI) (auto simp: bit_simps dest: bit_imp_le_length)
  have p: "unat (push_bit 8 r) = unat r * 256"
    using a by (simp add: push_bit_eq_mult unat_word_ariths)
  have b: "unat (ucast b :: u64) = unat b"
    by (rule unat_ucast_small, rule order_less_trans [OF unat8_bound]) simp
  have "ucast b OR push_bit 8 r = ucast b + push_bit 8 r"
    using disj by (simp add: disjunctive_add_eq_or)
  moreover have "unat (ucast b :: u64) + unat (push_bit 8 r) < 2 ^ 64"
  proof -
    have "unat r < 2 ^ 56" using a by simp
    then have "unat r * 256 + 255 < 2 ^ 64" by simp
    moreover have "unat b < 256" by (rule unat8_bound)
    ultimately show ?thesis unfolding p b by linarith
  qed
  ultimately show ?thesis using p b by (simp add: unat_add_small)
qed

lemma blob_skip_Suc: "blob_skip (blob_skip blob 1) n = blob_skip blob (Suc n)"
  by (cases "pData blob") (simp_all add: blob_skip_def algebra_simps)

lemma payload_loop_value:
  assumes "pData blob = Ptr b off" "unat r < 256 ^ (8 - n)" "n \<le> 8"
  shows "unat (fst (payload_loop m blob n (if n = 0 then r else push_bit 8 r))) =
      foldl (\<lambda>a b. a * 256 + unat b) (unat r) (mem_read m b off n) \<and>
    snd (payload_loop m blob n (if n = 0 then r else push_bit 8 r)) = blob_skip blob n"
  using assms
proof (induction n arbitrary: blob off r)
  case 0
  then show ?case by (simp add: blob_skip_def)
next
  case (Suc n)
  let ?r = "ucast (m b off) OR push_bit 8 r :: u64"
  have k: "(256::nat) ^ (8 - Suc n) * 256 = 256 ^ (8 - n)"
    using Suc.prems(3) by (metis Suc_diff_Suc Suc_le_lessD mult.commute power_Suc)
  have "(256::nat) ^ (8 - n) \<le> 256 ^ 8" by (rule power_increasing) simp_all
  then have "unat r * 256 < 2 ^ 64" using Suc.prems(2) k by simp
  then have r: "unat ?r = unat r * 256 + unat (m b off)" by (rule unat_or_byte)
  have "unat r + 1 \<le> 256 ^ (8 - Suc n)" using Suc.prems(2) by simp
  then have "(unat r + 1) * 256 \<le> 256 ^ (8 - n)" unfolding k [symmetric] by (rule mult_right_mono) simp
  then have le: "unat r * 256 + 256 \<le> 256 ^ (8 - n)" by simp
  have "unat ?r < unat r * 256 + 256" unfolding r by simp
  then have bound: "unat ?r < 256 ^ (8 - n)" using le by (rule order_less_le_trans)
  have p: "pData (blob_skip blob 1) = Ptr b (off + 1)" using Suc.prems(1) by (simp add: blob_skip_def)
  have step: "payload_loop m blob (Suc n) (push_bit 8 r) =
      payload_loop m (blob_skip blob 1) n (if n = 0 then ?r else push_bit 8 ?r)"
    using Suc.prems(1) by (simp add: ptr_byte_def Let_def del: push_bit_or)
  have rd: "mem_read m b off (Suc n) = m b off # mem_read m b (off + 1) n"
    by (simp add: mem_read_def upt_conv_Cons del: upt_Suc)
  from Suc.IH [OF p bound] Suc.prems(3) show ?case
    by (simp only: nat.simps if_False step rd foldl.simps r blob_skip_Suc)
qed

lemma Payloadlength_value:
  assumes "pData blob = Ptr b off" "n \<le> 8"
  shows "unat (fst (Payloadlength m blob n)) = be_value (mem_read m b off n) \<and>
    snd (Payloadlength m blob n) = blob_skip blob n"
  using payload_loop_value [OF assms(1) _ assms(2), of 0 m]
  by (cases n) (simp_all add: Payloadlength_def be_value_def)

text \<open>What the unmasking loop computes.\<close>

definition masked :: "u8 list \<Rightarrow> nat \<Rightarrow> u8 list \<Rightarrow> u8 list" where
  "masked key k bs = map (\<lambda>i. bs ! i XOR key ! ((k + i) mod 4)) [0..<length bs]"

lemma masked_Cons:
  "masked key k (x # xs) = (x XOR key ! (k mod 4)) # masked key ((k + 1) mod 4) xs"
proof -
  have "(k + Suc i) mod 4 = ((k + 1) mod 4 + i) mod 4" for i by presburger
  then show ?thesis
    by (simp add: masked_def upt_conv_Cons map_Suc_upt [symmetric] del: upt_Suc)
qed

lemma length_masked [simp]: "length (masked key k bs) = length bs"
  by (simp add: masked_def)

lemma unmask_loop_value:
  assumes "k < 4" "b \<noteq> MaskKey"
  shows "unmask_loop m (Ptr b i) k (int (Suc n)) =
    Some (mem_write m b i (masked (mem_read m MaskKey 0 4) k (mem_read m b i (Suc n))))"
  using assms(1)
proof (induction n arbitrary: m i k)
  case 0
  then show ?case
    using assms(2)
    by (subst unmask_loop.simps)
      (auto simp: masked_def mem_read_def mem_set1_def mem_write_def fun_eq_iff)
next
  case (Suc n)
  let ?m = "mem_set1 m b i (m b i XOR m MaskKey k)" and ?k = "if k + 1 = 4 then 0 else k + 1"
  have key: "mem_read ?m MaskKey 0 4 = mem_read m MaskKey 0 4"
    using assms(2) by (simp add: mem_read_def mem_set1_def)
  have tl: "mem_read ?m b (i + 1) (Suc n) = mem_read m b (i + 1) (Suc n)"
    by (rule mem_read_cong) (simp add: mem_set1_apply)
  have k: "?k = (k + 1) mod 4" using Suc.prems by auto
  have rd: "mem_read m b i (Suc (Suc n)) = m b i # mem_read m b (i + 1) (Suc n)"
    by (simp add: mem_read_def upt_conv_Cons del: upt_Suc)
  have hd: "mem_read m MaskKey 0 4 ! k = m MaskKey k" using Suc.prems by (simp add: nth_mem_read)
  have mk: "masked (mem_read m MaskKey 0 4) k (mem_read m b i (Suc (Suc n))) =
      (m b i XOR m MaskKey k) # masked (mem_read m MaskKey 0 4) ((k + 1) mod 4) (mem_read m b (i + 1) (Suc n))"
    unfolding rd masked_Cons using Suc.prems hd by simp
  have "unmask_loop m (Ptr b i) k (int (Suc (Suc n))) = unmask_loop ?m (Ptr b (i + 1)) ?k (int (Suc n))"
    by (subst unmask_loop.simps) (simp add: Let_def)
  also have "\<dots> = Some (mem_write ?m b (i + 1) (masked (mem_read ?m MaskKey 0 4) ?k (mem_read ?m b (i + 1) (Suc n))))"
    by (rule Suc.IH) (use Suc.prems in auto)
  also have "mem_write ?m b (i + 1) xs = mem_write m b i ((m b i XOR m MaskKey k) # xs)" for xs
    by (auto simp: mem_write_def mem_set1_def fun_eq_iff nth_Cons')
  finally show ?case by (simp only: mk key tl k)
qed

lemma masked_masked [simp]: "masked key k (masked key k bs) = bs"
  by (rule nth_equalityI) (simp_all add: masked_def xor.assoc)

section \<open>Delivering a message\<close>

lemma ws_upd_simps [simp]:
  "hmem (ws_upd f g) = hmem g" "world (ws_upd f g) = world g" "ws (ws_upd f g) = f (ws g)"
  "connections (ws_upd f g) = connections g" "packetSendSize (ws_upd f g) = packetSendSize g"
  "heap_next (ws_upd f g) = heap_next g"
  by (simp_all add: ws_upd_def)

lemma deliver_payload_masked:
  assumes "Mask (ws g) \<noteq> 0" "GlobRecvBuf (ws g) = Ptr b 0" "b \<noteq> MaskKey"
    "GlobPayloadLen (ws g) = int (length msg)" "msg \<noteq> []" "0 \<notin> set msg" "\<not> Ping (ws g)"
    "mem_read (hmem g) b 0 (length msg) = masked (mem_read (hmem g) MaskKey 0 4) 0 msg"
  shows "\<exists>g'. deliver_payload ops u g = Some (1, g') \<and>
    world g' = ws_recv_event ops u msg (world g) \<and> \<not> RecvMore (ws g') \<and> connections g' = connections g \<and>
    hmem g' b (length msg) = 0"
proof -
  obtain n where n: "length msg = Suc n" using assms(5) by (cases msg) auto
  let ?key = "mem_read (hmem g) MaskKey 0 4"
  let ?m = "mem_write (hmem g) b 0 msg"
  let ?m2 = "mem_set1 ?m b (length msg) 0"
  have un: "unmask_loop (hmem g) (Ptr b 0) 0 (int (length msg)) = Some ?m"
    using unmask_loop_value [OF _ assms(3), of 0 "hmem g" 0 n] assms(8) by (simp add: n)
  have rd: "mem_read ?m2 b 0 (length msg + 1) = msg @ [0]"
  proof -
    have "mem_read ?m2 b 0 (length msg) = msg"
      by (rule nth_equalityI) (auto simp: nth_mem_read mem_set1_apply mem_write_same)
    moreover have "mem_read ?m2 b (length msg) 1 = [0]" by (simp add: mem_read_def mem_set1_apply)
    ultimately show ?thesis by (simp only: mem_read_append add_0)
  qed
  have tw: "takeWhile (\<lambda>c. c \<noteq> 0) (msg @ [0]) = msg"
    using assms(6) by (subst takeWhile_append2) auto
  have cs: "c_string ?m2 (Ptr b 0) (nat (int (length msg)) + 1) = Some msg"
    using rd tw by (simp add: c_string_def)
  show ?thesis
    using assms(1,2,4,7) un cs by (simp add: deliver_payload_def Let_def mem_set1_apply)
qed

definition frame_head :: "nat \<Rightarrow> u8 list" where
  "frame_head n = (if n \<le> 125 then [0x80 OR of_nat n]
     else [0x80 OR 126, of_nat (n div 256), of_nat (n mod 256)])"

text \<open>The frame a client sends: first byte, mask bit and length, key, masked payload.\<close>

definition client_frame :: "u8 \<Rightarrow> u8 list \<Rightarrow> u8 list \<Rightarrow> u8 list" where
  "client_frame b0 key msg = b0 # frame_head (length msg) @ key @ masked key 0 msg"

lemma mask_bits:
  "x \<le> 126 \<Longrightarrow> (0x80 OR x) AND 0x7F = (x::u8)" "(0x80 OR x) AND 0x80 \<noteq> (0::u8)"
proof -
  have "(0x80 OR x) AND 0x7F = (0x80 AND 0x7F) OR (x AND 0x7F)" by (simp only: bit.conj_disj_distrib2)
  then have "(0x80 OR x) AND 0x7F = x AND mask 7" by (simp add: mask_eq_exp_minus_1)
  moreover have "x AND mask 7 = x" if "x \<le> 126"
  proof -
    have "unat x < 128" using that by (simp add: word_le_nat_alt)
    then show ?thesis by (simp add: word_unat_eq_iff unsigned_and_eq take_bit_eq_mask [symmetric] unsigned_take_bit_eq take_bit_nat_eq_self)
  qed
  ultimately show "x \<le> 126 \<Longrightarrow> (0x80 OR x) AND 0x7F = x" by simp
  have "bit ((0x80 OR x) AND (0x80::u8)) 7" by (simp add: bit_simps)
  then show "(0x80 OR x) AND 0x80 \<noteq> (0::u8)" by (metis bit_0_eq bot_apply bot_bool_def)
qed

lemma DataRecv_new:
  assumes "\<not> RecvMore (ws g)" "ptr_byte (hmem g) (pData blob) AND 0x0F \<noteq> 8"
    "ptr_byte (hmem g) (pData blob) AND 0x0F \<noteq> 9"
    "parse_len (hmem g) (blob_skip blob 2) (ptr_byte (hmem g) (pData (blob_skip blob 1))) = (len, blob4)"
    "start_message (ptr_byte (hmem g) (pData (blob_skip blob 1)) AND 0x80) len blob4 g = (recvLength, g5)"
  shows "WSCore_DataRecv ops u blob g =
    (if sint len > int recvLength
     then Some (1, ws_upd (\<lambda>s. s\<lparr>GlobRecvLen := int recvLength, RecvMore := True\<rparr>) g5)
     else deliver_payload ops u g5)"
proof -
  have "blob_skip (blob_skip blob 1) 1 = blob_skip blob 2"
    using blob_skip_Suc [of blob 1] by (simp add: numeral_2_eq_2)
  then show ?thesis
    using assms by (simp add: WSCore_DataRecv_def Let_def del: One_nat_def)
qed

lemma blob_skip_0 [simp]: "blob_skip blob 0 = blob"
  by (cases "pData blob") (simp_all add: blob_skip_def)

lemma parse_len_frame:
  assumes "pData blob = Ptr b off" "length msg < 65536" "length msg \<noteq> 127"
    "mem_read m b (off - 1) (length (frame_head (length msg))) = frame_head (length msg)" "0 < off"
  shows "parse_len m blob (m b (off - 1)) =
      (of_nat (length msg), blob_skip blob (length (frame_head (length msg)) - 1)) \<and>
    m b (off - 1) AND 0x80 \<noteq> 0"
proof (cases "length msg \<le> 125")
  case True
  let ?n = "length msg"
  have b1: "m b (off - 1) = 0x80 OR of_nat ?n"
    using assms(4) True by (simp add: frame_head_def mem_read_def)
  have n8: "unat (of_nat ?n :: u8) = ?n" using True by (intro unat_of_nat_small) simp
  have "(of_nat ?n :: u8) \<le> 126" using True by (simp add: word_le_nat_alt n8)
  note mb = mask_bits(1) [OF this]
  have u: "ucast (of_nat ?n :: u8) = (of_nat ?n :: u64)"
    by (rule word_unat_eq_iff [THEN iffD2])
      (use True in \<open>simp add: n8 unat_ucast_small unat_of_nat_small\<close>)
  have "(of_nat ?n :: u64) \<noteq> 0x7E" "(of_nat ?n :: u64) \<noteq> 0x7F"
    using True by (auto simp: word_unat_eq_iff unat_of_nat_small)
  then show ?thesis
    using True mb mask_bits(2) u by (simp add: parse_len_def b1 frame_head_def Let_def del: One_nat_def)
next
  case False
  let ?n = "length msg"
  have "map (m b) [off - 1..<off + 2] = [0x80 OR 126, of_nat (?n div 256), of_nat (?n mod 256)]"
    using assms(4,5) False by (simp add: frame_head_def mem_read_def)
  moreover have "[off - 1..<off + 2] = [off - 1, off, off + 1]"
    using assms(5) by (simp add: upt_rec)
  ultimately have b1: "m b (off - 1) = 0x80 OR 126" "m b off = of_nat (?n div 256)" "m b (off + 1) = of_nat (?n mod 256)"
    by simp_all
  have u1: "unat (of_nat (?n div 256) :: u8) = ?n div 256" "unat (of_nat (?n mod 256) :: u8) = ?n mod 256"
    using assms(2) by (simp_all add: unat_of_nat_small)
  have "be_value (mem_read m b off 2) = ?n"
    using b1 u1 by (simp add: be_value_def mem_read_def upt_rec)
  then have "unat (fst (Payloadlength m blob 2)) = ?n" "snd (Payloadlength m blob 2) = blob_skip blob 2"
    using Payloadlength_value [OF assms(1), of 2 m] by auto
  then have pl: "Payloadlength m blob 2 = (of_nat ?n, blob_skip blob 2)"
    using assms(2) by (simp add: prod_eq_iff word_unat_eq_iff unat_of_nat_small)
  have "(of_nat ?n :: u64) \<noteq> 0x7F"
    using assms(2,3) by (auto simp: word_unat_eq_iff unat_of_nat_small)
  moreover have "length (frame_head ?n) - 1 = 2" using False by (simp add: frame_head_def)
  moreover have "m b (off - 1) AND 0x7F = 126" "m b (off - 1) AND 0x80 \<noteq> 0"
    using mask_bits [of 126] unfolding b1(1) by simp_all
  ultimately show ?thesis
    using pl by (simp add: parse_len_def Let_def del: One_nat_def)
qed

section \<open>A message in one packet\<close>

lemma mem_read_split:
  assumes "mem_read m b off n = xs @ ys @ zs"
  shows "mem_read m b (off + length xs) (length ys) = ys"
    "mem_read m b (off + length xs + length ys) (length zs) = zs" "n = length xs + length ys + length zs"
proof -
  have "length (mem_read m b off n) = length (xs @ ys @ zs)" by (simp only: assms)
  then show n: "n = length xs + length ys + length zs" by simp
  have "drop (length xs) (mem_read m b off n) = ys @ zs" by (simp add: assms)
  then have d: "mem_read m b (off + length xs) (length ys + length zs) = ys @ zs"
    by (simp add: drop_mem_read n)
  then have "take (length ys) (mem_read m b (off + length xs) (length ys + length zs)) = ys" by simp
  then show "mem_read m b (off + length xs) (length ys) = ys" by (simp add: take_mem_read)
  from d have "drop (length ys) (mem_read m b (off + length xs) (length ys + length zs)) = zs" by simp
  then show "mem_read m b (off + length xs + length ys) (length zs) = zs" by (simp add: drop_mem_read)
qed

lemma start_message_masked:
  assumes "pData blob = Ptr b i" "b \<noteq> MaskKey" "b \<noteq> Heap (heap_next g)" "msk \<noteq> 0" "length key = 4"
    "mem_read (hmem g) b i 4 = key" "mem_read (hmem g) b (i + 4) k = body"
    "unat (uLength blob) = 4 + k" "n < 65536" "start_message msk (of_nat n) blob g = (recvLength, g5)"
  shows "recvLength = k \<and> Mask (ws g5) = msk \<and> GlobRecvBuf (ws g5) = Ptr (Heap (heap_next g)) 0 \<and>
    GlobPayloadLen (ws g5) = int n \<and> Ping (ws g5) = Ping (ws g) \<and> world g5 = world g \<and>
    connections g5 = connections g \<and> packetSendSize g5 = packetSendSize g \<and>
    mem_read (hmem g5) MaskKey 0 4 = key \<and> mem_read (hmem g5) (Heap (heap_next g)) 0 k = body"
proof -
  let ?h = "Heap (heap_next g)"
  let ?n = "unat (ucast (of_nat n :: u64) :: u32)"
  let ?m3 = "memset (hmem g) ?h 0 0 ?n"
  let ?m4 = "memcpy_from ?m3 MaskKey 0 (Ptr b i) 4"
  let ?bl = "blob_skip blob 4"
  have len: "unat (uLength ?bl) = k" using blob_skip_len [of 4 blob] assms(8) by simp
  let ?m5 = "memcpy_from ?m4 ?h 0 (Ptr b (i + 4)) k"
  have p: "pData ?bl = Ptr b (i + 4)" by (simp add: blob_skip_def assms(1))
  have m3: "?m3 b = hmem g b" using assms(3) by (simp add: memset_def mem_write_other)
  have m4: "?m4 b = hmem g b" using assms(2) m3 by (simp add: memcpy_from_other)
  have b4: "mem_read ?m3 b = mem_read (hmem g) b" using m3 by (rule mem_read_block)
  have b5: "mem_read ?m4 b = mem_read (hmem g) b" using m4 by (rule mem_read_block)
  have key: "mem_read ?m5 MaskKey 0 4 = key"
  proof -
    have "?m5 MaskKey = ?m4 MaskKey" by (simp add: memcpy_from_other)
    then have "mem_read ?m5 MaskKey = mem_read ?m4 MaskKey" by (rule mem_read_block)
    then have "mem_read ?m5 MaskKey 0 4 = mem_read ?m4 MaskKey 0 4" by simp
    also have "\<dots> = mem_read ?m3 b i 4"
      using mem_read_write [of ?m3 MaskKey 0 "mem_read ?m3 b i 4"] by (simp add: memcpy_from_def memcpy_def)
    finally show ?thesis by (simp add: b4 assms(6))
  qed
  have "length body = k" using length_mem_read assms(7) by metis
  then have body: "mem_read ?m5 ?h 0 k = body"
    using mem_read_write [of ?m4 ?h 0 "mem_read ?m4 b (i + 4) k"]
    by (simp add: memcpy_from_def [of _ ?h] memcpy_def b5 assms(7))
  have s: "sint (of_nat n :: u64) = int n"
  proof -
    have "uint (of_nat n :: u64) = int n" using assms(9) by (simp add: uint_nat unat_of_nat_small)
    then show ?thesis using assms(9) by (simp add: sint_uint signed_take_bit_int_eq_self)
  qed
  have "recvLength = k" "g5 = (ws_upd (\<lambda>s. s\<lparr>Mask := msk, GlobRecvBuf := Ptr ?h 0, GlobPayloadLen := sint (of_nat n :: u64)\<rparr>)
      ((snd (malloc ?n g))\<lparr>hmem := ?m3\<rparr>))\<lparr>hmem := ?m5\<rparr>"
    using assms(4,10) len p assms(1)
    by (auto simp: start_message_def malloc_def Let_def ws_upd_def)
  with key body s show ?thesis by (simp add: ws_upd_def malloc_def)
qed

definition web_frame :: "'b mem \<Rightarrow> 'b http_blob \<Rightarrow> 'b \<Rightarrow> u8 list \<Rightarrow> bool" where
  "web_frame m blob b bs \<longleftrightarrow> (\<exists>off. pData blob = Ptr b off) \<and> blob_bytes m blob = bs"

lemma client_frame_received:
  assumes "\<not> RecvMore (ws g)" "web_frame (hmem g) blob b (client_frame b0 key msg)"
    "b \<noteq> MaskKey" "b \<noteq> Heap (heap_next g)" "length key = 4" "b0 AND 0x0F \<noteq> 8" "b0 AND 0x0F \<noteq> 9"
    "length msg \<noteq> 127"
  obtains g5 where "WSCore_DataRecv ops u blob g = deliver_payload ops u g5" "Mask (ws g5) \<noteq> 0"
    "GlobRecvBuf (ws g5) = Ptr (Heap (heap_next g)) 0" "GlobPayloadLen (ws g5) = int (length msg)"
    "Ping (ws g5) = Ping (ws g)" "world g5 = world g" "connections g5 = connections g"
    "mem_read (hmem g5) MaskKey 0 4 = key"
    "mem_read (hmem g5) (Heap (heap_next g)) 0 (length msg) = masked key 0 msg"
proof -
  obtain off where p: "pData blob = Ptr b off" using assms(2) by (auto simp: web_frame_def)
  let ?h = "frame_head (length msg)" and ?n = "length msg"
  have hl: "length ?h \<ge> 1" by (simp add: frame_head_def)
  have rd: "mem_read (hmem g) b off (unat (uLength blob)) = [b0] @ ?h @ key @ masked key 0 msg"
    using assms(2) p by (simp add: web_frame_def blob_bytes_def client_frame_def)
  note s1 = mem_read_split [OF rd]
  note s2 = mem_read_split [where xs = "[]" and ys = key and zs = "masked key 0 msg", simplified, OF s1(2)]
  have len: "unat (uLength blob) = 1 + length ?h + 4 + ?n" using s1(3) assms(5) by simp
  have n: "?n < 65536" using len order_le_less_trans [OF _ unat16_bound, of ?n "uLength blob"] by simp
  have "mem_read (hmem g) b off (unat (uLength blob)) ! 0 = b0" using rd by simp
  then have b0: "ptr_byte (hmem g) (pData blob) = b0"
    using len by (simp add: p ptr_byte_def nth_mem_read)
  let ?bl = "blob_skip (blob_skip blob 2) (length ?h - 1)"
  have pl: "parse_len (hmem g) (blob_skip blob 2) (hmem g b (off + 1)) = (of_nat ?n, ?bl)"
    "hmem g b (off + 1) AND 0x80 \<noteq> 0"
    using parse_len_frame [of "blob_skip blob 2" b "off + 2" msg "hmem g"] n assms(8) s1(1)
    by (simp_all add: blob_skip_def p)
  have b1: "ptr_byte (hmem g) (pData (blob_skip blob 1)) = hmem g b (off + 1)"
    by (simp add: blob_skip_def p ptr_byte_def)
  have blp: "pData ?bl = Ptr b (off + 1 + length ?h)" using hl by (simp add: blob_skip_def p)
  have bll: "unat (uLength ?bl) = 4 + ?n"
    using blob_skip_len [of "length ?h - 1" "blob_skip blob 2"] blob_skip_len [of 2 blob] len hl by simp
  obtain rl g5 where sm: "start_message (hmem g b (off + 1) AND 0x80) (of_nat ?n) ?bl g = (rl, g5)"
    by fastforce
  have sp: "mem_read (hmem g) b (off + 1 + length ?h) 4 = key"
    "mem_read (hmem g) b (off + 1 + length ?h + 4) ?n = masked key 0 msg"
    using s2 assms(5) s1 by (simp_all add: add.assoc)
  note st = start_message_masked [OF blp assms(3,4) pl(2) assms(5) sp bll n sm]
  have s: "sint (of_nat ?n :: u64) = int ?n"
  proof -
    have "uint (of_nat ?n :: u64) = int ?n" using n by (simp add: uint_nat unat_of_nat_small)
    then show ?thesis using n by (simp add: sint_uint signed_take_bit_int_eq_self)
  qed
  have "WSCore_DataRecv ops u blob g = deliver_payload ops u g5"
    using DataRecv_new [OF assms(1) _ _ pl(1) [folded b1] sm [folded b1], of ops u] assms(6,7) b0 st s
    by simp
  then show ?thesis using st pl(2) by (intro that [of g5]) simp_all
qed

text \<open>
  C26. A client message that arrives whole in one packet is delivered: if no ping was received so far
  and no message is half received, and the received bytes are a masked frame (neither a close nor a
  ping, payload not empty, without a NUL byte and not 127 bytes long), the handler unmasks the payload into a fresh block, writes its terminator and calls the
  application's receive handler once, on exactly the payload, and leaves the connections as
  they were.
\<close>

theorem WSCore_DataRecv_delivers:
  assumes "\<not> RecvMore (ws g)" "\<not> Ping (ws g)" "web_frame (hmem g) blob b (client_frame b0 key msg)"
    "b \<noteq> MaskKey" "b \<noteq> Heap (heap_next g)" "length key = 4" "b0 AND 0x0F \<noteq> 8" "b0 AND 0x0F \<noteq> 9"
    "msg \<noteq> []" "0 \<notin> set msg" "length msg \<noteq> 127"
  shows "\<exists>g'. WSCore_DataRecv ops u blob g = Some (1, g') \<and>
    world g' = ws_recv_event ops u msg (world g) \<and> \<not> RecvMore (ws g') \<and> connections g' = connections g \<and>
    hmem g' (Heap (heap_next g)) (length msg) = 0"
proof (rule client_frame_received [OF assms(1,3-8,11), of ops u])
  fix g5
  assume g5: "WSCore_DataRecv ops u blob g = deliver_payload ops u g5" "Mask (ws g5) \<noteq> 0"
    "GlobRecvBuf (ws g5) = Ptr (Heap (heap_next g)) 0" "GlobPayloadLen (ws g5) = int (length msg)"
    "Ping (ws g5) = Ping (ws g)" "world g5 = world g" "connections g5 = connections g"
    "mem_read (hmem g5) MaskKey 0 4 = key"
    "mem_read (hmem g5) (Heap (heap_next g)) 0 (length msg) = masked key 0 msg"
  have "\<exists>g'. deliver_payload ops u g5 = Some (1, g') \<and> world g' = ws_recv_event ops u msg (world g5) \<and>
      \<not> RecvMore (ws g') \<and> connections g' = connections g5 \<and> hmem g' (Heap (heap_next g)) (length msg) = 0"
    by (rule deliver_payload_masked) (use g5 assms(2,9,10) in simp_all)
  then show ?thesis using g5 by simp
qed

lemma unmask_loop_positive:
  assumes "unmask_loop m p k n = Some m'"
  shows "0 < n"
proof (rule unmask_loop.raw_induct [OF _ assms])
  fix f m k y and p :: "http_block ptr" and n :: int
  assume IH: "\<And>m p k n y. f m p k n = Some y \<Longrightarrow> 0 < n"
    and run: "(case p of Null \<Rightarrow> None
      | Ptr b i \<Rightarrow>
          let m' = mem_set1 m b i (m b i XOR m MaskKey k); left' = n - 1
          in if left' = 0 then Some m'
             else f m' (Ptr b (i + 1)) (if k + 1 = 4 then 0 else k + 1) left') = Some y"
  show "0 < n"
  proof (cases "n = 1")
    case False
    then have "0 < n - 1" using run by (auto simp: Let_def split: ptr.splits dest: IH)
    then show ?thesis by simp
  qed simp
qed

text \<open>An empty masked frame is fatal: the unmasking loop tests its counter after decreasing it, so
  that for a client frame without payload the handler never returns (the loop runs off the
  buffer).
\<close>

theorem WSCore_DataRecv_empty_hangs:
  assumes "\<not> RecvMore (ws g)" "web_frame (hmem g) blob b (client_frame b0 key [])"
    "b \<noteq> MaskKey" "b \<noteq> Heap (heap_next g)" "length key = 4" "b0 AND 0x0F \<noteq> 8" "b0 AND 0x0F \<noteq> 9"
  shows "WSCore_DataRecv ops u blob g = None"
proof (rule client_frame_received [OF assms, of ops u])
  show "length ([] :: u8 list) \<noteq> 127" by simp
next
  fix g5
  assume g5: "WSCore_DataRecv ops u blob g = deliver_payload ops u g5" "Mask (ws g5) \<noteq> 0"
    "GlobRecvBuf (ws g5) = Ptr (Heap (heap_next g)) 0" "GlobPayloadLen (ws g5) = int (length ([] :: u8 list))"
  have "unmask_loop (hmem g5) (Ptr (Heap (heap_next g)) 0) 0 0 = None"
    using unmask_loop_positive by (cases "unmask_loop (hmem g5) (Ptr (Heap (heap_next g)) 0) 0 0") fastforce+
  then show ?thesis using g5 by (simp add: deliver_payload_def Let_def)
qed

text \<open>A length of 127 is taken twice: when the two-byte length field of a frame holds 127, the code
  goes on to its next test and reads eight more bytes, the masking key and the first four bytes of
  the payload, as the length.
\<close>

theorem parse_len_127:
  assumes "pData blob = Ptr b off" "mem_read m b off 2 = [0, 127]"
  shows "unat (fst (parse_len m blob 0xFE)) = be_value (mem_read m b (off + 2) 8)"
proof -
  have p: "pData (blob_skip blob 2) = Ptr b (off + 2)" by (simp add: blob_skip_def assms(1))
  have "unat (fst (Payloadlength m blob 2)) = 127" "snd (Payloadlength m blob 2) = blob_skip blob 2"
    using Payloadlength_value [OF assms(1), of 2 m] assms(2) by (simp_all add: be_value_def)
  then have pl: "Payloadlength m blob 2 = (127, blob_skip blob 2)"
    by (simp add: prod_eq_iff word_unat_eq_iff)
  show ?thesis
    using Payloadlength_value [OF p, of 8 m] by (simp add: parse_len_def pl)
qed

section \<open>The wire format of sent messages\<close>

definition server_head :: "nat \<Rightarrow> u8 \<Rightarrow> u8 list" where
  "server_head n op = ((if n < 1000 then 0x80 else 0) OR op) #
     (if n \<le> 125 then [of_nat n] else [126, of_nat (min n 996 div 256), of_nat (min n 996 mod 256)])"

text \<open>The frames of a message: pieces of at most 996 bytes, continuation frames after the first.\<close>

fun server_frames :: "u8 \<Rightarrow> u8 list \<Rightarrow> u8 list" where
  "server_frames op msg = server_head (length msg) op @ take 996 msg @
     (if length msg > 996 then server_frames 0 (drop 996 msg) else [])"

declare server_frames.simps [simp del]

lemma frame_payload_len_nat:
  assumes "n < 65536"
  shows "frame_payload_len (of_nat n) = of_nat (min n 996)"
proof -
  have u: "unat (of_nat n :: u16) = n" using assms by (intro unat_of_nat_small) simp
  have "(of_nat n :: u16) \<le> 125 \<longleftrightarrow> n \<le> 125" "(of_nat n :: u16) < 1000 \<longleftrightarrow> n < 1000"
    "996 \<le> (of_nat n :: u16) \<longleftrightarrow> 996 \<le> n"
    by (simp_all add: word_le_nat_alt word_less_nat_alt u)
  moreover have "(996::u16) \<le> 1000" by simp
  ultimately show ?thesis by (simp add: frame_payload_len_def Let_def min_def)
qed

lemma byte_pair:
  assumes "k < 65536"
  shows "ucast (drop_bit 8 (of_nat k :: u16)) = (of_nat (k div 256) :: u8)"
    "ucast (of_nat k :: u16) = (of_nat (k mod 256) :: u8)"
proof -
  have u: "unat (of_nat k :: u16) = k" using assms by (intro unat_of_nat_small) simp
  have "k mod 65536 div 256 = k div 256 mod 256" using assms by simp
  then show "ucast (drop_bit 8 (of_nat k :: u16)) = (of_nat (k div 256) :: u8)"
    by (simp add: word_unat_eq_iff unsigned_ucast_eq unsigned_drop_bit_eq u unat_div drop_bit_eq_div take_bit_eq_mod unat_of_nat)
  have "k mod 65536 mod 256 = k mod 256" using assms by simp
  then show "ucast (of_nat k :: u16) = (of_nat (k mod 256) :: u8)"
    by (simp add: word_unat_eq_iff unsigned_ucast_eq u take_bit_eq_mod unat_of_nat)
qed

lemma add_frame_header_bytes:
  assumes "n < 65536" "packetSendSize g = 0"
  shows "add_frame_header (of_nat n) op g = add_bytes (server_head n op) g"
proof -
  have u: "unat (of_nat n :: u16) = n" using assms by (intro unat_of_nat_small) simp
  have c: "(of_nat n :: u16) \<le> 125 \<longleftrightarrow> n \<le> 125" "(of_nat n :: u16) < 1000 \<longleftrightarrow> n < 1000"
    by (simp_all add: word_le_nat_alt word_less_nat_alt u)
  have b: "(of_nat (n mod 256) :: u8) = of_nat n" by (simp add: word_unat_eq_iff unat_of_nat)
  show ?thesis
  proof (cases "n \<le> 125")
    case True
    then show ?thesis
      using assms(2) byte_pair(2) [OF assms(1)] b
      by (simp add: add_frame_header_def Let_def add_char_bytes add_bytes_add_bytes server_head_def c)
  next
    case False
    have k: "min n 996 < 65536" by simp
    have b': "(of_nat (min n 996 mod 256) :: u8) = of_nat (min n 996)" by (simp add: word_unat_eq_iff unat_of_nat)
    show ?thesis
      unfolding add_frame_header_def frame_payload_len_nat [OF assms(1)] byte_pair [OF k] Let_def
      using False assms(2)
      by (simp only: c server_head_def add_char_bytes if_False FRAGMENT_LENGTH_def http_limits of_nat_numeral)
        (simp add: add_bytes_add_bytes add_bytes_size)
  qed
qed

lemma length_server_head: "length (server_head n op) \<le> 4" "0 < length (server_head n op)"
  by (simp_all add: server_head_def)

lemma send_frame_buffer:
  assumes "n < 65536" "packetSendSize g = 0" "length xs = min n 996"
    "g2 = add_bytes xs (add_frame_header (of_nat n) op g)"
  defines "buf \<equiv> \<lparr>uLength = packetSendSize g2, pData = Ptr PacketSend 0\<rparr>"
  shows "sendable buf PacketSend 0 \<and> blob_bytes (hmem g2) buf = server_head n op @ xs"
proof -
  let ?ys = "server_head n op @ xs"
  have len: "length ?ys \<le> 1000" using length_server_head(1) [of n op] assms(3) by simp
  have g2: "g2 = add_bytes ?ys g"
    using assms(2,4) len by (simp add: add_frame_header_bytes [OF assms(1,2)] add_bytes_add_bytes)
  then have s: "unat (packetSendSize g2) = length ?ys"
    using len by (simp only: g2) (rule add_bytes_size_small [OF assms(2)], simp)
  have "hmem g2 = mem_write (hmem g) PacketSend 0 ?ys"
    using assms(2) by (simp add: g2 HttpResponse_AddStringToResponseHeaders_def)
  then show ?thesis
    using s len mem_read_write [of "hmem g" PacketSend 0 ?ys]
    by (simp add: buf_def sendable_def blob_bytes_def)
qed

text \<open>One frame: what the packet sender does with it and what it leaves.\<close>

lemma WS_SendPacket_result:
  assumes "sendable \<lparr>uLength = packetSendSize g, pData = Ptr PacketSend 0\<rparr> PacketSend 0"
    "WS_SendPacket ops u g = Some (r, g')"
  shows "(r = 0 \<or> r = 1) \<and> packetSendSize g' = 0 \<and>
    (\<forall>c. c \<noteq> PacketSend \<longrightarrow> hmem g' c = hmem g c) \<and>
    dataSocket (connections g' u) = dataSocket (connections g u) \<and>
    (send_contract ops sent \<longrightarrow> r = 1 \<longrightarrow> sent (world g') = sent (world g) @
       map (Pair (dataSocket (connections g u)))
         (blob_bytes (hmem g) \<lparr>uLength = packetSendSize g, pData = Ptr PacketSend 0\<rparr>))"
proof -
  let ?b = "\<lparr>uLength = packetSendSize g, pData = Ptr PacketSend 0\<rparr>"
  obtain g1 where s: "HttpCore_SendPacket ops u ?b g = Some (r, g1)"
    and g': "g' = set_conn_state u WebSocketDataRecv (g1\<lparr>packetSendSize := 0\<rparr>)"
    using assms(2) by (auto simp: WS_SendPacket_def split: Option.bind_splits)
  show ?thesis
    using SendPacket_result [OF assms(1) s, of sent]
    by (simp add: g' set_conn_state_def same_rest_def)
qed

lemma ptr_bytes_frame: "m b = m' b \<Longrightarrow> ptr_bytes m (Ptr b i) n = ptr_bytes m' (Ptr b i) n"
  by (simp add: ptr_bytes_def mem_read_def)

lemma send_frames_step:
  assumes "length msg < 65536" "packetSendSize g = 0" "b \<noteq> PacketSend" "op \<noteq> 8"
    "mem_read (hmem g) b i (length msg) = msg"
  obtains g2 where
    "sendable \<lparr>uLength = packetSendSize g2, pData = Ptr PacketSend 0\<rparr> PacketSend 0"
    "blob_bytes (hmem g2) \<lparr>uLength = packetSendSize g2, pData = Ptr PacketSend 0\<rparr> =
      server_head (length msg) op @ take 996 msg"
    "connections g2 = connections g" "world g2 = world g" "hmem g2 b = hmem g b"
    "send_frames ops u (Ptr b i) (of_nat (length msg)) op g = do {
       (r, g3) \<leftarrow> WS_SendPacket ops u g2;
       if r = 0 then Some (0, g3)
       else if length msg > 996 then
         send_frames ops u (Ptr b (i + 996)) (of_nat (length msg - 996)) WS_CONTINUATION g3
       else Some (1, g3) }"
proof -
  let ?n = "length msg" and ?g1 = "add_frame_header (of_nat (length msg)) op g"
  have m: "unat (of_nat (min ?n 996) :: u16) = min ?n 996" by (intro unat_of_nat_small) simp
  have g1: "?g1 = add_bytes (server_head ?n op) g" by (rule add_frame_header_bytes [OF assms(1,2)])
  have xs: "ptr_bytes (hmem ?g1) (Ptr b i) (min ?n 996) = take 996 msg"
  proof -
    have "ptr_bytes (hmem ?g1) (Ptr b i) (min ?n 996) = mem_read (hmem g) b i (min ?n 996)"
      using assms(3) by (simp add: ptr_bytes_def g1 mem_read_def)
    also have "\<dots> = take (min ?n 996) msg"
      using take_mem_read [of "min ?n 996" ?n "hmem g" b i] assms(5) by simp
    finally show ?thesis by (simp add: min_def split: if_splits)
  qed
  let ?g2 = "add_bytes (take 996 msg) ?g1"
  note buf = send_frame_buffer [OF assms(1,2), of "take 996 msg" ?g2 op]
  have d: "(of_nat ?n :: u16) - of_nat (min ?n 996) = of_nat (?n - 996)"
    by (cases "?n \<le> 996") (simp_all add: of_nat_diff)
  have u: "(0 :: u16) < of_nat (?n - 996) \<longleftrightarrow> ?n > 996"
  proof -
    have "unat (of_nat (?n - 996) :: u16) = ?n - 996" using assms(1) by (intro unat_of_nat_small) simp
    then show ?thesis by (simp add: word_less_nat_alt)
  qed
  have op: "(op = WS_CLOSE) = False" using assms(4) by simp
  have "send_frames ops u (Ptr b i) (of_nat ?n) op g = do {
       (r, g3) \<leftarrow> WS_SendPacket ops u ?g2;
       if r = 0 then Some (0, g3)
       else if ?n > 996 then send_frames ops u (Ptr b (i + 996)) (of_nat (?n - 996)) WS_CONTINUATION g3
       else Some (1, g3) }"
    unfolding send_frames.simps [of ops u "Ptr b i"] Let_def frame_payload_len_nat [OF assms(1)] m xs d u op if_False
    by (intro arg_cong [where f = "Option.bind (WS_SendPacket ops u _)"] ext)
      (auto simp: min_def)
  moreover have "hmem ?g2 b = hmem g b" using assms(3) by (simp add: g1)
  ultimately show ?thesis using that [of ?g2] buf by (simp add: g1 min.commute)
qed

lemma send_frames_result:
  assumes "length msg < 65536" "packetSendSize g = 0" "b \<noteq> PacketSend" "op \<noteq> 8"
    "mem_read (hmem g) b i (length msg) = msg"
    "send_frames ops u (Ptr b i) (of_nat (length msg)) op g = Some (r, g')"
  shows "(r = 0 \<or> r = 1) \<and> (send_contract ops sent \<longrightarrow> r = 1 \<longrightarrow> sent (world g') = sent (world g) @
      map (Pair (dataSocket (connections g u))) (server_frames op msg))"
  using assms
proof (induction op msg arbitrary: g i rule: server_frames.induct)
  case (1 op msg)
  obtain g2 where b2: "sendable \<lparr>uLength = packetSendSize g2, pData = Ptr PacketSend 0\<rparr> PacketSend 0"
    "blob_bytes (hmem g2) \<lparr>uLength = packetSendSize g2, pData = Ptr PacketSend 0\<rparr> =
      server_head (length msg) op @ take 996 msg"
    "connections g2 = connections g" "world g2 = world g" "hmem g2 b = hmem g b"
    and st: "send_frames ops u (Ptr b i) (of_nat (length msg)) op g = do {
       (r, g3) \<leftarrow> WS_SendPacket ops u g2;
       if r = 0 then Some (0, g3)
       else if length msg > 996 then
         send_frames ops u (Ptr b (i + 996)) (of_nat (length msg - 996)) WS_CONTINUATION g3
       else Some (1, g3) }"
    by (rule send_frames_step [OF "1.prems"(1-5)])
  obtain r1 g3 where p: "WS_SendPacket ops u g2 = Some (r1, g3)"
    and k: "(if r1 = 0 then Some (0, g3) else if length msg > 996 then
         send_frames ops u (Ptr b (i + 996)) (of_nat (length msg - 996)) WS_CONTINUATION g3
       else Some (1, g3)) = Some (r, g')"
    by (rule bind_pair_SomeE [OF "1.prems"(6) [unfolded st]])
  note res = WS_SendPacket_result [OF b2(1) p, of sent]
  have fr: "server_frames op msg = server_head (length msg) op @ take 996 msg @
     (if length msg > 996 then server_frames 0 (drop 996 msg) else [])"
    by (rule server_frames.simps)
  show ?case
  proof (cases "r1 \<noteq> 0 \<and> length msg > 996")
    case False
    with k res b2 show ?thesis by (auto simp: fr)
  next
    case True
    have m: "mem_read (hmem g3) b (i + 996) (length (drop 996 msg)) = drop 996 msg"
    proof -
      have "mem_read (hmem g3) b = mem_read (hmem g) b"
        using res b2(5) "1.prems"(3) by (intro mem_read_block) simp
      then show ?thesis using drop_mem_read [of 996 "hmem g" b i "length msg"] "1.prems"(5) by simp
    qed
    have k': "send_frames ops u (Ptr b (i + 996)) (of_nat (length (drop 996 msg))) 0 g3 = Some (r, g')"
      using k True by simp
    have "(r = 0 \<or> r = 1) \<and> (send_contract ops sent \<longrightarrow> r = 1 \<longrightarrow> sent (world g') = sent (world g3) @
      map (Pair (dataSocket (connections g3 u))) (server_frames 0 (drop 996 msg)))"
      by (rule "1.IH" [OF _ _ _ "1.prems"(3) _ m k']) (use True res "1.prems"(1) in auto)
    with res b2 True show ?thesis by (auto simp: fr)
  qed
qed

lemma send_frames_returns:
  assumes "length msg < 65536" "packetSendSize g = 0" "b \<noteq> PacketSend" "op \<noteq> 8"
    "mem_read (hmem g) b i (length msg) = msg" "send_progress ops rank"
  shows "\<exists>r g'. send_frames ops u (Ptr b i) (of_nat (length msg)) op g = Some (r, g')"
  using assms
proof (induction op msg arbitrary: g i rule: server_frames.induct)
  case (1 op msg)
  obtain g2 where b2: "sendable \<lparr>uLength = packetSendSize g2, pData = Ptr PacketSend 0\<rparr> PacketSend 0"
    "hmem g2 b = hmem g b"
    and st: "send_frames ops u (Ptr b i) (of_nat (length msg)) op g = do {
       (r, g3) \<leftarrow> WS_SendPacket ops u g2;
       if r = 0 then Some (0, g3)
       else if length msg > 996 then
         send_frames ops u (Ptr b (i + 996)) (of_nat (length msg - 996)) WS_CONTINUATION g3
       else Some (1, g3) }"
    by (rule send_frames_step [OF "1.prems"(1-5)])
  obtain r1 g3 where p: "WS_SendPacket ops u g2 = Some (r1, g3)"
    using SendPacket_returns_aux [OF b2(1) "1.prems"(6), of u g2] by (auto simp: WS_SendPacket_def)
  note res = WS_SendPacket_result [OF b2(1) p]
  show ?case
  proof (cases "r1 \<noteq> 0 \<and> length msg > 996")
    case True
    have m: "mem_read (hmem g3) b (i + 996) (length (drop 996 msg)) = drop 996 msg"
    proof -
      have "mem_read (hmem g3) b = mem_read (hmem g) b"
        using res b2(2) "1.prems"(3) by (intro mem_read_block) simp
      then show ?thesis using drop_mem_read [of 996 "hmem g" b i "length msg"] "1.prems"(5) by simp
    qed
    have "\<exists>r g'. send_frames ops u (Ptr b (i + 996)) (of_nat (length (drop 996 msg))) 0 g3 = Some (r, g')"
      by (rule "1.IH" [OF _ _ _ "1.prems"(3) _ m "1.prems"(6)]) (use True res "1.prems"(1) in auto)
    with True p show ?thesis by (simp add: st)
  qed (use p st in auto)
qed

section \<open>What a client makes of the frames\<close>

text \<open>
  One frame as the protocol defines it from a server: no reserved bits, no mask, the length in the
  fewest of 7, 16 or 64 bits that hold it; a control frame (opcode 8 and above) has FIN and at most 125 bytes.  The result is FIN, the
  opcode, the payload and what follows.
\<close>

definition parse_frame :: "u8 list \<Rightarrow> (bool \<times> u8 \<times> u8 list \<times> u8 list) option" where
  "parse_frame bs =
     (case bs of
        b0 # b1 # rest \<Rightarrow>
          let (n, body) = (if b1 = 126 then (be_value (take 2 rest), drop 2 rest)
                           else if b1 = 127 then (be_value (take 8 rest), drop 8 rest) else (unat b1, rest));
              fin = (b0 AND 0x80 \<noteq> 0); op = b0 AND 0x0F
          in if b0 AND 0x70 \<noteq> 0 \<or> b1 AND 0x80 \<noteq> 0 \<or> length body < n \<or> 8 \<le> op \<and> (\<not> fin \<or> 125 < n) \<or>
               b1 = 126 \<and> n < 126 \<or> b1 = 127 \<and> n < 65536 then None
             else Some (fin, op, take n body, drop n body)
      | _ \<Rightarrow> None)"

lemma parse_frame_shorter: "parse_frame bs = Some (fin, op, p, rest) \<Longrightarrow> length rest < length bs"
  by (auto simp: parse_frame_def Let_def split: list.splits if_splits)

text \<open>
  A message: the first frame says what it is, with an opcode that is not 0, every further frame has the
  opcode 0 of a continuation, and the first frame with FIN is the last.  The result is the opcode, the
  payload of all frames and what follows.
\<close>

function parse_from :: "bool \<Rightarrow> u8 list \<Rightarrow> (u8 \<times> u8 list \<times> u8 list) option" where
  "parse_from first bs =
     (case parse_frame bs of
        None \<Rightarrow> None
      | Some (fin, op, p, rest) \<Rightarrow>
          if (op = WS_CONTINUATION) = first then None
          else if fin then Some (op, p, rest)
          else map_option (\<lambda>(_, q, r). (op, p @ q, r)) (parse_from False rest))"
  by pat_completeness auto
termination
  by (relation "measure (length \<circ> snd)") (auto dest: parse_frame_shorter)

declare parse_from.simps [simp del]

definition parse_message :: "u8 list \<Rightarrow> (u8 \<times> u8 list \<times> u8 list) option" where
  "parse_message bs = parse_from True bs"

text \<open>What the protocol lets a server send in one call: a text or binary message, or a short control frame.\<close>

definition sendable_as :: "u8 \<Rightarrow> u8 list \<Rightarrow> bool" where
  "sendable_as op msg \<longleftrightarrow> op \<in> {0, 1, 2} \<or> op \<in> {9, 10} \<and> length msg \<le> 125"

lemma sendable_as_bits:
  assumes "sendable_as op msg"
  shows "op < 16" "op AND 0x70 = 0" "(0x80 OR op) AND 0x70 = 0" "op AND 0x80 = 0" "op AND 0x0F = op" "(0x80 OR op) AND 0x0F = op"
  using assms by (auto simp: sendable_as_def)

lemma parse_frame_head:
  assumes "sendable_as op msg" "length msg < 65536"
  shows "parse_frame (server_head (length msg) op @ take 996 msg @ rest) =
    Some (length msg < 1000, op, take 996 msg, rest)"
proof -
  let ?n = "length msg"
  note b = sendable_as_bits [OF assms(1)]
  have fin: "((0x80::u8) OR op) AND 0x80 \<noteq> 0" by (rule mask_bits(2))
  show ?thesis
  proof (cases "?n \<le> 125")
    case True
    have n8: "unat (of_nat ?n :: u8) = ?n" using True by (intro unat_of_nat_small) simp
    have ne: "(of_nat ?n :: u8) \<noteq> 126" "(of_nat ?n :: u8) \<noteq> 127"
      using True n8 by (auto simp: word_unat_eq_iff)
    have m: "(of_nat ?n :: u8) AND 0x80 = 0"
    proof -
      have "(of_nat ?n :: u8) < 2 ^ 7" using True n8 by (simp add: word_less_nat_alt)
      then have "(of_nat ?n :: u8) AND mask 7 = of_nat ?n" by (simp add: less_mask_eq)
      then have "(of_nat ?n :: u8) AND 0x80 = of_nat ?n AND (mask 7 AND 0x80)" by (metis and.assoc)
      then show ?thesis by (simp add: mask_eq_exp_minus_1)
    qed
    show ?thesis using True n8 ne m fin b by (simp add: server_head_def parse_frame_def)
  next
    case False
    let ?k = "min ?n 996"
    have op: "\<not> 8 \<le> op" using False assms(1) by (auto simp: sendable_as_def word_le_nat_alt)
    have "unat (of_nat (?k div 256) :: u8) = ?k div 256" "unat (of_nat (?k mod 256) :: u8) = ?k mod 256"
      by (auto intro!: unat_of_nat_small)
    then have v: "be_value [of_nat (?k div 256), of_nat (?k mod 256)] = ?k"
      unfolding be_value_def foldl.simps by simp
    have t: "length (take 996 msg) = ?k" by simp
    have z: "((if ?n < 1000 then 0x80 else 0) OR op) AND 0x70 = 0" "((if ?n < 1000 then 0x80 else 0) OR op) AND 0x0F = op"
      using b by simp_all
    have "parse_frame (server_head ?n op @ take 996 msg @ rest) =
        Some (((if ?n < 1000 then 0x80 else 0) OR op) AND 0x80 \<noteq> 0, op, take ?k (take 996 msg @ rest), drop ?k (take 996 msg @ rest))"
      using False v t op z unfolding server_head_def parse_frame_def by (simp only:) simp
    also have "take ?k (take 996 msg @ rest) = take 996 msg" using t by (metis append_eq_conv_conj)
    also have "drop ?k (take 996 msg @ rest) = rest" using t by (metis append_eq_conv_conj)
    finally show ?thesis using fin b(4) by simp
  qed
qed

lemma server_frames_parse:
  assumes "sendable_as op msg" "length msg < 65536" "length msg \<le> 996 \<or> length msg mod 996 \<notin> {1, 2, 3}"
  shows "parse_from (op \<noteq> 0) (server_frames op msg @ rest) = Some (op, msg, rest)"
  using assms
proof (induction op msg arbitrary: rest rule: server_frames.induct)
  case (1 op msg)
  let ?n = "length msg"
  show ?case
  proof (cases "?n > 996")
    case False
    then show ?thesis
      using "1.prems"(1,2) parse_frame_head [of op msg rest]
      by (simp add: server_frames.simps [of op] parse_from.simps [of _ "_ @ _"])
  next
    case True
    have big: "\<not> ?n < 1000"
    proof
      assume "?n < 1000"
      then have "?n mod 996 = ?n - 996" using True by (simp add: mod_if)
      moreover have "?n - 996 \<in> {1, 2, 3}" using True \<open>?n < 1000\<close> by auto
      ultimately show False using "1.prems"(3) True by simp
    qed
    have "(?n - 996) mod 996 = ?n mod 996" using True by (simp add: le_mod_geq)
    then have "parse_from (0 \<noteq> (0 :: u8)) (server_frames 0 (drop 996 msg) @ rest) = Some (0, drop 996 msg, rest)"
      using True "1.prems" by (intro "1.IH") (auto simp: sendable_as_def)
    then show ?thesis
      using True big parse_frame_head [OF "1.prems"(1,2), of "server_frames 0 (drop 996 msg) @ rest"]
      by (simp add: server_frames.simps [of op] parse_from.simps [of _ "server_head _ _ @ _"])
  qed
qed

section \<open>Sending a message\<close>

text \<open>The message a call sends: the blob for binary data, the C string at its start otherwise.\<close>

definition outgoing :: "'w HttpGlobalState \<Rightarrow> hblob \<Rightarrow> u8 \<Rightarrow> u8 list \<Rightarrow> bool" where
  "outgoing g payload opcode msg \<longleftrightarrow> length msg < 65536 \<and> opcode < 16 \<and> opcode \<noteq> WS_CLOSE \<and>
     (\<exists>b i. pData payload = Ptr b i \<and> b \<noteq> PacketSend) \<and>
     (if opcode = WS_BINARY then blob_bytes (hmem g) payload = msg
      else string_at g (pData payload) = Some msg)"

lemma DataSend_frames:
  assumes "outgoing g payload opcode msg" "pData payload = Ptr b i"
  shows "WSCore_DataSend ops u payload opcode g = send_frames ops u (Ptr b i) (of_nat (length msg)) opcode g \<and>
    b \<noteq> PacketSend \<and> mem_read (hmem g) b i (length msg) = msg"
proof (cases "opcode = WS_BINARY")
  case True
  then have m: "mem_read (hmem g) b i (unat (uLength payload)) = msg"
    using assms by (simp add: outgoing_def blob_bytes_def)
  then have l: "length msg = unat (uLength payload)" using length_mem_read by metis
  show ?thesis
    using assms m True unfolding l by (auto simp: outgoing_def WSCore_DataSend_def)
next
  case False
  define k where "k = block_size g b - i"
  have s: "string_at g (Ptr b i) = Some msg" using assms False by (simp add: outgoing_def)
  then have msg: "msg = takeWhile (\<lambda>c. c \<noteq> 0) (mem_read (hmem g) b i k)"
    by (simp add: string_at_def c_string_def k_def Let_def split: if_splits)
  have le: "length msg \<le> k" unfolding msg using length_takeWhile_le [of _ "mem_read (hmem g) b i k"] by simp
  have "take (length msg) (mem_read (hmem g) b i k) = msg" unfolding msg by (metis takeWhile_eq_take)
  then have "mem_read (hmem g) b i (length msg) = msg" by (simp add: take_mem_read [OF le])
  then show ?thesis
    using assms s False by (auto simp: outgoing_def WSCore_DataSend_def)
qed

text \<open>
  C27. Messages reach a client of the protocol: when sending a text (up to its terminator)
  or binary message, a ping or a pong from an empty send buffer succeeds, the bytes written to the connection's socket are frames a client accepts and reassembles to
  exactly that message, of the type the caller asked for, with nothing left over.  A message of more than
  996 bytes must not leave a last piece of one to three bytes, and a ping or pong has at most 125 bytes,
  as the protocol demands.
\<close>

theorem WSCore_DataSend_decodes:
  assumes "outgoing g payload opcode msg" "packetSendSize g = 0" "send_contract ops sent"
    "WSCore_DataSend ops u payload opcode g = Some (1, g')" "sendable_as opcode msg" "opcode \<noteq> WS_CONTINUATION"
    "length msg \<le> 996 \<or> length msg mod 996 \<notin> {1, 2, 3}"
  shows "\<exists>frames. sent (world g') = sent (world g) @ map (Pair (dataSocket (connections g u))) frames \<and>
    parse_message frames = Some (opcode, msg, [])"
proof -
  obtain b i where p: "pData payload = Ptr b i" using assms(1) by (auto simp: outgoing_def)
  note d = DataSend_frames [OF assms(1) p, of ops u]
  have o: "length msg < 65536" "opcode \<noteq> 8" using assms(1) by (auto simp: outgoing_def)
  have "sent (world g') = sent (world g) @ map (Pair (dataSocket (connections g u))) (server_frames opcode msg)"
    using send_frames_result [OF o(1) assms(2) _ o(2), of b i ops u 1 g' sent] d assms(3,4) by simp
  moreover have "parse_message (server_frames opcode msg) = Some (opcode, msg, [])"
    using server_frames_parse [OF assms(5) o(1) assms(7), of "[]"] assms(6) by (simp add: parse_message_def)
  ultimately show ?thesis by blast
qed

text \<open>Sending a message returns: with a host that accepts or refuses data in finitely many
  attempts, the call ends for every message of less than 64 KB, whatever its length.
\<close>

theorem WSCore_DataSend_returns:
  assumes "outgoing g payload opcode msg" "packetSendSize g = 0" "send_progress ops rank"
  shows "\<exists>r g'. WSCore_DataSend ops u payload opcode g = Some (r, g')"
proof -
  obtain b i where p: "pData payload = Ptr b i" using assms(1) by (auto simp: outgoing_def)
  note d = DataSend_frames [OF assms(1) p, of ops u]
  have o: "length msg < 65536" "opcode \<noteq> 8" using assms(1) by (auto simp: outgoing_def)
  show ?thesis using send_frames_returns [OF o(1) assms(2) _ o(2) _ assms(3), of b i u] d by simp
qed

text \<open>The FIN bit comes one frame early: a message of 997 bytes is sent as two frames, and the
  first, which holds 996 bytes, already has FIN.  A client takes these for the whole message and
  is left with a second message of one byte.
\<close>

theorem WSCore_DataSend_early_fin:
  assumes "outgoing g payload opcode msg" "packetSendSize g = 0" "send_contract ops sent"
    "WSCore_DataSend ops u payload opcode g = Some (1, g')" "opcode \<in> {1, 2}" "length msg = 997"
  shows "\<exists>frames. sent (world g') = sent (world g) @ map (Pair (dataSocket (connections g u))) frames \<and>
    parse_message frames = Some (opcode, take 996 msg, [0x80, 1, msg ! 996])"
proof -
  obtain b i where p: "pData payload = Ptr b i" using assms(1) by (auto simp: outgoing_def)
  note d = DataSend_frames [OF assms(1) p, of ops u]
  have o: "length msg < 65536" "opcode < 16" "opcode \<noteq> 8" using assms(1) by (auto simp: outgoing_def)
  have l: "drop 996 msg = [msg ! 996]" using assms(6) Cons_nth_drop_Suc [of 996 msg] by simp
  have "sent (world g') = sent (world g) @ map (Pair (dataSocket (connections g u))) (server_frames opcode msg)"
    using send_frames_result [OF o(1) assms(2) _ o(3), of b i ops u 1 g' sent] d assms(3,4) by simp
  moreover have "parse_message (server_frames opcode msg) = Some (opcode, take 996 msg, [0x80, 1, msg ! 996])"
  proof -
    have "server_frames 0 (drop 996 msg) = [0x80, 1, msg ! 996]"
      by (simp add: l server_frames.simps server_head_def)
    then have "server_frames opcode msg = server_head (length msg) opcode @ take 996 msg @ [0x80, 1, msg ! 996]"
      using assms(6) by (simp add: server_frames.simps [of opcode])
    moreover have "sendable_as opcode msg" "opcode \<noteq> 0" using assms(5) by (auto simp: sendable_as_def)
    ultimately show ?thesis
      using parse_frame_head [OF _ o(1), of opcode "[0x80, 1, msg ! 996]"] assms(6)
      by (simp add: parse_message_def parse_from.simps [of _ "server_head _ _ @ _"])
  qed
  ultimately show ?thesis by blast
qed

section \<open>Concrete runs\<close>

text \<open>The logging host accepts everything, so sending on it succeeds.\<close>

lemma log_WS_SendPacket:
  assumes "sendable \<lparr>uLength = packetSendSize g, pData = Ptr PacketSend 0\<rparr> PacketSend 0"
    "packetSendSize g \<noteq> 0"
  shows "\<exists>g'. WS_SendPacket log_ops u g = Some (1, g')"
proof -
  let ?b = "\<lparr>uLength = packetSendSize g, pData = Ptr PacketSend 0\<rparr>"
  have le: "unat (packetSendSize g) \<le> 1000" using assms by (simp add: sendable_def)
  then have n: "chunk_len ?b = unat (packetSendSize g)" by (simp add: chunk_len_def)
  have pos: "0 < unat (packetSendSize g)" using assms(2) by (simp add: unat_gt_0)
  have c: "ClientSocketSend log_ops sd buf w = Some (int (length buf), w @ map (Pair sd) buf)" if "buf \<noteq> []" for sd buf w
    using that by (subst ClientSocketSend.simps) (simp add: log_ops_def)
  obtain g1 where "send_chunk log_ops u ?b (unat (packetSendSize g)) g = Some (int (unat (packetSendSize g)), g1)"
    using pos by (simp add: send_chunk_def c)
  then have "\<exists>g'. HttpCore_SendPacket log_ops u ?b g = Some (1, g')"
    using pos assms(2) le
    by (subst SendPacket_step) (auto simp: n SendPacket_end blob_skip_def unsigned_eq_0_iff)
  then show ?thesis by (auto simp: WS_SendPacket_def)
qed

lemma log_send_frames:
  assumes "length msg < 65536" "packetSendSize g = 0" "b \<noteq> PacketSend" "op \<noteq> 8"
    "mem_read (hmem g) b i (length msg) = msg"
  shows "\<exists>g'. send_frames log_ops u (Ptr b i) (of_nat (length msg)) op g = Some (1, g')"
  using assms
proof (induction op msg arbitrary: g i rule: server_frames.induct)
  case (1 op msg)
  obtain g2 where b2: "sendable \<lparr>uLength = packetSendSize g2, pData = Ptr PacketSend 0\<rparr> PacketSend 0"
    "blob_bytes (hmem g2) \<lparr>uLength = packetSendSize g2, pData = Ptr PacketSend 0\<rparr> =
      server_head (length msg) op @ take 996 msg" "hmem g2 b = hmem g b"
    and st: "send_frames log_ops u (Ptr b i) (of_nat (length msg)) op g = do {
       (r, g3) \<leftarrow> WS_SendPacket log_ops u g2;
       if r = 0 then Some (0, g3)
       else if length msg > 996 then
         send_frames log_ops u (Ptr b (i + 996)) (of_nat (length msg - 996)) WS_CONTINUATION g3
       else Some (1, g3) }"
    by (rule send_frames_step [OF "1.prems"(1-5)])
  have "packetSendSize g2 \<noteq> 0"
    using b2(2) by (auto simp: blob_bytes_def server_head_def split: if_splits)
  then obtain g3 where p: "WS_SendPacket log_ops u g2 = Some (1, g3)"
    using log_WS_SendPacket [OF b2(1)] by blast
  note res = WS_SendPacket_result [OF b2(1) p]
  show ?case
  proof (cases "length msg > 996")
    case True
    have m: "mem_read (hmem g3) b (i + 996) (length (drop 996 msg)) = drop 996 msg"
    proof -
      have "mem_read (hmem g3) b = mem_read (hmem g) b"
        using res b2(3) "1.prems"(3) by (intro mem_read_block) simp
      then show ?thesis using drop_mem_read [of 996 "hmem g" b i "length msg"] "1.prems"(5) by simp
    qed
    have "\<exists>g'. send_frames log_ops u (Ptr b (i + 996)) (of_nat (length (drop 996 msg))) 0 g3 = Some (1, g')"
      by (rule "1.IH" [OF _ _ _ "1.prems"(3) _ m]) (use True res "1.prems"(1) in auto)
    with True p show ?thesis by (simp add: st)
  qed (use p st in auto)
qed

definition recv_state :: "u8 list \<Rightarrow> (int \<times> u8) list HttpGlobalState" where
  "recv_state bs = (boot_state [])\<lparr>hmem := mem_write boot_mem PacketRecv 0 bs\<rparr>"

definition recv_blob :: "nat \<Rightarrow> hblob" where
  "recv_blob n = \<lparr>uLength = of_nat n, pData = Ptr PacketRecv 0\<rparr>"

lemma recv_outgoing:
  "length bs < 65536 \<Longrightarrow> outgoing (recv_state bs) (recv_blob (length bs)) 2 bs \<and> packetSendSize (recv_state bs) = 0"
  by (simp add: outgoing_def recv_blob_def recv_state_def boot_state_def blob_bytes_def unat_of_nat_small
      mem_read_write)

lemma log_DataSend:
  assumes "length bs < 65536"
  shows "\<exists>g'. WSCore_DataSend log_ops 0 (recv_blob (length bs)) 2 (recv_state bs) = Some (1, g')"
  using recv_outgoing [OF assms] DataSend_frames [of "recv_state bs" "recv_blob (length bs)" 2 bs PacketRecv 0 log_ops 0]
    log_send_frames [OF assms, of "recv_state bs" PacketRecv 2 0 0]
  by (simp add: recv_blob_def)

theorem WSCore_DataSend_decodes_witness:
  "\<exists>g' frames. WSCore_DataSend log_ops 0 (recv_blob 2) 2 (recv_state [72, 105]) = Some (1, g') \<and>
     id (world g') = map (Pair 0) frames \<and> parse_message frames = Some (2, [72, 105], [])"
proof -
  obtain g' where r: "WSCore_DataSend log_ops 0 (recv_blob (length [72, 105])) 2 (recv_state [72, 105]) = Some (1, g')"
    using log_DataSend [of "[72, 105]"] by auto
  have o: "outgoing (recv_state [72, 105]) (recv_blob (length [72, 105])) 2 [72, 105]"
    "packetSendSize (recv_state [72, 105]) = 0" using recv_outgoing [of "[72, 105]"] by simp_all
  from WSCore_DataSend_decodes [OF o log_ops_contract r] r show ?thesis
    by (simp add: sendable_as_def recv_state_def boot_state_def numeral_2_eq_2)
qed

theorem WSCore_DataSend_returns_witness:
  "\<exists>r g'. WSCore_DataSend log_ops 0 (recv_blob (length (replicate 3000 1))) 2 (recv_state (replicate 3000 1)) = Some (r, g')"
proof (rule WSCore_DataSend_returns [where rank = "\<lambda>_. 0"])
  show "outgoing (recv_state (replicate 3000 1)) (recv_blob (length (replicate 3000 1))) 2 (replicate 3000 1)"
    "packetSendSize (recv_state (replicate 3000 1)) = 0" using recv_outgoing [of "replicate 3000 1"] by simp_all
qed (rule log_ops_answers)

theorem WSCore_DataSend_early_fin_witness:
  "\<exists>g' frames. WSCore_DataSend log_ops 0 (recv_blob 997) 2 (recv_state (replicate 997 65)) = Some (1, g') \<and>
     world g' = map (Pair 0) frames \<and>
     parse_message frames = Some (2, take 996 (replicate 997 65), [0x80, 1, replicate 997 65 ! 996])"
proof -
  let ?m = "replicate 997 65 :: u8 list"
  have len: "length ?m = 997" by (rule length_replicate)
  obtain g' where r: "WSCore_DataSend log_ops 0 (recv_blob (length ?m)) 2 (recv_state ?m) = Some (1, g')"
    using log_DataSend [of ?m] len by auto
  have o: "outgoing (recv_state ?m) (recv_blob (length ?m)) 2 ?m" "packetSendSize (recv_state ?m) = 0"
    using recv_outgoing [of ?m] len by simp_all
  obtain frames where "id (world g') = id (world (recv_state ?m)) @
      map (Pair (dataSocket (connections (recv_state ?m) 0))) frames"
    "parse_message frames = Some (2, take 996 ?m, [0x80, 1, ?m ! 996])"
    using WSCore_DataSend_early_fin [OF o log_ops_contract r _ len] by blast
  moreover have "world (recv_state ?m) = []" "dataSocket (connections (recv_state ?m) 0) = 0"
    by (simp_all add: recv_state_def boot_state_def)
  ultimately have "world g' = map (Pair 0) frames" by simp
  then show ?thesis using r \<open>parse_message frames = _\<close> unfolding len by blast
qed

theorem WSCore_DataRecv_delivers_witness:
  "\<exists>g'. WSCore_DataRecv (null_ops\<lparr>ws_recv_event := (\<lambda>u s w. w @ map (Pair (int u)) s)\<rparr>) 3
       (recv_blob 8) (recv_state (client_frame 0x81 [1, 2, 3, 4] [72, 105])) = Some (1, g') \<and>
     world g' = [(3, 72), (3, 105)]"
proof -
  let ?f = "client_frame 0x81 [1, 2, 3, 4] [72, 105]"
  let ?g = "recv_state ?f"
  have l: "length ?f = 8" by (simp add: client_frame_def frame_head_def)
  have "web_frame (hmem ?g) (recv_blob 8) PacketRecv ?f"
    using mem_read_write [of boot_mem PacketRecv 0 ?f] unfolding l
    by (simp add: web_frame_def recv_blob_def recv_state_def blob_bytes_def)
  moreover have "\<not> RecvMore (ws ?g)" "\<not> Ping (ws ?g)" "world ?g = []"
    by (simp_all add: recv_state_def boot_state_def)
  ultimately show ?thesis
    using WSCore_DataRecv_delivers [of ?g "recv_blob 8" PacketRecv "0x81" "[1, 2, 3, 4]" "[72, 105]"
        "null_ops\<lparr>ws_recv_event := (\<lambda>u s w. w @ map (Pair (int u)) s)\<rparr>" 3]
    by (simp add: null_ops_def) blast
qed

theorem WSCore_DataRecv_empty_hangs_witness:
  "WSCore_DataRecv null_ops 3 (recv_blob 6) (recv_state (client_frame 0x81 [1, 2, 3, 4] [])) = None"
proof -
  let ?f = "client_frame 0x81 [1, 2, 3, 4] []"
  let ?g = "recv_state ?f"
  have l: "length ?f = 6" by (simp add: client_frame_def frame_head_def)
  have "web_frame (hmem ?g) (recv_blob 6) PacketRecv ?f"
    using mem_read_write [of boot_mem PacketRecv 0 ?f] unfolding l
    by (simp add: web_frame_def recv_blob_def recv_state_def blob_bytes_def)
  moreover have "\<not> RecvMore (ws ?g)" by (simp add: recv_state_def boot_state_def)
  ultimately show ?thesis
    using WSCore_DataRecv_empty_hangs [of ?g "recv_blob 6" PacketRecv "0x81" "[1, 2, 3, 4]"] by simp
qed

theorem parse_len_127_witness:
  "unat (fst (parse_len (mem_of [0, 127, 0, 0, 0, 0, 0, 0, 1, 2]) \<lparr>uLength = 10, pData = Ptr () 0\<rparr> 0xFE)) = 258"
proof -
  let ?m = "mem_of [0, 127, 0, 0, 0, 0, 0, 0, 1, 2] :: unit mem"
  have "mem_read ?m () 0 2 = [0, 127]" "mem_read ?m () (0 + 2) 8 = [0, 0, 0, 0, 0, 0, 1, 2]"
    by (simp_all add: mem_read_def mem_of_def upt_rec)
  then show ?thesis
    using parse_len_127 [of "\<lparr>uLength = 10, pData = Ptr () 0\<rparr>" "()" 0 ?m] by (simp add: be_value_def)
qed

end
