(* ===== verification/Ws_Handshake.thy ===== *)
theory Ws_Handshake
  imports Web_Sock
begin

text \<open>
  The opening handshake of the WebSocket layer, from \<open>netapps/http/server/HttpCore.c\<close>:
  \<open>WSCore_HandshakeRequest\<close> reads the client's header lines, \<open>WSCore_HandshakeResponse\<close> and
  \<open>WS_HandshakeHash\<close> compute the accept key and answer.  \<open>SHA1\<close> (\<open>sha1.c\<close>) drives the hash engine
  of the chip, whose result is the parameter \<open>sha_process\<close>.  As in \<open>Web_Sock\<close>, \<open>None\<close> is a call that
  does not return or that reads a C string where there is none.
\<close>

section \<open>The client's header lines\<close>

text \<open>\<open>sizeof\<close> of a string constant counts its NUL: the code skips two bytes after the name.\<close>

definition ws_skip :: "u8 list \<Rightarrow> hblob \<Rightarrow> hblob" where
  "ws_skip name line = blob_skip line (length name + 2)"

definition ws_origin :: "nat \<Rightarrow> hblob \<Rightarrow> 'w HttpGlobalState \<Rightarrow> 'w HttpGlobalState" where
  "ws_origin u line g =
     (if Origin (ws g) then g
      else let (is_origin, g1) = line_starts WS_ORIGIN line g in
        if is_origin then
          let line' = ws_skip WS_ORIGIN line;
              g2 = set_req_flag u WS_REQUEST_BROWSER g1;
              n = unat (uLength line');
              (b, g3) = malloc (n + 1) g2;
              m = memcpy_from (memset (hmem g3) b 0 0 (n + 1)) b 0 (pData line') n
          in ws_upd (\<lambda>s. s\<lparr>WS_ORIGIN_NAME := Ptr b 0, Origin := True\<rparr>) (g3\<lparr>hmem := m\<rparr>)
        else clear_req_flag u WS_REQUEST_BROWSER g1)"

text \<open>The tests from \<open>sec-websocket-extensions\<close> on: none of them has a result but success.\<close>

definition ws_other_lines :: "nat \<Rightarrow> hblob \<Rightarrow> 'w HttpGlobalState \<Rightarrow> int \<times> 'w HttpGlobalState" where
  "ws_other_lines u line g =
     (let (ext, g1) = line_starts WS_EXTENSION line g in
      if ext then (1, g1)
      else let (pragma, g2) = line_starts WS_PRAGMA line g1 in
      if pragma then (1, g2)
      else let (cache, g3) = line_starts WS_CACHE_CONTROL line g2 in
      if cache then (1, g3)
      else (1, ws_origin u line g3))"

text \<open>
  The line is restored from the copy before the key is taken from it, because \<open>nextToken\<close> has
  lowered its letters; lowering keeps NUL bytes in place, so \<open>strlen\<close> of the line is the length of
  the copy.
\<close>

definition ws_save_key :: "u8 list \<Rightarrow> hblob \<Rightarrow> 'w HttpGlobalState \<Rightarrow> 'w HttpGlobalState" where
  "ws_save_key copy line g =
     (let m1 = (case pData line of Null \<Rightarrow> hmem g | Ptr b i \<Rightarrow> mem_write (hmem g) b i copy);
          m2 = memset m1 WsKey 0 0 (WS_KEY_LENGTH + 1)
      in g\<lparr>hmem := memcpy_from m2 WsKey 0 (pData (ws_skip WS_KEY_REQUEST line)) WS_KEY_LENGTH\<rparr>)"

definition WSCore_HandshakeRequest ::
  "nat \<Rightarrow> hblob \<Rightarrow> 'w HttpGlobalState \<Rightarrow> (int \<times> 'w HttpGlobalState) option" where
  "WSCore_HandshakeRequest u line g = do {
     copy \<leftarrow> string_at g (pData line);
     let (dataCopy, g0) = malloc (length copy) g;
     let g0 = g0\<lparr>hmem := mem_write (hmem g0) dataCopy 0 copy\<rparr>;
     if uLength line = 0 then Some (1, set_conn_state u WebSocketResponse g0)
     else
       let (conn, g1) = line_starts WS_CONNECTION line g0 in
       if conn then
         let (r, g') = next_token WS_UPGRADE (ws_skip WS_CONNECTION line) g1
         in Some (if r \<noteq> Null then 1 else 0, g')
       else let (host, g2) = line_starts WS_HOST line g1 in
       if host then Some (1, g2)
       else let (key, g3) = line_starts WS_KEY_REQUEST line g2 in
       if key then Some (1, ws_save_key copy line g3)
       else let (version, g4) = line_starts WS_VERSION_REQUEST line g3 in
       if version then
         let line' = ws_skip WS_VERSION_REQUEST line;
             (r, g5) = next_token WS_VERSION line' g4
         in Some (if r \<noteq> Null then (1, g5) else ws_other_lines u line' g5)
       else Some (ws_other_lines u line g4)
   }"

section \<open>The server's answer\<close>

definition SHA1 :: "'w sl_ops \<Rightarrow> u8 list \<Rightarrow> 'w \<Rightarrow> u8 list \<times> 'w" where
  "SHA1 ops inData w = sha_process ops inData w"

text \<open>
  \<open>InKey\<close> is the C string to hash, \<open>o\<close> and \<open>e\<close> the blocks of \<open>OutKey\<close> and \<open>EncOutKey\<close>, of \<open>n\<close>
  bytes each.
\<close>

definition WS_HandshakeHash ::
  "'w sl_ops \<Rightarrow> u8 list \<Rightarrow> http_block \<Rightarrow> http_block \<Rightarrow> nat \<Rightarrow> 'w HttpGlobalState
     \<Rightarrow> (int \<times> 'w HttpGlobalState) option" where
  "WS_HandshakeHash ops InKey OutKey EncOutKey n g = do {
     let (digest, w') = SHA1 ops InKey (world g);
     let m1 = mem_write (hmem g) OutKey 0 digest;
     s \<leftarrow> c_string m1 (Ptr OutKey 0) n;
     Some (1, g\<lparr>world := w', hmem := mem_write m1 EncOutKey 0 (ConvertToBase64 s)\<rparr>)
   }"

definition alloc0 :: "nat \<Rightarrow> 'w HttpGlobalState \<Rightarrow> http_block \<times> 'w HttpGlobalState" where
  "alloc0 n g = (let (b, g1) = malloc n g in (b, g1\<lparr>hmem := memset (hmem g1) b 0 0 n\<rparr>))"

abbreviation (input) hdr :: "string \<Rightarrow> string \<Rightarrow> 'w HttpGlobalState \<Rightarrow> 'w HttpGlobalState" where
  "hdr name value \<equiv> HttpResponse_AddHeaderLine (str name) (str value)"

definition handshake_start :: "'w HttpGlobalState \<Rightarrow> 'w HttpGlobalState" where
  "handshake_start g =
     (let g1 = HttpResponse_AddStringToResponseHeaders HTTP_VERSION_1P1 g;
          g2 = HttpResponse_AddCharToResponseHeaders 32 g1;
          g3 = HttpResponse_AddNumberToResponseHeaders 101 g2;
          g4 = HttpResponse_AddCharToResponseHeaders 32 g3;
          g5 = HttpResponse_AddStringToResponseHeaders (str ''Web Socket Protocol Handshake'') g4;
          g6 = HttpResponse_AddStringToResponseHeaders HTTP_HEADER_DELIMITER g5;
          g7 = HttpResponse_AddHeaderLine (str ''Upgrade'') WS_WEBSOCKET g6;
          g8 = hdr ''Connection'' ''Upgrade'' g7;
          g9 = HttpResponse_AddStringToResponseHeaders WS_ACCEPT g8
      in HttpResponse_AddCharToResponseHeaders 32 (HttpResponse_AddCharToResponseHeaders 58 g9))"

definition handshake_end :: "u8 list \<Rightarrow> u8 list \<Rightarrow> 'w HttpGlobalState \<Rightarrow> 'w HttpGlobalState" where
  "handshake_end accept origin g =
     (let g1 = HttpResponse_AddStringToResponseHeaders accept g;
          g2 = HttpResponse_AddStringToResponseHeaders HTTP_HEADER_DELIMITER g1;
          g3 = hdr ''Server'' ''CC3200'' g2;
          g4 = HttpResponse_AddHeaderLine (str ''Access-Control-Allow-Origin'') origin g3;
          g5 = hdr ''Access-Control-Allow-Credentials'' ''true'' g4;
          g6 = hdr ''Access-Control-Allow-Headers'' ''content-type'' g5;
          g7 = hdr ''Access-Control-Allow-Headers'' ''authorization'' g6;
          g8 = hdr ''Access-Control-Allow-Headers'' ''x-websocket-version'' g7;
          g9 = hdr ''Access-Control-Allow-Headers'' ''x-websocket-protocol'' g8;
          g10 = hdr ''Access-Control-Allow-Headers'' ''x-websocket-extensions'' g9
      in HttpResponse_AddStringToResponseHeaders HTTP_HEADER_DELIMITER g10)"

definition WSCore_HandshakeResponse ::
  "'w sl_ops \<Rightarrow> nat \<Rightarrow> 'w HttpGlobalState \<Rightarrow> (int \<times> 'w HttpGlobalState) option" where
  "WSCore_HandshakeResponse ops u g = do {
     let n = WS_KEY_LENGTH + length WS_MAGIC_STRING;
     let (inKey, g1) = alloc0 (n + 1) g;
     key \<leftarrow> c_string (hmem g1) (Ptr WsKey 0) (WS_KEY_LENGTH + 1);
     let g2 = g1\<lparr>hmem := mem_write (hmem g1) inKey 0 key\<rparr>;
     let (outKey, g3) = alloc0 n g2;
     let (encOutKey, g4) = alloc0 n g3;
     let g5 = g4\<lparr>hmem := mem_write (hmem g4) WsKey (length key) (WS_MAGIC_STRING @ [0])\<rparr>;
     let g6 = handshake_start g5;
     (r, g7) \<leftarrow> WS_HandshakeHash ops (key @ WS_MAGIC_STRING) outKey encOutKey n g6;
     if r = 0 then Some (0, g7)
     else do {
       accept \<leftarrow> c_string (hmem g7) (Ptr encOutKey 0) n;
       origin \<leftarrow> string_at g7 (WS_ORIGIN_NAME (ws g7));
       let g8 = handshake_end accept origin g7;
       (sent, g9) \<leftarrow> HttpCore_SendPacket ops u \<lparr>uLength = packetSendSize g8, pData = Ptr PacketSend 0\<rparr> g8;
       if sent = 0 then Some (0, g9)
       else
         let g10 = set_conn_state u WebSocketDataRecv (g9\<lparr>packetSendSize := 0\<rparr>)
         in Some (1, g10\<lparr>world := ws_handshake_event ops u (world g10)\<rparr>)
     }
   }"

section \<open>The key\<close>

lemma ws_names:
  "WS_CONNECTION \<noteq> []" "WS_HOST \<noteq> []" "WS_KEY_REQUEST \<noteq> []"
  "starts WS_KEY_REQUEST xs \<Longrightarrow> \<not> starts WS_CONNECTION xs \<and> \<not> starts WS_HOST xs"
  by (auto simp: WS_CONNECTION_def WS_HOST_def WS_KEY_REQUEST_def str_def dest: starts_first)

lemma low_frame:
  "pData line = Ptr b off \<Longrightarrow> hmem g' b = hmem g b \<Longrightarrow> low line g' = low line g"
  by (simp add: low_def blob_bytes_def mem_read_def)

text \<open>The key of the handshake is kept in its original case: a header line that starts with
  \<open>sec-websocket-key\<close> in any case leaves in \<open>WS_KEY\<close> the 24 bytes that follow the name and two
  more bytes, as the client sent them, although the comparison has lowered the line in place, and
  a NUL after them.
\<close>

theorem WSCore_HandshakeRequest_saves_key:
  assumes "pData line = Ptr b off" "b \<noteq> WsKey" "b \<noteq> Heap (heap_next g)" "uLength line \<noteq> 0"
    "string_at g (pData line) = Some bytes" "starts WS_KEY_REQUEST (low line g)" "43 \<le> length bytes"
    "WSCore_HandshakeRequest u line g = Some (r, g')"
  shows "r = 1 \<and> mem_read (hmem g') WsKey 0 25 = take 24 (drop 19 bytes) @ [0] \<and>
    connections g' = connections g"
proof -
  let ?g0 = "(snd (malloc (length bytes) g))\<lparr>hmem := mem_write (hmem g) (Heap (heap_next g)) 0 bytes\<rparr>"
  have lo: "low line ?g0 = low line g"
    using assms(3) by (intro low_frame [OF assms(1)]) (simp add: mem_write_other)
  have c0: "connections ?g0 = connections g" by (simp add: malloc_def)
  obtain c g1 where 1: "line_starts WS_CONNECTION line ?g0 = (c, g1)" by (rule prod.exhaust)
  obtain h g2 where 2: "line_starts WS_HOST line g1 = (h, g2)" by (rule prod.exhaust)
  obtain k g3 where 3: "line_starts WS_KEY_REQUEST line g2 = (k, g3)" by (rule prod.exhaust)
  note s1 = line_starts_spec [OF assms(1) ws_names(1) 1] and s2 = line_starts_spec [OF assms(1) ws_names(2) 2]
    and s3 = line_starts_spec [OF assms(1) ws_names(3) 3]
  have c: "\<not> c" "\<not> h" "k" using s1 s2 s3 lo assms(6) ws_names(4) [OF assms(6)] by auto
  have g': "r = 1 \<and> g' = ws_save_key bytes line g3"
    using assms(4,5,8) 1 2 3 c by (auto simp: WSCore_HandshakeRequest_def malloc_def Let_def)
  have conn: "connections g3 = connections g"
    using line_starts_connections [OF 1] line_starts_connections [OF 2] line_starts_connections [OF 3] c0 by simp
  let ?m1 = "mem_write (hmem g3) b off bytes"
  let ?m2 = "memset ?m1 WsKey 0 0 25"
  let ?key = "mem_read ?m2 b (off + 19) 24"
  have p: "pData (ws_skip WS_KEY_REQUEST line) = Ptr b (off + 19)"
    by (simp add: ws_skip_def WS_KEY_REQUEST_def blob_skip_def assms(1))
  have m: "hmem g' = mem_write ?m2 WsKey 0 ?key"
    unfolding g' [THEN conjunct2] ws_save_key_def Let_def p assms(1) ptr.case by (simp add: memcpy_from_def memcpy_def)
  have key: "?key = take 24 (drop 19 bytes)"
  proof (rule nth_equalityI)
    fix i assume "i < length ?key"
    then have "i < 24" by simp
    then show "?key ! i = take 24 (drop 19 bytes) ! i"
      using assms(2,7) by (simp add: nth_mem_read memset_def mem_write_other mem_write_same)
  qed (use assms(7) in simp)
  have "mem_read (hmem g') WsKey 0 (24 + 1) = mem_read (hmem g') WsKey 0 24 @ mem_read (hmem g') WsKey (0 + 24) 1"
    by (rule mem_read_append)
  moreover have "mem_read (hmem g') WsKey 0 24 = ?key"
    using mem_read_write [of ?m2 WsKey 0 ?key] m by simp
  moreover have "mem_read (hmem g') WsKey (0 + 24) 1 = [0]"
    using m by (simp add: mem_read_def mem_write_def memset_def)
  moreover have "connections g' = connections g" using g' conn by (simp add: ws_save_key_def Let_def)
  ultimately show ?thesis using g' key by simp
qed

section \<open>The text of the answer\<close>

definition start_text :: "u8 list" where
  "start_text = HTTP_VERSION_1P1 @ [32] @ decimal 101 @ [32] @ str ''Web Socket Protocol Handshake''
     @ HTTP_HEADER_DELIMITER @ header_line (str ''Upgrade'') WS_WEBSOCKET
     @ header_line (str ''Connection'') (str ''Upgrade'') @ WS_ACCEPT @ [58, 32]"

definition end_text :: "u8 list \<Rightarrow> u8 list \<Rightarrow> u8 list" where
  "end_text accept origin = accept @ HTTP_HEADER_DELIMITER @ header_line (str ''Server'') (str ''CC3200'')
     @ header_line (str ''Access-Control-Allow-Origin'') origin
     @ header_line (str ''Access-Control-Allow-Credentials'') (str ''true'')
     @ header_line (str ''Access-Control-Allow-Headers'') (str ''content-type'')
     @ header_line (str ''Access-Control-Allow-Headers'') (str ''authorization'')
     @ header_line (str ''Access-Control-Allow-Headers'') (str ''x-websocket-version'')
     @ header_line (str ''Access-Control-Allow-Headers'') (str ''x-websocket-protocol'')
     @ header_line (str ''Access-Control-Allow-Headers'') (str ''x-websocket-extensions'')
     @ HTTP_HEADER_DELIMITER"

definition handshake_text :: "u8 list \<Rightarrow> u8 list \<Rightarrow> u8 list" where
  "handshake_text accept origin = start_text @ end_text accept origin"

lemma add_bytes_size_gen:
  "unat (packetSendSize g) + length xs < 65536 \<Longrightarrow>
   unat (packetSendSize (add_bytes xs g)) = unat (packetSendSize g) + length xs"
  by (simp add: add_bytes_size unat_add_small unat_of_nat_small)

lemma add_line_bytes:
  "unat (packetSendSize g) + length xs + length (header_line name value) < 65536 \<Longrightarrow>
   HttpResponse_AddHeaderLine name value (add_bytes xs g) = add_bytes (xs @ header_line name value) g"
  by (simp add: add_header_line add_bytes_size_gen add_bytes_add_bytes)

lemma length_header_line: "length (header_line name value) = length name + length value + 4"
  by (simp add: header_line_def HTTP_HEADER_DELIMITER_def)

lemma decimal_101: "decimal 101 = [49, 48, 49]"
  by (simp add: decimal_def digit_bytes_def digits_def radix.simps str_def)

lemma length_start_text: "length start_text = 107"
  by (simp add: start_text_def length_header_line decimal_101 HTTP_VERSION_1P1_def HTTP_HEADER_DELIMITER_def
      WS_WEBSOCKET_def WS_ACCEPT_def)

lemma handshake_start_bytes:
  assumes "packetSendSize g = 0"
  shows "handshake_start g = add_bytes start_text g"
  using assms
  by (simp add: handshake_start_def Let_def add_char_bytes add_number_bytes add_bytes_add_bytes
      add_line_bytes length_header_line decimal_101 HTTP_VERSION_1P1_def HTTP_HEADER_DELIMITER_def
      WS_WEBSOCKET_def WS_ACCEPT_def start_text_def)

lemma handshake_end_bytes:
  assumes "unat (packetSendSize g) + length (end_text accept origin) < 65536"
  shows "handshake_end accept origin g = add_bytes (end_text accept origin) g"
  using assms
  by (simp add: handshake_end_def Let_def add_bytes_add_bytes add_line_bytes length_header_line
      HTTP_HEADER_DELIMITER_def end_text_def)


lemma length_end_text: "length (end_text accept origin) = length accept + length origin + 337"
  by (simp add: end_text_def length_header_line HTTP_HEADER_DELIMITER_def)

section \<open>The answer reaches the client\<close>

text \<open>The key is the 24 bytes and the NUL \<open>WSCore_HandshakeRequest\<close> has left.\<close>

definition saved_key :: "'w HttpGlobalState \<Rightarrow> u8 list \<Rightarrow> bool" where
  "saved_key g key \<longleftrightarrow> length key = WS_KEY_LENGTH \<and> 0 \<notin> set key \<and>
     mem_read (hmem g) WsKey 0 (WS_KEY_LENGTH + 1) = key @ [0]"

definition saved_origin :: "'w HttpGlobalState \<Rightarrow> u8 list \<Rightarrow> bool" where
  "saved_origin g origin \<longleftrightarrow> (\<exists>k i. WS_ORIGIN_NAME (ws g) = Ptr (Heap k) i \<and> k < heap_next g) \<and>
     string_at g (WS_ORIGIN_NAME (ws g)) = Some origin"

lemma c_string_nul:
  assumes "mem_read m b i n = xs @ 0 # ys" "0 \<notin> set xs"
  shows "c_string m (Ptr b i) n = Some xs"
proof -
  have "takeWhile (\<lambda>c. c \<noteq> 0) (xs @ 0 # ys) = xs @ takeWhile (\<lambda>c. c \<noteq> 0) (0 # ys)"
    using assms(2) by (intro takeWhile_append2) auto
  then show ?thesis using assms(1) by (simp add: c_string_def)
qed

lemma c_string_takeWhile:
  assumes "mem_read m b 0 n = xs @ 0 # ys"
  shows "c_string m (Ptr b 0) n = Some (takeWhile (\<lambda>c. c \<noteq> 0) xs)"
proof (cases "0 \<in> set xs")
  case True
  then show ?thesis using assms by (auto simp: c_string_def takeWhile_append1)
next
  case False
  then have t: "takeWhile (\<lambda>c. c \<noteq> 0) xs = xs" by (auto simp: takeWhile_eq_all_conv)
  show ?thesis unfolding t by (rule c_string_nul [OF assms False])
qed

text \<open>A block of zeros in which a string has been written.\<close>

lemma mem_read_written:
  assumes "length xs < n" "\<forall>j<n. m b j = 0"
  shows "mem_read (mem_write m b 0 xs) b 0 n = xs @ 0 # replicate (n - length xs - 1) 0"
  by (rule nth_equalityI)
    (use assms in \<open>auto simp: nth_mem_read mem_write_same mem_write_def nth_append nth_Cons' split: if_splits\<close>)

text \<open>The state in which the answer is built: three fresh blocks, and the magic string after the key.\<close>

definition hs_ready :: "'w HttpGlobalState \<Rightarrow> 'w HttpGlobalState \<Rightarrow> bool" where
  "hs_ready g g5 \<longleftrightarrow>
     (\<forall>j<60. hmem g5 (Heap (heap_next g + 1)) j = 0 \<and> hmem g5 (Heap (heap_next g + 2)) j = 0) \<and>
     (\<forall>k<heap_next g. hmem g5 (Heap k) = hmem g (Heap k) \<and> heap_size g5 k = heap_size g k) \<and>
     world g5 = world g \<and> connections g5 = connections g \<and> ws g5 = ws g \<and>
     packetSendSize g5 = packetSendSize g"

lemma alloc0_eq: "alloc0 n g = (Heap (heap_next g), g\<lparr>heap_next := heap_next g + 1,
    heap_size := (heap_size g)(heap_next g := n), hmem := memset (hmem g) (Heap (heap_next g)) 0 0 n\<rparr>)"
  by (simp add: alloc0_def malloc_def Let_def)

lemma HandshakeResponse_ready:
  assumes "saved_key g key" "packetSendSize g = 0"
  obtains g5 where "hs_ready g g5"
    "WSCore_HandshakeResponse ops u g = do {
       (r, g7) \<leftarrow> WS_HandshakeHash ops (key @ WS_MAGIC_STRING) (Heap (heap_next g + 1)) (Heap (heap_next g + 2)) 60
                    (add_bytes start_text g5);
       if r = 0 then Some (0, g7)
       else do {
         accept \<leftarrow> c_string (hmem g7) (Ptr (Heap (heap_next g + 2)) 0) 60;
         origin \<leftarrow> string_at g7 (WS_ORIGIN_NAME (ws g7));
         let g8 = handshake_end accept origin g7;
         (sent, g9) \<leftarrow> HttpCore_SendPacket ops u \<lparr>uLength = packetSendSize g8, pData = Ptr PacketSend 0\<rparr> g8;
         if sent = 0 then Some (0, g9)
         else
           let g10 = set_conn_state u WebSocketDataRecv (g9\<lparr>packetSendSize := 0\<rparr>)
           in Some (1, g10\<lparr>world := ws_handshake_event ops u (world g10)\<rparr>) } }"
proof -
  let ?h = "heap_next g"
  define g1 where "g1 = snd (alloc0 61 g)"
  define g2 where "g2 = g1\<lparr>hmem := mem_write (hmem g1) (Heap ?h) 0 key\<rparr>"
  define g3 where "g3 = snd (alloc0 60 g2)"
  define g4 where "g4 = snd (alloc0 60 g3)"
  define g5 where "g5 = g4\<lparr>hmem := mem_write (hmem g4) WsKey (length key) (WS_MAGIC_STRING @ [0])\<rparr>"
  note defs = g5_def g4_def g3_def g2_def g1_def
  have mg: "length WS_MAGIC_STRING = 36" by (simp add: WS_MAGIC_STRING_def)
  have a: "alloc0 61 g = (Heap ?h, g1)" "alloc0 60 g2 = (Heap (?h + 1), g3)" "alloc0 60 g3 = (Heap (?h + 2), g4)"
    by (simp_all add: defs alloc0_eq)
  have "hmem g1 WsKey = hmem g WsKey" by (simp add: g1_def alloc0_eq memset_def mem_write_other)
  then have "mem_read (hmem g1) WsKey 0 25 = key @ 0 # []"
    using assms(1) mem_read_block [of "hmem g1" WsKey "hmem g"] by (simp add: saved_key_def)
  then have key: "c_string (hmem g1) (Ptr WsKey 0) 25 = Some key"
    using assms(1) by (intro c_string_nul) (simp_all add: saved_key_def)
  have st: "handshake_start g5 = add_bytes start_text g5"
    using assms(2) by (intro handshake_start_bytes) (simp add: defs alloc0_eq)
  have z: "mem_write m b 0 (replicate n 0) b j = 0" if "j < n" for m :: "http_block mem" and b n j
    using that by (simp add: mem_write_same)
  have "hs_ready g g5"
    unfolding hs_ready_def defs alloc0_eq
    by (simp add: memset_def mem_write_other mem_write_same)
  moreover have "WSCore_HandshakeResponse ops u g = do {
       (r, g7) \<leftarrow> WS_HandshakeHash ops (key @ WS_MAGIC_STRING) (Heap (?h + 1)) (Heap (?h + 2)) 60
                    (add_bytes start_text g5);
       if r = 0 then Some (0, g7)
       else do {
         accept \<leftarrow> c_string (hmem g7) (Ptr (Heap (?h + 2)) 0) 60;
         origin \<leftarrow> string_at g7 (WS_ORIGIN_NAME (ws g7));
         let g8 = handshake_end accept origin g7;
         (sent, g9) \<leftarrow> HttpCore_SendPacket ops u \<lparr>uLength = packetSendSize g8, pData = Ptr PacketSend 0\<rparr> g8;
         if sent = 0 then Some (0, g9)
         else
           let g10 = set_conn_state u WebSocketDataRecv (g9\<lparr>packetSendSize := 0\<rparr>)
           in Some (1, g10\<lparr>world := ws_handshake_event ops u (world g10)\<rparr>) } }"
    unfolding WSCore_HandshakeResponse_def
    by (simp add: mg a key st [symmetric] g2_def [symmetric] g5_def [symmetric] del: add_2_eq_Suc' add_2_eq_Suc One_nat_def)
  ultimately show ?thesis by (rule that)
qed

text \<open>The accept key of the protocol is the Base64 form of the whole digest; the code measures the digest
  with \<open>strlen\<close> and sends the form of the part before its first zero byte.\<close>

definition accept_key :: "u8 list \<Rightarrow> u8 list" where
  "accept_key digest = b64_body digest"

definition sent_key :: "u8 list \<Rightarrow> u8 list" where
  "sent_key digest = b64_body (takeWhile (\<lambda>c. c \<noteq> 0) digest)"

lemma sent_key_whole: "0 \<notin> set digest \<Longrightarrow> sent_key digest = accept_key digest"
  unfolding sent_key_def accept_key_def by (rule arg_cong [where f = b64_body]) (auto simp: takeWhile_eq_all_conv)

lemma length_sent_key: "length digest = 20 \<Longrightarrow> length (sent_key digest) \<le> 28"
proof -
  assume "length digest = 20"
  then have "length (takeWhile (\<lambda>c. c \<noteq> 0) digest) \<le> 20" using length_takeWhile_le [of _ digest] by simp
  then show ?thesis by (simp add: sent_key_def length_b64_body)
qed

lemma HandshakeHash_result:
  assumes "sha_process ops InKey (world g) = (digest, w')" "length digest = 20" "OutKey \<noteq> EncOutKey"
    "\<forall>j<60. hmem g OutKey j = 0 \<and> hmem g EncOutKey j = 0"
  shows "\<exists>m. WS_HandshakeHash ops InKey OutKey EncOutKey 60 g = Some (1, g\<lparr>world := w', hmem := m\<rparr>) \<and>
    c_string m (Ptr EncOutKey 0) 60 = Some (sent_key digest) \<and>
    (\<forall>b. b \<noteq> OutKey \<and> b \<noteq> EncOutKey \<longrightarrow> m b = hmem g b)"
proof -
  let ?s = "takeWhile (\<lambda>c. c \<noteq> 0) digest"
  let ?m1 = "mem_write (hmem g) OutKey 0 digest"
  let ?m = "mem_write ?m1 EncOutKey 0 (ConvertToBase64 ?s)"
  have out: "c_string ?m1 (Ptr OutKey 0) 60 = Some ?s"
    by (rule c_string_takeWhile, rule mem_read_written) (use assms in simp_all)
  have z: "\<forall>j<60. mem_write ?m1 EncOutKey (length (sent_key digest)) [0] EncOutKey j = 0"
    using assms(3,4) by (simp add: mem_write_def)
  have "?m = mem_write (mem_write ?m1 EncOutKey (length (sent_key digest)) [0]) EncOutKey 0 (sent_key digest)"
    by (auto simp: ConvertToBase64_def sent_key_def mem_write_def fun_eq_iff nth_append)
  moreover have "c_string (mem_write (mem_write ?m1 EncOutKey (length (sent_key digest)) [0]) EncOutKey 0 (sent_key digest))
      (Ptr EncOutKey 0) 60 = Some (sent_key digest)"
    by (rule c_string_nul, rule mem_read_written)
      (use length_sent_key [OF assms(2)] z b64_body_no_nul in \<open>simp_all add: sent_key_def\<close>)
  ultimately have enc: "c_string ?m (Ptr EncOutKey 0) 60 = Some (sent_key digest)" by simp
  have "WS_HandshakeHash ops InKey OutKey EncOutKey 60 g = Some (1, g\<lparr>world := w', hmem := ?m\<rparr>)"
    using assms(1) out by (simp add: WS_HandshakeHash_def SHA1_def)
  then show ?thesis using enc by (intro exI [of _ ?m]) (simp add: mem_write_other)
qed

lemma HandshakeResponse_sends:
  assumes "saved_key g key" "saved_origin g origin" "length origin \<le> 500" "packetSendSize g = 0"
    "sha_process ops (key @ WS_MAGIC_STRING) (world g) = (digest, w1)" "length digest = 20"
  obtains g8 where "WSCore_HandshakeResponse ops u g = do {
       (s, g9) \<leftarrow> HttpCore_SendPacket ops u \<lparr>uLength = packetSendSize g8, pData = Ptr PacketSend 0\<rparr> g8;
       if s = 0 then Some (0, g9)
       else
         let g10 = set_conn_state u WebSocketDataRecv (g9\<lparr>packetSendSize := 0\<rparr>)
         in Some (1, g10\<lparr>world := ws_handshake_event ops u (world g10)\<rparr>) }"
    "sendable \<lparr>uLength = packetSendSize g8, pData = Ptr PacketSend 0\<rparr> PacketSend 0"
    "blob_bytes (hmem g8) \<lparr>uLength = packetSendSize g8, pData = Ptr PacketSend 0\<rparr> =
       handshake_text (sent_key digest) origin"
    "world g8 = w1" "connections g8 = connections g"
proof -
  let ?h = "heap_next g" and ?text = "handshake_text (sent_key digest) origin"
  obtain g5 where r5: "hs_ready g g5" and run: "WSCore_HandshakeResponse ops u g = do {
       (r, g7) \<leftarrow> WS_HandshakeHash ops (key @ WS_MAGIC_STRING) (Heap (?h + 1)) (Heap (?h + 2)) 60
                    (add_bytes start_text g5);
       if r = 0 then Some (0, g7)
       else do {
         accept \<leftarrow> c_string (hmem g7) (Ptr (Heap (?h + 2)) 0) 60;
         origin \<leftarrow> string_at g7 (WS_ORIGIN_NAME (ws g7));
         let g8 = handshake_end accept origin g7;
         (sent, g9) \<leftarrow> HttpCore_SendPacket ops u \<lparr>uLength = packetSendSize g8, pData = Ptr PacketSend 0\<rparr> g8;
         if sent = 0 then Some (0, g9)
         else
           let g10 = set_conn_state u WebSocketDataRecv (g9\<lparr>packetSendSize := 0\<rparr>)
           in Some (1, g10\<lparr>world := ws_handshake_event ops u (world g10)\<rparr>) } }"
    by (rule HandshakeResponse_ready [OF assms(1,4), of ops u])
  let ?g6 = "add_bytes start_text g5"
  obtain m where hash: "WS_HandshakeHash ops (key @ WS_MAGIC_STRING) (Heap (?h + 1)) (Heap (?h + 2)) 60 ?g6 =
      Some (1, ?g6\<lparr>world := w1, hmem := m\<rparr>)"
    and acc: "c_string m (Ptr (Heap (?h + 2)) 0) 60 = Some (sent_key digest)"
    and fr: "\<forall>b. b \<noteq> Heap (?h + 1) \<and> b \<noteq> Heap (?h + 2) \<longrightarrow> m b = hmem ?g6 b"
    using HandshakeHash_result [of ops "key @ WS_MAGIC_STRING" ?g6 digest w1 "Heap (?h + 1)" "Heap (?h + 2)"]
      assms(5,6) r5 by (auto simp: hs_ready_def)
  let ?g7 = "?g6\<lparr>world := w1, hmem := m\<rparr>"
  have ws7: "ws ?g7 = ws g" "heap_size ?g7 = heap_size g5"
    using r5 by (simp_all add: hs_ready_def HttpResponse_AddStringToResponseHeaders_def)
  obtain k i where o: "WS_ORIGIN_NAME (ws g) = Ptr (Heap k) i" "k < ?h" "string_at g (Ptr (Heap k) i) = Some origin"
    using assms(2) by (auto simp: saved_origin_def)
  have "m (Heap k) = hmem g (Heap k)" using fr o(2) r5 by (simp add: hs_ready_def)
  then have org: "string_at ?g7 (Ptr (Heap k) i) = Some origin"
    using o(2,3) r5 ws7(2) by (simp add: string_at_def c_string_def mem_read_def hs_ready_def)
  have sz: "unat (packetSendSize ?g7) = 107"
    using add_bytes_size_small [of g5 start_text] r5 assms(4) length_start_text by (simp add: hs_ready_def)
  have len: "length ?text \<le> 1000" "length (end_text (sent_key digest) origin) \<le> 900"
    using length_sent_key [OF assms(6)] assms(3)
    by (simp_all add: handshake_text_def length_start_text length_end_text)
  let ?g8 = "add_bytes (end_text (sent_key digest) origin) ?g7"
  have g8: "handshake_end (sent_key digest) origin ?g7 = ?g8"
    by (rule handshake_end_bytes) (use sz len in simp)
  have sz8: "unat (packetSendSize ?g8) = length ?text"
    using add_bytes_size_gen [of ?g7 "end_text (sent_key digest) origin"] sz len length_start_text
    by (simp add: handshake_text_def)
  have "m PacketSend = mem_write (hmem g5) PacketSend 0 start_text PacketSend"
    using fr r5 assms(4) by (simp add: HttpResponse_AddStringToResponseHeaders_def hs_ready_def)
  then have "mem_read (hmem ?g8) PacketSend 0 (length ?text) = ?text"
    using sz length_start_text
    by (simp add: HttpResponse_AddStringToResponseHeaders_def handshake_text_def)
      (auto simp: nth_mem_read mem_write_def nth_append intro!: nth_equalityI)
  then have "blob_bytes (hmem ?g8) \<lparr>uLength = packetSendSize ?g8, pData = Ptr PacketSend 0\<rparr> = ?text"
    by (simp add: blob_bytes_def sz8)
  moreover have "sendable \<lparr>uLength = packetSendSize ?g8, pData = Ptr PacketSend 0\<rparr> PacketSend 0"
    using sz8 len by (simp add: sendable_def)
  moreover have "world ?g8 = w1" "connections ?g8 = connections g" using r5 by (simp_all add: hs_ready_def)
  moreover have "WSCore_HandshakeResponse ops u g = do {
       (s, g9) \<leftarrow> HttpCore_SendPacket ops u \<lparr>uLength = packetSendSize ?g8, pData = Ptr PacketSend 0\<rparr> ?g8;
       if s = 0 then Some (0, g9)
       else
         let g10 = set_conn_state u WebSocketDataRecv (g9\<lparr>packetSendSize := 0\<rparr>)
         in Some (1, g10\<lparr>world := ws_handshake_event ops u (world g10)\<rparr>) }"
  proof -
    have "ws ?g6 = ws g" using ws7(1) by simp
    then show ?thesis unfolding run hash by (simp add: acc o(1) org g8 Let_def del: add_2_eq_Suc' add_2_eq_Suc)
  qed
  ultimately show ?thesis by (intro that [of ?g8])
qed


text \<open>The accept key is right exactly for digests without a zero byte: \<open>WS_HandshakeHash\<close> measures
  the binary digest with \<open>strlen\<close>, so the key it encodes decodes to the digest if and only if no
  byte of the digest is zero; otherwise a client has to refuse the connection.
\<close>

theorem WS_HandshakeHash_accept_key:
  assumes "sha_process ops InKey (world g) = (digest, w')" "length digest = 20" "OutKey \<noteq> EncOutKey"
    "\<forall>j<60. hmem g OutKey j = 0 \<and> hmem g EncOutKey j = 0"
  shows "\<exists>g' accept. WS_HandshakeHash ops InKey OutKey EncOutKey 60 g = Some (1, g') \<and>
    c_string (hmem g') (Ptr EncOutKey 0) 60 = Some accept \<and> (b64_decode accept = Some digest \<longleftrightarrow> 0 \<notin> set digest)"
proof -
  have "takeWhile (\<lambda>c. c \<noteq> 0) digest = digest \<longleftrightarrow> 0 \<notin> set digest" by (auto simp: takeWhile_eq_all_conv)
  then have "b64_decode (sent_key digest) = Some digest \<longleftrightarrow> 0 \<notin> set digest"
    by (simp add: sent_key_def b64_decode_body)
  with HandshakeHash_result [OF assms] show ?thesis by force
qed

section \<open>Concrete runs\<close>

definition hs_ops :: "(int \<times> u8) list sl_ops" where
  "hs_ops = log_ops\<lparr>sha_process := (\<lambda>k w. (replicate 20 7, w))\<rparr>"

definition hs_state :: "(int \<times> u8) list HttpGlobalState" where
  "hs_state = (boot_state [])\<lparr>
     hmem := mem_write (mem_write boot_mem WsKey 0 (replicate 24 65 @ [0])) (Heap 0) 0 (str ''http://pc'' @ [0]),
     ws := (ws (boot_state ()))\<lparr>WS_ORIGIN_NAME := Ptr (Heap 0) 0, Origin := True\<rparr>,
     heap_next := 1, heap_size := (\<lambda>_. 10)\<rparr>"

lemma hs_state_facts:
  "saved_key hs_state (replicate 24 65)" "saved_origin hs_state (str ''http://pc'')" "packetSendSize hs_state = 0"
  "send_contract hs_ops id" "send_progress hs_ops (\<lambda>_. 0)"
  "sha_process hs_ops k w = (replicate 20 7, w)" "world hs_state = []" "dataSocket (connections hs_state 0) = 0"
proof -
  have "mem_read (hmem hs_state) WsKey 0 25 = replicate 24 65 @ [0]"
    using mem_read_write [of boot_mem WsKey 0 "replicate 24 65 @ [0]"]
    by (simp add: hs_state_def mem_read_write_other)
  then show "saved_key hs_state (replicate 24 65)" by (simp add: saved_key_def)
  have len: "length (str ''http://pc'' @ [0]) = 10" by simp
  have "mem_read (hmem hs_state) (Heap 0) 0 10 = str ''http://pc'' @ 0 # []"
    using mem_read_write [of "mem_write boot_mem WsKey 0 (replicate 24 65 @ [0])" "Heap 0" 0 "str ''http://pc'' @ [0]"]
    unfolding len by (simp add: hs_state_def)
  then have "c_string (hmem hs_state) (Ptr (Heap 0) 0) 10 = Some (str ''http://pc'')"
    by (rule c_string_nul) (simp add: str_def)
  then show "saved_origin hs_state (str ''http://pc'')"
    by (simp add: saved_origin_def string_at_def hs_state_def boot_state_def)
qed (simp_all add: hs_state_def boot_state_def hs_ops_def send_contract_def send_progress_def
      log_ops_def null_ops_def SL_EAGAIN_def)

lemma hs_ops_accepts: "send_accepts hs_ops"
  using log_ops_accepts by (simp add: send_accepts_def hs_ops_def)


theorem WS_HandshakeHash_accept_key_witness:
  "\<exists>g' accept. WS_HandshakeHash (null_ops\<lparr>sha_process := (\<lambda>k w. (5 # 0 # replicate 18 9, w))\<rparr>) [65] (Heap 5) (Heap 6) 60
       (boot_state ()) = Some (1, g') \<and>
     c_string (hmem g') (Ptr (Heap 6) 0) 60 = Some accept \<and> b64_decode accept \<noteq> Some (5 # 0 # replicate 18 9)"
  using WS_HandshakeHash_accept_key [of "null_ops\<lparr>sha_process := (\<lambda>k w. (5 # 0 # replicate 18 9, w))\<rparr>" "[65]" "boot_state ()"
      "5 # 0 # replicate 18 9" "()" "Heap 5" "Heap 6"]
  by (simp add: boot_state_def boot_mem_def)

definition key_line :: "u8 list" where
  "key_line = str ''Sec-WebSocket-Key: dGhlIHNhbXBsZSBub25jZQ==''"

theorem WSCore_HandshakeRequest_saves_key_witness:
  "\<exists>g'. WSCore_HandshakeRequest 0 (line_blob key_line) (line_state key_line) = Some (1, g') \<and>
     mem_read (hmem g') WsKey 0 25 = str ''dGhlIHNhbXBsZSBub25jZQ=='' @ [0]"
proof -
  let ?l = "line_blob key_line" and ?g = "line_state key_line"
  have len: "length key_line = 43" by (simp add: key_line_def)
  have p: "pData ?l = Ptr PacketRecv 0" by (simp add: line_blob_def)
  have low: "starts WS_KEY_REQUEST (low ?l ?g)"
    using line_low [of key_line] len by (simp add: key_line_def starts_def WS_KEY_REQUEST_def str_def lower_byte_def)
  have str: "string_at ?g (pData ?l) = Some key_line"
  proof -
    have "mem_read (hmem ?g) PacketRecv 0 1000 = key_line @ 0 # replicate 956 0"
      by (rule nth_equalityI)
        (auto simp: nth_mem_read line_state_def mem_of_def len nth_append nth_Cons' split: if_splits)
    moreover have "0 \<notin> set key_line" by (simp add: key_line_def str_def)
    ultimately have "c_string (hmem ?g) (Ptr PacketRecv 0) 1000 = Some key_line" by (rule c_string_nul)
    then show ?thesis by (simp add: p string_at_def)
  qed
  have "WSCore_HandshakeRequest 0 ?l ?g \<noteq> None"
    by (simp add: WSCore_HandshakeRequest_def str Let_def split_def)
  then obtain r g' where run: "WSCore_HandshakeRequest 0 ?l ?g = Some (r, g')" by auto
  have ne: "uLength ?l \<noteq> 0" using len by (simp add: line_blob_def)
  have t: "take 24 (drop 19 key_line) = str ''dGhlIHNhbXBsZSBub25jZQ==''" by (simp add: key_line_def str_def)
  from WSCore_HandshakeRequest_saves_key [OF p _ _ ne str low _ run] show ?thesis
    using run len by (simp add: t)
qed

end
