(* ===== verification/Http_Frame.thy ===== *)
theory Http_Frame
  imports Ws_Handshake
begin

text \<open>
  What a handler for connection \<open>u\<close> leaves alone: the other connections, the number of open
  connections, the listening socket and the connection's own number; and it does not make an
  active connection inactive.  One lemma per operation of the server, in the order of the call
  graph; the WebSocket close path, which does close the connection, is the one exception.
\<close>

named_theorems stays_dest
named_theorems stays_simps

definition active :: "nat \<Rightarrow> 'w HttpGlobalState \<Rightarrow> bool" where
  "active u g \<longleftrightarrow> conn_state g u \<noteq> Inactive"

definition outside ::
  "nat \<Rightarrow> 'w HttpGlobalState \<Rightarrow> (nat \<Rightarrow> HttpConnectionData) \<times> u16 \<times> int \<times> u16 \<times> int" where
  "outside u g = ((connections g)(u := undefined), uOpenConnections g, listenSocket g,
     req_uConnection (request (connections g u)), dataSocket (connections g u))"

definition stays :: "nat \<Rightarrow> 'w HttpGlobalState \<Rightarrow> 'w HttpGlobalState \<Rightarrow> bool" where
  "stays u g g' \<longleftrightarrow> outside u g' = outside u g \<and> (active u g \<longrightarrow> active u g')"

lemma stays_refl [simp]: "stays u g g"
  by (simp add: stays_def)

lemma stays_trans: "stays u g g1 \<Longrightarrow> stays u g1 g2 \<Longrightarrow> stays u g g2"
  by (simp add: stays_def)

lemma outside_frame [stays_simps]:
  "outside u (g\<lparr>hmem := m\<rparr>) = outside u g" "outside u (g\<lparr>world := w\<rparr>) = outside u g"
  "outside u (g\<lparr>packetSendSize := s\<rparr>) = outside u g" "outside u (g\<lparr>packetRecvSize := n\<rparr>) = outside u g"
  "outside u (g\<lparr>glFileHandle := h\<rparr>) = outside u g" "outside u (g\<lparr>g_NumResource := k\<rparr>) = outside u g"
  "outside u (g\<lparr>heap_next := k\<rparr>) = outside u g" "outside u (g\<lparr>heap_size := f\<rparr>) = outside u g"
  "outside u (ws_upd fw g) = outside u g"
  by (simp_all add: outside_def ws_upd_def)

lemma active_frame [stays_simps]:
  "active u (g\<lparr>hmem := m\<rparr>) = active u g" "active u (g\<lparr>world := w\<rparr>) = active u g"
  "active u (g\<lparr>packetSendSize := s\<rparr>) = active u g" "active u (g\<lparr>packetRecvSize := n\<rparr>) = active u g"
  "active u (g\<lparr>glFileHandle := h\<rparr>) = active u g" "active u (g\<lparr>g_NumResource := k\<rparr>) = active u g"
  "active u (g\<lparr>heap_next := k\<rparr>) = active u g" "active u (g\<lparr>heap_size := f\<rparr>) = active u g"
  "active u (ws_upd fw g) = active u g"
  by (simp_all add: active_def conn_state_def ws_upd_def)

lemma outside_conn_upd:
  assumes "req_uConnection (request (f (connections g u))) = req_uConnection (request (connections g u))"
    "dataSocket (f (connections g u)) = dataSocket (connections g u)"
  shows "outside u (conn_upd u f g) = outside u g"
  using assms by (auto simp: outside_def conn_upd_def)

lemma outside_upd [stays_simps]:
  "outside u (set_conn_state u st g) = outside u g" "outside u (set_req_flag u fl g) = outside u g"
  "outside u (clear_req_flag u fl g) = outside u g" "outside u (set_or_clear u fl b g) = outside u g"
  "outside u (req_upd u (\<lambda>r. r\<lparr>requestContent := c r\<rparr>) g) = outside u g"
  "outside u (conn_upd u (\<lambda>c. c\<lparr>uContentLeft := n c\<rparr>) g) = outside u g"
  "outside u (conn_upd u (\<lambda>c. c\<lparr>uSavedBufferSize := z c\<rparr>) g) = outside u g"
  "outside u (conn_upd u (\<lambda>c. c\<lparr>timeout := t c\<rparr>) g) = outside u g"
  "outside u (conn_upd u (\<lambda>c. c\<lparr>connectionState := st' c\<rparr>) g) = outside u g"
  "outside u (conn_upd u (\<lambda>c. c\<lparr>handler := ha c, connectionState := st' c\<rparr>) g) = outside u g"
  "outside u (conn_upd u (\<lambda>c. c\<lparr>uSavedBufferSize := z c, connectionState := st' c\<rparr>) g) = outside u g"
  "outside u (conn_upd u (\<lambda>c. c\<lparr>uContentLeft := n c, request := (request c)\<lparr>requestContent := rc c\<rparr>\<rparr>) g) = outside u g"
  "outside u (HttpCore_ResetConnection u g) = outside u g"
  by (simp_all add: set_conn_state_def set_req_flag_def clear_req_flag_def set_or_clear_def req_upd_def
      HttpCore_ResetConnection_def outside_conn_upd)

lemma active_upd [stays_simps]:
  "active u (set_conn_state u st g) \<longleftrightarrow> st \<noteq> Inactive" "active u (set_req_flag u fl g) = active u g"
  "active u (clear_req_flag u fl g) = active u g" "active u (set_or_clear u fl b g) = active u g"
  "active u (req_upd u fr g) = active u g"
  "active u (conn_upd u (\<lambda>c. c\<lparr>uContentLeft := n c\<rparr>) g) = active u g"
  "active u (conn_upd u (\<lambda>c. c\<lparr>uSavedBufferSize := z c\<rparr>) g) = active u g"
  "active u (conn_upd u (\<lambda>c. c\<lparr>timeout := t c\<rparr>) g) = active u g"
  "active u (conn_upd u (\<lambda>c. c\<lparr>connectionState := st'\<rparr>) g) \<longleftrightarrow> st' \<noteq> Inactive"
  "active u (conn_upd u (\<lambda>c. c\<lparr>handler := ha c, connectionState := st'\<rparr>) g) \<longleftrightarrow> st' \<noteq> Inactive"
  "active u (conn_upd u (\<lambda>c. c\<lparr>uSavedBufferSize := z c, connectionState := st'\<rparr>) g) \<longleftrightarrow> st' \<noteq> Inactive"
  "active u (conn_upd u (\<lambda>c. c\<lparr>uContentLeft := n c, request := rq c\<rparr>) g) = active u g"
  "active u (HttpCore_ResetConnection u g) = active u g"
  by (simp_all add: active_def conn_defs set_or_clear_def HttpCore_ResetConnection_def)

section \<open>Parsing\<close>

lemma next_token_stays [stays_dest]: "next_token tok line g = (r, g') \<Longrightarrow> stays u g g'"
  using next_token_frame [of tok line g r g'] by (metis stays_def outside_frame(1) active_frame(1))

lemma line_starts_stays [stays_dest]: "line_starts tok line g = (r, g') \<Longrightarrow> stays u g g'"
  by (auto simp: line_starts_def dest: next_token_stays split: prod.splits)

lemma GetNextLine_stays [stays_dest]:
  "HttpCore_GetNextLine u cur g = (r, cur', line, g') \<Longrightarrow> stays u g g'"
  unfolding HttpCore_GetNextLine_def Let_def
  by (simp split: if_splits; elim conjE; hypsubst; simp add: stays_def stays_simps)

lemma HandleRequestData_stays [stays_dest]:
  "HttpCore_HandleRequestData u cur g = (r, cur', g') \<Longrightarrow> stays u g g'"
  by (auto simp: HttpCore_HandleRequestData_def Let_def stays_def stays_simps split: if_splits)


lemma HandleHeaderLine_stays [stays_dest]:
  assumes "HttpCore_HandleHeaderLine u line g = (r, g')"
  shows "stays u g g'"
proof -
  obtain a g1 where 1: "line_starts WS_UPGRADE line g = (a, g1)" by (rule prod.exhaust)
  obtain b g2 where 2: "line_starts HTTP_ACCEPT_ENCODING line g1 = (b, g2)" by (rule prod.exhaust)
  obtain c g3 where 3: "line_starts HTTP_CONTENT_LENGTH line g2 = (c, g3)" by (rule prod.exhaust)
  obtain d g4 where 4: "line_starts HTTP_CONNECTION_CLOSE line g3 = (d, g4)" by (rule prod.exhaust)
  obtain e g5 where 5: "line_starts HTTP_AUTHORIZATION line g4 = (e, g5)" by (rule prod.exhaust)
  note s = line_starts_stays [OF 1, where u = u] line_starts_stays [OF 2, where u = u] line_starts_stays [OF 3, where u = u]
    line_starts_stays [OF 4, where u = u] line_starts_stays [OF 5, where u = u]
  show ?thesis
    using assms s unfolding HttpCore_HandleHeaderLine_def Let_def 1 2 3 4 5 split_conv
    by (auto simp: stays_def stays_simps split: if_splits prod.splits dest!: next_token_stays [where u = u])
qed

lemma parse_method_stays [stays_dest]: "parse_method u line g = (pm, g') \<Longrightarrow> stays u g g'"
  unfolding parse_method_def Let_def
  by (auto simp: stays_def stays_simps split: if_splits prod.splits dest!: next_token_stays [where u = u])

lemma parse_version_stays [stays_dest]: "parse_version u line g = (pv, g') \<Longrightarrow> stays u g g'"
  unfolding parse_version_def Let_def
  by (auto simp: stays_def stays_simps split: if_splits prod.splits dest!: next_token_stays [where u = u])

lemma Static_InitRequest_stays [stays_dest]: "HttpStatic_InitRequest ops u r g = (s, g') \<Longrightarrow> stays u g g'"
  by (auto simp: HttpStatic_InitRequest_def Let_def stays_def stays_simps split: prod.splits)

lemma dynamic_search_stays: "dynamic_search r k g = Some (k', g') \<Longrightarrow> stays u g g'"
proof (induction r k g rule: dynamic_search.induct)
  case (1 r k g)
  show ?case
    using "1.prems"
    by (subst (asm) dynamic_search.simps)
      (auto simp: Let_def split: if_splits option.splits prod.splits dest: next_token_stays [where u = u]
        intro: stays_trans dest!: "1.IH")
qed

lemma Dynamic_InitRequest_stays [stays_dest]: "HttpDynamic_InitRequest u r m g = Some (s, g') \<Longrightarrow> stays u g g'"
  by (auto simp: HttpDynamic_InitRequest_def Let_def stays_def stays_simps split: Option.bind_splits
      dest!: dynamic_search_stays [where u = u])

lemma select_handler_stays [stays_dest]: "select_handler ops u r m g = Some g' \<Longrightarrow> stays u g g'"
  by (auto simp: select_handler_def Let_def stays_def stays_simps split: Option.bind_splits prod.splits if_splits
      dest!: Static_InitRequest_stays Dynamic_InitRequest_stays)

lemma HandleMethodLine_stays [stays_dest]:
  "HttpCore_HandleMethodLine ops u line g = Some (r, g') \<Longrightarrow> stays u g g'"
  by (auto simp: HttpCore_HandleMethodLine_def Let_def stays_def stays_simps
      split: Option.bind_splits prod.splits option.splits
      dest!: parse_method_stays parse_version_stays select_handler_stays)

section \<open>Responding\<close>

lemma send_chunk_stays [stays_dest]: "send_chunk ops u b n g = Some (s, g') \<Longrightarrow> stays u g g'"
  by (auto simp: send_chunk_def Let_def stays_def stays_simps split: Option.bind_splits if_splits)

lemma SendPacket_stays [stays_dest]:
  assumes "HttpCore_SendPacket ops u b g = Some (r, g')"
  shows "stays u g g'"
proof -
  have "case y of (r, g') \<Rightarrow> stays u g g'" if "HttpCore_SendPacket ops u b g = Some y" for y
  proof (rule HttpCore_SendPacket.raw_induct [where P = "\<lambda>_ u _ g y. case y of (r, g') \<Rightarrow> stays u g g'", OF _ that])
    fix f ops u b g y
    assume IH: "\<And>ops u b g y. f ops u b g = Some y \<Longrightarrow> case y of (r, g') \<Rightarrow> stays u g g'"
      and run: "(if unat (uLength b) > 0 then
        if unat (uLength b) > HTTP_CORE_MAX_PACKET_SIZE_SEND then do {
          HttpAssert (pData b \<noteq> Ptr PacketSend 0);
          (sent, g1) \<leftarrow> send_chunk ops u b HTTP_CORE_MAX_PACKET_SIZE_SEND g;
          if sent \<le> 0 then Some (0, g1)
          else f ops u (blob_skip b (nat sent)) g1
        }
        else do {
          (sent, g1) \<leftarrow> send_chunk ops u b (unat (uLength b)) g;
          if sent \<le> 0 then Some (0, g1)
          else f ops u (blob_skip b (nat sent)) g1
        }
      else Some (1, g)) = Some y"
    have IH': "f ops u b g = Some (r, g') \<Longrightarrow> stays u g g'" for ops u b g r g' using IH by fastforce
    show "case y of (r, g') \<Rightarrow> stays u g g'"
      using run
      by (cases y) (auto split: if_splits Option.bind_splits dest!: send_chunk_stays IH' intro: stays_trans)
  qed
  with assms show ?thesis by auto
qed

lemma add_stays [stays_simps]:
  "outside u (add_bytes s g) = outside u g" "active u (add_bytes s g) = active u g"
  "outside u (HttpResponse_AddCharToResponseHeaders c g) = outside u g"
  "active u (HttpResponse_AddCharToResponseHeaders c g) = active u g"
  "outside u (HttpResponse_AddNumberToResponseHeaders n g) = outside u g"
  "active u (HttpResponse_AddNumberToResponseHeaders n g) = active u g"
  by (simp_all add: HttpResponse_AddStringToResponseHeaders_def HttpResponse_AddCharToResponseHeaders_def
      HttpResponse_AddNumberToResponseHeaders_def Let_def split_def outside_def active_def conn_state_def)

lemma add_line_stays [stays_simps]:
  "outside u (HttpResponse_AddHeaderLine nm v g) = outside u g"
  "active u (HttpResponse_AddHeaderLine nm v g) = active u g"
  "outside u (HttpResponse_AddHeaderLineNumValue nm n g) = outside u g"
  "active u (HttpResponse_AddHeaderLineNumValue nm n g) = active u g"
  by (simp_all add: HttpResponse_AddHeaderLine_def HttpResponse_AddHeaderLineNumValue_def Let_def stays_simps)

lemma Headers_stays [stays_dest]:
  "HttpResponse_Headers ops u st fl cl ct loc g = Some (r, g') \<Longrightarrow> stays u g g'"
  unfolding HttpResponse_Headers_def Let_def
  by (auto simp: stays_def stays_simps HttpAssert_def split: Option.bind_splits if_splits dest!: SendPacket_stays)

lemma Content_stays [stays_dest]:
  "HttpResponse_Content ops u ct g = Some (r, g') \<Longrightarrow> stays u g g'"
  unfolding HttpResponse_Content_def Let_def
  by (auto simp: stays_def stays_simps HttpAssert_def split: Option.bind_splits if_splits dest!: SendPacket_stays)

lemma CannedError_stays [stays_dest]:
  "HttpResponse_CannedError ops u st g = Some (r, g') \<Longrightarrow> stays u g g'"
  unfolding HttpResponse_CannedError_def Let_def
  by (auto simp: stays_def split: Option.bind_splits if_splits dest!: Headers_stays Content_stays)

section \<open>Content\<close>

lemma malloc_stays [stays_dest]: "malloc n g = (b, g') \<Longrightarrow> stays u g g'"
  by (auto simp: malloc_def stays_def outside_def active_def conn_state_def)

lemma static_loop_stays:
  assumes "static_loop ops u hf left off g = Some (r, g')"
  shows "stays u g g'"
proof -
  have "case y of (r, g') \<Rightarrow> stays u g g'" if "static_loop ops u hf left off g = Some y" for y
  proof (rule static_loop.raw_induct [where P = "\<lambda>_ u _ _ _ g y. case y of (r, g') \<Rightarrow> stays u g g'", OF _ that])
    fix f ops u hf left off g y
    assume IH: "\<And>ops u hf left off g y. f ops u hf left off g = Some y \<Longrightarrow> case y of (r, g') \<Rightarrow> stays u g g'"
      and run: "(if (left :: u32) > 0 then
        let len = (if left < 1000 then ucast left else 1000) :: u16;
            (b, g1) = malloc (unat len) g;
            cont = \<lparr>uLength = len, pData = Ptr b 0\<rparr>;
            (r, bytes, w') = sl_FsRead ops (glFileHandle g1) off (unat len) (world g1);
            g2 = g1\<lparr>hmem := mem_write (hmem g1) b 0 bytes, world := w'\<rparr>
        in if r < 0 then do {
             (e, g3) \<leftarrow> HttpResponse_CannedError ops u HTTP_STATUS_ERROR_NOT_ACCEPTED g2;
             Some (if e = 0 then 0 else 1, g3)
           }
           else do {
             (h, g3) \<leftarrow> (if hf then Some (1, g2)
                        else HttpResponse_Headers ops u HTTP_STATUS_OK 0 left nullBlob nullBlob g2);
             if h = 0 then Some (0, g3)
             else do {
               (c, g4) \<leftarrow> HttpResponse_Content ops u cont g3;
               if c = 0 then Some (0, g4)
               else f ops u True (left - ucast len) (off + unat len) g4
             }
           }
      else
        let (_, w') = sl_FsClose ops (glFileHandle g) (world g) in Some (1, g\<lparr>world := w'\<rparr>)) = Some y"
    have IH': "f ops u hf left off g = Some (r, g') \<Longrightarrow> stays u g g'" for ops u hf left off g r g'
      using IH by fastforce
    have fr: "stays u g (g\<lparr>hmem := m, world := w\<rparr>)" "stays u g (g\<lparr>world := w\<rparr>)" for g :: "'a HttpGlobalState" and m w
      by (simp_all add: stays_def stays_simps)
    obtain r2 g2 where y: "y = (r2, g2)" by (cases y)
    have "stays u g g2"
    proof (cases "left > 0")
      case False
      then show ?thesis using run y by (auto simp: stays_def stays_simps split: prod.splits)
    next
      case True
      let ?len = "(if left < 1000 then ucast left else 1000) :: u16"
      obtain b g1 where mal: "malloc (unat ?len) g = (b, g1)" by (rule prod.exhaust)
      obtain k bytes w' where rd: "sl_FsRead ops (glFileHandle g1) off (unat ?len) (world g1) = (k, bytes, w')"
        by (rule prod_cases3)
      show ?thesis
        using run True malloc_stays [OF mal, of u] unfolding Let_def mal rd split_conv y
        by (auto simp: stays_def stays_simps split: if_splits Option.bind_splits
            dest!: CannedError_stays Headers_stays Content_stays IH')
    qed
    then show "case y of (r, g') \<Rightarrow> stays u g g'" by (simp add: y)
  qed
  with assms show ?thesis by auto
qed

lemma Static_ProcessRequest_stays [stays_dest]:
  assumes "HttpStatic_ProcessRequest ops req g = Some (r, g')" "unat (req_uConnection req) = u"
  shows "stays u g g'"
  using assms unfolding HttpStatic_ProcessRequest_def Let_def
  by (auto simp: stays_def stays_simps split: if_splits Option.bind_splits prod.splits
      dest!: CannedError_stays static_loop_stays)

lemma Dynamic_ProcessRequest_stays [stays_dest]:
  assumes "HttpDynamic_ProcessRequest ops req g = Some (r, g')" "unat (req_uConnection req) = u"
  shows "stays u g g'"
  using assms unfolding HttpDynamic_ProcessRequest_def Let_def
  by (auto simp: stays_def stays_simps split: if_splits Option.bind_splits prod.splits
      dest!: Headers_stays Content_stays)

section \<open>WebSocket\<close>

lemma WS_SendPacket_stays [stays_dest]: "WS_SendPacket ops u g = Some (r, g') \<Longrightarrow> stays u g g'"
  by (auto simp: WS_SendPacket_def stays_def stays_simps split: Option.bind_splits dest!: SendPacket_stays)

lemma alloc0_stays [stays_dest]: "alloc0 n g = (b, g') \<Longrightarrow> stays u g g'"
  by (auto simp: alloc0_eq stays_def outside_def active_def conn_state_def)

lemma handshake_start_stays [stays_simps]:
  "outside u (handshake_start g) = outside u g" "active u (handshake_start g) = active u g"
  "outside u (handshake_end a o' g) = outside u g" "active u (handshake_end a o' g) = active u g"
  by (simp_all add: handshake_start_def handshake_end_def Let_def stays_simps)

lemma HandshakeHash_stays [stays_dest]: "WS_HandshakeHash ops k b1 b2 n g = Some (r, g') \<Longrightarrow> stays u g g'"
  unfolding WS_HandshakeHash_def Let_def
  by (auto simp: stays_def stays_simps outside_def active_def conn_state_def split: Option.bind_splits prod.splits)

lemma HandshakeResponse_stays [stays_dest]:
  "WSCore_HandshakeResponse ops u g = Some (r, g') \<Longrightarrow> stays u g g'"
  unfolding WSCore_HandshakeResponse_def Let_def
  by (auto simp: stays_def stays_simps split: Option.bind_splits prod.splits if_splits
      dest!: alloc0_stays [where u = u] HandshakeHash_stays [where u = u] SendPacket_stays)

lemma ws_origin_stays: "stays u g (ws_origin u line g)"
  unfolding ws_origin_def Let_def
  by (auto simp: stays_def stays_simps split: prod.splits
      dest!: line_starts_stays [where u = u] malloc_stays [where u = u])

lemma ws_other_lines_stays [stays_dest]: "ws_other_lines u line g = (r, g') \<Longrightarrow> stays u g g'"
  unfolding ws_other_lines_def Let_def
  by (auto simp: stays_def ws_origin_stays [unfolded stays_def, THEN conjunct1]
      intro: ws_origin_stays [unfolded stays_def, THEN conjunct2, rule_format]
      split: prod.splits if_splits dest!: line_starts_stays [where u = u])

lemma HandshakeRequest_stays [stays_dest]:
  "WSCore_HandshakeRequest u line g = Some (r, g') \<Longrightarrow> stays u g g'"
  unfolding WSCore_HandshakeRequest_def Let_def
  by (auto simp: stays_def stays_simps ws_save_key_def Let_def split: Option.bind_splits prod.splits if_splits
      dest!: line_starts_stays [where u = u] next_token_stays [where u = u] malloc_stays [where u = u] ws_other_lines_stays)

text \<open>
  Closing: what \<open>HttpCore_CloseConnection\<close> does to the counters.  A call that succeeds takes an
  active connection out of the open ones.
\<close>

definition closed :: "nat \<Rightarrow> 'w HttpGlobalState \<Rightarrow> 'w HttpGlobalState \<Rightarrow> bool" where
  "closed u g g' \<longleftrightarrow> (connections g')(u := undefined) = (connections g)(u := undefined) \<and>
     uOpenConnections g' = (if uOpenConnections g > 0 then uOpenConnections g - 1 else uOpenConnections g) \<and>
     listenSocket g' = listenSocket g \<and> \<not> active u g' \<and> dataSocket (connections g' u) = -1 \<and>
     req_uConnection (request (connections g' u)) = req_uConnection (request (connections g u))"

lemma stays_closed: "stays u g g1 \<Longrightarrow> closed u g1 g2 \<Longrightarrow> closed u g g2"
  by (auto simp: stays_def closed_def outside_def)

lemma CloseConnection_closed:
  "stays u g (HttpCore_CloseConnection ops u g) \<or> closed u g (HttpCore_CloseConnection ops u g)"
proof -
  obtain r w' where c: "CloseTCPClientSocket ops (dataSocket (connections g u)) (world g) = (r, w')"
    by (rule prod.exhaust)
  show ?thesis
  proof (cases "r \<ge> 0")
    case True
    then have "closed u g (HttpCore_CloseConnection ops u g)"
      unfolding HttpCore_CloseConnection_def c Let_def
      by (auto simp: closed_def active_def conn_state_def HttpCore_ResetConnection_def conn_upd_def)
    then show ?thesis ..
  next
    case False
    then show ?thesis by (simp add: HttpCore_CloseConnection_def c stays_def stays_simps)
  qed
qed

text \<open>A handler keeps the frame, or ends by closing its connection.\<close>

definition stays_or_closed :: "nat \<Rightarrow> 'w HttpGlobalState \<Rightarrow> 'w HttpGlobalState \<Rightarrow> bool" where
  "stays_or_closed u g g' \<longleftrightarrow> stays u g g' \<or> closed u g g'"

lemma stays_or_closedI: "stays u g g' \<Longrightarrow> stays_or_closed u g g'"
  by (simp add: stays_or_closed_def)

lemma stays_then: "stays u g g1 \<Longrightarrow> stays_or_closed u g1 g2 \<Longrightarrow> stays_or_closed u g g2"
  by (auto simp: stays_or_closed_def intro: stays_trans stays_closed)

lemma add_frame_header_stays [stays_simps]:
  "outside u (add_frame_header n op g) = outside u g" "active u (add_frame_header n op g) = active u g"
  by (simp_all add: add_frame_header_def Let_def stays_simps)

lemma world_stays: "stays u g (g\<lparr>world := w\<rparr>)"
  by (simp add: stays_def stays_simps)

lemma send_frames_closes:
  assumes "send_frames ops u p n op g = Some (r, g')"
  shows "stays u g g' \<or> r = 1 \<and> op = 8 \<and> closed u g g'"
proof -
  have "case y of (r, g') \<Rightarrow> stays u g g' \<or> r = 1 \<and> op = 8 \<and> closed u g g'"
    if "send_frames ops u p n op g = Some y" for y
  proof (rule send_frames.raw_induct
      [where P = "\<lambda>_ u _ _ op g y. case y of (r, g') \<Rightarrow> stays u g g' \<or> r = 1 \<and> op = 8 \<and> closed u g g'", OF _ that])
    fix f ops u p n op g y
    assume IH: "\<And>ops u p n op g y. f ops u p n op g = Some y \<Longrightarrow>
        case y of (r, g') \<Rightarrow> stays u g g' \<or> r = 1 \<and> op = 8 \<and> closed u g g'"
      and run: "(let g1 = add_frame_header n op g;
          l = frame_payload_len n;
          g2 = HttpResponse_AddStringToResponseHeaders (ptr_bytes (hmem g1) p (unat l)) g1
      in do {
        (r, g3) \<leftarrow> WS_SendPacket ops u g2;
        if r = 0 then Some (0, g3)
        else if op = WS_CLOSE then
          Some (1, HttpCore_CloseConnection ops u (g3\<lparr>world := ws_close_event ops (world g3)\<rparr>))
        else if n - l > 0 then f ops u (ptr_add p (unat l)) (n - l) WS_CONTINUATION g3
        else Some (1, g3)
      }) = Some y"
    obtain r2 g2 where y: "y = (r2, g2)" by (cases y)
    let ?g1 = "add_frame_header n op g"
    let ?g2 = "HttpResponse_AddStringToResponseHeaders (ptr_bytes (hmem ?g1) p (unat (frame_payload_len n))) ?g1"
    have b: "stays u g ?g2" by (simp add: stays_def stays_simps)
    obtain r3 g3 where sp: "WS_SendPacket ops u ?g2 = Some (r3, g3)"
      and k: "(if r3 = 0 then Some (0, g3)
        else if op = WS_CLOSE then
          Some (1, HttpCore_CloseConnection ops u (g3\<lparr>world := ws_close_event ops (world g3)\<rparr>))
        else if n - frame_payload_len n > 0
          then f ops u (ptr_add p (unat (frame_payload_len n))) (n - frame_payload_len n) WS_CONTINUATION g3
        else Some (1, g3)) = Some (r2, g2)"
      by (rule bind_pair_SomeE [OF run [unfolded Let_def y]])
    have s3: "stays u g g3" using b WS_SendPacket_stays [OF sp] by (rule stays_trans)
    have cl: "stays u g (HttpCore_CloseConnection ops u (g3\<lparr>world := w\<rparr>)) \<or> closed u g (HttpCore_CloseConnection ops u (g3\<lparr>world := w\<rparr>))" for w
      using CloseConnection_closed [of u "g3\<lparr>world := w\<rparr>" ops] s3 world_stays [of u g3 w]
      by (meson stays_trans stays_closed)
    have "stays u g g2 \<or> r2 = 1 \<and> op = 8 \<and> closed u g g2"
      using k s3 cl by (auto split: if_splits dest!: IH intro: stays_trans)
    then show "case y of (r, g') \<Rightarrow> stays u g g' \<or> r = 1 \<and> op = 8 \<and> closed u g g'" by (simp add: y)
  qed
  with assms show ?thesis by auto
qed

lemma DataSend_closes:
  "WSCore_DataSend ops u b op g = Some (r, g') \<Longrightarrow> stays u g g' \<or> r = 1 \<and> op = 8 \<and> closed u g g'"
  by (auto simp: WSCore_DataSend_def split: Option.bind_splits dest!: send_frames_closes)

lemma WSStatusString_stays [stays_dest]: "WSStatusString st b g = Some (b', g') \<Longrightarrow> stays u g g'"
  by (auto simp: WSStatusString_def Let_def stays_def stays_simps split: Option.bind_splits prod.splits)

lemma start_message_stays [stays_dest]: "start_message msk len b g = (n, g') \<Longrightarrow> stays u g g'"
  unfolding start_message_def Let_def
  by (auto simp: stays_def stays_simps split: prod.splits if_splits dest!: malloc_stays [where u = u])

lemma deliver_payload_stays [stays_dest]:
  "deliver_payload ops u g = Some (r, g') \<Longrightarrow> r = 1 \<and> stays u g g'"
  unfolding deliver_payload_def Let_def
  by (auto simp: stays_def stays_simps split: Option.bind_splits prod.splits if_splits dest!: DataSend_closes)

lemma ws_upd_stays: "stays u g (ws_upd f g)" "stays u g (g\<lparr>hmem := m\<rparr>)"
  by (simp_all add: stays_def stays_simps)

lemma DataRecv_stays:
  assumes "WSCore_DataRecv ops u b g = Some (r, g')"
  shows "r = 1 \<and> stays_or_closed u g g'"
proof (cases "RecvMore (ws g)")
  case True
  let ?n = "unat (uLength b)"
  let ?m = "case ptr_add (GlobRecvBuf (ws g)) (nat (GlobRecvLen (ws g))) of
      Null \<Rightarrow> hmem g | Ptr c i \<Rightarrow> memcpy_from (hmem g) c i (pData b) ?n"
  let ?g1 = "ws_upd (\<lambda>s. s\<lparr>GlobRecvLen := GlobRecvLen s + int ?n\<rparr>) (g\<lparr>hmem := ?m\<rparr>)"
  have g1: "stays u g ?g1" by (rule stays_trans [OF ws_upd_stays(2) ws_upd_stays(1)])
  have run: "(if GlobRecvLen (ws ?g1) < GlobPayloadLen (ws ?g1) then Some (1, ?g1) else deliver_payload ops u ?g1) = Some (r, g')"
    using assms True by (simp add: WSCore_DataRecv_def Let_def)
  show ?thesis
    using run g1 by (auto split: if_splits dest!: deliver_payload_stays intro: stays_trans stays_or_closedI)
next
  case False
  let ?b1 = "blob_skip b 1"
  let ?op = "ptr_byte (hmem g) (pData b) AND 0x0F"
  show ?thesis
  proof (cases "?op = WS_CLOSE")
    case True
    let ?g0 = "ws_upd (\<lambda>s. s\<lparr>Close := True\<rparr>) g"
    obtain st g1 r1 where st: "WSStatusString 1000 ?b1 ?g0 = Some (st, g1)"
      and ds: "WSCore_DataSend ops u st ?op g1 = Some (r1, g')" and "r = 1"
      using assms False True by (auto simp: WSCore_DataRecv_def Let_def split: Option.bind_splits)
    have "stays u g g1" using ws_upd_stays(1) WSStatusString_stays [OF st] by (rule stays_trans)
    then show ?thesis
      using DataSend_closes [OF ds] \<open>r = 1\<close> by (auto intro: stays_then simp: stays_or_closed_def dest: stays_trans stays_closed)
  next
    case no_close: False
    let ?g1 = "if ?op = WS_PING then ws_upd (\<lambda>s. s\<lparr>Ping := True\<rparr>) g else g"
    let ?byte = "ptr_byte (hmem ?g1) (pData ?b1)"
    obtain len b4 where pl: "parse_len (hmem ?g1) (blob_skip ?b1 1) ?byte = (len, b4)" by (rule prod.exhaust)
    obtain n g5 where sm: "start_message (?byte AND 0x80) len b4 ?g1 = (n, g5)" by (rule prod.exhaust)
    have s5: "stays u g g5"
      using start_message_stays [OF sm, of u] ws_upd_stays(1) [of u g] by (auto intro: stays_trans split: if_splits)
    have "(if sint len > int n then Some (1, ws_upd (\<lambda>s. s\<lparr>GlobRecvLen := int n, RecvMore := True\<rparr>) g5)
        else deliver_payload ops u g5) = Some (r, g')"
      using assms False no_close pl sm unfolding WSCore_DataRecv_def Let_def by simp
    moreover have "stays u g (ws_upd f g5)" for f using s5 ws_upd_stays(1) by (rule stays_trans)
    ultimately show ?thesis
      using s5 by (auto split: if_splits dest!: deliver_payload_stays intro: stays_trans stays_or_closedI)
  qed
qed

end
