(* ===== verification/Http_Core.thy ===== *)
theory Http_Core
  imports Http_Frame
begin

text \<open>
  The main state machine of the HTTP server, \<open>netapps/http/server/HttpCore.c\<close>:
  \<open>HttpCore_HandleRequestPacket\<close>, which drives a connection through its states while data is
  left, and the server loop \<open>RunHttpServer\<close> with \<open>HttpCloseServer\<close> and \<open>HttpServerInitAndRun\<close>.
  \<open>packet_step\<close> is one round of the loop in \<open>HttpCore_HandleRequestPacket\<close>, \<open>server_iteration\<close> one
  round of \<open>RunHttpServer\<close>.  \<open>None\<close> is a failed \<open>HttpAssert\<close> (an endless loop), a call that does
  not return, or undefined behaviour.
\<close>

section \<open>One connection\<close>

text \<open>A round either leaves the function with its return value or goes on at a new location.\<close>

datatype 'w packet_result = Return int "'w HttpGlobalState" | Continue hblob "'w HttpGlobalState"

definition parsing_state :: "HttpConnectionState \<Rightarrow> bool" where
  "parsing_state st \<longleftrightarrow> st = RequestMethod \<or> st = RequestHeaders \<or> st = DropCurrentHeader \<or>
     st = WebSocketRequest \<or> st = WebSocketResponse \<or> st = WebSocketDataRecv"

definition HttpCore_ProcessNotFound :: "'w sl_ops \<Rightarrow> nat \<Rightarrow> 'w HttpGlobalState \<Rightarrow> 'w HttpGlobalState option" where
  "HttpCore_ProcessNotFound ops u g = do {
     (r, g1) \<leftarrow> HttpResponse_CannedError ops u HTTP_STATUS_ERROR_NOT_FOUND g;
     Some g1
   }"

text \<open>The content modules, as the dispatcher calls them: not found never reports a failure.\<close>

definition process_request :: "'w sl_ops \<Rightarrow> nat \<Rightarrow> 'w HttpGlobalState \<Rightarrow> (int \<times> 'w HttpGlobalState) option" where
  "process_request ops u g =
     (case handler (connections g u) of
        HttpStatic \<Rightarrow> HttpStatic_ProcessRequest ops (request (connections g u)) g
      | HttpDynamic \<Rightarrow> HttpDynamic_ProcessRequest ops (request (connections g u)) g
      | None_handler \<Rightarrow> map_option (Pair 1) (HttpCore_ProcessNotFound ops u g))"

text \<open>The \<open>switch\<close>; \<open>line\<close> is \<open>None\<close> while the variable of the code is not set.\<close>

definition dispatch_state ::
  "'w sl_ops \<Rightarrow> nat \<Rightarrow> hblob option \<Rightarrow> hblob \<Rightarrow> 'w HttpGlobalState \<Rightarrow> 'w packet_result option" where
  "dispatch_state ops u line cur g =
     (case conn_state g u of
        DropCurrentHeader \<Rightarrow> Some (Continue cur (set_conn_state u RequestHeaders g))
      | RequestMethod \<Rightarrow> do {
          l \<leftarrow> line;
          HttpAssert (pData l \<noteq> Null \<and> uLength l > 0);
          (r, g1) \<leftarrow> HttpCore_HandleMethodLine ops u l g;
          Some (if r = 0 then Return 0 g1 else Continue cur g1)
        }
      | RequestHeaders \<Rightarrow> do {
          l \<leftarrow> line;
          let (r, g1) = HttpCore_HandleHeaderLine u l g in
          Some (if r = 0 then Return 0 g1 else Continue cur g1)
        }
      | WebSocketRequest \<Rightarrow> do {
          l \<leftarrow> line;
          (r, g1) \<leftarrow> WSCore_HandshakeRequest u l g;
          Some (if r = 0 then Return 0 g1 else Continue cur g1)
        }
      | RequestData \<Rightarrow>
          let (ret, cur1, g1) = HttpCore_HandleRequestData u cur g in
          Some (if ret = 0 then Return 1 g1 else if ret < 0 then Return 0 g1 else Continue cur1 g1)
      | Processing \<Rightarrow> do {
          (r, g1) \<leftarrow> process_request ops u g;
          Some (if r = 0 then Return 0 g1 else Continue cur g1)
        }
      | ResponseComplete \<Rightarrow>
          Some (if req_has g u HTTP_REQUEST_FLAG_CLOSE \<or> \<not> req_has g u HTTP_REQUEST_1_1 then Return 0 g
                else Continue cur (HttpCore_ResetConnection u (set_conn_state u RequestMethod g)))
      | _ \<Rightarrow> None)"

text \<open>The first half of a round in the parsing states: WebSocket data, handshake answer, next line.\<close>

definition packet_step ::
  "'w sl_ops \<Rightarrow> nat \<Rightarrow> hblob \<Rightarrow> hblob \<Rightarrow> 'w HttpGlobalState \<Rightarrow> 'w packet_result option" where
  "packet_step ops u packet cur g =
     (if parsing_state (conn_state g u) then do {
        (r, g1) \<leftarrow> (if conn_state g u = WebSocketDataRecv then WSCore_DataRecv ops u packet g else Some (0, g));
        if r \<noteq> 0 then Some (Return 1 g1)
        else do {
          g2 \<leftarrow> (if conn_state g1 u = WebSocketResponse
                 then map_option snd (WSCore_HandshakeResponse ops u g1) else Some g1);
          if uLength cur < 1 then Some (Return 1 g2)
          else
            let (result, cur1, line, g3) = HttpCore_GetNextLine u cur g2 in
            if result < 0 then Some (Return 0 g3)
            else if result = 0 then Some (Return 1 g3)
            else dispatch_state ops u line cur1 g3
        }
      }
      else dispatch_state ops u None cur g)"

partial_function (option) packet_loop ::
  "'w sl_ops \<Rightarrow> nat \<Rightarrow> hblob \<Rightarrow> hblob \<Rightarrow> 'w HttpGlobalState \<Rightarrow> (int \<times> 'w HttpGlobalState) option" where
  "packet_loop ops u packet cur g = do {
     res \<leftarrow> packet_step ops u packet cur g;
     case res of
       Return r g1 \<Rightarrow> Some (r, g1)
     | Continue cur1 g1 \<Rightarrow> packet_loop ops u packet cur1 g1
   }"

definition HttpCore_HandleRequestPacket ::
  "'w sl_ops \<Rightarrow> nat \<Rightarrow> hblob \<Rightarrow> 'w HttpGlobalState \<Rightarrow> (int \<times> 'w HttpGlobalState) option" where
  "HttpCore_HandleRequestPacket ops u packet g = packet_loop ops u packet packet g"

section \<open>The server loop\<close>

definition HTTP_CORE_SERVER_PORT :: nat where "HTTP_CORE_SERVER_PORT = 80"

definition HttpCloseServer :: "'w sl_ops \<Rightarrow> 'w HttpGlobalState \<Rightarrow> 'w HttpGlobalState" where
  "HttpCloseServer ops g =
     (if listenSocket g < 0 then g
      else let (r, w') = CloseTCPServerSocket ops (listenSocket g) (world g);
               g1 = g\<lparr>world := w'\<rparr>
           in if r \<ge> 0 then g1\<lparr>listenSocket := -1\<rparr> else g1)"

text \<open>The connections the loop receives for.\<close>

definition receiving_state :: "HttpConnectionState \<Rightarrow> bool" where
  "receiving_state st \<longleftrightarrow> st = RequestMethod \<or> st = RequestHeaders \<or> st = RequestData \<or>
     st = DropCurrentHeader \<or> st = WebSocketDataRecv"

definition server_listen :: "'w sl_ops \<Rightarrow> 'w HttpGlobalState \<Rightarrow> 'w HttpGlobalState" where
  "server_listen ops g =
     (if listenSocket g < 0 then
        let (sock, w') = CreateTCPServerSocket ops HTTP_CORE_SERVER_PORT (world g);
            g1 = g\<lparr>world := w'\<rparr>
        in if sock \<ge> 0 then g1\<lparr>listenSocket := sock\<rparr> else g1
      else g)"

text \<open>The search for a free connection; it ends at \<open>HTTP_CORE_MAX_CONNECTIONS\<close> when there is none.\<close>

definition free_connection :: "'w HttpGlobalState \<Rightarrow> nat" where
  "free_connection g =
     (case find (\<lambda>u. conn_state g u = Inactive) [0..<HTTP_CORE_MAX_CONNECTIONS] of
        None \<Rightarrow> HTTP_CORE_MAX_CONNECTIONS | Some u \<Rightarrow> u)"

definition server_accept :: "'w sl_ops \<Rightarrow> 'w HttpGlobalState \<Rightarrow> 'w HttpGlobalState" where
  "server_accept ops g =
     (if unat (uOpenConnections g) < HTTP_CORE_MAX_CONNECTIONS then
        let (sock, w') = CreateTCPClientSocket ops (listenSocket g) (world g);
            g1 = g\<lparr>world := w'\<rparr>
        in if sock \<ge> 0 then
             let u = free_connection g1;
                 g2 = conn_upd u (\<lambda>c. c\<lparr>dataSocket := sock\<rparr>) g1;
                 g3 = g2\<lparr>uOpenConnections := uOpenConnections g2 + 1\<rparr>
             in set_conn_state u RequestMethod g3
           else if sock \<noteq> SL_EAGAIN \<and> sock \<noteq> SL_POOL_IS_EMPTY \<and> sock \<noteq> SL_INEXE \<and> sock \<noteq> SL_ENSOCK
           then HttpCloseServer ops g1
           else g1
      else g)"

definition serve_connection :: "'w sl_ops \<Rightarrow> nat \<Rightarrow> 'w HttpGlobalState \<Rightarrow> 'w HttpGlobalState option" where
  "serve_connection ops u g =
     (if receiving_state (conn_state g u) then
        let m = memset (hmem g) PacketRecv 0 0 HTTP_CORE_MAX_PACKET_SIZE_RECEIVED;
            (iRecvLen, bytes, w') = sl_Recv ops (dataSocket (connections g u))
                                      HTTP_CORE_MAX_PACKET_SIZE_RECEIVED (world g);
            g1 = g\<lparr>hmem := mem_write m PacketRecv 0 bytes, world := w'\<rparr>
        in if iRecvLen > 0 then do {
             let g2 = conn_upd u (\<lambda>c. c\<lparr>timeout := 0\<rparr>) (g1\<lparr>packetRecvSize := iRecvLen\<rparr>);
             (r, g3) \<leftarrow> HttpCore_HandleRequestPacket ops u
                          \<lparr>uLength = of_int (packetRecvSize g2), pData = Ptr PacketRecv 0\<rparr> g2;
             Some (if r = 0 then HttpCore_CloseConnection ops u g3 else g3)
           }
           else if iRecvLen \<noteq> SL_EAGAIN \<and> iRecvLen \<noteq> SL_POOL_IS_EMPTY then
             Some (HttpCore_CloseConnection ops u g1)
           else
             let g2 = conn_upd u (\<lambda>c. c\<lparr>timeout := timeout c + 1\<rparr>) g1
             in Some (if conn_state g2 u \<noteq> WebSocketDataRecv \<and> timeout (connections g2 u) \<ge> 60
                      then HttpCore_CloseConnection ops u g2 else g2)
      else Some g)"

primrec serve_all :: "'w sl_ops \<Rightarrow> nat list \<Rightarrow> 'w HttpGlobalState \<Rightarrow> 'w HttpGlobalState option" where
  "serve_all ops [] g = Some g"
| "serve_all ops (u # us) g = do { g1 \<leftarrow> serve_connection ops u g; serve_all ops us g1 }"

definition server_iteration :: "'w sl_ops \<Rightarrow> 'w HttpGlobalState \<Rightarrow> 'w HttpGlobalState option" where
  "server_iteration ops g =
     (let g1 = server_listen ops g in
      if listenSocket g1 \<ge> 0 then
        let g2 = server_accept ops g1 in
        if uOpenConnections g2 > 0 then serve_all ops [0..<HTTP_CORE_MAX_CONNECTIONS] g2 else Some g2
      else Some g1)"

text \<open>
  \<open>RunHttpServer\<close> never ends; the states it goes through are those \<open>HttpServerInitAndRun\<close> reaches
  in some number of rounds.
\<close>

inductive server_reaches :: "'w sl_ops \<Rightarrow> 'w HttpGlobalState \<Rightarrow> 'w HttpGlobalState \<Rightarrow> bool"
  for ops :: "'w sl_ops" and g :: "'w HttpGlobalState" where
  HttpServerInitAndRun: "server_reaches ops g (HttpCore_InitWebServer g)"
| RunHttpServer: "server_reaches ops g g1 \<Longrightarrow> server_iteration ops g1 = Some g2 \<Longrightarrow> server_reaches ops g g2"

inductive_cases server_reaches_step: "server_reaches ops g g2"

section \<open>The content interface\<close>

text \<open>
  What the dispatcher relies on in every content module: \<open>process\<close> runs for the connection the
  request names and keeps to its frame.
\<close>

locale content_handler =
  fixes process :: "'w sl_ops \<Rightarrow> HttpRequest \<Rightarrow> 'w HttpGlobalState \<Rightarrow> (int \<times> 'w HttpGlobalState) option"
  assumes process_stays:
    "process ops req g = Some (r, g') \<Longrightarrow> unat (req_uConnection req) = u \<Longrightarrow> stays u g g'"
begin

lemma process_active:
  "process ops req g = Some (r, g') \<Longrightarrow> unat (req_uConnection req) = u \<Longrightarrow> active u g \<Longrightarrow> active u g'"
  using process_stays by (auto simp: stays_def)

lemma process_others:
  assumes "process ops req g = Some (r, g')" "unat (req_uConnection req) = u" "v \<noteq> u"
  shows "connections g' v = connections g v \<and> uOpenConnections g' = uOpenConnections g"
  using process_stays [OF assms(1,2)] assms(3)
  by (auto simp: stays_def outside_def fun_eq_iff fun_upd_def split: if_splits)

end

interpretation static: content_handler HttpStatic_ProcessRequest
  by unfold_locales (rule Static_ProcessRequest_stays)

interpretation dynamic: content_handler HttpDynamic_ProcessRequest
  by unfold_locales (rule Dynamic_ProcessRequest_stays)

interpretation not_found: content_handler
  "\<lambda>ops req g. map_option (Pair 1) (HttpCore_ProcessNotFound ops (unat (req_uConnection req)) g)"
  by unfold_locales
    (auto simp: HttpCore_ProcessNotFound_def split: Option.bind_splits dest!: CannedError_stays)

section \<open>The frame of a packet\<close>

definition numbered :: "nat \<Rightarrow> 'w HttpGlobalState \<Rightarrow> bool" where
  "numbered u g \<longleftrightarrow> unat (req_uConnection (request (connections g u))) = u"

lemma stays_numbered: "stays u g g' \<Longrightarrow> numbered u g' = numbered u g"
  by (simp add: stays_def outside_def numbered_def)

lemma process_request_stays:
  assumes "process_request ops u g = Some (r, g')" "numbered u g"
  shows "stays u g g'"
  using assms static.process_stays dynamic.process_stays
    not_found.process_stays [of ops "request (connections g u)" g r g' u]
  by (auto simp: process_request_def numbered_def split: HttpHandler.splits)

fun result_state :: "'w packet_result \<Rightarrow> 'w HttpGlobalState" where
  "result_state (Return r g) = g"
| "result_state (Continue cur g) = g"

lemma set_state_stays: "st \<noteq> Inactive \<Longrightarrow> stays u g (set_conn_state u st g)"
  by (simp add: stays_def stays_simps)

lemma dispatch_state_stays:
  assumes "dispatch_state ops u line cur g = Some res" "numbered u g"
  shows "stays u g (result_state res)"
proof (cases "conn_state g u")
  case Processing
  then show ?thesis
    using assms by (auto simp: dispatch_state_def split: Option.bind_splits if_splits dest!: process_request_stays)
next
  case ResponseComplete
  then show ?thesis
    using assms(1) by (auto simp: dispatch_state_def stays_def stays_simps split: if_splits)
qed (use assms(1) in \<open>auto simp: dispatch_state_def Let_def set_state_stays
      split: Option.bind_splits if_splits prod.splits
      dest!: HandleMethodLine_stays HandleHeaderLine_stays HandshakeRequest_stays HandleRequestData_stays\<close>)

text \<open>A round ends in the frame, or it returns 1 with the connection closed.\<close>

lemma packet_step_stays:
  assumes "packet_step ops u packet cur g = Some res" "numbered u g"
  shows "stays u g (result_state res) \<or> (\<exists>g'. res = Return 1 g' \<and> closed u g g')"
proof (cases "parsing_state (conn_state g u)")
  case False
  then show ?thesis using assms dispatch_state_stays by (auto simp: packet_step_def)
next
  case True
  show ?thesis
  proof (cases "conn_state g u = WebSocketDataRecv")
    case True
    then show ?thesis
      using assms(1) \<open>parsing_state _\<close>
      by (auto simp: packet_step_def stays_or_closed_def split: Option.bind_splits if_splits dest!: DataRecv_stays)
  next
    case no_ws: False
    obtain g2 where h: "(if conn_state g u = WebSocketResponse
        then map_option snd (WSCore_HandshakeResponse ops u g) else Some g) = Some g2"
      and run: "(if uLength cur < 1 then Some (Return 1 g2)
          else
            let (result, cur1, line, g3) = HttpCore_GetNextLine u cur g2 in
            if result < 0 then Some (Return 0 g3)
            else if result = 0 then Some (Return 1 g3)
            else dispatch_state ops u line cur1 g3) = Some res"
      using assms(1) True no_ws by (auto simp: packet_step_def split: Option.bind_splits)
    have s2: "stays u g g2" using h by (auto split: if_splits dest!: HandshakeResponse_stays)
    obtain result cur1 line g3 where nl: "HttpCore_GetNextLine u cur g2 = (result, cur1, line, g3)"
      by (rule prod_cases4)
    have s3: "stays u g g3" using s2 GetNextLine_stays [OF nl] by (rule stays_trans)
    have "numbered u g3" using s3 assms(2) stays_numbered by blast
    then have "stays u g (result_state res)"
      using run s2 s3 dispatch_state_stays [of ops u line cur1 g3 res] unfolding nl
      by (auto split: if_splits intro: stays_trans)
    then show ?thesis ..
  qed
qed

lemma packet_loop_stays:
  assumes "packet_loop ops u packet cur g = Some (r, g')" "numbered u g"
  shows "stays u g g' \<or> r = 1 \<and> closed u g g'"
proof -
  have "case y of (r, g') \<Rightarrow> numbered u g \<longrightarrow> stays u g g' \<or> r = 1 \<and> closed u g g'"
    if "packet_loop ops u packet cur g = Some y" for y
  proof (rule packet_loop.raw_induct
      [where P = "\<lambda>_ u _ _ g y. case y of (r, g') \<Rightarrow> numbered u g \<longrightarrow> stays u g g' \<or> r = 1 \<and> closed u g g'", OF _ that])
    fix f ops u packet cur g y
    assume IH: "\<And>ops u packet cur g y. f ops u packet cur g = Some y \<Longrightarrow>
        case y of (r, g') \<Rightarrow> numbered u g \<longrightarrow> stays u g g' \<or> r = 1 \<and> closed u g g'"
      and run: "do {
         res \<leftarrow> packet_step ops u packet cur g;
         case res of
           Return r g1 \<Rightarrow> Some (r, g1)
         | Continue cur1 g1 \<Rightarrow> f ops u packet cur1 g1 } = Some y"
    obtain r g' where y: "y = (r, g')" by (cases y)
    have IH': "f ops u packet cur g = Some (r, g') \<Longrightarrow> numbered u g \<Longrightarrow> stays u g g' \<or> r = 1 \<and> closed u g g'"
      for ops u packet cur g r g' using IH by fastforce
    obtain res where st: "packet_step ops u packet cur g = Some res"
      and k: "(case res of Return r g1 \<Rightarrow> Some (r, g1) | Continue cur1 g1 \<Rightarrow> f ops u packet cur1 g1) = Some (r, g')"
      using run y by (auto split: Option.bind_splits)
    have "stays u g g' \<or> r = 1 \<and> closed u g g'" if "numbered u g"
    proof (cases res)
      case (Return r1 g1)
      then show ?thesis using packet_step_stays [OF st that] k by auto
    next
      case (Continue cur1 g1)
      then have s: "stays u g g1" using packet_step_stays [OF st that] by auto
      have "f ops u packet cur1 g1 = Some (r, g')" using k Continue by simp
      moreover have "numbered u g1" using s that stays_numbered by blast
      ultimately show ?thesis using IH' s stays_trans stays_closed by blast
    qed
    then show "case y of (r, g') \<Rightarrow> numbered u g \<longrightarrow> stays u g g' \<or> r = 1 \<and> closed u g g'" by (simp add: y)
  qed
  with assms show ?thesis by auto
qed

section \<open>The invariant of the server loop\<close>

definition open_set :: "'w HttpGlobalState \<Rightarrow> nat set" where
  "open_set g = {u. u < HTTP_CORE_MAX_CONNECTIONS \<and> active u g}"

definition server_inv :: "'w HttpGlobalState \<Rightarrow> bool" where
  "server_inv g \<longleftrightarrow> unat (uOpenConnections g) = card (open_set g) \<and>
     (\<forall>u < HTTP_CORE_MAX_CONNECTIONS. numbered u g)"

lemma open_set_finite [simp]: "finite (open_set g)"
  by (rule finite_subset [of _ "{..<HTTP_CORE_MAX_CONNECTIONS}"]) (auto simp: open_set_def)

lemma open_set_bound: "card (open_set g) \<le> HTTP_CORE_MAX_CONNECTIONS"
proof -
  have "card (open_set g) \<le> card {..<HTTP_CORE_MAX_CONNECTIONS}"
    by (rule card_mono) (auto simp: open_set_def)
  then show ?thesis by simp
qed

lemma fun_upd_other: "f(u := x) = h(u := x) \<Longrightarrow> v \<noteq> u \<Longrightarrow> f v = h v"
  by (metis fun_upd_other)

lemma stays_inv:
  assumes "stays u g g'" "active u g" "server_inv g"
  shows "server_inv g'"
proof -
  have o: "connections g' v = connections g v" if "v \<noteq> u" for v
    using assms(1) fun_upd_other [of "connections g'" u undefined "connections g" v] that
    by (simp add: stays_def outside_def)
  have a: "active u g'" using assms(1,2) by (simp add: stays_def)
  have "active v g' = active v g" for v using o a assms(2) by (cases "v = u") (auto simp: active_def conn_state_def)
  moreover have "numbered v g' = numbered v g" for v
    using o stays_numbered [OF assms(1)] by (cases "v = u") (auto simp: numbered_def)
  moreover have "uOpenConnections g' = uOpenConnections g" using assms(1) by (simp add: stays_def outside_def)
  ultimately show ?thesis using assms(3) by (simp add: server_inv_def open_set_def)
qed

lemma closed_inv:
  assumes "closed u g g'" "active u g" "server_inv g" "u < HTTP_CORE_MAX_CONNECTIONS"
  shows "server_inv g'"
proof -
  have o: "connections g' v = connections g v" if "v \<noteq> u" for v
    using assms(1) fun_upd_other [of "connections g'" u undefined "connections g" v] that by (simp add: closed_def)
  have "open_set g' = open_set g - {u}"
  proof (rule set_eqI)
    fix v show "v \<in> open_set g' \<longleftrightarrow> v \<in> open_set g - {u}"
      using o [of v] assms(1) by (cases "v = u") (auto simp: open_set_def closed_def active_def conn_state_def)
  qed
  moreover have u: "u \<in> open_set g" using assms(2,4) by (simp add: open_set_def)
  ultimately have c: "card (open_set g') = card (open_set g) - 1" by simp
  have "card (open_set g) > 0" using u card_gt_0_iff [of "open_set g"] by auto
  then have pos: "0 < unat (uOpenConnections g)" using assms(3) by (simp add: server_inv_def)
  then have "uOpenConnections g > 0" by (simp add: word_less_nat_alt)
  then have "uOpenConnections g' = uOpenConnections g - 1" using assms(1) by (simp add: closed_def)
  moreover have "unat (uOpenConnections g - 1) = unat (uOpenConnections g) - 1"
    using pos by (subst unat_sub_le) (simp_all add: word_le_nat_alt)
  moreover have "numbered v g' = numbered v g" for v
    using o assms(1) by (cases "v = u") (auto simp: numbered_def closed_def)
  ultimately show ?thesis using assms(3) c by (simp add: server_inv_def)
qed

lemma CloseConnection_inv:
  assumes "stays u g0 g" "active u g0" "server_inv g0" "u < HTTP_CORE_MAX_CONNECTIONS"
  shows "server_inv (HttpCore_CloseConnection ops u g)"
  using CloseConnection_closed [of u g ops] assms stays_inv closed_inv stays_trans stays_closed by metis

lemma serve_connection_inv:
  assumes "serve_connection ops u g = Some g'" "server_inv g" "u < HTTP_CORE_MAX_CONNECTIONS"
  shows "server_inv g'"
proof (cases "receiving_state (conn_state g u)")
  case False
  then show ?thesis using assms by (simp add: serve_connection_def)
next
  case True
  then have act: "active u g" by (auto simp: receiving_state_def active_def)
  let ?m = "memset (hmem g) PacketRecv 0 0 HTTP_CORE_MAX_PACKET_SIZE_RECEIVED"
  obtain n bytes w' where rc: "sl_Recv ops (dataSocket (connections g u)) HTTP_CORE_MAX_PACKET_SIZE_RECEIVED (world g) = (n, bytes, w')"
    by (rule prod_cases3)
  let ?g1 = "g\<lparr>hmem := mem_write ?m PacketRecv 0 bytes, world := w'\<rparr>"
  have s1: "stays u g ?g1" by (simp add: stays_def stays_simps)
  show ?thesis
  proof (cases "n > 0")
    case False
    then show ?thesis
      using assms(1) True rc CloseConnection_inv [OF _ act assms(2,3), of _ ops] stays_inv [OF _ act assms(2)] s1
      unfolding serve_connection_def Let_def
      by (auto simp: stays_def stays_simps split: if_splits)
  next
    case False': True
    let ?g2 = "conn_upd u (\<lambda>c. c\<lparr>timeout := 0\<rparr>) (?g1\<lparr>packetRecvSize := n\<rparr>)"
    have s2: "stays u g ?g2" by (simp add: stays_def stays_simps)
    have num: "numbered u ?g2" using assms(2,3) stays_numbered [OF s2] by (simp add: server_inv_def)
    obtain r g3 where p: "HttpCore_HandleRequestPacket ops u \<lparr>uLength = of_int n, pData = Ptr PacketRecv 0\<rparr> ?g2 = Some (r, g3)"
      and g': "g' = (if r = 0 then HttpCore_CloseConnection ops u g3 else g3)"
      using assms(1) True rc False' unfolding serve_connection_def Let_def
      by (auto split: Option.bind_splits)
    have "stays u ?g2 g3 \<or> r = 1 \<and> closed u ?g2 g3"
      using packet_loop_stays [OF p [unfolded HttpCore_HandleRequestPacket_def] num] .
    then have "stays u g g3 \<or> r = 1 \<and> closed u g g3" using s2 stays_trans stays_closed by blast
    then show ?thesis
      using g' stays_inv [OF _ act assms(2)] closed_inv [OF _ act assms(2,3)]
        CloseConnection_inv [OF _ act assms(2,3), of g3 ops] by auto
  qed
qed

lemma serve_all_inv:
  "serve_all ops us g = Some g' \<Longrightarrow> server_inv g \<Longrightarrow> \<forall>u\<in>set us. u < HTTP_CORE_MAX_CONNECTIONS \<Longrightarrow> server_inv g'"
  by (induction us arbitrary: g) (auto split: Option.bind_splits dest: serve_connection_inv)

lemma free_connection_free:
  assumes "server_inv g" "unat (uOpenConnections g) < HTTP_CORE_MAX_CONNECTIONS"
  shows "free_connection g < HTTP_CORE_MAX_CONNECTIONS \<and> \<not> active (free_connection g) g"
proof -
  have "\<exists>u < HTTP_CORE_MAX_CONNECTIONS. \<not> active u g"
  proof (rule ccontr)
    assume "\<not> ?thesis"
    then have "open_set g = {..<HTTP_CORE_MAX_CONNECTIONS}" by (auto simp: open_set_def)
    with assms show False by (simp add: server_inv_def)
  qed
  then obtain u where f: "find (\<lambda>u. conn_state g u = Inactive) [0..<HTTP_CORE_MAX_CONNECTIONS] = Some u"
    by (metis (mono_tags, lifting) active_def atLeastLessThan_upt atLeast0LessThan find_None_iff lessThan_iff option.exhaust)
  then have "free_connection g = u" by (simp only: free_connection_def option.case)
  with f show ?thesis by (auto simp: active_def find_Some_iff)
qed

lemma open_inv:
  assumes "server_inv g" "u < HTTP_CORE_MAX_CONNECTIONS" "\<not> active u g"
    "unat (uOpenConnections g) < HTTP_CORE_MAX_CONNECTIONS"
  shows "server_inv (set_conn_state u RequestMethod
    ((conn_upd u (\<lambda>c. c\<lparr>dataSocket := sock\<rparr>) g)\<lparr>uOpenConnections := uOpenConnections g + 1\<rparr>))" (is "server_inv ?g'")
proof -
  have "open_set ?g' = insert u (open_set g)" "u \<notin> open_set g"
    using assms(2,3) by (auto simp: open_set_def active_def conn_state_def set_conn_state_def conn_upd_def)
  then have "card (open_set ?g') = card (open_set g) + 1" by simp
  moreover have "unat (uOpenConnections g + 1) = unat (uOpenConnections g) + 1"
    using assms(4) by (subst unat_add_small) simp_all
  moreover have "numbered v ?g' = numbered v g" for v
    by (simp add: numbered_def set_conn_state_def conn_upd_def)
  ultimately show ?thesis using assms(1) by (simp add: server_inv_def set_conn_state_def)
qed

lemma same_counts_inv:
  "connections g' = connections g \<Longrightarrow> uOpenConnections g' = uOpenConnections g \<Longrightarrow> server_inv g' = server_inv g"
  by (simp add: server_inv_def open_set_def active_def conn_state_def numbered_def)

lemma server_accept_inv:
  assumes "server_inv g"
  shows "server_inv (server_accept ops g)"
proof -
  obtain sock w' where cr: "CreateTCPClientSocket ops (listenSocket g) (world g) = (sock, w')" by (rule prod.exhaust)
  let ?g1 = "g\<lparr>world := w'\<rparr>"
  have i1: "server_inv ?g1" using assms by (subst same_counts_inv [of _ g]) simp_all
  have i2: "server_inv (HttpCloseServer ops ?g1)"
    using i1 by (auto simp: HttpCloseServer_def Let_def split_def same_counts_inv [of "_\<lparr>world := _, listenSocket := _\<rparr>" g]
        same_counts_inv [of "_\<lparr>world := _\<rparr>" g] assms)
  show ?thesis
    unfolding server_accept_def cr Let_def split_conv
    using i1 i2 assms free_connection_free [OF i1] open_inv [OF i1, of "free_connection ?g1" sock] by auto
qed

lemma server_listen_inv: "server_inv g \<Longrightarrow> server_inv (server_listen ops g)"
  by (auto simp: server_listen_def Let_def split_def server_inv_def open_set_def active_def conn_state_def numbered_def)

lemma server_iteration_inv:
  "server_iteration ops g = Some g' \<Longrightarrow> server_inv g \<Longrightarrow> server_inv g'"
  using server_accept_inv [OF server_listen_inv [of g ops], of ops] server_listen_inv [of g ops]
  by (auto simp: server_iteration_def Let_def split: if_splits dest: serve_all_inv)

lemma init_fold:
  assumes "distinct us"
  shows "\<forall>u\<in>set us. \<not> active u (fold init_connection us g) \<and>
      req_uConnection (request (connections (fold init_connection us g) u)) = of_nat u \<and>
      dataSocket (connections (fold init_connection us g) u) = -1"
    and "u \<notin> set us \<Longrightarrow> connections (fold init_connection us g) u = connections g u"
    and "uOpenConnections (fold init_connection us g) = uOpenConnections g"
  using assms
proof (induction us arbitrary: g u)
  case (Cons v us)
  have i: "\<not> active v (init_connection v g) \<and> req_uConnection (request (connections (init_connection v g) v)) = of_nat v \<and>
      dataSocket (connections (init_connection v g) v) = -1" for g :: "'a HttpGlobalState"
    by (simp add: init_connection_def HttpCore_ResetConnection_def active_def conn_state_def)
  have f: "connections (init_connection v g) w = connections g w" if "w \<noteq> v" for w and g :: "'a HttpGlobalState"
    using that by (simp add: init_connection_def HttpCore_ResetConnection_def)
  have n: "uOpenConnections (init_connection v g) = uOpenConnections g" for g :: "'a HttpGlobalState"
    by (simp add: init_connection_def HttpCore_ResetConnection_def)
  { case 1
    have "connections (fold init_connection us (init_connection v g)) v = connections (init_connection v g) v"
      using 1 Cons.IH(2) by simp
    then show ?case using 1 Cons.IH(1) [where g = "init_connection v g"] i by (auto simp: active_def conn_state_def)
  next
    case 2
    then show ?case using Cons.IH(2) [where g = "init_connection v g"] f by simp
  next
    case 3
    then show ?case using Cons.IH(3) [where g = "init_connection v g"] n by simp
  }
qed simp_all

lemma init_inv: "server_inv (HttpCore_InitWebServer g)"
proof -
  let ?g = "g\<lparr>packetRecvSize := 0, packetSendSize := 0, uOpenConnections := 0, listenSocket := -1\<rparr>"
  have d: "distinct [0..<HTTP_CORE_MAX_CONNECTIONS]" by simp
  have "open_set (HttpCore_InitWebServer g) = {}"
    using init_fold(1) [OF d, of ?g] by (auto simp: open_set_def HttpCore_InitWebServer_def)
  moreover have "uOpenConnections (HttpCore_InitWebServer g) = 0"
    using init_fold(3) [OF d, of ?g] by (simp add: HttpCore_InitWebServer_def)
  moreover have "numbered u (HttpCore_InitWebServer g)" if "u < HTTP_CORE_MAX_CONNECTIONS" for u
    using init_fold(1) [OF d, of ?g] that by (simp add: numbered_def HttpCore_InitWebServer_def unat_of_nat_small)
  ultimately show ?thesis by (simp add: server_inv_def)
qed

lemma reaches_inv: "server_reaches ops g g' \<Longrightarrow> server_inv g'"
  by (induction rule: server_reaches.induct) (auto intro: init_inv server_iteration_inv)

text \<open>
  C18. The server's count of open connections is right, and the connection table is never
  overrun: in every state of the server loop, \<open>uOpenConnections\<close> is the number of connections of
  the table that are not inactive, at most ten, each connection carries its own number, and when
  the counter leaves room for a connection the slot the search finds is inside the table and free.
\<close>

theorem RunHttpServer_counts_connections:
  assumes "server_reaches ops g0 g"
  shows "unat (uOpenConnections g) = card {u. u < HTTP_CORE_MAX_CONNECTIONS \<and> conn_state g u \<noteq> Inactive} \<and>
    unat (uOpenConnections g) \<le> HTTP_CORE_MAX_CONNECTIONS \<and>
    (\<forall>u < HTTP_CORE_MAX_CONNECTIONS. unat (req_uConnection (request (connections g u))) = u) \<and>
    (unat (uOpenConnections g) < HTTP_CORE_MAX_CONNECTIONS \<longrightarrow>
       free_connection g < HTTP_CORE_MAX_CONNECTIONS \<and> conn_state g (free_connection g) = Inactive)"
proof -
  have inv: "server_inv g" using assms by (rule reaches_inv)
  have o: "open_set g = {u. u < HTTP_CORE_MAX_CONNECTIONS \<and> conn_state g u \<noteq> Inactive}"
    by (simp add: open_set_def active_def)
  have "card (open_set g) \<le> HTTP_CORE_MAX_CONNECTIONS" by (rule open_set_bound)
  moreover have "free_connection g < HTTP_CORE_MAX_CONNECTIONS \<and> conn_state g (free_connection g) = Inactive"
    if "unat (uOpenConnections g) < HTTP_CORE_MAX_CONNECTIONS"
    using free_connection_free [OF inv that] by (simp add: active_def)
  ultimately show ?thesis using inv unfolding o server_inv_def numbered_def by auto
qed

text \<open>
  C19. Connections are isolated as far as the code stays inside its arrays: handling a packet of one
  connection, whichever content module answers it, assigns no field of another connection's record, of
  the listening socket or of the connection's number, and the connection stays active unless the call
  returns 1 having closed it.  Every array is a block of its own here, so this says nothing about the
  packets that make the code write past the end of an array and thereby, in the layout of \<open>g_state\<close>,
  into its neighbours: a header without a value (\<open>HttpCore.c:791\<close>, \<open>ToLower\<close> over a wrapped
  length), a delimiter split after 319 saved bytes (\<open>HttpCore.c:415\<close>), a WebSocket key whose field or
  magic string overruns \<open>WS_KEY\<close> (\<open>HttpCore.c:943\<close>, \<open>HttpCore.c:1351\<close>).
\<close>

theorem HttpCore_HandleRequestPacket_isolated:
  assumes "HttpCore_HandleRequestPacket ops u packet g = Some (r, g')"
    "unat (req_uConnection (request (connections g u))) = u" "v \<noteq> u"
  shows "connections g' v = connections g v \<and> listenSocket g' = listenSocket g \<and>
    req_uConnection (request (connections g' u)) = req_uConnection (request (connections g u)) \<and>
    (conn_state g u \<noteq> Inactive \<longrightarrow> conn_state g' u \<noteq> Inactive \<or> r = 1 \<and> dataSocket (connections g' u) = -1)"
proof -
  have "stays u g g' \<or> r = 1 \<and> closed u g g'"
    using packet_loop_stays assms(1,2) by (simp add: HttpCore_HandleRequestPacket_def numbered_def)
  then show ?thesis
    using fun_upd_other [of "connections g'" u undefined "connections g" v] assms(3)
    by (auto simp: stays_def outside_def closed_def active_def)
qed

section \<open>Witnesses\<close>

theorem RunHttpServer_counts_connections_witness:
  "card {u. u < HTTP_CORE_MAX_CONNECTIONS \<and> conn_state (HttpCore_InitWebServer (boot_state ([] :: (int \<times> u8) list))) u \<noteq> Inactive} = 0 \<and>
   free_connection (HttpCore_InitWebServer (boot_state ([] :: (int \<times> u8) list))) < HTTP_CORE_MAX_CONNECTIONS"
proof -
  let ?g = "HttpCore_InitWebServer (boot_state ([] :: (int \<times> u8) list))"
  have "uOpenConnections ?g = 0"
    by (simp add: HttpCore_InitWebServer_def init_fold(3))
  with RunHttpServer_counts_connections [OF server_reaches.HttpServerInitAndRun [of log_ops "boot_state []"]]
  show ?thesis by (simp del: card_0_eq)
qed

theorem HttpCore_HandleRequestPacket_isolated_witness:
  "connections (snd (the (HttpCore_HandleRequestPacket null_ops 0 (line_blob [])
     (set_conn_state 0 ResponseComplete (line_state []))))) 3 = connections (line_state []) 3"
proof -
  let ?g = "set_conn_state 0 ResponseComplete (line_state [])"
  have f: "uFlags (request (connections (line_state []) 0)) = 0" "unat (req_uConnection (request (connections ?g 0))) = 0"
    by (simp_all add: conn_defs line_state_def full_table_def ready_state_simps sample_connection_def)
  have "packet_step null_ops 0 (line_blob []) (line_blob []) ?g = Some (Return 0 ?g)"
    using f(1) by (simp add: packet_step_def parsing_state_def dispatch_state_def conn_defs req_has_def has_flag_def)
  then have e: "HttpCore_HandleRequestPacket null_ops 0 (line_blob []) ?g = Some (0, ?g)"
    by (simp add: HttpCore_HandleRequestPacket_def packet_loop.simps)
  have "connections ?g 3 = connections (line_state []) 3" by (simp add: set_conn_state_def)
  moreover have "connections (snd (the (HttpCore_HandleRequestPacket null_ops 0 (line_blob []) ?g))) 3 = connections ?g 3"
    using HttpCore_HandleRequestPacket_isolated [OF e f(2), of 3] by (simp add: e)
  ultimately show ?thesis by simp
qed

end
