(* ===== verification/Http_Serve.thy ===== *)
theory Http_Serve
  imports Http_Core
begin

text \<open>
  The state machine of \<open>HttpCore_HandleRequestPacket\<close> end to end: a request that arrives whole in
  one packet goes through the method line, the empty line that ends the headers and the request
  data to the content module, and the connection is reset or closed after the answer; and the
  ways in which the machine gets stuck.
\<close>

section \<open>Rounds of the loop\<close>

lemma packet_loop_unfold:
  "packet_loop ops u packet cur g = do {
     res \<leftarrow> packet_step ops u packet cur g;
     case res of
       Return r g1 \<Rightarrow> Some (r, g1)
     | Continue cur1 g1 \<Rightarrow> packet_loop ops u packet cur1 g1 }"
  by (rule packet_loop.simps)

lemma packet_loop_Continue:
  "packet_step ops u packet cur g = Some (Continue cur1 g1) \<Longrightarrow>
   packet_loop ops u packet cur g = packet_loop ops u packet cur1 g1"
  by (simp add: packet_loop_unfold [of ops u packet cur])

lemma packet_loop_Return:
  "packet_step ops u packet cur g = Some (Return r g1) \<Longrightarrow> packet_loop ops u packet cur g = Some (r, g1)"
  by (simp add: packet_loop_unfold [of ops u packet cur])

lemma packet_loop_stuck: "packet_step ops u packet cur g = None \<Longrightarrow> packet_loop ops u packet cur g = None"
  by (simp add: packet_loop_unfold [of ops u packet cur])

text \<open>A line that lies whole in the packet is handed out in place.\<close>

lemma GetNextLine_in_place:
  assumes "pData cur = Ptr b off" "uSavedBufferSize (connections g u) = 0"
    "split_crlf (blob_bytes (hmem g) cur) = Some (l, rest)" "length l < HTTP_CORE_MAX_HEADER_LINE_LENGTH"
  shows "HttpCore_GetNextLine u cur g =
    (1, blob_skip cur (length l + 2), Some \<lparr>uLength = of_nat (length l), pData = Ptr b off\<rparr>, g)"
proof -
  have nxt: "HttpString_nextDelimiter (hmem g) HTTP_HEADER_DELIMITER cur = Ptr b (off + length l)"
    by (simp add: nextDelimiter_split [OF assms(1)] assms(3))
  have d: "ptr_diff16 (Ptr b (off + length l)) (Ptr b off) = of_nat (length l)"
    by (simp add: ptr_diff16_def)
  have n: "unat (of_nat (length l) :: u16) = length l"
    using assms(4) by (intro unat_of_nat_small) simp
  have d2: "length HTTP_HEADER_DELIMITER = 2" by (simp add: HTTP_HEADER_DELIMITER_def)
  show ?thesis using assms(1,2,4) n by (simp add: HttpCore_GetNextLine_def Let_def nxt d d2)
qed

lemma packet_step_line:
  assumes "conn_state g u = st" "st = RequestMethod \<or> st = RequestHeaders"
    "pData cur = Ptr b off" "uSavedBufferSize (connections g u) = 0"
    "split_crlf (blob_bytes (hmem g) cur) = Some (l, rest)" "length l < HTTP_CORE_MAX_HEADER_LINE_LENGTH"
  shows "packet_step ops u packet cur g =
    dispatch_state ops u (Some \<lparr>uLength = of_nat (length l), pData = Ptr b off\<rparr>) (blob_skip cur (length l + 2)) g"
proof -
  have "unat (uLength cur) = length l + 2 + length rest" by (rule blob_cut(1) [OF assms(3,5)])
  then have "\<not> uLength cur < 1" by (auto simp: word_less_nat_alt)
  then show ?thesis
    using assms(1,2) GetNextLine_in_place [OF assms(3-6)] by (auto simp: packet_step_def parsing_state_def)
qed

section \<open>What the method line leaves alone\<close>

definition soft :: "nat \<Rightarrow> 'w HttpGlobalState \<Rightarrow> 'w HttpGlobalState \<Rightarrow> bool" where
  "soft u g g' \<longleftrightarrow> packetSendSize g' = packetSendSize g \<and>
     uContentLeft (connections g' u) = uContentLeft (connections g u) \<and>
     uSavedBufferSize (connections g' u) = uSavedBufferSize (connections g u) \<and>
     (\<forall>b i. b \<noteq> FileName \<longrightarrow> hmem g' b i = hmem g b i \<or> hmem g' b i = lower_byte (hmem g b i))"

lemma soft_refl [simp]: "soft u g g"
  by (simp add: soft_def)

lemma soft_trans: "soft u g g1 \<Longrightarrow> soft u g1 g2 \<Longrightarrow> soft u g g2"
  unfolding soft_def by (metis lower_byte_idem)

lemma next_token_soft: "next_token tok line g = (r, g') \<Longrightarrow> soft u g g'"
  using line_starts_lowered [of tok line g "r = pData line" g'] next_token_simps [of tok line g r g']
  by (auto simp: soft_def lowered_def line_starts_def)

lemma flag_soft [simp]:
  "soft u g (set_req_flag u f h) = soft u g h" "soft u (set_req_flag u f g) h = soft u g h"
  "soft u g (clear_req_flag u f h) = soft u g h" "soft u (clear_req_flag u f g) h = soft u g h"
  "soft u g (req_upd u (\<lambda>r. r\<lparr>requestContent := c r\<rparr>) h) = soft u g h"
  "soft u (req_upd u (\<lambda>r. r\<lparr>requestContent := c r\<rparr>) g) h = soft u g h"
  "soft u g (conn_upd u (\<lambda>c. c\<lparr>handler := ha c, connectionState := st c\<rparr>) h) = soft u g h"
  "soft u g (h\<lparr>g_NumResource := k\<rparr>) = soft u g h"
  by (simp_all add: soft_def conn_defs)

lemma parse_method_soft: "parse_method u line g = (pm, g') \<Longrightarrow> soft u g g'"
  unfolding parse_method_def Let_def
  by (auto split: if_splits prod.splits dest!: next_token_soft [where u = u] intro: soft_trans)

lemma parse_version_soft: "parse_version u line g = (pv, g') \<Longrightarrow> soft u g g'"
  unfolding parse_version_def Let_def
  by (auto split: if_splits prod.splits dest!: next_token_soft [where u = u] intro: soft_trans)

lemma Static_InitRequest_soft: "HttpStatic_InitRequest ops u r g = (s, g') \<Longrightarrow> soft u g g'"
  by (auto simp: HttpStatic_InitRequest_def Let_def soft_def memset_def mem_write_other split: prod.splits)

lemma dynamic_search_soft: "dynamic_search r k g = Some (k', g') \<Longrightarrow> soft u g g'"
proof (induction r k g rule: dynamic_search.induct)
  case (1 r k g)
  show ?case
    using "1.prems"
    by (subst (asm) dynamic_search.simps)
      (auto simp: Let_def split: if_splits option.splits prod.splits dest: next_token_soft [where u = u]
        intro: soft_trans dest!: "1.IH")
qed

lemma select_handler_soft: "select_handler ops u r m g = Some g' \<Longrightarrow> soft u g g'"
  unfolding select_handler_def HttpDynamic_InitRequest_def Let_def
  by (auto split: Option.bind_splits prod.splits if_splits
      dest!: Static_InitRequest_soft [where u = u] dynamic_search_soft [where u = u] intro: soft_trans)

lemma HandleMethodLine_soft:
  assumes "HttpCore_HandleMethodLine ops u line g = Some (r, g')"
  shows "soft u g g'"
  using assms unfolding HttpCore_HandleMethodLine_def Let_def
  by (auto split: prod.splits option.splits Option.bind_splits
      dest!: parse_method_soft parse_version_soft select_handler_soft intro: soft_trans)

lemma soft_crlf:
  assumes "soft u g g'" "pData bl = Ptr b off" "b \<noteq> FileName" "blob_bytes (hmem g) bl = [13, 10]"
  shows "blob_bytes (hmem g') bl = [13, 10]"
proof -
  have l: "unat (uLength bl) = 2"
    using arg_cong [OF assms(4), of length] assms(2) by (simp add: blob_bytes_def)
  have r2: "mem_read m b off 2 = [m b off, m b (off + 1)]" for m :: "http_block mem"
    by (simp add: mem_read_def upt_rec)
  have "hmem g b off = 13" "hmem g b (off + 1) = 10"
    using assms(4) by (simp_all add: blob_bytes_def assms(2) l r2)
  moreover have "lower_byte 13 = 13" "lower_byte 10 = 10" by (simp_all add: lower_byte_def)
  ultimately have "hmem g' b off = 13" "hmem g' b (off + 1) = 10"
    using assms(1,3) unfolding soft_def by metis+
  then show ?thesis by (simp add: blob_bytes_def assms(2) l r2)
qed

section \<open>A whole request\<close>

text \<open>
  After the answer: a complete response leaves the connection reset for the next request, or asks
  to close it; otherwise the loop goes on.
\<close>

definition after_answer ::
  "('w HttpGlobalState \<Rightarrow> (int \<times> 'w HttpGlobalState) option) \<Rightarrow> nat \<Rightarrow> (int \<times> 'w HttpGlobalState) option
     \<Rightarrow> (int \<times> 'w HttpGlobalState) option" where
  "after_answer cont u res = do {
     (r, g) \<leftarrow> res;
     if r = 0 then Some (0, g)
     else if conn_state g u = ResponseComplete then
       if req_has g u HTTP_REQUEST_FLAG_CLOSE \<or> \<not> req_has g u HTTP_REQUEST_1_1 then Some (0, g)
       else Some (1, HttpCore_ResetConnection u (set_conn_state u RequestMethod g))
     else cont g
   }"

lemma blob_skip_end:
  assumes "blob_bytes m bl = xs" "pData bl = Ptr b off"
  shows "uLength (blob_skip bl (length xs)) = 0"
proof -
  have "length xs = unat (uLength bl)" using assms length_blob_bytes by metis
  then show ?thesis by (simp add: blob_skip_def)
qed

lemma packet_step_empty:
  "conn_state g u = RequestMethod \<Longrightarrow> uLength cur = 0 \<Longrightarrow> packet_step ops u packet cur g = Some (Return 1 g)"
  by (simp add: packet_step_def parsing_state_def)

lemma Processing_answer:
  assumes "conn_state g u = Processing" "uLength cur = 0"
  shows "packet_loop ops u packet cur g = after_answer (packet_loop ops u packet cur) u (process_request ops u g)"
proof (cases "process_request ops u g")
  case None
  then have "packet_step ops u packet cur g = None"
    using assms(1) by (simp add: packet_step_def dispatch_state_def parsing_state_def)
  then show ?thesis using None by (simp add: packet_loop_stuck after_answer_def)
next
  case (Some p)
  obtain r g1 where p: "p = (r, g1)" by (rule prod.exhaust)
  have st: "packet_step ops u packet cur g = Some (if r = 0 then Return 0 g1 else Continue cur g1)"
    using Some p assms(1) by (simp add: packet_step_def dispatch_state_def parsing_state_def)
  show ?thesis
  proof (cases "r = 0")
    case True
    then show ?thesis using st Some p by (simp add: packet_loop_Return after_answer_def)
  next
    case False
    then have l: "packet_loop ops u packet cur g = packet_loop ops u packet cur g1"
      using st by (simp add: packet_loop_Continue)
    show ?thesis
    proof (cases "conn_state g1 u = ResponseComplete")
      case False
      then show ?thesis using l Some p \<open>r \<noteq> 0\<close> by (simp add: after_answer_def)
    next
      case True
      let ?g2 = "HttpCore_ResetConnection u (set_conn_state u RequestMethod g1)"
      have s1: "packet_step ops u packet cur g1 =
          Some (if req_has g1 u HTTP_REQUEST_FLAG_CLOSE \<or> \<not> req_has g1 u HTTP_REQUEST_1_1 then Return 0 g1 else Continue cur ?g2)"
        using True by (simp add: packet_step_def dispatch_state_def parsing_state_def)
      have "conn_state ?g2 u = RequestMethod" by (simp add: HttpCore_ResetConnection_def conn_defs)
      then have e: "packet_step ops u packet cur ?g2 = Some (Return 1 ?g2)"
        using assms(2) by (rule packet_step_empty)
      have "packet_loop ops u packet cur ?g2 = Some (1, ?g2)"
        by (rule packet_loop_Return [OF e])
      then show ?thesis
        using s1 l Some p \<open>r \<noteq> 0\<close> True
        by (auto simp: after_answer_def packet_loop_Return packet_loop_Continue)
    qed
  qed
qed

text \<open>
  C1. The state machine runs a whole request straight through: for a request without header lines
  that arrives in one packet on a fresh connection, \<open>HttpCore_HandleRequestPacket\<close> is the method
  line handler, then the content module the request selects, then the reset or the close of the
  connection; a refused method line closes it, and every failure is passed on.
\<close>

theorem HttpCore_HandleRequestPacket_one_packet:
  assumes "conn_state g u = RequestMethod" "uSavedBufferSize (connections g u) = 0"
    "uContentLeft (connections g u) = 0" "pData packet = Ptr b off" "b \<noteq> FileName"
    "split_crlf (blob_bytes (hmem g) packet) = Some (l, [13, 10])" "l \<noteq> []"
    "length l < HTTP_CORE_MAX_HEADER_LINE_LENGTH"
  shows "HttpCore_HandleRequestPacket ops u packet g = do {
     (r, g1) \<leftarrow> HttpCore_HandleMethodLine ops u \<lparr>uLength = of_nat (length l), pData = Ptr b off\<rparr> g;
     if r = 0 then Some (0, g1)
     else after_answer (packet_loop ops u packet (blob_skip (blob_skip packet (length l + 2)) 2)) u
            (process_request ops u (set_conn_state u Processing g1)) }"
proof -
  let ?line = "\<lparr>uLength = of_nat (length l), pData = Ptr b off\<rparr> :: hblob"
  let ?c1 = "blob_skip packet (length l + 2)"
  let ?c2 = "blob_skip ?c1 2"
  have n: "unat (of_nat (length l) :: u16) = length l" using assms(8) by (intro unat_of_nat_small) simp
  have l0: "uLength ?line > 0" using assms(7) n by (simp add: word_less_nat_alt)
  have s1: "packet_step ops u packet packet g = dispatch_state ops u (Some ?line) ?c1 g"
    using assms packet_step_line [OF refl _ assms(4,2,6,8)] by simp
  have c1: "pData ?c1 = Ptr b (off + length l + 2)" by (simp add: blob_skip_def assms(4))
  have d1: "dispatch_state ops u (Some ?line) ?c1 g = do {
      (r, g1) \<leftarrow> HttpCore_HandleMethodLine ops u ?line g;
      Some (if r = 0 then Return 0 g1 else Continue ?c1 g1) }"
    using assms(1) l0 by (simp add: dispatch_state_def HttpAssert_def del: add_2_eq_Suc add_2_eq_Suc')
  show ?thesis
  proof (cases "HttpCore_HandleMethodLine ops u ?line g")
    case None
    then show ?thesis using s1 d1 by (simp add: HttpCore_HandleRequestPacket_def packet_loop_stuck)
  next
    case (Some p)
    obtain r g1 where p: "p = (r, g1)" by (rule prod.exhaust)
    show ?thesis
    proof (cases "r = 0")
      case True
      then show ?thesis using s1 d1 Some p by (simp add: HttpCore_HandleRequestPacket_def packet_loop_Return)
    next
      case False
      have sg: "soft u g g1" using HandleMethodLine_soft Some p by blast
      have st: "conn_state g1 u = RequestHeaders"
        using Some p False unfolding HttpCore_HandleMethodLine_def Let_def
        by (auto simp: conn_state_def split: prod.splits option.splits Option.bind_splits dest!: select_handler_spec)
      have rest: "blob_bytes (hmem g1) ?c1 = [13, 10]"
        using soft_crlf [OF sg c1 assms(5)] blob_cut(3) [OF assms(4,6)] by blast
      have "packet_loop ops u packet packet g = packet_loop ops u packet ?c1 g1"
        using s1 d1 Some p False by (simp add: packet_loop_Continue)
      also have "\<dots> = packet_loop ops u packet ?c2 (set_conn_state u RequestData g1)"
      proof (rule packet_loop_Continue)
        have "split_crlf (blob_bytes (hmem g1) ?c1) = Some ([], [])" using rest by simp
        from packet_step_line [OF refl _ c1 _ this] st sg assms(2)
        have "packet_step ops u packet ?c1 g1 =
            dispatch_state ops u (Some \<lparr>uLength = 0, pData = Ptr b (off + length l + 2)\<rparr>) ?c2 g1"
          by (simp add: soft_def numeral_2_eq_2)
        then show "packet_step ops u packet ?c1 g1 = Some (Continue ?c2 (set_conn_state u RequestData g1))"
          using st by (simp add: dispatch_state_def HttpCore_HandleHeaderLine_def)
      qed
      also have "\<dots> = packet_loop ops u packet ?c2 (set_conn_state u Processing (set_conn_state u RequestData g1))"
        using sg assms(3)
        by (intro packet_loop_Continue)
          (simp add: packet_step_def dispatch_state_def parsing_state_def conn_defs HttpCore_HandleRequestData_def soft_def Let_def)
      also have "set_conn_state u Processing (set_conn_state u RequestData g1) = set_conn_state u Processing g1"
        by (simp add: set_conn_state_def conn_upd_def)
      finally have l: "packet_loop ops u packet packet g = packet_loop ops u packet ?c2 (set_conn_state u Processing g1)" .
      have "uLength ?c2 = 0" using blob_skip_end [OF rest c1] by (simp add: numeral_2_eq_2)
      then show ?thesis
        using l Some p False Processing_answer [of "set_conn_state u Processing g1" u ?c2 ops packet]
        by (simp add: HttpCore_HandleRequestPacket_def conn_defs)
    qed
  qed
qed

section \<open>Where the machine gets stuck\<close>

text \<open>A blank line hangs the server: when a connection that waits for a request receives a packet
  that begins with CR LF (some clients send one after a POST body), the assertion that the method
  line is not empty fails, and the server spins in \<open>HttpAssert\<close> for ever, for all its connections.
\<close>

theorem HttpCore_HandleRequestPacket_blank_line_hangs:
  assumes "conn_state g u = RequestMethod" "uSavedBufferSize (connections g u) = 0"
    "pData packet = Ptr b off" "blob_bytes (hmem g) packet = 13 # 10 # rest"
  shows "HttpCore_HandleRequestPacket ops u packet g = None"
proof -
  have s: "split_crlf (blob_bytes (hmem g) packet) = Some ([], rest)" by (simp add: assms(4))
  have "packet_step ops u packet packet g = None"
    using packet_step_line [OF refl _ assms(3,2) s] assms(1) by (simp add: dispatch_state_def HttpAssert_def)
  then show ?thesis by (simp add: HttpCore_HandleRequestPacket_def packet_loop_stuck)
qed

text \<open>A connection lost during a 404 answer hangs the server: \<open>HttpCore_ProcessNotFound\<close> ignores
  that sending the canned answer has failed, so the connection is not closed; the next round of the
  loop meets a send buffer that is not empty, or a response without its content, and the assertion
  there never returns.
\<close>

theorem HttpCore_ProcessNotFound_failure_hangs:
  assumes "conn_state g u = Processing" "handler (connections g u) = None_handler" "packetSendSize g = 0"
    "HttpResponse_CannedError ops u HTTP_STATUS_ERROR_NOT_FOUND g = Some (0, g1)"
  shows "packet_loop ops u packet cur g = None"
proof -
  let ?reason = "str ''not found''"
  have reason: "HttpStatusString HTTP_STATUS_ERROR_NOT_FOUND = Some ?reason" by (simp add: HttpStatusString_def)
  note cf = canned_facts [OF reason]
  let ?t = "response_text (req_has g u HTTP_REQUEST_1_1) HTTP_STATUS_ERROR_NOT_FOUND ?reason [] (of_nat (length ?reason)) False []"
  have t: "?t = response_text (req_has g u HTTP_REQUEST_1_1) HTTP_STATUS_ERROR_NOT_FOUND ?reason (blob_bytes (hmem g) nullBlob)
      (of_nat (length ?reason)) (has_flag 0 HTTP_RESPONSE_FLAG_COMPRESSED) (blob_bytes (hmem g) nullBlob)"
    by (simp add: nullBlob_facts has_flag_def)
  obtain r1 h where hd: "HttpResponse_Headers ops u HTTP_STATUS_ERROR_NOT_FOUND 0 (of_nat (length ?reason)) nullBlob nullBlob g = Some (r1, h)"
    and k: "(if r1 = 0 then Some (0, h) else do {
          (r2, g2) \<leftarrow> HttpResponse_Content ops u (lit_blob ?reason) h;
          Some (if r2 = 0 then 0 else 1, g2) }) = Some (0 :: int, g1)"
    by (rule bind_pair_SomeE [OF assms(4) [unfolded CannedError_step [OF reason]]]) (rule that, assumption+)
  have r1: "r1 = 0 \<or> r1 = 1"
    using hd unfolding HttpResponse_Headers_def Let_def by (auto split: Option.bind_splits if_splits)
  let ?gu = "conn_upd u (\<lambda>c. c\<lparr>uContentLeft := of_nat (length ?reason)\<rparr>) g"
  let ?buf = "\<lparr>uLength = of_nat (length ?t), pData = Ptr PacketSend 0\<rparr>"
  have len: "length ?t < 65536" by (rule order_le_less_trans [OF cf(4)]) simp
  have ut: "unat (of_nat (length ?t) :: u16) = length ?t" using len by (intro unat_of_nat_small) simp
  have tn: "?t \<noteq> []" by (simp add: response_text_def status_line_def HTTP_HEADER_DELIMITER_def)
  note hb = Headers_builds [OF assms(3,1) reason nullBlob_facts(2) nullBlob_facts(2) t len, of ops]
  obtain r0 h0 where sp: "HttpCore_SendPacket ops u ?buf (add_bytes ?t ?gu) = Some (r0, h0)"
    and h0: "(if r0 = 0 then Some (0, h0)
      else Some (1, set_conn_state u (if (of_nat (length ?reason) :: u32) > 0 then ResponseData else ResponseComplete)
                      (h0\<lparr>packetSendSize := 0\<rparr>))) = Some (r1, h)"
    by (rule bind_pair_SomeE [OF hd [unfolded hb]])
  have sd: "sendable ?buf PacketSend 0" using cf(4) ut by (simp add: sendable_def)
  have sr: "same_rest (add_bytes ?t ?gu) h0" using SendPacket_result [OF sd sp] by blast
  have stuck: "conn_state g1 u = ResponseData \<or>
      conn_state g1 u = Processing \<and> handler (connections g1 u) = None_handler \<and> packetSendSize g1 \<noteq> 0"
  proof (cases "r0 = 0")
    case True
    then have "g1 = h0" using h0 k by auto
    moreover have "packetSendSize h0 = of_nat (length ?t)"
      using sr assms(3) by (simp add: same_rest_def add_bytes_size)
    moreover have "(of_nat (length ?t) :: u16) \<noteq> 0" using ut tn by (metis length_0_conv unat_0)
    ultimately show ?thesis using sr assms(1,2) by (simp add: same_rest_def conn_state_def)
  next
    case False
    then have h: "r1 = 1" "conn_state h u = ResponseData" using h0 cf(3) by (auto simp: conn_defs)
    then obtain g2 where c: "HttpResponse_Content ops u (lit_blob ?reason) h = Some (0, g2)" "g1 = g2"
      using k by (auto split: Option.bind_splits if_splits)
    then obtain r3 where "HttpCore_SendPacket ops u (lit_blob ?reason) h = Some (r3, g2)"
      unfolding HttpResponse_Content_def Let_def by (auto split: Option.bind_splits if_splits)
    then have "same_rest h g2" using SendPacket_result [OF sendable_lit] by blast
    then show ?thesis using c(2) h(2) by (simp add: same_rest_def conn_state_def)
  qed
  then have s2: "packet_step ops u packet cur g1 = None"
    by (auto simp: packet_step_def dispatch_state_def parsing_state_def process_request_def
        HttpCore_ProcessNotFound_def HttpResponse_CannedError_def HttpResponse_Headers_def HttpAssert_def
        reason Let_def)
  have "packet_step ops u packet cur g = Some (Continue cur g1)"
    using assms(1,2,4)
    by (simp add: packet_step_def dispatch_state_def parsing_state_def process_request_def HttpCore_ProcessNotFound_def)
  then show ?thesis using s2 by (simp add: packet_loop_Continue packet_loop_stuck)
qed

section \<open>Witnesses\<close>

definition waiting_state :: "u8 list \<Rightarrow> (int \<times> u8) list HttpGlobalState" where
  "waiting_state bs = set_conn_state 0 RequestMethod (line_state bs)"

lemma waiting_facts:
  "conn_state (waiting_state bs) 0 = RequestMethod" "hmem (waiting_state bs) = hmem (line_state bs)"
  "uSavedBufferSize (connections (waiting_state bs) 0) = 0"
  "uContentLeft (connections (waiting_state bs) 0) = 0"
  by (simp_all add: waiting_state_def conn_defs line_state_def full_table_def ready_state_simps sample_connection_def)

theorem HttpCore_HandleRequestPacket_one_packet_witness:
  "fst (the (HttpCore_HandleRequestPacket null_ops 0 (line_blob (str ''PUT / HTTP/1.1'' @ [13, 10, 13, 10]))
     (waiting_state (str ''PUT / HTTP/1.1'' @ [13, 10, 13, 10])))) = 0"
proof -
  let ?l = "str ''PUT / HTTP/1.1''"
  let ?p = "?l @ [13, 10, 13, 10]"
  let ?g = "waiting_state ?p"
  have l: "length ?l = 14" "length ?p = 18" by (simp_all add: str_def)
  have pd: "pData (line_blob bs) = Ptr PacketRecv 0" for bs by (simp add: line_blob_def)
  have b: "blob_bytes (hmem ?g) (line_blob ?p) = ?p" by (simp only: waiting_facts, rule line_bytes) (simp add: l)
  have sp: "split_crlf (blob_bytes (hmem ?g) (line_blob ?p)) = Some (?l, [13, 10])"
    unfolding b by (simp add: str_def)
  have "blob_bytes (hmem ?g) (line_blob ?l) = ?l"
    by (simp add: blob_bytes_def waiting_facts line_blob_def line_state_def mem_read_def mem_of_def upt_rec str_def)
  then have low: "low (line_blob ?l) ?g = str ''put / http/1.1''"
    by (simp add: low_def) (simp add: str_def lower_byte_def)
  have no: "\<not> starts HTTP_METHOD_GET (low (line_blob ?l) ?g)"
    "\<not> starts HTTP_METHOD_POST (low (line_blob ?l) ?g)"
    unfolding low by (simp_all add: starts_def http_strings str_def)
  obtain pm g1 where m: "parse_method 0 (line_blob ?l) ?g = (pm, g1)" by (rule prod.exhaust)
  have "pm = None" using parse_method_spec [OF pd m] no by simp
  then have e: "HttpCore_HandleMethodLine null_ops 0 \<lparr>uLength = of_nat (length ?l), pData = Ptr PacketRecv 0\<rparr> ?g = Some (0, g1)"
    using m by (simp add: HttpCore_HandleMethodLine_def line_blob_def)
  have nl: "?l \<noteq> []" by (simp add: str_def)
  have ll: "length ?l < HTTP_CORE_MAX_HEADER_LINE_LENGTH" by (simp add: l)
  from HttpCore_HandleRequestPacket_one_packet [OF waiting_facts(1,3,4) pd _ sp nl ll, of null_ops]
  have "HttpCore_HandleRequestPacket null_ops 0 (line_blob ?p) ?g = Some (0, g1)"
    unfolding e by simp
  then show ?thesis by simp
qed

theorem HttpCore_HandleRequestPacket_blank_line_hangs_witness:
  "HttpCore_HandleRequestPacket null_ops 0 (line_blob [13, 10]) (waiting_state [13, 10]) = None"
proof -
  have "blob_bytes (hmem (waiting_state [13, 10])) (line_blob [13, 10]) = [13, 10]"
    by (simp only: waiting_facts, rule line_bytes) simp
  then show ?thesis
    by (rule HttpCore_HandleRequestPacket_blank_line_hangs [OF waiting_facts(1,3), of "line_blob [13, 10]" PacketRecv 0, rotated])
      (simp add: line_blob_def)
qed

text \<open>A host API on which every \<open>send\<close> fails.\<close>

definition broken_ops :: "(int \<times> u8) list sl_ops" where
  "broken_ops = null_ops\<lparr>sl_Send := (\<lambda>sd buf w. (-57, w))\<rparr>"

lemma broken_send: "ClientSocketSend broken_ops sd bs w = Some (-1, w)"
  by (subst ClientSocketSend.simps) (simp add: broken_ops_def SL_EAGAIN_def null_ops_def)

lemma broken_packet:
  assumes "uLength buffer \<noteq> 0" "unat (uLength buffer) \<le> HTTP_CORE_MAX_PACKET_SIZE_SEND"
  shows "\<exists>g'. HttpCore_SendPacket broken_ops u buffer g = Some (0, g')"
proof -
  have "\<exists>g'. send_chunk broken_ops u buffer (chunk_len buffer) g = Some (-1, g')"
    by (simp add: send_chunk_def Let_def broken_send)
  then show ?thesis using SendPacket_step [of buffer broken_ops u g] assms by auto
qed

theorem HttpCore_ProcessNotFound_failure_hangs_witness:
  "packet_loop broken_ops 0 (line_blob []) (line_blob []) ready_state = None"
proof -
  have pre: "packetSendSize ready_state = 0" "conn_state ready_state 0 = Processing"
    "handler (connections ready_state 0) = None_handler"
    by (simp_all add: ready_state_simps sample_connection_def conn_state_def)
  have reason: "HttpStatusString HTTP_STATUS_ERROR_NOT_FOUND = Some (str ''not found'')" by (simp add: HttpStatusString_def)
  let ?t = "response_text (req_has ready_state 0 HTTP_REQUEST_1_1) HTTP_STATUS_ERROR_NOT_FOUND (str ''not found'')
    [] (of_nat (length (str ''not found''))) False []"
  have t: "?t = response_text (req_has ready_state 0 HTTP_REQUEST_1_1) HTTP_STATUS_ERROR_NOT_FOUND (str ''not found'')
      (blob_bytes (hmem ready_state) nullBlob) (of_nat (length (str ''not found'')))
      (has_flag 0 HTTP_RESPONSE_FLAG_COMPRESSED) (blob_bytes (hmem ready_state) nullBlob)"
    by (simp add: nullBlob_facts has_flag_def)
  have len: "length ?t \<le> HTTP_CORE_MAX_PACKET_SIZE_SEND" by (rule canned_facts(4) [OF reason])
  have len16: "length ?t < 65536" by (rule order_le_less_trans [OF len]) simp
  have ut: "unat (of_nat (length ?t) :: u16) = length ?t" using len16 by (intro unat_of_nat_small) simp
  have tn: "?t \<noteq> []" by (simp add: response_text_def status_line_def HTTP_HEADER_DELIMITER_def)
  have "(of_nat (length ?t) :: u16) \<noteq> 0" using ut tn by (metis length_0_conv unat_0)
  then obtain g1 where s: "HttpCore_SendPacket broken_ops 0 \<lparr>uLength = of_nat (length ?t), pData = Ptr PacketSend 0\<rparr>
      (add_bytes ?t (conn_upd 0 (\<lambda>c. c\<lparr>uContentLeft := of_nat (length (str ''not found''))\<rparr>) ready_state)) = Some (0, g1)"
    using broken_packet [of "\<lparr>uLength = of_nat (length ?t), pData = Ptr PacketSend 0\<rparr>"] len ut by fastforce
  have "HttpResponse_CannedError broken_ops 0 HTTP_STATUS_ERROR_NOT_FOUND ready_state = Some (0, g1)"
    unfolding CannedError_step [OF reason] Headers_builds [OF pre(1,2) reason nullBlob_facts(2) nullBlob_facts(2) t len16] s
    by simp
  from HttpCore_ProcessNotFound_failure_hangs [OF pre(2,3,1) this] show ?thesis .
qed

end
