(* ===== verification/Hw_Timer.thy ===== *)
theory Hw_Timer
  imports CC_Prelude "HOL-Library.Monad_Syntax"
begin

text \<open>
  The interface between the timer framework and its hardware timers, \<open>middleware/driver/hal/hw_timer.h\<close>,
  and the accessors of \<open>middleware/framework/timer/cc_timer.c\<close> that call through it.  A hardware
  timer is a table of operations on a platform state; an operation the driver does not provide
  is \<open>None\<close>, the NULL pointer of the C table.  The locale \<open>hwt_driver\<close> states what the framework
  relies on in a driver.
\<close>

section \<open>Data\<close>

datatype u64_val = U64 (hi_32: u32) (lo_32: u32)

text \<open>The order of \<open>u64_val\<close> is the one of the numbers it stands for.\<close>

definition u64_num :: "u64_val \<Rightarrow> nat" where
  "u64_num v = unat (hi_32 v) * 2 ^ 32 + unat (lo_32 v)"

lemma u64_num_eq: "u64_num v = u64_num w \<longleftrightarrow> v = w"
proof
  assume e: "u64_num v = u64_num w"
  have b: "unat (lo_32 v) < 2 ^ 32" "unat (lo_32 w) < 2 ^ 32" by simp_all
  have "unat (hi_32 v) = unat (hi_32 w)"
    using arg_cong [OF e, of "\<lambda>n. n div 2 ^ 32"] b by (simp add: u64_num_def)
  moreover have "unat (lo_32 v) = unat (lo_32 w)"
    using arg_cong [OF e, of "\<lambda>n. n mod 2 ^ 32"] b by (simp add: u64_num_def)
  ultimately show "v = w" by (cases v; cases w) (simp add: word_unat_eq_iff)
qed simp

lemma u64_num_bound: "u64_num v < 2 ^ 64"
proof -
  have "unat (hi_32 v) < 4294967296" "unat (lo_32 v) < 4294967296" by (rule unat32_bound)+
  then have "unat (hi_32 v) * 4294967296 + unat (lo_32 v) < 4294967296 * 4294967296" by linarith
  then show ?thesis by (simp add: u64_num_def)
qed

instantiation u64_val :: linorder
begin

definition less_eq_u64_val :: "u64_val \<Rightarrow> u64_val \<Rightarrow> bool" where
  "v \<le> w \<longleftrightarrow> u64_num v \<le> u64_num w"

definition less_u64_val :: "u64_val \<Rightarrow> u64_val \<Rightarrow> bool" where
  "v < w \<longleftrightarrow> u64_num v < u64_num w"

instance
  by standard (auto simp: less_eq_u64_val_def less_u64_val_def u64_num_eq)

end

lemma u64_less: "v < w \<longleftrightarrow> hi_32 v < hi_32 w \<or> hi_32 v = hi_32 w \<and> lo_32 v < lo_32 w"
proof -
  have b: "unat (lo_32 v) < 4294967296" "unat (lo_32 w) < 4294967296" by (rule unat32_bound)+
  have num: "u64_num x = unat (hi_32 x) * 4294967296 + unat (lo_32 x)" for x by (simp add: u64_num_def)
  show ?thesis
  proof (cases "unat (hi_32 v)" "unat (hi_32 w)" rule: linorder_cases)
    case less
    then have "u64_num v < u64_num w" using b num [of v] num [of w] by linarith
    then show ?thesis using less by (simp add: less_u64_val_def word_less_nat_alt)
  next
    case equal
    then show ?thesis by (auto simp: less_u64_val_def u64_num_def word_less_nat_alt word_unat_eq_iff)
  next
    case greater
    then have "\<not> u64_num v < u64_num w" using b num [of v] num [of w] by linarith
    then show ?thesis using greater by (auto simp: less_u64_val_def word_less_nat_alt)
  qed
qed

record u64_time =
  secs :: u32
  nsec :: u32

datatype cc_hw_timer_mode = HW_TIMER_NOT_USED | HW_TIMER_ONE_SHOT | HW_TIMER_PERIODIC | HW_TIMER_MONOTONE

text \<open>A handle, NULL being \<open>None\<close>.\<close>

type_synonym cc_hndl = "nat option"

text \<open>
  An operation that runs into undefined behaviour returns \<open>None\<close>.  An out parameter is passed in and returned: an operation that fails leaves it as it was.
  \<open>register_cb\<close> installs the service routine of the framework for the source it is given.
\<close>

record 'p hw_timer_ops =
  start32 :: "(cc_hndl \<Rightarrow> u32 \<Rightarrow> cc_hw_timer_mode \<Rightarrow> 'p \<Rightarrow> (int \<times> 'p) option) option"
  start64 :: "(cc_hndl \<Rightarrow> u64_val \<Rightarrow> cc_hw_timer_mode \<Rightarrow> 'p \<Rightarrow> (int \<times> 'p) option) option"
  update_exp32 :: "(cc_hndl \<Rightarrow> u32 \<Rightarrow> 'p \<Rightarrow> (int \<times> 'p) option) option"
  update_exp64 :: "(cc_hndl \<Rightarrow> u64_val \<Rightarrow> 'p \<Rightarrow> (int \<times> 'p) option) option"
  stop :: "(cc_hndl \<Rightarrow> 'p \<Rightarrow> (int \<times> 'p) option) option"
  is_running :: "(cc_hndl \<Rightarrow> 'p \<Rightarrow> bool option) option"
  get_remaining32 :: "(cc_hndl \<Rightarrow> u32 \<Rightarrow> 'p \<Rightarrow> (int \<times> u32 \<times> 'p) option) option"
  get_remaining64 :: "(cc_hndl \<Rightarrow> u64_val \<Rightarrow> 'p \<Rightarrow> (int \<times> u64_val \<times> 'p) option) option"
  get_current32 :: "(cc_hndl \<Rightarrow> u32 \<Rightarrow> 'p \<Rightarrow> (int \<times> u32 \<times> 'p) option) option"
  get_current64 :: "(cc_hndl \<Rightarrow> u64_val \<Rightarrow> 'p \<Rightarrow> (int \<times> u64_val \<times> 'p) option) option"
  get_rollovers :: "(cc_hndl \<Rightarrow> 'p \<Rightarrow> u32 option) option"
  get_frequency :: "(cc_hndl \<Rightarrow> 'p \<Rightarrow> u32 option) option"
  register_cb :: "(cc_hndl \<Rightarrow> nat \<Rightarrow> 'p \<Rightarrow> (int \<times> 'p) option) option"

definition DEF_HWT32_OPS ::
  "(cc_hndl \<Rightarrow> u32 \<Rightarrow> cc_hw_timer_mode \<Rightarrow> 'p \<Rightarrow> (int \<times> 'p) option) \<Rightarrow> (cc_hndl \<Rightarrow> u32 \<Rightarrow> 'p \<Rightarrow> (int \<times> 'p) option) \<Rightarrow>
   (cc_hndl \<Rightarrow> 'p \<Rightarrow> (int \<times> 'p) option) \<Rightarrow> (cc_hndl \<Rightarrow> 'p \<Rightarrow> bool option) \<Rightarrow>
   (cc_hndl \<Rightarrow> u32 \<Rightarrow> 'p \<Rightarrow> (int \<times> u32 \<times> 'p) option) \<Rightarrow> (cc_hndl \<Rightarrow> u32 \<Rightarrow> 'p \<Rightarrow> (int \<times> u32 \<times> 'p) option) \<Rightarrow>
   (cc_hndl \<Rightarrow> 'p \<Rightarrow> u32 option) \<Rightarrow> (cc_hndl \<Rightarrow> 'p \<Rightarrow> u32 option) \<Rightarrow> (cc_hndl \<Rightarrow> nat \<Rightarrow> 'p \<Rightarrow> (int \<times> 'p) option) \<Rightarrow> 'p hw_timer_ops" where
  "DEF_HWT32_OPS st upd sp run rem cur rolls freq reg =
     \<lparr>start32 = Some st, start64 = None, update_exp32 = Some upd, update_exp64 = None, stop = Some sp,
      is_running = Some run, get_remaining32 = Some rem, get_remaining64 = None,
      get_current32 = Some cur, get_current64 = None, get_rollovers = Some rolls,
      get_frequency = Some freq, register_cb = Some reg\<rparr>"

definition DEF_HWT64_OPS ::
  "(cc_hndl \<Rightarrow> u64_val \<Rightarrow> cc_hw_timer_mode \<Rightarrow> 'p \<Rightarrow> (int \<times> 'p) option) \<Rightarrow> (cc_hndl \<Rightarrow> u64_val \<Rightarrow> 'p \<Rightarrow> (int \<times> 'p) option) \<Rightarrow>
   (cc_hndl \<Rightarrow> 'p \<Rightarrow> (int \<times> 'p) option) \<Rightarrow> (cc_hndl \<Rightarrow> 'p \<Rightarrow> bool option) \<Rightarrow>
   (cc_hndl \<Rightarrow> u64_val \<Rightarrow> 'p \<Rightarrow> (int \<times> u64_val \<times> 'p) option) \<Rightarrow> (cc_hndl \<Rightarrow> u64_val \<Rightarrow> 'p \<Rightarrow> (int \<times> u64_val \<times> 'p) option) \<Rightarrow>
   (cc_hndl \<Rightarrow> 'p \<Rightarrow> u32 option) \<Rightarrow> (cc_hndl \<Rightarrow> 'p \<Rightarrow> u32 option) \<Rightarrow> (cc_hndl \<Rightarrow> nat \<Rightarrow> 'p \<Rightarrow> (int \<times> 'p) option) \<Rightarrow> 'p hw_timer_ops" where
  "DEF_HWT64_OPS st upd sp run rem cur rolls freq reg =
     \<lparr>start32 = None, start64 = Some st, update_exp32 = None, update_exp64 = Some upd, stop = Some sp,
      is_running = Some run, get_remaining32 = None, get_remaining64 = Some rem,
      get_current32 = None, get_current64 = Some cur, get_rollovers = Some rolls,
      get_frequency = Some freq, register_cb = Some reg\<rparr>"

definition HW_REALTIME_CLK :: u32 where "HW_REALTIME_CLK = 1"
definition HW_MONOTONE_CTR :: u32 where "HW_MONOTONE_CTR = 0"

section \<open>A hardware timer as the framework sees it\<close>

record 'p hwt_info =
  hwt_ops :: "'p hw_timer_ops option"
  hndl :: cc_hndl
  used_list :: "nat option"
  hw_64bits :: bool
  source :: u32

text \<open>The accessors of \<open>cc_timer.c\<close>; \<open>None\<close> is a call through a NULL pointer.\<close>

definition hwt_start :: "'p hwt_info \<Rightarrow> u64_val \<Rightarrow> 'p \<Rightarrow> (int \<times> 'p) option" where
  "hwt_start hwt expires p = do {
     ops \<leftarrow> hwt_ops hwt;
     if hw_64bits hwt
     then do { f \<leftarrow> start64 ops; f (hndl hwt) expires HW_TIMER_MONOTONE p }
     else do { f \<leftarrow> start32 ops; f (hndl hwt) (lo_32 expires) HW_TIMER_MONOTONE p }
   }"

definition hwt_update :: "'p hwt_info \<Rightarrow> u64_val \<Rightarrow> 'p \<Rightarrow> (int \<times> 'p) option" where
  "hwt_update hwt expires p = do {
     ops \<leftarrow> hwt_ops hwt;
     if hw_64bits hwt
     then do { f \<leftarrow> update_exp64 ops; f (hndl hwt) expires p }
     else do { f \<leftarrow> update_exp32 ops; f (hndl hwt) (lo_32 expires) p }
   }"

definition hwt_stop :: "'p hwt_info \<Rightarrow> 'p \<Rightarrow> (int \<times> 'p) option" where
  "hwt_stop hwt p = do { ops \<leftarrow> hwt_ops hwt; f \<leftarrow> stop ops; f (hndl hwt) p }"

definition hwt_is_running :: "'p hwt_info \<Rightarrow> 'p \<Rightarrow> bool option" where
  "hwt_is_running hwt p = do { ops \<leftarrow> hwt_ops hwt; f \<leftarrow> is_running ops; f (hndl hwt) p }"

definition hwt_get_rollovers :: "'p hwt_info \<Rightarrow> 'p \<Rightarrow> u32 option" where
  "hwt_get_rollovers hwt p = do { ops \<leftarrow> hwt_ops hwt; f \<leftarrow> get_rollovers ops; f (hndl hwt) p }"

definition hwt_get_frequency :: "'p hwt_info \<Rightarrow> 'p \<Rightarrow> u32 option" where
  "hwt_get_frequency hwt p = do { ops \<leftarrow> hwt_ops hwt; f \<leftarrow> get_frequency ops; f (hndl hwt) p }"

text \<open>The 32-bit read fills in the low half only; the rollovers are added in both cases.\<close>

definition hwt_get_current :: "'p hwt_info \<Rightarrow> u64_val \<Rightarrow> 'p \<Rightarrow> (int \<times> u64_val \<times> 'p) option" where
  "hwt_get_current hwt current p = do {
     ops \<leftarrow> hwt_ops hwt;
     (rv, cur, p1) \<leftarrow>
       (if hw_64bits hwt then do { f \<leftarrow> get_current64 ops; f (hndl hwt) current p }
        else do { f \<leftarrow> get_current32 ops;
                  (rv, lo, p1) \<leftarrow> f (hndl hwt) (lo_32 current) p;
                  Some (rv, U64 (hi_32 current) lo, p1) });
     r \<leftarrow> hwt_get_rollovers hwt p1;
     Some (rv, U64 (hi_32 cur + r) (lo_32 cur), p1)
   }"

definition hwt_has_abs_time :: "'p hwt_info \<Rightarrow> bool" where
  "hwt_has_abs_time hwt \<longleftrightarrow> source hwt = HW_REALTIME_CLK"

text \<open>\<open>sched_timer_if_new\<close>, the part that drives the hardware: update a running timer, start an idle one.\<close>

definition hwt_arm :: "'p hwt_info \<Rightarrow> u64_val \<Rightarrow> 'p \<Rightarrow> (int \<times> 'p) option" where
  "hwt_arm hwt expires p = do {
     run \<leftarrow> hwt_is_running hwt p;
     if run then hwt_update hwt expires p else hwt_start hwt expires p
   }"

text \<open>The accessors do not look at the list of waiting timers.\<close>

definition hw_of :: "'p hwt_info \<Rightarrow> 'p hwt_info" where
  "hw_of hwt = hwt\<lparr>used_list := None\<rparr>"

lemma hw_of_cong:
  assumes "hw_of hwt = hw_of hwt'"
  shows "hwt_arm hwt = hwt_arm hwt'" "hwt_stop hwt = hwt_stop hwt'" "hwt_is_running hwt = hwt_is_running hwt'"
    "hwt_get_current hwt = hwt_get_current hwt'" "hwt_get_rollovers hwt = hwt_get_rollovers hwt'"
    "hwt_get_frequency hwt = hwt_get_frequency hwt'" "hwt_has_abs_time hwt = hwt_has_abs_time hwt'"
    "hw_64bits hwt = hw_64bits hwt'"
proof -
  have f: "hwt_ops hwt = hwt_ops hwt'" "hndl hwt = hndl hwt'" "hw_64bits hwt = hw_64bits hwt'" "source hwt = source hwt'"
    using arg_cong [OF assms, of hwt_ops] arg_cong [OF assms, of hndl] arg_cong [OF assms, of hw_64bits]
      arg_cong [OF assms, of source]
    by (simp_all add: hw_of_def)
  show "hwt_arm hwt = hwt_arm hwt'" "hwt_stop hwt = hwt_stop hwt'" "hwt_is_running hwt = hwt_is_running hwt'"
    "hwt_get_current hwt = hwt_get_current hwt'" "hwt_get_rollovers hwt = hwt_get_rollovers hwt'"
    "hwt_get_frequency hwt = hwt_get_frequency hwt'"
    unfolding fun_eq_iff hwt_arm_def hwt_stop_def hwt_is_running_def hwt_get_current_def hwt_get_rollovers_def
      hwt_get_frequency_def hwt_start_def hwt_update_def f
    by blast+
  show "hwt_has_abs_time hwt = hwt_has_abs_time hwt'" "hw_64bits hwt = hw_64bits hwt'"
    by (simp_all add: hwt_has_abs_time_def f)
qed

section \<open>The driver's contract\<close>

text \<open>
  \<open>inv\<close> is the driver's own invariant, \<open>armed\<close> the expiry its hardware is set to, \<open>view\<close> the
  precision of the hardware, and \<open>ahead\<close> says which expiries the hardware accepts.
\<close>

locale hwt_driver =
  fixes hwt :: "'p hwt_info"
    and inv :: "'p \<Rightarrow> bool"
    and armed :: "'p \<Rightarrow> u64_val option"
    and view :: "u64_val \<Rightarrow> u64_val"
    and ahead :: "u64_val \<Rightarrow> 'p \<Rightarrow> bool"
  assumes running_armed: "inv p \<Longrightarrow> hwt_is_running hwt p = Some (armed p \<noteq> None)"
    and start_arms: "inv p \<Longrightarrow> armed p = None \<Longrightarrow> ahead e p \<Longrightarrow>
      \<exists>p'. hwt_start hwt e p = Some (0, p') \<and> inv p' \<and> armed p' = Some (view e)"
    and update_arms: "inv p \<Longrightarrow> armed p \<noteq> None \<Longrightarrow> ahead e p \<Longrightarrow>
      \<exists>p'. hwt_update hwt e p = Some (0, p') \<and> inv p' \<and> armed p' = Some (view e)"
    and stop_disarms: "inv p \<Longrightarrow> \<exists>r p'. hwt_stop hwt p = Some (r, p') \<and> inv p' \<and> armed p' = None"
    and current_keeps: "inv p \<Longrightarrow>
      \<exists>r cur' p'. hwt_get_current hwt cur p = Some (r, cur', p') \<and> inv p' \<and> armed p' = armed p"
    and arm_total: "inv p \<Longrightarrow> \<exists>r p'. hwt_arm hwt e p = Some (r, p') \<and> inv p'"
    and rollovers_defined: "inv p \<Longrightarrow> hwt_get_rollovers hwt p \<noteq> None"
    and frequency_defined: "inv p \<Longrightarrow> hwt_get_frequency hwt p \<noteq> None"
begin

lemma arm:
  assumes "inv p" "ahead e p"
  shows "\<exists>p'. hwt_arm hwt e p = Some (0, p') \<and> inv p' \<and> armed p' = Some (view e)"
  using running_armed [OF assms(1)] start_arms [OF assms(1) _ assms(2)] update_arms [OF assms(1) _ assms(2)]
  by (cases "armed p") (auto simp: hwt_arm_def)

lemma stopped_idle:
  assumes "inv p" "hwt_stop hwt p = Some (r, p')"
  shows "inv p' \<and> hwt_is_running hwt p' = Some False"
  using stop_disarms [OF assms(1)] running_armed assms(2) by auto

end

section \<open>A driver with a clock\<close>

context hwt_driver
begin

text \<open>A driver's invariant can be strengthened with anything its operations keep.\<close>

lemma with_inv:
  assumes "\<And>e p r p'. inv p \<Longrightarrow> Q p \<Longrightarrow> hwt_start hwt e p = Some (r, p') \<Longrightarrow> Q p'"
    "\<And>e p r p'. inv p \<Longrightarrow> Q p \<Longrightarrow> hwt_update hwt e p = Some (r, p') \<Longrightarrow> Q p'"
    "\<And>p r p'. inv p \<Longrightarrow> Q p \<Longrightarrow> hwt_stop hwt p = Some (r, p') \<Longrightarrow> Q p'"
    "\<And>p r cur cur' p'. inv p \<Longrightarrow> Q p \<Longrightarrow> hwt_get_current hwt cur p = Some (r, cur', p') \<Longrightarrow> Q p'"
  shows "hwt_driver hwt (\<lambda>p. inv p \<and> Q p) armed view ahead"
proof
  fix p e and cur :: u64_val
  assume i: "inv p \<and> Q p"
  show "hwt_is_running hwt p = Some (armed p \<noteq> None)" using i running_armed by blast
  show "armed p = None \<Longrightarrow> ahead e p \<Longrightarrow>
      \<exists>p'. hwt_start hwt e p = Some (0, p') \<and> (inv p' \<and> Q p') \<and> armed p' = Some (view e)"
    using i start_arms assms(1) by meson
  show "armed p \<noteq> None \<Longrightarrow> ahead e p \<Longrightarrow>
      \<exists>p'. hwt_update hwt e p = Some (0, p') \<and> (inv p' \<and> Q p') \<and> armed p' = Some (view e)"
    using i update_arms assms(2) by meson
  show "\<exists>r p'. hwt_stop hwt p = Some (r, p') \<and> (inv p' \<and> Q p') \<and> armed p' = None"
    using i stop_disarms assms(3) by meson
  show "\<exists>r cur' p'. hwt_get_current hwt cur p = Some (r, cur', p') \<and> (inv p' \<and> Q p') \<and> armed p' = armed p"
    using i current_keeps assms(4) by meson
  show "\<exists>r p'. hwt_arm hwt e p = Some (r, p') \<and> inv p' \<and> Q p'"
  proof -
    obtain r p' where a: "hwt_arm hwt e p = Some (r, p')" "inv p'" using i arm_total by blast
    have "Q p'"
    proof (cases "armed p = None")
      case True
      then have "hwt_start hwt e p = Some (r, p')" using a(1) i running_armed [of p] by (simp add: hwt_arm_def)
      then show ?thesis using i assms(1) by blast
    next
      case False
      then have "hwt_update hwt e p = Some (r, p')" using a(1) i running_armed [of p] by (simp add: hwt_arm_def)
      then show ?thesis using i assms(2) by blast
    qed
    then show ?thesis using a by blast
  qed
  show "hwt_get_rollovers hwt p \<noteq> None" "hwt_get_frequency hwt p \<noteq> None"
    using i rollovers_defined frequency_defined by auto
qed

end

locale hwt_clock = hwt_driver hwt inv armed view ahead
  for hwt :: "'p hwt_info" and inv :: "'p \<Rightarrow> bool" and armed :: "'p \<Rightarrow> u64_val option"
    and view :: "u64_val \<Rightarrow> u64_val" and ahead :: "u64_val \<Rightarrow> 'p \<Rightarrow> bool" +
  fixes now :: "'p \<Rightarrow> u64_val"
  assumes reads_now: "inv p \<Longrightarrow>
      \<exists>p'. hwt_get_current hwt cur p = Some (0, now p, p') \<and> inv p' \<and> armed p' = armed p \<and> now p' = now p"
    and now_ahead: "inv p \<Longrightarrow> now p < e \<Longrightarrow> ahead e p"

end
