(* ===== verification/Cc_Timer.thy ===== *)
theory Cc_Timer
  imports Hw_Timer
begin

text \<open>
  The software timers of \<open>middleware/framework/timer/cc_timer.c\<close>.  A software timer is an index into
  the array \<open>sw_timers\<close>, a hardware timer an index into \<open>hwt_objs\<close>; the timers that wait for one
  hardware timer are linked through \<open>swt_next\<close>, ordered by expiry, and so are the free ones.  \<open>plat\<close>
  is the state of the hardware drivers.  \<open>None\<close> is a NULL pointer that is followed, or a loop that
  does not end.  Disabling and enabling interrupts around an operation has no effect on the state.
\<close>

section \<open>State\<close>

record sw_timer =
  flags :: u32
  hwt_expires :: u64_val
  sw_interval :: u64_val
  timeout_cb :: "nat option"
  cb_param :: cc_hndl
  hwt_obj :: "nat option"
  swt_next :: "nat option"

record 'p cc_timer_state =
  hwt_objs :: "nat \<Rightarrow> 'p hwt_info"
  sw_timers :: "nat \<Rightarrow> sw_timer"
  free_list :: "nat option"
  plat :: 'p

definition MAX_HWT_PLUG :: nat where "MAX_HWT_PLUG = 2"
definition MAX_SW_TIMER :: nat where "MAX_SW_TIMER = 6"

definition SW_TIMER_PERIODIC :: u32 where "SW_TIMER_PERIODIC = 1"
definition SW_TIMER_HW_SCHED :: u32 where "SW_TIMER_HW_SCHED = 2"
definition SW_TIMER_ALLOCATE :: u32 where "SW_TIMER_ALLOCATE = 4"

definition OPT_TIMER_PERIODIC :: u32 where "OPT_TIMER_PERIODIC = 1"
definition OPT_TIME_ABS_VALUE :: u32 where "OPT_TIME_ABS_VALUE = 2"

lemmas timer_flags = SW_TIMER_PERIODIC_def SW_TIMER_HW_SCHED_def SW_TIMER_ALLOCATE_def
  OPT_TIMER_PERIODIC_def OPT_TIME_ABS_VALUE_def

definition swt_upd :: "nat \<Rightarrow> (sw_timer \<Rightarrow> sw_timer) \<Rightarrow> 'p cc_timer_state \<Rightarrow> 'p cc_timer_state" where
  "swt_upd i f s = s\<lparr>sw_timers := (sw_timers s)(i := f (sw_timers s i))\<rparr>"

definition hwt_set :: "nat \<Rightarrow> ('p hwt_info \<Rightarrow> 'p hwt_info) \<Rightarrow> 'p cc_timer_state \<Rightarrow> 'p cc_timer_state" where
  "hwt_set h f s = s\<lparr>hwt_objs := (hwt_objs s)(h := f (hwt_objs s h))\<rparr>"

definition set_next :: "nat \<Rightarrow> nat option \<Rightarrow> 'p cc_timer_state \<Rightarrow> 'p cc_timer_state" where
  "set_next i n s = swt_upd i (\<lambda>t. t\<lparr>swt_next := n\<rparr>) s"

definition set_used :: "nat \<Rightarrow> nat option \<Rightarrow> 'p cc_timer_state \<Rightarrow> 'p cc_timer_state" where
  "set_used h n s = hwt_set h (\<lambda>t. t\<lparr>used_list := n\<rparr>) s"

definition get_hwt :: "u32 \<Rightarrow> nat option" where
  "get_hwt src = (if src = HW_REALTIME_CLK \<or> src = HW_MONOTONE_CTR then Some (unat src) else None)"

section \<open>Flags\<close>

definition is_periodic :: "sw_timer \<Rightarrow> bool" where
  "is_periodic t = has_flag (flags t) SW_TIMER_PERIODIC"

definition set_periodic :: "nat \<Rightarrow> bool \<Rightarrow> 'p cc_timer_state \<Rightarrow> 'p cc_timer_state" where
  "set_periodic i periodic s =
     swt_upd i (\<lambda>t. t\<lparr>flags := (if periodic then flags t OR SW_TIMER_PERIODIC
                                 else flags t AND NOT SW_TIMER_PERIODIC)\<rparr>) s"

definition is_scheduled :: "sw_timer \<Rightarrow> bool" where
  "is_scheduled t = has_flag (flags t) SW_TIMER_HW_SCHED"

definition set_scheduled :: "nat \<Rightarrow> bool \<Rightarrow> 'p cc_timer_state \<Rightarrow> 'p cc_timer_state" where
  "set_scheduled i sched s =
     swt_upd i (\<lambda>t. t\<lparr>flags := (if sched then flags t OR SW_TIMER_HW_SCHED
                                 else flags t AND NOT SW_TIMER_HW_SCHED)\<rparr>) s"

definition set_alloc_status :: "nat \<Rightarrow> bool \<Rightarrow> 'p cc_timer_state \<Rightarrow> 'p cc_timer_state" where
  "set_alloc_status i alloc s = swt_upd i (\<lambda>t. t\<lparr>flags := (if alloc then SW_TIMER_ALLOCATE else 0)\<rparr>) s"

definition is_alloc_only :: "sw_timer \<Rightarrow> bool" where
  "is_alloc_only t \<longleftrightarrow> flags t = SW_TIMER_ALLOCATE"

definition has_started :: "sw_timer \<Rightarrow> bool" where
  "has_started t \<longleftrightarrow> has_flag (flags t) SW_TIMER_ALLOCATE \<and> flags t \<noteq> SW_TIMER_ALLOCATE"

section \<open>64-bit arithmetic\<close>

definition cmp_u32 :: "u32 \<Rightarrow> u32 \<Rightarrow> int" where
  "cmp_u32 val1 val2 = (if val1 = val2 then 0 else if val1 > val2 then 1 else -1)"

definition cmp_u64 :: "u64_val \<Rightarrow> u64_val \<Rightarrow> int" where
  "cmp_u64 v1 v2 =
     (if hi_32 v1 = hi_32 v2 then cmp_u32 (lo_32 v1) (lo_32 v2)
      else if hi_32 v1 > hi_32 v2 then 1 else -1)"

definition NSEC_VAL_FOR_1SEC :: u32 where "NSEC_VAL_FOR_1SEC = 1000000000"

definition calc_ticks_interval_u32 :: "u64 \<Rightarrow> u64_val \<Rightarrow> int \<times> u64_val" where
  "calc_ticks_interval_u32 addendum sw_iv =
     (let tmp64 = addendum + ucast (lo_32 sw_iv) in
      if 0xFFFFFFFF < tmp64 then (-1, sw_iv) else (0, U64 0 (ucast (tmp64 AND 0xFFFFFFFF))))"

definition calc_ticks_interval_u64 :: "u64 \<Rightarrow> u64_val \<Rightarrow> int \<times> u64_val" where
  "calc_ticks_interval_u64 addendum sw_iv =
     (let tmp64 = addendum + ucast (lo_32 sw_iv)
      in (0, U64 (ucast (drop_bit 32 tmp64 AND 0xFFFFFFFF)) (ucast (tmp64 AND 0xFFFFFFFF))))"

text \<open>\<open>nsec * hwt_freq\<close> is a product of 32-bit values, so it is taken modulo \<open>2 ^ 32\<close>.\<close>

definition calc_ticks_interval :: "bool \<Rightarrow> u32 \<Rightarrow> u64_time \<Rightarrow> u64_val \<Rightarrow> int \<times> u64_val" where
  "calc_ticks_interval is64 hwt_freq time sw_iv =
     (if nsec time > NSEC_VAL_FOR_1SEC - 1 then (-1, sw_iv)
      else
        let tmp64 = ucast (nsec time * hwt_freq) :: u64;
            iv = U64 (hi_32 sw_iv) (ucast (tmp64 div ucast NSEC_VAL_FOR_1SEC));
            addendum = ucast (secs time) * ucast hwt_freq :: u64
        in if is64 then calc_ticks_interval_u64 addendum iv else calc_ticks_interval_u32 addendum iv)"

definition calc_hwt_expiry_nsec_u32 :: "u64_val \<Rightarrow> u64_val \<Rightarrow> u64_val \<Rightarrow> u64_val" where
  "calc_hwt_expiry_nsec_u32 cur iv ex =
     (if lo_32 cur + lo_32 iv \<ge> NSEC_VAL_FOR_1SEC
      then U64 (hi_32 ex + 1) (lo_32 cur + lo_32 iv - NSEC_VAL_FOR_1SEC)
      else U64 (hi_32 ex) (lo_32 cur + lo_32 iv))"

definition calc_hwt_expiry_secs_u64 :: "u64_val \<Rightarrow> u64_val \<Rightarrow> u64_val \<Rightarrow> u64_val" where
  "calc_hwt_expiry_secs_u64 cur iv ex =
     (let e = calc_hwt_expiry_nsec_u32 cur iv ex in U64 (hi_32 e + (hi_32 cur + hi_32 iv)) (lo_32 e))"

definition calc_hwt_expiry_secs :: "bool \<Rightarrow> u64_val \<Rightarrow> u64_val \<Rightarrow> u64_val \<Rightarrow> u64_val" where
  "calc_hwt_expiry_secs is64 cur iv ex =
     (if is64 then calc_hwt_expiry_secs_u64 cur iv ex else calc_hwt_expiry_nsec_u32 cur iv ex)"

definition calc_hwt_expiry_tick_u32 :: "u64_val \<Rightarrow> u64_val \<Rightarrow> u64_val \<Rightarrow> u64_val" where
  "calc_hwt_expiry_tick_u32 cur iv ex =
     (if lo_32 cur > NOT (lo_32 iv) then U64 (hi_32 ex + 1) (lo_32 cur - NOT (lo_32 iv) - 1)
      else U64 (hi_32 ex) (lo_32 cur + lo_32 iv))"

definition calc_hwt_expiry_tick_u64 :: "u64_val \<Rightarrow> u64_val \<Rightarrow> u64_val \<Rightarrow> u64_val" where
  "calc_hwt_expiry_tick_u64 cur iv ex =
     (let e = calc_hwt_expiry_tick_u32 cur iv ex in U64 (hi_32 e + (hi_32 cur + hi_32 iv)) (lo_32 e))"

definition calc_hwt_expiry_tick :: "bool \<Rightarrow> u64_val \<Rightarrow> u64_val \<Rightarrow> u64_val \<Rightarrow> u64_val" where
  "calc_hwt_expiry_tick is64 cur iv ex =
     (if is64 then calc_hwt_expiry_tick_u64 cur iv ex else calc_hwt_expiry_tick_u32 cur iv ex)"

definition calc_hwt_expiry :: "'p hwt_info \<Rightarrow> 'p \<Rightarrow> u64_val \<Rightarrow> u64_val \<Rightarrow> u64_val \<Rightarrow> u64_val option" where
  "calc_hwt_expiry hwt p cur iv ex = do {
     r \<leftarrow> hwt_get_rollovers hwt p;
     let ex1 = U64 r (lo_32 ex) in
     Some (if hwt_has_abs_time hwt then calc_hwt_expiry_secs (hw_64bits hwt) cur iv ex1
           else calc_hwt_expiry_tick (hw_64bits hwt) cur iv ex1)
   }"

section \<open>The list of waiting timers\<close>

partial_function (option) insert_loop ::
  "nat \<Rightarrow> nat \<Rightarrow> nat option \<Rightarrow> nat \<Rightarrow> 'p cc_timer_state \<Rightarrow> 'p cc_timer_state option" where
  "insert_loop elem h prev node s =
     (if cmp_u64 (hwt_expires (sw_timers s elem)) (hwt_expires (sw_timers s node)) < 0 then
        let s1 = set_next elem (Some node) s in
        (case prev of
           None \<Rightarrow> Some (set_scheduled node False (set_used h (Some elem) s1))
         | Some p \<Rightarrow> Some (set_next p (Some elem) s1))
      else
        (case swt_next (sw_timers s node) of
           None \<Rightarrow> Some (set_next node (Some elem) s)
         | Some n \<Rightarrow> insert_loop elem h (Some node) n s))"

definition insert_ordered_expiry :: "nat \<Rightarrow> nat \<Rightarrow> 'p cc_timer_state \<Rightarrow> 'p cc_timer_state option" where
  "insert_ordered_expiry elem h s =
     (case used_list (hwt_objs s h) of
        None \<Rightarrow> Some (set_used h (Some elem) s)
      | Some node \<Rightarrow> insert_loop elem h None node s)"

definition sched_timer_if_new :: "nat \<Rightarrow> 'p cc_timer_state \<Rightarrow> (int \<times> 'p cc_timer_state) option" where
  "sched_timer_if_new head s = do {
     h \<leftarrow> hwt_obj (sw_timers s head);
     if is_scheduled (sw_timers s head) then Some (0, s)
     else do {
       (rv, p) \<leftarrow> hwt_arm (hwt_objs s h) (hwt_expires (sw_timers s head)) (plat s);
       let s1 = s\<lparr>plat := p\<rparr> in
       Some (rv, if rv = 0 then set_scheduled head True s1 else s1)
     }
   }"

text \<open>The absolute expiry of a timer: given, or computed from the current count.\<close>

definition expiry_of :: "nat \<Rightarrow> nat \<Rightarrow> u32 \<Rightarrow> 'p cc_timer_state \<Rightarrow> (int \<times> 'p cc_timer_state) option" where
  "expiry_of swt h options s =
     (let hwt = hwt_objs s h in
      if has_flag options OPT_TIME_ABS_VALUE then
        Some (0, swt_upd swt (\<lambda>t. t\<lparr>hwt_expires := sw_interval t\<rparr>) s)
      else do {
        run \<leftarrow> hwt_is_running hwt (plat s);
        (rv, cur, p) \<leftarrow> (if run \<or> hwt_has_abs_time hwt then hwt_get_current hwt (U64 0 0) (plat s)
                         else Some (0, U64 0 0, plat s));
        let s1 = s\<lparr>plat := p\<rparr> in
        if rv = -1 then Some (-1, s1)
        else do {
          e \<leftarrow> calc_hwt_expiry hwt p cur (sw_interval (sw_timers s1 swt)) (hwt_expires (sw_timers s1 swt));
          Some (0, swt_upd swt (\<lambda>t. t\<lparr>hwt_expires := e\<rparr>) s1)
        }
      })"

definition setup_timer_exec :: "nat \<Rightarrow> u32 \<Rightarrow> 'p cc_timer_state \<Rightarrow> (int \<times> 'p cc_timer_state) option" where
  "setup_timer_exec swt options s = do {
     h \<leftarrow> hwt_obj (sw_timers s swt);
     (rv, s1) \<leftarrow> expiry_of swt h options s;
     if rv = -1 then Some (-1, s1)
     else do {
       s2 \<leftarrow> insert_ordered_expiry swt h s1;
       head \<leftarrow> used_list (hwt_objs s2 h);
       (rv1, s3) \<leftarrow> sched_timer_if_new head s2;
       Some (0, s3)
     }
   }"

definition setup_timer_interval :: "nat \<Rightarrow> u64_time \<Rightarrow> 'p cc_timer_state \<Rightarrow> (int \<times> 'p cc_timer_state) option" where
  "setup_timer_interval swt time s = do {
     h \<leftarrow> hwt_obj (sw_timers s swt);
     let hwt = hwt_objs s h in
     if \<not> hwt_has_abs_time hwt then do {
       freq \<leftarrow> hwt_get_frequency hwt (plat s);
       let (rv, iv) = calc_ticks_interval (hw_64bits hwt) freq time (sw_interval (sw_timers s swt)) in
       Some (rv, swt_upd swt (\<lambda>t. t\<lparr>sw_interval := iv\<rparr>) s)
     }
     else Some (0, swt_upd swt (\<lambda>t. t\<lparr>sw_interval := U64 (secs time) (nsec time)\<rparr>) s)
   }"

definition timer_start :: "nat \<Rightarrow> u64_time \<Rightarrow> u32 \<Rightarrow> 'p cc_timer_state \<Rightarrow> (int \<times> 'p cc_timer_state) option" where
  "timer_start swt time options s =
     (if \<not> is_alloc_only (sw_timers s swt) then Some (-1, s)
      else do {
        (rv, s1) \<leftarrow> setup_timer_interval swt time s;
        if rv = -1 then Some (-1, s1)
        else do {
          (rv2, s2) \<leftarrow> setup_timer_exec swt options s1;
          if rv2 = -1 then Some (-1, s2)
          else Some (0, set_periodic swt (has_flag options OPT_TIMER_PERIODIC) s2)
        }
      })"

definition has_valid_opts :: "'p hwt_info \<Rightarrow> u32 \<Rightarrow> bool" where
  "has_valid_opts hwt options \<longleftrightarrow>
     \<not> (has_flag options OPT_TIMER_PERIODIC \<and> has_flag options OPT_TIME_ABS_VALUE) \<and>
     \<not> (has_flag options OPT_TIME_ABS_VALUE \<and> \<not> hwt_has_abs_time hwt)"

definition cc_timer_start :: "cc_hndl \<Rightarrow> u64_time \<Rightarrow> u32 \<Rightarrow> 'p cc_timer_state \<Rightarrow> (int \<times> 'p cc_timer_state) option" where
  "cc_timer_start h time options s =
     (case h of
        None \<Rightarrow> Some (-1, s)
      | Some swt \<Rightarrow>
          if has_flag options OPT_TIMER_PERIODIC \<and> has_flag options OPT_TIME_ABS_VALUE then Some (-1, s)
          else do {
          w \<leftarrow> hwt_obj (sw_timers s swt);
          if \<not> has_valid_opts (hwt_objs s w) options then Some (-1, s)
          else
            let ref = (if hwt_has_abs_time (hwt_objs s w)
                       then \<lparr>secs = secs time, nsec = (nsec time div 1000000) * 1000000\<rparr>
                       else \<lparr>secs = secs time, nsec = nsec time\<rparr>)
            in timer_start swt ref options s
        })"

partial_function (option) remove_loop ::
  "nat \<Rightarrow> nat \<Rightarrow> nat option \<Rightarrow> nat option \<Rightarrow> 'p cc_timer_state \<Rightarrow> (int \<times> 'p cc_timer_state) option" where
  "remove_loop elem h prev node s =
     (case node of
        None \<Rightarrow> Some (-1, s)
      | Some n \<Rightarrow>
          if elem = n then
            (case prev of
               None \<Rightarrow> Some (0, set_used h (swt_next (sw_timers s n)) s)
             | Some p \<Rightarrow> Some (0, set_next p (swt_next (sw_timers s n)) s))
          else remove_loop elem h (Some n) (swt_next (sw_timers s n)) s)"

definition remove_elem :: "nat \<Rightarrow> nat \<Rightarrow> 'p cc_timer_state \<Rightarrow> (int \<times> 'p cc_timer_state) option" where
  "remove_elem elem h s = remove_loop elem h None (used_list (hwt_objs s h)) s"

definition timer_stop :: "nat \<Rightarrow> 'p cc_timer_state \<Rightarrow> (int \<times> 'p cc_timer_state) option" where
  "timer_stop swt s = do {
     h \<leftarrow> hwt_obj (sw_timers s swt);
     (rv, s1) \<leftarrow> remove_elem swt h s;
     if rv \<noteq> 0 then Some (-1, s1)
     else
       let s2 = set_periodic swt False (set_scheduled swt False s1) in
       (case used_list (hwt_objs s2 h) of
          Some head \<Rightarrow> do { (rv1, s3) \<leftarrow> sched_timer_if_new head s2; Some (0, s3) }
        | None \<Rightarrow> do { (rv1, p) \<leftarrow> hwt_stop (hwt_objs s2 h) (plat s2); Some (0, s2\<lparr>plat := p\<rparr>) })
   }"

definition cc_timer_stop :: "cc_hndl \<Rightarrow> 'p cc_timer_state \<Rightarrow> (int \<times> 'p cc_timer_state) option" where
  "cc_timer_stop h s =
     (case h of
        None \<Rightarrow> Some (-1, s)
      | Some swt \<Rightarrow> if has_started (sw_timers s swt) then timer_stop swt s else Some (-1, s))"

section \<open>Expiry\<close>

text \<open>
  \<open>run_cb\<close> is the call of a user's callback, which may itself use the timer service.  \<open>junk\<close> is what
  the variable for the current time holds before it is read.
\<close>

definition handle_expired_timer ::
  "(nat \<Rightarrow> cc_hndl \<Rightarrow> 'p cc_timer_state \<Rightarrow> 'p cc_timer_state option) \<Rightarrow> nat \<Rightarrow> 'p cc_timer_state \<Rightarrow> 'p cc_timer_state option" where
  "handle_expired_timer run_cb swt s = do {
     let s1 = set_scheduled swt False s;
     s2 \<leftarrow> (case timeout_cb (sw_timers s1 swt) of
             None \<Rightarrow> Some s1 | Some cb \<Rightarrow> run_cb cb (cb_param (sw_timers s1 swt)) s1);
     if is_periodic (sw_timers s2 swt) then map_option snd (setup_timer_exec swt 0 s2) else Some s2
   }"

partial_function (option) process_loop ::
  "(nat \<Rightarrow> cc_hndl \<Rightarrow> 'p cc_timer_state \<Rightarrow> 'p cc_timer_state option) \<Rightarrow> ('p cc_timer_state \<Rightarrow> u64_val) \<Rightarrow>
   nat \<Rightarrow> nat option \<Rightarrow> 'p cc_timer_state \<Rightarrow> 'p cc_timer_state option" where
  "process_loop run_cb junk h head s =
     (case head of
        None \<Rightarrow> do { (rv, p) \<leftarrow> hwt_stop (hwt_objs s h) (plat s); Some (s\<lparr>plat := p\<rparr>) }
      | Some t \<Rightarrow> do {
          w \<leftarrow> hwt_obj (sw_timers s t);
          (rv, cur, p) \<leftarrow> hwt_get_current (hwt_objs s w) (junk s) (plat s);
          let s1 = s\<lparr>plat := p\<rparr> in
          if rv \<noteq> 0 then Some s1
          else if cmp_u64 cur (hwt_expires (sw_timers s1 t)) < 0 then map_option snd (sched_timer_if_new t s1)
          else do {
            (rv2, s2) \<leftarrow> remove_elem t h s1;
            s3 \<leftarrow> handle_expired_timer run_cb t s2;
            process_loop run_cb junk h (used_list (hwt_objs s3 h)) s3
          }
        })"

definition process_timer_expiry ::
  "(nat \<Rightarrow> cc_hndl \<Rightarrow> 'p cc_timer_state \<Rightarrow> 'p cc_timer_state option) \<Rightarrow> ('p cc_timer_state \<Rightarrow> u64_val) \<Rightarrow>
   nat \<Rightarrow> 'p cc_timer_state \<Rightarrow> 'p cc_timer_state option" where
  "process_timer_expiry run_cb junk h s = process_loop run_cb junk h (used_list (hwt_objs s h)) s"

definition timer_isr ::
  "(nat \<Rightarrow> cc_hndl \<Rightarrow> 'p cc_timer_state \<Rightarrow> 'p cc_timer_state option) \<Rightarrow> ('p cc_timer_state \<Rightarrow> u64_val) \<Rightarrow>
   nat option \<Rightarrow> 'p cc_timer_state \<Rightarrow> 'p cc_timer_state option" where
  "timer_isr run_cb junk cb_hwt s =
     (case cb_hwt of None \<Rightarrow> Some s | Some h \<Rightarrow> process_timer_expiry run_cb junk h s)"

section \<open>Creating and deleting timers\<close>

record cc_timer_cfg =
  timer_source :: u32
  timer_timeout_cb :: "nat option"
  timer_cb_param :: cc_hndl

definition cc_timer_create :: "cc_timer_cfg \<Rightarrow> 'p cc_timer_state \<Rightarrow> cc_hndl \<times> 'p cc_timer_state" where
  "cc_timer_create cfg s =
     (case get_hwt (timer_source cfg) of
        None \<Rightarrow> (None, s)
      | Some h \<Rightarrow>
          if hwt_ops (hwt_objs s h) = None then (None, s)
          else
            (case free_list s of
               None \<Rightarrow> (None, s)
             | Some swt \<Rightarrow>
                 let s1 = s\<lparr>free_list := swt_next (sw_timers s swt)\<rparr>;
                     s2 = set_alloc_status swt True (set_next swt None s1)
                 in (Some swt, swt_upd swt (\<lambda>t. t\<lparr>hwt_obj := Some h, timeout_cb := timer_timeout_cb cfg,
                                                  cb_param := timer_cb_param cfg\<rparr>) s2)))"

text \<open>\<open>memset(swt, 0, sizeof(swt))\<close> clears as many bytes as a pointer has: the flags.\<close>

definition cc_timer_delete :: "cc_hndl \<Rightarrow> 'p cc_timer_state \<Rightarrow> int \<times> 'p cc_timer_state" where
  "cc_timer_delete h s =
     (case h of
        None \<Rightarrow> (-1, s)
      | Some swt \<Rightarrow>
          if \<not> is_alloc_only (sw_timers s swt) then (-1, s)
          else
            let s1 = set_alloc_status swt False s;
                s2 = swt_upd swt (\<lambda>t. t\<lparr>flags := 0\<rparr>) s1;
                s3 = swt_upd swt (\<lambda>t. t\<lparr>hwt_obj := None, swt_next := None\<rparr>) s2
            in (0, (set_next swt (free_list s3) s3)\<lparr>free_list := Some swt\<rparr>))"

definition push_free :: "nat \<Rightarrow> 'p cc_timer_state \<Rightarrow> 'p cc_timer_state" where
  "push_free i s = (set_next i (free_list s) s)\<lparr>free_list := Some i\<rparr>"

definition zero_timer :: sw_timer where
  "zero_timer = \<lparr>flags = 0, hwt_expires = U64 0 0, sw_interval = U64 0 0, timeout_cb = None, cb_param = None,
                 hwt_obj = None, swt_next = None\<rparr>"

definition sw_timers_init :: "'p cc_timer_state \<Rightarrow> int \<times> 'p cc_timer_state" where
  "sw_timers_init s = (0, fold push_free [0..<MAX_SW_TIMER] (s\<lparr>sw_timers := (\<lambda>_. zero_timer)\<rparr>))"

definition hw_timers_init :: "'p cc_timer_state \<Rightarrow> int \<times> 'p cc_timer_state" where
  "hw_timers_init s =
     (if unat HW_REALTIME_CLK > MAX_HWT_PLUG - 1 \<or> unat HW_MONOTONE_CTR > MAX_HWT_PLUG - 1 then (-1, s)
      else (0, fold (\<lambda>i. hwt_set i (\<lambda>h. h\<lparr>hwt_ops := None, hndl := None, used_list := None, hw_64bits := False,
                                            source := of_nat i\<rparr>)) [0..<MAX_HWT_PLUG] s))"

definition cc_timer_module_init :: "bool \<Rightarrow> bool \<Rightarrow> 'p cc_timer_state \<Rightarrow> int \<times> 'p cc_timer_state" where
  "cc_timer_module_init has_enbl_irqc has_dsbl_irqc s =
     (if \<not> has_enbl_irqc \<or> \<not> has_dsbl_irqc then (-1, s)
      else
        let (r1, s1) = sw_timers_init s in
        if r1 \<noteq> 0 then (1, s1)
        else let (r2, s2) = hw_timers_init s1 in (if r2 \<noteq> 0 then 1 else 0, s2))"

text \<open>
  The macro \<open>HAS_HWT_OPS\<close> is a conditional expression without parentheses: in \<open>HAS_HWT_OPS(..) ^ op64\<close>
  the exclusive or belongs to its last branch.
\<close>

definition cc_timer_register_hwt_ops ::
  "u32 \<Rightarrow> cc_hndl \<Rightarrow> 'p hw_timer_ops \<Rightarrow> 'p cc_timer_state \<Rightarrow> (int \<times> 'p cc_timer_state) option" where
  "cc_timer_register_hwt_ops src hwt_hndl ops s =
     (case get_hwt src of
        None \<Rightarrow> Some (-1, s)
      | Some h \<Rightarrow>
          if hwt_ops (hwt_objs s h) \<noteq> None \<or> hwt_hndl = None then Some (-1, s)
          else
            let op64 = (start64 ops \<noteq> None \<and> update_exp64 ops \<noteq> None \<and> get_remaining64 ops \<noteq> None \<and>
                        get_current64 ops \<noteq> None);
                op32 = (start32 ops \<noteq> None \<and> update_exp32 ops \<noteq> None \<and> get_remaining32 ops \<noteq> None \<and>
                        get_current32 ops \<noteq> None)
            in if \<not> (if op32 then True else False \<noteq> op64) then Some (-1, s)
               else if \<not> (stop ops \<noteq> None \<and> is_running ops \<noteq> None \<and> get_rollovers ops \<noteq> None \<and>
                          get_frequency ops \<noteq> None) \<or> register_cb ops = None then Some (-1, s)
               else do {
                 f \<leftarrow> register_cb ops;
                 (r, p) \<leftarrow> f hwt_hndl h (plat s);
                 let s1 = s\<lparr>plat := p\<rparr> in
                 if r = -1 then Some (-1, s1)
                 else Some (0, hwt_set h (\<lambda>i. i\<lparr>hwt_ops := Some ops, hndl := hwt_hndl, hw_64bits := op64\<rparr>) s1)
               })"

end
