(* ===== verification/Cc_Timer_List.thy ===== *)
theory Cc_Timer_List
  imports Cc_Timer
begin

text \<open>
  What the timer framework's functions do, stated on lists: \<open>waiting s h xs\<close> says that the chain of
  hardware timer \<open>h\<close> is the list \<open>xs\<close> of timers; \<open>place\<close> is insertion by expiry.  The loops of the
  code refine \<open>place\<close> and \<open>remove1\<close>.  The arithmetic of expiries is compared with arithmetic on
  numbers.
\<close>

section \<open>Comparing and adding times\<close>

lemma cmp_u64_order: "cmp_u64 v w = (if v < w then -1 else if v = w then 0 else 1)"
  by (cases v; cases w) (auto simp: cmp_u64_def cmp_u32_def u64_less)

lemma cmp_u64_less [simp]: "cmp_u64 v w < 0 \<longleftrightarrow> v < w"
  by (simp add: cmp_u64_order)

section \<open>Chains\<close>

fun chain :: "(nat \<Rightarrow> sw_timer) \<Rightarrow> nat option \<Rightarrow> nat list \<Rightarrow> bool" where
  "chain t p [] \<longleftrightarrow> p = None"
| "chain t p (x # xs) \<longleftrightarrow> p = Some x \<and> chain t (swt_next (t x)) xs"

definition waiting :: "'p cc_timer_state \<Rightarrow> nat \<Rightarrow> nat list \<Rightarrow> bool" where
  "waiting s h xs \<longleftrightarrow> chain (sw_timers s) (used_list (hwt_objs s h)) xs"

lemma chain_None [simp]: "chain t None xs \<longleftrightarrow> xs = []"
  by (cases xs) auto

lemma chain_Some: "chain t (Some x) ys \<longleftrightarrow> (\<exists>xs. ys = x # xs \<and> chain t (swt_next (t x)) xs)"
  by (cases ys) auto

lemma chain_unique: "chain t p xs \<Longrightarrow> chain t p ys \<Longrightarrow> xs = ys"
  by (induction xs arbitrary: p ys) (auto simp: chain_Some)

lemma chain_cong: "(\<And>x. x \<in> set xs \<Longrightarrow> swt_next (t x) = swt_next (t' x)) \<Longrightarrow> chain t p xs = chain t' p xs"
  by (induction xs arbitrary: p) auto

lemma chain_split:
  "chain t p (xs @ x # ys) \<Longrightarrow> chain t (Some x) (x # ys)"
  by (induction xs arbitrary: p) auto

lemma chain_distinct: "chain t p xs \<Longrightarrow> distinct xs"
proof (induction xs arbitrary: p)
  case (Cons x xs)
  have "x \<notin> set xs"
  proof
    assume "x \<in> set xs"
    then obtain ys zs where xs: "xs = ys @ x # zs" by (meson split_list)
    with Cons.prems have "chain t (Some x) (x # xs)" "chain t (Some x) (x # zs)" by (auto dest: chain_split)
    then have "x # xs = x # zs" by (rule chain_unique)
    with xs show False by simp
  qed
  with Cons show ?case by auto
qed simp

text \<open>The first part of a chain, made to end where it is cut.\<close>

lemma chain_prefix_last:
  "chain t p (xs @ x # zs) \<Longrightarrow> chain t q ys \<Longrightarrow> set ys \<inter> set (xs @ [x]) = {} \<Longrightarrow>
   chain (t(x := (t x)\<lparr>swt_next := q\<rparr>)) p (xs @ x # ys)"
proof (induction xs arbitrary: p)
  case Nil
  have "chain (t(x := (t x)\<lparr>swt_next := q\<rparr>)) q ys = chain t q ys"
    using Nil by (intro chain_cong) auto
  with Nil show ?case by (simp add: fun_upd_def)
next
  case (Cons z us)
  then have "z \<noteq> x" using chain_distinct [of t p "z # us @ x # zs"] by auto
  with Cons show ?case by auto
qed

section \<open>Insertion\<close>

fun place :: "(nat \<Rightarrow> u64_val) \<Rightarrow> nat \<Rightarrow> nat list \<Rightarrow> nat list" where
  "place k e [] = [e]"
| "place k e (x # xs) = (if k e < k x then e # x # xs else x # place k e xs)"

lemma set_place [simp]: "set (place k e xs) = insert e (set xs)"
  by (induction xs) auto

lemma sorted_place: "sorted (map k xs) \<Longrightarrow> sorted (map k (place k e xs))"
  by (induction xs) (auto simp: not_less)

lemma place_cong: "k' e = k e \<Longrightarrow> (\<And>x. x \<in> set xs \<Longrightarrow> k' x = k x) \<Longrightarrow> place k' e xs = place k e xs"
  by (induction xs) auto

definition expiry :: "'p cc_timer_state \<Rightarrow> nat \<Rightarrow> u64_val" where
  "expiry s x = hwt_expires (sw_timers s x)"

text \<open>
  What relinking the chain of \<open>h\<close> leaves alone: everything but the links and the scheduled flags of
  the timers in \<open>X\<close>, and the head of the chain.
\<close>

definition relinked :: "nat \<Rightarrow> nat set \<Rightarrow> 'p cc_timer_state \<Rightarrow> 'p cc_timer_state \<Rightarrow> bool" where
  "relinked h X s s' \<longleftrightarrow>
     (\<forall>x. (sw_timers s' x)\<lparr>swt_next := None, flags := 0\<rparr> = (sw_timers s x)\<lparr>swt_next := None, flags := 0\<rparr>) \<and>
     (\<forall>x. x \<notin> X \<longrightarrow> sw_timers s' x = sw_timers s x) \<and>
     (\<forall>x. flags (sw_timers s' x) = flags (sw_timers s x) \<or>
          flags (sw_timers s' x) = flags (sw_timers s x) AND NOT SW_TIMER_HW_SCHED) \<and>
     plat s' = plat s \<and> free_list s' = free_list s \<and>
     hwt_objs s' = (hwt_objs s)(h := (hwt_objs s h)\<lparr>used_list := used_list (hwt_objs s' h)\<rparr>)"

lemma relinked_fields:
  assumes "relinked h X s s'"
  shows "hwt_expires (sw_timers s' x) = hwt_expires (sw_timers s x)"
    "sw_interval (sw_timers s' x) = sw_interval (sw_timers s x)"
    "timeout_cb (sw_timers s' x) = timeout_cb (sw_timers s x)"
    "cb_param (sw_timers s' x) = cb_param (sw_timers s x)"
    "hwt_obj (sw_timers s' x) = hwt_obj (sw_timers s x)"
    "plat s' = plat s" "free_list s' = free_list s"
    "k \<noteq> h \<Longrightarrow> hwt_objs s' k = hwt_objs s k"
    "hwt_objs s' h = (hwt_objs s h)\<lparr>used_list := used_list (hwt_objs s' h)\<rparr>"
    "expiry s' = expiry s"
proof -
  have r: "(sw_timers s' x)\<lparr>swt_next := None, flags := 0\<rparr> = (sw_timers s x)\<lparr>swt_next := None, flags := 0\<rparr>" for x
    using assms by (simp add: relinked_def)
  from arg_cong [OF r, of hwt_expires x] show "hwt_expires (sw_timers s' x) = hwt_expires (sw_timers s x)" by simp
  from arg_cong [OF r, of sw_interval x] show "sw_interval (sw_timers s' x) = sw_interval (sw_timers s x)" by simp
  from arg_cong [OF r, of timeout_cb x] show "timeout_cb (sw_timers s' x) = timeout_cb (sw_timers s x)" by simp
  from arg_cong [OF r, of cb_param x] show "cb_param (sw_timers s' x) = cb_param (sw_timers s x)" by simp
  from arg_cong [OF r, of hwt_obj x] show "hwt_obj (sw_timers s' x) = hwt_obj (sw_timers s x)" by simp
  show "plat s' = plat s" "free_list s' = free_list s" using assms by (simp_all add: relinked_def)
  have o: "hwt_objs s' = (hwt_objs s)(h := (hwt_objs s h)\<lparr>used_list := used_list (hwt_objs s' h)\<rparr>)"
    using assms by (simp add: relinked_def)
  show "k \<noteq> h \<Longrightarrow> hwt_objs s' k = hwt_objs s k"
    by (subst o) simp
  show "hwt_objs s' h = (hwt_objs s h)\<lparr>used_list := used_list (hwt_objs s' h)\<rparr>"
    by (subst o) simp
  show "expiry s' = expiry s"
    using arg_cong [OF r, of hwt_expires] by (intro ext) (simp add: expiry_def)
qed

lemmas timer_upd = set_next_def set_used_def set_scheduled_def set_periodic_def swt_upd_def hwt_set_def

text \<open>Placing the new element before a node, behind the nodes \<open>pre\<close>.\<close>

lemma insert_here:
  assumes "chain (sw_timers s) (used_list (hwt_objs s h)) (pre @ n # rest)"
    "e \<notin> set (pre @ n # rest)" "expiry s e < expiry s n"
    "prev = (if pre = [] then None else Some (last pre))"
  shows "\<exists>s'. insert_loop e h prev n s = Some s' \<and> waiting s' h (pre @ e # n # rest) \<and>
    relinked h (set (e # pre @ n # rest)) s s' \<and>
    (\<forall>x. flags (sw_timers s' x) = (if x = n \<and> pre = []
       then flags (sw_timers s x) AND NOT SW_TIMER_HW_SCHED else flags (sw_timers s x)))"
proof -
  let ?t1 = "(sw_timers s)(e := (sw_timers s e)\<lparr>swt_next := Some n\<rparr>)"
  have less: "cmp_u64 (hwt_expires (sw_timers s e)) (hwt_expires (sw_timers s n)) < 0"
    using assms(3) by (simp add: expiry_def)
  have t1: "chain ?t1 p xs = chain (sw_timers s) p xs" if "e \<notin> set xs" for p xs
    using that by (intro chain_cong) auto
  show ?thesis
  proof (cases pre rule: rev_cases)
    case Nil
    let ?s' = "set_scheduled n False (set_used h (Some e) (set_next e (Some n) s))"
    have r: "insert_loop e h prev n s = Some ?s'"
      using less assms(4) Nil by (subst insert_loop.simps) simp
    have "chain (sw_timers ?s') (Some n) (n # rest) = chain (sw_timers s) (Some n) (n # rest)"
      using assms(2) Nil by (intro chain_cong) (auto simp: timer_upd)
    then have "waiting ?s' h (e # n # rest)"
      using assms(1,2) Nil by (simp add: waiting_def) (auto simp: timer_upd)
    moreover have "relinked h (set (e # pre @ n # rest)) s ?s'"
      using Nil by (auto simp: relinked_def timer_upd fun_eq_iff)
    ultimately show ?thesis using r Nil assms(2) by (auto simp: timer_upd)
  next
    case (snoc us p)
    let ?s' = "set_next p (Some e) (set_next e (Some n) s)"
    have r: "insert_loop e h prev n s = Some ?s'"
      using less assms(4) snoc by (subst insert_loop.simps) simp
    have "chain ?t1 (used_list (hwt_objs s h)) (us @ p # n # rest)"
      using assms(1,2) snoc by (subst t1) auto
    moreover have "chain ?t1 (Some e) (e # n # rest)"
    proof -
      have "chain (sw_timers s) (Some n) (n # rest)" using assms(1) by (rule chain_split)
      then show ?thesis using t1 [of "n # rest" "Some n"] assms(2) by simp
    qed
    moreover have "set (e # n # rest) \<inter> set (us @ [p]) = {}"
      using chain_distinct [OF assms(1)] assms(2) snoc by auto
    ultimately have "chain (?t1(p := (?t1 p)\<lparr>swt_next := Some e\<rparr>)) (used_list (hwt_objs s h)) (us @ p # e # n # rest)"
      by (rule chain_prefix_last)
    then have "waiting ?s' h (pre @ e # n # rest)"
      using snoc by (simp add: waiting_def set_next_def swt_upd_def)
    moreover have "relinked h (set (e # pre @ n # rest)) s ?s'"
      using snoc by (auto simp: relinked_def timer_upd)
    ultimately show ?thesis using r snoc by (auto simp: timer_upd)
  qed
qed

lemma insert_loop_refines:
  assumes "chain (sw_timers s) (used_list (hwt_objs s h)) (pre @ n # rest)"
    "e \<notin> set (pre @ n # rest)" "swt_next (sw_timers s e) = None"
    "prev = (if pre = [] then None else Some (last pre))"
  shows "\<exists>s'. insert_loop e h prev n s = Some s' \<and> waiting s' h (pre @ place (expiry s) e (n # rest)) \<and>
    relinked h (set (e # pre @ n # rest)) s s' \<and>
    (\<forall>x. flags (sw_timers s' x) = (if x = n \<and> pre = [] \<and> expiry s e < expiry s n
       then flags (sw_timers s x) AND NOT SW_TIMER_HW_SCHED else flags (sw_timers s x)))"
  using assms
proof (induction rest arbitrary: pre n prev)
  case Nil
  show ?case
  proof (cases "expiry s e < expiry s n")
    case True
    then show ?thesis using insert_here [OF Nil.prems(1,2) True Nil.prems(4)] by auto
  next
    case False
    let ?s' = "set_next n (Some e) s"
    have "swt_next (sw_timers s n) = None" using chain_split [OF Nil.prems(1)] by simp
    then have r: "insert_loop e h prev n s = Some ?s'"
      using False by (subst insert_loop.simps) (simp add: expiry_def)
    have "chain ((sw_timers s)(n := (sw_timers s n)\<lparr>swt_next := Some e\<rparr>)) (used_list (hwt_objs s h)) (pre @ n # [e])"
      using Nil.prems by (intro chain_prefix_last [where zs = "[]"]) auto
    then have "waiting ?s' h (pre @ [n, e])" by (simp add: waiting_def set_next_def swt_upd_def)
    moreover have "relinked h (set (e # pre @ [n])) s ?s'" by (auto simp: relinked_def timer_upd)
    ultimately show ?thesis using r False by (auto simp: timer_upd)
  qed
next
  case (Cons m rest)
  show ?case
  proof (cases "expiry s e < expiry s n")
    case True
    then show ?thesis using insert_here [OF Cons.prems(1,2) True Cons.prems(4)] by auto
  next
    case False
    have "swt_next (sw_timers s n) = Some m" using chain_split [OF Cons.prems(1)] by simp
    then have r: "insert_loop e h prev n s = insert_loop e h (Some n) m s"
      using False by (subst insert_loop.simps) (simp add: expiry_def)
    have "\<exists>s'. insert_loop e h (Some n) m s = Some s' \<and> waiting s' h ((pre @ [n]) @ place (expiry s) e (m # rest)) \<and>
      relinked h (set (e # (pre @ [n]) @ m # rest)) s s' \<and>
      (\<forall>x. flags (sw_timers s' x) = (if x = m \<and> pre @ [n] = [] \<and> expiry s e < expiry s m
         then flags (sw_timers s x) AND NOT SW_TIMER_HW_SCHED else flags (sw_timers s x)))"
      using Cons.prems by (intro Cons.IH) auto
    then show ?thesis unfolding r using False by auto
  qed
qed

lemma insert_ordered_aux:
  assumes "waiting s h xs" "e \<notin> set xs" "swt_next (sw_timers s e) = None"
  shows "\<exists>s'. insert_ordered_expiry e h s = Some s' \<and> waiting s' h (place (expiry s) e xs) \<and>
    relinked h (insert e (set xs)) s s' \<and>
    (\<forall>x. flags (sw_timers s' x) = (if xs \<noteq> [] \<and> x = hd xs \<and> expiry s e < expiry s x
       then flags (sw_timers s x) AND NOT SW_TIMER_HW_SCHED else flags (sw_timers s x)))"
proof (cases xs)
  case Nil
  let ?s' = "set_used h (Some e) s"
  have r: "insert_ordered_expiry e h s = Some ?s'"
    using assms(1) Nil by (simp add: insert_ordered_expiry_def waiting_def)
  have "waiting ?s' h [e]" using assms(3) by (simp add: waiting_def timer_upd)
  moreover have "relinked h {e} s ?s'" by (simp add: relinked_def timer_upd)
  ultimately show ?thesis using r Nil by (auto simp: timer_upd)
next
  case (Cons n rest)
  then have u: "used_list (hwt_objs s h) = Some n" using assms(1) by (simp add: waiting_def)
  have "chain (sw_timers s) (used_list (hwt_objs s h)) ([] @ n # rest)"
    using assms(1) Cons by (simp add: waiting_def)
  from insert_loop_refines [OF this _ assms(3), of None] assms(2) Cons u
  show ?thesis by (auto simp: insert_ordered_expiry_def)
qed

section \<open>Removal\<close>

lemma remove_loop_refines:
  assumes "chain (sw_timers s) (used_list (hwt_objs s h)) (pre @ rest)" "e \<notin> set pre"
    "node = (case rest of [] \<Rightarrow> None | n # ns \<Rightarrow> Some n)"
    "prev = (if pre = [] then None else Some (last pre))"
  shows "\<exists>rv s'. remove_loop e h prev node s = Some (rv, s') \<and>
    (if e \<in> set rest
     then rv = 0 \<and> waiting s' h (pre @ remove1 e rest) \<and> relinked h (set (pre @ rest) - {e}) s s' \<and>
       (\<forall>x. flags (sw_timers s' x) = flags (sw_timers s x))
     else rv = -1 \<and> s' = s)"
  using assms
proof (induction rest arbitrary: pre node prev)
  case Nil
  then show ?case by (subst remove_loop.simps) simp
next
  case (Cons n rest)
  have nx: "chain (sw_timers s) (swt_next (sw_timers s n)) rest"
    using chain_split [OF Cons.prems(1)] by simp
  show ?case
  proof (cases "e = n")
    case False
    then have r: "remove_loop e h prev node s = remove_loop e h (Some n) (swt_next (sw_timers s n)) s"
      using Cons.prems(3) by (subst remove_loop.simps) simp
    have "swt_next (sw_timers s n) = (case rest of [] \<Rightarrow> None | n # ns \<Rightarrow> Some n)"
      using nx by (cases rest) auto
    with Cons.prems False have "\<exists>rv s'. remove_loop e h (Some n) (swt_next (sw_timers s n)) s = Some (rv, s') \<and>
      (if e \<in> set rest
       then rv = 0 \<and> waiting s' h ((pre @ [n]) @ remove1 e rest) \<and> relinked h (set ((pre @ [n]) @ rest) - {e}) s s' \<and>
         (\<forall>x. flags (sw_timers s' x) = flags (sw_timers s x))
       else rv = -1 \<and> s' = s)"
      by (intro Cons.IH) auto
    then show ?thesis unfolding r using False by (cases "e \<in> set rest") simp_all
  next
    case True
    show ?thesis
    proof (cases pre rule: rev_cases)
      case Nil
      let ?s' = "set_used h (swt_next (sw_timers s n)) s"
      have "remove_loop e h prev node s = Some (0, ?s')"
        using Cons.prems True Nil by (subst remove_loop.simps) simp
      moreover have "waiting ?s' h rest" using nx by (simp add: waiting_def timer_upd)
      moreover have "relinked h (set (pre @ n # rest) - {e}) s ?s'" by (simp add: relinked_def timer_upd)
      ultimately show ?thesis using True Nil by (auto simp: timer_upd)
    next
      case (snoc us p)
      let ?s' = "set_next p (swt_next (sw_timers s n)) s"
      have "remove_loop e h prev node s = Some (0, ?s')"
        using Cons.prems True snoc by (subst remove_loop.simps) simp
      moreover have "waiting ?s' h (pre @ rest)"
      proof -
        have "set rest \<inter> set (us @ [p]) = {}" using chain_distinct [OF Cons.prems(1)] snoc by auto
        then have "chain ((sw_timers s)(p := (sw_timers s p)\<lparr>swt_next := swt_next (sw_timers s n)\<rparr>))
            (used_list (hwt_objs s h)) (us @ p # rest)"
          using Cons.prems(1) nx snoc by (intro chain_prefix_last [where zs = "n # rest"]) auto
        then show ?thesis using snoc by (simp add: waiting_def set_next_def swt_upd_def)
      qed
      moreover have "relinked h (set (pre @ n # rest) - {e}) s ?s'"
        using snoc Cons.prems(2) True by (auto simp: relinked_def timer_upd)
      ultimately show ?thesis using True by (auto simp: timer_upd)
    qed
  qed
qed

lemma remove_elem_aux:
  assumes "waiting s h xs"
  shows "\<exists>rv s'. remove_elem e h s = Some (rv, s') \<and>
    (if e \<in> set xs
     then rv = 0 \<and> waiting s' h (remove1 e xs) \<and> relinked h (set xs - {e}) s s' \<and>
       (\<forall>x. flags (sw_timers s' x) = flags (sw_timers s x))
     else rv = -1 \<and> s' = s)"
proof -
  have "used_list (hwt_objs s h) = (case xs of [] \<Rightarrow> None | n # ns \<Rightarrow> Some n)"
    using assms by (cases xs) (auto simp: waiting_def)
  then have "\<exists>rv s'. remove_loop e h None (used_list (hwt_objs s h)) s = Some (rv, s') \<and>
      (if e \<in> set xs
       then rv = 0 \<and> waiting s' h ([] @ remove1 e xs) \<and> relinked h (set ([] @ xs) - {e}) s s' \<and>
         (\<forall>x. flags (sw_timers s' x) = flags (sw_timers s x))
       else rv = -1 \<and> s' = s)"
    using assms by (intro remove_loop_refines) (simp_all add: waiting_def)
  then show ?thesis by (simp only: remove_elem_def append_Nil)
qed

lemma remove_head:
  assumes "waiting s h (x # xs)"
  shows "remove_elem x h s = Some (0, set_used h (swt_next (sw_timers s x)) s)"
    and "waiting (set_used h (swt_next (sw_timers s x)) s) h xs"
proof -
  have "used_list (hwt_objs s h) = Some x" using assms by (simp add: waiting_def)
  then show "remove_elem x h s = Some (0, set_used h (swt_next (sw_timers s x)) s)"
    by (simp add: remove_elem_def remove_loop.simps)
  show "waiting (set_used h (swt_next (sw_timers s x)) s) h xs"
    using assms by (simp add: waiting_def timer_upd)
qed

end
