(* ===== verification/Prcm_Rtc.thy ===== *)
theory Prcm_Rtc
  imports CC_Prelude
begin

text \<open>
  The calendar clock of \<open>driverlib/prcm.c\<close>.  The device has no clock of that kind: it keeps the
  difference between the wall clock and the free-running slow clock counter in two hibernate
  registers, 32 bits of seconds and 10 bits of 1/1024 s, and adds the counter to it on each read.
  The record holds the registers the functions touch; \<open>scc_at n\<close> is the value of the counter when
  it is latched for the \<open>n\<close>-th time, so that time may pass between any two reads.  The delays
  between register accesses have no effect on the state.
\<close>

section \<open>Registers\<close>

record hib_regs =
  scc_at :: "nat \<Rightarrow> u64"
  latches :: nat
  HIB_RTC_TIMER_MSW :: u32
  HIB_RTC_TIMER_LSW :: u32
  HIB_REG2_HI :: u16
  HIB_REG3 :: u32
  HIB_RTC_IRQ_LSW_CONF :: u32
  HIB_RTC_IRQ_MSW_CONF :: u32
  HIB_RTC_IRQ_ENABLE :: u32
  APPS_RCM_INTERRUPT_ENABLE :: u32
  APPS_RCM_INTERRUPT_STATUS :: u32

definition PRCM_INT_SLOW_CLK_CTR :: u32 where "PRCM_INT_SLOW_CLK_CTR = 0x4000"

text \<open>Writing \<open>HIB_RTC_TIMER_READ\<close> latches the counter; reading the interrupt status clears it.\<close>

definition latch :: "hib_regs \<Rightarrow> hib_regs" where
  "latch h = h\<lparr>latches := Suc (latches h),
     HIB_RTC_TIMER_MSW := ucast (drop_bit 32 (scc_at h (latches h))),
     HIB_RTC_TIMER_LSW := ucast (scc_at h (latches h))\<rparr>"

definition PRCMSlowClkCtrGet :: "hib_regs \<Rightarrow> u64 \<times> hib_regs" where
  "PRCMSlowClkCtrGet h =
     (let h1 = latch h in
      (push_bit 32 (ucast (HIB_RTC_TIMER_MSW h1)) OR ucast (HIB_RTC_TIMER_LSW h1), h1))"

definition PRCMSlowClkCtrMatchSet :: "u64 \<Rightarrow> hib_regs \<Rightarrow> hib_regs" where
  "PRCMSlowClkCtrMatchSet v h =
     h\<lparr>HIB_RTC_IRQ_LSW_CONF := ucast v, HIB_RTC_IRQ_MSW_CONF := ucast (drop_bit 32 v)\<rparr>"

definition PRCMSlowClkCtrMatchGet :: "hib_regs \<Rightarrow> u64" where
  "PRCMSlowClkCtrMatchGet h =
     push_bit 32 (ucast (HIB_RTC_IRQ_MSW_CONF h)) OR ucast (HIB_RTC_IRQ_LSW_CONF h)"

definition PRCMIntEnable :: "u32 \<Rightarrow> hib_regs \<Rightarrow> hib_regs" where
  "PRCMIntEnable ulIntFlags h =
     (if has_flag ulIntFlags PRCM_INT_SLOW_CLK_CTR then
        h\<lparr>APPS_RCM_INTERRUPT_ENABLE := APPS_RCM_INTERRUPT_ENABLE h OR 4,
          HIB_RTC_IRQ_ENABLE := HIB_RTC_IRQ_ENABLE h OR 1\<rparr>
      else h)"

definition PRCMIntDisable :: "u32 \<Rightarrow> hib_regs \<Rightarrow> hib_regs" where
  "PRCMIntDisable ulIntFlags h =
     (if has_flag ulIntFlags PRCM_INT_SLOW_CLK_CTR then
        h\<lparr>APPS_RCM_INTERRUPT_ENABLE := APPS_RCM_INTERRUPT_ENABLE h AND NOT 4,
          HIB_RTC_IRQ_ENABLE := HIB_RTC_IRQ_ENABLE h AND NOT 1\<rparr>
      else h)"

definition PRCMIntStatus :: "hib_regs \<Rightarrow> u32 \<times> hib_regs" where
  "PRCMIntStatus h = (APPS_RCM_INTERRUPT_STATUS h, h\<lparr>APPS_RCM_INTERRUPT_STATUS := 0\<rparr>)"

section \<open>The calendar clock\<close>

definition RTC_U64MSEC_MK :: "u32 \<Rightarrow> u16 \<Rightarrow> u64" where
  "RTC_U64MSEC_MK u32Secs u16Msec = push_bit 10 (ucast u32Secs) OR (ucast u16Msec AND 0x3FF)"

definition RTC_SECS_IN_U64MSEC :: "u64 \<Rightarrow> u32" where
  "RTC_SECS_IN_U64MSEC u64Msec = ucast (drop_bit 10 u64Msec)"

definition RTC_MSEC_IN_U64MSEC :: "u64 \<Rightarrow> u16" where
  "RTC_MSEC_IN_U64MSEC u64Msec = ucast (u64Msec AND 0x3FF)"

definition SELECT_SCC_U42BITS :: "u64 \<Rightarrow> u64" where
  "SELECT_SCC_U42BITS u64Msec = u64Msec AND 0x3ffffffffff"

definition SCC_U64MSEC_GET :: "hib_regs \<Rightarrow> u64 \<times> hib_regs" where
  "SCC_U64MSEC_GET h = (let (v, h1) = PRCMSlowClkCtrGet h in (drop_bit 5 v, h1))"

definition SCC_U64MSEC_MATCH_SET :: "u64 \<Rightarrow> hib_regs \<Rightarrow> hib_regs" where
  "SCC_U64MSEC_MATCH_SET u64Msec h = PRCMSlowClkCtrMatchSet (push_bit 5 u64Msec) h"

definition SCC_U64MSEC_MATCH_GET :: "hib_regs \<Rightarrow> u64" where
  "SCC_U64MSEC_MATCH_GET h = drop_bit 5 (PRCMSlowClkCtrMatchGet h)"

definition RTCUseSet :: "hib_regs \<Rightarrow> hib_regs" where
  "RTCUseSet h = h\<lparr>HIB_REG2_HI := HIB_REG2_HI h OR push_bit 15 1\<rparr>"

definition IsRTCUsed :: "hib_regs \<Rightarrow> bool" where
  "IsRTCUsed h = has_flag (HIB_REG2_HI h) (push_bit 15 1)"

definition RTCU16MSecRegRead :: "hib_regs \<Rightarrow> u16" where
  "RTCU16MSecRegRead h = HIB_REG2_HI h AND 0x3FF"

definition RTCU16MSecRegWrite :: "u16 \<Rightarrow> hib_regs \<Rightarrow> hib_regs" where
  "RTCU16MSecRegWrite u16Msec h = h\<lparr>HIB_REG2_HI := (HIB_REG2_HI h AND NOT 0x3FF) OR u16Msec\<rparr>"

definition RTCU32SecRegRead :: "hib_regs \<Rightarrow> u32" where
  "RTCU32SecRegRead h = HIB_REG3 h"

definition RTCU32SecRegWrite :: "u32 \<Rightarrow> hib_regs \<Rightarrow> hib_regs" where
  "RTCU32SecRegWrite v h = h\<lparr>HIB_REG3 := v\<rparr>"

definition PRCMRTCInUseSet :: "hib_regs \<Rightarrow> hib_regs" where
  "PRCMRTCInUseSet h = RTCUseSet h"

definition PRCMRTCInUseGet :: "hib_regs \<Rightarrow> bool" where
  "PRCMRTCInUseGet h = IsRTCUsed h"

definition PRCMRTCSet :: "u32 \<Rightarrow> u16 \<Rightarrow> hib_regs \<Rightarrow> hib_regs" where
  "PRCMRTCSet ulSecs usMsec h =
     (if IsRTCUsed h then
        let (scc, h1) = SCC_U64MSEC_GET h;
            ullMsec = RTC_U64MSEC_MK ulSecs usMsec - scc
        in RTCU16MSecRegWrite (RTC_MSEC_IN_U64MSEC ullMsec) (RTCU32SecRegWrite (RTC_SECS_IN_U64MSEC ullMsec) h1)
      else h)"

definition PRCMRTCGet :: "hib_regs \<Rightarrow> (u32 \<times> u16) \<times> hib_regs" where
  "PRCMRTCGet h =
     (let (ullMsec, h1) =
            (if IsRTCUsed h then
               let ref = RTC_U64MSEC_MK (RTCU32SecRegRead h) (RTCU16MSecRegRead h);
                   (scc, h1) = SCC_U64MSEC_GET h
               in (ref + scc, h1)
             else (0, h))
      in ((RTC_SECS_IN_U64MSEC ullMsec, RTC_MSEC_IN_U64MSEC ullMsec), h1))"

definition PRCMRTCMatchSet :: "u32 \<Rightarrow> u16 \<Rightarrow> hib_regs \<Rightarrow> hib_regs" where
  "PRCMRTCMatchSet ulSecs usMsec h =
     (if IsRTCUsed h then
        let ullMsec = RTC_U64MSEC_MK ulSecs usMsec
                        - RTC_U64MSEC_MK (RTCU32SecRegRead h) (RTCU16MSecRegRead h)
        in SCC_U64MSEC_MATCH_SET (SELECT_SCC_U42BITS ullMsec) h
      else h)"

definition PRCMRTCMatchGet :: "hib_regs \<Rightarrow> u32 \<times> u16" where
  "PRCMRTCMatchGet h =
     (let ullMsec =
            (if IsRTCUsed h then
               SCC_U64MSEC_MATCH_GET h + RTC_U64MSEC_MK (RTCU32SecRegRead h) (RTCU16MSecRegRead h)
             else 0)
      in (RTC_SECS_IN_U64MSEC ullMsec, RTC_MSEC_IN_U64MSEC ullMsec))"

section \<open>Facts about the registers\<close>

lemmas rtc_access = RTCUseSet_def IsRTCUsed_def RTCU16MSecRegRead_def RTCU16MSecRegWrite_def
  RTCU32SecRegRead_def RTCU32SecRegWrite_def SCC_U64MSEC_MATCH_SET_def SCC_U64MSEC_MATCH_GET_def
  PRCMSlowClkCtrMatchSet_def PRCMSlowClkCtrMatchGet_def

lemma split64: "push_bit 32 (ucast (ucast (drop_bit 32 (v :: u64)) :: u32)) OR ucast (ucast v :: u32) = v"
  by (rule bit_word_eqI) (auto simp: bit_simps)

lemma SlowClkCtrGet: "PRCMSlowClkCtrGet h = (scc_at h (latches h), latch h)"
  by (simp add: PRCMSlowClkCtrGet_def latch_def split64)

lemma MatchGet_MatchSet [simp]: "PRCMSlowClkCtrMatchGet (PRCMSlowClkCtrMatchSet v h) = v"
  by (simp add: PRCMSlowClkCtrMatchGet_def PRCMSlowClkCtrMatchSet_def split64)

lemma mask42: "(0x3ffffffffff :: u64) = mask 42" by (simp add: mask_eq_exp_minus_1)

lemma mask10: "(0x3FF :: u64) = mask 10" "(0x3FF :: u16) = mask 10" by (simp_all add: mask_eq_exp_minus_1)

text \<open>The two halves of a time determine its low 42 bits.\<close>

lemma MK_of_halves: "RTC_U64MSEC_MK (RTC_SECS_IN_U64MSEC x) (RTC_MSEC_IN_U64MSEC x) = take_bit 42 x"
  unfolding RTC_U64MSEC_MK_def RTC_SECS_IN_U64MSEC_def RTC_MSEC_IN_U64MSEC_def mask10
  by (rule bit_word_eqI) (auto simp: bit_simps)

lemma halves_of_MK:
  "RTC_SECS_IN_U64MSEC (RTC_U64MSEC_MK s m) = s" "RTC_MSEC_IN_U64MSEC (RTC_U64MSEC_MK s m) = m AND 0x3FF"
  unfolding RTC_U64MSEC_MK_def RTC_SECS_IN_U64MSEC_def RTC_MSEC_IN_U64MSEC_def mask10
  by (rule bit_word_eqI, auto simp: bit_simps)+

lemma halves_take:
  "RTC_SECS_IN_U64MSEC (take_bit 42 x) = RTC_SECS_IN_U64MSEC x"
  "RTC_MSEC_IN_U64MSEC (take_bit 42 x) = RTC_MSEC_IN_U64MSEC x"
  unfolding RTC_SECS_IN_U64MSEC_def RTC_MSEC_IN_U64MSEC_def mask10
  by (rule bit_word_eqI, auto simp: bit_simps)+

lemma MK_mask: "RTC_U64MSEC_MK s (m AND 0x3FF) = RTC_U64MSEC_MK s m"
  unfolding RTC_U64MSEC_MK_def mask10 by (rule bit_word_eqI) (auto simp: bit_simps)

lemma halves_cong:
  assumes "take_bit 42 x = take_bit 42 y"
  shows "RTC_SECS_IN_U64MSEC x = RTC_SECS_IN_U64MSEC y" "RTC_MSEC_IN_U64MSEC x = RTC_MSEC_IN_U64MSEC y"
  using halves_take [of x] halves_take [of y] assms by metis+

lemma unat_take_plus: "unat (take_bit 42 (x + y :: u64)) = take_bit 42 (unat x + unat y)"
proof -
  have "unat (x + y) = take_bit 64 (unat x + unat y)" by (simp add: unat_word_ariths take_bit_eq_mod)
  then show ?thesis by (simp add: unsigned_take_bit_eq)
qed

lemma take_plus: "take_bit 42 (take_bit 42 x + y :: u64) = take_bit 42 (x + y)"
proof -
  have "unat (take_bit 42 (take_bit 42 x + y)) = take_bit 42 (take_bit 42 (unat x) + unat y)"
    by (subst unat_take_plus, subst unsigned_take_bit_eq) (rule refl)
  also have "\<dots> = take_bit 42 (unat x + unat y)" by (simp only: take_bit_eq_mod mod_simps)
  also have "\<dots> = unat (take_bit 42 (x + y))" by (rule unat_take_plus [symmetric])
  finally show ?thesis by (simp only: word_unat_eq_iff)
qed

lemma take_plus2: "take_bit 42 (y + take_bit 42 x :: u64) = take_bit 42 (y + x)"
  using take_plus [of x y] by (simp add: add.commute)

section \<open>Properties\<close>

text \<open>The time a pair of seconds and 1/1024 s stands for, in 1/1024 s.\<close>

definition rtc_num :: "u32 \<times> u16 \<Rightarrow> nat" where
  "rtc_num t = unat (RTC_U64MSEC_MK (fst t) (snd t))"

text \<open>The reference the registers hold.\<close>

definition rtc_ref :: "hib_regs \<Rightarrow> u64" where
  "rtc_ref h = RTC_U64MSEC_MK (RTCU32SecRegRead h) (RTCU16MSecRegRead h)"

lemma SCC_get: "SCC_U64MSEC_GET h = (drop_bit 5 (scc_at h (latches h)), latch h)"
  by (simp add: SCC_U64MSEC_GET_def SlowClkCtrGet)

lemma latch_simps [simp]:
  "rtc_ref (latch h) = rtc_ref h" "IsRTCUsed (latch h) = IsRTCUsed h"
  "scc_at (latch h) = scc_at h" "latches (latch h) = Suc (latches h)"
  "PRCMSlowClkCtrMatchGet (latch h) = PRCMSlowClkCtrMatchGet h"
  by (simp_all add: latch_def rtc_ref_def rtc_access)

lemma write_ref:
  "rtc_ref (RTCU16MSecRegWrite (RTC_MSEC_IN_U64MSEC x) (RTCU32SecRegWrite (RTC_SECS_IN_U64MSEC x) h)) = take_bit 42 x"
proof -
  have "((HIB_REG2_HI h AND NOT 0x3FF) OR RTC_MSEC_IN_U64MSEC x) AND 0x3FF = RTC_MSEC_IN_U64MSEC x"
    unfolding RTC_MSEC_IN_U64MSEC_def mask10 by (rule bit_word_eqI) (auto simp: bit_simps)
  then show ?thesis by (simp add: rtc_ref_def rtc_access MK_of_halves)
qed

lemma bit_use: "bit (32768 :: u16) n \<longleftrightarrow> n = 15"
  using bit_exp_iff [where 'a = "16 word", of 15 n] bit_imp_le_length [of "32768 :: u16" n] by auto

lemma write_used:
  "IsRTCUsed (RTCU16MSecRegWrite (RTC_MSEC_IN_U64MSEC x) h) = IsRTCUsed h"
proof -
  have "((HIB_REG2_HI h AND NOT 0x3FF) OR RTC_MSEC_IN_U64MSEC x) AND push_bit 15 1 = HIB_REG2_HI h AND push_bit 15 1"
    unfolding RTC_MSEC_IN_U64MSEC_def mask10 by (rule bit_word_eqI) (auto simp: bit_simps bit_use simp del: bit_numeral_word_iff)
  then show ?thesis by (simp add: rtc_access has_flag_def)
qed

lemma PRCMRTCMatchGet_after_set_aux:
  assumes "IsRTCUsed h"
  shows "PRCMRTCMatchGet (PRCMRTCMatchSet s m h) = (s, m AND 0x3FF)"
proof -
  let ?x = "RTC_U64MSEC_MK s m - rtc_ref h"
  let ?v = "SELECT_SCC_U42BITS ?x"
  let ?h1 = "PRCMSlowClkCtrMatchSet (push_bit 5 ?v) h"
  have h1: "PRCMRTCMatchSet s m h = ?h1"
    using assms by (simp add: PRCMRTCMatchSet_def rtc_ref_def SCC_U64MSEC_MATCH_SET_def Let_def)
  have v: "?v = take_bit 42 ?x" by (simp add: SELECT_SCC_U42BITS_def mask42 take_bit_eq_mask)
  have "drop_bit 5 (push_bit 5 (take_bit 42 ?x)) = take_bit 42 ?x"
    by (rule bit_word_eqI) (auto simp: bit_simps)
  then have m: "SCC_U64MSEC_MATCH_GET ?h1 = take_bit 42 ?x" by (simp only: SCC_U64MSEC_MATCH_GET_def MatchGet_MatchSet v)
  have e: "rtc_ref ?h1 = rtc_ref h" "IsRTCUsed ?h1" using assms by (simp_all add: rtc_access rtc_ref_def)
  have "take_bit 42 (take_bit 42 ?x + rtc_ref h) = take_bit 42 (RTC_U64MSEC_MK s m)"
    by (simp only: take_plus) simp
  note c = halves_cong [OF this]
  show ?thesis
    using e m c unfolding h1
    by (simp only: PRCMRTCMatchGet_def rtc_ref_def [symmetric] if_True Let_def halves_of_MK)
qed

text \<open>The calendar clock keeps time across the two registers: after \<open>PRCMRTCSet\<close> with the slow clock
  at one value, \<open>PRCMRTCGet\<close> with it at a later one returns the time that was set plus the time that
  has passed, in 1/1024 s and modulo the 42 bits the registers hold; the flags next to the
  milliseconds in the shared register are untouched.
\<close>

theorem PRCMRTCGet_after_set:
  assumes "IsRTCUsed h" "h1 = PRCMRTCSet s m h" "PRCMRTCGet h1 = (t, h2)"
  shows "rtc_num t = (unat (RTC_U64MSEC_MK s m) + unat (drop_bit 5 (scc_at h (latches h + 1)) - drop_bit 5 (scc_at h (latches h)))) mod 2 ^ 42 \<and>
    IsRTCUsed h1 \<and> HIB_REG2_HI h1 AND 0x7C00 = HIB_REG2_HI h AND 0x7C00"
proof -
  let ?x = "RTC_U64MSEC_MK s m - drop_bit 5 (scc_at h (latches h))"
  have h1: "h1 = RTCU16MSecRegWrite (RTC_MSEC_IN_U64MSEC ?x) (RTCU32SecRegWrite (RTC_SECS_IN_U64MSEC ?x) (latch h))"
    using assms(1,2) by (simp add: PRCMRTCSet_def SCC_get Let_def)
  have r: "rtc_ref h1 = take_bit 42 ?x" unfolding h1 by (rule write_ref)
  have u: "IsRTCUsed h1" using assms(1) unfolding h1 write_used by (simp add: rtc_access latch_def)
  have l: "scc_at h1 = scc_at h" "latches h1 = Suc (latches h)" unfolding h1 by (simp_all add: rtc_access)
  let ?y = "rtc_ref h1 + drop_bit 5 (scc_at h (latches h + 1))"
  have t: "t = (RTC_SECS_IN_U64MSEC ?y, RTC_MSEC_IN_U64MSEC ?y)"
    using assms(3) u by (simp add: PRCMRTCGet_def SCC_get rtc_ref_def [symmetric] l Let_def)
  have "take_bit 42 ?y = take_bit 42 (?x + drop_bit 5 (scc_at h (latches h + 1)))"
    unfolding r by (rule take_plus)
  also have "\<dots> = take_bit 42 (RTC_U64MSEC_MK s m + (drop_bit 5 (scc_at h (latches h + 1)) - drop_bit 5 (scc_at h (latches h))))"
    by (simp add: algebra_simps)
  finally have "unat (take_bit 42 ?y) = (unat (RTC_U64MSEC_MK s m) +
      unat (drop_bit 5 (scc_at h (latches h + 1)) - drop_bit 5 (scc_at h (latches h)))) mod 2 ^ 42"
    by (simp only: unat_take_plus) (simp only: take_bit_eq_mod)
  moreover have "rtc_num t = unat (take_bit 42 ?y)" by (simp only: rtc_num_def t fst_conv snd_conv MK_of_halves)
  moreover have "HIB_REG2_HI h1 AND 0x7C00 = HIB_REG2_HI h AND 0x7C00"
  proof -
    have f: "(0x7C00 :: u16) = push_bit 10 (mask 5)" by (simp add: mask_eq_exp_minus_1)
    have "((HIB_REG2_HI h AND NOT 0x3FF) OR RTC_MSEC_IN_U64MSEC ?x) AND 0x7C00 = HIB_REG2_HI h AND 0x7C00"
      unfolding RTC_MSEC_IN_U64MSEC_def mask10 f by (rule bit_word_eqI) (auto simp: bit_simps)
    then show ?thesis unfolding h1 by (simp add: rtc_access latch_def)
  qed
  ultimately show ?thesis using u by simp
qed

text \<open>The alarm registers keep the alarm: \<open>PRCMRTCMatchGet\<close> returns the seconds and the (10-bit)
  milliseconds \<open>PRCMRTCMatchSet\<close> was given, whatever the reference of the clock is.
\<close>

theorem PRCMRTCMatchGet_after_set:
  assumes "IsRTCUsed h"
  shows "PRCMRTCMatchGet (PRCMRTCMatchSet s m h) = (s, m AND 0x3FF)"
  using assms by (rule PRCMRTCMatchGet_after_set_aux)

section \<open>Witnesses\<close>

text \<open>The registers of a clock in use whose counter advances by 3200 ticks, 100/1024 s, per read.\<close>

definition sample_regs :: hib_regs where
  "sample_regs = \<lparr>scc_at = (\<lambda>n. of_nat (3200 * n)), latches = 0, HIB_RTC_TIMER_MSW = 0, HIB_RTC_TIMER_LSW = 0,
     HIB_REG2_HI = 0x8000, HIB_REG3 = 0, HIB_RTC_IRQ_LSW_CONF = 0, HIB_RTC_IRQ_MSW_CONF = 0,
     HIB_RTC_IRQ_ENABLE = 0, APPS_RCM_INTERRUPT_ENABLE = 0, APPS_RCM_INTERRUPT_STATUS = 0\<rparr>"

lemma sample_used: "IsRTCUsed sample_regs"
  by (simp add: sample_regs_def rtc_access has_flag_def)

theorem PRCMRTCGet_after_set_witness:
  "rtc_num (fst (PRCMRTCGet (PRCMRTCSet 5 7 sample_regs))) = 5 * 1024 + 7 + 100"
proof -
  have n: "unat (RTC_U64MSEC_MK 5 7) = 5 * 1024 + 7" by (simp add: RTC_U64MSEC_MK_def)
  have d: "unat (drop_bit 5 (scc_at sample_regs (latches sample_regs + 1)) - drop_bit 5 (scc_at sample_regs (latches sample_regs))) = 100"
    by (simp add: sample_regs_def)
  obtain t h2 where g: "PRCMRTCGet (PRCMRTCSet 5 7 sample_regs) = (t, h2)" by (rule prod.exhaust)
  from PRCMRTCGet_after_set [OF sample_used refl g] show ?thesis unfolding n d g by simp
qed

theorem PRCMRTCMatchGet_after_set_witness:
  "PRCMRTCMatchGet (PRCMRTCMatchSet 77 1023 sample_regs) = (77, 1023)"
  using PRCMRTCMatchGet_after_set [OF sample_used, of 77 1023] by simp

end
