(* ===== verification/Rtc_Hal.thy ===== *)
theory Rtc_Hal
  imports Hw_Timer Prcm_Rtc
begin

text \<open>
  The wall-clock alarm, \<open>middleware/driver/hal/rtc_hal.c\<close>: a 64-bit hardware timer for the timer
  framework (\<open>hwt_ops\<close>, built by \<open>DEF_HWT64_OPS\<close>) on the calendar clock of \<open>Prcm_Rtc\<close>.  The one
  object \<open>rtc64\<close> is in the state; \<open>rtc_up\<close> says that the pointer \<open>rtc\<close> has been set to it.
  Disabling and enabling interrupts around an operation has no effect on the state.
\<close>

section \<open>State\<close>

text \<open>Who is called on a timeout: the framework for one of its timers, or a user's callback.\<close>

datatype hal_cb = Tfw nat | User nat cc_hndl

record rtc_state =
  hib :: hib_regs
  rtc_up :: bool
  rtc_base_addr :: u32
  rtc_freq_hz :: u32
  rtc_cb :: "hal_cb option"
  rtc_set_irq :: "nat option"
  has_alarm :: bool

definition rtc_ptr :: "rtc_state \<Rightarrow> cc_hndl" where
  "rtc_ptr s = (if rtc_up s then Some 0 else None)"

section \<open>Units\<close>

definition U32NS_U16MS :: "u32 \<Rightarrow> u32" where "U32NS_U16MS ns = ns div 1000000"
definition U16MS_U32NS :: "u32 \<Rightarrow> u32" where "U16MS_U32NS msec = msec * 1000000"
definition U16MS_CYCLES :: "u32 \<Rightarrow> u32" where "U16MS_CYCLES msec = (msec * 1024) div 1000"
definition CYCLES_U16MS :: "u32 \<Rightarrow> u32" where "CYCLES_U16MS cycles = (cycles * 1000) div 1024"

section \<open>The alarm\<close>

definition rtc_alarm_wr :: "u64_time \<Rightarrow> rtc_state \<Rightarrow> rtc_state" where
  "rtc_alarm_wr alarm s =
     s\<lparr>hib := PRCMRTCMatchSet (secs alarm) (ucast (U16MS_CYCLES (U32NS_U16MS (nsec alarm)))) (hib s)\<rparr>"

definition rtc_alarm_rd :: "rtc_state \<Rightarrow> u64_time" where
  "rtc_alarm_rd s =
     (let (sec, msec_cycles) = PRCMRTCMatchGet (hib s)
      in \<lparr>secs = sec, nsec = U16MS_U32NS (CYCLES_U16MS (ucast msec_cycles))\<rparr>)"

definition rtc_value_wr :: "u64_time \<Rightarrow> rtc_state \<Rightarrow> rtc_state" where
  "rtc_value_wr value s =
     s\<lparr>hib := PRCMRTCSet (secs value) (ucast (U16MS_CYCLES (U32NS_U16MS (nsec value)))) (hib s)\<rparr>"

definition rtc_value_rd :: "rtc_state \<Rightarrow> u64_time \<times> rtc_state" where
  "rtc_value_rd s =
     (let ((sec, msec_cycles), h) = PRCMRTCGet (hib s)
      in (\<lparr>secs = sec, nsec = U16MS_U32NS (CYCLES_U16MS (ucast msec_cycles))\<rparr>, s\<lparr>hib := h\<rparr>))"

text \<open>The validity of an alarm, and the borrow the caller gets when it is valid.\<close>

definition is_valid_alarm :: "u64_time \<Rightarrow> u64_time \<Rightarrow> bool \<times> u32" where
  "is_valid_alarm alarm value =
     (let borrow = (if nsec alarm \<le> nsec value then 1 else 0)
      in (\<not> secs alarm < secs value + borrow, borrow))"

definition hwt64_is_running :: "cc_hndl \<Rightarrow> rtc_state \<Rightarrow> bool option" where
  "hwt64_is_running h s =
     (if h = rtc_ptr s then (if rtc_up s then Some (has_alarm s) else None) else Some False)"

definition set_alarm :: "u64_time option \<Rightarrow> rtc_state \<Rightarrow> (int \<times> rtc_state) option" where
  "set_alarm alarm s =
     (let (value, s1) = rtc_value_rd s in
      case alarm of
        None \<Rightarrow> Some (-1, s1)
      | Some a \<Rightarrow>
          if \<not> fst (is_valid_alarm a value) then Some (-1, s1)
          else
            let s2 = rtc_alarm_wr a s1
            in if rtc_up s2
               then Some (0, s2\<lparr>has_alarm := True, hib := PRCMIntEnable PRCM_INT_SLOW_CLK_CTR (hib s2)\<rparr>)
               else None)"

definition cc_rtc_set_alarm :: "u64_time option \<Rightarrow> rtc_state \<Rightarrow> (int \<times> rtc_state) option" where
  "cc_rtc_set_alarm alarm s = set_alarm alarm s"

text \<open>The result of \<open>set_alarm\<close> is not looked at.\<close>

definition setup_alarm :: "u64_val \<Rightarrow> rtc_state \<Rightarrow> (int \<times> rtc_state) option" where
  "setup_alarm expires s = do {
     (r, s1) \<leftarrow> set_alarm (Some \<lparr>secs = hi_32 expires, nsec = lo_32 expires\<rparr>) s;
     Some (0, s1)
   }"

definition hwt64_update_alarm :: "cc_hndl \<Rightarrow> u64_val \<Rightarrow> rtc_state \<Rightarrow> (int \<times> rtc_state) option" where
  "hwt64_update_alarm h expires s =
     (if h \<noteq> None \<and> has_alarm s then setup_alarm expires s else Some (-1, s))"

definition hwt64_create_alarm ::
  "cc_hndl \<Rightarrow> u64_val \<Rightarrow> cc_hw_timer_mode \<Rightarrow> rtc_state \<Rightarrow> (int \<times> rtc_state) option" where
  "hwt64_create_alarm h expires mode s =
     (if h \<noteq> None \<and> \<not> has_alarm s then setup_alarm expires s else Some (-1, s))"

definition clr_alarm :: "rtc_state \<Rightarrow> (int \<times> rtc_state) option" where
  "clr_alarm s =
     (let s1 = s\<lparr>hib := PRCMIntDisable PRCM_INT_SLOW_CLK_CTR (hib s)\<rparr>
      in if rtc_up s1 then Some (0, s1\<lparr>has_alarm := False\<rparr>) else None)"

definition hwt64_clear_alarm :: "cc_hndl \<Rightarrow> rtc_state \<Rightarrow> (int \<times> rtc_state) option" where
  "hwt64_clear_alarm h s =
     (if h = None \<or> \<not> has_alarm s then Some (-1, s)
      else do { (r, s1) \<leftarrow> clr_alarm s; Some (0, s1\<lparr>has_alarm := False\<rparr>) })"

definition cc_rtc_clr_alarm :: "rtc_state \<Rightarrow> (int \<times> rtc_state) option" where
  "cc_rtc_clr_alarm s = clr_alarm s"

definition cc_rtc_has_alarm :: "rtc_state \<Rightarrow> bool option" where
  "cc_rtc_has_alarm s = (if rtc_up s then Some (has_alarm s) else None)"

text \<open>The second assignment to \<open>nsec\<close> is the code's.\<close>

definition time_to_alarm :: "u64_time \<Rightarrow> rtc_state \<Rightarrow> (int \<times> u64_time \<times> rtc_state) option" where
  "time_to_alarm tta s =
     (if \<not> rtc_up s then None
      else if \<not> has_alarm s then Some (-1, tta, s)
      else
        let alarm = rtc_alarm_rd s;
            (value, s1) = rtc_value_rd s;
            (valid, borrow) = is_valid_alarm alarm value
        in if \<not> valid then Some (-1, tta, s1)
           else
             let tta1 = tta\<lparr>nsec := (if borrow \<noteq> 0 then nsec alarm + NOT (nsec value) + 1
                                     else nsec alarm - nsec value)\<rparr>;
                 tta2 = tta1\<lparr>nsec := secs alarm - secs value - borrow\<rparr>
             in Some (0, tta2, s1))"

definition hwt64_get_remaining ::
  "cc_hndl \<Rightarrow> u64_val \<Rightarrow> rtc_state \<Rightarrow> (int \<times> u64_val \<times> rtc_state) option" where
  "hwt64_get_remaining h remaining s =
     (if h \<noteq> None then do {
        (rv, tta, s1) \<leftarrow> time_to_alarm \<lparr>secs = 0, nsec = 0\<rparr> s;
        Some (rv, if rv = 0 then U64 (secs tta) (nsec tta) else remaining, s1)
      }
      else Some (-1, remaining, s))"

definition cc_rtc_time_to_alarm :: "u64_time \<Rightarrow> rtc_state \<Rightarrow> (int \<times> u64_time \<times> rtc_state) option" where
  "cc_rtc_time_to_alarm tta s = time_to_alarm tta s"

definition get_value :: "rtc_state \<Rightarrow> int \<times> u64_time \<times> rtc_state" where
  "get_value s = (let (value, s1) = rtc_value_rd s in (0, value, s1))"

definition hwt64_get_current ::
  "cc_hndl \<Rightarrow> u64_val \<Rightarrow> rtc_state \<Rightarrow> (int \<times> u64_val \<times> rtc_state) option" where
  "hwt64_get_current h current s =
     (let (rv, now_time, s1) = get_value s
      in Some (rv, if rv = 0 then U64 (secs now_time) (nsec now_time) else current, s1))"

definition cc_rtc_get :: "rtc_state \<Rightarrow> int \<times> u64_time \<times> rtc_state" where
  "cc_rtc_get s = get_value s"

definition hwt64_get_rollovers :: "cc_hndl \<Rightarrow> rtc_state \<Rightarrow> u32 option" where
  "hwt64_get_rollovers h s = Some (if h = rtc_ptr s then 0 else 0xFFFFFFFF)"

definition hwt64_get_frequency :: "cc_hndl \<Rightarrow> rtc_state \<Rightarrow> u32 option" where
  "hwt64_get_frequency h s =
     (if h = rtc_ptr s then (if rtc_up s then Some (rtc_freq_hz s) else None) else Some 0)"

text \<open>\<open>set_irq\<close> is the platform's: it marks the clock's interrupt as pending.\<close>

definition cc_rtc_set :: "(nat \<Rightarrow> rtc_state \<Rightarrow> rtc_state) \<Rightarrow> u64_time \<Rightarrow> rtc_state \<Rightarrow> (int \<times> rtc_state) option" where
  "cc_rtc_set set_irq rtc_val s =
     (let s1 = rtc_value_wr rtc_val s in
      if rtc_up s1 then do { f \<leftarrow> rtc_set_irq s1; Some (0, set_irq f s1) } else None)"

definition hwt64_register_cb :: "cc_hndl \<Rightarrow> nat \<Rightarrow> rtc_state \<Rightarrow> (int \<times> rtc_state) option" where
  "hwt64_register_cb h hwt s =
     (if h = None \<or> rtc_cb s \<noteq> None then Some (-1, s) else Some (0, s\<lparr>rtc_cb := Some (Tfw hwt)\<rparr>))"

definition rtc_hwt_ops :: "rtc_state hw_timer_ops" where
  "rtc_hwt_ops = DEF_HWT64_OPS hwt64_create_alarm hwt64_update_alarm hwt64_clear_alarm hwt64_is_running
     hwt64_get_remaining hwt64_get_current hwt64_get_rollovers hwt64_get_frequency hwt64_register_cb"

section \<open>Initialisation and interrupt\<close>

record hw_timer_cfg =
  cfg_base_addr :: u32
  cfg_freq_hz :: u32
  cfg_source :: u32
  user_tfw :: bool
  cfg_timeout_cb :: "hal_cb option"
  cfg_set_irq :: "nat option"

text \<open>\<open>tfw\<close> is the registration function of the framework, called with source, handle and operations.\<close>

definition cc_rtc_init ::
  "(u32 \<Rightarrow> cc_hndl \<Rightarrow> rtc_state hw_timer_ops \<Rightarrow> rtc_state \<Rightarrow> (int \<times> rtc_state) option) \<Rightarrow>
   hw_timer_cfg option \<Rightarrow> rtc_state \<Rightarrow> (int \<times> rtc_state) option" where
  "cc_rtc_init tfw cfg s =
     (case cfg of
        None \<Rightarrow> Some (-1, s)
      | Some c \<Rightarrow>
          if \<not> user_tfw c \<and> cfg_timeout_cb c = None \<or> cfg_set_irq c = None then Some (-1, s)
          else
            let s1 = (if rtc_up s then s
                      else s\<lparr>rtc_up := True, rtc_base_addr := 0, rtc_freq_hz := 0, rtc_cb := None,
                             rtc_set_irq := None, has_alarm := False\<rparr>)
            in do {
              (r, s2) \<leftarrow> (if user_tfw c then tfw (cfg_source c) (rtc_ptr s1) rtc_hwt_ops s1
                          else Some (0, s1\<lparr>rtc_cb := cfg_timeout_cb c\<rparr>));
              if r \<noteq> 0 then Some (-1, s2)
              else Some (0, s2\<lparr>rtc_base_addr := cfg_base_addr c, rtc_freq_hz := cfg_freq_hz c,
                               rtc_set_irq := cfg_set_irq c, has_alarm := False,
                               hib := PRCMRTCInUseSet (hib s2)\<rparr>)
            })"

text \<open>
  The interrupt: its last action is the call of the timeout callback, so the model returns the
  callback to make, if any, and the state to make it in.
\<close>

definition cc_rtc_isr :: "rtc_state \<Rightarrow> (hal_cb option \<times> rtc_state) option" where
  "cc_rtc_isr s =
     (let (status, h1) = PRCMIntStatus (hib s);
          s1 = s\<lparr>hib := h1\<rparr>
      in if \<not> rtc_up s1 then Some (None, s1)
         else if \<not> has_alarm s1 then Some (None, s1)
         else
           let alarm = rtc_alarm_rd s1;
               (value, s2) = rtc_value_rd s1
           in if fst (is_valid_alarm alarm value) then Some (None, s2)
              else do { cb \<leftarrow> rtc_cb s2; Some (Some cb, s2\<lparr>has_alarm := False\<rparr>) })"

section \<open>What the operations keep\<close>

definition rtc_inv :: "rtc_state \<Rightarrow> bool" where
  "rtc_inv s \<longleftrightarrow> rtc_up s \<and> IsRTCUsed (hib s)"

lemma value_rd_keeps:
  assumes "rtc_value_rd s = (v, s1)"
  shows "rtc_inv s1 = rtc_inv s" "rtc_alarm_rd s1 = rtc_alarm_rd s" "has_alarm s1 = has_alarm s" "rtc_up s1 = rtc_up s"
    "rtc_cb s1 = rtc_cb s"
proof -
  have "s1 = s \<or> s1 = s\<lparr>hib := latch (hib s)\<rparr>"
    using assms by (auto simp: rtc_value_rd_def PRCMRTCGet_def SCC_get Let_def split: prod.splits if_splits)
  moreover have "PRCMRTCMatchGet (latch h) = PRCMRTCMatchGet h" for h
    by (simp add: PRCMRTCMatchGet_def SCC_U64MSEC_MATCH_GET_def rtc_ref_def [symmetric] Let_def)
  ultimately show "rtc_inv s1 = rtc_inv s" "rtc_alarm_rd s1 = rtc_alarm_rd s" "has_alarm s1 = has_alarm s" "rtc_up s1 = rtc_up s"
    "rtc_cb s1 = rtc_cb s"
    by (auto simp: rtc_inv_def rtc_alarm_rd_def)
qed

lemma match_set_used [simp]: "IsRTCUsed (PRCMRTCMatchSet a b h) = IsRTCUsed h"
  by (simp add: PRCMRTCMatchSet_def rtc_access Let_def)

lemma int_enable_simps [simp]:
  "IsRTCUsed (PRCMIntEnable f h) = IsRTCUsed h" "PRCMRTCMatchGet (PRCMIntEnable f h) = PRCMRTCMatchGet h"
  "IsRTCUsed (PRCMIntDisable f h) = IsRTCUsed h" "PRCMRTCMatchGet (PRCMIntDisable f h) = PRCMRTCMatchGet h"
  by (simp_all add: PRCMIntEnable_def PRCMIntDisable_def PRCMRTCMatchGet_def rtc_access Let_def)

text \<open>The nanoseconds the clock can represent: whole cycles of 1/1024 s, converted back.\<close>

definition rtc_round :: "u32 \<Rightarrow> u32" where
  "rtc_round ns = U16MS_U32NS (CYCLES_U16MS (ucast ((ucast (U16MS_CYCLES (U32NS_U16MS ns)) :: u16) AND 0x3FF)))"

lemma alarm_rd_wr:
  "IsRTCUsed (hib s) \<Longrightarrow> rtc_alarm_rd (rtc_alarm_wr a s) = \<lparr>secs = secs a, nsec = rtc_round (nsec a)\<rparr>"
  by (simp add: rtc_alarm_rd_def rtc_alarm_wr_def PRCMRTCMatchGet_after_set_aux rtc_round_def)

lemma set_alarm_valid:
  assumes "rtc_inv s" "rtc_value_rd s = (v, s1)" "fst (is_valid_alarm a v)"
  shows "\<exists>s'. set_alarm (Some a) s = Some (0, s') \<and> rtc_inv s' \<and> has_alarm s' \<and>
    rtc_alarm_rd s' = \<lparr>secs = secs a, nsec = rtc_round (nsec a)\<rparr>"
proof -
  have i: "rtc_inv s1" using value_rd_keeps(1) [OF assms(2)] assms(1) by simp
  then have "rtc_alarm_rd (rtc_alarm_wr a s1) = \<lparr>secs = secs a, nsec = rtc_round (nsec a)\<rparr>"
    by (intro alarm_rd_wr) (simp add: rtc_inv_def)
  then show ?thesis
    using i assms(2,3) by (simp add: set_alarm_def rtc_alarm_rd_def rtc_inv_def rtc_alarm_wr_def)
qed

section \<open>The clock as a driver\<close>

definition rtc_hwt :: "nat option \<Rightarrow> rtc_state hwt_info" where
  "rtc_hwt used = \<lparr>hwt_ops = Some rtc_hwt_ops, hndl = Some 0, used_list = used, hw_64bits = True, source = HW_REALTIME_CLK\<rparr>"

definition rtc_armed :: "rtc_state \<Rightarrow> u64_val option" where
  "rtc_armed s = (if has_alarm s then Some (U64 (secs (rtc_alarm_rd s)) (nsec (rtc_alarm_rd s))) else None)"

definition rtc_view :: "u64_val \<Rightarrow> u64_val" where
  "rtc_view e = U64 (hi_32 e) (rtc_round (lo_32 e))"

definition rtc_ahead :: "u64_val \<Rightarrow> rtc_state \<Rightarrow> bool" where
  "rtc_ahead e s \<longleftrightarrow> fst (is_valid_alarm \<lparr>secs = hi_32 e, nsec = lo_32 e\<rparr> (fst (rtc_value_rd s)))"

lemmas rtc_hwt_simps = rtc_hwt_def rtc_hwt_ops_def DEF_HWT64_OPS_def

lemma setup_alarm_ahead:
  assumes "rtc_inv s" "rtc_ahead e s"
  shows "\<exists>s'. setup_alarm e s = Some (0, s') \<and> rtc_inv s' \<and> rtc_armed s' = Some (rtc_view e)"
proof -
  obtain v s1 where v: "rtc_value_rd s = (v, s1)" by (rule prod.exhaust)
  from set_alarm_valid [OF assms(1) v, of "\<lparr>secs = hi_32 e, nsec = lo_32 e\<rparr>"] assms(2) v
  show ?thesis by (auto simp: setup_alarm_def rtc_armed_def rtc_view_def rtc_ahead_def)
qed

interpretation rtc: hwt_driver "rtc_hwt used" rtc_inv rtc_armed rtc_view rtc_ahead for used
proof
  fix p :: rtc_state and e :: u64_val and cur :: u64_val
  assume i: "rtc_inv p"
  then have up: "rtc_up p" "rtc_ptr p = Some 0" by (simp_all add: rtc_inv_def rtc_ptr_def)
  show "hwt_is_running (rtc_hwt used) p = Some (rtc_armed p \<noteq> None)"
    using up by (simp add: hwt_is_running_def rtc_hwt_simps hwt64_is_running_def rtc_armed_def)
  show "rtc_armed p = None \<Longrightarrow> rtc_ahead e p \<Longrightarrow>
      \<exists>p'. hwt_start (rtc_hwt used) e p = Some (0, p') \<and> rtc_inv p' \<and> rtc_armed p' = Some (rtc_view e)"
    using setup_alarm_ahead [OF i, of e] by (simp add: hwt_start_def rtc_hwt_simps hwt64_create_alarm_def rtc_armed_def split: if_splits)
  show "rtc_armed p \<noteq> None \<Longrightarrow> rtc_ahead e p \<Longrightarrow>
      \<exists>p'. hwt_update (rtc_hwt used) e p = Some (0, p') \<and> rtc_inv p' \<and> rtc_armed p' = Some (rtc_view e)"
    using setup_alarm_ahead [OF i, of e] by (simp add: hwt_update_def rtc_hwt_simps hwt64_update_alarm_def rtc_armed_def split: if_splits)
  show "\<exists>r p'. hwt_stop (rtc_hwt used) p = Some (r, p') \<and> rtc_inv p' \<and> rtc_armed p' = None"
    using i by (simp add: hwt_stop_def rtc_hwt_simps hwt64_clear_alarm_def clr_alarm_def rtc_armed_def rtc_inv_def)
  show "\<exists>r cur' p'. hwt_get_current (rtc_hwt used) cur p = Some (r, cur', p') \<and> rtc_inv p' \<and> rtc_armed p' = rtc_armed p"
  proof -
    obtain v s1 where v: "rtc_value_rd p = (v, s1)" by (rule prod.exhaust)
    show ?thesis
      using value_rd_keeps [OF v] i v
      by (simp add: hwt_get_current_def rtc_hwt_simps hwt64_get_current_def get_value_def
          hwt_get_rollovers_def hwt64_get_rollovers_def rtc_armed_def)
  qed
  show "\<exists>r p'. hwt_arm (rtc_hwt used) e p = Some (r, p') \<and> rtc_inv p'"
  proof -
    obtain v s1 where v: "rtc_value_rd p = (v, s1)" by (rule prod.exhaust)
    have "\<exists>r p'. setup_alarm e p = Some (r, p') \<and> rtc_inv p'"
      using value_rd_keeps(1) [OF v] i set_alarm_valid [OF i v, of "\<lparr>secs = hi_32 e, nsec = lo_32 e\<rparr>"] v
      by (cases "fst (is_valid_alarm \<lparr>secs = hi_32 e, nsec = lo_32 e\<rparr> v)") (auto simp: setup_alarm_def set_alarm_def)
    then show ?thesis
      using up by (auto simp: hwt_arm_def hwt_is_running_def hwt_update_def hwt_start_def rtc_hwt_simps
          hwt64_is_running_def hwt64_update_alarm_def hwt64_create_alarm_def)
  qed
  show "hwt_get_rollovers (rtc_hwt used) p \<noteq> None"
    by (simp add: hwt_get_rollovers_def rtc_hwt_simps hwt64_get_rollovers_def)
  show "hwt_get_frequency (rtc_hwt used) p \<noteq> None"
    using up by (simp add: hwt_get_frequency_def rtc_hwt_simps hwt64_get_frequency_def)
qed

section \<open>The clock while a handler runs\<close>

text \<open>
  The handler of an interrupt is short against the resolution of the clock, 1/1024 s: \<open>rtc_steady\<close>
  says that all the readings of the slow clock counter fall into one such period.
\<close>

definition rtc_now :: "rtc_state \<Rightarrow> u64_val" where
  "rtc_now s = (let v = fst (rtc_value_rd s) in U64 (secs v) (nsec v))"

definition rtc_tick_free :: "rtc_state \<Rightarrow> bool" where
  "rtc_tick_free s \<longleftrightarrow> (\<forall>n. drop_bit 5 (scc_at (hib s) n) = drop_bit 5 (scc_at (hib s) 0))"

definition rtc_steady :: "rtc_state \<Rightarrow> bool" where
  "rtc_steady s \<longleftrightarrow> rtc_inv s \<and> rtc_tick_free s"

lemma scc_at_simps [simp]:
  "scc_at (latch h) = scc_at h" "scc_at (PRCMRTCMatchSet a b h) = scc_at h"
  "scc_at (PRCMIntEnable f h) = scc_at h" "scc_at (PRCMIntDisable f h) = scc_at h"
  by (simp_all add: latch_def PRCMRTCMatchSet_def rtc_access Let_def PRCMIntEnable_def PRCMIntDisable_def)

lemma value_rd_hib: "rtc_value_rd s = (v, s1) \<Longrightarrow> s1 = s \<or> s1 = s\<lparr>hib := latch (hib s)\<rparr>"
  by (auto simp: rtc_value_rd_def PRCMRTCGet_def SCC_get Let_def split: prod.splits if_splits)

lemma value_rd_steady:
  assumes "rtc_tick_free s" "rtc_value_rd s = (v, s1)"
  shows "rtc_tick_free s1" "fst (rtc_value_rd s1) = v"
proof -
  show "rtc_tick_free s1" using value_rd_hib [OF assms(2)] assms(1) by (auto simp: rtc_tick_free_def)
  have "drop_bit 5 (scc_at (hib s) m) = drop_bit 5 (scc_at (hib s) n)" for m n
    using assms(1) unfolding rtc_tick_free_def by metis
  from this [of "Suc (latches (hib s))" "latches (hib s)"]
  have "fst (PRCMRTCGet (latch (hib s))) = fst (PRCMRTCGet (hib s))"
    by (simp add: PRCMRTCGet_def SCC_get Let_def rtc_access) (simp add: latch_def)
  then have "fst (rtc_value_rd (s\<lparr>hib := latch (hib s)\<rparr>)) = fst (rtc_value_rd s)"
    by (simp add: rtc_value_rd_def Let_def case_prod_unfold)
  then show "fst (rtc_value_rd s1) = v" using value_rd_hib [OF assms(2)] assms(2) by auto
qed

lemma setup_alarm_tick_free: "setup_alarm e p = Some (r, p') \<Longrightarrow> rtc_tick_free p \<Longrightarrow> rtc_tick_free p'"
proof -
  assume a: "setup_alarm e p = Some (r, p')" and t: "rtc_tick_free p"
  obtain v s1 where v: "rtc_value_rd p = (v, s1)" by (rule prod.exhaust)
  show "rtc_tick_free p'"
    using a v value_rd_steady(1) [OF t v]
    by (auto simp: setup_alarm_def set_alarm_def rtc_alarm_wr_def rtc_tick_free_def Let_def split: if_splits Option.bind_splits)
qed

interpretation rtc_clock: hwt_clock "rtc_hwt used" rtc_steady rtc_armed rtc_view rtc_ahead rtc_now for used
proof -
  have "hwt_driver (rtc_hwt used) (\<lambda>p. rtc_inv p \<and> rtc_tick_free p) rtc_armed rtc_view rtc_ahead"
  proof (rule rtc.with_inv)
    fix e cur cur' :: u64_val and p p' r
    assume t: "rtc_tick_free p"
    show "hwt_start (rtc_hwt used) e p = Some (r, p') \<Longrightarrow> rtc_tick_free p'"
      "hwt_update (rtc_hwt used) e p = Some (r, p') \<Longrightarrow> rtc_tick_free p'"
      using t setup_alarm_tick_free
      by (auto simp: hwt_start_def hwt_update_def rtc_hwt_simps hwt64_create_alarm_def hwt64_update_alarm_def split: if_splits)
    show "hwt_stop (rtc_hwt used) p = Some (r, p') \<Longrightarrow> rtc_tick_free p'"
      using t by (auto simp: hwt_stop_def rtc_hwt_simps hwt64_clear_alarm_def clr_alarm_def rtc_tick_free_def split: if_splits)
    show "hwt_get_current (rtc_hwt used) cur p = Some (r, cur', p') \<Longrightarrow> rtc_tick_free p'"
      using value_rd_steady(1) [OF t]
      by (auto simp: hwt_get_current_def rtc_hwt_simps hwt64_get_current_def get_value_def split: prod.splits Option.bind_splits)
  qed
  moreover have "hwt_clock_axioms (rtc_hwt used) (\<lambda>p. rtc_inv p \<and> rtc_tick_free p) rtc_armed rtc_ahead rtc_now"
  proof
    fix p and e cur :: u64_val
    assume i: "rtc_inv p \<and> rtc_tick_free p"
    obtain v s1 where v: "rtc_value_rd p = (v, s1)" by (rule prod.exhaust)
    have up: "rtc_ptr s1 = Some 0" using i value_rd_keeps(4) [OF v] by (simp add: rtc_inv_def rtc_ptr_def)
    show "\<exists>p'. hwt_get_current (rtc_hwt used) cur p = Some (0, rtc_now p, p') \<and> (rtc_inv p' \<and> rtc_tick_free p') \<and>
        rtc_armed p' = rtc_armed p \<and> rtc_now p' = rtc_now p"
      using value_rd_keeps [OF v] value_rd_steady [OF _ v] i v up
      by (simp add: hwt_get_current_def rtc_hwt_simps hwt64_get_current_def get_value_def
          hwt_get_rollovers_def hwt64_get_rollovers_def rtc_armed_def rtc_now_def Let_def)
    show "rtc_ahead e p" if n: "rtc_now p < e"
    proof -
      have "secs v < hi_32 e \<or> secs v = hi_32 e \<and> nsec v < lo_32 e"
        using n v by (simp add: rtc_now_def Let_def u64_less)
      moreover have "secs v < hi_32 e \<Longrightarrow> secs v + 1 \<le> hi_32 e" by (rule inc_le)
      ultimately show ?thesis using v by (auto simp: rtc_ahead_def is_valid_alarm_def)
    qed
  qed
  ultimately show "hwt_clock (rtc_hwt used) rtc_steady rtc_armed rtc_view rtc_ahead rtc_now"
    unfolding hwt_clock_def rtc_steady_def by blast
qed

section \<open>Properties\<close>

lemma cycles_back:
  assumes "ms < (1000 :: nat)"
  shows "ms * 1024 div 1000 < 1024" "ms * 1024 div 1000 * 1000 div 1024 \<le> ms" "ms \<le> ms * 1024 div 1000 * 1000 div 1024 + 1"
proof -
  define c where "c = ms * 1024 div 1000"
  define q where "q = c * 1000 div 1024"
  have c: "c * 1000 \<le> ms * 1024" "ms * 1024 < 1000 + c * 1000"
    unfolding c_def by (rule div_times_less_eq_dividend, rule dividend_less_div_times) simp
  have q: "q * 1024 \<le> c * 1000" "c * 1000 < 1024 + q * 1024"
    unfolding q_def by (rule div_times_less_eq_dividend, rule dividend_less_div_times) simp
  show "ms * 1024 div 1000 < 1024" unfolding c_def [symmetric] using c(1) assms by linarith
  show "ms * 1024 div 1000 * 1000 div 1024 \<le> ms"
    unfolding c_def [symmetric] q_def [symmetric] using c(1) q(1) by linarith
  show "ms \<le> ms * 1024 div 1000 * 1000 div 1024 + 1"
    unfolding c_def [symmetric] q_def [symmetric] using c(2) q(2) by linarith
qed

lemma rtc_round_bounds:
  assumes "ns < 1000000000"
  shows "unat (rtc_round ns) \<le> unat ns \<and> unat ns < unat (rtc_round ns) + 2000000"
proof -
  let ?ms = "unat ns div 1000000"
  let ?c = "?ms * 1024 div 1000"
  have ns: "unat ns < 1000000000" using assms by (simp add: word_less_nat_alt)
  then have ms: "?ms < 1000" by (simp add: less_mult_imp_div_less)
  note cb = cycles_back [OF ms]
  have u1: "unat (U32NS_U16MS ns) = ?ms" by (simp add: U32NS_U16MS_def unat_div_distrib)
  have "unat (U32NS_U16MS ns * 1024) = ?ms * 1024"
    using ms by (simp add: unat_word_ariths u1)
  then have u2: "unat (U16MS_CYCLES (U32NS_U16MS ns)) = ?c" by (simp add: U16MS_CYCLES_def unat_div_distrib)
  have u3: "unat ((ucast (U16MS_CYCLES (U32NS_U16MS ns)) :: u16) AND 0x3FF) = ?c"
    using cb(1) u2
    by (simp only: mask10 take_bit_eq_mask [symmetric] unsigned_take_bit_eq unsigned_ucast_eq) (simp add: take_bit_eq_mod)
  have u4: "unat (CYCLES_U16MS (ucast ((ucast (U16MS_CYCLES (U32NS_U16MS ns)) :: u16) AND 0x3FF))) = ?c * 1000 div 1024"
    using cb(1) u3 by (simp add: CYCLES_U16MS_def unat_div_distrib unat_word_ariths)
  have u5: "unat (rtc_round ns) = ?c * 1000 div 1024 * 1000000"
    using cb(2) ms u4 by (simp add: rtc_round_def U16MS_U32NS_def unat_word_ariths)
  have "?ms * 1000000 \<le> unat ns" "unat ns < ?ms * 1000000 + 1000000"
    using div_times_less_eq_dividend [of "unat ns" 1000000] dividend_less_div_times [of 1000000 "unat ns"] by simp_all
  then show ?thesis using cb(2,3) u5 by linarith
qed

text \<open>
  C34. A wall-clock alarm that is accepted is set with a known precision: the alarm the clock then
  holds has the seconds asked for, is never later than the one asked for, and less than two
  milliseconds earlier.
\<close>

theorem cc_rtc_set_alarm_precision:
  assumes "rtc_inv s" "cc_rtc_set_alarm (Some a) s = Some (0, s')" "nsec a < 1000000000"
  shows "cc_rtc_has_alarm s' = Some True \<and> secs (rtc_alarm_rd s') = secs a \<and>
    unat (nsec (rtc_alarm_rd s')) \<le> unat (nsec a) \<and> unat (nsec a) < unat (nsec (rtc_alarm_rd s')) + 2000000"
proof -
  obtain v s1 where v: "rtc_value_rd s = (v, s1)" by (rule prod.exhaust)
  have "fst (is_valid_alarm a v)"
    using assms(2) v by (auto simp: cc_rtc_set_alarm_def set_alarm_def split: if_splits)
  from set_alarm_valid [OF assms(1) v this] assms(2) rtc_round_bounds [OF assms(3)] show ?thesis
    by (auto simp: cc_rtc_set_alarm_def cc_rtc_has_alarm_def rtc_inv_def)
qed

text \<open>An alarm in the past is lost without notice: \<open>hwt64_create_alarm\<close> reports success for an
  expiry that is not after the current time, but no alarm is set, so the timer framework, which
  takes the timer for scheduled, waits for an interrupt that does not come.
\<close>

theorem hwt64_create_alarm_past_lost:
  assumes "rtc_inv s" "\<not> has_alarm s" "rtc_value_rd s = (v, s1)"
    "u64_num (U64 (hi_32 e) (lo_32 e)) \<le> u64_num (U64 (secs v) (nsec v))" "secs v < 0xFFFFFFFF"
  shows "hwt64_create_alarm (Some 0) e mode s = Some (0, s1) \<and> \<not> has_alarm s1 \<and> HIB_RTC_IRQ_ENABLE (hib s1) = HIB_RTC_IRQ_ENABLE (hib s)"
proof -
  have "\<not> fst (is_valid_alarm \<lparr>secs = hi_32 e, nsec = lo_32 e\<rparr> v)"
  proof -
    have b: "unat (lo_32 e) < 4294967296" "unat (nsec v) < 4294967296" by (rule unat32_bound)+
    have n: "unat (hi_32 e) * 4294967296 + unat (lo_32 e) \<le> unat (secs v) * 4294967296 + unat (nsec v)"
      using assms(4) by (simp add: u64_num_def)
    have p: "unat (secs v + 1) = unat (secs v) + 1"
      using assms(5) by (subst unat_add_small) (simp_all add: word_less_nat_alt)
    show ?thesis
    proof (cases "lo_32 e \<le> nsec v")
      case True
      then have "unat (hi_32 e) < unat (secs v) + 1" using n b by linarith
      then show ?thesis using True p by (simp add: is_valid_alarm_def word_less_nat_alt)
    next
      case False
      then have "unat (nsec v) < unat (lo_32 e)" by (simp add: word_le_nat_alt)
      then have "unat (hi_32 e) < unat (secs v)" using n b by linarith
      then show ?thesis using False by (simp add: is_valid_alarm_def word_less_nat_alt)
    qed
  qed
  moreover have "HIB_RTC_IRQ_ENABLE (hib s1) = HIB_RTC_IRQ_ENABLE (hib s)"
    using assms(3) by (auto simp: rtc_value_rd_def PRCMRTCGet_def SCC_get Let_def latch_def split: prod.splits if_splits)
  ultimately show ?thesis
    using assms(2,3) value_rd_keeps(3) [OF assms(3)]
    by (simp add: hwt64_create_alarm_def setup_alarm_def set_alarm_def)
qed

text \<open>The time to an alarm is never reported: \<open>cc_rtc_time_to_alarm\<close> leaves the seconds of the
  caller's record as they were and puts the remaining seconds where the nanoseconds belong.
\<close>

theorem cc_rtc_time_to_alarm_seconds_lost:
  assumes "cc_rtc_time_to_alarm tta s = Some (0, tta', s')"
  shows "secs tta' = secs tta \<and>
    (nsec tta' = secs (rtc_alarm_rd s) - secs (fst (rtc_value_rd s)) \<or>
     nsec tta' = secs (rtc_alarm_rd s) - secs (fst (rtc_value_rd s)) - 1)"
  using assms
  by (auto simp: cc_rtc_time_to_alarm_def time_to_alarm_def is_valid_alarm_def Let_def split: if_splits prod.splits)

section \<open>Witnesses\<close>

definition sample_rtc :: rtc_state where
  "sample_rtc = \<lparr>hib = sample_regs, rtc_up = True, rtc_base_addr = 0, rtc_freq_hz = 32768, rtc_cb = Some (Tfw 1),
     rtc_set_irq = Some 0, has_alarm = False\<rparr>"

lemma sample_rtc_inv: "rtc_inv sample_rtc"
  by (simp add: rtc_inv_def sample_rtc_def sample_used)

lemma sample_rtc_value: "fst (rtc_value_rd sample_rtc) = \<lparr>secs = 0, nsec = 0\<rparr>"
proof -
  have "fst (PRCMRTCGet sample_regs) = (0, 0)"
    using sample_used
    by (simp add: PRCMRTCGet_def SCC_get Let_def RTC_SECS_IN_U64MSEC_def RTC_MSEC_IN_U64MSEC_def RTC_U64MSEC_MK_def rtc_access)
      (simp add: sample_regs_def)
  then show ?thesis
    by (auto simp: rtc_value_rd_def sample_rtc_def U16MS_U32NS_def CYCLES_U16MS_def split: prod.splits)
qed

theorem cc_rtc_set_alarm_precision_witness:
  "\<exists>s'. cc_rtc_set_alarm (Some \<lparr>secs = 10, nsec = 500000000\<rparr>) sample_rtc = Some (0, s') \<and>
     secs (rtc_alarm_rd s') = 10"
proof -
  let ?a = "\<lparr>secs = 10, nsec = 500000000\<rparr>"
  obtain v s1 where v: "rtc_value_rd sample_rtc = (v, s1)" by (rule prod.exhaust)
  have "fst (is_valid_alarm ?a v)" using sample_rtc_value v by (simp add: is_valid_alarm_def)
  from set_alarm_valid [OF sample_rtc_inv v this]
  obtain s' where s: "cc_rtc_set_alarm (Some ?a) sample_rtc = Some (0, s')" by (auto simp: cc_rtc_set_alarm_def)
  from cc_rtc_set_alarm_precision [OF sample_rtc_inv s] s show ?thesis by simp
qed

theorem hwt64_create_alarm_past_lost_witness:
  "\<exists>s'. hwt64_create_alarm (Some 0) (U64 0 0) HW_TIMER_MONOTONE sample_rtc = Some (0, s') \<and> \<not> has_alarm s'"
proof -
  obtain v s1 where v: "rtc_value_rd sample_rtc = (v, s1)" by (rule prod.exhaust)
  have z: "v = \<lparr>secs = 0, nsec = 0\<rparr>" using sample_rtc_value v by simp
  show ?thesis
    using hwt64_create_alarm_past_lost [OF sample_rtc_inv _ v, of "U64 0 0" HW_TIMER_MONOTONE]
    by (auto simp: z sample_rtc_def)
qed

theorem cc_rtc_time_to_alarm_seconds_lost_witness:
  "\<exists>tta' s'. cc_rtc_time_to_alarm \<lparr>secs = 3, nsec = 0\<rparr>
     (sample_rtc\<lparr>has_alarm := True, hib := PRCMRTCMatchSet 10 0 sample_regs\<rparr>) = Some (0, tta', s') \<and> secs tta' = 3"
proof -
  let ?s = "sample_rtc\<lparr>has_alarm := True, hib := PRCMRTCMatchSet 10 0 sample_regs\<rparr>"
  have a: "rtc_alarm_rd ?s = \<lparr>secs = 10, nsec = 0\<rparr>"
    by (simp add: rtc_alarm_rd_def PRCMRTCMatchGet_after_set_aux sample_used U16MS_U32NS_def CYCLES_U16MS_def)
  have "fst (PRCMRTCGet (PRCMRTCMatchSet 10 0 sample_regs)) = fst (PRCMRTCGet sample_regs)"
    using sample_used by (simp add: PRCMRTCGet_def PRCMRTCMatchSet_def SCC_get Let_def rtc_access)
  then have v: "fst (rtc_value_rd ?s) = \<lparr>secs = 0, nsec = 0\<rparr>"
    using sample_rtc_value by (auto simp: rtc_value_rd_def sample_rtc_def split: prod.splits)
  obtain v s1 where e: "rtc_value_rd ?s = (v, s1)" by (rule prod.exhaust)
  have up: "rtc_up ?s" "has_alarm ?s" by (simp_all add: sample_rtc_def)
  have "\<exists>tta' s'. cc_rtc_time_to_alarm \<lparr>secs = 3, nsec = 0\<rparr> ?s = Some (0, tta', s')"
    using up v e by (simp add: cc_rtc_time_to_alarm_def time_to_alarm_def a is_valid_alarm_def)
  then show ?thesis using cc_rtc_time_to_alarm_seconds_lost by fastforce
qed

end
