(* ===== verification/Timer_Drv.thy ===== *)
theory Timer_Drv
  imports CC_Prelude
begin

text \<open>
  The general-purpose timer modules of \<open>driverlib/timer.c\<close>, as far as the timer HAL uses them.  The
  registers are a map from addresses to words.  Three of them are not plain storage: the counter
  of a module, \<open>TAR\<close> or \<open>TBR\<close>, is given by \<open>counter_at\<close> for the \<open>n\<close>-th read; the masked status is
  the raw status under the interrupt mask; and writing ones to \<open>ICR\<close> clears status bits.  The
  arguments' checks are \<open>ASSERT\<close>s, which exist in debug builds only.
\<close>

record gptm =
  reg :: "u32 \<Rightarrow> u32"
  counter_at :: "u32 \<Rightarrow> nat \<Rightarrow> u32"
  counter_reads :: nat

definition TIMER_O_CFG :: u32 where "TIMER_O_CFG = 0x00"
definition TIMER_O_TAMR :: u32 where "TIMER_O_TAMR = 0x04"
definition TIMER_O_TBMR :: u32 where "TIMER_O_TBMR = 0x08"
definition TIMER_O_CTL :: u32 where "TIMER_O_CTL = 0x0C"
definition TIMER_O_IMR :: u32 where "TIMER_O_IMR = 0x18"
definition TIMER_O_RIS :: u32 where "TIMER_O_RIS = 0x1C"
definition TIMER_O_TAILR :: u32 where "TIMER_O_TAILR = 0x28"
definition TIMER_O_TBILR :: u32 where "TIMER_O_TBILR = 0x2C"
definition TIMER_O_TAMATCHR :: u32 where "TIMER_O_TAMATCHR = 0x30"
definition TIMER_O_TBMATCHR :: u32 where "TIMER_O_TBMATCHR = 0x34"
definition TIMER_O_TAR :: u32 where "TIMER_O_TAR = 0x48"
definition TIMER_O_TBR :: u32 where "TIMER_O_TBR = 0x4C"

definition TIMER_CTL_TAEN :: u32 where "TIMER_CTL_TAEN = 0x001"
definition TIMER_CTL_TBEN :: u32 where "TIMER_CTL_TBEN = 0x100"
definition TIMER_CFG_A_ONE_SHOT :: u32 where "TIMER_CFG_A_ONE_SHOT = 0x21"
definition TIMER_CFG_PERIODIC :: u32 where "TIMER_CFG_PERIODIC = 0x22"
definition TIMER_CFG_PERIODIC_UP :: u32 where "TIMER_CFG_PERIODIC_UP = 0x32"
definition TIMER_TIMA_TIMEOUT :: u32 where "TIMER_TIMA_TIMEOUT = 0x01"
definition TIMER_TIMA_MATCH :: u32 where "TIMER_TIMA_MATCH = 0x10"
definition TIMER_A :: u32 where "TIMER_A = 0xff"
definition TIMER_B :: u32 where "TIMER_B = 0xff00"

lemmas timer_consts =
  TIMER_O_CFG_def TIMER_O_TAMR_def TIMER_O_TBMR_def TIMER_O_CTL_def TIMER_O_IMR_def TIMER_O_RIS_def
  TIMER_O_TAILR_def TIMER_O_TBILR_def TIMER_O_TAMATCHR_def TIMER_O_TBMATCHR_def TIMER_O_TAR_def TIMER_O_TBR_def
  TIMER_CTL_TAEN_def TIMER_CTL_TBEN_def TIMER_CFG_A_ONE_SHOT_def TIMER_CFG_PERIODIC_def TIMER_CFG_PERIODIC_UP_def
  TIMER_TIMA_TIMEOUT_def TIMER_TIMA_MATCH_def TIMER_A_def TIMER_B_def

definition set_reg :: "u32 \<Rightarrow> u32 \<Rightarrow> gptm \<Rightarrow> gptm" where
  "set_reg a v g = g\<lparr>reg := (reg g)(a := v)\<rparr>"

definition TimerEnable :: "u32 \<Rightarrow> u32 \<Rightarrow> gptm \<Rightarrow> gptm" where
  "TimerEnable ulBase ulTimer g =
     set_reg (ulBase + TIMER_O_CTL)
       (reg g (ulBase + TIMER_O_CTL) OR (ulTimer AND (TIMER_CTL_TAEN OR TIMER_CTL_TBEN))) g"

definition TimerDisable :: "u32 \<Rightarrow> u32 \<Rightarrow> gptm \<Rightarrow> gptm" where
  "TimerDisable ulBase ulTimer g =
     set_reg (ulBase + TIMER_O_CTL)
       (reg g (ulBase + TIMER_O_CTL) AND NOT (ulTimer AND (TIMER_CTL_TAEN OR TIMER_CTL_TBEN))) g"

definition TimerConfigure :: "u32 \<Rightarrow> u32 \<Rightarrow> gptm \<Rightarrow> gptm" where
  "TimerConfigure ulBase ulConfig g =
     (let g1 = set_reg 0x440260B0 0xFF g;
          g2 = set_reg (ulBase + TIMER_O_CTL)
                 (reg g1 (ulBase + TIMER_O_CTL) AND NOT (TIMER_CTL_TAEN OR TIMER_CTL_TBEN)) g1;
          g3 = set_reg (ulBase + TIMER_O_CFG) (drop_bit 24 ulConfig) g2;
          g4 = set_reg (ulBase + TIMER_O_TAMR) (ulConfig AND 255) g3
      in set_reg (ulBase + TIMER_O_TBMR) (drop_bit 8 ulConfig AND 255) g4)"

definition TimerLoadSet :: "u32 \<Rightarrow> u32 \<Rightarrow> u32 \<Rightarrow> gptm \<Rightarrow> gptm" where
  "TimerLoadSet ulBase ulTimer ulValue g =
     (let g1 = (if has_flag ulTimer TIMER_A then set_reg (ulBase + TIMER_O_TAILR) ulValue g else g)
      in if has_flag ulTimer TIMER_B then set_reg (ulBase + TIMER_O_TBILR) ulValue g1 else g1)"

definition TimerLoadGet :: "u32 \<Rightarrow> u32 \<Rightarrow> gptm \<Rightarrow> u32" where
  "TimerLoadGet ulBase ulTimer g =
     (if ulTimer = TIMER_A then reg g (ulBase + TIMER_O_TAILR) else reg g (ulBase + TIMER_O_TBILR))"

definition TimerValueGet :: "u32 \<Rightarrow> u32 \<Rightarrow> gptm \<Rightarrow> u32 \<times> gptm" where
  "TimerValueGet ulBase ulTimer g =
     (counter_at g (ulBase + (if ulTimer = TIMER_A then TIMER_O_TAR else TIMER_O_TBR)) (counter_reads g),
      g\<lparr>counter_reads := Suc (counter_reads g)\<rparr>)"

definition TimerMatchSet :: "u32 \<Rightarrow> u32 \<Rightarrow> u32 \<Rightarrow> gptm \<Rightarrow> gptm" where
  "TimerMatchSet ulBase ulTimer ulValue g =
     (let g1 = (if has_flag ulTimer TIMER_A then set_reg (ulBase + TIMER_O_TAMATCHR) ulValue g else g)
      in if has_flag ulTimer TIMER_B then set_reg (ulBase + TIMER_O_TBMATCHR) ulValue g1 else g1)"

definition TimerMatchGet :: "u32 \<Rightarrow> u32 \<Rightarrow> gptm \<Rightarrow> u32" where
  "TimerMatchGet ulBase ulTimer g =
     (if ulTimer = TIMER_A then reg g (ulBase + TIMER_O_TAMATCHR) else reg g (ulBase + TIMER_O_TBMATCHR))"

definition TimerIntEnable :: "u32 \<Rightarrow> u32 \<Rightarrow> gptm \<Rightarrow> gptm" where
  "TimerIntEnable ulBase ulIntFlags g =
     set_reg (ulBase + TIMER_O_IMR) (reg g (ulBase + TIMER_O_IMR) OR ulIntFlags) g"

definition TimerIntDisable :: "u32 \<Rightarrow> u32 \<Rightarrow> gptm \<Rightarrow> gptm" where
  "TimerIntDisable ulBase ulIntFlags g =
     set_reg (ulBase + TIMER_O_IMR) (reg g (ulBase + TIMER_O_IMR) AND NOT ulIntFlags) g"

definition TimerIntStatus :: "u32 \<Rightarrow> bool \<Rightarrow> gptm \<Rightarrow> u32" where
  "TimerIntStatus ulBase bMasked g =
     (if bMasked then reg g (ulBase + TIMER_O_RIS) AND reg g (ulBase + TIMER_O_IMR)
      else reg g (ulBase + TIMER_O_RIS))"

definition TimerIntClear :: "u32 \<Rightarrow> u32 \<Rightarrow> gptm \<Rightarrow> gptm" where
  "TimerIntClear ulBase ulIntFlags g =
     set_reg (ulBase + TIMER_O_RIS) (reg g (ulBase + TIMER_O_RIS) AND NOT ulIntFlags) g"

section \<open>Register facts\<close>

lemma reg_set_reg [simp]: "reg (set_reg a v g) b = (if b = a then v else reg g b)"
  by (simp add: set_reg_def)

lemma counter_set_reg [simp]: "counter_at (set_reg a v g) = counter_at g" "counter_reads (set_reg a v g) = counter_reads g"
  by (simp_all add: set_reg_def)

lemma timer_a [simp]: "has_flag TIMER_A TIMER_A" "\<not> has_flag TIMER_A TIMER_B"
  by (simp_all add: has_flag_def timer_consts)

lemma base_eq [simp]: "(b + x = b + y) = (x = (y :: u32))"
  by simp

end
