(* ===== verification/Hw_Timer32.thy ===== *)
theory Hw_Timer32
  imports Rtc_Hal Timer_Drv
begin

text \<open>
  The 32-bit hardware timers, \<open>middleware/driver/hal/hw_timer32.c\<close>, on the timer modules of
  \<open>Timer_Drv\<close>: one-shot and periodic count-down and the monotone counter the timer framework uses.
  A handle is an index into \<open>timers32\<close>.  The calls that disable and enable interrupts have no
  effect on the state.
\<close>

section \<open>State\<close>

record hw_timer32 =
  base_addr :: u32
  freq_hz :: u32
  irq_mask :: u32
  n_rollovers :: u32
  hwt32_cb :: "hal_cb option"
  op_mode :: cc_hw_timer_mode
  hwt32_next :: "nat option"

record hwt32_state =
  timers32 :: "nat \<Rightarrow> hw_timer32"
  hwt_list :: "nat option"
  init_flag :: bool
  gptm :: gptm

definition MAX_HW_TIMER32 :: nat where "MAX_HW_TIMER32 = 1"

definition hwt_upd :: "nat \<Rightarrow> (hw_timer32 \<Rightarrow> hw_timer32) \<Rightarrow> hwt32_state \<Rightarrow> hwt32_state" where
  "hwt_upd i f s = s\<lparr>timers32 := (timers32 s)(i := f (timers32 s i))\<rparr>"

definition on_gptm :: "(gptm \<Rightarrow> gptm) \<Rightarrow> hwt32_state \<Rightarrow> hwt32_state" where
  "on_gptm f s = s\<lparr>gptm := f (gptm s)\<rparr>"

section \<open>Operations\<close>

definition hwt32_set_op_mode :: "nat \<Rightarrow> cc_hw_timer_mode \<Rightarrow> hwt32_state \<Rightarrow> hwt32_state" where
  "hwt32_set_op_mode i mode s = hwt_upd i (\<lambda>t. t\<lparr>op_mode := mode\<rparr>) s"

definition hwt32_is_running :: "nat \<Rightarrow> hwt32_state \<Rightarrow> bool" where
  "hwt32_is_running i s \<longleftrightarrow> op_mode (timers32 s i) \<noteq> HW_TIMER_NOT_USED"

definition cc_hwt32_is_running :: "cc_hndl \<Rightarrow> hwt32_state \<Rightarrow> bool option" where
  "cc_hwt32_is_running h s = Some (case h of None \<Rightarrow> False | Some i \<Rightarrow> hwt32_is_running i s)"

definition hwt32_config_one_shot :: "nat \<Rightarrow> u32 \<Rightarrow> hwt32_state \<Rightarrow> int \<times> hwt32_state" where
  "hwt32_config_one_shot i expires s =
     (let b = base_addr (timers32 s i);
          s1 = on_gptm (TimerConfigure b TIMER_CFG_A_ONE_SHOT) s;
          s2 = on_gptm (TimerLoadSet b TIMER_A expires) s1
      in (0, hwt_upd i (\<lambda>t. t\<lparr>irq_mask := TIMER_TIMA_TIMEOUT\<rparr>) s2))"

definition hwt32_config_periodic :: "nat \<Rightarrow> u32 \<Rightarrow> hwt32_state \<Rightarrow> int \<times> hwt32_state" where
  "hwt32_config_periodic i expires s =
     (let b = base_addr (timers32 s i);
          s1 = on_gptm (TimerConfigure b TIMER_CFG_PERIODIC) s;
          s2 = on_gptm (TimerLoadSet b TIMER_A expires) s1
      in (0, hwt_upd i (\<lambda>t. t\<lparr>irq_mask := TIMER_TIMA_TIMEOUT\<rparr>) s2))"

definition hwt32_config_monotone :: "nat \<Rightarrow> u32 \<Rightarrow> hwt32_state \<Rightarrow> int \<times> hwt32_state" where
  "hwt32_config_monotone i expires s =
     (let b = base_addr (timers32 s i);
          s1 = on_gptm (TimerConfigure b TIMER_CFG_PERIODIC_UP) s;
          s2 = on_gptm (TimerLoadSet b TIMER_A 0xFFFFFFFF) s1;
          s3 = on_gptm (TimerMatchSet b TIMER_A expires) s2
      in (0, hwt_upd i (\<lambda>t. t\<lparr>irq_mask := TIMER_TIMA_TIMEOUT OR TIMER_TIMA_MATCH\<rparr>) s3))"

definition hwt32_configure :: "nat \<Rightarrow> u32 \<Rightarrow> cc_hw_timer_mode \<Rightarrow> hwt32_state \<Rightarrow> int \<times> hwt32_state" where
  "hwt32_configure i expires mode s =
     (case mode of
        HW_TIMER_ONE_SHOT \<Rightarrow> hwt32_config_one_shot i expires s
      | HW_TIMER_PERIODIC \<Rightarrow> hwt32_config_periodic i expires s
      | HW_TIMER_MONOTONE \<Rightarrow> hwt32_config_monotone i expires s
      | _ \<Rightarrow> (-1, s))"

definition hwt32_start :: "nat \<Rightarrow> u32 \<Rightarrow> cc_hw_timer_mode \<Rightarrow> hwt32_state \<Rightarrow> int \<times> hwt32_state" where
  "hwt32_start i expires mode s =
     (let (r, s1) = hwt32_configure i expires mode s in
      if r \<noteq> 0 then (-1, s1)
      else
        let s2 = hwt32_set_op_mode i mode s1;
            t = timers32 s2 i;
            s3 = on_gptm (TimerIntEnable (base_addr t) (irq_mask t)) s2
        in (0, on_gptm (TimerEnable (base_addr t) TIMER_A) s3))"

definition cc_hwt32_start ::
  "cc_hndl \<Rightarrow> u32 \<Rightarrow> cc_hw_timer_mode \<Rightarrow> hwt32_state \<Rightarrow> (int \<times> hwt32_state) option" where
  "cc_hwt32_start h expires mode s =
     Some (case h of
             None \<Rightarrow> (-1, s)
           | Some i \<Rightarrow> if \<not> hwt32_is_running i s then hwt32_start i expires mode s else (-1, s))"

definition hwt32_update :: "nat \<Rightarrow> u32 \<Rightarrow> hwt32_state \<Rightarrow> int \<times> hwt32_state" where
  "hwt32_update i expires s =
     (let b = base_addr (timers32 s i) in
      case op_mode (timers32 s i) of
        HW_TIMER_NOT_USED \<Rightarrow> (-1, s)
      | HW_TIMER_MONOTONE \<Rightarrow> (0, on_gptm (TimerMatchSet b TIMER_A expires) s)
      | _ \<Rightarrow> (0, on_gptm (TimerLoadSet b TIMER_A expires) s))"

definition cc_hwt32_update :: "cc_hndl \<Rightarrow> u32 \<Rightarrow> hwt32_state \<Rightarrow> (int \<times> hwt32_state) option" where
  "cc_hwt32_update h expires s =
     Some (case h of
             None \<Rightarrow> (-1, s)
           | Some i \<Rightarrow> if hwt32_is_running i s then hwt32_update i expires s else (-1, s))"

definition hwt32_stop :: "nat \<Rightarrow> hwt32_state \<Rightarrow> int \<times> hwt32_state" where
  "hwt32_stop i s =
     (let t = timers32 s i;
          s1 = on_gptm (TimerDisable (base_addr t) TIMER_A) s;
          s2 = on_gptm (TimerIntDisable (base_addr t) (irq_mask t)) s1;
          s3 = hwt32_set_op_mode i HW_TIMER_NOT_USED s2
      in (0, hwt_upd i (\<lambda>t. t\<lparr>n_rollovers := 0\<rparr>) s3))"

definition cc_hwt32_stop :: "cc_hndl \<Rightarrow> hwt32_state \<Rightarrow> (int \<times> hwt32_state) option" where
  "cc_hwt32_stop h s =
     Some (case h of
             None \<Rightarrow> (-1, s)
           | Some i \<Rightarrow> if hwt32_is_running i s then hwt32_stop i s else (-1, s))"

definition u32_wrap_offset_v1_to_v2 :: "u32 \<Rightarrow> u32 \<Rightarrow> u32" where
  "u32_wrap_offset_v1_to_v2 v1 v2 = (if v2 > v1 then v2 - v1 else v1 + NOT v2 + 1)"

definition read_counter :: "nat \<Rightarrow> hwt32_state \<Rightarrow> u32 \<times> hwt32_state" where
  "read_counter i s =
     (let (v, g) = TimerValueGet (base_addr (timers32 s i)) TIMER_A (gptm s) in (v, s\<lparr>gptm := g\<rparr>))"

definition hwt32_get_remaining :: "nat \<Rightarrow> u32 \<Rightarrow> hwt32_state \<Rightarrow> int \<times> u32 \<times> hwt32_state" where
  "hwt32_get_remaining i remaining s =
     (let b = base_addr (timers32 s i) in
      case op_mode (timers32 s i) of
        HW_TIMER_NOT_USED \<Rightarrow> (-1, remaining, s)
      | HW_TIMER_MONOTONE \<Rightarrow>
          let m = TimerMatchGet b TIMER_A (gptm s);
              (v, s1) = read_counter i s
          in (0, u32_wrap_offset_v1_to_v2 m v, s1)
      | _ \<Rightarrow> let (v, s1) = read_counter i s in (0, v, s1))"

text \<open>The result is 0 also for a timer that does not run.\<close>

definition cc_hwt32_get_remaining ::
  "cc_hndl \<Rightarrow> u32 \<Rightarrow> hwt32_state \<Rightarrow> (int \<times> u32 \<times> hwt32_state) option" where
  "cc_hwt32_get_remaining h remaining s =
     Some (case h of
             None \<Rightarrow> (0, remaining, s)
           | Some i \<Rightarrow> if hwt32_is_running i s then hwt32_get_remaining i remaining s else (0, remaining, s))"

definition hwt32_get_current :: "nat \<Rightarrow> u32 \<Rightarrow> hwt32_state \<Rightarrow> int \<times> u32 \<times> hwt32_state" where
  "hwt32_get_current i current s =
     (let b = base_addr (timers32 s i) in
      case op_mode (timers32 s i) of
        HW_TIMER_NOT_USED \<Rightarrow> (-1, current, s)
      | HW_TIMER_MONOTONE \<Rightarrow> let (v, s1) = read_counter i s in (0, v, s1)
      | _ \<Rightarrow> let l = TimerLoadGet b TIMER_A (gptm s); (v, s1) = read_counter i s in (0, l - v, s1))"

definition cc_hwt32_get_current ::
  "cc_hndl \<Rightarrow> u32 \<Rightarrow> hwt32_state \<Rightarrow> (int \<times> u32 \<times> hwt32_state) option" where
  "cc_hwt32_get_current h current s =
     Some (case h of
             None \<Rightarrow> (-1, current, s)
           | Some i \<Rightarrow>
               if hwt32_is_running i s
               then let (v, s1) = read_counter i s in hwt32_get_current i v s1
               else (-1, current, s))"

definition cc_hwt32_get_rollovers :: "cc_hndl \<Rightarrow> hwt32_state \<Rightarrow> u32 option" where
  "cc_hwt32_get_rollovers h s =
     Some (case h of
             None \<Rightarrow> 0
           | Some i \<Rightarrow> if hwt32_is_running i s then n_rollovers (timers32 s i) else 0)"

definition cc_hwt32_get_frequency :: "cc_hndl \<Rightarrow> hwt32_state \<Rightarrow> u32 option" where
  "cc_hwt32_get_frequency h s = Some (case h of None \<Rightarrow> 0 | Some i \<Rightarrow> freq_hz (timers32 s i))"

definition cc_hwt32_register_cb :: "cc_hndl \<Rightarrow> nat \<Rightarrow> hwt32_state \<Rightarrow> (int \<times> hwt32_state) option" where
  "cc_hwt32_register_cb h hwt s =
     Some (case h of
             None \<Rightarrow> (-1, s)
           | Some i \<Rightarrow> if hwt32_cb (timers32 s i) \<noteq> None then (-1, s)
                       else (0, hwt_upd i (\<lambda>t. t\<lparr>hwt32_cb := Some (Tfw hwt)\<rparr>) s))"

definition hwt32_ops :: "hwt32_state hw_timer_ops" where
  "hwt32_ops = DEF_HWT32_OPS cc_hwt32_start cc_hwt32_update cc_hwt32_stop cc_hwt32_is_running
     cc_hwt32_get_remaining cc_hwt32_get_current cc_hwt32_get_rollovers cc_hwt32_get_frequency cc_hwt32_register_cb"

section \<open>Initialisation and interrupt\<close>

definition hwt32_push :: "nat \<Rightarrow> hwt32_state \<Rightarrow> hwt32_state" where
  "hwt32_push i s = (hwt_upd i (\<lambda>t. t\<lparr>hwt32_next := hwt_list s\<rparr>) s)\<lparr>hwt_list := Some i\<rparr>"

definition hwt32_setup :: "hwt32_state \<Rightarrow> hwt32_state" where
  "hwt32_setup s = fold hwt32_push [0..<MAX_HW_TIMER32] s"

text \<open>
  \<open>zero_mode\<close> is the value of the mode field after \<open>memset\<close>: it is 0, which names no mode, and is
  overwritten before the timer can be used.
\<close>

definition cc_hwt32_init ::
  "(u32 \<Rightarrow> cc_hndl \<Rightarrow> hwt32_state hw_timer_ops \<Rightarrow> hwt32_state \<Rightarrow> (int \<times> hwt32_state) option) \<Rightarrow>
   cc_hw_timer_mode \<Rightarrow> hw_timer_cfg option \<Rightarrow> hwt32_state \<Rightarrow> (cc_hndl \<times> hwt32_state) option" where
  "cc_hwt32_init tfw zero_mode cfg s =
     (let zero = \<lparr>base_addr = 0, freq_hz = 0, irq_mask = 0, n_rollovers = 0, hwt32_cb = None,
                  op_mode = zero_mode, hwt32_next = None\<rparr>;
          s1 = (if init_flag s then s
                else (hwt32_setup (s\<lparr>timers32 := (\<lambda>_. zero)\<rparr>))\<lparr>init_flag := True\<rparr>)
      in case hwt_list s1 of
           None \<Rightarrow> Some (None, s1)
         | Some i \<Rightarrow>
             (case cfg of
                None \<Rightarrow> Some (None, s1)
              | Some c \<Rightarrow>
                  if \<not> user_tfw c \<and> cfg_timeout_cb c = None then Some (None, s1)
                  else do {
                    (r, s2) \<leftarrow> (if user_tfw c then tfw (cfg_source c) (Some i) hwt32_ops s1
                                else Some (0, hwt_upd i (\<lambda>t. t\<lparr>hwt32_cb := cfg_timeout_cb c\<rparr>) s1));
                    if r \<noteq> 0 then Some (None, s2)
                    else
                      let s3 = s2\<lparr>hwt_list := hwt32_next (timers32 s2 i)\<rparr>;
                          s4 = hwt_upd i (\<lambda>t. t\<lparr>hwt32_next := None, base_addr := cfg_base_addr c,
                                                freq_hz := cfg_freq_hz c\<rparr>) s3
                      in Some (Some i, hwt32_set_op_mode i HW_TIMER_NOT_USED s4)
                  }))"

text \<open>\<open>call\<close> is the call of the timeout callback.\<close>

definition hwt32_handle_timeout ::
  "(hal_cb \<Rightarrow> hwt32_state \<Rightarrow> hwt32_state option) \<Rightarrow> nat \<Rightarrow> hwt32_state \<Rightarrow> hwt32_state option" where
  "hwt32_handle_timeout call i s =
     (case op_mode (timers32 s i) of
        HW_TIMER_NOT_USED \<Rightarrow> Some s
      | HW_TIMER_ONE_SHOT \<Rightarrow> do {
          cb \<leftarrow> hwt32_cb (timers32 s i);
          s1 \<leftarrow> call cb s;
          Some (snd (hwt32_stop i s1))
        }
      | _ \<Rightarrow> do { cb \<leftarrow> hwt32_cb (timers32 s i); call cb s })"

definition cc_hwt32_isr ::
  "(hal_cb \<Rightarrow> hwt32_state \<Rightarrow> hwt32_state option) \<Rightarrow> cc_hndl \<Rightarrow> hwt32_state \<Rightarrow> hwt32_state option" where
  "cc_hwt32_isr call h s =
     (case h of
        None \<Rightarrow> Some s
      | Some i \<Rightarrow>
          let t = timers32 s i;
              status = TimerIntStatus (base_addr t) True (gptm s)
          in do {
            s2 \<leftarrow> (if \<not> hwt32_is_running i s \<or> has_flag status (NOT (irq_mask t)) then Some s
                   else
                     let s1 = (if op_mode t = HW_TIMER_MONOTONE \<and> has_flag status TIMER_TIMA_TIMEOUT
                               then hwt_upd i (\<lambda>t. t\<lparr>n_rollovers := n_rollovers t + 1\<rparr>) s else s)
                     in hwt32_handle_timeout call i s1);
            Some (on_gptm (TimerIntClear (base_addr (timers32 s2 i)) status) s2)
          })"

section \<open>A monotone timer as a driver\<close>

lemma hwt_upd_same [simp]: "timers32 (hwt_upd i f s) i = f (timers32 s i)" "gptm (hwt_upd i f s) = gptm s"
  by (simp_all add: hwt_upd_def)

lemma on_gptm_simps [simp]: "timers32 (on_gptm f s) = timers32 s" "gptm (on_gptm f s) = f (gptm s)"
  by (simp_all add: on_gptm_def)

lemma read_counter_eq:
  "read_counter i s =
     (counter_at (gptm s) (base_addr (timers32 s i) + TIMER_O_TAR) (counter_reads (gptm s)),
      s\<lparr>gptm := (gptm s)\<lparr>counter_reads := Suc (counter_reads (gptm s))\<rparr>\<rparr>)"
  by (simp add: read_counter_def TimerValueGet_def)

lemma hwt32_is_running_off: "hwt32_is_running i (s\<lparr>gptm := g\<rparr>) = hwt32_is_running i s"
  by (simp add: hwt32_is_running_def)

definition mono_hwt :: "nat option \<Rightarrow> hwt32_state hwt_info" where
  "mono_hwt used = \<lparr>hwt_ops = Some hwt32_ops, hndl = Some 0, used_list = used, hw_64bits = False, source = HW_MONOTONE_CTR\<rparr>"

definition mono_inv :: "hwt32_state \<Rightarrow> bool" where
  "mono_inv s \<longleftrightarrow> op_mode (timers32 s 0) = HW_TIMER_NOT_USED \<or> op_mode (timers32 s 0) = HW_TIMER_MONOTONE"

definition mono_armed :: "hwt32_state \<Rightarrow> u64_val option" where
  "mono_armed s =
     (if hwt32_is_running 0 s then Some (U64 0 (reg (gptm s) (base_addr (timers32 s 0) + TIMER_O_TAMATCHR))) else None)"

definition mono_view :: "u64_val \<Rightarrow> u64_val" where
  "mono_view e = U64 0 (lo_32 e)"

lemmas mono_hwt_simps = mono_hwt_def hwt32_ops_def DEF_HWT32_OPS_def

interpretation mono: hwt_driver "mono_hwt used" mono_inv mono_armed mono_view "\<lambda>_ _. True" for used
proof
  fix p :: hwt32_state and e cur :: u64_val
  assume i: "mono_inv p"
  show "hwt_is_running (mono_hwt used) p = Some (mono_armed p \<noteq> None)"
    by (simp add: hwt_is_running_def mono_hwt_simps cc_hwt32_is_running_def mono_armed_def)
  show "mono_armed p = None \<Longrightarrow>
      \<exists>p'. hwt_start (mono_hwt used) e p = Some (0, p') \<and> mono_inv p' \<and> mono_armed p' = Some (mono_view e)"
    by (simp add: hwt_start_def mono_hwt_simps cc_hwt32_start_def mono_armed_def mono_view_def mono_inv_def
        hwt32_start_def hwt32_configure_def hwt32_config_monotone_def Let_def hwt32_set_op_mode_def
        hwt32_is_running_def TimerMatchSet_def TimerIntEnable_def TimerEnable_def TIMER_O_TAMATCHR_def
        TIMER_O_IMR_def TIMER_O_CTL_def split: if_splits)
  show "mono_armed p \<noteq> None \<Longrightarrow>
      \<exists>p'. hwt_update (mono_hwt used) e p = Some (0, p') \<and> mono_inv p' \<and> mono_armed p' = Some (mono_view e)"
    using i
    by (auto simp: hwt_update_def mono_hwt_simps cc_hwt32_update_def mono_armed_def mono_view_def mono_inv_def
        hwt32_update_def hwt32_is_running_def TimerMatchSet_def split: if_splits)
  show "\<exists>r p'. hwt_stop (mono_hwt used) p = Some (r, p') \<and> mono_inv p' \<and> mono_armed p' = None"
    using i
    by (auto simp: hwt_stop_def mono_hwt_simps cc_hwt32_stop_def mono_armed_def mono_inv_def hwt32_stop_def
        hwt32_is_running_def hwt32_set_op_mode_def Let_def)
  show "\<exists>r cur' p'. hwt_get_current (mono_hwt used) cur p = Some (r, cur', p') \<and> mono_inv p' \<and> mono_armed p' = mono_armed p"
    using i
    by (cases "op_mode (timers32 p 0)")
      (simp_all add: hwt_get_current_def mono_hwt_simps cc_hwt32_get_current_def hwt32_get_current_def read_counter_eq
        mono_armed_def mono_inv_def hwt32_is_running_def hwt_get_rollovers_def cc_hwt32_get_rollovers_def)
  show "\<exists>r p'. hwt_arm (mono_hwt used) e p = Some (r, p') \<and> mono_inv p'"
    using i
    by (cases "op_mode (timers32 p 0)")
      (simp_all add: hwt_arm_def hwt_is_running_def hwt_update_def hwt_start_def mono_hwt_simps mono_inv_def
        cc_hwt32_is_running_def cc_hwt32_start_def cc_hwt32_update_def hwt32_is_running_def hwt32_update_def
        hwt32_start_def hwt32_configure_def hwt32_config_monotone_def hwt32_set_op_mode_def Let_def)
  show "hwt_get_rollovers (mono_hwt used) p \<noteq> None"
    by (simp add: hwt_get_rollovers_def mono_hwt_simps cc_hwt32_get_rollovers_def)
  show "hwt_get_frequency (mono_hwt used) p \<noteq> None"
    by (simp add: hwt_get_frequency_def mono_hwt_simps cc_hwt32_get_frequency_def)
qed

section \<open>Properties\<close>

lemma half_period: "n < 4294967296 \<Longrightarrow> (n + n) mod 4294967296 = 0 \<Longrightarrow> n = 0 \<or> n = (2147483648 :: nat)"
  by (cases "n < 2147483648") (auto simp: mod_if split: if_splits)

text \<open>The time left on a monotone timer is wrong once the counter has passed the match value: what
  \<open>cc_hwt32_get_remaining\<close> reports is the distance between counter and match value, which is the
  time left only while the counter is below it; afterwards the counter has to wrap first.
\<close>

theorem cc_hwt32_get_remaining_past_match:
  assumes "op_mode (timers32 s i) = HW_TIMER_MONOTONE"
    "m = reg (gptm s) (base_addr (timers32 s i) + TIMER_O_TAMATCHR)"
    "v = counter_at (gptm s) (base_addr (timers32 s i) + TIMER_O_TAR) (counter_reads (gptm s))"
  shows "\<exists>rem s'. cc_hwt32_get_remaining (Some i) r0 s = Some (0, rem, s') \<and>
    (if v \<le> m then rem = m - v else rem = v - m \<and> (v - m \<noteq> 0x80000000 \<longrightarrow> rem \<noteq> m - v))"
proof -
  have w: "v1 + NOT v2 + 1 = v1 - v2" for v1 v2 :: u32 by (simp add: not_eq_complement)
  have e: "cc_hwt32_get_remaining (Some i) r0 s = Some (0, u32_wrap_offset_v1_to_v2 m v, snd (read_counter i s))"
    using assms by (simp add: cc_hwt32_get_remaining_def hwt32_get_remaining_def hwt32_is_running_def read_counter_eq
        TimerMatchGet_def)
  have n: "v - m \<noteq> m - v" if "\<not> v \<le> m" "v - m \<noteq> 0x80000000"
  proof
    assume e: "v - m = m - v"
    have "(v - m) + (v - m) = (v - m) + (m - v)" by (rule arg_cong [OF e])
    then have "unat ((v - m) + (v - m)) = 0" by simp
    then have "(unat (v - m) + unat (v - m)) mod 4294967296 = 0" by (simp only: unat_word_ariths) simp
    with unat32_bound have "unat (v - m) = 0 \<or> unat (v - m) = 2147483648" by (rule half_period)
    then show False
    proof
      assume "unat (v - m) = 0"
      then show False using that(1) by (simp add: unat_eq_0)
    next
      assume "unat (v - m) = 2147483648"
      then have "unat (v - m) = unat (0x80000000 :: u32)" by simp
      then have "v - m = 0x80000000" by (simp only: word_unat_eq_iff)
      then show False using that(2) by simp
    qed
  qed
  show ?thesis
  proof (cases "v \<le> m")
    case True
    then have "\<not> m < v" by (simp only: not_less)
    then show ?thesis using True unfolding e by (simp add: u32_wrap_offset_v1_to_v2_def w)
  next
    case False
    then have "v > m" by simp
    then show ?thesis unfolding e using n False by (simp add: u32_wrap_offset_v1_to_v2_def)
  qed
qed

text \<open>A one-shot timer fires once: its interrupt calls the callback exactly once, in a state in
  which the timer still counts as running (so that starting it again from the callback fails),
  and afterwards the timer is idle with its counter disabled and its interrupt masked.
\<close>

theorem cc_hwt32_isr_one_shot:
  assumes "op_mode (timers32 s i) = HW_TIMER_ONE_SHOT" "hwt32_cb (timers32 s i) = Some cb"
    "\<not> has_flag (TimerIntStatus (base_addr (timers32 s i)) True (gptm s)) (NOT (irq_mask (timers32 s i)))"
    "call cb s = Some s1" "timers32 s1 i = timers32 s i"
  shows "cc_hwt32_start (Some i) e mode s = Some (-1, s) \<and>
    (\<exists>s'. cc_hwt32_isr call (Some i) s = Some s' \<and> cc_hwt32_is_running (Some i) s' = Some False \<and>
       \<not> has_flag (reg (gptm s') (base_addr (timers32 s i) + TIMER_O_CTL)) TIMER_CTL_TAEN \<and>
       TimerIntStatus (base_addr (timers32 s i)) True (gptm s') AND irq_mask (timers32 s i) = 0)"
proof -
  let ?t = "timers32 s i"
  have f: "(x AND NOT (TIMER_A AND (TIMER_CTL_TAEN OR TIMER_CTL_TBEN))) AND TIMER_CTL_TAEN = 0" for x :: u32
  proof -
    have "TIMER_A AND (TIMER_CTL_TAEN OR TIMER_CTL_TBEN) = 1" by (simp add: timer_consts)
    moreover have "(x AND NOT 1) AND 1 = 0" by (rule bit_word_eqI) (auto simp: bit_simps)
    ultimately show ?thesis by (simp add: TIMER_CTL_TAEN_def)
  qed
  have m: "(r AND (x AND NOT k)) AND k = 0" for r x k :: u32
    by (rule bit_word_eqI) (auto simp: bit_simps)
  have run: "hwt32_is_running i s" using assms(1) by (simp add: hwt32_is_running_def)
  have h: "hwt32_handle_timeout call i s = Some (snd (hwt32_stop i s1))"
    using assms(1,2,4) by (simp add: hwt32_handle_timeout_def)
  have "cc_hwt32_start (Some i) e mode s = Some (-1, s)" using run by (simp add: cc_hwt32_start_def)
  moreover have "\<exists>s'. cc_hwt32_isr call (Some i) s = Some s' \<and> cc_hwt32_is_running (Some i) s' = Some False \<and>
       \<not> has_flag (reg (gptm s') (base_addr ?t + TIMER_O_CTL)) TIMER_CTL_TAEN \<and>
       TimerIntStatus (base_addr ?t) True (gptm s') AND irq_mask ?t = 0"
    using assms(1,3,5) run h f m
    by (simp add: cc_hwt32_isr_def hwt32_stop_def cc_hwt32_is_running_def hwt32_is_running_def hwt32_set_op_mode_def
        TimerDisable_def TimerIntDisable_def TimerIntClear_def TimerIntStatus_def TIMER_O_CTL_def TIMER_O_IMR_def
        TIMER_O_RIS_def has_flag_def Let_def)
  ultimately show ?thesis ..
qed

section \<open>Witnesses\<close>

definition sample_hwt32 :: "cc_hw_timer_mode \<Rightarrow> hwt32_state" where
  "sample_hwt32 mode =
     \<lparr>timers32 = (\<lambda>_. \<lparr>base_addr = 0x40030000, freq_hz = 80000000, irq_mask = 1, n_rollovers = 0,
                       hwt32_cb = Some (User 0 None), op_mode = mode, hwt32_next = None\<rparr>),
      hwt_list = None, init_flag = True,
      gptm = \<lparr>reg = (\<lambda>a. if a = 0x40030030 then 100 else 1), counter_at = (\<lambda>_ n. of_nat (150 + n)), counter_reads = 0\<rparr>\<rparr>"

theorem cc_hwt32_get_remaining_past_match_witness:
  "\<exists>s'. cc_hwt32_get_remaining (Some 0) 0 (sample_hwt32 HW_TIMER_MONOTONE) = Some (0, 50, s')"
proof -
  let ?s = "sample_hwt32 HW_TIMER_MONOTONE"
  have "op_mode (timers32 ?s 0) = HW_TIMER_MONOTONE"
    "100 = reg (gptm ?s) (base_addr (timers32 ?s 0) + TIMER_O_TAMATCHR)"
    "150 = counter_at (gptm ?s) (base_addr (timers32 ?s 0) + TIMER_O_TAR) (counter_reads (gptm ?s))"
    by (simp_all add: sample_hwt32_def TIMER_O_TAMATCHR_def)
  from cc_hwt32_get_remaining_past_match [OF this, of 0] show ?thesis by auto
qed

theorem cc_hwt32_isr_one_shot_witness:
  "\<exists>s'. cc_hwt32_isr (\<lambda>_ s. Some s) (Some 0) (sample_hwt32 HW_TIMER_ONE_SHOT) = Some s' \<and>
     cc_hwt32_is_running (Some 0) s' = Some False"
proof -
  let ?s = "sample_hwt32 HW_TIMER_ONE_SHOT"
  have "op_mode (timers32 ?s 0) = HW_TIMER_ONE_SHOT" "hwt32_cb (timers32 ?s 0) = Some (User 0 None)"
    "\<not> has_flag (TimerIntStatus (base_addr (timers32 ?s 0)) True (gptm ?s)) (NOT (irq_mask (timers32 ?s 0)))"
    by (simp_all add: sample_hwt32_def TimerIntStatus_def has_flag_def TIMER_O_RIS_def TIMER_O_IMR_def)
  from cc_hwt32_isr_one_shot [where call = "\<lambda>_ s. Some s" and ?s1.0 = ?s, OF this, of 0 HW_TIMER_ONE_SHOT] show ?thesis by auto
qed

end
