(* ===== verification/Cc_Timer_Sched.thy ===== *)
theory Cc_Timer_Sched
  imports Cc_Timer_List Hw_Timer32
begin

text \<open>
  The timer framework on its hardware timers.  \<open>synced\<close> is the invariant of a hardware timer in use:
  its waiting timers are in order of expiry, the first one and no other is marked as scheduled,
  and the hardware is set to the expiry of the first one.  The lemmas about starting, stopping and
  expiry are proved once for every driver that keeps the contract \<open>hwt_driver\<close> and used for the
  wall clock and for the monotone counter.
\<close>

section \<open>The invariant\<close>

definition synced ::
  "('p \<Rightarrow> u64_val option) \<Rightarrow> (u64_val \<Rightarrow> u64_val) \<Rightarrow> 'p cc_timer_state \<Rightarrow> nat \<Rightarrow> nat list \<Rightarrow> bool" where
  "synced armed view s h xs \<longleftrightarrow>
     waiting s h xs \<and> sorted (map (expiry s) xs) \<and> (\<forall>x\<in>set xs. hwt_obj (sw_timers s x) = Some h) \<and>
     (case xs of
        [] \<Rightarrow> armed (plat s) = None
      | x # ys \<Rightarrow> armed (plat s) = Some (view (expiry s x)) \<and> is_scheduled (sw_timers s x) \<and>
          (\<forall>y\<in>set ys. \<not> is_scheduled (sw_timers s y)))"

text \<open>An allocated timer that waits for nothing.\<close>

definition idle :: "'p cc_timer_state \<Rightarrow> nat \<Rightarrow> nat list \<Rightarrow> nat \<Rightarrow> bool" where
  "idle s h xs e \<longleftrightarrow> is_alloc_only (sw_timers s e) \<and> hwt_obj (sw_timers s e) = Some h \<and>
     swt_next (sw_timers s e) = None \<and> e \<notin> set xs"

lemma flag_off [simp]: "\<not> has_flag (x AND NOT SW_TIMER_HW_SCHED) SW_TIMER_HW_SCHED"
proof -
  have "(x AND NOT SW_TIMER_HW_SCHED) AND SW_TIMER_HW_SCHED = 0" by (rule bit_word_eqI) (auto simp: bit_simps)
  then show ?thesis by (simp add: has_flag_def)
qed

lemma flag_on [simp]: "has_flag (x OR SW_TIMER_HW_SCHED) SW_TIMER_HW_SCHED"
  using has_set_flag [of SW_TIMER_HW_SCHED x] by (simp add: set_flag_def timer_flags)

text \<open>The flags of a timer that waits, first of its list or not.\<close>

definition queued_flags :: "bool \<Rightarrow> u32" where
  "queued_flags first = (if first then SW_TIMER_ALLOCATE OR SW_TIMER_HW_SCHED else SW_TIMER_ALLOCATE)"

lemma alloc_only_unscheduled: "is_alloc_only t \<Longrightarrow> \<not> is_scheduled t"
  by (simp add: is_alloc_only_def is_scheduled_def has_flag_def timer_flags)

lemma expiry_frame [simp]:
  "expiry (s\<lparr>plat := p\<rparr>) = expiry s" "expiry (set_scheduled x b s) = expiry s"
  by (auto simp: expiry_def timer_upd fun_eq_iff)

lemma waiting_frame [simp]:
  "waiting (s\<lparr>plat := p\<rparr>) h xs = waiting s h xs" "waiting (set_scheduled x b s) h xs = waiting s h xs"
proof -
  show "waiting (s\<lparr>plat := p\<rparr>) h xs = waiting s h xs" by (simp add: waiting_def)
  have "chain (sw_timers (set_scheduled x b s)) q xs = chain (sw_timers s) q xs" for q
    by (intro chain_cong) (simp add: timer_upd)
  then show "waiting (set_scheduled x b s) h xs = waiting s h xs" by (simp add: waiting_def) (simp add: timer_upd)
qed

lemma set_scheduled_simps [simp]:
  "hwt_obj (sw_timers (set_scheduled x b s) y) = hwt_obj (sw_timers s y)"
  "swt_next (sw_timers (set_scheduled x b s) y) = swt_next (sw_timers s y)"
  "timeout_cb (sw_timers (set_scheduled x b s) y) = timeout_cb (sw_timers s y)"
  "cb_param (sw_timers (set_scheduled x b s) y) = cb_param (sw_timers s y)"
  "is_scheduled (sw_timers (set_scheduled x b s) y) = (if y = x then b else is_scheduled (sw_timers s y))"
  "y \<noteq> x \<Longrightarrow> sw_timers (set_scheduled x b s) y = sw_timers s y"
  "plat (set_scheduled x b s) = plat s" "hwt_objs (set_scheduled x b s) = hwt_objs s"
  by (simp_all add: timer_upd is_scheduled_def)

lemma flag_periodic [simp]:
  "has_flag (x OR SW_TIMER_PERIODIC) SW_TIMER_PERIODIC" "\<not> has_flag (x AND NOT SW_TIMER_PERIODIC) SW_TIMER_PERIODIC"
  "has_flag (x OR SW_TIMER_PERIODIC) SW_TIMER_HW_SCHED = has_flag x SW_TIMER_HW_SCHED"
  "has_flag (x AND NOT SW_TIMER_PERIODIC) SW_TIMER_HW_SCHED = has_flag x SW_TIMER_HW_SCHED"
  "has_flag (x OR SW_TIMER_PERIODIC) SW_TIMER_ALLOCATE = has_flag x SW_TIMER_ALLOCATE"
  using has_set_flag [of SW_TIMER_PERIODIC x] not_has_clear_flag [of x SW_TIMER_PERIODIC]
    has_flag_set_other [of SW_TIMER_HW_SCHED SW_TIMER_PERIODIC x] has_flag_clear_other [of SW_TIMER_HW_SCHED SW_TIMER_PERIODIC x]
    has_flag_set_other [of SW_TIMER_ALLOCATE SW_TIMER_PERIODIC x]
  by (simp_all add: set_flag_def clear_flag_def timer_flags)

lemma set_periodic_simps [simp]:
  "hwt_obj (sw_timers (set_periodic x b s) y) = hwt_obj (sw_timers s y)"
  "swt_next (sw_timers (set_periodic x b s) y) = swt_next (sw_timers s y)"
  "is_scheduled (sw_timers (set_periodic x b s) y) = is_scheduled (sw_timers s y)"
  "is_periodic (sw_timers (set_periodic x b s) y) = (if y = x then b else is_periodic (sw_timers s y))"
  "y \<noteq> x \<Longrightarrow> sw_timers (set_periodic x b s) y = sw_timers s y"
  "plat (set_periodic x b s) = plat s" "hwt_objs (set_periodic x b s) = hwt_objs s"
  "expiry (set_periodic x b s) = expiry s"
  by (auto simp: timer_upd is_scheduled_def is_periodic_def expiry_def fun_eq_iff)

lemma waiting_periodic [simp]: "waiting (set_periodic x b s) h xs = waiting s h xs"
proof -
  have "chain (sw_timers (set_periodic x b s)) q xs = chain (sw_timers s) q xs" for q
    by (intro chain_cong) simp
  then show ?thesis by (simp add: waiting_def)
qed

lemma synced_periodic [simp]: "synced armed view (set_periodic x b s) h xs = synced armed view s h xs"
  by (simp add: synced_def split: list.splits)

text \<open>A change of the times of a timer that does not wait.\<close>

definition timeless :: "sw_timer \<Rightarrow> sw_timer" where
  "timeless t = t\<lparr>hwt_expires := U64 0 0, sw_interval := U64 0 0\<rparr>"

definition retimed :: "('p \<Rightarrow> u64_val option) \<Rightarrow> nat \<Rightarrow> 'p cc_timer_state \<Rightarrow> 'p cc_timer_state \<Rightarrow> bool" where
  "retimed armed e s s' \<longleftrightarrow> hwt_objs s' = hwt_objs s \<and> armed (plat s') = armed (plat s) \<and> free_list s' = free_list s \<and>
     (\<forall>y. y \<noteq> e \<longrightarrow> sw_timers s' y = sw_timers s y) \<and> timeless (sw_timers s' e) = timeless (sw_timers s e)"

lemma timeless_fields:
  assumes "timeless t' = timeless t"
  shows "flags t' = flags t" "hwt_obj t' = hwt_obj t" "swt_next t' = swt_next t"
    "timeout_cb t' = timeout_cb t" "cb_param t' = cb_param t"
  using arg_cong [OF assms, of flags] arg_cong [OF assms, of hwt_obj] arg_cong [OF assms, of swt_next]
    arg_cong [OF assms, of timeout_cb] arg_cong [OF assms, of cb_param]
  by (simp_all add: timeless_def)

lemma retimed_same [simp]: "retimed armed e s s"
  by (simp add: retimed_def)

lemma retimed_trans: "retimed armed e s s1 \<Longrightarrow> retimed armed e s1 s2 \<Longrightarrow> retimed armed e s s2"
  by (simp add: retimed_def)

lemma retimed_synced:
  assumes "retimed armed e s s'" "synced armed view s h xs" "e \<notin> set xs"
  shows "synced armed view s' h xs"
proof -
  have ne: "sw_timers s' x = sw_timers s x" if "x \<in> set xs" for x
    using assms(1,3) that by (auto simp: retimed_def)
  then have ex: "expiry s' x = expiry s x" if "x \<in> set xs" for x using that by (simp add: expiry_def)
  have "waiting s' h xs = waiting s h xs"
    using assms(1) chain_cong [of xs "sw_timers s'" "sw_timers s"] ne by (simp add: waiting_def retimed_def)
  moreover have "sorted (map (expiry s') xs)"
  proof -
    have "map (expiry s') xs = map (expiry s) xs" using ex by (intro map_cong) simp_all
    then show ?thesis using assms(2) unfolding synced_def by metis
  qed
  moreover have "\<forall>x\<in>set xs. hwt_obj (sw_timers s' x) = Some h" using assms(2) ne by (simp add: synced_def)
  moreover have "armed (plat s') = armed (plat s)" using assms(1) by (simp add: retimed_def)
  ultimately show ?thesis
    using assms(2) ne ex unfolding synced_def by (simp split: list.splits)
qed

lemma retimed_idle: "retimed armed e s s' \<Longrightarrow> idle s h xs e \<Longrightarrow> idle s' h xs e"
  using timeless_fields [of "sw_timers s' e" "sw_timers s e"] by (simp add: retimed_def idle_def is_alloc_only_def)

section \<open>Scheduling\<close>

context hwt_driver
begin

lemma sched_new_head:
  assumes "hwt_obj (sw_timers s x) = Some h" "hw_of (hwt_objs s h) = hw_of hwt" "\<not> is_scheduled (sw_timers s x)"
    "inv (plat s)" "ahead (expiry s x) (plat s)"
  shows "\<exists>p. sched_timer_if_new x s = Some (0, set_scheduled x True (s\<lparr>plat := p\<rparr>)) \<and> inv p \<and> armed p = Some (view (expiry s x))"
  using arm [OF assms(4,5)] assms(1,3) hw_of_cong(1) [OF assms(2)]
  by (auto simp: sched_timer_if_new_def expiry_def)

lemma sched_old_head:
  "hwt_obj (sw_timers s x) = Some h \<Longrightarrow> is_scheduled (sw_timers s x) \<Longrightarrow> sched_timer_if_new x s = Some (0, s)"
  by (simp add: sched_timer_if_new_def)

text \<open>Inserting a timer and scheduling the first one keeps the invariant.\<close>

lemma insert_synced:
  assumes "synced armed view s h xs" "idle s h xs e" "hw_of (hwt_objs s h) = hw_of hwt" "inv (plat s)"
    "ahead (expiry s e) (plat s)"
  shows "\<exists>s1 x s2. insert_ordered_expiry e h s = Some s1 \<and> used_list (hwt_objs s1 h) = Some x \<and>
    sched_timer_if_new x s1 = Some (0, s2) \<and> synced armed view s2 h (place (expiry s) e xs) \<and> inv (plat s2) \<and>
    expiry s2 = expiry s \<and> (\<forall>y. y \<notin> insert e (set xs) \<longrightarrow> sw_timers s2 y = sw_timers s y) \<and>
    flags (sw_timers s2 e) = queued_flags (hd (place (expiry s) e xs) = e)"
proof -
  have w: "waiting s h xs" and so: "sorted (map (expiry s) xs)" and ho: "\<forall>x\<in>set xs. hwt_obj (sw_timers s x) = Some h"
    using assms(1) by (auto simp: synced_def)
  have e: "e \<notin> set xs" "swt_next (sw_timers s e) = None" "hwt_obj (sw_timers s e) = Some h" "\<not> is_scheduled (sw_timers s e)"
    using assms(2) alloc_only_unscheduled by (auto simp: idle_def)
  obtain s1 where i: "insert_ordered_expiry e h s = Some s1" and w1: "waiting s1 h (place (expiry s) e xs)"
    and r1: "relinked h (insert e (set xs)) s s1"
    and f1: "\<And>x. flags (sw_timers s1 x) = (if xs \<noteq> [] \<and> x = hd xs \<and> expiry s e < expiry s x
       then flags (sw_timers s x) AND NOT SW_TIMER_HW_SCHED else flags (sw_timers s x))"
    using insert_ordered_aux [OF w e(1,2)] by blast
  note rf = relinked_fields [OF r1]
  have out: "y \<notin> insert e (set xs) \<Longrightarrow> sw_timers s1 y = sw_timers s y" for y using r1 by (simp add: relinked_def)
  have "hw_of (hwt_objs s1 h) = hw_of (hwt_objs s h)" by (subst rf(9)) (simp add: hw_of_def)
  then have hw1: "hw_of (hwt_objs s1 h) = hw_of hwt" using assms(3) by simp
  have so1: "sorted (map (expiry s1) (place (expiry s) e xs))" unfolding rf(10) by (rule sorted_place [OF so])
  have ho1: "\<forall>x\<in>set (place (expiry s) e xs). hwt_obj (sw_timers s1 x) = Some h" using ho e(3) rf(5) by simp
  have al: "flags (sw_timers s1 e) = SW_TIMER_ALLOCATE"
    using assms(2) f1 e(1) by (cases xs) (auto simp: idle_def is_alloc_only_def)
  show ?thesis
  proof (cases "xs = [] \<or> expiry s e < expiry s (hd xs)")
    case True
    then have pl: "place (expiry s) e xs = e # xs" by (cases xs) auto
    have u: "used_list (hwt_objs s1 h) = Some e" using w1 pl by (simp add: waiting_def)
    have "\<not> is_scheduled (sw_timers s1 e)" using e f1 by (auto simp: is_scheduled_def split: if_splits)
    from sched_new_head [OF rf(5) [THEN trans, OF e(3)] hw1 this] rf(6,10) assms(4,5)
    obtain p where sc: "sched_timer_if_new e s1 = Some (0, set_scheduled e True (s1\<lparr>plat := p\<rparr>))" "inv p"
      "armed p = Some (view (expiry s e))" by auto
    let ?s2 = "set_scheduled e True (s1\<lparr>plat := p\<rparr>)"
    have un: "\<forall>y\<in>set xs. \<not> is_scheduled (sw_timers ?s2 y)"
    proof
      fix y assume y: "y \<in> set xs"
      then have "y \<noteq> e" using e(1) by blast
      moreover have "\<not> is_scheduled (sw_timers s1 y)"
        using assms(1) y True f1 [of y] by (cases xs) (auto simp: synced_def is_scheduled_def)
      ultimately show "\<not> is_scheduled (sw_timers ?s2 y)" by simp
    qed
    have "synced armed view ?s2 h (e # xs)"
      using w1 so1 ho1 sc(3) un unfolding pl synced_def by (simp add: rf(10))
    moreover have "flags (sw_timers ?s2 e) = queued_flags (hd (e # xs) = e)"
      using al by (simp add: timer_upd queued_flags_def)
    ultimately show ?thesis using i u sc out pl rf(10) by auto
  next
    case False
    then obtain z zs where xs: "xs = z # zs" by (cases xs) auto
    with False have pl: "place (expiry s) e xs = z # place (expiry s) e zs" by simp
    have u: "used_list (hwt_objs s1 h) = Some z" using w1 pl by (simp add: waiting_def)
    have fl: "flags (sw_timers s1 x) = flags (sw_timers s x)" for x using f1 [of x] False xs by auto
    have "is_scheduled (sw_timers s1 z)" using assms(1) xs fl by (simp add: synced_def is_scheduled_def)
    then have sc: "sched_timer_if_new z s1 = Some (0, s1)" using ho1 pl by (intro sched_old_head) simp_all
    have "synced armed view s1 h (place (expiry s) e xs)"
      using w1 so1 ho1 assms(1) e(4) fl unfolding pl synced_def
      by (simp add: xs rf(6,10)) (auto simp: is_scheduled_def)
    moreover have "flags (sw_timers s1 e) = queued_flags (hd (place (expiry s) e xs) = e)"
      using al e(1) xs pl by (auto simp: queued_flags_def)
    ultimately show ?thesis using i u sc out rf(6,10) assms(4) by auto
  qed
qed

lemma expiry_of_retimes:
  assumes "hw_of (hwt_objs s h) = hw_of hwt" "inv (plat s)"
  shows "\<exists>rv s1. expiry_of e h options s = Some (rv, s1) \<and> inv (plat s1) \<and> retimed armed e s s1"
proof (cases "has_flag options OPT_TIME_ABS_VALUE")
  case True
  then show ?thesis using assms(2)
    by (auto simp: expiry_of_def retimed_def swt_upd_def timeless_def)
next
  case False
  note hw = hw_of_cong [OF assms(1)]
  let ?run = "armed (plat s) \<noteq> None \<or> hwt_has_abs_time hwt"
  obtain rv cur p where c: "(if ?run then hwt_get_current hwt (U64 0 0) (plat s) else Some (0, U64 0 0, plat s)) = Some (rv, cur, p)"
    and p: "inv p" "armed p = armed (plat s)"
    using current_keeps [OF assms(2), of "U64 0 0"] assms(2) by (cases ?run) auto
  obtain r where r: "hwt_get_rollovers hwt p = Some r" using rollovers_defined [OF p(1)] by auto
  obtain v where v: "calc_hwt_expiry (hwt_objs s h) p cur iv ex = Some (v iv ex)" for iv ex
    using r by (simp add: calc_hwt_expiry_def hw Let_def)
  let ?s1 = "s\<lparr>plat := p\<rparr>"
  let ?e = "v (sw_interval (sw_timers s e)) (hwt_expires (sw_timers s e))"
  have x: "expiry_of e h options s = Some (if rv = -1 then (-1, ?s1) else (0, swt_upd e (\<lambda>t. t\<lparr>hwt_expires := ?e\<rparr>) ?s1))"
    using False c v running_armed [OF assms(2)] by (cases ?run) (auto simp: expiry_of_def hw Let_def)
  have "retimed armed e s ?s1"
    using p(2) by (simp add: retimed_def)
  moreover have "retimed armed e s (swt_upd e (\<lambda>t. t\<lparr>hwt_expires := ?e\<rparr>) ?s1)"
    using p(2) by (simp add: retimed_def swt_upd_def timeless_def)
  ultimately show ?thesis using x p(1) by (auto simp: swt_upd_def)
qed

lemma setup_timer_exec_synced:
  assumes "synced armed view s h xs" "idle s h xs e" "hw_of (hwt_objs s h) = hw_of hwt" "inv (plat s)"
    "\<And>s1. expiry_of e h options s = Some (0, s1) \<Longrightarrow> ahead (expiry s1 e) (plat s1)"
  shows "\<exists>rv s'. setup_timer_exec e options s = Some (rv, s') \<and> inv (plat s') \<and>
    (if rv = -1 then synced armed view s' h xs \<and> idle s' h xs e
     else rv = 0 \<and> synced armed view s' h (place (expiry s') e xs) \<and>
       (\<exists>s1. expiry_of e h options s = Some (0, s1) \<and> expiry s' e = expiry s1 e) \<and>
       flags (sw_timers s' e) = queued_flags (hd (place (expiry s') e xs) = e))"
proof -
  obtain rv s1 where x: "expiry_of e h options s = Some (rv, s1)" and i1: "inv (plat s1)" and t: "retimed armed e s s1"
    using expiry_of_retimes [OF assms(3,4)] by blast
  have e: "e \<notin> set xs" "hwt_obj (sw_timers s e) = Some h" using assms(2) by (simp_all add: idle_def)
  have y1: "synced armed view s1 h xs" "idle s1 h xs e"
    using retimed_synced [OF t assms(1) e(1)] retimed_idle [OF t assms(2)] by auto
  have hw1: "hw_of (hwt_objs s1 h) = hw_of hwt" using t assms(3) by (simp add: retimed_def)
  have rv: "rv = 0 \<or> rv = -1"
    using x by (auto simp: expiry_of_def Let_def split: if_splits Option.bind_splits)
  show ?thesis
  proof (cases "rv = -1")
    case True
    then show ?thesis using x i1 y1 e by (simp add: setup_timer_exec_def)
  next
    case False
    with rv x have x0: "expiry_of e h options s = Some (0, s1)" by simp
    from insert_synced [OF y1 hw1 i1 assms(5) [OF x0]]
    obtain s2 z s3 where "insert_ordered_expiry e h s1 = Some s2" "used_list (hwt_objs s2 h) = Some z"
      "sched_timer_if_new z s2 = Some (0, s3)" "synced armed view s3 h (place (expiry s1) e xs)" "inv (plat s3)"
      "expiry s3 = expiry s1" "flags (sw_timers s3 e) = queued_flags (hd (place (expiry s1) e xs) = e)" by blast
    then show ?thesis using x0 e by (simp add: setup_timer_exec_def)
  qed
qed

lemma setup_timer_interval_retimes:
  assumes "hwt_obj (sw_timers s e) = Some h" "hw_of (hwt_objs s h) = hw_of hwt" "inv (plat s)"
  shows "\<exists>rv s1. setup_timer_interval e time s = Some (rv, s1) \<and> (rv = 0 \<or> rv = -1) \<and> plat s1 = plat s \<and> retimed armed e s s1"
proof -
  obtain f where f: "hwt_get_frequency hwt (plat s) = Some f" using frequency_defined [OF assms(3)] by auto
  obtain rv iv where c: "calc_ticks_interval (hw_64bits hwt) f time (sw_interval (sw_timers s e)) = (rv, iv)" by (rule prod.exhaust)
  then have "rv = 0 \<or> rv = -1"
    by (auto simp: calc_ticks_interval_def calc_ticks_interval_u64_def calc_ticks_interval_u32_def Let_def split: if_splits)
  then show ?thesis
    using assms(1) f c
    by (simp add: setup_timer_interval_def hw_of_cong [OF assms(2)] Let_def retimed_def swt_upd_def timeless_def)
qed

lemma timer_start_synced:
  assumes "synced armed view s h xs" "idle s h xs e" "hw_of (hwt_objs s h) = hw_of hwt" "inv (plat s)"
    "\<And>s0 s1. setup_timer_interval e time s = Some (0, s0) \<Longrightarrow> expiry_of e h options s0 = Some (0, s1) \<Longrightarrow>
       ahead (expiry s1 e) (plat s1)"
  shows "\<exists>rv s'. timer_start e time options s = Some (rv, s') \<and> inv (plat s') \<and>
    (if rv = 0
     then synced armed view s' h (place (expiry s') e xs) \<and>
       is_periodic (sw_timers s' e) = has_flag options OPT_TIMER_PERIODIC \<and>
       (\<not> has_flag options OPT_TIMER_PERIODIC \<longrightarrow> flags (sw_timers s' e) = queued_flags (hd (place (expiry s') e xs) = e)) \<and>
       (\<exists>s0 s1. setup_timer_interval e time s = Some (0, s0) \<and> expiry_of e h options s0 = Some (0, s1) \<and>
          expiry s' e = expiry s1 e)
     else rv = -1 \<and> synced armed view s' h xs \<and> idle s' h xs e)"
proof -
  have e: "hwt_obj (sw_timers s e) = Some h" "e \<notin> set xs" "is_alloc_only (sw_timers s e)"
    using assms(2) by (simp_all add: idle_def)
  obtain rv s0 where x: "setup_timer_interval e time s = Some (rv, s0)" "rv = 0 \<or> rv = -1" "plat s0 = plat s"
    and t: "retimed armed e s s0"
    using setup_timer_interval_retimes [OF e(1) assms(3,4)] by blast
  have y: "synced armed view s0 h xs" "idle s0 h xs e" "hw_of (hwt_objs s0 h) = hw_of hwt" "inv (plat s0)"
    using retimed_synced [OF t assms(1) e(2)] retimed_idle [OF t assms(2)] t assms(3,4) x(3) by (simp_all add: retimed_def)
  show ?thesis
  proof (cases "rv = -1")
    case True
    then show ?thesis using x y e by (simp add: timer_start_def)
  next
    case False
    with x have x0: "setup_timer_interval e time s = Some (0, s0)" by simp
    obtain rv2 s2 where z: "setup_timer_exec e options s0 = Some (rv2, s2)" "inv (plat s2)"
      and r: "if rv2 = -1 then synced armed view s2 h xs \<and> idle s2 h xs e
        else rv2 = 0 \<and> synced armed view s2 h (place (expiry s2) e xs) \<and>
          (\<exists>s1. expiry_of e h options s0 = Some (0, s1) \<and> expiry s2 e = expiry s1 e) \<and>
          flags (sw_timers s2 e) = queued_flags (hd (place (expiry s2) e xs) = e)"
      using setup_timer_exec_synced [OF y assms(5) [OF x0]] by blast
    show ?thesis
    proof (cases "rv2 = -1")
      case True
      then show ?thesis using x0 z r e by (simp add: timer_start_def)
    next
      case False
      have "queued_flags b AND NOT SW_TIMER_PERIODIC = queued_flags b" for b by (simp add: queued_flags_def timer_flags)
      then show ?thesis using x0 z r e False by (auto simp: timer_start_def) (simp_all add: timer_upd)
    qed
  qed
qed

text \<open>Stopping a timer: the first one hands the hardware over to the next.\<close>

lemma timer_stop_synced:
  assumes "synced armed view s h xs" "e \<in> set xs" "hw_of (hwt_objs s h) = hw_of hwt" "inv (plat s)"
    "\<And>y ys. xs = e # y # ys \<Longrightarrow> ahead (expiry s y) (plat s)"
  shows "\<exists>s'. timer_stop e s = Some (0, s') \<and> inv (plat s') \<and> synced armed view s' h (remove1 e xs) \<and>
    \<not> is_scheduled (sw_timers s' e) \<and> \<not> is_periodic (sw_timers s' e) \<and>
    (xs = [e] \<longrightarrow> swt_next (sw_timers s' e) = swt_next (sw_timers s e))"
proof -
  have w: "waiting s h xs" and so: "sorted (map (expiry s) xs)" and ho: "\<forall>x\<in>set xs. hwt_obj (sw_timers s x) = Some h"
    using assms(1) by (auto simp: synced_def)
  obtain s1 where rm: "remove_elem e h s = Some (0, s1)" "waiting s1 h (remove1 e xs)" "relinked h (set xs - {e}) s s1"
    and f1: "\<And>x. flags (sw_timers s1 x) = flags (sw_timers s x)"
    using remove_elem_aux [OF w, of e] assms(2) by auto
  note rf = relinked_fields [OF rm(3)]
  let ?s2 = "set_periodic e False (set_scheduled e False s1)"
  have d: "distinct xs" using w chain_distinct unfolding waiting_def by blast
  have "hw_of (hwt_objs s1 h) = hw_of (hwt_objs s h)" by (subst rf(9)) (simp add: hw_of_def)
  then have hw1: "hw_of (hwt_objs s1 h) = hw_of hwt" using assms(3) by simp
  have sch: "is_scheduled (sw_timers s1 x) = is_scheduled (sw_timers s x)" for x using f1 by (simp add: is_scheduled_def)
  have perm: "set (remove1 e xs) = set xs - {e}" using d by (rule set_remove1_eq)
  have so1: "sorted (map (expiry s) (remove1 e xs))" using so by (rule sorted_map_remove1)
  have ho1: "\<forall>x\<in>set (remove1 e xs). hwt_obj (sw_timers s1 x) = Some h" using ho perm rf(5) by simp
  have go: "timer_stop e s = (case used_list (hwt_objs s1 h) of
      Some head \<Rightarrow> do { (rv1, s3) \<leftarrow> sched_timer_if_new head ?s2; Some (0, s3) }
    | None \<Rightarrow> do { (rv1, p) \<leftarrow> hwt_stop (hwt_objs s1 h) (plat s1); Some (0, ?s2\<lparr>plat := p\<rparr>) })"
    using rm(1) ho assms(2) by (simp add: timer_stop_def Let_def split: option.split)
  show ?thesis
  proof (cases "remove1 e xs")
    case Nil
    then have u: "used_list (hwt_objs s1 h) = None" using rm(2) by (simp add: waiting_def)
    have xs: "xs = [e]" using Nil assms(2) by (cases xs) (auto split: if_splits)
    have same: "sw_timers s1 e = sw_timers s e" using rm(3) by (simp add: relinked_def)
    obtain r p where p: "hwt_stop hwt (plat s1) = Some (r, p)" "inv p" "armed p = None"
      using stop_disarms [of "plat s1"] assms(4) rf(6) by auto
    have "synced armed view (?s2\<lparr>plat := p\<rparr>) h []"
      using p(3) rm(2) Nil by (simp add: synced_def)
    then show ?thesis using go u p Nil hw_of_cong(2) [OF hw1] same by simp
  next
    case (Cons z zs)
    then have u: "used_list (hwt_objs s1 h) = Some z" using rm(2) by (simp add: waiting_def)
    have ze: "z \<noteq> e" "e \<notin> set zs" using perm Cons by auto
    have zz: "z \<notin> set zs" using distinct_remove1 [OF d, of e] Cons by simp
    have w2: "waiting ?s2 h (z # zs)" using rm(2) Cons by simp
    have un: "\<forall>y\<in>set zs. \<not> is_scheduled (sw_timers s1 y)"
    proof (cases "hd xs = e")
      case True
      then have "xs = e # z # zs" using Cons assms(2) by (cases xs) auto
      then show ?thesis using assms(1) sch by (simp add: synced_def)
    next
      case False
      then obtain ys where "xs = z # ys" "zs = remove1 e ys" using Cons assms(2) by (cases xs) auto
      then show ?thesis using assms(1) sch notin_set_remove1 by (fastforce simp: synced_def dest: set_mp [OF set_remove1_subset])
    qed
    show ?thesis
    proof (cases "hd xs = e")
      case True
      then have xs: "xs = e # z # zs" using Cons assms(2) by (cases xs) auto
      have "\<not> is_scheduled (sw_timers ?s2 z)" using assms(1) sch ze unfolding xs by (simp add: synced_def)
      moreover have "hwt_obj (sw_timers ?s2 z) = Some h" using ho1 Cons by simp
      moreover have "hw_of (hwt_objs ?s2 h) = hw_of hwt" "inv (plat ?s2)" "ahead (expiry ?s2 z) (plat ?s2)"
        using hw1 assms(4) assms(5) [OF xs] rf(6,10) by simp_all
      ultimately obtain p where sc: "sched_timer_if_new z ?s2 = Some (0, set_scheduled z True (?s2\<lparr>plat := p\<rparr>))" "inv p"
        "armed p = Some (view (expiry s z))"
        using sched_new_head [of ?s2 z h] rf(10) by auto
      have "synced armed view (set_scheduled z True (?s2\<lparr>plat := p\<rparr>)) h (z # zs)"
        using w2 so1 ho1 sc(3) un ze zz Cons unfolding synced_def by (auto simp: rf(10))
      then show ?thesis using go u sc Cons ze by (simp add: xs)
    next
      case False
      then obtain ys where xs: "xs = z # ys" using Cons assms(2) by (cases xs) auto
      have "is_scheduled (sw_timers s1 z)" "armed (plat s) = Some (view (expiry s z))"
        using assms(1) sch unfolding xs by (simp_all add: synced_def)
      moreover have "sched_timer_if_new z ?s2 = Some (0, ?s2)"
        using calculation ho1 Cons ze by (intro sched_old_head) simp_all
      moreover have "synced armed view ?s2 h (z # zs)"
        using w2 so1 ho1 un ze Cons calculation unfolding synced_def by (auto simp: rf(6,10))
      ultimately show ?thesis using go u Cons ze xs assms(4) rf(6) by simp
    qed
  qed
qed

end

end
