(* ===== verification/Cc_Timer_Expiry.thy ===== *)
theory Cc_Timer_Expiry
  imports Cc_Timer_Sched
begin

text \<open>
  What the interrupt of a hardware timer does to the timers that wait for it.  \<open>hwt_clock\<close> is a
  driver whose time can be read; a driver is \<open>logged\<close> when its platform state carries the list of the
  callbacks made so far, which is how the order and the number of the callbacks is stated.
\<close>

section \<open>Logging\<close>

definition on_fst :: "('p \<Rightarrow> (int \<times> 'p) option) \<Rightarrow> 'p \<times> 'l \<Rightarrow> (int \<times> 'p \<times> 'l) option" where
  "on_fst f q = map_option (\<lambda>(r, p). (r, p, snd q)) (f (fst q))"

definition on_fst_out :: "('p \<Rightarrow> (int \<times> 'a \<times> 'p) option) \<Rightarrow> 'p \<times> 'l \<Rightarrow> (int \<times> 'a \<times> 'p \<times> 'l) option" where
  "on_fst_out f q = map_option (\<lambda>(r, a, p). (r, a, p, snd q)) (f (fst q))"

definition logged_ops :: "'p hw_timer_ops \<Rightarrow> ('p \<times> 'l) hw_timer_ops" where
  "logged_ops ops =
     \<lparr>start32 = map_option (\<lambda>f h e m. on_fst (f h e m)) (start32 ops),
      start64 = map_option (\<lambda>f h e m. on_fst (f h e m)) (start64 ops),
      update_exp32 = map_option (\<lambda>f h e. on_fst (f h e)) (update_exp32 ops),
      update_exp64 = map_option (\<lambda>f h e. on_fst (f h e)) (update_exp64 ops),
      stop = map_option (\<lambda>f h. on_fst (f h)) (stop ops),
      is_running = map_option (\<lambda>f h q. f h (fst q)) (is_running ops),
      get_remaining32 = map_option (\<lambda>f h e. on_fst_out (f h e)) (get_remaining32 ops),
      get_remaining64 = map_option (\<lambda>f h e. on_fst_out (f h e)) (get_remaining64 ops),
      get_current32 = map_option (\<lambda>f h e. on_fst_out (f h e)) (get_current32 ops),
      get_current64 = map_option (\<lambda>f h e. on_fst_out (f h e)) (get_current64 ops),
      get_rollovers = map_option (\<lambda>f h q. f h (fst q)) (get_rollovers ops),
      get_frequency = map_option (\<lambda>f h q. f h (fst q)) (get_frequency ops),
      register_cb = map_option (\<lambda>f h n. on_fst (f h n)) (register_cb ops)\<rparr>"

definition logged :: "'p hwt_info \<Rightarrow> ('p \<times> 'l) hwt_info" where
  "logged hwt = \<lparr>hwt_ops = map_option logged_ops (hwt_ops hwt), hndl = hndl hwt, used_list = used_list hwt,
                 hw_64bits = hw_64bits hwt, source = source hwt\<rparr>"

lemma logged_fields [simp]:
  "hndl (logged hwt) = hndl hwt" "hw_64bits (logged hwt) = hw_64bits hwt" "source (logged hwt) = source hwt"
  "hwt_ops (logged hwt) = map_option logged_ops (hwt_ops hwt)" "hwt_has_abs_time (logged hwt) = hwt_has_abs_time hwt"
  by (simp_all add: logged_def hwt_has_abs_time_def)

lemma logged_acc:
  "hwt_is_running (logged hwt) q = hwt_is_running hwt (fst q)"
  "hwt_get_rollovers (logged hwt) q = hwt_get_rollovers hwt (fst q)"
  "hwt_get_frequency (logged hwt) q = hwt_get_frequency hwt (fst q)"
  "hwt_stop (logged hwt) q = on_fst (hwt_stop hwt) q"
  "hwt_start (logged hwt) e q = on_fst (hwt_start hwt e) q"
  "hwt_update (logged hwt) e q = on_fst (hwt_update hwt e) q"
  by (cases "hwt_ops hwt";
      simp add: hwt_is_running_def hwt_get_rollovers_def hwt_get_frequency_def hwt_stop_def hwt_start_def
        hwt_update_def on_fst_def logged_ops_def bind_map_option comp_def map_option_bind map_option_case
        split: option.splits if_splits)+

lemma logged_arm: "hwt_arm (logged hwt) e q = on_fst (hwt_arm hwt e) q"
  by (cases "hwt_is_running hwt (fst q)") (simp_all add: hwt_arm_def logged_acc on_fst_def)

lemma logged_current: "hwt_get_current (logged hwt) cur q = on_fst_out (hwt_get_current hwt cur) q"
proof (cases "hwt_ops hwt")
  case None
  then show ?thesis by (simp add: hwt_get_current_def on_fst_out_def)
next
  case (Some ops)
  then show ?thesis
    by (cases "get_current64 ops"; cases "get_current32 ops")
      (auto simp: hwt_get_current_def on_fst_out_def logged_ops_def logged_acc(2) split: Option.bind_splits prod.splits)
qed

context hwt_clock
begin

lemma logged_clock:
  "hwt_clock (logged hwt) (\<lambda>q. inv (fst q)) (\<lambda>q. armed (fst q)) view (\<lambda>e q. ahead e (fst q)) (\<lambda>q. now (fst q))"
proof
  fix q :: "'p \<times> 'l" and e cur :: u64_val
  assume i: "inv (fst q)"
  show "hwt_is_running (logged hwt) q = Some (armed (fst q) \<noteq> None)"
    using running_armed [OF i] by (simp add: logged_acc)
  show "armed (fst q) = None \<Longrightarrow> ahead e (fst q) \<Longrightarrow>
      \<exists>q'. hwt_start (logged hwt) e q = Some (0, q') \<and> inv (fst q') \<and> armed (fst q') = Some (view e)"
    using start_arms [OF i] by (fastforce simp: logged_acc on_fst_def)
  show "armed (fst q) \<noteq> None \<Longrightarrow> ahead e (fst q) \<Longrightarrow>
      \<exists>q'. hwt_update (logged hwt) e q = Some (0, q') \<and> inv (fst q') \<and> armed (fst q') = Some (view e)"
    using update_arms [OF i] by (fastforce simp: logged_acc on_fst_def)
  show "\<exists>r q'. hwt_stop (logged hwt) q = Some (r, q') \<and> inv (fst q') \<and> armed (fst q') = None"
    using stop_disarms [OF i] by (fastforce simp: logged_acc on_fst_def)
  show "\<exists>r cur' q'. hwt_get_current (logged hwt) cur q = Some (r, cur', q') \<and> inv (fst q') \<and> armed (fst q') = armed (fst q)"
    using current_keeps [OF i, of cur] by (fastforce simp: logged_current on_fst_out_def)
  show "\<exists>r q'. hwt_arm (logged hwt) e q = Some (r, q') \<and> inv (fst q')"
    using arm_total [OF i, of e] by (fastforce simp: logged_arm on_fst_def)
  show "hwt_get_rollovers (logged hwt) q \<noteq> None" "hwt_get_frequency (logged hwt) q \<noteq> None"
    using rollovers_defined [OF i] frequency_defined [OF i] by (simp_all add: logged_acc)
  show "\<exists>q'. hwt_get_current (logged hwt) cur q = Some (0, now (fst q), q') \<and> inv (fst q') \<and>
      armed (fst q') = armed (fst q) \<and> now (fst q') = now (fst q)"
    using reads_now [OF i, of cur] by (fastforce simp: logged_current on_fst_out_def)
  show "now (fst q) < e \<Longrightarrow> ahead e (fst q)" using now_ahead [OF i] .
qed

end

section \<open>The expiry loop\<close>

text \<open>The timers of a hardware timer, with no claim about what its hardware is set to.\<close>

definition queued :: "'p cc_timer_state \<Rightarrow> nat \<Rightarrow> nat list \<Rightarrow> bool" where
  "queued s h xs \<longleftrightarrow> waiting s h xs \<and> sorted (map (expiry s) xs) \<and>
     (\<forall>x\<in>set xs. hwt_obj (sw_timers s x) = Some h) \<and> (\<forall>y\<in>set (tl xs). \<not> is_scheduled (sw_timers s y))"

lemma synced_queued: "synced armed view s h xs \<Longrightarrow> queued s h xs"
  by (cases xs) (auto simp: synced_def queued_def)

text \<open>The callbacks of a list of timers.\<close>

definition calls :: "'p cc_timer_state \<Rightarrow> nat list \<Rightarrow> (nat \<times> cc_hndl) list" where
  "calls s xs = concat (map (\<lambda>x. case timeout_cb (sw_timers s x) of None \<Rightarrow> []
                                  | Some cb \<Rightarrow> [(cb, cb_param (sw_timers s x))]) xs)"

text \<open>A callback that does nothing to the timers but is noted in the platform state.\<close>

definition run_noted ::
  "(nat \<times> cc_hndl \<Rightarrow> 'p \<Rightarrow> 'p) \<Rightarrow> nat \<Rightarrow> cc_hndl \<Rightarrow> 'p cc_timer_state \<Rightarrow> 'p cc_timer_state option" where
  "run_noted jot cb q s = Some (s\<lparr>plat := jot (cb, q) (plat s)\<rparr>)"

text \<open>A timer taken off the head of the list.\<close>

definition fired :: "nat \<Rightarrow> nat \<Rightarrow> 'p \<Rightarrow> 'p cc_timer_state \<Rightarrow> 'p cc_timer_state" where
  "fired h x p s = (set_scheduled x False (set_used h (swt_next (sw_timers s x)) s))\<lparr>plat := p\<rparr>"

lemma fired_simps [simp]:
  "plat (fired h x p s) = p" "expiry (fired h x p s) = expiry s"
  "y \<noteq> x \<Longrightarrow> sw_timers (fired h x p s) y = sw_timers s y"
  "flags (sw_timers (fired h x p s) x) = flags (sw_timers s x) AND NOT SW_TIMER_HW_SCHED"
  "used_list (hwt_objs (fired h x p s) h) = swt_next (sw_timers s x)"
  "hw_of (hwt_objs (fired h x p s) h) = hw_of (hwt_objs s h)"
  "is_periodic (sw_timers (fired h x p s) y) = is_periodic (sw_timers s y)"
  using has_flag_clear_other [of SW_TIMER_PERIODIC SW_TIMER_HW_SCHED "flags (sw_timers s x)"]
  by (auto simp: fired_def timer_upd expiry_def fun_eq_iff hw_of_def is_periodic_def clear_flag_def timer_flags)

text \<open>One turn of the loop, for a one-shot timer that is due.\<close>

lemma process_loop_due:
  assumes "waiting s h (x # xs)" "hwt_obj (sw_timers s x) = Some h" "\<not> is_periodic (sw_timers s x)"
    "hwt_get_current (hwt_objs s h) (junk s) (plat s) = Some (0, cur, p)" "expiry s x \<le> cur"
  shows "process_loop (run_noted jot) junk h (Some x) s =
    process_loop (run_noted jot) junk h (swt_next (sw_timers s x)) (fired h x (fold jot (calls s [x]) p) s)"
proof -
  let ?s1 = "s\<lparr>plat := p\<rparr>"
  let ?s2 = "set_used h (swt_next (sw_timers s x)) ?s1"
  have w: "waiting ?s1 h (x # xs)" using assms(1) by simp
  have rm: "remove_elem x h ?s1 = Some (0, ?s2)" using remove_head(1) [OF w] by simp
  have due: "\<not> cmp_u64 cur (hwt_expires (sw_timers ?s1 x)) < 0" using assms(5) by (simp add: expiry_def not_less)
  have np: "\<not> is_periodic (sw_timers (fired h x p s) x)" using assms(3) by simp
  have f: "set_scheduled x False ?s2 = fired h x p s" by (simp add: fired_def timer_upd)
  have ex: "handle_expired_timer (run_noted jot) x ?s2 = Some (fired h x (fold jot (calls s [x]) p) s)"
  proof -
    have t: "timeout_cb (sw_timers (fired h x p s) x) = timeout_cb (sw_timers s x)"
      "cb_param (sw_timers (fired h x p s) x) = cb_param (sw_timers s x)"
      by (simp_all add: fired_def timer_upd)
    have r: "(fired h x p s)\<lparr>plat := q\<rparr> = fired h x q s" for q by (simp add: fired_def)
    show ?thesis
      using np by (cases "timeout_cb (sw_timers s x)")
        (simp_all add: handle_expired_timer_def f t run_noted_def calls_def r)
  qed
  have u: "used_list (hwt_objs (fired h x q s) h) = swt_next (sw_timers s x)" for q by simp
  show ?thesis
    using assms(2,4) due rm ex by (subst process_loop.simps) (simp add: u)
qed

lemma waiting_fired:
  assumes "waiting s h (x # xs)"
  shows "waiting (fired h x p s) h xs"
  using remove_head(2) [OF assms] by (simp add: fired_def)

lemma queued_fired:
  assumes "queued s h (x # xs)"
  shows "queued (fired h x p s) h xs"
proof -
  have "distinct (x # xs)" using assms chain_distinct unfolding queued_def waiting_def by blast
  then have "\<forall>y\<in>set xs. y \<noteq> x" by auto
  then show ?thesis
    using assms waiting_fired [of s h x xs p] unfolding queued_def by (cases xs) simp_all
qed

lemma calls_Cons: "calls s (x # xs) = calls s [x] @ calls s xs"
  by (simp add: calls_def)

lemma calls_cong: "(\<And>x. x \<in> set xs \<Longrightarrow> sw_timers s' x = sw_timers s x) \<Longrightarrow> calls s' xs = calls s xs"
  unfolding calls_def by (intro arg_cong [where f = concat] map_cong refl) (metis (no_types))

context hwt_clock
begin

lemma fold_note:
  assumes "\<And>c p. inv p \<Longrightarrow> inv (jot c p) \<and> armed (jot c p) = armed p \<and> now (jot c p) = now p" "inv p"
  shows "inv (fold jot cs p) \<and> armed (fold jot cs p) = armed p \<and> now (fold jot cs p) = now p"
  using assms(2)
proof (induction cs arbitrary: p)
  case (Cons c cs)
  have "inv (jot c p)" "armed (jot c p) = armed p" "now (jot c p) = now p"
    using assms(1) [OF Cons.prems] by auto
  then show ?case using Cons.IH [of "jot c p"] by simp
qed simp

lemma fold_obs: "(\<And>c p. obs (jot c p) = upd c (obs p)) \<Longrightarrow> obs (fold jot cs p) = fold upd cs (obs p)"
  by (induction cs arbitrary: p) simp_all

text \<open>The loop fires exactly the timers that are due and hands the hardware to the next one.\<close>

lemma drain:
  fixes obs :: "'p \<Rightarrow> 'o"
  assumes nt: "\<And>c p. inv p \<Longrightarrow> inv (jot c p) \<and> armed (jot c p) = armed p \<and> now (jot c p) = now p"
    and obs: "\<And>p r c cur p'. hwt_get_current hwt c p = Some (r, cur, p') \<Longrightarrow> obs p' = obs p"
      "\<And>p e r p'. hwt_arm hwt e p = Some (r, p') \<Longrightarrow> obs p' = obs p"
      "\<And>p r p'. hwt_stop hwt p = Some (r, p') \<Longrightarrow> obs p' = obs p"
      "\<And>c p. obs (jot c p) = upd c (obs p)"
    and "queued s h xs" "\<forall>x\<in>set xs. \<not> is_periodic (sw_timers s x)" "hw_of (hwt_objs s h) = hw_of hwt" "inv (plat s)"
      "xs \<noteq> [] \<Longrightarrow> is_scheduled (sw_timers s (hd xs)) \<Longrightarrow> expiry s (hd xs) \<le> now (plat s)"
  shows "\<exists>s'. process_loop (run_noted jot) junk h (used_list (hwt_objs s h)) s = Some s' \<and> inv (plat s') \<and>
    synced armed view s' h (dropWhile (\<lambda>x. expiry s x \<le> now (plat s)) xs) \<and> expiry s' = expiry s \<and>
    obs (plat s') = fold upd (calls s (takeWhile (\<lambda>x. expiry s x \<le> now (plat s)) xs)) (obs (plat s)) \<and>
    (\<forall>x\<in>set (takeWhile (\<lambda>x. expiry s x \<le> now (plat s)) xs).
       flags (sw_timers s' x) = flags (sw_timers s x) AND NOT SW_TIMER_HW_SCHED) \<and>
    (\<forall>x. x \<notin> set xs \<longrightarrow> sw_timers s' x = sw_timers s x)"
  using assms(6-)
proof (induction xs arbitrary: s)
  case Nil
  then have u: "used_list (hwt_objs s h) = None" by (simp add: queued_def waiting_def)
  obtain r p where p: "hwt_stop hwt (plat s) = Some (r, p)" "inv p" "armed p = None"
    using stop_disarms [OF Nil.prems(4)] by blast
  have "process_loop (run_noted jot) junk h (used_list (hwt_objs s h)) s = Some (s\<lparr>plat := p\<rparr>)"
    using p(1) hw_of_cong(2) [OF Nil.prems(3)] u by (subst process_loop.simps) simp
  moreover have "synced armed view (s\<lparr>plat := p\<rparr>) h []"
    using Nil.prems(1) p(3) by (simp add: synced_def queued_def)
  ultimately show ?case using p(2) obs(3) [OF p(1)] by (simp add: calls_def)
next
  case (Cons x xs)
  note hw = hw_of_cong [OF Cons.prems(3)]
  have u: "used_list (hwt_objs s h) = Some x" and o: "hwt_obj (sw_timers s x) = Some h"
    and w: "waiting s h (x # xs)" and d: "x \<notin> set xs"
    using Cons.prems(1) chain_distinct [of "sw_timers s" _ "x # xs"] by (auto simp: queued_def waiting_def)
  obtain p where p: "hwt_get_current (hwt_objs s h) (junk s) (plat s) = Some (0, now (plat s), p)"
    "inv p" "armed p = armed (plat s)" "now p = now (plat s)"
    using reads_now [OF Cons.prems(4)] hw(4) by auto
  have op: "obs p = obs (plat s)" using obs(1) p(1) hw(4) by auto
  show ?case
  proof (cases "expiry s x \<le> now (plat s)")
    case True
    let ?f = "fired h x (fold jot (calls s [x]) p) s"
    have st: "process_loop (run_noted jot) junk h (Some x) s =
        process_loop (run_noted jot) junk h (used_list (hwt_objs ?f h)) ?f"
      using process_loop_due [where junk = junk, OF w o _ p(1) True] Cons.prems(2) by simp
    have fi: "inv (plat ?f)" "now (plat ?f) = now (plat s)" using fold_note [of jot, OF nt p(2), of "calls s [x]"] p(4) by simp_all
    have q: "queued ?f h xs" by (rule queued_fired [OF Cons.prems(1)])
    have ne: "y \<noteq> x" if "y \<in> set xs" for y using d that by blast
    have sc: "\<not> is_scheduled (sw_timers ?f (hd xs))" if "xs \<noteq> []"
      using Cons.prems(1) ne [of "hd xs"] that by (simp add: queued_def)
    have fo: "obs (plat ?f) = fold upd (calls s [x]) (obs (plat s))"
      using fold_obs [of obs jot upd, OF obs(4)] op by simp
    have fc: "calls ?f (takeWhile P xs) = calls s (takeWhile P xs)" for P
      by (rule calls_cong) (use ne set_takeWhileD in fastforce)
    have "\<forall>x\<in>set xs. \<not> is_periodic (sw_timers ?f x)" using Cons.prems(2) by simp
    moreover have "hw_of (hwt_objs ?f h) = hw_of hwt" using Cons.prems(3) by simp
    ultimately obtain s' where s': "process_loop (run_noted jot) junk h (used_list (hwt_objs ?f h)) ?f = Some s'" "inv (plat s')"
      "synced armed view s' h (dropWhile (\<lambda>x. expiry s x \<le> now (plat s)) xs)" "expiry s' = expiry s"
      "obs (plat s') = fold upd (calls s (takeWhile (\<lambda>x. expiry s x \<le> now (plat s)) xs)) (obs (plat ?f))"
      "\<forall>y\<in>set (takeWhile (\<lambda>x. expiry s x \<le> now (plat s)) xs).
         flags (sw_timers s' y) = flags (sw_timers ?f y) AND NOT SW_TIMER_HW_SCHED"
      "\<forall>y. y \<notin> set xs \<longrightarrow> sw_timers s' y = sw_timers ?f y"
      using Cons.IH [OF q _ _ fi(1)] sc unfolding fi(2) fired_simps(2) fc by blast
    have "flags (sw_timers s' y) = flags (sw_timers s y) AND NOT SW_TIMER_HW_SCHED"
      if "y \<in> set (takeWhile (\<lambda>x. expiry s x \<le> now (plat s)) xs)" for y
      using s'(6) ne [of y] that set_takeWhileD [OF that] by simp
    moreover have "flags (sw_timers s' x) = flags (sw_timers s x) AND NOT SW_TIMER_HW_SCHED"
      using s'(7) d by simp
    moreover have "obs (plat s') = fold upd (calls s (x # takeWhile (\<lambda>x. expiry s x \<le> now (plat s)) xs)) (obs (plat s))"
      using s'(5) fo by (subst calls_Cons) simp
    ultimately show ?thesis using s'(1-4) s'(7) True u st by simp
  next
    case False
    then have ns: "\<not> is_scheduled (sw_timers s x)" using Cons.prems(5) by auto
    let ?s1 = "s\<lparr>plat := p\<rparr>"
    have "ahead (expiry ?s1 x) (plat ?s1)" using now_ahead [OF p(2), of "expiry s x"] False p(4) by simp
    then obtain p2 where a: "sched_timer_if_new x ?s1 = Some (0, set_scheduled x True (?s1\<lparr>plat := p2\<rparr>))" "inv p2"
      "armed p2 = Some (view (expiry s x))"
      using sched_new_head [of ?s1 x h] o Cons.prems(3) ns p(2) by auto
    have oa: "obs p2 = obs p"
    proof -
      obtain r q where q: "hwt_arm hwt (expiry s x) p = Some (r, q)"
        "(if r = 0 then set_scheduled x True (s\<lparr>plat := q\<rparr>) else s\<lparr>plat := q\<rparr>) = set_scheduled x True (s\<lparr>plat := p2\<rparr>)"
        using a(1) ns o hw(1) by (auto simp: sched_timer_if_new_def expiry_def Let_def split: Option.bind_splits)
      from arg_cong [OF q(2), of plat] have "q = p2" by (simp split: if_splits)
      then show ?thesis using obs(2) q(1) by blast
    qed
    let ?s2 = "set_scheduled x True (?s1\<lparr>plat := p2\<rparr>)"
    have "process_loop (run_noted jot) junk h (Some x) s = Some ?s2"
      using o p(1) False a(1) by (subst process_loop.simps) (simp add: expiry_def not_le)
    moreover have "synced armed view ?s2 h (x # xs)"
      using Cons.prems(1) a(3) d by (auto simp: synced_def queued_def)
    ultimately show ?thesis
      using u False a(2) oa op by (simp add: calls_def)
  qed
qed

end

end
