(* ===== verification/Cc_Timer_Props.thy ===== *)
theory Cc_Timer_Props
  imports Cc_Timer_Expiry
begin

text \<open>
  The properties of the timer framework: its arithmetic, its list, starting and stopping timers on
  the monotone counter, the timer interrupt on the wall clock, the pool of timers, and what goes
  wrong with links, flags and early alarms.
\<close>

section \<open>Arithmetic\<close>

text \<open>
  C33. \<open>cmp_u64\<close> compares 64-bit values held in two words like the numbers they stand for.
\<close>

theorem cmp_u64_compares_numbers:
  "cmp_u64 v w = sgn (int (u64_num v) - int (u64_num w))"
proof -
  have "v < w \<longleftrightarrow> u64_num v < u64_num w" by (simp add: less_u64_val_def)
  then show ?thesis using u64_num_eq [of v w] by (auto simp: cmp_u64_order sgn_if)
qed

lemma unat_ucast_32_64: "unat (ucast (x :: u32) :: u64) = unat x"
  by (rule unat_ucast_small, rule order_less_trans [OF unat32_bound]) simp

lemma not_word: "NOT (x :: u32) = - x - 1"
  by (simp add: not_eq_complement)

lemma carry: "lo > NOT (iv :: u32) \<longleftrightarrow> 2 ^ 32 \<le> unat lo + unat iv"
proof -
  have "NOT iv = 0xFFFFFFFF - iv" by (simp add: not_word)
  moreover have "unat (0xFFFFFFFF - iv) = unat (0xFFFFFFFF :: u32) - unat iv"
    by (rule unat_sub) (use unat32_bound [of iv] in \<open>simp add: word_le_nat_alt del: unat32_bound\<close>)
  ultimately have "unat (NOT iv) = 4294967295 - unat iv" by simp
  moreover have "unat iv < 4294967296" by (rule unat32_bound)
  ultimately have "unat (NOT iv) < unat lo \<longleftrightarrow> 4294967296 \<le> unat lo + unat iv" by linarith
  then show ?thesis by (simp add: word_less_nat_alt)
qed

text \<open>The expiry of a timer counted in ticks of a 64-bit counter is the current count plus the
  interval plus the roll-overs in the high word, modulo two to the power of 64: the carry out of
  the low words is found without a wider type.
\<close>

theorem calc_hwt_expiry_tick_u64_sum:
  "u64_num (calc_hwt_expiry_tick_u64 cur iv ex) = (u64_num cur + u64_num iv + unat (hi_32 ex) * 2 ^ 32) mod 2 ^ 64"
proof -
  define a b c d e where "a = unat (hi_32 cur)" and "b = unat (lo_32 cur)" and "c = unat (hi_32 iv)"
    and "d = unat (lo_32 iv)" and "e = unat (hi_32 ex)"
  have bd: "b < 4294967296" "d < 4294967296" by (simp_all add: b_def d_def)
  define k where "k = (if 4294967296 \<le> b + d then 1 else (0 :: nat))"
  have lo: "unat (lo_32 (calc_hwt_expiry_tick_u64 cur iv ex)) = b + d - k * 4294967296"
  proof -
    have "lo_32 (calc_hwt_expiry_tick_u64 cur iv ex) = lo_32 cur + lo_32 iv"
      by (simp add: calc_hwt_expiry_tick_u64_def calc_hwt_expiry_tick_u32_def Let_def not_word)
    then have "unat (lo_32 (calc_hwt_expiry_tick_u64 cur iv ex)) = (b + d) mod 4294967296"
      by (simp add: unat_word_ariths b_def d_def)
    then show ?thesis using bd by (auto simp: k_def mod_if)
  qed
  have hi: "unat (hi_32 (calc_hwt_expiry_tick_u64 cur iv ex)) = (e + k + a + c) mod 4294967296"
  proof -
    have "hi_32 (calc_hwt_expiry_tick_u64 cur iv ex) = of_nat (e + k + a + c)"
      by (simp add: calc_hwt_expiry_tick_u64_def calc_hwt_expiry_tick_u32_def Let_def carry a_def b_def c_def d_def
          e_def k_def)
    then show ?thesis by (simp only: unat_of_nat) simp
  qed
  have split: "(x mod 4294967296) * 4294967296 + y = (x * 4294967296 + y) mod 18446744073709551616"
    if "y < 4294967296" for x y :: nat
  proof -
    have "(x * 4294967296 + y) mod (4294967296 * 4294967296) = x mod 4294967296 * 4294967296 + y"
      using that by (subst mod_mult2_eq) simp
    then show ?thesis by simp
  qed
  have "u64_num (calc_hwt_expiry_tick_u64 cur iv ex) =
      ((e + k + a + c) * 4294967296 + (b + d - k * 4294967296)) mod 18446744073709551616"
    unfolding u64_num_def lo hi using bd by (subst split [symmetric]) (auto simp: k_def)
  also have "(e + k + a + c) * 4294967296 + (b + d - k * 4294967296) =
      (a * 4294967296 + b) + (c * 4294967296 + d) + e * 4294967296"
    using bd by (auto simp: k_def algebra_simps)
  finally show ?thesis by (simp add: u64_num_def a_def b_def c_def d_def e_def)
qed

text \<open>The sub-second part of an interval is lost: \<open>nsec * hwt_freq\<close> is computed with 32 bits, so
  whatever the nanoseconds asked for they add at most four ticks to the seconds, at every
  frequency of the counter.
\<close>

theorem calc_ticks_interval_subsecond_lost:
  assumes "calc_ticks_interval False hwt_freq time iv = (0, iv')"
  shows "unat (secs time) * unat hwt_freq \<le> u64_num iv' \<and> u64_num iv' \<le> unat (secs time) * unat hwt_freq + 4"
proof -
  define f s where "f = unat hwt_freq" and "s = unat (secs time)"
  have "f < 4294967296" "s < 4294967296" unfolding f_def s_def by (rule unat32_bound)+
  then have fs: "f \<le> 4294967295" "s \<le> 4294967295" by linarith+
  define sub where "sub = unat (nsec time * hwt_freq) div 1000000000"
  have "unat (nsec time * hwt_freq) < 4294967296" by (rule unat32_bound)
  moreover have "sub * 1000000000 \<le> unat (nsec time * hwt_freq)" unfolding sub_def by (rule div_times_less_eq_dividend)
  ultimately have sub: "sub \<le> 4" by linarith
  have prod: "s * f \<le> 4294967295 * 4294967295" using fs by (intro mult_le_mono)
  let ?t = "ucast (ucast (ucast (nsec time * hwt_freq) div ucast NSEC_VAL_FOR_1SEC :: u64) :: u32) :: u64"
  have q: "unat (ucast (nsec time * hwt_freq) div ucast NSEC_VAL_FOR_1SEC :: u64) = sub"
    by (simp add: unat_div_distrib unsigned_ucast_eq take_bit_eq_mod NSEC_VAL_FOR_1SEC_def sub_def)
      (simp add: order_less_trans [OF unat32_bound])
  have "unat (ucast (ucast (nsec time * hwt_freq) div ucast NSEC_VAL_FOR_1SEC :: u64) :: u32) = sub"
    using q sub by (subst unat_ucast_small) simp_all
  then have t: "unat ?t = sub" using sub by (subst unat_ucast_small) simp_all
  let ?a = "ucast (secs time) * ucast hwt_freq :: u64"
  have a: "unat ?a = s * f"
    using prod by (simp only: unat_word_ariths unat_ucast_32_64 s_def f_def) simp
  have at: "unat (?a + ?t) = s * f + sub" using prod sub a t by (simp add: unat_word_ariths)
  have r: "\<not> 0xFFFFFFFF < ?a + ?t" "iv' = U64 0 (ucast ((?a + ?t) AND 0xFFFFFFFF))"
    using assms by (auto simp: calc_ticks_interval_def calc_ticks_interval_u32_def Let_def split: if_splits)
  then have "s * f + sub \<le> 4294967295" using at by (simp add: word_less_nat_alt not_less)
  moreover have "unat (ucast ((?a + ?t) AND 0xFFFFFFFF) :: u32) = (s * f + sub) mod 4294967296"
  proof -
    have "(0xFFFFFFFF :: u64) = mask 32" by (simp add: mask_eq_exp_minus_1)
    then show ?thesis
      using at by (simp only: take_bit_eq_mask [symmetric] unsigned_ucast_eq unsigned_take_bit_eq) (simp add: take_bit_eq_mod)
  qed
  ultimately show ?thesis using r(2) sub by (simp add: u64_num_def s_def f_def)
qed

section \<open>The list of waiting timers\<close>

text \<open>Inserting a timer refines insertion into a list ordered by expiry: the timers that wait
  afterwards are those of \<open>place\<close>, which keeps the order and puts the timer behind those that expire
  at the same time; nothing but the links, the head of the list and the scheduled mark of the timer
  it displaces from the front is touched.
\<close>

theorem insert_ordered_expiry_places:
  assumes "waiting s h xs" "sorted (map (expiry s) xs)" "e \<notin> set xs" "swt_next (sw_timers s e) = None"
  shows "\<exists>s'. insert_ordered_expiry e h s = Some s' \<and> waiting s' h (place (expiry s') e xs) \<and>
    sorted (map (expiry s') (place (expiry s') e xs)) \<and> relinked h (insert e (set xs)) s s'"
proof -
  obtain s' where s': "insert_ordered_expiry e h s = Some s'" "waiting s' h (place (expiry s) e xs)"
    "relinked h (insert e (set xs)) s s'"
    using insert_ordered_aux [OF assms(1,3,4)] by blast
  from relinked_fields(10) [OF s'(3)] s' sorted_place [OF assms(2)] show ?thesis by auto
qed

text \<open>Taking a timer off the list refines \<open>remove1\<close>; a timer that does not wait there is reported
  and nothing is changed.
\<close>

theorem remove_elem_removes:
  assumes "waiting s h xs"
  shows "\<exists>rv s'. remove_elem e h s = Some (rv, s') \<and>
    (if e \<in> set xs then rv = 0 \<and> waiting s' h (remove1 e xs) \<and> relinked h (set xs - {e}) s s' else rv = -1 \<and> s' = s)"
proof -
  obtain rv s' where "remove_elem e h s = Some (rv, s')"
    "if e \<in> set xs
     then rv = 0 \<and> waiting s' h (remove1 e xs) \<and> relinked h (set xs - {e}) s s' \<and>
       (\<forall>x. flags (sw_timers s' x) = flags (sw_timers s x))
     else rv = -1 \<and> s' = s"
    using remove_elem_aux [OF assms] by blast
  then show ?thesis by (auto split: if_splits)
qed

text \<open>Placing a timer at the end leaves its own link as it is.\<close>

lemma insert_loop_end:
  assumes "chain (sw_timers s) (Some n) (n # rest)" "\<forall>x\<in>set (n # rest). expiry s x \<le> expiry s e"
  shows "insert_loop e h prev n s = Some (set_next (last (n # rest)) (Some e) s)"
  using assms
proof (induction rest arbitrary: n prev)
  case Nil
  then show ?case by (subst insert_loop.simps) (simp add: expiry_def [symmetric] leD)
next
  case (Cons m rest)
  then have "insert_loop e h prev n s = insert_loop e h (Some n) m s"
    by (subst insert_loop.simps) (simp add: expiry_def [symmetric] leD)
  then show ?case using Cons.prems by (simp add: Cons.IH)
qed

text \<open>Links that lead from a set of timers into the set have no end.\<close>

definition closed_links :: "'p cc_timer_state \<Rightarrow> nat set \<Rightarrow> bool" where
  "closed_links s X \<longleftrightarrow> (\<forall>x\<in>X. swt_next (sw_timers s x) \<in> Some ` X)"

lemma closed_no_chain: "closed_links s X \<Longrightarrow> x \<in> X \<Longrightarrow> \<not> chain (sw_timers s) (Some x) ys"
  by (induction ys arbitrary: x) (auto simp: closed_links_def)

lemma closed_insert_loop:
  assumes "closed_links s X" "\<forall>x\<in>X. expiry s x \<le> expiry s d" "n \<in> X"
  shows "insert_loop d h prev n s = None"
proof -
  have "\<not> (n \<in> X)" if "insert_loop d h prev n s = Some s'" for s'
  proof (rule insert_loop.raw_induct [where P = "\<lambda>d' h' prev' n' t t'. t = s \<and> d' = d \<longrightarrow> n' \<notin> X",
        OF _ that, THEN mp], goal_cases)
    case (1 loop d' h' prev' n' t t')
    show ?case
    proof (intro impI notI)
      assume a: "t = s \<and> d' = d" "n' \<in> X"
      obtain y where y: "swt_next (sw_timers s n') = Some y" "y \<in> X"
        using assms(1) a(2) by (auto simp: closed_links_def)
      have "loop d h' (Some n') y s = Some t'"
        using 1(2) a assms(2) y(1) by (auto simp: expiry_def [symmetric] not_less split: if_splits)
      from 1(1) [OF this] y(2) show False by simp
    qed
  qed simp
  with assms(3) show ?thesis by (cases "insert_loop d h prev n s") auto
qed

text \<open>A timer taken off the front of the list keeps its link to the next one, and \<open>setup_timer_exec\<close>
  does not clear it before it puts a periodic timer back: when the timer goes to the end of the
  list, the list becomes a cycle, and placing a timer that expires later than all of it never ends,
  with interrupts disabled.
\<close>

theorem reinserted_timer_closes_cycle:
  assumes "waiting s h (e # y # ys)" "remove_elem e h s = Some (0, s1)"
    "s2 = swt_upd e (\<lambda>t. t\<lparr>hwt_expires := v\<rparr>) s1" "\<forall>x\<in>set (y # ys). expiry s x \<le> v"
  shows "\<exists>s3. insert_ordered_expiry e h s2 = Some s3 \<and> (\<nexists>zs. waiting s3 h zs) \<and>
    (\<forall>d. v \<le> expiry s3 d \<longrightarrow> insert_ordered_expiry d h s3 = None)"
proof -
  let ?n = "swt_next (sw_timers s e)"
  have n: "?n = Some y" and c: "chain (sw_timers s) (Some y) (y # ys)" using assms(1) by (auto simp: waiting_def)
  have s1: "s1 = set_used h (Some y) s" using remove_head(1) [OF assms(1)] assms(2) n by simp
  have d: "e \<notin> set (y # ys)" "distinct (y # ys)"
    using chain_distinct assms(1) unfolding waiting_def by fastforce+
  have u: "used_list (hwt_objs s2 h) = Some y" by (simp add: assms(3) s1 timer_upd)
  have nx: "swt_next (sw_timers s2 x) = swt_next (sw_timers s x)" for x by (simp add: assms(3) s1 timer_upd)
  have c2: "chain (sw_timers s2) (Some y) (y # ys)"
    using c chain_cong [of "y # ys" "sw_timers s2" "sw_timers s"] nx by blast
  have e2: "expiry s2 e = v" "\<And>x. x \<in> set (y # ys) \<Longrightarrow> expiry s2 x = expiry s x"
    using d(1) by (auto simp: assms(3) s1 timer_upd expiry_def)
  let ?l = "last (y # ys)"
  let ?s3 = "set_next ?l (Some e) s2"
  have "insert_loop e h None y s2 = Some ?s3"
    using assms(4) e2 by (intro insert_loop_end [OF c2]) auto
  then have i: "insert_ordered_expiry e h s2 = Some ?s3" using u by (simp add: insert_ordered_expiry_def)
  have l: "?l \<in> set (y # ys)" by (rule last_in_set) simp
  have tail: "chain (sw_timers s) p (zs) \<Longrightarrow> x \<in> set zs \<Longrightarrow> x \<noteq> last zs \<Longrightarrow> swt_next (sw_timers s x) \<in> Some ` set zs" for p zs x
    by (induction zs arbitrary: p) (auto simp: chain_Some split: if_splits, auto elim: chain.elims)
  have cl: "closed_links ?s3 (set (e # y # ys))"
  proof -
    have "swt_next (sw_timers ?s3 x) \<in> Some ` set (e # y # ys)" if "x \<in> set (e # y # ys)" for x
    proof (cases "x = ?l")
      case True
      then show ?thesis by (simp add: timer_upd)
    next
      case False
      then have eq: "swt_next (sw_timers ?s3 x) = swt_next (sw_timers s x)" using nx by (simp add: timer_upd)
      show ?thesis
      proof (cases "x = e")
        case True
        then show ?thesis using eq n by simp
      next
        case ne: False
        then have "x \<in> set (y # ys)" using that by simp
        from tail [OF c this False] eq show ?thesis by auto
      qed
    qed
    then show ?thesis by (simp add: closed_links_def)
  qed
  have u3: "used_list (hwt_objs ?s3 h) = Some y" using u by (simp add: timer_upd)
  have "\<nexists>zs. waiting ?s3 h zs"
    using closed_no_chain [OF cl, of y] u3 by (simp add: waiting_def)
  moreover have "insert_ordered_expiry d h ?s3 = None" if "v \<le> expiry ?s3 d" for d
  proof -
    have "expiry ?s3 x \<le> v" if "x \<in> set (e # y # ys)" for x
    proof -
      have "expiry ?s3 x = expiry s2 x" by (simp add: timer_upd expiry_def)
      then show ?thesis using e2 assms(4) that by auto
    qed
    then have "\<forall>x\<in>set (e # y # ys). expiry ?s3 x \<le> expiry ?s3 d" using that order_trans by blast
    from closed_insert_loop [OF cl this, of y] u3 show ?thesis by (simp add: insert_ordered_expiry_def)
  qed
  ultimately show ?thesis using i by blast
qed

section \<open>Starting and stopping on the monotone counter\<close>

lemma cc_timer_start_valid:
  assumes "hwt_obj (sw_timers s e) = Some h"
  obtains "cc_timer_start (Some e) time options s = Some (-1, s)"
    | ref where "cc_timer_start (Some e) time options s = timer_start e ref options s"
  using assms by (cases "has_flag options OPT_TIMER_PERIODIC \<and> has_flag options OPT_TIME_ABS_VALUE";
      cases "has_valid_opts (hwt_objs s h) options") (simp_all add: cc_timer_start_def Let_def)

lemma start_mono_aux:
  assumes "synced mono_armed mono_view s h xs" "idle s h xs e" "hw_of (hwt_objs s h) = mono_hwt None" "mono_inv (plat s)"
  shows "\<exists>rv s'. cc_timer_start (Some e) time options s = Some (rv, s') \<and> mono_inv (plat s') \<and>
    (if rv = 0
     then synced mono_armed mono_view s' h (place (expiry s') e xs) \<and>
       is_periodic (sw_timers s' e) = has_flag options OPT_TIMER_PERIODIC \<and>
       (\<not> has_flag options OPT_TIMER_PERIODIC \<longrightarrow> flags (sw_timers s' e) = queued_flags (hd (place (expiry s') e xs) = e))
     else rv = -1 \<and> synced mono_armed mono_view s' h xs \<and> idle s' h xs e)"
proof -
  have ho: "hwt_obj (sw_timers s e) = Some h" using assms(2) by (simp add: idle_def)
  have hw: "hw_of (hwt_objs s h) = hw_of (mono_hwt None)" using assms(3) by (simp add: mono_hwt_def hw_of_def)
  show ?thesis
  proof (rule cc_timer_start_valid [OF ho, of time options])
    assume "cc_timer_start (Some e) time options s = Some (-1, s)"
    then show ?thesis using assms by simp
  next
    fix ref
    assume r: "cc_timer_start (Some e) time options s = timer_start e ref options s"
    obtain rv s' where "timer_start e ref options s = Some (rv, s')" "mono_inv (plat s')"
      "if rv = 0
       then synced mono_armed mono_view s' h (place (expiry s') e xs) \<and>
         is_periodic (sw_timers s' e) = has_flag options OPT_TIMER_PERIODIC \<and>
         (\<not> has_flag options OPT_TIMER_PERIODIC \<longrightarrow> flags (sw_timers s' e) = queued_flags (hd (place (expiry s') e xs) = e)) \<and>
         (\<exists>s0 s1. setup_timer_interval e ref s = Some (0, s0) \<and> expiry_of e h options s0 = Some (0, s1) \<and>
            expiry s' e = expiry s1 e)
       else rv = -1 \<and> synced mono_armed mono_view s' h xs \<and> idle s' h xs e"
      using mono.timer_start_synced [OF assms(1,2) hw assms(4), where time = ref and options = options] by blast
    then show ?thesis using r by (cases "rv = 0") simp_all
  qed
qed

text \<open>
  C15. Starting a timer of the monotone counter that is fresh (allocated, neither started nor in the list,
  its next pointer clear, as it is after creation until the timer is first queued) always returns and keeps
  the framework's invariant: on success the timer waits at its place by expiry, the first timer of the list and no other is
  marked as scheduled and the match register of the counter holds its expiry; on failure the timer
  is idle as before and the list is unchanged.  (A timer that was stopped keeps its old next pointer and
  may close a cycle when it is started again: \<open>reinserted_timer_closes_cycle\<close>.)
\<close>

theorem cc_timer_start_keeps_synced:
  assumes "synced mono_armed mono_view s h xs" "idle s h xs e" "hw_of (hwt_objs s h) = mono_hwt None" "mono_inv (plat s)"
  shows "\<exists>rv s'. cc_timer_start (Some e) time options s = Some (rv, s') \<and> mono_inv (plat s') \<and>
    (if rv = 0
     then synced mono_armed mono_view s' h (place (expiry s') e xs) \<and>
       is_periodic (sw_timers s' e) = has_flag options OPT_TIMER_PERIODIC
     else rv = -1 \<and> synced mono_armed mono_view s' h xs \<and> idle s' h xs e)"
proof -
  obtain rv s' where "cc_timer_start (Some e) time options s = Some (rv, s')" "mono_inv (plat s')"
    "if rv = 0
     then synced mono_armed mono_view s' h (place (expiry s') e xs) \<and>
       is_periodic (sw_timers s' e) = has_flag options OPT_TIMER_PERIODIC \<and>
       (\<not> has_flag options OPT_TIMER_PERIODIC \<longrightarrow> flags (sw_timers s' e) = queued_flags (hd (place (expiry s') e xs) = e))
     else rv = -1 \<and> synced mono_armed mono_view s' h xs \<and> idle s' h xs e"
    using start_mono_aux [OF assms] by blast
  then show ?thesis by (cases "rv = 0") simp_all
qed

text \<open>Stopping a timer that the flags show as started takes it off the list and keeps the invariant:
  when it was the first, the next one takes over the match register, and when it was the only one,
  the counter is stopped.
\<close>

theorem cc_timer_stop_keeps_synced:
  assumes "synced mono_armed mono_view s h xs" "e \<in> set xs" "hw_of (hwt_objs s h) = mono_hwt None" "mono_inv (plat s)"
    "has_started (sw_timers s e)"
  shows "\<exists>s'. cc_timer_stop (Some e) s = Some (0, s') \<and> mono_inv (plat s') \<and>
    synced mono_armed mono_view s' h (remove1 e xs) \<and> \<not> is_scheduled (sw_timers s' e) \<and> \<not> is_periodic (sw_timers s' e)"
proof -
  have hw: "hw_of (hwt_objs s h) = hw_of (mono_hwt None)" using assms(3) by (simp add: mono_hwt_def hw_of_def)
  obtain s' where "timer_stop e s = Some (0, s')" "mono_inv (plat s')" "synced mono_armed mono_view s' h (remove1 e xs)"
    "\<not> is_scheduled (sw_timers s' e)" "\<not> is_periodic (sw_timers s' e)"
    using mono.timer_stop_synced [OF assms(1,2) hw assms(4)] by blast
  then show ?thesis using assms(5) by (simp add: cc_timer_stop_def)
qed

text \<open>A one-shot timer that waits behind another one cannot be told from an idle timer by its
  flags: \<open>cc_timer_start\<close> marks it in no way, so \<open>cc_timer_stop\<close> refuses to stop it, while
  \<open>cc_timer_delete\<close> accepts it and makes it the head of the free list although the timer in front
  of it still links to it.
\<close>

theorem queued_timer_looks_idle:
  assumes "synced mono_armed mono_view s h xs" "idle s h xs e" "hw_of (hwt_objs s h) = mono_hwt None" "mono_inv (plat s)"
    "cc_timer_start (Some e) time options s = Some (0, s')" "\<not> has_flag options OPT_TIMER_PERIODIC"
    "place (expiry s') e xs = us @ z # e # zs"
  shows "cc_timer_stop (Some e) s' = Some (-1, s') \<and>
    (\<exists>s2. cc_timer_delete (Some e) s' = (0, s2) \<and> free_list s2 = Some e \<and>
       (free_list s' \<noteq> Some z \<longrightarrow> swt_next (sw_timers s2 z) = Some e))"
proof -
  have y: "synced mono_armed mono_view s' h (place (expiry s') e xs)"
    "flags (sw_timers s' e) = queued_flags (hd (place (expiry s') e xs) = e)"
    using start_mono_aux [OF assms(1-4), of time options] assms(5,6) by auto
  have c: "chain (sw_timers s') (used_list (hwt_objs s' h)) (us @ z # e # zs)"
    using y(1) assms(7) by (simp add: synced_def waiting_def)
  have "distinct (us @ z # e # zs)" by (rule chain_distinct [OF c])
  then have ne: "hd (us @ z # e # zs) \<noteq> e" "z \<noteq> e" by (cases us; auto)+
  then have f: "flags (sw_timers s' e) = SW_TIMER_ALLOCATE" using y(2) assms(7) by (simp add: queued_flags_def)
  have "swt_next (sw_timers s' z) = Some e" using chain_split [OF c] by simp
  then show ?thesis
    using f ne(2) by (simp add: cc_timer_stop_def has_started_def cc_timer_delete_def is_alloc_only_def Let_def timer_upd
        set_alloc_status_def)
qed

section \<open>The interrupt of the wall clock\<close>

interpretation rtc_log: hwt_clock "logged (rtc_hwt used)" "\<lambda>q. rtc_steady (fst q)" "\<lambda>q. rtc_armed (fst q)" rtc_view
  "\<lambda>e q. rtc_ahead e (fst q)" "\<lambda>q. rtc_now (fst q)" for used
  by (rule rtc_clock.logged_clock)

lemma hw_of_logged: "hw_of (logged (rtc_hwt used)) = logged (rtc_hwt None)"
  by (simp add: hw_of_def logged_def rtc_hwt_def)

lemma on_fst_snd: "on_fst f q = Some (r, q') \<Longrightarrow> snd q' = snd q" "on_fst_out g q = Some (r, a, q') \<Longrightarrow> snd q' = snd q"
  by (auto simp: on_fst_def on_fst_out_def)

lemma sorted_takeWhile_filter:
  "sorted (map k xs) \<Longrightarrow> takeWhile (\<lambda>x. k x \<le> (b :: u64_val)) xs = filter (\<lambda>x. k x \<le> b) xs \<and>
     dropWhile (\<lambda>x. k x \<le> b) xs = filter (\<lambda>x. \<not> k x \<le> b) xs"
proof (induction xs)
  case (Cons x xs)
  show ?case
  proof (cases "k x \<le> b")
    case False
    then have "\<forall>y\<in>set xs. \<not> k y \<le> b" using Cons.prems by (force simp: not_le)
    then have "filter (\<lambda>x. k x \<le> b) xs = []" "filter (\<lambda>x. \<not> k x \<le> b) xs = xs" by (simp_all add: filter_empty_conv)
    then show ?thesis using False by simp
  qed (use Cons in simp)
qed simp

text \<open>
  C2. The timer interrupt fires every one-shot timer that is due, if the alarm did not go off early.  Let
  the list hold one-shot timers of the calendar clock, let the clock stand still while the handler runs,
  let the callbacks only record that they were called, and let the first timer, if the hardware is set
  for it, be due.  Then the callbacks of exactly the timers whose expiry has been reached are called, each
  once and in the order of expiry, those timers are no longer scheduled, and the alarm of the clock is set
  for the first of the others, or cleared when there is none.  (An interrupt before the first timer is due
  fires nothing and is lost: \<open>early_alarm_is_lost\<close>.)
\<close>

theorem timer_isr_fires_due:
  fixes s :: "(rtc_state \<times> (nat \<times> cc_hndl) list) cc_timer_state"
  assumes "queued s h xs" "\<forall>x\<in>set xs. \<not> is_periodic (sw_timers s x)" "hw_of (hwt_objs s h) = logged (rtc_hwt None)"
    "rtc_steady (fst (plat s))" "t = rtc_now (fst (plat s))"
    "xs \<noteq> [] \<Longrightarrow> is_scheduled (sw_timers s (hd xs)) \<Longrightarrow> expiry s (hd xs) \<le> t"
  shows "\<exists>s'. timer_isr (run_noted (\<lambda>c (p, log). (p, log @ [c]))) junk (Some h) s = Some s' \<and>
    snd (plat s') = snd (plat s) @ calls s (filter (\<lambda>x. expiry s x \<le> t) xs) \<and>
    synced (\<lambda>q. rtc_armed (fst q)) rtc_view s' h (filter (\<lambda>x. \<not> expiry s x \<le> t) xs) \<and>
    (\<forall>x\<in>set (filter (\<lambda>x. expiry s x \<le> t) xs). \<not> is_scheduled (sw_timers s' x))"
proof -
  let ?jot = "\<lambda>c (p :: rtc_state, log :: (nat \<times> cc_hndl) list). (p, log @ [c])"
  have hw: "hw_of (hwt_objs s h) = hw_of (logged (rtc_hwt None))" using assms(3) by (simp add: hw_of_logged)
  have f: "fold (\<lambda>c log. log @ [c]) cs log = log @ cs" for cs log :: "(nat \<times> cc_hndl) list"
    by (induction cs arbitrary: log) simp_all
  note d = rtc_log.drain [where jot = ?jot and obs = snd and upd = "\<lambda>c log. log @ [c]" and junk = junk and used = None,
    OF _ _ _ _ _ assms(1,2) hw]
  have so: "sorted (map (expiry s) xs)" using assms(1) by (simp add: queued_def)
  have "\<exists>s'. process_loop (run_noted ?jot) junk h (used_list (hwt_objs s h)) s = Some s' \<and> rtc_steady (fst (plat s')) \<and>
    synced (\<lambda>q. rtc_armed (fst q)) rtc_view s' h (dropWhile (\<lambda>x. expiry s x \<le> rtc_now (fst (plat s))) xs) \<and> expiry s' = expiry s \<and>
    snd (plat s') = fold (\<lambda>c log. log @ [c]) (calls s (takeWhile (\<lambda>x. expiry s x \<le> rtc_now (fst (plat s))) xs)) (snd (plat s)) \<and>
    (\<forall>x\<in>set (takeWhile (\<lambda>x. expiry s x \<le> rtc_now (fst (plat s))) xs).
       flags (sw_timers s' x) = flags (sw_timers s x) AND NOT SW_TIMER_HW_SCHED) \<and>
    (\<forall>x. x \<notin> set xs \<longrightarrow> sw_timers s' x = sw_timers s x)"
    using assms(4-6) by (intro d) (auto simp: logged_current logged_arm logged_acc dest: on_fst_snd)
  then obtain s' where "process_loop (run_noted ?jot) junk h (used_list (hwt_objs s h)) s = Some s'"
    "synced (\<lambda>q. rtc_armed (fst q)) rtc_view s' h (dropWhile (\<lambda>x. expiry s x \<le> t) xs)"
    "snd (plat s') = snd (plat s) @ calls s (takeWhile (\<lambda>x. expiry s x \<le> t) xs)"
    "\<forall>x\<in>set (takeWhile (\<lambda>x. expiry s x \<le> t) xs). flags (sw_timers s' x) = flags (sw_timers s x) AND NOT SW_TIMER_HW_SCHED"
    unfolding f assms(5) by blast
  then show ?thesis
    using sorted_takeWhile_filter [OF so, of t]
    by (auto simp: timer_isr_def process_timer_expiry_def is_scheduled_def)
qed

text \<open>An alarm that comes early is not set again. The clock holds an alarm with a precision of
  1/1024 s, rounded down, so its interrupt can come while the time still reads less than the expiry;
  the interrupt has then cleared the alarm, but the first timer keeps its scheduled mark, and the
  framework arms nothing: the timer waits with no alarm set.
\<close>

theorem early_alarm_is_lost:
  assumes "queued s h (x # xs)" "is_scheduled (sw_timers s x)" "hw_of (hwt_objs s h) = rtc_hwt None"
    "rtc_steady (plat s)" "cc_rtc_isr (plat s) = Some (Some cb, p)" "rtc_now p < expiry s x"
  shows "\<exists>s'. timer_isr run_cb junk (Some h) (s\<lparr>plat := p\<rparr>) = Some s' \<and> waiting s' h (x # xs) \<and>
    is_scheduled (sw_timers s' x) \<and> cc_rtc_has_alarm (plat s') = Some False"
proof -
  have hw: "hw_of (hwt_objs s h) = hw_of (rtc_hwt None)" using assms(3) by (simp add: rtc_hwt_def hw_of_def)
  obtain v s2 where v: "rtc_value_rd ((plat s)\<lparr>hib := snd (PRCMIntStatus (hib (plat s)))\<rparr>) = (v, s2)" by (rule prod.exhaust)
  have p: "p = s2\<lparr>has_alarm := False\<rparr>"
    using assms(5) v by (auto simp: cc_rtc_isr_def Let_def split: prod.splits if_splits Option.bind_splits)
  have t: "rtc_tick_free ((plat s)\<lparr>hib := snd (PRCMIntStatus (hib (plat s)))\<rparr>)"
    "rtc_inv ((plat s)\<lparr>hib := snd (PRCMIntStatus (hib (plat s)))\<rparr>)"
    using assms(4) by (simp_all add: rtc_steady_def rtc_tick_free_def rtc_inv_def PRCMIntStatus_def rtc_access)
  have st: "rtc_steady p"
    using value_rd_steady(1) [OF t(1) v] value_rd_keeps(1) [OF v] t(2)
    by (simp add: p rtc_steady_def rtc_tick_free_def rtc_inv_def)
  have na: "rtc_armed p = None" by (simp add: p rtc_armed_def)
  let ?s = "s\<lparr>plat := p\<rparr>"
  have o: "hwt_obj (sw_timers s x) = Some h" and u: "used_list (hwt_objs s h) = Some x" and w: "waiting s h (x # xs)"
    using assms(1) by (auto simp: queued_def waiting_def)
  obtain p' where c: "hwt_get_current (hwt_objs s h) (junk ?s) p = Some (0, rtc_now p, p')" "rtc_steady p'" "rtc_armed p' = None"
    using rtc_clock.reads_now [OF st, where cur = "junk ?s" and used = None] hw_of_cong(4) [OF hw] na by auto
  have "timer_isr run_cb junk (Some h) ?s = Some (s\<lparr>plat := p'\<rparr>)"
    using o u c(1) assms(2,6)
    by (simp add: timer_isr_def process_timer_expiry_def process_loop.simps expiry_def sched_timer_if_new_def)
  then show ?thesis
    using c w assms(2) by (simp add: cc_rtc_has_alarm_def rtc_steady_def rtc_inv_def rtc_armed_def split: if_splits)
qed

section \<open>The pool of timers\<close>

definition pool :: "'p cc_timer_state \<Rightarrow> nat list \<Rightarrow> bool" where
  "pool s fs \<longleftrightarrow> chain (sw_timers s) (free_list s) fs \<and> (\<forall>x\<in>set fs. flags (sw_timers s x) = 0)"

text \<open>
  C29. Creating a timer takes the first one of the pool, unlinked, marked as allocated and bound to
  the hardware timer asked for; deleting it again gives back the pool as it was.
\<close>

theorem cc_timer_create_delete:
  assumes "pool s fs" "cc_timer_create cfg s = (Some e, s1)"
  shows "fs = e # tl fs \<and> pool s1 (tl fs) \<and> hwt_obj (sw_timers s1 e) = get_hwt (timer_source cfg) \<and>
    idle s1 (the (get_hwt (timer_source cfg))) [] e \<and>
    (\<exists>s2. cc_timer_delete (Some e) s1 = (0, s2) \<and> pool s2 fs \<and> cc_timer_start (Some e) time 0 s2 = None)"
proof -
  obtain h where h: "get_hwt (timer_source cfg) = Some h" "free_list s = Some e"
    using assms(2) by (auto simp: cc_timer_create_def Let_def split: option.splits if_splits)
  then obtain gs where fs: "fs = e # gs" "chain (sw_timers s) (swt_next (sw_timers s e)) gs"
    using assms(1) by (auto simp: pool_def chain_Some)
  have "distinct fs" using assms(1) chain_distinct unfolding pool_def by blast
  then have d: "\<forall>x\<in>set gs. x \<noteq> e" using fs(1) by auto
  have s1: "s1 = (let s' = s\<lparr>free_list := swt_next (sw_timers s e)\<rparr> in
      swt_upd e (\<lambda>t. t\<lparr>hwt_obj := Some h, timeout_cb := timer_timeout_cb cfg, cb_param := timer_cb_param cfg\<rparr>)
        (set_alloc_status e True (set_next e None s')))"
    using assms(2) h by (auto simp: cc_timer_create_def Let_def split: if_splits)
  have e1: "is_alloc_only (sw_timers s1 e)" "hwt_obj (sw_timers s1 e) = Some h" "swt_next (sw_timers s1 e) = None"
    "free_list s1 = swt_next (sw_timers s e)" "\<forall>x\<in>set gs. sw_timers s1 x = sw_timers s x"
    using d by (auto simp: s1 Let_def timer_upd set_alloc_status_def is_alloc_only_def)
  have c1: "chain (sw_timers s1) (swt_next (sw_timers s e)) gs"
    using fs(2) chain_cong [of gs "sw_timers s1" "sw_timers s"] e1(5) by simp
  then have p1: "pool s1 gs" using assms(1) fs(1) e1(4,5) by (simp add: pool_def)
  obtain s2 where s2: "cc_timer_delete (Some e) s1 = (0, s2)" "free_list s2 = Some e" "swt_next (sw_timers s2 e) = free_list s1"
    "flags (sw_timers s2 e) = 0" "\<forall>x\<in>set gs. sw_timers s2 x = sw_timers s1 x" "hwt_obj (sw_timers s2 e) = None"
    using e1(1) d by (simp add: cc_timer_delete_def Let_def timer_upd set_alloc_status_def)
  have "chain (sw_timers s2) (free_list s1) gs"
    using c1 e1(4) chain_cong [of gs "sw_timers s2" "sw_timers s1"] s2(5) by simp
  then have "pool s2 fs" using p1 s2 fs(1) by (simp add: pool_def)
  moreover have "cc_timer_start (Some e) time 0 s2 = None" using s2(6) by (simp add: cc_timer_start_def has_flag_def)
  ultimately show ?thesis using fs p1 e1 h s2(1) by (simp add: idle_def)
qed

text \<open>
  C32. After the initialisation all six timers are in the pool and none is allocated, no timer waits,
  and no hardware timer has a driver, so that no timer can be created before a driver is registered.
\<close>

theorem cc_timer_module_init_pool:
  assumes "cc_timer_module_init has_enbl has_dsbl s = (0, s')" "free_list s = None"
  shows "has_enbl \<and> has_dsbl \<and> pool s' (rev [0..<MAX_SW_TIMER]) \<and> (\<forall>h<MAX_HWT_PLUG. waiting s' h []) \<and>
    cc_timer_create cfg s' = (None, s')"
proof -
  have i: "[0..<6] = [0, 1, 2, 3, 4, 5 :: nat]" "[0..<2] = [0, 1 :: nat]" by (simp_all add: upt_rec)
  have p: "has_enbl" "has_dsbl" "s' = snd (hw_timers_init (snd (sw_timers_init s)))"
    using assms(1) by (auto simp: cc_timer_module_init_def Let_def split: prod.splits if_splits)
  have "pool s' (rev [0..<MAX_SW_TIMER])"
    using assms(2)
    by (simp add: p(3) sw_timers_init_def hw_timers_init_def i pool_def push_free_def timer_upd zero_timer_def
        MAX_SW_TIMER_def MAX_HWT_PLUG_def HW_REALTIME_CLK_def HW_MONOTONE_CTR_def)
  moreover have "h < MAX_HWT_PLUG \<Longrightarrow> waiting s' h [] \<and> hwt_ops (hwt_objs s' h) = None" for h
    by (auto simp: p(3) sw_timers_init_def hw_timers_init_def i push_free_def timer_upd waiting_def
        MAX_SW_TIMER_def MAX_HWT_PLUG_def HW_REALTIME_CLK_def HW_MONOTONE_CTR_def less_Suc_eq)
  moreover have "h < MAX_HWT_PLUG" if "get_hwt src = Some h" for src h
    using that by (auto simp: get_hwt_def HW_REALTIME_CLK_def HW_MONOTONE_CTR_def MAX_HWT_PLUG_def split: if_splits)
  ultimately show ?thesis using p(1,2) by (auto simp: cc_timer_create_def split: option.splits)
qed

text \<open>A driver with both 32-bit and 64-bit operations is accepted although the check is meant to let
  through only drivers with exactly one of the two sets: the macro that tests for the 32-bit set is
  not parenthesised, so the exclusive or applies to its last branch only.
\<close>

theorem register_accepts_both_widths:
  assumes "get_hwt src = Some h" "hwt_ops (hwt_objs s h) = None" "hwt_hndl \<noteq> None"
    "start32 ops \<noteq> None" "update_exp32 ops \<noteq> None" "get_remaining32 ops \<noteq> None" "get_current32 ops \<noteq> None"
    "stop ops \<noteq> None" "is_running ops \<noteq> None" "get_rollovers ops \<noteq> None" "get_frequency ops \<noteq> None"
    "register_cb ops = Some f" "f hwt_hndl h (plat s) = Some (r, p)" "r \<noteq> -1"
  shows "\<exists>s'. cc_timer_register_hwt_ops src hwt_hndl ops s = Some (0, s') \<and> hwt_ops (hwt_objs s' h) = Some ops"
  using assms by (auto simp: cc_timer_register_hwt_ops_def Let_def timer_upd)

section \<open>Witnesses\<close>

definition sample_timer :: "u32 \<Rightarrow> u64_val \<Rightarrow> nat \<Rightarrow> nat option \<Rightarrow> sw_timer" where
  "sample_timer f e h n = \<lparr>flags = f, hwt_expires = e, sw_interval = U64 0 0, timeout_cb = Some 7, cb_param = Some h,
     hwt_obj = Some h, swt_next = n\<rparr>"

text \<open>Timer 0 waits for the monotone counter to reach 100; the others are idle.\<close>

definition mono_sample :: "hwt32_state cc_timer_state" where
  "mono_sample = \<lparr>hwt_objs = (\<lambda>_. mono_hwt (Some 0)),
     sw_timers = (\<lambda>i. if i = 0 then sample_timer 6 (U64 0 100) 0 None else sample_timer 4 (U64 0 0) 0 None),
     free_list = None, plat = sample_hwt32 HW_TIMER_MONOTONE\<rparr>"

lemma mono_sample_ok:
  "synced mono_armed mono_view mono_sample 0 [0]" "idle mono_sample 0 [0] 1"
  "hw_of (hwt_objs mono_sample 0) = mono_hwt None" "mono_inv (plat mono_sample)"
  by (simp_all add: mono_sample_def synced_def idle_def waiting_def expiry_def sample_timer_def mono_hwt_def hw_of_def
      mono_armed_def sample_hwt32_def hwt32_is_running_def TIMER_O_TAMATCHR_def mono_view_def is_scheduled_def has_flag_def
      timer_flags is_alloc_only_def mono_inv_def)

lemma waiting_sample: "waiting mono_sample 0 [0]" "sorted (map (expiry mono_sample) [0])"
  using mono_sample_ok(1) by (simp_all add: synced_def)

theorem calc_ticks_interval_subsecond_lost_witness:
  "calc_ticks_interval False 80000000 \<lparr>secs = 2, nsec = 500000000\<rparr> (U64 0 0) = (0, U64 0 160000003) \<and>
     u64_num (U64 0 160000003) \<le> 160000004"
proof -
  have "calc_ticks_interval False 80000000 \<lparr>secs = 2, nsec = 500000000\<rparr> (U64 0 0) = (0, U64 0 160000003)" by code_simp
  with calc_ticks_interval_subsecond_lost [OF this] show ?thesis by simp
qed

theorem insert_ordered_expiry_places_witness:
  "\<exists>s'. insert_ordered_expiry 1 0 mono_sample = Some s' \<and> waiting s' 0 (place (expiry s') 1 [0])"
  using insert_ordered_expiry_places [OF waiting_sample, of 1] mono_sample_ok(2) by (auto simp: idle_def)

theorem remove_elem_removes_witness:
  "\<exists>s'. remove_elem 0 0 mono_sample = Some (0, s') \<and> waiting s' 0 []"
  using remove_elem_removes [OF waiting_sample(1), of 0] by auto

definition two_waiting :: "hwt32_state cc_timer_state" where
  "two_waiting = mono_sample\<lparr>sw_timers := (\<lambda>i. if i = 0 then sample_timer 6 (U64 0 100) 0 (Some 1)
     else sample_timer 4 (U64 0 200) 0 None)\<rparr>"

theorem reinserted_timer_closes_cycle_witness:
  "\<exists>s1 s3. remove_elem 0 0 two_waiting = Some (0, s1) \<and>
     insert_ordered_expiry 0 0 (swt_upd 0 (\<lambda>t. t\<lparr>hwt_expires := U64 0 300\<rparr>) s1) = Some s3 \<and> (\<nexists>zs. waiting s3 0 zs)"
proof -
  have w: "waiting two_waiting 0 [0, 1]"
    by (simp add: waiting_def two_waiting_def mono_sample_def mono_hwt_def sample_timer_def)
  obtain s1 where r: "remove_elem 0 0 two_waiting = Some (0, s1)" using remove_head(1) [OF w] by simp
  have e: "\<forall>x\<in>set [1]. expiry two_waiting x \<le> U64 0 300"
    by (simp add: two_waiting_def expiry_def sample_timer_def less_eq_u64_val_def u64_num_def)
  from reinserted_timer_closes_cycle [OF w r refl e] r show ?thesis by blast
qed

theorem cc_timer_start_keeps_synced_witness:
  "\<exists>rv s'. cc_timer_start (Some 1) \<lparr>secs = 1, nsec = 0\<rparr> 0 mono_sample = Some (rv, s') \<and> mono_inv (plat s')"
  using cc_timer_start_keeps_synced [OF mono_sample_ok, of "\<lparr>secs = 1, nsec = 0\<rparr>" 0] by blast

theorem cc_timer_stop_keeps_synced_witness:
  "\<exists>s'. cc_timer_stop (Some 0) mono_sample = Some (0, s') \<and> synced mono_armed mono_view s' 0 []"
proof -
  have "has_started (sw_timers mono_sample 0)"
    by (simp add: has_started_def mono_sample_def sample_timer_def has_flag_def timer_flags)
  from cc_timer_stop_keeps_synced [OF mono_sample_ok(1) _ mono_sample_ok(3,4) this] show ?thesis by auto
qed

lemma two_started:
  "\<exists>s'. cc_timer_start (Some 1) \<lparr>secs = 1, nsec = 0\<rparr> 0 mono_sample = Some (0, s') \<and> place (expiry s') 1 [0] = [0, 1]"
proof -
  have t: "calc_ticks_interval False 80000000 \<lparr>secs = 1, nsec = 0\<rparr> (U64 0 0) = (0, U64 0 80000000)" by code_simp
  have c: "cmp_u64 (U64 0 80000151) (U64 0 100) = 1" by code_simp
  have p: "\<not> U64 0 80000151 < U64 0 100" by (simp add: u64_less)
  show ?thesis
    by (simp add: cc_timer_start_def mono_sample_def sample_timer_def has_flag_def timer_flags hwt_has_abs_time_def
        mono_hwt_simps HW_REALTIME_CLK_def HW_MONOTONE_CTR_def has_valid_opts_def timer_start_def is_alloc_only_def
        setup_timer_interval_def hwt_get_frequency_def cc_hwt32_get_frequency_def sample_hwt32_def t swt_upd_def
        setup_timer_exec_def expiry_of_def Let_def hwt_is_running_def cc_hwt32_is_running_def hwt32_is_running_def
        hwt_get_current_def cc_hwt32_get_current_def hwt32_get_current_def read_counter_eq hwt_get_rollovers_def
        cc_hwt32_get_rollovers_def calc_hwt_expiry_def calc_hwt_expiry_tick_def calc_hwt_expiry_tick_u32_def
        insert_ordered_expiry_def insert_loop.simps c set_next_def sched_timer_if_new_def is_scheduled_def
        set_periodic_def expiry_def p)
qed

theorem queued_timer_looks_idle_witness:
  "\<exists>s'. cc_timer_start (Some 1) \<lparr>secs = 1, nsec = 0\<rparr> 0 mono_sample = Some (0, s') \<and>
     cc_timer_stop (Some 1) s' = Some (-1, s')"
proof -
  obtain s' where s: "cc_timer_start (Some 1) \<lparr>secs = 1, nsec = 0\<rparr> 0 mono_sample = Some (0, s')"
    "place (expiry s') 1 [0] = [] @ 0 # 1 # []" using two_started by auto
  have "\<not> has_flag 0 OPT_TIMER_PERIODIC" by (simp add: has_flag_def)
  from queued_timer_looks_idle [OF mono_sample_ok s(1) this s(2)] s(1) show ?thesis by blast
qed

text \<open>The clock at a given count of 1/1024 s.\<close>

definition rtc_at :: "u64 \<Rightarrow> rtc_state" where
  "rtc_at n = sample_rtc\<lparr>hib := sample_regs\<lparr>scc_at := (\<lambda>_. push_bit 5 n)\<rparr>\<rparr>"

lemma rtc_at_steady: "rtc_steady (rtc_at n)"
  using sample_used by (simp add: rtc_steady_def rtc_inv_def rtc_tick_free_def rtc_at_def rtc_access) (simp add: sample_rtc_def)

definition log_sample :: "(rtc_state \<times> (nat \<times> cc_hndl) list) cc_timer_state" where
  "log_sample = \<lparr>hwt_objs = (\<lambda>_. logged (rtc_hwt (Some 0))),
     sw_timers = (\<lambda>i. if i = 0 then sample_timer 6 (U64 9 0) 1 (Some 1) else sample_timer 4 (U64 11 0) 1 None),
     free_list = None, plat = (rtc_at 10240, [])\<rparr>"

lemma rtc_at_now: "rtc_now (rtc_at 10240) = U64 10 0"
proof -
  have "fst (PRCMRTCGet (hib (rtc_at 10240))) = (10, 0)"
    using sample_used
    by (simp add: rtc_at_def PRCMRTCGet_def SCC_get Let_def RTC_SECS_IN_U64MSEC_def RTC_MSEC_IN_U64MSEC_def
        RTC_U64MSEC_MK_def rtc_access) (simp add: sample_regs_def)
  then show ?thesis
    by (simp add: rtc_now_def rtc_value_rd_def case_prod_unfold Let_def U16MS_U32NS_def CYCLES_U16MS_def)
qed

theorem timer_isr_fires_due_witness:
  "\<exists>s'. timer_isr (run_noted (\<lambda>c (p, log). (p, log @ [c]))) (\<lambda>_. U64 0 0) (Some 1) log_sample = Some s' \<and>
     snd (plat s') = [(7, Some 1)] \<and> waiting s' 1 [1]"
proof -
  have q: "queued log_sample 1 [0, 1]"
    by (simp add: queued_def log_sample_def waiting_def sample_timer_def logged_def rtc_hwt_def expiry_def
        less_eq_u64_val_def u64_num_def is_scheduled_def has_flag_def timer_flags)
  have p: "\<forall>x\<in>set [0, 1]. \<not> is_periodic (sw_timers log_sample x)"
    by (simp add: log_sample_def sample_timer_def is_periodic_def has_flag_def timer_flags)
  have h: "hw_of (hwt_objs log_sample 1) = logged (rtc_hwt None)" by (simp add: log_sample_def hw_of_logged)
  have st: "rtc_steady (fst (plat log_sample))" "U64 10 0 = rtc_now (fst (plat log_sample))"
    by (simp_all add: log_sample_def rtc_at_steady rtc_at_now)
  have le: "expiry log_sample 0 \<le> U64 10 0" "\<not> expiry log_sample 1 \<le> U64 10 0"
    by (simp_all add: log_sample_def sample_timer_def expiry_def less_eq_u64_val_def u64_num_def)
  have c: "calls log_sample [0] = [(7, Some 1)]" "snd (plat log_sample) = []"
    by (simp_all add: calls_def log_sample_def sample_timer_def)
  from timer_isr_fires_due [OF q p h st, of "\<lambda>_. U64 0 0"] le c show ?thesis by (auto simp: synced_def)
qed

text \<open>A timer for 10.001 s, and the clock in the period in which its alarm goes off.\<close>

definition early_sample :: "rtc_state cc_timer_state" where
  "early_sample = \<lparr>hwt_objs = (\<lambda>_. rtc_hwt (Some 0)), sw_timers = (\<lambda>i. sample_timer 6 (U64 10 1000000) 1 None),
     free_list = None, plat = (rtc_at 10241)\<lparr>has_alarm := True, hib := PRCMRTCMatchSet 10 1 (hib (rtc_at 10241))\<rparr>\<rparr>"

theorem early_alarm_is_lost_witness:
  "\<exists>p s'. cc_rtc_isr (plat early_sample) = Some (Some (Tfw 1), p) \<and>
     timer_isr (\<lambda>_ _ s. Some s) (\<lambda>_. U64 0 0) (Some 1) (early_sample\<lparr>plat := p\<rparr>) = Some s' \<and>
     waiting s' 1 [0] \<and> cc_rtc_has_alarm (plat s') = Some False"
proof -
  let ?h = "hib (rtc_at 10241)"
  have us: "IsRTCUsed ?h" using sample_used by (simp add: rtc_at_def rtc_access)
  have q: "queued early_sample 1 [0]"
    by (simp add: queued_def early_sample_def waiting_def sample_timer_def rtc_hwt_def)
  have sc: "is_scheduled (sw_timers early_sample 0)"
    by (simp add: early_sample_def sample_timer_def is_scheduled_def has_flag_def timer_flags)
  have h: "hw_of (hwt_objs early_sample 1) = rtc_hwt None" by (simp add: early_sample_def rtc_hwt_def hw_of_def)
  have st: "rtc_steady (plat early_sample)"
    using rtc_at_steady [of 10241] by (simp add: early_sample_def rtc_steady_def rtc_inv_def rtc_tick_free_def)
  let ?s1 = "(plat early_sample)\<lparr>hib := snd (PRCMIntStatus (hib (plat early_sample)))\<rparr>"
  have mg: "PRCMRTCMatchGet (h\<lparr>APPS_RCM_INTERRUPT_STATUS := 0\<rparr>) = PRCMRTCMatchGet h" for h
    by (simp add: PRCMRTCMatchGet_def rtc_access)
  have a: "rtc_alarm_rd ?s1 = \<lparr>secs = 10, nsec = 0\<rparr>"
    by (simp add: rtc_alarm_rd_def early_sample_def PRCMIntStatus_def mg PRCMRTCMatchGet_after_set_aux us
        U16MS_U32NS_def CYCLES_U16MS_def)
  have g: "fst (PRCMRTCGet (h\<lparr>APPS_RCM_INTERRUPT_STATUS := 0\<rparr>)) = fst (PRCMRTCGet h)" for h
    by (simp add: PRCMRTCGet_def SCC_get Let_def rtc_access)
  have g2: "fst (PRCMRTCGet (PRCMRTCMatchSet 10 1 ?h)) = fst (PRCMRTCGet ?h)"
    using us by (simp add: PRCMRTCGet_def PRCMRTCMatchSet_def SCC_get Let_def rtc_access)
  have g3: "fst (PRCMRTCGet ?h) = (10, 1)"
    using sample_used
    by (simp add: rtc_at_def PRCMRTCGet_def SCC_get Let_def RTC_SECS_IN_U64MSEC_def RTC_MSEC_IN_U64MSEC_def
        RTC_U64MSEC_MK_def rtc_access) (simp add: sample_regs_def)
  have v: "fst (rtc_value_rd ?s1) = \<lparr>secs = 10, nsec = 0\<rparr>"
    using g [of "PRCMRTCMatchSet 10 1 ?h"] g2 g3
    by (simp add: rtc_value_rd_def case_prod_unfold Let_def early_sample_def PRCMIntStatus_def U16MS_U32NS_def CYCLES_U16MS_def)
  obtain w s2 where e: "rtc_value_rd ?s1 = (w, s2)" by (rule prod.exhaust)
  have w: "w = \<lparr>secs = 10, nsec = 0\<rparr>" using v e by simp
  have b: "rtc_up ?s1" "has_alarm ?s1" "rtc_cb ?s1 = Some (Tfw 1)"
    by (simp_all add: early_sample_def rtc_at_def sample_rtc_def)
  let ?p = "s2\<lparr>has_alarm := False\<rparr>"
  have i: "cc_rtc_isr (plat early_sample) = Some (Some (Tfw 1), ?p)"
    using b e a value_rd_keeps(5) [OF e] by (simp add: cc_rtc_isr_def case_prod_unfold Let_def w is_valid_alarm_def)
  have tf: "rtc_tick_free ?s1" using st by (simp add: rtc_steady_def rtc_tick_free_def PRCMIntStatus_def)
  have "fst (rtc_value_rd ?p) = w"
    using value_rd_steady(2) [OF tf e] by (simp add: rtc_value_rd_def case_prod_unfold Let_def)
  then have "rtc_now ?p < expiry early_sample 0"
    by (simp add: rtc_now_def w early_sample_def expiry_def sample_timer_def u64_less)
  from early_alarm_is_lost [OF q sc h st i this, of "\<lambda>_ _ s. Some s" "\<lambda>_. U64 0 0"] i show ?thesis by blast
qed

text \<open>The state after the initialisation, with the monotone counter registered.\<close>

definition raw_sample :: "hwt32_state cc_timer_state" where
  "raw_sample = \<lparr>hwt_objs = (\<lambda>_. mono_hwt None), sw_timers = (\<lambda>_. zero_timer), free_list = None,
     plat = sample_hwt32 HW_TIMER_NOT_USED\<rparr>"

theorem cc_timer_module_init_pool_witness:
  "\<exists>s'. cc_timer_module_init True True raw_sample = (0, s') \<and> pool s' [5, 4, 3, 2, 1, 0]"
proof -
  obtain s' where s: "cc_timer_module_init True True raw_sample = (0, s')"
    by (simp add: cc_timer_module_init_def sw_timers_init_def hw_timers_init_def MAX_HWT_PLUG_def
        HW_REALTIME_CLK_def HW_MONOTONE_CTR_def Let_def)
  have "rev [0..<MAX_SW_TIMER] = [5, 4, 3, 2, 1, 0]" by (simp add: MAX_SW_TIMER_def upt_rec)
  moreover have "free_list raw_sample = None" by (simp add: raw_sample_def)
  ultimately show ?thesis using cc_timer_module_init_pool [OF s] s by simp
qed

definition pool_sample :: "hwt32_state cc_timer_state" where
  "pool_sample = raw_sample\<lparr>free_list := Some 3\<rparr>"

theorem cc_timer_create_delete_witness:
  "\<exists>s1 s2. cc_timer_create \<lparr>timer_source = HW_MONOTONE_CTR, timer_timeout_cb = Some 7, timer_cb_param = None\<rparr> pool_sample = (Some 3, s1) \<and>
     cc_timer_delete (Some 3) s1 = (0, s2) \<and> pool s2 [3]"
proof -
  let ?c = "\<lparr>timer_source = HW_MONOTONE_CTR, timer_timeout_cb = Some 7, timer_cb_param = None\<rparr>"
  have p: "pool pool_sample [3]" by (simp add: pool_def pool_sample_def raw_sample_def zero_timer_def)
  obtain s1 where c: "cc_timer_create ?c pool_sample = (Some 3, s1)"
    by (simp add: cc_timer_create_def get_hwt_def HW_MONOTONE_CTR_def pool_sample_def raw_sample_def mono_hwt_def Let_def)
  from cc_timer_create_delete [OF p c] c show ?thesis by auto
qed

definition both_ops :: "hwt32_state hw_timer_ops" where
  "both_ops = hwt32_ops\<lparr>start64 := Some (\<lambda>_ _ _ p. Some (0, p)), update_exp64 := Some (\<lambda>_ _ p. Some (0, p)),
     get_remaining64 := Some (\<lambda>_ r p. Some (0, r, p)), get_current64 := Some (\<lambda>_ c p. Some (0, c, p)),
     register_cb := Some (\<lambda>_ _ p. Some (0, p))\<rparr>"

theorem register_accepts_both_widths_witness:
  "\<exists>s'. cc_timer_register_hwt_ops HW_MONOTONE_CTR (Some 0) both_ops
     (raw_sample\<lparr>hwt_objs := (\<lambda>_. (mono_hwt None)\<lparr>hwt_ops := None\<rparr>)\<rparr>) = Some (0, s') \<and> start64 (the (hwt_ops (hwt_objs s' 0))) \<noteq> None"
proof -
  let ?s = "raw_sample\<lparr>hwt_objs := (\<lambda>_. (mono_hwt None)\<lparr>hwt_ops := None\<rparr>)\<rparr>"
  have "get_hwt HW_MONOTONE_CTR = Some 0" by (simp add: get_hwt_def HW_MONOTONE_CTR_def)
  from register_accepts_both_widths [of HW_MONOTONE_CTR 0 ?s "Some 0" both_ops "\<lambda>_ _ p. Some (0, p)" 0 "plat ?s", OF this]
  show ?thesis by (auto simp: both_ops_def hwt32_ops_def DEF_HWT32_OPS_def)
qed

end
