(* ===== verification/Tftp.thy ===== *)
theory Tftp
  imports CC_Prelude "HOL-Library.Monad_Syntax"
begin

text \<open>
  The TFTP client of \<open>netapps/tftp/client/tftp.c\<close>: building packets, reading and processing replies,
  resynchronisation and the two transfers.  The instance \<open>TFTP\<close> is a record, its packet buffer a list
  of \<open>DATA_SIZE\<close> bytes; an access beyond a buffer, and a call that does not return, are \<open>None\<close>.  The
  sockets and the allocator are a record of operations on a world.
\<close>

section \<open>Bytes in a buffer\<close>

text \<open>A 16-bit field of the packet header, in the byte order of the processor.\<close>

definition put16 :: "nat \<Rightarrow> u16 \<Rightarrow> u8 list \<Rightarrow> u8 list option" where
  "put16 i v = poke i [ucast v, ucast (drop_bit 8 v)]"

definition get16 :: "nat \<Rightarrow> u8 list \<Rightarrow> u16 option" where
  "get16 i buf = do { xs \<leftarrow> peek i 2 buf; Some (ucast (xs ! 0) OR push_bit 8 (ucast (xs ! 1))) }"

definition sl_Htons :: "u16 \<Rightarrow> u16" where
  "sl_Htons val = push_bit 8 val OR drop_bit 8 val"

definition sl_Htonl :: "u32 \<Rightarrow> u32" where
  "sl_Htonl val = push_bit 24 val OR (push_bit 8 val AND 0xFF0000) OR (drop_bit 8 val AND 0xFF00) OR drop_bit 24 val"

section \<open>State\<close>

definition TFTP_RRQ :: u16 where "TFTP_RRQ = 1"
definition TFTP_WRQ :: u16 where "TFTP_WRQ = 2"
definition TFTP_DATA :: u16 where "TFTP_DATA = 3"
definition TFTP_ACK :: u16 where "TFTP_ACK = 4"
definition TFTP_ERROR :: u16 where "TFTP_ERROR = 5"

definition TFTPERROR_SOCKET :: int where "TFTPERROR_SOCKET = -1"
definition TFTPERROR_FAILED :: int where "TFTPERROR_FAILED = -2"
definition TFTPERROR_ERRORREPLY :: int where "TFTPERROR_ERRORREPLY = -3"
definition TFTPERROR_BADPARAM :: int where "TFTPERROR_BADPARAM = -4"
definition TFTPERROR_RESOURCES :: int where "TFTPERROR_RESOURCES = -5"

definition SEGSIZE :: nat where "SEGSIZE = 512"
definition TFTP_HEADER :: nat where "TFTP_HEADER = 4"
definition DATA_SIZE :: nat where "DATA_SIZE = SEGSIZE + TFTP_HEADER"
definition PORT_TFTP :: u16 where "PORT_TFTP = 69"
definition MAX_SYNC_TRIES :: int where "MAX_SYNC_TRIES = 4"
definition TFTP_SOCK_TIMEOUT :: nat where "TFTP_SOCK_TIMEOUT = 10"
definition EWOULDBLOCK :: int where "EWOULDBLOCK = -11"

lemmas tftp_consts = TFTP_RRQ_def TFTP_WRQ_def TFTP_DATA_def TFTP_ACK_def TFTP_ERROR_def SEGSIZE_def TFTP_HEADER_def
  DATA_SIZE_def PORT_TFTP_def MAX_SYNC_TRIES_def
lemmas tftp_errors = TFTPERROR_SOCKET_def TFTPERROR_FAILED_def TFTPERROR_ERRORREPLY_def TFTPERROR_BADPARAM_def
  TFTPERROR_RESOURCES_def

text \<open>Address and port, both in network order.\<close>

record sockaddr_in =
  s_addr :: u32
  sin_port :: u16

record TFTP =
  PeerAddress :: u32
  szFileName :: "u8 list"
  Buffer :: "u8 list"
  BufferSize :: u32
  Sock :: int
  PacketBuffer :: "u8 list"
  Length :: u32
  BufferUsed :: u32
  FileSize :: u32
  NextBlock :: u16
  ErrorCode :: u16
  MaxSyncError :: int
  tmpaddr :: sockaddr_in
  peeraddr :: sockaddr_in

text \<open>
  The host calls.  A receive returns its result, the bytes it stored at the start of the buffer and
  the sender's address.
\<close>

record 'w udp_ops =
  udp_socket :: "'w \<Rightarrow> int \<times> 'w"
  udp_bind :: "int \<Rightarrow> sockaddr_in \<Rightarrow> 'w \<Rightarrow> int \<times> 'w"
  udp_rcvtimeo :: "int \<Rightarrow> nat \<Rightarrow> 'w \<Rightarrow> int \<times> 'w"
  udp_sendto :: "int \<Rightarrow> u8 list \<Rightarrow> sockaddr_in \<Rightarrow> 'w \<Rightarrow> int \<times> 'w"
  udp_recvfrom :: "int \<Rightarrow> nat \<Rightarrow> sockaddr_in \<Rightarrow> 'w \<Rightarrow> int \<times> u8 list \<times> sockaddr_in \<times> 'w"
  udp_recv :: "int \<Rightarrow> nat \<Rightarrow> 'w \<Rightarrow> int \<times> u8 list \<times> 'w"
  udp_close :: "int \<Rightarrow> 'w \<Rightarrow> 'w"
  mm_alloc :: "'w \<Rightarrow> bool \<times> 'w"
  mm_free :: "'w \<Rightarrow> 'w"

section \<open>Packets\<close>

definition tftpSocketSetup :: "'w udp_ops \<Rightarrow> TFTP \<Rightarrow> 'w \<Rightarrow> int \<times> TFTP \<times> 'w" where
  "tftpSocketSetup ops t w =
     (let (sd, w1) = udp_socket ops w;
          t1 = t\<lparr>Sock := sd\<rparr>
      in if sd < 0 then (TFTPERROR_SOCKET, t1, w1)
      else
        let t2 = t1\<lparr>tmpaddr := \<lparr>s_addr = 0, sin_port = 0\<rparr>\<rparr>;
            (r2, w2) = udp_bind ops sd (tmpaddr t2) w1
        in if r2 < 0 then (TFTPERROR_SOCKET, t2, w2)
        else let (r3, w3) = udp_rcvtimeo ops sd TFTP_SOCK_TIMEOUT w2 in
        if r3 < 0 then (TFTPERROR_SOCKET, t2, w3)
        else let (r4, w4) = udp_rcvtimeo ops sd TFTP_SOCK_TIMEOUT w3 in
        if r4 < 0 then (TFTPERROR_SOCKET, t2, w4)
        else (0, t2\<lparr>peeraddr := \<lparr>s_addr = sl_Htonl (PeerAddress t2), sin_port = sl_Htons PORT_TFTP\<rparr>\<rparr>, w4))"

definition octet :: "u8 list" where "octet = [0x6F, 0x63, 0x74, 0x65, 0x74]"

text \<open>The two requests differ in the opcode only.\<close>

definition build_request :: "u16 \<Rightarrow> TFTP \<Rightarrow> TFTP option" where
  "build_request opcode t = do {
     b1 \<leftarrow> put16 0 (sl_Htons opcode) (PacketBuffer t);
     b2 \<leftarrow> poke 2 (szFileName t @ [0]) b1;
     let p = 2 + length (szFileName t) + 1;
     b3 \<leftarrow> poke p (octet @ [0]) b2;
     Some (t\<lparr>PacketBuffer := b3, Length := of_nat (p + length octet + 1)\<rparr>)
   }"

definition tftpRRQBuild :: "TFTP \<Rightarrow> TFTP option" where
  "tftpRRQBuild t = build_request TFTP_RRQ t"

definition tftpWRQBuild :: "TFTP \<Rightarrow> TFTP option" where
  "tftpWRQBuild t = build_request TFTP_WRQ t"

definition tftpACKBuild :: "TFTP \<Rightarrow> TFTP option" where
  "tftpACKBuild t = do {
     b1 \<leftarrow> put16 0 (sl_Htons TFTP_ACK) (PacketBuffer t);
     b2 \<leftarrow> put16 2 (sl_Htons (NextBlock t)) b1;
     Some (t\<lparr>PacketBuffer := b2, Length := 4\<rparr>)
   }"

definition tftpDATABuild :: "TFTP \<Rightarrow> TFTP option" where
  "tftpDATABuild t = do {
     b1 \<leftarrow> put16 0 (sl_Htons TFTP_DATA) (PacketBuffer t);
     b2 \<leftarrow> put16 2 (sl_Htons (NextBlock t)) b1;
     xs \<leftarrow> peek (unat (BufferUsed t)) (unat (Length t)) (Buffer t);
     b3 \<leftarrow> poke 4 xs b2;
     Some (t\<lparr>PacketBuffer := b3\<rparr>)
   }"

definition tftpSend :: "'w udp_ops \<Rightarrow> TFTP \<Rightarrow> 'w \<Rightarrow> (int \<times> 'w) option" where
  "tftpSend ops t w = do {
     xs \<leftarrow> peek 0 (unat (Length t)) (PacketBuffer t);
     let (BytesSent, w1) = udp_sendto ops (Sock t) xs (peeraddr t) w;
     Some (if BytesSent \<noteq> int (unat (Length t)) then TFTPERROR_SOCKET else 0, w1)
   }"

partial_function (option) tftpReadPacket :: "'w udp_ops \<Rightarrow> TFTP \<Rightarrow> 'w \<Rightarrow> (int \<times> TFTP \<times> 'w) option" where
  "tftpReadPacket ops t w = do {
     let (BytesRead, xs, from_addr, w1) = udp_recvfrom ops (Sock t) DATA_SIZE (tmpaddr t) w;
     buf \<leftarrow> poke 0 xs (PacketBuffer t);
     let t1 = t\<lparr>PacketBuffer := buf, tmpaddr := from_addr\<rparr>;
     if BytesRead < 0 then
       Some (if BytesRead = EWOULDBLOCK then (0, t1\<lparr>Length := 0\<rparr>, w1)
             else (TFTPERROR_SOCKET, t1\<lparr>Length := of_int BytesRead\<rparr>, w1))
     else if s_addr (tmpaddr t1) \<noteq> sl_Htonl (PeerAddress t1) then tftpReadPacket ops t1 w1
     else if sin_port (peeraddr t1) \<noteq> sl_Htons PORT_TFTP \<and> sin_port (tmpaddr t1) \<noteq> sin_port (peeraddr t1)
     then tftpReadPacket ops t1 w1
     else Some (0, t1\<lparr>Length := of_int BytesRead\<rparr>, w1)
   }"

partial_function (option) tftpFlushPackets :: "'w udp_ops \<Rightarrow> TFTP \<Rightarrow> 'w \<Rightarrow> (TFTP \<times> 'w) option" where
  "tftpFlushPackets ops t w = do {
     let (bytesread, xs, w1) = udp_recv ops (Sock t) DATA_SIZE w;
     buf \<leftarrow> poke 0 xs (PacketBuffer t);
     let t1 = t\<lparr>PacketBuffer := buf\<rparr>;
     if bytesread > 0 then tftpFlushPackets ops t1 w1 else Some (t1, w1)
   }"

section \<open>Processing\<close>

definition tftpReSync :: "'w udp_ops \<Rightarrow> TFTP \<Rightarrow> 'w \<Rightarrow> (int \<times> TFTP \<times> 'w) option" where
  "tftpReSync ops t w = do {
     (t1, w1) \<leftarrow> tftpFlushPackets ops t w;
     let t2 = t1\<lparr>MaxSyncError := MaxSyncError t1 - 1\<rparr>;
     if MaxSyncError t2 = 0 then Some (TFTPERROR_FAILED, t2, w1)
     else do {
       let t3 = t2\<lparr>NextBlock := NextBlock t2 - 1\<rparr>;
       op \<leftarrow> get16 0 (PacketBuffer t3);
       let OpCode = sl_Htons op;
       if OpCode \<noteq> TFTP_DATA \<and> OpCode \<noteq> TFTP_ACK then Some (TFTPERROR_FAILED, t3, w1)
       else do {
         t4 \<leftarrow> (if OpCode = TFTP_DATA then (if NextBlock t3 = 0 then tftpRRQBuild t3 else tftpACKBuild t3)
                else (if NextBlock t3 = 0xFFFF then tftpWRQBuild t3 else tftpDATABuild t3));
         (rc, w2) \<leftarrow> tftpSend ops t4 w1;
         Some (if rc < 0 then (rc, t4, w2) else (rc, t4\<lparr>NextBlock := NextBlock t4 + 1\<rparr>, w2))
       }
     }
   }"

text \<open>The three cases of \<open>tftpProcessPacket\<close>.\<close>

definition process_error :: "TFTP \<Rightarrow> TFTP option" where
  "process_error t = do {
     code \<leftarrow> get16 2 (PacketBuffer t);
     let t1 = t\<lparr>ErrorCode := sl_Htons code, Length := Length t - of_nat TFTP_HEADER\<rparr>;
     if BufferSize t1 \<ge> Length t1 then do {
       xs \<leftarrow> peek 4 (unat (Length t1)) (PacketBuffer t1);
       buf \<leftarrow> poke 0 xs (Buffer t1);
       Some (t1\<lparr>Buffer := buf, BufferUsed := Length t1\<rparr>)
     }
     else Some (t1\<lparr>BufferUsed := 0\<rparr>)
   }"

text \<open>As much of the payload as the caller's buffer has room for.\<close>

definition copy_block :: "TFTP \<Rightarrow> TFTP option" where
  "copy_block t =
     (let CopySize = (if BufferSize t - BufferUsed t < Length t then BufferSize t - BufferUsed t else Length t) in
      if BufferSize t > BufferUsed t \<and> CopySize \<noteq> 0 then do {
        xs \<leftarrow> peek 4 (unat CopySize) (PacketBuffer t);
        buf \<leftarrow> poke (unat (BufferUsed t)) xs (Buffer t);
        Some (t\<lparr>Buffer := buf, BufferUsed := BufferUsed t + CopySize\<rparr>)
      }
      else Some t)"

definition process_data :: "'w udp_ops \<Rightarrow> TFTP \<Rightarrow> 'w \<Rightarrow> (int \<times> TFTP \<times> 'w) option" where
  "process_data ops t w = do {
     b \<leftarrow> get16 2 (PacketBuffer t);
     if NextBlock t \<noteq> sl_Htons b then do {
       (rc, t1, w1) \<leftarrow> tftpReSync ops t w;
       Some (rc, t1\<lparr>Length := 0\<rparr>, w1)
     }
     else do {
       let t1 = (if NextBlock t = 1 then t\<lparr>peeraddr := (peeraddr t)\<lparr>sin_port := sin_port (tmpaddr t)\<rparr>\<rparr> else t);
       let t2 = t1\<lparr>MaxSyncError := MAX_SYNC_TRIES, Length := Length t1 - of_nat TFTP_HEADER\<rparr>;
       let t3 = t2\<lparr>FileSize := FileSize t2 + Length t2\<rparr>;
       t4 \<leftarrow> copy_block t3;
       let done = (if unat (Length t4) < SEGSIZE then 1 else 0);
       t5 \<leftarrow> tftpACKBuild t4;
       (rc, w1) \<leftarrow> tftpSend ops t5 w;
       Some (if rc < 0 then (rc, t5, w1) else (done, t5\<lparr>NextBlock := NextBlock t5 + 1\<rparr>, w1))
     }
   }"

definition process_ack :: "'w udp_ops \<Rightarrow> TFTP \<Rightarrow> 'w \<Rightarrow> (int \<times> TFTP \<times> 'w) option" where
  "process_ack ops t w = do {
     b \<leftarrow> get16 2 (PacketBuffer t);
     if NextBlock t \<noteq> sl_Htons b then do {
       (rc, t1, w1) \<leftarrow> tftpReSync ops t w;
       Some (rc, t1\<lparr>Length := 0\<rparr>, w1)
     }
     else do {
       let t1 = (if NextBlock t = 0 then t\<lparr>peeraddr := (peeraddr t)\<lparr>sin_port := sin_port (tmpaddr t)\<rparr>\<rparr> else t);
       let CopySize = BufferSize t1 - BufferUsed t1;
       let t2 = t1\<lparr>Length := (if unat CopySize < SEGSIZE then CopySize else of_nat SEGSIZE)\<rparr>;
       let done = (if CopySize = 0 then 1 else 0);
       t3 \<leftarrow> tftpDATABuild (t2\<lparr>NextBlock := NextBlock t2 + 1\<rparr>);
       let t4 = t3\<lparr>BufferUsed := BufferUsed t3 + Length t3, Length := Length t3 + 4\<rparr>;
       (rc, w1) \<leftarrow> tftpSend ops t4 w;
       Some (if rc < 0 then rc else done, t4, w1)
     }
   }"

definition tftpProcessPacket :: "'w udp_ops \<Rightarrow> TFTP \<Rightarrow> 'w \<Rightarrow> (int \<times> TFTP \<times> 'w) option" where
  "tftpProcessPacket ops t w =
     (if Length t = 0 then tftpReSync ops t w
      else do {
        op \<leftarrow> get16 0 (PacketBuffer t);
        let OpCode = sl_Htons op;
        if OpCode = TFTP_ERROR then do { t1 \<leftarrow> process_error t; Some (TFTPERROR_ERRORREPLY, t1, w) }
        else if OpCode = TFTP_DATA then process_data ops t w
        else if OpCode = TFTP_ACK then process_ack ops t w
        else Some (TFTPERROR_FAILED, t, w)
      })"

section \<open>Transfers\<close>

text \<open>The loop of both transfers: \<open>for(;;)\<close> read a packet and process it.\<close>

partial_function (option) transfer_loop :: "'w udp_ops \<Rightarrow> TFTP \<Rightarrow> 'w \<Rightarrow> (int \<times> TFTP \<times> 'w) option" where
  "transfer_loop ops t w = do {
     (r1, t1, w1) \<leftarrow> tftpReadPacket ops t w;
     if r1 < 0 then Some (r1, t1, w1)
     else do {
       (r2, t2, w2) \<leftarrow> tftpProcessPacket ops t1 w1;
       if r2 < 0 then Some (r2, t2, w2)
       else if r2 = 1 then Some (if BufferUsed t2 < FileSize t2 then 0 else 1, t2, w2)
       else transfer_loop ops t2 w2
     }
   }"

definition tftpGetFile :: "'w udp_ops \<Rightarrow> TFTP \<Rightarrow> 'w \<Rightarrow> (int \<times> TFTP \<times> 'w) option" where
  "tftpGetFile ops t w = do {
     t1 \<leftarrow> tftpRRQBuild t;
     (rc, w1) \<leftarrow> tftpSend ops t1 w;
     if rc < 0 then Some (rc, t1, w1)
     else transfer_loop ops (t1\<lparr>MaxSyncError := MAX_SYNC_TRIES, NextBlock := 1\<rparr>) w1
   }"

definition tftpSendFile :: "'w udp_ops \<Rightarrow> TFTP \<Rightarrow> 'w \<Rightarrow> (int \<times> TFTP \<times> 'w) option" where
  "tftpSendFile ops t w = do {
     t1 \<leftarrow> tftpWRQBuild t;
     (rc, w1) \<leftarrow> tftpSend ops t1 w;
     if rc < 0 then Some (rc, t1, w1)
     else transfer_loop ops (t1\<lparr>MaxSyncError := MAX_SYNC_TRIES, NextBlock := 0\<rparr>) w1
   }"

text \<open>
  \<open>sl_TftpRecv\<close> and \<open>sl_TftpSend\<close>; the result is the return code with the caller's file buffer, file
  size and error code.  \<open>buf\<close> is \<open>None\<close> for a NULL buffer; a name or a file size that is NULL is
  refused in the same way.  What a fresh packet buffer holds is never looked at; it is zero here.
\<close>

record tftp_result =
  tr_rc :: int
  tr_buffer :: "u8 list"
  tr_size :: u32
  tr_error :: u16

definition release :: "'w udp_ops \<Rightarrow> TFTP \<Rightarrow> bool \<Rightarrow> 'w \<Rightarrow> 'w" where
  "release ops t packet w =
     (let w1 = (if Sock t \<noteq> -1 then udp_close ops (Sock t) w else w);
          w2 = (if packet then mm_free ops w1 else w1)
      in mm_free ops w2)"

definition transfer ::
  "('w udp_ops \<Rightarrow> TFTP \<Rightarrow> 'w \<Rightarrow> (int \<times> TFTP \<times> 'w) option) \<Rightarrow> 'w udp_ops \<Rightarrow>
   u32 \<Rightarrow> u8 list option \<Rightarrow> u8 list option \<Rightarrow> u32 option \<Rightarrow> u16 \<Rightarrow> 'w \<Rightarrow> (tftp_result \<times> 'w) option" where
  "transfer run ops TftpIP name buf fsize err w =
     (let file = (case buf of None \<Rightarrow> [] | Some b \<Rightarrow> b);
          sz = (case fsize of None \<Rightarrow> 0 | Some n \<Rightarrow> n);
          res = \<lparr>tr_rc = 0, tr_buffer = file, tr_size = sz, tr_error = err\<rparr>
      in if name = None \<or> fsize = None \<or> sz \<noteq> 0 \<and> buf = None then Some (res\<lparr>tr_rc := TFTPERROR_BADPARAM\<rparr>, w)
      else
        let (ok1, w1) = mm_alloc ops w in
        if \<not> ok1 then Some (res\<lparr>tr_rc := TFTPERROR_RESOURCES\<rparr>, w1)
        else
          let zero = \<lparr>s_addr = 0, sin_port = 0\<rparr>;
              t0 = \<lparr>PeerAddress = 0, szFileName = [], Buffer = [], BufferSize = 0, Sock = -1, PacketBuffer = [],
                    Length = 0, BufferUsed = 0, FileSize = 0, NextBlock = 0, ErrorCode = 0, MaxSyncError = 0,
                    tmpaddr = zero, peeraddr = zero\<rparr>;
              (ok2, w2) = mm_alloc ops w1
          in if \<not> ok2 then Some (res\<lparr>tr_rc := TFTPERROR_RESOURCES\<rparr>, release ops t0 False w2)
          else
            let t1 = t0\<lparr>PacketBuffer := replicate DATA_SIZE 0, PeerAddress := TftpIP\<rparr>;
                (rc, t2, w3) = tftpSocketSetup ops t1 w2
            in if rc < 0 then Some (res\<lparr>tr_rc := rc\<rparr>, release ops t2 True w3)
            else do {
              (rc2, t3, w4) \<leftarrow> run ops (t2\<lparr>szFileName := the name, Buffer := file, BufferSize := sz\<rparr>) w3;
              Some (if rc2 < 0
                    then \<lparr>tr_rc = rc2, tr_buffer = Buffer t3, tr_size = BufferUsed t3, tr_error = ErrorCode t3\<rparr>
                    else \<lparr>tr_rc = rc2, tr_buffer = Buffer t3, tr_size = FileSize t3, tr_error = err\<rparr>,
                    release ops t3 True w4)
            })"

definition sl_TftpRecv ::
  "'w udp_ops \<Rightarrow> u32 \<Rightarrow> u8 list option \<Rightarrow> u8 list option \<Rightarrow> u32 option \<Rightarrow> u16 \<Rightarrow> 'w \<Rightarrow> (tftp_result \<times> 'w) option" where
  "sl_TftpRecv = transfer tftpGetFile"

definition sl_TftpSend ::
  "'w udp_ops \<Rightarrow> u32 \<Rightarrow> u8 list option \<Rightarrow> u8 list option \<Rightarrow> u32 option \<Rightarrow> u16 \<Rightarrow> 'w \<Rightarrow> (tftp_result \<times> 'w) option" where
  "sl_TftpSend = transfer tftpSendFile"

end
