(* ===== verification/Tftp_Props.thy ===== *)
theory Tftp_Props
  imports Tftp
begin

text \<open>
  The TFTP client against servers: what the packets look like, how one packet is processed, and that
  the two transfers move the whole file when no packet is lost; and what goes wrong when one is.
\<close>

section \<open>Buffers and packets\<close>

lemma small_drops: "Suc (Suc 0) = 2" "Suc (Suc 2) = 4" "Suc 2 = 3" "Suc (Suc (Suc n)) = n + 3"
  by simp_all

definition be16 :: "u16 \<Rightarrow> u8 list" where
  "be16 v = [ucast (drop_bit 8 v), ucast v]"

lemma length_be16 [simp]: "length (be16 v) = 2"
  by (simp add: be16_def)

lemma htons_low: "ucast (sl_Htons v) = (ucast (drop_bit 8 v) :: u8)"
  unfolding sl_Htons_def by (rule bit_word_eqI) (auto simp: bit_simps)

lemma htons_high: "ucast (drop_bit 8 (sl_Htons v)) = (ucast v :: u8)"
  unfolding sl_Htons_def by (rule bit_word_eqI) (auto simp: bit_simps)

lemma htons_htons [simp]: "sl_Htons (sl_Htons v) = v"
  unfolding sl_Htons_def by (rule bit_word_eqI) (auto simp: bit_simps)

lemma htons_inject [simp]: "sl_Htons v = sl_Htons w \<longleftrightarrow> v = w"
  using htons_htons by metis

lemma put16_htons: "put16 i (sl_Htons v) = poke i (be16 v)"
  by (simp add: put16_def be16_def htons_low htons_high)

lemma poke_front: "poke (length xs) ys (xs @ zs) = map_option ((@) xs) (poke 0 ys zs)"
  by (auto simp: poke_def)

lemma poke_start: "length ys \<le> length zs \<Longrightarrow> poke 0 ys zs = Some (ys @ drop (length ys) zs)"
  by (simp add: poke_def)

lemma peek_front: "peek 0 (length xs) (xs @ zs) = Some xs"
  by (simp add: peek_def)

lemma get16_be16:
  "get16 0 (be16 v @ zs) = Some (sl_Htons v)" "length xs = 2 \<Longrightarrow> get16 2 (xs @ be16 v @ zs) = Some (sl_Htons v)"
proof -
  have "ucast (ucast (drop_bit 8 v) :: u8) OR push_bit 8 (ucast (ucast v :: u8)) = sl_Htons v"
    unfolding sl_Htons_def by (rule bit_word_eqI) (auto simp: bit_simps dest: bit_imp_le_length)
  then show "get16 0 (be16 v @ zs) = Some (sl_Htons v)" "length xs = 2 \<Longrightarrow> get16 2 (xs @ be16 v @ zs) = Some (sl_Htons v)"
    by (simp_all add: get16_def peek_def be16_def)
qed

definition ack_packet :: "u16 \<Rightarrow> u8 list" where
  "ack_packet n = be16 TFTP_ACK @ be16 n"

definition data_packet :: "u16 \<Rightarrow> u8 list \<Rightarrow> u8 list" where
  "data_packet n xs = be16 TFTP_DATA @ be16 n @ xs"

definition request_packet :: "u16 \<Rightarrow> u8 list \<Rightarrow> u8 list" where
  "request_packet opcode name = be16 opcode @ name @ [0] @ octet @ [0]"

lemma length_packets [simp]:
  "length (ack_packet n) = 4" "length (data_packet n xs) = length xs + 4"
  "length (request_packet opcode name) = length name + 9"
  by (simp_all add: ack_packet_def data_packet_def request_packet_def octet_def)

lemma packet_neq [simp]: "ack_packet n = ack_packet m \<longleftrightarrow> n = m"
proof -
  have "n = m" if "be16 n = be16 m"
  proof -
    from that have "sl_Htons n = sl_Htons m" using get16_be16(1) [of n "[]"] get16_be16(1) [of m "[]"] by simp
    then show ?thesis by simp
  qed
  then show ?thesis by (auto simp: ack_packet_def)
qed

lemma tftpACKBuild_eq:
  assumes "length (PacketBuffer t) = DATA_SIZE"
  shows "tftpACKBuild t = Some (t\<lparr>PacketBuffer := ack_packet (NextBlock t) @ drop 4 (PacketBuffer t), Length := 4\<rparr>)"
proof -
  have "poke 0 (be16 TFTP_ACK) (PacketBuffer t) = Some (be16 TFTP_ACK @ drop 2 (PacketBuffer t))"
    using assms by (simp add: poke_def tftp_consts small_drops)
  moreover have "poke 2 (be16 (NextBlock t)) (be16 TFTP_ACK @ drop 2 (PacketBuffer t)) =
      Some (be16 TFTP_ACK @ be16 (NextBlock t) @ drop 4 (PacketBuffer t))"
    using assms by (simp add: poke_def tftp_consts small_drops)
  ultimately show ?thesis by (simp add: tftpACKBuild_def put16_htons ack_packet_def)
qed

lemma tftpDATABuild_eq:
  assumes "length (PacketBuffer t) = DATA_SIZE" "unat (BufferUsed t) + unat (Length t) \<le> length (Buffer t)"
    "unat (Length t) \<le> SEGSIZE" "xs = take (unat (Length t)) (drop (unat (BufferUsed t)) (Buffer t))"
  shows "tftpDATABuild t = Some (t\<lparr>PacketBuffer := data_packet (NextBlock t) xs @ drop (4 + length xs) (PacketBuffer t)\<rparr>)"
proof -
  have l: "length xs = unat (Length t)" using assms(2,4) by simp
  have "poke 0 (be16 TFTP_DATA) (PacketBuffer t) = Some (be16 TFTP_DATA @ drop 2 (PacketBuffer t))"
    using assms(1) by (simp add: poke_def tftp_consts small_drops)
  moreover have "poke 2 (be16 (NextBlock t)) (be16 TFTP_DATA @ drop 2 (PacketBuffer t)) =
      Some (be16 TFTP_DATA @ be16 (NextBlock t) @ drop 4 (PacketBuffer t))"
    using assms(1) by (simp add: poke_def tftp_consts small_drops)
  moreover have "poke 4 xs (be16 TFTP_DATA @ be16 (NextBlock t) @ drop 4 (PacketBuffer t)) =
      Some (data_packet (NextBlock t) xs @ drop (4 + length xs) (PacketBuffer t))"
    using assms(1,3) l by (simp add: poke_def tftp_consts data_packet_def add.commute)
  ultimately show ?thesis using assms(2,4) by (simp add: tftpDATABuild_def put16_htons peek_def)
qed

lemma build_request_eq:
  assumes "length (PacketBuffer t) = DATA_SIZE" "length (szFileName t) + 9 \<le> DATA_SIZE"
  shows "build_request opcode t = Some (t\<lparr>PacketBuffer := request_packet opcode (szFileName t) @
      drop (length (szFileName t) + 9) (PacketBuffer t), Length := of_nat (length (szFileName t) + 9)\<rparr>)"
proof -
  let ?n = "szFileName t"
  have "poke 0 (be16 opcode) (PacketBuffer t) = Some (be16 opcode @ drop 2 (PacketBuffer t))"
    using assms(1) by (simp add: poke_def tftp_consts small_drops)
  moreover have "poke 2 (?n @ [0]) (be16 opcode @ drop 2 (PacketBuffer t)) =
      Some (be16 opcode @ (?n @ [0]) @ drop (3 + length ?n) (PacketBuffer t))"
    using assms by (simp add: poke_def tftp_consts small_drops add.commute)
  moreover have "poke (3 + length ?n) (octet @ [0]) (be16 opcode @ (?n @ [0]) @ drop (3 + length ?n) (PacketBuffer t)) =
      Some (request_packet opcode ?n @ drop (length ?n + 9) (PacketBuffer t))"
    using assms by (simp add: poke_def octet_def request_packet_def add.commute)
  ultimately show ?thesis
    by (simp add: build_request_def put16_htons octet_def add.commute Suc3_eq_add_3)
qed

text \<open>Sending what has just been built.\<close>

lemma tftpSend_eq:
  assumes "PacketBuffer t = xs @ zs" "Length t = of_nat (length xs)" "length xs \<le> DATA_SIZE"
  shows "tftpSend ops t w = (let (n, w1) = udp_sendto ops (Sock t) xs (peeraddr t) w
    in Some (if n \<noteq> int (length xs) then TFTPERROR_SOCKET else 0, w1))"
proof -
  have "unat (Length t) = length xs"
    unfolding assms(2) using assms(3) by (intro unat_of_nat_small) (simp add: tftp_consts)
  then show ?thesis using assms(1) by (simp add: tftpSend_def peek_front)
qed

section \<open>One packet\<close>

text \<open>A packet of the expected peer is taken as it is.\<close>

lemma tftpReadPacket_peer:
  assumes "udp_recvfrom ops (Sock t) DATA_SIZE (tmpaddr t) w = (int (length xs), xs, a, w1)"
    "length (PacketBuffer t) = DATA_SIZE" "length xs \<le> DATA_SIZE" "s_addr a = sl_Htonl (PeerAddress t)"
    "sin_port (peeraddr t) = sl_Htons PORT_TFTP \<or> sin_port a = sin_port (peeraddr t)"
  shows "tftpReadPacket ops t w =
    Some (0, t\<lparr>PacketBuffer := xs @ drop (length xs) (PacketBuffer t), tmpaddr := a, Length := of_nat (length xs)\<rparr>, w1)"
  using assms by (subst tftpReadPacket.simps) (auto simp: poke_start)

text \<open>How a data packet with the expected block is processed.\<close>

definition store_block :: "u8 list \<Rightarrow> TFTP \<Rightarrow> TFTP" where
  "store_block xs t =
     (let k = min (unat (BufferSize t) - unat (BufferUsed t)) (length xs) in
      t\<lparr>MaxSyncError := MAX_SYNC_TRIES, FileSize := FileSize t + of_nat (length xs),
        Buffer := take (unat (BufferUsed t)) (Buffer t) @ take k xs @ drop (unat (BufferUsed t) + k) (Buffer t),
        BufferUsed := BufferUsed t + of_nat k\<rparr>)"

definition set_peer_port :: "u16 \<Rightarrow> TFTP \<Rightarrow> TFTP" where
  "set_peer_port first t =
     (if NextBlock t = first then t\<lparr>peeraddr := (peeraddr t)\<lparr>sin_port := sin_port (tmpaddr t)\<rparr>\<rparr> else t)"

lemma set_peer_port_simps [simp]:
  "PacketBuffer (set_peer_port k t) = PacketBuffer t" "NextBlock (set_peer_port k t) = NextBlock t"
  "Length (set_peer_port k t) = Length t" "Buffer (set_peer_port k t) = Buffer t"
  "BufferSize (set_peer_port k t) = BufferSize t" "BufferUsed (set_peer_port k t) = BufferUsed t"
  "FileSize (set_peer_port k t) = FileSize t" "Sock (set_peer_port k t) = Sock t"
  "PeerAddress (set_peer_port k t) = PeerAddress t" "tmpaddr (set_peer_port k t) = tmpaddr t"
  "MaxSyncError (set_peer_port k t) = MaxSyncError t" "szFileName (set_peer_port k t) = szFileName t"
  "ErrorCode (set_peer_port k t) = ErrorCode t"
  by (simp_all add: set_peer_port_def)

lemma copy_block_eq:
  assumes "PacketBuffer t = data_packet n xs @ zs" "length xs \<le> SEGSIZE" "Length t = of_nat (length xs)"
    "length (Buffer t) = unat (BufferSize t)" "unat (BufferUsed t) \<le> unat (BufferSize t)"
    "k = min (unat (BufferSize t) - unat (BufferUsed t)) (length xs)"
  shows "copy_block t = Some (t\<lparr>
    Buffer := take (unat (BufferUsed t)) (Buffer t) @ take k xs @ drop (unat (BufferUsed t) + k) (Buffer t),
    BufferUsed := BufferUsed t + of_nat k\<rparr>)"
proof -
  have ul: "unat (Length t) = length xs"
    unfolding assms(3) using assms(2) by (intro unat_of_nat_small) (simp add: tftp_consts)
  have room: "unat (BufferSize t - BufferUsed t) = unat (BufferSize t) - unat (BufferUsed t)"
    using assms(5) by (intro unat_sub) (simp add: word_le_nat_alt)
  define c where "c = (if BufferSize t - BufferUsed t < Length t then BufferSize t - BufferUsed t else Length t)"
  have uc: "unat c = k" using room ul assms(6) by (simp add: c_def word_less_nat_alt min_def)
  have kl: "k \<le> length xs" using assms(6) by simp
  then have "unat (of_nat k :: u32) = k" using assms(2) by (intro unat_of_nat_small) (simp add: tftp_consts)
  then have c: "c = of_nat k" using uc by (simp add: word_unat_eq_iff)
  have cb: "copy_block t = (if BufferSize t > BufferUsed t \<and> c \<noteq> 0 then do {
        ys \<leftarrow> peek 4 (unat c) (PacketBuffer t);
        buf \<leftarrow> poke (unat (BufferUsed t)) ys (Buffer t);
        Some (t\<lparr>Buffer := buf, BufferUsed := BufferUsed t + c\<rparr>)
      } else Some t)"
    by (simp only: copy_block_def Let_def c_def)
  show ?thesis
  proof (cases "BufferSize t > BufferUsed t \<and> c \<noteq> 0")
    case True
    have "peek 4 (unat c) (PacketBuffer t) = Some (take k xs)"
      unfolding uc using assms(1) kl by (simp add: peek_def data_packet_def small_drops)
    moreover have "poke (unat (BufferUsed t)) (take k xs) (Buffer t) =
        Some (take (unat (BufferUsed t)) (Buffer t) @ take k xs @ drop (unat (BufferUsed t) + k) (Buffer t))"
      using assms(4,5,6) kl by (simp add: poke_def)
    ultimately show ?thesis using True c by (simp add: cb)
  next
    case False
    have k0: "k = 0"
    proof (cases "BufferSize t > BufferUsed t")
      case True
      with False have "c = 0" by blast
      then show ?thesis using uc by simp
    next
      case f: False
      then show ?thesis using assms(6) by (simp add: word_less_nat_alt not_less)
    qed
    show ?thesis using False unfolding cb k0 by auto
  qed
qed

lemma process_data_block:
  assumes "PacketBuffer t = data_packet (NextBlock t) xs @ zs" "length (PacketBuffer t) = DATA_SIZE" "length xs \<le> SEGSIZE"
    "Length t = of_nat (length xs + 4)" "length (Buffer t) = unat (BufferSize t)" "unat (BufferUsed t) \<le> unat (BufferSize t)"
  shows "process_data ops t w =
    (let t1 = store_block xs (set_peer_port 1 t);
         t2 = t1\<lparr>PacketBuffer := ack_packet (NextBlock t) @ drop 4 (PacketBuffer t), Length := 4\<rparr>;
         (n, w1) = udp_sendto ops (Sock t) (ack_packet (NextBlock t)) (peeraddr t1) w
     in Some (if n \<noteq> 4 then (TFTPERROR_SOCKET, t2, w1)
              else (if length xs < SEGSIZE then 1 else 0, t2\<lparr>NextBlock := NextBlock t2 + 1\<rparr>, w1)))"
proof -
  let ?t1 = "set_peer_port 1 t"
  let ?l = "of_nat (length xs) :: u32"
  let ?t3 = "?t1\<lparr>MaxSyncError := MAX_SYNC_TRIES, Length := ?l, FileSize := FileSize t + ?l\<rparr>"
  let ?t4 = "(store_block xs ?t1)\<lparr>Length := ?l\<rparr>"
  let ?t5 = "(store_block xs ?t1)\<lparr>PacketBuffer := ack_packet (NextBlock t) @ drop 4 (PacketBuffer t), Length := 4\<rparr>"
  have ul: "unat ?l = length xs" using assms(3) by (intro unat_of_nat_small) (simp add: tftp_consts)
  have g: "get16 2 (PacketBuffer t) = Some (sl_Htons (NextBlock t))"
    using get16_be16(2) [of "be16 TFTP_DATA" "NextBlock t" "xs @ zs"] assms(1) by (simp add: data_packet_def)
  have len: "Length t - of_nat TFTP_HEADER = ?l" using assms(4) by (simp add: tftp_consts)
  have st: "copy_block ?t3 = Some ?t4"
    using assms by (subst copy_block_eq [OF _ assms(3) _ _ _ refl]) (simp_all add: store_block_def Let_def)
  have b: "tftpACKBuild ?t4 = Some ?t5"
    using assms(2) by (subst tftpACKBuild_eq) (simp_all add: store_block_def Let_def)
  have s: "tftpSend ops ?t5 w = (let (n, w1) = udp_sendto ops (Sock t) (ack_packet (NextBlock t)) (peeraddr (store_block xs ?t1)) w
      in Some (if n \<noteq> 4 then TFTPERROR_SOCKET else 0, w1))"
    by (subst tftpSend_eq [where xs = "ack_packet (NextBlock t)" and zs = "drop 4 (PacketBuffer t)"])
      (simp_all add: tftp_consts store_block_def Let_def)
  have "process_data ops t w = do {
      t4 \<leftarrow> copy_block ?t3;
      t5 \<leftarrow> tftpACKBuild t4;
      (rc, w1) \<leftarrow> tftpSend ops t5 w;
      Some (if rc < 0 then (rc, t5, w1) else (if unat (Length t4) < SEGSIZE then 1 else 0, t5\<lparr>NextBlock := NextBlock t5 + 1\<rparr>, w1))
    }"
    using g len by (simp add: process_data_def set_peer_port_def Let_def split: if_splits)
  also have "\<dots> = do {
      (rc, w1) \<leftarrow> tftpSend ops ?t5 w;
      Some (if rc < 0 then (rc, ?t5, w1) else (if length xs < SEGSIZE then 1 else 0, ?t5\<lparr>NextBlock := NextBlock ?t5 + 1\<rparr>, w1))
    }"
    using ul by (simp add: st b)
  also have "\<dots> = (let (n, w1) = udp_sendto ops (Sock t) (ack_packet (NextBlock t)) (peeraddr (store_block xs ?t1)) w
     in Some (if n \<noteq> 4 then (TFTPERROR_SOCKET, ?t5, w1)
              else (if length xs < SEGSIZE then 1 else 0, ?t5\<lparr>NextBlock := NextBlock ?t5 + 1\<rparr>, w1)))"
    unfolding s by (simp add: Let_def tftp_errors split: prod.splits)
  finally show ?thesis by (simp only: Let_def)
qed

text \<open>How an acknowledgement of the expected block is processed.\<close>

definition next_block :: "u8 list \<Rightarrow> TFTP \<Rightarrow> TFTP" where
  "next_block xs t =
     t\<lparr>NextBlock := NextBlock t + 1,
       PacketBuffer := data_packet (NextBlock t + 1) xs @ drop (4 + length xs) (PacketBuffer t),
       BufferUsed := BufferUsed t + of_nat (length xs), Length := of_nat (length xs + 4)\<rparr>"

lemma process_ack_block:
  assumes "PacketBuffer t = ack_packet (NextBlock t) @ zs" "length (PacketBuffer t) = DATA_SIZE"
    "length (Buffer t) = unat (BufferSize t)" "unat (BufferUsed t) \<le> unat (BufferSize t)"
    "xs = take SEGSIZE (drop (unat (BufferUsed t)) (Buffer t))"
  shows "process_ack ops t w =
    (let t1 = set_peer_port 0 t;
         (n, w1) = udp_sendto ops (Sock t) (data_packet (NextBlock t + 1) xs) (peeraddr t1) w
     in Some (if n \<noteq> int (length xs) + 4 then TFTPERROR_SOCKET else if xs = [] then 1 else 0, next_block xs t1, w1))"
proof -
  let ?t1 = "set_peer_port 0 t"
  define c where "c = BufferSize t - BufferUsed t"
  define l where "l = (if unat c < SEGSIZE then c else of_nat SEGSIZE)"
  have uc: "unat c = length (Buffer t) - unat (BufferUsed t)"
    unfolding c_def assms(3) using assms(4) by (intro unat_sub) (simp add: word_le_nat_alt)
  have ul: "unat l = length xs" using uc assms(3-5) by (auto simp: l_def min_def SEGSIZE_def)
  then have l: "l = of_nat (length xs)" by (simp flip: ul)
  have lx: "length xs \<le> SEGSIZE" using assms(5) by simp
  have fin: "c = 0 \<longleftrightarrow> xs = []" using uc assms(5) by (auto simp: unat_eq_zero SEGSIZE_def)
  have g: "get16 2 (PacketBuffer t) = Some (sl_Htons (NextBlock t))"
    using get16_be16(2) [of "be16 TFTP_ACK" "NextBlock t" zs] assms(1) by (simp add: ack_packet_def)
  let ?t2 = "?t1\<lparr>Length := l, NextBlock := NextBlock t + 1\<rparr>"
  let ?t3 = "?t2\<lparr>PacketBuffer := data_packet (NextBlock t + 1) xs @ drop (4 + length xs) (PacketBuffer t)\<rparr>"
  have fit: "unat (BufferUsed t) + unat l \<le> length (Buffer t)"
    using ul assms(3,4) unfolding assms(5) by (simp split: if_splits)
  have b: "tftpDATABuild ?t2 = Some ?t3"
    using assms(2,5) lx ul fit by (subst tftpDATABuild_eq [where xs = xs]) (simp_all add: min_def)
  have t4: "?t3\<lparr>BufferUsed := BufferUsed ?t3 + Length ?t3, Length := Length ?t3 + 4\<rparr> = next_block xs ?t1"
    by (simp add: next_block_def l)
  have s: "tftpSend ops (next_block xs ?t1) w =
      (let (n, w1) = udp_sendto ops (Sock t) (data_packet (NextBlock t + 1) xs) (peeraddr ?t1) w
       in Some (if n \<noteq> int (length xs) + 4 then TFTPERROR_SOCKET else 0, w1))"
    using lx by (subst tftpSend_eq [where xs = "data_packet (NextBlock t + 1) xs" and zs = "drop (4 + length xs) (PacketBuffer t)"])
      (simp_all add: next_block_def tftp_consts)
  have "process_ack ops t w = do {
      t3 \<leftarrow> tftpDATABuild ?t2;
      let t4 = t3\<lparr>BufferUsed := BufferUsed t3 + Length t3, Length := Length t3 + 4\<rparr>;
      (rc, w1) \<leftarrow> tftpSend ops t4 w;
      Some (if rc < 0 then rc else if c = 0 then 1 else 0, t4, w1)
    }"
    using g by (simp add: process_ack_def set_peer_port_def Let_def l_def c_def split: if_splits)
  also have "\<dots> = do {
      (rc, w1) \<leftarrow> tftpSend ops (next_block xs ?t1) w;
      Some (if rc < 0 then rc else if xs = [] then 1 else 0, next_block xs ?t1, w1)
    }"
    unfolding fin by (simp only: b t4 Let_def Option.bind.simps)
  finally show ?thesis unfolding s by (simp add: Let_def tftp_errors split: prod.splits)
qed

lemma process_opcode:
  assumes "Length t \<noteq> 0"
  shows "PacketBuffer t = data_packet n xs @ zs \<Longrightarrow> tftpProcessPacket ops t w = process_data ops t w"
    "PacketBuffer t = ack_packet n @ zs \<Longrightarrow> tftpProcessPacket ops t w = process_ack ops t w"
  using assms get16_be16(1) [of TFTP_DATA "be16 n @ xs @ zs"] get16_be16(1) [of TFTP_ACK "be16 n @ zs"]
  by (simp_all add: tftpProcessPacket_def data_packet_def ack_packet_def) (simp_all add: tftp_consts)

section \<open>A server that loses nothing\<close>

text \<open>
  The server's side of the protocol: what is left of the file from the current block on, or what has
  been received, the number of the current block, the packets on their way to the client and all the
  packets of the client that have reached the server.  A request has to be sent to port 69 of the server;
  everything after it belongs to the transfer and has to be sent to the port the server answers from.  A
  packet for any other address or port reaches nobody.
\<close>

record tftp_server =
  srv_file :: "u8 list"
  srv_block :: u16
  srv_open :: bool
  srv_out :: "u8 list list"
  srv_log :: "u8 list list"

definition at_server :: "u32 \<Rightarrow> u16 \<Rightarrow> u8 list \<Rightarrow> sockaddr_in \<Rightarrow> bool" where
  "at_server ip port p a \<longleftrightarrow> s_addr a = sl_Htonl ip \<and>
     sin_port a = sl_Htons (if take 2 p \<in> {be16 TFTP_RRQ, be16 TFTP_WRQ} then PORT_TFTP else port)"

definition server_ops :: "(u8 list \<Rightarrow> tftp_server \<Rightarrow> tftp_server) \<Rightarrow> u32 \<Rightarrow> u16 \<Rightarrow> tftp_server udp_ops" where
  "server_ops react ip port =
     \<lparr>udp_socket = (\<lambda>w. (0, w)), udp_bind = (\<lambda>sd a w. (0, w)), udp_rcvtimeo = (\<lambda>sd n w. (0, w)),
      udp_sendto = (\<lambda>sd p a w.
        (int (length p), if at_server ip port p a then react p (w\<lparr>srv_log := srv_log w @ [p]\<rparr>) else w)),
      udp_recvfrom = (\<lambda>sd n a w. case srv_out w of
          [] \<Rightarrow> (EWOULDBLOCK, [], a, w)
        | p # ps \<Rightarrow> (int (length p), p, \<lparr>s_addr = sl_Htonl ip, sin_port = sl_Htons port\<rparr>, w\<lparr>srv_out := ps\<rparr>)),
      udp_recv = (\<lambda>sd n w. (0, [], w)), udp_close = (\<lambda>sd w. w), mm_alloc = (\<lambda>w. (True, w)), mm_free = (\<lambda>w. w)\<rparr>"

text \<open>A server that sends the file: each block when the one before has been acknowledged.\<close>

definition serve_read :: "u8 list \<Rightarrow> tftp_server \<Rightarrow> tftp_server" where
  "serve_read p s =
     (if take 2 p = be16 TFTP_RRQ
      then s\<lparr>srv_block := 1, srv_out := srv_out s @ [data_packet 1 (take SEGSIZE (srv_file s))]\<rparr>
      else if p = ack_packet (srv_block s) \<and> SEGSIZE \<le> length (srv_file s)
      then s\<lparr>srv_block := srv_block s + 1, srv_file := drop SEGSIZE (srv_file s),
             srv_out := srv_out s @ [data_packet (srv_block s + 1) (take SEGSIZE (drop SEGSIZE (srv_file s)))]\<rparr>
      else s)"

text \<open>A server that takes the file: a block is added and acknowledged, and one that is not full is the last.\<close>

definition serve_write :: "u8 list \<Rightarrow> tftp_server \<Rightarrow> tftp_server" where
  "serve_write p s =
     (if take 2 p = be16 TFTP_WRQ
      then s\<lparr>srv_block := 0, srv_open := True, srv_file := [], srv_out := srv_out s @ [ack_packet 0]\<rparr>
      else if take 4 p = be16 TFTP_DATA @ be16 (srv_block s + 1) \<and> srv_open s
      then s\<lparr>srv_block := srv_block s + 1, srv_file := srv_file s @ drop 4 p, srv_open := (length p = DATA_SIZE),
             srv_out := srv_out s @ [ack_packet (srv_block s + 1)]\<rparr>
      else s)"

text \<open>The caller's buffer after the data \<open>xs\<close> has come, \<open>b0\<close> being what it held before.\<close>

definition filled :: "u8 list \<Rightarrow> u8 list \<Rightarrow> u8 list" where
  "filled b0 xs = take (length b0) xs @ drop (length xs) b0"

lemma filled_step:
  assumes "used = min (length b0) (length xs)" "k = min (length b0 - used) (length c)"
  shows "take used (filled b0 xs) @ take k c @ drop (used + k) (filled b0 xs) = filled b0 (xs @ c)"
proof (cases "length xs \<le> length b0")
  case True
  then show ?thesis
    using assms by (cases "length c \<le> length b0 - length xs") (auto simp: filled_def min_def add.commute)
next
  case False
  then show ?thesis using assms by (simp add: filled_def min_def)
qed

lemma length_filled [simp]: "length (filled b0 xs) = length b0"
  by (simp add: filled_def)

definition receiving :: "TFTP \<Rightarrow> u8 list \<Rightarrow> u8 list \<Rightarrow> bool" where
  "receiving t b0 xs \<longleftrightarrow>
     length (PacketBuffer t) = DATA_SIZE \<and> length b0 = unat (BufferSize t) \<and> Buffer t = filled b0 xs \<and>
     BufferUsed t = of_nat (min (length b0) (length xs)) \<and> FileSize t = of_nat (length xs)"

lemma min_of_nat:
  assumes "a < 4294967296" "b < (4294967296 :: nat)"
  shows "unat (of_nat (min a b) :: u32) = min a b"
  using assms by (intro unat_of_nat_small) simp

lemma store_block_receiving:
  assumes "receiving t b0 xs" "length xs + length c < 4294967296"
  shows "receiving (store_block c t) b0 (xs @ c)"
proof -
  have r: "length (PacketBuffer t) = DATA_SIZE" "length b0 = unat (BufferSize t)" "Buffer t = filled b0 xs"
    "BufferUsed t = of_nat (min (length b0) (length xs))" "FileSize t = of_nat (length xs)"
    using assms(1) by (auto simp: receiving_def)
  have b: "length b0 < 4294967296" unfolding r(2) by (rule unat32_bound)
  have u: "unat (BufferUsed t) = min (length b0) (length xs)"
    unfolding r(4) using assms(2) b by (intro min_of_nat) simp_all
  let ?k = "min (length b0 - min (length b0) (length xs)) (length c)"
  have "min b x + min (b - min b x) z = min b (x + z)" for b x z :: nat by linarith
  from this [of "length b0" "length xs" "length c"]
  have "min (length b0) (length xs) + ?k = min (length b0) (length (xs @ c))" by simp
  then have "BufferUsed t + of_nat ?k = of_nat (min (length b0) (length (xs @ c)))"
    unfolding r(4) by (metis of_nat_add)
  then show ?thesis
    using r u filled_step [OF refl refl, of b0 xs c] by (simp add: receiving_def store_block_def Let_def)
qed

lemma take2_packets [simp]: "take 2 (ack_packet n) = be16 TFTP_ACK" "take 2 (request_packet opcode name) = be16 opcode"
  "take 2 (data_packet n xs) = be16 TFTP_DATA"
  by (simp_all add: ack_packet_def request_packet_def data_packet_def)

lemma opcode_neq [simp]: "be16 TFTP_ACK \<noteq> be16 TFTP_RRQ" "be16 TFTP_DATA \<noteq> be16 TFTP_WRQ" "be16 TFTP_DATA \<noteq> be16 TFTP_RRQ"
  "be16 TFTP_ACK \<noteq> be16 TFTP_WRQ"
  by (simp_all add: be16_def tftp_consts)

lemma server_recvfrom:
  "srv_out w = p # ps \<Longrightarrow> udp_recvfrom (server_ops react ip port) sd n a w =
     (int (length p), p, \<lparr>s_addr = sl_Htonl ip, sin_port = sl_Htons port\<rparr>, w\<lparr>srv_out := ps\<rparr>)"
  "at_server ip port p a \<Longrightarrow>
     udp_sendto (server_ops react ip port) sd p a w = (int (length p), react p (w\<lparr>srv_log := srv_log w @ [p]\<rparr>))"
  by (simp_all add: server_ops_def)

text \<open>The address the client sends to: until the first answer, of the block \<open>first\<close>, the port of the
  request, and from then on the port of that answer.\<close>

definition peer_ok :: "TFTP \<Rightarrow> u32 \<Rightarrow> u16 \<Rightarrow> u16 \<Rightarrow> bool" where
  "peer_ok t ip port first \<longleftrightarrow> PeerAddress t = ip \<and> s_addr (peeraddr t) = sl_Htonl ip \<and>
     (sin_port (peeraddr t) = sl_Htons port \<or> NextBlock t = first \<and> sin_port (peeraddr t) = sl_Htons PORT_TFTP)"

lemma peer_port_set:
  assumes "peer_ok t ip port first" "tmpaddr t = \<lparr>s_addr = sl_Htonl ip, sin_port = sl_Htons port\<rparr>"
  shows "peeraddr (set_peer_port first t) = \<lparr>s_addr = sl_Htonl ip, sin_port = sl_Htons port\<rparr>"
  using assms by (auto simp: peer_ok_def set_peer_port_def)

lemma at_server_transfer:
  "at_server ip port (ack_packet n) \<lparr>s_addr = sl_Htonl ip, sin_port = sl_Htons port\<rparr>"
  "at_server ip port (data_packet n xs) \<lparr>s_addr = sl_Htonl ip, sin_port = sl_Htons port\<rparr>"
  by (simp_all add: at_server_def)

lemma at_server_request:
  "opcode \<in> {TFTP_RRQ, TFTP_WRQ} \<Longrightarrow>
    at_server ip port (request_packet opcode name) \<lparr>s_addr = sl_Htonl ip, sin_port = sl_Htons PORT_TFTP\<rparr>"
  by (auto simp: at_server_def)

text \<open>One round of the loop, for a packet that is on its way.\<close>

lemma transfer_round:
  assumes "srv_out w = [p]" "length (PacketBuffer t) = DATA_SIZE" "length p \<le> DATA_SIZE" "peer_ok t ip port first"
    "t1 = t\<lparr>PacketBuffer := p @ drop (length p) (PacketBuffer t),
           tmpaddr := \<lparr>s_addr = sl_Htonl ip, sin_port = sl_Htons port\<rparr>, Length := of_nat (length p)\<rparr>"
  shows "transfer_loop (server_ops react ip port) t w = do {
    (r2, t2, w2) \<leftarrow> tftpProcessPacket (server_ops react ip port) t1 (w\<lparr>srv_out := []\<rparr>);
    if r2 < 0 then Some (r2, t2, w2)
    else if r2 = 1 then Some (if BufferUsed t2 < FileSize t2 then 0 else 1, t2, w2)
    else transfer_loop (server_ops react ip port) t2 w2
  }"
proof -
  have "tftpReadPacket (server_ops react ip port) t w = Some (0, t1, w\<lparr>srv_out := []\<rparr>)"
    using assms unfolding assms(5) by (intro tftpReadPacket_peer) (auto simp: server_recvfrom peer_ok_def)
  then show ?thesis by (subst transfer_loop.simps) simp
qed

lemma acks_Suc:
  "map (\<lambda>i. ack_packet (b + of_nat i)) [0..<Suc m] = ack_packet b # map (\<lambda>i. ack_packet (b + 1 + of_nat i)) [0..<m]"
  by (simp add: map_upt_Suc add.assoc del: upt_Suc)

lemma receive_loop:
  assumes "receiving t b0 xs" "peer_ok t ip port 1" "NextBlock t = srv_block w"
    "srv_out w = [data_packet (srv_block w) (take SEGSIZE (srv_file w))]" "length xs + length (srv_file w) < 4294967296"
  shows "\<exists>t' w'. transfer_loop (server_ops serve_read ip port) t w =
      Some (if length b0 < length xs + length (srv_file w) then 0 else 1, t', w') \<and>
    receiving t' b0 (xs @ srv_file w) \<and> Sock t' = Sock t \<and>
    srv_log w' = srv_log w @ map (\<lambda>i. ack_packet (srv_block w + of_nat i)) [0..<Suc (length (srv_file w) div SEGSIZE)]"
  using assms
proof (induction "length (srv_file w)" arbitrary: t w xs rule: less_induct)
  case less
  let ?ops = "server_ops serve_read ip port"
  let ?c = "take SEGSIZE (srv_file w)"
  let ?p = "data_packet (srv_block w) ?c"
  let ?a = "\<lparr>s_addr = sl_Htonl ip, sin_port = sl_Htons port\<rparr>"
  let ?t1 = "t\<lparr>PacketBuffer := ?p @ drop (length ?p) (PacketBuffer t), tmpaddr := ?a, Length := of_nat (length ?p)\<rparr>"
  have r: "length (PacketBuffer t) = DATA_SIZE" "length b0 = unat (BufferSize t)" "Buffer t = filled b0 xs"
    using less.prems(1) by (simp_all add: receiving_def)
  have lp: "length ?p \<le> DATA_SIZE" by (simp add: DATA_SIZE_def TFTP_HEADER_def)
  have lc: "length ?c \<le> SEGSIZE" by simp
  have lb: "length b0 < 4294967296" unfolding r(2) by (rule unat32_bound)
  have "BufferUsed t = of_nat (min (length b0) (length xs))" using less.prems(1) by (simp add: receiving_def)
  then have u: "unat (BufferUsed t) = min (length b0) (length xs)"
    using min_of_nat [of "length b0" "length xs"] lb less.prems(5) by simp
  have pb: "length (PacketBuffer ?t1) = DATA_SIZE" using r(1) lp by simp
  have l0: "Length ?t1 \<noteq> 0"
  proof -
    have "unat (of_nat (length ?p) :: u32) = length ?p" using lp by (intro unat_of_nat_small) (simp add: tftp_consts)
    then show ?thesis by (auto simp: unat_eq_zero simp flip: unat_eq_zero)
  qed
  let ?w1 = "w\<lparr>srv_out := []\<rparr>"
  let ?s = "store_block ?c (set_peer_port 1 ?t1)"
  let ?ack = "ack_packet (srv_block w)"
  let ?t2 = "?s\<lparr>PacketBuffer := ?ack @ drop 4 (PacketBuffer ?t1), Length := 4\<rparr>"
  let ?t3 = "?t2\<lparr>NextBlock := NextBlock ?t2 + 1\<rparr>"
  let ?w2 = "serve_read ?ack (?w1\<lparr>srv_log := srv_log w @ [?ack]\<rparr>)"
  have ad: "peeraddr ?s = ?a"
    using peer_port_set [of ?t1 ip port 1] less.prems(2) by (simp add: peer_ok_def store_block_def Let_def)
  have "tftpProcessPacket ?ops ?t1 ?w1 = process_data ?ops ?t1 ?w1"
    by (rule process_opcode(1) [OF l0]) simp
  also have "\<dots> = Some (if length ?c < SEGSIZE then 1 else 0, ?t3, ?w2)"
  proof -
    have to: "udp_sendto ?ops (Sock t) ?ack (peeraddr ?s) ?w1 = (4, ?w2)"
      unfolding ad by (simp add: server_recvfrom at_server_transfer)
    have "PacketBuffer ?t1 = data_packet (NextBlock ?t1) ?c @ drop (length ?p) (PacketBuffer t)" using less.prems(3) by simp
    moreover have "Length ?t1 = of_nat (length ?c + 4)" by simp
    moreover have "length (Buffer ?t1) = unat (BufferSize ?t1)" "unat (BufferUsed ?t1) \<le> unat (BufferSize ?t1)"
      using r u by simp_all
    ultimately show ?thesis
      using process_data_block [OF _ pb lc, of "drop (length ?p) (PacketBuffer t)" ?ops ?w1] less.prems(3) to
      by (simp add: Let_def)
  qed
  finally have step: "tftpProcessPacket ?ops ?t1 ?w1 = Some (if length ?c < SEGSIZE then 1 else 0, ?t3, ?w2)" .
  have rc: "receiving ?t3 b0 (xs @ ?c)"
  proof -
    have "receiving (set_peer_port 1 ?t1) b0 xs" using less.prems(1) pb by (simp add: receiving_def)
    moreover have "length xs + length ?c < 4294967296" using less.prems(5) by simp
    ultimately have "receiving ?s b0 (xs @ ?c)" by (rule store_block_receiving)
    then show ?thesis using pb by (simp add: receiving_def tftp_consts)
  qed
  have so: "Sock ?t3 = Sock t" by (simp add: store_block_def Let_def)
  have po: "peer_ok ?t3 ip port 1"
    using less.prems(2) ad by (simp add: peer_ok_def store_block_def Let_def)
  note round = transfer_round [OF less.prems(4) r(1) lp less.prems(2) refl, of serve_read, unfolded step]
  show ?case
  proof (cases "SEGSIZE \<le> length (srv_file w)")
    case False
    then have c: "?c = srv_file w" "length ?c < SEGSIZE" by simp_all
    have w2: "srv_log ?w2 = srv_log w @ [?ack]" using False by (simp add: serve_read_def)
    have n: "length xs + length (srv_file w) < 4294967296" by (rule less.prems(5))
    have "BufferUsed ?t3 < FileSize ?t3 \<longleftrightarrow> length b0 < length xs + length (srv_file w)"
    proof -
      have "BufferUsed ?t3 = of_nat (min (length b0) (length xs + length (srv_file w)))"
        "FileSize ?t3 = of_nat (length xs + length (srv_file w))"
        using rc c(1) by (simp_all add: receiving_def)
      moreover have "unat (of_nat (length xs + length (srv_file w)) :: u32) = length xs + length (srv_file w)"
        using n by (intro unat_of_nat_small) simp
      ultimately show ?thesis using min_of_nat [OF lb n] by (simp add: word_less_nat_alt min_def)
    qed
    then show ?thesis
      using round c(2) rc so w2 False unfolding c(1) by simp
  next
    case True
    then have c: "length ?c = SEGSIZE" by simp
    let ?f = "drop SEGSIZE (srv_file w)"
    have w2: "srv_file ?w2 = ?f" "srv_block ?w2 = srv_block w + 1" "srv_log ?w2 = srv_log w @ [?ack]"
      "srv_out ?w2 = [data_packet (srv_block w + 1) (take SEGSIZE ?f)]"
      using True by (simp_all add: serve_read_def)
    have sh: "length (srv_file ?w2) < length (srv_file w)" unfolding w2 using True by (simp add: SEGSIZE_def)
    have nb: "NextBlock ?t3 = srv_block ?w2" unfolding w2 using less.prems(3) by (simp add: store_block_def Let_def)
    have ln: "length (xs @ ?c) + length (srv_file ?w2) < 4294967296"
      unfolding w2 using less.prems(5) True c by simp
    obtain t' w' where IH: "transfer_loop ?ops ?t3 ?w2 =
        Some (if length b0 < length (xs @ ?c) + length (srv_file ?w2) then 0 else 1, t', w')"
      "receiving t' b0 ((xs @ ?c) @ srv_file ?w2)" "Sock t' = Sock ?t3"
      "srv_log w' = srv_log ?w2 @ map (\<lambda>i. ack_packet (srv_block ?w2 + of_nat i)) [0..<Suc (length (srv_file ?w2) div SEGSIZE)]"
      using less.hyps [OF sh rc po nb _ ln] w2 by auto
    have ll: "length (xs @ ?c) + length (srv_file ?w2) = length xs + length (srv_file w)" "(xs @ ?c) @ srv_file ?w2 = xs @ srv_file w"
      unfolding w2 using True c by simp_all
    have dv: "Suc (length ?f div SEGSIZE) = length (srv_file w) div SEGSIZE"
      using True by (simp add: le_div_geq [symmetric] SEGSIZE_def)
    have "srv_log w' = srv_log w @ map (\<lambda>i. ack_packet (srv_block w + of_nat i)) [0..<Suc (length (srv_file w) div SEGSIZE)]"
      unfolding acks_Suc IH(4) w2 dv by simp
    then show ?thesis using round c IH(1-3) so unfolding ll by simp
  qed
qed

text \<open>The loop of a transfer to the server.\<close>

definition sending :: "TFTP \<Rightarrow> u8 list \<Rightarrow> nat \<Rightarrow> bool" where
  "sending t xs n \<longleftrightarrow>
     length (PacketBuffer t) = DATA_SIZE \<and> Buffer t = xs \<and> length xs = unat (BufferSize t) \<and>
     BufferUsed t = of_nat n \<and> n \<le> length xs \<and> FileSize t = 0"

lemma take4_data: "take 4 (data_packet n xs) = be16 TFTP_DATA @ be16 n" "drop 4 (data_packet n xs) = xs"
  by (simp_all add: data_packet_def small_drops)

lemma send_loop:
  assumes "sending t xs n" "peer_ok t ip port 0" "NextBlock t = srv_block w" "srv_out w = [ack_packet (srv_block w)]"
    "srv_file w = take n xs" "srv_open w \<or> n = length xs"
  shows "\<exists>t' w'. transfer_loop (server_ops serve_write ip port) t w = Some (1, t', w') \<and> srv_file w' = xs \<and> \<not> srv_open w' \<and>
    FileSize t' = 0 \<and> Buffer t' = xs \<and> Sock t' = Sock t"
  using assms
proof (induction "length xs - n" arbitrary: t w n rule: less_induct)
  case less
  let ?ops = "server_ops serve_write ip port"
  let ?p = "ack_packet (srv_block w)"
  let ?a = "\<lparr>s_addr = sl_Htonl ip, sin_port = sl_Htons port\<rparr>"
  let ?t1 = "t\<lparr>PacketBuffer := ?p @ drop (length ?p) (PacketBuffer t), tmpaddr := ?a, Length := of_nat (length ?p)\<rparr>"
  let ?c = "take SEGSIZE (drop n xs)"
  have r: "length (PacketBuffer t) = DATA_SIZE" "Buffer t = xs" "length xs = unat (BufferSize t)" "n \<le> length xs"
    "BufferUsed t = of_nat n" "FileSize t = 0"
    using less.prems(1) by (simp_all add: sending_def)
  have lb: "length xs < 4294967296" unfolding r(3) by (rule unat32_bound)
  have u: "unat (BufferUsed t) = n" unfolding r(5) using r(4) lb by (intro unat_of_nat_small) simp
  have lp: "length ?p \<le> DATA_SIZE" by (simp add: tftp_consts)
  have pb: "length (PacketBuffer ?t1) = DATA_SIZE" using r(1) by (simp add: tftp_consts)
  have l0: "Length ?t1 \<noteq> 0" by simp
  let ?w1 = "w\<lparr>srv_out := []\<rparr>"
  let ?q = "data_packet (srv_block w + 1) ?c"
  let ?t2 = "next_block ?c (set_peer_port 0 ?t1)"
  let ?w2 = "serve_write ?q (?w1\<lparr>srv_log := srv_log w @ [?q]\<rparr>)"
  have ad: "peeraddr ?t2 = ?a"
    using peer_port_set [of ?t1 ip port 0] less.prems(2) by (simp add: peer_ok_def next_block_def)
  have pa: "peeraddr (set_peer_port 0 ?t1) = ?a" using ad by (simp add: next_block_def)
  have "tftpProcessPacket ?ops ?t1 ?w1 = process_ack ?ops ?t1 ?w1"
    by (rule process_opcode(2) [OF l0]) simp
  also have "\<dots> = Some (if ?c = [] then 1 else 0, ?t2, ?w2)"
  proof -
    have "PacketBuffer ?t1 = ack_packet (NextBlock ?t1) @ drop (length ?p) (PacketBuffer t)" using less.prems(3) by simp
    moreover have "length (Buffer ?t1) = unat (BufferSize ?t1)" "unat (BufferUsed ?t1) \<le> unat (BufferSize ?t1)"
      using r u by simp_all
    moreover have "?c = take SEGSIZE (drop (unat (BufferUsed ?t1)) (Buffer ?t1))" using u r(2) by simp
    ultimately show ?thesis
      using process_ack_block [OF _ pb, of "drop (length ?p) (PacketBuffer t)" ?c ?ops ?w1] less.prems(3)
      by (simp add: server_recvfrom pa [simplified] at_server_transfer Let_def)
  qed
  finally have step: "tftpProcessPacket ?ops ?t1 ?w1 = Some (if ?c = [] then 1 else 0, ?t2, ?w2)" .
  note round = transfer_round [OF less.prems(4) r(1) lp less.prems(2) refl, of serve_write, unfolded step]
  have t2: "FileSize ?t2 = 0" "Buffer ?t2 = xs" "Sock ?t2 = Sock t" using r by (simp_all add: next_block_def)
  have c0: "?c = [] \<longleftrightarrow> n = length xs" using r(4) by (auto simp: SEGSIZE_def)
  have w2: "srv_file ?w2 = (if srv_open w then take n xs @ ?c else take n xs)"
    "srv_open ?w2 = (srv_open w \<and> length ?c = SEGSIZE)"
    "srv_open w \<Longrightarrow> srv_block ?w2 = srv_block w + 1 \<and> srv_out ?w2 = [ack_packet (srv_block w + 1)]"
    using less.prems(5) by (auto simp: serve_write_def take4_data DATA_SIZE_def TFTP_HEADER_def)
  show ?case
  proof (cases "n = length xs")
    case True
    then have "srv_file ?w2 = xs" "\<not> srv_open ?w2" using w2 by (simp_all add: SEGSIZE_def)
    then show ?thesis using round t2 c0 True by simp
  next
    case False
    then have op: "srv_open w" using less.prems(6) by simp
    let ?m = "n + length ?c"
    have m: "?m \<le> length xs" "n < ?m" using r(4) False by (auto simp: SEGSIZE_def)
    have tk: "take n xs @ ?c = take ?m xs"
      using r(4) by (cases "SEGSIZE \<le> length xs - n") (simp_all add: take_add min_def)
    have sd: "sending ?t2 xs ?m"
    proof -
      have "length (PacketBuffer ?t2) = DATA_SIZE" using pb by (simp add: next_block_def tftp_consts)
      then show ?thesis using r m(1) by (simp add: sending_def next_block_def)
    qed
    have po: "peer_ok ?t2 ip port 0" using less.prems(2) ad by (simp add: peer_ok_def next_block_def)
    have nb: "NextBlock ?t2 = srv_block ?w2" using w2(3) [OF op] less.prems(3) by (simp add: next_block_def)
    have so: "srv_out ?w2 = [ack_packet (srv_block ?w2)]" using w2(3) [OF op] by simp
    have sf: "srv_file ?w2 = take ?m xs" using w2(1) op tk by simp
    have opn: "srv_open ?w2 \<or> ?m = length xs" using w2(2) op r(4) by (auto simp: SEGSIZE_def)
    have "length xs - ?m < length xs - n" using m by linarith
    from less.hyps [OF this sd po nb so sf opn] t2 round c0 False show ?thesis by simp
  qed
qed

section \<open>Transfers\<close>

text \<open>Setting up: the state in which the transfer proper begins.\<close>

lemma transfer_starts:
  assumes "run (server_ops react ip port)
      \<lparr>PeerAddress = ip, szFileName = name, Buffer = b0, BufferSize = sz, Sock = 0, PacketBuffer = replicate DATA_SIZE 0,
       Length = 0, BufferUsed = 0, FileSize = 0, NextBlock = 0, ErrorCode = 0, MaxSyncError = 0,
       tmpaddr = \<lparr>s_addr = 0, sin_port = 0\<rparr>, peeraddr = \<lparr>s_addr = sl_Htonl ip, sin_port = sl_Htons PORT_TFTP\<rparr>\<rparr> w =
    Some (rc, t', w')" "0 \<le> rc"
  shows "transfer run (server_ops react ip port) ip (Some name) (Some b0) (Some sz) err w =
    Some (\<lparr>tr_rc = rc, tr_buffer = Buffer t', tr_size = FileSize t', tr_error = err\<rparr>, w')"
  using assms
  by (simp add: transfer_def Let_def tftpSocketSetup_def release_def server_ops_def)

text \<open>
  C16. Receiving a file from a server that loses no packet ends and delivers the file: the caller's
  buffer holds as much of it as fits and is otherwise untouched, the size reported is that of the
  file, the result is 1 if all of it fitted and 0 if not, and the server has got one request, at port 69,
  and one acknowledgement for each block, at the port it sends the blocks from, in order; a packet sent to
  any other address or port would reach nobody. Block numbers may wrap.
\<close>

theorem sl_TftpRecv_receives:
  assumes "length name + 9 \<le> DATA_SIZE" "length b0 = unat sz" "length (srv_file w) < 2 ^ 32" "srv_out w = []"
  shows "\<exists>w'. sl_TftpRecv (server_ops serve_read ip port) ip (Some name) (Some b0) (Some sz) err w =
      Some (\<lparr>tr_rc = (if unat sz < length (srv_file w) then 0 else 1),
             tr_buffer = take (unat sz) (srv_file w) @ drop (length (srv_file w)) b0,
             tr_size = of_nat (length (srv_file w)), tr_error = err\<rparr>, w') \<and>
    srv_log w' = srv_log w @ request_packet TFTP_RRQ name #
      map (\<lambda>i. ack_packet (1 + of_nat i)) [0..<Suc (length (srv_file w) div SEGSIZE)]"
proof -
  let ?ops = "server_ops serve_read ip port"
  let ?q = "request_packet TFTP_RRQ name"
  let ?t0 = "\<lparr>PeerAddress = ip, szFileName = name, Buffer = b0, BufferSize = sz, Sock = 0, PacketBuffer = replicate DATA_SIZE 0,
       Length = 0, BufferUsed = 0, FileSize = 0, NextBlock = 0, ErrorCode = 0, MaxSyncError = 0,
       tmpaddr = \<lparr>s_addr = 0, sin_port = 0\<rparr>, peeraddr = \<lparr>s_addr = sl_Htonl ip, sin_port = sl_Htons PORT_TFTP\<rparr>\<rparr>"
  let ?t1 = "?t0\<lparr>PacketBuffer := ?q @ replicate (DATA_SIZE - (length name + 9)) 0, Length := of_nat (length name + 9)\<rparr>"
  let ?t2 = "?t1\<lparr>MaxSyncError := MAX_SYNC_TRIES, NextBlock := 1\<rparr>"
  let ?w1 = "serve_read ?q (w\<lparr>srv_log := srv_log w @ [?q]\<rparr>)"
  have b: "tftpRRQBuild ?t0 = Some ?t1"
    using assms(1) by (simp add: tftpRRQBuild_def build_request_eq)
  have s: "tftpSend ?ops ?t1 w = Some (0, ?w1)"
    using assms(1) by (subst tftpSend_eq [where xs = ?q]) (simp_all add: server_recvfrom at_server_request)
  have g: "tftpGetFile ?ops ?t0 w = transfer_loop ?ops ?t2 ?w1"
    by (simp only: tftpGetFile_def b s Option.bind.simps prod.case) simp
  have rc: "receiving ?t2 b0 []" using assms(1,2) by (simp add: receiving_def filled_def)
  have po: "peer_ok ?t2 ip port 1" by (simp add: peer_ok_def)
  have w1: "srv_file ?w1 = srv_file w" "srv_block ?w1 = 1" "srv_log ?w1 = srv_log w @ [?q]"
    "srv_out ?w1 = [data_packet 1 (take SEGSIZE (srv_file w))]"
    using assms(4) by (simp_all add: serve_read_def)
  have ln: "length ([] :: u8 list) + length (srv_file ?w1) < 4294967296" using assms(3) w1(1) by simp
  obtain t' w' where l: "transfer_loop ?ops ?t2 ?w1 = Some (if length b0 < length (srv_file w) then 0 else 1, t', w')"
    "receiving t' b0 (srv_file w)"
    "srv_log w' = srv_log w @ ?q # map (\<lambda>i. ack_packet (1 + of_nat i)) [0..<Suc (length (srv_file w) div SEGSIZE)]"
    using receive_loop [OF rc po _ _ ln] w1 by auto
  have "sl_TftpRecv ?ops ip (Some name) (Some b0) (Some sz) err w =
      Some (\<lparr>tr_rc = (if length b0 < length (srv_file w) then 0 else 1), tr_buffer = Buffer t', tr_size = FileSize t', tr_error = err\<rparr>, w')"
    unfolding sl_TftpRecv_def by (rule transfer_starts [where run = tftpGetFile, OF trans [OF g l(1)]]) simp
  then show ?thesis using l(2,3) assms(2) by (simp add: receiving_def filled_def)
qed

theorem sl_TftpRecv_receives_witness:
  "\<exists>w'. sl_TftpRecv (server_ops serve_read 0xC0A80001 1025) 0xC0A80001 (Some [0x66]) (Some [0, 0, 9]) (Some 3) 7
      \<lparr>srv_file = [1, 2], srv_block = 0, srv_open = True, srv_out = [], srv_log = []\<rparr> =
    Some (\<lparr>tr_rc = 1, tr_buffer = [1, 2, 9], tr_size = 2, tr_error = 7\<rparr>, w') \<and>
    srv_log w' = [request_packet TFTP_RRQ [0x66], ack_packet 1]"
  using sl_TftpRecv_receives [of "[0x66]" "[0, 0, 9]" 3
      "\<lparr>srv_file = [1, 2], srv_block = 0, srv_open = True, srv_out = [], srv_log = []\<rparr>" "0xC0A80001" 1025 7]
  by (simp add: tftp_consts)

text \<open>
  C17. Sending a file to a server that loses no packet ends with success, and the server then holds
  exactly the caller's buffer as a complete file, although it takes the blocks only at the port from which
  it has answered the request; but the size reported back to the caller is 0,
  because the size of the file is never recorded in the instance.
\<close>

theorem sl_TftpSend_sends:
  assumes "length name + 9 \<le> DATA_SIZE" "length xs = unat sz" "srv_out w = []"
  shows "\<exists>w'. sl_TftpSend (server_ops serve_write ip port) ip (Some name) (Some xs) (Some sz) err w =
      Some (\<lparr>tr_rc = 1, tr_buffer = xs, tr_size = 0, tr_error = err\<rparr>, w') \<and> srv_file w' = xs \<and> \<not> srv_open w'"
proof -
  let ?ops = "server_ops serve_write ip port"
  let ?q = "request_packet TFTP_WRQ name"
  let ?t0 = "\<lparr>PeerAddress = ip, szFileName = name, Buffer = xs, BufferSize = sz, Sock = 0, PacketBuffer = replicate DATA_SIZE 0,
       Length = 0, BufferUsed = 0, FileSize = 0, NextBlock = 0, ErrorCode = 0, MaxSyncError = 0,
       tmpaddr = \<lparr>s_addr = 0, sin_port = 0\<rparr>, peeraddr = \<lparr>s_addr = sl_Htonl ip, sin_port = sl_Htons PORT_TFTP\<rparr>\<rparr>"
  let ?t1 = "?t0\<lparr>PacketBuffer := ?q @ replicate (DATA_SIZE - (length name + 9)) 0, Length := of_nat (length name + 9)\<rparr>"
  let ?t2 = "?t1\<lparr>MaxSyncError := MAX_SYNC_TRIES, NextBlock := 0\<rparr>"
  let ?w1 = "serve_write ?q (w\<lparr>srv_log := srv_log w @ [?q]\<rparr>)"
  have b: "tftpWRQBuild ?t0 = Some ?t1"
    using assms(1) by (simp add: tftpWRQBuild_def build_request_eq)
  have s: "tftpSend ?ops ?t1 w = Some (0, ?w1)"
    using assms(1) by (subst tftpSend_eq [where xs = ?q]) (simp_all add: server_recvfrom at_server_request)
  have g: "tftpSendFile ?ops ?t0 w = transfer_loop ?ops ?t2 ?w1"
    by (simp only: tftpSendFile_def b s Option.bind.simps prod.case) simp
  have sd: "sending ?t2 xs 0" using assms(1,2) by (simp add: sending_def)
  have po: "peer_ok ?t2 ip port 0" by (simp add: peer_ok_def)
  have w1: "NextBlock ?t2 = srv_block ?w1" "srv_out ?w1 = [ack_packet (srv_block ?w1)]" "srv_file ?w1 = take 0 xs"
    "srv_open ?w1 \<or> 0 = length xs"
    using assms(3) by (simp_all add: serve_write_def)
  obtain t' w' where l: "transfer_loop ?ops ?t2 ?w1 = Some (1, t', w')" "srv_file w' = xs" "\<not> srv_open w'"
    "FileSize t' = 0" "Buffer t' = xs"
    using send_loop [OF sd po w1] by blast
  have "sl_TftpSend ?ops ip (Some name) (Some xs) (Some sz) err w =
      Some (\<lparr>tr_rc = 1, tr_buffer = Buffer t', tr_size = FileSize t', tr_error = err\<rparr>, w')"
    unfolding sl_TftpSend_def by (rule transfer_starts [where run = tftpSendFile, OF trans [OF g l(1)]]) simp
  then show ?thesis using l by simp
qed

theorem sl_TftpSend_sends_witness:
  "\<exists>w'. sl_TftpSend (server_ops serve_write 0xC0A80001 1025) 0xC0A80001 (Some [0x66]) (Some [1, 2, 3]) (Some 3) 7
      \<lparr>srv_file = [], srv_block = 0, srv_open = False, srv_out = [], srv_log = []\<rparr> =
    Some (\<lparr>tr_rc = 1, tr_buffer = [1, 2, 3], tr_size = 0, tr_error = 7\<rparr>, w') \<and>
    srv_file w' = [1, 2, 3] \<and> \<not> srv_open w'"
  using sl_TftpSend_sends [of "[0x66]" "[1, 2, 3]" 3
      "\<lparr>srv_file = [], srv_block = 0, srv_open = False, srv_out = [], srv_log = []\<rparr>" "0xC0A80001" 1025 7]
  by (simp add: tftp_consts)

section \<open>What packets are accepted\<close>

text \<open>
  C20. A packet that is handed on comes from the server: a read that succeeds with data returns a
  packet whose sender has the server's address and, once the server's port is known, that port.
\<close>

theorem tftpReadPacket_from_peer:
  assumes "tftpReadPacket ops t w = Some (0, t', w')" "Length t' \<noteq> 0"
  shows "s_addr (tmpaddr t') = sl_Htonl (PeerAddress t) \<and>
    (sin_port (peeraddr t) \<noteq> sl_Htons PORT_TFTP \<longrightarrow> sin_port (tmpaddr t') = sin_port (peeraddr t))"
proof -
  let ?P = "\<lambda>(t :: TFTP) (res :: int \<times> TFTP \<times> 'a). fst res = 0 \<and> Length (fst (snd res)) \<noteq> 0 \<longrightarrow>
    s_addr (tmpaddr (fst (snd res))) = sl_Htonl (PeerAddress t) \<and>
    (sin_port (peeraddr t) \<noteq> sl_Htons PORT_TFTP \<longrightarrow> sin_port (tmpaddr (fst (snd res))) = sin_port (peeraddr t))"
  have "?P t (0, t', w')"
  proof (rule tftpReadPacket.raw_induct [where P = "\<lambda>ops t w res. ?P t res", OF _ assms(1)])
    fix f :: "'a udp_ops \<Rightarrow> TFTP \<Rightarrow> 'a \<Rightarrow> (int \<times> TFTP \<times> 'a) option" and ops t w res
    assume IH: "\<And>ops t w res. f ops t w = Some res \<Longrightarrow> ?P t res"
      and eq: "(let (BytesRead, xs, from_addr, w1) = udp_recvfrom ops (Sock t) DATA_SIZE (tmpaddr t) w
        in do {
          buf \<leftarrow> poke 0 xs (PacketBuffer t);
          let t1 = t\<lparr>PacketBuffer := buf, tmpaddr := from_addr\<rparr>;
          if BytesRead < 0 then
            Some (if BytesRead = EWOULDBLOCK then (0, t1\<lparr>Length := 0\<rparr>, w1)
                  else (TFTPERROR_SOCKET, t1\<lparr>Length := of_int BytesRead\<rparr>, w1))
          else if s_addr (tmpaddr t1) \<noteq> sl_Htonl (PeerAddress t1) then f ops t1 w1
          else if sin_port (peeraddr t1) \<noteq> sl_Htons PORT_TFTP \<and> sin_port (tmpaddr t1) \<noteq> sin_port (peeraddr t1)
          then f ops t1 w1
          else Some (0, t1\<lparr>Length := of_int BytesRead\<rparr>, w1)
        }) = Some res"
    obtain n xs a w1 where rv: "udp_recvfrom ops (Sock t) DATA_SIZE (tmpaddr t) w = (n, xs, a, w1)" by (metis prod.exhaust)
    obtain buf where buf: "poke 0 xs (PacketBuffer t) = Some buf"
      using eq rv by (cases "poke 0 xs (PacketBuffer t)") simp_all
    from IH [of ops "t\<lparr>PacketBuffer := buf, tmpaddr := a\<rparr>" w1 res] eq show "?P t res"
      by (auto simp: rv buf Let_def TFTPERROR_SOCKET_def split: if_splits)
  qed
  then show ?thesis using assms(2) by simp
qed

text \<open>An instance, and a network with one datagram of a stranger before the answer of the server.\<close>

definition demo_tftp :: "u8 list \<Rightarrow> TFTP" where
  "demo_tftp pkt = \<lparr>PeerAddress = 0x01020304, szFileName = [0x66], Buffer = replicate 8 0, BufferSize = 8, Sock = 0,
     PacketBuffer = pkt @ replicate (DATA_SIZE - length pkt) 0, Length = of_nat (length pkt), BufferUsed = 0,
     FileSize = 0, NextBlock = 3, ErrorCode = 0, MaxSyncError = 4, tmpaddr = \<lparr>s_addr = 0, sin_port = 0\<rparr>,
     peeraddr = \<lparr>s_addr = 0x04030201, sin_port = 0x104\<rparr>\<rparr>"

definition demo_net :: "(int \<times> u8 list \<times> sockaddr_in) list udp_ops" where
  "demo_net =
     \<lparr>udp_socket = \<lambda>w. (0, w), udp_bind = \<lambda>_ _ w. (0, w), udp_rcvtimeo = \<lambda>_ _ w. (0, w),
      udp_sendto = \<lambda>_ xs _ w. (int (length xs), w),
      udp_recvfrom = \<lambda>_ _ a w. (case w of [] \<Rightarrow> (EWOULDBLOCK, [], a, []) | (n, xs, b) # w1 \<Rightarrow> (n, xs, b, w1)),
      udp_recv = \<lambda>_ _ w. (EWOULDBLOCK, [], w), udp_close = \<lambda>_ w. w,
      mm_alloc = \<lambda>w. (True, w), mm_free = \<lambda>w. w\<rparr>"

lemma demo_net_simps [simp]:
  "udp_sendto demo_net sd xs a w = (int (length xs), w)"
  "udp_recvfrom demo_net sd n a [] = (EWOULDBLOCK, [], a, [])"
  "udp_recvfrom demo_net sd n a (x # w) = (fst x, fst (snd x), snd (snd x), w)"
  "udp_recv demo_net sd n w = (EWOULDBLOCK, [], w)"
  by (simp_all add: demo_net_def split: prod.splits)

theorem tftpReadPacket_from_peer_witness:
  "\<exists>t'. tftpReadPacket demo_net (demo_tftp [])
      [(4, [0, 4, 0, 9], \<lparr>s_addr = 0x04030209, sin_port = 0x104\<rparr>), (4, [0, 4, 0, 3], \<lparr>s_addr = 0x04030201, sin_port = 0x104\<rparr>)] =
    Some (0, t', []) \<and> s_addr (tmpaddr t') = 0x04030201 \<and> sin_port (tmpaddr t') = 0x104"
proof -
  let ?w = "[(4, [0, 4, 0, 9], \<lparr>s_addr = 0x04030209, sin_port = 0x104\<rparr>), (4, [0, 4, 0, 3], \<lparr>s_addr = 0x04030201, sin_port = 0x104\<rparr>)]"
  have h: "sl_Htonl 0x01020304 = 0x04030201" "sl_Htons PORT_TFTP = 0x4500" by code_simp+
  obtain t' where t': "tftpReadPacket demo_net (demo_tftp []) ?w = Some (0, t', [])" "Length t' \<noteq> 0"
    by (subst (asm) tftpReadPacket.simps, subst (asm) tftpReadPacket.simps)
      (simp add: demo_net_def demo_tftp_def poke_def tftp_consts h)
  have "s_addr (tmpaddr t') = sl_Htonl (PeerAddress (demo_tftp [])) \<and>
    (sin_port (peeraddr (demo_tftp [])) \<noteq> sl_Htons PORT_TFTP \<longrightarrow> sin_port (tmpaddr t') = sin_port (peeraddr (demo_tftp [])))"
    by (rule tftpReadPacket_from_peer [OF t'])
  then show ?thesis using t'(1) by (simp add: h demo_tftp_def)
qed

text \<open>An error packet of the server ends the transfer: the result is \<open>TFTPERROR_ERRORREPLY\<close>, the error
  code is kept, and the message is put at the start of the caller's buffer when it fits there.
\<close>

theorem tftpProcessPacket_error_reply:
  assumes "PacketBuffer t = be16 TFTP_ERROR @ be16 code @ msg @ zs" "Length t = of_nat (length msg + 4)"
    "length (PacketBuffer t) = DATA_SIZE" "length (Buffer t) = unat (BufferSize t)"
  shows "\<exists>t'. tftpProcessPacket ops t w = Some (TFTPERROR_ERRORREPLY, t', w) \<and> ErrorCode t' = code \<and>
    (if length msg \<le> length (Buffer t)
     then Buffer t' = msg @ drop (length msg) (Buffer t) \<and> unat (BufferUsed t') = length msg
     else Buffer t' = Buffer t \<and> BufferUsed t' = 0)"
proof -
  have lm: "length msg + 4 \<le> DATA_SIZE" using assms(1,3) by simp
  have u: "unat (of_nat (length msg) :: u32) = length msg" using lm by (intro unat_of_nat_small) (simp add: tftp_consts)
  have l0: "Length t \<noteq> 0"
  proof -
    have "unat (of_nat (length msg + 4) :: u32) = length msg + 4" using lm by (intro unat_of_nat_small) (simp add: tftp_consts)
    then show ?thesis unfolding assms(2) by (metis add_is_0 unat_0 zero_neq_numeral)
  qed
  have g: "get16 0 (PacketBuffer t) = Some (sl_Htons TFTP_ERROR)" "get16 2 (PacketBuffer t) = Some (sl_Htons code)"
    using get16_be16(1) [of TFTP_ERROR "be16 code @ msg @ zs"] get16_be16(2) [of "be16 TFTP_ERROR" code "msg @ zs"]
    by (simp_all add: assms(1))
  have len: "Length t - of_nat TFTP_HEADER = of_nat (length msg)" using assms(2) by (simp add: tftp_consts)
  have le: "of_nat (length msg) \<le> BufferSize t \<longleftrightarrow> length msg \<le> length (Buffer t)"
    by (simp add: word_le_nat_alt u assms(4))
  have pk: "peek 4 (length msg) (PacketBuffer t) = Some msg"
    unfolding assms(1) by (simp add: peek_def small_drops)
  show ?thesis
    using l0 g by (auto simp: tftpProcessPacket_def process_error_def Let_def len le u pk poke_def)
qed

theorem tftpProcessPacket_error_reply_witness:
  "\<exists>t'. tftpProcessPacket demo_net (demo_tftp (be16 TFTP_ERROR @ be16 1 @ [0x4E, 0x6F, 0])) [] =
      Some (TFTPERROR_ERRORREPLY, t', []) \<and> ErrorCode t' = 1 \<and> Buffer t' = [0x4E, 0x6F, 0, 0, 0, 0, 0, 0]"
  using tftpProcessPacket_error_reply [of "demo_tftp (be16 TFTP_ERROR @ be16 1 @ [0x4E, 0x6F, 0])" 1 "[0x4E, 0x6F, 0]"
      "replicate (DATA_SIZE - 7) 0" demo_net "[]"]
  by (simp add: demo_tftp_def tftp_consts) (fastforce simp: numeral_nat)

section \<open>What goes wrong\<close>

text \<open>A file name of more than 507 bytes does not fit the packet buffer: building the request then
  writes beyond it, and only then.
\<close>

theorem tftpRRQBuild_overrun:
  assumes "length (PacketBuffer t) = DATA_SIZE"
  shows "tftpRRQBuild t = None \<longleftrightarrow> 507 < length (szFileName t)"
proof (cases "507 < length (szFileName t)")
  case True
  obtain b1 where b1: "poke 0 (be16 TFTP_RRQ) (PacketBuffer t) = Some b1" "length b1 = DATA_SIZE"
    using assms by (simp add: poke_def tftp_consts)
  have b2: "length b2 = DATA_SIZE" if "poke 2 (szFileName t @ [0]) b1 = Some b2" for b2
    using that b1(2) by (auto simp: poke_def split: if_splits)
  have b3: "poke (Suc (Suc (Suc (length (szFileName t))))) (octet @ [0]) b2 = None" if "length b2 = DATA_SIZE" for b2
    using that True by (simp add: poke_def octet_def tftp_consts)
  have "tftpRRQBuild t = None"
    by (cases "poke 2 (szFileName t @ [0]) b1") (simp_all add: tftpRRQBuild_def build_request_def put16_htons b1(1) b2 b3 Let_def)
  then show ?thesis using True by simp
next
  case False
  then show ?thesis using build_request_eq [OF assms, of TFTP_RRQ] by (simp add: tftpRRQBuild_def tftp_consts)
qed

theorem tftpRRQBuild_overrun_witness:
  "tftpRRQBuild (demo_tftp []\<lparr>szFileName := replicate 508 0x61\<rparr>) = None \<and>
   tftpRRQBuild (demo_tftp []\<lparr>szFileName := replicate 507 0x61\<rparr>) \<noteq> None"
  using tftpRRQBuild_overrun [of "demo_tftp []\<lparr>szFileName := replicate 508 0x61\<rparr>"]
    tftpRRQBuild_overrun [of "demo_tftp []\<lparr>szFileName := replicate 507 0x61\<rparr>"]
  by (simp add: demo_tftp_def)

text \<open>A request that gets no answer is not sent again: the resynchronisation looks at the opcode in
  the packet buffer, which after a time-out is the one of the request itself, takes it for a bad
  packet and ends the transfer with \<open>TFTPERROR_FAILED\<close> at the first time-out.
\<close>

theorem tftpGetFile_lost_request_fails:
  assumes "length (PacketBuffer t) = DATA_SIZE" "length (szFileName t) + 9 \<le> DATA_SIZE"
    "udp_sendto ops (Sock t) (request_packet TFTP_RRQ (szFileName t)) (peeraddr t) w = (int (length (szFileName t)) + 9, w1)"
    "udp_recvfrom ops (Sock t) DATA_SIZE (tmpaddr t) w1 = (EWOULDBLOCK, [], a, w2)"
    "udp_recv ops (Sock t) DATA_SIZE w2 = (r, [], w3)" "r \<le> 0"
  shows "\<exists>t'. tftpGetFile ops t w = Some (TFTPERROR_FAILED, t', w3)"
proof -
  let ?n = "szFileName t"
  let ?q = "request_packet TFTP_RRQ ?n"
  let ?t1 = "t\<lparr>PacketBuffer := ?q @ drop (length ?n + 9) (PacketBuffer t), Length := of_nat (length ?n + 9)\<rparr>"
  let ?t2 = "?t1\<lparr>MaxSyncError := MAX_SYNC_TRIES, NextBlock := 1\<rparr>"
  let ?t3 = "?t2\<lparr>tmpaddr := a, Length := 0\<rparr>"
  have b: "tftpRRQBuild t = Some ?t1" using build_request_eq [OF assms(1,2)] by (simp add: tftpRRQBuild_def)
  have s: "tftpSend ops ?t1 w = Some (0, w1)"
    using assms(2,3) by (subst tftpSend_eq [where xs = ?q]) simp_all
  have rd: "tftpReadPacket ops ?t2 w1 = Some (0, ?t3, w2)"
    using assms(4) by (subst tftpReadPacket.simps) (simp add: poke_def EWOULDBLOCK_def)
  have fl: "tftpFlushPackets ops ?t3 w2 = Some (?t3, w3)"
    using assms(5,6) by (subst tftpFlushPackets.simps) (simp add: poke_def)
  have "get16 0 (PacketBuffer ?t3) = Some (sl_Htons TFTP_RRQ)"
    using get16_be16(1) [of TFTP_RRQ "?n @ [0] @ octet @ [0] @ drop (length ?n + 9) (PacketBuffer t)"]
    by (simp add: request_packet_def)
  then have "tftpReSync ops ?t3 w2 = Some (TFTPERROR_FAILED, ?t3\<lparr>MaxSyncError := MAX_SYNC_TRIES - 1, NextBlock := 0\<rparr>, w3)"
    by (simp only: tftpReSync_def fl Option.bind.simps prod.case Let_def) (simp add: tftp_consts)
  then have rs: "tftpProcessPacket ops ?t3 w2 =
      Some (TFTPERROR_FAILED, ?t3\<lparr>MaxSyncError := MAX_SYNC_TRIES - 1, NextBlock := 0\<rparr>, w3)"
    by (simp add: tftpProcessPacket_def)
  have "transfer_loop ops ?t2 w1 = Some (TFTPERROR_FAILED, ?t3\<lparr>MaxSyncError := MAX_SYNC_TRIES - 1, NextBlock := 0\<rparr>, w3)"
    by (subst transfer_loop.simps) (simp only: rd rs Option.bind.simps prod.case, simp add: tftp_errors)
  moreover have "tftpGetFile ops t w = transfer_loop ops ?t2 w1"
    by (simp only: tftpGetFile_def b s Option.bind.simps prod.case) simp
  ultimately show ?thesis by simp
qed

theorem tftpGetFile_lost_request_fails_witness:
  "\<exists>t'. tftpGetFile demo_net (demo_tftp []) [] = Some (TFTPERROR_FAILED, t', [])"
  by (rule tftpGetFile_lost_request_fails [where a = "\<lparr>s_addr = 0, sin_port = 0\<rparr>" and r = EWOULDBLOCK and ?w1.0 = "[]" and ?w2.0 = "[]"])
    (simp_all add: demo_tftp_def tftp_consts EWOULDBLOCK_def)

text \<open>A block that was lost on the way to the server is not sent again: when the acknowledgement of
  the block before comes once more, the client sends four bytes, the header of a data packet with no
  data and with the number of the block already acknowledged, and goes on waiting.
\<close>

theorem resend_sends_empty_block:
  assumes "PacketBuffer t = ack_packet (NextBlock t - 1) @ zs" "length (PacketBuffer t) = DATA_SIZE" "Length t = 4"
    "NextBlock t \<noteq> 0" "MaxSyncError t \<noteq> 1" "unat (BufferUsed t) + 4 \<le> length (Buffer t)"
    "udp_recv ops (Sock t) DATA_SIZE w = (r, [], w1)" "r \<le> 0"
    "udp_sendto ops (Sock t) (data_packet (NextBlock t - 1) []) (peeraddr t) w1 = (4, w2)"
  shows "\<exists>t'. tftpProcessPacket ops t w = Some (0, t', w2) \<and> NextBlock t' = NextBlock t \<and> BufferUsed t' = BufferUsed t"
proof -
  let ?m = "NextBlock t - 1"
  have p: "tftpProcessPacket ops t w = process_ack ops t w" using assms(1,3) by (intro process_opcode(2)) simp_all
  have g: "get16 0 (PacketBuffer t) = Some (sl_Htons TFTP_ACK)" "get16 2 (PacketBuffer t) = Some (sl_Htons ?m)"
    using get16_be16(1) [of TFTP_ACK "be16 ?m @ zs"] get16_be16(2) [of "be16 TFTP_ACK" ?m zs]
    by (simp_all add: assms(1) ack_packet_def)
  have ne: "?m \<noteq> NextBlock t" "?m \<noteq> 0xFFFF"
  proof -
    show "?m \<noteq> NextBlock t" by simp
    show "?m \<noteq> 0xFFFF"
    proof
      assume "?m = 0xFFFF"
      then have "NextBlock t = 0xFFFF + 1" by (metis diff_add_cancel)
      then show False using assms(4) by simp
    qed
  qed
  have fl: "tftpFlushPackets ops t w = Some (t, w1)"
    using assms(7,8) by (subst tftpFlushPackets.simps) (simp add: poke_def)
  let ?t3 = "t\<lparr>MaxSyncError := MaxSyncError t - 1, NextBlock := ?m\<rparr>"
  let ?xs = "take 4 (drop (unat (BufferUsed t)) (Buffer t))"
  let ?t4 = "?t3\<lparr>PacketBuffer := data_packet ?m ?xs @ drop 8 (PacketBuffer t)\<rparr>"
  have xs: "length ?xs = 4" using assms(6) by simp
  have b: "tftpDATABuild ?t3 = Some ?t4"
    using assms(2,3,6) xs by (subst tftpDATABuild_eq [where xs = ?xs]) (simp_all add: tftp_consts)
  have s: "tftpSend ops ?t4 w1 = Some (0, w2)"
    using assms(3,9)
    by (subst tftpSend_eq [where xs = "data_packet ?m []" and zs = "?xs @ drop 8 (PacketBuffer t)"])
      (simp_all add: data_packet_def tftp_consts)
  have "tftpReSync ops t w = Some (0, ?t4\<lparr>NextBlock := ?m + 1\<rparr>, w2)"
    using assms(5) ne(2) g(1) by (simp add: tftpReSync_def fl b s TFTP_ACK_def TFTP_DATA_def)
  then show ?thesis using ne(1) g(2) by (simp add: p process_ack_def)
qed

theorem resend_sends_empty_block_witness:
  "\<exists>t'. tftpProcessPacket demo_net (demo_tftp (ack_packet 2)) [] = Some (0, t', []) \<and> NextBlock t' = 3 \<and> BufferUsed t' = 0"
proof -
  let ?t = "demo_tftp (ack_packet 2)"
  have t: "NextBlock ?t = 3" "BufferUsed ?t = 0" by (simp_all add: demo_tftp_def)
  have "\<exists>t'. tftpProcessPacket demo_net ?t [] = Some (0, t', []) \<and> NextBlock t' = NextBlock ?t \<and> BufferUsed t' = BufferUsed ?t"
    by (rule resend_sends_empty_block [where zs = "replicate 512 0" and r = EWOULDBLOCK and ?w1.0 = "[]"])
      (simp_all add: demo_tftp_def tftp_consts EWOULDBLOCK_def)
  then show ?thesis by (simp only: t)
qed

end
