(* ===== verification/Sl_Driver.thy ===== *)
theory Sl_Driver
  imports CC_Prelude "HOL-Library.Monad_Syntax"
begin

text \<open>
  The data of the SimpleLink host driver (\<open>simplelink/source/driver.h\<close>, \<open>protocol.h\<close>): the driver
  control block \<open>g_pCB\<close> as a record, its pool of action objects, message headers, opcodes and the
  table of asynchronous actions.  Pointers to buffers are the bytes behind them, \<open>None\<close> for NULL.
\<close>

section \<open>Constants\<close>

definition MAX_CONCURRENT_ACTIONS :: u8 where "MAX_CONCURRENT_ACTIONS = 10"
definition SL_MAX_SOCKETS :: u8 where "SL_MAX_SOCKETS = 8"
definition BSD_SOCKET_ID_MASK :: u8 where "BSD_SOCKET_ID_MASK = 0x0F"
definition SL_NETAPP_FAMILY_MASK :: u8 where "SL_NETAPP_FAMILY_MASK = 0x80"
definition FLOW_CONT_MIN :: u8 where "FLOW_CONT_MIN = 1"

definition SL_EBADF :: int where "SL_EBADF = -9"
definition SL_SOC_ERROR :: int where "SL_SOC_ERROR = -1"
definition SL_RET_CODE_SELF_ERROR :: int where "SL_RET_CODE_SELF_ERROR = -3"

text \<open>The actions of \<open>_SlActionID_e\<close> that follow the eight sockets.\<close>

definition MAX_SOCKET_ENUM_IDX :: u8 where "MAX_SOCKET_ENUM_IDX = 8"
definition ACCEPT_ID :: u8 where "ACCEPT_ID = 8"
definition CONNECT_ID :: u8 where "CONNECT_ID = 9"
definition SELECT_ID :: u8 where "SELECT_ID = 10"
definition GETHOSYBYNAME_ID :: u8 where "GETHOSYBYNAME_ID = 11"
definition GETHOSYBYSERVICE_ID :: u8 where "GETHOSYBYSERVICE_ID = 12"
definition PING_ID :: u8 where "PING_ID = 13"
definition START_STOP_ID :: u8 where "START_STOP_ID = 14"
definition RECV_ID :: u8 where "RECV_ID = 15"

definition SL_OPCODE_IPV6 :: u16 where "SL_OPCODE_IPV6 = 0x200"
definition SL_OPCODE_SYNC :: u16 where "SL_OPCODE_SYNC = 0x400"
definition SL_OPCODE_SILO_MASK :: u16 where "SL_OPCODE_SILO_MASK = 0x7800"
definition SL_OPCODE_SILO_DEVICE :: u16 where "SL_OPCODE_SILO_DEVICE = 0"
definition SL_OPCODE_SILO_WLAN :: u16 where "SL_OPCODE_SILO_WLAN = 0x800"
definition SL_OPCODE_SILO_SOCKET :: u16 where "SL_OPCODE_SILO_SOCKET = 0x1000"
definition SL_OPCODE_SILO_NETAPP :: u16 where "SL_OPCODE_SILO_NETAPP = 0x1800"

definition SL_OPCODE_DEVICE_INITCOMPLETE :: u16 where "SL_OPCODE_DEVICE_INITCOMPLETE = 0x0008"
definition SL_OPCODE_DEVICE_STOP_ASYNC_RESPONSE :: u16 where "SL_OPCODE_DEVICE_STOP_ASYNC_RESPONSE = 0x0073"
definition SL_OPCODE_DEVICE_DEVICEASYNCDUMMY :: u16 where "SL_OPCODE_DEVICE_DEVICEASYNCDUMMY = 0x0063"
definition SL_OPCODE_SOCKET_ACCEPTASYNCRESPONSE :: u16 where "SL_OPCODE_SOCKET_ACCEPTASYNCRESPONSE = 0x1003"
definition SL_OPCODE_SOCKET_ACCEPTASYNCRESPONSE_V6 :: u16 where "SL_OPCODE_SOCKET_ACCEPTASYNCRESPONSE_V6 = 0x1203"
definition SL_OPCODE_SOCKET_CONNECTASYNCRESPONSE :: u16 where "SL_OPCODE_SOCKET_CONNECTASYNCRESPONSE = 0x1006"
definition SL_OPCODE_SOCKET_SELECTASYNCRESPONSE :: u16 where "SL_OPCODE_SOCKET_SELECTASYNCRESPONSE = 0x1007"
definition SL_OPCODE_SOCKET_RECVASYNCRESPONSE :: u16 where "SL_OPCODE_SOCKET_RECVASYNCRESPONSE = 0x100A"
definition SL_OPCODE_SOCKET_RECVFROMASYNCRESPONSE :: u16 where "SL_OPCODE_SOCKET_RECVFROMASYNCRESPONSE = 0x100B"
definition SL_OPCODE_SOCKET_RECVFROMASYNCRESPONSE_V6 :: u16 where "SL_OPCODE_SOCKET_RECVFROMASYNCRESPONSE_V6 = 0x120B"
definition SL_OPCODE_NETAPP_DNSGETHOSTBYNAMEASYNCRESPONSE :: u16 where "SL_OPCODE_NETAPP_DNSGETHOSTBYNAMEASYNCRESPONSE = 0x1820"
definition SL_OPCODE_NETAPP_MDNSGETHOSTBYSERVICEASYNCRESPONSE :: u16 where "SL_OPCODE_NETAPP_MDNSGETHOSTBYSERVICEASYNCRESPONSE = 0x1835"
definition SL_OPCODE_NETAPP_PINGREPORTREQUESTRESPONSE :: u16 where "SL_OPCODE_NETAPP_PINGREPORTREQUESTRESPONSE = 0x1822"
definition SL_OPCODE_NETAPP_HTTPGETTOKENVALUE :: u16 where "SL_OPCODE_NETAPP_HTTPGETTOKENVALUE = 0x182E"
definition SL_OPCODE_NETAPP_HTTPPOSTTOKENVALUE :: u16 where "SL_OPCODE_NETAPP_HTTPPOSTTOKENVALUE = 0x1830"

lemmas action_ids = ACCEPT_ID_def CONNECT_ID_def SELECT_ID_def GETHOSYBYNAME_ID_def GETHOSYBYSERVICE_ID_def
  PING_ID_def START_STOP_ID_def RECV_ID_def MAX_SOCKET_ENUM_IDX_def
lemmas silos = SL_OPCODE_SILO_MASK_def SL_OPCODE_SILO_DEVICE_def SL_OPCODE_SILO_WLAN_def SL_OPCODE_SILO_SOCKET_def
  SL_OPCODE_SILO_NETAPP_def SL_OPCODE_SYNC_def
lemmas async_opcodes = SL_OPCODE_DEVICE_INITCOMPLETE_def SL_OPCODE_DEVICE_STOP_ASYNC_RESPONSE_def
  SL_OPCODE_DEVICE_DEVICEASYNCDUMMY_def SL_OPCODE_SOCKET_ACCEPTASYNCRESPONSE_def SL_OPCODE_SOCKET_ACCEPTASYNCRESPONSE_V6_def
  SL_OPCODE_SOCKET_CONNECTASYNCRESPONSE_def SL_OPCODE_SOCKET_SELECTASYNCRESPONSE_def SL_OPCODE_SOCKET_RECVASYNCRESPONSE_def
  SL_OPCODE_SOCKET_RECVFROMASYNCRESPONSE_def SL_OPCODE_SOCKET_RECVFROMASYNCRESPONSE_V6_def
  SL_OPCODE_NETAPP_DNSGETHOSTBYNAMEASYNCRESPONSE_def SL_OPCODE_NETAPP_MDNSGETHOSTBYSERVICEASYNCRESPONSE_def
  SL_OPCODE_NETAPP_PINGREPORTREQUESTRESPONSE_def SL_OPCODE_NETAPP_HTTPGETTOKENVALUE_def SL_OPCODE_NETAPP_HTTPPOSTTOKENVALUE_def

section \<open>The control block\<close>

text \<open>The handlers of asynchronous messages: those of the driver and those of the application.\<close>

datatype event_handler =
    sl_HandleAsync_Accept | sl_HandleAsync_Connect | sl_HandleAsync_Select
  | sl_HandleAsync_DnsGetHostByName | sl_HandleAsync_DnsGetHostByService
  | sl_HandleAsync_PingResponse | sl_HandleAsync_Stop
  | SlDrvDeviceEventHandler | SlDrvNetAppEventHandler
  | sl_WlanEvtHdlr | sl_SockEvtHdlr | sl_NetAppEvtHdlr

text \<open>What \<open>pRespArgs\<close> points to: for a receive the \<open>_SlArgsData_t\<close> with its two buffers, for a service
  lookup the structure with what its pointers point to, for any other action the response structure.\<close>

datatype resp_args =
    RespNull
  | RespArgs "u8 list"
  | RecvArgs (pArgs: "u8 list") (pData: "u8 list")
  | ServiceArgs (svc_addr: u32) (svc_port: u32) (svc_status: u16) (svc_text_len: u16) (svc_text: "u8 list")

record SlPoolObj =
  pRespArgs :: resp_args
  ActionID :: u8
  AdditionalData :: u8
  NextIndex :: u8

record SlCmdCtrl =
  Opcode :: u16
  TxDescLen :: u8
  RxDescLen :: u8

record SlCmdExt =
  TxPayloadLen :: u16
  RxPayloadLen :: u16
  ActualRxPayloadLen :: u16
  pTxPayload :: "u8 list"
  pRxPayload :: "u8 list option"

text \<open>The calls of functions the application has registered, with what they are given: an event
  structure (its number and the bytes of the union behind it), the message itself, the result of
  \<open>sl_Start\<close>, the results of a ping, or a buffer with the offset and length of three strings in it.\<close>

record SlPingReport =
  PacketsSent :: u32
  PacketsReceived :: u32
  MinRoundTime :: u16
  MaxRoundTime :: u16
  AvgRoundTime :: u16
  TestTime :: u32

datatype app_call =
    EventStruct event_handler u32 "u8 list"
  | EventRaw event_handler "u8 list"
  | InitDone int
  | PingDone SlPingReport
  | HttpPost "u8 list" "(nat \<times> u8) list"

text \<open>What the callback for the value of a token leaves behind: the message buffer, the two lengths and
  the bytes at the value's pointer.\<close>

record token_reply =
  reply_buf :: "u8 list"
  reply_name_len :: u8
  reply_value_len :: u8
  reply_value :: "u8 list"

datatype SlRxMsgClass = RECV_RESP_CLASS | CMD_RESP_CLASS | ASYNC_EVT_CLASS | DUMMY_MSG_CLASS

text \<open>The record of \<open>_SlDriverCb_t\<close> with the parameters \<open>FunctionParams\<close> laid out flat; of the two
  callbacks (the second a global of \<open>netapp.c\<close>) whether they are set.\<close>

record SlDriverCb =
  hdr_Opcode :: u16
  hdr_Len :: u16
  ObjPool :: "SlPoolObj list"
  FreePoolIdx :: u8
  PendingPoolIdx :: u8
  ActivePoolIdx :: u8
  ActiveActionsBitmap :: u32
  IsCmdRespWaited :: bool
  TxPoolCnt :: u8
  TxSeqNum :: u8
  RxIrqCnt :: u8
  RxDoneCnt :: u8
  SocketNonBlocking :: u8
  SocketTXFailure :: u8
  RelayFlagsViaRxPayload :: bool
  pCmdCtrl :: "SlCmdCtrl option"
  pTxRxDescBuff :: "u8 list option"
  pCmdExt :: "SlCmdExt option"
  pAsyncBuf :: "u8 list option"
  ActionIndex :: u8
  AsyncEvtHandler :: "event_handler option"
  RxMsgClass :: "SlRxMsgClass option"
  pInitCallback :: bool
  pPingCallBackFunc :: bool

definition pending_rx :: "SlDriverCb \<Rightarrow> bool" where
  "pending_rx s \<longleftrightarrow> RxIrqCnt s \<noteq> RxDoneCnt s"

section \<open>Classifying messages\<close>

text \<open>\<open>_SlActionLookupTable\<close>: the opcode that answers an action and the handler of the answer.\<close>

definition SlActionLookupTable :: "(u8 \<times> u16 \<times> event_handler) list" where
  "SlActionLookupTable =
     [(ACCEPT_ID, SL_OPCODE_SOCKET_ACCEPTASYNCRESPONSE, sl_HandleAsync_Accept),
      (CONNECT_ID, SL_OPCODE_SOCKET_CONNECTASYNCRESPONSE, sl_HandleAsync_Connect),
      (SELECT_ID, SL_OPCODE_SOCKET_SELECTASYNCRESPONSE, sl_HandleAsync_Select),
      (GETHOSYBYNAME_ID, SL_OPCODE_NETAPP_DNSGETHOSTBYNAMEASYNCRESPONSE, sl_HandleAsync_DnsGetHostByName),
      (GETHOSYBYSERVICE_ID, SL_OPCODE_NETAPP_MDNSGETHOSTBYSERVICEASYNCRESPONSE, sl_HandleAsync_DnsGetHostByService),
      (PING_ID, SL_OPCODE_NETAPP_PINGREPORTREQUESTRESPONSE, sl_HandleAsync_PingResponse),
      (START_STOP_ID, SL_OPCODE_DEVICE_STOP_ASYNC_RESPONSE, sl_HandleAsync_Stop)]"

definition is_recv_opcode :: "u16 \<Rightarrow> bool" where
  "is_recv_opcode op \<longleftrightarrow> op = SL_OPCODE_SOCKET_RECVASYNCRESPONSE \<or> op = SL_OPCODE_SOCKET_RECVFROMASYNCRESPONSE \<or>
     op = SL_OPCODE_SOCKET_RECVFROMASYNCRESPONSE_V6"

definition silo_handler :: "u16 \<Rightarrow> event_handler option" where
  "silo_handler op =
     (let silo = op AND SL_OPCODE_SILO_MASK in
      if silo = SL_OPCODE_SILO_DEVICE then Some SlDrvDeviceEventHandler
      else if silo = SL_OPCODE_SILO_WLAN then Some sl_WlanEvtHdlr
      else if silo = SL_OPCODE_SILO_SOCKET then Some sl_SockEvtHdlr
      else if silo = SL_OPCODE_SILO_NETAPP then
        (if op = SL_OPCODE_NETAPP_HTTPGETTOKENVALUE \<or> op = SL_OPCODE_NETAPP_HTTPPOSTTOKENVALUE
         then Some SlDrvNetAppEventHandler else Some sl_NetAppEvtHdlr)
      else None)"

definition SlDrvClassifyRxMsg :: "u16 \<Rightarrow> SlDriverCb \<Rightarrow> SlDriverCb" where
  "SlDrvClassifyRxMsg op s =
     (let s1 = s\<lparr>AsyncEvtHandler := None\<rparr> in
      if SL_OPCODE_SYNC AND op = 0 then
        if op = SL_OPCODE_DEVICE_DEVICEASYNCDUMMY then s1\<lparr>RxMsgClass := Some DUMMY_MSG_CLASS\<rparr>
        else if is_recv_opcode op then s1\<lparr>RxMsgClass := Some RECV_RESP_CLASS\<rparr>
        else s1\<lparr>RxMsgClass := Some ASYNC_EVT_CLASS, AsyncEvtHandler := silo_handler op\<rparr>
      else s1\<lparr>RxMsgClass := Some CMD_RESP_CLASS\<rparr>)"

end
