(* ===== verification/Sl_Pool.thy ===== *)
theory Sl_Pool
  imports Sl_Driver
begin

text \<open>
  The pool of action objects of \<open>simplelink/source/driver.c\<close>: ten objects on three lists linked by
  index (free, active, pending), taken by \<open>_SlDrvWaitForPoolObj\<close>, which waits while the socket or the
  action is in use, and given back by \<open>_SlDrvReleasePoolObj\<close>.  Reading the pool beyond its end and a
  loop that does not end are \<open>None\<close>.  Each function below is what one thread does while it holds the
  protection lock.
\<close>

section \<open>Operations\<close>

definition get_obj :: "u8 \<Rightarrow> SlDriverCb \<Rightarrow> SlPoolObj option" where
  "get_obj i s = (if i < MAX_CONCURRENT_ACTIONS then Some (ObjPool s ! unat i) else None)"

definition set_obj :: "u8 \<Rightarrow> (SlPoolObj \<Rightarrow> SlPoolObj) \<Rightarrow> SlDriverCb \<Rightarrow> SlDriverCb" where
  "set_obj i f s = s\<lparr>ObjPool := (ObjPool s)[unat i := f (ObjPool s ! unat i)]\<rparr>"

definition link_obj :: "u8 \<Rightarrow> u8 \<Rightarrow> SlDriverCb \<Rightarrow> SlDriverCb" where
  "link_obj i n = set_obj i (\<lambda>p. p\<lparr>NextIndex := n\<rparr>)"

definition SlDrvObjInit :: "SlDriverCb \<Rightarrow> SlDriverCb" where
  "SlDrvObjInit s = s\<lparr>
     FreePoolIdx := 0,
     ObjPool := map (\<lambda>Idx. \<lparr>pRespArgs = RespNull, ActionID = 0, AdditionalData = SL_MAX_SOCKETS, NextIndex = of_nat Idx + 1\<rparr>)
       [0..<unat MAX_CONCURRENT_ACTIONS],
     ActivePoolIdx := MAX_CONCURRENT_ACTIONS,
     PendingPoolIdx := MAX_CONCURRENT_ACTIONS\<rparr>"

definition SlDrvObjDeInit :: "SlDriverCb \<Rightarrow> SlDriverCb" where
  "SlDrvObjDeInit s = s\<lparr>FreePoolIdx := 0, PendingPoolIdx := MAX_CONCURRENT_ACTIONS, ActivePoolIdx := MAX_CONCURRENT_ACTIONS\<rparr>"

partial_function (option) unlink_loop :: "u8 \<Rightarrow> u8 \<Rightarrow> SlDriverCb \<Rightarrow> SlDriverCb option" where
  "unlink_loop Idx ItemIndex s =
     (if Idx < MAX_CONCURRENT_ACTIONS then do {
        p \<leftarrow> get_obj Idx s;
        if NextIndex p = ItemIndex then do { it \<leftarrow> get_obj ItemIndex s; Some (link_obj Idx (NextIndex it) s) }
        else unlink_loop (NextIndex p) ItemIndex s
      }
      else Some s)"

text \<open>The list is given by its head, which is handed back.\<close>

definition SlRemoveFromList :: "u8 \<Rightarrow> u8 \<Rightarrow> SlDriverCb \<Rightarrow> (u8 \<times> SlDriverCb) option" where
  "SlRemoveFromList ListIndex ItemIndex s = do {
     p \<leftarrow> get_obj ListIndex s;
     if NextIndex p = MAX_CONCURRENT_ACTIONS then Some (MAX_CONCURRENT_ACTIONS, s)
     else if ListIndex = ItemIndex then do { it \<leftarrow> get_obj ItemIndex s; Some (NextIndex it, s) }
     else do { s1 \<leftarrow> unlink_loop ListIndex ItemIndex s; Some (ListIndex, s1) }
   }"

text \<open>The bit of the socket, or of the action when no socket is involved.\<close>

definition action_bit :: "u32 \<Rightarrow> u8 \<Rightarrow> u32" where
  "action_bit ActID SocketID = (if SocketID < SL_MAX_SOCKETS then push_bit (unat SocketID) 1 else push_bit (unat ActID) 1)"

definition action_busy :: "u32 \<Rightarrow> u8 \<Rightarrow> SlDriverCb \<Rightarrow> bool" where
  "action_busy ActID SocketID s \<longleftrightarrow>
     SocketID < SL_MAX_SOCKETS \<and> ActiveActionsBitmap s AND push_bit (unat SocketID) 1 \<noteq> 0 \<or>
     ActiveActionsBitmap s AND push_bit (unat ActID) 1 \<noteq> 0 \<and> SocketID = SL_MAX_SOCKETS"

datatype wait_result = Wait_Empty | Wait_Blocked u8 | Wait_Active u8

text \<open>The loop of \<open>_SlDrvWaitForPoolObj\<close> from one lock to the next unlock: on the pending list, or active.\<close>

definition wait_check :: "u32 \<Rightarrow> u8 \<Rightarrow> u8 \<Rightarrow> SlDriverCb \<Rightarrow> wait_result \<times> SlDriverCb" where
  "wait_check ActID SocketID i s =
     (if action_busy ActID SocketID s
      then (Wait_Blocked i, (link_obj i (PendingPoolIdx s) s)\<lparr>PendingPoolIdx := i\<rparr>)
      else
        let s1 = s\<lparr>ActiveActionsBitmap := ActiveActionsBitmap s OR action_bit ActID SocketID\<rparr>
        in (Wait_Active i, (link_obj i (ActivePoolIdx s1) s1)\<lparr>ActivePoolIdx := i\<rparr>))"

definition wait_enter :: "u32 \<Rightarrow> u8 \<Rightarrow> SlDriverCb \<Rightarrow> (wait_result \<times> SlDriverCb) option" where
  "wait_enter ActID SocketID s =
     (if FreePoolIdx s < MAX_CONCURRENT_ACTIONS then do {
        let i = FreePoolIdx s;
        p \<leftarrow> get_obj i s;
        let s1 = s\<lparr>FreePoolIdx := if NextIndex p < MAX_CONCURRENT_ACTIONS then NextIndex p else MAX_CONCURRENT_ACTIONS\<rparr>;
        let s2 = set_obj i (\<lambda>p. p\<lparr>ActionID := ucast ActID\<rparr>) s1;
        let s3 = (if SocketID < SL_MAX_SOCKETS then set_obj i (\<lambda>p. p\<lparr>AdditionalData := SocketID\<rparr>) s2 else s2);
        Some (wait_check ActID SocketID i s3)
      }
      else Some (Wait_Empty, s))"

definition socket_of :: "SlPoolObj \<Rightarrow> u8" where
  "socket_of p = AdditionalData p AND BSD_SOCKET_ID_MASK"

definition wakes :: "SlPoolObj \<Rightarrow> SlPoolObj \<Rightarrow> bool" where
  "wakes p obj \<longleftrightarrow> ActionID p = ActionID obj \<and>
     (socket_of p = SL_MAX_SOCKETS \<or> socket_of obj < SL_MAX_SOCKETS \<and> socket_of p = socket_of obj)"

text \<open>The search of the pending list: the object that is taken off and signalled.\<close>

partial_function (option) release_loop :: "u8 \<Rightarrow> u8 \<Rightarrow> SlDriverCb \<Rightarrow> (u8 option \<times> SlDriverCb) option" where
  "release_loop PendingIndex ObjIdx s =
     (if PendingIndex < MAX_CONCURRENT_ACTIONS then do {
        p \<leftarrow> get_obj PendingIndex s;
        obj \<leftarrow> get_obj ObjIdx s;
        if wakes p obj then do {
          (head, s1) \<leftarrow> SlRemoveFromList (PendingPoolIdx s) PendingIndex s;
          Some (Some PendingIndex, s1\<lparr>PendingPoolIdx := head\<rparr>)
        }
        else release_loop (NextIndex p) ObjIdx s
      }
      else Some (None, s))"

definition SlDrvReleasePoolObj :: "u8 \<Rightarrow> SlDriverCb \<Rightarrow> (u8 option \<times> SlDriverCb) option" where
  "SlDrvReleasePoolObj ObjIdx s = do {
     (signalled, s1) \<leftarrow> release_loop (PendingPoolIdx s) ObjIdx s;
     obj \<leftarrow> get_obj ObjIdx s1;
     let bit = (if socket_of obj < SL_MAX_SOCKETS then push_bit (unat (socket_of obj)) 1
                else push_bit (unat (ActionID obj)) 1);
     let s2 = s1\<lparr>ActiveActionsBitmap := ActiveActionsBitmap s1 AND NOT bit\<rparr>;
     let s3 = set_obj ObjIdx (\<lambda>p. p\<lparr>pRespArgs := RespNull, ActionID := 0, AdditionalData := SL_MAX_SOCKETS\<rparr>) s2;
     (head, s4) \<leftarrow> SlRemoveFromList (ActivePoolIdx s3) ObjIdx s3;
     let s5 = link_obj ObjIdx (FreePoolIdx s4) (s4\<lparr>ActivePoolIdx := head\<rparr>);
     Some (signalled, s5\<lparr>FreePoolIdx := ObjIdx\<rparr>)
   }"

text \<open>
  \<open>_SlFindAndSetActiveObj\<close>.  The lookup table has seven entries; the index \<open>ActionID - 8\<close> of a receive
  is 7, and of an object that carries no action it wraps.
\<close>

definition lookup_action :: "u8 \<Rightarrow> (u16 \<times> event_handler) option" where
  "lookup_action ActID =
     (if MAX_SOCKET_ENUM_IDX \<le> ActID \<and> unat (ActID - MAX_SOCKET_ENUM_IDX) < length SlActionLookupTable
      then Some (snd (SlActionLookupTable ! unat (ActID - MAX_SOCKET_ENUM_IDX))) else None)"

partial_function (option) find_loop :: "u8 \<Rightarrow> u16 \<Rightarrow> u8 \<Rightarrow> SlDriverCb \<Rightarrow> (int \<times> SlDriverCb) option" where
  "find_loop ActiveIndex op Sd s =
     (if ActiveIndex < MAX_CONCURRENT_ACTIONS then do {
        p \<leftarrow> get_obj ActiveIndex s;
        let op1 = (if AdditionalData p AND SL_NETAPP_FAMILY_MASK \<noteq> 0 then op AND NOT SL_OPCODE_IPV6 else op);
        if ActionID p = RECV_ID \<and> Sd = AdditionalData p \<and> is_recv_opcode op1
        then Some (0, s\<lparr>ActionIndex := ActiveIndex\<rparr>)
        else do {
          (act_op, handler) \<leftarrow> lookup_action (ActionID p);
          if act_op = op1 \<and> (Sd = socket_of p \<and> Sd < SL_MAX_SOCKETS \<or> socket_of p = SL_MAX_SOCKETS)
          then Some (0, s\<lparr>AsyncEvtHandler := Some handler, ActionIndex := ActiveIndex\<rparr>)
          else find_loop (NextIndex p) op1 Sd s
        }
      }
      else Some (SL_RET_CODE_SELF_ERROR, s))"

definition SlFindAndSetActiveObj :: "u16 \<Rightarrow> u8 \<Rightarrow> SlDriverCb \<Rightarrow> (int \<times> SlDriverCb) option" where
  "SlFindAndSetActiveObj op Sd s = find_loop (ActivePoolIdx s) op Sd s"

end
