(* ===== verification/Sl_Pool_Props.thy ===== *)
theory Sl_Pool_Props
  imports Sl_Pool
begin

text \<open>
  Correctness of the pool of action objects.  The three linked lists are read as lists of indices;
  taking, waiting and releasing move one object between them.  Threads that take, wait and release in
  any order form a transition system, in which no two threads ever hold the same socket or action.
\<close>

section \<open>The linked lists\<close>

fun linked :: "SlPoolObj list \<Rightarrow> u8 \<Rightarrow> u8 list \<Rightarrow> bool" where
  "linked P i [] \<longleftrightarrow> i = MAX_CONCURRENT_ACTIONS"
| "linked P i (x # xs) \<longleftrightarrow> i = x \<and> x < MAX_CONCURRENT_ACTIONS \<and> linked P (NextIndex (P ! unat x)) xs"

lemma linked_below: "linked P i xs \<Longrightarrow> x \<in> set xs \<Longrightarrow> x < MAX_CONCURRENT_ACTIONS"
  by (induction xs arbitrary: i) auto

lemma linked_cong:
  "(\<And>x. x \<in> set xs \<Longrightarrow> NextIndex (P ! unat x) = NextIndex (Q ! unat x)) \<Longrightarrow> linked P i xs = linked Q i xs"
  by (induction xs arbitrary: i) auto

lemma linked_head: "linked P i xs \<Longrightarrow> i < MAX_CONCURRENT_ACTIONS \<longleftrightarrow> xs \<noteq> []"
  by (cases xs) auto

lemma linked_append:
  "linked P i (xs @ y # ys) \<Longrightarrow> linked P y (y # ys)"
  by (induction xs arbitrary: i) auto

lemma unat_below: "x < MAX_CONCURRENT_ACTIONS \<Longrightarrow> unat x < 10"
  by (simp add: MAX_CONCURRENT_ACTIONS_def word_less_nat_alt)

lemma get_obj_below: "x < MAX_CONCURRENT_ACTIONS \<Longrightarrow> get_obj x s = Some (ObjPool s ! unat x)"
  by (simp add: get_obj_def)

lemma set_obj_nth:
  assumes "length (ObjPool s) = 10" "x < MAX_CONCURRENT_ACTIONS"
  shows "ObjPool (set_obj x f s) ! unat y = (if y = x then f (ObjPool s ! unat x) else ObjPool s ! unat y)"
  using assms unat_below [of x] by (auto simp: set_obj_def nth_list_update word_unat_eq_iff)

lemma set_obj_simps [simp]:
  "FreePoolIdx (set_obj x f s) = FreePoolIdx s" "PendingPoolIdx (set_obj x f s) = PendingPoolIdx s"
  "ActivePoolIdx (set_obj x f s) = ActivePoolIdx s" "ActiveActionsBitmap (set_obj x f s) = ActiveActionsBitmap s"
  "length (ObjPool (set_obj x f s)) = length (ObjPool s)"
  by (simp_all add: set_obj_def)

lemma link_obj_simps [simp]:
  "FreePoolIdx (link_obj x n s) = FreePoolIdx s" "PendingPoolIdx (link_obj x n s) = PendingPoolIdx s"
  "ActivePoolIdx (link_obj x n s) = ActivePoolIdx s" "ActiveActionsBitmap (link_obj x n s) = ActiveActionsBitmap s"
  "length (ObjPool (link_obj x n s)) = length (ObjPool s)"
  by (simp_all add: link_obj_def)

text \<open>What an object carries apart from its link.\<close>

definition load :: "SlPoolObj \<Rightarrow> resp_args \<times> u8 \<times> u8" where
  "load p = (pRespArgs p, ActionID p, AdditionalData p)"

lemma link_obj_nth:
  assumes "length (ObjPool s) = 10" "x < MAX_CONCURRENT_ACTIONS"
  shows "NextIndex (ObjPool (link_obj x n s) ! unat y) = (if y = x then n else NextIndex (ObjPool s ! unat y))"
    "load (ObjPool (link_obj x n s) ! unat y) = load (ObjPool s ! unat y)"
  using assms by (simp_all add: link_obj_def set_obj_nth load_def)

section \<open>Removing from a list\<close>

lemma unlink_loop_removes:
  assumes "linked (ObjPool s) h (pre @ y # x # post)" "distinct (pre @ y # x # post)"
  shows "unlink_loop h x s = Some (link_obj y (NextIndex (ObjPool s ! unat x)) s)"
  using assms
proof (induction pre arbitrary: h)
  case Nil
  then show ?case by (subst unlink_loop.simps) (simp add: get_obj_below)
next
  case (Cons z pre)
  from Cons.prems have z: "h = z" "z < MAX_CONCURRENT_ACTIONS"
    and c: "linked (ObjPool s) (NextIndex (ObjPool s ! unat z)) (pre @ y # x # post)" by simp_all
  have "NextIndex (ObjPool s ! unat z) \<noteq> x"
    using c Cons.prems(2) by (cases pre) auto
  then have "unlink_loop h x s = unlink_loop (NextIndex (ObjPool s ! unat z)) x s"
    by (subst unlink_loop.simps) (simp add: z get_obj_below)
  also have "\<dots> = Some (link_obj y (NextIndex (ObjPool s ! unat x)) s)"
    using Cons.IH [OF c] Cons.prems(2) by simp
  finally show ?case .
qed

lemma linked_unlink:
  assumes "linked (ObjPool s) h (pre @ y # x # post)" "distinct (pre @ y # x # post)" "length (ObjPool s) = 10"
  shows "linked (ObjPool (link_obj y (NextIndex (ObjPool s ! unat x)) s)) h (pre @ y # post)"
  using assms
proof (induction pre arbitrary: h)
  case Nil
  let ?s = "link_obj y (NextIndex (ObjPool s ! unat x)) s"
  from Nil have b: "y < MAX_CONCURRENT_ACTIONS" and c: "linked (ObjPool s) (NextIndex (ObjPool s ! unat x)) post" by simp_all
  have "linked (ObjPool ?s) (NextIndex (ObjPool s ! unat x)) post = linked (ObjPool s) (NextIndex (ObjPool s ! unat x)) post"
    using Nil b by (intro linked_cong) (auto simp: link_obj_nth)
  then show ?case using Nil b c by (simp add: link_obj_nth)
next
  case (Cons z pre)
  have "y < MAX_CONCURRENT_ACTIONS" using Cons.prems(1) by (rule linked_below) simp
  then show ?case using Cons by (simp add: link_obj_nth)
qed

text \<open>
  The item leaves the list; apart from one link inside the list nothing of the pool changes.
\<close>

definition same_loads :: "SlDriverCb \<Rightarrow> SlDriverCb \<Rightarrow> bool" where
  "same_loads s s' \<longleftrightarrow> length (ObjPool s') = length (ObjPool s) \<and> (\<forall>x :: u8. load (ObjPool s' ! unat x) = load (ObjPool s ! unat x))"

lemma SlRemoveFromList_removes:
  assumes "linked (ObjPool s) h xs" "distinct xs" "x \<in> set xs" "length (ObjPool s) = 10"
  obtains h' s' where "SlRemoveFromList h x s = Some (h', s')" "linked (ObjPool s') h' (remove1 x xs)"
    "\<And>z :: u8. z \<notin> set xs \<Longrightarrow> NextIndex (ObjPool s' ! unat z) = NextIndex (ObjPool s ! unat z)" "same_loads s s'"
    "\<exists>P. s' = s\<lparr>ObjPool := P\<rparr>"
proof (cases xs)
  case Nil
  then show ?thesis using assms(3) by simp
next
  case (Cons a ys)
  have a: "h = a" "a < MAX_CONCURRENT_ACTIONS" and c: "linked (ObjPool s) (NextIndex (ObjPool s ! unat a)) ys"
    using assms(1) Cons by simp_all
  have last: "NextIndex (ObjPool s ! unat a) = MAX_CONCURRENT_ACTIONS \<longleftrightarrow> ys = []"
    using c by (cases ys) auto
  have upd: "s = s\<lparr>ObjPool := ObjPool s\<rparr>" by simp
  show ?thesis
  proof (cases "x = a")
    case True
    have "SlRemoveFromList h x s = Some (NextIndex (ObjPool s ! unat a), s)"
      using a True by (simp add: SlRemoveFromList_def get_obj_below)
    moreover have "linked (ObjPool s) (NextIndex (ObjPool s ! unat a)) (remove1 x xs)" using c Cons True by simp
    ultimately show ?thesis by (intro that) (auto simp: same_loads_def intro: upd)
  next
    case False
    then have "x \<in> set ys" using assms(3) Cons by simp
    then obtain u v where uv: "xs = u @ x # v" "u \<noteq> []" using Cons by (metis split_list append_Cons list.distinct(1))
    then obtain pre y where pre: "u = pre @ [y]" by (metis rev_exhaust)
    have xs: "xs = pre @ y # x # v" using uv(1) pre by simp
    have ne: "ys \<noteq> []" using \<open>x \<in> set ys\<close> by auto
    have b: "y < MAX_CONCURRENT_ACTIONS" using assms(1) xs by (intro linked_below [of "ObjPool s" h xs]) simp_all
    let ?s = "link_obj y (NextIndex (ObjPool s ! unat x)) s"
    have "SlRemoveFromList h x s = Some (h, ?s)"
      using unlink_loop_removes [of s h pre y x v] assms(1,2) xs a False last ne
      by (simp add: SlRemoveFromList_def get_obj_below)
    moreover have "linked (ObjPool ?s) h (remove1 x xs)"
    proof -
      have "remove1 x xs = pre @ y # v" using assms(2) xs by (simp add: remove1_append)
      then show ?thesis using linked_unlink [of s h pre y x v] assms xs by simp
    qed
    ultimately show ?thesis
    proof (rule that)
      show "NextIndex (ObjPool ?s ! unat z) = NextIndex (ObjPool s ! unat z)" if "z \<notin> set xs" for z
        using that xs b assms(4) by (auto simp: link_obj_nth)
      show "same_loads s ?s" using b assms(4) by (simp add: same_loads_def link_obj_nth)
      show "\<exists>P. ?s = s\<lparr>ObjPool := P\<rparr>" by (auto simp: link_obj_def set_obj_def)
    qed
  qed
qed

section \<open>The pool as three lists\<close>

definition pool_lists :: "SlDriverCb \<Rightarrow> u8 list \<Rightarrow> u8 list \<Rightarrow> u8 list \<Rightarrow> bool" where
  "pool_lists s fs as ps \<longleftrightarrow>
     length (ObjPool s) = 10 \<and> linked (ObjPool s) (FreePoolIdx s) fs \<and> linked (ObjPool s) (ActivePoolIdx s) as \<and>
     linked (ObjPool s) (PendingPoolIdx s) ps \<and> distinct (fs @ as @ ps)"

lemma pool_lists_below:
  "pool_lists s fs as ps \<Longrightarrow> x \<in> set fs \<union> set as \<union> set ps \<Longrightarrow> x < MAX_CONCURRENT_ACTIONS"
  by (auto simp: pool_lists_def dest: linked_below)

text \<open>The lists only look at the links.\<close>

lemma linked_links:
  assumes "linked (ObjPool s) i xs" "\<And>x. x \<in> set xs \<Longrightarrow> NextIndex (ObjPool t ! unat x) = NextIndex (ObjPool s ! unat x)"
  shows "linked (ObjPool t) i xs"
  using assms(1) linked_cong [of xs "ObjPool t" "ObjPool s" i] assms(2) by simp

lemma linked_other:
  assumes "linked (ObjPool s) n xs" "i \<notin> set xs" "i < MAX_CONCURRENT_ACTIONS" "length (ObjPool s) = 10"
  shows "linked (ObjPool (link_obj i m s)) n xs"
  using assms by (intro linked_links [OF assms(1)]) (auto simp: link_obj_nth)

lemma linked_push:
  assumes "linked (ObjPool s) n xs" "i \<notin> set xs" "i < MAX_CONCURRENT_ACTIONS" "length (ObjPool s) = 10"
  shows "linked (ObjPool (link_obj i n s)) i (i # xs)"
  using assms linked_other [of s n xs i n] by (simp add: link_obj_nth)

lemma wait_check_blocked:
  assumes "pool_lists s fs as ps" "i < MAX_CONCURRENT_ACTIONS" "i \<notin> set (fs @ as @ ps)" "action_busy a k s"
  obtains s' where "wait_check a k i s = (Wait_Blocked i, s')" "pool_lists s' fs as (i # ps)" "same_loads s s'"
    "ActiveActionsBitmap s' = ActiveActionsBitmap s"
proof
  let ?s = "(link_obj i (PendingPoolIdx s) s)\<lparr>PendingPoolIdx := i\<rparr>"
  show "wait_check a k i s = (Wait_Blocked i, ?s)" using assms(4) by (simp add: wait_check_def)
  show "pool_lists ?s fs as (i # ps)"
    using assms linked_push [of s "PendingPoolIdx s" ps i] linked_other [of s _ _ i] by (auto simp: pool_lists_def)
  show "same_loads s ?s" using assms by (simp add: same_loads_def pool_lists_def link_obj_nth)
qed simp

lemma wait_check_active:
  assumes "pool_lists s fs as ps" "i < MAX_CONCURRENT_ACTIONS" "i \<notin> set (fs @ as @ ps)" "\<not> action_busy a k s"
  obtains s' where "wait_check a k i s = (Wait_Active i, s')" "pool_lists s' fs (i # as) ps" "same_loads s s'"
    "ActiveActionsBitmap s' = ActiveActionsBitmap s OR action_bit a k"
proof
  let ?s1 = "s\<lparr>ActiveActionsBitmap := ActiveActionsBitmap s OR action_bit a k\<rparr>"
  let ?s = "(link_obj i (ActivePoolIdx s) ?s1)\<lparr>ActivePoolIdx := i\<rparr>"
  show "wait_check a k i s = (Wait_Active i, ?s)" using assms(4) by (simp add: wait_check_def Let_def)
  show "pool_lists ?s fs (i # as) ps"
    using assms linked_push [of ?s1 "ActivePoolIdx s" as i] linked_other [of ?s1 _ _ i] by (auto simp: pool_lists_def)
  show "same_loads s ?s"
    using assms link_obj_nth(2) [of ?s1 i "ActivePoolIdx s"] by (simp add: same_loads_def pool_lists_def)
qed simp

lemma wait_enter_empty: "pool_lists s [] as ps \<Longrightarrow> wait_enter a k s = Some (Wait_Empty, s)"
  by (simp add: pool_lists_def wait_enter_def)

lemma wait_enter_takes:
  assumes "pool_lists s (i # fs) as ps"
  obtains s' where "wait_enter a k s = Some (wait_check a k i s')" "pool_lists s' fs as ps"
    "ActiveActionsBitmap s' = ActiveActionsBitmap s" "length (ObjPool s') = 10"
    "\<And>x :: u8. x \<noteq> i \<Longrightarrow> ObjPool s' ! unat x = ObjPool s ! unat x"
    "ActionID (ObjPool s' ! unat i) = ucast a"
    "AdditionalData (ObjPool s' ! unat i) = (if k < SL_MAX_SOCKETS then k else AdditionalData (ObjPool s ! unat i))"
proof
  have i: "FreePoolIdx s = i" "i < MAX_CONCURRENT_ACTIONS" and l: "length (ObjPool s) = 10"
    and c: "linked (ObjPool s) (NextIndex (ObjPool s ! unat i)) fs"
    using assms by (simp_all add: pool_lists_def)
  have n: "(if NextIndex (ObjPool s ! unat i) < MAX_CONCURRENT_ACTIONS then NextIndex (ObjPool s ! unat i)
      else MAX_CONCURRENT_ACTIONS) = NextIndex (ObjPool s ! unat i)"
    using c by (cases fs) auto
  let ?s1 = "s\<lparr>FreePoolIdx := NextIndex (ObjPool s ! unat i)\<rparr>"
  let ?s2 = "set_obj i (\<lambda>p. p\<lparr>ActionID := ucast a\<rparr>) ?s1"
  let ?s = "if k < SL_MAX_SOCKETS then set_obj i (\<lambda>p. p\<lparr>AdditionalData := k\<rparr>) ?s2 else ?s2"
  show "wait_enter a k s = Some (wait_check a k i ?s)"
    by (simp add: wait_enter_def i get_obj_below n)
  have nx: "NextIndex (ObjPool ?s ! unat x) = NextIndex (ObjPool s ! unat x)" for x :: u8
    using l i by (simp add: set_obj_nth)
  show "pool_lists ?s fs as ps"
    using assms c linked_links [of s _ _ ?s, OF _ nx] by (auto simp: pool_lists_def)
  show "length (ObjPool ?s) = 10" using l by simp
  show "ActiveActionsBitmap ?s = ActiveActionsBitmap s" by simp
  show "ObjPool ?s ! unat x = ObjPool s ! unat x" if "x \<noteq> i" for x :: u8
    using l i that by (simp add: set_obj_nth)
  show "ActionID (ObjPool ?s ! unat i) = ucast a"
    "AdditionalData (ObjPool ?s ! unat i) = (if k < SL_MAX_SOCKETS then k else AdditionalData (ObjPool s ! unat i))"
    using l i by (simp_all add: set_obj_nth)
qed

section \<open>Releasing\<close>

lemma find_remove1: "List.find P xs = Some x \<Longrightarrow> x \<in> set xs"
  by (induction xs) (auto split: if_splits)

lemma release_loop_finds:
  assumes "linked (ObjPool s) i xs" "x < MAX_CONCURRENT_ACTIONS"
  shows "release_loop i x s =
    (case List.find (\<lambda>j. wakes (ObjPool s ! unat j) (ObjPool s ! unat x)) xs of
       None \<Rightarrow> Some (None, s)
     | Some j \<Rightarrow> map_option (\<lambda>(head, s1). (Some j, s1\<lparr>PendingPoolIdx := head\<rparr>)) (SlRemoveFromList (PendingPoolIdx s) j s))"
  using assms(1)
proof (induction xs arbitrary: i)
  case Nil
  then show ?case by (subst release_loop.simps) simp
next
  case (Cons j xs)
  then show ?case
    using assms(2)
    by (subst release_loop.simps) (auto simp: get_obj_below map_option_case split: option.splits)
qed

definition obj_bit :: "SlPoolObj \<Rightarrow> nat" where
  "obj_bit p = unat (if socket_of p < SL_MAX_SOCKETS then socket_of p else ActionID p)"

definition cleared :: "SlPoolObj \<Rightarrow> bool" where
  "cleared p \<longleftrightarrow> load p = (RespNull, 0, SL_MAX_SOCKETS)"

definition take_off :: "u8 option \<Rightarrow> u8 list \<Rightarrow> u8 list" where
  "take_off j ps = (case j of None \<Rightarrow> ps | Some x \<Rightarrow> remove1 x ps)"

lemma release_loop_takes_off:
  assumes "pool_lists s fs as ps" "x < MAX_CONCURRENT_ACTIONS"
  obtains s1 where "release_loop (PendingPoolIdx s) x s =
      Some (List.find (\<lambda>j. wakes (ObjPool s ! unat j) (ObjPool s ! unat x)) ps, s1)"
    "FreePoolIdx s1 = FreePoolIdx s" "ActivePoolIdx s1 = ActivePoolIdx s" "ActiveActionsBitmap s1 = ActiveActionsBitmap s"
    "linked (ObjPool s1) (PendingPoolIdx s1) (take_off (List.find (\<lambda>j. wakes (ObjPool s ! unat j) (ObjPool s ! unat x)) ps) ps)"
    "same_loads s s1" "\<And>z :: u8. z \<notin> set ps \<Longrightarrow> NextIndex (ObjPool s1 ! unat z) = NextIndex (ObjPool s ! unat z)"
proof -
  let ?w = "List.find (\<lambda>j. wakes (ObjPool s ! unat j) (ObjPool s ! unat x)) ps"
  have cp: "linked (ObjPool s) (PendingPoolIdx s) ps" and dp: "distinct ps" and l: "length (ObjPool s) = 10"
    using assms(1) by (simp_all add: pool_lists_def)
  show ?thesis
  proof (cases ?w)
    case None
    show ?thesis
      by (rule that [of s]) (use release_loop_finds [OF cp assms(2)] None cp in \<open>simp_all add: take_off_def same_loads_def\<close>)
  next
    case (Some j)
    obtain h' s' where rm: "SlRemoveFromList (PendingPoolIdx s) j s = Some (h', s')" "linked (ObjPool s') h' (remove1 j ps)"
      "\<And>z :: u8. z \<notin> set ps \<Longrightarrow> NextIndex (ObjPool s' ! unat z) = NextIndex (ObjPool s ! unat z)" "same_loads s s'"
      "\<exists>P. s' = s\<lparr>ObjPool := P\<rparr>"
      using SlRemoveFromList_removes [OF cp dp find_remove1 [OF Some] l] by metis
    show ?thesis
      by (rule that [of "s'\<lparr>PendingPoolIdx := h'\<rparr>"])
        (use release_loop_finds [OF cp assms(2)] Some rm in \<open>auto simp: take_off_def same_loads_def\<close>)
  qed
qed

lemma SlDrvReleasePoolObj_releases:
  assumes "pool_lists s fs as ps" "x \<in> set as"
  obtains s' where
    "SlDrvReleasePoolObj x s = Some (List.find (\<lambda>j. wakes (ObjPool s ! unat j) (ObjPool s ! unat x)) ps, s')"
    "pool_lists s' (x # fs) (remove1 x as)
       (take_off (List.find (\<lambda>j. wakes (ObjPool s ! unat j) (ObjPool s ! unat x)) ps) ps)"
    "ActiveActionsBitmap s' = ActiveActionsBitmap s AND NOT (push_bit (obj_bit (ObjPool s ! unat x)) 1)"
    "cleared (ObjPool s' ! unat x)" "\<And>y :: u8. y \<noteq> x \<Longrightarrow> load (ObjPool s' ! unat y) = load (ObjPool s ! unat y)"
proof -
  let ?w = "List.find (\<lambda>j. wakes (ObjPool s ! unat j) (ObjPool s ! unat x)) ps"
  have l: "length (ObjPool s) = 10" and x: "x < MAX_CONCURRENT_ACTIONS"
    and cf: "linked (ObjPool s) (FreePoolIdx s) fs" and ca: "linked (ObjPool s) (ActivePoolIdx s) as"
    and d: "distinct (fs @ as @ ps)"
    using assms linked_below by (auto simp: pool_lists_def)
  obtain s1 where r: "release_loop (PendingPoolIdx s) x s = Some (?w, s1)"
    and f1: "FreePoolIdx s1 = FreePoolIdx s" "ActivePoolIdx s1 = ActivePoolIdx s" "ActiveActionsBitmap s1 = ActiveActionsBitmap s"
    and c1: "linked (ObjPool s1) (PendingPoolIdx s1) (take_off ?w ps)" and l1: "same_loads s s1"
    and n1: "\<And>z :: u8. z \<notin> set ps \<Longrightarrow> NextIndex (ObjPool s1 ! unat z) = NextIndex (ObjPool s ! unat z)"
    using release_loop_takes_off [OF assms(1) x] by metis
  have p1: "load (ObjPool s1 ! unat y) = load (ObjPool s ! unat y)" for y :: u8 using l1 by (simp add: same_loads_def)
  have len1: "length (ObjPool s1) = 10" using l1 l by (simp add: same_loads_def)
  have ob: "socket_of (ObjPool s1 ! unat x) = socket_of (ObjPool s ! unat x)" "ActionID (ObjPool s1 ! unat x) = ActionID (ObjPool s ! unat x)"
    using p1 [of x] by (simp_all add: load_def socket_of_def)
  let ?b = "push_bit (obj_bit (ObjPool s ! unat x)) 1"
  let ?s2 = "s1\<lparr>ActiveActionsBitmap := ActiveActionsBitmap s1 AND NOT ?b\<rparr>"
  let ?s3 = "set_obj x (\<lambda>p. p\<lparr>pRespArgs := RespNull, ActionID := 0, AdditionalData := SL_MAX_SOCKETS\<rparr>) ?s2"
  have n3: "NextIndex (ObjPool ?s3 ! unat z) = NextIndex (ObjPool s1 ! unat z)" for z :: u8
    using len1 x by (simp add: set_obj_nth)
  have p3: "load (ObjPool ?s3 ! unat y) = (if y = x then (RespNull, 0, SL_MAX_SOCKETS) else load (ObjPool s ! unat y))" for y :: u8
    using len1 x p1 by (simp add: set_obj_nth load_def)
  have ca3: "linked (ObjPool ?s3) (ActivePoolIdx ?s3) as"
    using linked_links [OF ca, of ?s3] n3 n1 d f1 by auto
  have len3: "length (ObjPool ?s3) = 10" and da: "distinct as" using len1 d by simp_all
  obtain h' s4 where rm: "SlRemoveFromList (ActivePoolIdx ?s3) x ?s3 = Some (h', s4)" "linked (ObjPool s4) h' (remove1 x as)"
    "\<And>z :: u8. z \<notin> set as \<Longrightarrow> NextIndex (ObjPool s4 ! unat z) = NextIndex (ObjPool ?s3 ! unat z)" "same_loads ?s3 s4"
    "\<exists>P. s4 = ?s3\<lparr>ObjPool := P\<rparr>"
    using SlRemoveFromList_removes [OF ca3 da assms(2) len3] by metis
  let ?s5 = "(link_obj x (FreePoolIdx s4) (s4\<lparr>ActivePoolIdx := h'\<rparr>))\<lparr>FreePoolIdx := x\<rparr>"
  have s4: "FreePoolIdx s4 = FreePoolIdx s" "PendingPoolIdx s4 = PendingPoolIdx s1"
    "ActiveActionsBitmap s4 = ActiveActionsBitmap s AND NOT ?b" "length (ObjPool s4) = 10"
    using rm(4,5) f1 len1 by (auto simp: same_loads_def)
  have tk: "set (take_off ?w ps) \<subseteq> set ps" "distinct (take_off ?w ps)"
    using d by (auto simp: take_off_def set_remove1_eq split: option.splits)
  have dis: "\<And>z. z \<in> set fs \<Longrightarrow> z \<notin> set as \<and> z \<notin> set ps" "\<And>z. z \<in> set (take_off ?w ps) \<Longrightarrow> z \<notin> set as"
    using d tk(1) by auto
  have xa: "x \<notin> set fs" "x \<notin> set ps" "x \<notin> set (remove1 x as)" "set (remove1 x as) \<subseteq> set as"
    using assms(2) d by (auto simp: set_remove1_eq)
  show ?thesis
  proof (rule that [of ?s5])
    have bit: "(if socket_of (ObjPool s1 ! unat x) < SL_MAX_SOCKETS then push_bit (unat (socket_of (ObjPool s1 ! unat x))) 1
        else push_bit (unat (ActionID (ObjPool s1 ! unat x))) 1) = ?b"
      by (simp add: ob obj_bit_def)
    show "SlDrvReleasePoolObj x s = Some (?w, ?s5)"
      by (simp only: SlDrvReleasePoolObj_def r Option.bind.simps prod.case get_obj_below [OF x] bit Let_def rm(1))
    show "ActiveActionsBitmap ?s5 = ActiveActionsBitmap s AND NOT ?b" using s4 by simp
    show "cleared (ObjPool ?s5 ! unat x)"
      using rm(4) p3 [of x] s4(4) x link_obj_nth(2) [of "s4\<lparr>ActivePoolIdx := h'\<rparr>" x "FreePoolIdx s4"]
      by (simp add: cleared_def same_loads_def)
    show "load (ObjPool ?s5 ! unat y) = load (ObjPool s ! unat y)" if "y \<noteq> x" for y :: u8
      using rm(4) p3 [of y] that s4(4) x link_obj_nth(2) [of "s4\<lparr>ActivePoolIdx := h'\<rparr>" x "FreePoolIdx s4"]
      by (simp add: same_loads_def)
    have "linked (ObjPool s4) (FreePoolIdx s4) fs"
      unfolding s4(1) by (rule linked_links [OF cf]) (simp only: rm(3) n3 n1 dis(1) simp_thms)
    then have "linked (ObjPool ?s5) x (x # fs)" using linked_push [of "s4\<lparr>ActivePoolIdx := h'\<rparr>"] xa x s4(4) by simp
    moreover have "linked (ObjPool ?s5) h' (remove1 x as)"
      using linked_other [of "s4\<lparr>ActivePoolIdx := h'\<rparr>"] rm(2) xa x s4(4) by simp
    moreover have "linked (ObjPool ?s5) (PendingPoolIdx s1) (take_off ?w ps)"
    proof -
      have "linked (ObjPool s4) (PendingPoolIdx s1) (take_off ?w ps)"
        by (rule linked_links [OF c1]) (simp only: rm(3) n3 dis(2) simp_thms)
      moreover have "x \<notin> set (take_off ?w ps)" using tk(1) xa(2) by auto
      ultimately show ?thesis using linked_other [of "s4\<lparr>ActivePoolIdx := h'\<rparr>"] x s4(4) by simp
    qed
    moreover have "distinct ((x # fs) @ remove1 x as @ take_off ?w ps)" using d tk xa by auto
    ultimately show "pool_lists ?s5 (x # fs) (remove1 x as) (take_off ?w ps)"
      using s4 by (simp add: pool_lists_def)
  qed
qed

section \<open>What the pool leaves alone\<close>

definition pool_only :: "SlDriverCb \<Rightarrow> SlDriverCb \<Rightarrow> bool" where
  "pool_only s s' \<longleftrightarrow>
     s = s'\<lparr>ObjPool := ObjPool s, FreePoolIdx := FreePoolIdx s, PendingPoolIdx := PendingPoolIdx s,
       ActivePoolIdx := ActivePoolIdx s, ActiveActionsBitmap := ActiveActionsBitmap s\<rparr>"

lemma pool_only_refl [simp]: "pool_only s s"
  by (simp add: pool_only_def)

lemma pool_only_trans [trans]: "pool_only s s1 \<Longrightarrow> pool_only s1 s2 \<Longrightarrow> pool_only s s2"
  unfolding pool_only_def by (cases s; cases s1; cases s2) simp

lemma pool_only_upd:
  "pool_only s (set_obj i f s)" "pool_only s (link_obj i n s)" "pool_only s (s\<lparr>FreePoolIdx := a\<rparr>)" "pool_only s (s\<lparr>PendingPoolIdx := a\<rparr>)"
  "pool_only s (s\<lparr>ActivePoolIdx := a\<rparr>)" "pool_only s (s\<lparr>ActiveActionsBitmap := b\<rparr>)"
  by (simp_all add: pool_only_def set_obj_def link_obj_def)

lemma unlink_loop_frame: "pool_only s s'" if "unlink_loop i x s = Some s'"
  by (rule unlink_loop.raw_induct [where P = "\<lambda>i x s s'. pool_only s s'", OF _ that])
    (auto simp: pool_only_upd get_obj_def split: if_splits Option.bind_splits)

lemma SlRemoveFromList_frame: "SlRemoveFromList h x s = Some (h', s') \<Longrightarrow> pool_only s s'"
  by (auto simp: SlRemoveFromList_def pool_only_upd dest: unlink_loop_frame split: if_splits Option.bind_splits)

lemma release_loop_frame: "pool_only s (snd r)" if "release_loop i x s = Some r"
  by (rule release_loop.raw_induct [where P = "\<lambda>i x s r. pool_only s (snd r)", OF _ that])
    (auto simp: get_obj_def split: if_splits Option.bind_splits prod.splits
        intro: pool_only_trans [OF SlRemoveFromList_frame pool_only_upd(4)])

lemma pool_only_cleared: "pool_only (set_obj i f (s\<lparr>ActiveActionsBitmap := b\<rparr>)) s' \<Longrightarrow> pool_only s s'"
  using pool_only_trans pool_only_upd(1,6) by blast

lemma SlDrvReleasePoolObj_frame: "SlDrvReleasePoolObj i s = Some (j, s') \<Longrightarrow> pool_only s s'"
  unfolding SlDrvReleasePoolObj_def Let_def
  by (auto split: Option.bind_splits prod.splits dest!: release_loop_frame SlRemoveFromList_frame pool_only_cleared
      intro!: pool_only_trans [OF _ pool_only_upd(3)] pool_only_trans [OF _ pool_only_upd(2)] pool_only_trans [OF _ pool_only_upd(5)]
      elim!: pool_only_trans)

lemma wait_check_frame: "wait_check a k i s = (r, s') \<Longrightarrow> pool_only s s'"
  unfolding wait_check_def Let_def
  by (auto split: if_splits intro!: pool_only_trans [OF _ pool_only_upd(4)] pool_only_trans [OF _ pool_only_upd(5)]
      pool_only_trans [OF _ pool_only_upd(2)] pool_only_upd)

lemma wait_enter_frame: "wait_enter a k s = Some (r, s') \<Longrightarrow> pool_only s s'"
  unfolding wait_enter_def Let_def
  by (auto split: if_splits Option.bind_splits dest!: wait_check_frame elim!: pool_only_trans [rotated])
    (simp_all add: pool_only_def set_obj_def)

lemma pool_only_fields:
  assumes "pool_only s s'"
  shows "IsCmdRespWaited s' = IsCmdRespWaited s" "TxPoolCnt s' = TxPoolCnt s" "RxIrqCnt s' = RxIrqCnt s" "RxDoneCnt s' = RxDoneCnt s"
    "RelayFlagsViaRxPayload s' = RelayFlagsViaRxPayload s" "pending_rx s' = pending_rx s"
proof -
  note fields = arg_cong [OF assms [unfolded pool_only_def]]
  show "IsCmdRespWaited s' = IsCmdRespWaited s" "TxPoolCnt s' = TxPoolCnt s" "RelayFlagsViaRxPayload s' = RelayFlagsViaRxPayload s"
    using fields [of IsCmdRespWaited] fields [of TxPoolCnt] fields [of RelayFlagsViaRxPayload] by simp_all
  show "RxIrqCnt s' = RxIrqCnt s" "RxDoneCnt s' = RxDoneCnt s" "pending_rx s' = pending_rx s"
    using fields [of RxIrqCnt] fields [of RxDoneCnt] by (simp_all add: pending_rx_def)
qed

section \<open>Finding the object an event is for\<close>

text \<open>What \<open>_SlFindAndSetActiveObj\<close> compares, with the opcode it compares it to.\<close>

definition family_op :: "SlPoolObj \<Rightarrow> u16 \<Rightarrow> u16" where
  "family_op p op = (if AdditionalData p AND SL_NETAPP_FAMILY_MASK \<noteq> 0 then op AND NOT SL_OPCODE_IPV6 else op)"

definition recv_answer :: "u16 \<Rightarrow> u8 \<Rightarrow> SlPoolObj \<Rightarrow> bool" where
  "recv_answer op Sd p \<longleftrightarrow> ActionID p = RECV_ID \<and> Sd = AdditionalData p \<and> is_recv_opcode (family_op p op)"

definition event_answer :: "u16 \<Rightarrow> u8 \<Rightarrow> SlPoolObj \<Rightarrow> bool" where
  "event_answer op Sd p \<longleftrightarrow> map_option fst (lookup_action (ActionID p)) = Some (family_op p op) \<and>
     (Sd = socket_of p \<and> Sd < SL_MAX_SOCKETS \<or> socket_of p = SL_MAX_SOCKETS)"

text \<open>An object the search steps over: an action of the table that waits for something else.\<close>

definition passed_over :: "u16 \<Rightarrow> u8 \<Rightarrow> SlPoolObj \<Rightarrow> bool" where
  "passed_over op Sd p \<longleftrightarrow> lookup_action (ActionID p) \<noteq> None \<and> \<not> recv_answer op Sd p \<and> \<not> event_answer op Sd p \<and>
     family_op p op = op"

lemma lookup_recv [simp]: "lookup_action RECV_ID = None"
  by (simp add: lookup_action_def action_ids SlActionLookupTable_def)

lemma find_loop_step:
  "x < MAX_CONCURRENT_ACTIONS \<Longrightarrow> find_loop x op Sd s =
     (let p = ObjPool s ! unat x in
      if recv_answer op Sd p then Some (0, s\<lparr>ActionIndex := x\<rparr>)
      else case lookup_action (ActionID p) of None \<Rightarrow> None
      | Some (e, h) \<Rightarrow> if event_answer op Sd p then Some (0, s\<lparr>AsyncEvtHandler := Some h, ActionIndex := x\<rparr>)
          else find_loop (NextIndex p) (family_op p op) Sd s)"
  by (subst find_loop.simps)
    (simp only: get_obj_below recv_answer_def event_answer_def Let_def Option.bind.simps flip: family_op_def, auto split: option.splits)

lemma find_loop_passes:
  assumes "linked (ObjPool s) i (us @ x # vs)" "\<And>u. u \<in> set us \<Longrightarrow> passed_over op Sd (ObjPool s ! unat u)"
  shows "find_loop i op Sd s = find_loop x op Sd s"
  using assms
proof (induction us arbitrary: i)
  case Nil
  then show ?case by simp
next
  case (Cons u us)
  let ?p = "ObjPool s ! unat u"
  have u: "i = u" "u < MAX_CONCURRENT_ACTIONS" and c: "linked (ObjPool s) (NextIndex ?p) (us @ x # vs)"
    using Cons.prems(1) by simp_all
  have po: "passed_over op Sd ?p" using Cons.prems(2) by simp
  then obtain e h where l: "lookup_action (ActionID ?p) = Some (e, h)" by (auto simp: passed_over_def)
  have "find_loop i op Sd s = find_loop (NextIndex ?p) op Sd s"
    using po u by (simp add: find_loop_step passed_over_def l Let_def)
  then show ?case using Cons.IH [OF c] Cons.prems(2) by simp
qed

text \<open>An event reaches the object that waits for it: the first active object whose action and socket
  the opcode answers is selected, with the handler of its action, and for received data without one.
\<close>

theorem SlFindAndSetActiveObj_finds:
  assumes "linked (ObjPool s) (ActivePoolIdx s) (us @ x # vs)" "\<And>u. u \<in> set us \<Longrightarrow> passed_over op Sd (ObjPool s ! unat u)"
    "recv_answer op Sd (ObjPool s ! unat x) \<or> event_answer op Sd (ObjPool s ! unat x)"
  shows "SlFindAndSetActiveObj op Sd s = Some (0, s\<lparr>ActionIndex := x, AsyncEvtHandler :=
    (if recv_answer op Sd (ObjPool s ! unat x) then AsyncEvtHandler s
     else map_option snd (lookup_action (ActionID (ObjPool s ! unat x))))\<rparr>)"
proof -
  have x: "x < MAX_CONCURRENT_ACTIONS" using assms(1) by (rule linked_below) simp
  have "SlFindAndSetActiveObj op Sd s = find_loop x op Sd s"
    unfolding SlFindAndSetActiveObj_def by (rule find_loop_passes [OF assms(1,2)])
  then show ?thesis
    using assms(3) x by (auto simp: find_loop_step Let_def event_answer_def split: option.splits)
qed

text \<open>A receive in progress disturbs the search: when an object that waits for data is met before the
  one an event is for, the search looks its action up in the table of actions, one entry past its end.
\<close>

theorem SlFindAndSetActiveObj_overrun:
  assumes "linked (ObjPool s) (ActivePoolIdx s) (us @ x # vs)" "\<And>u. u \<in> set us \<Longrightarrow> passed_over op Sd (ObjPool s ! unat u)"
    "ActionID (ObjPool s ! unat x) = RECV_ID" "\<not> is_recv_opcode (family_op (ObjPool s ! unat x) op) \<or> AdditionalData (ObjPool s ! unat x) \<noteq> Sd"
  shows "SlFindAndSetActiveObj op Sd s = None"
proof -
  have x: "x < MAX_CONCURRENT_ACTIONS" using assms(1) by (rule linked_below) simp
  have "SlFindAndSetActiveObj op Sd s = find_loop x op Sd s"
    unfolding SlFindAndSetActiveObj_def by (rule find_loop_passes [OF assms(1,2)])
  then show ?thesis
    using assms(3,4) x by (auto simp: find_loop_step Let_def recv_answer_def)
qed

text \<open>A pool with an object that waits for data on socket 2 before one that accepts on socket 1.\<close>

definition demo_pool :: "u8 \<Rightarrow> SlDriverCb" where
  "demo_pool head =
     \<lparr>hdr_Opcode = 0, hdr_Len = 0,
      ObjPool = \<lparr>pRespArgs = RespNull, ActionID = ACCEPT_ID, AdditionalData = 1, NextIndex = 10\<rparr>
        # \<lparr>pRespArgs = RespNull, ActionID = RECV_ID, AdditionalData = 2, NextIndex = 0\<rparr>
        # replicate 8 \<lparr>pRespArgs = RespNull, ActionID = 0, AdditionalData = 8, NextIndex = 10\<rparr>,
      FreePoolIdx = 10, PendingPoolIdx = 10, ActivePoolIdx = head, ActiveActionsBitmap = 6, IsCmdRespWaited = False,
      TxPoolCnt = 5, TxSeqNum = 0, RxIrqCnt = 0, RxDoneCnt = 0, SocketNonBlocking = 0, SocketTXFailure = 0,
      RelayFlagsViaRxPayload = False, pCmdCtrl = None, pTxRxDescBuff = None, pCmdExt = None, pAsyncBuf = None,
      ActionIndex = 0, AsyncEvtHandler = None, RxMsgClass = None,
      pInitCallback = False, pPingCallBackFunc = False\<rparr>"

theorem SlFindAndSetActiveObj_finds_witness:
  "SlFindAndSetActiveObj SL_OPCODE_SOCKET_ACCEPTASYNCRESPONSE 1 (demo_pool 0) =
     Some (0, demo_pool 0\<lparr>ActionIndex := 0, AsyncEvtHandler := Some sl_HandleAsync_Accept\<rparr>)"
proof -
  have a: "\<not> recv_answer SL_OPCODE_SOCKET_ACCEPTASYNCRESPONSE 1 (ObjPool (demo_pool 0) ! unat (0 :: u8))"
    "event_answer SL_OPCODE_SOCKET_ACCEPTASYNCRESPONSE 1 (ObjPool (demo_pool 0) ! unat (0 :: u8))"
    "map_option snd (lookup_action (ActionID (ObjPool (demo_pool 0) ! unat (0 :: u8)))) = Some sl_HandleAsync_Accept"
    by code_simp+
  have "linked (ObjPool (demo_pool 0)) (ActivePoolIdx (demo_pool 0)) ([] @ 0 # [])" by code_simp
  from SlFindAndSetActiveObj_finds [OF this, of SL_OPCODE_SOCKET_ACCEPTASYNCRESPONSE 1] show ?thesis using a by simp
qed

theorem SlFindAndSetActiveObj_overrun_witness:
  "SlFindAndSetActiveObj SL_OPCODE_SOCKET_ACCEPTASYNCRESPONSE 1 (demo_pool 1) = None"
proof (rule SlFindAndSetActiveObj_overrun)
  show "linked (ObjPool (demo_pool 1)) (ActivePoolIdx (demo_pool 1)) ([] @ 1 # [0])" by code_simp
  show "ActionID (ObjPool (demo_pool 1) ! unat (1 :: u8)) = RECV_ID" by code_simp
  show "\<not> is_recv_opcode (family_op (ObjPool (demo_pool 1) ! unat (1 :: u8)) SL_OPCODE_SOCKET_ACCEPTASYNCRESPONSE) \<or>
      AdditionalData (ObjPool (demo_pool 1) ! unat (1 :: u8)) \<noteq> 1" by code_simp
qed simp

end
