(* ===== verification/Sl_Pool_Threads.thy ===== *)
theory Sl_Pool_Threads
  imports Sl_Pool_Props
begin

text \<open>
  Threads that share the pool of action objects.  A thread takes an object with
  \<open>_SlDrvWaitForPoolObj\<close>, sleeps on the object's semaphore while its socket or action is in use, and
  gives the object back with \<open>_SlDrvReleasePoolObj\<close>; a step is what happens under the protection lock.
\<close>

section \<open>The system\<close>

datatype thread_state =
    Idle
  | Waiting (act: u32) (sock: u8) (idx: u8)
  | Holding (act: u32) (sock: u8) (idx: u8)

record 't pool_sys =
  cb :: SlDriverCb
  threads :: "'t \<Rightarrow> thread_state"
  sems :: "u8 set"

text \<open>
  The requests of the driver's API: actions are numbered from 8; accepting, connecting and receiving
  name a socket, the other actions do not.
\<close>

definition valid_req :: "u32 \<Rightarrow> u8 \<Rightarrow> bool" where
  "valid_req a k \<longleftrightarrow> 8 \<le> a \<and> a < 16 \<and> k \<le> SL_MAX_SOCKETS \<and>
     (k < SL_MAX_SOCKETS \<longleftrightarrow> ucast a \<in> {ACCEPT_ID, CONNECT_ID, RECV_ID})"

fun after :: "u32 \<Rightarrow> u8 \<Rightarrow> wait_result \<Rightarrow> thread_state" where
  "after a k Wait_Empty = Idle"
| "after a k (Wait_Blocked i) = Waiting a k i"
| "after a k (Wait_Active i) = Holding a k i"

inductive pool_step :: "'t pool_sys \<Rightarrow> 't pool_sys \<Rightarrow> bool" where
  step_enter: "threads \<sigma> t = Idle \<Longrightarrow> valid_req a k \<Longrightarrow> wait_enter a k (cb \<sigma>) = Some (r, s') \<Longrightarrow>
    pool_step \<sigma> (\<sigma>\<lparr>cb := s', threads := (threads \<sigma>)(t := after a k r)\<rparr>)"
| step_wake: "threads \<sigma> t = Waiting a k i \<Longrightarrow> i \<in> sems \<sigma> \<Longrightarrow> wait_check a k i (cb \<sigma>) = (r, s') \<Longrightarrow>
    pool_step \<sigma> (\<sigma>\<lparr>cb := s', threads := (threads \<sigma>)(t := after a k r), sems := sems \<sigma> - {i}\<rparr>)"
| step_release: "threads \<sigma> t = Holding a k i \<Longrightarrow> SlDrvReleasePoolObj i (cb \<sigma>) = Some (j, s') \<Longrightarrow>
    pool_step \<sigma> (\<sigma>\<lparr>cb := s', threads := (threads \<sigma>)(t := Idle), sems := sems \<sigma> \<union> set_option j\<rparr>)"

inductive_cases pool_stepE: "pool_step \<sigma> \<sigma>'"

definition pool_start :: "SlDriverCb \<Rightarrow> 't pool_sys" where
  "pool_start s = \<lparr>cb = SlDrvObjInit (s\<lparr>ActiveActionsBitmap := 0\<rparr>), threads = (\<lambda>_. Idle), sems = {}\<rparr>"

inductive pool_reaches :: "SlDriverCb \<Rightarrow> 't pool_sys \<Rightarrow> bool" for s where
  reaches_start: "pool_reaches s (pool_start s)"
| reaches_step: "pool_reaches s \<sigma> \<Longrightarrow> pool_step \<sigma> \<sigma>' \<Longrightarrow> pool_reaches s \<sigma>'"

section \<open>The invariant\<close>

definition req_bit :: "u32 \<Rightarrow> u8 \<Rightarrow> nat" where
  "req_bit a k = (if k < SL_MAX_SOCKETS then unat k else unat a)"

definition index_of :: "thread_state \<Rightarrow> u8 option" where
  "index_of T = (case T of Idle \<Rightarrow> None | Waiting a k i \<Rightarrow> Some i | Holding a k i \<Rightarrow> Some i)"

definition holds :: "'t pool_sys \<Rightarrow> 't \<Rightarrow> nat \<Rightarrow> bool" where
  "holds \<sigma> t n \<longleftrightarrow> (\<exists>a k i. threads \<sigma> t = Holding a k i \<and> n = req_bit a k)"

fun holdp :: "u8 \<Rightarrow> thread_state \<Rightarrow> bool" where
  "holdp x (Holding a k i) \<longleftrightarrow> i = x"
| "holdp x T \<longleftrightarrow> False"

fun waitp :: "u8 \<Rightarrow> thread_state \<Rightarrow> bool" where
  "waitp x (Waiting a k i) \<longleftrightarrow> i = x"
| "waitp x T \<longleftrightarrow> False"

lemma index_of_simps [simp]:
  "index_of Idle = None" "index_of (Waiting a k i) = Some i" "index_of (Holding a k i) = Some i"
  by (simp_all add: index_of_def)

lemma index_of_cases: "index_of T = Some x \<longleftrightarrow> holdp x T \<or> waitp x T"
  by (cases T) auto

lemma ex_upd: "\<not> P (f t) \<Longrightarrow> (\<exists>u. P ((f(t := v)) u)) \<longleftrightarrow> P v \<or> (\<exists>u. P (f u))"
  by (metis fun_upd_apply)

definition owned :: "thread_state \<Rightarrow> SlDriverCb \<Rightarrow> bool" where
  "owned T s \<longleftrightarrow> (T \<noteq> Idle \<longrightarrow> valid_req (act T) (sock T) \<and> idx T < MAX_CONCURRENT_ACTIONS \<and>
     ActionID (ObjPool s ! unat (idx T)) = ucast (act T) \<and> AdditionalData (ObjPool s ! unat (idx T)) = sock T)"

definition pool_ok :: "'t pool_sys \<Rightarrow> u8 list \<Rightarrow> u8 list \<Rightarrow> u8 list \<Rightarrow> bool" where
  "pool_ok \<sigma> fs as ps \<longleftrightarrow>
     pool_lists (cb \<sigma>) fs as ps \<and>
     (\<forall>i \<in> set fs. AdditionalData (ObjPool (cb \<sigma>) ! unat i) = SL_MAX_SOCKETS) \<and>
     (\<forall>t. owned (threads \<sigma> t) (cb \<sigma>)) \<and>
     (\<forall>t t' i. index_of (threads \<sigma> t) = Some i \<longrightarrow> index_of (threads \<sigma> t') = Some i \<longrightarrow> t = t') \<and>
     set fs = {i. i < MAX_CONCURRENT_ACTIONS \<and> (\<forall>t. index_of (threads \<sigma> t) \<noteq> Some i)} \<and>
     set as = {i. \<exists>t. holdp i (threads \<sigma> t)} \<and>
     set ps = {i. i \<notin> sems \<sigma> \<and> (\<exists>t. waitp i (threads \<sigma> t))} \<and>
     sems \<sigma> \<subseteq> {i. \<exists>t. waitp i (threads \<sigma> t)} \<and>
     (\<forall>n. bit (ActiveActionsBitmap (cb \<sigma>)) n \<longleftrightarrow> (\<exists>t. holds \<sigma> t n)) \<and>
     (\<forall>t t' n. holds \<sigma> t n \<longrightarrow> holds \<sigma> t' n \<longrightarrow> t = t')"

text \<open>The bits of the bitmap.\<close>

lemma valid_req_bit: "valid_req a k \<Longrightarrow> req_bit a k < 16"
  by (auto simp: valid_req_def req_bit_def SL_MAX_SOCKETS_def word_less_nat_alt)

lemma action_bit_bit: "valid_req a k \<Longrightarrow> bit (action_bit a k) n \<longleftrightarrow> n = req_bit a k"
  using valid_req_bit [of a k] by (auto simp: action_bit_def req_bit_def bit_simps)

lemma action_busy_bit: "valid_req a k \<Longrightarrow> action_busy a k s \<longleftrightarrow> bit (ActiveActionsBitmap s) (req_bit a k)"
  using valid_req_bit [of a k]
  by (auto simp: action_busy_def req_bit_def and_exp_eq_0_iff_not_bit valid_req_def SL_MAX_SOCKETS_def)

lemma socket_of_valid: "AdditionalData p = k \<Longrightarrow> k \<le> SL_MAX_SOCKETS \<Longrightarrow> socket_of p = k"
proof -
  assume k: "AdditionalData p = k" "k \<le> SL_MAX_SOCKETS"
  then have "unat k < 16" by (simp add: SL_MAX_SOCKETS_def word_le_nat_alt)
  then have "take_bit 4 k = k" by (simp add: word_unat_eq_iff unsigned_take_bit_eq take_bit_nat_eq_self)
  then have "k AND mask 4 = k" by (simp add: take_bit_eq_mask)
  moreover have "(mask 4 :: u8) = 15" by (simp add: mask_eq_exp_minus_1)
  ultimately show ?thesis using k by (simp add: socket_of_def BSD_SOCKET_ID_MASK_def)
qed

lemma owned_bit:
  assumes "owned T s" "T \<noteq> Idle"
  shows "obj_bit (ObjPool s ! unat (idx T)) = req_bit (act T) (sock T)"
proof -
  have v: "valid_req (act T) (sock T)" and o: "ActionID (ObjPool s ! unat (idx T)) = ucast (act T)"
    "AdditionalData (ObjPool s ! unat (idx T)) = sock T"
    using assms by (simp_all add: owned_def)
  have "socket_of (ObjPool s ! unat (idx T)) = sock T" using o v by (intro socket_of_valid) (simp_all add: valid_req_def)
  moreover have "unat (ucast (act T) :: u8) = unat (act T)"
  proof (rule unat_ucast_small)
    have "unat (act T) < 16" using v by (simp add: valid_req_def word_less_nat_alt)
    then show "unat (act T) < 2 ^ LENGTH(8)" by simp
  qed
  ultimately show ?thesis using o by (simp add: obj_bit_def req_bit_def)
qed

section \<open>Preservation\<close>

lemma init_nth:
  "(x :: u8) < MAX_CONCURRENT_ACTIONS \<Longrightarrow> ObjPool (SlDrvObjInit s) ! unat x =
     \<lparr>pRespArgs = RespNull, ActionID = 0, AdditionalData = SL_MAX_SOCKETS, NextIndex = x + 1\<rparr>"
  using unat_below [of x] by (simp add: SlDrvObjInit_def MAX_CONCURRENT_ACTIONS_def del: upt_Suc)

lemma pool_lists_init: "pool_lists (SlDrvObjInit s) [0, 1, 2, 3, 4, 5, 6, 7, 8, 9] [] []"
proof -
  have "NextIndex (ObjPool (SlDrvObjInit s) ! unat x) = x + 1" if "x < 10" for x :: u8
    using init_nth [of x s] that by (simp add: MAX_CONCURRENT_ACTIONS_def)
  note n = this [of 0, simplified] this [of 1, simplified] this [of 2, simplified] this [of 3, simplified] this [of 4, simplified]
    this [of 5, simplified] this [of 6, simplified] this [of 7, simplified] this [of 8, simplified] this [of 9, simplified]
  show ?thesis
    unfolding pool_lists_def by (simp add: n MAX_CONCURRENT_ACTIONS_def) (simp add: SlDrvObjInit_def MAX_CONCURRENT_ACTIONS_def)
qed

lemma below_ten: "(i :: u8) < MAX_CONCURRENT_ACTIONS \<longleftrightarrow> i \<in> {0, 1, 2, 3, 4, 5, 6, 7, 8, 9}"
proof
  assume "i < MAX_CONCURRENT_ACTIONS"
  then have "unat i \<in> {0, 1, 2, 3, 4, 5, 6, 7, 8, 9}" using unat_below by fastforce
  moreover have "i = of_nat (unat i)" by simp
  ultimately show "i \<in> {0, 1, 2, 3, 4, 5, 6, 7, 8, 9}" by (elim insertE) (simp_all del: of_nat_unat)
qed (auto simp: MAX_CONCURRENT_ACTIONS_def)

lemma pool_ok_start: "pool_ok (pool_start s) [0, 1, 2, 3, 4, 5, 6, 7, 8, 9] [] []"
proof -
  have "AdditionalData (ObjPool (SlDrvObjInit t) ! unat i) = SL_MAX_SOCKETS" if "i < MAX_CONCURRENT_ACTIONS" for t and i :: u8
    using init_nth [OF that] by simp
  moreover have "set [0, 1, 2, 3, 4, 5, 6, 7, 8, 9] = {i :: u8. i < MAX_CONCURRENT_ACTIONS}"
    using below_ten by auto
  moreover have "ActiveActionsBitmap (SlDrvObjInit (s\<lparr>ActiveActionsBitmap := 0\<rparr>)) = 0" by (simp add: SlDrvObjInit_def)
  ultimately show ?thesis
    unfolding pool_ok_def using pool_lists_init [of "s\<lparr>ActiveActionsBitmap := 0\<rparr>"]
    by (simp add: pool_start_def owned_def index_of_def holds_def)
qed

lemma pool_ok_owned: "pool_ok \<sigma> fs as ps \<Longrightarrow> owned (threads \<sigma> t) (cb \<sigma>)"
  unfolding pool_ok_def by blast

lemma pool_ok_busy:
  "pool_ok \<sigma> fs as ps \<Longrightarrow> valid_req a k \<Longrightarrow> action_busy a k (cb \<sigma>) \<longleftrightarrow> (\<exists>u. holds \<sigma> u (req_bit a k))"
  using action_busy_bit unfolding pool_ok_def by blast

text \<open>Only the objects of the threads and the bitmap matter.\<close>

lemma owned_cong:
  "same_loads s s' \<Longrightarrow> owned T s' \<longleftrightarrow> owned T s"
  by (simp add: owned_def same_loads_def load_def)

text \<open>A thread takes an object off the free list: it is then as if it had been woken.\<close>

lemma take_ok:
  assumes "pool_ok \<sigma> (i # fs) as ps" "threads \<sigma> t = Idle" "valid_req a k"
  obtains s' where "wait_enter a k (cb \<sigma>) = Some (wait_check a k i s')"
    "pool_ok (\<sigma>\<lparr>cb := s', threads := (threads \<sigma>)(t := Waiting a k i), sems := insert i (sems \<sigma>)\<rparr>) fs as ps"
proof -
  note ok = assms(1) [unfolded pool_ok_def]
  have L: "pool_lists (cb \<sigma>) (i # fs) as ps" using ok by simp
  have i: "i < MAX_CONCURRENT_ACTIONS" "i \<notin> set fs" "AdditionalData (ObjPool (cb \<sigma>) ! unat i) = SL_MAX_SOCKETS"
    "\<And>u. index_of (threads \<sigma> u) \<noteq> Some i"
    using ok by (auto simp: pool_lists_def)
  obtain s' where s': "wait_enter a k (cb \<sigma>) = Some (wait_check a k i s')" "pool_lists s' fs as ps"
    "ActiveActionsBitmap s' = ActiveActionsBitmap (cb \<sigma>)"
    "\<And>x :: u8. x \<noteq> i \<Longrightarrow> ObjPool s' ! unat x = ObjPool (cb \<sigma>) ! unat x"
    "ActionID (ObjPool s' ! unat i) = ucast a"
    "AdditionalData (ObjPool s' ! unat i) = (if k < SL_MAX_SOCKETS then k else AdditionalData (ObjPool (cb \<sigma>) ! unat i))"
    using wait_enter_takes [OF L, of a k] by metis
  have ni: "i \<noteq> idx (threads \<sigma> u)" if "threads \<sigma> u \<noteq> Idle" for u
    using i(4) [of u] that by (cases "threads \<sigma> u") (auto simp: index_of_def)
  have ad: "AdditionalData (ObjPool s' ! unat i) = k"
    using s'(6) i(3) assms(3) by (auto simp: valid_req_def)
  let ?\<sigma> = "\<sigma>\<lparr>cb := s', threads := (threads \<sigma>)(t := Waiting a k i), sems := insert i (sems \<sigma>)\<rparr>"
  have ow: "owned (threads ?\<sigma> u) s'" for u
    using ok s'(4,5) ad assms(3) i(1) ni [of u] by (auto simp: owned_def)
  have nw: "\<not> holdp i (threads \<sigma> u)" "\<not> waitp i (threads \<sigma> u)" for u
    using i(4) [of u] by (simp_all add: index_of_cases)
  have hp: "(\<exists>u. holdp x (threads ?\<sigma> u)) \<longleftrightarrow> (\<exists>u. holdp x (threads \<sigma> u))" for x
    using ex_upd [of "holdp x" "threads \<sigma>" t "Waiting a k i"] assms(2) by auto
  have wp: "(\<exists>u. waitp x (threads ?\<sigma> u)) \<longleftrightarrow> x = i \<or> (\<exists>u. waitp x (threads \<sigma> u))" for x
    using ex_upd [of "waitp x" "threads \<sigma>" t "Waiting a k i"] assms(2) by auto
  have hd: "holds ?\<sigma> u n \<longleftrightarrow> holds \<sigma> u n" for u n
    using assms(2) by (auto simp: holds_def)
  have "pool_ok ?\<sigma> fs as ps"
    unfolding pool_ok_def hd hp wp
  proof (intro conjI allI impI)
    show "pool_lists (cb ?\<sigma>) fs as ps" using s'(2) by simp
    show "\<forall>x\<in>set fs. AdditionalData (ObjPool (cb ?\<sigma>) ! unat x) = SL_MAX_SOCKETS"
    proof
      fix x
      assume "x \<in> set fs"
      moreover from this have "x \<noteq> i" using i(2) by auto
      ultimately show "AdditionalData (ObjPool (cb ?\<sigma>) ! unat x) = SL_MAX_SOCKETS" using ok s'(4) by simp
    qed
    show "owned (threads ?\<sigma> u) (cb ?\<sigma>)" for u using ow by simp
    show "u = v" if "index_of (threads ?\<sigma> u) = Some x" "index_of (threads ?\<sigma> v) = Some x" for u v x
      using that ok i(4) by (auto split: if_splits)
    have "(\<forall>u. index_of (threads ?\<sigma> u) \<noteq> Some x) \<longleftrightarrow> x \<noteq> i \<and> (\<forall>u. index_of (threads \<sigma> u) \<noteq> Some x)" for x
      using hp wp by (simp only: index_of_cases) blast
    then show "set fs = {x. x < MAX_CONCURRENT_ACTIONS \<and> (\<forall>u. index_of (threads ?\<sigma> u) \<noteq> Some x)}"
      using ok i(2) by auto
    show "set as = {x. \<exists>u. holdp x (threads \<sigma> u)}" using ok by simp
    show "set ps = {x. x \<notin> sems ?\<sigma> \<and> (x = i \<or> (\<exists>u. waitp x (threads \<sigma> u)))}" using ok nw by auto
    show "sems ?\<sigma> \<subseteq> {x. x = i \<or> (\<exists>u. waitp x (threads \<sigma> u))}" using ok by auto
    show "bit (ActiveActionsBitmap (cb ?\<sigma>)) n \<longleftrightarrow> (\<exists>u. holds \<sigma> u n)" for n using ok s'(3) by simp
    show "u = v" if "holds \<sigma> u n" "holds \<sigma> v n" for u v n using that ok by blast
  qed
  then show ?thesis using that s'(1) by blast
qed

text \<open>A woken thread looks again: it becomes active, or goes back to the pending list.\<close>

lemma wake_fresh:
  assumes "pool_ok \<sigma> fs as ps" "threads \<sigma> t = Waiting a k i" "i \<in> sems \<sigma>"
  shows "i < MAX_CONCURRENT_ACTIONS" "i \<notin> set (fs @ as @ ps)" "valid_req a k"
    "\<And>u. index_of (threads \<sigma> u) = Some i \<Longrightarrow> u = t" "\<And>u. \<not> holdp i (threads \<sigma> u)"
proof -
  note ok = assms(1) [unfolded pool_ok_def]
  have o: "owned (threads \<sigma> t) (cb \<sigma>)" using ok by simp
  then show "i < MAX_CONCURRENT_ACTIONS" "valid_req a k" using assms(2) by (simp_all add: owned_def)
  have ix: "index_of (threads \<sigma> t) = Some i" using assms(2) by simp
  show u: "u = t" if "index_of (threads \<sigma> u) = Some i" for u using ok ix that by blast
  show h: "\<not> holdp i (threads \<sigma> u)" for u
    using u [of u] assms(2) by (auto simp: index_of_cases)
  have "i \<notin> set fs" using ok ix by auto
  then show "i \<notin> set (fs @ as @ ps)" using ok h assms(3) by auto
qed

lemma wake_blocked_ok:
  assumes "pool_ok \<sigma> fs as ps" "threads \<sigma> t = Waiting a k i" "i \<in> sems \<sigma>" "action_busy a k (cb \<sigma>)"
  obtains s' where "wait_check a k i (cb \<sigma>) = (Wait_Blocked i, s')"
    "pool_ok (\<sigma>\<lparr>cb := s', threads := (threads \<sigma>)(t := Waiting a k i), sems := sems \<sigma> - {i}\<rparr>) fs as (i # ps)"
proof -
  note ok = assms(1) [unfolded pool_ok_def]
  note fr = wake_fresh [OF assms(1-3)]
  have L: "pool_lists (cb \<sigma>) fs as ps" using ok by simp
  obtain s' where s': "wait_check a k i (cb \<sigma>) = (Wait_Blocked i, s')" "pool_lists s' fs as (i # ps)" "same_loads (cb \<sigma>) s'"
    "ActiveActionsBitmap s' = ActiveActionsBitmap (cb \<sigma>)"
    using wait_check_blocked [OF L fr(1,2) assms(4)] by metis
  have th: "(threads \<sigma>)(t := Waiting a k i) = threads \<sigma>" using assms(2) by (simp add: fun_upd_idem)
  have hd: "holds (\<sigma>\<lparr>cb := s', threads := threads \<sigma>, sems := sems \<sigma> - {i}\<rparr>) u n \<longleftrightarrow> holds \<sigma> u n" for u n
    by (simp add: holds_def)
  have ad: "AdditionalData (ObjPool s' ! unat x) = AdditionalData (ObjPool (cb \<sigma>) ! unat x)" for x :: u8
    using s'(3) by (simp add: same_loads_def load_def)
  have "waitp i (threads \<sigma> t)" using assms(2) by simp
  then have "set (i # ps) = {x. x \<notin> sems \<sigma> - {i} \<and> (\<exists>u. waitp x (threads \<sigma> u))}" using ok by auto
  then have "pool_ok (\<sigma>\<lparr>cb := s', threads := threads \<sigma>, sems := sems \<sigma> - {i}\<rparr>) fs as (i # ps)"
    unfolding pool_ok_def hd using ok s'(2,4) by (auto simp: owned_cong [OF s'(3)] ad)
  then show ?thesis using that s'(1) th by simp
qed

lemma wake_active_ok:
  assumes "pool_ok \<sigma> fs as ps" "threads \<sigma> t = Waiting a k i" "i \<in> sems \<sigma>" "\<not> action_busy a k (cb \<sigma>)"
  obtains s' where "wait_check a k i (cb \<sigma>) = (Wait_Active i, s')"
    "pool_ok (\<sigma>\<lparr>cb := s', threads := (threads \<sigma>)(t := Holding a k i), sems := sems \<sigma> - {i}\<rparr>) fs (i # as) ps"
proof -
  note ok = assms(1) [unfolded pool_ok_def]
  note fr = wake_fresh [OF assms(1-3)]
  have L: "pool_lists (cb \<sigma>) fs as ps" using ok by simp
  obtain s' where s': "wait_check a k i (cb \<sigma>) = (Wait_Active i, s')" "pool_lists s' fs (i # as) ps" "same_loads (cb \<sigma>) s'"
    "ActiveActionsBitmap s' = ActiveActionsBitmap (cb \<sigma>) OR action_bit a k"
    using wait_check_active [OF L fr(1,2) assms(4)] by metis
  let ?\<sigma> = "\<sigma>\<lparr>cb := s', threads := (threads \<sigma>)(t := Holding a k i), sems := sems \<sigma> - {i}\<rparr>"
  have free: "\<not> holds \<sigma> u (req_bit a k)" for u
    using ok assms(4) action_busy_bit [OF fr(3)] by auto
  have hd: "holds ?\<sigma> u n \<longleftrightarrow> holds \<sigma> u n \<or> u = t \<and> n = req_bit a k" for u n
    using assms(2) by (auto simp: holds_def)
  have ix: "index_of (threads ?\<sigma> u) = index_of (threads \<sigma> u)" for u
    using assms(2) by simp
  have hp: "(\<exists>u. holdp x (threads ?\<sigma> u)) \<longleftrightarrow> i = x \<or> (\<exists>u. holdp x (threads \<sigma> u))" for x
    using ex_upd [of "holdp x" "threads \<sigma>" t "Holding a k i"] assms(2) by simp
  have wp: "(\<exists>u. waitp x (threads ?\<sigma> u)) \<longleftrightarrow> x \<noteq> i \<and> (\<exists>u. waitp x (threads \<sigma> u))" for x
  proof (cases "x = i")
    case True
    have "\<not> waitp i (threads ?\<sigma> u)" for u
      using fr(4) [of u] by (auto simp: index_of_cases)
    then show ?thesis using True by simp
  next
    case False
    then show ?thesis using ex_upd [of "waitp x" "threads \<sigma>" t "Holding a k i"] assms(2) by simp
  qed
  have ad: "AdditionalData (ObjPool s' ! unat x) = AdditionalData (ObjPool (cb \<sigma>) ! unat x)" for x :: u8
    using s'(3) by (simp add: same_loads_def load_def)
  have "owned (Waiting a k i) (cb \<sigma>)" using ok assms(2) by metis
  then have "owned (Holding a k i) (cb \<sigma>)" by (simp add: owned_def)
  then have ow: "owned (threads ?\<sigma> u) s'" for u using ok by (simp add: owned_cong [OF s'(3)])
  have "pool_ok ?\<sigma> fs (i # as) ps"
    unfolding pool_ok_def hd hp wp ix
  proof (intro conjI allI impI)
    show "pool_lists (cb ?\<sigma>) fs (i # as) ps" using s'(2) by simp
    show "\<forall>x\<in>set fs. AdditionalData (ObjPool (cb ?\<sigma>) ! unat x) = SL_MAX_SOCKETS" using ok by (simp add: ad)
    show "owned (threads ?\<sigma> u) (cb ?\<sigma>)" for u using ow by simp
    show "u = v" if "index_of (threads \<sigma> u) = Some x" "index_of (threads \<sigma> v) = Some x" for u v x using that ok by blast
    show "set fs = {x. x < MAX_CONCURRENT_ACTIONS \<and> (\<forall>u. index_of (threads \<sigma> u) \<noteq> Some x)}" using ok by blast
    show "set (i # as) = {x. i = x \<or> (\<exists>u. holdp x (threads \<sigma> u))}" using ok by auto
    show "set ps = {x. x \<notin> sems ?\<sigma> \<and> (x \<noteq> i \<and> (\<exists>u. waitp x (threads \<sigma> u)))}" using ok assms(3) by auto
    show "sems ?\<sigma> \<subseteq> {x. x \<noteq> i \<and> (\<exists>u. waitp x (threads \<sigma> u))}" using ok by auto
    show "bit (ActiveActionsBitmap (cb ?\<sigma>)) n \<longleftrightarrow> (\<exists>u. holds \<sigma> u n \<or> u = t \<and> n = req_bit a k)" for n
      using ok s'(4) action_bit_bit [OF fr(3)] by (auto simp: bit_simps)
    show "u = v" if "holds \<sigma> u n \<or> u = t \<and> n = req_bit a k" "holds \<sigma> v n \<or> v = t \<and> n = req_bit a k" for u v n
      using that ok free by blast
  qed
  then show ?thesis using that s'(1) by blast
qed

lemma set_take_off: "distinct ps \<Longrightarrow> set (take_off j ps) = set ps - set_option j"
  by (auto simp: take_off_def split: option.splits)

definition woken :: "SlDriverCb \<Rightarrow> u8 list \<Rightarrow> u8 \<Rightarrow> u8 option" where
  "woken s ps i = List.find (\<lambda>j. wakes (ObjPool s ! unat j) (ObjPool s ! unat i)) ps"

lemma woken_pending: "woken s ps i = Some j \<Longrightarrow> j \<in> set ps"
  by (auto simp: woken_def dest: find_remove1)

lemma release_ok:
  assumes "pool_ok \<sigma> fs as ps" "threads \<sigma> t = Holding a k i"
  obtains s' where "SlDrvReleasePoolObj i (cb \<sigma>) = Some (woken (cb \<sigma>) ps i, s')"
    "pool_ok (\<sigma>\<lparr>cb := s', threads := (threads \<sigma>)(t := Idle), sems := sems \<sigma> \<union> set_option (woken (cb \<sigma>) ps i)\<rparr>)
       (i # fs) (remove1 i as) (take_off (woken (cb \<sigma>) ps i) ps)"
proof -
  note ok = assms(1) [unfolded pool_ok_def]
  let ?j = "woken (cb \<sigma>) ps i"
  have L: "pool_lists (cb \<sigma>) fs as ps" using ok by simp
  have "holdp i (threads \<sigma> t)" using assms(2) by simp
  then have ia: "i \<in> set as" using ok by blast
  have ow: "owned (Holding a k i) (cb \<sigma>)" using ok assms(2) by metis
  have d: "distinct (fs @ as @ ps)" using L by (simp add: pool_lists_def)
  have un: "u = t" if "index_of (threads \<sigma> u) = Some i" for u
    using that ok assms(2) by (metis index_of_simps(3))
  obtain s' where s': "SlDrvReleasePoolObj i (cb \<sigma>) = Some (?j, s')" "pool_lists s' (i # fs) (remove1 i as) (take_off ?j ps)"
    "ActiveActionsBitmap s' = ActiveActionsBitmap (cb \<sigma>) AND NOT (push_bit (req_bit a k) 1)" "cleared (ObjPool s' ! unat i)"
    "\<And>y :: u8. y \<noteq> i \<Longrightarrow> load (ObjPool s' ! unat y) = load (ObjPool (cb \<sigma>) ! unat y)"
    using SlDrvReleasePoolObj_releases [OF L ia] owned_bit [OF ow] unfolding woken_def by auto
  let ?\<sigma> = "\<sigma>\<lparr>cb := s', threads := (threads \<sigma>)(t := Idle), sems := sems \<sigma> \<union> set_option ?j\<rparr>"
  have hd: "holds ?\<sigma> u n \<longleftrightarrow> holds \<sigma> u n \<and> u \<noteq> t" for u n by (simp add: holds_def)
  have ht: "holds \<sigma> t n \<longleftrightarrow> n = req_bit a k" for n using assms(2) by (simp add: holds_def)
  have hp: "(\<exists>u. holdp x (threads ?\<sigma> u)) \<longleftrightarrow> x \<noteq> i \<and> (\<exists>u. holdp x (threads \<sigma> u))" for x
  proof (cases "x = i")
    case True
    have "\<not> holdp i (threads ?\<sigma> u)" for u using un [of u] by (auto simp: index_of_cases)
    then show ?thesis using True by simp
  next
    case False
    then show ?thesis using ex_upd [of "holdp x" "threads \<sigma>" t Idle] assms(2) by simp
  qed
  have wp: "(\<exists>u. waitp x (threads ?\<sigma> u)) \<longleftrightarrow> (\<exists>u. waitp x (threads \<sigma> u))" for x
    using ex_upd [of "waitp x" "threads \<sigma>" t Idle] assms(2) by simp
  have nwi: "\<not> waitp i (threads \<sigma> u)" for u
    using un [of u] assms(2) by (auto simp: index_of_cases)
  have sj: "set_option ?j \<subseteq> set ps" by (auto dest: woken_pending)
  have "pool_ok ?\<sigma> (i # fs) (remove1 i as) (take_off ?j ps)"
    unfolding pool_ok_def hd hp wp
  proof (intro conjI allI impI)
    show "pool_lists (cb ?\<sigma>) (i # fs) (remove1 i as) (take_off ?j ps)" using s'(2) by simp
    show "\<forall>x\<in>set (i # fs). AdditionalData (ObjPool (cb ?\<sigma>) ! unat x) = SL_MAX_SOCKETS"
    proof
      fix x
      assume "x \<in> set (i # fs)"
      then show "AdditionalData (ObjPool (cb ?\<sigma>) ! unat x) = SL_MAX_SOCKETS"
        using s'(4) s'(5) [of x] ok by (cases "x = i") (auto simp: cleared_def load_def)
    qed
    show "owned (threads ?\<sigma> u) (cb ?\<sigma>)" for u
    proof (cases "u = t \<or> threads \<sigma> u = Idle")
      case False
      then have "idx (threads \<sigma> u) \<noteq> i" using un [of u] by (cases "threads \<sigma> u") auto
      then show ?thesis using ok s'(5) False by (auto simp: owned_def load_def)
    qed (auto simp: owned_def)
    show "u = v" if "index_of (threads ?\<sigma> u) = Some x" "index_of (threads ?\<sigma> v) = Some x" for u v x
      using that ok by (auto split: if_splits)
    have "(\<forall>u. index_of (threads ?\<sigma> u) \<noteq> Some x) \<longleftrightarrow> x = i \<or> (\<forall>u. index_of (threads \<sigma> u) \<noteq> Some x)" for x
      using hp [of x] wp [of x] nwi by (simp only: index_of_cases) blast
    moreover have "i < MAX_CONCURRENT_ACTIONS" using pool_lists_below [OF L] ia by blast
    ultimately show "set (i # fs) = {x. x < MAX_CONCURRENT_ACTIONS \<and> (\<forall>u. index_of (threads ?\<sigma> u) \<noteq> Some x)}"
      using ok by auto
    show "set (remove1 i as) = {x. x \<noteq> i \<and> (\<exists>u. holdp x (threads \<sigma> u))}" using ok d by auto
    show "set (take_off ?j ps) = {x. x \<notin> sems ?\<sigma> \<and> (\<exists>u. waitp x (threads \<sigma> u))}" using ok d by (auto simp: set_take_off)
    show "sems ?\<sigma> \<subseteq> {x. \<exists>u. waitp x (threads \<sigma> u)}" using ok sj by auto
    show "bit (ActiveActionsBitmap (cb ?\<sigma>)) n \<longleftrightarrow> (\<exists>u. holds \<sigma> u n \<and> u \<noteq> t)" for n
    proof -
      have "bit (ActiveActionsBitmap (cb ?\<sigma>)) n \<longleftrightarrow> bit (ActiveActionsBitmap (cb \<sigma>)) n \<and> n \<noteq> req_bit a k"
        using s'(3) bit_imp_le_length [of "ActiveActionsBitmap (cb \<sigma>)" n] by (auto simp: bit_simps)
      also have "\<dots> \<longleftrightarrow> (\<exists>u. holds \<sigma> u n) \<and> \<not> holds \<sigma> t n" using ok ht by blast
      also have "\<dots> \<longleftrightarrow> (\<exists>u. holds \<sigma> u n \<and> u \<noteq> t)" using ok by blast
      finally show ?thesis .
    qed
    show "u = v" if "holds \<sigma> u n \<and> u \<noteq> t" "holds \<sigma> v n \<and> v \<noteq> t" for u v n using that ok by blast
  qed
  then show ?thesis using that s'(1) by blast
qed

lemma free_not_signalled:
  assumes "pool_ok \<sigma> (i # fs) as ps"
  shows "i \<notin> sems \<sigma>"
proof -
  note ok = assms [unfolded pool_ok_def]
  have "i \<in> {i. i < MAX_CONCURRENT_ACTIONS \<and> (\<forall>t. index_of (threads \<sigma> t) \<noteq> Some i)}" using ok by auto
  then have "\<not> waitp i (threads \<sigma> u)" for u by (auto simp: index_of_cases)
  then show ?thesis using ok by auto
qed

text \<open>Entering is taking an object and being woken at once.\<close>

lemma enter_ok:
  assumes "pool_ok \<sigma> (i # fs) as ps" "threads \<sigma> t = Idle" "valid_req a k"
  obtains (blocked) s' where "\<exists>u. holds \<sigma> u (req_bit a k)" "wait_enter a k (cb \<sigma>) = Some (Wait_Blocked i, s')"
      "pool_ok (\<sigma>\<lparr>cb := s', threads := (threads \<sigma>)(t := Waiting a k i)\<rparr>) fs as (i # ps)"
  | (active) s' where "\<nexists>u. holds \<sigma> u (req_bit a k)" "wait_enter a k (cb \<sigma>) = Some (Wait_Active i, s')"
      "pool_ok (\<sigma>\<lparr>cb := s', threads := (threads \<sigma>)(t := Holding a k i)\<rparr>) fs (i # as) ps"
proof -
  obtain s1 where s1: "wait_enter a k (cb \<sigma>) = Some (wait_check a k i s1)"
    "pool_ok (\<sigma>\<lparr>cb := s1, threads := (threads \<sigma>)(t := Waiting a k i), sems := insert i (sems \<sigma>)\<rparr>) fs as ps"
    (is "pool_ok ?\<sigma> fs as ps")
    by (rule take_ok [OF assms])
  have w: "threads ?\<sigma> t = Waiting a k i" "i \<in> sems ?\<sigma>" and sm: "insert i (sems \<sigma>) - {i} = sems \<sigma>"
    using free_not_signalled [OF assms(1)] by auto
  have "holds ?\<sigma> u n \<longleftrightarrow> holds \<sigma> u n" for u n using assms(2) by (auto simp: holds_def)
  then have busy: "action_busy a k s1 \<longleftrightarrow> (\<exists>u. holds \<sigma> u (req_bit a k))"
    using s1(2) action_busy_bit [OF assms(3)] unfolding pool_ok_def by simp
  show ?thesis
  proof (cases "action_busy a k s1")
    case True
    have "action_busy a k (cb ?\<sigma>)" using True by simp
    from wake_blocked_ok [OF s1(2) w this] obtain s2 where "wait_check a k i s1 = (Wait_Blocked i, s2)"
      "pool_ok (\<sigma>\<lparr>cb := s2, threads := (threads \<sigma>)(t := Waiting a k i)\<rparr>) fs as (i # ps)"
      by (auto simp: sm)
    then show ?thesis using blocked [of s2] s1(1) busy True by simp
  next
    case False
    have "\<not> action_busy a k (cb ?\<sigma>)" using False by simp
    from wake_active_ok [OF s1(2) w this] obtain s2 where "wait_check a k i s1 = (Wait_Active i, s2)"
      "pool_ok (\<sigma>\<lparr>cb := s2, threads := (threads \<sigma>)(t := Holding a k i)\<rparr>) fs (i # as) ps"
      by (auto simp: sm)
    then show ?thesis using active [of s2] s1(1) busy False by simp
  qed
qed

lemma pool_ok_step:
  assumes "pool_ok \<sigma> fs as ps" "pool_step \<sigma> \<sigma>'"
  shows "\<exists>fs as ps. pool_ok \<sigma>' fs as ps"
  using assms(2)
proof cases
  case (step_wake t a k i r s')
  show ?thesis
  proof (cases "action_busy a k (cb \<sigma>)")
    case True
    then show ?thesis using wake_blocked_ok [OF assms(1) step_wake(2,3)] step_wake by (metis Pair_inject after.simps(2))
  next
    case False
    then show ?thesis using wake_active_ok [OF assms(1) step_wake(2,3)] step_wake by (metis Pair_inject after.simps(3))
  qed
next
  case (step_release t a k i j s')
  then show ?thesis using release_ok [OF assms(1) step_release(2)] by (metis Pair_inject option.inject)
next
  case (step_enter t a k r s')
  show ?thesis
  proof (cases fs)
    case Nil
    then have "wait_enter a k (cb \<sigma>) = Some (Wait_Empty, cb \<sigma>)"
      using assms(1) wait_enter_empty [of "cb \<sigma>" as ps] by (simp add: pool_ok_def)
    then have "\<sigma>' = \<sigma>" using step_enter by (simp add: fun_upd_idem)
    then show ?thesis using assms(1) by blast
  next
    case (Cons i fs')
    from assms(1) [unfolded Cons] step_enter(2,3) show ?thesis
    proof (cases rule: enter_ok)
      case (blocked s2)
      then show ?thesis using step_enter by auto
    next
      case (active s2)
      then show ?thesis using step_enter by auto
    qed
  qed
qed

lemma pool_ok_reaches: "pool_reaches s \<sigma> \<Longrightarrow> \<exists>fs as ps. pool_ok \<sigma> fs as ps"
  by (induction rule: pool_reaches.induct) (blast intro: pool_ok_start, blast dest: pool_ok_step)

text \<open>Two threads after one another: the first holds object 0, the second has to wait with object 1.\<close>

lemma two_requests:
  assumes "valid_req a k" "valid_req b l" "req_bit b l = req_bit a k"
  obtains \<sigma> :: "nat pool_sys" where "pool_reaches s \<sigma>"
    "threads \<sigma> = (\<lambda>_. Idle)(0 := Holding a k 0, 1 := Waiting b l 1)" "sems \<sigma> = {}"
    "pool_ok \<sigma> [2, 3, 4, 5, 6, 7, 8, 9] [0] [1]"
proof -
  let ?s = "pool_start s :: nat pool_sys"
  have st: "threads ?s 0 = Idle" and nh: "\<nexists>u. holds ?s u (req_bit a k)"
    by (simp_all add: pool_start_def holds_def)
  obtain s1 where s1: "wait_enter a k (cb ?s) = Some (Wait_Active 0, s1)"
    "pool_ok (?s\<lparr>cb := s1, threads := (threads ?s)(0 := Holding a k 0)\<rparr>) [1, 2, 3, 4, 5, 6, 7, 8, 9] [0] []"
    (is "pool_ok ?s1 _ _ _")
    using enter_ok [OF pool_ok_start st assms(1)] nh by metis
  have h1: "holds ?s1 0 (req_bit b l)" and i1: "threads ?s1 1 = Idle"
    using assms(3) by (simp_all add: holds_def pool_start_def)
  obtain s2 where s2: "wait_enter b l (cb ?s1) = Some (Wait_Blocked 1, s2)"
    "pool_ok (?s1\<lparr>cb := s2, threads := (threads ?s1)(1 := Waiting b l 1)\<rparr>) [2, 3, 4, 5, 6, 7, 8, 9] [0] [1]"
    (is "pool_ok ?s2 _ _ _")
    using enter_ok [OF s1(2) i1 assms(2)] h1 by metis
  have "pool_step ?s ?s1" using pool_step.step_enter [OF st assms(1) s1(1)] by simp
  moreover have "pool_step ?s1 ?s2" using pool_step.step_enter [OF i1 assms(2) s2(1)] by simp
  ultimately have "pool_reaches s ?s2" by (meson reaches_start reaches_step)
  then show ?thesis by (rule that) (use s2(2) in \<open>simp_all add: pool_start_def\<close>)
qed

lemma valid_requests: "valid_req (ucast RECV_ID) 3" "valid_req (ucast CONNECT_ID) 3"
  by (simp_all add: valid_req_def action_ids SL_MAX_SOCKETS_def)

lemma requests_bit: "req_bit (ucast RECV_ID) 3 = 3" "req_bit (ucast CONNECT_ID) 3 = 3"
  by (simp_all add: req_bit_def SL_MAX_SOCKETS_def)

section \<open>Properties\<close>

text \<open>
  C6. A socket is used by one thread at a time, and so is an action that involves no socket: whatever
  the threads do, two of them never hold an object for the same socket or the same such action.
\<close>

theorem pool_exclusive:
  assumes "pool_reaches s \<sigma>" "threads \<sigma> t = Holding a k i" "threads \<sigma> u = Holding b l j"
    "if k < SL_MAX_SOCKETS then l = k else \<not> l < SL_MAX_SOCKETS \<and> b = a"
  shows "t = u"
proof -
  obtain fs as ps where ok: "pool_ok \<sigma> fs as ps" using pool_ok_reaches [OF assms(1)] by blast
  have "req_bit a k = req_bit b l" using assms(4) by (auto simp: req_bit_def split: if_splits)
  then have "holds \<sigma> t (req_bit a k)" "holds \<sigma> u (req_bit a k)" using assms(2,3) by (auto simp: holds_def)
  then show ?thesis using ok unfolding pool_ok_def by blast
qed

text \<open>
  C7. No object is lost and none is handed out twice: in every reachable state each of the ten objects
  is either on the free list, once, or belongs to exactly one thread.
\<close>

theorem pool_no_leak:
  assumes "pool_reaches s \<sigma>"
  shows "\<exists>fs. linked (ObjPool (cb \<sigma>)) (FreePoolIdx (cb \<sigma>)) fs \<and> distinct fs \<and>
    set fs = {i. i < MAX_CONCURRENT_ACTIONS} - {i. \<exists>t. index_of (threads \<sigma> t) = Some i} \<and>
    inj_on (\<lambda>t. index_of (threads \<sigma> t)) {t. threads \<sigma> t \<noteq> Idle}"
proof -
  obtain fs as ps where ok: "pool_ok \<sigma> fs as ps" using pool_ok_reaches [OF assms] by blast
  have "set fs = {i. i < MAX_CONCURRENT_ACTIONS \<and> (\<forall>t. index_of (threads \<sigma> t) \<noteq> Some i)}"
    using ok unfolding pool_ok_def by blast
  moreover have "inj_on (\<lambda>t. index_of (threads \<sigma> t)) {t. threads \<sigma> t \<noteq> Idle}"
  proof (rule inj_onI)
    fix t u
    assume "t \<in> {t. threads \<sigma> t \<noteq> Idle}" and e: "index_of (threads \<sigma> t) = index_of (threads \<sigma> u)"
    then obtain i where "index_of (threads \<sigma> t) = Some i" by (cases "threads \<sigma> t") auto
    then show "t = u" using ok e unfolding pool_ok_def by metis
  qed
  ultimately show ?thesis using ok by (intro exI [of _ fs]) (auto simp: pool_ok_def pool_lists_def)
qed

text \<open>
  C24. Releasing an object always returns and gives back exactly what was taken: in a reachable state, a
  thread that releases the object it holds neither reads beyond the pool nor goes round a list for ever;
  afterwards the object is the first of the free list, its socket (or action) is not busy any more, and
  every other socket and action is as busy as it was.
\<close>

theorem release_gives_back:
  assumes "pool_reaches s \<sigma>" "threads \<sigma> t = Holding a k i"
  shows "\<exists>j s'. SlDrvReleasePoolObj i (cb \<sigma>) = Some (j, s') \<and> FreePoolIdx s' = i \<and>
    NextIndex (ObjPool s' ! unat i) = FreePoolIdx (cb \<sigma>) \<and> \<not> action_busy a k s' \<and>
    (\<forall>b l. valid_req b l \<and> req_bit b l \<noteq> req_bit a k \<longrightarrow> action_busy b l s' = action_busy b l (cb \<sigma>))"
proof -
  obtain fs as ps where ok: "pool_ok \<sigma> fs as ps" using pool_ok_reaches [OF assms(1)] by blast
  obtain s' where s': "SlDrvReleasePoolObj i (cb \<sigma>) = Some (woken (cb \<sigma>) ps i, s')"
    "pool_ok (\<sigma>\<lparr>cb := s', threads := (threads \<sigma>)(t := Idle), sems := sems \<sigma> \<union> set_option (woken (cb \<sigma>) ps i)\<rparr>)
       (i # fs) (remove1 i as) (take_off (woken (cb \<sigma>) ps i) ps)" (is "pool_ok ?\<sigma> _ _ _")
    by (rule release_ok [OF ok assms(2)])
  have v: "valid_req a k" using pool_ok_owned [OF ok, of t] assms(2) by (simp add: owned_def)
  have h: "holds ?\<sigma> u n \<longleftrightarrow> holds \<sigma> u n \<and> u \<noteq> t" for u n by (simp add: holds_def)
  have ht: "holds \<sigma> t n \<longleftrightarrow> n = req_bit a k" for n using assms(2) by (simp add: holds_def)
  have one: "holds \<sigma> u n \<Longrightarrow> holds \<sigma> u' n \<Longrightarrow> u = u'" for u u' n using ok unfolding pool_ok_def by blast
  have "pool_lists (cb ?\<sigma>) (i # fs) (remove1 i as) (take_off (woken (cb \<sigma>) ps i) ps)" "pool_lists (cb \<sigma>) fs as ps"
    using s'(2) ok unfolding pool_ok_def by blast+
  then have "linked (ObjPool s') (FreePoolIdx s') (i # fs)" and l: "linked (ObjPool (cb \<sigma>)) (FreePoolIdx (cb \<sigma>)) fs"
    by (simp_all add: pool_lists_def)
  then have f1: "FreePoolIdx s' = i" and l': "linked (ObjPool s') (NextIndex (ObjPool s' ! unat i)) fs" by simp_all
  have f: "NextIndex (ObjPool s' ! unat i) = FreePoolIdx (cb \<sigma>)"
    by (cases fs) (use l l' in \<open>simp_all only: linked.simps\<close>)
  have "\<not> action_busy a k s'"
    using pool_ok_busy [OF s'(2) v] h ht one by auto
  moreover have "action_busy b l s' = action_busy b l (cb \<sigma>)" if "valid_req b l" "req_bit b l \<noteq> req_bit a k" for b l
    using pool_ok_busy [OF s'(2) that(1)] pool_ok_busy [OF ok that(1)] h ht that(2) by auto
  ultimately show ?thesis using s'(1) f1 f by blast
qed

text \<open>
  C3. A thread that waits for what another thread holds, with the same action, is not forgotten: when
  the holder releases its object, one of the threads that wait for that action on that socket is woken,
  and as soon as it runs it becomes the new holder, if nobody else has come in between.
\<close>

theorem release_wakes_same_request:
  assumes "pool_reaches s \<sigma>" "threads \<sigma> t = Holding a k i" "threads \<sigma> u = Waiting a k j" "j \<notin> sems \<sigma>"
  shows "\<exists>v j s' s''. threads \<sigma> v = Waiting a k j \<and> SlDrvReleasePoolObj i (cb \<sigma>) = Some (Some j, s') \<and>
    wait_check a k j s' = (Wait_Active j, s'')"
proof -
  obtain fs as ps where ok: "pool_ok \<sigma> fs as ps" using pool_ok_reaches [OF assms(1)] by blast
  note ok' = ok [unfolded pool_ok_def]
  have oi: "owned (Holding a k i) (cb \<sigma>)" and oj: "owned (Waiting a k j) (cb \<sigma>)"
    using ok' assms(2,3) by metis+
  then have v: "valid_req a k" by (simp add: owned_def)
  have so: "socket_of (ObjPool (cb \<sigma>) ! unat x) = l" if "owned T (cb \<sigma>)" "T \<noteq> Idle" "idx T = x" "sock T = l" for T x l
    using that by (intro socket_of_valid) (auto simp: owned_def valid_req_def)
  have "waitp j (threads \<sigma> u)" using assms(3) by simp
  then have jp: "j \<in> set ps" using ok' assms(4) by blast
  have wj: "wakes (ObjPool (cb \<sigma>) ! unat j) (ObjPool (cb \<sigma>) ! unat i)"
    using oi oj so [OF oi] so [OF oj] v by (auto simp: wakes_def owned_def valid_req_def)
  obtain x where x: "woken (cb \<sigma>) ps i = Some x"
    using jp wj by (cases "woken (cb \<sigma>) ps i") (auto simp: woken_def find_None_iff)
  have xp: "x \<in> set ps" "wakes (ObjPool (cb \<sigma>) ! unat x) (ObjPool (cb \<sigma>) ! unat i)"
    using x by (auto simp: woken_def find_Some_iff)
  then have "x \<in> {x. x \<notin> sems \<sigma> \<and> (\<exists>u. waitp x (threads \<sigma> u))}" using ok' by blast
  then obtain w where "waitp x (threads \<sigma> w)" by blast
  then obtain b l where w: "threads \<sigma> w = Waiting b l x" by (cases "threads \<sigma> w") auto
  have ox: "owned (Waiting b l x) (cb \<sigma>)" using ok' w by metis
  have bl: "b = a" "l = k"
  proof -
    have e: "ucast b = (ucast a :: u8)" using xp(2) ox oi by (simp add: wakes_def owned_def)
    moreover have "unat (ucast c :: u8) = unat c" if "c < 16" for c :: u32
      using that by (intro unat_ucast_small) (simp add: word_less_nat_alt)
    ultimately show "b = a" using v ox by (metis owned_def thread_state.distinct(1) thread_state.sel(1) valid_req_def word_unat_eq_iff)
    have "l < SL_MAX_SOCKETS \<longleftrightarrow> k < SL_MAX_SOCKETS" using v ox e by (simp add: owned_def valid_req_def)
    then show "l = k" using xp(2) so [OF ox] so [OF oi] v ox
      by (auto simp: wakes_def owned_def valid_req_def)
  qed
  obtain s' where s': "SlDrvReleasePoolObj i (cb \<sigma>) = Some (Some x, s')"
    "pool_ok (\<sigma>\<lparr>cb := s', threads := (threads \<sigma>)(t := Idle), sems := sems \<sigma> \<union> {x}\<rparr>) (i # fs) (remove1 i as) (take_off (Some x) ps)"
    (is "pool_ok ?\<sigma> _ _ _")
    using release_ok [OF ok assms(2)] x by auto
  have "w \<noteq> t" using w assms(2) by auto
  then have wt: "threads ?\<sigma> w = Waiting a k x" "x \<in> sems ?\<sigma>" using w bl by simp_all
  have "\<not> holds ?\<sigma> y (req_bit a k)" for y
  proof
    assume "holds ?\<sigma> y (req_bit a k)"
    then have "holds \<sigma> y (req_bit a k)" "y \<noteq> t" by (cases "y = t"; simp add: holds_def)+
    moreover have "holds \<sigma> t (req_bit a k)" using assms(2) by (auto simp: holds_def)
    ultimately show False using ok' by blast
  qed
  then have "\<not> action_busy a k (cb ?\<sigma>)"
    using s'(2) action_busy_bit [OF v] unfolding pool_ok_def by blast
  then obtain s'' where "wait_check a k x (cb ?\<sigma>) = (Wait_Active x, s'')" using wake_active_ok [OF s'(2) wt] by metis
  then show ?thesis using w bl s'(1) by auto
qed

text \<open>A wake-up is lost between different actions on one socket: while thread 0 receives on socket 3,
  thread 1 asks for a connect on it and has to wait; when thread 0 is done nobody is woken, so that
  thread 1 sleeps although the socket is free and no other thread uses the driver.
\<close>

theorem release_forgets_other_action:
  "\<exists>\<sigma> :: nat pool_sys. pool_reaches s \<sigma> \<and> threads \<sigma> = (\<lambda>_. Idle)(1 := Waiting (ucast CONNECT_ID) 3 1) \<and>
     sems \<sigma> = {} \<and> \<not> action_busy (ucast CONNECT_ID) 3 (cb \<sigma>)"
proof -
  let ?r = "ucast RECV_ID :: u32" and ?c = "ucast CONNECT_ID :: u32"
  obtain \<sigma> :: "nat pool_sys" where \<sigma>: "pool_reaches s \<sigma>"
    "threads \<sigma> = (\<lambda>_. Idle)(0 := Holding ?r 3 0, 1 := Waiting ?c 3 1)" "sems \<sigma> = {}"
    "pool_ok \<sigma> [2, 3, 4, 5, 6, 7, 8, 9] [0] [1]"
    by (rule two_requests [OF valid_requests]) (simp add: requests_bit)
  have t: "threads \<sigma> 0 = Holding ?r 3 0" "threads \<sigma> 1 = Waiting ?c 3 1" using \<sigma>(2) by simp_all
  from pool_ok_owned [OF \<sigma>(4), of 0] pool_ok_owned [OF \<sigma>(4), of 1]
  have "ActionID (ObjPool (cb \<sigma>) ! unat (0 :: u8)) = RECV_ID" "ActionID (ObjPool (cb \<sigma>) ! unat (1 :: u8)) = CONNECT_ID"
    using t by (simp_all add: owned_def action_ids)
  then have nw: "woken (cb \<sigma>) [1] 0 = None" by (simp add: woken_def wakes_def action_ids)
  obtain s' where s': "SlDrvReleasePoolObj 0 (cb \<sigma>) = Some (None, s')"
    "pool_ok (\<sigma>\<lparr>cb := s', threads := (threads \<sigma>)(0 := Idle)\<rparr>) [0, 2, 3, 4, 5, 6, 7, 8, 9] [] [1]"
    (is "pool_ok ?\<sigma> _ _ _")
    using release_ok [OF \<sigma>(4) t(1)] nw by (auto simp: take_off_def)
  have "pool_step \<sigma> ?\<sigma>" using pool_step.step_release [OF t(1) s'(1)] by simp
  then have "pool_reaches s ?\<sigma>" using \<sigma>(1) reaches_step by blast
  moreover have th: "threads ?\<sigma> = (\<lambda>_. Idle)(1 := Waiting ?c 3 1)" using \<sigma>(2) by auto
  moreover have "sems ?\<sigma> = {}" using \<sigma>(3) by simp
  moreover have "\<not> holds ?\<sigma> u n" for u n using th by (simp add: holds_def)
  then have "\<not> action_busy ?c 3 (cb ?\<sigma>)" using pool_ok_busy [OF s'(2) valid_requests(2)] by blast
  ultimately show ?thesis by blast
qed

section \<open>Witnesses\<close>

theorem pool_exclusive_witness:
  "\<exists>\<sigma> :: nat pool_sys. pool_reaches (demo_pool 0) \<sigma> \<and> threads \<sigma> 0 = Holding (ucast RECV_ID) 3 0 \<and>
     threads \<sigma> 1 \<noteq> Holding (ucast CONNECT_ID) 3 1"
proof -
  obtain \<sigma> :: "nat pool_sys" where \<sigma>: "pool_reaches (demo_pool 0) \<sigma>"
    "threads \<sigma> = (\<lambda>_. Idle)(0 := Holding (ucast RECV_ID) 3 0, 1 := Waiting (ucast CONNECT_ID) 3 1)"
    by (rule two_requests [OF valid_requests]) (simp add: requests_bit)
  then have t: "threads \<sigma> 0 = Holding (ucast RECV_ID) 3 0" by simp
  have "threads \<sigma> 1 \<noteq> Holding (ucast CONNECT_ID) 3 1"
    using pool_exclusive [OF \<sigma>(1) t, of 1 "ucast CONNECT_ID" 3 1] by (auto simp: SL_MAX_SOCKETS_def)
  then show ?thesis using \<sigma>(1) t by blast
qed

theorem pool_no_leak_witness:
  "\<exists>fs. linked (ObjPool (cb (pool_start (demo_pool 0) :: nat pool_sys))) 0 fs \<and> distinct fs \<and>
     set fs = {i. i < MAX_CONCURRENT_ACTIONS}"
proof -
  have "FreePoolIdx (cb (pool_start (demo_pool 0) :: nat pool_sys)) = 0" by (simp add: pool_start_def SlDrvObjInit_def)
  moreover have "index_of (threads (pool_start (demo_pool 0) :: nat pool_sys) t) = None" for t by (simp add: pool_start_def)
  ultimately show ?thesis using pool_no_leak [OF reaches_start [of "demo_pool 0", where 't = nat]] by auto
qed

theorem release_gives_back_witness:
  "\<exists>(\<sigma> :: nat pool_sys) j s'. pool_reaches (demo_pool 0) \<sigma> \<and> threads \<sigma> 0 = Holding (ucast RECV_ID) 3 0 \<and>
     SlDrvReleasePoolObj 0 (cb \<sigma>) = Some (j, s') \<and> FreePoolIdx s' = 0 \<and> \<not> action_busy (ucast RECV_ID) 3 s'"
proof -
  obtain \<sigma> :: "nat pool_sys" where \<sigma>: "pool_reaches (demo_pool 0) \<sigma>"
    "threads \<sigma> = (\<lambda>_. Idle)(0 := Holding (ucast RECV_ID) 3 0, 1 := Waiting (ucast CONNECT_ID) 3 1)"
    by (rule two_requests [OF valid_requests]) (simp add: requests_bit)
  then have t: "threads \<sigma> 0 = Holding (ucast RECV_ID) 3 0" by simp
  from release_gives_back [OF \<sigma>(1) t] show ?thesis using \<sigma>(1) t by blast
qed

theorem release_wakes_same_request_witness:
  "\<exists>(\<sigma> :: nat pool_sys) s' s''. pool_reaches (demo_pool 0) \<sigma> \<and> SlDrvReleasePoolObj 0 (cb \<sigma>) = Some (Some 1, s') \<and>
     wait_check (ucast RECV_ID) 3 1 s' = (Wait_Active 1, s'')"
proof -
  obtain \<sigma> :: "nat pool_sys" where \<sigma>: "pool_reaches (demo_pool 0) \<sigma>"
    "threads \<sigma> = (\<lambda>_. Idle)(0 := Holding (ucast RECV_ID) 3 0, 1 := Waiting (ucast RECV_ID) 3 1)" "sems \<sigma> = {}"
    by (rule two_requests [OF valid_requests(1) valid_requests(1)]) simp
  then have t: "threads \<sigma> 0 = Holding (ucast RECV_ID) 3 0" "threads \<sigma> 1 = Waiting (ucast RECV_ID) 3 1" "1 \<notin> sems \<sigma>"
    by simp_all
  obtain v j s' s'' where r: "threads \<sigma> v = Waiting (ucast RECV_ID) 3 j" "SlDrvReleasePoolObj 0 (cb \<sigma>) = Some (Some j, s')"
    "wait_check (ucast RECV_ID) 3 j s' = (Wait_Active j, s'')"
    using release_wakes_same_request [OF \<sigma>(1) t] by blast
  have "j = 1" using r(1) \<sigma>(2) by (auto split: if_splits)
  then show ?thesis using \<sigma>(1) r by blast
qed

end
