(* ===== verification/Sl_Msg.thy ===== *)
theory Sl_Msg
  imports Sl_Pool
begin

text \<open>
  Messages between the SimpleLink host driver and the network processor (\<open>driver.c\<close>, SPI build): the
  writer of commands, the scanner for the synchronisation pattern and the reader of messages.  The bus
  and the operating system are a record of operations on a world; an assertion that fails, which spins
  for ever (\<open>trace.h\<close>), and an access beyond a buffer are \<open>None\<close>.
\<close>

section \<open>The outside\<close>

datatype lock_obj = GlobalLockObj | ProtectionLockObj | TxLockObj
datatype sync_obj = CmdSyncObj | TxSyncObj | ObjSync u8

datatype osi_call =
    LockCreate lock_obj | LockDelete lock_obj | LockLock lock_obj | LockUnlock lock_obj
  | SyncCreate sync_obj | SyncDelete sync_obj | SyncSignal sync_obj | SyncClear sync_obj

text \<open>
  A read gives its result and the bytes it stored; a wait may change the control block, which is where
  interrupts and other threads run.  \<open>stack_byte\<close> is what a local variable holds before it is assigned.
\<close>

record 'w app_ops =
  event_callback :: "app_call \<Rightarrow> SlDriverCb \<Rightarrow> 'w \<Rightarrow> (SlDriverCb \<times> 'w) option"
  token_callback :: "u8 list \<Rightarrow> u8 \<Rightarrow> SlDriverCb \<Rightarrow> 'w \<Rightarrow> (token_reply \<times> SlDriverCb \<times> 'w) option"

record 'w host_ops =
  if_read :: "int \<Rightarrow> 'w \<Rightarrow> int \<times> u8 list \<times> 'w"
  if_write :: "u8 list \<Rightarrow> int \<Rightarrow> 'w \<Rightarrow> int \<times> 'w"
  if_unmask :: "'w \<Rightarrow> 'w"
  if_mask :: "'w \<Rightarrow> 'w"
  osi :: "osi_call \<Rightarrow> 'w \<Rightarrow> int \<times> 'w"
  osi_wait :: "sync_obj \<Rightarrow> SlDriverCb \<Rightarrow> 'w \<Rightarrow> (int \<times> SlDriverCb \<times> 'w) option"
  osi_spawn :: "'w \<Rightarrow> 'w"
  sl_malloc :: "'w \<Rightarrow> bool \<times> 'w"
  sl_free :: "'w \<Rightarrow> 'w"
  callbacks :: "'w app_ops"
  stack_byte :: "nat \<Rightarrow> u8"

definition i16 :: "int \<Rightarrow> int" where
  "i16 n = sint (word_of_int n :: u16)"

text \<open>\<open>NWP_IF_READ_CHECK\<close>, \<open>NWP_IF_WRITE_CHECK\<close> and \<open>OSI_RET_OK_CHECK\<close>.\<close>

definition nwp_read :: "'w host_ops \<Rightarrow> nat \<Rightarrow> 'w \<Rightarrow> (u8 list \<times> 'w) option" where
  "nwp_read ops n w =
     (let (RetSize, xs, w1) = if_read ops (i16 (int n)) w in if i16 (int n) = RetSize then Some (xs, w1) else None)"

definition nwp_write :: "'w host_ops \<Rightarrow> u8 list \<Rightarrow> nat \<Rightarrow> 'w \<Rightarrow> 'w option" where
  "nwp_write ops buf n w = do {
     xs \<leftarrow> peek 0 n buf;
     let (RetSize, w1) = if_write ops xs (i16 (int n)) w;
     if i16 (int n) = RetSize then Some w1 else None
   }"

text \<open>Reading \<open>n\<close> bytes to an offset in a buffer.\<close>

definition read_at :: "'w host_ops \<Rightarrow> nat \<Rightarrow> nat \<Rightarrow> u8 list \<Rightarrow> 'w \<Rightarrow> (u8 list \<times> 'w) option" where
  "read_at ops i n buf w = do { (xs, w1) \<leftarrow> nwp_read ops n w; buf1 \<leftarrow> poke i xs buf; Some (buf1, w1) }"

definition osi_ok :: "'w host_ops \<Rightarrow> osi_call \<Rightarrow> 'w \<Rightarrow> 'w option" where
  "osi_ok ops c w = (let (r, w1) = osi ops c w in if r = 0 then Some w1 else None)"

definition osi_wait_ok :: "'w host_ops \<Rightarrow> sync_obj \<Rightarrow> SlDriverCb \<Rightarrow> 'w \<Rightarrow> (SlDriverCb \<times> 'w) option" where
  "osi_wait_ok ops c s w = do { (r, s1, w1) \<leftarrow> osi_wait ops c s w; if r = 0 then Some (s1, w1) else None }"

section \<open>Encoding\<close>

definition align4 :: "nat \<Rightarrow> nat" where
  "align4 n = (n + 3) div 4 * 4"

definition align32 :: "u32 \<Rightarrow> u32" where
  "align32 n = (n + 3) AND NOT 3"

definition le16 :: "u16 \<Rightarrow> u8 list" where
  "le16 v = [ucast v, ucast (drop_bit 8 v)]"

definition rd16 :: "nat \<Rightarrow> u8 list \<Rightarrow> u16" where
  "rd16 i xs = ucast (xs ! i) OR push_bit 8 (ucast (xs ! (i + 1)))"

definition rd32 :: "u8 list \<Rightarrow> u32" where
  "rd32 xs = ucast (xs ! 0) OR push_bit 8 (ucast (xs ! 1)) OR push_bit 16 (ucast (xs ! 2)) OR push_bit 24 (ucast (xs ! 3))"

text \<open>The 16-bit patterns as they lie in memory: \<open>Short\<close>, \<open>Byte1\<close>, \<open>Byte2\<close>.\<close>

definition H2N_SYNC :: "u8 list" where "H2N_SYNC = [0x21, 0x43, 0x34, 0x12]"
definition H2N_CNYS :: "u8 list" where "H2N_CNYS = [0x65, 0x87, 0x78, 0x56]"
definition SYNC_PATTERN_LEN :: nat where "SYNC_PATTERN_LEN = 4"

definition N2H_SYNC_PATTERN :: u32 where "N2H_SYNC_PATTERN = 0xABCDDCBA"
definition N2H_SYNC_PATTERN_SEQ_NUM_BITS :: u32 where "N2H_SYNC_PATTERN_SEQ_NUM_BITS = 3"
definition N2H_SYNC_PATTERN_SEQ_NUM_EXISTS :: u32 where "N2H_SYNC_PATTERN_SEQ_NUM_EXISTS = 4"
definition N2H_SYNC_PATTERN_MASK :: u32 where "N2H_SYNC_PATTERN_MASK = 0xFFFFFFF8"
definition N2H_SYNC_SPI_BUGS_MASK :: u32 where "N2H_SYNC_SPI_BUGS_MASK = 0x7FFF7F7F"
definition N2H_SYNC_SPIM :: u32 where "N2H_SYNC_SPIM = N2H_SYNC_PATTERN AND N2H_SYNC_SPI_BUGS_MASK"

definition N2H_SYNC_SPIM_WITH_SEQ :: "u8 \<Rightarrow> u32" where
  "N2H_SYNC_SPIM_WITH_SEQ seq = (N2H_SYNC_SPIM AND N2H_SYNC_PATTERN_MASK) OR N2H_SYNC_PATTERN_SEQ_NUM_EXISTS
     OR (ucast seq AND N2H_SYNC_PATTERN_SEQ_NUM_BITS)"

definition sync_match :: "u8 list \<Rightarrow> u8 \<Rightarrow> bool" where
  "sync_match buf seq \<longleftrightarrow>
     (let v = rd32 buf; m = v AND N2H_SYNC_SPI_BUGS_MASK in
      if v AND N2H_SYNC_PATTERN_SEQ_NUM_EXISTS \<noteq> 0 then m = N2H_SYNC_SPIM_WITH_SEQ seq else m = N2H_SYNC_SPIM)"

section \<open>Writing\<close>

definition calc_len :: "SlCmdCtrl \<Rightarrow> SlCmdExt option \<Rightarrow> u16" where
  "calc_len ctrl ext = of_nat (case ext of
       Some e \<Rightarrow> align4 (unat (TxDescLen ctrl)) + align4 (unat (TxPayloadLen e))
     | None \<Rightarrow> align4 (unat (TxDescLen ctrl)))"

definition SlDrvMsgWrite :: "'w host_ops \<Rightarrow> SlDriverCb \<Rightarrow> 'w \<Rightarrow> (int \<times> SlDriverCb \<times> 'w) option" where
  "SlDrvMsgWrite ops s w = do {
     ctrl \<leftarrow> pCmdCtrl s;
     let s1 = s\<lparr>hdr_Opcode := Opcode ctrl, hdr_Len := calc_len ctrl (pCmdExt s)\<rparr>;
     s2 \<leftarrow> (if RelayFlagsViaRxPayload s1
           then do { e \<leftarrow> pCmdExt s1; Some (s1\<lparr>hdr_Len := hdr_Len s1 + RxPayloadLen e\<rparr>) } else Some s1);
     w1 \<leftarrow> nwp_write ops H2N_SYNC SYNC_PATTERN_LEN w;
     w2 \<leftarrow> nwp_write ops (le16 (hdr_Opcode s2) @ le16 (hdr_Len s2)) 4 w1;
     w3 \<leftarrow> (case pTxRxDescBuff s2 of
              Some buf \<Rightarrow> if 0 < TxDescLen ctrl then nwp_write ops buf (align4 (unat (TxDescLen ctrl))) w2 else Some w2
            | None \<Rightarrow> Some w2);
     (s3, w4) \<leftarrow> (if RelayFlagsViaRxPayload s2 then do {
              e \<leftarrow> pCmdExt s2;
              rx \<leftarrow> pRxPayload e;
              w' \<leftarrow> nwp_write ops rx (align4 (unat (RxPayloadLen e))) w3;
              Some (s2\<lparr>RelayFlagsViaRxPayload := False\<rparr>, w')
            }
            else Some (s2, w3));
     w5 \<leftarrow> (case pCmdExt s3 of
              Some e \<Rightarrow> if 0 < TxPayloadLen e then
                  if TxDescLen ctrl AND 3 = 0 then nwp_write ops (pTxPayload e) (align4 (unat (TxPayloadLen e))) w4 else None
                else Some w4
            | None \<Rightarrow> Some w4);
     Some (0, s3, w5)
   }"

section \<open>Reading the header\<close>

definition SL_SYNC_SCAN_THRESHOLD :: nat where "SL_SYNC_SCAN_THRESHOLD = 2000"

definition SlDrvShiftDWord :: "u8 list \<Rightarrow> u8 list" where
  "SlDrvShiftDWord pBuf = map (\<lambda>i. pBuf ! (i + 1)) [0..<7] @ [0]"

partial_function (option) sync_scan :: "'w host_ops \<Rightarrow> u8 \<Rightarrow> nat \<Rightarrow> u8 list \<Rightarrow> 'w \<Rightarrow> (nat \<times> u8 list \<times> 'w) option" where
  "sync_scan ops seq SyncCnt pBuf w =
     (if sync_match pBuf seq then Some (SyncCnt, pBuf, w)
      else if SyncCnt < SL_SYNC_SCAN_THRESHOLD then do {
        (buf1, w1) \<leftarrow> (if SyncCnt mod SYNC_PATTERN_LEN = 0
          then read_at ops 4 4 pBuf w else Some (pBuf, w));
        sync_scan ops seq (SyncCnt + 1) (SlDrvShiftDWord buf1) w1
      }
      else None)"

partial_function (option) double_sync :: "'w host_ops \<Rightarrow> u8 \<Rightarrow> u8 list \<Rightarrow> 'w \<Rightarrow> (u8 list \<times> 'w) option" where
  "double_sync ops seq pBuf w =
     (if sync_match pBuf seq then do {
        (buf1, w1) \<leftarrow> read_at ops 0 SYNC_PATTERN_LEN pBuf w;
        double_sync ops seq buf1 w1
      }
      else Some (pBuf, w))"

text \<open>The header of eight bytes with the number of bytes that pad the message; what the buffer held
  before is overwritten before it is looked at.\<close>

definition SlDrvRxHdrRead :: "'w host_ops \<Rightarrow> SlDriverCb \<Rightarrow> 'w \<Rightarrow> (u8 list \<times> nat \<times> SlDriverCb \<times> 'w) option" where
  "SlDrvRxHdrRead ops s w = do {
     w1 \<leftarrow> nwp_write ops H2N_CNYS SYNC_PATTERN_LEN w;
     (buf1, w2) \<leftarrow> read_at ops 0 4 (replicate 8 0) w1;
     (SyncCnt, buf2, w3) \<leftarrow> sync_scan ops (TxSeqNum s) 0 buf1 w2;
     let c = SyncCnt mod SYNC_PATTERN_LEN;
     (buf3, w4) \<leftarrow> (if 0 < c then read_at ops (SYNC_PATTERN_LEN - c) c (drop 4 buf2 @ drop 4 buf2) w3
       else read_at ops 0 4 buf2 w3);
     (buf4, w5) \<leftarrow> double_sync ops (TxSeqNum s) buf3 w4;
     let s1 = s\<lparr>TxSeqNum := TxSeqNum s + 1\<rparr>;
     (buf5, w6) \<leftarrow> read_at ops SYNC_PATTERN_LEN 4 buf4 w5;
     Some (buf5, if 0 < c then SYNC_PATTERN_LEN - c else 0, s1, w6)
   }"

end
