(* ===== verification/Sl_Read.thy ===== *)
theory Sl_Read
  imports Sl_Msg
begin

text \<open>
  Reading a message of the network processor and what follows from it (\<open>driver.c\<close>): asynchronous
  events, received data, responses to commands; then the commands themselves, which write a message
  and read until the response has come, and the two data operations with their flow control.
\<close>

section \<open>Payloads\<close>

definition SL_ASYNC_MAX_PAYLOAD_LEN :: nat where "SL_ASYNC_MAX_PAYLOAD_LEN = 160"
definition RECV_ARGS_SIZE :: nat where "RECV_ARGS_SIZE = 4"
definition RECVFROM_IPV4_ARGS_SIZE :: nat where "RECVFROM_IPV4_ARGS_SIZE = 12"
definition RECVFROM_IPV6_ARGS_SIZE :: nat where "RECVFROM_IPV6_ARGS_SIZE = 24"

text \<open>\<open>RSP_PAYLOAD_LEN\<close>, an unsigned difference.\<close>

definition RSP_PAYLOAD_LEN :: "u8 list \<Rightarrow> u32" where
  "RSP_PAYLOAD_LEN hdr = ucast (rd16 2 hdr) - 4"

text \<open>Words of four bytes read and thrown away while the 16-bit counter is not zero.\<close>

partial_function (option) dump_rest :: "'w host_ops \<Rightarrow> u16 \<Rightarrow> 'w \<Rightarrow> 'w option" where
  "dump_rest ops n w =
     (if 0 < n then do { (xs, w1) \<leftarrow> read_at ops 0 4 (replicate 4 0) w; dump_rest ops (n - 4) w1 } else Some w)"

text \<open>Data of \<open>n\<close> bytes: the part of whole words into the buffer, the rest by way of a word of its own.\<close>

definition read_data :: "'w host_ops \<Rightarrow> nat \<Rightarrow> u8 list \<Rightarrow> 'w \<Rightarrow> (u8 list \<times> 'w) option" where
  "read_data ops n buf w = do {
     let AlignedLengthRecv = n - n mod 4;
     (buf1, w1) \<leftarrow> (if 4 \<le> AlignedLengthRecv then read_at ops 0 AlignedLengthRecv buf w else Some (buf, w));
     if 0 < n mod 4 then do {
       (TailBuffer, w2) \<leftarrow> read_at ops 0 4 (replicate 4 0) w1;
       buf2 \<leftarrow> poke AlignedLengthRecv (take (n mod 4) TailBuffer) buf1;
       Some (buf2, w2)
     }
     else Some (buf1, w1)
   }"

section \<open>Messages\<close>

definition event_sd :: "u16 \<Rightarrow> u8 list \<Rightarrow> u8" where
  "event_sd op buf =
     (if op = SL_OPCODE_SOCKET_ACCEPTASYNCRESPONSE \<or> op = SL_OPCODE_SOCKET_ACCEPTASYNCRESPONSE_V6 \<or>
         op = SL_OPCODE_SOCKET_CONNECTASYNCRESPONSE
      then (buf ! 10) AND BSD_SOCKET_ID_MASK else SL_MAX_SOCKETS)"

definition read_async :: "'w host_ops \<Rightarrow> u8 list \<Rightarrow> SlDriverCb \<Rightarrow> 'w \<Rightarrow> (SlDriverCb \<times> 'w) option" where
  "read_async ops hdr s w =
     (if pAsyncBuf s \<noteq> None then None
      else do {
        let (ok, w1) = sl_malloc ops w;
        if \<not> ok then None
        else do {
          let buf0 = hdr @ replicate SL_ASYNC_MAX_PAYLOAD_LEN 0;
          let len = align32 (RSP_PAYLOAD_LEN hdr);
          let fits = (len \<le> of_nat SL_ASYNC_MAX_PAYLOAD_LEN);
          let AlignedLengthRecv = (if fits then unat (ucast len :: u16) else align4 SL_ASYNC_MAX_PAYLOAD_LEN);
          (buf1, w2) \<leftarrow> (if 0 < RSP_PAYLOAD_LEN hdr then read_at ops 8 AlignedLengthRecv buf0 w1 else Some (buf0, w1));
          w3 \<leftarrow> (if fits then Some w2 else dump_rest ops (ucast (len - of_nat SL_ASYNC_MAX_PAYLOAD_LEN)) w2);
          w4 \<leftarrow> osi_ok ops (LockLock ProtectionLockObj) w3;
          let op = rd16 0 hdr;
          (r, s1) \<leftarrow> SlFindAndSetActiveObj op (event_sd op buf1) (s\<lparr>pAsyncBuf := Some buf1\<rparr>);
          w5 \<leftarrow> osi_ok ops (LockUnlock ProtectionLockObj) w4;
          Some (s1, w5)
        }
      })"

definition exp_arg_size :: "u16 \<Rightarrow> nat" where
  "exp_arg_size op =
     (if op = SL_OPCODE_SOCKET_RECVFROMASYNCRESPONSE then RECVFROM_IPV4_ARGS_SIZE
      else if op = SL_OPCODE_SOCKET_RECVFROMASYNCRESPONSE_V6 then RECVFROM_IPV6_ARGS_SIZE
      else RECV_ARGS_SIZE)"

text \<open>The response \<open>statusOrLen\<close>, \<open>sd\<close> lies behind the generic header of the buffer.\<close>

definition read_recv :: "'w host_ops \<Rightarrow> u8 list \<Rightarrow> SlDriverCb \<Rightarrow> 'w \<Rightarrow> (SlDriverCb \<times> 'w) option" where
  "read_recv ops hdr s w = do {
     let op = rd16 0 hdr;
     (buf, w1) \<leftarrow> read_at ops 4 RECV_ARGS_SIZE hdr w;
     let sd = (buf ! 6) AND BSD_SOCKET_ID_MASK;
     if \<not> sd < SL_MAX_SOCKETS then None
     else do {
       w2 \<leftarrow> osi_ok ops (LockLock ProtectionLockObj) w1;
       (r, s1) \<leftarrow> SlFindAndSetActiveObj op sd s;
       if r \<noteq> 0 then None
       else do {
         obj \<leftarrow> get_obj (ActionIndex s1) s1;
         (args, dat) \<leftarrow> (case pRespArgs obj of RecvArgs a d \<Rightarrow> Some (a, d) | _ \<Rightarrow> None);
         args1 \<leftarrow> poke 0 (take RECV_ARGS_SIZE (drop 4 buf)) args;
         (args2, w3) \<leftarrow> (if RECV_ARGS_SIZE < exp_arg_size op
           then read_at ops RECV_ARGS_SIZE (exp_arg_size op - RECV_ARGS_SIZE) args1 w2 else Some (args1, w2));
         let statusOrLen = sint (rd16 4 buf);
         (dat1, w4) \<leftarrow> (if 0 < statusOrLen then read_data ops (nat statusOrLen) dat w3 else Some (dat, w3));
         let s2 = set_obj (ActionIndex s1) (\<lambda>p. p\<lparr>pRespArgs := RecvArgs args2 dat1\<rparr>) s1;
         w5 \<leftarrow> osi_ok ops (SyncSignal (ObjSync (ActionIndex s1))) w4;
         w6 \<leftarrow> osi_ok ops (LockUnlock ProtectionLockObj) w5;
         Some (s2, w6)
       }
     }
   }"

text \<open>The payload of a response, as much of it as the caller has room for.\<close>

definition read_rx_payload :: "'w host_ops \<Rightarrow> u8 list \<Rightarrow> SlCmdCtrl \<Rightarrow> SlCmdExt \<Rightarrow> 'w \<Rightarrow> (SlCmdExt \<times> 'w) option" where
  "read_rx_payload ops hdr ctrl e w = do {
     let ActDataSize = sint (ucast (RSP_PAYLOAD_LEN hdr - ucast (RxDescLen ctrl)) :: u16);
     let e1 = e\<lparr>ActualRxPayloadLen := word_of_int ActDataSize\<rparr>;
     if ActDataSize \<le> 0 then Some (e1\<lparr>RxPayloadLen := 0\<rparr>, w)
     else do {
       rx \<leftarrow> pRxPayload e1;
       let n = (if int (unat (RxPayloadLen e1)) < ActDataSize then unat (RxPayloadLen e1) else nat ActDataSize);
       (rx1, w1) \<leftarrow> read_data ops n rx w;
       let rest = (if 0 < n mod 4 then i16 (ActDataSize - 4) else ActDataSize);
       w2 \<leftarrow> (if int (unat (RxPayloadLen e1)) < rest
         then dump_rest ops (word_of_int (rest - int (unat (RxPayloadLen e1) - unat (RxPayloadLen e1) mod 4))) w1 else Some w1);
       Some (e1\<lparr>pRxPayload := Some rx1\<rparr>, w2)
     }
   }"

definition read_cmd_resp :: "'w host_ops \<Rightarrow> u8 list \<Rightarrow> SlDriverCb \<Rightarrow> 'w \<Rightarrow> (SlDriverCb \<times> 'w) option" where
  "read_cmd_resp ops hdr s w = do {
     ctrl \<leftarrow> pCmdCtrl s;
     (desc, w1) \<leftarrow> read_at ops 0 (align4 (unat (RxDescLen ctrl))) (case pTxRxDescBuff s of Some b \<Rightarrow> b | None \<Rightarrow> []) w;
     let s1 = s\<lparr>pTxRxDescBuff := map_option (\<lambda>_. desc) (pTxRxDescBuff s)\<rparr>;
     case pCmdExt s1 of
       Some e \<Rightarrow> if RxPayloadLen e \<noteq> 0 then do {
           (e1, w2) \<leftarrow> read_rx_payload ops hdr ctrl e w1;
           Some (s1\<lparr>pCmdExt := Some e1\<rparr>, w2)
         }
         else Some (s1, w1)
     | None \<Rightarrow> Some (s1, w1)
   }"

definition SlDrvMsgRead :: "'w host_ops \<Rightarrow> SlDriverCb \<Rightarrow> 'w \<Rightarrow> (int \<times> SlDriverCb \<times> 'w) option" where
  "SlDrvMsgRead ops s w = do {
     (hdr, AlignSize, s1, w1) \<leftarrow> SlDrvRxHdrRead ops s w;
     let op = rd16 0 hdr;
     (s2, w2) \<leftarrow> (if op \<noteq> SL_OPCODE_DEVICE_INITCOMPLETE then do {
         let s' = s1\<lparr>TxPoolCnt := hdr ! 4, SocketNonBlocking := hdr ! 7, SocketTXFailure := hdr ! 6\<rparr>;
         w' \<leftarrow> (if FLOW_CONT_MIN < TxPoolCnt s' then osi_ok ops (SyncSignal TxSyncObj) w1 else Some w1);
         Some (s', w')
       }
       else Some (s1, w1));
     let s3 = SlDrvClassifyRxMsg op s2;
     (s4, w4) \<leftarrow> (case RxMsgClass s3 of
         Some ASYNC_EVT_CLASS \<Rightarrow> read_async ops hdr s3 w2
       | Some RECV_RESP_CLASS \<Rightarrow> read_recv ops hdr s3 w2
       | Some CMD_RESP_CLASS \<Rightarrow> read_cmd_resp ops hdr s3 w2
       | _ \<Rightarrow> Some (s3, w2));
     w5 \<leftarrow> (if 0 < AlignSize then do { (b, w') \<leftarrow> read_at ops 0 AlignSize hdr w4; Some w' } else Some w4);
     Some (0, s4, if_unmask ops w5)
   }"

end
