(* ===== verification/Sl_Event.thy ===== *)
theory Sl_Event
  imports Sl_Read
begin

text \<open>
  What the host driver does with an asynchronous message (\<open>_SlAsyncEventGenericHandler\<close> in \<open>driver.c\<close>):
  it answers a waiting thread, or turns the message into the event structure of an application
  handler, copying strings whose lengths the message gives; the handlers of \<open>device.c\<close> and
  \<open>netapp.c\<close>, with the HTTP tokens of the internal server, are here too.  Structures are the bytes
  they occupy, so that a length that is too large shows where the bytes go.
\<close>

section \<open>Sending without waiting, releasing an object\<close>

definition set_params :: "SlCmdCtrl \<Rightarrow> u8 list option \<Rightarrow> SlCmdExt option \<Rightarrow> SlDriverCb \<Rightarrow> SlDriverCb" where
  "set_params ctrl desc ext s = s\<lparr>pCmdCtrl := Some ctrl, pTxRxDescBuff := desc, pCmdExt := ext\<rparr>"

definition SlDrvCmdSend ::
  "'w host_ops \<Rightarrow> SlCmdCtrl \<Rightarrow> u8 list option \<Rightarrow> SlCmdExt option \<Rightarrow> SlDriverCb \<Rightarrow> 'w \<Rightarrow> (int \<times> SlDriverCb \<times> 'w) option" where
  "SlDrvCmdSend ops ctrl desc ext s w = SlDrvMsgWrite ops (set_params ctrl desc ext (s\<lparr>IsCmdRespWaited := False\<rparr>)) w"

definition release_pool_obj :: "'w host_ops \<Rightarrow> u8 \<Rightarrow> SlDriverCb \<Rightarrow> 'w \<Rightarrow> (SlDriverCb \<times> 'w) option" where
  "release_pool_obj ops i s w = do {
     w1 \<leftarrow> osi_ok ops (LockLock ProtectionLockObj) w;
     (signalled, s1) \<leftarrow> SlDrvReleasePoolObj i s;
     w2 \<leftarrow> (case signalled of Some j \<Rightarrow> osi_ok ops (SyncSignal (ObjSync j)) w1 | None \<Rightarrow> Some w1);
     w3 \<leftarrow> osi_ok ops (LockUnlock ProtectionLockObj) w2;
     Some (s1, w3)
   }"

section \<open>Opcodes and event numbers\<close>

definition SL_OPCODE_DEVICE_DEVICEASYNCFATALERROR :: u16 where "SL_OPCODE_DEVICE_DEVICEASYNCFATALERROR = 0x0078"
definition SL_OPCODE_WLAN_WLANASYNCCONNECTEDRESPONSE :: u16 where "SL_OPCODE_WLAN_WLANASYNCCONNECTEDRESPONSE = 0x0880"
definition SL_OPCODE_WLAN_WLANASYNCDISCONNECTEDRESPONSE :: u16 where "SL_OPCODE_WLAN_WLANASYNCDISCONNECTEDRESPONSE = 0x0881"
definition SL_OPCODE_WLAN_P2P_DEV_FOUND :: u16 where "SL_OPCODE_WLAN_P2P_DEV_FOUND = 0x0830"
definition SL_OPCODE_WLAN_CONNECTION_FAILED :: u16 where "SL_OPCODE_WLAN_CONNECTION_FAILED = 0x0831"
definition SL_OPCODE_WLAN_P2P_NEG_REQ_RECEIVED :: u16 where "SL_OPCODE_WLAN_P2P_NEG_REQ_RECEIVED = 0x0832"
definition SL_OPCODE_WLAN_SMART_CONFIG_START_ASYNC_RESPONSE :: u16 where "SL_OPCODE_WLAN_SMART_CONFIG_START_ASYNC_RESPONSE = 0x08B2"
definition SL_OPCODE_WLAN_SMART_CONFIG_STOP_ASYNC_RESPONSE :: u16 where "SL_OPCODE_WLAN_SMART_CONFIG_STOP_ASYNC_RESPONSE = 0x08B3"
definition SL_OPCODE_WLAN_STA_CONNECTED :: u16 where "SL_OPCODE_WLAN_STA_CONNECTED = 0x082E"
definition SL_OPCODE_WLAN_STA_DISCONNECTED :: u16 where "SL_OPCODE_WLAN_STA_DISCONNECTED = 0x082F"
definition SL_OPCODE_SOCKET_TXFAILEDASYNCRESPONSE :: u16 where "SL_OPCODE_SOCKET_TXFAILEDASYNCRESPONSE = 0x100E"
definition SL_OPCODE_SOCKET_SOCKETASYNCEVENT :: u16 where "SL_OPCODE_SOCKET_SOCKETASYNCEVENT = 0x100F"
definition SL_OPCODE_NETAPP_IPACQUIRED :: u16 where "SL_OPCODE_NETAPP_IPACQUIRED = 0x1825"
definition SL_OPCODE_NETAPP_IPACQUIRED_V6 :: u16 where "SL_OPCODE_NETAPP_IPACQUIRED_V6 = 0x1A25"
definition SL_OPCODE_NETAPP_IP_LEASED :: u16 where "SL_OPCODE_NETAPP_IP_LEASED = 0x182C"
definition SL_OPCODE_NETAPP_IP_RELEASED :: u16 where "SL_OPCODE_NETAPP_IP_RELEASED = 0x182D"
definition SL_OPCODE_NETAPP_DNSGETHOSTBYNAMEASYNCRESPONSE_V6 :: u16 where "SL_OPCODE_NETAPP_DNSGETHOSTBYNAMEASYNCRESPONSE_V6 = 0x1A20"
definition SL_OPCODE_NETAPP_MDNSGETHOSTBYSERVICEASYNCRESPONSE_V6 :: u16 where "SL_OPCODE_NETAPP_MDNSGETHOSTBYSERVICEASYNCRESPONSE_V6 = 0x1A35"
definition SL_OPCODE_NETAPP_HTTPSENDTOKENVALUE :: u16 where "SL_OPCODE_NETAPP_HTTPSENDTOKENVALUE = 0x9C2F"

lemmas event_opcodes = SL_OPCODE_WLAN_WLANASYNCCONNECTEDRESPONSE_def SL_OPCODE_WLAN_WLANASYNCDISCONNECTEDRESPONSE_def
  SL_OPCODE_WLAN_P2P_DEV_FOUND_def SL_OPCODE_WLAN_CONNECTION_FAILED_def SL_OPCODE_WLAN_P2P_NEG_REQ_RECEIVED_def
  SL_OPCODE_WLAN_SMART_CONFIG_START_ASYNC_RESPONSE_def SL_OPCODE_WLAN_SMART_CONFIG_STOP_ASYNC_RESPONSE_def
  SL_OPCODE_WLAN_STA_CONNECTED_def SL_OPCODE_WLAN_STA_DISCONNECTED_def SL_OPCODE_SOCKET_TXFAILEDASYNCRESPONSE_def
  SL_OPCODE_SOCKET_SOCKETASYNCEVENT_def SL_OPCODE_NETAPP_IPACQUIRED_def SL_OPCODE_NETAPP_IPACQUIRED_V6_def
  SL_OPCODE_NETAPP_IP_LEASED_def SL_OPCODE_NETAPP_IP_RELEASED_def

definition SL_WLAN_CONNECT_EVENT :: u32 where "SL_WLAN_CONNECT_EVENT = 1"
definition SL_WLAN_DISCONNECT_EVENT :: u32 where "SL_WLAN_DISCONNECT_EVENT = 2"
definition SL_WLAN_SMART_CONFIG_COMPLETE_EVENT :: u32 where "SL_WLAN_SMART_CONFIG_COMPLETE_EVENT = 3"
definition SL_WLAN_SMART_CONFIG_STOP_EVENT :: u32 where "SL_WLAN_SMART_CONFIG_STOP_EVENT = 4"
definition SL_WLAN_STA_CONNECTED_EVENT :: u32 where "SL_WLAN_STA_CONNECTED_EVENT = 5"
definition SL_WLAN_STA_DISCONNECTED_EVENT :: u32 where "SL_WLAN_STA_DISCONNECTED_EVENT = 6"
definition SL_WLAN_P2P_DEV_FOUND_EVENT :: u32 where "SL_WLAN_P2P_DEV_FOUND_EVENT = 7"
definition SL_WLAN_P2P_NEG_REQ_RECEIVED_EVENT :: u32 where "SL_WLAN_P2P_NEG_REQ_RECEIVED_EVENT = 8"
definition SL_WLAN_CONNECTION_FAILED_EVENT :: u32 where "SL_WLAN_CONNECTION_FAILED_EVENT = 9"
definition SL_SOCKET_TX_FAILED_EVENT :: u32 where "SL_SOCKET_TX_FAILED_EVENT = 1"
definition SL_SOCKET_ASYNC_EVENT :: u32 where "SL_SOCKET_ASYNC_EVENT = 2"
definition SL_NETAPP_IPV4_IPACQUIRED_EVENT :: u32 where "SL_NETAPP_IPV4_IPACQUIRED_EVENT = 1"
definition SL_NETAPP_IPV6_IPACQUIRED_EVENT :: u32 where "SL_NETAPP_IPV6_IPACQUIRED_EVENT = 2"
definition SL_NETAPP_IP_LEASED_EVENT :: u32 where "SL_NETAPP_IP_LEASED_EVENT = 3"
definition SL_NETAPP_IP_RELEASED_EVENT :: u32 where "SL_NETAPP_IP_RELEASED_EVENT = 4"

definition INIT_STA_OK :: u32 where "INIT_STA_OK = 0x11111111"
definition INIT_STA_ERR :: u32 where "INIT_STA_ERR = 0x22222222"
definition INIT_AP_OK :: u32 where "INIT_AP_OK = 0x33333333"
definition INIT_AP_ERR :: u32 where "INIT_AP_ERR = 0x44444444"
definition INIT_P2P_OK :: u32 where "INIT_P2P_OK = 0x55555555"
definition INIT_P2P_ERR :: u32 where "INIT_P2P_ERR = 0x66666666"

definition sl_GetStartResponseConvert :: "u32 \<Rightarrow> int" where
  "sl_GetStartResponseConvert Status =
     (if Status = INIT_STA_OK then 0 else if Status = INIT_STA_ERR then -1
      else if Status = INIT_AP_OK then 2 else if Status = INIT_AP_ERR then -2
      else if Status = INIT_P2P_OK then 3 else if Status = INIT_P2P_ERR then -3
      else sint (ucast Status :: u16))"

section \<open>Event structures\<close>

text \<open>
  The unions of the event structures have the layout of the message arguments, which start at byte 8
  of the buffer: a field is copied to the offset it comes from.
\<close>

definition args_of :: "u8 list \<Rightarrow> u8 list" where
  "args_of buf = drop 8 buf"

datatype step = Copy nat nat | Clear nat nat

fun apply_step :: "u8 list \<Rightarrow> step \<Rightarrow> u8 list \<Rightarrow> u8 list option" where
  "apply_step a (Copy i n) b = do { xs \<leftarrow> peek i n a; poke i xs b }"
| "apply_step a (Clear i n) b = poke i (replicate n 0) b"

primrec apply_steps :: "u8 list \<Rightarrow> step list \<Rightarrow> u8 list \<Rightarrow> u8 list option" where
  "apply_steps a [] b = Some b"
| "apply_steps a (st # sts) b = do { b1 \<leftarrow> apply_step a st b; apply_steps a sts b1 }"

definition WLAN_EVENT_SIZE :: nat where "WLAN_EVENT_SIZE = 76"
definition NETAPP_EVENT_SIZE :: nat where "NETAPP_EVENT_SIZE = 52"
definition SOCK_EVENT_SIZE :: nat where "SOCK_EVENT_SIZE = 8"

text \<open>The fields of \<open>slWlanConnectAsyncResponse_t\<close>: connection type, BSSID, name of the peer, SSID.\<close>

definition connect_fields :: "u8 list \<Rightarrow> step list" where
  "connect_fields a = [Clear 0 76, Copy 0 1, Copy 67 6, Copy 35 (unat (a ! 34)), Copy 2 (unat (a ! 1)), Copy 1 1]"

text \<open>Those of \<open>slPeerInfoAsyncResponse_t\<close>: MAC address, name, its length.\<close>

definition peer_fields :: "u8 list \<Rightarrow> step list" where
  "peer_fields a = [Copy 32 6, Copy 0 (unat (a ! 38)), Copy 38 1]"

definition smart_config_fields :: "u8 list \<Rightarrow> step list" where
  "smart_config_fields a =
     [Copy 0 4, Copy 4 4, Copy 40 4, Clear 8 32, Copy 8 (unat (rd32 (drop 4 a)))] @
     (if rd32 (drop 40 a) \<noteq> 0 then [Clear 44 32, Copy 44 (unat (rd32 (drop 40 a)))] else [])"

definition event_steps :: "u16 \<Rightarrow> u8 list \<Rightarrow> (u32 \<times> nat \<times> step list) option" where
  "event_steps op a =
     (if op = SL_OPCODE_WLAN_P2P_DEV_FOUND then Some (SL_WLAN_P2P_DEV_FOUND_EVENT, WLAN_EVENT_SIZE, peer_fields a)
      else if op = SL_OPCODE_WLAN_P2P_NEG_REQ_RECEIVED then Some (SL_WLAN_P2P_NEG_REQ_RECEIVED_EVENT, WLAN_EVENT_SIZE, peer_fields a @ [Copy 39 1])
      else if op = SL_OPCODE_WLAN_CONNECTION_FAILED then Some (SL_WLAN_CONNECTION_FAILED_EVENT, WLAN_EVENT_SIZE, [Copy 0 2])
      else if op = SL_OPCODE_WLAN_WLANASYNCCONNECTEDRESPONSE then Some (SL_WLAN_CONNECT_EVENT, WLAN_EVENT_SIZE, connect_fields a @ [Copy 34 1])
      else if op = SL_OPCODE_WLAN_WLANASYNCDISCONNECTEDRESPONSE then Some (SL_WLAN_DISCONNECT_EVENT, WLAN_EVENT_SIZE, connect_fields a @ [Copy 73 1, Copy 34 1])
      else if op = SL_OPCODE_NETAPP_IPACQUIRED then Some (SL_NETAPP_IPV4_IPACQUIRED_EVENT, NETAPP_EVENT_SIZE, [Copy 0 4, Copy 4 4, Copy 8 4])
      else if op = SL_OPCODE_NETAPP_IPACQUIRED_V6 then Some (SL_NETAPP_IPV6_IPACQUIRED_EVENT, NETAPP_EVENT_SIZE, [Copy 4 16])
      else if op = SL_OPCODE_NETAPP_IP_LEASED then Some (SL_NETAPP_IP_LEASED_EVENT, NETAPP_EVENT_SIZE, [Copy 0 4, Copy 4 4, Copy 8 6])
      else if op = SL_OPCODE_NETAPP_IP_RELEASED then Some (SL_NETAPP_IP_RELEASED_EVENT, NETAPP_EVENT_SIZE, [Copy 0 4, Copy 10 2, Copy 4 6])
      else if op = SL_OPCODE_SOCKET_TXFAILEDASYNCRESPONSE then Some (SL_SOCKET_TX_FAILED_EVENT, SOCK_EVENT_SIZE, [Copy 0 8])
      else if op = SL_OPCODE_SOCKET_SOCKETASYNCEVENT then Some (SL_SOCKET_ASYNC_EVENT, SOCK_EVENT_SIZE, [Copy 4 1, Copy 5 1, Copy 6 2])
      else if op = SL_OPCODE_WLAN_SMART_CONFIG_START_ASYNC_RESPONSE then Some (SL_WLAN_SMART_CONFIG_COMPLETE_EVENT, WLAN_EVENT_SIZE, smart_config_fields a)
      else if op = SL_OPCODE_WLAN_SMART_CONFIG_STOP_ASYNC_RESPONSE then Some (SL_WLAN_SMART_CONFIG_STOP_EVENT, WLAN_EVENT_SIZE, [Copy 0 2])
      else if op = SL_OPCODE_WLAN_STA_CONNECTED then Some (SL_WLAN_STA_CONNECTED_EVENT, WLAN_EVENT_SIZE, Clear 0 76 # peer_fields a @ [Copy 40 (unat (a ! 72)), Copy 72 1])
      else if op = SL_OPCODE_WLAN_STA_DISCONNECTED then Some (SL_WLAN_STA_DISCONNECTED_EVENT, WLAN_EVENT_SIZE, Clear 0 76 # peer_fields a)
      else None)"

section \<open>Answers to waiting threads\<close>

text \<open>The handlers copy the arguments of the event to the waiting object and signal it.\<close>

definition copy_response :: "'w host_ops \<Rightarrow> nat \<Rightarrow> u8 list \<Rightarrow> SlDriverCb \<Rightarrow> 'w \<Rightarrow> (SlDriverCb \<times> 'w) option" where
  "copy_response ops n buf s w = do {
     w1 \<leftarrow> osi_ok ops (LockLock ProtectionLockObj) w;
     obj \<leftarrow> get_obj (ActionIndex s) s;
     resp \<leftarrow> (case pRespArgs obj of RespArgs b \<Rightarrow> Some b | _ \<Rightarrow> None);
     resp1 \<leftarrow> poke 0 (take n (args_of buf)) resp;
     w2 \<leftarrow> osi_ok ops (SyncSignal (ObjSync (ActionIndex s))) w1;
     w3 \<leftarrow> osi_ok ops (LockUnlock ProtectionLockObj) w2;
     Some (set_obj (ActionIndex s) (\<lambda>p. p\<lparr>pRespArgs := RespArgs resp1\<rparr>) s, w3)
   }"

definition host_by_name_event :: "'w host_ops \<Rightarrow> u8 list \<Rightarrow> SlDriverCb \<Rightarrow> 'w \<Rightarrow> (SlDriverCb \<times> 'w) option" where
  "host_by_name_event ops buf s w = do {
     obj \<leftarrow> get_obj (ActionIndex s) s;
     copy_response ops (if AdditionalData obj AND SL_NETAPP_FAMILY_MASK \<noteq> 0 then 20 else 8) buf s w
   }"

text \<open>For an address of the IPv6 family nothing is done, the waiting object is not signalled.\<close>

definition host_by_service_event :: "'w host_ops \<Rightarrow> u8 list \<Rightarrow> SlDriverCb \<Rightarrow> 'w \<Rightarrow> (SlDriverCb \<times> 'w) option" where
  "host_by_service_event ops buf s w = do {
     let a = args_of buf;
     obj \<leftarrow> get_obj (ActionIndex s) s;
     if AdditionalData obj AND SL_NETAPP_FAMILY_MASK \<noteq> 0 then Some (s, w)
     else do {
       (user_len, txt) \<leftarrow> (case pRespArgs obj of ServiceArgs _ _ _ n t \<Rightarrow> Some (n, t) | _ \<Rightarrow> None);
       let TextLen = rd16 2 a;
       let UserTextLen = (if TextLen \<le> user_len then TextLen else user_len);
       xs \<leftarrow> peek 12 (unat UserTextLen) a;
       txt1 \<leftarrow> poke 0 xs txt;
       let s1 = set_obj (ActionIndex s) (\<lambda>p. p\<lparr>pRespArgs := ServiceArgs (rd32 (drop 8 a)) (rd32 (drop 4 a)) (rd16 0 a) UserTextLen txt1\<rparr>) s;
       w1 \<leftarrow> osi_ok ops (SyncSignal (ObjSync (ActionIndex s))) w;
       Some (s1, w1)
     }
   }"

definition CopyPingResultsToReport :: "u8 list \<Rightarrow> SlPingReport" where
  "CopyPingResultsToReport a =
     \<lparr>PacketsSent = rd32 (drop 12 a), PacketsReceived = rd32 (drop 8 a), MinRoundTime = rd16 2 a,
      MaxRoundTime = rd16 4 a, AvgRoundTime = rd16 6 a, TestTime = rd32 (drop 16 a)\<rparr>"

definition ping_event :: "'w host_ops \<Rightarrow> u8 list \<Rightarrow> SlDriverCb \<Rightarrow> 'w \<Rightarrow> (SlDriverCb \<times> 'w) option" where
  "ping_event ops buf s w =
     (if pPingCallBackFunc s
      then event_callback (callbacks ops) (PingDone (CopyPingResultsToReport (args_of buf))) s w
      else do {
        obj \<leftarrow> get_obj (ActionIndex s) s;
        if pRespArgs obj = RespNull then do {
          w1 \<leftarrow> osi_ok ops (LockLock ProtectionLockObj) w;
          w2 \<leftarrow> osi_ok ops (LockUnlock ProtectionLockObj) w1;
          Some (s, w2)
        }
        else copy_response ops 20 buf s w
      })"

text \<open>The first answer of the device, with the lock held while the application's callback runs.\<close>

definition init_complete :: "'w host_ops \<Rightarrow> u8 list \<Rightarrow> SlDriverCb \<Rightarrow> 'w \<Rightarrow> (SlDriverCb \<times> 'w) option" where
  "init_complete ops buf s w =
     (if pInitCallback s then do {
        w1 \<leftarrow> osi_ok ops (LockLock ProtectionLockObj) w;
        (s1, w2) \<leftarrow> event_callback (callbacks ops) (InitDone (sl_GetStartResponseConvert (rd32 (args_of buf)))) s w1;
        w3 \<leftarrow> osi_ok ops (LockUnlock ProtectionLockObj) w2;
        if pInitCallback s1 then release_pool_obj ops (ActionIndex s1) s1 w3 else Some (s1, w3)
      }
      else copy_response ops 4 buf s w)"

text \<open>A fatal error is only passed on where \<open>sl_GeneralEvtHdlr\<close> is defined, which it is not.\<close>

definition device_event :: "'w host_ops \<Rightarrow> u8 list \<Rightarrow> SlDriverCb \<Rightarrow> 'w \<Rightarrow> (SlDriverCb \<times> 'w) option" where
  "device_event ops buf s w =
     (let op = rd16 0 buf in
      if op = SL_OPCODE_DEVICE_INITCOMPLETE then init_complete ops buf s w
      else if op = SL_OPCODE_DEVICE_STOP_ASYNC_RESPONSE then copy_response ops 4 buf s w
      else if op = SL_OPCODE_DEVICE_DEVICEASYNCFATALERROR then Some (s, w)
      else None)"

section \<open>Tokens of the internal HTTP server\<close>

definition send_token_ctrl :: SlCmdCtrl where
  "send_token_ctrl = \<lparr>Opcode = SL_OPCODE_NETAPP_HTTPSENDTOKENVALUE, TxDescLen = 24, RxDescLen = 4\<rparr>"

text \<open>The command, a local variable: two lengths, the name, two bytes of padding.\<close>

definition token_msg :: "'w host_ops \<Rightarrow> u8 \<Rightarrow> u8 \<Rightarrow> u8 list \<Rightarrow> u8 list option" where
  "token_msg ops value_len name_len name = do {
     m1 \<leftarrow> poke 0 [value_len, name_len] (map (stack_byte ops) [0..<24]);
     xs \<leftarrow> peek 0 (unat name_len) name;
     poke 2 xs m1
   }"

definition sl_NetAppSendTokenValue ::
  "'w host_ops \<Rightarrow> u8 \<Rightarrow> u8 list \<Rightarrow> u8 \<Rightarrow> u8 list \<Rightarrow> SlDriverCb \<Rightarrow> 'w \<Rightarrow> (SlDriverCb \<times> 'w) option" where
  "sl_NetAppSendTokenValue ops value_len value name_len name s w = do {
     m \<leftarrow> token_msg ops value_len name_len name;
     let ext = \<lparr>TxPayloadLen = of_nat (align4 (unat value_len)), RxPayloadLen = 0, ActualRxPayloadLen = 0,
                pTxPayload = value, pRxPayload = None\<rparr>;
     (r, s1, w1) \<leftarrow> SlDrvCmdSend ops send_token_ctrl (Some m) (Some ext) s w;
     Some (s1, w1)
   }"

text \<open>The name is at byte 4 of the arguments; the value's pointer is given as byte 20 of the same buffer.\<close>

definition get_token :: "'w host_ops \<Rightarrow> u8 list \<Rightarrow> SlDriverCb \<Rightarrow> 'w \<Rightarrow> (SlDriverCb \<times> 'w) option" where
  "get_token ops buf s w = do {
     (r, s1, w1) \<leftarrow> token_callback (callbacks ops) buf (args_of buf ! 0) s w;
     sl_NetAppSendTokenValue ops (reply_value_len r) (reply_value r) (reply_name_len r) (drop 4 (args_of (reply_buf r))) s1 w1
   }"

definition post_strings :: "u8 list \<Rightarrow> (nat \<times> u8) list" where
  "post_strings buf =
     (let a = args_of buf in
      [(12, a ! 0), (12 + unat (a ! 0), a ! 1), (12 + unat (a ! 0) + unat (a ! 1), a ! 2)])"

definition netapp_event :: "'w host_ops \<Rightarrow> u8 list \<Rightarrow> SlDriverCb \<Rightarrow> 'w \<Rightarrow> (SlDriverCb \<times> 'w) option" where
  "netapp_event ops buf s w =
     (let op = rd16 0 buf in
      if op = SL_OPCODE_NETAPP_DNSGETHOSTBYNAMEASYNCRESPONSE \<or> op = SL_OPCODE_NETAPP_DNSGETHOSTBYNAMEASYNCRESPONSE_V6
      then host_by_name_event ops buf s w
      else if op = SL_OPCODE_NETAPP_MDNSGETHOSTBYSERVICEASYNCRESPONSE \<or> op = SL_OPCODE_NETAPP_MDNSGETHOSTBYSERVICEASYNCRESPONSE_V6
      then host_by_service_event ops buf s w
      else if op = SL_OPCODE_NETAPP_PINGREPORTREQUESTRESPONSE then ping_event ops buf s w
      else if op = SL_OPCODE_NETAPP_HTTPGETTOKENVALUE then get_token ops buf s w
      else if op = SL_OPCODE_NETAPP_HTTPPOSTTOKENVALUE
      then event_callback (callbacks ops) (HttpPost buf (post_strings buf)) s w
      else None)"

section \<open>The generic handler\<close>

definition socket_arg_ok :: "u8 list \<Rightarrow> bool" where
  "socket_arg_ok buf \<longleftrightarrow> (buf ! 10) AND BSD_SOCKET_ID_MASK \<le> SL_MAX_SOCKETS"

text \<open>What is called through \<open>AsyncEvtHandler\<close> with the message itself.\<close>

definition handle_event :: "'w host_ops \<Rightarrow> event_handler \<Rightarrow> u8 list \<Rightarrow> SlDriverCb \<Rightarrow> 'w \<Rightarrow> (SlDriverCb \<times> 'w) option" where
  "handle_event ops h buf s w =
     (case h of
        sl_HandleAsync_Accept \<Rightarrow> if socket_arg_ok buf then copy_response ops 12 buf s w else None
      | sl_HandleAsync_Connect \<Rightarrow> if socket_arg_ok buf then copy_response ops 3 buf s w else None
      | sl_HandleAsync_Select \<Rightarrow> copy_response ops 8 buf s w
      | sl_HandleAsync_DnsGetHostByName \<Rightarrow> host_by_name_event ops buf s w
      | sl_HandleAsync_DnsGetHostByService \<Rightarrow> host_by_service_event ops buf s w
      | sl_HandleAsync_PingResponse \<Rightarrow> ping_event ops buf s w
      | sl_HandleAsync_Stop \<Rightarrow> copy_response ops 4 buf s w
      | SlDrvDeviceEventHandler \<Rightarrow> device_event ops buf s w
      | SlDrvNetAppEventHandler \<Rightarrow> netapp_event ops buf s w
      | _ \<Rightarrow> event_callback (callbacks ops) (EventRaw h buf) s w)"

definition SlAsyncEventGenericHandler :: "'w host_ops \<Rightarrow> SlDriverCb \<Rightarrow> 'w \<Rightarrow> (SlDriverCb \<times> 'w) option" where
  "SlAsyncEventGenericHandler ops s w =
     (case AsyncEvtHandler s of
        None \<Rightarrow> Some (s, w)
      | Some h \<Rightarrow> do {
          buf \<leftarrow> pAsyncBuf s;
          let op = rd16 0 buf;
          if op = SL_OPCODE_NETAPP_PINGREPORTREQUESTRESPONSE then ping_event ops buf s w
          else case event_steps op (args_of buf) of
            Some (ev, n, sts) \<Rightarrow> do {
              d \<leftarrow> apply_steps (args_of buf) sts (map (stack_byte ops) [0..<n]);
              event_callback (callbacks ops) (EventStruct h ev d) s w
            }
          | None \<Rightarrow> handle_event ops h buf s w
        })"

end
