(* ===== verification/Sl_Cmd.thy ===== *)
theory Sl_Cmd
  imports Sl_Event
begin

text \<open>
  The operations of the SimpleLink host driver: the start and end of the control block, the interrupt
  handler, commands that wait for their response, the task that reads what comes unasked, and the two
  data operations with their flow control (\<open>driver.c\<close>, \<open>flowcont.c\<close>).
\<close>

section \<open>Start and end\<close>

definition SlDrvFlowContInit :: "'w host_ops \<Rightarrow> SlDriverCb \<Rightarrow> 'w \<Rightarrow> (SlDriverCb \<times> 'w) option" where
  "SlDrvFlowContInit ops s w = do {
     let s1 = s\<lparr>TxPoolCnt := FLOW_CONT_MIN\<rparr>;
     w1 \<leftarrow> osi_ok ops (LockCreate TxLockObj) w;
     w2 \<leftarrow> osi_ok ops (SyncCreate TxSyncObj) w1;
     Some (s1, w2)
   }"

definition SlDrvFlowContDeinit :: "'w host_ops \<Rightarrow> SlDriverCb \<Rightarrow> 'w \<Rightarrow> (SlDriverCb \<times> 'w) option" where
  "SlDrvFlowContDeinit ops s w = do {
     let s1 = s\<lparr>TxPoolCnt := 0\<rparr>;
     w1 \<leftarrow> osi_ok ops (LockDelete TxLockObj) w;
     w2 \<leftarrow> osi_ok ops (SyncDelete TxSyncObj) w1;
     Some (s1, w2)
   }"

text \<open>What \<open>memset\<close> leaves.\<close>

definition zero_cb :: SlDriverCb where
  "zero_cb =
     \<lparr>hdr_Opcode = 0, hdr_Len = 0,
      ObjPool = replicate 10 \<lparr>pRespArgs = RespNull, ActionID = 0, AdditionalData = 0, NextIndex = 0\<rparr>,
      FreePoolIdx = 0, PendingPoolIdx = 0, ActivePoolIdx = 0, ActiveActionsBitmap = 0, IsCmdRespWaited = False,
      TxPoolCnt = 0, TxSeqNum = 0, RxIrqCnt = 0, RxDoneCnt = 0, SocketNonBlocking = 0, SocketTXFailure = 0,
      RelayFlagsViaRxPayload = False, pCmdCtrl = None, pTxRxDescBuff = None, pCmdExt = None, pAsyncBuf = None,
      ActionIndex = 0, AsyncEvtHandler = None, RxMsgClass = Some RECV_RESP_CLASS, pInitCallback = False,
      pPingCallBackFunc = False\<rparr>"

primrec each_obj :: "(u8 \<Rightarrow> 'w \<Rightarrow> 'w option) \<Rightarrow> u8 list \<Rightarrow> 'w \<Rightarrow> 'w option" where
  "each_obj f [] w = Some w"
| "each_obj f (i # is) w = do { w1 \<leftarrow> f i w; each_obj f is w1 }"

definition pool_indices :: "u8 list" where
  "pool_indices = map of_nat [0..<unat MAX_CONCURRENT_ACTIONS]"

definition SlDrvDriverCBInit :: "'w host_ops \<Rightarrow> 'w \<Rightarrow> (SlDriverCb \<times> 'w) option" where
  "SlDrvDriverCBInit ops w = do {
     let (ok, w1) = sl_malloc ops w;
     if \<not> ok then None
     else do {
       w2 \<leftarrow> osi_ok ops (SyncCreate CmdSyncObj) w1;
       let w3 = snd (osi ops (SyncClear CmdSyncObj) w2);
       w4 \<leftarrow> osi_ok ops (LockCreate GlobalLockObj) w3;
       w5 \<leftarrow> osi_ok ops (LockCreate ProtectionLockObj) w4;
       let s1 = SlDrvObjInit zero_cb;
       w6 \<leftarrow> each_obj (\<lambda>i w. do {
           w' \<leftarrow> osi_ok ops (SyncCreate (ObjSync i)) w;
           Some (snd (osi ops (SyncClear (ObjSync i)) w'))
         }) pool_indices w5;
       SlDrvFlowContInit ops s1 w6
     }
   }"

definition SlDrvDriverCBDeinit :: "'w host_ops \<Rightarrow> SlDriverCb \<Rightarrow> 'w \<Rightarrow> (SlDriverCb \<times> 'w) option" where
  "SlDrvDriverCBDeinit ops s w = do {
     (s1, w1) \<leftarrow> SlDrvFlowContDeinit ops s w;
     w2 \<leftarrow> osi_ok ops (SyncDelete CmdSyncObj) w1;
     w3 \<leftarrow> osi_ok ops (LockDelete GlobalLockObj) w2;
     w4 \<leftarrow> osi_ok ops (LockDelete ProtectionLockObj) w3;
     w5 \<leftarrow> each_obj (\<lambda>i. osi_ok ops (SyncDelete (ObjSync i))) pool_indices w4;
     Some (SlDrvObjDeInit s1, sl_free ops w5)
   }"

section \<open>Interrupts\<close>

definition SlDrvRxIrqHandler :: "'w host_ops \<Rightarrow> SlDriverCb \<Rightarrow> 'w \<Rightarrow> (SlDriverCb \<times> 'w) option" where
  "SlDrvRxIrqHandler ops s w = do {
     let w1 = if_mask ops w;
     let s1 = s\<lparr>RxIrqCnt := RxIrqCnt s + 1\<rparr>;
     w2 \<leftarrow> (if IsCmdRespWaited s1 then osi_ok ops (SyncSignal CmdSyncObj) w1 else Some (osi_spawn ops w1));
     Some (s1, w2)
   }"

section \<open>Reading until the response has come\<close>

definition prepare_read :: "SlRxMsgClass option \<Rightarrow> SlDriverCb \<Rightarrow> SlDriverCb" where
  "prepare_read c s = s\<lparr>pAsyncBuf := None, AsyncEvtHandler := None, RxMsgClass := c\<rparr>"

definition read_one :: "'w host_ops \<Rightarrow> SlDriverCb \<Rightarrow> 'w \<Rightarrow> (SlDriverCb \<times> 'w) option" where
  "read_one ops s w = do {
     (r, s1, w1) \<leftarrow> SlDrvMsgRead ops (prepare_read None s) w;
     if r \<noteq> 0 then None
     else do {
       let s2 = s1\<lparr>RxDoneCnt := RxDoneCnt s1 + 1\<rparr>;
       if RxMsgClass s2 = Some CMD_RESP_CLASS
       then Some (s2\<lparr>IsCmdRespWaited := False\<rparr>, snd (osi ops (SyncClear CmdSyncObj) w1))
       else if RxMsgClass s2 = Some ASYNC_EVT_CLASS
       then do { (s3, w2) \<leftarrow> SlAsyncEventGenericHandler ops s2 w1; Some (s3, sl_free ops w2) }
       else Some (s2, w1)
     }
   }"

partial_function (option) read_until :: "'w host_ops \<Rightarrow> SlDriverCb \<Rightarrow> 'w \<Rightarrow> (SlDriverCb \<times> 'w) option" where
  "read_until ops s w =
     (if IsCmdRespWaited s then do {
        (s1, w1) \<leftarrow> (if pending_rx s then read_one ops s w else osi_wait_ok ops CmdSyncObj s w);
        read_until ops s1 w1
      }
      else Some (s, w))"

definition SlDrvMsgReadCmdCtx :: "'w host_ops \<Rightarrow> SlDriverCb \<Rightarrow> 'w \<Rightarrow> (int \<times> SlDriverCb \<times> 'w) option" where
  "SlDrvMsgReadCmdCtx ops s w = do {
     (s1, w1) \<leftarrow> read_until ops s w;
     w2 \<leftarrow> osi_ok ops (LockUnlock GlobalLockObj) w1;
     Some (0, s1, if pending_rx s1 then osi_spawn ops w2 else w2)
   }"

definition SlDrvCmdOp ::
  "'w host_ops \<Rightarrow> SlCmdCtrl \<Rightarrow> u8 list option \<Rightarrow> SlCmdExt option \<Rightarrow> SlDriverCb \<Rightarrow> 'w \<Rightarrow> (int \<times> SlDriverCb \<times> 'w) option" where
  "SlDrvCmdOp ops ctrl desc ext s w = do {
     w1 \<leftarrow> osi_ok ops (LockLock GlobalLockObj) w;
     (r, s1, w2) \<leftarrow> SlDrvMsgWrite ops (set_params ctrl desc ext (s\<lparr>IsCmdRespWaited := True\<rparr>)) w1;
     if r = 0 then SlDrvMsgReadCmdCtx ops s1 w2
     else do { w3 \<leftarrow> osi_ok ops (LockUnlock GlobalLockObj) w2; Some (r, s1, w3) }
   }"

text \<open>The caller's message after a command: the driver has filled it unless another command, sent by the
  handler of an event, has taken its place.\<close>

definition own_desc :: "SlCmdCtrl \<Rightarrow> u8 list \<Rightarrow> SlDriverCb \<Rightarrow> u8 list" where
  "own_desc ctrl desc s =
     (if pCmdCtrl s = Some ctrl then (case pTxRxDescBuff s of Some d \<Rightarrow> d | None \<Rightarrow> desc) else desc)"

definition SlDrvBasicCmd :: "'w host_ops \<Rightarrow> u16 \<Rightarrow> SlDriverCb \<Rightarrow> 'w \<Rightarrow> (int \<times> SlDriverCb \<times> 'w) option" where
  "SlDrvBasicCmd ops op s w = do {
     let ctrl = \<lparr>Opcode = op, TxDescLen = 0, RxDescLen = 4\<rparr>;
     let msg = map (stack_byte ops) [0..<4];
     (r, s1, w1) \<leftarrow> SlDrvCmdOp ops ctrl (Some msg) None s w;
     if r \<noteq> 0 then None else Some (sint (rd16 0 (own_desc ctrl msg s1)), s1, w1)
   }"

text \<open>The task that reads what comes outside of commands.\<close>

definition SlDrvMsgReadSpawnCtx :: "'w host_ops \<Rightarrow> SlDriverCb \<Rightarrow> 'w \<Rightarrow> (int \<times> SlDriverCb \<times> 'w) option" where
  "SlDrvMsgReadSpawnCtx ops s w = do {
     w1 \<leftarrow> osi_ok ops (LockLock GlobalLockObj) w;
     let s1 = prepare_read (Some CMD_RESP_CLASS) s;
     if \<not> pending_rx s1 then do { w2 \<leftarrow> osi_ok ops (LockUnlock GlobalLockObj) w1; Some (0, s1, w2) }
     else do {
       (r, s2, w2) \<leftarrow> SlDrvMsgRead ops s1 w1;
       if r \<noteq> 0 then None
       else do {
         let s3 = s2\<lparr>RxDoneCnt := RxDoneCnt s2 + 1\<rparr>;
         (s4, w3) \<leftarrow> (case RxMsgClass s3 of
             Some ASYNC_EVT_CLASS \<Rightarrow>
               if pAsyncBuf s3 = None then None
               else do { (s', w') \<leftarrow> SlAsyncEventGenericHandler ops s3 w2; Some (s', sl_free ops w') }
           | Some DUMMY_MSG_CLASS \<Rightarrow> Some (s3, w2)
           | Some RECV_RESP_CLASS \<Rightarrow> Some (s3, w2)
           | _ \<Rightarrow> None);
         w4 \<leftarrow> osi_ok ops (LockUnlock GlobalLockObj) w3;
         Some (0, s4, w4)
       }
     }
   }"

section \<open>Waiting for an object\<close>

text \<open>The loop, entered with the protection lock taken.\<close>

partial_function (option) wait_active ::
  "'w host_ops \<Rightarrow> u32 \<Rightarrow> u8 \<Rightarrow> wait_result \<Rightarrow> SlDriverCb \<Rightarrow> 'w \<Rightarrow> (u8 \<times> SlDriverCb \<times> 'w) option" where
  "wait_active ops a k res s w = do {
     w1 \<leftarrow> osi_ok ops (LockUnlock ProtectionLockObj) w;
     case res of
       Wait_Empty \<Rightarrow> Some (MAX_CONCURRENT_ACTIONS, s, w1)
     | Wait_Active i \<Rightarrow> Some (i, s, w1)
     | Wait_Blocked i \<Rightarrow> do {
         (s1, w2) \<leftarrow> osi_wait_ok ops (ObjSync i) s w1;
         w3 \<leftarrow> osi_ok ops (LockLock ProtectionLockObj) w2;
         let (res', s2) = wait_check a k i s1;
         wait_active ops a k res' s2 w3
       }
   }"

definition SlDrvWaitForPoolObj :: "'w host_ops \<Rightarrow> u32 \<Rightarrow> u8 \<Rightarrow> SlDriverCb \<Rightarrow> 'w \<Rightarrow> (u8 \<times> SlDriverCb \<times> 'w) option" where
  "SlDrvWaitForPoolObj ops a k s w = do {
     w1 \<leftarrow> osi_ok ops (LockLock ProtectionLockObj) w;
     (res, s1) \<leftarrow> wait_enter a k s;
     wait_active ops a k res s1 w1
   }"

section \<open>Data\<close>

definition write_data_msg ::
  "'w host_ops \<Rightarrow> SlCmdCtrl \<Rightarrow> u8 list option \<Rightarrow> SlCmdExt \<Rightarrow> SlDriverCb \<Rightarrow> 'w \<Rightarrow> (int \<times> SlDriverCb \<times> 'w) option" where
  "write_data_msg ops ctrl desc ext s w = do {
     let s1 = s\<lparr>hdr_Opcode := Opcode ctrl, hdr_Len := calc_len ctrl (Some ext)\<rparr>;
     (r, s2, w1) \<leftarrow> SlDrvMsgWrite ops (set_params ctrl desc (Some ext) s1) w;
     w2 \<leftarrow> osi_ok ops (LockUnlock GlobalLockObj) w1;
     Some (r, s2, w2)
   }"

text \<open>One buffer of the processor's pool is taken.\<close>

definition take_buffer :: "'w host_ops \<Rightarrow> u8 \<Rightarrow> SlDriverCb \<Rightarrow> 'w \<Rightarrow> (SlDriverCb \<times> 'w) option" where
  "take_buffer ops low s w = do {
     w1 \<leftarrow> osi_ok ops (LockLock GlobalLockObj) w;
     if \<not> low < TxPoolCnt s then None
     else do {
       w2 \<leftarrow> osi_ok ops (LockUnlock TxLockObj) w1;
       Some (s\<lparr>TxPoolCnt := TxPoolCnt s - 1\<rparr>, w2)
     }
   }"

text \<open>The result is followed by the buffers the caller gave, arguments and data.\<close>

definition SlDrvDataReadOp ::
  "'w host_ops \<Rightarrow> u8 \<Rightarrow> SlCmdCtrl \<Rightarrow> u8 list \<Rightarrow> SlCmdExt \<Rightarrow> SlDriverCb \<Rightarrow> 'w \<Rightarrow>
   (int \<times> u8 list \<times> u8 list \<times> SlDriverCb \<times> 'w) option" where
  "SlDrvDataReadOp ops Sd ctrl desc ext s w = do {
     rx \<leftarrow> pRxPayload ext;
     if RxPayloadLen ext = 0 then None
     else if \<not> (Sd AND BSD_SOCKET_ID_MASK) < SL_MAX_SOCKETS then Some (SL_EBADF, desc, rx, s, w)
     else do {
       (i, s1, w1) \<leftarrow> SlDrvWaitForPoolObj ops (ucast RECV_ID) (Sd AND BSD_SOCKET_ID_MASK) s w;
       if i = MAX_CONCURRENT_ACTIONS then Some (SL_POOL_IS_EMPTY, desc, rx, s1, w1)
       else do {
         w2 \<leftarrow> osi_ok ops (LockLock ProtectionLockObj) w1;
         let s2 = set_obj i (\<lambda>p. p\<lparr>pRespArgs := RecvArgs desc rx\<rparr>) s1;
         w3 \<leftarrow> osi_ok ops (LockUnlock ProtectionLockObj) w2;
         w4 \<leftarrow> osi_ok ops (LockLock TxLockObj) w3;
         let w5 = snd (osi ops (SyncClear TxSyncObj) w4);
         (s3, w6) \<leftarrow> (if TxPoolCnt s2 \<le> FLOW_CONT_MIN then osi_wait_ok ops TxSyncObj s2 w5 else Some (s2, w5));
         (s4, w7) \<leftarrow> take_buffer ops FLOW_CONT_MIN s3 w6;
         (r, s5, w8) \<leftarrow> write_data_msg ops ctrl (Some desc) ext s4 w7;
         (s6, w9) \<leftarrow> (if r = 0 then osi_wait_ok ops (ObjSync i) s5 w8 else Some (s5, w8));
         obj \<leftarrow> get_obj i s6;
         (args, dat) \<leftarrow> (case pRespArgs obj of RecvArgs a d \<Rightarrow> Some (a, d) | _ \<Rightarrow> None);
         (s7, w10) \<leftarrow> release_pool_obj ops i s6 w9;
         Some (r, args, dat, s7, w10)
       }
     }
   }"

text \<open>The wait for a free buffer: an error to return, or the lock held.\<close>

partial_function (option) wait_buffer :: "'w host_ops \<Rightarrow> u8 \<Rightarrow> SlDriverCb \<Rightarrow> 'w \<Rightarrow> (int \<times> SlDriverCb \<times> 'w) option" where
  "wait_buffer ops Sd s w = do {
     w1 \<leftarrow> osi_ok ops (LockLock TxLockObj) w;
     let w2 = snd (osi ops (SyncClear TxSyncObj) w1);
     let n = unat (Sd AND BSD_SOCKET_ID_MASK);
     if SocketTXFailure s AND push_bit n 1 \<noteq> 0
     then do { w3 \<leftarrow> osi_ok ops (LockUnlock TxLockObj) w2; Some (SL_SOC_ERROR, s, w3) }
     else if TxPoolCnt s \<le> FLOW_CONT_MIN + 1 \<and> drop_bit n (SocketNonBlocking s) \<noteq> 0
     then do { w3 \<leftarrow> osi_ok ops (LockUnlock TxLockObj) w2; Some (SL_EAGAIN, s, w3) }
     else do {
       (s1, w3) \<leftarrow> (if TxPoolCnt s \<le> FLOW_CONT_MIN + 1 then osi_wait_ok ops TxSyncObj s w2 else Some (s, w2));
       if FLOW_CONT_MIN + 1 < TxPoolCnt s1 then Some (0, s1, w3)
       else do { w4 \<leftarrow> osi_ok ops (LockUnlock TxLockObj) w3; wait_buffer ops Sd s1 w4 }
     }
   }"

definition SlDrvDataWriteOp ::
  "'w host_ops \<Rightarrow> u8 \<Rightarrow> SlCmdCtrl \<Rightarrow> u8 list option \<Rightarrow> SlCmdExt \<Rightarrow> SlDriverCb \<Rightarrow> 'w \<Rightarrow> (int \<times> SlDriverCb \<times> 'w) option" where
  "SlDrvDataWriteOp ops Sd ctrl desc ext s w = do {
     (r, s1, w1) \<leftarrow> wait_buffer ops Sd s w;
     if r \<noteq> 0 then Some (r, s1, w1)
     else do {
       (s2, w2) \<leftarrow> take_buffer ops (FLOW_CONT_MIN + 1) s1 w1;
       write_data_msg ops ctrl desc ext s2 w2
     }
   }"

end
