(* ===== verification/Sl_Link.thy ===== *)
theory Sl_Link
  imports Sl_Cmd Sl_Pool_Props
begin

text \<open>
  The host driver on a bus that delivers bytes in order: what it writes for a command, how it finds the
  header of the next message in what it reads, and how much of the input each message takes.
\<close>

section \<open>A processor that speaks the protocol\<close>

text \<open>
  The bytes on their way to the host, those the host has written, the calls to the operating system,
  the semaphores that are signalled, and the messages the processor will still send, which arrive while
  the host waits.
\<close>

record nwp =
  nwp_in :: "u8 list"
  nwp_out :: "u8 list"
  nwp_calls :: "osi_call list"
  nwp_sems :: "sync_obj set"
  nwp_more :: "u8 list list"

fun sem_after :: "osi_call \<Rightarrow> sync_obj set \<Rightarrow> sync_obj set" where
  "sem_after (SyncSignal c) S = insert c S"
| "sem_after (SyncClear c) S = S - {c}"
| "sem_after _ S = S"

definition call :: "osi_call \<Rightarrow> nwp \<Rightarrow> nwp" where
  "call c w = w\<lparr>nwp_calls := nwp_calls w @ [c], nwp_sems := sem_after c (nwp_sems w)\<rparr>"

definition bus ::
  "(sync_obj \<Rightarrow> SlDriverCb \<Rightarrow> nwp \<Rightarrow> (int \<times> SlDriverCb \<times> nwp) option) \<Rightarrow>
   nwp app_ops \<Rightarrow> nwp host_ops" where
  "bus wait run =
     \<lparr>if_read = (\<lambda>n w. if 0 \<le> n \<and> nat n \<le> length (nwp_in w)
          then (n, take (nat n) (nwp_in w), w\<lparr>nwp_in := drop (nat n) (nwp_in w)\<rparr>) else (-1, [], w)),
      if_write = (\<lambda>xs n w. (n, w\<lparr>nwp_out := nwp_out w @ xs\<rparr>)),
      if_unmask = (\<lambda>w. w), if_mask = (\<lambda>w. w),
      osi = (\<lambda>c w. (0, call c w)),
      osi_wait = wait, osi_spawn = (\<lambda>w. w),
      sl_malloc = (\<lambda>w. (True, w)), sl_free = (\<lambda>w. w), callbacks = run, stack_byte = (\<lambda>_. 0)\<rparr>"

lemma i16_small: "n < 32768 \<Longrightarrow> i16 (int n) = int n"
  by (simp add: i16_def signed_of_int signed_take_bit_int_eq_self del: of_int_of_nat_eq)

lemma poke_all: "length ys = n \<Longrightarrow> n \<le> length zs \<Longrightarrow> poke 0 ys zs = Some (ys @ drop n zs)"
  by (simp add: poke_def)

lemma bus_write:
  "n \<le> length buf \<Longrightarrow> nwp_write (bus wait run) buf n w = Some (w\<lparr>nwp_out := nwp_out w @ take n buf\<rparr>)"
  by (simp add: nwp_write_def peek_def bus_def)

lemma bus_read:
  "n \<le> length (nwp_in w) \<Longrightarrow> n < 32768 \<Longrightarrow>
   nwp_read (bus wait run) n w = Some (take n (nwp_in w), w\<lparr>nwp_in := drop n (nwp_in w)\<rparr>)"
  by (simp add: nwp_read_def bus_def i16_small)

lemma bus_read_at:
  "n \<le> length (nwp_in w) \<Longrightarrow> n < 32768 \<Longrightarrow> i + n \<le> length buf \<Longrightarrow>
   read_at (bus wait run) i n buf w =
     Some (take i buf @ take n (nwp_in w) @ drop (i + n) buf, w\<lparr>nwp_in := drop n (nwp_in w)\<rparr>)"
  by (simp add: read_at_def bus_read poke_def)

lemma bus_osi: "osi_ok (bus wait run) c w = Some (call c w)" "osi (bus wait run) c w = (0, call c w)"
  by (simp_all add: osi_ok_def bus_def)

lemma bus_wait: "osi_wait (bus wait run) = wait"
  by (simp add: bus_def)

lemma bus_rest:
  "if_mask (bus wait run) w = w" "if_unmask (bus wait run) w = w" "osi_spawn (bus wait run) w = w"
  "sl_malloc (bus wait run) w = (True, w)" "sl_free (bus wait run) w = w" "callbacks (bus wait run) = run"
  by (simp_all add: bus_def)

section \<open>Scanning for the pattern\<close>

text \<open>Whether the pattern stands at an offset of the input; how much has been read when the scan is there.\<close>

definition sync_at :: "u8 \<Rightarrow> u8 list \<Rightarrow> nat \<Rightarrow> bool" where
  "sync_at seq S c \<longleftrightarrow> sync_match (take 4 (drop c S)) seq"

definition valid_bytes :: "nat \<Rightarrow> nat" where
  "valid_bytes c = (if c mod 4 = 0 then 4 else 8 - c mod 4)"

definition scan_buf :: "u8 list \<Rightarrow> nat \<Rightarrow> u8 list" where
  "scan_buf S c = take (valid_bytes c) (drop c S) @ replicate (8 - valid_bytes c) 0"

lemma sync_match_prefix: "length xs = 4 \<Longrightarrow> sync_match (xs @ ys) seq \<longleftrightarrow> sync_match xs seq"
  by (simp add: sync_match_def rd32_def nth_append)

lemma valid_bounds: "4 \<le> valid_bytes c" "valid_bytes c \<le> 8"
  by (simp_all add: valid_bytes_def) (use mod_less_divisor [of 4 c] in linarith)+

lemma scan_buf_match:
  assumes "c + 4 \<le> length S"
  shows "sync_match (scan_buf S c) seq \<longleftrightarrow> sync_at seq S c"
proof -
  have "take (valid_bytes c) (drop c S) = take 4 (drop c S) @ take (valid_bytes c - 4) (drop (c + 4) S)"
    using valid_bounds [of c] by (metis add.commute drop_drop le_add_diff_inverse take_add)
  then have "scan_buf S c = take 4 (drop c S) @ (take (valid_bytes c - 4) (drop (c + 4) S) @ replicate (8 - valid_bytes c) 0)"
    by (simp add: scan_buf_def)
  then show ?thesis using assms by (simp only: sync_at_def) (rule sync_match_prefix, simp)
qed

lemma length_scan_buf: "c + valid_bytes c \<le> length S \<Longrightarrow> length (scan_buf S c) = 8"
  using valid_bounds [of c] by (simp add: scan_buf_def)

lemma shift_eq: "length b = 8 \<Longrightarrow> SlDrvShiftDWord b = tl b @ [0]"
  by (rule nth_equalityI) (auto simp: SlDrvShiftDWord_def nth_append nth_tl less_Suc_eq numeral_nat)

text \<open>One step of the scan.\<close>

lemma mod4_Suc: "Suc c mod 4 = (if c mod 4 = 3 then 0 else Suc (c mod 4))"
  by (simp add: mod_Suc)

lemma scan_read:
  assumes "c mod 4 = 0" "c + 8 \<le> length S" "nwp_in w = drop (c + 4) S"
  shows "read_at (bus wait run) 4 4 (scan_buf S c) w = Some (take 8 (drop c S), w\<lparr>nwp_in := drop (c + 8) S\<rparr>)"
proof -
  have v: "valid_bytes c = 4" using assms(1) by (simp add: valid_bytes_def)
  have "take 8 (drop c S) = take 4 (drop c S) @ take 4 (drop (c + 4) S)"
    using take_add [of 4 4 "drop c S"] by (simp add: add.commute)
  then show ?thesis
    using assms v by (subst bus_read_at) (auto simp: scan_buf_def add.commute)
qed

lemma scan_shift:
  assumes "c mod 4 \<noteq> 0" "c + valid_bytes c \<le> length S"
  shows "SlDrvShiftDWord (scan_buf S c) = scan_buf S (Suc c)"
proof -
  have l: "length (scan_buf S c) = 8" using assms(2) by (rule length_scan_buf)
  have v: "valid_bytes c = Suc (valid_bytes (Suc c))"
    using assms(1) mod_less_divisor [of 4 c] by (auto simp: valid_bytes_def mod4_Suc)
  have "drop c S \<noteq> []" using assms(2) v by auto
  then have "tl (take (valid_bytes c) (drop c S)) = take (valid_bytes (Suc c)) (drop (Suc c) S)" "take (valid_bytes c) (drop c S) \<noteq> []"
    by (simp_all add: v drop_Suc tl_drop tl_take)
  moreover have "replicate (8 - valid_bytes c) 0 @ [0] = replicate (8 - valid_bytes (Suc c)) (0 :: u8)"
    using v valid_bounds [of c] by (simp add: replicate_append_same flip: replicate_Suc)
  ultimately show ?thesis unfolding shift_eq [OF l] by (simp add: scan_buf_def tl_append2)
qed

lemma scan_shift_full:
  assumes "c mod 4 = 0" "c + 8 \<le> length S"
  shows "SlDrvShiftDWord (take 8 (drop c S)) = scan_buf S (Suc c)"
proof -
  have l: "length (take 8 (drop c S)) = 8" using assms(2) by simp
  have v: "valid_bytes (Suc c) = 7" using assms(1) by (simp add: valid_bytes_def mod4_Suc)
  have "tl (take 8 (drop c S)) = take 7 (drop (Suc c) S)" by (simp add: tl_take drop_Suc tl_drop)
  then show ?thesis by (simp add: shift_eq [OF l] scan_buf_def v)
qed

lemma sync_scan_finds:
  assumes "c \<le> o'" "\<And>i. c \<le> i \<Longrightarrow> i < o' \<Longrightarrow> \<not> sync_at seq S i" "sync_at seq S o'" "o' \<le> SL_SYNC_SCAN_THRESHOLD"
    "o' + 8 \<le> length S" "nwp_in w = drop (c + valid_bytes c) S"
  shows "sync_scan (bus wait run) seq c (scan_buf S c) w =
    Some (o', scan_buf S o', w\<lparr>nwp_in := drop (o' + valid_bytes o') S\<rparr>)"
  using assms
proof (induction "o' - c" arbitrary: c w)
  case 0
  then have "c = o'" by simp
  moreover from this have "sync_match (scan_buf S c) seq" using 0 by (simp add: scan_buf_match)
  ultimately show ?case using 0 by (subst sync_scan.simps) simp
next
  case (Suc n)
  then have c: "c < o'" "c + 8 \<le> length S" by simp_all
  have vb: "valid_bytes c \<le> 8" by (rule valid_bounds)
  have nm: "\<not> sync_match (scan_buf S c) seq" using Suc.prems(2) [of c] c by (simp add: scan_buf_match)
  have lt: "c < SL_SYNC_SCAN_THRESHOLD" using c Suc.prems(4) by simp
  obtain w1 where w1: "(if c mod SYNC_PATTERN_LEN = 0 then read_at (bus wait run) 4 4 (scan_buf S c) w else Some (scan_buf S c, w)) =
      Some (if c mod 4 = 0 then take 8 (drop c S) else scan_buf S c, w1)"
    "w1 = w\<lparr>nwp_in := drop (Suc c + valid_bytes (Suc c)) S\<rparr>"
  proof (cases "c mod 4 = 0")
    case True
    then have "valid_bytes c = 4" "valid_bytes (Suc c) = 7" by (simp_all add: valid_bytes_def mod4_Suc)
    then show ?thesis using that True scan_read [of c S w wait run] c(2) Suc.prems(6) by (simp add: SYNC_PATTERN_LEN_def add.commute)
  next
    case False
    then have e: "Suc c + valid_bytes (Suc c) = c + valid_bytes c"
      using mod_less_divisor [of 4 c] by (auto simp: valid_bytes_def mod4_Suc)
    have "w = w\<lparr>nwp_in := drop (Suc c + valid_bytes (Suc c)) S\<rparr>" unfolding e Suc.prems(6) [symmetric] by simp
    then show ?thesis using that [of w] False by (simp add: SYNC_PATTERN_LEN_def)
  qed
  have sh: "SlDrvShiftDWord (if c mod 4 = 0 then take 8 (drop c S) else scan_buf S c) = scan_buf S (Suc c)"
    using scan_shift [of c S] scan_shift_full [of c S] c(2) vb by auto
  have "sync_scan (bus wait run) seq c (scan_buf S c) w = sync_scan (bus wait run) seq (Suc c) (scan_buf S (Suc c)) w1"
    by (subst sync_scan.simps) (simp only: nm lt w1(1) sh if_False if_True Option.bind.simps prod.case Suc_eq_plus1)
  also have "\<dots> = Some (o', scan_buf S o', w1\<lparr>nwp_in := drop (o' + valid_bytes o') S\<rparr>)"
    using Suc.hyps(2) Suc.prems c by (intro Suc.hyps(1)) (simp_all add: w1(2))
  finally show ?case by (simp add: w1(2))
qed

section \<open>The header\<close>

definition pad_of :: "nat \<Rightarrow> nat" where
  "pad_of c = (if c mod 4 = 0 then 0 else 4 - c mod 4)"

text \<open>After the scan the first half of the header is completed in the buffer.\<close>

lemma complete_header:
  assumes "S = g @ sy @ hdr @ rest" "length sy = 4" "length hdr = 8" "nwp_in w = drop (length g + valid_bytes (length g)) S"
  obtains x where "length x = 4"
    "(if 0 < length g mod 4
      then read_at (bus wait run) (4 - length g mod 4) (length g mod 4) (drop 4 (scan_buf S (length g)) @ drop 4 (scan_buf S (length g))) w
      else read_at (bus wait run) 0 4 (scan_buf S (length g)) w) =
     Some (take 4 hdr @ x, w\<lparr>nwp_in := drop (length g + 8) S\<rparr>)"
proof (cases "length g mod 4 = 0")
  case True
  then have v: "valid_bytes (length g) = 4" by (simp add: valid_bytes_def)
  have "take 4 (nwp_in w) = take 4 hdr" "4 \<le> length (nwp_in w)" using assms v by simp_all
  moreover have "scan_buf S (length g) = sy @ replicate 4 0" using assms v by (simp add: scan_buf_def)
  ultimately show ?thesis
    using that [of "replicate 4 0"] True assms(2) by (simp add: bus_read_at assms(4) v add.commute)
next
  case False
  let ?c = "length g mod 4"
  have c: "0 < ?c" "?c < 4" using False by simp_all
  have v: "valid_bytes (length g) = 8 - ?c" using False by (simp add: valid_bytes_def)
  let ?x = "take (4 - ?c) hdr @ replicate ?c 0"
  have "take (8 - ?c) (sy @ hdr @ rest) = sy @ take (4 - ?c) hdr" using assms(2,3) c by simp
  then have b: "drop 4 (scan_buf S (length g)) = ?x" using assms(1,2) c v by (simp add: scan_buf_def)
  have lx: "length ?x = 4" using assms(3) c by simp
  have n: "nwp_in w = drop (4 - ?c) hdr @ rest"
    using assms c v by simp
  have "take (4 - ?c) (?x @ ?x) = take (4 - ?c) hdr" using assms(3) c by simp
  moreover have "take ?c (nwp_in w) = take ?c (drop (4 - ?c) hdr)" using n assms(3) c by simp
  moreover have "drop 4 (?x @ ?x) = ?x" using lx by simp
  moreover have "take 4 hdr = take (4 - ?c) hdr @ take ?c (drop (4 - ?c) hdr)"
    using c take_add [of "4 - ?c" ?c hdr] by simp
  moreover have "drop ?c (nwp_in w) = drop (length g + 8) S" using n assms c by simp
  ultimately have r: "read_at (bus wait run) (4 - ?c) ?c (?x @ ?x) w = Some (take 4 hdr @ ?x, w\<lparr>nwp_in := drop (length g + 8) S\<rparr>)"
    using c lx n assms(3) by (subst bus_read_at) simp_all
  show ?thesis by (rule that [OF lx]) (use r c(1) in \<open>simp only: b if_True\<close>)
qed

text \<open>The patterns that are repeated are skipped.\<close>

definition all_sync :: "u8 \<Rightarrow> u8 list list \<Rightarrow> bool" where
  "all_sync seq ps \<longleftrightarrow> (\<forall>p\<in>set ps. length p = 4 \<and> sync_match p seq)"

lemma double_sync_stop:
  "length h = 4 \<Longrightarrow> \<not> sync_match h seq \<Longrightarrow> double_sync b seq (h @ x) w = Some (h @ x, w)"
  by (subst double_sync.simps) (simp add: sync_match_prefix)

lemma double_sync_skips:
  assumes "all_sync seq (p # ps)" "length h = 4" "\<not> sync_match h seq" "nwp_in w = concat ps @ h @ rest"
  shows "double_sync (bus wait run) seq (p @ x) w = Some (h @ x, w\<lparr>nwp_in := rest\<rparr>)"
  using assms(1,4)
proof (induction ps arbitrary: p w)
  case Nil
  then have p: "length p = 4" "sync_match (p @ x) seq" by (simp_all add: all_sync_def sync_match_prefix)
  have "read_at (bus wait run) 0 4 (p @ x) w = Some (h @ x, w\<lparr>nwp_in := rest\<rparr>)"
    using Nil p(1) assms(2) by (subst bus_read_at) simp_all
  with double_sync_stop [OF assms(2,3)] show ?case
    by (subst double_sync.simps) (simp add: p(2) SYNC_PATTERN_LEN_def)
next
  case (Cons q ps)
  then have p: "length p = 4" "sync_match (p @ x) seq" and q: "length q = 4" "all_sync seq (q # ps)"
    by (simp_all add: all_sync_def sync_match_prefix)
  let ?w = "w\<lparr>nwp_in := concat ps @ h @ rest\<rparr>"
  have "read_at (bus wait run) 0 4 (p @ x) w = Some (q @ x, ?w)"
    using Cons.prems p(1) q(1) by (subst bus_read_at) simp_all
  with Cons.IH [OF q(2), of ?w] show ?case
    by (subst double_sync.simps) (simp add: p(2) SYNC_PATTERN_LEN_def)
qed

lemma rx_header_repeated:
  assumes "nwp_in w = g @ sy @ concat ps @ hdr @ rest" "length sy = 4" "length hdr = 8" "length g \<le> SL_SYNC_SCAN_THRESHOLD"
    "sync_match sy (TxSeqNum s)" "all_sync (TxSeqNum s) ps" "\<not> sync_match hdr (TxSeqNum s)" "\<And>i. i < length g \<Longrightarrow> \<not> sync_at (TxSeqNum s) (nwp_in w) i"
  shows "SlDrvRxHdrRead (bus wait run) s w =
    Some (hdr, pad_of (length g), s\<lparr>TxSeqNum := TxSeqNum s + 1\<rparr>, w\<lparr>nwp_in := rest, nwp_out := nwp_out w @ H2N_CNYS\<rparr>)"
proof -
  let ?b = "bus wait run" and ?S = "nwp_in w" and ?o = "length g"
  let ?w1 = "w\<lparr>nwp_out := nwp_out w @ H2N_CNYS\<rparr>" and ?T = "concat ps @ hdr @ rest"
  let ?h = "take 4 hdr"
  have S: "?S = g @ sy @ take 8 ?T @ drop 8 ?T" "length (take 8 ?T) = 8"
    unfolding append_take_drop_id using assms(1,3) by simp_all
  have h: "length ?h = 4" "\<not> sync_match ?h (TxSeqNum s)"
    using assms(3,7) sync_match_prefix [of ?h "drop 4 hdr"] by simp_all
  have wr: "nwp_write ?b H2N_CNYS 4 w = Some ?w1"
    by (simp add: bus_write H2N_CNYS_def)
  have rd: "read_at ?b 0 4 (replicate 8 0) ?w1 = Some (scan_buf ?S 0, ?w1\<lparr>nwp_in := drop 4 ?S\<rparr>)"
    using assms(1-3) by (subst bus_read_at) (simp_all add: scan_buf_def valid_bytes_def)
  have sc: "sync_scan ?b (TxSeqNum s) 0 (scan_buf ?S 0) (?w1\<lparr>nwp_in := drop 4 ?S\<rparr>) =
      Some (?o, scan_buf ?S ?o, ?w1\<lparr>nwp_in := drop (?o + valid_bytes ?o) ?S\<rparr>)"
    using assms by (subst sync_scan_finds [of 0 ?o]) (simp_all add: sync_at_def valid_bytes_def)
  obtain x where x: "length x = 4"
    "(if 0 < ?o mod 4 then read_at ?b (4 - ?o mod 4) (?o mod 4) (drop 4 (scan_buf ?S ?o) @ drop 4 (scan_buf ?S ?o)) (?w1\<lparr>nwp_in := drop (?o + valid_bytes ?o) ?S\<rparr>)
      else read_at ?b 0 4 (scan_buf ?S ?o) (?w1\<lparr>nwp_in := drop (?o + valid_bytes ?o) ?S\<rparr>)) =
     Some (take 4 (take 8 ?T) @ x, ?w1\<lparr>nwp_in := drop (?o + 8) ?S\<rparr>)"
    using complete_header [OF S(1) assms(2) S(2), of "?w1\<lparr>nwp_in := drop (?o + valid_bytes ?o) ?S\<rparr>"] by auto
  have dbl: "double_sync ?b (TxSeqNum s) (take 4 (take 8 ?T) @ x) (?w1\<lparr>nwp_in := drop (?o + 8) ?S\<rparr>) =
      Some (?h @ x, ?w1\<lparr>nwp_in := drop 4 hdr @ rest\<rparr>)"
  proof (cases ps)
    case Nil
    with assms(1-3) double_sync_stop [OF h] show ?thesis by simp
  next
    case (Cons p qs)
    with assms(6) have p: "length p = 4" by (simp add: all_sync_def)
    have "drop (?o + 8) ?S = concat qs @ ?h @ drop 4 hdr @ rest" "take 4 (take 8 ?T) = p"
      using Cons p assms(1,2) append_take_drop_id [of 4 hdr] by simp_all
    with double_sync_skips [of "TxSeqNum s" p qs, OF _ h] assms(6) Cons show ?thesis by simp
  qed
  have fin: "read_at ?b 4 4 (?h @ x) (?w1\<lparr>nwp_in := drop 4 hdr @ rest\<rparr>) = Some (hdr, ?w1\<lparr>nwp_in := rest\<rparr>)"
    using assms(3) x(1) by (subst bus_read_at) simp_all
  show ?thesis
    unfolding SlDrvRxHdrRead_def
    by (simp only: wr rd sc Option.bind.simps prod.case Let_def SYNC_PATTERN_LEN_def x(2) dbl fin) (simp add: pad_of_def)
qed

lemma rx_header:
  assumes "nwp_in w = g @ sy @ hdr @ rest" "length sy = 4" "length hdr = 8" "length g \<le> SL_SYNC_SCAN_THRESHOLD"
    "sync_match sy (TxSeqNum s)" "\<not> sync_match hdr (TxSeqNum s)" "\<And>i. i < length g \<Longrightarrow> \<not> sync_at (TxSeqNum s) (nwp_in w) i"
  shows "SlDrvRxHdrRead (bus wait run) s w =
    Some (hdr, pad_of (length g), s\<lparr>TxSeqNum := TxSeqNum s + 1\<rparr>, w\<lparr>nwp_in := rest, nwp_out := nwp_out w @ H2N_CNYS\<rparr>)"
  by (rule rx_header_repeated [where ps = "[]", OF _ assms(2-5) _ assms(6,7)]) (simp_all add: assms(1) all_sync_def)

text \<open>
  C11. The header of a message is found behind any garbage and any number of repeated patterns: if the
  first synchronisation pattern of the input stands after at most 2000 bytes, followed by further
  patterns or none, the eight bytes that follow the last of them are taken as the header, all of the
  input up to there is consumed, the sequence number advances once, and the number of padding bytes is
  the one that makes the bytes read a multiple of four again.  (A header that itself starts like a
  pattern cannot be told from one and is skipped, so it is excluded.)
\<close>

theorem SlDrvRxHdrRead_finds_header:
  assumes "nwp_in w = g @ sy @ concat ps @ hdr @ rest" "length sy = 4" "length hdr = 8" "length g \<le> SL_SYNC_SCAN_THRESHOLD"
    "sync_match sy (TxSeqNum s)" "all_sync (TxSeqNum s) ps" "\<not> sync_match hdr (TxSeqNum s)"
    "\<And>i. i < length g \<Longrightarrow> \<not> sync_at (TxSeqNum s) (nwp_in w) i"
  shows "SlDrvRxHdrRead (bus wait run) s w =
    Some (hdr, pad_of (length g), s\<lparr>TxSeqNum := TxSeqNum s + 1\<rparr>, w\<lparr>nwp_in := rest, nwp_out := nwp_out w @ H2N_CNYS\<rparr>)"
  by (rule rx_header_repeated [OF assms])

definition idle :: "sync_obj \<Rightarrow> SlDriverCb \<Rightarrow> nwp \<Rightarrow> (int \<times> SlDriverCb \<times> nwp) option" where
  "idle c s w = None"

definition no_handler :: "nwp app_ops" where
  "no_handler = \<lparr>event_callback = (\<lambda>c s w. Some (s, w)),
     token_callback = (\<lambda>buf n s w. Some (\<lparr>reply_buf = buf, reply_name_len = n, reply_value_len = 0, reply_value = drop 28 buf\<rparr>, s, w))\<rparr>"

definition demo_nwp :: "u8 list \<Rightarrow> nwp" where
  "demo_nwp xs = \<lparr>nwp_in = xs, nwp_out = [], nwp_calls = [], nwp_sems = {}, nwp_more = []\<rparr>"

theorem SlDrvRxHdrRead_finds_header_witness:
  "SlDrvRxHdrRead (bus idle no_handler) (demo_pool 0) (demo_nwp ([1, 2, 3] @ [0xBA, 0xDC, 0xCD, 0xAB] @ concat [[0xBA, 0xDC, 0xCD, 0xAB], [0xBA, 0xDC, 0xCD, 0xAB]] @ [0x63, 0, 4, 0, 7, 0, 0, 0] @ [9])) =
    Some ([0x63, 0, 4, 0, 7, 0, 0, 0], 1, demo_pool 0\<lparr>TxSeqNum := 1\<rparr>, (demo_nwp [9])\<lparr>nwp_out := H2N_CNYS\<rparr>)"
proof -
  let ?w = "demo_nwp ([1, 2, 3] @ [0xBA, 0xDC, 0xCD, 0xAB] @ concat [[0xBA, 0xDC, 0xCD, 0xAB], [0xBA, 0xDC, 0xCD, 0xAB]] @ [0x63, 0, 4, 0, 7, 0, 0, 0] @ [9])"
  have "\<not> sync_at (TxSeqNum (demo_pool 0)) (nwp_in ?w) 0" "\<not> sync_at (TxSeqNum (demo_pool 0)) (nwp_in ?w) 1"
    "\<not> sync_at (TxSeqNum (demo_pool 0)) (nwp_in ?w) 2"
    by code_simp+
  then have "\<not> sync_at (TxSeqNum (demo_pool 0)) (nwp_in ?w) i" if "i < length [1 :: u8, 2, 3]" for i
    using that by (auto simp: less_Suc_eq numeral_2_eq_2)
  moreover have "all_sync (TxSeqNum (demo_pool 0)) [[0xBA, 0xDC, 0xCD, 0xAB], [0xBA, 0xDC, 0xCD, 0xAB]]"
    by code_simp
  moreover have "sync_match [0xBA, 0xDC, 0xCD, 0xAB] (TxSeqNum (demo_pool 0))"
    "\<not> sync_match [0x63, 0, 4, 0, 7, 0, 0, 0] (TxSeqNum (demo_pool 0))"
    by code_simp+
  moreover have "nwp_in ?w = [1, 2, 3] @ [0xBA, 0xDC, 0xCD, 0xAB] @ concat [[0xBA, 0xDC, 0xCD, 0xAB], [0xBA, 0xDC, 0xCD, 0xAB]] @ [0x63, 0, 4, 0, 7, 0, 0, 0] @ [9]"
    by (simp add: demo_nwp_def)
  ultimately show ?thesis
    using SlDrvRxHdrRead_finds_header [of ?w "[1, 2, 3]" "[0xBA, 0xDC, 0xCD, 0xAB]" "[[0xBA, 0xDC, 0xCD, 0xAB], [0xBA, 0xDC, 0xCD, 0xAB]]" "[0x63, 0, 4, 0, 7, 0, 0, 0]" "[9]" "demo_pool 0" idle no_handler]
    by (simp add: SL_SYNC_SCAN_THRESHOLD_def pad_of_def demo_nwp_def demo_pool_def)
qed

text \<open>The pattern the processor sends, without a sequence number, is a pattern.\<close>

lemma sync_pattern_matches: "sync_match [0xBA, 0xDC, 0xCD, 0xAB] seq"
  by (simp add: sync_match_def rd32_def N2H_SYNC_SPIM_def N2H_SYNC_PATTERN_def N2H_SYNC_SPI_BUGS_MASK_def
      N2H_SYNC_PATTERN_SEQ_NUM_EXISTS_def)

section \<open>Writing a command\<close>

lemma unat_align: "align4 n mod 4 = 0" "n \<le> align4 n" "align4 n < n + 4"
  unfolding align4_def by (simp, presburger+)

text \<open>What a command is made of, and what it needs of its buffers.\<close>

definition cmd_ready :: "SlCmdCtrl \<Rightarrow> u8 list \<Rightarrow> SlCmdExt option \<Rightarrow> bool" where
  "cmd_ready ctrl d ext \<longleftrightarrow> align4 (unat (TxDescLen ctrl)) \<le> length d \<and>
     (case ext of None \<Rightarrow> True
      | Some e \<Rightarrow> align4 (unat (TxPayloadLen e)) \<le> length (pTxPayload e) \<and> (TxPayloadLen e = 0 \<or> TxDescLen ctrl AND 3 = 0))"

definition cmd_body :: "SlCmdCtrl \<Rightarrow> u8 list \<Rightarrow> SlCmdExt option \<Rightarrow> u8 list" where
  "cmd_body ctrl d ext = take (align4 (unat (TxDescLen ctrl))) d @
     (case ext of None \<Rightarrow> [] | Some e \<Rightarrow> take (align4 (unat (TxPayloadLen e))) (pTxPayload e))"

definition cmd_bytes :: "SlCmdCtrl \<Rightarrow> u8 list \<Rightarrow> SlCmdExt option \<Rightarrow> u8 list" where
  "cmd_bytes ctrl d ext =
     H2N_SYNC @ le16 (Opcode ctrl) @ le16 (of_nat (length (cmd_body ctrl d ext))) @ cmd_body ctrl d ext"

lemma calc_len_body: "cmd_ready ctrl d ext \<Longrightarrow> calc_len ctrl ext = of_nat (length (cmd_body ctrl d ext))"
  by (auto simp: calc_len_def cmd_ready_def cmd_body_def split: option.splits)

lemma msg_write_bus:
  assumes "pCmdCtrl s = Some ctrl" "pTxRxDescBuff s = Some d" "\<not> RelayFlagsViaRxPayload s" "cmd_ready ctrl d (pCmdExt s)"
  shows "SlDrvMsgWrite (bus wait run) s w =
    Some (0, s\<lparr>hdr_Opcode := Opcode ctrl, hdr_Len := of_nat (length (cmd_body ctrl d (pCmdExt s)))\<rparr>,
      w\<lparr>nwp_out := nwp_out w @ cmd_bytes ctrl d (pCmdExt s)\<rparr>)"
proof -
  let ?b = "bus wait run" and ?n = "align4 (unat (TxDescLen ctrl))" and ?body = "cmd_body ctrl d (pCmdExt s)"
  let ?out = "\<lambda>xs. w\<lparr>nwp_out := nwp_out w @ xs\<rparr>"
  let ?hdr = "le16 (Opcode ctrl) @ le16 (of_nat (length ?body))"
  have z: "\<not> 0 < TxDescLen ctrl \<Longrightarrow> ?n = 0" "\<And>e. \<not> 0 < TxPayloadLen e \<Longrightarrow> align4 (unat (TxPayloadLen e)) = 0" "align4 0 = 0"
    by (simp_all add: word_less_nat_alt align4_def)
  have w1: "nwp_write ?b H2N_SYNC 4 w = Some (?out H2N_SYNC)" by (simp add: bus_write H2N_SYNC_def)
  have w2: "nwp_write ?b ?hdr 4 (?out H2N_SYNC) = Some (?out (H2N_SYNC @ ?hdr))"
    by (simp add: bus_write le16_def)
  have w3: "(if 0 < TxDescLen ctrl then nwp_write ?b d ?n (?out (H2N_SYNC @ ?hdr)) else Some (?out (H2N_SYNC @ ?hdr))) =
      Some (?out (H2N_SYNC @ ?hdr @ take ?n d))"
    using z(1) assms(4) by (simp add: bus_write cmd_ready_def)
  have w4: "(case pCmdExt s of
        Some e \<Rightarrow> if 0 < TxPayloadLen e then
            if TxDescLen ctrl AND 3 = 0 then nwp_write ?b (pTxPayload e) (align4 (unat (TxPayloadLen e))) (?out (H2N_SYNC @ ?hdr @ take ?n d))
            else None
          else Some (?out (H2N_SYNC @ ?hdr @ take ?n d))
      | None \<Rightarrow> Some (?out (H2N_SYNC @ ?hdr @ take ?n d))) = Some (?out (cmd_bytes ctrl d (pCmdExt s)))"
  proof (cases "pCmdExt s")
    case None
    then show ?thesis by (simp add: cmd_bytes_def cmd_body_def)
  next
    case (Some e)
    show ?thesis
    proof (cases "0 < TxPayloadLen e")
      case True
      then show ?thesis using Some assms(4) by (auto simp: bus_write cmd_ready_def cmd_bytes_def cmd_body_def)
    next
      case False
      then show ?thesis using Some z(2) [OF False] by (simp add: cmd_bytes_def cmd_body_def)
    qed
  qed
  let ?s = "s\<lparr>hdr_Opcode := Opcode ctrl, hdr_Len := of_nat (length ?body)\<rparr>"
  have s1: "RelayFlagsViaRxPayload ?s = False" "pTxRxDescBuff ?s = Some d" "pCmdExt ?s = pCmdExt s"
    "hdr_Opcode ?s = Opcode ctrl" "hdr_Len ?s = of_nat (length ?body)"
    using assms(2,3) by simp_all
  show ?thesis
    by (simp only: SlDrvMsgWrite_def assms(1) calc_len_body [OF assms(4)] Let_def s1 Option.bind.simps if_False option.case prod.case
        SYNC_PATTERN_LEN_def w1 w2 w3 w4)
qed

text \<open>What a command puts on the bus: the pattern, the opcode, the length of what follows, then the
  descriptor and the payload, each filled up to whole words; nothing else is written, and nothing else
  of the control block changes.
\<close>

theorem SlDrvMsgWrite_sends:
  assumes "pCmdCtrl s = Some ctrl" "pTxRxDescBuff s = Some d" "pCmdExt s = Some e" "\<not> RelayFlagsViaRxPayload s"
    "align4 (unat (TxDescLen ctrl)) \<le> length d" "align4 (unat (TxPayloadLen e)) \<le> length (pTxPayload e)"
    "TxDescLen ctrl AND 3 = 0"
    "body = take (align4 (unat (TxDescLen ctrl))) d @ take (align4 (unat (TxPayloadLen e))) (pTxPayload e)"
  shows "SlDrvMsgWrite (bus wait run) s w =
    Some (0, s\<lparr>hdr_Opcode := Opcode ctrl, hdr_Len := of_nat (length body)\<rparr>,
      w\<lparr>nwp_out := nwp_out w @ H2N_SYNC @ le16 (Opcode ctrl) @ le16 (of_nat (length body)) @ body\<rparr>)"
proof -
  have "cmd_ready ctrl d (pCmdExt s)" "body = cmd_body ctrl d (pCmdExt s)"
    using assms(3,5-8) by (simp_all add: cmd_ready_def cmd_body_def)
  then show ?thesis using msg_write_bus [OF assms(1,2,4), of wait run w] by (simp add: cmd_bytes_def)
qed

definition demo_send :: SlDriverCb where
  "demo_send = demo_pool 0\<lparr>pCmdCtrl := Some \<lparr>Opcode = 0x940C, TxDescLen = 4, RxDescLen = 0\<rparr>, pTxRxDescBuff := Some [1, 0, 2, 0],
     pCmdExt := Some \<lparr>TxPayloadLen = 2, RxPayloadLen = 0, ActualRxPayloadLen = 0, pTxPayload = [7, 8, 0, 0], pRxPayload = None\<rparr>\<rparr>"

theorem SlDrvMsgWrite_sends_witness:
  "SlDrvMsgWrite (bus idle no_handler) demo_send (demo_nwp []) =
    Some (0, demo_send\<lparr>hdr_Opcode := 0x940C, hdr_Len := 8\<rparr>,
      (demo_nwp [])\<lparr>nwp_out := H2N_SYNC @ [0x0C, 0x94, 8, 0, 1, 0, 2, 0, 7, 8, 0, 0]\<rparr>)"
proof -
  let ?c = "\<lparr>Opcode = 0x940C, TxDescLen = 4, RxDescLen = 0\<rparr>"
  let ?e = "\<lparr>TxPayloadLen = 2, RxPayloadLen = 0, ActualRxPayloadLen = 0, pTxPayload = [7, 8, 0, 0], pRxPayload = None\<rparr>"
  have "pCmdCtrl demo_send = Some ?c" "pTxRxDescBuff demo_send = Some [1, 0, 2, 0]" "pCmdExt demo_send = Some ?e"
    "\<not> RelayFlagsViaRxPayload demo_send"
    by (simp_all add: demo_send_def demo_pool_def)
  moreover have "align4 (unat (TxDescLen ?c)) = 4" "align4 (unat (TxPayloadLen ?e)) = 4" by code_simp+
  ultimately show ?thesis
    using SlDrvMsgWrite_sends [of demo_send ?c "[1, 0, 2, 0]" ?e "[1, 0, 2, 0, 7, 8, 0, 0]" idle no_handler "demo_nwp []"]
    by (simp add: demo_nwp_def le16_def)
qed

section \<open>Reading data\<close>

lemma read_data_bus:
  assumes "n \<le> length buf" "align4 n \<le> length (nwp_in w)" "n < 32768"
  shows "read_data (bus wait run) n buf w =
    Some (take n (nwp_in w) @ drop n buf, w\<lparr>nwp_in := drop (align4 n) (nwp_in w)\<rparr>)"
proof -
  let ?a = "n - n mod 4" and ?t = "n mod 4"
  have al: "align4 n = (if ?t = 0 then n else ?a + 4)" by (simp add: align4_def) presburger
  have first: "(if 4 \<le> ?a then read_at (bus wait run) 0 ?a buf w else Some (buf, w)) =
      Some (take ?a (nwp_in w) @ drop ?a buf, w\<lparr>nwp_in := drop ?a (nwp_in w)\<rparr>)"
  proof (cases "4 \<le> ?a")
    case True
    then show ?thesis using assms al by (simp add: bus_read_at split: if_splits)
  next
    case False
    then have "?a = 0" by presburger
    then show ?thesis by simp
  qed
  show ?thesis
  proof (cases "?t = 0")
    case True
    have "read_data (bus wait run) n buf w = Some (take ?a (nwp_in w) @ drop ?a buf, w\<lparr>nwp_in := drop ?a (nwp_in w)\<rparr>)"
      unfolding read_data_def Let_def by (simp only: first Option.bind.simps prod.case) (simp add: True)
    then show ?thesis using True al by simp
  next
    case False
    let ?w1 = "w\<lparr>nwp_in := drop ?a (nwp_in w)\<rparr>"
    have l: "?a + 4 \<le> length (nwp_in w)" using assms(2) al False by simp
    then have rd: "read_at (bus wait run) 0 4 (replicate 4 0) ?w1 =
        Some (take 4 (drop ?a (nwp_in w)), w\<lparr>nwp_in := drop (?a + 4) (nwp_in w)\<rparr>)"
      by (subst bus_read_at) (simp_all add: add.commute)
    have t4: "?t < 4" by simp
    have "take ?t (take 4 (drop ?a (nwp_in w))) = take ?t (drop ?a (nwp_in w))" using t4 by (simp add: min_def)
    moreover have "poke ?a (take ?t (drop ?a (nwp_in w))) (take ?a (nwp_in w) @ drop ?a buf) =
        Some (take n (nwp_in w) @ drop n buf)"
    proof -
      have lt: "length (take ?t (drop ?a (nwp_in w))) = ?t" "length (take ?a (nwp_in w)) = ?a" using l t4 by simp_all
      have "take ?a (nwp_in w) @ take ?t (drop ?a (nwp_in w)) = take n (nwp_in w)"
        using take_add [of ?a ?t "nwp_in w"] by simp
      then show ?thesis using assms(1) lt by (simp add: poke_def)
    qed
    ultimately show ?thesis
      unfolding read_data_def Let_def using False al rd by (simp only: first Option.bind.simps prod.case) simp
  qed
qed

end
