(* ===== verification/Sl_Cmd_Props.thy ===== *)
theory Sl_Cmd_Props
  imports Sl_Link Sl_Pool_Threads
begin

text \<open>
  The host driver and a processor that speaks the protocol, together: a command returns what the
  processor answered, received data reaches the caller that waits for it, and both leave the control
  block ready for the next operation.  Then the defects of the reader and of the flow control.
\<close>

section \<open>Messages of the processor\<close>

lemma rd16_le16:
  "rd16 0 (le16 a @ xs) = a" "rd16 2 (le16 b @ le16 a @ xs) = a" "rd16 4 (le16 c @ le16 b @ le16 a @ xs) = a"
proof -
  have "ucast (ucast v :: u8) OR push_bit 8 (ucast (ucast (drop_bit 8 v) :: u8)) = v" for v :: u16
    by (rule bit_word_eqI) (auto simp: bit_simps)
  then show "rd16 0 (le16 a @ xs) = a" "rd16 2 (le16 b @ le16 a @ xs) = a" "rd16 4 (le16 c @ le16 b @ le16 a @ xs) = a"
    by (simp_all add: rd16_def le16_def)
qed

text \<open>A header that is taken for the pattern has its length field.\<close>

lemma rd32_high: "drop_bit 16 (rd32 xs) = ucast (rd16 2 xs)"
proof (rule bit_word_eqI)
  have out: "8 \<le> n \<Longrightarrow> \<not> bit (a :: u8) n" for a n
    using bit_imp_le_length [of a n] by auto
  have three: "xs ! Suc (Suc (Suc 0)) = xs ! 3"
    by (simp only: numeral_3_eq_3)
  fix n
  assume "n < LENGTH(32)"
  then show "bit (drop_bit 16 (rd32 xs)) n \<longleftrightarrow> bit (ucast (rd16 2 xs) :: u32) n"
    using three by (auto simp: rd32_def rd16_def bit_simps out add.commute)
qed

lemma sync_match_len:
  assumes "sync_match xs seq"
  shows "rd16 2 xs AND 0x7FFF = 0x2BCD"
proof -
  have "rd32 xs AND N2H_SYNC_SPI_BUGS_MASK \<in> {N2H_SYNC_SPIM, N2H_SYNC_SPIM_WITH_SEQ seq}"
    using assms by (auto simp: sync_match_def Let_def split: if_splits)
  then have "drop_bit 16 (rd32 xs AND N2H_SYNC_SPI_BUGS_MASK) \<in> {drop_bit 16 N2H_SYNC_SPIM, drop_bit 16 (N2H_SYNC_SPIM_WITH_SEQ seq)}"
    by (elim insertE) (simp_all only: insert_iff simp_thms empty_iff)
  moreover have "drop_bit 16 N2H_SYNC_SPIM = 0x2BCD" by code_simp
  moreover have "drop_bit 16 (N2H_SYNC_SPIM_WITH_SEQ seq) = 0x2BCD"
  proof -
    have "drop_bit 16 (ucast seq AND N2H_SYNC_PATTERN_SEQ_NUM_BITS) = 0"
      by (rule bit_word_eqI) (auto simp: bit_simps N2H_SYNC_PATTERN_SEQ_NUM_BITS_def dest: bit_imp_le_length)
    moreover have "drop_bit 16 ((N2H_SYNC_SPIM AND N2H_SYNC_PATTERN_MASK) OR N2H_SYNC_PATTERN_SEQ_NUM_EXISTS) = 0x2BCD" by code_simp
    ultimately show ?thesis unfolding N2H_SYNC_SPIM_WITH_SEQ_def by (simp only: drop_bit_or) simp
  qed
  ultimately have "drop_bit 16 (rd32 xs AND N2H_SYNC_SPI_BUGS_MASK) = 0x2BCD" by auto
  then have "ucast (rd16 2 xs) AND (0x7FFF :: u32) = 0x2BCD"
    by (simp add: drop_bit_and rd32_high N2H_SYNC_SPI_BUGS_MASK_def)
  then have "ucast (ucast (rd16 2 xs) AND (0x7FFF :: u32)) = (0x2BCD :: u16)" by simp
  moreover have "ucast (ucast (rd16 2 xs) AND (0x7FFF :: u32)) = rd16 2 xs AND (0x7FFF :: u16)"
    by (rule bit_word_eqI) (auto simp: bit_simps)
  ultimately show ?thesis by simp
qed

text \<open>A message as the processor sends it, aligned and without a sequence number.\<close>

definition nwp_msg :: "u16 \<Rightarrow> u16 \<Rightarrow> u8 list \<Rightarrow> u8 list \<Rightarrow> u8 list" where
  "nwp_msg op len fl body = [0xBA, 0xDC, 0xCD, 0xAB] @ le16 op @ le16 len @ fl @ body"

definition clear_len :: "u16 \<Rightarrow> bool" where
  "clear_len len \<longleftrightarrow> len AND 0x7FFF \<noteq> 0x2BCD"

lemma header_bus:
  assumes "nwp_in w = nwp_msg op len fl body @ rest" "length fl = 4" "clear_len len"
  shows "SlDrvRxHdrRead (bus wait run) s w =
    Some (le16 op @ le16 len @ fl, 0, s\<lparr>TxSeqNum := TxSeqNum s + 1\<rparr>,
      w\<lparr>nwp_in := body @ rest, nwp_out := nwp_out w @ H2N_CNYS\<rparr>)"
proof -
  have "\<not> sync_match (le16 op @ le16 len @ fl) (TxSeqNum s)"
    using sync_match_len [of "le16 op @ le16 len @ fl"] assms(3) by (auto simp: clear_len_def rd16_le16)
  moreover have "length (le16 op @ le16 len @ fl) = 8" using assms(2) by (simp add: le16_def)
  ultimately show ?thesis
    using assms(1) rx_header [of w "[]" "[0xBA, 0xDC, 0xCD, 0xAB]" "le16 op @ le16 len @ fl" "body @ rest" s wait run]
    by (simp add: nwp_msg_def sync_pattern_matches pad_of_def)
qed

text \<open>What a header brings: the number of free buffers and the state of the sockets.\<close>

definition with_flags :: "u8 list \<Rightarrow> SlDriverCb \<Rightarrow> SlDriverCb" where
  "with_flags fl s = s\<lparr>TxSeqNum := TxSeqNum s + 1, TxPoolCnt := fl ! 0, SocketNonBlocking := fl ! 3, SocketTXFailure := fl ! 2\<rparr>"

definition flow_signal :: "u8 list \<Rightarrow> nwp \<Rightarrow> nwp" where
  "flow_signal fl w = (if FLOW_CONT_MIN < fl ! 0 then call (SyncSignal TxSyncObj) w else w)"

lemma flow_signal_simps [simp]:
  "nwp_in (flow_signal fl w) = nwp_in w" "nwp_out (flow_signal fl w) = nwp_out w" "nwp_more (flow_signal fl w) = nwp_more w"
  "nwp_sems (flow_signal fl w) = (if FLOW_CONT_MIN < fl ! 0 then insert TxSyncObj (nwp_sems w) else nwp_sems w)"
  by (simp_all add: flow_signal_def call_def)

lemma call_simps [simp]:
  "nwp_in (call c w) = nwp_in w" "nwp_out (call c w) = nwp_out w" "nwp_more (call c w) = nwp_more w"
  "nwp_sems (call c w) = sem_after c (nwp_sems w)" "nwp_calls (call c w) = nwp_calls w @ [c]"
  by (simp_all add: call_def)

lemma msg_read_bus:
  fixes s :: SlDriverCb
  assumes "nwp_in w = nwp_msg op len fl body @ rest" "length fl = 4" "clear_len len" "op \<noteq> SL_OPCODE_DEVICE_INITCOMPLETE"
  defines "hdr \<equiv> le16 op @ le16 len @ fl"
    and "s3 \<equiv> SlDrvClassifyRxMsg op (with_flags fl s)"
    and "w2 \<equiv> flow_signal fl (w\<lparr>nwp_in := body @ rest, nwp_out := nwp_out w @ H2N_CNYS\<rparr>)"
  shows "SlDrvMsgRead (bus wait run) s w = do {
     (s4, w4) \<leftarrow> (case RxMsgClass s3 of
         Some ASYNC_EVT_CLASS \<Rightarrow> read_async (bus wait run) hdr s3 w2
       | Some RECV_RESP_CLASS \<Rightarrow> read_recv (bus wait run) hdr s3 w2
       | Some CMD_RESP_CLASS \<Rightarrow> read_cmd_resp (bus wait run) hdr s3 w2
       | _ \<Rightarrow> Some (s3, w2));
     Some (0, s4, w4)
   }"
proof -
  let ?w1 = "w\<lparr>nwp_in := body @ rest, nwp_out := nwp_out w @ H2N_CNYS\<rparr>"
  have op: "rd16 0 hdr = op" by (simp add: hdr_def rd16_le16)
  have fl: "hdr ! 4 = fl ! 0" "hdr ! 7 = fl ! 3" "hdr ! 6 = fl ! 2" by (simp_all add: hdr_def le16_def)
  have hd: "SlDrvRxHdrRead (bus wait run) s w = Some (hdr, 0, s\<lparr>TxSeqNum := TxSeqNum s + 1\<rparr>, ?w1)"
    unfolding hdr_def by (rule header_bus [OF assms(1-3)])
  have sig: "(if FLOW_CONT_MIN < TxPoolCnt (with_flags fl s) then osi_ok (bus wait run) (SyncSignal TxSyncObj) ?w1 else Some ?w1) = Some w2"
    by (simp add: with_flags_def w2_def flow_signal_def bus_osi)
  have fs: "s\<lparr>TxSeqNum := TxSeqNum s + 1, TxPoolCnt := fl ! 0, SocketNonBlocking := fl ! 3, SocketTXFailure := fl ! 2\<rparr> = with_flags fl s"
    by (simp add: with_flags_def)
  show ?thesis
    unfolding SlDrvMsgRead_def
    by (simp only: hd Option.bind.simps prod.case Let_def op fl assms(4) not_False_eq_True if_True fs sig s3_def [symmetric]
        less_irrefl if_False bus_rest)
qed

section \<open>Commands\<close>

text \<open>
  A processor that works while the host waits: the messages it still has to send arrive one by one, the
  interrupt handler runs for each, and unless a command waits for its response the reading task runs
  too; the wait ends when its semaphore is signalled.
\<close>

partial_function (option) processor ::
  "nwp app_ops \<Rightarrow> sync_obj \<Rightarrow> SlDriverCb \<Rightarrow> nwp \<Rightarrow> (int \<times> SlDriverCb \<times> nwp) option" where
  "processor run c s w =
     (if c \<in> nwp_sems w then Some (0, s, w\<lparr>nwp_sems := nwp_sems w - {c}\<rparr>)
      else case nwp_more w of
        [] \<Rightarrow> None
      | m # ms \<Rightarrow> do {
          (s1, w1) \<leftarrow> SlDrvRxIrqHandler (bus idle run) s (w\<lparr>nwp_in := nwp_in w @ m, nwp_more := ms\<rparr>);
          (s2, w2) \<leftarrow> (if IsCmdRespWaited s1 then Some (s1, w1)
            else do { (r, s', w') \<leftarrow> SlDrvMsgReadSpawnCtx (bus idle run) s1 w1; Some (s', w') });
          processor run c s2 w2
        })"

lemma processor_command:
  assumes "IsCmdRespWaited s" "CmdSyncObj \<notin> nwp_sems w" "nwp_more w = m # ms"
  shows "processor run CmdSyncObj s w =
    Some (0, s\<lparr>RxIrqCnt := RxIrqCnt s + 1\<rparr>,
      w\<lparr>nwp_in := nwp_in w @ m, nwp_more := ms, nwp_calls := nwp_calls w @ [SyncSignal CmdSyncObj]\<rparr>)"
proof -
  let ?w = "w\<lparr>nwp_in := nwp_in w @ m, nwp_more := ms\<rparr>"
  have irq: "SlDrvRxIrqHandler (bus idle run) s ?w = Some (s\<lparr>RxIrqCnt := RxIrqCnt s + 1\<rparr>, call (SyncSignal CmdSyncObj) ?w)"
    using assms(1) by (simp add: SlDrvRxIrqHandler_def bus_osi bus_rest)
  have "processor run CmdSyncObj s w = processor run CmdSyncObj (s\<lparr>RxIrqCnt := RxIrqCnt s + 1\<rparr>) (call (SyncSignal CmdSyncObj) ?w)"
    using assms by (subst processor.simps) (simp add: irq)
  also have "\<dots> = Some (0, s\<lparr>RxIrqCnt := RxIrqCnt s + 1\<rparr>, ?w\<lparr>nwp_calls := nwp_calls w @ [SyncSignal CmdSyncObj]\<rparr>)"
    using assms(2) by (subst processor.simps) (simp add: call_def)
  finally show ?thesis .
qed

text \<open>What stays of the control block while a command is carried out.\<close>

definition same_pool :: "SlDriverCb \<Rightarrow> SlDriverCb \<Rightarrow> bool" where
  "same_pool s s' \<longleftrightarrow> ObjPool s' = ObjPool s \<and> FreePoolIdx s' = FreePoolIdx s \<and> PendingPoolIdx s' = PendingPoolIdx s \<and>
     ActivePoolIdx s' = ActivePoolIdx s \<and> ActiveActionsBitmap s' = ActiveActionsBitmap s \<and>
     RelayFlagsViaRxPayload s' = RelayFlagsViaRxPayload s"

definition same_params :: "SlDriverCb \<Rightarrow> SlDriverCb \<Rightarrow> bool" where
  "same_params s s' \<longleftrightarrow> pCmdCtrl s' = pCmdCtrl s \<and> pTxRxDescBuff s' = pTxRxDescBuff s \<and> pCmdExt s' = pCmdExt s"

lemma classify_response: "SL_OPCODE_SYNC AND op \<noteq> 0 \<Longrightarrow>
    SlDrvClassifyRxMsg op s = s\<lparr>AsyncEvtHandler := None, RxMsgClass := Some CMD_RESP_CLASS\<rparr>"
  by (simp add: SlDrvClassifyRxMsg_def)

lemma classify_dummy:
  "SlDrvClassifyRxMsg SL_OPCODE_DEVICE_DEVICEASYNCDUMMY s = s\<lparr>AsyncEvtHandler := None, RxMsgClass := Some DUMMY_MSG_CLASS\<rparr>"
  by (simp add: SlDrvClassifyRxMsg_def SL_OPCODE_DEVICE_DEVICEASYNCDUMMY_def SL_OPCODE_SYNC_def)

definition dummy_msg :: "u8 list \<Rightarrow> u8 list" where
  "dummy_msg fl = nwp_msg SL_OPCODE_DEVICE_DEVICEASYNCDUMMY 4 fl []"

text \<open>A flow-control message only brings its header.\<close>

lemma read_dummy:
  assumes "nwp_in w = dummy_msg fl" "length fl = 4"
  shows "read_one (bus wait run) s w =
    Some (with_flags fl (s\<lparr>pAsyncBuf := None\<rparr>)\<lparr>AsyncEvtHandler := None, RxMsgClass := Some DUMMY_MSG_CLASS, RxDoneCnt := RxDoneCnt s + 1\<rparr>,
      flow_signal fl (w\<lparr>nwp_in := [], nwp_out := nwp_out w @ H2N_CNYS\<rparr>))"
proof -
  have "clear_len 4" "SL_OPCODE_DEVICE_DEVICEASYNCDUMMY \<noteq> SL_OPCODE_DEVICE_INITCOMPLETE"
    by (simp_all add: clear_len_def async_opcodes)
  moreover have "nwp_in w = nwp_msg SL_OPCODE_DEVICE_DEVICEASYNCDUMMY 4 fl [] @ []" using assms(1) by (simp add: dummy_msg_def)
  ultimately have "SlDrvMsgRead (bus wait run) (prepare_read None s) w =
      Some (0, SlDrvClassifyRxMsg SL_OPCODE_DEVICE_DEVICEASYNCDUMMY (with_flags fl (prepare_read None s)),
        flow_signal fl (w\<lparr>nwp_in := [], nwp_out := nwp_out w @ H2N_CNYS\<rparr>))"
    using msg_read_bus [of w SL_OPCODE_DEVICE_DEVICEASYNCDUMMY 4 fl "[]" "[]" wait run "prepare_read None s"] assms(2)
    by (simp add: classify_dummy)
  then show ?thesis
    by (simp add: read_one_def classify_dummy prepare_read_def with_flags_def)
qed

text \<open>
  A response: whatever the reader of responses makes of the descriptor and the payload, it is left in the
  parameters, and the command no longer waits.
\<close>

definition answers :: "nwp host_ops \<Rightarrow> u8 list \<Rightarrow> u8 list \<Rightarrow> SlDriverCb \<Rightarrow> u8 list \<Rightarrow> SlCmdExt option \<Rightarrow> bool" where
  "answers ops hdr body s d e \<longleftrightarrow> (\<forall>s' w'. same_params s s' \<longrightarrow> nwp_in w' = body \<longrightarrow>
     read_cmd_resp ops hdr s' w' = Some (s'\<lparr>pTxRxDescBuff := Some d, pCmdExt := e\<rparr>, w'\<lparr>nwp_in := []\<rparr>))"

lemma read_response:
  assumes "nwp_in w = nwp_msg op len fl body" "length fl = 4" "clear_len len" "SL_OPCODE_SYNC AND op \<noteq> 0"
    "answers (bus wait run) (le16 op @ le16 len @ fl) body s d e"
  shows "read_one (bus wait run) s w =
    Some (with_flags fl (s\<lparr>pAsyncBuf := None\<rparr>)\<lparr>AsyncEvtHandler := None, RxMsgClass := Some CMD_RESP_CLASS,
        pTxRxDescBuff := Some d, pCmdExt := e, RxDoneCnt := RxDoneCnt s + 1, IsCmdRespWaited := False\<rparr>,
      call (SyncClear CmdSyncObj) (flow_signal fl (w\<lparr>nwp_in := [], nwp_out := nwp_out w @ H2N_CNYS\<rparr>)))"
proof -
  let ?s = "SlDrvClassifyRxMsg op (with_flags fl (prepare_read None s))"
  let ?w = "flow_signal fl (w\<lparr>nwp_in := body, nwp_out := nwp_out w @ H2N_CNYS\<rparr>)"
  have op: "op \<noteq> SL_OPCODE_DEVICE_INITCOMPLETE" using assms(4) by (auto simp: SL_OPCODE_DEVICE_INITCOMPLETE_def SL_OPCODE_SYNC_def)
  have "same_params s ?s" using assms(4) by (simp add: same_params_def classify_response with_flags_def prepare_read_def)
  then have rc: "read_cmd_resp (bus wait run) (le16 op @ le16 len @ fl) ?s ?w =
      Some (?s\<lparr>pTxRxDescBuff := Some d, pCmdExt := e\<rparr>, ?w\<lparr>nwp_in := []\<rparr>)"
    using assms(5) by (simp add: answers_def)
  have "RxMsgClass ?s = Some CMD_RESP_CLASS" using assms(4) by (simp add: classify_response)
  then have "SlDrvMsgRead (bus wait run) (prepare_read None s) w = Some (0, ?s\<lparr>pTxRxDescBuff := Some d, pCmdExt := e\<rparr>, ?w\<lparr>nwp_in := []\<rparr>)"
    using msg_read_bus [of w op len fl body "[]" wait run "prepare_read None s"] assms(1-3) op rc by simp
  moreover have "?w\<lparr>nwp_in := []\<rparr> = flow_signal fl (w\<lparr>nwp_in := [], nwp_out := nwp_out w @ H2N_CNYS\<rparr>)"
    by (simp add: flow_signal_def call_def)
  ultimately show ?thesis
    using assms(4) by (simp add: read_one_def classify_response prepare_read_def with_flags_def bus_osi)
qed

lemma answers_cong: "answers ops hdr body s d e \<Longrightarrow> same_params s s' \<Longrightarrow> answers ops hdr body s' d e"
  by (simp add: answers_def same_params_def)

text \<open>One message while a command waits.\<close>

lemma read_until_step:
  assumes "IsCmdRespWaited s" "RxIrqCnt s = RxDoneCnt s" "nwp_in w = []" "CmdSyncObj \<notin> nwp_sems w" "nwp_more w = m # ms"
    "read_one (bus (processor run) run) (s\<lparr>RxIrqCnt := RxIrqCnt s + 1\<rparr>)
       (w\<lparr>nwp_in := m, nwp_more := ms, nwp_calls := nwp_calls w @ [SyncSignal CmdSyncObj]\<rparr>) = Some (s2, w2)"
  shows "read_until (bus (processor run) run) s w = read_until (bus (processor run) run) s2 w2"
proof -
  let ?b = "bus (processor run) run"
  let ?s = "s\<lparr>RxIrqCnt := RxIrqCnt s + 1\<rparr>"
  let ?w = "w\<lparr>nwp_in := m, nwp_more := ms, nwp_calls := nwp_calls w @ [SyncSignal CmdSyncObj]\<rparr>"
  have "osi_wait_ok ?b CmdSyncObj s w = Some (?s, ?w)"
    using processor_command [OF assms(1,4,5), of run] assms(3) by (simp add: osi_wait_ok_def bus_wait)
  then have "read_until ?b s w = read_until ?b ?s ?w"
    using assms(1,2) by (subst read_until.simps) (simp add: pending_rx_def)
  also have "\<dots> = read_until ?b s2 w2"
    using assms(1,2,6) by (subst read_until.simps) (simp add: pending_rx_def)
  finally show ?thesis .
qed

text \<open>The command waits: flow-control messages may come first, then the response.\<close>

lemma read_until_response:
  assumes "IsCmdRespWaited s" "RxIrqCnt s = RxDoneCnt s" "nwp_in w = []" "CmdSyncObj \<notin> nwp_sems w"
    "nwp_more w = map dummy_msg fs @ nwp_msg op len fl body # later" "\<forall>f \<in> set fs. length f = 4"
    "length fl = 4" "clear_len len" "SL_OPCODE_SYNC AND op \<noteq> 0"
    "answers (bus (processor run) run) (le16 op @ le16 len @ fl) body s d e"
  obtains s' w' where "read_until (bus (processor run) run) s w = Some (s', w')"
    "pTxRxDescBuff s' = Some d" "pCmdExt s' = e" "\<not> IsCmdRespWaited s'" "RxIrqCnt s' = RxDoneCnt s'" "same_pool s s'"
    "TxPoolCnt s' = fl ! 0" "SocketNonBlocking s' = fl ! 3" "SocketTXFailure s' = fl ! 2"
    "nwp_in w' = []" "nwp_more w' = later" "CmdSyncObj \<notin> nwp_sems w'"
    "nwp_out w' = nwp_out w @ concat (replicate (Suc (length fs)) H2N_CNYS)" "pCmdCtrl s' = pCmdCtrl s"
  using assms
proof (induction fs arbitrary: s w thesis)
  case Nil
  let ?b = "bus (processor run) run"
  let ?s = "s\<lparr>RxIrqCnt := RxIrqCnt s + 1\<rparr>"
  let ?w = "w\<lparr>nwp_in := nwp_msg op len fl body, nwp_more := later, nwp_calls := nwp_calls w @ [SyncSignal CmdSyncObj]\<rparr>"
  define s2 where "s2 = with_flags fl (?s\<lparr>pAsyncBuf := None\<rparr>)\<lparr>AsyncEvtHandler := None, RxMsgClass := Some CMD_RESP_CLASS,
        pTxRxDescBuff := Some d, pCmdExt := e, RxDoneCnt := RxDoneCnt ?s + 1, IsCmdRespWaited := False\<rparr>"
  define w2 where "w2 = call (SyncClear CmdSyncObj) (flow_signal fl (?w\<lparr>nwp_in := [], nwp_out := nwp_out ?w @ H2N_CNYS\<rparr>))"
  have "answers ?b (le16 op @ le16 len @ fl) body ?s d e"
    using Nil.prems(11) by (rule answers_cong) (simp add: same_params_def)
  then have "read_one ?b ?s ?w = Some (s2, w2)"
    unfolding s2_def w2_def by (intro read_response) (simp_all add: Nil.prems(8-10))
  then have "read_until ?b s w = read_until ?b s2 w2" using Nil.prems(2-6) by (intro read_until_step) simp_all
  also have "\<dots> = Some (s2, w2)" by (subst read_until.simps) (simp add: s2_def)
  finally show ?case
    by (rule Nil.prems(1)) (simp_all add: s2_def w2_def with_flags_def same_pool_def Nil.prems(3))
next
  case (Cons f fs)
  let ?b = "bus (processor run) run"
  let ?s = "s\<lparr>RxIrqCnt := RxIrqCnt s + 1\<rparr>"
  let ?ms = "map dummy_msg fs @ nwp_msg op len fl body # later"
  let ?w = "w\<lparr>nwp_in := dummy_msg f, nwp_more := ?ms, nwp_calls := nwp_calls w @ [SyncSignal CmdSyncObj]\<rparr>"
  define s2 where "s2 = with_flags f (?s\<lparr>pAsyncBuf := None\<rparr>)\<lparr>AsyncEvtHandler := None, RxMsgClass := Some DUMMY_MSG_CLASS,
        RxDoneCnt := RxDoneCnt ?s + 1\<rparr>"
  define w2 where "w2 = flow_signal f (?w\<lparr>nwp_in := [], nwp_out := nwp_out ?w @ H2N_CNYS\<rparr>)"
  have "read_one ?b ?s ?w = Some (s2, w2)"
    unfolding s2_def w2_def by (intro read_dummy) (use Cons.prems(7) in simp_all)
  then have step: "read_until ?b s w = read_until ?b s2 w2" using Cons.prems(2-6) by (intro read_until_step) simp_all
  have params: "same_params s s2" and pool: "same_pool s s2" by (simp_all add: s2_def with_flags_def same_params_def same_pool_def)
  have w2: "nwp_in w2 = []" "CmdSyncObj \<notin> nwp_sems w2" "nwp_more w2 = ?ms" "nwp_out w2 = nwp_out w @ H2N_CNYS"
    using Cons.prems(5) by (simp_all add: w2_def)
  obtain s' w' where "read_until ?b s2 w2 = Some (s', w')"
    "pTxRxDescBuff s' = Some d" "pCmdExt s' = e" "\<not> IsCmdRespWaited s'" "RxIrqCnt s' = RxDoneCnt s'" "same_pool s2 s'"
    "TxPoolCnt s' = fl ! 0" "SocketNonBlocking s' = fl ! 3" "SocketTXFailure s' = fl ! 2"
    "nwp_in w' = []" "nwp_more w' = later" "CmdSyncObj \<notin> nwp_sems w'"
    "nwp_out w' = nwp_out w2 @ concat (replicate (Suc (length fs)) H2N_CNYS)" "pCmdCtrl s' = pCmdCtrl s2"
  proof (rule Cons.IH)
    show "IsCmdRespWaited s2" "RxIrqCnt s2 = RxDoneCnt s2" using Cons.prems(2,3) by (simp_all add: s2_def with_flags_def)
    show "answers ?b (le16 op @ le16 len @ fl) body s2 d e" using Cons.prems(11) params by (rule answers_cong)
  qed (use Cons.prems(7-10) w2 in simp_all)
  moreover have "pCmdCtrl s2 = pCmdCtrl s" using params by (simp add: same_params_def)
  moreover have "same_pool s s'" using pool \<open>same_pool s2 s'\<close> by (simp add: same_pool_def)
  ultimately show ?case using step w2(4) by (intro Cons.prems(1) [of s' w']) simp_all
qed

lemma same_pool_trans: "same_pool s s1 \<Longrightarrow> same_pool s1 s2 \<Longrightarrow> same_pool s s2"
  by (simp add: same_pool_def)

text \<open>A command and its answer.\<close>

lemma cmd_op_answered:
  assumes "\<not> pending_rx s" "\<not> RelayFlagsViaRxPayload s" "cmd_ready ctrl desc ext"
    "nwp_in w = []" "CmdSyncObj \<notin> nwp_sems w"
    "nwp_more w = map dummy_msg fs @ nwp_msg op len fl body # later" "\<forall>f \<in> set fs. length f = 4"
    "length fl = 4" "clear_len len" "SL_OPCODE_SYNC AND op \<noteq> 0"
    "answers (bus (processor run) run) (le16 op @ le16 len @ fl) body (set_params ctrl (Some desc) ext s) d e"
  obtains s' w' where "SlDrvCmdOp (bus (processor run) run) ctrl (Some desc) ext s w = Some (0, s', w')"
    "pTxRxDescBuff s' = Some d" "pCmdExt s' = e" "\<not> IsCmdRespWaited s'" "\<not> pending_rx s'" "same_pool s s'"
    "TxPoolCnt s' = fl ! 0" "SocketNonBlocking s' = fl ! 3" "SocketTXFailure s' = fl ! 2"
    "nwp_in w' = []" "nwp_more w' = later" "CmdSyncObj \<notin> nwp_sems w'"
    "nwp_out w' = nwp_out w @ cmd_bytes ctrl desc ext @ concat (replicate (Suc (length fs)) H2N_CNYS)" "pCmdCtrl s' = Some ctrl"
proof -
  let ?b = "bus (processor run) run"
  let ?w = "call (LockLock GlobalLockObj) w"
  define s1 where "s1 = set_params ctrl (Some desc) ext (s\<lparr>IsCmdRespWaited := True\<rparr>)"
  define s2 where "s2 = s1\<lparr>hdr_Opcode := Opcode ctrl, hdr_Len := of_nat (length (cmd_body ctrl desc ext))\<rparr>"
  define w2 where "w2 = ?w\<lparr>nwp_out := nwp_out ?w @ cmd_bytes ctrl desc ext\<rparr>"
  have "pCmdCtrl s1 = Some ctrl" "pTxRxDescBuff s1 = Some desc" "\<not> RelayFlagsViaRxPayload s1" "pCmdExt s1 = ext"
    using assms(2) by (simp_all add: s1_def set_params_def)
  then have send: "SlDrvMsgWrite ?b s1 ?w = Some (0, s2, w2)"
    using msg_write_bus [of s1 ctrl desc "processor run" run ?w] assms(3) by (simp add: s2_def w2_def)
  have params: "same_params (set_params ctrl (Some desc) ext s) s2" and pool: "same_pool s s2"
    by (simp_all add: s1_def s2_def set_params_def same_params_def same_pool_def)
  have w2: "nwp_in w2 = []" "CmdSyncObj \<notin> nwp_sems w2" "nwp_more w2 = map dummy_msg fs @ nwp_msg op len fl body # later"
    using assms(4-6) by (simp_all add: w2_def)
  obtain s' w' where r: "read_until ?b s2 w2 = Some (s', w')"
    "pTxRxDescBuff s' = Some d" "pCmdExt s' = e" "\<not> IsCmdRespWaited s'" "RxIrqCnt s' = RxDoneCnt s'" "same_pool s2 s'"
    "TxPoolCnt s' = fl ! 0" "SocketNonBlocking s' = fl ! 3" "SocketTXFailure s' = fl ! 2"
    "nwp_in w' = []" "nwp_more w' = later" "CmdSyncObj \<notin> nwp_sems w'"
    "nwp_out w' = nwp_out w2 @ concat (replicate (Suc (length fs)) H2N_CNYS)" "pCmdCtrl s' = pCmdCtrl s2"
  proof (rule read_until_response)
    show "IsCmdRespWaited s2" "RxIrqCnt s2 = RxDoneCnt s2"
      using assms(1) by (simp_all add: s1_def s2_def set_params_def pending_rx_def)
    show "answers ?b (le16 op @ le16 len @ fl) body s2 d e" using assms(11) params by (rule answers_cong)
  qed (rule w2 assms(7-10) | rule that; assumption)+
  have "SlDrvMsgReadCmdCtx ?b s2 w2 = Some (0, s', call (LockUnlock GlobalLockObj) w')"
    using r(1,5) by (simp add: SlDrvMsgReadCmdCtx_def bus_osi bus_rest pending_rx_def)
  then have "SlDrvCmdOp ?b ctrl (Some desc) ext s w = Some (0, s', call (LockUnlock GlobalLockObj) w')"
    by (simp add: SlDrvCmdOp_def bus_osi s1_def [symmetric] send)
  then show ?thesis
    by (rule that) (use r same_pool_trans [OF pool] in \<open>simp_all add: w2_def pending_rx_def s2_def s1_def set_params_def\<close>)
qed

text \<open>The answer to a command that returns a descriptor only.\<close>

lemma answers_desc:
  assumes "pCmdCtrl s = Some ctrl" "pTxRxDescBuff s = Some desc" "pCmdExt s = None"
    "length body = align4 (unat (RxDescLen ctrl))" "length body \<le> length desc"
  shows "answers (bus wait run) hdr body s (body @ drop (length body) desc) None"
  unfolding answers_def
proof (intro allI impI)
  fix s' and w' :: nwp
  assume s: "same_params s s'" and w: "nwp_in w' = body"
  have "length body < 32768" using assms(4) unat_align(3) [of "unat (RxDescLen ctrl)"] unat8_bound [of "RxDescLen ctrl"] by linarith
  then show "read_cmd_resp (bus wait run) hdr s' w' =
      Some (s'\<lparr>pTxRxDescBuff := Some (body @ drop (length body) desc), pCmdExt := None\<rparr>, w'\<lparr>nwp_in := []\<rparr>)"
    using s w assms by (simp add: read_cmd_resp_def same_params_def bus_read_at)
qed

text \<open>A command without arguments: between the request and its answer the processor may send any number
  of flow-control messages; the command then returns the status the processor sent, having written
  exactly its header and one acknowledging pattern for each message, and leaves no message unread, no
  command waiting and the pool of actions as it was, with the flow control of the last message.
\<close>

theorem SlDrvBasicCmd_returns_status:
  assumes "\<not> pending_rx s" "\<not> RelayFlagsViaRxPayload s" "nwp_in w = []" "CmdSyncObj \<notin> nwp_sems w"
    "nwp_more w = map dummy_msg fs @ nwp_msg rsp 8 fl (le16 status @ [a, b]) # later" "\<forall>f \<in> set fs. length f = 4"
    "length fl = 4" "SL_OPCODE_SYNC AND rsp \<noteq> 0"
  shows "\<exists>s' w'. SlDrvBasicCmd (bus (processor run) run) op s w = Some (sint status, s', w') \<and>
    \<not> IsCmdRespWaited s' \<and> \<not> pending_rx s' \<and> same_pool s s' \<and> TxPoolCnt s' = fl ! 0 \<and>
    nwp_in w' = [] \<and> nwp_more w' = later \<and>
    nwp_out w' = nwp_out w @ H2N_SYNC @ le16 op @ [0, 0] @ concat (replicate (Suc (length fs)) H2N_CNYS)"
proof -
  let ?ops = "bus (processor run) run" and ?c = "\<lparr>Opcode = op, TxDescLen = 0, RxDescLen = 4\<rparr>"
  let ?body = "le16 status @ [a, b]"
  have al: "align4 0 = 0" "align4 4 = 4" by (simp_all add: align4_def)
  have ready: "cmd_ready ?c (replicate 4 0) None" by (simp add: cmd_ready_def al)
  have out: "cmd_bytes ?c (replicate 4 0) None = H2N_SYNC @ le16 op @ [0, 0]"
    by (simp add: cmd_bytes_def cmd_body_def al) (simp add: le16_def)
  have "clear_len 8" by (simp add: clear_len_def)
  moreover have "answers ?ops (le16 rsp @ le16 8 @ fl) ?body (set_params ?c (Some (replicate 4 0)) None s) (?body @ drop 4 (replicate 4 0)) None"
    using answers_desc [of "set_params ?c (Some (replicate 4 0)) None s" ?c "replicate 4 0" ?body]
    by (simp add: set_params_def al le16_def)
  ultimately obtain s' w' where r: "SlDrvCmdOp ?ops ?c (Some (replicate 4 0)) None s w = Some (0, s', w')"
    "pTxRxDescBuff s' = Some (?body @ drop 4 (replicate 4 0))" "\<not> IsCmdRespWaited s'" "\<not> pending_rx s'" "same_pool s s'"
    "TxPoolCnt s' = fl ! 0" "nwp_in w' = []" "nwp_more w' = later"
    "nwp_out w' = nwp_out w @ cmd_bytes ?c (replicate 4 0) None @ concat (replicate (Suc (length fs)) H2N_CNYS)"
    "pCmdCtrl s' = Some ?c"
    using cmd_op_answered [OF assms(1,2) ready assms(3-7) _ assms(8)] by metis
  have "map (stack_byte ?ops) [0..<4] = replicate 4 0" by (simp add: bus_def numeral_eq_Suc)
  then have "SlDrvBasicCmd ?ops op s w = Some (sint status, s', w')"
    using r(1,2,10) by (simp add: SlDrvBasicCmd_def own_desc_def rd16_le16)
  then show ?thesis using r out by (intro exI [of _ s'] exI [of _ w']) simp
qed

definition demo_net :: "u8 list list \<Rightarrow> nwp" where
  "demo_net ms = (demo_nwp [])\<lparr>nwp_more := ms\<rparr>"

definition demo_free :: SlDriverCb where
  "demo_free = SlDrvObjInit (demo_pool 0)\<lparr>ActiveActionsBitmap := 0\<rparr>"

theorem SlDrvBasicCmd_returns_status_witness:
  "\<exists>s' w'. SlDrvBasicCmd (bus (processor no_handler) no_handler) 0x8432 demo_free
      (demo_net (map dummy_msg [[4, 0, 0, 0]] @ nwp_msg 0x0432 8 [3, 0, 0, 0] (le16 7 @ [0, 0]) # [])) = Some (7, s', w') \<and>
    \<not> pending_rx s' \<and> TxPoolCnt s' = 3 \<and> nwp_out w' = H2N_SYNC @ [0x32, 0x84, 0, 0] @ H2N_CNYS @ H2N_CNYS"
proof -
  let ?w = "demo_net (map dummy_msg [[4, 0, 0, 0]] @ nwp_msg 0x0432 8 [3, 0, 0, 0] (le16 7 @ [0, 0]) # [])"
  have s: "\<not> pending_rx demo_free" "\<not> RelayFlagsViaRxPayload demo_free"
    by (simp_all add: demo_free_def SlDrvObjInit_def demo_pool_def pending_rx_def)
  have w: "nwp_in ?w = []" "CmdSyncObj \<notin> nwp_sems ?w" "nwp_out ?w = []"
    "nwp_more ?w = map dummy_msg [[4, 0, 0, 0]] @ nwp_msg 0x0432 8 [3, 0, 0, 0] (le16 7 @ [0, 0]) # []"
    by (simp_all add: demo_net_def demo_nwp_def)
  have "SL_OPCODE_SYNC AND 0x0432 \<noteq> 0" "sint (7 :: u16) = 7" "le16 0x8432 = [0x32, 0x84]"
    by (simp_all add: SL_OPCODE_SYNC_def le16_def)
  then show ?thesis
    using SlDrvBasicCmd_returns_status [OF s w(1,2) w(4), of no_handler "0x8432"] w(3) by auto
qed

end
