(* ===== verification/Sl_Data_Props.thy ===== *)
theory Sl_Data_Props
  imports Sl_Cmd_Props Sl_Pool_Threads
begin

text \<open>
  Receiving data: the request of a thread, the message with the data that the reading task gets while
  the thread sleeps, and the release of the action object; then what goes wrong with payloads that do
  not fit and with the flow control of several sockets.
\<close>

section \<open>The message with the data\<close>

lemma sint_small: "n < 32768 \<Longrightarrow> sint (of_nat n :: u16) = int n"
  by (simp add: sint_uint signed_take_bit_int_eq_self unsigned_of_nat take_bit_nat_eq_self)

lemma read_recv_data:
  assumes "nwp_in w = le16 (of_nat n) @ [sd, x] @ dat @ pad" "length dat = n" "length pad = align4 n - n" "n < 32765"
    "length fl = 4" "ActivePoolIdx s = i" "i < MAX_CONCURRENT_ACTIONS"
    "ActionID (ObjPool s ! unat i) = RECV_ID" "AdditionalData (ObjPool s ! unat i) = sd AND BSD_SOCKET_ID_MASK"
    "pRespArgs (ObjPool s ! unat i) = RecvArgs desc rx" "sd AND BSD_SOCKET_ID_MASK < SL_MAX_SOCKETS"
    "4 \<le> length desc" "n \<le> length rx"
  defines "op \<equiv> SL_OPCODE_SOCKET_RECVASYNCRESPONSE"
  shows "read_recv (bus wait run) (le16 op @ le16 len @ fl) s w =
    Some (set_obj i (\<lambda>p. p\<lparr>pRespArgs := RecvArgs (le16 (of_nat n) @ [sd, x] @ drop 4 desc) (dat @ drop n rx)\<rparr>) (s\<lparr>ActionIndex := i\<rparr>),
      call (LockUnlock ProtectionLockObj) (call (SyncSignal (ObjSync i)) ((call (LockLock ProtectionLockObj) w)\<lparr>nwp_in := []\<rparr>)))"
proof -
  let ?b = "bus wait run" and ?k = "sd AND BSD_SOCKET_ID_MASK" and ?args = "le16 (of_nat n) @ [sd, x] :: u8 list"
  let ?buf = "le16 op @ le16 len @ ?args" and ?s1 = "s\<lparr>ActionIndex := i\<rparr>"
  let ?w1 = "w\<lparr>nwp_in := dat @ pad\<rparr>" and ?w2 = "call (LockLock ProtectionLockObj) (w\<lparr>nwp_in := dat @ pad\<rparr>)"
  have la: "length ?args = 4" "length (le16 op @ le16 len) = 4" by (simp_all add: le16_def)
  have rd: "read_at ?b 4 4 (le16 op @ le16 len @ fl) w = Some (?buf, ?w1)"
    using assms(1,5) la by (subst bus_read_at) (simp_all add: le16_def)
  have buf: "rd16 0 (le16 op @ le16 len @ fl) = op" "?buf ! 6 = sd" "take 4 (drop 4 ?buf) = ?args" "rd16 4 ?buf = of_nat n"
  proof -
    show "rd16 0 (le16 op @ le16 len @ fl) = op" "rd16 4 ?buf = of_nat n" by (simp_all only: rd16_le16)
  qed (simp_all add: le16_def)
  have fam: "?k AND SL_NETAPP_FAMILY_MASK = 0"
    by (simp add: BSD_SOCKET_ID_MASK_def SL_NETAPP_FAMILY_MASK_def and.assoc)
  have find: "SlFindAndSetActiveObj op ?k s = Some (0, ?s1)"
    using assms(6-9) fam unfolding SlFindAndSetActiveObj_def op_def
    by (subst find_loop.simps) (simp add: get_obj_below is_recv_opcode_def)
  have obj: "get_obj (ActionIndex ?s1) ?s1 = Some (ObjPool s ! unat i)" using assms(7) by (simp add: get_obj_def)
  have poke: "poke 0 ?args desc = Some (?args @ drop 4 desc)" using assms(12) la by (simp add: poke_def)
  have ex: "exp_arg_size op = RECV_ARGS_SIZE" by (simp add: exp_arg_size_def op_def async_opcodes)
  have dat: "(if 0 < int n then read_data ?b (nat (int n)) rx ?w2 else Some (rx, ?w2)) = Some (dat @ drop n rx, ?w2\<lparr>nwp_in := []\<rparr>)"
  proof (cases "n = 0")
    case True
    then have "dat @ pad = []" using assms(2,3) by (simp add: align4_def)
    then show ?thesis using True assms(2) by (simp add: call_def)
  next
    case False
    have "align4 n = length (nwp_in ?w2)" "nwp_in ?w2 = dat @ pad" using assms(2,3) unat_align(2) [of n] by simp_all
    then show ?thesis using False assms(2,4,13) read_data_bus [of n rx ?w2 wait run] by simp
  qed
  show ?thesis
    unfolding read_recv_def RECV_ARGS_SIZE_def
    by (simp only: rd Option.bind.simps prod.case Let_def buf bus_osi assms(11) not_True_eq_False if_False find refl obj assms(10)
        resp_args.case poke ex [unfolded RECV_ARGS_SIZE_def] less_irrefl sint_small [OF less_trans [OF assms(4)], simplified] dat)
      (simp add: call_def)
qed

section \<open>The reading task\<close>

lemma classify_recv:
  "SlDrvClassifyRxMsg SL_OPCODE_SOCKET_RECVASYNCRESPONSE s = s\<lparr>AsyncEvtHandler := None, RxMsgClass := Some RECV_RESP_CLASS\<rparr>"
  by (simp add: SlDrvClassifyRxMsg_def is_recv_opcode_def async_opcodes SL_OPCODE_SYNC_def)

lemma spawn_dummy:
  assumes "pending_rx s" "nwp_in w = dummy_msg fl" "length fl = 4"
  shows "SlDrvMsgReadSpawnCtx (bus wait run) s w =
    Some (0, with_flags fl (s\<lparr>pAsyncBuf := None\<rparr>)\<lparr>AsyncEvtHandler := None, RxMsgClass := Some DUMMY_MSG_CLASS, RxDoneCnt := RxDoneCnt s + 1\<rparr>,
      call (LockUnlock GlobalLockObj) (flow_signal fl ((call (LockLock GlobalLockObj) w)\<lparr>nwp_in := [], nwp_out := nwp_out w @ H2N_CNYS\<rparr>)))"
proof -
  let ?s = "prepare_read (Some CMD_RESP_CLASS) s" and ?w = "call (LockLock GlobalLockObj) w"
  have "clear_len 4" "SL_OPCODE_DEVICE_DEVICEASYNCDUMMY \<noteq> SL_OPCODE_DEVICE_INITCOMPLETE"
    by (simp_all add: clear_len_def async_opcodes)
  moreover have "nwp_in ?w = nwp_msg SL_OPCODE_DEVICE_DEVICEASYNCDUMMY 4 fl [] @ []" using assms(2) by (simp add: dummy_msg_def)
  ultimately have "SlDrvMsgRead (bus wait run) ?s ?w =
      Some (0, SlDrvClassifyRxMsg SL_OPCODE_DEVICE_DEVICEASYNCDUMMY (with_flags fl ?s),
        flow_signal fl (?w\<lparr>nwp_in := [], nwp_out := nwp_out w @ H2N_CNYS\<rparr>))"
    using msg_read_bus [of ?w SL_OPCODE_DEVICE_DEVICEASYNCDUMMY 4 fl "[]" "[]" wait run ?s] assms(3)
    by (simp add: classify_dummy)
  moreover have "pending_rx ?s" using assms(1) by (simp add: pending_rx_def prepare_read_def)
  ultimately show ?thesis
    by (simp add: SlDrvMsgReadSpawnCtx_def bus_osi classify_dummy) (simp add: prepare_read_def with_flags_def)
qed

text \<open>The receive of a socket is at the head of the active list.\<close>

definition receives :: "u8 \<Rightarrow> u8 \<Rightarrow> u8 list \<Rightarrow> u8 list \<Rightarrow> SlDriverCb \<Rightarrow> bool" where
  "receives i k desc rx s \<longleftrightarrow> ActivePoolIdx s = i \<and> i < MAX_CONCURRENT_ACTIONS \<and> ActionID (ObjPool s ! unat i) = RECV_ID \<and>
     AdditionalData (ObjPool s ! unat i) = k \<and> pRespArgs (ObjPool s ! unat i) = RecvArgs desc rx"

lemma receives_cong: "receives i k desc rx s \<Longrightarrow> same_pool s s' \<Longrightarrow> receives i k desc rx s'"
  by (simp add: receives_def same_pool_def)

definition data_msg :: "u16 \<Rightarrow> u8 list \<Rightarrow> u8 \<Rightarrow> u8 \<Rightarrow> u8 list \<Rightarrow> u8 list \<Rightarrow> u8 list" where
  "data_msg len fl sd x dat pad =
     nwp_msg SL_OPCODE_SOCKET_RECVASYNCRESPONSE len fl (le16 (of_nat (length dat)) @ [sd, x] @ dat @ pad)"

definition got :: "u8 list \<Rightarrow> u8 list \<Rightarrow> SlPoolObj \<Rightarrow> SlPoolObj" where
  "got args dat = (\<lambda>p. p\<lparr>pRespArgs := RecvArgs args dat\<rparr>)"

lemma spawn_data:
  assumes "pending_rx s" "nwp_in w = data_msg len fl sd x dat pad" "length fl = 4" "clear_len len"
    "length pad = align4 (length dat) - length dat" "length dat < 32765"
    "receives i (sd AND BSD_SOCKET_ID_MASK) desc rx s" "sd AND BSD_SOCKET_ID_MASK < SL_MAX_SOCKETS"
    "4 \<le> length desc" "length dat \<le> length rx"
  obtains s' w' where "SlDrvMsgReadSpawnCtx (bus wait run) s w = Some (0, s', w')"
    "same_pool (set_obj i (got (le16 (of_nat (length dat)) @ [sd, x] @ drop 4 desc) (dat @ drop (length dat) rx)) s) s'"
    "RxIrqCnt s' = RxIrqCnt s" "RxDoneCnt s' = RxDoneCnt s + 1" "IsCmdRespWaited s' = IsCmdRespWaited s" "TxPoolCnt s' = fl ! 0"
    "nwp_in w' = []" "nwp_more w' = nwp_more w" "ObjSync i \<in> nwp_sems w'" "nwp_out w' = nwp_out w @ H2N_CNYS"
proof -
  let ?op = SL_OPCODE_SOCKET_RECVASYNCRESPONSE and ?args = "le16 (of_nat (length dat)) @ [sd, x] :: u8 list"
  let ?s = "prepare_read (Some CMD_RESP_CLASS) s" and ?w = "call (LockLock GlobalLockObj) w"
  let ?s1 = "SlDrvClassifyRxMsg ?op (with_flags fl ?s)"
  let ?w1 = "flow_signal fl (?w\<lparr>nwp_in := ?args @ dat @ pad, nwp_out := nwp_out w @ H2N_CNYS\<rparr>)"
  have "same_pool s ?s1" by (simp add: same_pool_def classify_recv with_flags_def prepare_read_def)
  then have rec: "receives i (sd AND BSD_SOCKET_ID_MASK) desc rx ?s1" using assms(7) receives_cong by blast
  define s2 where "s2 = set_obj i (got (?args @ drop 4 desc) (dat @ drop (length dat) rx)) (?s1\<lparr>ActionIndex := i\<rparr>)"
  define w2 where "w2 = call (LockUnlock ProtectionLockObj) (call (SyncSignal (ObjSync i)) ((call (LockLock ProtectionLockObj) ?w1)\<lparr>nwp_in := []\<rparr>))"
  have rr: "read_recv (bus wait run) (le16 ?op @ le16 len @ fl) ?s1 ?w1 = Some (s2, w2)"
    using read_recv_data [of ?w1 "length dat" sd x dat pad fl ?s1 i desc rx wait run len] assms(3,5,6,8-10) rec
    by (simp add: s2_def w2_def receives_def got_def)
  have op: "?op \<noteq> SL_OPCODE_DEVICE_INITCOMPLETE" by (simp add: async_opcodes)
  have cls: "RxMsgClass ?s1 = Some RECV_RESP_CLASS" by (simp add: classify_recv)
  have "nwp_in ?w = nwp_msg ?op len fl (?args @ dat @ pad) @ []" using assms(2) by (simp add: data_msg_def)
  then have "SlDrvMsgRead (bus wait run) ?s ?w = Some (0, s2, w2)"
    using msg_read_bus [of ?w ?op len fl "?args @ dat @ pad" "[]" wait run ?s] assms(3,4) op rr cls by simp
  moreover have "pending_rx ?s" using assms(1) by (simp add: pending_rx_def prepare_read_def)
  moreover have "RxMsgClass s2 = Some RECV_RESP_CLASS" by (simp add: s2_def classify_recv set_obj_def)
  ultimately have "SlDrvMsgReadSpawnCtx (bus wait run) s w = Some (0, s2\<lparr>RxDoneCnt := RxDoneCnt s2 + 1\<rparr>, call (LockUnlock GlobalLockObj) w2)"
    by (simp add: SlDrvMsgReadSpawnCtx_def bus_osi)
  then show ?thesis
    by (rule that) (simp_all add: s2_def w2_def same_pool_def set_obj_def classify_recv with_flags_def prepare_read_def)
qed

text \<open>One message while a thread sleeps and no command waits.\<close>

lemma processor_step:
  assumes "\<not> IsCmdRespWaited s" "c \<notin> nwp_sems w" "nwp_more w = m # ms" "nwp_in w = []"
    "SlDrvMsgReadSpawnCtx (bus idle run) (s\<lparr>RxIrqCnt := RxIrqCnt s + 1\<rparr>) (w\<lparr>nwp_in := m, nwp_more := ms\<rparr>) = Some (r, s2, w2)"
  shows "processor run c s w = processor run c s2 w2"
proof -
  let ?s = "s\<lparr>RxIrqCnt := RxIrqCnt s + 1\<rparr>" and ?w = "w\<lparr>nwp_in := m, nwp_more := ms\<rparr>"
  have "SlDrvRxIrqHandler (bus idle run) s ?w = Some (?s, ?w)"
    using assms(1) by (simp add: SlDrvRxIrqHandler_def bus_rest)
  then show ?thesis using assms by (subst processor.simps) simp
qed

lemma sleep_until_data:
  assumes "\<not> IsCmdRespWaited s" "RxIrqCnt s = RxDoneCnt s" "ObjSync i \<notin> nwp_sems w" "nwp_in w = []"
    "nwp_more w = map dummy_msg fs @ data_msg len fl sd x dat pad # later" "\<forall>f \<in> set fs. length f = 4"
    "length fl = 4" "clear_len len" "length pad = align4 (length dat) - length dat" "length dat < 32765"
    "receives i (sd AND BSD_SOCKET_ID_MASK) desc rx s" "sd AND BSD_SOCKET_ID_MASK < SL_MAX_SOCKETS"
    "4 \<le> length desc" "length dat \<le> length rx"
  obtains s' w' where "processor run (ObjSync i) s w = Some (0, s', w')"
    "same_pool (set_obj i (got (le16 (of_nat (length dat)) @ [sd, x] @ drop 4 desc) (dat @ drop (length dat) rx)) s) s'"
    "\<not> IsCmdRespWaited s'" "RxIrqCnt s' = RxDoneCnt s'" "TxPoolCnt s' = fl ! 0"
    "nwp_in w' = []" "nwp_more w' = later" "ObjSync i \<notin> nwp_sems w'"
    "nwp_out w' = nwp_out w @ concat (replicate (Suc (length fs)) H2N_CNYS)"
  using assms
proof (induction fs arbitrary: s w thesis)
  case Nil
  let ?s = "s\<lparr>RxIrqCnt := RxIrqCnt s + 1\<rparr>" and ?w = "w\<lparr>nwp_in := data_msg len fl sd x dat pad, nwp_more := later\<rparr>"
  let ?set = "set_obj i (got (le16 (of_nat (length dat)) @ [sd, x] @ drop 4 desc) (dat @ drop (length dat) rx))"
  have p: "pending_rx ?s" "nwp_in ?w = data_msg len fl sd x dat pad" using Nil.prems(3) by (simp_all add: pending_rx_def)
  have rec: "receives i (sd AND BSD_SOCKET_ID_MASK) desc rx ?s" using Nil.prems(12) by (rule receives_cong) (simp add: same_pool_def)
  obtain s' w' where sp: "SlDrvMsgReadSpawnCtx (bus idle run) ?s ?w = Some (0, s', w')"
    "same_pool (?set ?s) s'"
    "RxIrqCnt s' = RxIrqCnt ?s" "RxDoneCnt s' = RxDoneCnt ?s + 1" "IsCmdRespWaited s' = IsCmdRespWaited ?s" "TxPoolCnt s' = fl ! 0"
    "nwp_in w' = []" "nwp_more w' = nwp_more ?w" "ObjSync i \<in> nwp_sems w'" "nwp_out w' = nwp_out ?w @ H2N_CNYS"
    by (rule spawn_data [OF p Nil.prems(8-11) rec Nil.prems(13-15), where run = run and wait = idle]) (rule that; assumption)
  have "processor run (ObjSync i) s w = processor run (ObjSync i) s' w'"
    using Nil.prems(2,4-6) sp(1) by (intro processor_step) simp_all
  also have "\<dots> = Some (0, s', w'\<lparr>nwp_sems := nwp_sems w' - {ObjSync i}\<rparr>)" using sp(9) by (subst processor.simps) simp
  finally show ?case
    by (rule Nil.prems(1)) (use sp Nil.prems(2,3) in \<open>simp_all add: same_pool_def set_obj_def\<close>)
next
  case (Cons f fs)
  let ?s = "s\<lparr>RxIrqCnt := RxIrqCnt s + 1\<rparr>" and ?ms = "map dummy_msg fs @ data_msg len fl sd x dat pad # later"
  let ?w = "w\<lparr>nwp_in := dummy_msg f, nwp_more := ?ms\<rparr>"
  let ?set = "set_obj i (got (le16 (of_nat (length dat)) @ [sd, x] @ drop 4 desc) (dat @ drop (length dat) rx))"
  define s2 where "s2 = with_flags f (?s\<lparr>pAsyncBuf := None\<rparr>)\<lparr>AsyncEvtHandler := None, RxMsgClass := Some DUMMY_MSG_CLASS,
        RxDoneCnt := RxDoneCnt ?s + 1\<rparr>"
  define w2 where "w2 = call (LockUnlock GlobalLockObj)
        (flow_signal f ((call (LockLock GlobalLockObj) ?w)\<lparr>nwp_in := [], nwp_out := nwp_out ?w @ H2N_CNYS\<rparr>))"
  have "pending_rx ?s" using Cons.prems(3) by (simp add: pending_rx_def)
  then have "SlDrvMsgReadSpawnCtx (bus idle run) ?s ?w = Some (0, s2, w2)"
    unfolding s2_def w2_def by (intro spawn_dummy) (use Cons.prems(7) in simp_all)
  then have step: "processor run (ObjSync i) s w = processor run (ObjSync i) s2 w2"
    using Cons.prems(2-6) by (intro processor_step) simp_all
  have pool: "same_pool s s2" by (simp add: s2_def with_flags_def same_pool_def)
  have s2: "\<not> IsCmdRespWaited s2" "RxIrqCnt s2 = RxDoneCnt s2" using Cons.prems(2,3) by (simp_all add: s2_def with_flags_def)
  have w2: "nwp_in w2 = []" "ObjSync i \<notin> nwp_sems w2" "nwp_more w2 = ?ms" "nwp_out w2 = nwp_out w @ H2N_CNYS"
    using Cons.prems(4) by (simp_all add: w2_def)
  obtain s' w' where r: "processor run (ObjSync i) s2 w2 = Some (0, s', w')" "same_pool (?set s2) s'"
    "\<not> IsCmdRespWaited s'" "RxIrqCnt s' = RxDoneCnt s'" "TxPoolCnt s' = fl ! 0"
    "nwp_in w' = []" "nwp_more w' = later" "ObjSync i \<notin> nwp_sems w'"
    "nwp_out w' = nwp_out w2 @ concat (replicate (Suc (length fs)) H2N_CNYS)"
  proof (rule Cons.IH)
    show "receives i (sd AND BSD_SOCKET_ID_MASK) desc rx s2" using Cons.prems(12) pool by (rule receives_cong)
    show "\<forall>f \<in> set fs. length f = 4" using Cons.prems(7) by simp
  qed (rule s2 w2(1-3) Cons.prems(8-11,13-15) | rule that; assumption)+
  have "same_pool (?set s) s'" using pool r(2) by (simp add: same_pool_def set_obj_def)
  then show ?case using r step w2(4) by (intro Cons.prems(1)) simp_all
qed

section \<open>The data operation\<close>

text \<open>The lists of the pool under changes that leave the links.\<close>

lemma pool_lists_set:
  assumes "pool_lists s fs as ps" "i < MAX_CONCURRENT_ACTIONS" "\<And>p. NextIndex (f p) = NextIndex p"
  shows "pool_lists (set_obj i f s) fs as ps"
proof -
  have l: "length (ObjPool s) = 10" using assms(1) by (simp add: pool_lists_def)
  have "NextIndex (ObjPool (set_obj i f s) ! unat x) = NextIndex (ObjPool s ! unat x)" for x :: u8
    using assms(3) by (simp add: set_obj_nth [OF l assms(2)])
  then show ?thesis using assms(1) linked_links [of s _ _ "set_obj i f s"] by (simp add: pool_lists_def)
qed

lemma pool_lists_same: "pool_lists s fs as ps \<Longrightarrow> same_pool s s' \<Longrightarrow> pool_lists s' fs as ps"
  by (simp add: pool_lists_def same_pool_def)

text \<open>A free object for a socket nobody uses.\<close>

lemma wait_for_free_object:
  assumes "pool_lists s (i # fs) as ps" "\<not> action_busy a k s" "k < SL_MAX_SOCKETS"
  obtains s' where
    "SlDrvWaitForPoolObj (bus wait run) a k s w = Some (i, s', call (LockUnlock ProtectionLockObj) (call (LockLock ProtectionLockObj) w))"
    "pool_lists s' fs (i # as) ps" "ActiveActionsBitmap s' = ActiveActionsBitmap s OR action_bit a k"
    "ActionID (ObjPool s' ! unat i) = ucast a" "AdditionalData (ObjPool s' ! unat i) = k" "pool_only s s'"
proof -
  obtain s1 where s1: "wait_enter a k s = Some (wait_check a k i s1)" "pool_lists s1 fs as ps"
    "ActiveActionsBitmap s1 = ActiveActionsBitmap s" "ActionID (ObjPool s1 ! unat i) = ucast a"
    "AdditionalData (ObjPool s1 ! unat i) = (if k < SL_MAX_SOCKETS then k else AdditionalData (ObjPool s ! unat i))"
    by (rule wait_enter_takes [OF assms(1), of a k]) (rule that; assumption)
  have i: "i < MAX_CONCURRENT_ACTIONS" "i \<notin> set (fs @ as @ ps)"
    using assms(1) by (auto simp: pool_lists_def)
  have nb: "\<not> action_busy a k s1" using assms(2) s1(3) by (simp add: action_busy_def)
  obtain s2 where s2: "wait_check a k i s1 = (Wait_Active i, s2)" "pool_lists s2 fs (i # as) ps" "same_loads s1 s2"
    "ActiveActionsBitmap s2 = ActiveActionsBitmap s1 OR action_bit a k"
    by (rule wait_check_active [OF s1(2) i nb]) (rule that; assumption)
  have "load (ObjPool s2 ! unat i) = load (ObjPool s1 ! unat i)" using s2(3) by (simp add: same_loads_def)
  then have "ActionID (ObjPool s2 ! unat i) = ucast a" "AdditionalData (ObjPool s2 ! unat i) = k"
    using s1(4,5) assms(3) by (simp_all add: load_def)
  moreover have "wait_enter a k s = Some (Wait_Active i, s2)" using s1(1) s2(1) by simp
  moreover from this have "pool_only s s2" by (rule wait_enter_frame)
  moreover have "SlDrvWaitForPoolObj (bus wait run) a k s w = Some (i, s2, call (LockUnlock ProtectionLockObj) (call (LockLock ProtectionLockObj) w))"
    using calculation(3) by (simp add: SlDrvWaitForPoolObj_def bus_osi wait_active.simps)
  ultimately show ?thesis using that s2(2,4) s1(3) by simp
qed

text \<open>Giving it back when nobody waits.\<close>

lemma release_unwaited:
  assumes "pool_lists s fs (i # as) []" "AdditionalData (ObjPool s ! unat i) = k" "k < SL_MAX_SOCKETS"
  obtains s' where
    "release_pool_obj (bus wait run) i s w = Some (s', call (LockUnlock ProtectionLockObj) (call (LockLock ProtectionLockObj) w))"
    "pool_lists s' (i # fs) as []" "ActiveActionsBitmap s' = ActiveActionsBitmap s AND NOT (push_bit (unat k) 1)" "pool_only s s'"
proof -
  have "i \<in> set (i # as)" by simp
  from SlDrvReleasePoolObj_releases [OF assms(1) this] obtain s' where s': "SlDrvReleasePoolObj i s = Some (None, s')"
    "pool_lists s' (i # fs) as []" "ActiveActionsBitmap s' = ActiveActionsBitmap s AND NOT (push_bit (obj_bit (ObjPool s ! unat i)) 1)"
    by (auto simp: take_off_def)
  have "k AND BSD_SOCKET_ID_MASK = k"
    using assms(3) by (intro socket_of_valid [unfolded socket_of_def, of "\<lparr>pRespArgs = RespNull, ActionID = 0, AdditionalData = k, NextIndex = 0\<rparr>", simplified]) simp_all
  then have "obj_bit (ObjPool s ! unat i) = unat k" using assms(2,3) by (simp add: obj_bit_def socket_of_def)
  moreover have "release_pool_obj (bus wait run) i s w = Some (s', call (LockUnlock ProtectionLockObj) (call (LockLock ProtectionLockObj) w))"
    by (simp add: release_pool_obj_def bus_osi s'(1))
  ultimately show ?thesis using that s' SlDrvReleasePoolObj_frame [OF s'(1)] by simp
qed

lemma write_data_bus:
  assumes "\<not> RelayFlagsViaRxPayload s" "cmd_ready ctrl desc (Some ext)"
  obtains s' where "write_data_msg (bus wait run) ctrl (Some desc) ext s w =
      Some (0, s', call (LockUnlock GlobalLockObj) (w\<lparr>nwp_out := nwp_out w @ cmd_bytes ctrl desc (Some ext)\<rparr>))"
    "same_pool s s'" "RxIrqCnt s' = RxIrqCnt s" "RxDoneCnt s' = RxDoneCnt s" "IsCmdRespWaited s' = IsCmdRespWaited s" "TxPoolCnt s' = TxPoolCnt s"
    "SocketTXFailure s' = SocketTXFailure s" "SocketNonBlocking s' = SocketNonBlocking s"
proof -
  define s1 where "s1 = set_params ctrl (Some desc) (Some ext) (s\<lparr>hdr_Opcode := Opcode ctrl, hdr_Len := calc_len ctrl (Some ext)\<rparr>)"
  let ?s = "s1\<lparr>hdr_Opcode := Opcode ctrl, hdr_Len := of_nat (length (cmd_body ctrl desc (Some ext)))\<rparr>"
  have "SlDrvMsgWrite (bus wait run) s1 w = Some (0, ?s, w\<lparr>nwp_out := nwp_out w @ cmd_bytes ctrl desc (Some ext)\<rparr>)"
    using assms msg_write_bus [of s1 ctrl desc wait run w] by (simp add: s1_def set_params_def)
  then have "write_data_msg (bus wait run) ctrl (Some desc) ext s w =
      Some (0, ?s, call (LockUnlock GlobalLockObj) (w\<lparr>nwp_out := nwp_out w @ cmd_bytes ctrl desc (Some ext)\<rparr>))"
    by (simp add: write_data_msg_def bus_osi s1_def [symmetric])
  then show ?thesis by (rule that) (simp_all add: s1_def set_params_def same_pool_def)
qed

text \<open>
  C40. A receive: the data the processor sends for the socket, behind any number of flow-control
  messages, is what the caller finds in its buffer, with the length and the socket in the arguments; the
  request has gone out once, one acknowledging pattern per message read; the action object is free
  again, the lists of the pool and the bitmap of busy actions are what they were, and no message is left.
\<close>

theorem SlDrvDataReadOp_delivers:
  assumes "pRxPayload ext = Some rx" "RxPayloadLen ext \<noteq> 0" "Sd AND BSD_SOCKET_ID_MASK = k" "k < SL_MAX_SOCKETS"
    "pool_lists s (i # fs) as []" "\<not> action_busy (ucast RECV_ID) k s"
    "\<not> pending_rx s" "\<not> IsCmdRespWaited s" "\<not> RelayFlagsViaRxPayload s" "FLOW_CONT_MIN < TxPoolCnt s"
    "cmd_ready ctrl desc (Some ext)" "4 \<le> length desc" "nwp_in w = []" "ObjSync i \<notin> nwp_sems w"
    "nwp_more w = map dummy_msg gs @ data_msg len fl sd x dat pad # later" "\<forall>g \<in> set gs. length g = 4"
    "sd AND BSD_SOCKET_ID_MASK = k" "length fl = 4" "clear_len len" "length pad = align4 (length dat) - length dat"
    "length dat < 32765" "length dat \<le> length rx"
  shows "\<exists>s' w'. SlDrvDataReadOp (bus (processor run) run) Sd ctrl desc ext s w =
      Some (0, le16 (of_nat (length dat)) @ [sd, x] @ drop 4 desc, dat @ drop (length dat) rx, s', w') \<and>
    pool_lists s' (i # fs) as [] \<and> ActiveActionsBitmap s' = ActiveActionsBitmap s \<and> \<not> pending_rx s' \<and> \<not> IsCmdRespWaited s' \<and>
    TxPoolCnt s' = fl ! 0 \<and> nwp_in w' = [] \<and> nwp_more w' = later \<and>
    nwp_out w' = nwp_out w @ cmd_bytes ctrl desc (Some ext) @ concat (replicate (Suc (length gs)) H2N_CNYS)"
proof -
  let ?b = "bus (processor run) run" and ?a = "ucast RECV_ID :: u32"
  let ?lockP = "\<lambda>w. call (LockUnlock ProtectionLockObj) (call (LockLock ProtectionLockObj) w)"
  let ?w5 = "call (SyncClear TxSyncObj) (call (LockLock TxLockObj) (?lockP (?lockP w)))"
  let ?w7 = "call (LockUnlock TxLockObj) (call (LockLock GlobalLockObj) ?w5)"
  let ?w8 = "call (LockUnlock GlobalLockObj) (?w7\<lparr>nwp_out := nwp_out ?w7 @ cmd_bytes ctrl desc (Some ext)\<rparr>)"
  let ?args = "le16 (of_nat (length dat)) @ [sd, x] @ drop 4 desc" and ?dat = "dat @ drop (length dat) rx"
  obtain s1 where s1: "SlDrvWaitForPoolObj ?b ?a k s w = Some (i, s1, ?lockP w)" "pool_lists s1 fs (i # as) []"
    "ActiveActionsBitmap s1 = ActiveActionsBitmap s OR action_bit ?a k"
    "ActionID (ObjPool s1 ! unat i) = ucast ?a" "AdditionalData (ObjPool s1 ! unat i) = k" "pool_only s s1"
    by (rule wait_for_free_object [OF assms(5,6,4)]) (rule that; assumption)
  have i: "i < MAX_CONCURRENT_ACTIONS" "i \<noteq> MAX_CONCURRENT_ACTIONS" and l1: "length (ObjPool s1) = 10" and h1: "ActivePoolIdx s1 = i"
    using assms(5) s1(2) by (auto simp: pool_lists_def)
  define s2 where "s2 = set_obj i (\<lambda>p. p\<lparr>pRespArgs := RecvArgs desc rx\<rparr>) s1"
  have f2: "pool_only s s2" unfolding s2_def by (rule pool_only_trans [OF s1(6) pool_only_upd(1)])
  have l2: "pool_lists s2 fs (i # as) []" unfolding s2_def using s1(2) i(1) by (rule pool_lists_set) simp
  have rec: "receives i k desc rx s2"
    using s1(4,5) h1 i(1) by (simp add: receives_def s2_def set_obj_nth [OF l1 i(1)] RECV_ID_def)
  define s4 where "s4 = s2\<lparr>TxPoolCnt := TxPoolCnt s2 - 1\<rparr>"
  have cnt: "TxPoolCnt s2 = TxPoolCnt s" using f2 by (rule pool_only_fields)
  have take: "take_buffer ?b FLOW_CONT_MIN s2 ?w5 = Some (s4, ?w7)"
    using assms(10) cnt by (simp add: take_buffer_def bus_osi s4_def)
  have "\<not> RelayFlagsViaRxPayload s4" using f2 assms(9) by (simp add: s4_def pool_only_fields)
  from write_data_bus [OF this assms(11), of "processor run" run ?w7] obtain s5 where
    s5: "write_data_msg ?b ctrl (Some desc) ext s4 ?w7 = Some (0, s5, ?w8)" "same_pool s4 s5"
    "RxIrqCnt s5 = RxIrqCnt s4" "RxDoneCnt s5 = RxDoneCnt s4" "IsCmdRespWaited s5 = IsCmdRespWaited s4" by metis
  have p5: "same_pool s2 s5" using s5(2) by (simp add: s4_def same_pool_def)
  obtain s6 w6 where r: "processor run (ObjSync i) s5 ?w8 = Some (0, s6, w6)" "same_pool (set_obj i (got ?args ?dat) s5) s6"
    "\<not> IsCmdRespWaited s6" "RxIrqCnt s6 = RxDoneCnt s6" "TxPoolCnt s6 = fl ! 0"
    "nwp_in w6 = []" "nwp_more w6 = later" "ObjSync i \<notin> nwp_sems w6"
    "nwp_out w6 = nwp_out ?w8 @ concat (replicate (Suc (length gs)) H2N_CNYS)"
  proof (rule sleep_until_data [of s5 i ?w8 gs len fl sd x dat pad later desc rx run])
    show "receives i (sd AND BSD_SOCKET_ID_MASK) desc rx s5" using rec p5 receives_cong assms(17) by blast
    show "\<not> IsCmdRespWaited s5" "RxIrqCnt s5 = RxDoneCnt s5"
      using s5(3-5) f2 assms(7,8) by (simp_all add: s4_def pool_only_fields pending_rx_def)
    show "sd AND BSD_SOCKET_ID_MASK < SL_MAX_SOCKETS" using assms(4,17) by simp
    show "ObjSync i \<notin> nwp_sems ?w8" "nwp_in ?w8 = []" "nwp_more ?w8 = map dummy_msg gs @ data_msg len fl sd x dat pad # later"
      using assms(13-15) by simp_all
  qed (rule assms(12,16,18-22) | rule that; assumption)+
  have l5: "pool_lists s5 fs (i # as) []" using l2 p5 by (rule pool_lists_same)
  have "pool_lists (set_obj i (got ?args ?dat) s5) fs (i # as) []" using l5 i(1) by (rule pool_lists_set) (simp add: got_def)
  then have l6: "pool_lists s6 fs (i # as) []" using r(2) by (rule pool_lists_same)
  have len5: "length (ObjPool s5) = 10" using l5 by (simp add: pool_lists_def)
  have ob: "ObjPool s6 ! unat i = got ?args ?dat (ObjPool s5 ! unat i)"
    using r(2) set_obj_nth [OF len5 i(1), of "got ?args ?dat" i] by (simp add: same_pool_def)
  have k6: "AdditionalData (ObjPool s6 ! unat i) = k" and args: "pRespArgs (ObjPool s6 ! unat i) = RecvArgs ?args ?dat"
    using receives_cong [OF rec p5] by (simp_all add: ob got_def receives_def)
  obtain s7 where s7: "release_pool_obj ?b i s6 w6 = Some (s7, ?lockP w6)" "pool_lists s7 (i # fs) as []"
    "ActiveActionsBitmap s7 = ActiveActionsBitmap s6 AND NOT (push_bit (unat k) 1)" "pool_only s6 s7"
    by (rule release_unwaited [OF l6 k6 assms(4)]) (rule that; assumption)
  have bm: "ActiveActionsBitmap s7 = ActiveActionsBitmap s"
  proof -
    have "ActiveActionsBitmap s6 = ActiveActionsBitmap s OR push_bit (unat k) 1"
      using r(2) p5 s1(3) assms(4) by (simp add: same_pool_def set_obj_def s2_def action_bit_def)
    moreover have "\<not> bit (ActiveActionsBitmap s) (unat k)"
      using assms(4,6) by (simp add: action_busy_def and_exp_eq_0_iff_not_bit)
    ultimately show ?thesis unfolding s7(3) by (intro bit_word_eqI) (auto simp: bit_simps)
  qed
  have sync: "snd (osi ?b (SyncClear TxSyncObj) (call (LockLock TxLockObj) (?lockP (?lockP w)))) = ?w5" by (simp add: bus_osi)
  have sleep: "osi_wait_ok ?b (ObjSync i) s5 ?w8 = Some (s6, w6)" using r(1) by (simp add: osi_wait_ok_def bus_wait)
  have "SlDrvDataReadOp ?b Sd ctrl desc ext s w = Some (0, ?args, ?dat, s7, ?lockP w6)"
    unfolding SlDrvDataReadOp_def
    by (simp only: assms(1-4) not_True_eq_False if_False Option.bind.simps s1(1) prod.case i(2) Let_def bus_osi(1) s2_def [symmetric]
        sync cnt not_le [THEN iffD2, OF assms(10)] take s5(1) simp_thms if_True sleep get_obj_below [OF i(1)] args resp_args.case s7(1))
  moreover have "\<not> pending_rx s7" "\<not> IsCmdRespWaited s7" "TxPoolCnt s7 = fl ! 0"
    using r(3-5) pool_only_fields [OF s7(4)] by (simp_all add: pending_rx_def)
  ultimately show ?thesis using s7(2) bm r(6,7,9) by (intro exI [of _ s7] exI [of _ "?lockP w6"]) simp
qed

definition demo_ext :: SlCmdExt where
  "demo_ext = \<lparr>TxPayloadLen = 0, RxPayloadLen = 16, ActualRxPayloadLen = 0, pTxPayload = [], pRxPayload = Some (replicate 16 0)\<rparr>"

definition demo_recv :: SlCmdCtrl where
  "demo_recv = \<lparr>Opcode = 0x940A, TxDescLen = 4, RxDescLen = 0\<rparr>"

theorem SlDrvDataReadOp_delivers_witness:
  "\<exists>s' w'. SlDrvDataReadOp (bus (processor no_handler) no_handler) 3 demo_recv [16, 0, 3, 0] demo_ext (demo_free\<lparr>TxPoolCnt := 5\<rparr>)
      (demo_net (map dummy_msg [[4, 0, 0, 0]] @ data_msg 11 [5, 0, 0, 0] 3 0 [104, 105, 33] [0] # [])) =
    Some (0, [3, 0, 3, 0], [104, 105, 33] @ replicate 13 0, s', w') \<and>
    pool_lists s' (0 # [1, 2, 3, 4, 5, 6, 7, 8, 9]) [] [] \<and> TxPoolCnt s' = 5 \<and> nwp_in w' = []"
proof -
  let ?s = "demo_free\<lparr>TxPoolCnt := 5\<rparr>" and ?gs = "[[4, 0, 0, 0 :: u8]]" and ?msg = "data_msg 11 [5, 0, 0, 0] 3 0 [104, 105, 33] [0]"
  let ?w = "demo_net (map dummy_msg ?gs @ ?msg # [])"
  have "pool_lists (SlDrvObjInit (demo_pool 0)) [0, 1, 2, 3, 4, 5, 6, 7, 8, 9] [] []" by (rule pool_lists_init)
  then have pool: "pool_lists ?s (0 # [1, 2, 3, 4, 5, 6, 7, 8, 9]) [] []"
    by (simp add: pool_lists_def demo_free_def)
  have s: "\<not> pending_rx ?s" "\<not> IsCmdRespWaited ?s" "\<not> RelayFlagsViaRxPayload ?s" "FLOW_CONT_MIN < TxPoolCnt ?s"
    "\<not> action_busy (ucast RECV_ID) 3 ?s"
    by (simp_all add: demo_free_def SlDrvObjInit_def demo_pool_def pending_rx_def FLOW_CONT_MIN_def action_busy_def)
  have w: "nwp_in ?w = []" "ObjSync 0 \<notin> nwp_sems ?w" "nwp_more ?w = map dummy_msg ?gs @ ?msg # []"
    by (simp_all add: demo_net_def demo_nwp_def)
  have c: "cmd_ready demo_recv [16, 0, 3, 0] (Some demo_ext)" "clear_len 11"
    "length [0 :: u8] = align4 (length [104 :: u8, 105, 33]) - length [104 :: u8, 105, 33]"
    by (simp_all add: cmd_ready_def demo_recv_def demo_ext_def align4_def clear_len_def)
  have e: "pRxPayload demo_ext = Some (replicate 16 0)" "RxPayloadLen demo_ext \<noteq> 0" by (simp_all add: demo_ext_def)
  have k: "(3 :: u8) AND BSD_SOCKET_ID_MASK = 3" "(3 :: u8) < SL_MAX_SOCKETS" by (simp_all add: BSD_SOCKET_ID_MASK_def SL_MAX_SOCKETS_def)
  show ?thesis
    using SlDrvDataReadOp_delivers [OF e k pool s(5,1-4) c(1) _ w _ k(1) _ c(2,3), where run = no_handler]
    by (auto simp: le16_def)
qed

section \<open>Waiting for a buffer\<close>

text \<open>
  A blocking socket: the sender sleeps until a message of the processor reports a free buffer beyond the
  reserve, taking up the wait again after a report that is not enough.
\<close>

definition clear_flags :: "u8 \<Rightarrow> u8 list \<Rightarrow> bool" where
  "clear_flags k f \<longleftrightarrow> length f = 4 \<and> f ! 2 AND push_bit (unat k) 1 = 0 \<and> drop_bit (unat k) (f ! 3) = 0"

definition sender_ready :: "u8 \<Rightarrow> SlDriverCb \<Rightarrow> bool" where
  "sender_ready k s \<longleftrightarrow> \<not> IsCmdRespWaited s \<and> RxIrqCnt s = RxDoneCnt s \<and>
     SocketTXFailure s AND push_bit (unat k) 1 = 0 \<and> drop_bit (unat k) (SocketNonBlocking s) = 0"

text \<open>What follows a wake-up.\<close>

definition woken_sender :: "nwp host_ops \<Rightarrow> u8 \<Rightarrow> SlDriverCb \<times> nwp \<Rightarrow> (int \<times> SlDriverCb \<times> nwp) option" where
  "woken_sender ops Sd = (\<lambda>(s1, w3). if FLOW_CONT_MIN + 1 < TxPoolCnt s1 then Some (0, s1, w3)
     else do { w4 \<leftarrow> osi_ok ops (LockUnlock TxLockObj) w3; wait_buffer ops Sd s1 w4 })"

lemma wait_buffer_blocked:
  assumes "sender_ready (Sd AND BSD_SOCKET_ID_MASK) s" "TxPoolCnt s \<le> FLOW_CONT_MIN + 1"
  shows "wait_buffer (bus wait run) Sd s w =
    Option.bind (osi_wait_ok (bus wait run) TxSyncObj s (call (SyncClear TxSyncObj) (call (LockLock TxLockObj) w))) (woken_sender (bus wait run) Sd)"
  using assms by (subst wait_buffer.simps) (simp add: bus_osi sender_ready_def Let_def woken_sender_def)

lemma woken_again:
  assumes "sender_ready (Sd AND BSD_SOCKET_ID_MASK) s" "TxPoolCnt s \<le> FLOW_CONT_MIN + 1"
  shows "woken_sender (bus wait run) Sd (s, w) =
    Option.bind (osi_wait_ok (bus wait run) TxSyncObj s
      (call (SyncClear TxSyncObj) (call (LockLock TxLockObj) (call (LockUnlock TxLockObj) w)))) (woken_sender (bus wait run) Sd)"
proof -
  have "woken_sender (bus wait run) Sd (s, w) = wait_buffer (bus wait run) Sd s (call (LockUnlock TxLockObj) w)"
    using assms(2) by (simp add: woken_sender_def bus_osi not_less [symmetric])
  then show ?thesis by (simp only: wait_buffer_blocked [OF assms])
qed

text \<open>The report of one message, read by the reading task.\<close>

definition reported :: "u8 list \<Rightarrow> SlDriverCb \<Rightarrow> SlDriverCb" where
  "reported f s = with_flags f (s\<lparr>RxIrqCnt := RxIrqCnt s + 1, pAsyncBuf := None\<rparr>)\<lparr>AsyncEvtHandler := None,
     RxMsgClass := Some DUMMY_MSG_CLASS, RxDoneCnt := RxDoneCnt s + 1\<rparr>"

lemma reported_simps:
  assumes "sender_ready k s" "clear_flags k f"
  shows "sender_ready k (reported f s)" "TxPoolCnt (reported f s) = f ! 0" "same_pool s (reported f s)"
  using assms by (simp_all add: sender_ready_def clear_flags_def reported_def with_flags_def same_pool_def)

lemma report_arrives:
  assumes "sender_ready k s" "c \<notin> nwp_sems w" "nwp_in w = []" "nwp_more w = dummy_msg f # ms" "length f = 4"
  obtains w' where "processor run c s w = processor run c (reported f s) w'" "nwp_in w' = []" "nwp_more w' = ms"
    "nwp_sems w' = (if FLOW_CONT_MIN < f ! 0 then insert TxSyncObj (nwp_sems w) else nwp_sems w)" "nwp_out w' = nwp_out w @ H2N_CNYS"
proof -
  let ?s = "s\<lparr>RxIrqCnt := RxIrqCnt s + 1\<rparr>" and ?w = "w\<lparr>nwp_in := dummy_msg f, nwp_more := ms\<rparr>"
  let ?w2 = "call (LockUnlock GlobalLockObj) (flow_signal f ((call (LockLock GlobalLockObj) ?w)\<lparr>nwp_in := [], nwp_out := nwp_out ?w @ H2N_CNYS\<rparr>))"
  have "pending_rx ?s" using assms(1) by (simp add: sender_ready_def pending_rx_def)
  then have "SlDrvMsgReadSpawnCtx (bus idle run) ?s ?w = Some (0, reported f s, ?w2)"
    using spawn_dummy [of ?s ?w f idle run] assms(5) by (simp add: reported_def)
  then have "processor run c s w = processor run c (reported f s) ?w2"
    using assms by (intro processor_step) (simp_all add: sender_ready_def)
  then show ?thesis by (rule that) simp_all
qed

lemma sender_woken:
  assumes "sender_ready (Sd AND BSD_SOCKET_ID_MASK) s" "TxSyncObj \<notin> nwp_sems w" "nwp_in w = []"
    "nwp_more w = map dummy_msg (gs @ [f]) @ later" "\<forall>g \<in> set (gs @ [f]). clear_flags (Sd AND BSD_SOCKET_ID_MASK) g"
    "\<forall>g \<in> set gs. g ! 0 \<le> FLOW_CONT_MIN + 1" "FLOW_CONT_MIN + 1 < f ! 0"
  obtains s' w' where
    "Option.bind (osi_wait_ok (bus (processor run) run) TxSyncObj s w) (woken_sender (bus (processor run) run) Sd) = Some (0, s', w')"
    "sender_ready (Sd AND BSD_SOCKET_ID_MASK) s'" "TxPoolCnt s' = f ! 0" "same_pool s s'" "nwp_in w' = []" "nwp_more w' = later"
    "nwp_out w' = nwp_out w @ concat (replicate (Suc (length gs)) H2N_CNYS)"
  using assms
proof (induction gs arbitrary: s w thesis)
  case Nil
  have fl: "clear_flags (Sd AND BSD_SOCKET_ID_MASK) f" "length f = 4" "FLOW_CONT_MIN < f ! 0"
    using Nil.prems(6,8) by (simp_all add: clear_flags_def FLOW_CONT_MIN_def word_less_nat_alt)
  note new = reported_simps [OF Nil.prems(2) fl(1)]
  have more: "nwp_more w = dummy_msg f # later" using Nil.prems(5) by simp
  obtain w2 where w2: "processor run TxSyncObj s w = processor run TxSyncObj (reported f s) w2" "nwp_in w2 = []" "nwp_more w2 = later"
    "nwp_sems w2 = (if FLOW_CONT_MIN < f ! 0 then insert TxSyncObj (nwp_sems w) else nwp_sems w)" "nwp_out w2 = nwp_out w @ H2N_CNYS"
    by (rule report_arrives [OF Nil.prems(2-4) more fl(2)]) (rule that; assumption)
  have "processor run TxSyncObj s w = Some (0, reported f s, w2\<lparr>nwp_sems := nwp_sems w2 - {TxSyncObj}\<rparr>)"
    unfolding w2(1) using w2(4) fl(3) by (subst processor.simps) simp
  then have r: "Option.bind (osi_wait_ok (bus (processor run) run) TxSyncObj s w) (woken_sender (bus (processor run) run) Sd) =
      Some (0, reported f s, w2\<lparr>nwp_sems := nwp_sems w2 - {TxSyncObj}\<rparr>)"
    using new(2) Nil.prems(8) by (simp add: osi_wait_ok_def bus_wait woken_sender_def)
  show ?case by (rule Nil.prems(1) [OF r]) (use new w2 in simp_all)
next
  case (Cons g gs)
  let ?b = "bus (processor run) run"
  have fl: "clear_flags (Sd AND BSD_SOCKET_ID_MASK) g" "length g = 4" "g ! 0 \<le> FLOW_CONT_MIN + 1"
    using Cons.prems(6,7) by (simp_all add: clear_flags_def)
  note new = reported_simps [OF Cons.prems(2) fl(1)]
  have more: "nwp_more w = dummy_msg g # map dummy_msg (gs @ [f]) @ later" using Cons.prems(5) by simp
  obtain w2 where w2: "processor run TxSyncObj s w = processor run TxSyncObj (reported g s) w2" "nwp_in w2 = []"
    "nwp_more w2 = map dummy_msg (gs @ [f]) @ later"
    "nwp_sems w2 = (if FLOW_CONT_MIN < g ! 0 then insert TxSyncObj (nwp_sems w) else nwp_sems w)" "nwp_out w2 = nwp_out w @ H2N_CNYS"
    by (rule report_arrives [OF Cons.prems(2-4) more fl(2)]) (rule that; assumption)
  define w3 where "w3 = (if FLOW_CONT_MIN < g ! 0
     then call (SyncClear TxSyncObj) (call (LockLock TxLockObj) (call (LockUnlock TxLockObj) (w2\<lparr>nwp_sems := nwp_sems w2 - {TxSyncObj}\<rparr>)))
     else w2)"
  have "osi_wait_ok ?b TxSyncObj s w = osi_wait_ok ?b TxSyncObj (reported g s) w2"
    using w2(1) by (simp add: osi_wait_ok_def bus_wait)
  also have "Option.bind \<dots> (woken_sender ?b Sd) = Option.bind (osi_wait_ok ?b TxSyncObj (reported g s) w3) (woken_sender ?b Sd)"
  proof (cases "FLOW_CONT_MIN < g ! 0")
    case True
    then have "osi_wait_ok ?b TxSyncObj (reported g s) w2 = Some (reported g s, w2\<lparr>nwp_sems := nwp_sems w2 - {TxSyncObj}\<rparr>)"
      using w2(4) by (simp add: osi_wait_ok_def bus_wait processor.simps)
    then show ?thesis
      using True fl(3) new(2) woken_again [OF new(1), of "processor run" run] by (simp add: w3_def)
  next
    case False
    then show ?thesis by (simp add: w3_def)
  qed
  finally have step: "Option.bind (osi_wait_ok ?b TxSyncObj s w) (woken_sender ?b Sd) =
      Option.bind (osi_wait_ok ?b TxSyncObj (reported g s) w3) (woken_sender ?b Sd)" .
  have w3: "TxSyncObj \<notin> nwp_sems w3" "nwp_in w3 = []" "nwp_more w3 = map dummy_msg (gs @ [f]) @ later" "nwp_out w3 = nwp_out w @ H2N_CNYS"
    using w2 Cons.prems(3) by (simp_all add: w3_def)
  obtain s' w' where r: "Option.bind (osi_wait_ok ?b TxSyncObj (reported g s) w3) (woken_sender ?b Sd) = Some (0, s', w')"
    "sender_ready (Sd AND BSD_SOCKET_ID_MASK) s'" "TxPoolCnt s' = f ! 0" "same_pool (reported g s) s'" "nwp_in w' = []" "nwp_more w' = later"
    "nwp_out w' = nwp_out w3 @ concat (replicate (Suc (length gs)) H2N_CNYS)"
  proof (rule Cons.IH)
    show "\<forall>g \<in> set (gs @ [f]). clear_flags (Sd AND BSD_SOCKET_ID_MASK) g" "\<forall>g \<in> set gs. g ! 0 \<le> FLOW_CONT_MIN + 1"
      using Cons.prems(6,7) by simp_all
  qed (rule new(1) w3(1-3) Cons.prems(8) | rule that; assumption)+
  show ?case using step r w3(4) same_pool_trans [OF new(3) r(4)] by (intro Cons.prems(1)) simp_all
qed

text \<open>
  C4. A send on a blocking socket of an otherwise idle driver that finds no buffer sleeps until one is
  there, as long as no failed
  transmission is flagged and no socket of the same or a higher number is non-blocking, neither at the
  start nor in the reports that come in: reports of the processor that do not leave more than the
  reserve put it back to sleep, and after the first that does the message goes out, once, complete and
  after nothing but the acknowledgements of the reports; one buffer is used up.  (Otherwise the send may
  fail with \<open>SL_EAGAIN\<close> instead of sleeping: \<open>SlDrvDataWriteOp_blocking_fails\<close>.)
\<close>

theorem SlDrvDataWriteOp_waits_for_buffer:
  assumes "sender_ready k s" "Sd AND BSD_SOCKET_ID_MASK = k" "TxPoolCnt s \<le> FLOW_CONT_MIN + 1" "\<not> RelayFlagsViaRxPayload s"
    "cmd_ready ctrl desc (Some ext)" "nwp_in w = []" "nwp_more w = map dummy_msg (gs @ [f]) @ later"
    "\<forall>g \<in> set (gs @ [f]). clear_flags k g" "\<forall>g \<in> set gs. g ! 0 \<le> FLOW_CONT_MIN + 1" "FLOW_CONT_MIN + 1 < f ! 0"
  shows "\<exists>s' w'. SlDrvDataWriteOp (bus (processor run) run) Sd ctrl (Some desc) ext s w = Some (0, s', w') \<and>
    TxPoolCnt s' = f ! 0 - 1 \<and> same_pool s s' \<and> sender_ready k s' \<and> nwp_in w' = [] \<and> nwp_more w' = later \<and>
    nwp_out w' = nwp_out w @ concat (replicate (Suc (length gs)) H2N_CNYS) @ cmd_bytes ctrl desc (Some ext)"
proof -
  let ?b = "bus (processor run) run" and ?w = "call (SyncClear TxSyncObj) (call (LockLock TxLockObj) w)"
  have ready: "sender_ready (Sd AND BSD_SOCKET_ID_MASK) s" using assms(1,2) by simp
  have p: "TxSyncObj \<notin> nwp_sems ?w" "nwp_in ?w = []" "nwp_more ?w = map dummy_msg (gs @ [f]) @ later"
    using assms(6,7) by simp_all
  have fl: "\<forall>g \<in> set (gs @ [f]). clear_flags (Sd AND BSD_SOCKET_ID_MASK) g" using assms(2,8) by simp
  obtain s1 w1 where r: "Option.bind (osi_wait_ok ?b TxSyncObj s ?w) (woken_sender ?b Sd) = Some (0, s1, w1)"
    "sender_ready (Sd AND BSD_SOCKET_ID_MASK) s1" "TxPoolCnt s1 = f ! 0" "same_pool s s1" "nwp_in w1 = []" "nwp_more w1 = later"
    "nwp_out w1 = nwp_out ?w @ concat (replicate (Suc (length gs)) H2N_CNYS)"
    by (rule sender_woken [OF ready p fl assms(9,10)]) (rule that; assumption)
  have wb: "wait_buffer ?b Sd s w = Some (0, s1, w1)"
    using wait_buffer_blocked [OF ready assms(3)] r(1) by simp
  define s2 where "s2 = s1\<lparr>TxPoolCnt := TxPoolCnt s1 - 1\<rparr>"
  let ?w2 = "call (LockUnlock TxLockObj) (call (LockLock GlobalLockObj) w1)"
  have take: "take_buffer ?b (FLOW_CONT_MIN + 1) s1 w1 = Some (s2, ?w2)"
    using assms(10) r(3) by (simp add: take_buffer_def bus_osi s2_def)
  have pool: "same_pool s s2" and "\<not> RelayFlagsViaRxPayload s2" using r(4) assms(4) by (simp_all add: s2_def same_pool_def)
  from write_data_bus [OF this(2) assms(5), of "processor run" run ?w2] obtain s3 where
    s3: "write_data_msg ?b ctrl (Some desc) ext s2 ?w2 =
      Some (0, s3, call (LockUnlock GlobalLockObj) (?w2\<lparr>nwp_out := nwp_out ?w2 @ cmd_bytes ctrl desc (Some ext)\<rparr>))"
    "same_pool s2 s3" "RxIrqCnt s3 = RxIrqCnt s2" "RxDoneCnt s3 = RxDoneCnt s2" "IsCmdRespWaited s3 = IsCmdRespWaited s2"
    "TxPoolCnt s3 = TxPoolCnt s2" "SocketTXFailure s3 = SocketTXFailure s2" "SocketNonBlocking s3 = SocketNonBlocking s2" by metis
  have "SlDrvDataWriteOp ?b Sd ctrl (Some desc) ext s w =
      Some (0, s3, call (LockUnlock GlobalLockObj) (?w2\<lparr>nwp_out := nwp_out ?w2 @ cmd_bytes ctrl desc (Some ext)\<rparr>))"
    by (simp add: SlDrvDataWriteOp_def wb take s3(1))
  moreover have "sender_ready k s3" using r(2) assms(2) s3(3-8) by (simp add: sender_ready_def s2_def)
  ultimately show ?thesis using r(3,5-7) s3(6) same_pool_trans [OF pool s3(2)] by (simp add: s2_def)
qed

definition demo_send_ext :: SlCmdExt where
  "demo_send_ext = \<lparr>TxPayloadLen = 2, RxPayloadLen = 0, ActualRxPayloadLen = 0, pTxPayload = [7, 8, 0, 0], pRxPayload = None\<rparr>"

theorem SlDrvDataWriteOp_waits_for_buffer_witness:
  "\<exists>s' w'. SlDrvDataWriteOp (bus (processor no_handler) no_handler) 3 demo_recv (Some [2, 0, 3, 0]) demo_send_ext (demo_free\<lparr>TxPoolCnt := 2\<rparr>)
      (demo_net (map dummy_msg ([[1, 0, 0, 0], [2, 0, 0, 0]] @ [[9, 0, 0, 0]]) @ [])) = Some (0, s', w') \<and>
    TxPoolCnt s' = 8 \<and> nwp_out w' = H2N_CNYS @ H2N_CNYS @ H2N_CNYS @ cmd_bytes demo_recv [2, 0, 3, 0] (Some demo_send_ext)"
proof -
  let ?s = "demo_free\<lparr>TxPoolCnt := 2\<rparr>" and ?gs = "[[1, 0, 0, 0], [2, 0, 0, 0 :: u8]]" and ?f = "[9, 0, 0, 0 :: u8]"
  let ?w = "demo_net (map dummy_msg (?gs @ [?f]) @ [])"
  have k: "(3 :: u8) AND BSD_SOCKET_ID_MASK = 3" by (simp add: BSD_SOCKET_ID_MASK_def)
  have s: "sender_ready 3 ?s" "TxPoolCnt ?s \<le> FLOW_CONT_MIN + 1" "\<not> RelayFlagsViaRxPayload ?s"
    by (simp_all add: demo_free_def SlDrvObjInit_def demo_pool_def sender_ready_def FLOW_CONT_MIN_def)
  have w: "nwp_in ?w = []" "nwp_out ?w = []" "nwp_more ?w = map dummy_msg (?gs @ [?f]) @ []"
    by (simp_all add: demo_net_def demo_nwp_def)
  have c: "cmd_ready demo_recv [2, 0, 3, 0] (Some demo_send_ext)"
    by (simp add: cmd_ready_def demo_recv_def demo_send_ext_def align4_def)
  have f: "\<forall>g \<in> set (?gs @ [?f]). clear_flags 3 g" "\<forall>g \<in> set ?gs. g ! 0 \<le> FLOW_CONT_MIN + 1" "FLOW_CONT_MIN + 1 < ?f ! 0"
    by (simp_all add: clear_flags_def FLOW_CONT_MIN_def)
  show ?thesis
    using SlDrvDataWriteOp_waits_for_buffer [OF s(1) k s(2,3) c w(1,3) f, of no_handler] w(2) by auto
qed

text \<open>The flow control looks at the wrong bits: the word of non-blocking sockets is shifted, not masked, so
  a send on a blocking socket that should wait for a buffer fails with \<open>SL_EAGAIN\<close> as soon as some
  socket with a higher number is non-blocking; nothing is sent.
\<close>

theorem SlDrvDataWriteOp_blocking_fails:
  assumes "Sd AND BSD_SOCKET_ID_MASK = k" "SocketTXFailure s AND push_bit (unat k) 1 = 0" "TxPoolCnt s \<le> FLOW_CONT_MIN + 1"
    "\<not> bit (SocketNonBlocking s) (unat k)" "bit (SocketNonBlocking s) (unat j)" "k < j"
  shows "\<exists>w'. SlDrvDataWriteOp (bus wait run) Sd ctrl desc ext s w = Some (SL_EAGAIN, s, w') \<and> nwp_out w' = nwp_out w"
proof -
  have "unat j = unat k + (unat j - unat k)" using assms(6) by (simp add: word_less_nat_alt)
  then have "bit (drop_bit (unat k) (SocketNonBlocking s)) (unat j - unat k)" using assms(5) by (simp add: bit_drop_bit_eq)
  then have "drop_bit (unat k) (SocketNonBlocking s) \<noteq> 0" by auto
  then have "wait_buffer (bus wait run) Sd s w =
      Some (SL_EAGAIN, s, call (LockUnlock TxLockObj) (call (SyncClear TxSyncObj) (call (LockLock TxLockObj) w)))"
    using assms(1-3) by (subst wait_buffer.simps) (simp add: bus_osi Let_def)
  then show ?thesis by (simp add: SlDrvDataWriteOp_def SL_EAGAIN_def)
qed

theorem SlDrvDataWriteOp_blocking_fails_witness:
  "\<exists>w'. SlDrvDataWriteOp (bus idle no_handler) 3 demo_recv None demo_send_ext (demo_free\<lparr>TxPoolCnt := 2, SocketNonBlocking := 0x20\<rparr>) (demo_net []) =
    Some (SL_EAGAIN, demo_free\<lparr>TxPoolCnt := 2, SocketNonBlocking := 0x20\<rparr>, w') \<and> nwp_out w' = nwp_out (demo_net [])"
  by (rule SlDrvDataWriteOp_blocking_fails [of 3 3 _ 5])
    (simp_all add: BSD_SOCKET_ID_MASK_def demo_free_def SlDrvObjInit_def demo_pool_def FLOW_CONT_MIN_def bit_numeral_rec)

end
