(* ===== verification/Sl_Payload_Props.thy ===== *)
theory Sl_Payload_Props
  imports Sl_Data_Props
begin

text \<open>
  Responses with a payload: one that fits the buffer of the caller is delivered by the command; one that
  is longer leaves the reader in a loop unless its length is a multiple of four.
\<close>

section \<open>Payloads that fit\<close>

lemma ucast_of_nat: "m < 65536 \<Longrightarrow> (ucast (of_nat m :: u16) :: u32) = of_nat m"
  by (simp add: word_unat_eq_iff unsigned_ucast_eq unsigned_of_nat take_bit_nat_eq_self)

lemma payload_len:
  assumes "rd16 2 hdr = of_nat (4 + unat (RxDescLen ctrl) + n)" "n < 32765"
  shows "sint (ucast (RSP_PAYLOAD_LEN hdr - ucast (RxDescLen ctrl)) :: u16) = int n"
proof -
  have "4 + unat (RxDescLen ctrl) + n < 65536" using assms(2) unat8_bound [of "RxDescLen ctrl"] by linarith
  then have "ucast (rd16 2 hdr) = (of_nat (4 + unat (RxDescLen ctrl) + n) :: u32)"
    unfolding assms(1) by (rule ucast_of_nat)
  then have "RSP_PAYLOAD_LEN hdr - ucast (RxDescLen ctrl) = of_nat n"
    by (simp add: RSP_PAYLOAD_LEN_def)
  moreover have "ucast (of_nat n :: u32) = (of_nat n :: u16)"
    using assms(2) by (simp add: word_unat_eq_iff unsigned_ucast_eq unsigned_of_nat take_bit_nat_eq_self)
  ultimately show ?thesis using assms(2) sint_small [of n] by simp
qed

lemma i16_id: "- 32768 \<le> n \<Longrightarrow> n < 32768 \<Longrightarrow> i16 n = n"
  by (simp add: i16_def signed_of_int signed_take_bit_int_eq_self)

lemma answers_payload:
  assumes "pCmdCtrl s = Some ctrl" "pTxRxDescBuff s = Some desc" "pCmdExt s = Some e" "pRxPayload e = Some rx"
    "RxPayloadLen e \<noteq> 0" "length ans = unat (RxDescLen ctrl)" "length ans mod 4 = 0" "length ans \<le> length desc"
    "rd16 2 hdr = of_nat (4 + unat (RxDescLen ctrl) + length dat)" "0 < length dat" "length dat \<le> unat (RxPayloadLen e)"
    "length dat < 32765" "unat (RxPayloadLen e) \<le> length rx" "length pad = align4 (length dat) - length dat"
  shows "answers (bus wait run) hdr (ans @ dat @ pad) s (ans @ drop (length ans) desc)
    (Some (e\<lparr>ActualRxPayloadLen := of_nat (length dat), pRxPayload := Some (dat @ drop (length dat) rx)\<rparr>))"
  unfolding answers_def
proof (intro allI impI)
  fix s' and w' :: nwp
  assume s: "same_params s s'" and w: "nwp_in w' = ans @ dat @ pad"
  let ?b = "bus wait run" and ?e = "e\<lparr>ActualRxPayloadLen := of_nat (length dat)\<rparr>"
  let ?w1 = "w'\<lparr>nwp_in := dat @ pad\<rparr>" and ?s1 = "s'\<lparr>pTxRxDescBuff := Some (ans @ drop (length ans) desc)\<rparr>"
  have al: "align4 (unat (RxDescLen ctrl)) = length ans" using assms(6,7) by (simp add: align4_def) presburger
  have "length ans < 32768" using assms(6) unat8_bound [of "RxDescLen ctrl"] by linarith
  then have desc: "read_at ?b 0 (length ans) desc w' = Some (ans @ drop (length ans) desc, ?w1)"
    using w assms(8) by (simp add: bus_read_at)
  have al2: "align4 (length dat) = length (dat @ pad)" using assms(14) unat_align(2) [of "length dat"] by simp
  have rd: "read_data ?b (length dat) rx ?w1 = Some (dat @ drop (length dat) rx, ?w1\<lparr>nwp_in := []\<rparr>)"
    using al2 assms(11-13) by (subst read_data_bus) simp_all
  note act = payload_len [OF assms(9,12)]
  have le: "\<not> int (length dat) \<le> 0" "\<not> int (unat (RxPayloadLen e)) < int (length dat)" using assms(10,11) by linarith+
  have rest: "\<not> int (unat (RxPayloadLen e)) < (if 0 < length dat mod 4 then i16 (int (length dat) - 4) else int (length dat))"
  proof -
    have "i16 (int (length dat) - 4) = int (length dat) - 4" using assms(10,12) by (intro i16_id) simp_all
    then have "(if 0 < length dat mod 4 then i16 (int (length dat) - 4) else int (length dat)) \<le> int (length dat)" by simp
    then show ?thesis using assms(11) by linarith
  qed
  have e1: "RxPayloadLen (e\<lparr>ActualRxPayloadLen := word_of_int (int (length dat))\<rparr>) = RxPayloadLen e"
    "pRxPayload (e\<lparr>ActualRxPayloadLen := word_of_int (int (length dat))\<rparr>) = Some rx"
    using assms(4) by simp_all
  have "read_rx_payload ?b hdr ctrl e ?w1 = Some (?e\<lparr>pRxPayload := Some (dat @ drop (length dat) rx)\<rparr>, ?w1\<lparr>nwp_in := []\<rparr>)"
    unfolding read_rx_payload_def act Let_def
    by (simp only: le if_False e1 Option.bind.simps nat_int rd prod.case rest) simp
  then show "read_cmd_resp ?b hdr s' w' = Some (s'\<lparr>pTxRxDescBuff := Some (ans @ drop (length ans) desc),
      pCmdExt := Some (e\<lparr>ActualRxPayloadLen := of_nat (length dat), pRxPayload := Some (dat @ drop (length dat) rx)\<rparr>)\<rparr>, w'\<lparr>nwp_in := []\<rparr>)"
    using s assms(1-3,5) by (simp add: read_cmd_resp_def same_params_def al desc)
qed

text \<open>
  C38. A command on a driver that has no message left to read and no relay of flags under way, whose answer
  carries data (fewer than 32765 bytes) that fits the caller's payload buffer: the caller finds the descriptor of the answer in its buffer,
  the data in the payload buffer and their number in \<open>ActualRxPayloadLen\<close>, whatever flow-control
  messages came before; the bytes that fill the last word are consumed but not delivered.
  (An answer with more data than the buffer takes makes the command hang: \<open>read_cmd_resp_overlong_hangs\<close>.)
\<close>

theorem SlDrvCmdOp_delivers_payload:
  assumes "\<not> pending_rx s" "\<not> RelayFlagsViaRxPayload s" "cmd_ready ctrl desc (Some e)" "nwp_in w = []" "CmdSyncObj \<notin> nwp_sems w"
    "nwp_more w = map dummy_msg fs @ nwp_msg op len fl (ans @ dat @ pad) # later" "\<forall>f \<in> set fs. length f = 4"
    "length fl = 4" "clear_len len" "SL_OPCODE_SYNC AND op \<noteq> 0" "len = of_nat (4 + unat (RxDescLen ctrl) + length dat)"
    "pRxPayload e = Some rx" "RxPayloadLen e \<noteq> 0" "length ans = unat (RxDescLen ctrl)" "length ans mod 4 = 0" "length ans \<le> length desc"
    "0 < length dat" "length dat \<le> unat (RxPayloadLen e)" "length dat < 32765" "unat (RxPayloadLen e) \<le> length rx"
    "length pad = align4 (length dat) - length dat"
  shows "\<exists>s' w'. SlDrvCmdOp (bus (processor run) run) ctrl (Some desc) (Some e) s w = Some (0, s', w') \<and>
    pTxRxDescBuff s' = Some (ans @ drop (length ans) desc) \<and>
    pCmdExt s' = Some (e\<lparr>ActualRxPayloadLen := of_nat (length dat), pRxPayload := Some (dat @ drop (length dat) rx)\<rparr>) \<and>
    \<not> IsCmdRespWaited s' \<and> \<not> pending_rx s' \<and> same_pool s s' \<and> TxPoolCnt s' = fl ! 0 \<and> nwp_in w' = [] \<and> nwp_more w' = later \<and>
    nwp_out w' = nwp_out w @ cmd_bytes ctrl desc (Some e) @ concat (replicate (Suc (length fs)) H2N_CNYS)"
proof -
  have "rd16 2 (le16 op @ le16 len @ fl) = of_nat (4 + unat (RxDescLen ctrl) + length dat)" by (simp only: rd16_le16 assms(11))
  then have "answers (bus (processor run) run) (le16 op @ le16 len @ fl) (ans @ dat @ pad) (set_params ctrl (Some desc) (Some e) s)
      (ans @ drop (length ans) desc) (Some (e\<lparr>ActualRxPayloadLen := of_nat (length dat), pRxPayload := Some (dat @ drop (length dat) rx)\<rparr>))"
    using assms(12-21) by (intro answers_payload) (simp_all add: set_params_def)
  from cmd_op_answered [OF assms(1-10) this] show ?thesis by metis
qed

definition demo_get :: SlCmdExt where
  "demo_get = \<lparr>TxPayloadLen = 0, RxPayloadLen = 8, ActualRxPayloadLen = 0, pTxPayload = [], pRxPayload = Some (replicate 8 0)\<rparr>"

definition demo_ctrl :: SlCmdCtrl where
  "demo_ctrl = \<lparr>Opcode = 0x8466, TxDescLen = 8, RxDescLen = 8\<rparr>"

theorem SlDrvCmdOp_delivers_payload_witness:
  "\<exists>s' w'. SlDrvCmdOp (bus (processor no_handler) no_handler) demo_ctrl (Some (replicate 8 1)) (Some demo_get) demo_free
      (demo_net (map dummy_msg [] @ nwp_msg 0x0466 17 [3, 0, 0, 0] ([0, 0, 4, 0, 5, 0, 0, 0] @ [1, 2, 3, 4, 5] @ [0, 0, 0]) # [])) =
    Some (0, s', w') \<and> pTxRxDescBuff s' = Some [0, 0, 4, 0, 5, 0, 0, 0] \<and>
    pCmdExt s' = Some (demo_get\<lparr>ActualRxPayloadLen := 5, pRxPayload := Some [1, 2, 3, 4, 5, 0, 0, 0]\<rparr>)"
proof -
  let ?w = "demo_net (map dummy_msg [] @ nwp_msg 0x0466 17 [3, 0, 0, 0] ([0, 0, 4, 0, 5, 0, 0, 0] @ [1, 2, 3, 4, 5] @ [0, 0, 0]) # [])"
  have s: "\<not> pending_rx demo_free" "\<not> RelayFlagsViaRxPayload demo_free"
    by (simp_all add: demo_free_def SlDrvObjInit_def demo_pool_def pending_rx_def)
  have c: "cmd_ready demo_ctrl (replicate 8 1) (Some demo_get)" by (simp add: cmd_ready_def demo_ctrl_def demo_get_def align4_def)
  have w: "nwp_in ?w = []" "CmdSyncObj \<notin> nwp_sems ?w"
    "nwp_more ?w = map dummy_msg [] @ nwp_msg 0x0466 17 [3, 0, 0, 0] ([0, 0, 4, 0, 5, 0, 0, 0] @ [1, 2, 3, 4, 5] @ [0, 0, 0]) # []"
    by (simp_all add: demo_net_def demo_nwp_def)
  have p: "length [0 :: u8, 0, 0] = align4 (length [1 :: u8, 2, 3, 4, 5]) - length [1 :: u8, 2, 3, 4, 5]" by (simp add: align4_def)
  have m: "\<forall>f \<in> set ([] :: u8 list list). length f = 4" "length [3 :: u8, 0, 0, 0] = 4" "clear_len 17" "SL_OPCODE_SYNC AND 0x0466 \<noteq> 0"
    "17 = (of_nat (4 + unat (RxDescLen demo_ctrl) + length [1 :: u8, 2, 3, 4, 5]) :: u16)"
    by (simp_all add: clear_len_def SL_OPCODE_SYNC_def demo_ctrl_def)
  have e: "pRxPayload demo_get = Some (replicate 8 0)" "RxPayloadLen demo_get \<noteq> 0" "length [0 :: u8, 0, 4, 0, 5, 0, 0, 0] = unat (RxDescLen demo_ctrl)"
    "length [0 :: u8, 0, 4, 0, 5, 0, 0, 0] mod 4 = 0" "length [0 :: u8, 0, 4, 0, 5, 0, 0, 0] \<le> length (replicate 8 (1 :: u8))"
    "0 < length [1 :: u8, 2, 3, 4, 5]" "length [1 :: u8, 2, 3, 4, 5] \<le> unat (RxPayloadLen demo_get)" "length [1 :: u8, 2, 3, 4, 5] < 32765"
    "unat (RxPayloadLen demo_get) \<le> length (replicate 8 (0 :: u8))"
    by (simp_all add: demo_get_def demo_ctrl_def)
  have v: "[0, 0, 4, 0, 5, 0, 0, 0] @ drop (length [0 :: u8, 0, 4, 0, 5, 0, 0, 0]) (replicate 8 1) = [0, 0, 4, 0, 5, 0, 0, 0]"
    "of_nat (length [1 :: u8, 2, 3, 4, 5]) = (5 :: u16)" "[1, 2, 3, 4, 5] @ drop (length [1 :: u8, 2, 3, 4, 5]) (replicate 8 0) = [1, 2, 3, 4, 5, 0, 0, 0]"
    by (simp_all add: numeral_nat)
  show ?thesis
    using SlDrvCmdOp_delivers_payload [OF s c w m e p, of no_handler] unfolding v by blast
qed

section \<open>Payloads that do not fit\<close>

text \<open>The loop that throws away what does not fit counts down by four to exactly zero.\<close>

lemma minus4_mod: "unat (n - 4 :: u16) mod 4 = unat n mod 4"
proof -
  have "uint (n - 4) = (uint n - 4) mod 65536" by (simp add: uint_word_ariths)
  then have "uint (n - 4) mod 4 = (uint n - 4) mod 4" by (simp add: mod_mod_cancel)
  also have "\<dots> = uint n mod 4" by presburger
  finally have "int (unat (n - 4) mod 4) = int (unat n mod 4)" by (simp add: of_nat_mod)
  then show ?thesis by (simp only: of_nat_eq_iff)
qed

lemma dump_rest_words: "unat n mod 4 = 0" if "dump_rest ops n w = Some w'"
proof (rule dump_rest.raw_induct [where P = "\<lambda>ops n w w'. unat n mod 4 = 0", OF _ that])
  fix f and ops :: "'w host_ops" and n :: u16 and w w'
  assume IH: "\<And>ops n w w'. f ops n w = Some w' \<Longrightarrow> unat n mod 4 = 0"
    and eq: "(if 0 < n then do { (xs, w1) \<leftarrow> read_at ops 0 4 (replicate 4 0) w; f ops (n - 4) w1 } else Some w) = Some w'"
  show "unat n mod 4 = 0"
  proof (cases "0 < n")
    case True
    then obtain w1 where "f ops (n - 4) w1 = Some w'" using eq by (auto split: Option.bind_splits)
    then show ?thesis using IH minus4_mod [of n] by metis
  next
    case False
    then show ?thesis by (simp add: word_gt_0)
  qed
qed

lemma unat_word_of_int: "0 \<le> n \<Longrightarrow> n < 65536 \<Longrightarrow> unat (word_of_int n :: u16) = nat n"
  by (simp add: unsigned_of_int take_bit_int_eq_self)

text \<open>A response that is longer than the buffer of the caller, by more than the word the last bytes are
  taken from, and whose length is not a multiple of four is never read to its end: the command does not
  return, whatever the processor sends.
\<close>

theorem read_cmd_resp_overlong_hangs:
  assumes "pCmdCtrl s = Some ctrl" "pCmdExt s = Some e" "RxPayloadLen e \<noteq> 0"
    "sz = sint (ucast (RSP_PAYLOAD_LEN hdr - ucast (RxDescLen ctrl)) :: u16)" "sz mod 4 \<noteq> 0"
    "int (unat (RxPayloadLen e)) + (if unat (RxPayloadLen e) mod 4 = 0 then 0 else 4) < sz"
  shows "read_cmd_resp ops hdr s w = None"
proof -
  define R where "R = unat (RxPayloadLen e)"
  define rest where "rest = (if 0 < R mod 4 then i16 (sz - 4) else sz)"
  let ?n = "rest - int (R - R mod 4)"
  have "sz < 32768" using assms(4) sint_lt [of "ucast (RSP_PAYLOAD_LEN hdr - ucast (RxDescLen ctrl)) :: u16"] by simp
  then have rest: "rest = (if R mod 4 = 0 then sz else sz - 4)" "int R < rest" "rest < 32768"
    using assms(6) by (auto simp: i16_id rest_def R_def [symmetric] split: if_splits)
  have "int (R - R mod 4) mod 4 = 0" by presburger
  then have n: "?n mod 4 \<noteq> 0" "0 \<le> ?n" "?n < 65536" using rest assms(5) by (auto split: if_splits) presburger+
  have u: "unat (word_of_int ?n :: u16) = nat ?n" using n(2,3) by (rule unat_word_of_int)
  have hang: "dump_rest ops (word_of_int ?n) w' = None" for w'
  proof (rule ccontr)
    assume "dump_rest ops (word_of_int ?n) w' \<noteq> None"
    then have z: "nat ?n mod 4 = 0" using dump_rest_words u by fastforce
    have nz: "nat k mod 4 \<noteq> 0" if "0 \<le> k" "k mod 4 \<noteq> 0" for k :: int
    proof -
      obtain m where m: "k = int m" using \<open>0 \<le> k\<close> by (rule nonneg_int_cases)
      show ?thesis using \<open>k mod 4 \<noteq> 0\<close> unfolding m nat_int by presburger
    qed
    from nz [OF n(2,1)] z show False by (rule notE)
  qed
  have "read_rx_payload ops hdr ctrl e w' = None" for w'
  proof -
    have "rest \<le> sz" by (simp add: rest(1))
    then have R: "\<not> sz \<le> 0" "int R < sz" using rest(2) by linarith+
    show ?thesis
      unfolding read_rx_payload_def assms(4) [symmetric] Let_def
      using R rest(2) hang by (cases "pRxPayload e") (auto simp: R_def [symmetric] rest_def [symmetric] split: Option.bind_splits)
  qed
  then show ?thesis using assms(1-3) by (auto simp: read_cmd_resp_def split: Option.bind_splits)
qed

theorem read_cmd_resp_overlong_hangs_witness:
  "read_cmd_resp (bus idle no_handler) (le16 0x0466 @ le16 21 @ [3, 0, 0, 0])
    (set_params demo_ctrl (Some (replicate 8 0)) (Some demo_get) demo_free) (demo_nwp (replicate 20 0)) = None"
proof (rule read_cmd_resp_overlong_hangs [of _ demo_ctrl demo_get 9])
  show "9 = sint (ucast (RSP_PAYLOAD_LEN (le16 0x0466 @ le16 21 @ [3, 0, 0, 0]) - ucast (RxDescLen demo_ctrl)) :: u16)"
    by (simp add: RSP_PAYLOAD_LEN_def rd16_le16 demo_ctrl_def)
qed (simp_all add: set_params_def demo_get_def)

end
