(* ===== verification/Sl_Event_Props.thy ===== *)
theory Sl_Event_Props
  imports Sl_Cmd_Props
begin

text \<open>
  Asynchronous messages of the host driver: what an application handler is given when the wireless
  connection comes up, which lengths run over the event structure, a lookup that is never answered, and
  what a token request does to a command that waits and to its own name.
\<close>

section \<open>Event structures\<close>

lemma apply_copy:
  assumes "a = pa @ xs @ qa" "b = pb @ ys @ qb" "length pa = i" "length pb = i" "length xs = n" "length ys = n"
  shows "apply_step a (Copy i n) b = Some (pb @ xs @ qb)"
  using assms by (simp add: peek_def poke_def)

text \<open>The fields of a connection message, or of its event: connection type, two names padded to 32 bytes
  behind their lengths, BSSID and what follows it.\<close>

definition connect_args :: "u8 \<Rightarrow> u8 \<Rightarrow> u8 list \<Rightarrow> u8 list \<Rightarrow> u8 \<Rightarrow> u8 list \<Rightarrow> u8 list \<Rightarrow> u8 list \<Rightarrow> u8 list \<Rightarrow> u8 list" where
  "connect_args ct n ssid p1 m name p2 bssid rest = [ct] @ [n] @ ssid @ p1 @ [m] @ name @ p2 @ bssid @ rest"

lemma connect_steps:
  assumes "unat n + length p1 = 32" "unat m + length p2 = 32" "length ssid = unat n" "length name = unat m"
    "length bssid = 6" "length d = 76"
    "a = connect_args ct n ssid p1 m name p2 bssid rest"
  shows "apply_steps a (connect_fields a @ sts) d =
    apply_steps a sts (connect_args ct n ssid (replicate (32 - unat n) 0) 0 name (replicate (32 - unat m) 0) bssid [0, 0, 0])"
proof -
  let ?z = "\<lambda>k. replicate k (0::u8)"
  have le: "unat n \<le> 32" "unat m \<le> 32" and p: "length p1 = 32 - unat n" "length p2 = 32 - unat m"
    using assms(1,2) by linarith+
  have a: "a = [ct] @ [n] @ ssid @ p1 @ [m] @ name @ p2 @ bssid @ rest" using assms(7) by (simp add: connect_args_def)
  have nth: "a ! 1 = n" "a ! 34 = m" using le p assms(3) by (simp_all add: a nth_append)
  have "?z 76 = [0, 0] @ ?z (unat n + (32 - unat n)) @ [0] @ ?z (unat m + (32 - unat m)) @ ?z 6 @ [0, 0, 0]"
    using le by (simp add: numeral_eq_Suc)
  then have z: "?z 76 = [0] @ [0] @ ?z (unat n) @ ?z (32 - unat n) @ [0] @ ?z (unat m) @ ?z (32 - unat m) @ ?z 6 @ [0, 0, 0]"
    by (simp add: replicate_add)
  have s0: "apply_step a (Clear 0 76) d = Some (?z 76)" using assms(6) by (simp add: poke_def)
  have s1: "apply_step a (Copy 0 1) ([0] @ [0] @ ?z (unat n) @ ?z (32 - unat n) @ [0] @ ?z (unat m) @ ?z (32 - unat m) @ ?z 6 @ [0, 0, 0]) =
      Some ([ct] @ [0] @ ?z (unat n) @ ?z (32 - unat n) @ [0] @ ?z (unat m) @ ?z (32 - unat m) @ ?z 6 @ [0, 0, 0])"
    using apply_copy [of a "[]" "[ct]" "[n] @ ssid @ p1 @ [m] @ name @ p2 @ bssid @ rest" "[0] @ [0] @ ?z (unat n) @ ?z (32 - unat n) @ [0] @ ?z (unat m) @ ?z (32 - unat m) @ ?z 6 @ [0, 0, 0]"
        "[]" "[0]" "[0] @ ?z (unat n) @ ?z (32 - unat n) @ [0] @ ?z (unat m) @ ?z (32 - unat m) @ ?z 6 @ [0, 0, 0]"] a le p assms(3-5) by simp
  have s2: "apply_step a (Copy 67 6) ([ct] @ [0] @ ?z (unat n) @ ?z (32 - unat n) @ [0] @ ?z (unat m) @ ?z (32 - unat m) @ ?z 6 @ [0, 0, 0]) =
      Some ([ct] @ [0] @ ?z (unat n) @ ?z (32 - unat n) @ [0] @ ?z (unat m) @ ?z (32 - unat m) @ bssid @ [0, 0, 0])"
    using apply_copy [of a "[ct] @ [n] @ ssid @ p1 @ [m] @ name @ p2" "bssid" "rest" "[ct] @ [0] @ ?z (unat n) @ ?z (32 - unat n) @ [0] @ ?z (unat m) @ ?z (32 - unat m) @ ?z 6 @ [0, 0, 0]"
        "[ct] @ [0] @ ?z (unat n) @ ?z (32 - unat n) @ [0] @ ?z (unat m) @ ?z (32 - unat m)" "?z 6" "[0, 0, 0]"] a le p assms(3-5) by simp
  have s3: "apply_step a (Copy 35 (unat m)) ([ct] @ [0] @ ?z (unat n) @ ?z (32 - unat n) @ [0] @ ?z (unat m) @ ?z (32 - unat m) @ bssid @ [0, 0, 0]) =
      Some ([ct] @ [0] @ ?z (unat n) @ ?z (32 - unat n) @ [0] @ name @ ?z (32 - unat m) @ bssid @ [0, 0, 0])"
    using apply_copy [of a "[ct] @ [n] @ ssid @ p1 @ [m]" "name" "p2 @ bssid @ rest" "[ct] @ [0] @ ?z (unat n) @ ?z (32 - unat n) @ [0] @ ?z (unat m) @ ?z (32 - unat m) @ bssid @ [0, 0, 0]"
        "[ct] @ [0] @ ?z (unat n) @ ?z (32 - unat n) @ [0]" "?z (unat m)" "?z (32 - unat m) @ bssid @ [0, 0, 0]"] a le p assms(3-5) by simp
  have s4: "apply_step a (Copy 2 (unat n)) ([ct] @ [0] @ ?z (unat n) @ ?z (32 - unat n) @ [0] @ name @ ?z (32 - unat m) @ bssid @ [0, 0, 0]) =
      Some ([ct] @ [0] @ ssid @ ?z (32 - unat n) @ [0] @ name @ ?z (32 - unat m) @ bssid @ [0, 0, 0])"
    using apply_copy [of a "[ct] @ [n]" "ssid" "p1 @ [m] @ name @ p2 @ bssid @ rest" "[ct] @ [0] @ ?z (unat n) @ ?z (32 - unat n) @ [0] @ name @ ?z (32 - unat m) @ bssid @ [0, 0, 0]"
        "[ct] @ [0]" "?z (unat n)" "?z (32 - unat n) @ [0] @ name @ ?z (32 - unat m) @ bssid @ [0, 0, 0]"] a le p assms(3-5) by simp
  have s5: "apply_step a (Copy 1 1) ([ct] @ [0] @ ssid @ ?z (32 - unat n) @ [0] @ name @ ?z (32 - unat m) @ bssid @ [0, 0, 0]) =
      Some ([ct] @ [n] @ ssid @ ?z (32 - unat n) @ [0] @ name @ ?z (32 - unat m) @ bssid @ [0, 0, 0])"
    using apply_copy [of a "[ct]" "[n]" "ssid @ p1 @ [m] @ name @ p2 @ bssid @ rest" "[ct] @ [0] @ ssid @ ?z (32 - unat n) @ [0] @ name @ ?z (32 - unat m) @ bssid @ [0, 0, 0]"
        "[ct]" "[0]" "ssid @ ?z (32 - unat n) @ [0] @ name @ ?z (32 - unat m) @ bssid @ [0, 0, 0]"] a le p assms(3-5) by simp
  have "connect_fields a @ sts = Clear 0 76 # Copy 0 1 # Copy 67 6 # Copy 35 (unat m) # Copy 2 (unat n) # Copy 1 1 # sts"
    by (simp add: connect_fields_def nth nth(1) [unfolded One_nat_def])
  then show ?thesis
    by (simp only: apply_steps.simps s0 Option.bind.simps z s1 s2 s3 s4 s5 connect_args_def)
qed

text \<open>
  C12. The wireless connection comes up or goes down: the application's handler is called with an event
  that has the connection type, SSID, name of the peer, BSSID and, when it goes down, the reason of
  the message, the two names filled up with zeros whatever the message has behind them.
\<close>

theorem connection_event_delivered:
  assumes "AsyncEvtHandler s = Some h" "pAsyncBuf s = Some (hdr @ a)" "length hdr = 8"
    "rd16 0 (hdr @ a) = (if up then SL_OPCODE_WLAN_WLANASYNCCONNECTEDRESPONSE else SL_OPCODE_WLAN_WLANASYNCDISCONNECTEDRESPONSE)"
    "a = connect_args ct n ssid p1 m name p2 bssid (reason # rest)"
    "unat n + length p1 = 32" "unat m + length p2 = 32" "length ssid = unat n" "length name = unat m" "length bssid = 6"
  shows "SlAsyncEventGenericHandler ops s w =
    event_callback (callbacks ops) (EventStruct h (if up then SL_WLAN_CONNECT_EVENT else SL_WLAN_DISCONNECT_EVENT)
      (connect_args ct n ssid (replicate (32 - unat n) 0) m name (replicate (32 - unat m) 0) bssid
        [if up then 0 else reason, 0, 0])) s w"
proof -
  let ?z = "\<lambda>k. replicate k (0::u8)"
  let ?st = "map (stack_byte ops) [0..<WLAN_EVENT_SIZE]"
  have st: "length ?st = 76" by (simp add: WLAN_EVENT_SIZE_def)
  have le: "unat n \<le> 32" "unat m \<le> 32" and p: "length p1 = 32 - unat n" "length p2 = 32 - unat m"
    using assms(6,7) by linarith+
  have reason: "apply_step a (Copy 73 1) (connect_args ct n ssid (?z (32 - unat n)) 0 name (?z (32 - unat m)) bssid [0, 0, 0]) =
      Some (connect_args ct n ssid (?z (32 - unat n)) 0 name (?z (32 - unat m)) bssid [reason, 0, 0])"
    using apply_copy [of a "[ct] @ [n] @ ssid @ p1 @ [m] @ name @ p2 @ bssid" "[reason]" rest _
        "[ct] @ [n] @ ssid @ ?z (32 - unat n) @ [0] @ name @ ?z (32 - unat m) @ bssid" "[0]" "[0, 0]" 73 1]
      le p assms(5,8-10) by (simp add: connect_args_def)
  have len: "apply_step a (Copy 34 1) (connect_args ct n ssid (?z (32 - unat n)) 0 name (?z (32 - unat m)) bssid [r, 0, 0]) =
      Some (connect_args ct n ssid (?z (32 - unat n)) m name (?z (32 - unat m)) bssid [r, 0, 0])" for r
    using apply_copy [of a "[ct] @ [n] @ ssid @ p1" "[m]" "name @ p2 @ bssid @ reason # rest" _
        "[ct] @ [n] @ ssid @ ?z (32 - unat n)" "[0]" "name @ ?z (32 - unat m) @ bssid @ [r, 0, 0]" 34 1]
      le p assms(5,8-10) by (simp add: connect_args_def)
  note steps = connect_steps [OF assms(6-10) st assms(5)]
  have a: "args_of (hdr @ a) = a" using assms(3) by (simp add: args_of_def)
  show ?thesis
  proof (cases up)
    case True
    then have "event_steps (rd16 0 (hdr @ a)) a = Some (SL_WLAN_CONNECT_EVENT, WLAN_EVENT_SIZE, connect_fields a @ [Copy 34 1])"
      using assms(4) by (simp add: event_steps_def event_opcodes)
    then show ?thesis using True assms(1,2,4) by (simp add: SlAsyncEventGenericHandler_def a steps len event_opcodes SL_OPCODE_NETAPP_PINGREPORTREQUESTRESPONSE_def del: One_nat_def apply_step.simps)
  next
    case False
    then have "event_steps (rd16 0 (hdr @ a)) a = Some (SL_WLAN_DISCONNECT_EVENT, WLAN_EVENT_SIZE, connect_fields a @ [Copy 73 1, Copy 34 1])"
      using assms(4) by (simp add: event_steps_def event_opcodes)
    then show ?thesis using False assms(1,2,4) by (simp add: SlAsyncEventGenericHandler_def a steps len reason event_opcodes SL_OPCODE_NETAPP_PINGREPORTREQUESTRESPONSE_def del: One_nat_def apply_step.simps)
  qed
qed

lemma apply_step_length: "apply_step a st d = Some d' \<Longrightarrow> length d' = length d"
  by (cases st) (auto simp: poke_def split: bind_splits if_splits)

lemma apply_steps_in_bounds: "apply_steps a sts d = Some d' \<Longrightarrow> Copy i n \<in> set sts \<Longrightarrow> i + n \<le> length d"
proof (induction sts arbitrary: d)
  case (Cons st sts)
  from Cons.prems(1) obtain d1 where st: "apply_step a st d = Some d1" and rest: "apply_steps a sts d1 = Some d'"
    by (auto split: bind_splits)
  show ?case
  proof (cases "Copy i n = st")
    case True
    with st show ?thesis by (auto simp: peek_def poke_def split: bind_splits if_splits)
  next
    case False
    with Cons.IH [OF rest] Cons.prems(2) show ?thesis by (simp add: apply_step_length [OF st])
  qed
qed simp

text \<open>The lengths of the two names are taken from the message unchecked: with a name of more than 41
  bytes, or an SSID of more than 74, the copy runs past the end of the event structure.
\<close>

theorem connection_event_overrun:
  assumes "AsyncEvtHandler s = Some h" "pAsyncBuf s = Some buf"
    "rd16 0 buf = SL_OPCODE_WLAN_WLANASYNCCONNECTEDRESPONSE" "41 < unat (args_of buf ! 34) \<or> 74 < unat (args_of buf ! 1)"
  shows "SlAsyncEventGenericHandler ops s w = None"
proof -
  let ?a = "args_of buf" and ?st = "map (stack_byte ops) [0..<WLAN_EVENT_SIZE]"
  have "apply_steps ?a (connect_fields ?a @ [Copy 34 1]) ?st = None"
  proof (rule ccontr)
    assume "apply_steps ?a (connect_fields ?a @ [Copy 34 1]) ?st \<noteq> None"
    then obtain d where d: "apply_steps ?a (connect_fields ?a @ [Copy 34 1]) ?st = Some d" by blast
    have "35 + unat (?a ! 34) \<le> 76" "2 + unat (?a ! 1) \<le> 76"
      using apply_steps_in_bounds [OF d, of 35 "unat (?a ! 34)"] apply_steps_in_bounds [OF d, of 2 "unat (?a ! 1)"]
      by (simp_all add: connect_fields_def WLAN_EVENT_SIZE_def)
    then show False using assms(4) by linarith
  qed
  then show ?thesis using assms(1-3)
    by (simp add: SlAsyncEventGenericHandler_def event_steps_def event_opcodes SL_OPCODE_NETAPP_PINGREPORTREQUESTRESPONSE_def)
qed

section \<open>Answers and tokens\<close>

text \<open>A service lookup for the IPv6 family: the handler of the answer returns without a signal, so the
  thread that asked, which sleeps until it is signalled, is not woken by it.
\<close>

theorem host_by_service_ipv6_unanswered:
  assumes "get_obj (ActionIndex s) s = Some obj" "AdditionalData obj AND SL_NETAPP_FAMILY_MASK \<noteq> 0"
    "AsyncEvtHandler s = Some sl_HandleAsync_DnsGetHostByService" "pAsyncBuf s = Some buf"
    "rd16 0 buf = SL_OPCODE_NETAPP_MDNSGETHOSTBYSERVICEASYNCRESPONSE"
  shows "SlAsyncEventGenericHandler ops s w = Some (s, w)"
  using assms by (simp add: SlAsyncEventGenericHandler_def event_steps_def event_opcodes handle_event_def
      host_by_service_event_def SL_OPCODE_NETAPP_PINGREPORTREQUESTRESPONSE_def
      SL_OPCODE_NETAPP_MDNSGETHOSTBYSERVICEASYNCRESPONSE_def)

lemma msg_write_waits: "SlDrvMsgWrite ops s w = Some (r, s', w') \<Longrightarrow> IsCmdRespWaited s' = IsCmdRespWaited s"
  by (auto simp: SlDrvMsgWrite_def Let_def split: bind_splits if_splits option.splits)

lemma token_request:
  assumes "AsyncEvtHandler s = Some SlDrvNetAppEventHandler" "pAsyncBuf s = Some buf"
    "rd16 0 buf = SL_OPCODE_NETAPP_HTTPGETTOKENVALUE"
  shows "SlAsyncEventGenericHandler ops s w = get_token ops buf s w"
  using assms by (simp add: SlAsyncEventGenericHandler_def event_steps_def event_opcodes handle_event_def netapp_event_def
      SL_OPCODE_NETAPP_PINGREPORTREQUESTRESPONSE_def SL_OPCODE_NETAPP_HTTPGETTOKENVALUE_def
      SL_OPCODE_NETAPP_DNSGETHOSTBYNAMEASYNCRESPONSE_def SL_OPCODE_NETAPP_DNSGETHOSTBYNAMEASYNCRESPONSE_V6_def
      SL_OPCODE_NETAPP_MDNSGETHOSTBYSERVICEASYNCRESPONSE_def SL_OPCODE_NETAPP_MDNSGETHOSTBYSERVICEASYNCRESPONSE_V6_def)

text \<open>
  C37. A token request of the internal HTTP server that is read while a command waits for its response:
  the handler sends the value with \<open>_SlDrvCmdSend\<close>, which resets the flag of the waiting command, and
  the command returns at once with its response still to come.
\<close>

theorem token_request_ends_wait:
  assumes "AsyncEvtHandler s = Some SlDrvNetAppEventHandler" "pAsyncBuf s = Some buf"
    "rd16 0 buf = SL_OPCODE_NETAPP_HTTPGETTOKENVALUE" "SlAsyncEventGenericHandler ops s w = Some (s', w')"
  shows "\<not> IsCmdRespWaited s' \<and> pCmdCtrl s' = Some send_token_ctrl \<and> read_until ops s' w' = Some (s', w')"
proof -
  have "get_token ops buf s w = Some (s', w')"
    using assms(4) by (simp only: token_request [OF assms(1-3)])
  then obtain m e s1 w1 r where
    "SlDrvMsgWrite ops (set_params send_token_ctrl m e (s1\<lparr>IsCmdRespWaited := False\<rparr>)) w1 = Some (r, s', w')"
    by (auto simp: get_token_def sl_NetAppSendTokenValue_def SlDrvCmdSend_def Let_def split: bind_splits)
  note sent = this
  have "\<not> IsCmdRespWaited s'" using msg_write_waits [OF sent] by (simp add: set_params_def)
  moreover have "pCmdCtrl s' = Some send_token_ctrl"
    using sent by (auto simp: SlDrvMsgWrite_def set_params_def Let_def split: bind_splits if_splits option.splits)
  ultimately show ?thesis by (subst read_until.simps) simp
qed

text \<open>
  The name of a token is 4 bytes behind the start of the arguments, the place for its value 20 bytes: a
  callback that stores the value there writes over the end of a name of more than 16 bytes, and the
  name sent back with the value is a mixture of both.
\<close>

theorem token_name_overwritten:
  assumes "16 < unat n" "unat n \<le> 20" "length buf = 168" "4 \<le> length v" "length v \<le> 64"
  shows "token_msg ops vl n (drop 4 (args_of (take 28 buf @ v @ drop (28 + length v) buf))) =
    Some ([vl, n] @ take 16 (drop 12 buf) @ take (unat n - 16) v @ map (stack_byte ops) [2 + unat n..<24])"
proof -
  define M where "M = map (stack_byte ops) [2..<24]"
  have M: "length M = 22" "drop (unat n) M = map (stack_byte ops) [2 + unat n..<24]"
    unfolding M_def by (simp_all only: length_map length_upt drop_map drop_upt)
  have m1: "poke 0 [vl, n] (map (stack_byte ops) [0..<24]) = Some ([vl, n] @ M)"
    unfolding M_def by (simp add: poke_def numeral_eq_Suc)
  let ?name = "take 16 (drop 12 buf) @ take (unat n - 16) v"
  have len: "length ?name = unat n" "unat n \<le> length v + 16" using assms by simp_all
  have "take (unat n) (drop 4 (args_of (take 28 buf @ v @ drop (28 + length v) buf))) = ?name"
    using assms len(2) by (simp add: args_of_def drop_take)
  moreover have "unat n \<le> length (drop 4 (args_of (take 28 buf @ v @ drop (28 + length v) buf)))"
    using assms by (simp add: args_of_def)
  ultimately have "peek 0 (unat n) (drop 4 (args_of (take 28 buf @ v @ drop (28 + length v) buf))) = Some ?name"
    by (simp add: peek_def)
  moreover have "poke 2 ?name ([vl, n] @ M) = Some ([vl, n] @ ?name @ drop (unat n) M)"
    using assms len M(1) by (simp add: poke_def del: length_append)
  ultimately show ?thesis by (simp add: token_msg_def m1 M(2))
qed

section \<open>On concrete messages\<close>

definition show_event :: "nwp app_ops" where
  "show_event = no_handler\<lparr>event_callback := (\<lambda>c s w.
     Some (s, w\<lparr>nwp_out := (case c of EventStruct h ev d \<Rightarrow> d | _ \<Rightarrow> [])\<rparr>))\<rparr>"

definition with_event :: "event_handler \<Rightarrow> u8 list \<Rightarrow> SlDriverCb" where
  "with_event h buf = demo_free\<lparr>AsyncEvtHandler := Some h, pAsyncBuf := Some buf\<rparr>"

lemma with_event_simps:
  "AsyncEvtHandler (with_event h buf) = Some h" "pAsyncBuf (with_event h buf) = Some buf"
  by (simp_all add: with_event_def)

theorem connection_event_delivered_witness:
  "let s = with_event sl_WlanEvtHdlr ([0x81, 8, 80, 0, 4, 0, 0, 0] @
         connect_args 0 2 [104, 105] (replicate 30 9) 0 [] (replicate 32 9) [1, 2, 3, 4, 5, 6] (7 # replicate 86 0));
       s' = the (SlAsyncEventGenericHandler (bus idle show_event) s (demo_nwp []))
   in nwp_out (snd s') = connect_args 0 2 [104, 105] (replicate 30 0) 0 [] (replicate 32 0) [1, 2, 3, 4, 5, 6] [7, 0, 0]"
proof -
  let ?a = "connect_args 0 2 [104, 105] (replicate 30 9) 0 [] (replicate 32 9) [1, 2, 3, 4, 5, 6] (7 # replicate 86 0)"
  let ?h = "[0x81, 8, 80, 0, 4, 0, 0, 0] :: u8 list"
  have "rd16 0 (?h @ ?a) = SL_OPCODE_WLAN_WLANASYNCDISCONNECTEDRESPONSE" by (simp add: rd16_def event_opcodes)
  then show ?thesis
    using connection_event_delivered [OF with_event_simps, of ?h ?a False 0 2 "[104, 105]" "replicate 30 9" 0 "[]" "replicate 32 9"
        "[1, 2, 3, 4, 5, 6]" 7 "replicate 86 0" "bus idle show_event" sl_WlanEvtHdlr "demo_nwp []"]
    by (simp add: bus_rest show_event_def Let_def)
qed

theorem connection_event_overrun_witness:
  "SlAsyncEventGenericHandler (bus idle show_event)
     (with_event sl_WlanEvtHdlr ([0x80, 8, 160, 0, 4, 0, 0, 0] @ 0 # 75 # replicate 158 0)) (demo_nwp []) = None"
  by (rule connection_event_overrun [OF with_event_simps]) (simp_all add: rd16_def event_opcodes args_of_def)

theorem host_by_service_ipv6_unanswered_witness:
  "SlAsyncEventGenericHandler (bus idle show_event)
     (set_obj 0 (\<lambda>p. p\<lparr>AdditionalData := SL_NETAPP_FAMILY_MASK\<rparr>) (with_event sl_HandleAsync_DnsGetHostByService ([0x35, 0x18] @ replicate 166 0))
        \<lparr>ActionIndex := 0\<rparr>) (demo_nwp []) =
   Some (set_obj 0 (\<lambda>p. p\<lparr>AdditionalData := SL_NETAPP_FAMILY_MASK\<rparr>) (with_event sl_HandleAsync_DnsGetHostByService ([0x35, 0x18] @ replicate 166 0))
        \<lparr>ActionIndex := 0\<rparr>, demo_nwp [])"
proof -
  let ?s = "set_obj 0 (\<lambda>p. p\<lparr>AdditionalData := SL_NETAPP_FAMILY_MASK\<rparr>) (with_event sl_HandleAsync_DnsGetHostByService ([0x35, 0x18] @ replicate 166 0))\<lparr>ActionIndex := 0\<rparr>"
  have o: "get_obj (ActionIndex ?s) ?s = Some ((ObjPool ?s) ! 0)" by (simp add: get_obj_def MAX_CONCURRENT_ACTIONS_def)
  have l: "0 < length (ObjPool demo_free)"
    by (simp add: demo_free_def SlDrvObjInit_def demo_pool_def MAX_CONCURRENT_ACTIONS_def)
  have f: "AdditionalData ((ObjPool ?s) ! 0) AND SL_NETAPP_FAMILY_MASK \<noteq> 0"
    using l by (simp add: set_obj_def with_event_def SL_NETAPP_FAMILY_MASK_def)
  have op: "rd16 0 ([0x35, 0x18] @ replicate 166 0) = SL_OPCODE_NETAPP_MDNSGETHOSTBYSERVICEASYNCRESPONSE"
    by (simp add: rd16_def SL_OPCODE_NETAPP_MDNSGETHOSTBYSERVICEASYNCRESPONSE_def)
  show ?thesis
    by (rule host_by_service_ipv6_unanswered [OF o f _ _ op]) (simp_all add: set_obj_def with_event_def)
qed

theorem token_request_ends_wait_witness:
  "\<exists>s' w'. SlAsyncEventGenericHandler (bus idle no_handler)
      ((with_event SlDrvNetAppEventHandler ([0x2E, 0x18, 0, 0, 0, 0, 0, 0, 2, 0, 0, 0, 104, 105] @ replicate 154 0))
         \<lparr>IsCmdRespWaited := True\<rparr>) (demo_nwp []) = Some (s', w') \<and>
     \<not> IsCmdRespWaited s' \<and> read_until (bus idle no_handler) s' w' = Some (s', w')"
proof -
  let ?buf = "[0x2E, 0x18, 0, 0, 0, 0, 0, 0, 2, 0, 0, 0, 104, 105] @ replicate 154 0 :: u8 list"
  let ?s = "with_event SlDrvNetAppEventHandler ?buf\<lparr>IsCmdRespWaited := True\<rparr>" and ?w = "demo_nwp []"
  let ?e = "\<lparr>TxPayloadLen = of_nat (align4 0), RxPayloadLen = 0, ActualRxPayloadLen = 0, pTxPayload = drop 28 ?buf, pRxPayload = None\<rparr>"
  let ?m = "[0, 2, 104, 105] @ replicate 20 0 :: u8 list"
  have op: "rd16 0 ?buf = SL_OPCODE_NETAPP_HTTPGETTOKENVALUE" by (simp add: rd16_def SL_OPCODE_NETAPP_HTTPGETTOKENVALUE_def)
  have al: "align4 0 = 0" "align4 24 = 24" by (simp_all add: align4_def)
  have m: "token_msg (bus idle no_handler) 0 2 (drop 4 (args_of ?buf)) = Some ?m"
    by (simp add: token_msg_def args_of_def peek_def poke_def bus_def map_replicate_const del: upt_rec_numeral)
  have "cmd_ready send_token_ctrl ?m (Some ?e)" by (simp add: cmd_ready_def send_token_ctrl_def al)
  then have "\<exists>s' w'. SlDrvMsgWrite (bus idle no_handler) (set_params send_token_ctrl (Some ?m) (Some ?e) (?s\<lparr>IsCmdRespWaited := False\<rparr>)) ?w = Some (0, s', w')"
    using msg_write_bus [of "set_params send_token_ctrl (Some ?m) (Some ?e) (?s\<lparr>IsCmdRespWaited := False\<rparr>)" send_token_ctrl ?m idle no_handler ?w]
    by (auto simp: set_params_def with_event_def demo_free_def SlDrvObjInit_def demo_pool_def)
  then obtain s' w' where "SlDrvMsgWrite (bus idle no_handler) (set_params send_token_ctrl (Some ?m) (Some ?e) (?s\<lparr>IsCmdRespWaited := False\<rparr>)) ?w = Some (0, s', w')"
    by blast
  then have "get_token (bus idle no_handler) ?buf ?s ?w = Some (s', w')"
    using m by (simp add: get_token_def sl_NetAppSendTokenValue_def SlDrvCmdSend_def no_handler_def bus_rest args_of_def)
  moreover have ev: "AsyncEvtHandler ?s = Some SlDrvNetAppEventHandler" "pAsyncBuf ?s = Some ?buf"
    by (simp_all add: with_event_def)
  ultimately have h: "SlAsyncEventGenericHandler (bus idle no_handler) ?s ?w = Some (s', w')"
    by (simp only: token_request [OF ev op])
  from h token_request_ends_wait [OF ev op h] show ?thesis by blast
qed

end
