(* ===== verification/Sl_Fs.thy ===== *)
theory Sl_Fs
  imports Sl_Cmd
begin

text \<open>
  The file system interface of the host driver, \<open>simplelink/source/fs.c\<close>: every call is one command to
  the network processor, reading and writing one command for each 1460 bytes.  The calls are written
  over the function that carries out a command, which is all they use of the driver; \<open>drv_cmd\<close> is that
  function.  Buffers are the bytes from their pointer on.
\<close>

section \<open>Commands\<close>

type_synonym 's cmd_fn = "SlCmdCtrl \<Rightarrow> u8 list \<Rightarrow> SlCmdExt \<Rightarrow> 's \<Rightarrow> (int \<times> u8 list \<times> SlCmdExt \<times> 's) option"

definition own_ext :: "SlCmdCtrl \<Rightarrow> SlCmdExt \<Rightarrow> SlDriverCb \<Rightarrow> SlCmdExt" where
  "own_ext ctrl e s = (if pCmdCtrl s = Some ctrl then (case pCmdExt s of Some e' \<Rightarrow> e' | None \<Rightarrow> e) else e)"

definition drv_cmd :: "'w host_ops \<Rightarrow> (SlDriverCb \<times> 'w) cmd_fn" where
  "drv_cmd ops ctrl desc e sw = do {
     (r, s1, w1) \<leftarrow> SlDrvCmdOp ops ctrl (Some desc) (Some e) (fst sw) (snd sw);
     Some (r, own_desc ctrl desc s1, own_ext ctrl e s1, s1, w1)
   }"

text \<open>\<open>VERIFY_RET_OK\<close>, an assertion.\<close>

definition cmd_ok :: "'s cmd_fn \<Rightarrow> SlCmdCtrl \<Rightarrow> u8 list \<Rightarrow> SlCmdExt \<Rightarrow> 's \<Rightarrow> (u8 list \<times> SlCmdExt \<times> 's) option" where
  "cmd_ok cmd ctrl desc e s = do { (r, msg, e1, s1) \<leftarrow> cmd ctrl desc e s; if r = 0 then Some (msg, e1, s1) else None }"

definition SL_OPCODE_NVMEM_FILEOPEN :: u16 where "SL_OPCODE_NVMEM_FILEOPEN = 0xA43C"
definition SL_OPCODE_NVMEM_FILECLOSE :: u16 where "SL_OPCODE_NVMEM_FILECLOSE = 0xA43D"
definition SL_OPCODE_NVMEM_FILEREADCOMMAND :: u16 where "SL_OPCODE_NVMEM_FILEREADCOMMAND = 0xA440"
definition SL_OPCODE_NVMEM_FILEWRITECOMMAND :: u16 where "SL_OPCODE_NVMEM_FILEWRITECOMMAND = 0xA441"
definition SL_OPCODE_NVMEM_FILEGETINFOCOMMAND :: u16 where "SL_OPCODE_NVMEM_FILEGETINFOCOMMAND = 0xA442"
definition SL_OPCODE_NVMEM_FILEDELCOMMAND :: u16 where "SL_OPCODE_NVMEM_FILEDELCOMMAND = 0xA443"

definition SlFsOpenCmdCtrl :: SlCmdCtrl where
  "SlFsOpenCmdCtrl = \<lparr>Opcode = SL_OPCODE_NVMEM_FILEOPEN, TxDescLen = 8, RxDescLen = 8\<rparr>"
definition SlFsCloseCmdCtrl :: SlCmdCtrl where
  "SlFsCloseCmdCtrl = \<lparr>Opcode = SL_OPCODE_NVMEM_FILECLOSE, TxDescLen = 12, RxDescLen = 4\<rparr>"
definition SlFsReadCmdCtrl :: SlCmdCtrl where
  "SlFsReadCmdCtrl = \<lparr>Opcode = SL_OPCODE_NVMEM_FILEREADCOMMAND, TxDescLen = 12, RxDescLen = 4\<rparr>"
definition SlFsWriteCmdCtrl :: SlCmdCtrl where
  "SlFsWriteCmdCtrl = \<lparr>Opcode = SL_OPCODE_NVMEM_FILEWRITECOMMAND, TxDescLen = 12, RxDescLen = 4\<rparr>"
definition SlFsGetInfoCmdCtrl :: SlCmdCtrl where
  "SlFsGetInfoCmdCtrl = \<lparr>Opcode = SL_OPCODE_NVMEM_FILEGETINFOCOMMAND, TxDescLen = 4, RxDescLen = 28\<rparr>"
definition SlFsDeleteCmdCtrl :: SlCmdCtrl where
  "SlFsDeleteCmdCtrl = \<lparr>Opcode = SL_OPCODE_NVMEM_FILEDELCOMMAND, TxDescLen = 4, RxDescLen = 4\<rparr>"

definition le32 :: "u32 \<Rightarrow> u8 list" where
  "le32 v = [ucast v, ucast (drop_bit 8 v), ucast (drop_bit 16 v), ucast (drop_bit 24 v)]"

section \<open>Modes\<close>

definition granTable :: "u32 list" where
  "granTable = [256, 1024, 4096, 16384, 65536]"

definition FS_MODE :: "u32 \<Rightarrow> u32 \<Rightarrow> u32 \<Rightarrow> u32 \<Rightarrow> u32" where
  "FS_MODE Access SizeGran Size Flags =
     push_bit 12 (Access AND 0xF) OR push_bit 8 (SizeGran AND 0xF) OR (Size AND 0xFF) OR push_bit 16 (Flags AND 0xFF)"

text \<open>The index the search stops at; it may be the length of the table.\<close>

definition gran_index :: "u32 \<Rightarrow> nat" where
  "gran_index maxSizeInBytes = length (takeWhile (\<lambda>g. \<not> maxSizeInBytes \<le> g * 255) granTable)"

definition sl_GetCreateFsMode :: "u32 \<Rightarrow> u32 \<Rightarrow> u32 option" where
  "sl_GetCreateFsMode maxSizeInBytes accessFlags =
     (let granIdx = gran_index maxSizeInBytes in
      if granIdx < length granTable then
        let g = granTable ! granIdx; n = maxSizeInBytes div g;
            granNum = (if maxSizeInBytes mod g \<noteq> 0 then n + 1 else n)
        in Some (FS_MODE 3 (of_nat granIdx) granNum accessFlags)
      else None)"

section \<open>Opening, closing, information, deleting\<close>

text \<open>The length of a name with its NUL, in whole words; \<open>_sl_Strlen\<close> counts in 16 bits.\<close>

definition name_len :: "u8 list \<Rightarrow> u16" where
  "name_len pFileName = (of_nat (strlen pFileName) + 4) AND NOT 3"

definition name_ext :: "u8 list \<Rightarrow> SlCmdExt" where
  "name_ext pFileName = \<lparr>TxPayloadLen = name_len pFileName, RxPayloadLen = 0, ActualRxPayloadLen = 0,
     pTxPayload = pFileName, pRxPayload = None\<rparr>"

text \<open>The result, the handle and the token.\<close>

definition sl_FsOpen :: "'s cmd_fn \<Rightarrow> u8 list \<Rightarrow> u32 \<Rightarrow> u32 option \<Rightarrow> 's \<Rightarrow> (int \<times> int \<times> u32 option \<times> 's) option" where
  "sl_FsOpen cmd pFileName AccessModeAndMaxSize pToken s = do {
     let tok = (case pToken of Some t \<Rightarrow> t | None \<Rightarrow> 0);
     (RetVal, msg, e1, s1) \<leftarrow> cmd SlFsOpenCmdCtrl (le32 AccessModeAndMaxSize @ le32 tok) (name_ext pFileName) s;
     let FileHandle = sint (rd32 msg);
     Some (if FileHandle < 0 then FileHandle else RetVal, FileHandle, map_option (\<lambda>_. rd32 (drop 4 msg)) pToken, s1)
   }"

text \<open>The name of the certificate is sent by way of the receive payload.\<close>

definition sl_FsClose ::
  "'w host_ops \<Rightarrow> u32 \<Rightarrow> u8 list option \<Rightarrow> u8 list \<Rightarrow> u32 \<Rightarrow> SlDriverCb \<Rightarrow> 'w \<Rightarrow> (int \<times> SlDriverCb \<times> 'w) option" where
  "sl_FsClose ops FileHdl cert pSignature SignatureLen s w = do {
     let cert_len = (case cert of Some c \<Rightarrow> (ucast (name_len c) :: u32) | None \<Rightarrow> 0);
     let e = \<lparr>TxPayloadLen = ucast ((SignatureLen + 3) AND NOT 3), RxPayloadLen = ucast cert_len, ActualRxPayloadLen = 0,
              pTxPayload = pSignature, pRxPayload = cert\<rparr>;
     let s1 = (if cert \<noteq> None \<and> RxPayloadLen e \<noteq> 0 then s\<lparr>RelayFlagsViaRxPayload := True\<rparr> else s);
     (msg, e1, s2, w2) \<leftarrow> cmd_ok (drv_cmd ops) SlFsCloseCmdCtrl (le32 FileHdl @ le32 cert_len @ le32 SignatureLen) e (s1, w);
     Some (sint (rd16 0 msg), s2, w2)
   }"

record SlFsFileInfo =
  file_flags :: u16
  FileLen :: u32
  AllocatedLen :: u32
  Token :: "u32 list"

definition sl_FsGetInfo :: "'s cmd_fn \<Rightarrow> (nat \<Rightarrow> u8) \<Rightarrow> u8 list \<Rightarrow> u32 \<Rightarrow> 's \<Rightarrow> (int \<times> SlFsFileInfo \<times> 's) option" where
  "sl_FsGetInfo cmd stk pFileName tok s = do {
     (msg, e1, s1) \<leftarrow> cmd_ok cmd SlFsGetInfoCmdCtrl (le32 tok @ map stk [4..<28]) (name_ext pFileName) s;
     Some (sint (rd16 0 msg),
       \<lparr>file_flags = rd16 2 msg, FileLen = rd32 (drop 4 msg), AllocatedLen = rd32 (drop 8 msg),
        Token = [rd32 (drop 12 msg), rd32 (drop 16 msg), rd32 (drop 20 msg), rd32 (drop 24 msg)]\<rparr>, s1)
   }"

definition sl_FsDel :: "'s cmd_fn \<Rightarrow> u8 list \<Rightarrow> u32 \<Rightarrow> 's \<Rightarrow> (int \<times> 's) option" where
  "sl_FsDel cmd pFileName tok s = do {
     (msg, e1, s1) \<leftarrow> cmd_ok cmd SlFsDeleteCmdCtrl (le32 tok) (name_ext pFileName) s;
     Some (sint (rd16 0 msg), s1)
   }"

section \<open>Reading and writing\<close>

definition MAX_NVMEM_CHUNK_SIZE :: u32 where "MAX_NVMEM_CHUNK_SIZE = 1460"

definition fs_chunk :: "u32 \<Rightarrow> u16" where
  "fs_chunk Len = ucast (if MAX_NVMEM_CHUNK_SIZE < Len then MAX_NVMEM_CHUNK_SIZE else Len)"

text \<open>The command: handle, offset, length and two bytes of padding that are not set.\<close>

definition fs_msg :: "(nat \<Rightarrow> u8) \<Rightarrow> u32 \<Rightarrow> u32 \<Rightarrow> u16 \<Rightarrow> u8 list" where
  "fs_msg stk FileHdl Offset ChunkLen = le32 FileHdl @ le32 Offset @ le16 ChunkLen @ [stk 10, stk 11]"

text \<open>The loop; \<open>got\<close> is the part of the buffer before the pointer, \<open>buf\<close> the part behind it.  The count of
  the code is an \<open>_i32\<close>; here, and in the loop that writes, it is a number without bound.  Both agree as long
  as the answers add up to less than \<open>2 ^ 31\<close>, beyond which the sum of the code is a signed overflow, that
  is undefined: no buffer on this processor comes near that length.\<close>

partial_function (option) fs_read_loop ::
  "'s cmd_fn \<Rightarrow> (nat \<Rightarrow> u8) \<Rightarrow> u32 \<Rightarrow> u32 \<Rightarrow> u32 \<Rightarrow> int \<Rightarrow> u8 list \<Rightarrow> u8 list \<Rightarrow> 's \<Rightarrow> (int \<times> u8 list \<times> 's) option" where
  "fs_read_loop cmd stk FileHdl Offset Len RetCount got buf s = do {
     let ChunkLen = fs_chunk Len;
     (RetVal, msg, e1, s1) \<leftarrow> cmd SlFsReadCmdCtrl (fs_msg stk FileHdl Offset ChunkLen)
       \<lparr>TxPayloadLen = 0, RxPayloadLen = ChunkLen, ActualRxPayloadLen = 0, pTxPayload = [], pRxPayload = Some buf\<rparr> s;
     buf1 \<leftarrow> pRxPayload e1;
     if RetVal \<noteq> 0 then Some (RetVal, got @ buf1, s1)
     else if sint (rd16 0 msg) < 0
     then Some (if 0 < RetCount then RetCount else sint (rd16 0 msg), got @ buf1, s1)
     else let RetCount1 = RetCount + sint (rd16 0 msg); Len1 = Len - ucast ChunkLen;
              got1 = got @ take (unat ChunkLen) buf1; buf2 = drop (unat ChunkLen) buf1
       in if 0 < fs_chunk Len1
          then fs_read_loop cmd stk FileHdl (Offset + ucast ChunkLen) Len1 RetCount1 got1 buf2 s1
          else Some (RetCount1, got1 @ buf2, s1)
   }"

text \<open>The result and the buffer.\<close>

definition sl_FsRead ::
  "'s cmd_fn \<Rightarrow> (nat \<Rightarrow> u8) \<Rightarrow> u32 \<Rightarrow> u32 \<Rightarrow> u8 list \<Rightarrow> u32 \<Rightarrow> 's \<Rightarrow> (int \<times> u8 list \<times> 's) option" where
  "sl_FsRead cmd stk FileHdl Offset buf Len s = fs_read_loop cmd stk FileHdl Offset Len 0 [] buf s"

partial_function (option) fs_write_loop ::
  "'s cmd_fn \<Rightarrow> (nat \<Rightarrow> u8) \<Rightarrow> u32 \<Rightarrow> u32 \<Rightarrow> u32 \<Rightarrow> int \<Rightarrow> u8 list \<Rightarrow> 's \<Rightarrow> (int \<times> 's) option" where
  "fs_write_loop cmd stk FileHdl Offset Len RetCount buf s = do {
     let ChunkLen = fs_chunk Len;
     (RetVal, msg, e1, s1) \<leftarrow> cmd SlFsWriteCmdCtrl (fs_msg stk FileHdl Offset ChunkLen)
       \<lparr>TxPayloadLen = ChunkLen, RxPayloadLen = 0, ActualRxPayloadLen = 0, pTxPayload = buf, pRxPayload = None\<rparr> s;
     if RetVal \<noteq> 0 then Some (RetVal, s1)
     else if sint (rd16 0 msg) < 0 then Some (if 0 < RetCount then RetCount else sint (rd16 0 msg), s1)
     else let RetCount1 = RetCount + sint (rd16 0 msg); Len1 = Len - ucast ChunkLen
       in if 0 < fs_chunk Len1
          then fs_write_loop cmd stk FileHdl (Offset + ucast ChunkLen) Len1 RetCount1 (drop (unat ChunkLen) buf) s1
          else Some (RetCount1, s1)
   }"

definition sl_FsWrite :: "'s cmd_fn \<Rightarrow> (nat \<Rightarrow> u8) \<Rightarrow> u32 \<Rightarrow> u32 \<Rightarrow> u8 list \<Rightarrow> u32 \<Rightarrow> 's \<Rightarrow> (int \<times> 's) option" where
  "sl_FsWrite cmd stk FileHdl Offset buf Len s = fs_write_loop cmd stk FileHdl Offset Len 0 buf s"

end
