(* ===== verification/Sl_Fs_Props.thy ===== *)
theory Sl_Fs_Props
  imports Sl_Fs Sl_Payload_Props
begin

text \<open>
  The file system interface of the host driver.  \<open>cmd_channel\<close> is what it needs of the driver: a command
  is answered by the next answer of the processor.  Over any such channel, reading fills the buffer of
  the caller with consecutive parts of the file and writing sends all of the data; the driver on its bus
  is such a channel.  The mode that creates a file asks for the smallest granularity that is enough.
\<close>

section \<open>The interface to the driver\<close>

text \<open>An answer: opcode, flow control, descriptor and data, padded to a whole word on the bus.\<close>

record cmd_answer =
  ans_op :: u16
  ans_flags :: "u8 list"
  ans_desc :: "u8 list"
  ans_data :: "u8 list"

definition ans_len :: "cmd_answer \<Rightarrow> u16" where
  "ans_len a = of_nat (4 + length (ans_desc a) + length (ans_data a))"

definition answer_ok :: "cmd_answer \<Rightarrow> bool" where
  "answer_ok a \<longleftrightarrow> length (ans_flags a) = 4 \<and> SL_OPCODE_SYNC AND ans_op a \<noteq> 0 \<and> length (ans_desc a) mod 4 = 0 \<and>
     length (ans_data a) < 32765 \<and> clear_len (ans_len a)"

definition answer_msg :: "cmd_answer \<Rightarrow> u8 list" where
  "answer_msg a = nwp_msg (ans_op a) (ans_len a) (ans_flags a)
     (ans_desc a @ ans_data a @ replicate (align4 (length (ans_data a)) - length (ans_data a)) 0)"

text \<open>Room for the data, and the payload buffer with the data in it.\<close>

definition room_for :: "SlCmdExt \<Rightarrow> u8 list \<Rightarrow> bool" where
  "room_for e dat \<longleftrightarrow> (if RxPayloadLen e = 0 then dat = [] else
     case pRxPayload e of Some rx \<Rightarrow> length dat \<le> unat (RxPayloadLen e) \<and> unat (RxPayloadLen e) \<le> length rx | None \<Rightarrow> False)"

definition filled :: "SlCmdExt \<Rightarrow> u8 list \<Rightarrow> SlCmdExt" where
  "filled e dat =
     (if RxPayloadLen e = 0 then e
      else if dat = [] then e\<lparr>ActualRxPayloadLen := 0, RxPayloadLen := 0\<rparr>
      else e\<lparr>ActualRxPayloadLen := of_nat (length dat), pRxPayload := map_option (\<lambda>rx. dat @ drop (length dat) rx) (pRxPayload e)\<rparr>)"

locale cmd_channel =
  fixes cmd :: "'s cmd_fn"
    and serves :: "'s \<Rightarrow> cmd_answer list \<Rightarrow> bool"
    and sent :: "'s \<Rightarrow> u8 list"
  assumes answered:
    "serves s (a # later) \<Longrightarrow> answer_ok a \<Longrightarrow> cmd_ready ctrl desc (Some e) \<Longrightarrow>
     length (ans_desc a) = unat (RxDescLen ctrl) \<Longrightarrow> length (ans_desc a) \<le> length desc \<Longrightarrow> room_for e (ans_data a) \<Longrightarrow>
     \<exists>s'. cmd ctrl desc e s = Some (0, ans_desc a @ drop (length (ans_desc a)) desc, filled e (ans_data a), s') \<and>
       serves s' later \<and> sent s' = sent s @ cmd_bytes ctrl desc (Some e) @ H2N_CNYS"

section \<open>The driver on its bus\<close>

definition bus_serves :: "SlDriverCb \<times> nwp \<Rightarrow> cmd_answer list \<Rightarrow> bool" where
  "bus_serves sw as \<longleftrightarrow> \<not> pending_rx (fst sw) \<and> \<not> RelayFlagsViaRxPayload (fst sw) \<and> nwp_in (snd sw) = [] \<and>
     CmdSyncObj \<notin> nwp_sems (snd sw) \<and> nwp_more (snd sw) = map answer_msg as"

lemma align4_id: "n mod 4 = 0 \<Longrightarrow> align4 n = n"
  unfolding align4_def by presburger

lemma answers_room:
  assumes "answer_ok a" "length (ans_desc a) = unat (RxDescLen ctrl)" "length (ans_desc a) \<le> length desc" "room_for e (ans_data a)"
    "pCmdCtrl s = Some ctrl" "pTxRxDescBuff s = Some desc" "pCmdExt s = Some e"
    "rd16 2 hdr = ans_len a" "pad = replicate (align4 (length (ans_data a)) - length (ans_data a)) 0"
  shows "answers (bus wait run) hdr (ans_desc a @ ans_data a @ pad) s (ans_desc a @ drop (length (ans_desc a)) desc)
    (Some (filled e (ans_data a)))"
proof (cases "ans_data a = []")
  case False
  then obtain rx where rx: "pRxPayload e = Some rx" "RxPayloadLen e \<noteq> 0" "length (ans_data a) \<le> unat (RxPayloadLen e)"
    "unat (RxPayloadLen e) \<le> length rx"
    using assms(4) by (auto simp: room_for_def split: option.splits if_splits)
  have f: "filled e (ans_data a) = e\<lparr>ActualRxPayloadLen := of_nat (length (ans_data a)), pRxPayload := Some (ans_data a @ drop (length (ans_data a)) rx)\<rparr>"
    using rx False by (simp add: filled_def)
  show ?thesis unfolding f
    by (rule answers_payload) (use assms rx False in \<open>simp_all add: answer_ok_def ans_len_def\<close>)
next
  case True
  then have p: "pad = []" using assms(9) by (simp add: align4_def)
  have al: "align4 (unat (RxDescLen ctrl)) = length (ans_desc a)" using assms(1,2) by (simp add: answer_ok_def align4_id)
  have small: "length (ans_desc a) < 32768" using assms(2) unat8_bound [of "RxDescLen ctrl"] by linarith
  have "RSP_PAYLOAD_LEN hdr - ucast (RxDescLen ctrl) = (0 :: u32)"
  proof -
    have "4 + unat (RxDescLen ctrl) < 65536" using unat8_bound [of "RxDescLen ctrl"] by linarith
    then have "(ucast (rd16 2 hdr) :: u32) = of_nat (4 + unat (RxDescLen ctrl))"
      using assms(2,8) True by (simp only: ans_len_def ucast_of_nat list.size add_0_right)
    then show ?thesis by (simp add: RSP_PAYLOAD_LEN_def)
  qed
  then have none: "read_rx_payload ops hdr ctrl e w = Some (e\<lparr>ActualRxPayloadLen := 0, RxPayloadLen := 0\<rparr>, w)" for ops :: "nwp host_ops" and w
    by (simp add: read_rx_payload_def)
  show ?thesis unfolding answers_def
  proof (intro allI impI)
    fix s' and w' :: nwp
    assume s: "same_params s s'" and w: "nwp_in w' = ans_desc a @ ans_data a @ pad"
    have desc: "read_at (bus wait run) 0 (length (ans_desc a)) desc w' = Some (ans_desc a @ drop (length (ans_desc a)) desc, w'\<lparr>nwp_in := []\<rparr>)"
      using w assms(3) small True p by (simp add: bus_read_at)
    show "read_cmd_resp (bus wait run) hdr s' w' = Some (s'\<lparr>pTxRxDescBuff := Some (ans_desc a @ drop (length (ans_desc a)) desc),
        pCmdExt := Some (filled e (ans_data a))\<rparr>, w'\<lparr>nwp_in := []\<rparr>)"
      using s assms(5-7) True by (simp add: read_cmd_resp_def same_params_def al desc none filled_def)
  qed
qed

interpretation spi: cmd_channel "drv_cmd (bus (processor run) run)" bus_serves "\<lambda>sw. nwp_out (snd sw)" for run
proof
  fix sw a later ctrl desc e
  assume sv: "bus_serves sw (a # later)" and ok: "answer_ok a" and ready: "cmd_ready ctrl desc (Some e)"
    and d: "length (ans_desc a) = unat (RxDescLen ctrl)" "length (ans_desc a) \<le> length desc" "room_for e (ans_data a)"
  obtain s w where sw: "sw = (s, w)" by (rule prod.exhaust)
  let ?pad = "replicate (align4 (length (ans_data a)) - length (ans_data a)) 0 :: u8 list"
  let ?d = "ans_desc a @ drop (length (ans_desc a)) desc" and ?e = "filled e (ans_data a)"
  have s: "\<not> pending_rx s" "\<not> RelayFlagsViaRxPayload s" and w: "nwp_in w = []" "CmdSyncObj \<notin> nwp_sems w"
    and more: "nwp_more w = map dummy_msg [] @ nwp_msg (ans_op a) (ans_len a) (ans_flags a) (ans_desc a @ ans_data a @ ?pad) # map answer_msg later"
    using sv by (simp_all add: bus_serves_def sw answer_msg_def)
  have m: "\<forall>f \<in> set ([] :: u8 list list). length f = 4" "length (ans_flags a) = 4" "clear_len (ans_len a)" "SL_OPCODE_SYNC AND ans_op a \<noteq> 0"
    using ok by (simp_all add: answer_ok_def)
  have "answers (bus (processor run) run) (le16 (ans_op a) @ le16 (ans_len a) @ ans_flags a) (ans_desc a @ ans_data a @ ?pad)
      (set_params ctrl (Some desc) (Some e) s) ?d (Some ?e)"
    by (rule answers_room [OF ok d]) (simp_all add: set_params_def rd16_le16)
  from cmd_op_answered [OF s ready w more m this]
  obtain s' w' where r: "SlDrvCmdOp (bus (processor run) run) ctrl (Some desc) (Some e) s w = Some (0, s', w')"
    "pTxRxDescBuff s' = Some ?d" "pCmdExt s' = Some ?e" "\<not> pending_rx s'" "same_pool s s'" "nwp_in w' = []"
    "nwp_more w' = map answer_msg later" "CmdSyncObj \<notin> nwp_sems w'" "pCmdCtrl s' = Some ctrl"
    "nwp_out w' = nwp_out w @ cmd_bytes ctrl desc (Some e) @ concat (replicate (Suc (length ([] :: u8 list list))) H2N_CNYS)"
    by metis
  have "drv_cmd (bus (processor run) run) ctrl desc e sw = Some (0, ?d, ?e, s', w')"
    using r by (simp add: drv_cmd_def sw own_desc_def own_ext_def)
  moreover have "bus_serves (s', w') later" using r s(2) by (simp add: bus_serves_def same_pool_def)
  moreover have "nwp_out (snd (s', w')) = nwp_out (snd sw) @ cmd_bytes ctrl desc (Some e) @ H2N_CNYS"
    using r(10) by (simp add: sw)
  ultimately show "\<exists>s'. drv_cmd (bus (processor run) run) ctrl desc e sw = Some (0, ?d, ?e, s') \<and> bus_serves s' later \<and>
      nwp_out (snd s') = nwp_out (snd sw) @ cmd_bytes ctrl desc (Some e) @ H2N_CNYS"
    by blast
qed

section \<open>Reading and writing over a channel\<close>

text \<open>The data of a call, cut into the pieces of one command each.\<close>

fun chunks :: "u8 list \<Rightarrow> u8 list list" where
  "chunks xs = (if length xs \<le> 1460 then [xs] else take 1460 xs # chunks (drop 1460 xs))"

declare chunks.simps [simp del]

lemma chunks_concat: "concat (chunks xs) = xs"
  by (induction xs rule: chunks.induct) (subst chunks.simps, simp)

text \<open>The answers of a processor that has read a chunk, or written one of \<open>n\<close> bytes.\<close>

definition read_answer :: "u8 list \<Rightarrow> u8 list \<Rightarrow> cmd_answer" where
  "read_answer fl c = \<lparr>ans_op = 0x2440, ans_flags = fl, ans_desc = le16 (of_nat (length c)) @ [0, 0], ans_data = c\<rparr>"

definition write_answer :: "u8 list \<Rightarrow> u8 list \<Rightarrow> cmd_answer" where
  "write_answer fl c = \<lparr>ans_op = 0x2441, ans_flags = fl, ans_desc = le16 (of_nat (length c)) @ [0, 0], ans_data = []\<rparr>"

definition error_answer :: "u8 list \<Rightarrow> u16 \<Rightarrow> cmd_answer" where
  "error_answer fl st = \<lparr>ans_op = 0x2440, ans_flags = fl, ans_desc = le16 st @ [0, 0], ans_data = []\<rparr>"

text \<open>What the host sends for the chunks of a call.\<close>

primrec read_frames :: "(nat \<Rightarrow> u8) \<Rightarrow> u32 \<Rightarrow> u32 \<Rightarrow> u8 list list \<Rightarrow> u8 list" where
  "read_frames stk hdl off [] = []"
| "read_frames stk hdl off (c # cs) =
     H2N_SYNC @ le16 0xA440 @ le16 12 @ fs_msg stk hdl off (of_nat (length c)) @ H2N_CNYS @
     read_frames stk hdl (off + of_nat (length c)) cs"

text \<open>A frame of a write takes whole words from the buffer; the bytes behind the data only fill the last one.\<close>

primrec write_frames :: "(nat \<Rightarrow> u8) \<Rightarrow> u32 \<Rightarrow> u32 \<Rightarrow> u8 list \<Rightarrow> u8 list list \<Rightarrow> u8 list" where
  "write_frames stk hdl off buf [] = []"
| "write_frames stk hdl off buf (c # cs) =
     H2N_SYNC @ le16 0xA441 @ le16 (of_nat (12 + align4 (length c))) @ fs_msg stk hdl off (of_nat (length c)) @
     take (align4 (length c)) buf @ H2N_CNYS @ write_frames stk hdl (off + of_nat (length c)) (drop (length c) buf) cs"

lemma chunk_small: "length xs = unat len \<Longrightarrow> length xs \<le> 1460 \<Longrightarrow> unat (fs_chunk len) = length xs \<and> len - ucast (fs_chunk len) = 0"
proof -
  assume l: "length xs = unat len" "length xs \<le> 1460"
  then have "len \<le> 1460" by (simp add: word_le_nat_alt)
  then have c: "fs_chunk len = ucast len" by (auto simp: fs_chunk_def MAX_NVMEM_CHUNK_SIZE_def)
  have u: "unat (ucast len :: u16) = unat len" using l by (intro unat_ucast_small) simp
  then have "(ucast (ucast len :: u16) :: u32) = len" by (simp add: word_unat_eq_iff)
  with c u l show ?thesis by simp
qed

lemma chunk_large:
  assumes "length xs = unat len" "1460 < length xs"
  shows "unat (fs_chunk len) = 1460" "unat (len - ucast (fs_chunk len)) = length (drop 1460 xs)" "len - ucast (fs_chunk len) \<noteq> 0"
proof -
  have "1460 < len" using assms by (simp add: word_less_nat_alt)
  then have c: "fs_chunk len = 1460" by (simp add: fs_chunk_def MAX_NVMEM_CHUNK_SIZE_def)
  then show "unat (fs_chunk len) = 1460" by simp
  have "unat (len - 1460) = unat len - 1460" using \<open>1460 < len\<close> by (simp add: unat_sub_if_size word_le_nat_alt word_less_nat_alt)
  then show u: "unat (len - ucast (fs_chunk len)) = length (drop 1460 xs)" using c assms(1) by simp
  then show "len - ucast (fs_chunk len) \<noteq> 0" using assms(2) by auto
qed

lemma chunk_pos: "len \<noteq> 0 \<Longrightarrow> 0 < fs_chunk len"
proof (cases "1460 < len")
  case False
  moreover assume "len \<noteq> 0"
  moreover have "unat (ucast len :: u16) = unat len"
    using False by (intro unat_ucast_small) (simp add: word_less_nat_alt)
  ultimately show ?thesis by (simp add: fs_chunk_def MAX_NVMEM_CHUNK_SIZE_def word_less_nat_alt word_unat_eq_iff)
qed (simp add: fs_chunk_def MAX_NVMEM_CHUNK_SIZE_def)

lemma len_le16 [simp]: "length (le16 v) = 2"
  by (simp add: le16_def)

lemma len_le32 [simp]: "length (le32 v) = 4"
  by (simp add: le32_def)

lemma align4_12: "align4 12 = 12" "align4 0 = 0" "align4 1460 = 1460"
  by (simp_all add: align4_def)

lemma fs_msg_len [simp]: "length (fs_msg stk hdl off n) = 12"
  by (simp add: fs_msg_def)

lemma status_small: "n \<le> 1460 \<Longrightarrow> sint (rd16 0 (le16 (of_nat n) @ xs)) = int n"
  by (simp add: rd16_le16 sint_small)

lemma clear_len_small: "n \<le> 1468 \<Longrightarrow> clear_len (of_nat n)"
proof -
  assume n: "n \<le> 1468"
  have "(of_nat n :: u16) AND 0x7FFF \<le> of_nat n" by (rule word_and_le2)
  moreover have "(of_nat n :: u16) \<le> 1468" using n by (simp add: word_le_nat_alt unsigned_of_nat take_bit_nat_eq_self)
  ultimately have "(of_nat n :: u16) AND 0x7FFF \<le> 1468" by (rule order_trans)
  then show ?thesis unfolding clear_len_def by (auto simp: word_le_nat_alt)
qed

lemma read_answer_ok:
  assumes "length fl = 4" "length c \<le> 1460"
  shows "answer_ok (read_answer fl c)" "answer_ok (write_answer fl c)"
  using assms clear_len_small [of "8 + length c"] clear_len_small [of 8]
  by (simp_all add: answer_ok_def read_answer_def write_answer_def ans_len_def SL_OPCODE_SYNC_def)

definition read_ext :: "u16 \<Rightarrow> u8 list \<Rightarrow> SlCmdExt" where
  "read_ext n buf = \<lparr>TxPayloadLen = 0, RxPayloadLen = n, ActualRxPayloadLen = 0, pTxPayload = [], pRxPayload = Some buf\<rparr>"

lemma read_frame:
  "cmd_ready SlFsReadCmdCtrl (fs_msg stk hdl off n) (Some (read_ext n buf))"
  "cmd_bytes SlFsReadCmdCtrl (fs_msg stk hdl off n) (Some (read_ext n buf)) = H2N_SYNC @ le16 0xA440 @ le16 12 @ fs_msg stk hdl off n"
  by (simp_all add: cmd_ready_def cmd_bytes_def cmd_body_def SlFsReadCmdCtrl_def read_ext_def align4_12
      SL_OPCODE_NVMEM_FILEREADCOMMAND_def)

lemma filled_read:
  assumes "unat n = length c" "length c \<le> length buf"
  shows "room_for (read_ext n buf) c" "pRxPayload (filled (read_ext n buf) c) = Some (c @ drop (length c) buf)"
  using assms by (auto simp: room_for_def filled_def read_ext_def word_unat_eq_iff)

definition write_ext :: "u16 \<Rightarrow> u8 list \<Rightarrow> SlCmdExt" where
  "write_ext n buf = \<lparr>TxPayloadLen = n, RxPayloadLen = 0, ActualRxPayloadLen = 0, pTxPayload = buf, pRxPayload = None\<rparr>"

lemma write_frame:
  assumes "align4 (unat n) \<le> length buf"
  shows "cmd_ready SlFsWriteCmdCtrl (fs_msg stk hdl off n) (Some (write_ext n buf))"
    "cmd_bytes SlFsWriteCmdCtrl (fs_msg stk hdl off n) (Some (write_ext n buf)) =
      H2N_SYNC @ le16 0xA441 @ le16 (of_nat (12 + align4 (unat n))) @ fs_msg stk hdl off n @ take (align4 (unat n)) buf"
  using assms by (simp_all add: cmd_ready_def cmd_bytes_def cmd_body_def SlFsWriteCmdCtrl_def write_ext_def align4_12
      SL_OPCODE_NVMEM_FILEWRITECOMMAND_def min_def)

lemma fs_read_loop_step:
  assumes "cmd SlFsReadCmdCtrl (fs_msg stk hdl off (fs_chunk len)) (read_ext (fs_chunk len) buf) s = Some (0, msg, e, s1)"
    "sint (rd16 0 msg) = int k" "pRxPayload e = Some b"
  shows "fs_read_loop cmd stk hdl off len cnt acc buf s =
    (let n = unat (fs_chunk len); len1 = len - ucast (fs_chunk len) in
     if 0 < fs_chunk len1
     then fs_read_loop cmd stk hdl (off + ucast (fs_chunk len)) len1 (cnt + int k) (acc @ take n b) (drop n b) s1
     else Some (cnt + int k, acc @ b, s1))"
  using assms(1) unfolding read_ext_def
  by (subst fs_read_loop.simps) (simp add: assms(2,3) Let_def)

lemma fs_write_loop_step:
  assumes "cmd SlFsWriteCmdCtrl (fs_msg stk hdl off (fs_chunk len)) (write_ext (fs_chunk len) buf) s = Some (0, msg, e, s1)"
    "sint (rd16 0 msg) = int k"
  shows "fs_write_loop cmd stk hdl off len cnt buf s =
    (let len1 = len - ucast (fs_chunk len) in
     if 0 < fs_chunk len1
     then fs_write_loop cmd stk hdl (off + ucast (fs_chunk len)) len1 (cnt + int k) (drop (unat (fs_chunk len)) buf) s1
     else Some (cnt + int k, s1))"
  using assms(1) unfolding write_ext_def
  by (subst fs_write_loop.simps) (simp add: assms(2) Let_def)

context cmd_channel
begin

text \<open>One command of a read.\<close>

lemma read_one_chunk:
  assumes "serves s (read_answer fl c # later)" "length fl = 4" "length c \<le> 1460" "unat n = length c" "length c \<le> length buf"
  obtains s' msg e where "cmd SlFsReadCmdCtrl (fs_msg stk hdl off n) (read_ext n buf) s = Some (0, msg, e, s')"
    "sint (rd16 0 msg) = int (length c)" "pRxPayload e = Some (c @ drop (length c) buf)" "serves s' later"
    "sent s' = sent s @ H2N_SYNC @ le16 0xA440 @ le16 12 @ fs_msg stk hdl off n @ H2N_CNYS"
proof -
  have d: "length (ans_desc (read_answer fl c)) = unat (RxDescLen SlFsReadCmdCtrl)"
    "length (ans_desc (read_answer fl c)) \<le> length (fs_msg stk hdl off n)"
    by (simp_all add: read_answer_def SlFsReadCmdCtrl_def)
  have dat: "ans_data (read_answer fl c) = c" "ans_desc (read_answer fl c) = le16 (of_nat (length c)) @ [0, 0]"
    by (simp_all add: read_answer_def)
  obtain s' where "cmd SlFsReadCmdCtrl (fs_msg stk hdl off n) (read_ext n buf) s =
      Some (0, (le16 (of_nat (length c)) @ [0, 0]) @ drop 4 (fs_msg stk hdl off n), filled (read_ext n buf) c, s')"
    "serves s' later" "sent s' = sent s @ (H2N_SYNC @ le16 0xA440 @ le16 12 @ fs_msg stk hdl off n) @ H2N_CNYS"
    using answered [OF assms(1) read_answer_ok(1) [OF assms(2,3)] read_frame(1) d, of buf] filled_read [OF assms(4,5)]
    unfolding dat read_frame(2) by auto
  then show ?thesis
    using that filled_read(2) [OF assms(4,5)] status_small [OF assms(3)] by simp
qed

lemma fs_read_loop_reads:
  assumes "serves s (map (read_answer fl) (chunks content) @ later)" "length fl = 4" "length content = unat len"
    "length content \<le> length buf"
  shows "\<exists>s'. fs_read_loop cmd stk hdl off len cnt acc buf s =
      Some (cnt + int (length content), acc @ content @ drop (length content) buf, s') \<and> serves s' later \<and>
    sent s' = sent s @ read_frames stk hdl off (chunks content)"
  using assms
proof (induction content arbitrary: off len cnt acc buf s rule: chunks.induct)
  case (1 xs)
  show ?case
  proof (cases "length xs \<le> 1460")
    case True
    then have ch: "chunks xs = [xs]" by (subst chunks.simps) simp
    note n = chunk_small [OF "1.prems"(3) True]
    obtain s' msg e where r: "cmd SlFsReadCmdCtrl (fs_msg stk hdl off (fs_chunk len)) (read_ext (fs_chunk len) buf) s = Some (0, msg, e, s')"
      "sint (rd16 0 msg) = int (length xs)" "pRxPayload e = Some (xs @ drop (length xs) buf)" "serves s' later"
      "sent s' = sent s @ H2N_SYNC @ le16 0xA440 @ le16 12 @ fs_msg stk hdl off (fs_chunk len) @ H2N_CNYS"
      by (rule read_one_chunk [of s fl xs later "fs_chunk len" buf stk hdl off]) (use "1.prems" True ch n in auto)
    have "fs_chunk len = of_nat (length xs)" using n by (simp add: word_unat_eq_iff take_bit_nat_eq_self unsigned_of_nat True order_le_less_trans [OF True])
    with r(4,5) n show ?thesis
      by (subst fs_read_loop_step [where cmd = cmd, OF r(1-3)]) (simp add: ch fs_chunk_def [of 0] MAX_NVMEM_CHUNK_SIZE_def)
  next
    case False
    then have ch: "chunks xs = take 1460 xs # chunks (drop 1460 xs)" by (subst chunks.simps) simp
    note n = chunk_large [OF "1.prems"(3)]
    let ?c = "take 1460 xs"
    have "length ?c = 1460" using False by simp
    obtain s1 msg e where r: "cmd SlFsReadCmdCtrl (fs_msg stk hdl off (fs_chunk len)) (read_ext (fs_chunk len) buf) s = Some (0, msg, e, s1)"
      "sint (rd16 0 msg) = int (length ?c)" "pRxPayload e = Some (?c @ drop (length ?c) buf)" "serves s1 (map (read_answer fl) (chunks (drop 1460 xs)) @ later)"
      "sent s1 = sent s @ H2N_SYNC @ le16 0xA440 @ le16 12 @ fs_msg stk hdl off (fs_chunk len) @ H2N_CNYS"
      by (rule read_one_chunk [of s fl ?c "map (read_answer fl) (chunks (drop 1460 xs)) @ later" "fs_chunk len" buf stk hdl off])
        (use "1.prems" False ch n in auto)
    have nz: "0 < fs_chunk (len - ucast (fs_chunk len))" using n(3) False by (intro chunk_pos) simp
    have IH: "\<exists>s'. fs_read_loop cmd stk hdl (off + ucast (fs_chunk len)) (len - ucast (fs_chunk len)) (cnt + 1460) (acc @ ?c) (drop 1460 buf) s1 =
        Some (cnt + 1460 + int (length (drop 1460 xs)), (acc @ ?c) @ drop 1460 xs @ drop (length (drop 1460 xs)) (drop 1460 buf), s') \<and>
        serves s' later \<and> sent s' = sent s1 @ read_frames stk hdl (off + ucast (fs_chunk len)) (chunks (drop 1460 xs))"
      by (rule "1.IH") (use False r(4) "1.prems" n in auto)
    have of: "of_nat (length ?c) = fs_chunk len" "(of_nat (length ?c) :: u32) = ucast (fs_chunk len)"
      using n(1) False by (simp_all add: word_unat_eq_iff)
    from IH obtain s' where s': "fs_read_loop cmd stk hdl (off + ucast (fs_chunk len)) (len - ucast (fs_chunk len)) (cnt + 1460) (acc @ ?c) (drop 1460 buf) s1 =
        Some (cnt + 1460 + int (length (drop 1460 xs)), (acc @ ?c) @ drop 1460 xs @ drop (length (drop 1460 xs)) (drop 1460 buf), s')"
      "serves s' later" "sent s' = sent s1 @ read_frames stk hdl (off + ucast (fs_chunk len)) (chunks (drop 1460 xs))" by blast
    have "fs_read_loop cmd stk hdl off len cnt acc buf s =
        fs_read_loop cmd stk hdl (off + ucast (fs_chunk len)) (len - ucast (fs_chunk len)) (cnt + 1460) (acc @ ?c) (drop 1460 buf) s1"
      using nz n(1) False by (subst fs_read_loop_step [where cmd = cmd, OF r(1-3)]) simp
    moreover have "cnt + 1460 + int (length (drop 1460 xs)) = cnt + int (length xs)" using False by simp
    moreover have "(acc @ ?c) @ drop 1460 xs @ drop (length (drop 1460 xs)) (drop 1460 buf) = acc @ xs @ drop (length xs) buf"
      using False by simp
    moreover have "sent s' = sent s @ read_frames stk hdl off (chunks xs)"
      using s'(3) r(5) by (simp add: ch of del: length_take)
    ultimately show ?thesis using s' by auto
  qed
qed

text \<open>One command of a write, and the loop.\<close>

lemma write_one_chunk:
  assumes "serves s (write_answer fl c # later)" "length fl = 4" "length c \<le> 1460" "unat n = length c" "align4 (length c) \<le> length buf"
  obtains s' msg e where "cmd SlFsWriteCmdCtrl (fs_msg stk hdl off n) (write_ext n buf) s = Some (0, msg, e, s')"
    "sint (rd16 0 msg) = int (length c)" "serves s' later"
    "sent s' = sent s @ H2N_SYNC @ le16 0xA441 @ le16 (of_nat (12 + align4 (length c))) @ fs_msg stk hdl off n @
       take (align4 (length c)) buf @ H2N_CNYS"
proof -
  have d: "length (ans_desc (write_answer fl c)) = unat (RxDescLen SlFsWriteCmdCtrl)"
    "length (ans_desc (write_answer fl c)) \<le> length (fs_msg stk hdl off n)" "room_for (write_ext n buf) (ans_data (write_answer fl c))"
    by (simp_all add: write_answer_def SlFsWriteCmdCtrl_def room_for_def write_ext_def)
  have dat: "ans_desc (write_answer fl c) = le16 (of_nat (length c)) @ [0, 0]" by (simp add: write_answer_def)
  have al: "align4 (unat n) \<le> length buf" using assms(4,5) by simp
  obtain s' e where "cmd SlFsWriteCmdCtrl (fs_msg stk hdl off n) (write_ext n buf) s =
      Some (0, (le16 (of_nat (length c)) @ [0, 0]) @ drop 4 (fs_msg stk hdl off n), e, s')" "serves s' later"
    "sent s' = sent s @ (H2N_SYNC @ le16 0xA441 @ le16 (of_nat (12 + align4 (unat n))) @ fs_msg stk hdl off n @ take (align4 (unat n)) buf) @ H2N_CNYS"
    using answered [OF assms(1) read_answer_ok(2) [OF assms(2,3)] write_frame(1) [OF al] d] unfolding dat write_frame(2) [OF al] by auto
  then show ?thesis using that status_small [OF assms(3)] assms(4) by simp
qed

lemma fs_write_loop_writes:
  assumes "serves s (map (write_answer fl) (chunks content) @ later)" "length fl = 4" "length content = unat len"
    "align4 (length content) \<le> length content + length extra"
  shows "\<exists>s'. fs_write_loop cmd stk hdl off len cnt (content @ extra) s = Some (cnt + int (length content), s') \<and> serves s' later \<and>
    sent s' = sent s @ write_frames stk hdl off (content @ extra) (chunks content)"
  using assms
proof (induction content arbitrary: off len cnt s rule: chunks.induct)
  case (1 xs)
  show ?case
  proof (cases "length xs \<le> 1460")
    case True
    then have ch: "chunks xs = [xs]" by (subst chunks.simps) simp
    note n = chunk_small [OF "1.prems"(3) True]
    obtain s' msg e where r: "cmd SlFsWriteCmdCtrl (fs_msg stk hdl off (fs_chunk len)) (write_ext (fs_chunk len) (xs @ extra)) s = Some (0, msg, e, s')"
      "sint (rd16 0 msg) = int (length xs)" "serves s' later"
      "sent s' = sent s @ H2N_SYNC @ le16 0xA441 @ le16 (of_nat (12 + align4 (length xs))) @ fs_msg stk hdl off (fs_chunk len) @
         take (align4 (length xs)) (xs @ extra) @ H2N_CNYS"
      by (rule write_one_chunk [of s fl xs later "fs_chunk len" "xs @ extra" stk hdl off]) (use "1.prems" True ch n in auto)
    have "fs_chunk len = of_nat (length xs)" using n by (simp add: word_unat_eq_iff take_bit_nat_eq_self unsigned_of_nat True order_le_less_trans [OF True])
    with r(3,4) n show ?thesis
      by (subst fs_write_loop_step [where cmd = cmd, OF r(1,2)]) (simp add: ch fs_chunk_def [of 0] MAX_NVMEM_CHUNK_SIZE_def)
  next
    case False
    then have ch: "chunks xs = take 1460 xs # chunks (drop 1460 xs)" by (subst chunks.simps) simp
    note n = chunk_large [OF "1.prems"(3)]
    let ?c = "take 1460 xs"
    have c: "length ?c = 1460" "align4 (length ?c) = 1460" using False by (simp_all add: align4_12)
    obtain s1 msg e where r: "cmd SlFsWriteCmdCtrl (fs_msg stk hdl off (fs_chunk len)) (write_ext (fs_chunk len) (xs @ extra)) s = Some (0, msg, e, s1)"
      "sint (rd16 0 msg) = int (length ?c)" "serves s1 (map (write_answer fl) (chunks (drop 1460 xs)) @ later)"
      "sent s1 = sent s @ H2N_SYNC @ le16 0xA441 @ le16 (of_nat (12 + align4 (length ?c))) @ fs_msg stk hdl off (fs_chunk len) @
         take (align4 (length ?c)) (xs @ extra) @ H2N_CNYS"
      by (rule write_one_chunk [of s fl ?c "map (write_answer fl) (chunks (drop 1460 xs)) @ later" "fs_chunk len" "xs @ extra" stk hdl off])
        (use "1.prems" False ch n c in auto)
    have nz: "0 < fs_chunk (len - ucast (fs_chunk len))" using n(3) False by (intro chunk_pos) simp
    have al: "align4 (length (drop 1460 xs)) \<le> length (drop 1460 xs) + length extra"
      using "1.prems"(4) False by (simp add: align4_def) presburger
    have "\<exists>s'. fs_write_loop cmd stk hdl (off + ucast (fs_chunk len)) (len - ucast (fs_chunk len)) (cnt + 1460) (drop 1460 xs @ extra) s1 =
        Some (cnt + 1460 + int (length (drop 1460 xs)), s') \<and> serves s' later \<and>
        sent s' = sent s1 @ write_frames stk hdl (off + ucast (fs_chunk len)) (drop 1460 xs @ extra) (chunks (drop 1460 xs))"
      by (rule "1.IH") (use False r(3) "1.prems" n al in auto)
    then obtain s' where s': "fs_write_loop cmd stk hdl (off + ucast (fs_chunk len)) (len - ucast (fs_chunk len)) (cnt + 1460) (drop 1460 xs @ extra) s1 =
        Some (cnt + 1460 + int (length (drop 1460 xs)), s')" "serves s' later"
      "sent s' = sent s1 @ write_frames stk hdl (off + ucast (fs_chunk len)) (drop 1460 xs @ extra) (chunks (drop 1460 xs))" by blast
    have n1460: "fs_chunk len = 1460" using n(1) False by (simp add: word_unat_eq_iff)
    have "fs_write_loop cmd stk hdl off len cnt (xs @ extra) s =
        fs_write_loop cmd stk hdl (off + ucast (fs_chunk len)) (len - ucast (fs_chunk len)) (cnt + 1460) (drop 1460 xs @ extra) s1"
      using nz n(1) False by (subst fs_write_loop_step [where cmd = cmd, OF r(1,2)]) simp
    moreover have "cnt + 1460 + int (length (drop 1460 xs)) = cnt + int (length xs)" using False by simp
    moreover have "sent s' = sent s @ write_frames stk hdl off (xs @ extra) (chunks xs)"
      using s'(3) r(4) False n1460 by (simp add: ch c del: length_take)
    ultimately show ?thesis using s' by auto
  qed
qed

lemma fs_read_loop_error:
  assumes "serves s (map (read_answer fl) cs @ error_answer fl st # later)" "length fl = 4" "\<forall>c \<in> set cs. length c = 1460"
    "1460 * length cs < unat len" "unat len \<le> length buf" "sint st < 0" "0 \<le> cnt"
  shows "\<exists>s'. fs_read_loop cmd stk hdl off len cnt acc buf s =
      Some (if cnt = 0 \<and> cs = [] then sint st else cnt + 1460 * int (length cs), acc @ concat cs @ drop (1460 * length cs) buf, s') \<and> serves s' later"
  using assms
proof (induction cs arbitrary: off len cnt acc buf s)
  case Nil
  let ?n = "fs_chunk len"
  have d: "length (ans_desc (error_answer fl st)) = unat (RxDescLen SlFsReadCmdCtrl)"
    "length (ans_desc (error_answer fl st)) \<le> length (fs_msg stk hdl off ?n)" "ans_data (error_answer fl st) = []"
    by (simp_all add: error_answer_def SlFsReadCmdCtrl_def)
  have ok: "answer_ok (error_answer fl st)"
    using Nil.prems(2) clear_len_small [of 8] by (simp add: answer_ok_def error_answer_def ans_len_def SL_OPCODE_SYNC_def)
  have "unat ?n \<le> unat len" by (cases "1460 < len")
      (simp_all add: fs_chunk_def MAX_NVMEM_CHUNK_SIZE_def word_less_nat_alt unat_ucast_small unsigned_ucast_eq)
  then have "room_for (read_ext ?n buf) []" using Nil.prems(5) by (simp add: room_for_def read_ext_def)
  then obtain s' where r: "cmd SlFsReadCmdCtrl (fs_msg stk hdl off ?n) (read_ext ?n buf) s =
      Some (0, (le16 st @ [0, 0]) @ drop 4 (fs_msg stk hdl off ?n), filled (read_ext ?n buf) [], s')" "serves s' later"
    using answered [of s "error_answer fl st" later SlFsReadCmdCtrl "fs_msg stk hdl off ?n" "read_ext ?n buf"]
      Nil.prems(1) ok read_frame(1) d by (auto simp: error_answer_def)
  have "pRxPayload (filled (read_ext ?n buf) []) = Some buf" by (simp add: filled_def read_ext_def)
  moreover have "sint (rd16 0 ((le16 st @ [0, 0]) @ drop 4 (fs_msg stk hdl off ?n))) = sint st" by (simp add: rd16_le16)
  ultimately show ?case
    using r Nil.prems(6,7) unfolding read_ext_def by (subst fs_read_loop.simps) (simp add: Let_def)
next
  case (Cons c cs)
  have len: "1460 < length (take (unat len) buf)" "length (take (unat len) buf) = unat len" using Cons.prems(4,5) by simp_all
  note n = chunk_large [OF len(2,1)]
  obtain s1 msg e where r: "cmd SlFsReadCmdCtrl (fs_msg stk hdl off (fs_chunk len)) (read_ext (fs_chunk len) buf) s = Some (0, msg, e, s1)"
    "sint (rd16 0 msg) = int (length c)" "pRxPayload e = Some (c @ drop (length c) buf)" "serves s1 (map (read_answer fl) cs @ error_answer fl st # later)"
    by (rule read_one_chunk [of s fl c "map (read_answer fl) cs @ error_answer fl st # later" "fs_chunk len" buf stk hdl off])
      (use Cons.prems n(1) len in auto)
  have c: "length c = 1460" using Cons.prems(3) by simp
  have nz: "0 < fs_chunk (len - ucast (fs_chunk len))" using n(3) by (rule chunk_pos)
  have "\<exists>s'. fs_read_loop cmd stk hdl (off + ucast (fs_chunk len)) (len - ucast (fs_chunk len)) (cnt + 1460) (acc @ c) (drop 1460 buf) s1 =
      Some (if cnt + 1460 = 0 \<and> cs = [] then sint st else cnt + 1460 + 1460 * int (length cs), (acc @ c) @ concat cs @ drop (1460 * length cs) (drop 1460 buf), s') \<and>
      serves s' later"
    by (rule Cons.IH) (use r(4) Cons.prems n(2) len in auto)
  moreover have "fs_read_loop cmd stk hdl off len cnt acc buf s =
      fs_read_loop cmd stk hdl (off + ucast (fs_chunk len)) (len - ucast (fs_chunk len)) (cnt + 1460) (acc @ c) (drop 1460 buf) s1"
    using nz n(1) c by (subst fs_read_loop_step [where cmd = cmd, OF r(1-3)]) simp
  ultimately show ?case using Cons.prems(7) by (auto simp: algebra_simps)
qed

end

section \<open>Modes\<close>

text \<open>The blocks of \<open>g\<close> bytes that hold \<open>n\<close> bytes.\<close>

definition blocks :: "u32 \<Rightarrow> u32 \<Rightarrow> u32" where
  "blocks n g = (if n mod g \<noteq> 0 then n div g + 1 else n div g)"

lemma blocks_bounds:
  assumes "unat n \<le> 255 * unat g" "0 < unat g"
  shows "unat (blocks n g) \<le> 255" "unat n \<le> unat (blocks n g) * unat g" "unat (blocks n g) * unat g < unat n + unat g"
proof -
  let ?q = "unat n div unat g" and ?r = "unat n mod unat g"
  have q: "?q \<le> 255" using assms by (metis div_le_mono nonzero_mult_div_cancel_right less_numeral_extra(3))
  have dm: "unat n = ?q * unat g + ?r" "?r < unat g" using assms(2) by simp_all
  have z: "n mod g = 0 \<longleftrightarrow> ?r = 0" by (simp add: word_unat_eq_iff unat_mod_distrib)
  have b: "unat (blocks n g) = (if ?r = 0 then ?q else ?q + 1)"
    using q by (simp add: blocks_def z unat_div_distrib unat_word_ariths)
  have q2: "?r \<noteq> 0 \<Longrightarrow> ?q < 255" using dm assms(1) q by (metis add_lessD1 le_neq_implies_less leD linorder_neqE_nat mult.commute nat_add_left_cancel_less  less_add_same_cancel1 neq0_conv)
  show "unat (blocks n g) \<le> 255" using b q q2 by auto
  have p: "?r = 0 \<Longrightarrow> unat (blocks n g) * unat g = ?q * unat g" "?r \<noteq> 0 \<Longrightarrow> unat (blocks n g) * unat g = ?q * unat g + unat g"
    using b by simp_all
  show "unat n \<le> unat (blocks n g) * unat g"
    by (cases "?r = 0") (use p dm in linarith)+
  show "unat (blocks n g) * unat g < unat n + unat g"
    by (cases "?r = 0") (use p dm assms(2) in linarith)+
qed

lemma gran: "gran_index n = (if n \<le> 65280 then 0 else if n \<le> 261120 then 1 else if n \<le> 1044480 then 2 else if n \<le> 4177920 then 3 else if n \<le> 16711680 then 4 else 5)"
  by (simp add: gran_index_def granTable_def)

section \<open>Properties\<close>

text \<open>
  C13. Reading \<open>Len\<close> bytes of a file over the bus: one command is sent for each 1460 bytes, with the
  offsets one after the other, and when the processor answers each with its part, the call returns the
  number of bytes and leaves them in the caller's buffer, the rest of which is not touched; the driver
  is ready for the next command.
\<close>

theorem sl_FsRead_reads:
  assumes "bus_serves (s, w) (map (read_answer fl) (chunks content) @ later)" "length fl = 4"
    "length content = unat Len" "length content \<le> length buf"
  shows "\<exists>s' w'. sl_FsRead (drv_cmd (bus (processor run) run)) stk FileHdl Offset buf Len (s, w) =
      Some (int (length content), content @ drop (length content) buf, s', w') \<and>
    bus_serves (s', w') later \<and> nwp_out w' = nwp_out w @ read_frames stk FileHdl Offset (chunks content)"
  using spi.fs_read_loop_reads [OF assms, of run stk FileHdl Offset 0 "[]"] by (auto simp: sl_FsRead_def)

text \<open>
  C14. Writing: the data is sent in commands of at most 1460 bytes for consecutive offsets, and when the
  processor accepts each, the call returns the number of bytes written.
\<close>

theorem sl_FsWrite_writes:
  assumes "bus_serves (s, w) (map (write_answer fl) (chunks content) @ later)" "length fl = 4"
    "length content = unat Len" "align4 (length content) \<le> length content + length extra"
  shows "\<exists>s' w'. sl_FsWrite (drv_cmd (bus (processor run) run)) stk FileHdl Offset (content @ extra) Len (s, w) =
      Some (int (length content), s', w') \<and>
    bus_serves (s', w') later \<and> nwp_out w' = nwp_out w @ write_frames stk FileHdl Offset (content @ extra) (chunks content)"
  using spi.fs_write_loop_writes [OF assms, of run stk FileHdl Offset 0] by (auto simp: sl_FsWrite_def)

text \<open>A read that the processor refuses: the call stops with the command that was refused and returns
  the error, or the number of bytes read before it, which are in the buffer.
\<close>

theorem sl_FsRead_stops_at_error:
  assumes "bus_serves (s, w) (map (read_answer fl) cs @ error_answer fl st # later)" "length fl = 4"
    "\<forall>c \<in> set cs. length c = 1460" "1460 * length cs < unat Len" "unat Len \<le> length buf" "sint st < 0"
  shows "\<exists>s' w'. sl_FsRead (drv_cmd (bus (processor run) run)) stk FileHdl Offset buf Len (s, w) =
      Some (if cs = [] then sint st else 1460 * int (length cs), concat cs @ drop (1460 * length cs) buf, s', w') \<and>
    bus_serves (s', w') later"
  using spi.fs_read_loop_error [OF assms order_refl, of run stk FileHdl Offset "[]"] by (auto simp: sl_FsRead_def)

text \<open>The mode that creates a file of at most \<open>n\<close> bytes: up to 16711680 bytes it names the smallest
  granularity whose 255 blocks are enough, and the smallest number of blocks of it; beyond that the
  table of granularities is read past its end.
\<close>

theorem sl_GetCreateFsMode_smallest:
  "case sl_GetCreateFsMode n flags of
     None \<Rightarrow> 16711680 < n
   | Some m \<Rightarrow> \<exists>i k. i < 5 \<and> m = FS_MODE 3 (of_nat i) k flags \<and> unat k \<le> 255 \<and>
       unat n \<le> unat k * unat (granTable ! i) \<and> unat k * unat (granTable ! i) < unat n + unat (granTable ! i) \<and>
       (i = 0 \<or> 255 * unat (granTable ! (i - 1)) < unat n)"
proof (cases "n \<le> 16711680")
  case True
  let ?i = "gran_index n"
  have i: "?i < 5" using True by (simp add: gran)
  have len: "length granTable = 5" by (simp add: granTable_def)
  have pos: "0 < unat (granTable ! ?i)" using i by (auto simp: granTable_def gran)
  have le: "unat n \<le> 255 * unat (granTable ! ?i)" using True by (simp add: granTable_def gran word_le_nat_alt)
  have prev: "?i = 0 \<or> 255 * unat (granTable ! (?i - 1)) < unat n" by (auto simp: granTable_def gran word_le_nat_alt)
  have m: "sl_GetCreateFsMode n flags = Some (FS_MODE 3 (of_nat ?i) (blocks n (granTable ! ?i)) flags)"
    using i by (simp add: sl_GetCreateFsMode_def len blocks_def Let_def)
  show ?thesis unfolding m option.case
    using i blocks_bounds [OF le pos] prev by blast
next
  case False
  then have "\<not> gran_index n < length granTable" by (auto simp: gran granTable_def word_le_nat_alt)
  then show ?thesis using False by (simp add: sl_GetCreateFsMode_def Let_def)
qed

section \<open>On concrete data\<close>

lemma fs_free_serves: "bus_serves (demo_free, demo_net (map answer_msg as)) as"
  by (simp add: bus_serves_def demo_free_def SlDrvObjInit_def demo_pool_def pending_rx_def demo_net_def demo_nwp_def)

lemma frame_bytes: "le16 0xA440 = [0x40, 0xA4]" "le16 0xA441 = [0x41, 0xA4]" "le16 12 = [12, 0]" "le16 16 = [16, 0]" "le16 3 = [3, 0]"
  "le32 7 = [7, 0, 0, 0]" "le32 16 = [16, 0, 0, 0]" "le32 0 = [0, 0, 0, 0]"
  by (simp_all add: le16_def le32_def)

lemma nwp_out_demo: "nwp_out (demo_net ms) = []"
  by (simp add: demo_net_def demo_nwp_def)

theorem sl_FsRead_reads_witness:
  "\<exists>s' w'. sl_FsRead (drv_cmd (bus (processor no_handler) no_handler)) (\<lambda>_. 0) 7 16 [0, 0, 0, 0] 3
      (demo_free, demo_net (map answer_msg [read_answer [3, 0, 0, 0] [10, 20, 30]])) = Some (3, [10, 20, 30, 0], s', w') \<and>
    nwp_out w' = H2N_SYNC @ [0x40, 0xA4, 12, 0] @ [7, 0, 0, 0] @ [16, 0, 0, 0] @ [3, 0, 0, 0] @ H2N_CNYS"
proof -
  have ch: "chunks [10, 20, 30] = [[10, 20, 30]]" by (subst chunks.simps) simp
  have "bus_serves (demo_free, demo_net (map answer_msg [read_answer [3, 0, 0, 0] [10, 20, 30]]))
      (map (read_answer [3, 0, 0, 0]) (chunks [10, 20, 30]) @ [])"
    using fs_free_serves [of "[read_answer [3, 0, 0, 0] [10, 20, 30]]"] by (simp add: ch)
  from sl_FsRead_reads [OF this, of 3 "[0, 0, 0, 0]" no_handler "\<lambda>_. 0" 7 16] show ?thesis
    by (auto simp: ch fs_msg_def frame_bytes nwp_out_demo)
qed

theorem sl_FsWrite_writes_witness:
  "\<exists>s' w'. sl_FsWrite (drv_cmd (bus (processor no_handler) no_handler)) (\<lambda>_. 0) 7 0 ([10, 20, 30] @ [99]) 3
      (demo_free, demo_net (map answer_msg [write_answer [3, 0, 0, 0] [10, 20, 30]])) = Some (3, s', w') \<and>
    nwp_out w' = H2N_SYNC @ [0x41, 0xA4, 16, 0] @ [7, 0, 0, 0] @ [0, 0, 0, 0] @ [3, 0, 0, 0] @ [10, 20, 30, 99] @ H2N_CNYS"
proof -
  have ch: "chunks [10, 20, 30] = [[10, 20, 30]]" by (subst chunks.simps) simp
  have "bus_serves (demo_free, demo_net (map answer_msg [write_answer [3, 0, 0, 0] [10, 20, 30]]))
      (map (write_answer [3, 0, 0, 0]) (chunks [10, 20, 30]) @ [])"
    using fs_free_serves [of "[write_answer [3, 0, 0, 0] [10, 20, 30]]"] by (simp add: ch)
  from sl_FsWrite_writes [OF this, of 3 "[99]" no_handler "\<lambda>_. 0" 7 0] show ?thesis
    by (auto simp: ch fs_msg_def frame_bytes nwp_out_demo align4_def)
qed

theorem sl_FsRead_stops_at_error_witness:
  "\<exists>s' w'. sl_FsRead (drv_cmd (bus (processor no_handler) no_handler)) (\<lambda>_. 0) 7 16 [0, 0, 0, 0] 3
      (demo_free, demo_net (map answer_msg [error_answer [3, 0, 0, 0] 0xFFF6])) = Some (-10, [0, 0, 0, 0], s', w')"
proof -
  have "bus_serves (demo_free, demo_net (map answer_msg [error_answer [3, 0, 0, 0] 0xFFF6]))
      (map (read_answer [3, 0, 0, 0]) [] @ error_answer [3, 0, 0, 0] 0xFFF6 # [])"
    using fs_free_serves [of "[error_answer [3, 0, 0, 0] 0xFFF6]"] by simp
  from sl_FsRead_stops_at_error [OF this, of 3 "[0, 0, 0, 0]" no_handler "\<lambda>_. 0" 7 16] show ?thesis by auto
qed

end
