(* ===== verification/Sl_Spawn.thy ===== *)
theory Sl_Spawn
  imports CC_Prelude "HOL-Library.Monad_Syntax" "HOL-Library.Sublist"
begin

text \<open>
  Functions handed over to another context, \<open>simplelink/source/spawn.c\<close>: the queue of at most ten
  entries, the function \<open>_SlInternalSpawn\<close> that threads and interrupt handlers call, and the task that
  executes what is queued.  An entry is its index in the array; a NULL link is \<open>None\<close>, and so is the
  result of a function that dereferences NULL.  A function with its argument is a pair of type
  \<open>'f \<times> 'v\<close>.  What happens under the lock is one step; \<open>worker\<close> says where the task is between its
  steps, and \<open>to_signal\<close> counts the callers between their unlocking and their signal.
\<close>

section \<open>The queue\<close>

record ('f, 'v) spawn_entry =
  pEntry :: "'f option"
  pValue :: 'v
  pNext :: "nat option"

record ('f, 'v) spawn_cb =
  SpawnEntries :: "('f, 'v) spawn_entry list"
  pFree :: "nat option"
  pWaitForExe :: "nat option"
  pLastInWaitList :: "nat option"

definition SL_MAX_INTERNAL_SPAWN_ENTRIES :: nat where "SL_MAX_INTERNAL_SPAWN_ENTRIES = 10"

definition spawn_init :: "'v list \<Rightarrow> ('f, 'v) spawn_cb" where
  "spawn_init vs =
     \<lparr>SpawnEntries = map (\<lambda>i. \<lparr>pEntry = None, pValue = vs ! i,
        pNext = if i < SL_MAX_INTERNAL_SPAWN_ENTRIES - 1 then Some (i + 1) else None\<rparr>)
        [0..<SL_MAX_INTERNAL_SPAWN_ENTRIES],
      pFree = Some 0, pWaitForExe = None, pLastInWaitList = None\<rparr>"

definition entry_at :: "('f, 'v) spawn_cb \<Rightarrow> nat \<Rightarrow> ('f, 'v) spawn_entry option" where
  "entry_at s i = (if i < length (SpawnEntries s) then Some (SpawnEntries s ! i) else None)"

definition set_entry :: "nat \<Rightarrow> ('f, 'v) spawn_entry \<Rightarrow> ('f, 'v) spawn_cb \<Rightarrow> ('f, 'v) spawn_cb" where
  "set_entry i e s = s\<lparr>SpawnEntries := (SpawnEntries s)[i := e]\<rparr>"

text \<open>\<open>_SlInternalSpawn\<close> up to the unlocking, for a function that is not NULL.\<close>

definition spawn_enqueue :: "'f \<Rightarrow> 'v \<Rightarrow> ('f, 'v) spawn_cb \<Rightarrow> ('f, 'v) spawn_cb option" where
  "spawn_enqueue f v s = do {
     e \<leftarrow> pFree s;
     en \<leftarrow> entry_at s e;
     let s1 = set_entry e \<lparr>pEntry = Some f, pValue = v, pNext = None\<rparr> (s\<lparr>pFree := pNext en\<rparr>);
     case pWaitForExe s1 of
       None \<Rightarrow> Some (s1\<lparr>pWaitForExe := Some e, pLastInWaitList := Some e\<rparr>)
     | Some _ \<Rightarrow> do {
         l \<leftarrow> pLastInWaitList s1;
         le \<leftarrow> entry_at s1 l;
         Some ((set_entry l (le\<lparr>pNext := Some e\<rparr>) s1)\<lparr>pLastInWaitList := Some e\<rparr>)
       }
   }"

text \<open>The first and the second locked section of the task.  The flag is \<open>LastEntry\<close>.\<close>

definition spawn_take :: "bool \<Rightarrow> ('f, 'v) spawn_cb \<Rightarrow> (nat option \<times> bool \<times> ('f, 'v) spawn_cb) option" where
  "spawn_take LastEntry s =
     (case pWaitForExe s of
        None \<Rightarrow> Some (None, LastEntry, s)
      | Some e \<Rightarrow> do {
          en \<leftarrow> entry_at s e;
          let s1 = s\<lparr>pWaitForExe := pNext en\<rparr>;
          if pLastInWaitList s1 = Some e then Some (Some e, True, s1\<lparr>pLastInWaitList := None\<rparr>)
          else Some (Some e, LastEntry, s1)
        })"

definition spawn_free :: "nat \<Rightarrow> bool \<Rightarrow> ('f, 'v) spawn_cb \<Rightarrow> (bool \<times> ('f, 'v) spawn_cb) option" where
  "spawn_free e LastEntry s = do {
     en \<leftarrow> entry_at s e;
     let s1 = (set_entry e (en\<lparr>pNext := pFree s\<rparr>) s)\<lparr>pFree := Some e\<rparr>;
     Some (if pWaitForExe s1 \<noteq> None then False else LastEntry, s1)
   }"

section \<open>The task and its callers\<close>

datatype spawn_worker = Sleeping | Looping bool | Fetched nat bool | Called nat bool

record ('f, 'v) spawn_sys =
  scb :: "('f, 'v) spawn_cb"
  SyncObj :: bool
  to_signal :: nat
  worker :: spawn_worker
  accepted :: "('f \<times> 'v) list"
  executed :: "('f \<times> 'v) list"

text \<open>The result of \<open>_SlInternalSpawn\<close> is \<open>-1\<close> for a NULL function and 0 otherwise.\<close>

definition SlInternalSpawn :: "'f option \<Rightarrow> 'v \<Rightarrow> ('f, 'v) spawn_sys \<Rightarrow> (int \<times> ('f, 'v) spawn_sys) option" where
  "SlInternalSpawn f v s =
     (case f of
        None \<Rightarrow> Some (-1, s)
      | Some g \<Rightarrow> do {
          c \<leftarrow> spawn_enqueue g v (scb s);
          Some (0, s\<lparr>scb := c, to_signal := to_signal s + 1, accepted := accepted s @ [(g, v)]\<rparr>)
        })"

definition call_entry :: "nat \<Rightarrow> ('f, 'v) spawn_cb \<Rightarrow> ('f \<times> 'v) option" where
  "call_entry e s = do { en \<leftarrow> entry_at s e; f \<leftarrow> pEntry en; Some (f, pValue en) }"

inductive spawn_step :: "('f, 'v) spawn_sys \<Rightarrow> ('f, 'v) spawn_sys \<Rightarrow> bool" where
  spawn: "SlInternalSpawn (Some f) v s = Some (0, s') \<Longrightarrow> spawn_step s s'"
| signal: "to_signal s = Suc n \<Longrightarrow> spawn_step s (s\<lparr>to_signal := n, SyncObj := True\<rparr>)"
| wake: "worker s = Sleeping \<Longrightarrow> SyncObj s \<Longrightarrow> spawn_step s (s\<lparr>SyncObj := False, worker := Looping False\<rparr>)"
| fetch: "worker s = Looping l \<Longrightarrow> spawn_take l (scb s) = Some (Some e, l', c) \<Longrightarrow>
    spawn_step s (s\<lparr>scb := c, worker := Fetched e l'\<rparr>)"
| break: "worker s = Looping l \<Longrightarrow> spawn_take l (scb s) = Some (None, l', c) \<Longrightarrow>
    spawn_step s (s\<lparr>scb := c, worker := Sleeping\<rparr>)"
| call: "worker s = Fetched e l \<Longrightarrow> call_entry e (scb s) = Some x \<Longrightarrow>
    spawn_step s (s\<lparr>worker := Called e l, executed := executed s @ [x]\<rparr>)"
| free: "worker s = Called e l \<Longrightarrow> spawn_free e l (scb s) = Some (l', c) \<Longrightarrow>
    spawn_step s (s\<lparr>scb := c, worker := if l' then Sleeping else Looping l'\<rparr>)"

inductive_cases spawn_stepE: "spawn_step s s'"

definition spawn_start :: "'v list \<Rightarrow> ('f, 'v) spawn_sys" where
  "spawn_start vs = \<lparr>scb = spawn_init vs, SyncObj = False, to_signal = 0, worker = Sleeping, accepted = [], executed = []\<rparr>"

inductive spawn_reaches :: "'v list \<Rightarrow> ('f, 'v) spawn_sys \<Rightarrow> bool" for vs where
  start: "spawn_reaches vs (spawn_start vs)"
| step: "spawn_reaches vs s \<Longrightarrow> spawn_step s s' \<Longrightarrow> spawn_reaches vs s'"

section \<open>The queue as two lists\<close>

fun spawn_linked :: "('f, 'v) spawn_entry list \<Rightarrow> nat option \<Rightarrow> nat list \<Rightarrow> bool" where
  "spawn_linked es h [] = (h = None)"
| "spawn_linked es h (x # xs) = (h = Some x \<and> x < length es \<and> spawn_linked es (pNext (es ! x)) xs)"

lemma spawn_linked_None [simp]: "spawn_linked es None xs = (xs = [])" by (cases xs) auto

lemma spawn_linked_other: "x \<notin> set xs \<Longrightarrow> spawn_linked (es[x := e]) h xs = spawn_linked es h xs"
  by (induction xs arbitrary: h) auto

lemma spawn_linked_append_last:
  assumes "spawn_linked es h xs" "xs \<noteq> []" "distinct xs" "x \<notin> set xs" "x < length es" "pNext (es ! x) = None"
  shows "spawn_linked (es[last xs := (es ! last xs)\<lparr>pNext := Some x\<rparr>]) h (xs @ [x])"
  using assms
proof (induction xs arbitrary: h)
  case Nil
  then show ?case by simp
next
  case (Cons y ys)
  show ?case
  proof (cases "ys = []")
    case True
    then show ?thesis using Cons.prems by (auto simp: nth_list_update)
  next
    case False
    have "last ys \<noteq> y" using Cons.prems(3) False by (metis distinct.simps(2) last_in_set)
    then show ?thesis using Cons False by (auto simp: nth_list_update)
  qed
qed

text \<open>The free entries and the waiting ones; \<open>busy\<close> is the entry the task works on.\<close>

definition queue_ok :: "('f, 'v) spawn_cb \<Rightarrow> nat list \<Rightarrow> nat list \<Rightarrow> nat list \<Rightarrow> bool" where
  "queue_ok s fs ws busy \<longleftrightarrow>
     length (SpawnEntries s) = SL_MAX_INTERNAL_SPAWN_ENTRIES
     \<and> spawn_linked (SpawnEntries s) (pFree s) fs \<and> spawn_linked (SpawnEntries s) (pWaitForExe s) ws
     \<and> pLastInWaitList s = (if ws = [] then None else Some (last ws))
     \<and> distinct (fs @ ws @ busy) \<and> set (fs @ ws @ busy) = {..<SL_MAX_INTERNAL_SPAWN_ENTRIES}
     \<and> (\<forall>i \<in> set (ws @ busy). pEntry (SpawnEntries s ! i) \<noteq> None)"

definition item :: "('f, 'v) spawn_cb \<Rightarrow> nat \<Rightarrow> 'f \<times> 'v" where
  "item s i = (the (pEntry (SpawnEntries s ! i)), pValue (SpawnEntries s ! i))"

lemma spawn_linked_init:
  "n \<le> SL_MAX_INTERNAL_SPAWN_ENTRIES \<Longrightarrow> n > 0 \<Longrightarrow>
    spawn_linked (SpawnEntries (spawn_init vs)) (Some (SL_MAX_INTERNAL_SPAWN_ENTRIES - n))
      [SL_MAX_INTERNAL_SPAWN_ENTRIES - n..<SL_MAX_INTERNAL_SPAWN_ENTRIES]"
proof (induction n)
  case 0
  then show ?case by simp
next
  case (Suc n)
  let ?N = SL_MAX_INTERNAL_SPAWN_ENTRIES
  have u: "[?N - Suc n..<?N] = (?N - Suc n) # [?N - n..<?N]"
    using Suc.prems by (metis Suc_diff_Suc Suc_le_lessD diff_less upt_conv_Cons zero_less_Suc le_less_trans
        less_le_trans zero_less_iff_neq_zero not_less_eq_eq le0)
  show ?case
  proof (cases "n = 0")
    case True
    then show ?thesis using u Suc.prems by (simp add: spawn_init_def)
  next
    case False
    then show ?thesis
      using u Suc by (simp add: spawn_init_def Suc_diff_Suc)
  qed
qed

lemma queue_ok_init: "queue_ok (spawn_init vs) [0..<SL_MAX_INTERNAL_SPAWN_ENTRIES] [] []"
  using spawn_linked_init [of SL_MAX_INTERNAL_SPAWN_ENTRIES vs]
  by (auto simp: queue_ok_def spawn_init_def SL_MAX_INTERNAL_SPAWN_ENTRIES_def)

end
