(* ===== verification/Sl_Spawn_Props.thy ===== *)
theory Sl_Spawn_Props
  imports Sl_Spawn
begin

text \<open>
  The queue of \<open>spawn.c\<close> between its callers and its task: in every interleaving the functions are
  executed once each, in the order they were accepted, and the task does not sleep on a waiting
  function; an eleventh function that is not yet executed is no error of the call but an access
  through NULL.
\<close>

section \<open>The operations on the lists\<close>

lemma entry_at_ok: "queue_ok s fs ws busy \<Longrightarrow> e \<in> set (fs @ ws @ busy) \<Longrightarrow> entry_at s e = Some (SpawnEntries s ! e)"
  by (auto simp: queue_ok_def entry_at_def)

lemma set_entry_simps [simp]:
  "SpawnEntries (set_entry i e s) = (SpawnEntries s)[i := e]" "pFree (set_entry i e s) = pFree s"
  "pWaitForExe (set_entry i e s) = pWaitForExe s" "pLastInWaitList (set_entry i e s) = pLastInWaitList s"
  by (simp_all add: set_entry_def)

lemma enqueue_full: "queue_ok s [] ws busy \<Longrightarrow> spawn_enqueue f v s = None"
  by (simp add: queue_ok_def spawn_enqueue_def)

lemma enqueue_ok:
  assumes q: "queue_ok s (e # fs) ws busy"
  obtains c where "spawn_enqueue f v s = Some c" "queue_ok c fs (ws @ [e]) busy"
    "item c e = (f, v)" "\<And>i. i \<in> set (ws @ busy) \<Longrightarrow> item c i = item s i"
proof -
  let ?es = "SpawnEntries s"
  let ?n = "\<lparr>pEntry = Some f, pValue = v, pNext = None\<rparr>"
  let ?es1 = "?es[e := ?n]"
  have len: "length ?es = SL_MAX_INTERNAL_SPAWN_ENTRIES" and free: "pFree s = Some e" "e < length ?es"
    "spawn_linked ?es (pNext (?es ! e)) fs"
    and wl: "spawn_linked ?es (pWaitForExe s) ws" and last: "pLastInWaitList s = (if ws = [] then None else Some (last ws))"
    and d: "distinct (e # fs @ ws @ busy)" and st: "set (e # fs @ ws @ busy) = {..<SL_MAX_INTERNAL_SPAWN_ENTRIES}"
    and pe: "\<forall>i \<in> set (ws @ busy). pEntry (?es ! i) \<noteq> None"
    using q by (auto simp: queue_ok_def)
  have f1: "spawn_linked ?es1 (pNext (?es ! e)) fs" using free(3) d by (simp add: spawn_linked_other)
  have w1: "spawn_linked ?es1 (pWaitForExe s) ws" using wl d by (simp add: spawn_linked_other)
  have st': "set (fs @ (ws @ [e]) @ busy) = {..<SL_MAX_INTERNAL_SPAWN_ENTRIES}" using st by auto
  show ?thesis
  proof (cases ws)
    case Nil
    let ?c = "(set_entry e ?n (s\<lparr>pFree := pNext (?es ! e)\<rparr>))\<lparr>pWaitForExe := Some e, pLastInWaitList := Some e\<rparr>"
    have w: "pWaitForExe s = None" using wl Nil by simp
    have "spawn_enqueue f v s = Some ?c"
      using free w by (simp add: spawn_enqueue_def entry_at_def)
    moreover have "queue_ok ?c fs (ws @ [e]) busy"
      unfolding queue_ok_def using len f1 free(2) d st' pe Nil by (auto simp: nth_list_update)
    moreover have "item ?c e = (f, v)" using free(2) by (simp add: item_def)
    moreover have "item ?c i = item s i" if "i \<in> set (ws @ busy)" for i
    proof -
      have "i \<noteq> e" using that d by auto
      then show ?thesis by (simp add: item_def)
    qed
    ultimately show ?thesis by (rule that)
  next
    case (Cons a as)
    have ll: "last ws \<in> set ws" using Cons by simp
    then have le: "last ws < length ?es" "last ws \<noteq> e" using st d len by auto
    let ?es2 = "?es1[last ws := (?es1 ! last ws)\<lparr>pNext := Some e\<rparr>]"
    let ?c = "(set_entry (last ws) ((?es1 ! last ws)\<lparr>pNext := Some e\<rparr>)
                 (set_entry e ?n (s\<lparr>pFree := pNext (?es ! e)\<rparr>)))\<lparr>pLastInWaitList := Some e\<rparr>"
    have w: "pWaitForExe s = Some a" using wl Cons by simp
    have "spawn_enqueue f v s = Some ?c"
      using free w last le Cons by (simp add: spawn_enqueue_def entry_at_def)
    moreover have "queue_ok ?c fs (ws @ [e]) busy"
    proof -
      have "spawn_linked ?es2 (pWaitForExe s) (ws @ [e])"
        by (rule spawn_linked_append_last [OF w1]) (use d free(2) Cons in auto)
      moreover have "spawn_linked ?es2 (pNext (?es ! e)) fs" using f1 ll d by (subst spawn_linked_other) auto
      moreover have "pEntry (?es2 ! i) \<noteq> None" if "i \<in> set ((ws @ [e]) @ busy)" for i
        using that pe free(2) le by (auto simp: nth_list_update)
      ultimately show ?thesis
        unfolding queue_ok_def using len d st' by auto
    qed
    moreover have "item ?c e = (f, v)" using free(2) le by (simp add: item_def)
    moreover have "item ?c i = item s i" if "i \<in> set (ws @ busy)" for i
    proof -
      have "i \<noteq> e" using that d by auto
      then show ?thesis using le by (cases "i = last ws") (simp_all add: item_def)
    qed
    ultimately show ?thesis by (rule that)
  qed
qed

lemma take_empty: "queue_ok s fs [] busy \<Longrightarrow> spawn_take l s = Some (None, l, s)"
  by (simp add: queue_ok_def spawn_take_def)

lemma take_first:
  assumes q: "queue_ok s fs (e # ws) []"
  obtains c where "spawn_take l s = Some (Some e, ws = [] \<or> l, c)" "queue_ok c fs ws [e]" "\<And>i. item c i = item s i"
proof -
  let ?c = "s\<lparr>pWaitForExe := pNext (SpawnEntries s ! e)\<rparr>"
  have "pWaitForExe s = Some e" "e < length (SpawnEntries s)" "pLastInWaitList s = Some (last (e # ws))"
    "distinct (e # ws)"
    using q by (auto simp: queue_ok_def)
  moreover from this have "ws \<noteq> [] \<Longrightarrow> last ws \<noteq> e" by (metis distinct.simps(2) last_in_set)
  ultimately have "spawn_take l s = Some (Some e, ws = [] \<or> l, if ws = [] then ?c\<lparr>pLastInWaitList := None\<rparr> else ?c)"
    by (cases "ws = []") (simp_all add: spawn_take_def entry_at_def Let_def)
  moreover have "queue_ok (if ws = [] then ?c\<lparr>pLastInWaitList := None\<rparr> else ?c) fs ws [e]"
    using q by (auto simp: queue_ok_def)
  ultimately show ?thesis by (rule that) (simp add: item_def)
qed

lemma free_done:
  assumes q: "queue_ok s fs ws [e]"
  obtains c where "spawn_free e l s = Some (ws = [] \<and> l, c)" "queue_ok c (e # fs) ws []"
    "\<And>i. i \<in> set ws \<Longrightarrow> item c i = item s i"
proof -
  let ?es = "SpawnEntries s"
  let ?c = "(set_entry e ((?es ! e)\<lparr>pNext := pFree s\<rparr>) s)\<lparr>pFree := Some e\<rparr>"
  have d: "e \<notin> set ws" "e \<notin> set fs" "e < length ?es" "spawn_linked ?es (pWaitForExe s) ws" "spawn_linked ?es (pFree s) fs"
    using q by (auto simp: queue_ok_def)
  have "pWaitForExe s = None \<longleftrightarrow> ws = []" using d(4) by (cases ws) auto
  then have "spawn_free e l s = Some (ws = [] \<and> l, ?c)" using d(3) by (cases ws) (auto simp: spawn_free_def entry_at_def)
  moreover have "queue_ok ?c (e # fs) ws []"
    using q d by (auto simp: queue_ok_def spawn_linked_other nth_list_update)
  moreover have "item ?c i = item s i" if "i \<in> set ws" for i
  proof -
    have "i \<noteq> e" using that d(1) by auto
    then show ?thesis by (simp add: item_def)
  qed
  ultimately show ?thesis by (rule that)
qed

section \<open>The invariant\<close>

fun busy_of :: "spawn_worker \<Rightarrow> nat list" where
  "busy_of (Fetched e l) = [e]"
| "busy_of (Called e l) = [e]"
| "busy_of w = []"

fun uncalled :: "spawn_worker \<Rightarrow> nat list" where
  "uncalled (Fetched e l) = [e]"
| "uncalled w = []"

text \<open>What was accepted is what was executed, then what waits; the task is not asleep on a waiting
  function unless a signal is there or on its way.\<close>

definition spawn_ok :: "('f, 'v) spawn_sys \<Rightarrow> nat list \<Rightarrow> nat list \<Rightarrow> bool" where
  "spawn_ok s fs ws \<longleftrightarrow>
     queue_ok (scb s) fs ws (busy_of (worker s))
     \<and> accepted s = executed s @ map (item (scb s)) (uncalled (worker s) @ ws)
     \<and> (worker s = Sleeping \<and> ws \<noteq> [] \<longrightarrow> SyncObj s \<or> to_signal s > 0)"

lemma uncalled_busy: "set (uncalled w) \<subseteq> set (busy_of w)" by (cases w) auto

lemma spawn_step_ok:
  assumes ok: "spawn_ok s fs ws" and st: "spawn_step s s'"
  shows "\<exists>fs' ws'. spawn_ok s' fs' ws'"
proof -
  have q: "queue_ok (scb s) fs ws (busy_of (worker s))"
    and acc: "accepted s = executed s @ map (item (scb s)) (uncalled (worker s) @ ws)"
    and wk: "worker s = Sleeping \<and> ws \<noteq> [] \<longrightarrow> SyncObj s \<or> to_signal s > 0"
    using ok by (auto simp: spawn_ok_def)
  show ?thesis
    using st
  proof cases
    case (spawn f v)
    show ?thesis
    proof (cases fs)
      case Nil
      then show ?thesis using spawn enqueue_full q by (fastforce simp: SlInternalSpawn_def)
    next
      case (Cons e fs')
      obtain c where c: "spawn_enqueue f v (scb s) = Some c" "queue_ok c fs' (ws @ [e]) (busy_of (worker s))"
        "item c e = (f, v)" "\<And>i. i \<in> set (ws @ busy_of (worker s)) \<Longrightarrow> item c i = item (scb s) i"
        by (rule enqueue_ok [OF q [unfolded Cons], of f v]) (rule that; assumption)
      have "map (item c) (uncalled (worker s) @ ws) = map (item (scb s)) (uncalled (worker s) @ ws)"
        using c(4) uncalled_busy [of "worker s"] by auto
      then have "spawn_ok s' fs' (ws @ [e])"
        using spawn c(1,2,3) acc by (auto simp: spawn_ok_def SlInternalSpawn_def)
      then show ?thesis by blast
    qed
  next
    case (signal n)
    then have "spawn_ok s' fs ws" using ok by (simp add: spawn_ok_def)
    then show ?thesis by blast
  next
    case wake
    then have "spawn_ok s' fs ws" using ok by (simp add: spawn_ok_def)
    then show ?thesis by blast
  next
    case (fetch l e l' c)
    have q': "queue_ok (scb s) fs ws []" using q fetch(2) by simp
    obtain ws' where ws: "ws = e # ws'" and t: "queue_ok c fs ws' [e]" "\<And>i. item c i = item (scb s) i"
    proof (cases ws)
      case Nil
      then show ?thesis using fetch(3) take_empty [of "scb s" fs "[]" l] q' by simp
    next
      case (Cons a as)
      obtain c' where "spawn_take l (scb s) = Some (Some a, as = [] \<or> l, c')" "queue_ok c' fs as [a]"
        "\<And>i. item c' i = item (scb s) i"
        by (rule take_first [OF q' [unfolded Cons], of l]) (rule that; assumption)
      then show ?thesis using that [of as] fetch(3) Cons by simp
    qed
    then have "spawn_ok s' fs ws'" using fetch acc by (simp add: spawn_ok_def)
    then show ?thesis by blast
  next
    case (break l l' c)
    have q': "queue_ok (scb s) fs ws []" using q break(2) by simp
    have "ws = []"
    proof (rule ccontr)
      assume "ws \<noteq> []"
      then obtain a as where a: "ws = a # as" by (cases ws) auto
      show False by (rule take_first [OF q' [unfolded a], of l]) (use break(3) in simp)
    qed
    moreover from this have "c = scb s" using break(3) q' take_empty [of "scb s" fs "[]" l] by simp
    ultimately have "spawn_ok s' fs ws" using break q acc by (simp add: spawn_ok_def)
    then show ?thesis by blast
  next
    case (call e l x)
    have "x = item (scb s) e" using call(3) by (auto simp: call_entry_def item_def entry_at_def split: bind_splits if_splits)
    then have "spawn_ok s' fs ws" using call q acc by (simp add: spawn_ok_def)
    then show ?thesis by blast
  next
    case (free e l l' c)
    have q': "queue_ok (scb s) fs ws [e]" using q free(2) by simp
    obtain c' where c': "spawn_free e l (scb s) = Some (ws = [] \<and> l, c')" "queue_ok c' (e # fs) ws []"
      "\<And>i. i \<in> set ws \<Longrightarrow> item c' i = item (scb s) i"
      by (rule free_done [OF q', of l]) (rule that; assumption)
    have "map (item c') ws = map (item (scb s)) ws" using c'(3) by simp
    then have "spawn_ok s' (e # fs) ws" using free c' acc by (auto simp: spawn_ok_def)
    then show ?thesis by blast
  qed
qed

lemma spawn_reaches_ok: "spawn_reaches vs s \<Longrightarrow> \<exists>fs ws. spawn_ok s fs ws"
proof (induction rule: spawn_reaches.induct)
  case start
  have "spawn_ok (spawn_start vs) [0..<SL_MAX_INTERNAL_SPAWN_ENTRIES] []"
    using queue_ok_init by (simp add: spawn_ok_def spawn_start_def)
  then show ?case by blast
next
  case (step s s')
  then show ?case using spawn_step_ok by blast
qed

section \<open>What the callers can rely on\<close>

text \<open>C8. In every interleaving of callers, interrupts and the task, the functions handed over are executed
  in the order in which they were accepted, each once; and when the task sleeps although one is not
  executed yet, its semaphore is signalled or a caller is about to signal it.\<close>

theorem spawned_functions_executed_in_order:
  assumes "spawn_reaches vs s"
  shows "prefix (executed s) (accepted s)
    \<and> (worker s = Sleeping \<and> executed s \<noteq> accepted s \<longrightarrow> SyncObj s \<or> to_signal s > 0)"
proof -
  obtain fs ws where "spawn_ok s fs ws" using spawn_reaches_ok [OF assms] by blast
  then show ?thesis by (auto simp: spawn_ok_def)
qed

text \<open>The number of functions in the queue.\<close>

lemma queue_len:
  assumes "queue_ok s fs ws busy"
  shows "length fs + length ws + length busy = SL_MAX_INTERNAL_SPAWN_ENTRIES"
proof -
  have "length (fs @ ws @ busy) = card (set (fs @ ws @ busy))"
    using assms by (metis distinct_card queue_ok_def)
  then show ?thesis using assms by (simp add: queue_ok_def)
qed

text \<open>The task never gets stuck, and a call with a function succeeds as long as fewer than ten functions
  were accepted and not yet executed and the task has freed the entry it worked on; with ten entries
  in use the call takes a NULL entry from the list of free ones and writes through it.\<close>

theorem spawn_accepts_ten:
  assumes "spawn_reaches vs s"
  shows "SlInternalSpawn (Some f) v s = None
    \<longleftrightarrow> length (accepted s) - length (executed s) + (case worker s of Called e l \<Rightarrow> 1 | _ \<Rightarrow> 0) = SL_MAX_INTERNAL_SPAWN_ENTRIES"
proof -
  obtain fs ws where ok: "spawn_ok s fs ws" using spawn_reaches_ok [OF assms] by blast
  then have q: "queue_ok (scb s) fs ws (busy_of (worker s))" by (simp add: spawn_ok_def)
  have "length (accepted s) - length (executed s) = length (uncalled (worker s)) + length ws"
    using ok by (simp add: spawn_ok_def)
  then have "length (accepted s) - length (executed s) + (case worker s of Called e l \<Rightarrow> 1 | _ \<Rightarrow> 0)
      = SL_MAX_INTERNAL_SPAWN_ENTRIES \<longleftrightarrow> fs = []"
    using queue_len [OF q] by (cases "worker s") (auto simp flip: length_0_conv)
  moreover have "SlInternalSpawn (Some f) v s = None \<longleftrightarrow> fs = []"
  proof (cases fs)
    case Nil
    then show ?thesis using enqueue_full [of "scb s" ws "busy_of (worker s)" f v] q by (simp add: SlInternalSpawn_def)
  next
    case (Cons e fs')
    show ?thesis
      by (rule enqueue_ok [OF q [unfolded Cons], of f v]) (use Cons in \<open>simp add: SlInternalSpawn_def\<close>)
  qed
  ultimately show ?thesis by simp
qed

text \<open>A step of the task or of a caller on its way to the signal, and how much there is to do without
  new functions.\<close>

definition quiet_step :: "('f, 'v) spawn_sys \<Rightarrow> ('f, 'v) spawn_sys \<Rightarrow> bool" where
  "quiet_step s s' \<longleftrightarrow> spawn_step s s' \<and> accepted s' = accepted s"

fun worker_todo :: "spawn_worker \<Rightarrow> nat" where
  "worker_todo Sleeping = 0"
| "worker_todo (Looping l) = 2"
| "worker_todo (Fetched e l) = 1"
| "worker_todo (Called e l) = 3"

definition todo :: "('f, 'v) spawn_sys \<Rightarrow> nat" where
  "todo s = 4 * to_signal s + (if SyncObj s then 3 else 0) + worker_todo (worker s)
     + 3 * (length (accepted s) - length (executed s))"

lemma quiet_step_todo:
  assumes ok: "spawn_ok s fs ws" and st: "quiet_step s s'"
  shows "todo s' < todo s"
proof -
  have acc: "length (accepted s) = length (executed s) + (length (uncalled (worker s)) + length ws)"
    using ok by (simp add: spawn_ok_def)
  have "spawn_step s s'" "accepted s' = accepted s" using st by (auto simp: quiet_step_def)
  then show ?thesis
  proof cases
    case (spawn f v)
    then show ?thesis using \<open>accepted s' = accepted s\<close> by (auto simp: SlInternalSpawn_def split: bind_splits)
  next
    case (call e l x)
    then show ?thesis using acc by (simp add: todo_def)
  qed (auto simp: todo_def)
qed

lemma stuck_done:
  assumes ok: "spawn_ok s fs ws" and stuck: "\<nexists>s'. quiet_step s s'"
  shows "executed s = accepted s"
proof -
  have q: "queue_ok (scb s) fs ws (busy_of (worker s))" using ok by (simp add: spawn_ok_def)
  have no: "\<not> spawn_step s (s\<lparr>scb := c, SyncObj := y, to_signal := n, worker := w, executed := x\<rparr>)" for c y n w x
    using stuck by (auto simp: quiet_step_def)
  have "to_signal s = 0"
  proof (rule ccontr)
    assume "to_signal s \<noteq> 0"
    then obtain n where "to_signal s = Suc n" by (cases "to_signal s") auto
    then show False using spawn_step.signal [of s n] stuck by (auto simp: quiet_step_def)
  qed
  moreover have "worker s = Sleeping"
  proof (cases "worker s")
    case Sleeping
    then show ?thesis .
  next
    case (Looping l)
    then have q': "queue_ok (scb s) fs ws []" using q by simp
    show ?thesis
    proof (cases ws)
      case Nil
      then have "spawn_take l (scb s) = Some (None, l, scb s)" using q' take_empty by simp
      from spawn_step.break [OF Looping this] show ?thesis using stuck by (auto simp: quiet_step_def)
    next
      case (Cons a as)
      obtain c where "spawn_take l (scb s) = Some (Some a, as = [] \<or> l, c)"
        by (rule take_first [OF q' [unfolded Cons], of l]) (rule that; assumption)
      from spawn_step.fetch [OF Looping this] show ?thesis using stuck by (auto simp: quiet_step_def)
    qed
  next
    case (Fetched e l)
    then have "e < length (SpawnEntries (scb s))" "pEntry (SpawnEntries (scb s) ! e) \<noteq> None"
      using q by (auto simp: queue_ok_def)
    then obtain x where "call_entry e (scb s) = Some x" by (auto simp: call_entry_def entry_at_def)
    from spawn_step.call [OF Fetched this] show ?thesis using stuck by (auto simp: quiet_step_def)
  next
    case (Called e l)
    then have q': "queue_ok (scb s) fs ws [e]" using q by simp
    obtain c where "spawn_free e l (scb s) = Some (ws = [] \<and> l, c)"
      by (rule free_done [OF q', of l]) (rule that; assumption)
    from spawn_step.free [OF Called this] show ?thesis using stuck by (auto simp: quiet_step_def)
  qed
  moreover from this have "\<not> SyncObj s" using spawn_step.wake [of s] stuck by (auto simp: quiet_step_def)
  ultimately show ?thesis using ok by (auto simp: spawn_ok_def)
qed

text \<open>C5. What was handed over gets executed: as long as nothing new is handed over, only finitely many
  steps can follow, whatever their order, and when no further step is possible everything accepted
  has been executed.\<close>

theorem spawned_functions_get_executed:
  assumes "spawn_reaches vs s"
  shows "(quiet_step s s' \<longrightarrow> todo s' < todo s) \<and> ((\<nexists>t. quiet_step s t) \<longrightarrow> executed s = accepted s)"
  using spawn_reaches_ok [OF assms] quiet_step_todo stuck_done by blast

section \<open>Witnesses\<close>

text \<open>One caller has handed over the function 7 with the argument 1 and has not signalled yet.\<close>

definition spawn_demo :: "(nat, nat) spawn_sys" where
  "spawn_demo = (case SlInternalSpawn (Some 7) 1 (spawn_start (replicate 10 0)) of Some (r, s) \<Rightarrow> s)"

lemma spawn_demo_eq: "SlInternalSpawn (Some 7) 1 (spawn_start (replicate 10 0)) = Some (0, spawn_demo)"
proof -
  have "case SlInternalSpawn (Some (7 :: nat)) (1 :: nat) (spawn_start (replicate 10 0)) of None \<Rightarrow> False | Some (r, s) \<Rightarrow> r = 0"
    by code_simp
  then show ?thesis unfolding spawn_demo_def by (auto simp del: One_nat_def split: option.splits)
qed

lemma spawn_demo_reached: "spawn_reaches (replicate 10 0) spawn_demo"
  by (rule spawn_reaches.step [OF spawn_reaches.start spawn_step.spawn [OF spawn_demo_eq]])

lemma spawn_demo_simps: "accepted spawn_demo = [(7, 1)]" "executed spawn_demo = []" "worker spawn_demo = Sleeping"
  "to_signal spawn_demo = 1"
proof -
  let ?s = "spawn_start (replicate 10 0) :: (nat, nat) spawn_sys"
  obtain c where "?s\<lparr>scb := c, to_signal := to_signal ?s + 1, accepted := accepted ?s @ [(7, 1)]\<rparr> = spawn_demo"
    using spawn_demo_eq unfolding SlInternalSpawn_def by (cases "spawn_enqueue 7 1 (scb ?s)") auto
  note eq = this [symmetric]
  show "accepted spawn_demo = [(7, 1)]" "executed spawn_demo = []" "worker spawn_demo = Sleeping"
    "to_signal spawn_demo = 1" unfolding eq by (simp_all add: spawn_start_def)
qed

theorem spawned_functions_executed_in_order_witness:
  "prefix (executed spawn_demo) [(7, 1)] \<and> (SyncObj spawn_demo \<or> to_signal spawn_demo > 0)"
  using spawned_functions_executed_in_order [OF spawn_demo_reached] by (simp add: spawn_demo_simps)

theorem spawn_accepts_ten_witness: "SlInternalSpawn (Some 8) 2 spawn_demo \<noteq> None"
  using spawn_accepts_ten [OF spawn_demo_reached, of 8 2]
  by (simp add: spawn_demo_simps SL_MAX_INTERNAL_SPAWN_ENTRIES_def)

theorem spawned_functions_get_executed_witness: "todo (spawn_demo\<lparr>to_signal := 0, SyncObj := True\<rparr>) < todo spawn_demo"
proof -
  have "quiet_step spawn_demo (spawn_demo\<lparr>to_signal := 0, SyncObj := True\<rparr>)"
    using spawn_step.signal [of spawn_demo 0] by (simp add: quiet_step_def spawn_demo_simps)
  then show ?thesis using spawned_functions_get_executed [OF spawn_demo_reached] by blast
qed

end
