(* ===== verification/Sl_NonOs.thy ===== *)
theory Sl_NonOs
  imports CC_Prelude "HOL-Library.Monad_Syntax"
begin

text \<open>
  The services of an operating system for builds without one, \<open>simplelink/source/nonos.c\<close>: locks and
  semaphores are bytes that are polled, and while one is waited for the functions handed over by the
  interrupt handler are run.  \<open>run\<close> is the call of such a function, which may do anything to the state;
  it is called with the argument 0 whatever was handed over.  A wait that does not end is \<open>None\<close>.
\<close>

section \<open>State\<close>

record ('f, 'v) nonos =
  NonOsEntries :: "('f option \<times> 'v option) list"
  sem_objs :: "nat \<Rightarrow> u8"
  RxIrqCnt :: u8
  RxDoneCnt :: u8

definition NONOS_MAX_SPAWN_ENTRIES :: nat where "NONOS_MAX_SPAWN_ENTRIES = 5"
definition NONOS_WAIT_FOREVER :: u8 where "NONOS_WAIT_FOREVER = 0xFF"
definition NONOS_NO_WAIT :: u8 where "NONOS_NO_WAIT = 1"
definition NONOS_RET_OK :: int where "NONOS_RET_OK = 0"
definition NONOS_RET_ERR :: int where "NONOS_RET_ERR = 0xFF"

text \<open>The functions return a signed byte (\<open>_SlNonOsRetVal_t\<close>, nonos.h), so that the error 0xFF reaches the
  caller as -1.\<close>

definition nonos_ret :: "int \<Rightarrow> int" where
  "nonos_ret r = sint (word_of_int r :: 8 word)"

lemma nonos_ret_values [simp]:
  "nonos_ret NONOS_RET_OK = NONOS_RET_OK" "nonos_ret NONOS_RET_ERR = - 1"
  by (simp_all add: nonos_ret_def NONOS_RET_OK_def NONOS_RET_ERR_def)

definition SYNC_OBJ_CLEAR_VALUE :: u8 where "SYNC_OBJ_CLEAR_VALUE = 0x11"
definition SYNC_OBJ_SIGNAL_VALUE :: u8 where "SYNC_OBJ_SIGNAL_VALUE = 0x22"
definition LOCK_OBJ_UNLOCK_VALUE :: u8 where "LOCK_OBJ_UNLOCK_VALUE = 0x33"
definition LOCK_OBJ_LOCK_VALUE :: u8 where "LOCK_OBJ_LOCK_VALUE = 0x44"

definition SlNonOsSemSet :: "nat \<Rightarrow> u8 \<Rightarrow> ('f, 'v) nonos \<Rightarrow> int \<times> ('f, 'v) nonos" where
  "SlNonOsSemSet obj val s = (nonos_ret NONOS_RET_OK, s\<lparr>sem_objs := (sem_objs s)(obj := val)\<rparr>)"

section \<open>Functions handed over\<close>

definition SlNonOsSpawn :: "'f \<Rightarrow> 'v \<Rightarrow> ('f, 'v) nonos \<Rightarrow> int \<times> ('f, 'v) nonos" where
  "SlNonOsSpawn f v s =
     (case find (\<lambda>i. fst (NonOsEntries s ! i) = None) [0..<NONOS_MAX_SPAWN_ENTRIES] of
        None \<Rightarrow> (nonos_ret NONOS_RET_OK, s)
      | Some i \<Rightarrow> (nonos_ret NONOS_RET_OK, s\<lparr>NonOsEntries := (NonOsEntries s)[i := (Some f, Some v)]\<rparr>))"

fun main_loop ::
  "('f \<Rightarrow> ('f, 'v) nonos \<Rightarrow> ('f, 'v) nonos option) \<Rightarrow> nat list \<Rightarrow> ('f, 'v) nonos \<Rightarrow> ('f, 'v) nonos option" where
  "main_loop run [] s = Some s"
| "main_loop run (i # is) s =
     (case fst (NonOsEntries s ! i) of
        None \<Rightarrow> main_loop run is s
      | Some f \<Rightarrow> do {
          s1 \<leftarrow> (if RxIrqCnt s \<noteq> RxDoneCnt s then run f s else Some s);
          main_loop run is (s1\<lparr>NonOsEntries := (NonOsEntries s1)[i := (None, None)]\<rparr>)
        })"

definition SlNonOsMainLoopTask ::
  "('f \<Rightarrow> ('f, 'v) nonos \<Rightarrow> ('f, 'v) nonos option) \<Rightarrow> ('f, 'v) nonos \<Rightarrow> ('f, 'v) nonos option" where
  "SlNonOsMainLoopTask run s = main_loop run [0..<NONOS_MAX_SPAWN_ENTRIES] s"

section \<open>Waiting\<close>

text \<open>The value is what is left of the time-out.\<close>

partial_function (option) sem_get_loop ::
  "('f \<Rightarrow> ('f, 'v) nonos \<Rightarrow> ('f, 'v) nonos option) \<Rightarrow> nat \<Rightarrow> u8 \<Rightarrow> u8 \<Rightarrow> u8 \<Rightarrow> ('f, 'v) nonos
   \<Rightarrow> (u8 \<times> ('f, 'v) nonos) option" where
  "sem_get_loop run obj wait_val set_val timeout s =
     (if timeout > 0 then
        if sem_objs s obj = wait_val then Some (timeout, s\<lparr>sem_objs := (sem_objs s)(obj := set_val)\<rparr>)
        else do {
          let t = (if timeout \<noteq> NONOS_WAIT_FOREVER then timeout - 1 else timeout);
          s1 \<leftarrow> SlNonOsMainLoopTask run s;
          sem_get_loop run obj wait_val set_val t s1
        }
      else Some (timeout, s))"

definition SlNonOsSemGet ::
  "('f \<Rightarrow> ('f, 'v) nonos \<Rightarrow> ('f, 'v) nonos option) \<Rightarrow> nat \<Rightarrow> u8 \<Rightarrow> u8 \<Rightarrow> u8 \<Rightarrow> ('f, 'v) nonos
   \<Rightarrow> (int \<times> ('f, 'v) nonos) option" where
  "SlNonOsSemGet run obj wait_val set_val timeout s = do {
     (t, s1) \<leftarrow> sem_get_loop run obj wait_val set_val timeout s;
     Some (if t = 0 then nonos_ret NONOS_RET_ERR else nonos_ret NONOS_RET_OK, s1)
   }"

definition sl_SyncObjWait where
  "sl_SyncObjWait run obj timeout s = SlNonOsSemGet run obj SYNC_OBJ_SIGNAL_VALUE SYNC_OBJ_CLEAR_VALUE timeout s"

definition sl_LockObjLock where
  "sl_LockObjLock run obj timeout s = SlNonOsSemGet run obj LOCK_OBJ_UNLOCK_VALUE LOCK_OBJ_LOCK_VALUE timeout s"

definition sl_LockObjUnlock where
  "sl_LockObjUnlock obj s = SlNonOsSemSet obj LOCK_OBJ_UNLOCK_VALUE s"

section \<open>Locks\<close>

text \<open>A lock that is taken is given back free, and a free one is taken at once, however short the
  time-out is, without running anything.\<close>

lemma lock_free:
  "sem_objs s obj = LOCK_OBJ_UNLOCK_VALUE \<Longrightarrow> timeout > 0 \<Longrightarrow>
    sl_LockObjLock run obj timeout s = Some (NONOS_RET_OK, s\<lparr>sem_objs := (sem_objs s)(obj := LOCK_OBJ_LOCK_VALUE)\<rparr>)"
  by (auto simp: sl_LockObjLock_def SlNonOsSemGet_def sem_get_loop.simps [of run])

text \<open>The main loop without a message to read empties the entries without running them.\<close>

lemma main_loop_dropped:
  "RxIrqCnt s = RxDoneCnt s \<Longrightarrow> set is \<subseteq> {..<length (NonOsEntries s)} \<Longrightarrow>
    \<exists>es. main_loop run is s = Some (s\<lparr>NonOsEntries := es\<rparr>) \<and> length es = length (NonOsEntries s)
      \<and> (\<forall>i < length es. fst (es ! i) = (if i \<in> set is then None else fst (NonOsEntries s ! i)))"
proof (induction "is" arbitrary: s)
  case Nil
  show ?case by (intro exI [of _ "NonOsEntries s"]) simp
next
  case (Cons k ks)
  let ?s = "if fst (NonOsEntries s ! k) = None then s else s\<lparr>NonOsEntries := (NonOsEntries s)[k := (None, None)]\<rparr>"
  have "RxIrqCnt ?s = RxDoneCnt ?s" "set ks \<subseteq> {..<length (NonOsEntries ?s)}" using Cons.prems by simp_all
  from Cons.IH [OF this] obtain es where es: "main_loop run ks ?s = Some (?s\<lparr>NonOsEntries := es\<rparr>)"
    "length es = length (NonOsEntries ?s)"
    "\<forall>i < length es. fst (es ! i) = (if i \<in> set ks then None else fst (NonOsEntries ?s ! i))" by blast
  have "main_loop run (k # ks) s = Some (s\<lparr>NonOsEntries := es\<rparr>)"
    using es(1) Cons.prems(1) by (cases "fst (NonOsEntries s ! k)") simp_all
  moreover have "fst (es ! i) = (if i \<in> set (k # ks) then None else fst (NonOsEntries s ! i))" if "i < length es" for i
    using es(2,3) that Cons.prems(2) by (cases "fst (NonOsEntries s ! k) = None"; cases "i = k") auto
  ultimately show ?case using es(2) by (auto split: if_splits)
qed

text \<open>A wait without a time limit for something no handed over function will bring never ends: without
  a message to read nothing is run at all.\<close>

lemma main_task_idle:
  assumes "RxIrqCnt s = RxDoneCnt s" "length (NonOsEntries s) = NONOS_MAX_SPAWN_ENTRIES"
  obtains es where "SlNonOsMainLoopTask run s = Some (s\<lparr>NonOsEntries := es\<rparr>)" "length es = NONOS_MAX_SPAWN_ENTRIES"
    "\<And>e. e \<in> set es \<Longrightarrow> fst e = None"
proof -
  have "set [0..<NONOS_MAX_SPAWN_ENTRIES] \<subseteq> {..<length (NonOsEntries s)}" using assms(2) by auto
  from main_loop_dropped [OF assms(1) this, of run] obtain es where
    es: "main_loop run [0..<NONOS_MAX_SPAWN_ENTRIES] s = Some (s\<lparr>NonOsEntries := es\<rparr>)"
    "length es = length (NonOsEntries s)"
    "\<forall>i < length es. fst (es ! i) = (if i \<in> set [0..<NONOS_MAX_SPAWN_ENTRIES] then None else fst (NonOsEntries s ! i))"
    by blast
  show ?thesis
  proof (rule that)
    show "SlNonOsMainLoopTask run s = Some (s\<lparr>NonOsEntries := es\<rparr>)" using es(1) by (simp add: SlNonOsMainLoopTask_def)
    show "length es = NONOS_MAX_SPAWN_ENTRIES" using es(2) assms(2) by simp
    show "fst e = None" if "e \<in> set es" for e
    proof -
      obtain i where "i < length es" "e = es ! i" using \<open>e \<in> set es\<close> by (auto simp: in_set_conv_nth)
      then show ?thesis using es(2,3) assms(2) by simp
    qed
  qed
qed

definition held :: "nat \<Rightarrow> u8 \<Rightarrow> u8 \<Rightarrow> ('f, 'v) nonos \<Rightarrow> bool" where
  "held obj wait_val timeout s \<longleftrightarrow> timeout = NONOS_WAIT_FOREVER \<and> sem_objs s obj \<noteq> wait_val \<and> RxIrqCnt s = RxDoneCnt s
     \<and> length (NonOsEntries s) = NONOS_MAX_SPAWN_ENTRIES"

lemma sem_get_stuck:
  assumes "held obj wait_val timeout s"
  shows "sem_get_loop run obj wait_val set_val timeout s = None"
proof -
  have "\<not> held obj wait_val timeout s" if "sem_get_loop run obj wait_val set_val timeout s = Some y" for y
  proof (rule sem_get_loop.raw_induct [where P = "\<lambda>run obj wv sv t s y. \<not> held obj wv t s", OF _ that], goal_cases)
    case (1 loop run obj wv sv t s y)
    show ?case
    proof
      assume h: "held obj wv t s"
      then have a: "RxIrqCnt s = RxDoneCnt s" "length (NonOsEntries s) = NONOS_MAX_SPAWN_ENTRIES"
        by (simp_all add: held_def)
      obtain es where es: "SlNonOsMainLoopTask run s = Some (s\<lparr>NonOsEntries := es\<rparr>)"
        "length es = NONOS_MAX_SPAWN_ENTRIES"
        by (rule main_task_idle [OF a, of run]) (rule that; assumption)
      have "t > 0" using h by (simp add: held_def NONOS_WAIT_FOREVER_def)
      then have "loop run obj wv sv t (s\<lparr>NonOsEntries := es\<rparr>) = Some y"
        using 1(2) h es(1) by (simp add: held_def)
      from 1(1) [OF this] show False using h es(2) by (simp add: held_def)
    qed
  qed
  then show ?thesis using assms by (metis not_Some_eq)
qed

text \<open>Without an operating system a lock held by the only thread deadlocks: waiting for it without a
  limit never returns while no message has to be read, and with \<open>NO_WAIT\<close> the error is reported, but
  everything handed over meanwhile is dropped without having been run.\<close>

theorem held_lock_deadlocks:
  assumes "sem_objs s obj = LOCK_OBJ_LOCK_VALUE" "RxIrqCnt s = RxDoneCnt s"
    "length (NonOsEntries s) = NONOS_MAX_SPAWN_ENTRIES"
  shows "sl_LockObjLock run obj NONOS_WAIT_FOREVER s = None
    \<and> (\<exists>es. sl_LockObjLock run obj NONOS_NO_WAIT s = Some (nonos_ret NONOS_RET_ERR, s\<lparr>NonOsEntries := es\<rparr>)
         \<and> (\<forall>e \<in> set es. fst e = None))"
proof
  have ne: "sem_objs s obj \<noteq> LOCK_OBJ_UNLOCK_VALUE"
    using assms(1) by (simp add: LOCK_OBJ_LOCK_VALUE_def LOCK_OBJ_UNLOCK_VALUE_def)
  have "sem_get_loop run obj LOCK_OBJ_UNLOCK_VALUE LOCK_OBJ_LOCK_VALUE NONOS_WAIT_FOREVER s = None"
    by (rule sem_get_stuck) (use ne assms(2,3) in \<open>simp add: held_def\<close>)
  then show "sl_LockObjLock run obj NONOS_WAIT_FOREVER s = None"
    by (simp add: sl_LockObjLock_def SlNonOsSemGet_def)
  obtain es where es: "SlNonOsMainLoopTask run s = Some (s\<lparr>NonOsEntries := es\<rparr>)" "\<And>e. e \<in> set es \<Longrightarrow> fst e = None"
    by (rule main_task_idle [OF assms(2,3), of run]) (rule that; assumption)
  have "sl_LockObjLock run obj NONOS_NO_WAIT s = Some (nonos_ret NONOS_RET_ERR, s\<lparr>NonOsEntries := es\<rparr>)"
    using ne es(1)
    by (simp add: sl_LockObjLock_def SlNonOsSemGet_def sem_get_loop.simps [of run _ _ _ 1] sem_get_loop.simps [of run _ _ _ 0]
        NONOS_NO_WAIT_def NONOS_WAIT_FOREVER_def)
  moreover have "\<forall>e \<in> set es. fst e = None" using es(2) by blast
  ultimately show "\<exists>es. sl_LockObjLock run obj NONOS_NO_WAIT s = Some (nonos_ret NONOS_RET_ERR, s\<lparr>NonOsEntries := es\<rparr>)
         \<and> (\<forall>e \<in> set es. fst e = None)" by blast
qed

text \<open>When all five entries are in use a function that is handed over is lost without notice.\<close>

theorem sixth_function_lost:
  assumes "\<forall>i < NONOS_MAX_SPAWN_ENTRIES. fst (NonOsEntries s ! i) \<noteq> None"
  shows "SlNonOsSpawn f v s = (NONOS_RET_OK, s)"
proof -
  have "find (\<lambda>i. fst (NonOsEntries s ! i) = None) [0..<NONOS_MAX_SPAWN_ENTRIES] = None"
    using assms by (auto simp: find_None_iff)
  then show ?thesis by (simp add: SlNonOsSpawn_def)
qed

section \<open>Witnesses\<close>

definition nonos_demo :: "(nat, nat) nonos" where
  "nonos_demo = \<lparr>NonOsEntries = replicate 5 (Some 1, Some 2), sem_objs = \<lambda>_. LOCK_OBJ_LOCK_VALUE, RxIrqCnt = 3, RxDoneCnt = 3\<rparr>"

theorem held_lock_deadlocks_witness: "sl_LockObjLock (\<lambda>_ _. None) 0 NONOS_WAIT_FOREVER nonos_demo = None"
  using held_lock_deadlocks [of nonos_demo 0] by (simp add: nonos_demo_def NONOS_MAX_SPAWN_ENTRIES_def)

theorem sixth_function_lost_witness: "SlNonOsSpawn 9 9 nonos_demo = (0, nonos_demo)"
  using sixth_function_lost [of nonos_demo 9 9]
  by (simp add: nonos_demo_def NONOS_MAX_SPAWN_ENTRIES_def NONOS_RET_OK_def)

end
