(* ===== verification/Cc_Pm.thy ===== *)
theory Cc_Pm
  imports CC_Prelude "HOL-Library.Monad_Syntax"
begin

text \<open>
  The power management framework, \<open>middleware/framework/pm/cc_pm.c\<close>: the list of the hardware
  modules in use with their drivers, the descent into the lowest power state the platform allows
  when nothing is to be done, and the wake-up.

  Modules and drivers are objects of the callers; pointers to them are indices into the tables
  \<open>modules\<close> and \<open>drivers\<close>, and an index outside the table is an invalid pointer.  The functions of a
  module, of a driver and of the platform are fields of their records as in the code, \<open>None\<close> for a
  NULL pointer, over a world \<open>'w\<close> that holds what they share.  A driver's function gets the power
  state the framework keeps in its \<open>module_drv\<close> and returns the new one.

  Control that does not come back is a value: \<open>enter_S4\<close> of the platform yields \<open>None\<close> when the chip
  hibernates (it starts from reset afterwards), and then so do the functions above it; \<open>enter_S3\<close>
  yields \<open>True\<close> when the chip slept and the boot ROM then calls the resume function.  The assembly
  around it saves and restores the processor's registers, so that execution continues in the idle
  task after the resume function; the model continues there.  The outer option of a function is
  \<open>None\<close> where the code has no defined result: the framework is not initialised, a mandatory
  operation or a function of a module is NULL, or a chain does not end.
\<close>

section \<open>The interfaces: \<open>cc_pm.h\<close>\<close>

datatype soc_pm = e_pm_S0 | e_pm_S1 | e_pm_S2 | e_pm_S3 | e_pm_S4

datatype mod_pm = e_pm_M0 | e_pm_M1 | e_pm_M2 | e_pm_M3 | e_pm_M4

record 'w platform_pm_ops =
  set_up_wkup_srcs :: "(soc_pm \<Rightarrow> 'w \<Rightarrow> int \<times> 'w) option"
  handle_S3_wakeup :: "('w \<Rightarrow> int \<times> 'w) option"
  are_irqs_pending :: "('w \<Rightarrow> bool \<times> 'w) option"
  can_try_pm_state :: "(soc_pm \<Rightarrow> 'w \<Rightarrow> bool \<times> 'w) option"
  enter_S4 :: "('w \<Rightarrow> 'w option) option"
  enter_S3 :: "('w \<Rightarrow> bool \<times> 'w) option"
  enter_S2 :: "('w \<Rightarrow> 'w) option"
  enter_S1 :: "('w \<Rightarrow> 'w) option"
  back_up_soc_data :: "('w \<Rightarrow> 'w) option"
  restore_soc_data :: "('w \<Rightarrow> 'w) option"
  dsbl_sys_irq :: "('w \<Rightarrow> u32 \<times> 'w) option"
  enbl_sys_irq :: "(u32 \<Rightarrow> 'w \<Rightarrow> 'w) option"

record 'w soc_module =
  my_driver :: "nat option"
  next_mod :: "nat option"
  clk_enable :: "(soc_pm \<Rightarrow> 'w \<Rightarrow> int \<times> 'w) option"

record 'w module_drv =
  hw_module :: "nat option"
  pm_state :: mod_pm
  goto2pm_mode :: "(mod_pm \<Rightarrow> mod_pm \<Rightarrow> 'w \<Rightarrow> int \<times> mod_pm \<times> 'w) option"

text \<open>\<open>platform_desc\<close> with the pointer \<open>pform\<close> to it, the objects it refers to, and the world.\<close>

record 'w pm =
  pform :: bool
  used_list_len :: int
  used_mod_list :: "nat option"
  pm_ops :: "'w platform_pm_ops option"
  num_app_no_pm :: u32
  modules :: "'w soc_module list"
  drivers :: "'w module_drv list"
  world :: 'w

section \<open>Access\<close>

definition ops_of :: "'w pm \<Rightarrow> 'w platform_pm_ops option" where
  "ops_of p = (if pform p then pm_ops p else None)"

definition module_at :: "'w pm \<Rightarrow> nat \<Rightarrow> 'w soc_module option" where
  "module_at p m = (if m < length (modules p) then Some (modules p ! m) else None)"

definition driver_at :: "'w pm \<Rightarrow> nat \<Rightarrow> 'w module_drv option" where
  "driver_at p d = (if d < length (drivers p) then Some (drivers p ! d) else None)"

text \<open>A call of an operation of the platform, and one that yields a value.\<close>

definition plat_do :: "('w platform_pm_ops \<Rightarrow> ('w \<Rightarrow> 'w) option) \<Rightarrow> 'w pm \<Rightarrow> 'w pm option" where
  "plat_do sel p = do { ops \<leftarrow> ops_of p; f \<leftarrow> sel ops; Some (p\<lparr>world := f (world p)\<rparr>) }"

definition plat_get :: "('w platform_pm_ops \<Rightarrow> ('w \<Rightarrow> 'r \<times> 'w) option) \<Rightarrow> 'w pm \<Rightarrow> ('r \<times> 'w pm) option" where
  "plat_get sel p = do { ops \<leftarrow> ops_of p; f \<leftarrow> sel ops;
     Some (fst (f (world p)), p\<lparr>world := snd (f (world p))\<rparr>) }"

definition drv_goto :: "nat \<Rightarrow> mod_pm \<Rightarrow> 'w pm \<Rightarrow> (int \<times> 'w pm) option" where
  "drv_goto d M p = do {
     drv \<leftarrow> driver_at p d;
     case goto2pm_mode drv of
       None \<Rightarrow> Some (0, p)
     | Some f \<Rightarrow>
         (case f (pm_state drv) M (world p) of (r, st, w) \<Rightarrow>
            Some (r, p\<lparr>world := w, drivers := (drivers p)[d := drv\<lparr>pm_state := st\<rparr>]\<rparr>))
   }"

section \<open>Modules down and up\<close>

partial_function (option) push_loop :: "nat option \<Rightarrow> int \<Rightarrow> 'w pm \<Rightarrow> (int \<times> 'w pm) option" where
  "push_loop hm n p =
     (case hm of
        None \<Rightarrow> Some (n, p)
      | Some m \<Rightarrow> do {
          hw \<leftarrow> module_at p m;
          (r, p1) \<leftarrow> (case my_driver hw of None \<Rightarrow> Some (0, p) | Some d \<Rightarrow> drv_goto d e_pm_M4 p);
          if r \<noteq> 0 then Some (n, p1)
          else push_loop (next_mod hw) (n + 1) p1
        })"

definition push_modules_to_M4_no_irq :: "'w pm \<Rightarrow> (int \<times> 'w pm) option" where
  "push_modules_to_M4_no_irq p = (if pform p then push_loop (used_mod_list p) 0 p else None)"

definition clock_on :: "'w soc_module \<Rightarrow> 'w pm \<Rightarrow> 'w pm" where
  "clock_on hw p =
     (case clk_enable hw of None \<Rightarrow> p | Some f \<Rightarrow> p\<lparr>world := snd (f e_pm_S0 (world p))\<rparr>)"

definition wake_module :: "'w soc_module \<Rightarrow> 'w pm \<Rightarrow> 'w pm option" where
  "wake_module hw p =
     (case my_driver hw of
        None \<Rightarrow> Some p
      | Some d \<Rightarrow> do { (_, p1) \<leftarrow> drv_goto d e_pm_M0 (clock_on hw p); Some p1 })"

partial_function (option) make_loop :: "nat option \<Rightarrow> int \<Rightarrow> 'w pm \<Rightarrow> (int \<times> 'w pm) option" where
  "make_loop hm n p =
     (case hm of
        None \<Rightarrow> Some (n, p)
      | Some m \<Rightarrow>
          if n > 0 then do {
            hw \<leftarrow> module_at p m;
            p1 \<leftarrow> wake_module hw p;
            make_loop (next_mod hw) (n - 1) p1
          } else Some (n, p))"

definition make_modules_to_M0_no_irq :: "int \<Rightarrow> 'w pm \<Rightarrow> (int \<times> 'w pm) option" where
  "make_modules_to_M0_no_irq n p = (if pform p then make_loop (used_mod_list p) n p else None)"

text \<open>All modules back up, as every caller has it.\<close>

definition wake_all :: "'w pm \<Rightarrow> 'w pm option" where
  "wake_all p = do { (_, p1) \<leftarrow> make_modules_to_M0_no_irq (used_list_len p) p; Some p1 }"

section \<open>The low power states\<close>

text \<open>The result of a function that may enter S4: \<open>None\<close> if the chip hibernates.\<close>

type_synonym 'w outcome = "(int \<times> 'w pm) option"

definition do_try_S4_no_irq :: "'w pm \<Rightarrow> 'w outcome option" where
  "do_try_S4_no_irq p = do {
     (n, p1) \<leftarrow> push_modules_to_M4_no_irq p;
     if used_list_len p1 \<noteq> n then do { p2 \<leftarrow> wake_all p1; Some (Some (-1, p2)) }
     else do {
       (retval, p2) \<leftarrow> plat_get (\<lambda>ops. map_option (\<lambda>f. f e_pm_S4) (set_up_wkup_srcs ops)) p1;
       if retval < 0 then do { p3 \<leftarrow> wake_all p2; Some (Some (-1, p3)) }
       else do {
         p3 \<leftarrow> plat_do back_up_soc_data p2;
         (pending, p4) \<leftarrow> plat_get are_irqs_pending p3;
         if pending then do { p5 \<leftarrow> wake_all p4; Some (Some (0, p5)) }
         else do {
           ops \<leftarrow> ops_of p4;
           f \<leftarrow> enter_S4 ops;
           Some (map_option (\<lambda>w. (0, p4\<lparr>world := w\<rparr>)) (f (world p4)))
         }
       }
     }
   }"

definition try_S4_no_irq :: "'w pm \<Rightarrow> 'w outcome option" where
  "try_S4_no_irq p = do {
     ops \<leftarrow> ops_of p;
     if enter_S4 ops = None then Some (Some (-1, p))
     else do {
       (can, p1) \<leftarrow> plat_get (\<lambda>ops. map_option (\<lambda>f. f e_pm_S4) (can_try_pm_state ops)) p;
       if can then do_try_S4_no_irq p1 else Some (Some (-1, p1))
     }
   }"

definition resume_from_S3 :: "'w pm \<Rightarrow> 'w pm option" where
  "resume_from_S3 p = do {
     p1 \<leftarrow> plat_do restore_soc_data p;
     p2 \<leftarrow> wake_all p1;
     (_, p3) \<leftarrow> plat_get handle_S3_wakeup p2;
     Some p3
   }"

definition enter_into_S3 :: "'w pm \<Rightarrow> 'w pm option" where
  "enter_into_S3 p = do {
     p1 \<leftarrow> plat_do back_up_soc_data p;
     (slept, p2) \<leftarrow> plat_get enter_S3 p1;
     if slept then resume_from_S3 p2 else Some p2
   }"

definition do_try_S3_no_irq :: "'w pm \<Rightarrow> (int \<times> 'w pm) option" where
  "do_try_S3_no_irq p = do {
     (n, p1) \<leftarrow> push_modules_to_M4_no_irq p;
     if used_list_len p1 \<noteq> n then do { p2 \<leftarrow> wake_all p1; Some (-1, p2) }
     else do {
       (retval, p2) \<leftarrow> plat_get (\<lambda>ops. map_option (\<lambda>f. f e_pm_S3) (set_up_wkup_srcs ops)) p1;
       if retval < 0 then do { p3 \<leftarrow> wake_all p2; Some (-1, p3) }
       else do {
         (pending, p3) \<leftarrow> plat_get are_irqs_pending p2;
         if pending then do { p4 \<leftarrow> wake_all p3; Some (0, p4) }
         else do { p4 \<leftarrow> enter_into_S3 p3; Some (0, p4) }
       }
     }
   }"

definition try_S3_no_irq :: "'w pm \<Rightarrow> (int \<times> 'w pm) option" where
  "try_S3_no_irq p = do {
     ops \<leftarrow> ops_of p;
     if enter_S3 ops = None then Some (-1, p)
     else do {
       (can, p1) \<leftarrow> plat_get (\<lambda>ops. map_option (\<lambda>f. f e_pm_S3) (can_try_pm_state ops)) p;
       if can then do_try_S3_no_irq p1 else Some (-1, p1)
     }
   }"

definition try_S2_no_irq :: "'w pm \<Rightarrow> (int \<times> 'w pm) option" where
  "try_S2_no_irq p = do {
     ops \<leftarrow> ops_of p;
     if enter_S2 ops = None then Some (-1, p)
     else do {
       (can, p1) \<leftarrow> plat_get (\<lambda>ops. map_option (\<lambda>f. f e_pm_S2) (can_try_pm_state ops)) p;
       if \<not> can then Some (-1, p1)
       else do {
         (pending, p2) \<leftarrow> plat_get are_irqs_pending p1;
         if pending then Some (0, p2)
         else do { p3 \<leftarrow> plat_do enter_S2 p2; Some (0, p3) }
       }
     }
   }"

definition try_S1_no_irq :: "'w pm \<Rightarrow> (int \<times> 'w pm) option" where
  "try_S1_no_irq p = do {
     ops \<leftarrow> ops_of p;
     if enter_S1 ops = None then Some (-1, p)
     else do {
       (pending, p1) \<leftarrow> plat_get are_irqs_pending p;
       if pending then Some (0, p1)
       else do { p2 \<leftarrow> plat_do enter_S1 p1; Some (0, p2) }
     }
   }"

section \<open>The idle task\<close>

definition irq_restore :: "u32 \<Rightarrow> 'w pm \<Rightarrow> 'w pm option" where
  "irq_restore intr_mask p = plat_do (\<lambda>ops. map_option (\<lambda>f. f intr_mask) (enbl_sys_irq ops)) p"

text \<open>The states below S4, tried one after the other; the value is the mask to restore at the end.\<close>

definition try_S3_to_S1 :: "u32 \<Rightarrow> 'w pm \<Rightarrow> (u32 \<times> 'w pm) option" where
  "try_S3_to_S1 intr_mask p = do {
     (r3, p1) \<leftarrow> try_S3_no_irq p;
     if r3 = 0 then Some (intr_mask, p1)
     else do {
       (r2, p2) \<leftarrow> try_S2_no_irq p1;
       if r2 = 0 then Some (intr_mask, p2)
       else do {
         p3 \<leftarrow> irq_restore intr_mask p2;
         (_, p4) \<leftarrow> try_S1_no_irq p3;
         plat_get dsbl_sys_irq p4
       }
     }
   }"

definition cc_idle_task_pm :: "'w pm \<Rightarrow> 'w pm option option" where
  "cc_idle_task_pm p = do {
     (intr_mask, p1) \<leftarrow> plat_get dsbl_sys_irq p;
     if num_app_no_pm p1 \<noteq> 0 then do { p2 \<leftarrow> irq_restore intr_mask p1; Some (Some p2) }
     else do {
       res \<leftarrow> try_S4_no_irq p1;
       case res of
         None \<Rightarrow> Some None
       | Some (r4, p2) \<Rightarrow> do {
           (mask', p3) \<leftarrow> (if r4 = 0 then Some (intr_mask, p2) else try_S3_to_S1 intr_mask p2);
           p4 \<leftarrow> irq_restore mask' p3;
           Some (Some p4)
         }
     }
   }"

section \<open>Registration\<close>

definition cc_pm_platform_ops_register :: "'w platform_pm_ops option \<Rightarrow> 'w pm \<Rightarrow> (int \<times> 'w pm) option" where
  "cc_pm_platform_ops_register arg p =
     (case arg of
        None \<Rightarrow> Some (-1, p)
      | Some ops \<Rightarrow>
          if enter_S4 ops = None \<and> enter_S3 ops = None \<and> enter_S2 ops = None \<and> enter_S1 ops = None then
            Some (-1, p)
          else if set_up_wkup_srcs ops = None \<or> handle_S3_wakeup ops = None \<or> are_irqs_pending ops = None
            \<or> can_try_pm_state ops = None \<or> back_up_soc_data ops = None \<or> restore_soc_data ops = None
            \<or> dsbl_sys_irq ops = None \<or> enbl_sys_irq ops = None then
            Some (-1, p)
          else if pform p then Some (0, p\<lparr>pm_ops := Some ops\<rparr>)
          else None)"

definition cc_pm_framework_init :: "'w pm \<Rightarrow> int \<times> 'w pm" where
  "cc_pm_framework_init p = (if \<not> pform p then (0, p\<lparr>pform := True\<rparr>) else (-1, p))"

text \<open>Loading the drivers of an array of modules: \<open>rtos_drv_ld\<close> of module \<open>m\<close> usually registers a
  driver with the framework and therefore changes its state.\<close>

partial_function (option) load_loop ::
  "(nat \<Rightarrow> ('w pm \<Rightarrow> (int \<times> 'w pm) option) option) \<Rightarrow> nat \<Rightarrow> int \<Rightarrow> int \<Rightarrow> 'w pm \<Rightarrow> (int \<times> 'w pm) option" where
  "load_loop rtos_drv_ld base i num_mod p =
     (if i < num_mod then do {
        let m = base + nat i;
        hw \<leftarrow> module_at p m;
        f \<leftarrow> clk_enable hw;
        let (r, w) = f e_pm_S0 (world p);
        let p1 = p\<lparr>world := w\<rparr>;
        if r = -1 then Some (-1, p1)
        else do {
          ld \<leftarrow> rtos_drv_ld m;
          (r2, p2) \<leftarrow> ld p1;
          if r2 = -1 then Some (-1, p2) else load_loop rtos_drv_ld base (i + 1) num_mod p2
        }
      } else Some (0, p))"

definition cc_modules_load ::
  "(nat \<Rightarrow> ('w pm \<Rightarrow> (int \<times> 'w pm) option) option) \<Rightarrow> nat option \<Rightarrow> int \<Rightarrow> 'w pm \<Rightarrow> (int \<times> 'w pm) option" where
  "cc_modules_load rtos_drv_ld mods num_mod p =
     (case mods of
        Some base \<Rightarrow> if num_mod \<noteq> 0 then load_loop rtos_drv_ld base 0 num_mod p else Some (-1, p)
      | None \<Rightarrow> Some (-1, p))"

definition link_next :: "nat \<Rightarrow> nat option \<Rightarrow> 'w pm \<Rightarrow> 'w pm" where
  "link_next m x p = p\<lparr>modules := (modules p)[m := (modules p ! m)\<lparr>next_mod := x\<rparr>]\<rparr>"

definition set_my_driver :: "nat \<Rightarrow> nat option \<Rightarrow> 'w pm \<Rightarrow> 'w pm" where
  "set_my_driver m x p = p\<lparr>modules := (modules p)[m := (modules p ! m)\<lparr>my_driver := x\<rparr>]\<rparr>"

definition set_hw_module :: "nat \<Rightarrow> nat option \<Rightarrow> 'w pm \<Rightarrow> 'w pm" where
  "set_hw_module d x p = p\<lparr>drivers := (drivers p)[d := (drivers p ! d)\<lparr>hw_module := x\<rparr>]\<rparr>"

partial_function (option) last_loop :: "nat \<Rightarrow> 'w pm \<Rightarrow> nat option" where
  "last_loop m p = do {
     hw \<leftarrow> module_at p m;
     case next_mod hw of None \<Rightarrow> Some m | Some m' \<Rightarrow> last_loop m' p
   }"

definition add2tail_used_mod_list :: "nat \<Rightarrow> 'w pm \<Rightarrow> 'w pm option" where
  "add2tail_used_mod_list m p = do {
     p1 \<leftarrow> (case used_mod_list p of
              None \<Rightarrow> Some (p\<lparr>used_mod_list := Some m\<rparr>)
            | Some h \<Rightarrow> do { l \<leftarrow> last_loop h p; Some (link_next l (Some m) p) });
     Some (p1\<lparr>used_list_len := used_list_len p1 + 1\<rparr>)
   }"

definition cc_module_drv_register :: "nat option \<Rightarrow> nat option \<Rightarrow> 'w pm \<Rightarrow> (int \<times> 'w pm) option" where
  "cc_module_drv_register hm md p =
     (case (hm, md) of
        (Some m, Some d) \<Rightarrow> do {
          hw \<leftarrow> module_at p m;
          drv \<leftarrow> driver_at p d;
          if my_driver hw = None \<and> hw_module drv = None then
            if pform p then do {
              p1 \<leftarrow> add2tail_used_mod_list m (link_next m None (set_my_driver m (Some d) (set_hw_module d (Some m) p)));
              Some (0, p1)
            } else None
          else Some (-1, p)
        }
      | _ \<Rightarrow> Some (-1, p))"

partial_function (option) unregister_loop :: "nat option \<Rightarrow> nat option \<Rightarrow> nat \<Rightarrow> 'w pm \<Rightarrow> 'w pm option" where
  "unregister_loop prev hm d p =
     (case hm of
        None \<Rightarrow> Some p
      | Some m \<Rightarrow> do {
          hw \<leftarrow> module_at p m;
          if my_driver hw \<noteq> Some d then unregister_loop (Some m) (next_mod hw) d p
          else do {
            let p1 = (case prev of Some q \<Rightarrow> link_next q (next_mod hw) p
                                 | None \<Rightarrow> p\<lparr>used_mod_list := next_mod hw\<rparr>);
            Some (set_hw_module d None (set_my_driver m None p1))
          }
        })"

definition cc_module_drv_unregister :: "nat \<Rightarrow> 'w pm \<Rightarrow> 'w pm option" where
  "cc_module_drv_unregister d p =
     (if pform p \<and> d < length (drivers p) then unregister_loop None (used_mod_list p) d p else None)"

section \<open>Applications that need the full power\<close>

definition cc_app_putoff_pm :: "'w pm \<Rightarrow> 'w pm option" where
  "cc_app_putoff_pm p = do {
     (intr_mask, p1) \<leftarrow> plat_get dsbl_sys_irq p;
     irq_restore intr_mask (p1\<lparr>num_app_no_pm := num_app_no_pm p1 + 1\<rparr>)
   }"

definition cc_app_resume_pm :: "'w pm \<Rightarrow> 'w pm option" where
  "cc_app_resume_pm p = do {
     (intr_mask, p1) \<leftarrow> plat_get dsbl_sys_irq p;
     irq_restore intr_mask
       (if num_app_no_pm p1 \<noteq> 0 then p1\<lparr>num_app_no_pm := num_app_no_pm p1 - 1\<rparr> else p1)
   }"

end
