(* ===== verification/Uart_Hal.thy ===== *)
theory Uart_Hal
  imports CC_Prelude "HOL-Library.Monad_Syntax"
begin

text \<open>
  The serial ports: the functions of \<open>driverlib/uart.c\<close> the hardware layer uses, and
  \<open>middleware/driver/hal/uart_hal.c\<close>.

  The registers of a port are a record.  \<open>rx_fifo\<close> and \<open>tx_fifo\<close> are the two queues of the hardware,
  \<open>arriving\<close> the bytes the other side has yet to send and \<open>line\<close> those that left the port.  A busy
  wait on the transmitter lasts until it has sent what it holds; one on the receiver until the next
  byte arrives, and it is \<open>None\<close> if none ever does.  The control blocks are the pool \<open>uart_states\<close>
  of the code, a handle is the index of one of them, and a buffer of a caller is the list of its
  bytes: an access behind its end is \<open>None\<close>.
\<close>

section \<open>The registers: \<open>driverlib/uart.c\<close>\<close>

record uart_hw =
  rx_fifo :: "u8 list"
  arriving :: "u8 list"
  tx_fifo :: "u8 list"
  line :: "u8 list"
  UART_IM :: u32
  UART_RIS :: u32
  UART_LCRH :: u32
  UART_CTL :: u32
  UART_IBRD :: u32
  UART_FBRD :: u32
  UART_IFLS :: u32
  UART_DMACTL :: u32

definition UART_FR_TXFE :: u32 where "UART_FR_TXFE = 0x80"
definition UART_FR_TXFF :: u32 where "UART_FR_TXFF = 0x20"
definition UART_FR_RXFE :: u32 where "UART_FR_RXFE = 0x10"
definition UART_FR_BUSY :: u32 where "UART_FR_BUSY = 0x08"
definition UART_LCRH_FEN :: u32 where "UART_LCRH_FEN = 0x10"
definition UART_CTL_HSE :: u32 where "UART_CTL_HSE = 0x20"
definition UART_CTL_ON :: u32 where "UART_CTL_ON = 0x301"

text \<open>The queues hold 16 bytes, or one byte when they are switched off.\<close>

definition fifo_depth :: "uart_hw \<Rightarrow> nat" where
  "fifo_depth h = (if has_flag (UART_LCRH h) UART_LCRH_FEN then 16 else 1)"

definition UART_FR :: "uart_hw \<Rightarrow> u32" where
  "UART_FR h = (if tx_fifo h = [] then UART_FR_TXFE else UART_FR_BUSY)
     OR (if rx_fifo h = [] then UART_FR_RXFE else 0)
     OR (if fifo_depth h \<le> length (tx_fifo h) then UART_FR_TXFF else 0)"

text \<open>The transmitter sends what it holds.\<close>

definition transmit :: "uart_hw \<Rightarrow> uart_hw" where
  "transmit h = h\<lparr>line := line h @ tx_fifo h, tx_fifo := []\<rparr>"

definition UARTEnable :: "uart_hw \<Rightarrow> uart_hw" where
  "UARTEnable h = h\<lparr>UART_LCRH := UART_LCRH h OR UART_LCRH_FEN, UART_CTL := UART_CTL h OR UART_CTL_ON\<rparr>"

definition UARTDisable :: "uart_hw \<Rightarrow> uart_hw" where
  "UARTDisable h = (let h1 = (if has_flag (UART_FR h) UART_FR_BUSY then transmit h else h) in
     h1\<lparr>UART_LCRH := UART_LCRH h1 AND NOT UART_LCRH_FEN, UART_CTL := UART_CTL h1 AND NOT UART_CTL_ON\<rparr>)"

text \<open>The assertions of the driver library are compiled in only for debugging; a division by zero
  yields zero on the processor, and so it does here.\<close>

definition UARTConfigSetExpClk :: "u32 \<Rightarrow> u32 \<Rightarrow> u32 \<Rightarrow> uart_hw \<Rightarrow> uart_hw" where
  "UARTConfigSetExpClk ulUARTClk ulBaud ulConfig h =
     (let h1 = UARTDisable h;
          fast = (ulBaud * 16 > ulUARTClk);
          h2 = (if fast then h1\<lparr>UART_CTL := UART_CTL h1 OR UART_CTL_HSE\<rparr>
                else h1\<lparr>UART_CTL := UART_CTL h1 AND NOT UART_CTL_HSE\<rparr>);
          baud = (if fast then ulBaud div 2 else ulBaud);
          ulDiv = ((ulUARTClk * 8) div baud + 1) div 2
      in UARTEnable (h2\<lparr>UART_IBRD := ulDiv div 64, UART_FBRD := ulDiv mod 64, UART_LCRH := ulConfig\<rparr>))"

definition UARTFIFOEnable :: "uart_hw \<Rightarrow> uart_hw" where
  "UARTFIFOEnable h = h\<lparr>UART_LCRH := UART_LCRH h OR UART_LCRH_FEN\<rparr>"

definition UARTFIFODisable :: "uart_hw \<Rightarrow> uart_hw" where
  "UARTFIFODisable h = h\<lparr>UART_LCRH := UART_LCRH h AND NOT UART_LCRH_FEN\<rparr>"

definition UARTCharGetNonBlocking :: "uart_hw \<Rightarrow> u32 \<times> uart_hw" where
  "UARTCharGetNonBlocking h =
     (case rx_fifo h of [] \<Rightarrow> (- 1, h) | c # cs \<Rightarrow> (ucast c, h\<lparr>rx_fifo := cs\<rparr>))"

definition UARTCharGet :: "uart_hw \<Rightarrow> (u8 \<times> uart_hw) option" where
  "UARTCharGet h =
     (case rx_fifo h of
        c # cs \<Rightarrow> Some (c, h\<lparr>rx_fifo := cs\<rparr>)
      | [] \<Rightarrow> (case arriving h of [] \<Rightarrow> None | c # cs \<Rightarrow> Some (c, h\<lparr>arriving := cs\<rparr>)))"

definition UARTCharPutNonBlocking :: "u8 \<Rightarrow> uart_hw \<Rightarrow> bool \<times> uart_hw" where
  "UARTCharPutNonBlocking c h =
     (if has_flag (UART_FR h) UART_FR_TXFF then (False, h) else (True, h\<lparr>tx_fifo := tx_fifo h @ [c]\<rparr>))"

definition UARTCharPut :: "u8 \<Rightarrow> uart_hw \<Rightarrow> uart_hw" where
  "UARTCharPut c h = (let h1 = (if has_flag (UART_FR h) UART_FR_TXFF then transmit h else h) in
     h1\<lparr>tx_fifo := tx_fifo h1 @ [c]\<rparr>)"

definition UARTIntEnable :: "u32 \<Rightarrow> uart_hw \<Rightarrow> uart_hw" where
  "UARTIntEnable flags h = h\<lparr>UART_IM := UART_IM h OR flags\<rparr>"

definition UARTIntDisable :: "u32 \<Rightarrow> uart_hw \<Rightarrow> uart_hw" where
  "UARTIntDisable flags h = h\<lparr>UART_IM := UART_IM h AND NOT flags\<rparr>"

definition UARTIntStatus :: "bool \<Rightarrow> uart_hw \<Rightarrow> u32" where
  "UARTIntStatus bMasked h = (if bMasked then UART_RIS h AND UART_IM h else UART_RIS h)"

definition UARTIntClear :: "u32 \<Rightarrow> uart_hw \<Rightarrow> uart_hw" where
  "UARTIntClear flags h = h\<lparr>UART_RIS := UART_RIS h AND NOT flags\<rparr>"

definition UARTDMAEnable :: "u32 \<Rightarrow> uart_hw \<Rightarrow> uart_hw" where
  "UARTDMAEnable flags h = h\<lparr>UART_DMACTL := UART_DMACTL h OR flags\<rparr>"

definition UARTDMADisable :: "u32 \<Rightarrow> uart_hw \<Rightarrow> uart_hw" where
  "UARTDMADisable flags h = h\<lparr>UART_DMACTL := UART_DMACTL h AND NOT flags\<rparr>"

section \<open>Configuration and state: \<open>uart_hal.h\<close>, \<open>uart_hal.c\<close>\<close>

datatype cc_transfer_mode = e_poll_based | e_int_based | e_dma_based

datatype cc_uart_event = write_complete | write_fail | read_complete | read_fail

record cc_uart_config =
  module_id :: u32
  base_addr :: u32
  inp_clk :: u32
  baud_rate :: u32
  config_reg :: u32
  fifo_size :: u32
  int_callback :: bool
  rx_transfer_mode :: cc_transfer_mode
  tx_transfer_mode :: cc_transfer_mode
  rx_fifo_trig_level :: u32
  tx_fifo_trig_level :: u32
  fifo_enabled :: bool
  rtos_hndl :: nat

record cc_uart_state =
  uart_config :: cc_uart_config
  rd_buff :: "u8 list"
  rd_num_wrds :: u32
  rd_num_byts :: u8
  rd_wrd_size :: u8
  rd_wrds_done :: u32
  rd_byts_done :: u32
  rd_done :: bool
  wrt_buff :: "u8 list"
  wrt_num_wrds :: u32
  wrt_num_byts :: u8
  wrt_wrd_size :: u8
  wrt_wrds_done :: u32
  wrt_byts_done :: u32
  wrt_done :: bool

text \<open>The commands of \<open>cc_uart_control\<close> with the value their argument points to.\<close>

datatype cc_uart_ctrl_cmd =
    e_rx_change_mode cc_transfer_mode
  | e_tx_change_mode cc_transfer_mode
  | e_change_rx_fifo_trig u32
  | e_change_tx_fifo_trig u32
  | e_enable_disable_fifo bool
  | e_get_dma_info
  | e_start_tx_dma_transfer u32
  | e_start_rx_dma_transfer u32
  | e_context_save
  | e_context_restore

definition MAX_UART_MODULES :: nat where "MAX_UART_MODULES = 2"

definition zero_config :: cc_uart_config where
  "zero_config = \<lparr>module_id = 0, base_addr = 0, inp_clk = 0, baud_rate = 0, config_reg = 0, fifo_size = 0,
     int_callback = False, rx_transfer_mode = e_poll_based, tx_transfer_mode = e_poll_based,
     rx_fifo_trig_level = 0, tx_fifo_trig_level = 0, fifo_enabled = False, rtos_hndl = 0\<rparr>"

definition zero_state :: cc_uart_state where
  "zero_state = \<lparr>uart_config = zero_config, rd_buff = [], rd_num_wrds = 0, rd_num_byts = 0, rd_wrd_size = 0,
     rd_wrds_done = 0, rd_byts_done = 0, rd_done = False, wrt_buff = [], wrt_num_wrds = 0, wrt_num_byts = 0,
     wrt_wrd_size = 0, wrt_wrds_done = 0, wrt_byts_done = 0, wrt_done = False\<rparr>"

text \<open>The driver object above a control block (\<open>struct uart_rtos_driver\<close> of \<open>uart_drv.c\<close>): its power
  state and its registration are in the table of drivers of the power management framework, under
  the same index.  \<open>sync_obj\<close> is the number of signals of the semaphore and \<open>lock_obj\<close> whether the
  mutex is held; both are \<open>None\<close> before they are created.\<close>

record uart_rtos_driver =
  device_id :: u32
  hal_handle :: "nat option"
  sync_obj :: "nat option"
  lock_obj :: "bool option"
  ref_cnt :: u32
  tx_oper_mode :: cc_transfer_mode
  rx_oper_mode :: cc_transfer_mode

text \<open>The ports by their base address, and the two pools.\<close>

record uart_world =
  ports :: "u32 \<Rightarrow> uart_hw"
  uart_states :: "cc_uart_state list"
  uart_rtos_drv :: "uart_rtos_driver list"
  pm_undefined :: "nat set"

definition port_do :: "u32 \<Rightarrow> (uart_hw \<Rightarrow> uart_hw) \<Rightarrow> (u32 \<Rightarrow> uart_hw) \<Rightarrow> (u32 \<Rightarrow> uart_hw)" where
  "port_do base f hw = hw(base := f (hw base))"

section \<open>Control\<close>

definition rx_trig :: "u32 \<Rightarrow> u32" where
  "rx_trig lv = (if lv = 1 then 0x00 else if lv = 2 then 0x08 else if lv = 4 then 0x10
     else if lv = 6 then 0x18 else if lv = 7 then 0x20 else 0x10)"

definition tx_trig :: "u32 \<Rightarrow> u32" where
  "tx_trig lv = (if lv = 1 then 0 else if lv = 2 then 1 else if lv = 4 then 2
     else if lv = 6 then 3 else if lv = 7 then 4 else 2)"

definition known_level :: "u32 \<Rightarrow> bool" where
  "known_level lv \<longleftrightarrow> lv \<in> {1, 2, 4, 6, 7}"

definition set_rx_trig :: "u32 \<Rightarrow> uart_hw \<Rightarrow> uart_hw" where
  "set_rx_trig lv h = h\<lparr>UART_IFLS := (UART_IFLS h AND 0x07) OR rx_trig lv\<rparr>"

definition set_tx_trig :: "u32 \<Rightarrow> uart_hw \<Rightarrow> uart_hw" where
  "set_tx_trig lv h = h\<lparr>UART_IFLS := (UART_IFLS h AND 0x38) OR tx_trig lv\<rparr>"

text \<open>The commands other than the restoring of the context act on the configuration and the port of
  one control block.\<close>

definition both_empty :: "uart_hw \<Rightarrow> bool" where
  "both_empty h \<longleftrightarrow> has_flag (UART_FR h) UART_FR_TXFE \<and> has_flag (UART_FR h) UART_FR_RXFE"

fun control_cmd :: "cc_uart_ctrl_cmd \<Rightarrow> cc_uart_config \<Rightarrow> (u32 \<Rightarrow> uart_hw) \<Rightarrow> cc_uart_config \<times> (u32 \<Rightarrow> uart_hw)" where
  "control_cmd (e_rx_change_mode md) c hw = (c\<lparr>rx_transfer_mode := md\<rparr>, hw)"
| "control_cmd (e_tx_change_mode md) c hw = (c\<lparr>tx_transfer_mode := md\<rparr>, hw)"
| "control_cmd (e_change_rx_fifo_trig lv) c hw =
     (let c1 = c\<lparr>rx_fifo_trig_level := lv\<rparr> in
      (if known_level lv then c1 else c1\<lparr>tx_fifo_trig_level := 4\<rparr>, port_do (base_addr c) (set_rx_trig lv) hw))"
| "control_cmd (e_change_tx_fifo_trig lv) c hw =
     (let c1 = c\<lparr>tx_fifo_trig_level := lv\<rparr> in
      (if known_level lv then c1 else c1\<lparr>tx_fifo_trig_level := 4\<rparr>, port_do (base_addr c) (set_tx_trig lv) hw))"
| "control_cmd (e_enable_disable_fifo b) c hw =
     (c\<lparr>fifo_enabled := b\<rparr>, port_do (base_addr c) (if b then UARTFIFOEnable else UARTFIFODisable) hw)"
| "control_cmd (e_start_tx_dma_transfer a) c hw =
     (c, port_do (base_addr c) (if a = 1 then UARTDMAEnable 2 else UARTDMADisable 2) hw)"
| "control_cmd (e_start_rx_dma_transfer a) c hw =
     (c, port_do (base_addr c) (if a = 1 then UARTDMAEnable 1 else UARTDMADisable 1) hw)"
| "control_cmd e_get_dma_info c hw = (c, hw)"
| "control_cmd e_context_save c hw = (c, hw)"
| "control_cmd e_context_restore c hw = (c, hw)"

definition control_plain ::
  "cc_uart_ctrl_cmd \<Rightarrow> cc_uart_config \<Rightarrow> (u32 \<Rightarrow> uart_hw) \<Rightarrow> int \<times> cc_uart_config \<times> (u32 \<Rightarrow> uart_hw)" where
  "control_plain cmd c hw =
     (if both_empty (hw (base_addr c)) then (0, control_cmd cmd c hw) else (-1, c, hw))"

definition cc_uart_configure ::
  "cc_uart_config \<Rightarrow> (u32 \<Rightarrow> uart_hw) \<Rightarrow> cc_uart_config \<times> (u32 \<Rightarrow> uart_hw)" where
  "cc_uart_configure c hw =
     (let hw1 = port_do (base_addr c) (UARTConfigSetExpClk (inp_clk c) (baud_rate c) (config_reg c)) hw;
          hw2 = port_do (base_addr c) (if fifo_enabled c then UARTFIFOEnable else UARTFIFODisable) hw1;
          (_, c3, hw3) = control_plain (e_change_rx_fifo_trig (rx_fifo_trig_level c)) c hw2;
          (_, c4, hw4) = control_plain (e_change_rx_fifo_trig (tx_fifo_trig_level c3)) c3 hw3
      in (c4, hw4))"

definition control_config ::
  "cc_uart_ctrl_cmd \<Rightarrow> cc_uart_config \<Rightarrow> (u32 \<Rightarrow> uart_hw) \<Rightarrow> int \<times> cc_uart_config \<times> (u32 \<Rightarrow> uart_hw)" where
  "control_config cmd c hw =
     (if cmd = e_context_restore \<and> both_empty (hw (base_addr c)) then (0, cc_uart_configure c hw)
      else control_plain cmd c hw)"

text \<open>The control block behind a handle.\<close>

definition state_at :: "uart_world \<Rightarrow> nat \<Rightarrow> cc_uart_state option" where
  "state_at w k = (if k < length (uart_states w) then Some (uart_states w ! k) else None)"

definition set_state :: "nat \<Rightarrow> cc_uart_state \<Rightarrow> uart_world \<Rightarrow> uart_world" where
  "set_state k s w = w\<lparr>uart_states := (uart_states w)[k := s]\<rparr>"

definition cc_uart_control :: "nat \<Rightarrow> cc_uart_ctrl_cmd \<Rightarrow> uart_world \<Rightarrow> (int \<times> uart_world) option" where
  "cc_uart_control hndl cmd w = do {
     s \<leftarrow> state_at w hndl;
     let (r, c, hw) = control_config cmd (uart_config s) (ports w);
     Some (r, set_state hndl (s\<lparr>uart_config := c\<rparr>) (w\<lparr>ports := hw\<rparr>))
   }"

section \<open>The pool of control blocks\<close>

definition reset_uart_state :: "uart_world \<Rightarrow> uart_world" where
  "reset_uart_state w = w\<lparr>uart_states := replicate MAX_UART_MODULES zero_state\<rparr>"

definition find_state :: "u32 \<Rightarrow> uart_world \<Rightarrow> nat option" where
  "find_state base w =
     find (\<lambda>k. base_addr (uart_config (uart_states w ! k)) = base) [0..<MAX_UART_MODULES]"

definition check_uart_state_inuse :: "cc_uart_config \<Rightarrow> uart_world \<Rightarrow> nat option" where
  "check_uart_state_inuse c w = find_state (base_addr c) w"

definition get_available_uart_state :: "uart_world \<Rightarrow> nat option" where
  "get_available_uart_state w = find_state 0 w"

definition free_uart_state :: "nat \<Rightarrow> uart_world \<Rightarrow> int \<times> uart_world" where
  "free_uart_state k w = (if k < MAX_UART_MODULES then (0, set_state k zero_state w) else (-1, w))"

text \<open>The caller's configuration, which is declared constant, is changed through the cast in
  \<open>cc_uart_configure\<close>; it is a result.\<close>

definition cc_uart_init :: "cc_uart_config \<Rightarrow> uart_world \<Rightarrow> nat option \<times> cc_uart_config \<times> uart_world" where
  "cc_uart_init c w =
     (let w1 = reset_uart_state w in
      case check_uart_state_inuse c w1 of
        Some k \<Rightarrow> (Some k, c, w1)
      | None \<Rightarrow>
          (case get_available_uart_state w1 of
             None \<Rightarrow> (None, c, w1)
           | Some k \<Rightarrow>
               (let (c1, hw) = cc_uart_configure c (ports w1) in
                (Some k, c1, set_state k ((uart_states w1 ! k)
                   \<lparr>uart_config := c1, rd_num_wrds := 0, rd_num_byts := 0, rd_wrd_size := 8, rd_wrds_done := 0,
                    rd_byts_done := 0, rd_done := True, wrt_num_wrds := 0, wrt_num_byts := 0, wrt_wrd_size := 8,
                    wrt_wrds_done := 0, wrt_byts_done := 0, wrt_done := True\<rparr>) (w1\<lparr>ports := hw\<rparr>)))))"

definition cc_uart_deinit :: "nat \<Rightarrow> uart_world \<Rightarrow> int \<times> uart_world" where
  "cc_uart_deinit hndl w = free_uart_state hndl w"

section \<open>Transfers\<close>

text \<open>\<open>cb\<close> is the function \<open>int_callback\<close> points to; it gets the event and the value the flag
  \<open>rd_done\<close> or \<open>wrt_done\<close> has, and always a NULL cookie.\<close>

type_synonym uart_cb = "nat \<Rightarrow> cc_uart_event \<Rightarrow> bool \<Rightarrow> uart_world \<Rightarrow> uart_world option"

definition call_back :: "uart_cb \<Rightarrow> cc_uart_event \<Rightarrow> nat \<Rightarrow> uart_world \<Rightarrow> uart_world option" where
  "call_back cb ev hndl w = do {
     s \<leftarrow> state_at w hndl;
     if int_callback (uart_config s)
     then cb (rtos_hndl (uart_config s)) ev
            (if ev = write_complete \<or> ev = write_fail then wrt_done s else rd_done s) w
     else Some w
   }"

definition put_byte :: "nat \<Rightarrow> u8 \<Rightarrow> u8 list \<Rightarrow> u8 list option" where
  "put_byte i c bs = (if i < length bs then Some (bs[i := c]) else None)"

definition get_byte :: "nat \<Rightarrow> u8 list \<Rightarrow> u8 option" where
  "get_byte i bs = (if i < length bs then Some (bs ! i) else None)"

text \<open>Polling: one character after the other, until the counter is exactly the size.\<close>

partial_function (option) poll_read :: "u32 \<Rightarrow> u32 \<Rightarrow> u8 list \<Rightarrow> uart_hw \<Rightarrow> (u8 list \<times> uart_hw) option" where
  "poll_read rd_size i bs h = do {
     (c, h1) \<leftarrow> UARTCharGet h;
     bs1 \<leftarrow> put_byte (unat i) c bs;
     if i + 1 = rd_size then Some (bs1, h1) else poll_read rd_size (i + 1) bs1 h1
   }"

partial_function (option) poll_write :: "u32 \<Rightarrow> u32 \<Rightarrow> u8 list \<Rightarrow> uart_hw \<Rightarrow> uart_hw option" where
  "poll_write wrt_size i bs h = do {
     c \<leftarrow> get_byte (unat i) bs;
     let h1 = UARTCharPut c h;
     if i + 1 = wrt_size then Some h1 else poll_write wrt_size (i + 1) bs h1
   }"

text \<open>Characters put without waiting: those that find the queue full are dropped.\<close>

fun put_range :: "nat \<Rightarrow> nat \<Rightarrow> u8 list \<Rightarrow> uart_hw \<Rightarrow> uart_hw option" where
  "put_range i 0 bs h = Some h"
| "put_range i (Suc n) bs h = do {
     c \<leftarrow> get_byte i bs;
     put_range (Suc i) n bs (snd (UARTCharPutNonBlocking c h))
   }"

fun get_range :: "nat \<Rightarrow> nat \<Rightarrow> u8 list \<Rightarrow> uart_hw \<Rightarrow> (u8 list \<times> uart_hw) option" where
  "get_range i 0 bs h = Some (bs, h)"
| "get_range i (Suc n) bs h = do {
     let (c, h1) = UARTCharGetNonBlocking h;
     bs1 \<leftarrow> put_byte i (ucast c) bs;
     get_range (Suc i) n bs1 h1
   }"

definition INT_RX :: u32 where "INT_RX = 0x10"
definition INT_TX :: u32 where "INT_TX = 0x20"
definition INT_RT :: u32 where "INT_RT = 0x40"
definition INT_EOT :: u32 where "INT_EOT = 0x800"
definition INT_DMARX :: u32 where "INT_DMARX = 0x10000"
definition INT_DMATX :: u32 where "INT_DMATX = 0x20000"

definition port_of :: "cc_uart_state \<Rightarrow> u32" where "port_of s = base_addr (uart_config s)"

definition hw_do :: "nat \<Rightarrow> (uart_hw \<Rightarrow> uart_hw) \<Rightarrow> uart_world \<Rightarrow> uart_world" where
  "hw_do hndl f w = w\<lparr>ports := port_do (port_of (uart_states w ! hndl)) f (ports w)\<rparr>"

section \<open>The interrupt\<close>

text \<open>The characters left over after the last full word, fetched on the time-out of the receiver; the
  character is stored in a signed byte and compared with \<open>-1\<close>, the answer of an empty queue.\<close>

definition rest_step :: "cc_uart_state \<Rightarrow> uart_hw \<Rightarrow> (bool \<times> cc_uart_state \<times> uart_hw) option" where
  "rest_step s h =
     (let (c, h1) = UARTCharGetNonBlocking h; temp = (ucast c :: u8) in
      if temp \<noteq> - 1 then do {
        let y = rd_wrds_done s * ucast (rd_wrd_size s);
        bs \<leftarrow> put_byte (unat (y + rd_byts_done s)) temp (rd_buff s);
        Some (True, s\<lparr>rd_buff := bs, rd_byts_done := rd_byts_done s + 1, rd_num_byts := rd_num_byts s - 1\<rparr>, h1)
      } else Some (False, s, h1))"

fun rest_loop :: "nat \<Rightarrow> cc_uart_state \<Rightarrow> uart_hw \<Rightarrow> (cc_uart_state \<times> uart_hw) option" where
  "rest_loop 0 s h = Some (s, h)"
| "rest_loop (Suc n) s h = do {
     (again, s1, h1) \<leftarrow> rest_step s h;
     if again then rest_loop n s1 h1 else Some (s1, h1)
   }"

definition isr_timeout :: "cc_uart_state \<Rightarrow> uart_hw \<Rightarrow> (bool \<times> cc_uart_state \<times> uart_hw) option" where
  "isr_timeout s h = do {
     (s1, h1) \<leftarrow> rest_loop (unat (rd_num_byts s)) s (UARTIntClear INT_RT h);
     if rd_num_byts s1 = 0
     then Some (True, s1\<lparr>rd_done := True\<rparr>, UARTIntDisable INT_RT (UARTIntClear INT_RT h1))
     else Some (False, s1, h1)
   }"

definition isr_receive :: "cc_uart_state \<Rightarrow> uart_hw \<Rightarrow> (bool \<times> cc_uart_state \<times> uart_hw) option" where
  "isr_receive s h = do {
     let y = rd_wrds_done s * ucast (rd_wrd_size s);
     (bs, h1) \<leftarrow> get_range (unat y) (unat (rd_wrd_size s)) (rd_buff s) (UARTIntClear INT_RX h);
     let s1 = s\<lparr>rd_buff := bs, rd_wrds_done := rd_wrds_done s + 1, rd_num_wrds := rd_num_wrds s - 1\<rparr>;
     if rd_num_wrds s1 = 0 then
       (let h2 = UARTIntDisable INT_RX (UARTIntClear INT_RX h1) in
        if rd_num_byts s1 = 0 then Some (True, s1\<lparr>rd_done := True\<rparr>, h2)
        else Some (False, s1, UARTIntEnable INT_RT h2))
     else Some (False, s1, h1)
   }"

definition isr_transmit :: "cc_uart_state \<Rightarrow> uart_hw \<Rightarrow> (bool \<times> cc_uart_state \<times> uart_hw) option" where
  "isr_transmit s h = do {
     let h0 = UARTIntClear INT_TX h;
     let y = unat (fifo_size (uart_config s) + wrt_wrds_done s * ucast (wrt_wrd_size s));
     (s1, h1) \<leftarrow>
       (if wrt_num_wrds s = 0 then do {
          h1 \<leftarrow> put_range y (unat (wrt_num_byts s)) (wrt_buff s) h0;
          Some (s\<lparr>wrt_num_byts := 0\<rparr>, h1)
        } else do {
          h1 \<leftarrow> put_range y (unat (wrt_wrd_size s)) (wrt_buff s) h0;
          Some (s\<lparr>wrt_wrds_done := wrt_wrds_done s + 1, wrt_num_wrds := wrt_num_wrds s - 1\<rparr>, h1)
        });
     if wrt_num_wrds s1 = 0 \<and> wrt_num_byts s1 = 0
     then Some (True, s1\<lparr>wrt_done := True\<rparr>, UARTIntDisable INT_TX (UARTIntClear INT_TX h1))
     else Some (False, s1, h1)
   }"

text \<open>A part of the handler, run when its bit of the status is set: it yields whether the handler
  goes on to the callbacks.\<close>

definition isr_part ::
  "nat \<Rightarrow> u32 \<Rightarrow> u32 \<Rightarrow> (cc_uart_state \<Rightarrow> uart_hw \<Rightarrow> (bool \<times> cc_uart_state \<times> uart_hw) option)
   \<Rightarrow> uart_world \<Rightarrow> (bool \<times> uart_world) option" where
  "isr_part hndl stat flag f w =
     (if has_flag stat flag then do {
        s \<leftarrow> state_at w hndl;
        (stop, s1, h1) \<leftarrow> f s (ports w (port_of s));
        Some (stop, set_state hndl s1 (w\<lparr>ports := (ports w)(port_of s := h1)\<rparr>))
      } else Some (False, w))"

definition isr_dma_rx :: "nat \<Rightarrow> u32 \<Rightarrow> uart_world \<Rightarrow> (bool \<times> uart_world) option" where
  "isr_dma_rx hndl stat w =
     (if has_flag stat INT_DMARX then do {
        (_, w1) \<leftarrow> cc_uart_control hndl (e_start_rx_dma_transfer 0) (hw_do hndl (UARTIntClear INT_DMARX) w);
        let w2 = hw_do hndl (UARTIntDisable INT_DMARX) w1;
        s \<leftarrow> state_at w2 hndl;
        Some (True, set_state hndl (s\<lparr>rd_wrds_done := rd_num_wrds s, rd_num_wrds := 0, rd_done := True\<rparr>) w2)
      } else Some (False, w))"

definition isr_dma_tx :: "nat \<Rightarrow> u32 \<Rightarrow> uart_world \<Rightarrow> (bool \<times> uart_world) option" where
  "isr_dma_tx hndl stat w =
     (if has_flag stat INT_DMATX then do {
        (_, w1) \<leftarrow> cc_uart_control hndl (e_start_tx_dma_transfer 0) (hw_do hndl (UARTIntClear INT_DMATX) w);
        s \<leftarrow> state_at w1 hndl;
        Some (True, hw_do hndl (UARTIntDisable INT_DMATX) (set_state hndl (s\<lparr>wrt_done := True\<rparr>) w1))
      } else Some (False, w))"

text \<open>The end of the handler: behind the label of the write callback the code runs on into the read
  callback.\<close>

definition isr_read_done :: "uart_cb \<Rightarrow> nat \<Rightarrow> uart_world \<Rightarrow> uart_world option" where
  "isr_read_done cb hndl w = call_back cb read_complete hndl w"

definition isr_write_done :: "uart_cb \<Rightarrow> nat \<Rightarrow> uart_world \<Rightarrow> uart_world option" where
  "isr_write_done cb hndl w = do { w1 \<leftarrow> call_back cb write_complete hndl w; isr_read_done cb hndl w1 }"

definition cc_uart_isr :: "uart_cb \<Rightarrow> nat \<Rightarrow> uart_world \<Rightarrow> uart_world option" where
  "cc_uart_isr cb hndl w = do {
     s \<leftarrow> state_at w hndl;
     let stat = UARTIntStatus True (ports w (port_of s));
     if has_flag stat INT_EOT then
       isr_write_done cb hndl (hw_do hndl (\<lambda>h. UARTIntDisable INT_EOT (UARTIntClear INT_EOT h)) w)
     else do {
       (b1, w1) \<leftarrow> isr_part hndl stat INT_RT isr_timeout w;
       if b1 then isr_read_done cb hndl w1 else do {
         (b2, w2) \<leftarrow> isr_part hndl stat INT_RX isr_receive w1;
         if b2 then isr_read_done cb hndl w2 else do {
           (b3, w3) \<leftarrow> isr_part hndl stat INT_TX isr_transmit w2;
           if b3 then isr_write_done cb hndl w3 else do {
             (b4, w4) \<leftarrow> isr_dma_rx hndl stat w3;
             if b4 then isr_read_done cb hndl w4 else do {
               (b5, w5) \<leftarrow> isr_dma_tx hndl stat w4;
               if b5 then isr_write_done cb hndl w5 else Some w5
             }
           }
         }
       }
     }
   }"

section \<open>Submitting a transfer\<close>

text \<open>After an interrupt-driven read was set up the code spins until the flag is set; \<open>evs\<close> are the
  interrupts that come meanwhile, each with what the hardware did before it.\<close>

fun spin_rd_done :: "uart_cb \<Rightarrow> nat \<Rightarrow> (uart_hw \<Rightarrow> uart_hw) list \<Rightarrow> uart_world \<Rightarrow> uart_world option" where
  "spin_rd_done cb hndl [] w = do { s \<leftarrow> state_at w hndl; if rd_done s then Some w else None }"
| "spin_rd_done cb hndl (e # evs) w = do {
     s \<leftarrow> state_at w hndl;
     if rd_done s then Some w
     else do { w1 \<leftarrow> cc_uart_isr cb hndl (hw_do hndl e w); spin_rd_done cb hndl evs w1 }
   }"

definition cc_uart_rd_submit ::
  "uart_cb \<Rightarrow> (uart_hw \<Rightarrow> uart_hw) list \<Rightarrow> nat \<Rightarrow> u8 list \<Rightarrow> u32 \<Rightarrow> uart_world \<Rightarrow> (int \<times> uart_world) option" where
  "cc_uart_rd_submit cb evs hndl rd_data rd_size w = do {
     s \<leftarrow> state_at w hndl;
     let s0 = s\<lparr>rd_buff := rd_data, rd_wrds_done := 0, rd_byts_done := 0\<rparr>;
     let counted = s0\<lparr>rd_num_wrds := rd_size div ucast (rd_wrd_size s),
                      rd_num_byts := ucast (rd_size mod ucast (rd_wrd_size s)), rd_done := False\<rparr>;
     w1 \<leftarrow> (case rx_transfer_mode (uart_config s) of
              e_poll_based \<Rightarrow> do {
                (bs, h) \<leftarrow> poll_read rd_size 0 rd_data (ports w (port_of s));
                Some (set_state hndl (s0\<lparr>rd_buff := bs, rd_done := True\<rparr>) (w\<lparr>ports := (ports w)(port_of s := h)\<rparr>))
              }
            | e_int_based \<Rightarrow>
                Some (hw_do hndl (\<lambda>h. UARTIntEnable INT_RX (UARTIntClear INT_RX h)) (set_state hndl counted w))
            | e_dma_based \<Rightarrow>
                Some (hw_do hndl (\<lambda>h. UARTIntEnable INT_DMARX (UARTIntClear INT_DMARX h)) (set_state hndl counted w)));
     w2 \<leftarrow> spin_rd_done cb hndl evs w1;
     Some (0, w2)
   }"

definition wr_submit_int :: "uart_cb \<Rightarrow> nat \<Rightarrow> cc_uart_state \<Rightarrow> u32 \<Rightarrow> uart_world \<Rightarrow> uart_world option" where
  "wr_submit_int cb hndl s wrt_size w = do {
     let fs = fifo_size (uart_config s);
     let y = (if fs < wrt_size then fs else wrt_size);
     h \<leftarrow> put_range 0 (unat y) (wrt_buff s) (ports w (port_of s));
     let w1 = w\<lparr>ports := (ports w)(port_of s := h)\<rparr>;
     if y \<ge> wrt_size then call_back cb write_complete hndl (set_state hndl (s\<lparr>wrt_done := True\<rparr>) w1)
     else Some (hw_do hndl (\<lambda>h. UARTIntEnable INT_TX (UARTIntClear INT_TX h)) (set_state hndl
            (s\<lparr>wrt_done := False, wrt_num_wrds := (wrt_size - y) div ucast (wrt_wrd_size s),
              wrt_num_byts := ucast ((wrt_size - y) mod ucast (wrt_wrd_size s))\<rparr>) w1))
   }"

definition cc_uart_wr_submit :: "uart_cb \<Rightarrow> nat \<Rightarrow> u8 list \<Rightarrow> u32 \<Rightarrow> uart_world \<Rightarrow> (int \<times> uart_world) option" where
  "cc_uart_wr_submit cb hndl wrt_data wrt_size w = do {
     s0 \<leftarrow> state_at w hndl;
     let s = s0\<lparr>wrt_buff := wrt_data, wrt_wrds_done := 0, wrt_byts_done := 0\<rparr>;
     let w0 = set_state hndl s (hw_do hndl (\<lambda>h. if has_flag (UART_FR h) UART_FR_BUSY then transmit h else h) w);
     w1 \<leftarrow> (case tx_transfer_mode (uart_config s) of
              e_poll_based \<Rightarrow> do {
                h \<leftarrow> poll_write wrt_size 0 wrt_data (ports w0 (port_of s));
                Some (set_state hndl (s\<lparr>wrt_done := True\<rparr>) (w0\<lparr>ports := (ports w0)(port_of s := h)\<rparr>))
              }
            | e_int_based \<Rightarrow> wr_submit_int cb hndl s wrt_size w0
            | e_dma_based \<Rightarrow>
                Some (hw_do hndl (\<lambda>h. UARTIntEnable INT_DMATX (UARTIntClear INT_DMATX h)) (set_state hndl
                  (s\<lparr>wrt_num_wrds := wrt_size div ucast (wrt_wrd_size s),
                    wrt_num_byts := ucast (wrt_size mod ucast (wrt_wrd_size s)), wrt_done := False\<rparr>) w0)));
     Some (0, w1)
   }"

end
