(* ===== verification/Uart_Drv.thy ===== *)
theory Uart_Drv
  imports Uart_Hal Cc_Pm
begin

text \<open>
  The driver of the serial ports, \<open>middleware/driver/uart_drv.c\<close>: opening and closing, reading and
  writing, the answer to a change of the power state, and loading the driver into the power
  management framework.

  The semaphore and the mutex are those of the operating system: a wait for a signal that is not
  there and for a mutex another thread holds is \<open>None\<close>, because nothing in the call itself can end
  it.  Transfers of more than 80 bytes go through the DMA driver: setting up its channel
  (\<open>setup_uart_dma\<close>, \<open>dma_hal.c\<close>) acts on the DMA controller only, which is not part of the state here.
\<close>

section \<open>Driver objects\<close>

definition DMA_BUFF_SIZE_MIN :: int where "DMA_BUFF_SIZE_MIN = 80"

definition zero_rtos :: uart_rtos_driver where
  "zero_rtos = \<lparr>device_id = 0, hal_handle = None, sync_obj = None, lock_obj = None, ref_cnt = 0,
     tx_oper_mode = e_poll_based, rx_oper_mode = e_poll_based\<rparr>"

definition rtos_at :: "uart_world \<Rightarrow> nat \<Rightarrow> uart_rtos_driver option" where
  "rtos_at w d = (if d < length (uart_rtos_drv w) then Some (uart_rtos_drv w ! d) else None)"

definition set_rtos :: "nat \<Rightarrow> uart_rtos_driver \<Rightarrow> uart_world \<Rightarrow> uart_world" where
  "set_rtos d r w = w\<lparr>uart_rtos_drv := (uart_rtos_drv w)[d := r]\<rparr>"

text \<open>Called by the hardware layer; the value of the flag is stored through the cookie.\<close>

definition uart_callback_from_hal ::
  "int option \<Rightarrow> nat \<Rightarrow> cc_uart_event \<Rightarrow> bool \<Rightarrow> uart_world \<Rightarrow> (int \<times> uart_world) option" where
  "uart_callback_from_hal cookie rtos event evt_data w = do {
     _ \<leftarrow> cookie;
     drv \<leftarrow> rtos_at w rtos;
     n \<leftarrow> sync_obj drv;
     Some (if evt_data then 1 else 0, set_rtos rtos (drv\<lparr>sync_obj := Some (n + 1)\<rparr>) w)
   }"

text \<open>The hardware layer passes NULL.\<close>

definition uart_hal_cb :: uart_cb where
  "uart_hal_cb rtos event evt_data w = map_option snd (uart_callback_from_hal None rtos event evt_data w)"

definition uart_interrupt_handler :: "nat \<Rightarrow> uart_world \<Rightarrow> uart_world option" where
  "uart_interrupt_handler hal w = cc_uart_isr uart_hal_cb hal w"

definition check_uart_rtosdrv_inuse :: "u32 \<Rightarrow> uart_world \<Rightarrow> nat option" where
  "check_uart_rtosdrv_inuse dev_id w =
     find (\<lambda>d. device_id (uart_rtos_drv w ! d) = dev_id) [0..<MAX_UART_MODULES]"

definition get_available_uart_rtosdrv :: "uart_world \<Rightarrow> nat option" where
  "get_available_uart_rtosdrv w =
     find (\<lambda>d. hal_handle (uart_rtos_drv w ! d) = None) [0..<MAX_UART_MODULES]"

section \<open>Mutex and semaphore\<close>

definition RTOS_MUTEX_ACQUIRE_IMM :: "nat \<Rightarrow> uart_world \<Rightarrow> (int \<times> uart_world) option" where
  "RTOS_MUTEX_ACQUIRE_IMM d w = do {
     drv \<leftarrow> rtos_at w d;
     held \<leftarrow> lock_obj drv;
     Some (if held then (-2, w) else (0, set_rtos d (drv\<lparr>lock_obj := Some True\<rparr>) w))
   }"

definition RTOS_MUTEX_ACQUIRE :: "nat \<Rightarrow> uart_world \<Rightarrow> uart_world option" where
  "RTOS_MUTEX_ACQUIRE d w = do {
     (r, w1) \<leftarrow> RTOS_MUTEX_ACQUIRE_IMM d w;
     if r = 0 then Some w1 else None
   }"

definition RTOS_MUTEX_RELEASE :: "nat \<Rightarrow> uart_world \<Rightarrow> uart_world option" where
  "RTOS_MUTEX_RELEASE d w = do {
     drv \<leftarrow> rtos_at w d;
     _ \<leftarrow> lock_obj drv;
     Some (set_rtos d (drv\<lparr>lock_obj := Some False\<rparr>) w)
   }"

definition RTOS_SEM_WAIT :: "nat \<Rightarrow> uart_world \<Rightarrow> uart_world option" where
  "RTOS_SEM_WAIT d w = do {
     drv \<leftarrow> rtos_at w d;
     n \<leftarrow> sync_obj drv;
     if n > 0 then Some (set_rtos d (drv\<lparr>sync_obj := Some (n - 1)\<rparr>) w) else None
   }"

section \<open>Power management\<close>

text \<open>The states a driver can be in are full power and down; \<open>cur\<close> is its present state.\<close>

definition pm_transition :: "nat \<Rightarrow> int \<Rightarrow> mod_pm \<Rightarrow> mod_pm \<Rightarrow> uart_world \<Rightarrow> (int \<times> mod_pm \<times> uart_world) option" where
  "pm_transition hndl retval cur target w =
     (if cur = e_pm_M0 \<and> target = e_pm_M4 then do {
        (r, w1) \<leftarrow> cc_uart_control hndl e_context_save w;
        Some (r, if r < 0 then cur else e_pm_M4, w1)
      } else if cur = e_pm_M4 \<and> target = e_pm_M0 then do {
        (r, w1) \<leftarrow> cc_uart_control hndl e_context_restore w;
        Some (r, if r < 0 then cur else e_pm_M0, w1)
      } else Some (retval, cur, w))"

definition uart_handle_pm_cmd :: "nat \<Rightarrow> mod_pm \<Rightarrow> mod_pm \<Rightarrow> uart_world \<Rightarrow> (int \<times> mod_pm \<times> uart_world) option" where
  "uart_handle_pm_cmd d cur target w = do {
     drv \<leftarrow> rtos_at w d;
     hndl \<leftarrow> hal_handle drv;
     case lock_obj drv of
       None \<Rightarrow> pm_transition hndl (-1) cur target w
     | Some _ \<Rightarrow> do {
         (retval, w1) \<leftarrow> RTOS_MUTEX_ACQUIRE_IMM d w;
         if retval < 0 then Some (retval, cur, w1)
         else do {
           (r, st, w2) \<leftarrow> pm_transition hndl retval cur target w1;
           w3 \<leftarrow> RTOS_MUTEX_RELEASE d w2;
           Some (r, st, w3)
         }
       }
   }"

text \<open>The same as the framework calls it.  A call without a defined result (a driver object that is not
  there or has no control block) is not hidden: the driver goes to the log \<open>pm_undefined\<close>, and the
  properties show that the log stays empty.\<close>

definition uart_power :: "nat \<Rightarrow> mod_pm \<Rightarrow> mod_pm \<Rightarrow> uart_world \<Rightarrow> int \<times> mod_pm \<times> uart_world" where
  "uart_power d cur target w =
     (case uart_handle_pm_cmd d cur target w of Some x \<Rightarrow> x | None \<Rightarrow> (-1, cur, w\<lparr>pm_undefined := insert d (pm_undefined w)\<rparr>))"

section \<open>Loading\<close>

definition zero_drv :: "'w module_drv" where
  "zero_drv = \<lparr>hw_module = None, pm_state = e_pm_M0, goto2pm_mode = None\<rparr>"

text \<open>The pool is cleared each time a port is loaded, and so are the driver structures in it the
  framework knows.\<close>

definition reset_uart_rtosdrv :: "uart_world pm \<Rightarrow> uart_world pm" where
  "reset_uart_rtosdrv p =
     p\<lparr>world := (world p)\<lparr>uart_rtos_drv := replicate MAX_UART_MODULES zero_rtos\<rparr>,
       drivers := (drivers p)[0 := zero_drv, 1 := zero_drv]\<rparr>"

definition free_uart_rtosdrv :: "nat \<Rightarrow> uart_world pm \<Rightarrow> uart_world pm" where
  "free_uart_rtosdrv d p =
     (if d < MAX_UART_MODULES
      then p\<lparr>world := set_rtos d zero_rtos (world p), drivers := (drivers p)[d := zero_drv]\<rparr> else p)"

definition uart_driver_load :: "cc_uart_config \<Rightarrow> nat \<Rightarrow> uart_world pm \<Rightarrow> (int \<times> uart_world pm) option" where
  "uart_driver_load cfg m p0 =
     (let p1 = reset_uart_rtosdrv p0 in
      case check_uart_rtosdrv_inuse (module_id cfg) (world p1) of
        Some _ \<Rightarrow> Some (-1, p1)
      | None \<Rightarrow>
          (case get_available_uart_rtosdrv (world p1) of
             None \<Rightarrow> Some (-1, p1)
           | Some d \<Rightarrow> do {
               let (hndl, c1, w1) = cc_uart_init (cfg\<lparr>int_callback := True, rtos_hndl := d\<rparr>) (world p1);
               case hndl of
                 None \<Rightarrow> Some (-1, free_uart_rtosdrv d (p1\<lparr>world := w1\<rparr>))
               | Some h \<Rightarrow> do {
                   let w2 = set_rtos d (zero_rtos\<lparr>device_id := module_id c1, hal_handle := Some h,
                              tx_oper_mode := tx_transfer_mode c1, rx_oper_mode := rx_transfer_mode c1\<rparr>) w1;
                   let p2 = p1\<lparr>world := w2, drivers := (drivers p1)[d := \<lparr>hw_module = None, pm_state = e_pm_M0,
                              goto2pm_mode = Some (uart_power d)\<rparr>]\<rparr>;
                   (ret, p3) \<leftarrow> cc_module_drv_register (Some m) (Some d) p2;
                   if ret < 0 then do {
                     p4 \<leftarrow> cc_module_drv_unregister d p3;
                     Some (-1, free_uart_rtosdrv d (p4\<lparr>world := snd (cc_uart_deinit h (world p4))\<rparr>))
                   } else Some (0, p3)
                 }
             }))"

section \<open>The interface of the driver\<close>

text \<open>\<open>sem_ok\<close> and \<open>mutex_ok\<close> tell whether the operating system can create the two objects.\<close>

definition uart_open :: "bool \<Rightarrow> bool \<Rightarrow> u32 \<Rightarrow> uart_world \<Rightarrow> (nat option \<times> uart_world) option" where
  "uart_open sem_ok mutex_ok mid w =
     (case check_uart_rtosdrv_inuse mid w of
        None \<Rightarrow> Some (None, w)
      | Some d \<Rightarrow> do {
          drv \<leftarrow> rtos_at w d;
          w1 \<leftarrow> (case lock_obj drv of
                   Some _ \<Rightarrow> map_option Some (RTOS_MUTEX_ACQUIRE d w)
                 | None \<Rightarrow>
                     if sem_ok \<and> mutex_ok
                     then map_option Some (RTOS_MUTEX_ACQUIRE d
                            (set_rtos d (drv\<lparr>sync_obj := Some 0, lock_obj := Some False\<rparr>) w))
                     else Some None);
          case w1 of
            None \<Rightarrow> Some (None, set_rtos d (drv\<lparr>sync_obj := None, lock_obj := None\<rparr>) w)
          | Some w2 \<Rightarrow> do {
              drv2 \<leftarrow> rtos_at w2 d;
              w3 \<leftarrow> RTOS_MUTEX_RELEASE d (set_rtos d (drv2\<lparr>ref_cnt := ref_cnt drv2 + 1\<rparr>) w2);
              Some (Some d, w3)
            }
        })"

definition uart_close :: "nat \<Rightarrow> uart_world \<Rightarrow> (int \<times> uart_world) option" where
  "uart_close d w = do {
     w1 \<leftarrow> RTOS_MUTEX_ACQUIRE d w;
     drv \<leftarrow> rtos_at w1 d;
     w2 \<leftarrow> RTOS_MUTEX_RELEASE d (set_rtos d (drv\<lparr>ref_cnt := ref_cnt drv - 1\<rparr>) w1);
     Some (0, w2)
   }"

text \<open>The transfer by DMA as far as the port is concerned: the addresses of its registers are asked
  for, the transfer is submitted to the hardware layer as any other, whatever that answers, and the
  request of the port is switched on.  \<open>tx_data\<close> and \<open>rx_data\<close> are \<open>None\<close> for NULL; without both the
  read is submitted with no buffer.\<close>

definition setup_dma_transfer ::
  "(uart_hw \<Rightarrow> uart_hw) list \<Rightarrow> nat \<Rightarrow> u8 list option \<Rightarrow> u8 list option \<Rightarrow> int \<Rightarrow> uart_world \<Rightarrow> uart_world option" where
  "setup_dma_transfer evs hndl tx_data rx_data len w = do {
     (_, w1) \<leftarrow> cc_uart_control hndl e_get_dma_info w;
     case tx_data of
       Some bs \<Rightarrow> do {
         (_, w2) \<leftarrow> cc_uart_wr_submit uart_hal_cb hndl bs (word_of_int len) w1;
         case rx_data of
           None \<Rightarrow> Some w2
         | Some rb \<Rightarrow> map_option snd (cc_uart_rd_submit uart_hal_cb evs hndl rb (word_of_int len) w2)
       }
     | None \<Rightarrow> map_option snd (cc_uart_rd_submit uart_hal_cb evs hndl
                 (case rx_data of None \<Rightarrow> [] | Some rb \<Rightarrow> rb) (word_of_int len) w1)
   }"

definition trigger_uart_dma_transfer ::
  "(uart_hw \<Rightarrow> uart_hw) list \<Rightarrow> nat \<Rightarrow> u8 list option \<Rightarrow> u8 list option \<Rightarrow> int \<Rightarrow> uart_world \<Rightarrow> uart_world option" where
  "trigger_uart_dma_transfer evs hndl tx_data rx_data len w = do {
     w1 \<leftarrow> setup_dma_transfer evs hndl tx_data rx_data len w;
     w2 \<leftarrow> (if tx_data = None then Some w1
            else map_option snd (cc_uart_control hndl (e_start_tx_dma_transfer 1) w1));
     if rx_data = None then Some w2
     else map_option snd (cc_uart_control hndl (e_start_rx_dma_transfer 1) w2)
   }"

text \<open>\<open>wr_pend\<close> and \<open>rd_pend\<close> are \<open>-1\<close> from the start; their addresses go down as cookies that the
  hardware layer does not use, and nothing assigns to them.\<close>

definition uart_write ::
  "nat \<Rightarrow> u8 list \<Rightarrow> int \<Rightarrow> uart_world \<Rightarrow> (int \<times> uart_world) option" where
  "uart_write d wr_data len w = do {
     w1 \<leftarrow> RTOS_MUTEX_ACQUIRE d w;
     drv \<leftarrow> rtos_at w1 d;
     hndl \<leftarrow> hal_handle drv;
     w3 \<leftarrow> (if len > DMA_BUFF_SIZE_MIN then do {
              w2 \<leftarrow> trigger_uart_dma_transfer [] hndl (Some wr_data) None len w1;
              RTOS_SEM_WAIT d w2
            } else do {
              (r, w2) \<leftarrow> cc_uart_wr_submit uart_hal_cb hndl wr_data (word_of_int len) w1;
              if 0 > r then Some w2
              else if tx_oper_mode drv = e_int_based then RTOS_SEM_WAIT d w2 else Some w2
            });
     w4 \<leftarrow> RTOS_MUTEX_RELEASE d w3;
     let wr_pend = (-1 :: int);
     Some (if wr_pend < 0 then -1 else len - wr_pend, w4)
   }"

text \<open>The data read is in the buffer of the control block, which is the caller's.\<close>

definition uart_read ::
  "(uart_hw \<Rightarrow> uart_hw) list \<Rightarrow> nat \<Rightarrow> u8 list \<Rightarrow> int \<Rightarrow> uart_world
   \<Rightarrow> (int \<times> uart_world) option" where
  "uart_read evs d rd_data len w = do {
     w1 \<leftarrow> RTOS_MUTEX_ACQUIRE d w;
     drv \<leftarrow> rtos_at w1 d;
     hndl \<leftarrow> hal_handle drv;
     w3 \<leftarrow> (if len > DMA_BUFF_SIZE_MIN then do {
              w2 \<leftarrow> trigger_uart_dma_transfer evs hndl None (Some rd_data) len w1;
              RTOS_SEM_WAIT d w2
            } else do {
              (r, w2) \<leftarrow> cc_uart_rd_submit uart_hal_cb evs hndl rd_data (word_of_int len) w1;
              if 0 > r then Some w2
              else if rx_oper_mode drv = e_int_based then RTOS_SEM_WAIT d w2 else Some w2
            });
     w4 \<leftarrow> RTOS_MUTEX_RELEASE d w3;
     let rd_pend = (-1 :: int);
     Some (if rd_pend < 0 then -1 else len - rd_pend, w4)
   }"

end
