(* ===== verification/Gpio_Hal.thy ===== *)
theory Gpio_Hal
  imports CC_Prelude "HOL-Library.Monad_Syntax"
begin

unbundle bit_operations_syntax

text \<open>
  The general purpose pins: the functions of \<open>driverlib/gpio.c\<close> that are used, and
  \<open>middleware/driver/hal/gpio_hal.c\<close>.  The four ports are a list as in the code; a handle is the index
  of a port, and \<open>None\<close> the use of a handle that is none.  The callback the application gives is the
  log \<open>notified\<close> of the pins it was called for.  The critical sections around the changes have no
  effect of their own.
\<close>

section \<open>The registers: \<open>driverlib/gpio.c\<close>\<close>

record gpio_regs =
  GPIO_DIR :: u32
  GPIO_IBE :: u32
  GPIO_IS :: u32
  GPIO_IEV :: u32
  GPIO_IM :: u32
  GPIO_RIS :: u32
  GPIO_DATA :: u32

definition set_bits :: "bool \<Rightarrow> u8 \<Rightarrow> u32 \<Rightarrow> u32" where
  "set_bits b pins v = (if b then v OR ucast pins else v AND NOT (ucast pins))"

definition GPIODirModeSet :: "u8 \<Rightarrow> u32 \<Rightarrow> gpio_regs \<Rightarrow> gpio_regs" where
  "GPIODirModeSet pins ulPinIO g = g\<lparr>GPIO_DIR := set_bits (has_flag ulPinIO 1) pins (GPIO_DIR g)\<rparr>"

definition GPIOIntTypeSet :: "u8 \<Rightarrow> u32 \<Rightarrow> gpio_regs \<Rightarrow> gpio_regs" where
  "GPIOIntTypeSet pins t g = g\<lparr>GPIO_IBE := set_bits (has_flag t 1) pins (GPIO_IBE g),
     GPIO_IS := set_bits (has_flag t 2) pins (GPIO_IS g), GPIO_IEV := set_bits (has_flag t 4) pins (GPIO_IEV g)\<rparr>"

definition GPIOIntEnable :: "u32 \<Rightarrow> gpio_regs \<Rightarrow> gpio_regs" where
  "GPIOIntEnable flags g = g\<lparr>GPIO_IM := GPIO_IM g OR flags\<rparr>"

definition GPIOIntDisable :: "u32 \<Rightarrow> gpio_regs \<Rightarrow> gpio_regs" where
  "GPIOIntDisable flags g = g\<lparr>GPIO_IM := GPIO_IM g AND NOT flags\<rparr>"

definition GPIOIntStatus :: "bool \<Rightarrow> gpio_regs \<Rightarrow> u32" where
  "GPIOIntStatus bMasked g = (if bMasked then GPIO_RIS g AND GPIO_IM g else GPIO_RIS g)"

definition GPIOIntClear :: "u32 \<Rightarrow> gpio_regs \<Rightarrow> gpio_regs" where
  "GPIOIntClear flags g = g\<lparr>GPIO_RIS := GPIO_RIS g AND NOT flags\<rparr>"

text \<open>The data register is accessed through an address that masks the pins.\<close>

definition GPIOPinRead :: "u8 \<Rightarrow> gpio_regs \<Rightarrow> u32" where
  "GPIOPinRead pins g = GPIO_DATA g AND ucast pins"

text \<open>A write changes the pins that are configured as outputs; it has no effect on an input.\<close>

definition GPIOPinWrite :: "u8 \<Rightarrow> u8 \<Rightarrow> gpio_regs \<Rightarrow> gpio_regs" where
  "GPIOPinWrite pins v g =
     (let outs = GPIO_DIR g AND ucast pins
      in g\<lparr>GPIO_DATA := (GPIO_DATA g AND NOT outs) OR (ucast v AND outs)\<rparr>)"

section \<open>The state: \<open>gpio_hal.c\<close>\<close>

record gpio_port =
  port_base :: u32
  validity_mask :: u8
  special_purpose_mask :: u8
  pin_status :: u8
  pin_state :: u8
  pin_direction :: u8
  pin_int_en :: u8
  pin_inttype :: u32
  pin_wake_src :: u8

record gpio_world =
  gregs :: "u32 \<Rightarrow> gpio_regs"
  gports :: "gpio_port list"
  drv_notify_cb :: bool
  notified :: "u32 list"

definition MAX_GPIO_PORTS :: nat where "MAX_GPIO_PORTS = 4"

definition GPIO_TYPE_NORMAL :: u32 where "GPIO_TYPE_NORMAL = 1"
definition GPIO_TYPE_WAKE_SOURCE :: u32 where "GPIO_TYPE_WAKE_SOURCE = 2"

definition EXTRACT_PORT :: "u32 \<Rightarrow> nat" where "EXTRACT_PORT g = unat (drop_bit 3 g)"
definition EXTRACT_PIN :: "u32 \<Rightarrow> nat" where "EXTRACT_PIN g = unat (g AND 7)"

definition pin_mask :: "nat \<Rightarrow> u8" where "pin_mask n = push_bit n 1"

definition port_at :: "gpio_world \<Rightarrow> nat \<Rightarrow> gpio_port option" where
  "port_at w h = (if h < length (gports w) then Some (gports w ! h) else None)"

definition upd_port :: "nat \<Rightarrow> gpio_port \<Rightarrow> gpio_world \<Rightarrow> gpio_world" where
  "upd_port h p w = w\<lparr>gports := (gports w)[h := p]\<rparr>"

definition upd_regs :: "gpio_port \<Rightarrow> (gpio_regs \<Rightarrow> gpio_regs) \<Rightarrow> gpio_world \<Rightarrow> gpio_world" where
  "upd_regs p f w = w\<lparr>gregs := (gregs w)(port_base p := f (gregs w (port_base p)))\<rparr>"

text \<open>The checks every function with a handle begins with: the port number of the pin is in range
  and the port has the pin; and, where the pin must be open, that it is.\<close>

definition pin_ok :: "gpio_port \<Rightarrow> u32 \<Rightarrow> bool" where
  "pin_ok p g \<longleftrightarrow> EXTRACT_PORT g < MAX_GPIO_PORTS \<and> has_flag (validity_mask p) (pin_mask (EXTRACT_PIN g))"

definition pin_open :: "gpio_port \<Rightarrow> u32 \<Rightarrow> bool" where
  "pin_open p g \<longleftrightarrow> pin_ok p g \<and> has_flag (pin_status p) (pin_mask (EXTRACT_PIN g))"

section \<open>Interrupts\<close>

definition notify :: "u32 \<Rightarrow> gpio_world \<Rightarrow> gpio_world" where
  "notify g w = w\<lparr>notified := notified w @ [g]\<rparr>"

text \<open>The port is looked up by its base address; the first port stands for one that is not found.\<close>

definition find_port :: "u32 \<Rightarrow> gpio_world \<Rightarrow> nat" where
  "find_port base w =
     (case find (\<lambda>i. port_base (gports w ! i) = base) [0..<MAX_GPIO_PORTS] of None \<Rightarrow> 0 | Some i \<Rightarrow> i)"

definition gpio_interrupt_handler :: "u32 \<Rightarrow> gpio_world \<Rightarrow> gpio_world" where
  "gpio_interrupt_handler base w =
     (let intr_status = GPIOIntStatus True (gregs w base);
          port_num = find_port base w;
          w1 = (if drv_notify_cb w
                then fold (\<lambda>i w. if has_flag intr_status (push_bit i 1)
                                 then notify (push_bit 3 (of_nat port_num) OR of_nat i) w else w) [0..<7] w
                else w)
      in w1\<lparr>gregs := (gregs w1)(base := GPIOIntClear intr_status (gregs w1 base))\<rparr>)"

definition gpio_wake_interrupt_handler :: "u32 \<Rightarrow> gpio_world \<Rightarrow> gpio_world" where
  "gpio_wake_interrupt_handler gpio_num w = (if drv_notify_cb w then notify gpio_num w else w)"

section \<open>Initialisation\<close>

text \<open>A port of the platform is given by its address and its two masks; all settings start at zero.\<close>

definition new_port :: "u32 \<times> u8 \<times> u8 \<Rightarrow> gpio_port" where
  "new_port i = (case i of (base, valid, special) \<Rightarrow>
     \<lparr>port_base = base, validity_mask = valid, special_purpose_mask = special, pin_status = 0, pin_state = 0,
      pin_direction = 0, pin_int_en = 0, pin_inttype = 0, pin_wake_src = 0\<rparr>)"

definition cc_gpio_init :: "(u32 \<times> u8 \<times> u8) list \<Rightarrow> bool \<Rightarrow> gpio_world \<Rightarrow> int \<times> gpio_world" where
  "cc_gpio_init infos notify_cb w =
     (0, w\<lparr>gports := map new_port (take MAX_GPIO_PORTS infos), drv_notify_cb := notify_cb\<rparr>)"

definition cc_gpio_get_callback :: "gpio_world \<Rightarrow> bool" where
  "cc_gpio_get_callback w = drv_notify_cb w"

definition cc_gpio_save_context :: "gpio_world \<Rightarrow> gpio_world" where "cc_gpio_save_context w = w"

section \<open>Opening, reading and writing a pin\<close>

definition cc_gpio_open :: "u32 \<Rightarrow> bool \<Rightarrow> gpio_world \<Rightarrow> (nat option \<times> gpio_world) option" where
  "cc_gpio_open g output w =
     (let n = EXTRACT_PORT g; b = pin_mask (EXTRACT_PIN g) in
      if n \<ge> MAX_GPIO_PORTS then Some (None, w)
      else do {
        p \<leftarrow> port_at w n;
        if \<not> has_flag (validity_mask p) b then Some (None, w)
        else (let p1 = p\<lparr>pin_status := pin_status p OR b\<rparr>;
                  p2 = (if output then p1\<lparr>pin_direction := pin_direction p1 OR b\<rparr>
                        else p1\<lparr>pin_direction := pin_direction p1 AND NOT b\<rparr>)
              in Some (Some n, upd_port n p2 (upd_regs p (GPIODirModeSet b (if output then 1 else 0)) w)))
      })"

definition cc_gpio_close :: "nat \<Rightarrow> u32 \<Rightarrow> gpio_world \<Rightarrow> (int \<times> gpio_world) option" where
  "cc_gpio_close h g w = do {
     p \<leftarrow> port_at w h;
     let b = pin_mask (EXTRACT_PIN g);
     if \<not> pin_ok p g then Some (-1, w)
     else Some (0, upd_port h (p\<lparr>pin_status := pin_status p AND NOT b, pin_state := pin_state p AND NOT b,
                                pin_direction := pin_direction p AND NOT b\<rparr>) w)
   }"

definition cc_gpio_read :: "nat \<Rightarrow> u32 \<Rightarrow> gpio_world \<Rightarrow> (int \<times> u8 option \<times> gpio_world) option" where
  "cc_gpio_read h g w = do {
     p \<leftarrow> port_at w h;
     let n = EXTRACT_PIN g;
     let b = pin_mask n;
     if \<not> pin_open p g then Some (-1, None, w)
     else (let reg = GPIOPinRead b (gregs w (port_base p));
               v = (ucast (drop_bit n (reg AND ucast b)) :: u8) AND 1;
               p1 = p\<lparr>pin_state := (pin_state p AND NOT b) OR push_bit n v\<rparr>
           in Some (0, Some v, upd_port h p1 w))
   }"

definition cc_gpio_write :: "nat \<Rightarrow> u32 \<Rightarrow> u8 \<Rightarrow> gpio_world \<Rightarrow> (int \<times> gpio_world) option" where
  "cc_gpio_write h g gpio_val w = do {
     p \<leftarrow> port_at w h;
     let n = EXTRACT_PIN g;
     let b = pin_mask n;
     if \<not> pin_open p g then Some (-1, w)
     else (let v = push_bit n (gpio_val AND 1);
               p1 = p\<lparr>pin_state := (pin_state p AND NOT b) OR v\<rparr>
           in Some (0, upd_port h p1 (upd_regs p (GPIOPinWrite b v) w)))
   }"

definition cc_gpio_toggle :: "nat \<Rightarrow> u32 \<Rightarrow> gpio_world \<Rightarrow> (int \<times> gpio_world) option" where
  "cc_gpio_toggle h g w = do {
     p \<leftarrow> port_at w h;
     let n = EXTRACT_PIN g;
     let b = pin_mask n;
     if \<not> pin_open p g then Some (-1, w)
     else (let reg = GPIOPinRead b (gregs w (port_base p));
               old = (ucast (drop_bit n (reg AND ucast b)) :: u8);
               v = push_bit n (if old > 0 then 0 else 1);
               p1 = p\<lparr>pin_state := pin_state p OR v\<rparr>
           in Some (0, upd_port h p1 (upd_regs p (GPIOPinWrite b v) w)))
   }"

section \<open>Notifications\<close>

text \<open>The type of the interrupt is kept in a field of four bits that starts at bit twice the number of
  the pin.\<close>

definition put_inttype :: "nat \<Rightarrow> u32 \<Rightarrow> u32 \<Rightarrow> u32" where
  "put_inttype n t v = (v AND NOT (push_bit (n * 2) 0xF)) OR push_bit (n * 2) (t AND 0xF)"

definition get_inttype :: "nat \<Rightarrow> u32 \<Rightarrow> u32" where
  "get_inttype n v = drop_bit (n * 2) v AND 0xF"

definition cc_gpio_enable_notification :: "nat \<Rightarrow> u32 \<Rightarrow> u32 \<Rightarrow> u32 \<Rightarrow> gpio_world \<Rightarrow> (int \<times> gpio_world) option" where
  "cc_gpio_enable_notification h g gpio_type flags w = do {
     p \<leftarrow> port_at w h;
     let n = EXTRACT_PIN g;
     let b = pin_mask n;
     if \<not> pin_open p g then Some (-1, w)
     else if has_flag flags GPIO_TYPE_WAKE_SOURCE \<and> \<not> has_flag (special_purpose_mask p) b then Some (-1, w)
     else (let (p1, w1) =
                 (if has_flag flags GPIO_TYPE_NORMAL
                  then (p\<lparr>pin_int_en := pin_int_en p OR b\<rparr>,
                        upd_regs p (\<lambda>r. GPIOIntEnable (ucast b) (GPIOIntClear (ucast b) (GPIOIntTypeSet b gpio_type r))) w)
                  else (p, w));
               p2 = (if has_flag flags GPIO_TYPE_WAKE_SOURCE
                     then p1\<lparr>pin_wake_src := pin_wake_src p1 OR b\<rparr> else p1);
               p3 = p2\<lparr>pin_inttype := put_inttype n gpio_type (pin_inttype p2)\<rparr>
           in Some (0, upd_port h p3 w1))
   }"

definition cc_gpio_disable_notification :: "nat \<Rightarrow> u32 \<Rightarrow> gpio_world \<Rightarrow> (int \<times> gpio_world) option" where
  "cc_gpio_disable_notification h g w = do {
     p \<leftarrow> port_at w h;
     let n = EXTRACT_PIN g;
     let b = pin_mask n;
     if \<not> pin_open p g then Some (-1, w)
     else Some (0, upd_port h (p\<lparr>pin_int_en := pin_int_en p AND NOT b,
                                pin_inttype := pin_inttype p AND NOT (push_bit (n * 2) 0xF),
                                pin_wake_src := pin_wake_src p AND NOT b\<rparr>)
                    (upd_regs p (GPIOIntDisable (ucast b)) w))
   }"

text \<open>The pins that can wake up the system with their types, at most \<open>count\<close>: the result, and what was
  written to the two arrays of the caller.  The last place is reported but not filled.\<close>

definition spl_pins :: "gpio_port \<Rightarrow> nat list" where
  "spl_pins p = filter (\<lambda>i. has_flag (pin_wake_src p AND special_purpose_mask p) (pin_mask i)) [0..<8]"

fun spl_loop :: "nat \<Rightarrow> (nat \<times> nat) list \<Rightarrow> gpio_world \<Rightarrow> (u8 \<times> u8) list \<Rightarrow> int \<times> (u8 \<times> u8) list" where
  "spl_loop count [] w acc = (int (length acc), acc)"
| "spl_loop count ((k, i) # rest) w acc =
     (if length acc = count - 1 then (int count, acc)
      else spl_loop count rest w
             (acc @ [(push_bit 3 (of_nat k) OR of_nat i, ucast (get_inttype i (pin_inttype (gports w ! k))))]))"

definition cc_gpio_get_spl_purpose :: "nat \<Rightarrow> gpio_world \<Rightarrow> int \<times> (u8 \<times> u8) list" where
  "cc_gpio_get_spl_purpose count w =
     (if count = 0 then (-1, [])
      else spl_loop count (concat (map (\<lambda>k. map (\<lambda>i. (k, i)) (spl_pins (gports w ! k))) [0..<MAX_GPIO_PORTS])) w [])"

section \<open>Restoring the pins\<close>

definition restore_pin :: "gpio_port \<Rightarrow> nat \<Rightarrow> gpio_regs \<Rightarrow> gpio_regs" where
  "restore_pin p i r =
     (let b = pin_mask i in
      if has_flag (pin_status p) b then
        (let out = has_flag (pin_direction p) b;
             r1 = GPIODirModeSet b (if out then 1 else 0) r
         in if has_flag (pin_int_en p) b then
              GPIOIntEnable (ucast b) (GPIOIntClear (ucast b)
                (GPIOIntTypeSet b (ucast (drop_bit (i * 2) (ucast (pin_inttype p AND push_bit (i * 2) 0xF) :: u16))) r1))
            else if out then GPIOPinWrite b (pin_state p) r1 else r1)
      else r)"

definition restore_gpio_port :: "gpio_port \<Rightarrow> gpio_world \<Rightarrow> gpio_world" where
  "restore_gpio_port p w = upd_regs p (fold (restore_pin p) [0..<8]) w"

definition cc_gpio_restore_context :: "gpio_world \<Rightarrow> gpio_world" where
  "cc_gpio_restore_context w =
     fold (\<lambda>k w. if pin_status (gports w ! k) \<noteq> 0 then restore_gpio_port (gports w ! k) w else w)
       [0..<MAX_GPIO_PORTS] w"

end
