(* ===== verification/Cc_Pm_Ops.thy ===== *)
theory Cc_Pm_Ops
  imports Cc_Pm Uart_Drv Gpio_Hal Rtc_Hal
begin

unbundle bit_operations_syntax

text \<open>
  The platform below the power management framework: \<open>middleware/soc/cc_pm_ops.c\<close> with the functions
  of \<open>driverlib/prcm.c\<close> it calls, and the table of operations of the sample board,
  \<open>example/idle_profile/lp3p0_plat_ops.c\<close>.

  The record \<open>soc\<close> is the world of the framework: the serial ports, the pins, the clock with its
  alarm, the registers of the power controller and of the interrupt controller.  While the chip
  sleeps in S3 the interrupt controller, the pins and the serial ports lose their registers (\<open>lpds\<close>);
  memory, the power controller and the clock keep theirs.  Registers that nothing here reads (pads,
  antenna selection, DMA, clock gates) are left out.
\<close>

section \<open>Registers\<close>

record nvic =
  NVIC_VTABLE :: u32
  NVIC_ACTLR :: u32
  NVIC_INT_CTRL :: u32
  NVIC_APINT :: u32
  NVIC_SYS_CTRL :: u32
  NVIC_CFG_CTRL :: u32
  NVIC_SYS_PRI1 :: u32
  NVIC_SYS_PRI2 :: u32
  NVIC_SYS_PRI3 :: u32
  NVIC_SYS_HND_CTRL :: u32
  NVIC_ST_CTRL :: u32
  NVIC_ST_RELOAD :: u32
  NVIC_ST_CAL :: u32
  NVIC_EN :: "u32 list"
  NVIC_PRI :: "u32 list"
  NVIC_PEND :: "u32 list"

record soc =
  uarts :: uart_world
  pins :: gpio_world
  clk :: rtc_state
  nvic_regs :: nvic
  nvic_reg_store :: nvic
  LPDS_WAKEUP_CFG :: u32
  LPDS_WAKEUP_SRC :: u32
  LPDS_WAKETIME_WAKE :: u32
  LPDS_WAKETIME_OPP :: u32
  LPDS_GPIO_SEL :: u32
  GPIO_WAKE_CONF :: u32
  SRAM_DSLP_CFG :: u32
  SRAM_LPDS_CFG :: u32
  HIB_RTC_WAKE_EN :: u32
  HIB_RTC_WAKE_LSW :: u32
  HIB_RTC_WAKE_MSW :: u32
  HIB_GPIO_WAKE_EN :: u32
  HIB_GPIO_WAKE_CONF :: u32
  I2C_SEM :: u32
  GPIO_SEM :: u32
  spl_gpio_wakefrom_lpds :: u32
  user_sel_power_mode :: u32
  critical :: int
  stray :: "nat \<Rightarrow> u8"

section \<open>The power controller: \<open>prcm.c\<close>\<close>

definition PRCM_LPDS_HOST_IRQ :: u32 where "PRCM_LPDS_HOST_IRQ = 0x80"
definition PRCM_LPDS_GPIO :: u32 where "PRCM_LPDS_GPIO = 0x10"
definition PRCM_LPDS_TIMER :: u32 where "PRCM_LPDS_TIMER = 0x01"
definition PRCM_HIB_SLOW_CLK_CTR :: u32 where "PRCM_HIB_SLOW_CLK_CTR = 1"
definition PRCM_SRAM_DSLP_RET :: u32 where "PRCM_SRAM_DSLP_RET = 1"
definition PRCM_SRAM_LPDS_RET :: u32 where "PRCM_SRAM_LPDS_RET = 2"

definition PRCMLPDSWakeupSourceEnable :: "u32 \<Rightarrow> soc \<Rightarrow> soc" where
  "PRCMLPDSWakeupSourceEnable src w = w\<lparr>LPDS_WAKEUP_CFG := (LPDS_WAKEUP_CFG w OR src) AND 0x91\<rparr>"

definition PRCMLPDSWakeupSourceDisable :: "u32 \<Rightarrow> soc \<Rightarrow> soc" where
  "PRCMLPDSWakeupSourceDisable src w = w\<lparr>LPDS_WAKEUP_CFG := LPDS_WAKEUP_CFG w AND NOT src\<rparr>"

definition PRCMLPDSWakeupCauseGet :: "soc \<Rightarrow> u32" where
  "PRCMLPDSWakeupCauseGet w = LPDS_WAKEUP_SRC w"

definition PRCMLPDSIntervalSet :: "u32 \<Rightarrow> soc \<Rightarrow> soc" where
  "PRCMLPDSIntervalSet ulTicks w =
     (let t = (if ulTicks < 21 then 21 else ulTicks)
      in w\<lparr>LPDS_WAKETIME_WAKE := t, LPDS_WAKETIME_OPP := t - 20\<rparr>)"

definition PRCMLPDSWakeUpGPIOSelect :: "u32 \<Rightarrow> u32 \<Rightarrow> soc \<Rightarrow> soc" where
  "PRCMLPDSWakeUpGPIOSelect ulGPIOPin ulType w = w\<lparr>LPDS_GPIO_SEL := ulGPIOPin, GPIO_WAKE_CONF := ulType AND 3\<rparr>"

definition PRCMSRAMRetentionEnable :: "u32 \<Rightarrow> u32 \<Rightarrow> soc \<Rightarrow> soc" where
  "PRCMSRAMRetentionEnable ulSramColSel flags w =
     (let w1 = (if has_flag flags PRCM_SRAM_DSLP_RET then w\<lparr>SRAM_DSLP_CFG := ulSramColSel AND 0xF\<rparr> else w)
      in if has_flag flags PRCM_SRAM_LPDS_RET then w1\<lparr>SRAM_LPDS_CFG := ulSramColSel AND 0xF\<rparr> else w1)"

definition PRCMHibernateWakeupSourceEnable :: "u32 \<Rightarrow> soc \<Rightarrow> soc" where
  "PRCMHibernateWakeupSourceEnable src w =
     w\<lparr>HIB_RTC_WAKE_EN := HIB_RTC_WAKE_EN w OR (src AND 1),
       HIB_GPIO_WAKE_EN := HIB_GPIO_WAKE_EN w OR (drop_bit 16 src AND 0xFF)\<rparr>"

definition PRCMHibernateWakeupSourceDisable :: "u32 \<Rightarrow> soc \<Rightarrow> soc" where
  "PRCMHibernateWakeupSourceDisable src w =
     w\<lparr>HIB_RTC_WAKE_EN := HIB_RTC_WAKE_EN w AND NOT (src AND 1),
       HIB_GPIO_WAKE_EN := HIB_GPIO_WAKE_EN w AND NOT (drop_bit 16 src AND 0xFF)\<rparr>"

definition set_hib :: "hib_regs \<Rightarrow> soc \<Rightarrow> soc" where
  "set_hib h w = w\<lparr>clk := (clk w)\<lparr>hib := h\<rparr>\<rparr>"

definition scc_get :: "soc \<Rightarrow> u64 \<times> soc" where
  "scc_get w = (let (v, h) = PRCMSlowClkCtrGet (hib (clk w)) in (v, set_hib h w))"

definition PRCMHibernateIntervalSet :: "u64 \<Rightarrow> soc \<Rightarrow> soc" where
  "PRCMHibernateIntervalSet ullTicks w =
     (let (now, w1) = scc_get w; v = now + ullTicks
      in w1\<lparr>HIB_RTC_WAKE_LSW := ucast v, HIB_RTC_WAKE_MSW := ucast (drop_bit 32 v)\<rparr>)"

definition PRCMHibernateWakeUpGPIOSelect :: "u32 \<Rightarrow> u32 \<Rightarrow> soc \<Rightarrow> soc" where
  "PRCMHibernateWakeUpGPIOSelect ulGPIOBitMap ulType w =
     fold (\<lambda>i w. if has_flag (drop_bit 16 ulGPIOBitMap) (push_bit i 1)
                 then w\<lparr>HIB_GPIO_WAKE_CONF := HIB_GPIO_WAKE_CONF w OR push_bit (i * 2) ulType\<rparr> else w) [0..<7] w"

section \<open>Wake-up sources: \<open>cc_pm_ops.c\<close>\<close>

definition WAKEUP_TIME_LPDS :: u64 where "WAKEUP_TIME_LPDS = 425 + 98 + 131"
definition WAKEUP_TIME_HIB :: u64 where "WAKEUP_TIME_HIB = 16384"
definition LPDS_WDOG_TIME :: u32 where "LPDS_WDOG_TIME = 32768"
definition ERR_TIMER_TO_WAKE :: int where "ERR_TIMER_TO_WAKE = -2"
definition MAX_GPIO_WAKESOURCE :: nat where "MAX_GPIO_WAKESOURCE = 6"

definition gpio_wake_src :: "u8 list" where "gpio_wake_src = [2, 4, 13, 17, 11, 24]"
definition gpio_lpds_inttype :: "u8 list" where "gpio_lpds_inttype = [1, 1, 2, 0xFF, 3, 0xFF, 0]"
definition gpio_hib_inttype :: "u8 list" where "gpio_hib_inttype = [2, 2, 0, 0xFF, 3, 0xFF, 1]"

text \<open>A look-up in a table of bytes; behind its end is what the memory holds.\<close>

definition table_at :: "u8 list \<Rightarrow> u8 \<Rightarrow> soc \<Rightarrow> u8" where
  "table_at tbl i w = (if unat i < length tbl then tbl ! unat i else stray w (unat i))"

definition setup_S3_wakeup_from_nw :: "soc \<Rightarrow> int \<times> soc" where
  "setup_S3_wakeup_from_nw w =
     (if has_flag (NVIC_EN (nvic_regs w) ! 5) (push_bit 11 1)
      then (0, PRCMLPDSWakeupSourceEnable PRCM_LPDS_HOST_IRQ w) else (-1, w))"

text \<open>The first pin that is marked as a wake-up source is looked for in the table of the pins that can
  be one; when it is not found the function returns success all the same.\<close>

definition check_n_setup_S3_wakeup_from_gpio :: "soc \<Rightarrow> int \<times> soc" where
  "check_n_setup_S3_wakeup_from_gpio w =
     (case cc_gpio_get_spl_purpose MAX_GPIO_WAKESOURCE (pins w) of
        (retval, found) \<Rightarrow>
          if retval > 0 then
            (case found of
               [] \<Rightarrow> (0, w)
             | (num, type) # _ \<Rightarrow>
                 (case find (\<lambda>i. gpio_wake_src ! i = num) [0..<length gpio_wake_src] of
                    None \<Rightarrow> (0, w)
                  | Some i \<Rightarrow>
                      (0, (PRCMLPDSWakeupSourceEnable PRCM_LPDS_GPIO
                            (PRCMLPDSWakeUpGPIOSelect (of_nat i) (ucast (table_at gpio_lpds_inttype type w)) w))
                          \<lparr>spl_gpio_wakefrom_lpds := ucast num\<rparr>)))
          else (-1, w))"

text \<open>Before the clock driver is initialised there is no alarm.\<close>

definition has_alarm_set :: "soc \<Rightarrow> bool" where
  "has_alarm_set w = (cc_rtc_has_alarm (clk w) = Some True)"

definition check_n_setup_S3_wakeup_from_timer :: "soc \<Rightarrow> int \<times> soc" where
  "check_n_setup_S3_wakeup_from_timer w =
     (if has_alarm_set w then
        (let scc_match = PRCMSlowClkCtrMatchGet (hib (clk w));
             (scc_curr, w1) = scc_get w
         in if scc_match > scc_curr \<and> scc_match - scc_curr > WAKEUP_TIME_LPDS then
              (let rem = scc_match - scc_curr - WAKEUP_TIME_LPDS;
                   rem32 = (if rem > 0xFFFFFFFF then 0xFFFFFFFF else rem)
               in (0, PRCMLPDSWakeupSourceEnable PRCM_LPDS_TIMER (PRCMLPDSIntervalSet (ucast rem32) w1)))
            else (ERR_TIMER_TO_WAKE, w1))
      else (-1, PRCMLPDSWakeupSourceDisable PRCM_LPDS_TIMER w))"

text \<open>When six pins are reported only five are filled in; the last is indeterminate, and it is taken for
  none of the pins that can wake up the system.\<close>

definition setup_hib_gpio_wake :: "u32 \<Rightarrow> u32 \<Rightarrow> soc \<Rightarrow> soc" where
  "setup_hib_gpio_wake gpio_num gpio_wake_type w =
     PRCMHibernateWakeupSourceEnable gpio_num (PRCMHibernateWakeUpGPIOSelect gpio_num gpio_wake_type w)"

definition hib_gpio_bit :: "u8 \<Rightarrow> u32 option" where
  "hib_gpio_bit num =
     (if num = 2 then Some 0x10000 else if num = 4 then Some 0x20000 else if num = 13 then Some 0x40000
      else if num = 17 then Some 0x80000 else if num = 11 then Some 0x100000 else if num = 24 then Some 0x200000
      else None)"

definition check_n_setup_S4_wakeup_from_gpio :: "soc \<Rightarrow> int \<times> soc" where
  "check_n_setup_S4_wakeup_from_gpio w =
     (case cc_gpio_get_spl_purpose MAX_GPIO_WAKESOURCE (pins w) of
        (retval, found) \<Rightarrow>
          if retval > 0 then
            (0, fold (\<lambda>(num, type) w. case hib_gpio_bit num of None \<Rightarrow> w
                        | Some b \<Rightarrow> setup_hib_gpio_wake b (ucast (table_at gpio_hib_inttype type w)) w) found w)
          else (-1, w))"

definition check_n_setup_S4_wakeup_from_timer :: "soc \<Rightarrow> int \<times> soc" where
  "check_n_setup_S4_wakeup_from_timer w =
     (if has_alarm_set w then
        (let scc_match = PRCMSlowClkCtrMatchGet (hib (clk w));
             (scc_curr, w1) = scc_get w
         in if scc_match > scc_curr then
              if scc_match - scc_curr > WAKEUP_TIME_HIB then
                (0, PRCMHibernateWakeupSourceEnable PRCM_HIB_SLOW_CLK_CTR
                      (PRCMHibernateIntervalSet (scc_match - scc_curr - WAKEUP_TIME_HIB) w1))
              else (ERR_TIMER_TO_WAKE, w1)
            else (-1, w1))
      else (-1, PRCMHibernateWakeupSourceDisable PRCM_HIB_SLOW_CLK_CTR w))"

definition wkup_result :: "int \<Rightarrow> int \<Rightarrow> int \<Rightarrow> soc \<Rightarrow> int \<times> soc" where
  "wkup_result nw_ret gpio_ret timer_ret w =
     (if timer_ret = ERR_TIMER_TO_WAKE then (-1, w)
      else if nw_ret < 0 \<and> gpio_ret < 0 \<and> timer_ret < 0 then (-1, w)
      else if gpio_ret < 0 \<and> timer_ret < 0 then
        (0, PRCMLPDSWakeupSourceEnable PRCM_LPDS_TIMER (PRCMLPDSIntervalSet LPDS_WDOG_TIME w))
      else (0, w))"

definition cc_set_up_wkup_srcs :: "soc_pm \<Rightarrow> soc \<Rightarrow> int \<times> soc" where
  "cc_set_up_wkup_srcs target w =
     (case target of
        e_pm_S3 \<Rightarrow>
          (let (nw_ret, w1) = setup_S3_wakeup_from_nw w;
               (gpio_ret, w2) = check_n_setup_S3_wakeup_from_gpio w1;
               (timer_ret, w3) = check_n_setup_S3_wakeup_from_timer w2
           in wkup_result nw_ret gpio_ret timer_ret w3)
      | e_pm_S4 \<Rightarrow>
          (let (gpio_ret, w1) = check_n_setup_S4_wakeup_from_gpio w;
               (timer_ret, w2) = check_n_setup_S4_wakeup_from_timer w1
           in wkup_result (-1) gpio_ret timer_ret w2)
      | _ \<Rightarrow> wkup_result (-1) (-1) (-1) w)"

definition wake_interrupt_handler :: "soc \<Rightarrow> soc" where
  "wake_interrupt_handler w =
     (if PRCMLPDSWakeupCauseGet w = PRCM_LPDS_GPIO
      then w\<lparr>pins := gpio_wake_interrupt_handler (spl_gpio_wakefrom_lpds w) (pins w)\<rparr> else w)"

section \<open>Interrupts, entering and leaving\<close>

text \<open>Triggering the interrupt of the power controller (number 188) by hand.\<close>

definition cc_handle_S3_wakeup :: "soc \<Rightarrow> int \<times> soc" where
  "cc_handle_S3_wakeup w =
     (0, w\<lparr>nvic_regs := (nvic_regs w)\<lparr>NVIC_PEND := (NVIC_PEND (nvic_regs w))
              [5 := NVIC_PEND (nvic_regs w) ! 5 OR push_bit 12 1]\<rparr>\<rparr>)"

definition nvic_int_mask :: "u32 list" where
  "nvic_int_mask = [0x01FFC16F, 0x00C81800, 0x00000000, 0x00000000, 0x02900000, 0x00039902]"

definition cc_are_irqs_pending :: "soc \<Rightarrow> bool \<times> soc" where
  "cc_are_irqs_pending w =
     (\<exists>i \<in> set [0..<6]. NVIC_PEND (nvic_regs w) ! i AND nvic_int_mask ! i \<noteq> 0, w)"

definition cc_enter_S4 :: "soc \<Rightarrow> soc option" where "cc_enter_S4 w = None"

definition reset_uart_hw :: "uart_hw \<Rightarrow> uart_hw" where
  "reset_uart_hw h = h\<lparr>rx_fifo := [], tx_fifo := [], UART_IM := 0, UART_RIS := 0, UART_LCRH := 0, UART_CTL := 0,
     UART_IBRD := 0, UART_FBRD := 0, UART_IFLS := 0, UART_DMACTL := 0\<rparr>"

definition reset_gpio_regs :: gpio_regs where
  "reset_gpio_regs = \<lparr>GPIO_DIR = 0, GPIO_IBE = 0, GPIO_IS = 0, GPIO_IEV = 0, GPIO_IM = 0, GPIO_RIS = 0, GPIO_DATA = 0\<rparr>"

definition reset_nvic :: nvic where
  "reset_nvic = \<lparr>NVIC_VTABLE = 0, NVIC_ACTLR = 0, NVIC_INT_CTRL = 0, NVIC_APINT = 0, NVIC_SYS_CTRL = 0,
     NVIC_CFG_CTRL = 0, NVIC_SYS_PRI1 = 0, NVIC_SYS_PRI2 = 0, NVIC_SYS_PRI3 = 0, NVIC_SYS_HND_CTRL = 0,
     NVIC_ST_CTRL = 0, NVIC_ST_RELOAD = 0, NVIC_ST_CAL = 0, NVIC_EN = replicate 6 0, NVIC_PRI = replicate 49 0,
     NVIC_PEND = replicate 6 0\<rparr>"

definition lpds :: "soc \<Rightarrow> soc" where
  "lpds w = w\<lparr>uarts := (uarts w)\<lparr>ports := reset_uart_hw \<circ> ports (uarts w)\<rparr>,
     pins := (pins w)\<lparr>gregs := \<lambda>_. reset_gpio_regs\<rparr>, nvic_regs := reset_nvic\<rparr>"

text \<open>The addresses the boot ROM continues with are in the control flow of the framework's model.\<close>

definition cc_enter_S3 :: "soc \<Rightarrow> bool \<times> soc" where
  "cc_enter_S3 w = (True, lpds w)"

definition cc_enter_S2 :: "soc \<Rightarrow> soc" where "cc_enter_S2 w = w"

definition cc_enter_S1 :: "soc \<Rightarrow> soc" where "cc_enter_S1 w = w"

section \<open>Saving and restoring\<close>

definition back_up_nvic_regs :: "soc \<Rightarrow> soc" where
  "back_up_nvic_regs w = w\<lparr>nvic_reg_store := (nvic_regs w)\<lparr>NVIC_PEND := NVIC_PEND (nvic_reg_store w)\<rparr>\<rparr>"

text \<open>The interrupt control register is saved but not written back.  Writing to the enable registers
  sets bits.\<close>

definition restore_nvic_regs :: "soc \<Rightarrow> soc" where
  "restore_nvic_regs w =
     (let st = nvic_reg_store w; n = nvic_regs w in
      w\<lparr>nvic_regs := st\<lparr>NVIC_INT_CTRL := NVIC_INT_CTRL n, NVIC_EN := map2 (OR) (NVIC_EN n) (NVIC_EN st),
         NVIC_PEND := NVIC_PEND n\<rparr>\<rparr>)"

definition cc_back_up_soc_data :: "u32 \<Rightarrow> soc \<Rightarrow> soc" where
  "cc_back_up_soc_data ram_retention w =
     back_up_nvic_regs (PRCMSRAMRetentionEnable ram_retention PRCM_SRAM_LPDS_RET w)"

definition cc_restore_soc_data :: "soc \<Rightarrow> soc" where
  "cc_restore_soc_data w =
     restore_nvic_regs (w\<lparr>I2C_SEM := (I2C_SEM w AND NOT 3) OR 1, GPIO_SEM := (GPIO_SEM w AND NOT 0x3FF) OR 0x155\<rparr>)"

section \<open>The sample board: \<open>lp3p0_plat_ops.c\<close>\<close>

definition POWER_POLICY_STANDBY :: u32 where "POWER_POLICY_STANDBY = 1"
definition POWER_POLICY_HIBERNATE :: u32 where "POWER_POLICY_HIBERNATE = 2"
definition POWER_POLICY_SLEEP :: u32 where "POWER_POLICY_SLEEP = 0"

definition lp3p0_can_try_pm_state :: "soc_pm \<Rightarrow> soc \<Rightarrow> bool \<times> soc" where
  "lp3p0_can_try_pm_state target w =
     ((case target of
         e_pm_S1 \<Rightarrow> has_flag (user_sel_power_mode w) POWER_POLICY_SLEEP
       | e_pm_S3 \<Rightarrow> has_flag (user_sel_power_mode w) POWER_POLICY_STANDBY
       | e_pm_S4 \<Rightarrow> has_flag (user_sel_power_mode w) POWER_POLICY_HIBERNATE
       | _ \<Rightarrow> False), w)"

definition lp3p0_back_up_soc_data :: "soc \<Rightarrow> soc" where
  "lp3p0_back_up_soc_data w = cc_back_up_soc_data 7 w"

definition lp3p0_restore_soc_data :: "soc \<Rightarrow> soc" where
  "lp3p0_restore_soc_data w =
     (let w1 = cc_restore_soc_data w;
          w2 = w1\<lparr>pins := cc_gpio_restore_context (pins w1)\<rparr>
      in set_hib (PRCMIntEnable PRCM_INT_SLOW_CLK_CTR (hib (clk w2))) w2)"

definition lp3p0_setup_power_policy :: "u32 \<Rightarrow> soc \<Rightarrow> soc" where
  "lp3p0_setup_power_policy power_policy w = w\<lparr>user_sel_power_mode := power_policy\<rparr>"

definition lp3p0_enter_hibernate :: "soc \<Rightarrow> soc option" where
  "lp3p0_enter_hibernate w = cc_enter_S4 w"

text \<open>The critical sections of the operating system nest (\<open>oslib/osi_freertos.c\<close>); the key is always 0.\<close>

definition osi_EnterCritical :: "soc \<Rightarrow> u32 \<times> soc" where
  "osi_EnterCritical w = (0, w\<lparr>critical := critical w + 1\<rparr>)"

definition osi_ExitCritical :: "u32 \<Rightarrow> soc \<Rightarrow> soc" where
  "osi_ExitCritical ulKey w = w\<lparr>critical := critical w - 1\<rparr>"

definition lp3p0_pm_ops :: "soc platform_pm_ops" where
  "lp3p0_pm_ops = \<lparr>set_up_wkup_srcs = Some cc_set_up_wkup_srcs, handle_S3_wakeup = Some cc_handle_S3_wakeup,
     are_irqs_pending = Some cc_are_irqs_pending, can_try_pm_state = Some lp3p0_can_try_pm_state,
     enter_S4 = Some lp3p0_enter_hibernate, enter_S3 = Some cc_enter_S3, enter_S2 = Some cc_enter_S2,
     enter_S1 = Some cc_enter_S1, back_up_soc_data = Some lp3p0_back_up_soc_data,
     restore_soc_data = Some lp3p0_restore_soc_data, dsbl_sys_irq = Some osi_EnterCritical,
     enbl_sys_irq = Some osi_ExitCritical\<rparr>"

text \<open>The handler of a serial port as a driver of this platform.\<close>

definition soc_power :: "nat \<Rightarrow> mod_pm \<Rightarrow> mod_pm \<Rightarrow> soc \<Rightarrow> int \<times> mod_pm \<times> soc" where
  "soc_power d cur target w =
     (case uart_power d cur target (uarts w) of (r, st, u) \<Rightarrow> (r, st, w\<lparr>uarts := u\<rparr>))"

end
