(* ===== verification/Cc_Pm_List.thy ===== *)
theory Cc_Pm_List
  imports Cc_Pm
begin

text \<open>
  The list of the modules in use: read as a list of indices, registering a driver appends to it and
  unregistering removes from it; the two walks over it always end.  The counter of its length is
  only counted up, which locks the deep power states for good.
\<close>

section \<open>The chain as a list\<close>

fun mod_chain :: "'w soc_module list \<Rightarrow> nat option \<Rightarrow> nat list \<Rightarrow> bool" where
  "mod_chain ms hm [] = (hm = None)"
| "mod_chain ms hm (m # xs) = (hm = Some m \<and> m < length ms \<and> mod_chain ms (next_mod (ms ! m)) xs)"

lemma mod_chain_None [simp]: "mod_chain ms None xs = (xs = [])" by (cases xs) auto

lemma mod_chain_bound: "mod_chain ms hm xs \<Longrightarrow> set xs \<subseteq> {..<length ms}"
  by (induction xs arbitrary: hm) auto

lemma mod_chain_unique: "mod_chain ms hm xs \<Longrightarrow> mod_chain ms hm ys \<Longrightarrow> xs = ys"
proof (induction xs arbitrary: hm ys)
  case Nil
  then show ?case by simp
next
  case (Cons x xs)
  then show ?case by (cases ys) auto
qed

lemma mod_chain_cong:
  assumes "length ms' = length ms" "\<And>m. m \<in> set xs \<Longrightarrow> next_mod (ms' ! m) = next_mod (ms ! m)"
  shows "mod_chain ms' hm xs = mod_chain ms hm xs"
  using assms(2)
proof (induction xs arbitrary: hm)
  case Nil
  then show ?case by simp
next
  case (Cons x xs)
  show ?case using Cons.IH Cons.prems by (simp add: assms(1))
qed

text \<open>The last module of a chain, and appending behind it.\<close>

lemma mod_chain_append:
  assumes "mod_chain ms hm xs" "xs \<noteq> []" "distinct xs" "m < length ms" "m \<notin> set xs" "next_mod (ms ! m) = None"
  shows "mod_chain (ms[last xs := (ms ! last xs)\<lparr>next_mod := Some m\<rparr>]) hm (xs @ [m])"
  using assms
proof (induction xs arbitrary: hm)
  case Nil
  then show ?case by simp
next
  case (Cons x xs)
  show ?case
  proof (cases "xs = []")
    case True
    with Cons.prems show ?thesis by simp
  next
    case False
    then have "last xs \<noteq> x" using Cons.prems(3) by auto
    then show ?thesis using Cons.IH [of "next_mod (ms ! x)"] Cons.prems False by (simp add: nth_list_update)
  qed
qed

lemma last_loop_chain:
  assumes "pform p" "mod_chain (modules p) (Some m) xs"
  shows "last_loop m p = Some (last xs)"
  using assms(2)
proof (induction xs arbitrary: m)
  case Nil
  then show ?case by simp
next
  case (Cons x xs)
  then have m: "m = x" "x < length (modules p)" "mod_chain (modules p) (next_mod (modules p ! x)) xs" by auto
  show ?case
  proof (cases "next_mod (modules p ! x)")
    case None
    with m show ?thesis by (simp add: last_loop.simps module_at_def)
  next
    case (Some y)
    with m have "xs \<noteq> []" by (cases xs) auto
    then show ?thesis using m Some Cons.IH [of y] by (subst last_loop.simps) (simp add: module_at_def)
  qed
qed

section \<open>The invariant of the registration\<close>

text \<open>The chain is \<open>xs\<close>; the modules of the chain are exactly those bound to a driver, and the
  bindings of modules and drivers are inverse to each other.\<close>

definition registered :: "'w pm \<Rightarrow> nat list \<Rightarrow> bool" where
  "registered p xs \<longleftrightarrow>
     pform p \<and> mod_chain (modules p) (used_mod_list p) xs \<and> distinct xs
     \<and> (\<forall>m < length (modules p). m \<in> set xs \<longleftrightarrow> my_driver (modules p ! m) \<noteq> None)
     \<and> (\<forall>m < length (modules p). \<forall>d. my_driver (modules p ! m) = Some d \<longrightarrow> d < length (drivers p))
     \<and> (\<forall>m < length (modules p). \<forall>d < length (drivers p).
          my_driver (modules p ! m) = Some d \<longleftrightarrow> hw_module (drivers p ! d) = Some m)"

lemma registeredD:
  assumes "registered p xs"
  shows "pform p" "mod_chain (modules p) (used_mod_list p) xs" "distinct xs" "set xs \<subseteq> {..<length (modules p)}"
    "\<And>m. m < length (modules p) \<Longrightarrow> m \<in> set xs \<longleftrightarrow> my_driver (modules p ! m) \<noteq> None"
    "\<And>m d. m < length (modules p) \<Longrightarrow> my_driver (modules p ! m) = Some d \<Longrightarrow> d < length (drivers p)"
    "\<And>m d. m < length (modules p) \<Longrightarrow> d < length (drivers p) \<Longrightarrow>
       my_driver (modules p ! m) = Some d \<longleftrightarrow> hw_module (drivers p ! d) = Some m"
  using assms mod_chain_bound [of "modules p" "used_mod_list p" xs] by (simp_all add: registered_def)

lemma registered_driver:
  assumes "registered p xs" "m \<in> set xs"
  obtains d where "m < length (modules p)" "my_driver (modules p ! m) = Some d" "d < length (drivers p)"
    "hw_module (drivers p ! d) = Some m"
proof -
  note r = registeredD [OF assms(1)]
  have m: "m < length (modules p)" using r(4) assms(2) by auto
  obtain d where d: "my_driver (modules p ! m) = Some d" using r(5) [OF m] assms(2) by auto
  show ?thesis using that [OF m d r(6) [OF m d]] r(7) [OF m r(6) [OF m d]] d by simp
qed

text \<open>Two modules of the chain have different drivers.\<close>

lemma registered_inj:
  assumes "registered p xs" "m \<in> set xs" "m' \<in> set xs"
    "my_driver (modules p ! m) = Some d" "my_driver (modules p ! m') = Some d"
  shows "m = m'"
proof (rule registered_driver [OF assms(1,2)])
  fix d1 assume 1: "my_driver (modules p ! m) = Some d1" "hw_module (drivers p ! d1) = Some m"
  show ?thesis
  proof (rule registered_driver [OF assms(1,3)])
    fix d2 assume "my_driver (modules p ! m') = Some d2" "hw_module (drivers p ! d2) = Some m'"
    then show ?thesis using 1 assms(4,5) by simp
  qed
qed

text \<open>A module that is bound to another driver stops the search of \<open>unregister\<close> nowhere.\<close>

lemma unregister_loop_other:
  assumes "mod_chain (modules p) hm xs" "\<forall>m \<in> set xs. my_driver (modules p ! m) \<noteq> Some d"
  shows "unregister_loop prev hm d p = Some p"
  using assms
proof (induction xs arbitrary: hm prev)
  case Nil
  then show ?case by (simp add: unregister_loop.simps)
next
  case (Cons x xs)
  then show ?case by (subst unregister_loop.simps) (simp add: module_at_def)
qed

definition unlink :: "nat option \<Rightarrow> nat \<Rightarrow> nat \<Rightarrow> 'w pm \<Rightarrow> 'w pm" where
  "unlink prev m d p = set_hw_module d None (set_my_driver m None
     (case prev of Some q \<Rightarrow> link_next q (next_mod (modules p ! m)) p
                 | None \<Rightarrow> p\<lparr>used_mod_list := next_mod (modules p ! m)\<rparr>))"

lemma unregister_loop_finds:
  assumes "mod_chain (modules p) hm (xs @ m # ys)" "\<forall>x \<in> set xs. my_driver (modules p ! x) \<noteq> Some d"
    "my_driver (modules p ! m) = Some d"
  shows "unregister_loop prev hm d p = Some (unlink (if xs = [] then prev else Some (last xs)) m d p)"
  using assms
proof (induction xs arbitrary: hm prev)
  case Nil
  then show ?case by (subst unregister_loop.simps) (simp add: module_at_def unlink_def split: option.splits)
next
  case (Cons x xs)
  then show ?case by (subst unregister_loop.simps) (simp add: module_at_def)
qed

text \<open>Taking a module out of the middle of a chain.\<close>

lemma mod_chain_split_next:
  assumes "mod_chain ms hm (xs @ m # ys)" "xs \<noteq> []" "distinct (xs @ m # ys)"
  shows "mod_chain (ms[last xs := (ms ! last xs)\<lparr>next_mod := next_mod (ms ! m)\<rparr>]) hm (xs @ ys)"
  using assms
proof (induction xs arbitrary: hm)
  case Nil
  then show ?case by simp
next
  case (Cons x xs)
  show ?case
  proof (cases "xs = []")
    case True
    have "mod_chain (ms[x := (ms ! x)\<lparr>next_mod := next_mod (ms ! m)\<rparr>]) (next_mod (ms ! m)) ys"
      using Cons.prems True by (subst mod_chain_cong) (auto simp: nth_list_update)
    with Cons.prems True show ?thesis by simp
  next
    case False
    then have "last xs \<noteq> x" using Cons.prems(3) by auto
    then show ?thesis using Cons.IH [of "next_mod (ms ! x)"] Cons.prems False by (simp add: nth_list_update)
  qed
qed

lemma mod_chain_head_next: "mod_chain ms hm (m # ys) \<Longrightarrow> mod_chain ms (next_mod (ms ! m)) ys" by simp

section \<open>Registering and unregistering\<close>

lemma bind_chain:
  assumes "mod_chain (modules p) hm xs" "m \<notin> set xs"
  shows "mod_chain (modules (link_next m x (set_my_driver m y (set_hw_module d z p)))) hm xs"
proof -
  have "next_mod (modules (link_next m x (set_my_driver m y (set_hw_module d z p))) ! k)
      = next_mod (modules p ! k)" if "k \<in> set xs" for k
  proof -
    have "k \<noteq> m" using that assms(2) by auto
    then show ?thesis by (simp add: link_next_def set_my_driver_def set_hw_module_def)
  qed
  then show ?thesis using assms(1)
    by (subst mod_chain_cong [where ms = "modules p"]) (simp_all add: link_next_def set_my_driver_def set_hw_module_def)
qed

lemma register_eq:
  assumes "pform p" "mod_chain (modules p) (used_mod_list p) xs" "m \<notin> set xs" "m < length (modules p)"
    "d < length (drivers p)" "my_driver (modules p ! m) = None" "hw_module (drivers p ! d) = None"
  defines "q \<equiv> link_next m None (set_my_driver m (Some d) (set_hw_module d (Some m) p))"
  shows "cc_module_drv_register (Some m) (Some d) p
    = Some (0, (if xs = [] then q\<lparr>used_mod_list := Some m\<rparr> else link_next (last xs) (Some m) q)
                 \<lparr>used_list_len := used_list_len p + 1\<rparr>)"
proof -
  have q: "used_mod_list q = used_mod_list p" "used_list_len q = used_list_len p" "pform q"
    using assms(1) by (simp_all add: q_def link_next_def set_my_driver_def set_hw_module_def)
  have c: "mod_chain (modules q) (used_mod_list q) xs"
    using bind_chain [OF assms(2,3)] q(1) by (simp add: q_def)
  have "add2tail_used_mod_list m q
    = Some ((if xs = [] then q\<lparr>used_mod_list := Some m\<rparr> else link_next (last xs) (Some m) q)
              \<lparr>used_list_len := used_list_len p + 1\<rparr>)"
  proof (cases xs)
    case Nil
    then show ?thesis using c q by (simp add: add2tail_used_mod_list_def)
  next
    case (Cons x ys)
    then have "used_mod_list q = Some x" using c by simp
    moreover have "last_loop x q = Some (last xs)" using last_loop_chain [OF q(3)] c calculation by simp
    ultimately show ?thesis using Cons q by (simp add: add2tail_used_mod_list_def link_next_def)
  qed
  then show ?thesis using assms(1,4-7)
    by (simp add: cc_module_drv_register_def module_at_def driver_at_def q_def)
qed

lemma register_facts:
  assumes "pform p" "mod_chain (modules p) (used_mod_list p) xs" "distinct xs" "m \<notin> set xs" "m < length (modules p)"
    "d < length (drivers p)" "my_driver (modules p ! m) = None" "hw_module (drivers p ! d) = None"
  obtains p' where "cc_module_drv_register (Some m) (Some d) p = Some (0, p')"
    "mod_chain (modules p') (used_mod_list p') (xs @ [m])" "pform p'"
    "length (modules p') = length (modules p)" "length (drivers p') = length (drivers p)"
    "\<And>k. k < length (modules p) \<Longrightarrow> my_driver (modules p' ! k) = (if k = m then Some d else my_driver (modules p ! k))"
    "\<And>e. e < length (drivers p) \<Longrightarrow> hw_module (drivers p' ! e) = (if e = d then Some m else hw_module (drivers p ! e))"
    "used_list_len p' = used_list_len p + 1" "world p' = world p"
proof -
  let ?q = "link_next m None (set_my_driver m (Some d) (set_hw_module d (Some m) p))"
  let ?p = "(if xs = [] then ?q\<lparr>used_mod_list := Some m\<rparr> else link_next (last xs) (Some m) ?q)
              \<lparr>used_list_len := used_list_len p + 1\<rparr>"
  have q: "length (modules ?q) = length (modules p)" "next_mod (modules ?q ! m) = None"
    "used_mod_list ?q = used_mod_list p"
    using assms(5) by (simp_all add: link_next_def set_my_driver_def set_hw_module_def)
  have cq: "mod_chain (modules ?q) (used_mod_list ?q) xs" using bind_chain [OF assms(2,4)] q(3) by simp
  have mod_chain': "mod_chain (modules ?p) (used_mod_list ?p) (xs @ [m])"
  proof (cases "xs = []")
    case True
    then show ?thesis using q assms(5) by simp
  next
    case False
    then show ?thesis
      using mod_chain_append [OF cq False assms(3) _ assms(4) q(2)] q assms(5) by (simp add: link_next_def)
  qed
  have last: "last xs < length (modules p)" if "xs \<noteq> []"
    using last_in_set [OF that] mod_chain_bound [OF assms(2)] by auto
  have drv: "my_driver (modules ?p ! k) = (if k = m then Some d else my_driver (modules p ! k))"
    if "k < length (modules p)" for k
    using that last assms(4) by (auto simp: link_next_def set_my_driver_def set_hw_module_def nth_list_update)
  have hw: "hw_module (drivers ?p ! e) = (if e = d then Some m else hw_module (drivers p ! e))"
    if "e < length (drivers p)" for e
    using that by (auto simp: link_next_def set_my_driver_def set_hw_module_def nth_list_update)
  show ?thesis
    by (rule that [OF register_eq [OF assms(1,2,4-8)] mod_chain' _ _ _ drv hw])
      (use assms(1) in \<open>simp_all add: link_next_def set_my_driver_def set_hw_module_def\<close>)
qed

text \<open>C30. Registering a driver binds it to its module and appends the module to the list of the
  modules in use; the bindings stay inverse to each other, and nothing else is bound.\<close>

theorem cc_module_drv_register_appends:
  assumes "registered p xs" "m < length (modules p)" "d < length (drivers p)"
    "my_driver (modules p ! m) = None" "hw_module (drivers p ! d) = None"
  shows "\<exists>p'. cc_module_drv_register (Some m) (Some d) p = Some (0, p') \<and> registered p' (xs @ [m])
    \<and> my_driver (modules p' ! m) = Some d \<and> hw_module (drivers p' ! d) = Some m
    \<and> used_list_len p' = used_list_len p + 1"
proof -
  note r = registeredD [OF assms(1)]
  have m: "m \<notin> set xs" using r(5) [OF assms(2)] assms(4) by simp
  have free: "hw_module (drivers p ! e) \<noteq> Some m" if "e < length (drivers p)" for e
    using r(7) [OF assms(2) that] assms(4) by simp
  have other: "my_driver (modules p ! k) \<noteq> Some d" if "k < length (modules p)" for k
    using r(7) [OF that assms(3)] assms(5) by simp
  show ?thesis
  proof (rule register_facts [OF r(1-3) m assms(2-5)])
    fix p'
    assume eq: "cc_module_drv_register (Some m) (Some d) p = Some (0, p')"
      and c: "mod_chain (modules p') (used_mod_list p') (xs @ [m])" and pf: "pform p'"
      and len: "length (modules p') = length (modules p)" "length (drivers p') = length (drivers p)"
      and drv: "\<And>k. k < length (modules p) \<Longrightarrow> my_driver (modules p' ! k) = (if k = m then Some d else my_driver (modules p ! k))"
      and hw: "\<And>e. e < length (drivers p) \<Longrightarrow> hw_module (drivers p' ! e) = (if e = d then Some m else hw_module (drivers p ! e))"
      and ul: "used_list_len p' = used_list_len p + 1"
    have "registered p' (xs @ [m])"
      unfolding registered_def len
    proof (intro conjI allI impI)
      show "pform p'" by (rule pf)
      show "mod_chain (modules p') (used_mod_list p') (xs @ [m])" by (rule c)
      show "distinct (xs @ [m])" using r(3) m by simp
      fix k assume k: "k < length (modules p)"
      show "k \<in> set (xs @ [m]) \<longleftrightarrow> my_driver (modules p' ! k) \<noteq> None"
        using drv [OF k] r(5) [OF k] by auto
      show "e < length (drivers p)" if "my_driver (modules p' ! k) = Some e" for e
        using that drv [OF k] r(6) [OF k] assms(3) by (auto split: if_splits)
      fix e assume e: "e < length (drivers p)"
      show "my_driver (modules p' ! k) = Some e \<longleftrightarrow> hw_module (drivers p' ! e) = Some k"
        using drv [OF k] hw [OF e] r(7) [OF k e] free [OF e] other [OF k] by auto
    qed
    then show ?thesis using eq drv [OF assms(2)] hw [OF assms(3)] ul by auto
  qed
qed


lemma unregister_unlinks:
  assumes "registered p xs" "m \<in> set xs" "my_driver (modules p ! m) = Some d"
  shows "\<exists>p'. cc_module_drv_unregister d p = Some p' \<and> registered p' (remove1 m xs)
    \<and> my_driver (modules p' ! m) = None \<and> hw_module (drivers p' ! d) = None
    \<and> used_list_len p' = used_list_len p"
proof -
  note r = registeredD [OF assms(1)]
  obtain ys zs where xs: "xs = ys @ m # zs" using assms(2) by (auto simp: in_set_conv_decomp)
  have m: "m < length (modules p)" "m \<notin> set ys" "m \<notin> set zs" "distinct (ys @ zs)" using r(3,4) xs by auto
  have d: "d < length (drivers p)" by (rule r(6) [OF m(1) assms(3)])
  have only: "my_driver (modules p ! k) = Some d \<longleftrightarrow> k = m" if "k < length (modules p)" for k
    using r(7) [OF that d] r(7) [OF m(1) d] assms(3) by auto
  let ?prev = "if ys = [] then None else Some (last ys)"
  let ?p = "unlink ?prev m d p"
  have "\<forall>x \<in> set ys. my_driver (modules p ! x) \<noteq> Some d" using only r(4) m(2) xs by auto
  then have run: "cc_module_drv_unregister d p = Some ?p"
    using unregister_loop_finds [of p "used_mod_list p" ys m zs d None] r(1,2) d assms(3) xs
    by (simp add: cc_module_drv_unregister_def)
  have lastm: "last ys \<noteq> m" "last ys < length (modules p)" if "ys \<noteq> []"
    using last_in_set [OF that] m(2) r(4) xs by auto
  have len: "length (modules ?p) = length (modules p)" "length (drivers ?p) = length (drivers p)" "pform ?p"
    "used_list_len ?p = used_list_len p"
    using r(1) by (simp_all add: unlink_def link_next_def set_my_driver_def set_hw_module_def)
  have drv: "my_driver (modules ?p ! k) = (if k = m then None else my_driver (modules p ! k))"
    if "k < length (modules p)" for k
    using that m(1) lastm
    by (auto simp: unlink_def link_next_def set_my_driver_def set_hw_module_def nth_list_update)
  have hw: "hw_module (drivers ?p ! e) = (if e = d then None else hw_module (drivers p ! e))"
    if "e < length (drivers p)" for e
    using that by (auto simp: unlink_def link_next_def set_my_driver_def set_hw_module_def nth_list_update)
  have c: "mod_chain (modules ?p) (used_mod_list ?p) (ys @ zs)"
  proof (cases "ys = []")
    case True
    have "next_mod (modules ?p ! k) = next_mod (modules p ! k)" for k
      using True m(1) by (cases "k = m") (simp_all add: unlink_def set_my_driver_def set_hw_module_def)
    then have "mod_chain (modules ?p) (used_mod_list ?p) zs = mod_chain (modules p) (used_mod_list ?p) zs"
      by (intro mod_chain_cong) (simp_all add: len)
    moreover have "used_mod_list ?p = next_mod (modules p ! m)"
      using True by (simp add: unlink_def set_my_driver_def set_hw_module_def)
    ultimately show ?thesis using r(2) xs True by simp
  next
    case False
    let ?ms = "(modules p)[last ys := (modules p ! last ys)\<lparr>next_mod := next_mod (modules p ! m)\<rparr>]"
    have "next_mod (modules ?p ! k) = next_mod (?ms ! k)" for k
      using False m(1) lastm(1) [OF False]
      by (cases "k = m") (simp_all add: unlink_def link_next_def set_my_driver_def set_hw_module_def)
    then have "mod_chain (modules ?p) (used_mod_list ?p) (ys @ zs) = mod_chain ?ms (used_mod_list ?p) (ys @ zs)"
      by (intro mod_chain_cong) (simp_all add: len)
    moreover have "used_mod_list ?p = used_mod_list p"
      using False by (simp add: unlink_def link_next_def set_my_driver_def set_hw_module_def)
    ultimately show ?thesis using mod_chain_split_next [of "modules p" "used_mod_list p" ys m zs] r(2,3) xs False by simp
  qed
  have "registered ?p (ys @ zs)"
    unfolding registered_def len
  proof (intro conjI allI impI)
    show "pform ?p" by (rule len)
    show "mod_chain (modules ?p) (used_mod_list ?p) (ys @ zs)" by (rule c)
    show "distinct (ys @ zs)" by (rule m(4))
    fix k assume k: "k < length (modules p)"
    show "k \<in> set (ys @ zs) \<longleftrightarrow> my_driver (modules ?p ! k) \<noteq> None"
      using drv [OF k] r(5) [OF k] m(2,3) xs by auto
    show "e < length (drivers p)" if "my_driver (modules ?p ! k) = Some e" for e
      using that drv [OF k] r(6) [OF k] by (auto split: if_splits)
    fix e assume e: "e < length (drivers p)"
    show "my_driver (modules ?p ! k) = Some e \<longleftrightarrow> hw_module (drivers ?p ! e) = Some k"
      using drv [OF k] hw [OF e] r(7) [OF k e] only [OF k] r(7) [OF m(1) e] r(7) [OF m(1) d] assms(3) by auto
  qed
  moreover have "remove1 m xs = ys @ zs" using xs m(2) by (simp add: remove1_append)
  ultimately show ?thesis using run drv [OF m(1)] hw [OF d] len(4) by auto
qed

text \<open>Unregistering the driver of a module takes the module off the list and undoes the binding on
  both sides; the other modules stay, in their order.  The counter of the length is not changed.\<close>

theorem cc_module_drv_unregister_removes:
  assumes "registered p xs" "m \<in> set xs" "my_driver (modules p ! m) = Some d"
  shows "\<exists>p'. cc_module_drv_unregister d p = Some p' \<and> registered p' (remove1 m xs)
    \<and> my_driver (modules p' ! m) = None \<and> hw_module (drivers p' ! d) = None
    \<and> used_list_len p' = used_list_len p"
  by (rule unregister_unlinks [OF assms])

section \<open>Witnesses\<close>

text \<open>Two modules, the first with a driver.\<close>

definition sample_pm :: "unit pm" where
  "sample_pm = \<lparr>pform = True, used_list_len = 1, used_mod_list = Some 0, pm_ops = None, num_app_no_pm = 0,
     modules = [\<lparr>my_driver = Some 0, next_mod = None, clk_enable = None\<rparr>,
                \<lparr>my_driver = None, next_mod = None, clk_enable = None\<rparr>],
     drivers = [\<lparr>hw_module = Some 0, pm_state = e_pm_M0, goto2pm_mode = None\<rparr>,
                \<lparr>hw_module = None, pm_state = e_pm_M0, goto2pm_mode = None\<rparr>], world = ()\<rparr>"

lemma sample_registered: "registered sample_pm [0]"
  by (auto simp: registered_def sample_pm_def less_Suc_eq numeral_2_eq_2)

theorem cc_module_drv_register_appends_witness:
  "\<exists>p'. cc_module_drv_register (Some 1) (Some 1) sample_pm = Some (0, p') \<and> registered p' [0, 1] \<and> used_list_len p' = 2"
  using cc_module_drv_register_appends [OF sample_registered, of 1 1] by (auto simp: sample_pm_def)

theorem cc_module_drv_unregister_removes_witness:
  "\<exists>p'. cc_module_drv_unregister 0 sample_pm = Some p' \<and> registered p' [] \<and> used_list_len p' = 1"
  using cc_module_drv_unregister_removes [OF sample_registered, of 0 0] by (auto simp: sample_pm_def)

end
