(* ===== verification/Cc_Pm_Idle.thy ===== *)
theory Cc_Pm_Idle
  imports Cc_Pm_List
begin

text \<open>
  The idle task.  The locale \<open>pm_drivers\<close> is the contract between the framework and the power
  handlers of the drivers, \<open>pm_platform\<close> adds the one with the platform.  Inside: whatever the
  descent does, when control comes back every module is at full power again and the interrupt mask
  is the one of before; and the chip enters a deep state only with every module powered down.
\<close>

section \<open>What a walk over the modules leaves alone\<close>

definition same_shape :: "'w pm \<Rightarrow> 'w pm \<Rightarrow> bool" where
  "same_shape p q \<longleftrightarrow>
     pform q = pform p \<and> used_list_len q = used_list_len p \<and> used_mod_list q = used_mod_list p
     \<and> pm_ops q = pm_ops p \<and> num_app_no_pm q = num_app_no_pm p \<and> modules q = modules p
     \<and> map hw_module (drivers q) = map hw_module (drivers p)
     \<and> map goto2pm_mode (drivers q) = map goto2pm_mode (drivers p)"

lemma same_shape_refl [simp]: "same_shape p p" by (simp add: same_shape_def)

lemma same_shape_trans: "same_shape p q \<Longrightarrow> same_shape q r \<Longrightarrow> same_shape p r"
  by (simp add: same_shape_def)

lemma same_shape_world [simp]: "same_shape p (p\<lparr>world := w\<rparr>)" by (simp add: same_shape_def)

lemma same_shape_len: "same_shape p q \<Longrightarrow> length (drivers q) = length (drivers p)"
  unfolding same_shape_def by (metis length_map)

lemma same_shape_nth:
  assumes "same_shape p q" "d < length (drivers p)"
  shows "goto2pm_mode (drivers q ! d) = goto2pm_mode (drivers p ! d)"
    "hw_module (drivers q ! d) = hw_module (drivers p ! d)"
  using assms same_shape_len [OF assms(1)] unfolding same_shape_def by (metis nth_map)+

lemma same_shape_pform:
  "same_shape p q \<Longrightarrow> pform q = pform p" "same_shape p q \<Longrightarrow> used_list_len q = used_list_len p"
  "same_shape p q \<Longrightarrow> used_mod_list q = used_mod_list p" "same_shape p q \<Longrightarrow> modules q = modules p"
  "same_shape p q \<Longrightarrow> pm_ops q = pm_ops p" "same_shape p q \<Longrightarrow> num_app_no_pm q = num_app_no_pm p"
  by (simp_all add: same_shape_def)

lemma map_pm_state:
  assumes "\<And>drv. g (drv\<lparr>pm_state := x\<rparr>) = g drv" "d < length ds"
  shows "map g (ds[d := (ds ! d)\<lparr>pm_state := x\<rparr>]) = map g ds"
  using assms by (simp add: map_update list_update_same_conv)

lemma drv_goto_Some:
  assumes "d < length (drivers p)" "goto2pm_mode (drivers p ! d) = Some f"
    "f (pm_state (drivers p ! d)) M (world p) = (r, st, w)"
  shows "drv_goto d M p = Some (r, p\<lparr>world := w, drivers := (drivers p)[d := (drivers p ! d)\<lparr>pm_state := st\<rparr>]\<rparr>)"
  using assms by (simp add: drv_goto_def driver_at_def)

lemma drv_goto_None:
  assumes "d < length (drivers p)" "goto2pm_mode (drivers p ! d) = None"
  shows "drv_goto d M p = Some (0, p)"
  using assms by (simp add: drv_goto_def driver_at_def)

lemma drv_goto_bound: "drv_goto d M p = Some x \<Longrightarrow> d < length (drivers p)"
  by (simp add: drv_goto_def driver_at_def split: if_splits)

lemma drv_goto_shape:
  assumes "drv_goto d M p = Some (r, q)"
  shows "same_shape p q"
proof -
  note d = drv_goto_bound [OF assms]
  show ?thesis
  proof (cases "goto2pm_mode (drivers p ! d)")
    case None
    then show ?thesis using assms drv_goto_None [OF d] by simp
  next
    case (Some f)
    obtain r' st w where "f (pm_state (drivers p ! d)) M (world p) = (r', st, w)" by (metis prod_cases3)
    note q = drv_goto_Some [OF d Some this]
    have "q = p\<lparr>world := w, drivers := (drivers p)[d := (drivers p ! d)\<lparr>pm_state := st\<rparr>]\<rparr>"
      using assms unfolding q by simp
    then show ?thesis using d by (simp add: same_shape_def map_pm_state)
  qed
qed

lemma drv_goto_defined:
  assumes "d < length (drivers p)"
  obtains r q where "drv_goto d M p = Some (r, q)"
proof (cases "goto2pm_mode (drivers p ! d)")
  case None
  then show ?thesis using that drv_goto_None [OF assms] by metis
next
  case (Some f)
  obtain r' st w where "f (pm_state (drivers p ! d)) M (world p) = (r', st, w)" by (metis prod_cases3)
  then show ?thesis using that drv_goto_Some [OF assms Some] by metis
qed

text \<open>Every driver the modules \<open>xs\<close> name is in the table.\<close>

definition drivers_exist :: "'w pm \<Rightarrow> nat list \<Rightarrow> bool" where
  "drivers_exist p xs \<longleftrightarrow>
     (\<forall>m \<in> set xs. case my_driver (modules p ! m) of None \<Rightarrow> True | Some d \<Rightarrow> d < length (drivers p))"

lemma drivers_exist_shape: "same_shape p q \<Longrightarrow> drivers_exist q xs = drivers_exist p xs"
  using same_shape_len [of p q] by (simp add: drivers_exist_def same_shape_pform cong: option.case_cong)

lemma drivers_exist_Cons:
  "drivers_exist p (m # xs) \<Longrightarrow> my_driver (modules p ! m) = Some d \<Longrightarrow> d < length (drivers p)"
  "drivers_exist p (m # xs) \<Longrightarrow> drivers_exist p xs"
  by (auto simp: drivers_exist_def)

lemma registered_drivers_exist: "registered p xs \<Longrightarrow> drivers_exist p xs"
  unfolding drivers_exist_def by (auto split: option.splits dest: registeredD(4) registeredD(6))

lemma clock_on_shape [simp]: "same_shape p (clock_on hw p)"
  by (simp add: clock_on_def split: option.splits)

lemma wake_module_shape:
  assumes "wake_module hw p = Some q"
  shows "same_shape p q"
proof (cases "my_driver hw")
  case None
  with assms show ?thesis by (simp add: wake_module_def)
next
  case (Some d)
  with assms obtain r where "drv_goto d e_pm_M0 (clock_on hw p) = Some (r, q)"
    by (auto simp: wake_module_def split: bind_splits)
  then show ?thesis using drv_goto_shape same_shape_trans clock_on_shape by blast
qed

lemma wake_module_defined:
  assumes "\<And>d. my_driver hw = Some d \<Longrightarrow> d < length (drivers p)"
  obtains q where "wake_module hw p = Some q"
proof (cases "my_driver hw")
  case None
  then show ?thesis using that by (simp add: wake_module_def)
next
  case (Some d)
  then have "d < length (drivers (clock_on hw p))"
    using assms same_shape_len [OF clock_on_shape] by metis
  then obtain r q where "drv_goto d e_pm_M0 (clock_on hw p) = Some (r, q)" by (rule drv_goto_defined)
  with Some that show ?thesis by (simp add: wake_module_def)
qed

lemma push_loop_Cons:
  assumes "m < length (modules p)"
  shows "push_loop (Some m) n p =
    do { (r, p1) \<leftarrow> (case my_driver (modules p ! m) of None \<Rightarrow> Some (0, p) | Some d \<Rightarrow> drv_goto d e_pm_M4 p);
         if r \<noteq> 0 then Some (n, p1) else push_loop (next_mod (modules p ! m)) (n + 1) p1 }"
  using assms by (subst push_loop.simps) (simp add: module_at_def)

lemma make_loop_Cons:
  assumes "m < length (modules p)" "n > 0"
  shows "make_loop (Some m) n p =
    do { p1 \<leftarrow> wake_module (modules p ! m) p; make_loop (next_mod (modules p ! m)) (n - 1) p1 }"
  using assms by (subst make_loop.simps) (simp add: module_at_def)

text \<open>Both walks end; the walk down counts at most the modules of the list.\<close>

lemma push_loop_ends:
  assumes "mod_chain (modules p) hm xs" "drivers_exist p xs"
  obtains n' q where "push_loop hm n p = Some (n', q)" "same_shape p q" "n \<le> n'" "n' \<le> n + int (length xs)"
  using assms
proof (induction xs arbitrary: hm n p thesis)
  case Nil
  then show ?case by (simp add: push_loop.simps)
next
  case (Cons m xs)
  then have m: "hm = Some m" "m < length (modules p)" "mod_chain (modules p) (next_mod (modules p ! m)) xs" by auto
  obtain r p1 where s: "(case my_driver (modules p ! m) of None \<Rightarrow> Some (0, p) | Some d \<Rightarrow> drv_goto d e_pm_M4 p) = Some (r, p1)"
    "same_shape p p1"
  proof (cases "my_driver (modules p ! m)")
    case None
    then show ?thesis using that by simp
  next
    case (Some d)
    then obtain r q where "drv_goto d e_pm_M4 p = Some (r, q)"
      using drv_goto_defined drivers_exist_Cons(1) [OF Cons.prems(3)] by metis
    then show ?thesis using that Some drv_goto_shape by fastforce
  qed
  show ?case
  proof (cases "r = 0")
    case False
    then show ?thesis using Cons.prems(1) [of n p1] m s by (simp add: push_loop_Cons)
  next
    case True
    have ce: "mod_chain (modules p1) (next_mod (modules p ! m)) xs" "drivers_exist p1 xs"
      using m(3) drivers_exist_Cons(2) [OF Cons.prems(3)]
      by (simp_all add: same_shape_pform(4) [OF s(2)] drivers_exist_shape [OF s(2)])
    obtain n' q where "push_loop (next_mod (modules p ! m)) (n + 1) p1 = Some (n', q)" "same_shape p1 q"
      "n + 1 \<le> n'" "n' \<le> n + 1 + int (length xs)"
      by (rule Cons.IH [OF that ce])
    then show ?thesis
      using Cons.prems(1) [of n' q] m s True same_shape_trans [OF s(2)] by (simp add: push_loop_Cons)
  qed
qed

lemma make_loop_ends:
  assumes "mod_chain (modules p) hm xs" "drivers_exist p xs"
  obtains n' q where "make_loop hm n p = Some (n', q)" "same_shape p q"
  using assms
proof (induction xs arbitrary: hm n p thesis)
  case Nil
  then show ?case by (simp add: make_loop.simps)
next
  case (Cons m xs)
  then have m: "hm = Some m" "m < length (modules p)" "mod_chain (modules p) (next_mod (modules p ! m)) xs" by auto
  show ?case
  proof (cases "n > 0")
    case False
    then show ?thesis using Cons.prems(1) [of n p] m by (simp add: make_loop.simps)
  next
    case True
    obtain p1 where w: "wake_module (modules p ! m) p = Some p1"
      using wake_module_defined drivers_exist_Cons(1) [OF Cons.prems(3)] by metis
    note s = wake_module_shape [OF w]
    have ce: "mod_chain (modules p1) (next_mod (modules p ! m)) xs" "drivers_exist p1 xs"
      using m(3) drivers_exist_Cons(2) [OF Cons.prems(3)]
      by (simp_all add: same_shape_pform(4) [OF s] drivers_exist_shape [OF s])
    obtain n' q where "make_loop (next_mod (modules p ! m)) (n - 1) p1 = Some (n', q)" "same_shape p1 q"
      by (rule Cons.IH [OF that ce])
    then show ?thesis
      using Cons.prems(1) [of n' q] m w True same_shape_trans [OF s] by (simp add: make_loop_Cons)
  qed
qed

section \<open>The counter that is never counted down\<close>

lemma wake_all_ends:
  assumes "pform p" "mod_chain (modules p) (used_mod_list p) xs" "drivers_exist p xs"
  obtains q where "wake_all p = Some q" "same_shape p q"
proof -
  obtain n' q where "make_loop (used_mod_list p) (used_list_len p) p = Some (n', q)" "same_shape p q"
    by (rule make_loop_ends [OF assms(2,3)])
  with assms(1) show ?thesis by (intro that [of q]) (simp_all add: wake_all_def make_modules_to_M0_no_irq_def)
qed

lemma push_stops_short:
  assumes "pform p" "mod_chain (modules p) (used_mod_list p) xs" "drivers_exist p xs"
    "push_loop (used_mod_list p) 0 p = Some (n, q)" "same_shape p q" "used_list_len p \<noteq> n"
  obtains r where "do_try_S3_no_irq p = Some (-1, r)" "do_try_S4_no_irq p = Some (Some (-1, r))" "same_shape p r"
proof -
  note s = same_shape_pform [OF assms(5)]
  have "pform q" "mod_chain (modules q) (used_mod_list q) xs" "drivers_exist q xs"
    using assms s drivers_exist_shape [OF assms(5)] by simp_all
  then obtain r where r: "wake_all q = Some r" "same_shape q r" by (rule wake_all_ends)
  then show ?thesis
    using that [of r] assms(1,4,6) s(2) same_shape_trans [OF assms(5) r(2)]
    by (simp add: do_try_S3_no_irq_def do_try_S4_no_irq_def push_modules_to_M4_no_irq_def)
qed

lemma deep_state_locked:
  assumes "pform p" "mod_chain (modules p) (used_mod_list p) xs" "drivers_exist p xs" "int (length xs) < used_list_len p"
  obtains q where "do_try_S3_no_irq p = Some (-1, q)" "do_try_S4_no_irq p = Some (Some (-1, q))" "same_shape p q"
proof -
  obtain n q where q: "push_loop (used_mod_list p) 0 p = Some (n, q)" "same_shape p q" "n \<le> 0 + int (length xs)"
    by (rule push_loop_ends [OF assms(2,3)])
  then have "used_list_len p \<noteq> n" using assms(4) by linarith
  then show ?thesis using push_stops_short [OF assms(1-3) q(1,2)] that by blast
qed

text \<open>A driver \<open>d\<close> that refuses to power down stops the walk; \<open>Q\<close> is what makes it refuse, and the other
  drivers leave it true.\<close>

lemma push_loop_refused:
  assumes "mod_chain (modules p) hm xs" "drivers_exist p xs" "Q (world p)"
    "\<And>e f s t w. e < length (drivers p) \<Longrightarrow> goto2pm_mode (drivers p ! e) = Some f \<Longrightarrow> e \<noteq> d \<Longrightarrow> Q w
      \<Longrightarrow> Q (snd (snd (f s t w)))"
    "\<And>f s w. goto2pm_mode (drivers p ! d) = Some f \<Longrightarrow> Q w \<Longrightarrow> fst (f s e_pm_M4 w) \<noteq> 0"
    "m \<in> set xs" "my_driver (modules p ! m) = Some d" "goto2pm_mode (drivers p ! d) \<noteq> None"
    "push_loop hm n p = Some (n', q)"
  shows "n' < n + int (length xs)"
  using assms
proof (induction xs arbitrary: hm n p)
  case Nil
  then show ?case by simp
next
  case (Cons x xs)
  then have x: "hm = Some x" "x < length (modules p)" "mod_chain (modules p) (next_mod (modules p ! x)) xs" by auto
  obtain r p1 where st: "(case my_driver (modules p ! x) of None \<Rightarrow> Some (0, p) | Some d \<Rightarrow> drv_goto d e_pm_M4 p) = Some (r, p1)"
    using Cons.prems(9) x by (auto simp: push_loop_Cons split: bind_splits)
  have run: "if r \<noteq> 0 then n' = n else push_loop (next_mod (modules p ! x)) (n + 1) p1 = Some (n', q)"
    using Cons.prems(9) x st by (simp add: push_loop_Cons split: if_splits)
  show ?case
  proof (cases "r = 0")
    case False
    then show ?thesis using run by simp
  next
    case True
    have step: "same_shape p p1 \<and> Q (world p1) \<and> my_driver (modules p ! x) \<noteq> Some d"
    proof (cases "my_driver (modules p ! x)")
      case None
      then show ?thesis using st Cons.prems(3) by simp
    next
      case (Some e)
      then have g: "drv_goto e e_pm_M4 p = Some (r, p1)" using st by simp
      note el = drv_goto_bound [OF g]
      show ?thesis
      proof (cases "goto2pm_mode (drivers p ! e)")
        case None
        then have "p1 = p" "e \<noteq> d" using g drv_goto_None [OF el] Cons.prems(8) by auto
        then show ?thesis using Cons.prems(3) Some by simp
      next
        case f: (Some f)
        obtain r' s' w' where fw: "f (pm_state (drivers p ! e)) e_pm_M4 (world p) = (r', s', w')" by (metis prod_cases3)
        have eq: "r = r'" "world p1 = w'" using g drv_goto_Some [OF el f fw] by auto
        have "e \<noteq> d" using Cons.prems(5) [of f "world p" "pm_state (drivers p ! e)"] f fw eq True Cons.prems(3) by auto
        moreover have "Q w'" using Cons.prems(4) [OF el f calculation Cons.prems(3), of "pm_state (drivers p ! e)" e_pm_M4] fw by simp
        ultimately show ?thesis using eq drv_goto_shape [OF g] Some by simp
      qed
    qed
    then have sh: "same_shape p p1" and "m \<noteq> x" using Cons.prems(7) by auto
    then have m: "m \<in> set xs" using Cons.prems(6) by simp
    have d: "d < length (drivers p)" using Cons.prems(2,6,7) by (auto simp: drivers_exist_def split: option.splits)
    have "n' < n + 1 + int (length xs)"
    proof (rule Cons.IH [of p1 "next_mod (modules p ! x)" "n + 1"])
      show "mod_chain (modules p1) (next_mod (modules p ! x)) xs" using x(3) same_shape_pform(4) [OF sh] by simp
      show "drivers_exist p1 xs" using drivers_exist_Cons(2) [OF Cons.prems(2)] drivers_exist_shape [OF sh] by blast
      show "Q (world p1)" using step by blast
      show "Q (snd (snd (f s t w)))"
        if "e < length (drivers p1)" "goto2pm_mode (drivers p1 ! e) = Some f" "e \<noteq> d" "Q w" for e f s t w
        using Cons.prems(4) [of e f w] that same_shape_len [OF sh] same_shape_nth(1) [OF sh] by simp
      show "fst (f s e_pm_M4 w) \<noteq> 0" if "goto2pm_mode (drivers p1 ! d) = Some f" "Q w" for f s w
        using Cons.prems(5) that same_shape_nth(1) [OF sh d] by simp
      show "m \<in> set xs" by (rule m)
      show "my_driver (modules p1 ! m) = Some d" using Cons.prems(7) same_shape_pform(4) [OF sh] by simp
      show "goto2pm_mode (drivers p1 ! d) \<noteq> None" using Cons.prems(8) same_shape_nth(1) [OF sh d] by simp
      show "push_loop (next_mod (modules p ! x)) (n + 1) p1 = Some (n', q)" using run True by simp
    qed
    then show ?thesis by simp
  qed
qed

lemma registered_shape:
  assumes "registered p xs" "same_shape p q"
  shows "registered q xs"
  using assms same_shape_len [OF assms(2)] same_shape_nth(2) [OF assms(2)]
  by (simp add: registered_def same_shape_pform [OF assms(2)])

text \<open>C36. Once a driver has been unregistered the deep power states are closed for good: whatever the
  drivers and the platform do later, both attempts end with the answer that the state was not
  entered, because the counter of the list is one more than the modules that can be counted.\<close>

theorem unregister_closes_deep_states:
  assumes "registered p xs" "used_list_len p = int (length xs)" "m \<in> set xs" "my_driver (modules p ! m) = Some d"
  shows "\<exists>p'. cc_module_drv_unregister d p = Some p' \<and>
    (\<forall>q. same_shape p' q \<longrightarrow>
      (\<exists>r. do_try_S3_no_irq q = Some (-1, r) \<and> do_try_S4_no_irq q = Some (Some (-1, r)) \<and> same_shape p' r))"
proof -
  obtain p' where p': "cc_module_drv_unregister d p = Some p'" "registered p' (remove1 m xs)"
    "used_list_len p' = used_list_len p"
    using unregister_unlinks [OF assms(1,3,4)] by blast
  have "int (length (remove1 m xs)) < used_list_len p'"
    using assms(2,3) p'(3) length_pos_if_in_set [OF assms(3)] by (simp add: length_remove1)
  have "\<exists>r. do_try_S3_no_irq q = Some (-1, r) \<and> do_try_S4_no_irq q = Some (Some (-1, r)) \<and> same_shape p' r"
    if q: "same_shape p' q" for q
  proof -
    note r = registered_shape [OF p'(2) q]
    obtain t where "do_try_S3_no_irq q = Some (-1, t)" "do_try_S4_no_irq q = Some (Some (-1, t))" "same_shape q t"
      using deep_state_locked [OF registeredD(1,2) [OF r] registered_drivers_exist [OF r]]
        \<open>int (length (remove1 m xs)) < used_list_len p'\<close> same_shape_pform(2) [OF q] by metis
    then show ?thesis using same_shape_trans [OF q] by blast
  qed
  with p'(1) show ?thesis by blast
qed

section \<open>The contract with the drivers\<close>

text \<open>The drivers among the modules \<open>xs\<close> that have a power handler; all at full power, and each at
  full power or down and able to come back.\<close>

definition managed :: "'w pm \<Rightarrow> nat list \<Rightarrow> nat set" where
  "managed p xs = {d. \<exists>m \<in> set xs. my_driver (modules p ! m) = Some d \<and> goto2pm_mode (drivers p ! d) \<noteq> None}"

definition all_up :: "'w pm \<Rightarrow> nat list \<Rightarrow> bool" where
  "all_up p xs \<longleftrightarrow> (\<forall>d \<in> managed p xs. pm_state (drivers p ! d) = e_pm_M0)"

definition all_down :: "'w pm \<Rightarrow> nat list \<Rightarrow> bool" where
  "all_down p xs \<longleftrightarrow> (\<forall>d \<in> managed p xs. pm_state (drivers p ! d) = e_pm_M4)"

definition restorable :: "(nat \<Rightarrow> 'w \<Rightarrow> bool) \<Rightarrow> 'w pm \<Rightarrow> nat list \<Rightarrow> bool" where
  "restorable can_wake p xs \<longleftrightarrow>
     (\<forall>d \<in> managed p xs. pm_state (drivers p ! d) = e_pm_M0
        \<or> pm_state (drivers p ! d) = e_pm_M4 \<and> can_wake d (world p))"

text \<open>A step of the world that disturbs neither the interrupt mask nor a module that sleeps.\<close>

definition harmless :: "(nat \<Rightarrow> 'w \<Rightarrow> bool) \<Rightarrow> ('w \<Rightarrow> 'i) \<Rightarrow> ('w \<Rightarrow> 'w) \<Rightarrow> bool" where
  "harmless can_wake irq f \<longleftrightarrow> (\<forall>w. irq (f w) = irq w \<and> (\<forall>d. can_wake d w \<longrightarrow> can_wake d (f w)))"

lemma managed_Cons:
  assumes "my_driver (modules p ! m) = Some d" "goto2pm_mode (drivers p ! d) \<noteq> None"
  shows "managed p (m # xs) = insert d (managed p xs)"
  using assms by (auto simp: managed_def)

lemma managed_Cons_plain:
  assumes "\<And>d. my_driver (modules p ! m) = Some d \<Longrightarrow> goto2pm_mode (drivers p ! d) = None"
  shows "managed p (m # xs) = managed p xs"
  using assms by (auto simp: managed_def)

lemma managed_bound: "drivers_exist p xs \<Longrightarrow> d \<in> managed p xs \<Longrightarrow> d < length (drivers p)"
  by (auto simp: managed_def drivers_exist_def split: option.splits)

lemma managed_shape:
  assumes "same_shape p q" "drivers_exist p xs"
  shows "managed q xs = managed p xs"
proof -
  have "goto2pm_mode (drivers q ! d) = goto2pm_mode (drivers p ! d)"
    if "m \<in> set xs" "my_driver (modules p ! m) = Some d" for m d
    using same_shape_nth(1) [OF assms(1)] assms(2) that by (auto simp: drivers_exist_def split: option.splits)
  then show ?thesis by (auto simp: managed_def same_shape_pform(4) [OF assms(1)])
qed

text \<open>No driver serves two modules.\<close>

definition one_module_each :: "'w pm \<Rightarrow> nat list \<Rightarrow> bool" where
  "one_module_each p xs \<longleftrightarrow> distinct xs \<and>
     (\<forall>m \<in> set xs. \<forall>m' \<in> set xs. \<forall>d. my_driver (modules p ! m) = Some d
        \<longrightarrow> my_driver (modules p ! m') = Some d \<longrightarrow> m = m')"

lemma registered_one_module_each: "registered p xs \<Longrightarrow> one_module_each p xs"
  unfolding one_module_each_def using registered_inj registeredD(3) by blast

lemma one_module_each_Cons:
  assumes "one_module_each p (m # xs)"
  shows "one_module_each p xs" "my_driver (modules p ! m) = Some d \<Longrightarrow> d \<notin> managed p xs"
  using assms by (auto simp: one_module_each_def managed_def)

lemma one_module_each_shape: "same_shape p q \<Longrightarrow> one_module_each q xs = one_module_each p xs"
  by (simp add: one_module_each_def same_shape_pform)

locale pm_drivers =
  fixes handler :: "nat \<Rightarrow> mod_pm \<Rightarrow> mod_pm \<Rightarrow> 'w \<Rightarrow> int \<times> mod_pm \<times> 'w"
    and can_wake :: "nat \<Rightarrow> 'w \<Rightarrow> bool"
    and irq :: "'w \<Rightarrow> 'i"
  assumes power_down: "handler d e_pm_M0 e_pm_M4 w = (0, st, w') \<Longrightarrow> st = e_pm_M4 \<and> can_wake d w'"
    and refuse: "handler d e_pm_M0 e_pm_M4 w = (r, st, w') \<Longrightarrow> r \<noteq> 0 \<Longrightarrow> st = e_pm_M0"
    and wake_up: "handler d e_pm_M4 e_pm_M0 w = (r, st, w') \<Longrightarrow> can_wake d w \<Longrightarrow> st = e_pm_M0"
    and stay_up: "handler d e_pm_M0 e_pm_M0 w = (r, st, w') \<Longrightarrow> st = e_pm_M0"
    and irq_kept: "handler d s t w = (r, st, w') \<Longrightarrow> irq w' = irq w"
    and others_kept: "handler d s t w = (r, st, w') \<Longrightarrow> e \<noteq> d \<Longrightarrow> can_wake e w \<Longrightarrow> can_wake e w'"
begin

text \<open>The drivers of \<open>p\<close> are those of the contract, and the clocks disturb nothing.\<close>

definition fits :: "'w pm \<Rightarrow> bool" where
  "fits p \<longleftrightarrow>
     (\<forall>d < length (drivers p). goto2pm_mode (drivers p ! d) = None \<or> goto2pm_mode (drivers p ! d) = Some (handler d))
     \<and> (\<forall>m < length (modules p). \<forall>f. clk_enable (modules p ! m) = Some f
          \<longrightarrow> harmless can_wake irq (\<lambda>w. snd (f e_pm_S0 w)))"

lemma fits_shape: "same_shape p q \<Longrightarrow> fits p \<Longrightarrow> fits q"
  unfolding fits_def using same_shape_nth(1) [of p q] same_shape_len [of p q]
  by (simp add: same_shape_pform(4))

text \<open>What a walk does outside of the drivers \<open>D\<close>: nothing.\<close>

definition only :: "nat set \<Rightarrow> 'w pm \<Rightarrow> 'w pm \<Rightarrow> bool" where
  "only D p q \<longleftrightarrow> same_shape p q \<and> irq (world q) = irq (world p)
     \<and> (\<forall>e. e \<notin> D \<longrightarrow> pm_state (drivers q ! e) = pm_state (drivers p ! e)
          \<and> (can_wake e (world p) \<longrightarrow> can_wake e (world q)))"

lemma only_refl [simp]: "only D p p" by (simp add: only_def)

lemma only_trans: "only D p q \<Longrightarrow> only D q r \<Longrightarrow> only D p r"
  unfolding only_def using same_shape_trans by metis

lemma only_mono: "only D p q \<Longrightarrow> D \<subseteq> E \<Longrightarrow> only E p q" unfolding only_def by blast

lemma only_world: "harmless can_wake irq f \<Longrightarrow> only {} p (p\<lparr>world := f (world p)\<rparr>)"
  by (simp add: only_def harmless_def)

lemma restorable_only:
  assumes "restorable can_wake p xs" "only {} p q" "drivers_exist p xs"
  shows "restorable can_wake q xs"
  using assms managed_shape [of p q xs] unfolding restorable_def only_def by auto

lemma all_up_only:
  assumes "all_up p xs" "only {} p q" "drivers_exist p xs"
  shows "all_up q xs"
  using assms managed_shape [of p q xs] unfolding all_up_def only_def by simp

lemma clock_on_only:
  assumes "fits p" "m < length (modules p)"
  shows "only {} p (clock_on (modules p ! m) p)"
proof (cases "clk_enable (modules p ! m)")
  case None
  then show ?thesis by (simp add: clock_on_def)
next
  case (Some f)
  then have "harmless can_wake irq (\<lambda>w. snd (f e_pm_S0 w))" using assms by (auto simp: fits_def)
  then show ?thesis using only_world [of "\<lambda>w. snd (f e_pm_S0 w)" p] Some by (simp add: clock_on_def)
qed

text \<open>One driver asked for one state.\<close>

lemma drv_goto_managed:
  assumes "fits p" "d < length (drivers p)" "goto2pm_mode (drivers p ! d) \<noteq> None"
  obtains r st w where "handler d (pm_state (drivers p ! d)) M (world p) = (r, st, w)"
    "drv_goto d M p = Some (r, p\<lparr>world := w, drivers := (drivers p)[d := (drivers p ! d)\<lparr>pm_state := st\<rparr>]\<rparr>)"
    "only {d} p (p\<lparr>world := w, drivers := (drivers p)[d := (drivers p ! d)\<lparr>pm_state := st\<rparr>]\<rparr>)"
proof -
  have h: "goto2pm_mode (drivers p ! d) = Some (handler d)" using assms by (auto simp: fits_def)
  obtain r st w where rw: "handler d (pm_state (drivers p ! d)) M (world p) = (r, st, w)" by (metis prod_cases3)
  note g = drv_goto_Some [OF assms(2) h rw]
  show ?thesis
    using that [OF rw g] drv_goto_shape [OF g] irq_kept [OF rw] others_kept [OF rw] by (simp add: only_def)
qed

lemma down_one:
  assumes "fits p" "d < length (drivers p)" "goto2pm_mode (drivers p ! d) \<noteq> None"
    "pm_state (drivers p ! d) = e_pm_M0"
  obtains r q where "drv_goto d e_pm_M4 p = Some (r, q)" "only {d} p q"
    "r = 0 \<Longrightarrow> pm_state (drivers q ! d) = e_pm_M4 \<and> can_wake d (world q)"
    "r \<noteq> 0 \<Longrightarrow> pm_state (drivers q ! d) = e_pm_M0"
proof (rule drv_goto_managed [OF assms(1-3), of e_pm_M4])
  fix r st w
  assume "handler d (pm_state (drivers p ! d)) e_pm_M4 (world p) = (r, st, w)"
  then have h: "handler d e_pm_M0 e_pm_M4 (world p) = (r, st, w)" using assms(4) by simp
  assume "drv_goto d e_pm_M4 p = Some (r, p\<lparr>world := w, drivers := (drivers p)[d := (drivers p ! d)\<lparr>pm_state := st\<rparr>]\<rparr>)"
    "only {d} p (p\<lparr>world := w, drivers := (drivers p)[d := (drivers p ! d)\<lparr>pm_state := st\<rparr>]\<rparr>)"
  then show ?thesis
    using that h power_down [of d "world p" st w] refuse [OF h] assms(2) by simp
qed

lemma up_one:
  assumes "fits p" "d < length (drivers p)" "goto2pm_mode (drivers p ! d) \<noteq> None"
    "pm_state (drivers p ! d) = e_pm_M0 \<or> pm_state (drivers p ! d) = e_pm_M4 \<and> can_wake d (world p)"
  obtains r q where "drv_goto d e_pm_M0 p = Some (r, q)" "only {d} p q" "pm_state (drivers q ! d) = e_pm_M0"
proof (rule drv_goto_managed [OF assms(1-3), of e_pm_M0])
  fix r st w
  assume h: "handler d (pm_state (drivers p ! d)) e_pm_M0 (world p) = (r, st, w)"
    and g: "drv_goto d e_pm_M0 p = Some (r, p\<lparr>world := w, drivers := (drivers p)[d := (drivers p ! d)\<lparr>pm_state := st\<rparr>]\<rparr>)"
      "only {d} p (p\<lparr>world := w, drivers := (drivers p)[d := (drivers p ! d)\<lparr>pm_state := st\<rparr>]\<rparr>)"
  have "st = e_pm_M0" using assms(4)
  proof
    assume "pm_state (drivers p ! d) = e_pm_M0"
    with h show ?thesis using stay_up by simp
  next
    assume "pm_state (drivers p ! d) = e_pm_M4 \<and> can_wake d (world p)"
    with h show ?thesis using wake_up by simp
  qed
  then show ?thesis using that [OF g] assms(2) by simp
qed

text \<open>The rest of a walk behind a step that touched the driver \<open>d\<close> only.\<close>

lemma only_step:
  assumes "only {d} p q" "mod_chain (modules p) hm xs" "fits p" "drivers_exist p xs" "one_module_each p xs"
  shows "mod_chain (modules q) hm xs" "fits q" "drivers_exist q xs" "one_module_each q xs"
    "managed q xs = managed p xs"
proof -
  have s: "same_shape p q" using assms(1) by (simp add: only_def)
  show "mod_chain (modules q) hm xs" using assms(2) by (simp add: same_shape_pform(4) [OF s])
  show "fits q" by (rule fits_shape [OF s assms(3)])
  show "drivers_exist q xs" using drivers_exist_shape [OF s] assms(4) by blast
  show "one_module_each q xs" using one_module_each_shape [OF s] assms(5) by blast
  show "managed q xs = managed p xs" by (rule managed_shape [OF s assms(4)])
qed

lemma only_others:
  assumes "only {d} p q" "d \<notin> D" "e \<in> D"
  shows "pm_state (drivers q ! e) = pm_state (drivers p ! e)" "can_wake e (world p) \<Longrightarrow> can_wake e (world q)"
proof -
  have "e \<noteq> d" using assms(2,3) by auto
  then show "pm_state (drivers q ! e) = pm_state (drivers p ! e)" "can_wake e (world p) \<Longrightarrow> can_wake e (world q)"
    using assms(1) by (simp_all add: only_def)
qed

text \<open>The walk down: if it counts all modules they are all down, and otherwise each is up or can come back.\<close>

definition went_down :: "'w pm \<Rightarrow> nat list \<Rightarrow> bool \<Rightarrow> 'w pm \<Rightarrow> bool" where
  "went_down p xs complete q \<longleftrightarrow>
     only (managed p xs) p q \<and> restorable can_wake q xs \<and> (complete \<longrightarrow> all_down q xs)"

lemma went_down_Cons:
  assumes "only {d} p p1" "went_down p1 xs c q" "drivers_exist p (m # xs)" "one_module_each p (m # xs)"
    "my_driver (modules p ! m) = Some d" "goto2pm_mode (drivers p ! d) \<noteq> None"
    "pm_state (drivers p1 ! d) = e_pm_M4 \<and> can_wake d (world p1)"
  shows "went_down p (m # xs) c q"
proof -
  have sh: "same_shape p p1" using assms(1) by (simp add: only_def)
  have mg1: "managed p1 xs = managed p xs" by (rule managed_shape [OF sh drivers_exist_Cons(2) [OF assms(3)]])
  note mg = managed_Cons [where xs = xs, OF assms(5,6)]
  have dx: "d \<notin> managed p xs" by (rule one_module_each_Cons(2) [OF assms(4,5)])
  have oq: "only (managed p xs) p1 q" using assms(2) mg1 by (simp add: went_down_def)
  have dq: "pm_state (drivers q ! d) = e_pm_M4" "can_wake d (world q)" using oq dx assms(7) by (simp_all add: only_def)
  have "same_shape p q" using same_shape_trans [OF sh] oq by (simp add: only_def)
  then have "managed q (m # xs) = insert d (managed q xs)"
    using managed_shape assms(3) drivers_exist_Cons(2) [OF assms(3)] mg by metis
  moreover have "only (managed p (m # xs)) p q"
    by (rule only_trans [OF only_mono [OF assms(1)] only_mono [OF oq]]) (auto simp: mg)
  ultimately show ?thesis using assms(2) dq by (auto simp: went_down_def restorable_def all_down_def)
qed

lemma push_loop_down:
  assumes "fits p" "mod_chain (modules p) hm xs" "drivers_exist p xs" "one_module_each p xs" "all_up p xs"
    "push_loop hm n p = Some (n', q)"
  shows "went_down p xs (n' = n + int (length xs)) q"
  using assms
proof (induction xs arbitrary: hm n p)
  case Nil
  then show ?case by (simp add: push_loop.simps restorable_def all_down_def managed_def went_down_def)
next
  case (Cons m xs)
  then have m: "hm = Some m" "m < length (modules p)" "mod_chain (modules p) (next_mod (modules p ! m)) xs" by auto
  note e = drivers_exist_Cons(2) [OF Cons.prems(3)] and om = one_module_each_Cons(1) [OF Cons.prems(4)]
  show ?case
  proof (cases "\<exists>d. my_driver (modules p ! m) = Some d \<and> goto2pm_mode (drivers p ! d) \<noteq> None")
    case False
    then have mg: "managed p (m # xs) = managed p xs" by (intro managed_Cons_plain) auto
    have "(case my_driver (modules p ! m) of None \<Rightarrow> Some (0, p) | Some d \<Rightarrow> drv_goto d e_pm_M4 p) = Some (0, p)"
      using False drv_goto_None [of _ p] drivers_exist_Cons(1) [OF Cons.prems(3)] by (auto split: option.splits)
    then have run: "push_loop (next_mod (modules p ! m)) (n + 1) p = Some (n', q)"
      using Cons.prems(6) m by (simp add: push_loop_Cons)
    have "all_up p xs" using Cons.prems(5) mg by (simp add: all_up_def)
    then have IH: "went_down p xs (n' = n + 1 + int (length xs)) q"
      by (rule Cons.IH [OF Cons.prems(1) m(3) e om _ run])
    have "managed q (m # xs) = managed q xs"
      using IH mg managed_shape [of p q] Cons.prems(3) e by (simp add: only_def went_down_def)
    then show ?thesis using IH mg by (simp add: restorable_def all_down_def went_down_def algebra_simps)
  next
    case True
    then obtain d where d: "my_driver (modules p ! m) = Some d" "goto2pm_mode (drivers p ! d) \<noteq> None" by blast
    have dx: "d \<notin> managed p xs" by (rule one_module_each_Cons(2) [OF Cons.prems(4) d(1)])
    note mg = managed_Cons [where xs = xs, OF d]
    have up: "pm_state (drivers p ! d) = e_pm_M0" using Cons.prems(5) mg by (simp add: all_up_def)
    obtain r p1 where g: "drv_goto d e_pm_M4 p = Some (r, p1)" "only {d} p p1"
      and r: "r = 0 \<Longrightarrow> pm_state (drivers p1 ! d) = e_pm_M4 \<and> can_wake d (world p1)"
        "r \<noteq> 0 \<Longrightarrow> pm_state (drivers p1 ! d) = e_pm_M0"
      by (rule down_one [OF Cons.prems(1) drivers_exist_Cons(1) [OF Cons.prems(3) d(1)] d(2) up]) (rule that; blast)
    note s = only_step [OF g(2) m(3) Cons.prems(1) e om]
    have up1: "all_up p1 xs" using only_others(1) [OF g(2) dx] s(5) Cons.prems(5) mg by (simp add: all_up_def)
    show ?thesis
    proof (cases "r = 0")
      case False
      then have q: "q = p1" "n' = n" using Cons.prems(6) m d(1) g by (simp_all add: push_loop_Cons)
      have "managed p1 (m # xs) = insert d (managed p1 xs)"
        using managed_shape [OF _ Cons.prems(3)] g(2) s(5) mg by (simp add: only_def)
      then have "restorable can_wake p1 (m # xs)" using up1 r(2) [OF False] by (simp add: restorable_def all_up_def)
      then show ?thesis using q only_mono [OF g(2)] mg by (simp add: went_down_def)
    next
      case True
      have "push_loop (next_mod (modules p ! m)) (n + 1) p1 = Some (n', q)"
        using Cons.prems(6) m d(1) g True by (simp add: push_loop_Cons)
      then have "went_down p1 xs (n' = n + 1 + int (length xs)) q" by (rule Cons.IH [OF s(2,1,3,4) up1])
      then have "went_down p (m # xs) (n' = n + 1 + int (length xs)) q"
        by (rule went_down_Cons [OF g(2) _ Cons.prems(3,4) d r(1) [OF True]])
      then show ?thesis by (simp add: algebra_simps)
    qed
  qed
qed

text \<open>The walk up.\<close>

lemma wake_module_up:
  assumes "fits p" "m < length (modules p)" "drivers_exist p (m # xs)" "restorable can_wake p (m # xs)"
    "wake_module (modules p ! m) p = Some q"
  shows "only (managed p [m]) p q" "all_up q [m]"
proof -
  have sh: "same_shape p q" by (rule wake_module_shape [OF assms(5)])
  have e: "drivers_exist p [m]" using assms(3) by (simp add: drivers_exist_def)
  have c: "only {} p (clock_on (modules p ! m) p)" by (rule clock_on_only [OF assms(1,2)])
  have "only (managed p [m]) p q \<and> all_up q [m]"
  proof (cases "\<exists>d. my_driver (modules p ! m) = Some d \<and> goto2pm_mode (drivers p ! d) \<noteq> None")
    case False
    then have mg: "managed p [m] = {}" by (auto simp: managed_def)
    have "q = p \<or> q = clock_on (modules p ! m) p"
    proof (cases "my_driver (modules p ! m)")
      case None
      then show ?thesis using assms(5) by (simp add: wake_module_def)
    next
      case (Some d)
      then have d: "d < length (drivers p)" "goto2pm_mode (drivers p ! d) = None"
        using False drivers_exist_Cons(1) [OF assms(3)] by auto
      have "drv_goto d e_pm_M0 (clock_on (modules p ! m) p) = Some (0, clock_on (modules p ! m) p)"
        by (rule drv_goto_None) (use d same_shape_len [OF clock_on_shape] same_shape_nth(1) [OF clock_on_shape] in \<open>metis+\<close>)
      then show ?thesis using assms(5) Some by (simp add: wake_module_def)
    qed
    then have "only {} p q" using c by auto
    then show ?thesis using mg managed_shape [OF sh e] by (simp add: all_up_def)
  next
    case True
    then obtain d where d: "my_driver (modules p ! m) = Some d" "goto2pm_mode (drivers p ! d) \<noteq> None" by blast
    have dl: "d < length (drivers p)" by (rule drivers_exist_Cons(1) [OF assms(3) d(1)])
    have mg: "managed p [m] = {d}" using managed_Cons [where xs = "[]", OF d] by (simp add: managed_def)
    let ?p1 = "clock_on (modules p ! m) p"
    have s1: "same_shape p ?p1" by simp
    have "restorable can_wake ?p1 (m # xs)" by (rule restorable_only [OF assms(4) c assms(3)])
    moreover have "d \<in> managed ?p1 (m # xs)" using managed_Cons [where xs = xs, OF d] managed_shape [OF s1 assms(3)] by simp
    ultimately have r1: "pm_state (drivers ?p1 ! d) = e_pm_M0 \<or> pm_state (drivers ?p1 ! d) = e_pm_M4 \<and> can_wake d (world ?p1)"
      by (simp add: restorable_def)
    have d1: "d < length (drivers ?p1)" "goto2pm_mode (drivers ?p1 ! d) \<noteq> None"
      using dl d(2) same_shape_len [OF s1] same_shape_nth(1) [OF s1 dl] by simp_all
    obtain r q' where q': "drv_goto d e_pm_M0 ?p1 = Some (r, q')" "only {d} ?p1 q'" "pm_state (drivers q' ! d) = e_pm_M0"
      by (rule up_one [OF fits_shape [OF s1 assms(1)] d1 r1])
    have "q = q'" using assms(5) d(1) q'(1) by (simp add: wake_module_def)
    then show ?thesis
      using q'(2,3) only_trans [OF only_mono [OF c] q'(2)] managed_shape [OF sh e] mg by (simp add: all_up_def)
  qed
  then show "only (managed p [m]) p q" "all_up q [m]" by blast+
qed

lemma managed_Cons_Un: "managed p (m # xs) = managed p [m] \<union> managed p xs"
  by (auto simp: managed_def)

lemma managed_Cons_disjoint:
  "one_module_each p (m # xs) \<Longrightarrow> e \<in> managed p [m] \<Longrightarrow> e \<notin> managed p xs"
  by (auto simp: one_module_each_def managed_def)

lemma make_loop_up:
  assumes "fits p" "mod_chain (modules p) hm xs" "drivers_exist p xs" "one_module_each p xs"
    "restorable can_wake p xs" "int (length xs) \<le> n" "make_loop hm n p = Some (n', q)"
  shows "only (managed p xs) p q \<and> all_up q xs"
  using assms
proof (induction xs arbitrary: hm n p)
  case Nil
  then show ?case by (simp add: make_loop.simps all_up_def managed_def)
next
  case (Cons m xs)
  then have m: "hm = Some m" "m < length (modules p)" "mod_chain (modules p) (next_mod (modules p ! m)) xs" by auto
  note e = drivers_exist_Cons(2) [OF Cons.prems(3)] and om = one_module_each_Cons(1) [OF Cons.prems(4)]
  obtain p1 where w: "wake_module (modules p ! m) p = Some p1"
    and run: "make_loop (next_mod (modules p ! m)) (n - 1) p1 = Some (n', q)"
    using Cons.prems(6,7) m by (auto simp: make_loop_Cons split: bind_splits)
  note s = wake_module_shape [OF w]
  note u = wake_module_up [OF Cons.prems(1) m(2) Cons.prems(3,5) w]
  have mg1: "managed p1 xs = managed p xs" by (rule managed_shape [OF s e])
  have "pm_state (drivers p1 ! d) = e_pm_M0 \<or> pm_state (drivers p1 ! d) = e_pm_M4 \<and> can_wake d (world p1)"
    if "d \<in> managed p xs" for d
  proof -
    have "d \<notin> managed p [m]" using managed_Cons_disjoint [OF Cons.prems(4)] that by blast
    then show ?thesis using u(1) Cons.prems(5) that managed_Cons_Un [of p m xs] by (auto simp: only_def restorable_def)
  qed
  then have rst: "restorable can_wake p1 xs" using mg1 by (simp add: restorable_def)
  have IH: "only (managed p1 xs) p1 q \<and> all_up q xs"
    by (rule Cons.IH [OF fits_shape [OF s Cons.prems(1)] _ _ _ rst _ run])
      (use m(3) e om Cons.prems(6) in \<open>simp_all add: same_shape_pform(4) [OF s] drivers_exist_shape [OF s]
        one_module_each_shape [OF s]\<close>)
  have e1: "drivers_exist p [m]" using Cons.prems(3) by (simp add: drivers_exist_def)
  have mg: "managed p1 [m] = managed p [m]" "managed q [m] = managed p [m]"
    using managed_shape [OF s e1] managed_shape [OF same_shape_trans [OF s] e1] IH by (auto simp: only_def)
  have "all_up q [m]"
    unfolding all_up_def mg
  proof
    fix d assume d: "d \<in> managed p [m]"
    then have "d \<notin> managed p1 xs" using managed_Cons_disjoint [OF Cons.prems(4) d] mg1 by simp
    then show "pm_state (drivers q ! d) = e_pm_M0" using IH u(2) d mg(1) by (simp add: only_def all_up_def)
  qed
  then have "all_up q (m # xs)" using IH managed_Cons_Un [of q m xs] by (auto simp: all_up_def)
  moreover have "only (managed p (m # xs)) p q"
    by (rule only_trans [OF only_mono [OF u(1)] only_mono [of "managed p xs"]])
      (use IH mg1 managed_Cons_Un [of p m xs] in auto)
  ultimately show ?case by blast
qed

end

section \<open>The contract with the platform\<close>

text \<open>The operations the framework insists on are there.\<close>

definition has_mandatory :: "'w platform_pm_ops \<Rightarrow> bool" where
  "has_mandatory ops \<longleftrightarrow> set_up_wkup_srcs ops \<noteq> None \<and> handle_S3_wakeup ops \<noteq> None
     \<and> are_irqs_pending ops \<noteq> None \<and> can_try_pm_state ops \<noteq> None \<and> back_up_soc_data ops \<noteq> None
     \<and> restore_soc_data ops \<noteq> None \<and> dsbl_sys_irq ops \<noteq> None \<and> enbl_sys_irq ops \<noteq> None"

locale pm_platform = pm_drivers handler can_wake irq
  for handler :: "nat \<Rightarrow> mod_pm \<Rightarrow> mod_pm \<Rightarrow> 'w \<Rightarrow> int \<times> mod_pm \<times> 'w"
    and can_wake :: "nat \<Rightarrow> 'w \<Rightarrow> bool" and irq :: "'w \<Rightarrow> 'i" +
  fixes ops :: "'w platform_pm_ops"
  assumes mandatory: "has_mandatory ops"
    and wkup_calm: "set_up_wkup_srcs ops = Some f \<Longrightarrow> harmless can_wake irq (\<lambda>w. snd (f s w))"
    and handle_calm: "handle_S3_wakeup ops = Some f1 \<Longrightarrow> harmless can_wake irq (\<lambda>w. snd (f1 w))"
    and pending_calm: "are_irqs_pending ops = Some f2 \<Longrightarrow> harmless can_wake irq (\<lambda>w. snd (f2 w))"
    and try_calm: "can_try_pm_state ops = Some f3 \<Longrightarrow> harmless can_wake irq (\<lambda>w. snd (f3 s w))"
    and S4_off: "enter_S4 ops = Some f4 \<Longrightarrow> f4 w = None"
    and S3_sleeps: "enter_S3 ops = Some f5 \<Longrightarrow> fst (f5 w)"
    and S3_calm: "enter_S3 ops = Some f5 \<Longrightarrow> harmless can_wake irq (\<lambda>w. snd (f5 w))"
    and S2_calm: "enter_S2 ops = Some f6 \<Longrightarrow> harmless can_wake irq f6"
    and S1_calm: "enter_S1 ops = Some f6 \<Longrightarrow> harmless can_wake irq f6"
    and back_up_calm: "back_up_soc_data ops = Some f6 \<Longrightarrow> harmless can_wake irq f6"
    and restore_calm: "restore_soc_data ops = Some f6 \<Longrightarrow> harmless can_wake irq f6"
    and mask_calm: "dsbl_sys_irq ops = Some f7 \<Longrightarrow> can_wake d w \<Longrightarrow> can_wake d (snd (f7 w))"
    and unmask_calm: "enbl_sys_irq ops = Some f8 \<Longrightarrow> can_wake d w \<Longrightarrow> can_wake d (f8 mk w)"
    and mask_restored: "dsbl_sys_irq ops = Some f7 \<Longrightarrow> enbl_sys_irq ops = Some f8 \<Longrightarrow>
      irq w2 = irq (snd (f7 w)) \<Longrightarrow> irq (f8 (fst (f7 w)) w2) = irq w"
begin

text \<open>Between two steps of the idle task: the list is well-formed, and every module is up or can come back.\<close>

definition resting :: "nat list \<Rightarrow> 'w pm \<Rightarrow> bool" where
  "resting xs p \<longleftrightarrow> registered p xs \<and> used_list_len p = int (length xs) \<and> fits p \<and> pm_ops p = Some ops
     \<and> restorable can_wake p xs"

lemma all_up_restorable: "all_up p xs \<Longrightarrow> restorable can_wake p xs"
  by (simp add: all_up_def restorable_def)

lemma restingD:
  assumes "resting xs p"
  shows "registered p xs" "used_list_len p = int (length xs)" "fits p" "ops_of p = Some ops"
    "restorable can_wake p xs" "mod_chain (modules p) (used_mod_list p) xs" "drivers_exist p xs" "one_module_each p xs"
    "pform p"
  using assms registeredD(1,2) registered_drivers_exist registered_one_module_each
  by (auto simp: resting_def ops_of_def)

lemma resting_shape:
  assumes "resting xs p" "same_shape p q" "restorable can_wake q xs"
  shows "resting xs q"
  using assms registered_shape fits_shape by (auto simp: resting_def same_shape_pform)

text \<open>From here the interrupt mask is the one given, and the modules are up or at least resting.\<close>

definition step_ok :: "nat list \<Rightarrow> 'w pm \<Rightarrow> 'w pm \<Rightarrow> bool" where
  "step_ok xs p q \<longleftrightarrow> resting xs q \<and> same_shape p q \<and> irq (world q) = irq (world p)
     \<and> (all_up p xs \<longrightarrow> all_up q xs) \<and> (all_down p xs \<longrightarrow> all_down q xs)"

lemma step_ok_trans: "step_ok xs p q \<Longrightarrow> step_ok xs q r \<Longrightarrow> step_ok xs p r"
  unfolding step_ok_def using same_shape_trans by metis

lemma step_ok_world:
  assumes "resting xs p" "harmless can_wake irq f"
  shows "step_ok xs p (p\<lparr>world := f (world p)\<rparr>)"
proof -
  let ?q = "p\<lparr>world := f (world p)\<rparr>"
  have o: "only {} p ?q" by (rule only_world [OF assms(2)])
  note r = restingD [OF assms(1)]
  have "resting xs ?q"
    by (rule resting_shape [OF assms(1) _ restorable_only [OF r(5) o r(7)]]) simp
  then show ?thesis using o by (simp add: step_ok_def only_def all_up_def all_down_def managed_def)
qed

lemma plat_get_ok:
  assumes "resting xs p" "sel ops = Some f" "harmless can_wake irq (\<lambda>w. snd (f w))"
  obtains q where "plat_get sel p = Some (fst (f (world p)), q)" "step_ok xs p q"
  using that step_ok_world [OF assms(1,3)] restingD(4) [OF assms(1)] assms(2)
  by (simp add: plat_get_def)

lemma plat_do_ok:
  assumes "resting xs p" "sel ops = Some f" "harmless can_wake irq f"
  obtains q where "plat_do sel p = Some q" "step_ok xs p q"
  using that step_ok_world [OF assms(1,3)] restingD(4) [OF assms(1)] assms(2)
  by (simp add: plat_do_def)

lemma wake_all_ok:
  assumes "resting xs p"
  obtains q where "wake_all p = Some q" "resting xs q" "same_shape p q" "all_up q xs"
    "irq (world q) = irq (world p)"
proof -
  note r = restingD [OF assms]
  obtain n' q where q: "make_loop (used_mod_list p) (used_list_len p) p = Some (n', q)" "same_shape p q"
    by (rule make_loop_ends [OF r(6,7)])
  have u: "only (managed p xs) p q \<and> all_up q xs"
    by (rule make_loop_up [OF r(3,6,7,8,5) _ q(1)]) (simp add: r(2))
  have "resting xs q" using u by (intro resting_shape [OF assms q(2)] all_up_restorable) blast
  then show ?thesis
    using that [of q] q u r(9) by (simp add: wake_all_def make_modules_to_M0_no_irq_def only_def)
qed

lemma push_ok:
  assumes "resting xs p" "all_up p xs"
  obtains n q where "push_modules_to_M4_no_irq p = Some (n, q)" "resting xs q" "same_shape p q"
    "irq (world q) = irq (world p)" "n = used_list_len q \<Longrightarrow> all_down q xs"
proof -
  note r = restingD [OF assms(1)]
  obtain n q where q: "push_loop (used_mod_list p) 0 p = Some (n, q)" "same_shape p q"
    by (rule push_loop_ends [OF r(6,7)])
  have w: "went_down p xs (n = 0 + int (length xs)) q" by (rule push_loop_down [OF r(3,6,7,8) assms(2) q(1)])
  have "resting xs q" using w by (intro resting_shape [OF assms(1) q(2)]) (simp add: went_down_def)
  then show ?thesis
    using that [of n q] q w r(2,9) same_shape_pform(2) [OF q(2)]
    by (simp add: push_modules_to_M4_no_irq_def went_down_def only_def)
qed

text \<open>What every attempt establishes: all modules are up again, under the same interrupt mask.\<close>

definition settled :: "nat list \<Rightarrow> 'w pm \<Rightarrow> 'w pm \<Rightarrow> bool" where
  "settled xs p q \<longleftrightarrow> resting xs q \<and> all_up q xs \<and> same_shape p q \<and> irq (world q) = irq (world p)"

lemma settled_step: "step_ok xs p q \<Longrightarrow> all_up p xs \<Longrightarrow> settled xs p q"
  by (simp add: settled_def step_ok_def)

lemma settled_trans: "settled xs p q \<Longrightarrow> settled xs q r \<Longrightarrow> settled xs p r"
  unfolding settled_def using same_shape_trans by metis

lemma settled_after: "step_ok xs p q \<Longrightarrow> settled xs q r \<Longrightarrow> settled xs p r"
  unfolding settled_def step_ok_def using same_shape_trans by metis

lemma wake_all_settled:
  assumes "resting xs p"
  obtains q where "wake_all p = Some q" "settled xs p q"
proof (rule wake_all_ok [OF assms])
  fix q assume "wake_all p = Some q" "resting xs q" "same_shape p q" "all_up q xs" "irq (world q) = irq (world p)"
  then show ?thesis by (intro that [of q]) (simp_all add: settled_def)
qed

text \<open>Each operation of the platform, as the framework calls it.\<close>

lemma mand:
  obtains f1 f2 f3 f4 f5 f6 f7 f8 where "set_up_wkup_srcs ops = Some f1" "handle_S3_wakeup ops = Some f2"
    "are_irqs_pending ops = Some f3" "can_try_pm_state ops = Some f4" "back_up_soc_data ops = Some f5"
    "restore_soc_data ops = Some f6" "dsbl_sys_irq ops = Some f7" "enbl_sys_irq ops = Some f8"
  using mandatory unfolding has_mandatory_def by blast

lemma pending_ok:
  assumes "resting xs p"
  obtains b q where "plat_get are_irqs_pending p = Some (b, q)" "step_ok xs p q"
proof (rule mand)
  fix f assume f: "are_irqs_pending ops = Some f"
  show ?thesis using plat_get_ok [where sel = are_irqs_pending and f = f, OF assms] f pending_calm [OF f] that by metis
qed

lemma can_try_ok:
  assumes "resting xs p"
  obtains b q where "plat_get (\<lambda>ops. map_option (\<lambda>f. f s) (can_try_pm_state ops)) p = Some (b, q)" "step_ok xs p q"
proof (rule mand)
  fix f4 assume f: "can_try_pm_state ops = Some f4"
  show ?thesis
    using plat_get_ok [OF assms, of "\<lambda>ops. map_option (\<lambda>f. f s) (can_try_pm_state ops)" "f4 s"] f try_calm [OF f] that
    by auto
qed

lemma wkup_ok:
  assumes "resting xs p"
  obtains b q where "plat_get (\<lambda>ops. map_option (\<lambda>f. f s) (set_up_wkup_srcs ops)) p = Some (b, q)" "step_ok xs p q"
proof (rule mand)
  fix f4 assume f: "set_up_wkup_srcs ops = Some f4"
  show ?thesis
    using plat_get_ok [OF assms, of "\<lambda>ops. map_option (\<lambda>f. f s) (set_up_wkup_srcs ops)" "f4 s"] f wkup_calm [OF f] that
    by auto
qed

lemma back_up_ok:
  assumes "resting xs p"
  obtains q where "plat_do back_up_soc_data p = Some q" "step_ok xs p q"
proof (rule mand)
  fix f assume f: "back_up_soc_data ops = Some f"
  show ?thesis using plat_do_ok [where sel = back_up_soc_data and f = f, OF assms] f back_up_calm [OF f] that by metis
qed

lemma restore_ok:
  assumes "resting xs p"
  obtains q where "plat_do restore_soc_data p = Some q" "step_ok xs p q"
proof (rule mand)
  fix f assume f: "restore_soc_data ops = Some f"
  show ?thesis using plat_do_ok [where sel = restore_soc_data and f = f, OF assms] f restore_calm [OF f] that by metis
qed

lemma handle_ok:
  assumes "resting xs p"
  obtains b q where "plat_get handle_S3_wakeup p = Some (b, q)" "step_ok xs p q"
proof (rule mand)
  fix f assume f: "handle_S3_wakeup ops = Some f"
  show ?thesis using plat_get_ok [where sel = handle_S3_wakeup and f = f, OF assms] f handle_calm [OF f] that by metis
qed

text \<open>The chip sleeps and wakes up.\<close>

lemma enter_into_S3_ok:
  assumes "resting xs p" "enter_S3 ops = Some f"
  obtains q where "enter_into_S3 p = Some q" "settled xs p q"
proof -
  obtain p1 where p1: "plat_do back_up_soc_data p = Some p1" "step_ok xs p p1" by (rule back_up_ok [OF assms(1)])
  then have "resting xs p1" by (simp add: step_ok_def)
  then obtain p2 where p2: "plat_get enter_S3 p1 = Some (fst (f (world p1)), p2)" "step_ok xs p1 p2"
    by (rule plat_get_ok [where sel = enter_S3 and f = f, OF _ assms(2) S3_calm [OF assms(2)]])
  have f: "fst (f (world p1))" by (rule S3_sleeps [OF assms(2)])
  have "resting xs p2" using p2(2) by (simp add: step_ok_def)
  then obtain p3 where p3: "plat_do restore_soc_data p2 = Some p3" "step_ok xs p2 p3" by (rule restore_ok)
  then have "resting xs p3" by (simp add: step_ok_def)
  then obtain p4 where p4: "wake_all p3 = Some p4" "settled xs p3 p4" by (rule wake_all_settled)
  then have "resting xs p4" by (simp add: settled_def)
  then obtain b p5 where p5: "plat_get handle_S3_wakeup p4 = Some (b, p5)" "step_ok xs p4 p5" by (rule handle_ok)
  have "settled xs p4 p5" using settled_step [OF p5(2)] p4(2) by (simp add: settled_def)
  then have "settled xs p p5"
    using settled_after p1(2) p2(2) p3(2) p4(2) settled_trans by metis
  then show ?thesis
    using that [of p5] p1(1) p2(1) f p3(1) p4(1) p5(1) by (simp add: enter_into_S3_def resume_from_S3_def)
qed

text \<open>The attempt at S3: either it gives up, or the chip goes to sleep with every module down; in
  both cases everything is up afterwards.\<close>

lemma do_try_S3_ok:
  assumes "resting xs p" "all_up p xs" "enter_S3 ops = Some f"
  obtains r q where "do_try_S3_no_irq p = Some (r, q)" "settled xs p q"
proof (rule push_ok [OF assms(1,2)])
  fix n p1
  assume p1: "push_modules_to_M4_no_irq p = Some (n, p1)" "resting xs p1" "same_shape p p1"
    "irq (world p1) = irq (world p)" "n = used_list_len p1 \<Longrightarrow> all_down p1 xs"
  have st: "settled xs p q" if "settled xs p1 q" for q
    using that p1(3,4) same_shape_trans by (metis settled_def)
  show ?thesis
  proof (cases "used_list_len p1 = n")
    case False
    obtain q where "wake_all p1 = Some q" "settled xs p1 q" by (rule wake_all_settled [OF p1(2)])
    then show ?thesis using that [of "-1" q] p1(1) False st by (simp add: do_try_S3_no_irq_def)
  next
    case True
    obtain r2 p2 where p2: "plat_get (\<lambda>ops. map_option (\<lambda>f. f e_pm_S3) (set_up_wkup_srcs ops)) p1 = Some (r2, p2)"
      "step_ok xs p1 p2" by (rule wkup_ok [OF p1(2)])
    have r2: "resting xs p2" using p2(2) by (simp add: step_ok_def)
    obtain q2 where q2: "wake_all p2 = Some q2" "settled xs p2 q2" by (rule wake_all_settled [OF r2])
    obtain b p3 where p3: "plat_get are_irqs_pending p2 = Some (b, p3)" "step_ok xs p2 p3" by (rule pending_ok [OF r2])
    have r3: "resting xs p3" using p3(2) by (simp add: step_ok_def)
    obtain q3 where q3: "wake_all p3 = Some q3" "settled xs p3 q3" by (rule wake_all_settled [OF r3])
    obtain q4 where q4: "enter_into_S3 p3 = Some q4" "settled xs p3 q4" by (rule enter_into_S3_ok [OF r3 assms(3)])
    have "settled xs p q2" "settled xs p q3" "settled xs p q4"
      using st settled_after p2(2) p3(2) q2(2) q3(2) q4(2) by blast+
    then show ?thesis
      using that [of "-1" q2] that [of 0 q3] that [of 0 q4] p1(1) True p2(1) q2(1) p3(1) q3(1) q4(1)
      by (cases "r2 < 0"; cases b) (simp_all add: do_try_S3_no_irq_def)
  qed
qed

lemma do_try_S4_ok:
  assumes "resting xs p" "all_up p xs" "enter_S4 ops = Some f"
  obtains t where "do_try_S4_no_irq p = Some None" "all_down t xs" "same_shape p t"
  | r q where "do_try_S4_no_irq p = Some (Some (r, q))" "settled xs p q"
proof (rule push_ok [OF assms(1,2)])
  fix n p1
  assume p1: "push_modules_to_M4_no_irq p = Some (n, p1)" "resting xs p1" "same_shape p p1"
    "irq (world p1) = irq (world p)" "n = used_list_len p1 \<Longrightarrow> all_down p1 xs"
  have st: "settled xs p q" if "settled xs p1 q" for q
    using that p1(3,4) same_shape_trans by (metis settled_def)
  show ?thesis
  proof (cases "used_list_len p1 = n")
    case False
    obtain q where "wake_all p1 = Some q" "settled xs p1 q" by (rule wake_all_settled [OF p1(2)])
    then show ?thesis using that(2) [of "-1" q] p1(1) False st by (simp add: do_try_S4_no_irq_def)
  next
    case True
    obtain r2 p2 where p2: "plat_get (\<lambda>ops. map_option (\<lambda>f. f e_pm_S4) (set_up_wkup_srcs ops)) p1 = Some (r2, p2)"
      "step_ok xs p1 p2" by (rule wkup_ok [OF p1(2)])
    have r2: "resting xs p2" using p2(2) by (simp add: step_ok_def)
    obtain q2 where q2: "wake_all p2 = Some q2" "settled xs p2 q2" by (rule wake_all_settled [OF r2])
    obtain p3 where p3: "plat_do back_up_soc_data p2 = Some p3" "step_ok xs p2 p3" by (rule back_up_ok [OF r2])
    have r3: "resting xs p3" using p3(2) by (simp add: step_ok_def)
    obtain b p4 where p4: "plat_get are_irqs_pending p3 = Some (b, p4)" "step_ok xs p3 p4" by (rule pending_ok [OF r3])
    have r4: "resting xs p4" using p4(2) by (simp add: step_ok_def)
    obtain q4 where q4: "wake_all p4 = Some q4" "settled xs p4 q4" by (rule wake_all_settled [OF r4])
    have "settled xs p q2" "settled xs p q4"
      using st settled_after p2(2) p3(2) p4(2) q2(2) q4(2) by blast+
    moreover have "all_down p4 xs" "same_shape p p4"
      using p1(3,5) True p2(2) p3(2) p4(2) same_shape_trans unfolding step_ok_def by metis+
    ultimately show ?thesis
      using that(2) [of "-1" q2] that(2) [of 0 q4] that(1) [of p4] p1(1) True p2(1) q2(1) p3(1) p4(1) q4(1)
        assms(3) S4_off [OF assms(3)] restingD(4) [OF r4]
      by (cases "r2 < 0"; cases b) (simp_all add: do_try_S4_no_irq_def)
  qed
qed

lemma try_S4_ok:
  assumes "resting xs p" "all_up p xs"
  obtains t where "try_S4_no_irq p = Some None" "all_down t xs" "same_shape p t"
  | r q where "try_S4_no_irq p = Some (Some (r, q))" "settled xs p q"
proof (cases "enter_S4 ops")
  case None
  then show ?thesis
    using that(2) [of "-1" p] restingD(4) [OF assms(1)] assms by (simp add: try_S4_no_irq_def settled_def)
next
  case (Some f)
  obtain b p1 where p1: "plat_get (\<lambda>ops. map_option (\<lambda>f. f e_pm_S4) (can_try_pm_state ops)) p = Some (b, p1)"
    "step_ok xs p p1" by (rule can_try_ok [OF assms(1)])
  have s: "settled xs p p1" by (rule settled_step [OF p1(2) assms(2)])
  then have r1: "resting xs p1" "all_up p1 xs" "same_shape p p1" by (simp_all add: settled_def)
  show ?thesis
  proof (cases b)
    case False
    then show ?thesis
      using that(2) [of "-1" p1] s p1(1) Some restingD(4) [OF assms(1)] by (simp add: try_S4_no_irq_def)
  next
    case True
    then have eq: "try_S4_no_irq p = do_try_S4_no_irq p1"
      using p1(1) Some restingD(4) [OF assms(1)] by (simp add: try_S4_no_irq_def)
    show ?thesis
      by (rule do_try_S4_ok [OF r1(1,2) Some])
        (use that eq same_shape_trans [OF r1(3)] settled_trans [OF s] in \<open>metis+\<close>)
  qed
qed

lemma try_S3_ok:
  assumes "resting xs p" "all_up p xs"
  obtains r q where "try_S3_no_irq p = Some (r, q)" "settled xs p q"
proof (cases "enter_S3 ops")
  case None
  then show ?thesis
    using that [of "-1" p] restingD(4) [OF assms(1)] assms by (simp add: try_S3_no_irq_def settled_def)
next
  case (Some f)
  obtain b p1 where p1: "plat_get (\<lambda>ops. map_option (\<lambda>f. f e_pm_S3) (can_try_pm_state ops)) p = Some (b, p1)"
    "step_ok xs p p1" by (rule can_try_ok [OF assms(1)])
  have s: "settled xs p p1" by (rule settled_step [OF p1(2) assms(2)])
  then have r1: "resting xs p1" "all_up p1 xs" by (simp_all add: settled_def)
  obtain r q where "do_try_S3_no_irq p1 = Some (r, q)" "settled xs p1 q" by (rule do_try_S3_ok [OF r1 Some])
  then show ?thesis
    using that [of "-1" p1] that [of r q] s settled_trans [OF s] p1(1) Some restingD(4) [OF assms(1)]
    by (cases b) (simp_all add: try_S3_no_irq_def)
qed

lemma try_S2_ok:
  assumes "resting xs p" "all_up p xs"
  obtains r q where "try_S2_no_irq p = Some (r, q)" "settled xs p q"
proof (cases "enter_S2 ops")
  case None
  then show ?thesis
    using that [of "-1" p] restingD(4) [OF assms(1)] assms by (simp add: try_S2_no_irq_def settled_def)
next
  case (Some f)
  obtain b p1 where p1: "plat_get (\<lambda>ops. map_option (\<lambda>f. f e_pm_S2) (can_try_pm_state ops)) p = Some (b, p1)"
    "step_ok xs p p1" by (rule can_try_ok [OF assms(1)])
  have s1: "settled xs p p1" by (rule settled_step [OF p1(2) assms(2)])
  then have r1: "resting xs p1" "all_up p1 xs" by (simp_all add: settled_def)
  obtain b2 p2 where p2: "plat_get are_irqs_pending p1 = Some (b2, p2)" "step_ok xs p1 p2"
    by (rule pending_ok [OF r1(1)])
  have s2: "settled xs p1 p2" by (rule settled_step [OF p2(2) r1(2)])
  then have r2: "resting xs p2" "all_up p2 xs" by (simp_all add: settled_def)
  obtain p3 where p3: "plat_do enter_S2 p2 = Some p3" "step_ok xs p2 p3"
    by (rule plat_do_ok [where sel = enter_S2 and f = f, OF r2(1) Some S2_calm [OF Some]])
  have "settled xs p p2" "settled xs p p3"
    using settled_trans [OF s1 s2] settled_trans [OF _ settled_step [OF p3(2) r2(2)]] by blast+
  then show ?thesis
    using that [of "-1" p1] that [of 0 p2] that [of 0 p3] s1 p1(1) p2(1) p3(1) Some restingD(4) [OF assms(1)]
    by (cases b; cases b2) (simp_all add: try_S2_no_irq_def)
qed

lemma try_S1_ok:
  assumes "resting xs p" "all_up p xs"
  obtains r q where "try_S1_no_irq p = Some (r, q)" "settled xs p q"
proof (cases "enter_S1 ops")
  case None
  then show ?thesis
    using that [of "-1" p] restingD(4) [OF assms(1)] assms by (simp add: try_S1_no_irq_def settled_def)
next
  case (Some f)
  obtain b2 p2 where p2: "plat_get are_irqs_pending p = Some (b2, p2)" "step_ok xs p p2"
    by (rule pending_ok [OF assms(1)])
  have s2: "settled xs p p2" by (rule settled_step [OF p2(2) assms(2)])
  then have r2: "resting xs p2" "all_up p2 xs" by (simp_all add: settled_def)
  obtain p3 where p3: "plat_do enter_S1 p2 = Some p3" "step_ok xs p2 p3"
    by (rule plat_do_ok [where sel = enter_S1 and f = f, OF r2(1) Some S1_calm [OF Some]])
  have "settled xs p p3" by (rule settled_trans [OF s2 settled_step [OF p3(2) r2(2)]])
  then show ?thesis
    using that [of 0 p2] that [of 0 p3] s2 p2(1) p3(1) Some restingD(4) [OF assms(1)]
    by (cases b2) (simp_all add: try_S1_no_irq_def)
qed

text \<open>Masking and unmasking: as \<open>settled\<close>, but the mask may differ.\<close>

definition upright :: "nat list \<Rightarrow> 'w pm \<Rightarrow> 'w pm \<Rightarrow> bool" where
  "upright xs p q \<longleftrightarrow> resting xs q \<and> all_up q xs \<and> same_shape p q"

lemma upright_world:
  assumes "resting xs p" "all_up p xs" "\<And>d. can_wake d (world p) \<Longrightarrow> can_wake d w"
  shows "upright xs p (p\<lparr>world := w\<rparr>)"
proof -
  have s: "same_shape p (p\<lparr>world := w\<rparr>)" by simp
  have "all_up (p\<lparr>world := w\<rparr>) xs" using assms(2) by (simp add: all_up_def managed_def)
  then show ?thesis using resting_shape [OF assms(1) s] all_up_restorable s by (simp add: upright_def)
qed

lemma mask_ok:
  assumes "resting xs p" "all_up p xs" "dsbl_sys_irq ops = Some f7"
  shows "plat_get dsbl_sys_irq p = Some (fst (f7 (world p)), p\<lparr>world := snd (f7 (world p))\<rparr>)"
    "upright xs p (p\<lparr>world := snd (f7 (world p))\<rparr>)"
  using upright_world [OF assms(1,2)] mask_calm [OF assms(3)] restingD(4) [OF assms(1)] assms(3)
  by (simp_all add: plat_get_def)

lemma unmask_ok:
  assumes "resting xs p" "all_up p xs" "enbl_sys_irq ops = Some f8"
  shows "irq_restore mk p = Some (p\<lparr>world := f8 mk (world p)\<rparr>)" "upright xs p (p\<lparr>world := f8 mk (world p)\<rparr>)"
  using upright_world [OF assms(1,2)] unmask_calm [OF assms(3)] restingD(4) [OF assms(1)] assms(3)
  by (simp_all add: irq_restore_def plat_do_def)

lemma upright_trans: "upright xs p q \<Longrightarrow> upright xs q r \<Longrightarrow> upright xs p r"
  unfolding upright_def using same_shape_trans by metis

lemma settled_upright: "settled xs p q \<Longrightarrow> upright xs p q" by (simp add: settled_def upright_def)

text \<open>The mask \<open>mk\<close> leads back to the interrupt state \<open>i\<close>.\<close>

definition masked :: "'i \<Rightarrow> u32 \<Rightarrow> 'w pm \<Rightarrow> bool" where
  "masked i mk p \<longleftrightarrow>
     (\<forall>f8 w. enbl_sys_irq ops = Some f8 \<longrightarrow> irq w = irq (world p) \<longrightarrow> irq (f8 mk w) = i)"

lemma masked_settled: "masked i mk p \<Longrightarrow> settled xs p q \<Longrightarrow> masked i mk q"
  by (simp add: masked_def settled_def)

lemma masked_mask:
  assumes "dsbl_sys_irq ops = Some f7"
  shows "masked (irq (world p)) (fst (f7 (world p))) (p\<lparr>world := snd (f7 (world p))\<rparr>)"
  using mask_restored [OF assms] by (simp add: masked_def)

lemma try_S3_to_S1_ok:
  assumes "resting xs p" "all_up p xs" "masked i mk p"
  obtains mk' q where "try_S3_to_S1 mk p = Some (mk', q)" "upright xs p q" "masked i mk' q"
proof -
  obtain f7 f8 where f7: "dsbl_sys_irq ops = Some f7" and f8: "enbl_sys_irq ops = Some f8" by (rule mand)
  obtain r3 p1 where p1: "try_S3_no_irq p = Some (r3, p1)" "settled xs p p1" by (rule try_S3_ok [OF assms(1,2)])
  then have u1: "resting xs p1" "all_up p1 xs" by (simp_all add: settled_def)
  obtain r2 p2 where p2: "try_S2_no_irq p1 = Some (r2, p2)" "settled xs p1 p2" by (rule try_S2_ok [OF u1])
  then have u2: "resting xs p2" "all_up p2 xs" by (simp_all add: settled_def)
  have s2: "settled xs p p2" by (rule settled_trans [OF p1(2) p2(2)])
  note m2 = masked_settled [OF assms(3) s2]
  let ?p3 = "p2\<lparr>world := f8 mk (world p2)\<rparr>"
  note en = unmask_ok [OF u2 f8, of mk]
  have u3: "resting xs ?p3" "all_up ?p3 xs" using en(2) by (simp_all add: upright_def)
  have i3: "irq (world ?p3) = i" using m2 f8 by (simp add: masked_def)
  obtain r1 p4 where p4: "try_S1_no_irq ?p3 = Some (r1, p4)" "settled xs ?p3 p4" by (rule try_S1_ok [OF u3])
  have u4: "resting xs p4" "all_up p4 xs" "irq (world p4) = i" using p4(2) i3 by (simp_all add: settled_def)
  let ?p5 = "p4\<lparr>world := snd (f7 (world p4))\<rparr>"
  note di = mask_ok [OF u4(1,2) f7]
  have u: "upright xs p ?p5"
    using upright_trans [OF settled_upright [OF s2] upright_trans [OF en(2) upright_trans [OF settled_upright [OF p4(2)] di(2)]]] .
  have m: "masked i (fst (f7 (world p4))) ?p5" using masked_mask [OF f7, of p4] u4(3) by simp
  show ?thesis
    using that [of mk p1] that [of mk p2] that [of "fst (f7 (world p4))" ?p5]
      settled_upright [OF p1(2)] masked_settled [OF assms(3) p1(2)] settled_upright [OF s2] m2 u m p1(1) p2(1) en(1) p4(1) di(1)
    by (cases "r3 = 0"; cases "r2 = 0") (simp_all add: try_S3_to_S1_def)
qed

text \<open>The idle task as a whole: control is lost only when the chip hibernates, with every module
  down; if it comes back, every module is up and the interrupts are as they were.\<close>

lemma idle_task:
  assumes "resting xs p" "all_up p xs"
  obtains t where "cc_idle_task_pm p = Some None" "all_down t xs" "same_shape p t"
  | q where "cc_idle_task_pm p = Some (Some q)" "upright xs p q" "irq (world q) = irq (world p)"
proof -
  obtain f7 f8 where f7: "dsbl_sys_irq ops = Some f7" and f8: "enbl_sys_irq ops = Some f8" by (rule mand)
  let ?mk = "fst (f7 (world p))" and ?p1 = "p\<lparr>world := snd (f7 (world p))\<rparr>"
  note di = mask_ok [OF assms f7]
  have u1: "resting xs ?p1" "all_up ?p1 xs" using di(2) by (simp_all add: upright_def)
  note m1 = masked_mask [OF f7, of p]
  have close: "\<exists>q. irq_restore mk r = Some q \<and> upright xs p q \<and> irq (world q) = irq (world p)"
    if "upright xs p r" "masked (irq (world p)) mk r" for mk r
  proof -
    have "resting xs r" "all_up r xs" using that(1) by (simp_all add: upright_def)
    note en = unmask_ok [OF this f8, of mk]
    show ?thesis using en(1) upright_trans [OF that(1) en(2)] that(2) f8 by (simp add: masked_def)
  qed
  show ?thesis
  proof (cases "num_app_no_pm p = 0")
    case False
    then show ?thesis using close [OF di(2) m1] di(1) that(2) by (auto simp: cc_idle_task_pm_def)
  next
    case True
    show ?thesis
    proof (rule try_S4_ok [OF u1])
      fix t assume t: "try_S4_no_irq ?p1 = Some None" "all_down t xs" "same_shape ?p1 t"
      have "same_shape p t" using same_shape_trans [OF same_shape_world t(3)] .
      then show ?thesis using that(1) [of t] t(1,2) True di(1) by (simp add: cc_idle_task_pm_def)
    next
      fix r4 p2 assume p2: "try_S4_no_irq ?p1 = Some (Some (r4, p2))" "settled xs ?p1 p2"
      then have u2: "resting xs p2" "all_up p2 xs" "upright xs p p2"
        using upright_trans [OF di(2) settled_upright] by (simp_all add: settled_def)
      note m2 = masked_settled [OF m1 p2(2)]
      obtain mk' p3 where p3: "(if r4 = 0 then Some (?mk, p2) else try_S3_to_S1 ?mk p2) = Some (mk', p3)"
        "upright xs p p3" "masked (irq (world p)) mk' p3"
      proof (cases "r4 = 0")
        case True
        then show ?thesis using that u2(3) m2 by simp
      next
        case False
        obtain mk' p3 where "try_S3_to_S1 ?mk p2 = Some (mk', p3)" "upright xs p2 p3" "masked (irq (world p)) mk' p3"
          by (rule try_S3_to_S1_ok [OF u2(1,2) m2])
        then show ?thesis using that False upright_trans [OF u2(3)] by simp
      qed
      then show ?thesis
        using close [OF p3(2,3)] that(2) True di(1) p2(1) by (auto simp: cc_idle_task_pm_def)
    qed
  qed
qed

end

theorem unregister_closes_deep_states_witness:
  "\<exists>p' r. cc_module_drv_unregister 0 sample_pm = Some p' \<and> do_try_S3_no_irq p' = Some (-1, r)"
proof -
  have "used_list_len sample_pm = int (length [0 :: nat])" "(0 :: nat) \<in> set [0]" "my_driver (modules sample_pm ! 0) = Some 0"
    by (simp_all add: sample_pm_def)
  from unregister_closes_deep_states [OF sample_registered this] show ?thesis using same_shape_refl by blast
qed

end
