(* ===== verification/Uart_Props.thy ===== *)
theory Uart_Props
  imports Uart_Drv Cc_Pm_Idle
begin

text \<open>
  The serial ports: the driver keeps its side of the contract with the power management framework
  (interpretation \<open>uart\<close>); a polled write sends what it was given and reports a failure; the
  interrupt-driven transfers write through a NULL pointer; a second port takes over the driver
  object of the first.
\<close>

section \<open>The queues\<close>

lemma both_empty_iff: "both_empty h \<longleftrightarrow> tx_fifo h = [] \<and> rx_fifo h = []"
proof -
  have "0 < fifo_depth h" by (simp add: fifo_depth_def)
  then show ?thesis
    by (simp add: both_empty_def UART_FR_def has_flag_def UART_FR_TXFE_def UART_FR_RXFE_def UART_FR_BUSY_def
        UART_FR_TXFF_def bit.conj_disj_distrib2)
qed

text \<open>What a command does to the ports leaves empty queues empty.\<close>

definition quiet :: "(u32 \<Rightarrow> uart_hw) \<Rightarrow> (u32 \<Rightarrow> uart_hw) \<Rightarrow> bool" where
  "quiet hw hw' \<longleftrightarrow> (\<forall>b. both_empty (hw b) \<longrightarrow> both_empty (hw' b))"

lemma quiet_refl [simp]: "quiet hw hw" by (simp add: quiet_def)

lemma quiet_trans: "quiet hw hw1 \<Longrightarrow> quiet hw1 hw2 \<Longrightarrow> quiet hw hw2" by (simp add: quiet_def)

lemma quiet_port_do: "(\<And>h. both_empty h \<Longrightarrow> both_empty (f h)) \<Longrightarrow> quiet hw (port_do b f hw)"
  by (simp add: quiet_def port_do_def)

lemmas quiet_ops = both_empty_iff set_rx_trig_def set_tx_trig_def UARTFIFOEnable_def UARTFIFODisable_def
  UARTDMAEnable_def UARTDMADisable_def UARTConfigSetExpClk_def UARTEnable_def UARTDisable_def transmit_def Let_def

lemma control_cmd_quiet:
  "quiet hw (snd (control_cmd cmd c hw))" "base_addr (fst (control_cmd cmd c hw)) = base_addr c"
  by (induction cmd c hw rule: control_cmd.induct) (auto simp: Let_def intro!: quiet_port_do simp: quiet_ops)

lemma control_plain_quiet:
  assumes "control_plain cmd c hw = (r, c', hw')"
  shows "quiet hw hw'" "base_addr c' = base_addr c"
  using assms control_cmd_quiet [where hw = hw and cmd = cmd and c = c]
  by (auto simp: control_plain_def split: if_splits)

lemma configure_quiet:
  assumes "cc_uart_configure c hw = (c', hw')"
  shows "quiet hw hw'" "base_addr c' = base_addr c"
proof -
  let ?hw1 = "port_do (base_addr c) (UARTConfigSetExpClk (inp_clk c) (baud_rate c) (config_reg c)) hw"
  let ?hw2 = "port_do (base_addr c) (if fifo_enabled c then UARTFIFOEnable else UARTFIFODisable) ?hw1"
  obtain r3 c3 hw3 where 3: "control_plain (e_change_rx_fifo_trig (rx_fifo_trig_level c)) c ?hw2 = (r3, c3, hw3)"
    by (metis prod_cases3)
  obtain r4 c4 hw4 where 4: "control_plain (e_change_rx_fifo_trig (tx_fifo_trig_level c3)) c3 hw3 = (r4, c4, hw4)"
    by (metis prod_cases3)
  have eq: "c' = c4" "hw' = hw4" using assms 3 4 by (simp_all add: cc_uart_configure_def)
  have "quiet hw ?hw1" by (rule quiet_port_do) (simp add: quiet_ops)
  moreover have "quiet ?hw1 ?hw2" by (rule quiet_port_do) (simp add: quiet_ops)
  ultimately show "quiet hw hw'"
    unfolding eq using control_plain_quiet(1) [OF 3] control_plain_quiet(1) [OF 4] quiet_trans by blast
  show "base_addr c' = base_addr c"
    unfolding eq using control_plain_quiet(2) [OF 3] control_plain_quiet(2) [OF 4] by simp
qed

lemma control_config_quiet:
  assumes "control_config cmd c hw = (r, c', hw')"
  shows "quiet hw hw'" "base_addr c' = base_addr c"
  using assms configure_quiet [of c hw c' hw'] control_plain_quiet [of cmd c hw r c' hw']
  by (auto simp: control_config_def split: if_splits)

section \<open>The contract with the framework\<close>

text \<open>The driver \<open>d\<close> can come back: it has its control block, nobody holds its mutex and no character
  waits in its port.\<close>

definition uart_can_wake :: "nat \<Rightarrow> uart_world \<Rightarrow> bool" where
  "uart_can_wake d w \<longleftrightarrow>
     (\<exists>drv hndl s. rtos_at w d = Some drv \<and> hal_handle drv = Some hndl \<and> state_at w hndl = Some s
        \<and> lock_obj drv \<noteq> Some True \<and> both_empty (ports w (port_of s)))"

text \<open>A call of \<open>cc_uart_control\<close> and the parts of the world it leaves as they are.\<close>

definition same_blocks :: "uart_world \<Rightarrow> uart_world \<Rightarrow> bool" where
  "same_blocks w w' \<longleftrightarrow> uart_rtos_drv w' = uart_rtos_drv w \<and> map port_of (uart_states w') = map port_of (uart_states w)
     \<and> quiet (ports w) (ports w') \<and> pm_undefined w' = pm_undefined w"

lemma same_blocks_state:
  assumes "same_blocks w w'" "state_at w k = Some s"
  obtains s' where "state_at w' k = Some s'" "port_of s' = port_of s"
proof -
  have m: "map port_of (uart_states w') = map port_of (uart_states w)" using assms(1) by (simp add: same_blocks_def)
  have k: "k < length (uart_states w)" "s = uart_states w ! k" using assms(2) by (auto simp: state_at_def split: if_splits)
  have len: "length (uart_states w') = length (uart_states w)" using arg_cong [OF m, of length] by simp
  have "map port_of (uart_states w') ! k = map port_of (uart_states w) ! k" using m by simp
  then have "port_of (uart_states w' ! k) = port_of s" using k len by simp
  then show ?thesis using that [of "uart_states w' ! k"] k(1) len by (simp add: state_at_def)
qed

lemma same_blocks_can_wake:
  assumes "same_blocks w w'" "uart_can_wake e w"
  shows "uart_can_wake e w'"
proof -
  obtain drv hndl s where e: "rtos_at w e = Some drv" "hal_handle drv = Some hndl" "state_at w hndl = Some s"
    "lock_obj drv \<noteq> Some True" "both_empty (ports w (port_of s))" using assms(2) by (auto simp: uart_can_wake_def)
  obtain s' where s': "state_at w' hndl = Some s'" "port_of s' = port_of s"
    by (rule same_blocks_state [OF assms(1) e(3)])
  have "rtos_at w' e = Some drv" "both_empty (ports w' (port_of s))"
    using assms(1) e(1,5) by (auto simp: same_blocks_def rtos_at_def quiet_def split: if_splits)
  then show ?thesis using e(2,4) s' by (auto simp: uart_can_wake_def)
qed

lemma cc_uart_control_blocks:
  assumes "cc_uart_control hndl cmd w = Some (r, w')"
  shows "same_blocks w w'"
proof -
  obtain s where s: "state_at w hndl = Some s" using assms by (auto simp: cc_uart_control_def split: bind_splits)
  obtain r1 c hw where c: "control_config cmd (uart_config s) (ports w) = (r1, c, hw)" by (metis prod_cases3)
  have w': "w' = set_state hndl (s\<lparr>uart_config := c\<rparr>) (w\<lparr>ports := hw\<rparr>)"
    using assms s c by (simp add: cc_uart_control_def)
  have k: "hndl < length (uart_states w)" "s = uart_states w ! hndl" using s by (auto simp: state_at_def split: if_splits)
  have "map port_of ((uart_states w)[hndl := s\<lparr>uart_config := c\<rparr>]) = map port_of (uart_states w)"
    using k control_config_quiet(2) [OF c] by (simp add: map_update port_of_def list_update_same_conv)
  then show ?thesis using w' control_config_quiet(1) [OF c] by (simp add: same_blocks_def set_state_def)
qed

text \<open>Saving and restoring succeed exactly when no character waits.\<close>

lemma cc_uart_control_context:
  assumes "state_at w hndl = Some s" "cmd = e_context_save \<or> cmd = e_context_restore"
  obtains w' where "cc_uart_control hndl cmd w = Some (if both_empty (ports w (port_of s)) then 0 else -1, w')"
proof -
  obtain r c hw where c: "control_config cmd (uart_config s) (ports w) = (r, c, hw)" by (metis prod_cases3)
  have "r = (if both_empty (ports w (port_of s)) then 0 else -1)"
    using c assms(2) by (auto simp: control_config_def control_plain_def port_of_def split: if_splits)
  then show ?thesis using that assms(1) c by (simp add: cc_uart_control_def)
qed


text \<open>The mutex around a change of the control block.\<close>

definition unlocked :: "nat \<Rightarrow> uart_world \<Rightarrow> bool" where
  "unlocked d w \<longleftrightarrow> (\<exists>drv. rtos_at w d = Some drv \<and> lock_obj drv \<noteq> Some True)"

lemma rtos_at_set [simp]:
  "rtos_at w d = Some x \<Longrightarrow> rtos_at (set_rtos d y w) e = (if e = d then Some y else rtos_at w e)"
  by (simp add: rtos_at_def set_rtos_def split: if_splits)

lemma set_rtos_simps [simp]:
  "ports (set_rtos d y w) = ports w" "uart_states (set_rtos d y w) = uart_states w"
  "state_at (set_rtos d y w) k = state_at w k"
  by (simp_all add: set_rtos_def state_at_def)

lemma set_rtos_can_wake:
  assumes "rtos_at w d = Some drv" "hal_handle y = hal_handle drv" "e \<noteq> d \<or> lock_obj y \<noteq> Some True" "uart_can_wake e w"
  shows "uart_can_wake e (set_rtos d y w)"
  using assms unfolding uart_can_wake_def by (cases "e = d") auto

lemma pm_transition_cases:
  assumes "state_at w hndl = Some s"
  obtains r st w' where "pm_transition hndl rv cur target w = Some (r, st, w')" "same_blocks w w'"
    "cur = e_pm_M0 \<Longrightarrow> target = e_pm_M4 \<Longrightarrow> (r = 0 \<and> st = e_pm_M4 \<and> both_empty (ports w (port_of s))) \<or> (r = -1 \<and> st = e_pm_M0)"
    "cur = e_pm_M4 \<Longrightarrow> target = e_pm_M0 \<Longrightarrow> both_empty (ports w (port_of s)) \<Longrightarrow> st = e_pm_M0"
    "cur = target \<Longrightarrow> st = cur"
proof -
  obtain w1 where s: "cc_uart_control hndl e_context_save w = Some (if both_empty (ports w (port_of s)) then 0 else -1, w1)"
    by (rule cc_uart_control_context [OF assms, of e_context_save]) simp
  obtain w2 where r: "cc_uart_control hndl e_context_restore w = Some (if both_empty (ports w (port_of s)) then 0 else -1, w2)"
    by (rule cc_uart_control_context [OF assms, of e_context_restore]) simp
  have q: "same_blocks w w1" "same_blocks w w2" "same_blocks w w"
    using cc_uart_control_blocks [OF s] cc_uart_control_blocks [OF r] by (simp_all add: same_blocks_def)
  consider (down) "cur = e_pm_M0" "target = e_pm_M4" | (up) "cur = e_pm_M4" "target = e_pm_M0"
    | (other) "\<not> (cur = e_pm_M0 \<and> target = e_pm_M4)" "\<not> (cur = e_pm_M4 \<and> target = e_pm_M0)" by blast
  then show ?thesis
  proof cases
    case down
    then show ?thesis
      using s q(1) by (cases "both_empty (ports w (port_of s))") (auto intro!: that simp: pm_transition_def)
  next
    case up
    then show ?thesis
      using r q(2) by (cases "both_empty (ports w (port_of s))") (auto intro!: that simp: pm_transition_def)
  next
    case other
    then show ?thesis using q(3) by (auto intro!: that simp: pm_transition_def)
  qed
qed

lemma pm_transition_facts:
  assumes "pm_transition hndl rv cur target w = Some (r, st, w')"
  shows "same_blocks w w'" "cur = target \<Longrightarrow> st = cur"
    "cur = e_pm_M0 \<Longrightarrow> target = e_pm_M4 \<Longrightarrow> (r = 0 \<and> st = e_pm_M4
      \<and> (\<exists>s. state_at w hndl = Some s \<and> both_empty (ports w (port_of s)))) \<or> (r = -1 \<and> st = e_pm_M0)"
    "cur = e_pm_M4 \<Longrightarrow> target = e_pm_M0 \<Longrightarrow> state_at w hndl = Some s \<Longrightarrow> both_empty (ports w (port_of s))
      \<Longrightarrow> st = e_pm_M0"
proof -
  have "same_blocks w w' \<and> (cur = target \<longrightarrow> st = cur)
    \<and> (cur = e_pm_M0 \<longrightarrow> target = e_pm_M4 \<longrightarrow> (r = 0 \<and> st = e_pm_M4
      \<and> (\<exists>s. state_at w hndl = Some s \<and> both_empty (ports w (port_of s)))) \<or> (r = -1 \<and> st = e_pm_M0))
    \<and> (\<forall>s. cur = e_pm_M4 \<longrightarrow> target = e_pm_M0 \<longrightarrow> state_at w hndl = Some s
         \<longrightarrow> both_empty (ports w (port_of s)) \<longrightarrow> st = e_pm_M0)"
  proof (cases "state_at w hndl")
    case None
    then show ?thesis
      using assms by (auto simp: pm_transition_def cc_uart_control_def same_blocks_def split: if_splits)
  next
    case (Some s)
    show ?thesis
      by (rule pm_transition_cases [OF Some, of rv cur target]) (use assms Some in auto)
  qed
  then show "same_blocks w w'" "cur = target \<Longrightarrow> st = cur"
    "cur = e_pm_M0 \<Longrightarrow> target = e_pm_M4 \<Longrightarrow> (r = 0 \<and> st = e_pm_M4
      \<and> (\<exists>s. state_at w hndl = Some s \<and> both_empty (ports w (port_of s)))) \<or> (r = -1 \<and> st = e_pm_M0)"
    "cur = e_pm_M4 \<Longrightarrow> target = e_pm_M0 \<Longrightarrow> state_at w hndl = Some s \<Longrightarrow> both_empty (ports w (port_of s))
      \<Longrightarrow> st = e_pm_M0" by blast+
qed

text \<open>The handler: taking the mutex, the transition, and giving the mutex back.\<close>

lemma uart_handle_cases:
  assumes "uart_handle_pm_cmd d cur target w = Some (r, st, w')"
  obtains (busy) drv where "rtos_at w d = Some drv" "lock_obj drv = Some True" "r = -2" "st = cur" "w' = w"
  | (run) drv hndl rv w1 w2 where "rtos_at w d = Some drv" "hal_handle drv = Some hndl" "lock_obj drv \<noteq> Some True"
      "pm_transition hndl rv cur target w1 = Some (r, st, w2)"
      "w1 = w \<and> w' = w2 \<or> w1 = set_rtos d (drv\<lparr>lock_obj := Some True\<rparr>) w \<and> w' = set_rtos d (drv\<lparr>lock_obj := Some False\<rparr>) w2"
proof -
  obtain drv hndl where d: "rtos_at w d = Some drv" "hal_handle drv = Some hndl"
    using assms by (auto simp: uart_handle_pm_cmd_def split: bind_splits)
  show ?thesis
  proof (cases "lock_obj drv")
    case None
    then show ?thesis using run [OF d] assms d by (simp add: uart_handle_pm_cmd_def)
  next
    case (Some held)
    show ?thesis
    proof (cases held)
      case True
      then show ?thesis
        using busy [OF d(1)] assms d Some by (simp add: uart_handle_pm_cmd_def RTOS_MUTEX_ACQUIRE_IMM_def)
    next
      case False
      let ?w1 = "set_rtos d (drv\<lparr>lock_obj := Some True\<rparr>) w"
      obtain w2 where t: "pm_transition hndl 0 cur target ?w1 = Some (r, st, w2)"
        and rel: "RTOS_MUTEX_RELEASE d w2 = Some w'"
        using assms d Some False by (auto simp: uart_handle_pm_cmd_def RTOS_MUTEX_ACQUIRE_IMM_def split: bind_splits)
      have "uart_rtos_drv w2 = uart_rtos_drv ?w1" using pm_transition_facts(1) [OF t] by (simp add: same_blocks_def)
      then have "rtos_at w2 d = Some (drv\<lparr>lock_obj := Some True\<rparr>)"
        using rtos_at_set [OF d(1), of "drv\<lparr>lock_obj := Some True\<rparr>" d]
        by (simp add: rtos_at_def split: if_splits)
      then have "w' = set_rtos d (drv\<lparr>lock_obj := Some False\<rparr>) w2" using rel by (simp add: RTOS_MUTEX_RELEASE_def)
      then show ?thesis using run [OF d, of 0 ?w1 w2] t Some False by simp
    qed
  qed
qed

text \<open>The world after the handler: the mutex is as before, and what could wake up still can.\<close>

lemma uart_handle_keeps:
  assumes "rtos_at w d = Some drv" "lock_obj drv \<noteq> Some True" "same_blocks w1 w2"
    "w1 = w \<and> w' = w2 \<or> w1 = set_rtos d (drv\<lparr>lock_obj := Some True\<rparr>) w \<and> w' = set_rtos d (drv\<lparr>lock_obj := Some False\<rparr>) w2"
    "uart_can_wake e w"
  shows "uart_can_wake e w'"
proof (cases "w1 = w \<and> w' = w2")
  case True
  then show ?thesis using same_blocks_can_wake assms(3,5) by blast
next
  case False
  then have w: "w1 = set_rtos d (drv\<lparr>lock_obj := Some True\<rparr>) w" "w' = set_rtos d (drv\<lparr>lock_obj := Some False\<rparr>) w2"
    using assms(4) by blast+
  obtain drv' hndl s where e: "rtos_at w e = Some drv'" "hal_handle drv' = Some hndl" "state_at w hndl = Some s"
    "lock_obj drv' \<noteq> Some True" "both_empty (ports w (port_of s))" using assms(5) by (auto simp: uart_can_wake_def)
  have "state_at w1 hndl = Some s" using e(3) w(1) by simp
  then obtain s' where s': "state_at w2 hndl = Some s'" "port_of s' = port_of s" by (rule same_blocks_state [OF assms(3)])
  have be: "both_empty (ports w2 (port_of s))" using assms(3) e(5) w(1) by (simp add: same_blocks_def quiet_def)
  have r: "rtos_at w2 x = rtos_at w1 x" for x using assms(3) by (simp add: same_blocks_def rtos_at_def)
  have d2: "rtos_at w2 d = Some (drv\<lparr>lock_obj := Some True\<rparr>)" using rtos_at_set [OF assms(1)] r w(1) by simp
  have "rtos_at w' e = Some (if e = d then drv\<lparr>lock_obj := Some False\<rparr> else drv')"
    using rtos_at_set [OF d2] rtos_at_set [OF assms(1)] r w e(1) by auto
  then show ?thesis
    using e s' be assms(1) w(2) unfolding uart_can_wake_def by (cases "e = d") auto
qed

lemma undefined_log_simps [simp]:
  "rtos_at (w\<lparr>pm_undefined := D\<rparr>) d = rtos_at w d" "state_at (w\<lparr>pm_undefined := D\<rparr>) k = state_at w k"
  by (simp_all add: rtos_at_def state_at_def)

lemma uart_power_Some:
  assumes "uart_power d cur target w = (r, st, w')"
  shows "uart_handle_pm_cmd d cur target w = Some (r, st, w') \<or>
    uart_handle_pm_cmd d cur target w = None \<and> r = -1 \<and> st = cur \<and> w' = w\<lparr>pm_undefined := insert d (pm_undefined w)\<rparr>"
  using assms by (auto simp: uart_power_def split: option.splits)

lemma uart_can_wake_handled:
  assumes "uart_can_wake d w"
  obtains r w' where "uart_handle_pm_cmd d e_pm_M4 e_pm_M0 w = Some (r, e_pm_M0, w')"
proof -
  obtain drv hndl s where e: "rtos_at w d = Some drv" "hal_handle drv = Some hndl" "state_at w hndl = Some s"
    "lock_obj drv \<noteq> Some True" "both_empty (ports w (port_of s))" using assms by (auto simp: uart_can_wake_def)
  show ?thesis
  proof (cases "lock_obj drv")
    case None
    obtain r st w' where t: "pm_transition hndl (-1) e_pm_M4 e_pm_M0 w = Some (r, st, w')"
      by (rule pm_transition_cases [OF e(3), of "-1" e_pm_M4 e_pm_M0]) (rule that)
    moreover have "st = e_pm_M0" using pm_transition_facts(4) [OF t] e(3,5) by simp
    ultimately show ?thesis using that e(1,2) None by (simp add: uart_handle_pm_cmd_def)
  next
    case (Some held)
    let ?w1 = "set_rtos d (drv\<lparr>lock_obj := Some True\<rparr>) w"
    have acq: "RTOS_MUTEX_ACQUIRE_IMM d w = Some (0, ?w1)"
      using e(1,4) Some by (cases held) (simp_all add: RTOS_MUTEX_ACQUIRE_IMM_def)
    have s1: "state_at ?w1 hndl = Some s" using e(3) by simp
    obtain r st w2 where t: "pm_transition hndl 0 e_pm_M4 e_pm_M0 ?w1 = Some (r, st, w2)"
      by (rule pm_transition_cases [OF s1, of 0 e_pm_M4 e_pm_M0]) (rule that)
    have st: "st = e_pm_M0" using pm_transition_facts(4) [OF t] s1 e(5) by simp
    have "rtos_at w2 d = Some (drv\<lparr>lock_obj := Some True\<rparr>)"
      using pm_transition_facts(1) [OF t] rtos_at_set [OF e(1), of "drv\<lparr>lock_obj := Some True\<rparr>" d]
      by (simp add: rtos_at_def same_blocks_def split: if_splits)
    then have rel: "RTOS_MUTEX_RELEASE d w2 = Some (set_rtos d (drv\<lparr>lock_obj := Some False\<rparr>) w2)"
      by (simp add: RTOS_MUTEX_RELEASE_def)
    show ?thesis
      by (rule that [of r "set_rtos d (drv\<lparr>lock_obj := Some False\<rparr>) w2"])
        (simp add: uart_handle_pm_cmd_def e(1,2) Some acq t [unfolded st] rel)
  qed
qed

lemma uart_power_down:
  assumes "uart_power d e_pm_M0 e_pm_M4 w = (r, st, w')"
  shows "r = 0 \<Longrightarrow> st = e_pm_M4 \<and> uart_can_wake d w'" "r \<noteq> 0 \<Longrightarrow> st = e_pm_M0"
proof -
  have "(r = 0 \<longrightarrow> st = e_pm_M4 \<and> uart_can_wake d w') \<and> (r \<noteq> 0 \<longrightarrow> st = e_pm_M0)"
    using uart_power_Some [OF assms]
  proof
    assume "uart_handle_pm_cmd d e_pm_M0 e_pm_M4 w = Some (r, st, w')"
    then show ?thesis
    proof (cases rule: uart_handle_cases)
      case (run drv hndl rv w1 w2)
      have rw: "rtos_at w2 = rtos_at w1" using pm_transition_facts(1) [OF run(4)] by (auto simp: same_blocks_def rtos_at_def)
      have "uart_can_wake d w'" if "r = 0"
      proof -
        obtain s where s: "state_at w1 hndl = Some s" "both_empty (ports w1 (port_of s))"
          using pm_transition_facts(3) [OF run(4)] \<open>r = 0\<close> by auto
        obtain s' where "state_at w2 hndl = Some s'" "port_of s' = port_of s"
          by (rule same_blocks_state [OF pm_transition_facts(1) [OF run(4)] s(1)])
        moreover have "both_empty (ports w2 (port_of s))"
          using pm_transition_facts(1) [OF run(4)] s(2) by (simp add: same_blocks_def quiet_def)
        ultimately show ?thesis
          using run(1,2,3,5) rw rtos_at_set [OF run(1)] by (auto simp: uart_can_wake_def)
      qed
      then show ?thesis using pm_transition_facts(3) [OF run(4)] by auto
    qed simp
  qed simp
  then show "r = 0 \<Longrightarrow> st = e_pm_M4 \<and> uart_can_wake d w'" "r \<noteq> 0 \<Longrightarrow> st = e_pm_M0" by blast+
qed

lemma uart_power_others:
  assumes "uart_power d cur target w = (r, st, w')" "uart_can_wake e w"
  shows "uart_can_wake e w'"
  using uart_power_Some [OF assms(1)]
proof
  assume "uart_handle_pm_cmd d cur target w = Some (r, st, w')"
  then show ?thesis
  proof (cases rule: uart_handle_cases)
    case busy
    then show ?thesis using assms(2) by simp
  next
    case run
    then show ?thesis using uart_handle_keeps [OF _ _ pm_transition_facts(1) _ assms(2)] by blast
  qed
qed (use assms(2) in \<open>simp add: uart_can_wake_def\<close>)

lemma uart_power_stay:
  assumes "uart_power d cur cur w = (r, st, w')"
  shows "st = cur"
  using uart_power_Some [OF assms]
proof
  assume "uart_handle_pm_cmd d cur cur w = Some (r, st, w')"
  then show ?thesis by (cases rule: uart_handle_cases) (auto dest: pm_transition_facts(2))
qed simp

text \<open>A driver that is loaded has its object and its control block; a call of its power handler has a
  defined result.\<close>

definition port_loaded :: "nat \<Rightarrow> uart_world \<Rightarrow> bool" where
  "port_loaded d w \<longleftrightarrow>
     (\<exists>drv hndl s. rtos_at w d = Some drv \<and> hal_handle drv = Some hndl \<and> state_at w hndl = Some s)"

lemma port_loaded_handled:
  assumes "port_loaded d w"
  shows "uart_handle_pm_cmd d cur target w \<noteq> None"
proof -
  obtain drv hndl s where e: "rtos_at w d = Some drv" "hal_handle drv = Some hndl" "state_at w hndl = Some s"
    using assms by (auto simp: port_loaded_def)
  show ?thesis
  proof (cases "lock_obj drv")
    case None
    obtain x where "pm_transition hndl (-1) cur target w = Some x"
      by (rule pm_transition_cases [OF e(3), of "-1" cur target])
    then show ?thesis using e(1,2) None by (simp add: uart_handle_pm_cmd_def)
  next
    case (Some held)
    let ?w1 = "set_rtos d (drv\<lparr>lock_obj := Some True\<rparr>) w"
    have s1: "state_at ?w1 hndl = Some s" using e(3) by simp
    obtain r st w2 where t: "pm_transition hndl 0 cur target ?w1 = Some (r, st, w2)"
      by (rule pm_transition_cases [OF s1, of 0 cur target]) (rule that)
    have "rtos_at w2 d = Some (drv\<lparr>lock_obj := Some True\<rparr>)"
      using pm_transition_facts(1) [OF t] rtos_at_set [OF e(1), of "drv\<lparr>lock_obj := Some True\<rparr>" d]
      by (simp add: rtos_at_def same_blocks_def split: if_splits)
    then show ?thesis
      using e(1,2) Some t by (simp add: uart_handle_pm_cmd_def RTOS_MUTEX_ACQUIRE_IMM_def RTOS_MUTEX_RELEASE_def)
  qed
qed

text \<open>What no call of a power handler changes: which drivers are loaded, and for which of them a call
  was undefined.\<close>

definition pm_log :: "uart_world \<Rightarrow> (nat \<Rightarrow> bool) \<times> (nat \<Rightarrow> bool)" where
  "pm_log w = (\<lambda>d. port_loaded d w, \<lambda>d. port_loaded d w \<and> d \<in> pm_undefined w)"

lemma pm_log_cong:
  assumes "\<And>d. map_option hal_handle (rtos_at w' d) = map_option hal_handle (rtos_at w d)"
    "length (uart_states w') = length (uart_states w)"
    "\<And>d. port_loaded d w \<Longrightarrow> d \<in> pm_undefined w' \<longleftrightarrow> d \<in> pm_undefined w"
  shows "pm_log w' = pm_log w"
proof -
  have eq: "port_loaded d v \<longleftrightarrow> (\<exists>k. map_option hal_handle (rtos_at v d) = Some (Some k) \<and> k < length (uart_states v))" for d v
    by (auto simp: port_loaded_def state_at_def)
  have "port_loaded d w' = port_loaded d w" for d unfolding eq assms(1,2) by (rule refl)
  then show ?thesis using assms(3) by (auto simp: pm_log_def fun_eq_iff)
qed

lemma uart_power_log:
  assumes "uart_power d cur target w = (r, st, w')"
  shows "pm_log w' = pm_log w"
  using uart_power_Some [OF assms]
proof
  assume "uart_handle_pm_cmd d cur target w = Some (r, st, w')"
  then show ?thesis
  proof (cases rule: uart_handle_cases)
    case (run drv hndl rv w1 w2)
    note b = pm_transition_facts(1) [OF run(4)]
    have l: "length (uart_states w2) = length (uart_states w1)"
      using b unfolding same_blocks_def by (metis length_map)
    have r2: "rtos_at w2 e = rtos_at w1 e" for e using b by (simp add: same_blocks_def rtos_at_def)
    have u: "pm_undefined w2 = pm_undefined w1" using b by (simp add: same_blocks_def)
    have d1: "rtos_at (set_rtos d (drv\<lparr>lock_obj := Some True\<rparr>) w) e = (if e = d then Some (drv\<lparr>lock_obj := Some True\<rparr>) else rtos_at w e)" for e
      by (rule rtos_at_set [OF run(1)])
    show ?thesis
    proof (cases "w1 = w \<and> w' = w2")
      case True
      then show ?thesis using l r2 u by (intro pm_log_cong) simp_all
    next
      case False
      then have w: "w1 = set_rtos d (drv\<lparr>lock_obj := Some True\<rparr>) w" "w' = set_rtos d (drv\<lparr>lock_obj := Some False\<rparr>) w2"
        using run(5) by blast+
      have "rtos_at w2 d = Some (drv\<lparr>lock_obj := Some True\<rparr>)" using r2 d1 w(1) by simp
      from rtos_at_set [OF this] show ?thesis
        using l u r2 d1 run(1) by (intro pm_log_cong) (simp_all add: w, simp_all add: set_rtos_def)
    qed
  qed simp
next
  assume n: "uart_handle_pm_cmd d cur target w = None \<and> r = -1 \<and> st = cur \<and> w' = w\<lparr>pm_undefined := insert d (pm_undefined w)\<rparr>"
  then have "\<not> port_loaded d w" using port_loaded_handled by blast
  then show ?thesis using n by (intro pm_log_cong) auto
qed

interpretation uart: pm_drivers uart_power uart_can_wake pm_log
proof
  fix d w st w'
  assume "uart_power d e_pm_M0 e_pm_M4 w = (0, st, w')"
  then show "st = e_pm_M4 \<and> uart_can_wake d w'" using uart_power_down(1) by simp
next
  fix d w r st w'
  assume "uart_power d e_pm_M0 e_pm_M4 w = (r, st, w')" "r \<noteq> 0"
  then show "st = e_pm_M0" using uart_power_down(2) by simp
next
  fix d w r st w'
  assume "uart_power d e_pm_M4 e_pm_M0 w = (r, st, w')" "uart_can_wake d w"
  then show "st = e_pm_M0" by (elim uart_can_wake_handled) (simp add: uart_power_def)
next
  fix d w r st w'
  assume "uart_power d e_pm_M0 e_pm_M0 w = (r, st, w')"
  then show "st = e_pm_M0" by (rule uart_power_stay)
next
  fix d s t w r st w' e
  assume "uart_power d s t w = (r, st, w')" "e \<noteq> d" "uart_can_wake e w"
  then show "uart_can_wake e w'" using uart_power_others by blast
next
  fix d s t w r st w'
  assume "uart_power d s t w = (r, st, w')"
  then show "pm_log w' = pm_log w" by (rule uart_power_log)
qed

section \<open>A polled write\<close>

text \<open>What a port was given to send: what is on the line and what still waits in its queue.\<close>

definition sent :: "uart_hw \<Rightarrow> u8 list" where "sent h = line h @ tx_fifo h"

lemma sent_UARTCharPut [simp]: "sent (UARTCharPut c h) = sent h @ [c]"
  by (simp add: UARTCharPut_def sent_def transmit_def Let_def)

lemma sent_transmit [simp]: "sent (transmit h) = sent h"
  by (simp add: transmit_def sent_def)

lemma poll_write_sends:
  assumes "i < n" "n \<le> length bs" "n < 2 ^ 32"
  shows "\<exists>h'. poll_write (of_nat n) (of_nat i) bs h = Some h' \<and> sent h' = sent h @ take (n - i) (drop i bs)"
  using assms(1)
proof (induction "n - i" arbitrary: i h)
  case 0
  then show ?case by simp
next
  case (Suc k)
  have i: "unat (of_nat i :: u32) = i" using Suc.prems assms(3) by (simp add: unsigned_of_nat take_bit_nat_eq_self)
  have eq: "(of_nat i :: u32) + 1 = of_nat n \<longleftrightarrow> i + 1 = n"
  proof -
    have "(of_nat (i + 1) :: u32) = of_nat n \<longleftrightarrow> i + 1 = n"
      using Suc.prems assms(3)
      by (simp only: word_of_nat_eq_iff) (simp add: take_bit_nat_eq_self)
    then show ?thesis by (simp add: add.commute)
  qed
  have g: "get_byte (unat (of_nat i :: u32)) bs = Some (bs ! i)" using i Suc.prems assms(2) by (simp add: get_byte_def)
  have d: "drop i bs = bs ! i # drop (i + 1) bs" using Suc.prems assms(2) by (simp add: Cons_nth_drop_Suc)
  show ?case
  proof (cases "i + 1 = n")
    case True
    then have "n - i = 1" by simp
    then show ?thesis using True eq g d by (subst poll_write.simps) simp
  next
    case False
    have k: "k = n - (i + 1)" "i + 1 < n" using Suc.hyps(2) Suc.prems False by auto
    obtain h' where h': "poll_write (of_nat n) (of_nat (i + 1)) bs (UARTCharPut (bs ! i) h) = Some h'"
      "sent h' = sent (UARTCharPut (bs ! i) h) @ take (n - (i + 1)) (drop (i + 1) bs)"
      using Suc.hyps(1) [OF k] by blast
    have "n - i = Suc (n - (i + 1))" using k(2) by simp
    then have "take (n - i) (drop i bs) = bs ! i # take (n - (i + 1)) (drop (i + 1) bs)" using d by simp
    moreover have "poll_write (of_nat n) (of_nat i) bs h = Some h'"
      using h'(1) False eq g by (subst poll_write.simps) (simp add: add.commute)
    ultimately show ?thesis using h'(2) by simp
  qed
qed

text \<open>A driver with its control block, nobody holding the mutex.\<close>

definition idle_driver :: "uart_world \<Rightarrow> nat \<Rightarrow> uart_rtos_driver \<Rightarrow> nat \<Rightarrow> cc_uart_state \<Rightarrow> bool" where
  "idle_driver w d drv k s \<longleftrightarrow> rtos_at w d = Some drv \<and> lock_obj drv = Some False \<and> hal_handle drv = Some k
     \<and> state_at w k = Some s"

lemma idle_unlocked: "idle_driver w d drv k s \<Longrightarrow> drv\<lparr>lock_obj := Some False\<rparr> = drv"
  by (cases drv) (simp add: idle_driver_def)

lemma acquire_idle:
  assumes "idle_driver w d drv k s"
  shows "RTOS_MUTEX_ACQUIRE d w = Some (set_rtos d (drv\<lparr>lock_obj := Some True\<rparr>) w)"
    "rtos_at (set_rtos d (drv\<lparr>lock_obj := Some True\<rparr>) w) d = Some (drv\<lparr>lock_obj := Some True\<rparr>)"
    "state_at (set_rtos d (drv\<lparr>lock_obj := Some True\<rparr>) w) k = Some s"
    "hal_handle (drv\<lparr>lock_obj := Some True\<rparr>) = Some k"
  using assms by (simp_all add: idle_driver_def RTOS_MUTEX_ACQUIRE_def RTOS_MUTEX_ACQUIRE_IMM_def)

lemma rtos_at_state [simp]:
  "rtos_at (set_state k s w) d = rtos_at w d" "rtos_at (w\<lparr>ports := hw\<rparr>) d = rtos_at w d"
  "rtos_at (hw_do k f w) d = rtos_at w d"
  by (simp_all add: rtos_at_def set_state_def hw_do_def)

lemma state_at_set [simp]:
  "state_at w k = Some s0 \<Longrightarrow> state_at (set_state k s w) k = Some s"
  "state_at (w\<lparr>ports := hw\<rparr>) k = state_at w k" "state_at (hw_do k' f w) k = state_at w k"
  by (auto simp: state_at_def set_state_def hw_do_def split: if_splits)

lemma ports_simps [simp]:
  "ports (set_state k s w) = ports w" "state_at w k = Some s \<Longrightarrow> ports (hw_do k f w) = port_do (port_of s) f (ports w)"
  by (auto simp: set_state_def hw_do_def state_at_def split: if_splits)

text \<open>C39. A write of up to 80 bytes in polling mode hands every byte to the port, in order, and frees
  the driver, but the caller is told that it failed: the variable the result is computed from is
  never assigned.\<close>

theorem uart_write_sends_but_fails:
  assumes "idle_driver w d drv k s" "tx_transfer_mode (uart_config s) = e_poll_based"
    "tx_oper_mode drv = e_poll_based" "bs \<noteq> []" "length bs \<le> 80"
  shows "\<exists>w'. uart_write d bs (int (length bs)) w = Some (-1, w')
    \<and> sent (ports w' (port_of s)) = sent (ports w (port_of s)) @ bs \<and> rtos_at w' d = Some drv"
proof -
  note acq = acquire_idle [OF assms(1)]
  let ?w1 = "set_rtos d (drv\<lparr>lock_obj := Some True\<rparr>) w"
  let ?s = "s\<lparr>wrt_buff := bs, wrt_wrds_done := 0, wrt_byts_done := 0\<rparr>"
  let ?f = "\<lambda>h. if has_flag (UART_FR h) UART_FR_BUSY then transmit h else h"
  let ?h = "?f (ports w (port_of s))"
  let ?w0 = "set_state k ?s (hw_do k ?f ?w1)"
  have h0: "ports ?w0 (port_of ?s) = ?h" using acq(3) by (simp add: port_do_def port_of_def)
  have n: "(word_of_int (int (length bs)) :: u32) = of_nat (length bs)" by simp
  obtain h' where h': "poll_write (of_nat (length bs)) 0 bs ?h = Some h'" "sent h' = sent ?h @ bs"
    using poll_write_sends [of 0 "length bs" bs ?h] assms(4,5) by auto
  let ?w2 = "set_state k (?s\<lparr>wrt_done := True\<rparr>) (?w0\<lparr>ports := (ports ?w0)(port_of ?s := h')\<rparr>)"
  have "cc_uart_wr_submit uart_hal_cb k bs (of_nat (length bs)) ?w1 = Some (0, ?w2)"
    using acq(3) assms(2) h0 h'(1) by (simp add: cc_uart_wr_submit_def Let_def)
  moreover have "rtos_at ?w2 d = Some (drv\<lparr>lock_obj := Some True\<rparr>)" using acq(2) by simp
  then have "RTOS_MUTEX_RELEASE d ?w2 = Some (set_rtos d drv ?w2)"
    using idle_unlocked [OF assms(1)] by (simp add: RTOS_MUTEX_RELEASE_def)
  ultimately have "uart_write d bs (int (length bs)) w = Some (-1, set_rtos d drv ?w2)"
    using acq assms(3,5) n by (simp add: uart_write_def DMA_BUFF_SIZE_MIN_def)
  moreover have "sent ?h = sent (ports w (port_of s))" by simp
  ultimately show ?thesis
    using h'(2) rtos_at_set [OF \<open>rtos_at ?w2 d = _\<close>, of drv d] by (simp add: port_of_def)
qed

section \<open>An interrupt-driven read\<close>

text \<open>The read of the control block \<open>k\<close> is not finished, and a callback is installed.\<close>

definition reading :: "nat \<Rightarrow> uart_world \<Rightarrow> bool" where
  "reading k w \<longleftrightarrow> (\<exists>s. state_at w k = Some s \<and> \<not> rd_done s \<and> int_callback (uart_config s))"

definition calls_back :: "nat \<Rightarrow> uart_world \<Rightarrow> bool" where
  "calls_back k w \<longleftrightarrow> (\<exists>s. state_at w k = Some s \<and> int_callback (uart_config s))"

lemma reading_calls_back: "reading k w \<Longrightarrow> calls_back k w"
  by (auto simp: reading_def calls_back_def)

lemma reading_hw_do [simp]: "reading k (hw_do k' f w) = reading k w" "reading k (w\<lparr>ports := hw\<rparr>) = reading k w"
  by (simp_all add: reading_def)

text \<open>The callback of the driver stores through the cookie, which is NULL.\<close>

lemma hal_cb_None: "uart_hal_cb rtos ev b w = None"
  by (simp add: uart_hal_cb_def uart_callback_from_hal_def)

lemma isr_done_None:
  assumes "calls_back k w"
  shows "isr_read_done uart_hal_cb k w = None" "isr_write_done uart_hal_cb k w = None"
  using assms by (auto simp: calls_back_def isr_write_done_def isr_read_done_def call_back_def hal_cb_None)

text \<open>The parts of the handler: each keeps the callback, and one that does not stop leaves the read
  unfinished.\<close>

definition part_ok :: "(cc_uart_state \<Rightarrow> uart_hw \<Rightarrow> (bool \<times> cc_uart_state \<times> uart_hw) option) \<Rightarrow> bool" where
  "part_ok f \<longleftrightarrow> (\<forall>s h stop s1 h1. f s h = Some (stop, s1, h1) \<longrightarrow>
     uart_config s1 = uart_config s \<and> (\<not> stop \<longrightarrow> rd_done s1 = rd_done s))"

lemma rest_loop_config: "rest_loop n s h = Some (s1, h1) \<Longrightarrow> uart_config s1 = uart_config s \<and> rd_done s1 = rd_done s"
proof (induction n arbitrary: s h)
  case 0
  then show ?case by simp
next
  case (Suc n)
  obtain b s2 h2 where st: "rest_step s h = Some (b, s2, h2)" using Suc.prems by (auto split: bind_splits)
  then have "uart_config s2 = uart_config s \<and> rd_done s2 = rd_done s"
    by (auto simp: rest_step_def Let_def split: prod.splits if_splits bind_splits)
  then show ?case using Suc.IH [of s2 h2] Suc.prems st by (cases b) simp_all
qed

lemma isr_parts_ok: "part_ok isr_timeout" "part_ok isr_receive" "part_ok isr_transmit"
proof -
  show "part_ok isr_timeout"
    unfolding part_ok_def isr_timeout_def
    by (auto simp: Let_def split: bind_splits if_splits dest!: rest_loop_config)
  show "part_ok isr_receive"
    unfolding part_ok_def isr_receive_def
    by (auto simp: Let_def split: bind_splits if_splits)
  show "part_ok isr_transmit"
    unfolding part_ok_def isr_transmit_def
    by (auto simp: Let_def split: bind_splits if_splits)
qed

lemma isr_part_reading:
  assumes "part_ok f" "reading k w" "isr_part k stat flag f w = Some (stop, w1)"
  shows "if stop then calls_back k w1 else reading k w1"
proof (cases "has_flag stat flag")
  case False
  then show ?thesis using assms by (auto simp: isr_part_def)
next
  case True
  obtain s where s: "state_at w k = Some s" "\<not> rd_done s" "int_callback (uart_config s)"
    using assms(2) by (auto simp: reading_def)
  obtain s1 h1 where f: "f s (ports w (port_of s)) = Some (stop, s1, h1)"
    and w1: "w1 = set_state k s1 (w\<lparr>ports := (ports w)(port_of s := h1)\<rparr>)"
    using assms(3) True s(1) by (auto simp: isr_part_def split: bind_splits)
  have "uart_config s1 = uart_config s" "\<not> stop \<longrightarrow> rd_done s1 = rd_done s"
    using assms(1) f unfolding part_ok_def by blast+
  then show ?thesis using s w1 by (auto simp: reading_def calls_back_def)
qed

lemma control_config_callback:
  "control_config cmd c hw = (r, c', hw') \<Longrightarrow> cmd \<noteq> e_context_restore \<Longrightarrow> int_callback c' = int_callback c"
  by (cases cmd) (auto simp: control_config_def control_plain_def Let_def split: if_splits)

lemma cc_uart_control_reading:
  assumes "reading k w" "cc_uart_control k cmd w = Some (r, w1)" "cmd \<noteq> e_context_restore"
  shows "reading k w1"
proof -
  obtain s where s: "state_at w k = Some s" "\<not> rd_done s" "int_callback (uart_config s)"
    using assms(1) by (auto simp: reading_def)
  obtain r' c hw where c: "control_config cmd (uart_config s) (ports w) = (r', c, hw)" by (metis prod_cases3)
  then show ?thesis using assms(2) s control_config_callback [OF c assms(3)]
    by (auto simp: cc_uart_control_def reading_def)
qed

lemma isr_dma_reading:
  assumes "reading k w"
  shows "isr_dma_rx k stat w = Some (stop, w1) \<Longrightarrow> if stop then calls_back k w1 else reading k w1"
    "isr_dma_tx k stat w = Some (stop, w1) \<Longrightarrow> if stop then calls_back k w1 else reading k w1"
proof -
  show "if stop then calls_back k w1 else reading k w1" if r: "isr_dma_rx k stat w = Some (stop, w1)"
  proof (cases "has_flag stat INT_DMARX")
    case False
    then show ?thesis using r assms by (auto simp: isr_dma_rx_def)
  next
    case True
    obtain r2 w2 where c: "cc_uart_control k (e_start_rx_dma_transfer 0) (hw_do k (UARTIntClear INT_DMARX) w) = Some (r2, w2)"
      using r True by (auto simp: isr_dma_rx_def split: bind_splits)
    have "reading k w2" by (rule cc_uart_control_reading [OF _ c]) (simp_all add: assms)
    then show ?thesis using r True c by (auto simp: isr_dma_rx_def reading_def calls_back_def)
  qed
  show "if stop then calls_back k w1 else reading k w1" if r: "isr_dma_tx k stat w = Some (stop, w1)"
  proof (cases "has_flag stat INT_DMATX")
    case False
    then show ?thesis using r assms by (auto simp: isr_dma_tx_def)
  next
    case True
    obtain r2 w2 where c: "cc_uart_control k (e_start_tx_dma_transfer 0) (hw_do k (UARTIntClear INT_DMATX) w) = Some (r2, w2)"
      using r True by (auto simp: isr_dma_tx_def split: bind_splits)
    have "reading k w2" by (rule cc_uart_control_reading [OF _ c]) (simp_all add: assms)
    then show ?thesis using r True c by (auto simp: isr_dma_tx_def reading_def calls_back_def)
  qed
qed

text \<open>An interrupt either faults in the callback or leaves the read unfinished.\<close>

lemma isr_reading:
  assumes "reading k w" "cc_uart_isr uart_hal_cb k w = Some w'"
  shows "reading k w'"
proof -
  obtain s where s: "state_at w k = Some s" using assms(1) by (auto simp: reading_def)
  let ?st = "UARTIntStatus True (ports w (port_of s))"
  have e: "\<not> has_flag ?st INT_EOT"
    using assms s isr_done_None(2) reading_calls_back by (auto simp: cc_uart_isr_def Let_def)
  obtain b1 w1 where 1: "isr_part k ?st INT_RT isr_timeout w = Some (b1, w1)"
    using assms(2) s e by (auto simp: cc_uart_isr_def Let_def split: bind_splits)
  note r1 = isr_part_reading [OF isr_parts_ok(1) assms(1) 1]
  have n1: "\<not> b1" using assms(2) s e 1 r1 isr_done_None(1) by (auto simp: cc_uart_isr_def Let_def)
  then have r1: "reading k w1" using r1 by simp
  obtain b2 w2 where 2: "isr_part k ?st INT_RX isr_receive w1 = Some (b2, w2)"
    using assms(2) s e 1 n1 by (auto simp: cc_uart_isr_def Let_def split: bind_splits)
  note r2 = isr_part_reading [OF isr_parts_ok(2) r1 2]
  have n2: "\<not> b2" using assms(2) s e 1 n1 2 r2 isr_done_None(1) by (auto simp: cc_uart_isr_def Let_def)
  then have r2: "reading k w2" using r2 by simp
  obtain b3 w3 where 3: "isr_part k ?st INT_TX isr_transmit w2 = Some (b3, w3)"
    using assms(2) s e 1 n1 2 n2 by (auto simp: cc_uart_isr_def Let_def split: bind_splits)
  note r3 = isr_part_reading [OF isr_parts_ok(3) r2 3]
  have n3: "\<not> b3" using assms(2) s e 1 n1 2 n2 3 r3 isr_done_None(2) by (auto simp: cc_uart_isr_def Let_def)
  then have r3: "reading k w3" using r3 by simp
  obtain b4 w4 where 4: "isr_dma_rx k ?st w3 = Some (b4, w4)"
    using assms(2) s e 1 n1 2 n2 3 n3 by (auto simp: cc_uart_isr_def Let_def split: bind_splits)
  note r4 = isr_dma_reading(1) [OF r3 4]
  have n4: "\<not> b4" using assms(2) s e 1 n1 2 n2 3 n3 4 r4 isr_done_None(1) by (auto simp: cc_uart_isr_def Let_def)
  then have r4: "reading k w4" using r4 by simp
  obtain b5 w5 where 5: "isr_dma_tx k ?st w4 = Some (b5, w5)"
    using assms(2) s e 1 n1 2 n2 3 n3 4 n4 by (auto simp: cc_uart_isr_def Let_def split: bind_splits)
  note r5 = isr_dma_reading(2) [OF r4 5]
  have n5: "\<not> b5" using assms(2) s e 1 n1 2 n2 3 n3 4 n4 5 r5 isr_done_None(2) by (auto simp: cc_uart_isr_def Let_def)
  then show ?thesis using r5 assms(2) s e 1 n1 2 n2 3 n3 4 n4 5 by (auto simp: cc_uart_isr_def Let_def)
qed

lemma spin_never_ends: "reading k w \<Longrightarrow> spin_rd_done uart_hal_cb k evs w = None"
proof (induction evs arbitrary: w)
  case Nil
  then show ?case by (auto simp: reading_def)
next
  case (Cons e evs)
  obtain s where s: "state_at w k = Some s" "\<not> rd_done s" using Cons.prems by (auto simp: reading_def)
  have "reading k (hw_do k e w)" using Cons.prems by simp
  then show ?case
    using s Cons.IH isr_reading [of k "hw_do k e w"] by (cases "cc_uart_isr uart_hal_cb k (hw_do k e w)") simp_all
qed

lemma rd_submit_never_ends:
  assumes "state_at w k = Some s" "rx_transfer_mode (uart_config s) \<noteq> e_poll_based" "int_callback (uart_config s)"
  shows "cc_uart_rd_submit uart_hal_cb evs k bs n w = None"
  using assms spin_never_ends
  by (cases "rx_transfer_mode (uart_config s)") (simp_all add: cc_uart_rd_submit_def reading_def Let_def)

text \<open>A read in interrupt or DMA mode never returns, whatever its length and whatever data and
  interrupts come: the call spins on a flag that the interrupt handler sets only just before it calls
  the driver back, and the callback writes through the NULL pointer the hardware layer passes as
  cookie.\<close>

theorem uart_read_by_interrupt_never_returns:
  assumes "idle_driver w d drv k s" "rx_transfer_mode (uart_config s) \<noteq> e_poll_based" "int_callback (uart_config s)"
  shows "uart_read evs d bs n w = None"
proof -
  note acq = acquire_idle [OF assms(1)]
  let ?w1 = "set_rtos d (drv\<lparr>lock_obj := Some True\<rparr>) w"
  have sub: "cc_uart_rd_submit uart_hal_cb evs k bs (word_of_int n) v = None"
    if "state_at v k = Some t" "uart_config t = uart_config s" for v t
    by (rule rd_submit_never_ends [OF that(1)]) (use assms(2,3) that(2) in simp_all)
  have "cc_uart_control k e_get_dma_info v = Some (r, v') \<Longrightarrow> state_at v k = Some s \<Longrightarrow>
      \<exists>t. state_at v' k = Some t \<and> uart_config t = uart_config s" for v v' r
    by (auto simp: cc_uart_control_def control_config_def control_plain_def split: if_splits)
  then have "setup_dma_transfer evs k None (Some bs) n ?w1 = None"
    using sub acq(3) by (fastforce simp: setup_dma_transfer_def split: bind_splits)
  then show ?thesis
    using acq sub [OF acq(3) refl]
    by (simp add: uart_read_def trigger_uart_dma_transfer_def)
qed

section \<open>Loading two ports\<close>

text \<open>The framework's part of the state when a port is to be loaded for the module \<open>m\<close>.\<close>

definition loadable :: "uart_world pm \<Rightarrow> nat list \<Rightarrow> nat \<Rightarrow> bool" where
  "loadable p xs m \<longleftrightarrow> pform p \<and> mod_chain (modules p) (used_mod_list p) xs \<and> distinct xs \<and> m \<notin> set xs
     \<and> m < length (modules p) \<and> 2 \<le> length (drivers p) \<and> my_driver (modules p ! m) = None"

lemma find_replicate: "find (\<lambda>d. f (replicate 2 x ! d)) [0..<MAX_UART_MODULES] = (if f x then Some 0 else None)"
  by (simp add: MAX_UART_MODULES_def upt_rec numeral_2_eq_2)

lemma init_after_reset:
  assumes "base_addr c \<noteq> 0"
  obtains c1 w1 where "cc_uart_init c w = (Some 0, c1, w1)"
proof -
  have "check_uart_state_inuse c (reset_uart_state w) = None"
    "get_available_uart_state (reset_uart_state w) = Some 0"
    using assms by (simp_all add: check_uart_state_inuse_def get_available_uart_state_def find_state_def
        reset_uart_state_def MAX_UART_MODULES_def upt_rec numeral_2_eq_2 zero_state_def zero_config_def)
  then show ?thesis
    using that by (cases "cc_uart_configure c (ports (reset_uart_state w))") (simp add: cc_uart_init_def Let_def)
qed

lemma uart_load_ok:
  assumes "loadable p xs m" "module_id c \<noteq> 0" "base_addr c \<noteq> 0"
  obtains p' where "uart_driver_load c m p = Some (0, p')" "pform p'" "mod_chain (modules p') (used_mod_list p') (xs @ [m])"
    "length (modules p') = length (modules p)" "length (drivers p') = length (drivers p)"
    "\<And>k. k < length (modules p) \<Longrightarrow> my_driver (modules p' ! k) = (if k = m then Some 0 else my_driver (modules p ! k))"
    "hw_module (drivers p' ! 0) = Some m"
proof -
  note l = assms(1) [unfolded loadable_def]
  let ?p1 = "reset_uart_rtosdrv p"
  have inuse: "check_uart_rtosdrv_inuse (module_id c) (world ?p1) = None"
    using assms(2) by (simp add: check_uart_rtosdrv_inuse_def reset_uart_rtosdrv_def MAX_UART_MODULES_def upt_rec
        numeral_2_eq_2 zero_rtos_def)
  have avail: "get_available_uart_rtosdrv (world ?p1) = Some 0"
    by (simp add: get_available_uart_rtosdrv_def reset_uart_rtosdrv_def MAX_UART_MODULES_def upt_rec
        numeral_2_eq_2 zero_rtos_def)
  have b: "base_addr (c\<lparr>int_callback := True, rtos_hndl := 0\<rparr>) \<noteq> 0" using assms(3) by simp
  obtain c1 w1 where i: "cc_uart_init (c\<lparr>int_callback := True, rtos_hndl := 0\<rparr>) (world ?p1) = (Some 0, c1, w1)"
    by (rule init_after_reset [OF b])
  let ?w2 = "set_rtos 0 (zero_rtos\<lparr>device_id := module_id c1, hal_handle := Some 0,
                tx_oper_mode := tx_transfer_mode c1, rx_oper_mode := rx_transfer_mode c1\<rparr>) w1"
  let ?p2 = "?p1\<lparr>world := ?w2, drivers := (drivers ?p1)[0 := \<lparr>hw_module = None, pm_state = e_pm_M0,
                goto2pm_mode = Some (uart_power 0)\<rparr>]\<rparr>"
  have ldr: "0 < length (drivers p)" using l by linarith
  then have p2: "modules ?p2 = modules p" "used_mod_list ?p2 = used_mod_list p" "pform ?p2"
    "length (drivers ?p2) = length (drivers p)" "hw_module (drivers ?p2 ! 0) = None"
    using l by (simp_all add: reset_uart_rtosdrv_def)
  show ?thesis
  proof (rule register_facts [of ?p2 xs m 0])
    show "pform ?p2" by (rule p2)
    show "mod_chain (modules ?p2) (used_mod_list ?p2) xs" using l p2(1,2) by simp
    show "distinct xs" "m \<notin> set xs" using l by blast+
    show "m < length (modules ?p2)" using l p2(1) by simp
    show "0 < length (drivers ?p2)" using ldr p2(4) by simp
    show "my_driver (modules ?p2 ! m) = None" using l p2(1) by simp
    show "hw_module (drivers ?p2 ! 0) = None" by (rule p2)
  next
    fix p'
    assume f: "cc_module_drv_register (Some m) (Some 0) ?p2 = Some (0, p')"
      "mod_chain (modules p') (used_mod_list p') (xs @ [m])" "pform p'"
      "length (modules p') = length (modules ?p2)" "length (drivers p') = length (drivers ?p2)"
      "\<And>k. k < length (modules ?p2) \<Longrightarrow> my_driver (modules p' ! k) = (if k = m then Some 0 else my_driver (modules ?p2 ! k))"
      "\<And>e. e < length (drivers ?p2) \<Longrightarrow> hw_module (drivers p' ! e) = (if e = 0 then Some m else hw_module (drivers ?p2 ! e))"
    have "uart_driver_load c m p = Some (0, p')"
      using inuse avail i f(1) by (simp add: uart_driver_load_def)
    then show ?thesis
      using that [of p'] f(2-7) p2(1,4) ldr by simp
  qed
qed

text \<open>Loading a second serial port breaks the first: the pool of driver objects is cleared at each
  load, so the second port gets the object of the first.  Both loads report success, both modules are
  then bound to the same driver, which knows only the second, and the framework's list is no longer
  well-formed.\<close>

theorem second_port_takes_first_driver:
  assumes "registered p xs" "m1 < length (modules p)" "m2 < length (modules p)" "m1 \<noteq> m2"
    "my_driver (modules p ! m1) = None" "my_driver (modules p ! m2) = None" "2 \<le> length (drivers p)"
    "module_id c1 \<noteq> 0" "base_addr c1 \<noteq> 0" "module_id c2 \<noteq> 0" "base_addr c2 \<noteq> 0"
  shows "\<exists>p1 p2. uart_driver_load c1 m1 p = Some (0, p1) \<and> uart_driver_load c2 m2 p1 = Some (0, p2)
    \<and> my_driver (modules p2 ! m1) = Some 0 \<and> my_driver (modules p2 ! m2) = Some 0
    \<and> hw_module (drivers p2 ! 0) = Some m2 \<and> (\<nexists>ys. registered p2 ys)"
proof -
  note r = registeredD [OF assms(1)]
  have m: "m1 \<notin> set xs" "m2 \<notin> set xs" using r(5) assms(2,3,5,6) by auto
  have "loadable p xs m1" using r(1,2,3) m assms(2,5,7) by (simp add: loadable_def)
  then obtain p1 where p1: "uart_driver_load c1 m1 p = Some (0, p1)" "pform p1"
    "mod_chain (modules p1) (used_mod_list p1) (xs @ [m1])" "length (modules p1) = length (modules p)"
    "length (drivers p1) = length (drivers p)" "hw_module (drivers p1 ! 0) = Some m1"
    "\<And>k. k < length (modules p) \<Longrightarrow> my_driver (modules p1 ! k) = (if k = m1 then Some 0 else my_driver (modules p ! k))"
    by (rule uart_load_ok [OF _ assms(8,9)]) (rule that; assumption)
  have "loadable p1 (xs @ [m1]) m2" using p1 r(3) m assms(3,4,6,7) by (simp add: loadable_def)
  then obtain p2 where p2: "uart_driver_load c2 m2 p1 = Some (0, p2)"
    "length (modules p2) = length (modules p1)" "length (drivers p2) = length (drivers p1)" "hw_module (drivers p2 ! 0) = Some m2"
    "\<And>k. k < length (modules p1) \<Longrightarrow> my_driver (modules p2 ! k) = (if k = m2 then Some 0 else my_driver (modules p1 ! k))"
    by (rule uart_load_ok [OF _ assms(10,11)]) (rule that; assumption)
  have d: "my_driver (modules p2 ! m1) = Some 0" "my_driver (modules p2 ! m2) = Some 0"
    using p2(5) p1(4,7) assms(2,3,4) by simp_all
  have "\<not> registered p2 ys" for ys
  proof
    assume r2: "registered p2 ys"
    have len: "m1 < length (modules p2)" "m2 < length (modules p2)" using p2(2) p1(4) assms(2,3) by simp_all
    then have "m1 \<in> set ys" "m2 \<in> set ys" using registeredD(5) [OF r2] d by auto
    then show False using registered_inj [OF r2 _ _ d] assms(4) by blast
  qed
  then show ?thesis using p1(1) p2(1,4) d by blast
qed

section \<open>The levels after a power cycle\<close>

text \<open>Coming back from the deep power state mixes up the two trigger levels: the restored
  configuration has the level of the transmitter for the receiver, and the register is set so.\<close>

theorem context_restore_mixes_levels:
  assumes "state_at w k = Some s" "both_empty (ports w (port_of s))"
    "known_level (rx_fifo_trig_level (uart_config s))" "known_level (tx_fifo_trig_level (uart_config s))"
  shows "\<exists>w' s'. cc_uart_control k e_context_restore w = Some (0, w') \<and> state_at w' k = Some s'
    \<and> rx_fifo_trig_level (uart_config s') = tx_fifo_trig_level (uart_config s)
    \<and> tx_fifo_trig_level (uart_config s') = tx_fifo_trig_level (uart_config s)
    \<and> UART_IFLS (ports w' (port_of s))
       = (UART_IFLS (ports w (port_of s)) AND 0x07) OR rx_trig (tx_fifo_trig_level (uart_config s))"
proof -
  let ?c = "uart_config s" and ?b = "base_addr (uart_config s)"
  let ?h = "(if fifo_enabled ?c then UARTFIFOEnable else UARTFIFODisable)
              (UARTConfigSetExpClk (inp_clk ?c) (baud_rate ?c) (config_reg ?c) (ports w ?b))"
  have e: "both_empty ?h" "UART_IFLS ?h = UART_IFLS (ports w ?b)"
    using assms(2) by (simp_all add: quiet_ops port_of_def)
  have e2: "both_empty (set_rx_trig lv h)" if "both_empty h" for lv h
    using that by (simp add: quiet_ops)
  let ?lv = "rx_fifo_trig_level ?c" and ?lt = "tx_fifo_trig_level ?c"
  have "rx_trig lv AND 7 = 0" for lv by (simp add: rx_trig_def)
  then have mask: "((v AND 7) OR rx_trig lv) AND 7 = v AND 7" for v lv
    by (simp add: bit.conj_disj_distrib2 and.assoc)
  have conf: "cc_uart_configure ?c (ports w)
    = (?c\<lparr>rx_fifo_trig_level := ?lt\<rparr>, (ports w)(?b := set_rx_trig ?lt (set_rx_trig ?lv ?h)))"
    using e(1) e2 [OF e(1)] assms(3,4)
    by (simp add: cc_uart_configure_def control_plain_def port_do_def Let_def)
  have "cc_uart_control k e_context_restore w
    = Some (0, set_state k (s\<lparr>uart_config := ?c\<lparr>rx_fifo_trig_level := ?lt\<rparr>\<rparr>)
        (w\<lparr>ports := (ports w)(?b := set_rx_trig ?lt (set_rx_trig ?lv ?h))\<rparr>))"
    using assms(1,2) conf by (simp add: cc_uart_control_def control_config_def port_of_def)
  moreover have "UART_IFLS (set_rx_trig ?lt (set_rx_trig ?lv ?h)) = (UART_IFLS (ports w ?b) AND 7) OR rx_trig ?lt"
    using e(2) mask by (simp add: set_rx_trig_def)
  ultimately show ?thesis using assms(1) by (auto simp: port_of_def)
qed

section \<open>Witnesses\<close>

text \<open>A port at address 16 with a control block and an idle driver.\<close>

definition sample_conf :: cc_uart_config where
  "sample_conf = zero_config\<lparr>module_id := 1, base_addr := 16, int_callback := True, tx_transfer_mode := e_poll_based,
     rx_transfer_mode := e_int_based, rx_fifo_trig_level := 4, tx_fifo_trig_level := 1\<rparr>"

definition sample_drv :: uart_rtos_driver where
  "sample_drv = zero_rtos\<lparr>device_id := 1, hal_handle := Some 0, lock_obj := Some False, sync_obj := Some 0\<rparr>"

definition sample_block :: cc_uart_state where
  "sample_block = zero_state\<lparr>uart_config := sample_conf\<rparr>"

definition sample_hw :: uart_hw where
  "sample_hw = \<lparr>rx_fifo = [], arriving = [], tx_fifo = [], line = [], UART_IM = 0, UART_RIS = 0, UART_LCRH = 0,
     UART_CTL = 0, UART_IBRD = 0, UART_FBRD = 0, UART_IFLS = 0, UART_DMACTL = 0\<rparr>"

definition sample_uart :: uart_world where
  "sample_uart = \<lparr>ports = \<lambda>_. sample_hw, uart_states = [sample_block, zero_state], uart_rtos_drv = [sample_drv, zero_rtos],
     pm_undefined = {}\<rparr>"

lemma sample_idle: "idle_driver sample_uart 0 sample_drv 0 sample_block"
  by (simp add: idle_driver_def rtos_at_def state_at_def sample_uart_def sample_drv_def)

theorem uart_write_sends_but_fails_witness:
  "\<exists>w'. uart_write 0 [104, 105] 2 sample_uart = Some (-1, w') \<and> sent (ports w' 16) = [104, 105]"
  using uart_write_sends_but_fails [OF sample_idle, of "[104, 105]"]
  by (auto simp: sample_block_def sample_conf_def sample_drv_def zero_rtos_def sample_uart_def port_of_def sent_def
      sample_hw_def)

theorem uart_read_by_interrupt_never_returns_witness:
  "uart_read [] 0 [0, 0] 100 sample_uart = None"
  using uart_read_by_interrupt_never_returns [OF sample_idle]
  by (simp add: sample_block_def sample_conf_def)

definition sample_uart_pm :: "uart_world pm" where
  "sample_uart_pm = \<lparr>pform = True, used_list_len = 0, used_mod_list = None, pm_ops = None, num_app_no_pm = 0,
     modules = replicate 2 \<lparr>my_driver = None, next_mod = None, clk_enable = None\<rparr>,
     drivers = replicate 2 zero_drv, world = sample_uart\<rparr>"

theorem second_port_takes_first_driver_witness:
  "\<exists>p1 p2. uart_driver_load sample_conf 0 sample_uart_pm = Some (0, p1)
    \<and> uart_driver_load (sample_conf\<lparr>module_id := 2, base_addr := 32\<rparr>) 1 p1 = Some (0, p2)
    \<and> my_driver (modules p2 ! 0) = Some 0 \<and> my_driver (modules p2 ! 1) = Some 0"
proof -
  have "registered sample_uart_pm []" by (simp add: registered_def sample_uart_pm_def less_Suc_eq numeral_2_eq_2 zero_drv_def)
  from second_port_takes_first_driver [OF this, of 0 1 sample_conf "sample_conf\<lparr>module_id := 2, base_addr := 32\<rparr>"]
  show ?thesis by (auto simp: sample_uart_pm_def sample_conf_def)
qed

theorem context_restore_mixes_levels_witness:
  "\<exists>w' s'. cc_uart_control 0 e_context_restore sample_uart = Some (0, w') \<and> state_at w' 0 = Some s'
    \<and> rx_fifo_trig_level (uart_config s') = 1"
  using context_restore_mixes_levels [of sample_uart 0 sample_block]
  by (auto simp: state_at_def sample_uart_def sample_block_def sample_conf_def both_empty_iff sample_hw_def known_level_def)

end
