(* ===== verification/Gpio_Props.thy ===== *)
theory Gpio_Props
  imports Gpio_Hal
begin

text \<open>
  The pins: what is written to an output is read back; the interrupt handler calls the application
  once for each pending pin but the last of a port; and the types of two neighbouring pins share bits.
\<close>

section \<open>Reading back\<close>

lemma EXTRACT_PIN_bound: "EXTRACT_PIN g < 8"
proof -
  have "unat (g AND 7) \<le> unat (7 :: u32)" by (simp only: word_le_nat_alt [symmetric] word_and_le1)
  then show ?thesis by (simp add: EXTRACT_PIN_def)
qed

lemma pin_mask_bit: "bit (pin_mask n) j \<longleftrightarrow> n = j \<and> j < 8"
  by (auto simp: pin_mask_def bit_simps)

lemma has_flag_pin: "n < 8 \<Longrightarrow> has_flag x (pin_mask n) \<longleftrightarrow> bit x n"
  by (simp add: has_flag_def pin_mask_def and_exp_eq_0_iff_not_bit)

text \<open>What a read makes of the data register: the level of the pin.\<close>

definition pin_level :: "nat \<Rightarrow> gpio_regs \<Rightarrow> u8" where
  "pin_level n r = of_bool (bit (GPIO_DATA r) n)"

lemma read_level:
  assumes "n < 8"
  shows "(ucast (drop_bit n (GPIOPinRead (pin_mask n) r AND ucast (pin_mask n))) :: u8) AND 1 = pin_level n r"
  using assms by (intro bit_word_eqI) (auto simp: GPIOPinRead_def pin_level_def bit_simps pin_mask_bit)

lemma written_level:
  assumes "n < 8"
  shows "pin_level n (GPIOPinWrite (pin_mask n) (push_bit n (v AND 1)) r) =
    (if bit (GPIO_DIR r) n then v AND 1 else pin_level n r)"
  using assms by (intro bit_word_eqI) (auto simp: GPIOPinWrite_def Let_def pin_level_def bit_simps pin_mask_bit)

lemma gpio_read_level:
  assumes "port_at w h = Some p" "pin_open p g"
  shows "\<exists>w1. cc_gpio_read h g w = Some (0, Some (pin_level (EXTRACT_PIN g) (gregs w (port_base p))), w1)"
  using assms read_level [OF EXTRACT_PIN_bound, of g "gregs w (port_base p)"]
  by (simp add: cc_gpio_read_def Let_def)

text \<open>A pin that was opened: its handle is the port, the port has the pin open, and the direction register
  says what was asked.\<close>

lemma gpio_opened:
  assumes "cc_gpio_open g output w = Some (Some h, w0)"
  obtains p where "port_at w0 h = Some p" "pin_open p g"
    "bit (GPIO_DIR (gregs w0 (port_base p))) (EXTRACT_PIN g) = output"
proof -
  let ?n = "EXTRACT_PORT g" and ?b = "pin_mask (EXTRACT_PIN g)"
  have n8: "EXTRACT_PIN g < 8" by (rule EXTRACT_PIN_bound)
  obtain p0 where p0: "port_at w ?n = Some p0" "?n < MAX_GPIO_PORTS" "has_flag (validity_mask p0) ?b" and h: "h = ?n"
    and w0: "w0 = upd_port ?n (if output then p0\<lparr>pin_status := pin_status p0 OR ?b, pin_direction := pin_direction p0 OR ?b\<rparr>
        else p0\<lparr>pin_status := pin_status p0 OR ?b, pin_direction := pin_direction p0 AND NOT ?b\<rparr>)
      (upd_regs p0 (GPIODirModeSet ?b (if output then 1 else 0)) w)"
    using assms by (cases "port_at w ?n") (auto simp: cc_gpio_open_def Let_def split: if_splits)
  have l: "?n < length (gports w)" using p0(1) by (simp add: port_at_def split: if_splits)
  have d: "bit (GPIO_DIR (GPIODirModeSet ?b (if output then 1 else 0) r)) (EXTRACT_PIN g) = output" for r
    using n8 by (simp add: GPIODirModeSet_def set_bits_def has_flag_def bit_simps pin_mask_bit)
  have f: "has_flag (pin_status p0 OR ?b) ?b" using n8 by (simp add: has_flag_pin bit_simps pin_mask_bit)
  show ?thesis
  proof (cases "output = True")
    case True
    then show ?thesis
      by (intro that) (use p0(2,3) l d f in \<open>auto simp: h w0 port_at_def upd_port_def upd_regs_def pin_open_def pin_ok_def\<close>)
  next
    case False
    then show ?thesis
      by (intro that) (use p0(2,3) l d f in \<open>auto simp: h w0 port_at_def upd_port_def upd_regs_def pin_open_def pin_ok_def\<close>)
  qed
qed

text \<open>C31. A pin that was opened can be written and read: on an output the value written is read back,
  whatever the other pins of the port; on an input the write is accepted but has no effect, and the read
  gives the level it would have given before.\<close>

theorem gpio_write_read:
  assumes "cc_gpio_open g output w = Some (Some h, w0)"
  shows "\<exists>w1 w2 x w3. cc_gpio_write h g v w0 = Some (0, w1) \<and> cc_gpio_read h g w0 = Some (0, Some x, w2) \<and>
    cc_gpio_read h g w1 = Some (0, Some (if output then v AND 1 else x), w3)"
proof (rule gpio_opened [OF assms])
  fix p
  assume p: "port_at w0 h = Some p" "pin_open p g" and d: "bit (GPIO_DIR (gregs w0 (port_base p))) (EXTRACT_PIN g) = output"
  let ?n = "EXTRACT_PIN g" and ?r = "gregs w0 (port_base p)"
  let ?p1 = "p\<lparr>pin_state := (pin_state p AND NOT (pin_mask ?n)) OR push_bit ?n (v AND 1)\<rparr>"
  let ?w1 = "upd_port h ?p1 (upd_regs p (GPIOPinWrite (pin_mask ?n) (push_bit ?n (v AND 1))) w0)"
  have h: "h < length (gports w0)" using p(1) by (simp add: port_at_def split: if_splits)
  have w: "cc_gpio_write h g v w0 = Some (0, ?w1)" using p by (simp add: cc_gpio_write_def Let_def)
  have p1: "port_at ?w1 h = Some ?p1" "pin_open ?p1 g"
    "gregs ?w1 (port_base ?p1) = GPIOPinWrite (pin_mask ?n) (push_bit ?n (v AND 1)) ?r"
    using h p(2) by (simp_all add: port_at_def upd_port_def upd_regs_def pin_open_def pin_ok_def)
  have l: "pin_level ?n (gregs ?w1 (port_base ?p1)) = (if output then v AND 1 else pin_level ?n ?r)"
    unfolding p1(3) written_level [OF EXTRACT_PIN_bound] d by (rule refl)
  from gpio_read_level [OF p1(1,2), unfolded l] gpio_read_level [OF p] w show ?thesis by blast
qed

section \<open>The interrupt handler\<close>

lemma notify_fold:
  "fold (\<lambda>i w. if P i then notify (f i) w else w) xs w = w\<lparr>notified := notified w @ map f (filter P xs)\<rparr>"
  by (induction xs arbitrary: w) (simp_all add: notify_def)

text \<open>The handler of a port calls the application once for each pending and enabled pin from 0 to 6,
  in order, with the number of the pin, and clears all pending interrupts of the port: the last pin of
  the port is cleared with them, but the application is never told.\<close>

theorem gpio_interrupt_calls:
  assumes "drv_notify_cb w" "intr = GPIO_RIS (gregs w base) AND GPIO_IM (gregs w base)"
  shows "notified (gpio_interrupt_handler base w)
      = notified w @ map (\<lambda>i. push_bit 3 (of_nat (find_port base w)) OR of_nat i)
          (filter (\<lambda>i. has_flag intr (push_bit i 1)) [0..<7])
    \<and> GPIO_RIS (gregs (gpio_interrupt_handler base w) base) = GPIO_RIS (gregs w base) AND NOT intr"
proof -
  have st: "GPIOIntStatus True (gregs w base) = intr" using assms(2) by (simp add: GPIOIntStatus_def)
  let ?u = "w\<lparr>notified := notified w @ map (\<lambda>i. push_bit 3 (of_nat (find_port base w)) OR of_nat i)
          (filter (\<lambda>i. has_flag intr (push_bit i 1)) [0..<7])\<rparr>"
  have "gpio_interrupt_handler base w = ?u\<lparr>gregs := (gregs ?u)(base := GPIOIntClear intr (gregs ?u base))\<rparr>"
    unfolding gpio_interrupt_handler_def st Let_def using assms(1) by (simp only: if_True notify_fold)
  then show ?thesis by (simp add: GPIOIntClear_def)
qed

section \<open>The types of neighbouring pins\<close>

lemma masks: "(0xF :: u32) = mask 4" "(3 :: u32) = mask 2"
  by (simp_all add: mask_eq_exp_minus_1)

lemma bit_field: "bit (push_bit m (mask 4) :: u32) j \<longleftrightarrow> m \<le> j \<and> j < m + 4 \<and> j < 32"
  by (auto simp: bit_simps)

lemma neighbour_bits:
  fixes f1 f2 :: u32
  assumes "\<And>j. bit f2 j \<longleftrightarrow> n * 2 + 2 \<le> j \<and> j < n * 2 + 6 \<and> j < 32" "n < 7"
    "\<And>j. bit f1 j \<longleftrightarrow> n * 2 \<le> j \<and> j < n * 2 + 4 \<and> j < 32"
  shows "drop_bit (n * 2) (((v AND NOT f1) OR push_bit (n * 2) (t AND mask 4)) AND NOT f2) AND mask 4 = t AND mask 2"
  using assms(2) by (intro bit_word_eqI) (auto simp: bit_simps assms(1,3))

lemma get_inttype_neighbour:
  assumes "n < 7"
  shows "get_inttype n (put_inttype (Suc n) 0 (put_inttype n t v)) = t AND 3"
proof -
  have "push_bit (Suc n * 2) (0 AND mask 4 :: u32) = 0" by simp
  then show ?thesis
    unfolding get_inttype_def put_inttype_def masks
    by (simp only: or.right_neutral) (rule neighbour_bits [OF _ assms]; simp only: bit_field; arith)
qed

lemma EXTRACT_mod: "EXTRACT_PIN g = unat g mod 8" "EXTRACT_PORT g = unat g div 8"
proof -
  have "(7 :: u32) = mask 3" by (simp add: mask_eq_exp_minus_1)
  then have "g AND 7 = take_bit 3 g" by (simp only: take_bit_eq_mask)
  then show "EXTRACT_PIN g = unat g mod 8"
    by (simp add: EXTRACT_PIN_def unsigned_take_bit_eq) (simp add: take_bit_eq_mod)
  show "EXTRACT_PORT g = unat g div 8"
    using unsigned_less [of g, where 'a = nat] unfolding EXTRACT_PORT_def unsigned_drop_bit_eq
    by (simp add: drop_bit_eq_div take_bit_nat_eq_self)
qed

lemma EXTRACT_next:
  assumes "EXTRACT_PIN g < 7" "EXTRACT_PORT g < 4"
  shows "EXTRACT_PIN (g + 1) = Suc (EXTRACT_PIN g)" "EXTRACT_PORT (g + 1) = EXTRACT_PORT g"
proof -
  have g: "unat g mod 8 < 7" "unat g div 8 < 4" using assms by (simp_all add: EXTRACT_mod)
  then have "unat g < 32" by linarith
  then have "unat (g + 1) = unat g + 1" by (simp add: unat_word_ariths)
  then show "EXTRACT_PIN (g + 1) = Suc (EXTRACT_PIN g)" "EXTRACT_PORT (g + 1) = EXTRACT_PORT g"
    using g by (simp_all add: EXTRACT_mod mod_Suc div_Suc)
qed

lemma enable_wake:
  assumes "port_at w h = Some p" "pin_open p g" "has_flag (special_purpose_mask p) (pin_mask (EXTRACT_PIN g))"
  obtains w1 p1 where "cc_gpio_enable_notification h g t GPIO_TYPE_WAKE_SOURCE w = Some (0, w1)"
    "port_at w1 h = Some p1" "pin_inttype p1 = put_inttype (EXTRACT_PIN g) t (pin_inttype p)"
    "\<And>g'. pin_open p1 g' = pin_open p g'" "special_purpose_mask p1 = special_purpose_mask p"
proof -
  have h: "h < length (gports w)" using assms(1) by (simp add: port_at_def split: if_splits)
  have f: "has_flag GPIO_TYPE_WAKE_SOURCE GPIO_TYPE_WAKE_SOURCE" "\<not> has_flag GPIO_TYPE_WAKE_SOURCE GPIO_TYPE_NORMAL"
    by (simp_all add: has_flag_def GPIO_TYPE_WAKE_SOURCE_def GPIO_TYPE_NORMAL_def)
  show ?thesis
    by (rule that [of "upd_port h (p\<lparr>pin_wake_src := pin_wake_src p OR pin_mask (EXTRACT_PIN g),
        pin_inttype := put_inttype (EXTRACT_PIN g) t (pin_inttype p)\<rparr>) w"
      "p\<lparr>pin_wake_src := pin_wake_src p OR pin_mask (EXTRACT_PIN g),
        pin_inttype := put_inttype (EXTRACT_PIN g) t (pin_inttype p)\<rparr>"])
      (use assms h f in \<open>simp_all add: cc_gpio_enable_notification_def port_at_def upd_port_def
        pin_open_def pin_ok_def Let_def\<close>)
qed

text \<open>Two neighbouring pins cannot both wake up the system as asked: setting the second to wake on a
  falling edge leaves only the low two bits of the type of the first, so that a rising edge (4)
  becomes a falling one (0) and a high level (6) a low one (2).\<close>

theorem neighbour_changes_wake_type:
  assumes "port_at w h = Some p" "pin_open p g" "pin_open p (g + 1)" "EXTRACT_PIN g < 7"
    "has_flag (special_purpose_mask p) (pin_mask (EXTRACT_PIN g))"
    "has_flag (special_purpose_mask p) (pin_mask (EXTRACT_PIN (g + 1)))"
  shows "\<exists>w1 w2 p2. cc_gpio_enable_notification h g t GPIO_TYPE_WAKE_SOURCE w = Some (0, w1)
    \<and> cc_gpio_enable_notification h (g + 1) 0 GPIO_TYPE_WAKE_SOURCE w1 = Some (0, w2)
    \<and> port_at w2 h = Some p2 \<and> get_inttype (EXTRACT_PIN g) (pin_inttype p2) = t AND 3"
proof (rule enable_wake [OF assms(1,2,5), of t])
  fix w1 p1
  assume 1: "cc_gpio_enable_notification h g t GPIO_TYPE_WAKE_SOURCE w = Some (0, w1)" "port_at w1 h = Some p1"
    "pin_inttype p1 = put_inttype (EXTRACT_PIN g) t (pin_inttype p)" "\<And>g'. pin_open p1 g' = pin_open p g'"
    "special_purpose_mask p1 = special_purpose_mask p"
  have o: "pin_open p1 (g + 1)" "has_flag (special_purpose_mask p1) (pin_mask (EXTRACT_PIN (g + 1)))"
    using 1(4,5) assms(3,6) by simp_all
  have "EXTRACT_PORT g < 4" using assms(2) by (simp add: pin_open_def pin_ok_def MAX_GPIO_PORTS_def)
  then have n: "EXTRACT_PIN (g + 1) = Suc (EXTRACT_PIN g)" using EXTRACT_next(1) assms(4) by blast
  show ?thesis
  proof (rule enable_wake [OF 1(2) o, of 0])
    fix w2 p2
    assume 2: "cc_gpio_enable_notification h (g + 1) 0 GPIO_TYPE_WAKE_SOURCE w1 = Some (0, w2)" "port_at w2 h = Some p2"
      "pin_inttype p2 = put_inttype (EXTRACT_PIN (g + 1)) 0 (pin_inttype p1)"
    have "get_inttype (EXTRACT_PIN g) (pin_inttype p2) = t AND 3"
      using get_inttype_neighbour [OF assms(4), of t "pin_inttype p"] 1(3) 2(3) n by simp
    then show ?thesis using 1(1) 2(1,2) by blast
  qed
qed

section \<open>Witnesses\<close>

text \<open>The first port with all its pins open and able to wake up the system; an interrupt of its pin 2
  is pending.\<close>

definition sample_port :: gpio_port where
  "sample_port = \<lparr>port_base = 16, validity_mask = 0xFF, special_purpose_mask = 0xFF, pin_status = 0xFF, pin_state = 0,
     pin_direction = 0, pin_int_en = 0, pin_inttype = 0, pin_wake_src = 0\<rparr>"

definition sample_gpio :: gpio_world where
  "sample_gpio = \<lparr>gregs = \<lambda>_. \<lparr>GPIO_DIR = 0, GPIO_IBE = 0, GPIO_IS = 0, GPIO_IEV = 0, GPIO_IM = 4, GPIO_RIS = 4, GPIO_DATA = 0\<rparr>,
     gports = [sample_port, sample_port\<lparr>port_base := 32\<rparr>, sample_port\<lparr>port_base := 48\<rparr>, sample_port\<lparr>port_base := 64\<rparr>],
     drv_notify_cb = True, notified = []\<rparr>"

lemma sample_pins: "port_at sample_gpio 0 = Some sample_port" "pin_open sample_port 3" "pin_open sample_port 4"
  by (simp_all add: port_at_def sample_gpio_def pin_open_def pin_ok_def sample_port_def has_flag_def pin_mask_def
      EXTRACT_PORT_def EXTRACT_PIN_def MAX_GPIO_PORTS_def)

lemma sample_opens: "\<exists>w0. cc_gpio_open 3 output sample_gpio = Some (Some 0, w0)"
  by (simp add: cc_gpio_open_def Let_def port_at_def sample_gpio_def sample_port_def has_flag_def pin_mask_def
      EXTRACT_PORT_def EXTRACT_PIN_def MAX_GPIO_PORTS_def)

theorem gpio_write_read_witness:
  "\<exists>w0 w1 w2. cc_gpio_open 3 True sample_gpio = Some (Some 0, w0) \<and> cc_gpio_write 0 3 1 w0 = Some (0, w1) \<and>
     cc_gpio_read 0 3 w1 = Some (0, Some 1, w2)"
proof -
  obtain w0 where "cc_gpio_open 3 True sample_gpio = Some (Some 0, w0)" using sample_opens by blast
  with gpio_write_read [OF this, of 1] show ?thesis by auto
qed

theorem gpio_interrupt_calls_witness:
  "notified (gpio_interrupt_handler 16 sample_gpio) = [2]"
proof -
  have l: "[0..<7] = [0, 1, 2, 3, 4, 5, 6 :: nat]" "[0..<4] = [0, 1, 2, 3 :: nat]" by code_simp+
  have "find_port 16 sample_gpio = 0"
    by (simp add: find_port_def MAX_GPIO_PORTS_def l(2) sample_gpio_def sample_port_def)
  moreover have "drv_notify_cb sample_gpio" "4 = GPIO_RIS (gregs sample_gpio 16) AND GPIO_IM (gregs sample_gpio 16)"
    "notified sample_gpio = []" by (simp_all add: sample_gpio_def)
  moreover have "filter (\<lambda>i. has_flag (4 :: u32) (push_bit i 1)) [0, 1, 2, 3, 4, 5, 6] = [2]"
    by (simp add: has_flag_def)
  ultimately show ?thesis
    using gpio_interrupt_calls [of sample_gpio 4 16] by (simp only: l(1)) simp
qed

theorem neighbour_changes_wake_type_witness:
  "\<exists>w1 w2 p2. cc_gpio_enable_notification 0 3 4 GPIO_TYPE_WAKE_SOURCE sample_gpio = Some (0, w1)
    \<and> cc_gpio_enable_notification 0 4 0 GPIO_TYPE_WAKE_SOURCE w1 = Some (0, w2)
    \<and> port_at w2 0 = Some p2 \<and> get_inttype 3 (pin_inttype p2) = 0"
  using neighbour_changes_wake_type [OF sample_pins(1,2), of 4] sample_pins(3)
  by (simp add: sample_port_def has_flag_def EXTRACT_PIN_def pin_mask_def)

end
