(* ===== verification/Cc_Pm_Board.thy ===== *)
theory Cc_Pm_Board
  imports Cc_Pm_Ops Cc_Pm_Idle Uart_Props Gpio_Props
begin

text \<open>
  The power management of the sample board: the serial ports as drivers and the platform of
  \<open>Cc_Pm_Ops\<close> give the contracts of the framework (interpretation \<open>board\<close>), so the idle task of the
  board leaves every module at full power; the wake-up sources are set in time for the next alarm,
  but one kind of pin passes for a wake-up source and is none; the interrupt controller survives the
  sleep.
\<close>

section \<open>The contracts on the board\<close>

definition soc_can_wake :: "nat \<Rightarrow> soc \<Rightarrow> bool" where
  "soc_can_wake d w = uart_can_wake d (uarts w)"

lemma soc_power_uart:
  "soc_power d s t w = (r, st, w') \<Longrightarrow> uart_power d s t (uarts w) = (r, st, uarts w') \<and> critical w' = critical w"
  by (auto simp: soc_power_def split: prod.splits)

text \<open>What no power handler and no operation of the platform changes: the depth of the critical section,
  the drivers that are loaded and the log of the calls that were undefined.\<close>

definition soc_obs :: "soc \<Rightarrow> int \<times> (nat \<Rightarrow> bool) \<times> (nat \<Rightarrow> bool)" where
  "soc_obs w = (critical w, pm_log (uarts w))"

text \<open>An operation that touches neither the ports nor the critical section.\<close>

lemma harmless_soc:
  assumes "\<And>w. uarts (f w) = uarts w" "\<And>w. critical (f w) = critical w"
  shows "harmless soc_can_wake soc_obs f"
  using assms by (simp add: harmless_def soc_can_wake_def soc_obs_def)

definition untouched :: "soc \<Rightarrow> soc \<Rightarrow> bool" where
  "untouched w w' \<longleftrightarrow> uarts w' = uarts w \<and> critical w' = critical w"

lemma untouched_trans: "untouched w w1 \<Longrightarrow> untouched w1 w2 \<Longrightarrow> untouched w w2"
  by (simp add: untouched_def)

lemma untouched_refl [simp]: "untouched w w" by (simp add: untouched_def)

lemma untouched_basic [simp]:
  "untouched w (PRCMLPDSWakeupSourceEnable src v) = untouched w v"
  "untouched w (PRCMLPDSWakeupSourceDisable src v) = untouched w v"
  "untouched w (PRCMLPDSIntervalSet t v) = untouched w v" "untouched w (PRCMLPDSWakeUpGPIOSelect a b v) = untouched w v"
  "untouched w (set_hib h v) = untouched w v" "untouched w (PRCMHibernateWakeupSourceEnable src v) = untouched w v"
  "untouched w (PRCMHibernateWakeupSourceDisable src v) = untouched w v" "untouched w (snd (scc_get v)) = untouched w v"
  "untouched w (PRCMHibernateIntervalSet t' v) = untouched w v"
  by (simp_all add: untouched_def PRCMLPDSWakeupSourceEnable_def PRCMLPDSWakeupSourceDisable_def
      PRCMLPDSIntervalSet_def PRCMLPDSWakeUpGPIOSelect_def set_hib_def PRCMHibernateWakeupSourceEnable_def
      PRCMHibernateWakeupSourceDisable_def scc_get_def PRCMHibernateIntervalSet_def Let_def split: prod.splits)

lemma untouched_fold: "(\<And>x w. untouched w (f x w)) \<Longrightarrow> untouched w (fold f xs w)"
  by (induction xs arbitrary: w) (auto intro: untouched_trans)

lemma untouched_wkup_parts:
  "untouched w (snd (setup_S3_wakeup_from_nw w))" "untouched w (snd (check_n_setup_S3_wakeup_from_gpio w))"
  "untouched w (snd (check_n_setup_S3_wakeup_from_timer w))" "untouched w (snd (check_n_setup_S4_wakeup_from_gpio w))"
  "untouched w (snd (check_n_setup_S4_wakeup_from_timer w))" "untouched w (snd (wkup_result a b c w))"
proof -
  show "untouched w (snd (setup_S3_wakeup_from_nw w))" by (simp add: setup_S3_wakeup_from_nw_def)
  show "untouched w (snd (check_n_setup_S3_wakeup_from_gpio w))"
    by (auto simp: check_n_setup_S3_wakeup_from_gpio_def untouched_def PRCMLPDSWakeupSourceEnable_def
        PRCMLPDSWakeUpGPIOSelect_def split: prod.splits list.splits option.splits)
  show "untouched w (snd (check_n_setup_S3_wakeup_from_timer w))"
    by (auto simp: check_n_setup_S3_wakeup_from_timer_def Let_def scc_get_def split: prod.splits)
  have "untouched w (PRCMHibernateWakeUpGPIOSelect a b w)" for a b w
    unfolding PRCMHibernateWakeUpGPIOSelect_def by (rule untouched_fold) (simp add: untouched_def)
  then have "untouched w (setup_hib_gpio_wake a b w)" for a b w
    by (simp add: setup_hib_gpio_wake_def)
  then show "untouched w (snd (check_n_setup_S4_wakeup_from_gpio w))"
    unfolding check_n_setup_S4_wakeup_from_gpio_def
    by (auto split: prod.splits option.splits intro!: untouched_fold)
  show "untouched w (snd (check_n_setup_S4_wakeup_from_timer w))"
    by (auto simp: check_n_setup_S4_wakeup_from_timer_def Let_def scc_get_def split: prod.splits)
  show "untouched w (snd (wkup_result a b c w))"
    by (simp add: wkup_result_def)
qed

lemma untouched_wkup: "untouched w (snd (cc_set_up_wkup_srcs target w))"
proof (cases target)
  case e_pm_S3
  show ?thesis
    unfolding cc_set_up_wkup_srcs_def Let_def case_prod_beta e_pm_S3 soc_pm.case
    by (meson untouched_wkup_parts untouched_trans)
next
  case e_pm_S4
  show ?thesis
    unfolding cc_set_up_wkup_srcs_def Let_def case_prod_beta e_pm_S4 soc_pm.case
    by (meson untouched_wkup_parts untouched_trans)
qed (simp_all add: cc_set_up_wkup_srcs_def untouched_wkup_parts)

lemma harmless_untouched: "(\<And>w. untouched w (f w)) \<Longrightarrow> harmless soc_can_wake soc_obs f"
  by (rule harmless_soc) (simp_all add: untouched_def)

lemma lpds_harmless: "harmless soc_can_wake soc_obs lpds"
proof -
  have "same_blocks u (u\<lparr>ports := reset_uart_hw \<circ> ports u\<rparr>)" for u
    by (simp add: same_blocks_def quiet_def both_empty_iff reset_uart_hw_def)
  then have "uart_can_wake d (u\<lparr>ports := reset_uart_hw \<circ> ports u\<rparr>)" if "uart_can_wake d u" for d u
    using same_blocks_can_wake that by blast
  moreover have "pm_log (u\<lparr>ports := reset_uart_hw \<circ> ports u\<rparr>) = pm_log u" for u
    by (rule pm_log_cong) simp_all
  ultimately show ?thesis by (simp add: harmless_def soc_can_wake_def soc_obs_def lpds_def)
qed

text \<open>The platform in a world that goes on by itself: time passes, pins change and interrupts become
  pending, as \<open>env\<close> says, while the modules are being put down (seen when the wake-up sources are set)
  and until the platform looks for pending interrupts.\<close>

definition board_ops :: "(soc \<Rightarrow> soc) \<Rightarrow> soc platform_pm_ops" where
  "board_ops env = lp3p0_pm_ops\<lparr>set_up_wkup_srcs := Some (\<lambda>s w. cc_set_up_wkup_srcs s (env w)),
     are_irqs_pending := Some (\<lambda>w. cc_are_irqs_pending (env w))\<rparr>"

lemma board_ops_id: "board_ops id = lp3p0_pm_ops"
  by (simp add: board_ops_def lp3p0_pm_ops_def)

lemmas board_ops_defs = board_ops_def lp3p0_pm_ops_def

locale board_world =
  fixes env :: "soc \<Rightarrow> soc"
  assumes env_calm: "untouched w (env w)"

sublocale board_world \<subseteq> board: pm_platform soc_power soc_can_wake soc_obs "board_ops env"
proof
  fix d w st w'
  assume "soc_power d e_pm_M0 e_pm_M4 w = (0, st, w')"
  then show "st = e_pm_M4 \<and> soc_can_wake d w'"
    using soc_power_uart uart.power_down unfolding soc_can_wake_def by blast
next
  fix d w r st w'
  assume "soc_power d e_pm_M0 e_pm_M4 w = (r, st, w')" "r \<noteq> 0"
  then show "st = e_pm_M0" using soc_power_uart uart.refuse by blast
next
  fix d w r st w'
  assume "soc_power d e_pm_M4 e_pm_M0 w = (r, st, w')" "soc_can_wake d w"
  then show "st = e_pm_M0" using soc_power_uart uart.wake_up unfolding soc_can_wake_def by blast
next
  fix d w r st w'
  assume "soc_power d e_pm_M0 e_pm_M0 w = (r, st, w')"
  then show "st = e_pm_M0" using soc_power_uart uart.stay_up by blast
next
  fix d s t w r st w'
  assume "soc_power d s t w = (r, st, w')"
  then show "soc_obs w' = soc_obs w" using soc_power_uart uart_power_log by (simp add: soc_obs_def) blast
next
  fix d s t w r st w' e
  assume "soc_power d s t w = (r, st, w')" "e \<noteq> d" "soc_can_wake e w"
  then show "soc_can_wake e w'" using soc_power_uart uart.others_kept unfolding soc_can_wake_def by blast
next
  show "has_mandatory (board_ops env)" by (simp add: has_mandatory_def board_ops_defs)
next
  fix f :: "soc_pm \<Rightarrow> soc \<Rightarrow> int \<times> soc" and s
  assume "set_up_wkup_srcs (board_ops env) = Some f"
  then show "harmless soc_can_wake soc_obs (\<lambda>w. snd (f s w))"
    using untouched_trans [OF env_calm untouched_wkup] by (auto simp: board_ops_defs intro: harmless_untouched)
next
  fix f assume "handle_S3_wakeup (board_ops env) = Some f"
  then show "harmless soc_can_wake soc_obs (\<lambda>w. snd (f w))"
    by (auto simp: board_ops_defs cc_handle_S3_wakeup_def intro!: harmless_soc)
next
  fix f assume "are_irqs_pending (board_ops env) = Some f"
  then show "harmless soc_can_wake soc_obs (\<lambda>w. snd (f w))"
    using env_calm by (auto simp: board_ops_defs cc_are_irqs_pending_def intro!: harmless_untouched)
next
  fix f :: "soc_pm \<Rightarrow> soc \<Rightarrow> bool \<times> soc" and s
  assume "can_try_pm_state (board_ops env) = Some f"
  then show "harmless soc_can_wake soc_obs (\<lambda>w. snd (f s w))"
    by (auto simp: board_ops_defs lp3p0_can_try_pm_state_def intro!: harmless_soc)
next
  fix f w assume "enter_S4 (board_ops env) = Some f"
  then show "f w = None" by (auto simp: board_ops_defs lp3p0_enter_hibernate_def cc_enter_S4_def)
next
  fix f w assume "enter_S3 (board_ops env) = Some f"
  then show "fst (f w)" by (auto simp: board_ops_defs cc_enter_S3_def)
next
  fix f assume "enter_S3 (board_ops env) = Some f"
  then show "harmless soc_can_wake soc_obs (\<lambda>w. snd (f w))"
    using lpds_harmless by (auto simp: board_ops_defs cc_enter_S3_def)
next
  fix f assume "enter_S2 (board_ops env) = Some f"
  then show "harmless soc_can_wake soc_obs f"
    by (auto simp: board_ops_defs cc_enter_S2_def intro!: harmless_soc)
next
  fix f assume "enter_S1 (board_ops env) = Some f"
  then show "harmless soc_can_wake soc_obs f"
    by (auto simp: board_ops_defs cc_enter_S1_def intro!: harmless_soc)
next
  fix f assume "back_up_soc_data (board_ops env) = Some f"
  then show "harmless soc_can_wake soc_obs f"
    by (auto simp: board_ops_defs lp3p0_back_up_soc_data_def cc_back_up_soc_data_def back_up_nvic_regs_def
        PRCMSRAMRetentionEnable_def Let_def intro!: harmless_soc)
next
  fix f assume "restore_soc_data (board_ops env) = Some f"
  then show "harmless soc_can_wake soc_obs f"
    by (auto simp: board_ops_defs lp3p0_restore_soc_data_def cc_restore_soc_data_def restore_nvic_regs_def
        set_hib_def Let_def intro!: harmless_soc)
next
  fix f d w assume "dsbl_sys_irq (board_ops env) = Some f" "soc_can_wake d w"
  then show "soc_can_wake d (snd (f w))" by (auto simp: board_ops_defs osi_EnterCritical_def soc_can_wake_def)
next
  fix f d w mk assume "enbl_sys_irq (board_ops env) = Some f" "soc_can_wake d w"
  then show "soc_can_wake d (f mk w)" by (auto simp: board_ops_defs osi_ExitCritical_def soc_can_wake_def)
next
  fix f g and w w2 :: soc
  assume "dsbl_sys_irq (board_ops env) = Some f" "enbl_sys_irq (board_ops env) = Some g" "soc_obs w2 = soc_obs (snd (f w))"
  then show "soc_obs (g (fst (f w)) w2) = soc_obs w"
    by (auto simp: board_ops_defs osi_EnterCritical_def osi_ExitCritical_def soc_obs_def)
qed

interpretation still: board_world id
  by unfold_locales simp

section \<open>The idle task of the board\<close>

text \<open>The drivers are serial ports or have no power handler, and the clock functions of the modules
  touch neither the ports nor the critical section.\<close>

definition board_drivers :: "soc pm \<Rightarrow> bool" where
  "board_drivers p \<longleftrightarrow>
     (\<forall>d < length (drivers p). goto2pm_mode (drivers p ! d) = None \<or> goto2pm_mode (drivers p ! d) = Some (soc_power d))
     \<and> (\<forall>m < length (modules p). \<forall>f. clk_enable (modules p ! m) = Some f \<longrightarrow> (\<forall>w. untouched w (snd (f e_pm_S0 w))))"

text \<open>The drivers with a power handler are loaded, and no call of them was undefined.\<close>

definition ports_loaded :: "soc pm \<Rightarrow> bool" where
  "ports_loaded p \<longleftrightarrow>
     (\<forall>d < length (drivers p). goto2pm_mode (drivers p ! d) \<noteq> None \<longrightarrow>
        port_loaded d (uarts (world p)) \<and> d \<notin> pm_undefined (uarts (world p)))"

lemma ports_loaded_kept:
  assumes "ports_loaded p" "same_shape p q" "soc_obs (world q) = soc_obs (world p)"
  shows "ports_loaded q"
proof -
  have "pm_log (uarts (world q)) = pm_log (uarts (world p))" using assms(3) by (simp add: soc_obs_def)
  then have "port_loaded d (uarts (world q)) \<longleftrightarrow> port_loaded d (uarts (world p))"
    "port_loaded d (uarts (world q)) \<and> d \<in> pm_undefined (uarts (world q)) \<longleftrightarrow>
     port_loaded d (uarts (world p)) \<and> d \<in> pm_undefined (uarts (world p))" for d
    unfolding pm_log_def by (auto simp: fun_eq_iff)
  then show ?thesis
    using assms(1) same_shape_nth(1) [OF assms(2)] same_shape_len [OF assms(2)] by (auto simp: ports_loaded_def)
qed

text \<open>The chip hibernates only where the user's policy and the applications let it.\<close>

lemma hibernation_allowed:
  assumes "cc_idle_task_pm p = Some None" "pm_ops p = Some (board_ops env)"
  shows "num_app_no_pm p = 0 \<and> has_flag (user_sel_power_mode (world p)) POWER_POLICY_HIBERNATE"
proof -
  have pf: "pform p" using assms(1) by (auto simp: cc_idle_task_pm_def plat_get_def ops_of_def split: bind_splits if_splits)
  let ?p1 = "p\<lparr>world := (world p)\<lparr>critical := critical (world p) + 1\<rparr>\<rparr>"
  have d: "plat_get dsbl_sys_irq p = Some (0, ?p1)"
    using assms(2) pf by (simp add: plat_get_def ops_of_def board_ops_defs osi_EnterCritical_def)
  have n: "num_app_no_pm p = 0"
    using assms(1) d by (auto simp: cc_idle_task_pm_def split: bind_splits if_splits)
  have "try_S4_no_irq ?p1 = Some None"
    using assms(1) d n by (auto simp: cc_idle_task_pm_def split: bind_splits option.splits if_splits)
  then have "has_flag (user_sel_power_mode (world ?p1)) POWER_POLICY_HIBERNATE"
    using assms(2) pf
    by (auto simp: try_S4_no_irq_def plat_get_def ops_of_def board_ops_defs lp3p0_can_try_pm_state_def
        split: bind_splits if_splits)
  then show ?thesis using n by simp
qed

context board_world
begin

lemma board_resting:
  assumes "registered p xs" "used_list_len p = int (length xs)" "pm_ops p = Some (board_ops env)" "board_drivers p" "all_up p xs"
  shows "board.resting xs p"
proof -
  have "harmless soc_can_wake soc_obs (\<lambda>w. snd (f e_pm_S0 w))"
    if "m < length (modules p)" "clk_enable (modules p ! m) = Some f" for m f
    by (rule harmless_untouched) (use assms(4) that in \<open>auto simp: board_drivers_def\<close>)
  then have "board.fits p" using assms(4) unfolding board_drivers_def board.fits_def by blast
  then show ?thesis using assms board.all_up_restorable by (simp add: board.resting_def)
qed

lemma idle_task_up:
  assumes "registered p xs" "used_list_len p = int (length xs)" "pm_ops p = Some (board_ops env)" "board_drivers p" "all_up p xs"
  shows "\<exists>res. cc_idle_task_pm p = Some res \<and>
    (case res of
       Some q \<Rightarrow> all_up q xs \<and> registered q xs \<and> same_shape p q \<and> soc_obs (world q) = soc_obs (world p)
     | None \<Rightarrow> num_app_no_pm p = 0 \<and> has_flag (user_sel_power_mode (world p)) POWER_POLICY_HIBERNATE)"
proof (rule board.idle_task [OF board_resting [OF assms] assms(5)])
  fix t assume "cc_idle_task_pm p = Some None"
  then show ?thesis using hibernation_allowed assms(3) by auto
next
  fix q assume "cc_idle_task_pm p = Some (Some q)" "board.upright xs p q" "soc_obs (world q) = soc_obs (world p)"
  then show ?thesis
    using registered_shape [OF assms(1)] by (auto simp: board.upright_def)
qed

end

text \<open>C9. The idle task of the board, whose serial ports are loaded and whose modules are all at full power when
  it starts: while it runs, time may pass, pins may
  change and interrupts may become pending at any of the points where the platform looks (\<open>env\<close>), but no
  byte arrives on a serial port and none is taken.  Then it always finishes its descent, no power
  handler is called without a defined result, and, if control comes back, every module with a power
  handler is at full power again, the list of modules is well-formed and the critical sections are
  balanced; control is lost to hibernation only if no application has put power management off and the
  policy of the user allows it.  (A byte that does arrive between the two walks over the modules keeps its
  port down: \<open>byte_keeps_port_down\<close>.)\<close>

theorem idle_task_leaves_modules_up:
  assumes "\<And>w. untouched w (env w)" "registered p xs" "used_list_len p = int (length xs)"
    "pm_ops p = Some (board_ops env)" "board_drivers p" "ports_loaded p" "all_up p xs"
  shows "\<exists>res. cc_idle_task_pm p = Some res \<and>
    (case res of
       Some q \<Rightarrow> all_up q xs \<and> registered q xs \<and> same_shape p q \<and> ports_loaded q \<and> critical (world q) = critical (world p)
     | None \<Rightarrow> num_app_no_pm p = 0 \<and> has_flag (user_sel_power_mode (world p)) POWER_POLICY_HIBERNATE)"
proof -
  have "board_world env" using assms(1) by (rule board_world.intro)
  from board_world.idle_task_up [OF this assms(2-5,7)] obtain res where
    res: "cc_idle_task_pm p = Some res" "case res of
       Some q \<Rightarrow> all_up q xs \<and> registered q xs \<and> same_shape p q \<and> soc_obs (world q) = soc_obs (world p)
     | None \<Rightarrow> num_app_no_pm p = 0 \<and> has_flag (user_sel_power_mode (world p)) POWER_POLICY_HIBERNATE"
    by blast
  then show ?thesis
    using ports_loaded_kept [OF assms(6)] by (cases res) (auto simp: soc_obs_def)
qed

text \<open>A byte that arrives after its port was put down keeps it down: \<open>cc_uart_control\<close> refuses every command
  while a queue of the port is not empty, the restoring of the context included, so that the handler
  fails and the driver stays in the state M4.\<close>

theorem byte_keeps_port_down:
  assumes "rtos_at (uarts w) d = Some drv" "hal_handle drv = Some k" "lock_obj drv \<noteq> Some True"
    "state_at (uarts w) k = Some s" "rx_fifo (ports (uarts w) (port_of s)) \<noteq> []"
  shows "\<exists>w'. soc_power d e_pm_M4 e_pm_M0 w = (-1, e_pm_M4, w')"
proof -
  let ?u = "uarts w"
  have ne: "\<not> both_empty (ports ?u (port_of s))" using assms(5) by (simp add: both_empty_iff)
  have up: "\<exists>v. pm_transition k rv e_pm_M4 e_pm_M0 u = Some (-1, e_pm_M4, v) \<and> same_blocks u v"
    if st: "state_at u k = Some s" and pt: "ports u = ports ?u" for rv u
  proof -
    obtain v where v: "cc_uart_control k e_context_restore u = Some (if both_empty (ports u (port_of s)) then 0 else -1, v)"
      by (rule cc_uart_control_context [OF st, of e_context_restore]) simp
    show ?thesis using v cc_uart_control_blocks [OF v] ne pt by (simp add: pm_transition_def)
  qed
  have "\<exists>u. uart_handle_pm_cmd d e_pm_M4 e_pm_M0 ?u = Some (-1, e_pm_M4, u)"
  proof (cases "lock_obj drv")
    case None
    then show ?thesis using up [OF assms(4) refl, of "-1"] assms(1,2) by (auto simp: uart_handle_pm_cmd_def)
  next
    case (Some held)
    let ?w1 = "set_rtos d (drv\<lparr>lock_obj := Some True\<rparr>) ?u"
    have s1: "state_at ?w1 k = Some s" "ports ?w1 = ports ?u" using assms(4) by simp_all
    obtain v where v: "pm_transition k 0 e_pm_M4 e_pm_M0 ?w1 = Some (-1, e_pm_M4, v)" "same_blocks ?w1 v"
      using up [OF s1, of 0] by blast
    have "rtos_at v d = Some (drv\<lparr>lock_obj := Some True\<rparr>)"
      using v(2) rtos_at_set [OF assms(1), of "drv\<lparr>lock_obj := Some True\<rparr>" d]
      by (simp add: rtos_at_def same_blocks_def split: if_splits)
    then show ?thesis
      using assms(1-3) Some v(1) by (simp add: uart_handle_pm_cmd_def RTOS_MUTEX_ACQUIRE_IMM_def RTOS_MUTEX_RELEASE_def)
  qed
  then show ?thesis by (auto simp: soc_power_def uart_power_def)
qed

text \<open>The mutex of the port \<open>d\<close> is held, and stays so whatever the framework asks of the other ports.\<close>

definition port_busy :: "nat \<Rightarrow> soc \<Rightarrow> bool" where
  "port_busy d w \<longleftrightarrow> (\<exists>drv. rtos_at (uarts w) d = Some drv \<and> lock_obj drv = Some True)"

lemma busy_refuses: "port_busy d w \<Longrightarrow> fst (soc_power d s t w) \<noteq> 0"
  by (auto simp: port_busy_def soc_power_def uart_power_def uart_handle_pm_cmd_def RTOS_MUTEX_ACQUIRE_IMM_def
      split: option.splits bind_splits)

lemma busy_kept:
  assumes "port_busy d w" "e \<noteq> d"
  shows "port_busy d (snd (snd (soc_power e s t w)))"
proof -
  obtain drv where d: "rtos_at (uarts w) d = Some drv" "lock_obj drv = Some True" using assms(1) by (auto simp: port_busy_def)
  obtain r st u where p: "uart_power e s t (uarts w) = (r, st, u)" by (metis prod_cases3)
  have "rtos_at u d = Some drv" using uart_power_Some [OF p]
  proof
    assume "uart_handle_pm_cmd e s t (uarts w) = Some (r, st, u)"
    then show ?thesis
    proof (cases rule: uart_handle_cases)
      case busy
      then show ?thesis using d(1) by simp
    next
      case (run x hndl rv w1 w2)
      have w1: "rtos_at w1 d = Some drv" using run(1,5) d(1) assms(2) rtos_at_set [OF run(1)] by auto
      have eq: "rtos_at w2 = rtos_at w1" using pm_transition_facts(1) [OF run(4)] by (auto simp: same_blocks_def rtos_at_def)
      show ?thesis
      proof (cases "w1 = uarts w \<and> u = w2")
        case True
        then show ?thesis using w1 eq by simp
      next
        case False
        then have "u = set_rtos e (x\<lparr>lock_obj := Some False\<rparr>) w2" "rtos_at w1 e \<noteq> None"
          using run(1,5) rtos_at_set [OF run(1)] by auto
        then show ?thesis using w1 eq assms(2) by auto
      qed
    qed
  qed (use d(1) in simp)
  then show ?thesis using p d(2) by (simp add: soc_power_def port_busy_def)
qed

text \<open>C10. A serial port in use keeps the chip awake: while a thread holds the driver of one of the
  registered modules, both deep power states answer that they were not entered.\<close>

theorem busy_port_keeps_awake:
  assumes "registered p xs" "used_list_len p = int (length xs)" "board_drivers p"
    "m \<in> set xs" "my_driver (modules p ! m) = Some d" "goto2pm_mode (drivers p ! d) \<noteq> None" "port_busy d (world p)"
  shows "\<exists>r. do_try_S3_no_irq p = Some (-1, r) \<and> do_try_S4_no_irq p = Some (Some (-1, r)) \<and> same_shape p r"
proof -
  note r = registeredD(1,2) [OF assms(1)] registered_drivers_exist [OF assms(1)]
  have dl: "d < length (drivers p)"
    using registeredD(4,6) [OF assms(1)] assms(4,5) by blast
  obtain n q where q: "push_loop (used_mod_list p) 0 p = Some (n, q)" "same_shape p q"
    by (rule push_loop_ends [OF r(2,3)])
  have "n < 0 + int (length xs)"
  proof (rule push_loop_refused [where Q = "port_busy d", OF r(2,3) assms(7) _ _ assms(4-6) q(1)])
    fix e f s t and w :: soc
    assume "e < length (drivers p)" "goto2pm_mode (drivers p ! e) = Some f" "e \<noteq> d" "port_busy d w"
    then have "f = soc_power e" using assms(3) by (auto simp: board_drivers_def)
    then show "port_busy d (snd (snd (f s t w)))" using busy_kept [of d w e s t] \<open>port_busy d w\<close> \<open>e \<noteq> d\<close> by simp
  next
    fix f s and w :: soc
    assume "goto2pm_mode (drivers p ! d) = Some f" "port_busy d w"
    then have "f = soc_power d" using assms(3) dl by (auto simp: board_drivers_def)
    then show "fst (f s e_pm_M4 w) \<noteq> 0" using busy_refuses [of d w s e_pm_M4] \<open>port_busy d w\<close> by simp
  qed
  then show ?thesis using push_stops_short [OF r q] assms(2) by (metis add_0 order_less_irrefl)
qed

section \<open>In time for the alarm\<close>

text \<open>C35. When the set-up of the wake-up sources for S3 succeeds with an alarm ahead, the timer that ends
  the sleep is set to fire early enough: at least 634 ticks of the slow clock (19 ms) before the
  alarm, counted from the reading of the clock.\<close>

theorem S3_timer_wakes_before_alarm:
  assumes "has_alarm_set w" "check_n_setup_S3_wakeup_from_timer w = (0, w')"
  shows "unat (fst (scc_get w)) + unat (LPDS_WAKETIME_WAKE w') + 634 \<le> unat (PRCMSlowClkCtrMatchGet (hib (clk w)))
    \<and> has_flag (LPDS_WAKEUP_CFG w') PRCM_LPDS_TIMER"
proof -
  let ?mt = "PRCMSlowClkCtrMatchGet (hib (clk w))" and ?cu = "fst (scc_get w)"
  let ?rem = "?mt - ?cu - WAKEUP_TIME_LPDS"
  let ?r32 = "(if ?rem > 0xFFFFFFFF then 0xFFFFFFFF else ?rem)"
  have W: "unat WAKEUP_TIME_LPDS = 654" by (simp add: WAKEUP_TIME_LPDS_def)
  have c: "?cu < ?mt" "WAKEUP_TIME_LPDS < ?mt - ?cu"
    and w': "w' = PRCMLPDSWakeupSourceEnable PRCM_LPDS_TIMER (PRCMLPDSIntervalSet (ucast ?r32) (snd (scc_get w)))"
    using assms by (auto simp: check_n_setup_S3_wakeup_from_timer_def Let_def ERR_TIMER_TO_WAKE_def case_prod_beta
        split: if_splits)
  have d: "unat (?mt - ?cu) = unat ?mt - unat ?cu" using c(1) by (simp add: unat_sub_if_size word_less_nat_alt)
  have r: "unat ?rem = unat ?mt - unat ?cu - 654"
    using c(2) d W by (simp add: unat_sub_if_size word_less_nat_alt)
  have g: "unat ?mt - unat ?cu > 654" "unat ?cu < unat ?mt" using c W d by (simp_all add: word_less_nat_alt)
  have "unat ?r32 \<le> unat ?rem \<and> unat ?r32 < 2 ^ 32" by (auto simp: word_less_nat_alt)
  moreover have "unat (ucast ?r32 :: u32) = unat ?r32"
    using calculation by (simp add: unat_ucast_small)
  moreover have "unat (LPDS_WAKETIME_WAKE w') \<le> max 21 (unat (ucast ?r32 :: u32))"
    unfolding w' by (simp add: PRCMLPDSWakeupSourceEnable_def PRCMLPDSIntervalSet_def Let_def)
  ultimately have "unat (LPDS_WAKETIME_WAKE w') \<le> max 21 (unat ?mt - unat ?cu - 654)" using r by linarith
  then have "unat ?cu + unat (LPDS_WAKETIME_WAKE w') + 634 \<le> unat ?mt" using g by linarith
  moreover have "has_flag (LPDS_WAKEUP_CFG w') PRCM_LPDS_TIMER"
  proof -
    have "((x OR 1) AND 0x91) AND 1 = (1 :: u32)" for x
      by (simp add: bit.conj_disj_distrib2 and.assoc)
    then show ?thesis unfolding w'
      by (simp add: PRCMLPDSWakeupSourceEnable_def PRCM_LPDS_TIMER_def has_flag_def)
  qed
  ultimately show ?thesis by blast
qed

section \<open>A pin that passes for a wake-up source\<close>

text \<open>If the first pin marked as a wake-up source is not one of the six that can be one, no alarm is
  set and the network processor is not enabled to wake the chip, the set-up for S3 reports success,
  though it has enabled nothing: the chip would sleep for ever.\<close>

theorem unknown_pin_sleeps_forever:
  assumes "cc_gpio_get_spl_purpose MAX_GPIO_WAKESOURCE (pins w) = (n, (num, type) # rest)" "n > 0"
    "num \<notin> set gpio_wake_src" "\<not> has_alarm_set w" "\<not> has_flag (NVIC_EN (nvic_regs w) ! 5) (push_bit 11 1)"
    "LPDS_WAKEUP_CFG w = 0"
  shows "\<exists>w'. cc_set_up_wkup_srcs e_pm_S3 w = (0, w') \<and> LPDS_WAKEUP_CFG w' = 0"
proof -
  have nf: "find (\<lambda>i. gpio_wake_src ! i = num) [0..<length gpio_wake_src] = None"
    using assms(3) by (auto simp: find_None_iff)
  have g: "check_n_setup_S3_wakeup_from_gpio w = (0, w)"
    using assms(1,2) nf by (simp add: check_n_setup_S3_wakeup_from_gpio_def)
  have "setup_S3_wakeup_from_nw w = (-1, w)" using assms(5) by (simp add: setup_S3_wakeup_from_nw_def)
  then have "cc_set_up_wkup_srcs e_pm_S3 w = (0, PRCMLPDSWakeupSourceDisable PRCM_LPDS_TIMER w)"
    using g assms(4) by (simp add: cc_set_up_wkup_srcs_def check_n_setup_S3_wakeup_from_timer_def wkup_result_def
        ERR_TIMER_TO_WAKE_def)
  then show ?thesis using assms(6) by (simp add: PRCMLPDSWakeupSourceDisable_def)
qed

section \<open>The interrupt controller over the sleep\<close>

text \<open>The registers of the interrupt controller that are saved before the sleep are the same after
  it, though the controller loses them all: the vector table, the priorities, the enabled interrupts
  and the tick; only the control register, which is saved as well, is not written back.\<close>

theorem nvic_survives_sleep:
  assumes "length (NVIC_EN (nvic_regs w)) = 6"
  shows "nvic_regs (cc_restore_soc_data (lpds (cc_back_up_soc_data cols w)))
    = (nvic_regs w)\<lparr>NVIC_INT_CTRL := 0, NVIC_PEND := replicate 6 0\<rparr>"
proof -
  have "map2 (OR) (replicate 6 0) (NVIC_EN (nvic_regs w)) = NVIC_EN (nvic_regs w)"
    using assms by (intro nth_equalityI) simp_all
  then show ?thesis
    by (simp add: cc_restore_soc_data_def restore_nvic_regs_def lpds_def cc_back_up_soc_data_def back_up_nvic_regs_def
        PRCMSRAMRetentionEnable_def reset_nvic_def Let_def)
qed

section \<open>Witnesses\<close>

text \<open>A board with one serial port in use by a thread, an alarm set 10000 ticks ahead and one open pin (3)
  that is marked to wake up the system though it cannot.\<close>

definition sample_clk :: rtc_state where
  "sample_clk = \<lparr>hib = \<lparr>scc_at = \<lambda>_. 1000, latches = 0, HIB_RTC_TIMER_MSW = 0, HIB_RTC_TIMER_LSW = 0,
       HIB_REG2_HI = 0, HIB_REG3 = 0, HIB_RTC_IRQ_LSW_CONF = 11000, HIB_RTC_IRQ_MSW_CONF = 0,
       HIB_RTC_IRQ_ENABLE = 0, APPS_RCM_INTERRUPT_ENABLE = 0, APPS_RCM_INTERRUPT_STATUS = 0\<rparr>,
     rtc_up = True, rtc_base_addr = 0, rtc_freq_hz = 32768, rtc_cb = None, rtc_set_irq = None, has_alarm = True\<rparr>"

definition sample_soc :: soc where
  "sample_soc = \<lparr>uarts = sample_uart\<lparr>uart_rtos_drv := [sample_drv\<lparr>lock_obj := Some True\<rparr>, zero_rtos]\<rparr>,
     pins = sample_gpio\<lparr>gports := [sample_port\<lparr>pin_wake_src := 8\<rparr>, sample_port, sample_port, sample_port]\<rparr>,
     clk = sample_clk, nvic_regs = reset_nvic, nvic_reg_store = reset_nvic, LPDS_WAKEUP_CFG = 0, LPDS_WAKEUP_SRC = 0,
     LPDS_WAKETIME_WAKE = 0, LPDS_WAKETIME_OPP = 0, LPDS_GPIO_SEL = 0, GPIO_WAKE_CONF = 0, SRAM_DSLP_CFG = 0,
     SRAM_LPDS_CFG = 0, HIB_RTC_WAKE_EN = 0, HIB_RTC_WAKE_LSW = 0, HIB_RTC_WAKE_MSW = 0, HIB_GPIO_WAKE_EN = 0,
     HIB_GPIO_WAKE_CONF = 0, I2C_SEM = 0, GPIO_SEM = 0, spl_gpio_wakefrom_lpds = 0,
     user_sel_power_mode = POWER_POLICY_STANDBY, critical = 0, stray = \<lambda>_. 0\<rparr>"

definition sample_board :: "soc pm" where
  "sample_board = \<lparr>pform = True, used_list_len = 1, used_mod_list = Some 0, pm_ops = Some lp3p0_pm_ops,
     num_app_no_pm = 0, modules = [\<lparr>my_driver = Some 0, next_mod = None, clk_enable = None\<rparr>],
     drivers = [\<lparr>hw_module = Some 0, pm_state = e_pm_M0, goto2pm_mode = Some (soc_power 0)\<rparr>], world = sample_soc\<rparr>"

lemma sample_board_facts:
  "registered sample_board [0]" "used_list_len sample_board = int (length [0 :: nat])"
  "board_drivers sample_board"
  by (auto simp: registered_def sample_board_def board_drivers_def)

text \<open>The same board while the first 32 interrupts become pending.\<close>

definition sample_env :: "soc \<Rightarrow> soc" where
  "sample_env w = w\<lparr>nvic_regs := (nvic_regs w)\<lparr>NVIC_PEND := (-1) # replicate 5 0\<rparr>\<rparr>"

definition lively_board :: "soc pm" where
  "lively_board = sample_board\<lparr>pm_ops := Some (board_ops sample_env)\<rparr>"

lemma lively_board_facts:
  "untouched w (sample_env w)" "registered lively_board [0]" "used_list_len lively_board = int (length [0 :: nat])"
  "pm_ops lively_board = Some (board_ops sample_env)" "board_drivers lively_board" "ports_loaded lively_board"
  "all_up lively_board [0]"
  by (auto simp: registered_def lively_board_def sample_board_def board_drivers_def all_up_def managed_def untouched_def
      sample_env_def ports_loaded_def port_loaded_def rtos_at_def state_at_def sample_soc_def sample_uart_def sample_drv_def)

theorem idle_task_leaves_modules_up_witness:
  "\<exists>q. cc_idle_task_pm lively_board = Some (Some q) \<and> all_up q [0] \<and> ports_loaded q \<and> critical (world q) = 0"
  using idle_task_leaves_modules_up [OF lively_board_facts]
  by (auto simp: lively_board_def sample_board_def sample_soc_def has_flag_def POWER_POLICY_HIBERNATE_def
      POWER_POLICY_STANDBY_def split: option.splits)

theorem byte_keeps_port_down_witness:
  "\<exists>w'. soc_power 0 e_pm_M4 e_pm_M0 (sample_soc\<lparr>uarts := sample_uart\<lparr>ports := (\<lambda>_. sample_hw\<lparr>rx_fifo := [65]\<rparr>)\<rparr>\<rparr>)
     = (-1, e_pm_M4, w')"
  by (rule byte_keeps_port_down [where drv = sample_drv and k = 0 and s = sample_block])
    (simp_all add: rtos_at_def state_at_def sample_uart_def sample_drv_def)

theorem busy_port_keeps_awake_witness:
  "\<exists>r. do_try_S3_no_irq sample_board = Some (-1, r) \<and> do_try_S4_no_irq sample_board = Some (Some (-1, r))"
  using busy_port_keeps_awake [OF sample_board_facts(1,2,3), of 0 0]
  by (auto simp: sample_board_def port_busy_def sample_soc_def rtos_at_def sample_uart_def)

theorem S3_timer_wakes_before_alarm_witness:
  "\<exists>w'. check_n_setup_S3_wakeup_from_timer sample_soc = (0, w')
    \<and> unat (fst (scc_get sample_soc)) + unat (LPDS_WAKETIME_WAKE w') + 634 \<le> 11000"
proof -
  have m: "PRCMSlowClkCtrMatchGet (hib (clk sample_soc)) = 11000"
    by (simp add: PRCMSlowClkCtrMatchGet_def sample_soc_def sample_clk_def)
  have c: "fst (scc_get sample_soc) = 1000"
    by (simp add: scc_get_def sample_soc_def sample_clk_def PRCMSlowClkCtrGet_def latch_def Let_def)
  have a: "has_alarm_set sample_soc"
    by (simp add: has_alarm_set_def sample_soc_def sample_clk_def cc_rtc_has_alarm_def)
  obtain w' where "check_n_setup_S3_wakeup_from_timer sample_soc = (0, w')"
    using a c m by (auto simp: check_n_setup_S3_wakeup_from_timer_def Let_def WAKEUP_TIME_LPDS_def case_prod_beta)
  then show ?thesis using S3_timer_wakes_before_alarm [OF a] m by auto
qed

theorem unknown_pin_sleeps_forever_witness:
  "\<exists>w'. cc_set_up_wkup_srcs e_pm_S3 (sample_soc\<lparr>clk := sample_clk\<lparr>has_alarm := False\<rparr>\<rparr>) = (0, w') \<and> LPDS_WAKEUP_CFG w' = 0"
proof -
  let ?w = "sample_soc\<lparr>clk := sample_clk\<lparr>has_alarm := False\<rparr>\<rparr>"
  have "spl_pins (sample_port\<lparr>pin_wake_src := 8\<rparr>) = [3]" "spl_pins sample_port = []"
    by code_simp+
  then have "cc_gpio_get_spl_purpose MAX_GPIO_WAKESOURCE (pins ?w) = (1, [(3, 0)])"
    by (simp add: cc_gpio_get_spl_purpose_def MAX_GPIO_WAKESOURCE_def MAX_GPIO_PORTS_def sample_soc_def numeral_eq_Suc
        get_inttype_def sample_port_def sample_gpio_def)
  moreover have "\<not> has_alarm_set ?w" by (simp add: has_alarm_set_def sample_clk_def cc_rtc_has_alarm_def)
  ultimately show ?thesis
    using unknown_pin_sleeps_forever [of ?w 1 3 0 "[]"]
    by (simp add: gpio_wake_src_def sample_soc_def reset_nvic_def has_flag_def)
qed

theorem nvic_survives_sleep_witness:
  "nvic_regs (cc_restore_soc_data (lpds (cc_back_up_soc_data 7 (sample_soc\<lparr>nvic_regs := reset_nvic\<lparr>NVIC_VTABLE := 64\<rparr>\<rparr>))))
    = reset_nvic\<lparr>NVIC_VTABLE := 64\<rparr>"
  using nvic_survives_sleep [of "sample_soc\<lparr>nvic_regs := reset_nvic\<lparr>NVIC_VTABLE := 64\<rparr>\<rparr>" 7]
  by (simp add: reset_nvic_def)

end
