(* ===== verification/Spec2Isabelle.thy ===== *)
theory Spec2Isabelle
  imports Str_Lib Http_Serve Cc_Timer_Props Tftp_Props Sl_Pool_Threads Sl_Payload_Props Sl_Event_Props Sl_Fs_Props
    Sl_Spawn_Props Sl_NonOs Cc_Pm_Board
begin

text \<open>
  A verification library for the host software of the CC3200 SDK: the code that runs on the
  application processor of the device beside its network processor.  Paths below are relative to
  \<open>src/\<close>.

  \<^bold>\<open>The program.\<close>  An application for the device is linked from layers.  The SimpleLink host driver
  (\<open>simplelink/source\<close>) exchanges messages with the network processor over a serial bus and gives
  the socket, file and device calls \<open>sl_...\<close> to everything above it.  The network applications
  (\<open>netapps\<close>: HTTP server with WebSockets, TFTP client) are state machines on top of these calls.
  The middleware (\<open>middleware\<close>) has software timers that share a few hardware timers, through
  drivers for the calendar clock and for the 32-bit timer modules, and a power management framework
  that sends the chip into the deepest sleep its drivers and the platform allow whenever nothing is
  to be done; both use the driver library (\<open>driverlib\<close>), the code that touches the registers.  The
  library models each of these layers down to the next interface: the HTTP server and the TFTP
  client over a record of host calls, the timers and the power management over the registers, the
  host driver over the bytes on the bus.

  \<^bold>\<open>How C is read.\<close>  Machine integers are words of their width (\<open>u8\<close> to \<open>u64\<close>); arithmetic wraps
  as in the code, and \<open>int\<close> results of C functions are \<open>int\<close>.  Pointers of the HTTP server are
  \<open>Ptr block offset\<close> or \<open>Null\<close> into a memory of named blocks (\<open>CC_Prelude\<close>, \<open>Http_State\<close>), so that
  two pointers alias exactly when they do in the code and a write past an array is visible as such:
  each array is a block of its own, and bytes written past its end stay in that block, where the code
  would overwrite what happens to lie behind the array.  What is stated of the server is therefore
  true of the code as long as it stays inside its arrays; the findings name the requests for which it
  does not.
  Pools and tables (software timers, action objects) are lists indexed as in the code, and linked
  lists are the \<open>next\<close> fields in them.  A function whose result is an \<open>option\<close> is \<open>None\<close> where the
  code does not return or has no defined result: an assertion that fails and spins for ever, an
  access outside the buffer it is meant for, and a loop that does not end.  Loops whose end
  depends on data or on the environment are \<open>partial_function (option)\<close> without fuel, so that
  \<open>= Some\<close> in a property means that the code returns.  The world outside the program is a value of a
  type variable \<open>'w\<close> that the parameters read and change.

  \<^bold>\<open>Parameters.\<close>  What is not in the repository or belongs to the environment is an argument of the
  definitions: the record \<open>sl_ops\<close> (host calls and file system for the HTTP server; the hash of the
  WebSocket handshake, which the code leaves to a hardware module), the record \<open>udp_ops\<close> (socket and
  allocator calls of the TFTP client), the table of operations of a hardware timer (\<open>hw_timer_ops\<close>),
  the callbacks of the timers and of the dynamic resources, the registers of the slow clock and of
  the timer modules (records), the record \<open>host_ops\<close> (bus transfers, locks and semaphores of the
  operating system, and the byte the stack happens to hold where the code sends an uninitialised
  one) and the record \<open>app_ops\<close> (\<open>callbacks\<close> of the application: its event handlers and its answer
  to a token request) of the host driver.  The framework of the power management has the functions
  of its platform and its drivers in records, as the code has; \<open>Cc_Pm_Board\<close> puts in those of the
  repository.  Where a function of the serial port spins until an interrupt, the list \<open>evs\<close> holds the
  interrupts that come, each with what the hardware did before.

  \<^bold>\<open>HTTP server\<close> (\<open>netapps/http/server\<close>).  \<open>Http_String\<close> is \<open>HttpString.c\<close>, \<open>Str_Lib\<close> is \<open>strlib.c\<close>,
  \<open>Base64\<close> the three copies of the encoder; \<open>Radix\<close> holds the reference for all routines that print
  numbers.  \<open>Http_State\<close> has the records of \<open>HttpCore.c\<close> and the life cycle of a connection;
  \<open>Http_Socket\<close> is \<open>HttpSocket.c\<close>; \<open>Http_Line\<close> cuts the packets of a connection into header lines
  and content; \<open>Http_Request\<close> parses method and header lines; \<open>Http_Response\<close> builds and sends
  responses; \<open>Http_Content\<close> is \<open>HttpStatic.c\<close> and \<open>HttpDynamic.c\<close>; \<open>Web_Sock\<close> is
  \<open>WebSockHandler.c\<close> and \<open>Ws_Handshake\<close> the handshake of \<open>HttpCore.c\<close>; \<open>Http_Core\<close> is
  \<open>HttpCore_HandleRequestPacket\<close>, \<open>RunHttpServer\<close> and what surrounds them, and composes all of the
  above.  The lemmas show that the line reader refines the cutting of the whole byte stream at its
  delimiters, however the stream is split into packets; that a request in one packet is answered and
  the connection is back at its start (\<open>Http_Serve\<close>); that a static file is sent whole, in blocks of
  at most 1000 bytes, and what becomes of the request when the file is missing, cannot be read or cannot
  be sent; that a WebSocket message arrives unmasked, and that frames sent decode, opcodes included, to
  the message; that the answer to a handshake carries the key of the protocol (\<open>accept_key\<close>), unless the
  digest has a zero byte; that handling one connection leaves the others alone (\<open>Http_Frame\<close>) and the count of
  open connections stays right; and where these break.  \<open>content_handler\<close> is the interface between
  the state machine and the three content handlers.

  \<^bold>\<open>Timers\<close> (\<open>middleware\<close>).  \<open>Hw_Timer\<close> is the interface \<open>hw_timer.h\<close>: the 64-bit time values of the
  code as a linear order, and the locales \<open>hwt_driver\<close> and \<open>hwt_clock\<close> that say what the framework
  expects of a driver.  \<open>Prcm_Rtc\<close> and \<open>Timer_Drv\<close> are the parts of \<open>driverlib/prcm.c\<close> and
  \<open>driverlib/timer.c\<close> below the drivers \<open>Rtc_Hal\<close> (\<open>rtc_hal.c\<close>, the alarm of the calendar clock) and
  \<open>Hw_Timer32\<close> (\<open>hw_timer32.c\<close>); both drivers are shown to be instances of the locales.  \<open>Cc_Timer\<close> is
  \<open>cc_timer.c\<close>; \<open>Cc_Timer_List\<close> reads its chains as lists, \<open>Cc_Timer_Sched\<close> states the invariant
  \<open>synced\<close> of a hardware timer (the waiting timers in the order of their expiry, the alarm set for
  the first), \<open>Cc_Timer_Expiry\<close> is the interrupt, and \<open>Cc_Timer_Props\<close> has the properties: starting
  and stopping keep the invariant, the interrupt fires exactly the timers that are due, creating and
  deleting give and take a timer of the pool; and the defects of the flags and of early alarms.

  \<^bold>\<open>Power management\<close> (\<open>middleware/framework/pm\<close>, \<open>middleware/soc\<close>).  \<open>Cc_Pm\<close> is \<open>cc_pm.c\<close>: the list of
  the modules with their drivers, the descent of the idle task from hibernation (S4) over low power
  deep sleep (S3) to sleep, and the wake-up.  \<open>Cc_Pm_List\<close> reads the list as a list of modules and
  shows that registering appends and unregistering removes; \<open>Cc_Pm_Idle\<close> states the contracts of a
  driver (locale \<open>pm_drivers\<close>) and of a platform (\<open>pm_platform\<close>) and proves what the idle task then
  guarantees.  \<open>Uart_Hal\<close> and \<open>Uart_Drv\<close> are the serial ports (\<open>uart_hal.c\<close>, \<open>uart_drv.c\<close> over queues of
  bytes for \<open>driverlib/uart.c\<close>), \<open>Gpio_Hal\<close> the pins (\<open>gpio_hal.c\<close>, \<open>driverlib/gpio.c\<close>), \<open>Cc_Pm_Ops\<close> the
  operations of the chip (\<open>cc_pm_ops.c\<close>, \<open>driverlib/prcm.c\<close>) with the platform of a sample board
  (\<open>example/idle_profile/lp3p0_plat_ops.c\<close>).  \<open>Uart_Props\<close> shows that the serial port gives the contract of
  a driver, that polling sends every byte, and where results, callbacks and a second port go wrong;
  \<open>Gpio_Props\<close> that an output pin reads back what was written and an input pin ignores it, and which pins
  are not served; \<open>Cc_Pm_Board\<close> that
  the board gives the contract of a platform, in a world whose clock, pins and pending interrupts may
  change wherever the platform looks (\<open>board_world\<close>), so that after the idle task all modules are at full
  power when the ports are loaded and no byte comes in meanwhile, and that a byte that does come in keeps
  its port down; that a port in use keeps the chip awake, and that the sleep ends before the alarm.

  \<^bold>\<open>TFTP client\<close> (\<open>netapps/tftp/client\<close>).  \<open>Tftp\<close> is \<open>tftp.c\<close>; \<open>Tftp_Props\<close> runs it against servers
  that follow the protocol: a file that fits is received whole and one is sent whole when no packet
  is lost, with every packet sent to the port the protocol asks for; a packet of a stranger is never
  processed; and what happens on errors and time-outs.

  \<^bold>\<open>SimpleLink host driver\<close> (\<open>simplelink/source/driver.c\<close>, \<open>flowcont.c\<close>).  \<open>Sl_Driver\<close> is the control
  block, \<open>Sl_Pool\<close> the pool of ten action objects on its three lists.  \<open>Sl_Pool_Props\<close> reads the
  lists as lists of indices; \<open>Sl_Pool_Threads\<close> is a step relation of threads that take, wait and
  release, with the invariant that no object is lost and no two threads hold the same socket or
  action, and that a release gives back exactly what was taken.  \<open>Sl_Msg\<close> and \<open>Sl_Read\<close> write and read messages, \<open>Sl_Cmd\<close> has commands, the reading task,
  data operations and flow control.  \<open>Sl_Link\<close> gives the driver a bus that delivers bytes in order;
  over it \<open>Sl_Cmd_Props\<close>, \<open>Sl_Data_Props\<close> and \<open>Sl_Payload_Props\<close> show that the header scanner finds
  the next header after any padding shorter than the threshold of 2000 bytes, also when the
  synchronisation pattern is repeated, that a command returns
  the status and the payload the processor answered, that received data reaches the thread that
  asked, that a sender waits until a buffer is free; and where payloads or flow control go wrong.
  \<open>Sl_Event\<close> is the handling of the messages nobody asked for: the handlers of \<open>device.c\<close>,
  \<open>netapp.c\<close> and \<open>driver.c\<close> that turn a message into an event structure of the application, byte by
  byte as the code copies it, the answers that wake a sleeping call, and the token requests of the
  internal HTTP server, which the driver answers with a message of its own.  \<open>Sl_Event_Props\<close> shows
  which structure the application gets for a connection, and where lengths are not checked and
  calls are left asleep or woken too early.  \<open>Sl_Fs\<close> is \<open>fs.c\<close>, the file calls of the API, over the
  function that carries out one command; \<open>Sl_Fs_Props\<close> states what that function promises in the
  locale \<open>cmd_channel\<close>, shows that the driver over the bus gives it, and that a file is read and
  written whole in commands of at most 1460 bytes.  \<open>Sl_Spawn\<close> is \<open>spawn.c\<close>, the queue of functions that
  the interrupt handler hands over to a task, as a step relation of the task and its callers;
  \<open>Sl_Spawn_Props\<close> shows that every function is executed once, in order, and that no wake-up is lost.
  \<open>Sl_NonOs\<close> is \<open>nonos.c\<close>, the same services without an operating system.

  \<^bold>\<open>Bounds.\<close>  All sizes are those of the code: 320 bytes of saved header and 1000 bytes of packet, a
  WebSocket frame of at most 1000 bytes, 516 bytes of TFTP packet, 10 action objects, 8 sockets, a
  scan of 2000 bytes for the synchronisation pattern.  No model uses fuel.

  \<^bold>\<open>Not modelled.\<close>  The operating systems and other third-party code (\<open>third_party\<close>, \<open>ti_rtos\<close>), the
  register definitions of \<open>inc\<close>, and the sample programs (\<open>example\<close>), which only call the layers
  above; the peripherals of \<open>driverlib\<close> other than timers, clock, power control, pins and serial
  ports, which only have their registers set; of \<open>middleware\<close> the SPI driver, which is built like that
  of the serial ports, the DMA and interrupt controllers and the parking of pins; the wrappers of
  the API in \<open>socket.c\<close>, \<open>netcfg.c\<close> and \<open>wlan.c\<close>, which pack arguments into commands; \<open>HttpAuth.c\<close>, whose functions are compiled only with an
  option that the configuration leaves out; \<open>sha1.c\<close>, which starts a hardware module; \<open>tftp6.c\<close>,
  compiled only for IPv6; the e-mail and XMPP clients.  Of the host driver the polling mode, the
  serial build and the build with static memory are left out, as the configuration of the repository
  does.  Time passes only where the code looks at a clock; delays have no effect on the state.
\<close>

end
